(* ===== verification/Prelude.thy ===== *)
theory Prelude
  imports Complex_Main "HOL-Library.AList" "HOL-Library.Multiset"
begin

text \<open>
  The Go runtime and standard library, as far as the program uses them: 64-bit integers with their
  wrap-around, \<open>time.Time\<close> and \<open>time.Duration\<close>, byte strings, the "find the first
  element and change it in place" loop that the stores are written with, and maps as association
  lists. Everything here is shared by the component theories; nothing here is a property of the
  program.
\<close>

named_theorems go_time "unfolding of the time and duration operations"
named_theorems go_str "unfolding of the string operations"

section \<open>64-bit integers, durations and points in time\<close>

text \<open>
  A Go \<open>int\<close>, \<open>int64\<close> or \<open>time.Duration\<close> is an \<open>int\<close> here, and an operation
  of the source that can leave the 64-bit range is followed by \<open>wrap64\<close>.
\<close>

definition wrap64 :: "int \<Rightarrow> int" where
  "wrap64 x = (x + 9223372036854775808) mod 18446744073709551616 - 9223372036854775808"

lemma wrap64_id: "- 9223372036854775808 \<le> x \<Longrightarrow> x < 9223372036854775808 \<Longrightarrow> wrap64 x = x"
  by (simp add: wrap64_def)

lemma wrap64_bounds: "- 9223372036854775808 \<le> wrap64 x" "wrap64 x < 9223372036854775808"
proof -
  have "0 \<le> (x + 9223372036854775808) mod 18446744073709551616"
    and "(x + 9223372036854775808) mod 18446744073709551616 < 18446744073709551616"
    by simp_all
  then show "- 9223372036854775808 \<le> wrap64 x" "wrap64 x < 9223372036854775808"
    unfolding wrap64_def by linarith+
qed

text \<open>
  \<open>time.Time\<close> is the number of nanoseconds since the zero time (1 January of year 1, UTC), so
  that \<open>IsZero\<close> is being \<open>0\<close>. \<open>Add\<close> has a range far beyond 64 bits of nanoseconds;
  \<open>Sub\<close> saturates at the bounds of a \<open>Duration\<close>.
\<close>

type_synonym gotime = int
type_synonym duration = int

definition zero_time :: gotime where
  "zero_time = 0"

definition second :: duration where "second = 1000000000"
definition minute :: duration where "minute = 60000000000"
definition hour :: duration where "hour = 3600000000000"

definition is_zero :: "gotime \<Rightarrow> bool" where
  "is_zero t \<longleftrightarrow> t = zero_time"

definition dur_mul :: "int \<Rightarrow> duration \<Rightarrow> duration" where
  "dur_mul n u = wrap64 (n * u)"

definition time_add :: "gotime \<Rightarrow> duration \<Rightarrow> gotime" where
  "time_add t d = t + d"

definition time_sub :: "gotime \<Rightarrow> gotime \<Rightarrow> duration" where
  "time_sub t u = max (- 9223372036854775808) (min 9223372036854775807 (t - u))"

definition before :: "gotime \<Rightarrow> gotime \<Rightarrow> bool" where
  "before t u \<longleftrightarrow> t < u"

definition after :: "gotime \<Rightarrow> gotime \<Rightarrow> bool" where
  "after t u \<longleftrightarrow> u < t"

text \<open>Seconds and nanoseconds since the Unix epoch.\<close>

definition unix :: "gotime \<Rightarrow> int" where
  "unix t = t div 1000000000 - 62135596800"

definition unix_nano :: "gotime \<Rightarrow> int" where
  "unix_nano t = wrap64 (t - 62135596800000000000)"

lemmas [go_time] = zero_time_def second_def minute_def hour_def is_zero_def dur_mul_def
  time_add_def time_sub_def before_def after_def

lemma time_sub_less_iff:
  "- 9223372036854775808 < d \<Longrightarrow> d \<le> 9223372036854775807 \<Longrightarrow> time_sub t u < d \<longleftrightarrow> t - u < d"
  by (auto simp: time_sub_def)

lemma time_sub_ge_iff:
  "- 9223372036854775808 < d \<Longrightarrow> d \<le> 9223372036854775807 \<Longrightarrow> d \<le> time_sub t u \<longleftrightarrow> d \<le> t - u"
  by (auto simp: time_sub_def)

section \<open>Strings\<close>

text \<open>
  A Go string is a list of bytes (\<open>char\<close>). Case conversion and white space are those of the
  ASCII range, other bytes are left alone.
\<close>

definition digit_char :: "nat \<Rightarrow> char" where
  "digit_char n = char_of (48 + n)"

fun nat_digits :: "nat \<Rightarrow> string" where
  "nat_digits n = (if n < 10 then [digit_char n] else nat_digits (n div 10) @ [digit_char (n mod 10)])"

declare nat_digits.simps [simp del]

text \<open>\<open>strconv.Itoa\<close> and the verb \<open>%d\<close>.\<close>

definition itoa :: "int \<Rightarrow> string" where
  "itoa i = (if i < 0 then CHR ''-'' # nat_digits (nat (- i)) else nat_digits (nat i))"

definition to_lower_char :: "char \<Rightarrow> char" where
  "to_lower_char c =
     (let n = of_char c :: nat in if 65 \<le> n \<and> n \<le> 90 then char_of (n + 32) else c)"

definition to_upper_char :: "char \<Rightarrow> char" where
  "to_upper_char c =
     (let n = of_char c :: nat in if 97 \<le> n \<and> n \<le> 122 then char_of (n - 32) else c)"

definition to_lower :: "string \<Rightarrow> string" where
  "to_lower s = map to_lower_char s"

definition to_upper :: "string \<Rightarrow> string" where
  "to_upper s = map to_upper_char s"

definition equal_fold :: "string \<Rightarrow> string \<Rightarrow> bool" where
  "equal_fold s t \<longleftrightarrow> to_lower s = to_lower t"

definition is_space :: "char \<Rightarrow> bool" where
  "is_space c \<longleftrightarrow> (let n = of_char c :: nat in n = 32 \<or> (9 \<le> n \<and> n \<le> 13))"

definition trim_space :: "string \<Rightarrow> string" where
  "trim_space s = rev (dropWhile is_space (rev (dropWhile is_space s)))"

fun has_prefix :: "'a list \<Rightarrow> 'a list \<Rightarrow> bool" where
  "has_prefix s [] = True"
| "has_prefix [] (p # ps) = False"
| "has_prefix (c # cs) (p # ps) = (c = p \<and> has_prefix cs ps)"

definition has_suffix :: "'a list \<Rightarrow> 'a list \<Rightarrow> bool" where
  "has_suffix s p = has_prefix (rev s) (rev p)"

text \<open>\<open>strings.Index\<close>: the offset of the first occurrence, \<open>None\<close> for \<open>-1\<close>.\<close>

fun str_index :: "string \<Rightarrow> string \<Rightarrow> nat option" where
  "str_index [] p = (if p = [] then Some 0 else None)"
| "str_index (c # cs) p =
     (if has_prefix (c # cs) p then Some 0 else map_option Suc (str_index cs p))"

definition str_contains :: "string \<Rightarrow> string \<Rightarrow> bool" where
  "str_contains s p \<longleftrightarrow> str_index s p \<noteq> None"

fun join :: "string \<Rightarrow> string list \<Rightarrow> string" where
  "join sep [] = []"
| "join sep [x] = x"
| "join sep (x # y # ys) = x @ sep @ join sep (y # ys)"

lemma has_prefix_iff: "has_prefix s p \<longleftrightarrow> (\<exists>t. s = p @ t)"
  by (induction s p rule: has_prefix.induct) auto

lemma has_prefix_append [simp]: "has_prefix (p @ t) p"
  by (auto simp: has_prefix_iff)

lemma str_index_Some:
  "str_index s p = Some i \<Longrightarrow> i + length p \<le> length s \<and> has_prefix (drop i s) p"
proof (induction s p arbitrary: i rule: str_index.induct)
  case (1 p)
  then show ?case by (auto split: if_splits)
next
  case (2 c cs p)
  show ?case
  proof (cases "has_prefix (c # cs) p")
    case True
    moreover from True obtain t where "c # cs = p @ t" by (auto simp: has_prefix_iff)
    then have "length p \<le> length (c # cs)" by (metis length_append le_add1)
    ultimately show ?thesis using "2.prems" by simp
  next
    case False
    with "2.prems" obtain j where "str_index cs p = Some j" and "i = Suc j" by auto
    with "2.IH" [OF False] show ?thesis by simp
  qed
qed

lemma str_contains_iff: "str_contains s p \<longleftrightarrow> (\<exists>a b. s = a @ p @ b)"
proof
  assume "str_contains s p"
  then obtain i where "str_index s p = Some i" by (auto simp: str_contains_def)
  then have "has_prefix (drop i s) p" by (blast dest: str_index_Some)
  then obtain t where "drop i s = p @ t" by (auto simp: has_prefix_iff)
  then have "s = take i s @ p @ t" by (metis append_take_drop_id)
  then show "\<exists>a b. s = a @ p @ b" by blast
next
  assume "\<exists>a b. s = a @ p @ b"
  then obtain a b where "s = a @ p @ b" by blast
  then show "str_contains s p"
  proof (induction a arbitrary: s)
    case Nil
    then have "has_prefix s p" by simp
    then show ?case by (cases s) (auto simp: str_contains_def elim: has_prefix.elims)
  next
    case (Cons c a)
    then show ?case by (auto simp: str_contains_def)
  qed
qed

lemma digit_char_simps:
  "digit_char 0 = CHR ''0''" "digit_char (Suc 0) = CHR ''1''" "digit_char 2 = CHR ''2''"
  "digit_char 3 = CHR ''3''" "digit_char 4 = CHR ''4''" "digit_char 5 = CHR ''5''"
  "digit_char 6 = CHR ''6''" "digit_char 7 = CHR ''7''" "digit_char 8 = CHR ''8''"
  "digit_char 9 = CHR ''9''"
  by code_simp+

lemmas itoa_simps = itoa_def nat_digits.simps digit_char_simps

text \<open>Decimal numerals: digits only, and the number can be read back.\<close>

fun digits_value :: "string \<Rightarrow> nat" where
  "digits_value s = foldl (\<lambda>a c. 10 * a + (of_char c - 48)) 0 s"

lemma of_char_digit: "n < 10 \<Longrightarrow> of_char (digit_char n) = (48 + n :: nat)"
  by (simp add: digit_char_def)

lemma digits_value_nat_digits: "digits_value (nat_digits n) = n"
proof (induction n rule: nat_digits.induct)
  case (1 n)
  show ?case
  proof (cases "n < 10")
    case True
    then show ?thesis by (subst nat_digits.simps) (simp add: of_char_digit)
  next
    case False
    then have "digits_value (nat_digits (n div 10)) = n div 10" by (rule "1.IH")
    with False show ?thesis by (subst nat_digits.simps) (simp add: of_char_digit)
  qed
qed

lemma nat_digits_inj: "nat_digits m = nat_digits n \<Longrightarrow> m = n"
  by (metis digits_value_nat_digits)

lemma nat_digits_no_dash: "CHR ''-'' \<notin> set (nat_digits n)"
proof (induction n rule: nat_digits.induct)
  case (1 n)
  have digit: "k < 10 \<Longrightarrow> digit_char k \<noteq> CHR ''-''" for k
  proof
    assume "k < 10" and "digit_char k = CHR ''-''"
    then have "(of_char (CHR ''-'') :: nat) = 48 + k" using of_char_digit [of k] by simp
    then show False by simp
  qed
  have digit': "k < 10 \<Longrightarrow> CHR ''-'' \<noteq> digit_char k" for k
    using digit [of k] by metis
  show ?case using "1.IH" by (subst nat_digits.simps) (simp add: digit')
qed

lemma itoa_inj: "itoa i = itoa j \<Longrightarrow> i = j"
  using nat_digits_no_dash [of "nat i"] nat_digits_no_dash [of "nat j"]
  by (auto simp: itoa_def split: if_splits dest: nat_digits_inj)
     (metis list.set_intros(1) nat_digits_no_dash)+

text \<open>A suffix of the form \<open>-%d\<close> with a number that is not negative can be split off again.\<close>

lemma dash_suffix_inj:
  assumes eq: "xs @ CHR ''-'' # us = ys @ CHR ''-'' # vs"
    and us: "CHR ''-'' \<notin> set us" and vs: "CHR ''-'' \<notin> set vs"
  shows "xs = ys \<and> us = vs"
proof -
  have *: "takeWhile (\<lambda>c. c \<noteq> CHR ''-'') (rev ws @ CHR ''-'' # zs) = rev ws"
    if "CHR ''-'' \<notin> set ws" for ws zs :: string
    using that by (subst takeWhile_append2) auto
  from eq have "rev us @ CHR ''-'' # rev xs = rev vs @ CHR ''-'' # rev ys"
    by (metis append.assoc append_Cons append_Nil rev.simps(2) rev_append)
  with us vs have "us = vs" using * [of us "rev xs"] * [of vs "rev ys"] by simp
  with eq show ?thesis by simp
qed

section \<open>The in-place update loop\<close>

text \<open>
  \<^verbatim>\<open>for i := range xs { if match(xs[i]) { change xs[i]; return/break } }\<close>: the stores keep slices
  and change the first matching element. \<open>find\<close> says which element that is and
  \<open>replace_first\<close> is the slice afterwards.
\<close>

fun replace_first :: "('a \<Rightarrow> bool) \<Rightarrow> ('a \<Rightarrow> 'a) \<Rightarrow> 'a list \<Rightarrow> 'a list" where
  "replace_first P f [] = []"
| "replace_first P f (x # xs) = (if P x then f x # xs else x # replace_first P f xs)"

fun remove_first :: "('a \<Rightarrow> bool) \<Rightarrow> 'a list \<Rightarrow> 'a list" where
  "remove_first P [] = []"
| "remove_first P (x # xs) = (if P x then xs else x # remove_first P xs)"

lemma length_replace_first [simp]: "length (replace_first P f xs) = length xs"
  by (induction xs) auto

lemma map_replace_first:
  "(\<And>x. P x \<Longrightarrow> k (f x) = k x) \<Longrightarrow> map k (replace_first P f xs) = map k xs"
  by (induction xs) auto

lemma replace_first_none: "find P xs = None \<Longrightarrow> replace_first P f xs = xs"
  by (induction xs) (auto split: if_splits)

lemma replace_first_split:
  "find P xs = Some x \<Longrightarrow>
     \<exists>us vs. xs = us @ x # vs \<and> P x \<and> (\<forall>u \<in> set us. \<not> P u) \<and>
       replace_first P f xs = us @ f x # vs"
proof (induction xs)
  case Nil
  then show ?case by simp
next
  case (Cons y xs)
  show ?case
  proof (cases "P y")
    case True
    with Cons.prems have "x = y" by simp
    with True have "y # xs = [] @ x # xs \<and> P x \<and> (\<forall>u \<in> set []. \<not> P u) \<and>
        replace_first P f (y # xs) = [] @ f x # xs"
      by simp
    then show ?thesis by blast
  next
    case False
    with Cons.prems have "find P xs = Some x" by simp
    then obtain us vs where "xs = us @ x # vs \<and> P x \<and> (\<forall>u \<in> set us. \<not> P u) \<and>
        replace_first P f xs = us @ f x # vs"
      using Cons.IH by blast
    with False have "y # xs = (y # us) @ x # vs \<and> P x \<and> (\<forall>u \<in> set (y # us). \<not> P u) \<and>
        replace_first P f (y # xs) = (y # us) @ f x # vs"
      by auto
    then show ?thesis by blast
  qed
qed

lemma find_SomeD: "find P xs = Some x \<Longrightarrow> x \<in> set xs \<and> P x"
  by (auto simp: find_Some_iff)

lemma find_NoneD: "find P xs = None \<Longrightarrow> x \<in> set xs \<Longrightarrow> \<not> P x"
  by (auto simp: find_None_iff)

lemma set_replace_first:
  "set (replace_first P f xs) \<subseteq> set xs \<union> f ` {x \<in> set xs. P x}"
  by (induction xs) auto

lemma replace_first_ball:
  "(\<And>x. x \<in> set xs \<Longrightarrow> Q x) \<Longrightarrow> (\<And>x. x \<in> set xs \<Longrightarrow> P x \<Longrightarrow> Q x \<Longrightarrow> Q (f x)) \<Longrightarrow>
     x \<in> set (replace_first P f xs) \<Longrightarrow> Q x"
  using set_replace_first [of P f xs] by auto

lemma find_replace_first:
  "find P xs = Some x \<Longrightarrow> P (f x) \<Longrightarrow> find P (replace_first P f xs) = Some (f x)"
  by (induction xs) (auto split: if_splits)

lemma find_replace_first_other:
  "(\<And>x. P x \<Longrightarrow> \<not> Q x \<and> \<not> Q (f x)) \<Longrightarrow> find Q (replace_first P f xs) = find Q xs"
  by (induction xs) auto

lemma set_remove_first: "set (remove_first P xs) \<subseteq> set xs"
  by (induction xs) auto

lemma remove_first_filter:
  "distinct (map k xs) \<Longrightarrow> remove_first (\<lambda>x. k x = i) xs = filter (\<lambda>x. k x \<noteq> i) xs"
proof (induction xs)
  case Nil
  then show ?case by simp
next
  case (Cons x xs)
  show ?case
  proof (cases "k x = i")
    case True
    with Cons.prems have "\<forall>y \<in> set xs. k y \<noteq> i" by (metis distinct.simps(2) image_eqI list.simps(9) list.set_map)
    with True show ?thesis by (simp add: filter_id_conv)
  next
    case False
    with Cons show ?thesis by simp
  qed
qed

lemma replace_first_distinct:
  "distinct (map k xs) \<Longrightarrow>
     replace_first (\<lambda>x. k x = i) f xs = map (\<lambda>x. if k x = i then f x else x) xs"
proof (induction xs)
  case Nil
  then show ?case by simp
next
  case (Cons x xs)
  show ?case
  proof (cases "k x = i")
    case True
    with Cons.prems have "\<forall>y \<in> set xs. k y \<noteq> i" by (metis distinct.simps(2) image_eqI list.simps(9) list.set_map)
    with True show ?thesis by (simp add: map_idI)
  next
    case False
    with Cons show ?thesis by simp
  qed
qed

text \<open>
  The same for slices whose elements carry a key: looking one up after a replacement, a removal or
  an append.
\<close>

lemma find_append: "find P (xs @ ys) = (case find P xs of None \<Rightarrow> find P ys | Some x \<Rightarrow> Some x)"
  by (induction xs) auto

lemma find_key_replace:
  "(\<And>x. k x = j \<Longrightarrow> k (f x) = j) \<Longrightarrow>
     find (\<lambda>x. k x = i) (replace_first (\<lambda>x. k x = j) f xs) =
       (if i = j then map_option f (find (\<lambda>x. k x = j) xs) else find (\<lambda>x. k x = i) xs)"
  by (induction xs) auto

lemma find_key_filter:
  "find (\<lambda>x. k x = i) (filter (\<lambda>x. k x \<noteq> j) xs) =
     (if i = j then None else find (\<lambda>x. k x = i) xs)"
  by (induction xs) auto

lemma map_key_replace:
  "(\<And>x. k x = j \<Longrightarrow> k (f x) = j) \<Longrightarrow>
     map k (replace_first (\<lambda>x. k x = j) f xs) = map k xs"
  by (rule map_replace_first) simp

lemma find_key_None: "find (\<lambda>x. k x = i) xs = None \<longleftrightarrow> i \<notin> set (map k xs)"
  by (auto simp: find_None_iff)

lemma find_key_member:
  "distinct (map k xs) \<Longrightarrow> x \<in> set xs \<Longrightarrow> find (\<lambda>y. k y = k x) xs = Some x"
  by (induction xs) auto

lemma distinct_map_filter_key: "distinct (map k xs) \<Longrightarrow> distinct (map k (filter P xs))"
  by (induction xs) auto

text \<open>Taking at most \<open>n\<close> matching elements in order: the loop with a \<open>len(result) >= limit\<close> break.\<close>

definition take_matching :: "nat \<Rightarrow> ('a \<Rightarrow> bool) \<Rightarrow> 'a list \<Rightarrow> 'a list" where
  "take_matching n P xs = take n (filter P xs)"

lemma set_take_matching: "x \<in> set (take_matching n P xs) \<Longrightarrow> x \<in> set xs \<and> P x"
  by (auto simp: take_matching_def dest: in_set_takeD)

lemma length_take_matching: "length (take_matching n P xs) \<le> n"
  by (simp add: take_matching_def)

end
