(* ===== verification/Model.thy ===== *)
theory Model
  imports Prelude
begin

text \<open>
  The data model of \<open>internal/monitoring/types.go\<close> and \<open>check_plugin_types.go\<close>: one
  record per Go struct, its fields in the order of the source under a short prefix. A pointer that
  may be nil is an \<open>option\<close>; a \<open>map[string]string\<close> is an association list with distinct
  keys, where nil and the empty map are both \<open>[]\<close>; a \<open>float64\<close> is a rational (NaN and the
  infinities are left out).
\<close>

type_synonym f64 = rat
type_synonym smap = "(string \<times> string) list"
type_synonym fmap = "(string \<times> f64) list"

text \<open>A Go \<open>interface{}\<close> that came from JSON or from a literal of the source.\<close>

datatype goval = VString string | VBool bool | VFloat f64 | VInt int | VInt64 int | VOther

section \<open>Configuration\<close>

record SSHCheckConfig =
  ssh_Host :: string
  ssh_Port :: int
  ssh_User :: string
  ssh_KeyPath :: string
  ssh_KeyEnv :: string
  ssh_Password :: string
  ssh_PasswordEnc :: string
  ssh_PasswordEnv :: string
  ssh_HasPassword :: bool
  ssh_HostKeyFingerprint :: string
  ssh_Metrics :: "string list"

record MySQLCheckConfig =
  my_DSNEnv :: string
  my_Host :: string
  my_Port :: int
  my_Username :: string
  my_Password :: string
  my_PasswordEnc :: string
  my_HasPassword :: bool
  my_Database :: string
  my_ConnectTimeoutSeconds :: int
  my_QueryTimeoutSeconds :: int
  my_ProcesslistLimit :: int
  my_StatementLimit :: int
  my_HostUserLimit :: int

record SSLCheckConfig =
  ssl_Host :: string
  ssl_Port :: int
  ssl_ServerName :: string
  ssl_WarningDays :: int
  ssl_CriticalDays :: int
  ssl_InsecureSkipVerify :: bool

record DNSCheckConfig =
  dns_Name :: string
  dns_RecordType :: string
  dns_Resolver :: string
  dns_Expected :: "string list"
  dns_MustNotContain :: "string list"

record PingCheckConfig =
  ping_Host :: string
  ping_Count :: int
  ping_MaxPacketLossPercent :: int
  ping_MaxAvgLatencyMs :: int

record DomainCheckConfig =
  dom_Domain :: string
  dom_WarningDays :: int
  dom_CriticalDays :: int
  dom_RDAPEndpoint :: string

record HeartbeatCheckConfig =
  hb_Token :: string
  hb_ExpectedIntervalSeconds :: int
  hb_GraceSeconds :: int

record CheckRemediationConfig =
  rem_Type :: string
  rem_Command :: string
  rem_URL :: string
  rem_Method :: string
  rem_Headers :: smap
  rem_TimeoutSeconds :: int
  rem_Risk :: string
  rem_Description :: string
  rem_SSH :: "SSHCheckConfig option"
  rem_ActionRef :: string
  rem_MaxAttempts :: int
  rem_CooldownSeconds :: int
  rem_ConsecutiveFailuresRequired :: int
  rem_VerifyAfterSeconds :: int
  rem_NotifyOnRemediation :: bool
  rem_EscalateOnExhaustion :: bool

record CheckConfig =
  chk_ID :: string
  chk_Name :: string
  chk_Type :: string
  chk_Server :: string
  chk_Application :: string
  chk_Target :: string
  chk_Host :: string
  chk_Port :: int
  chk_Command :: string
  chk_Path :: string
  chk_ExpectedStatus :: int
  chk_ExpectedContains :: string
  chk_TimeoutSeconds :: int
  chk_WarningThresholdMs :: int
  chk_FreshnessSeconds :: int
  chk_IntervalSeconds :: int
  chk_RetryCount :: int
  chk_RetryDelaySeconds :: int
  chk_CooldownSeconds :: int
  chk_Enabled :: "bool option"
  chk_Tags :: "string list"
  chk_Metadata :: smap
  chk_ServerId :: string
  chk_NotificationChannelIDs :: "string list"
  chk_MySQL :: "MySQLCheckConfig option"
  chk_SSH :: "SSHCheckConfig option"
  chk_SSL :: "SSLCheckConfig option"
  chk_DNS :: "DNSCheckConfig option"
  chk_Ping :: "PingCheckConfig option"
  chk_Domain :: "DomainCheckConfig option"
  chk_Heartbeat :: "HeartbeatCheckConfig option"
  chk_Remediation :: "CheckRemediationConfig option"
  chk_FailuresToOpen :: int
  chk_SuccessesToResolve :: int

text \<open>\<open>CheckConfig.IsEnabled\<close>: a missing flag means enabled.\<close>

definition check_is_enabled :: "CheckConfig \<Rightarrow> bool" where
  "check_is_enabled c = (case chk_Enabled c of None \<Rightarrow> True | Some b \<Rightarrow> b)"

definition zero_check :: CheckConfig where
  "zero_check = \<lparr>chk_ID = [], chk_Name = [], chk_Type = [], chk_Server = [], chk_Application = [],
     chk_Target = [], chk_Host = [], chk_Port = 0, chk_Command = [], chk_Path = [],
     chk_ExpectedStatus = 0, chk_ExpectedContains = [], chk_TimeoutSeconds = 0,
     chk_WarningThresholdMs = 0, chk_FreshnessSeconds = 0, chk_IntervalSeconds = 0,
     chk_RetryCount = 0, chk_RetryDelaySeconds = 0, chk_CooldownSeconds = 0, chk_Enabled = None,
     chk_Tags = [], chk_Metadata = [], chk_ServerId = [], chk_NotificationChannelIDs = [],
     chk_MySQL = None, chk_SSH = None, chk_SSL = None, chk_DNS = None, chk_Ping = None,
     chk_Domain = None, chk_Heartbeat = None, chk_Remediation = None, chk_FailuresToOpen = 0,
     chk_SuccessesToResolve = 0\<rparr>"

record RemoteServer =
  srv_ID :: string
  srv_Name :: string
  srv_Host :: string
  srv_Port :: int
  srv_User :: string
  srv_KeyPath :: string
  srv_KeyEnv :: string
  srv_Password :: string
  srv_PasswordEnc :: string
  srv_PasswordEnv :: string
  srv_HasPassword :: bool
  srv_Tags :: "string list"
  srv_Enabled :: "bool option"

record ServerConfig =
  sc_Addr :: string
  sc_ReadTimeoutSeconds :: int
  sc_WriteTimeoutSeconds :: int
  sc_IdleTimeoutSeconds :: int

record AuthConfig =
  auth_Enabled :: bool
  auth_Username :: string
  auth_Password :: string

record Config =
  cfg_Server :: ServerConfig
  cfg_Auth :: AuthConfig
  cfg_RetentionDays :: int
  cfg_CheckIntervalSeconds :: int
  cfg_Workers :: int
  cfg_AllowCommandChecks :: bool
  cfg_Servers :: "RemoteServer list"
  cfg_Checks :: "CheckConfig list"

section \<open>Results, state and summaries\<close>

record CheckResult =
  res_ID :: string
  res_CheckID :: string
  res_Name :: string
  res_Type :: string
  res_Server :: string
  res_Application :: string
  res_Status :: string
  res_Healthy :: bool
  res_Message :: string
  res_DurationMs :: int
  res_StartedAt :: gotime
  res_FinishedAt :: gotime
  res_Metrics :: fmap
  res_Tags :: "string list"

definition zero_result :: CheckResult where
  "zero_result = \<lparr>res_ID = [], res_CheckID = [], res_Name = [], res_Type = [], res_Server = [],
     res_Application = [], res_Status = [], res_Healthy = False, res_Message = [],
     res_DurationMs = 0, res_StartedAt = zero_time, res_FinishedAt = zero_time, res_Metrics = [],
     res_Tags = []\<rparr>"

record State =
  st_Checks :: "CheckConfig list"
  st_Results :: "CheckResult list"
  st_LastRunAt :: gotime
  st_UpdatedAt :: gotime

record StatusCount =
  cnt_Total :: int
  cnt_Healthy :: int
  cnt_Warning :: int
  cnt_Critical :: int
  cnt_Unknown :: int

definition zero_count :: StatusCount where
  "zero_count = \<lparr>cnt_Total = 0, cnt_Healthy = 0, cnt_Warning = 0, cnt_Critical = 0, cnt_Unknown = 0\<rparr>"

record Summary =
  sum_TotalChecks :: int
  sum_EnabledChecks :: int
  sum_Healthy :: int
  sum_Warning :: int
  sum_Critical :: int
  sum_Unknown :: int
  sum_LastRunAt :: "gotime option"
  sum_ByServer :: "(string \<times> StatusCount) list"
  sum_ByApplication :: "(string \<times> StatusCount) list"
  sum_Latest :: "CheckResult list"

record RunSummary =
  run_StartedAt :: gotime
  run_FinishedAt :: gotime
  run_Skipped :: bool
  run_Results :: "CheckResult list"
  run_Summary :: Summary

record DashboardSnapshot =
  dash_State :: State
  dash_Summary :: Summary
  dash_GeneratedAt :: gotime

section \<open>Incidents, alerts and queues\<close>

record Incident =
  inc_ID :: string
  inc_CheckID :: string
  inc_CheckName :: string
  inc_Type :: string
  inc_Status :: string
  inc_Severity :: string
  inc_Message :: string
  inc_StartedAt :: gotime
  inc_UpdatedAt :: gotime
  inc_ResolvedAt :: "gotime option"
  inc_AcknowledgedAt :: "gotime option"
  inc_AcknowledgedBy :: string
  inc_ResolvedBy :: string
  inc_Metadata :: smap

definition zero_incident :: Incident where
  "zero_incident = \<lparr>inc_ID = [], inc_CheckID = [], inc_CheckName = [], inc_Type = [],
     inc_Status = [], inc_Severity = [], inc_Message = [], inc_StartedAt = zero_time,
     inc_UpdatedAt = zero_time, inc_ResolvedAt = None, inc_AcknowledgedAt = None,
     inc_AcknowledgedBy = [], inc_ResolvedBy = [], inc_Metadata = []\<rparr>"

type_synonym AlertOperator = string

abbreviation OperatorEquals :: AlertOperator where "OperatorEquals \<equiv> ''equals''"
abbreviation OperatorNotEquals :: AlertOperator where "OperatorNotEquals \<equiv> ''not_equals''"
abbreviation OperatorGreaterThan :: AlertOperator where "OperatorGreaterThan \<equiv> ''greater_than''"
abbreviation OperatorLessThan :: AlertOperator where "OperatorLessThan \<equiv> ''less_than''"

record AlertCondition =
  cond_Field :: string
  cond_Operator :: AlertOperator
  cond_Value :: goval

record AlertChannel =
  ach_Type :: string
  ach_Config :: "(string \<times> goval) list"

record AlertRule =
  rule_ID :: string
  rule_Name :: string
  rule_Enabled :: bool
  rule_CheckIDs :: "string list"
  rule_Conditions :: "AlertCondition list"
  rule_Severity :: string
  rule_Channels :: "AlertChannel list"
  rule_CooldownMinutes :: int
  rule_Description :: string
  rule_ConsecutiveBreaches :: int
  rule_RecoverySamples :: int
  rule_ThresholdNum :: f64
  rule_RuleCode :: string

record Alert =
  alert_ID :: string
  alert_RuleID :: string
  alert_RuleName :: string
  alert_CheckID :: string
  alert_CheckName :: string
  alert_Severity :: string
  alert_Status :: string
  alert_Message :: string
  alert_TriggeredAt :: gotime
  alert_ResolvedAt :: "gotime option"

record AlertState =
  as_RuleCode :: string
  as_CheckID :: string
  as_Status :: string
  as_BreachStreak :: int
  as_RecoveryStreak :: int
  as_OpenIncidentID :: string

record NotificationEvent =
  ev_NotificationID :: string
  ev_IncidentID :: string
  ev_Channel :: string
  ev_PayloadJSON :: string
  ev_Status :: string
  ev_RetryCount :: int
  ev_LastError :: string
  ev_CreatedAt :: gotime
  ev_SentAt :: "gotime option"
  ev_RequestURL :: string
  ev_ResponseStatus :: int
  ev_ResponseBody :: string

record AIQueueItem =
  ai_IncidentID :: string
  ai_PromptVersion :: string
  ai_Status :: string
  ai_CreatedAt :: gotime
  ai_ClaimedAt :: "gotime option"
  ai_CompletedAt :: "gotime option"
  ai_LastError :: string

record AIAnalysisResult =
  air_IncidentID :: string
  air_Summary :: string
  air_Analysis :: string
  air_Suggestions :: "string list"
  air_Severity :: string
  air_Confidence :: string
  air_CreatedAt :: gotime

end
