(* ===== verification/AlertRules.thy ===== *)
theory AlertRules
  imports Model
begin

text \<open>
  The alert rule engine (\<open>alert_rules.go\<close>): which rules a check result triggers, the cooldown
  between two alerts of a rule for a check, the validation of rules, and the rules a fresh
  installation starts with.
\<close>

section \<open>Conditions\<close>

text \<open>The conversion \<open>int64(v)\<close> of a \<open>float64\<close> truncates towards zero.\<close>

definition trunc_f64 :: "f64 \<Rightarrow> int" where
  "trunc_f64 q = (if q < 0 then - \<lfloor>- q\<rfloor> else \<lfloor>q\<rfloor>)"

definition compareStrings :: "string \<Rightarrow> AlertOperator \<Rightarrow> goval \<Rightarrow> bool" where
  "compareStrings actual opr expected =
     (case expected of
        VString e \<Rightarrow>
          if opr = OperatorEquals then actual = e
          else if opr = OperatorNotEquals then actual \<noteq> e
          else False
      | _ \<Rightarrow> False)"

definition compareBool :: "bool \<Rightarrow> AlertOperator \<Rightarrow> goval \<Rightarrow> bool" where
  "compareBool actual opr expected =
     (case expected of
        VBool e \<Rightarrow>
          if opr = OperatorEquals then actual = e
          else if opr = OperatorNotEquals then actual \<noteq> e
          else False
      | _ \<Rightarrow> False)"

definition compare_ord :: "'a::linorder \<Rightarrow> AlertOperator \<Rightarrow> 'a \<Rightarrow> bool" where
  "compare_ord actual opr e =
     (if opr = OperatorEquals then actual = e
      else if opr = OperatorNotEquals then actual \<noteq> e
      else if opr = OperatorGreaterThan then actual > e
      else if opr = OperatorLessThan then actual < e
      else False)"

definition compareInt :: "int \<Rightarrow> AlertOperator \<Rightarrow> goval \<Rightarrow> bool" where
  "compareInt actual opr expected =
     (case expected of
        VFloat v \<Rightarrow> compare_ord actual opr (trunc_f64 v)
      | VInt v \<Rightarrow> compare_ord actual opr v
      | VInt64 v \<Rightarrow> compare_ord actual opr v
      | _ \<Rightarrow> False)"

definition compareFloat :: "f64 \<Rightarrow> AlertOperator \<Rightarrow> goval \<Rightarrow> bool" where
  "compareFloat actual opr expected =
     (case expected of
        VFloat v \<Rightarrow> compare_ord actual opr v
      | VInt v \<Rightarrow> compare_ord actual opr (of_int v)
      | VInt64 v \<Rightarrow> compare_ord actual opr (of_int v)
      | _ \<Rightarrow> False)"

definition evaluateCondition :: "CheckResult \<Rightarrow> AlertCondition \<Rightarrow> bool" where
  "evaluateCondition result cond =
     (if cond_Field cond = ''status'' then
        compareStrings (res_Status result) (cond_Operator cond) (cond_Value cond)
      else if cond_Field cond = ''healthy'' then
        compareBool (res_Healthy result) (cond_Operator cond) (cond_Value cond)
      else if cond_Field cond = ''durationMs'' then
        compareInt (res_DurationMs result) (cond_Operator cond) (cond_Value cond)
      else
        (case map_of (res_Metrics result) (cond_Field cond) of
           Some val \<Rightarrow> compareFloat val (cond_Operator cond) (cond_Value cond)
         | None \<Rightarrow> False))"

fun all_conditions :: "CheckResult \<Rightarrow> AlertCondition list \<Rightarrow> bool" where
  "all_conditions result [] = True"
| "all_conditions result (c # cs) =
     (if \<not> evaluateCondition result c then False else all_conditions result cs)"

definition evaluateConditions :: "CheckResult \<Rightarrow> AlertCondition list \<Rightarrow> bool" where
  "evaluateConditions result conditions =
     (if length conditions = 0 then False else all_conditions result conditions)"

fun any_check_id :: "string \<Rightarrow> string list \<Rightarrow> bool" where
  "any_check_id i [] = False"
| "any_check_id i (j # js) = (if j = i then True else any_check_id i js)"

definition checkMatchesRule :: "CheckResult \<Rightarrow> AlertRule \<Rightarrow> bool" where
  "checkMatchesRule result rule =
     (if length (rule_CheckIDs rule) = 0 then True
      else any_check_id (res_CheckID result) (rule_CheckIDs rule))"

lemma all_conditions_iff: "all_conditions r cs \<longleftrightarrow> (\<forall>c \<in> set cs. evaluateCondition r c)"
  by (induction cs) auto

lemma evaluateConditions_iff:
  "evaluateConditions r cs \<longleftrightarrow> cs \<noteq> [] \<and> (\<forall>c \<in> set cs. evaluateCondition r c)"
  by (simp add: evaluateConditions_def all_conditions_iff)

lemma any_check_id_iff: "any_check_id i js \<longleftrightarrow> i \<in> set js"
  by (induction js) auto

lemma checkMatchesRule_iff:
  "checkMatchesRule r rule \<longleftrightarrow> rule_CheckIDs rule = [] \<or> res_CheckID r \<in> set (rule_CheckIDs rule)"
  by (simp add: checkMatchesRule_def any_check_id_iff)

section \<open>Alerts\<close>

definition buildAlertMessage :: "AlertRule \<Rightarrow> CheckResult \<Rightarrow> string" where
  "buildAlertMessage rule result =
     (let parts = [''Rule: '' @ rule_Name rule, ''Check: '' @ res_Name result,
                   ''Status: '' @ res_Status result];
          parts = (if res_Message result \<noteq> [] then parts @ [''Details: '' @ res_Message result] else parts);
          parts = (if res_DurationMs result > 0
                   then parts @ [''Duration: '' @ itoa (res_DurationMs result) @ ''ms''] else parts);
          parts = (if rule_Description rule \<noteq> []
                   then parts @ [''Description: '' @ rule_Description rule] else parts)
      in join '' | '' parts)"

definition buildAlert :: "AlertRule \<Rightarrow> CheckResult \<Rightarrow> gotime \<Rightarrow> Alert" where
  "buildAlert rule result triggeredAt =
     \<lparr>alert_ID = ''alert-'' @ rule_ID rule @ ''-'' @ res_CheckID result @ ''-'' @ itoa (unix_nano triggeredAt),
      alert_RuleID = rule_ID rule, alert_RuleName = rule_Name rule,
      alert_CheckID = res_CheckID result, alert_CheckName = res_Name result,
      alert_Severity = rule_Severity rule, alert_Status = ''fired'',
      alert_Message = buildAlertMessage rule result, alert_TriggeredAt = triggeredAt,
      alert_ResolvedAt = None\<rparr>"

text \<open>
  The engine: its rules, the last time each key \<open>ruleID:checkID\<close> triggered, and the lines it has
  sent to the logger.
\<close>

record AlertRuleEngine =
  eng_rules :: "AlertRule list"
  eng_lastTriggered :: "string \<rightharpoonup> gotime"
  eng_log :: "string list"

definition NewAlertRuleEngine :: "AlertRule list \<Rightarrow> AlertRuleEngine" where
  "NewAlertRuleEngine rules = \<lparr>eng_rules = rules, eng_lastTriggered = Map.empty, eng_log = []\<rparr>"

definition channel_line :: "Alert \<Rightarrow> AlertChannel \<Rightarrow> string" where
  "channel_line alert channel =
     (if ach_Type channel = ''log'' then
        ''[ALERT] '' @ alert_Status alert @ '': '' @ alert_Message alert @ '' (Rule: '' @
        alert_RuleName alert @ '', Check: '' @ alert_CheckName alert @ '', Severity: '' @
        alert_Severity alert @ '')''
      else ''[ALERT] Unknown channel type '' @ ach_Type channel @ '' for alert '' @ alert_ID alert)"

definition sendAlert :: "Alert \<Rightarrow> AlertChannel list \<Rightarrow> AlertRuleEngine \<Rightarrow> AlertRuleEngine" where
  "sendAlert alert channels e = e\<lparr>eng_log := eng_log e @ map (channel_line alert) channels\<rparr>"

definition cooldown_key :: "AlertRule \<Rightarrow> CheckResult \<Rightarrow> string" where
  "cooldown_key rule result = rule_ID rule @ '':'' @ res_CheckID result"

definition in_cooldown :: "gotime \<Rightarrow> AlertRuleEngine \<Rightarrow> AlertRule \<Rightarrow> CheckResult \<Rightarrow> bool" where
  "in_cooldown now e rule result =
     (case eng_lastTriggered e (cooldown_key rule result) of
        None \<Rightarrow> False
      | Some t \<Rightarrow> time_sub now t < dur_mul (rule_CooldownMinutes rule) minute)"

text \<open>One turn of the inner loop: one result against one rule.\<close>

definition evaluate_rule ::
  "gotime \<Rightarrow> bool \<Rightarrow> bool \<Rightarrow> CheckResult \<Rightarrow> AlertRuleEngine \<times> Alert list \<Rightarrow> AlertRule \<Rightarrow>
     AlertRuleEngine \<times> Alert list" where
  "evaluate_rule now applyCooldown send result acc rule =
     (let (e, alerts) = acc in
      if \<not> rule_Enabled rule then acc
      else if \<not> checkMatchesRule result rule then acc
      else if applyCooldown \<and> in_cooldown now e rule result then acc
      else if evaluateConditions result (rule_Conditions rule) then
        (let alert = buildAlert rule result now;
             e = (if applyCooldown
                  then e\<lparr>eng_lastTriggered := (eng_lastTriggered e)(cooldown_key rule result \<mapsto> now)\<rparr>
                  else e);
             e = (if send then sendAlert alert (rule_Channels rule) e else e)
         in (e, alerts @ [alert]))
      else acc)"

definition evaluate_result ::
  "gotime \<Rightarrow> bool \<Rightarrow> bool \<Rightarrow> AlertRuleEngine \<times> Alert list \<Rightarrow> CheckResult \<Rightarrow>
     AlertRuleEngine \<times> Alert list" where
  "evaluate_result now applyCooldown send acc result =
     foldl (evaluate_rule now applyCooldown send result) acc (eng_rules (fst acc))"

definition evaluate ::
  "gotime \<Rightarrow> CheckResult list \<Rightarrow> bool \<Rightarrow> bool \<Rightarrow> AlertRuleEngine \<Rightarrow> AlertRuleEngine \<times> Alert list" where
  "evaluate now results applyCooldown send e =
     foldl (evaluate_result now applyCooldown send) (e, []) results"

definition Evaluate ::
  "gotime \<Rightarrow> CheckResult list \<Rightarrow> AlertRuleEngine \<Rightarrow> AlertRuleEngine \<times> Alert list" where
  "Evaluate now results = evaluate now results True True"

definition EvaluateForIncidents ::
  "gotime \<Rightarrow> CheckResult list \<Rightarrow> AlertRuleEngine \<Rightarrow> AlertRuleEngine \<times> Alert list" where
  "EvaluateForIncidents now results = evaluate now results False False"

section \<open>Validation and defaults\<close>

text \<open>\<open>AlertRule.Validate\<close> fills defaults in on its way; the rule is returned as it is left.\<close>

definition validOps :: "AlertOperator list" where
  "validOps = [OperatorEquals, OperatorNotEquals, OperatorGreaterThan, OperatorLessThan]"

definition validFields :: "string list" where
  "validFields = [''status'', ''healthy'', ''durationMs'']"

definition validateCondition :: "AlertCondition \<Rightarrow> string option" where
  "validateCondition c =
     (if cond_Field c = [] then Some ''field is required''
      else if cond_Operator c = [] then Some ''operator is required''
      else if cond_Operator c \<notin> set validOps then Some (''invalid operator '' @ cond_Operator c)
      else if cond_Field c \<notin> set validFields \<and> \<not> has_prefix (cond_Field c) ''metrics.''
        then Some (''invalid field '' @ cond_Field c)
      else None)"

fun validateConditions :: "nat \<Rightarrow> AlertCondition list \<Rightarrow> string option" where
  "validateConditions i [] = None"
| "validateConditions i (c # cs) =
     (case validateCondition c of
        Some err \<Rightarrow> Some (''condition '' @ itoa (int i) @ '': '' @ err)
      | None \<Rightarrow> validateConditions (Suc i) cs)"

fun validateChannels :: "nat \<Rightarrow> AlertChannel list \<Rightarrow> string option" where
  "validateChannels i [] = None"
| "validateChannels i (ch # chs) =
     (if ach_Type ch = [] then Some (''channel '' @ itoa (int i) @ '': type is required'')
      else validateChannels (Suc i) chs)"

definition validateRule :: "AlertRule \<Rightarrow> AlertRule \<times> string option" where
  "validateRule r =
     (if rule_ID r = [] then (r, Some ''rule ID is required'')
      else if rule_Name r = [] then (r, Some ''rule name is required'')
      else if length (rule_Conditions r) = 0
        then (r, Some ''rule must have at least one condition'')
      else
        let r = (if rule_Severity r = [] then r\<lparr>rule_Severity := ''warning''\<rparr> else r) in
        if rule_CooldownMinutes r < 0 then (r, Some ''cooldown minutes must be >= 0'')
        else
          let r = (if rule_CooldownMinutes r = 0 then r\<lparr>rule_CooldownMinutes := 5\<rparr> else r) in
          case validateConditions 0 (rule_Conditions r) of
            Some err \<Rightarrow> (r, Some err)
          | None \<Rightarrow> (r, validateChannels 0 (rule_Channels r)))"

definition default_rule ::
  "string \<Rightarrow> string \<Rightarrow> string \<Rightarrow> int \<Rightarrow> string \<Rightarrow> AlertCondition \<Rightarrow> AlertRule" where
  "default_rule i name severity cooldown description cond =
     \<lparr>rule_ID = i, rule_Name = name, rule_Enabled = True, rule_CheckIDs = [],
      rule_Conditions = [cond], rule_Severity = severity,
      rule_Channels = [\<lparr>ach_Type = ''log'', ach_Config = []\<rparr>], rule_CooldownMinutes = cooldown,
      rule_Description = description, rule_ConsecutiveBreaches = 0, rule_RecoverySamples = 0,
      rule_ThresholdNum = 0, rule_RuleCode = []\<rparr>"

definition DefaultAlertRules :: "AlertRule list" where
  "DefaultAlertRules =
     [default_rule ''check-down-critical'' ''Check Down'' ''critical'' 5
        ''Fires when any health check reports unhealthy''
        \<lparr>cond_Field = ''healthy'', cond_Operator = OperatorEquals, cond_Value = VBool False\<rparr>,
      default_rule ''high-latency-warning'' ''High Latency'' ''warning'' 10
        ''Fires when response time exceeds 3 seconds''
        \<lparr>cond_Field = ''durationMs'', cond_Operator = OperatorGreaterThan, cond_Value = VFloat 3000\<rparr>,
      default_rule ''critical-latency'' ''Critical Latency'' ''critical'' 5
        ''Fires when response time exceeds 10 seconds''
        \<lparr>cond_Field = ''durationMs'', cond_Operator = OperatorGreaterThan, cond_Value = VFloat 10000\<rparr>,
      default_rule ''api-error-status'' ''API Error Response'' ''critical'' 5
        ''Fires when a check returns error status''
        \<lparr>cond_Field = ''status'', cond_Operator = OperatorEquals, cond_Value = VString ''error''\<rparr>,
      default_rule ''timeout-warning'' ''Check Timeout'' ''warning'' 10
        ''Fires when a check times out''
        \<lparr>cond_Field = ''status'', cond_Operator = OperatorEquals, cond_Value = VString ''timeout''\<rparr>]"

lemma validateConditions_None:
  "validateConditions i cs = None \<longleftrightarrow> (\<forall>c \<in> set cs. validateCondition c = None)"
  by (induction cs arbitrary: i) (auto split: option.splits)

lemma validateChannels_None: "validateChannels i chs = None \<longleftrightarrow> (\<forall>ch \<in> set chs. ach_Type ch \<noteq> [])"
  by (induction chs arbitrary: i) auto

lemma validateCondition_field:
  "validateCondition c = None \<Longrightarrow>
     cond_Field c \<in> {''status'', ''healthy'', ''durationMs''} \<or> has_prefix (cond_Field c) ''metrics.''"
  by (auto simp: validateCondition_def validFields_def split: if_splits)

lemma validateRule_conditions:
  "validateRule r = (r', None) \<Longrightarrow> c \<in> set (rule_Conditions r') \<Longrightarrow> validateCondition c = None"
  by (auto simp: validateRule_def Let_def validateConditions_None split: if_splits option.splits)

section \<open>Evaluation without cooldown\<close>

definition triggers :: "CheckResult \<Rightarrow> AlertRule \<Rightarrow> bool" where
  "triggers result rule \<longleftrightarrow>
     rule_Enabled rule \<and> checkMatchesRule result rule \<and> evaluateConditions result (rule_Conditions rule)"

definition alerts_spec :: "gotime \<Rightarrow> AlertRule list \<Rightarrow> CheckResult list \<Rightarrow> Alert list" where
  "alerts_spec now rules results =
     concat (map (\<lambda>res. map (\<lambda>rule. buildAlert rule res now) (filter (triggers res) rules)) results)"

lemma evaluate_rule_no_cooldown:
  "evaluate_rule now False False res (e, as) rule =
     (e, as @ (if triggers res rule then [buildAlert rule res now] else []))"
  by (simp add: evaluate_rule_def triggers_def Let_def)

lemma evaluate_result_no_cooldown:
  "evaluate_result now False False (e, as) res =
     (e, as @ map (\<lambda>rule. buildAlert rule res now) (filter (triggers res) (eng_rules e)))"
proof -
  have "foldl (evaluate_rule now False False res) (e, as) rules =
      (e, as @ map (\<lambda>rule. buildAlert rule res now) (filter (triggers res) rules))" for rules
    by (induction rules rule: rev_induct) (simp_all add: evaluate_rule_no_cooldown)
  then show ?thesis by (simp add: evaluate_result_def)
qed

lemma evaluate_no_cooldown:
  "evaluate now results False False e = (e, alerts_spec now (eng_rules e) results)"
  unfolding evaluate_def
  by (induction results rule: rev_induct)
     (simp_all add: evaluate_result_no_cooldown alerts_spec_def)

section \<open>Cooldown\<close>

definition alert_key :: "Alert \<Rightarrow> string" where
  "alert_key a = alert_RuleID a @ '':'' @ alert_CheckID a"

lemma alert_key_build [simp]: "alert_key (buildAlert rule res now) = cooldown_key rule res"
  by (simp add: alert_key_def buildAlert_def cooldown_key_def)

lemma buildAlert_fields [simp]:
  "alert_TriggeredAt (buildAlert rule res now) = now" "alert_RuleID (buildAlert rule res now) = rule_ID rule"
  "alert_CheckID (buildAlert rule res now) = res_CheckID res"
  by (simp_all add: buildAlert_def)

text \<open>The later alert of a key comes at least one cooldown of its rule after the earlier one.\<close>

definition spaced :: "AlertRule list \<Rightarrow> Alert \<Rightarrow> Alert \<Rightarrow> bool" where
  "spaced rules a b \<longleftrightarrow> (alert_key a = alert_key b \<longrightarrow>
     (\<exists>rule \<in> set rules. rule_ID rule = alert_RuleID b \<and>
        rule_CooldownMinutes rule * 60000000000 \<le> alert_TriggeredAt b - alert_TriggeredAt a))"

definition cooldowns_in_range :: "AlertRule list \<Rightarrow> bool" where
  "cooldowns_in_range rules \<longleftrightarrow>
     (\<forall>rule \<in> set rules. 0 \<le> rule_CooldownMinutes rule \<and> rule_CooldownMinutes rule \<le> 153722867)"

text \<open>
  The invariant of the engine: the alerts sent so far are spaced, and for each of them the table
  has a time not before it (and not after the current call).
\<close>

definition cooldown_inv :: "AlertRule list \<Rightarrow> gotime \<Rightarrow> AlertRuleEngine \<times> Alert list \<Rightarrow> bool" where
  "cooldown_inv rules now acc \<longleftrightarrow>
     eng_rules (fst acc) = rules \<and> sorted_wrt (spaced rules) (snd acc) \<and>
     (\<forall>a \<in> set (snd acc). \<exists>t. eng_lastTriggered (fst acc) (alert_key a) = Some t \<and>
        alert_TriggeredAt a \<le> t \<and> t \<le> now)"

lemma not_in_cooldown:
  assumes "cooldowns_in_range rules" and "rule \<in> set rules" and "\<not> in_cooldown now e rule res"
    and "eng_lastTriggered e (cooldown_key rule res) = Some t"
  shows "rule_CooldownMinutes rule * 60000000000 \<le> now - t"
proof -
  from assms(1,2) have "0 \<le> rule_CooldownMinutes rule" "rule_CooldownMinutes rule \<le> 153722867"
    by (auto simp: cooldowns_in_range_def)
  then have "dur_mul (rule_CooldownMinutes rule) minute = rule_CooldownMinutes rule * 60000000000"
    and "- 9223372036854775808 < rule_CooldownMinutes rule * 60000000000"
    and "rule_CooldownMinutes rule * 60000000000 \<le> 9223372036854775807"
    by (simp_all add: dur_mul_def minute_def wrap64_id)
  with assms(3,4) show ?thesis by (simp add: in_cooldown_def time_sub_less_iff)
qed

lemma evaluate_rule_inv:
  assumes "cooldowns_in_range rules" and "rule \<in> set rules" and inv: "cooldown_inv rules now acc"
  shows "cooldown_inv rules now (evaluate_rule now True True res acc rule)"
proof (cases "triggers res rule \<and> \<not> in_cooldown now (fst acc) rule res")
  case False
  then have "evaluate_rule now True True res acc rule = acc"
    by (auto simp: evaluate_rule_def triggers_def Let_def split: prod.splits)
  with inv show ?thesis by simp
next
  case True
  let ?b = "buildAlert rule res now"
  from True have step: "evaluate_rule now True True res acc rule =
      (sendAlert ?b (rule_Channels rule) ((fst acc)\<lparr>eng_lastTriggered :=
         (eng_lastTriggered (fst acc))(cooldown_key rule res \<mapsto> now)\<rparr>), snd acc @ [?b])"
    by (auto simp: evaluate_rule_def triggers_def Let_def split: prod.splits)
  have "spaced rules a ?b" if "a \<in> set (snd acc)" for a
  proof -
    from inv that obtain t where t: "eng_lastTriggered (fst acc) (alert_key a) = Some t"
        "alert_TriggeredAt a \<le> t"
      by (auto simp: cooldown_inv_def)
    show ?thesis
      using not_in_cooldown [OF assms(1,2), of now "fst acc" res t] True t assms(2)
      by (force simp: spaced_def)
  qed
  with inv show ?thesis
    unfolding step by (auto simp: cooldown_inv_def sendAlert_def sorted_wrt_append)
qed

lemma evaluate_fold_inv:
  assumes "cooldowns_in_range rules"
  shows "cooldown_inv rules now acc \<Longrightarrow>
    cooldown_inv rules now (foldl (evaluate_result now True True) acc results)"
proof (induction results arbitrary: acc)
  case Nil
  then show ?case by simp
next
  case (Cons res results)
  have "cooldown_inv rules now (foldl (evaluate_rule now True True res) acc rs)"
    if "set rs \<subseteq> set rules" for rs
    using that
  proof (induction rs rule: rev_induct)
    case Nil
    with Cons.prems show ?case by simp
  next
    case (snoc rule rs)
    then show ?case by (simp add: evaluate_rule_inv [OF assms])
  qed
  moreover from Cons.prems have "eng_rules (fst acc) = rules" by (simp add: cooldown_inv_def)
  ultimately have "cooldown_inv rules now (evaluate_result now True True acc res)"
    by (simp add: evaluate_result_def)
  then show ?case by (simp add: Cons.IH)
qed

text \<open>The alerts of earlier calls stay in front: the loop only appends.\<close>

lemma evaluate_rule_append:
  "evaluate_rule now ac sd res (e, ps @ as) rule =
     (fst (evaluate_rule now ac sd res (e, as) rule), ps @ snd (evaluate_rule now ac sd res (e, as) rule))"
  by (simp add: evaluate_rule_def Let_def)

lemma evaluate_append:
  "foldl (evaluate_result now ac sd) (e, ps) results =
     (fst (evaluate now results ac sd e), ps @ snd (evaluate now results ac sd e))"
proof -
  have rules: "foldl (evaluate_rule now ac sd res) (e, ps @ as) rs =
      (fst (foldl (evaluate_rule now ac sd res) (e, as) rs),
       ps @ snd (foldl (evaluate_rule now ac sd res) (e, as) rs))" for res e as rs
    by (induction rs arbitrary: e as)
       (simp_all add: evaluate_rule_append)
  have "foldl (evaluate_result now ac sd) (e, ps @ as) results =
      (fst (foldl (evaluate_result now ac sd) (e, as) results),
       ps @ snd (foldl (evaluate_result now ac sd) (e, as) results))" for as
    by (induction results arbitrary: e as) (simp_all add: evaluate_result_def rules)
  from this [of "[]"] show ?thesis by (simp add: evaluate_def)
qed

text \<open>The calls of \<open>Evaluate\<close> in the life of an engine, each at its own time, and all their alerts.\<close>

definition run_evaluate ::
  "(gotime \<times> CheckResult list) list \<Rightarrow> AlertRuleEngine \<Rightarrow> AlertRuleEngine \<times> Alert list" where
  "run_evaluate calls e = foldl (\<lambda>(e, sent) (now, results).
     (let (e', as) = Evaluate now results e in (e', sent @ as))) (e, []) calls"

lemma cooldown_inv_later: "cooldown_inv rules now acc \<Longrightarrow> now \<le> now' \<Longrightarrow> cooldown_inv rules now' acc"
  unfolding cooldown_inv_def by (meson order_trans)

lemma run_evaluate_inv:
  assumes "cooldowns_in_range rules" and "eng_rules e = rules" and "sorted (map fst calls)"
    and "\<forall>c \<in> set calls. fst c \<le> now"
  shows "cooldown_inv rules now (run_evaluate calls e)"
  using assms(3,4)
proof (induction calls arbitrary: now rule: rev_induct)
  case Nil
  with assms(2) show ?case by (simp add: run_evaluate_def cooldown_inv_def)
next
  case (snoc c calls)
  let ?acc = "run_evaluate calls e"
  have "\<forall>d \<in> set calls. fst d \<le> fst c" using snoc.prems(1) by (auto simp: sorted_append)
  with snoc have "cooldown_inv rules (fst c) ?acc" by (simp add: sorted_append)
  then have inv: "cooldown_inv rules (fst c) (foldl (evaluate_result (fst c) True True) ?acc (snd c))"
    by (rule evaluate_fold_inv [OF assms(1)])
  have "run_evaluate (calls @ [c]) e = foldl (evaluate_result (fst c) True True) ?acc (snd c)"
    using evaluate_append [of "fst c" True True "fst ?acc" "snd ?acc" "snd c"]
    by (simp add: run_evaluate_def Evaluate_def Let_def split: prod.splits)
  with inv snoc.prems(2) show ?case by (simp add: cooldown_inv_later)
qed

section \<open>Properties\<close>

text \<open>
  \<open>EvaluateForIncidents\<close> returns, in the order of the results and for each result in the
  order of the rules, exactly one alert for every enabled rule that applies to the check and all of
  whose conditions (at least one) hold of the result. It leaves the engine as it was, so cooldown
  cannot hide a repeated failure from the incidents.
\<close>

theorem EvaluateForIncidents_spec:
  "EvaluateForIncidents now results e =
     (e, concat (map (\<lambda>res. map (\<lambda>rule. buildAlert rule res now)
        (filter (\<lambda>rule. rule_Enabled rule \<and>
            (rule_CheckIDs rule = [] \<or> res_CheckID res \<in> set (rule_CheckIDs rule)) \<and>
            rule_Conditions rule \<noteq> [] \<and> list_all (evaluateCondition res) (rule_Conditions rule))
          (eng_rules e))) results))"
  unfolding EvaluateForIncidents_def evaluate_no_cooldown alerts_spec_def triggers_def [abs_def]
    checkMatchesRule_iff evaluateConditions_iff list_all_iff
  by simp

text \<open>
  over the life of an engine whose clock does not go back, two alerts that \<open>Evaluate\<close> sends
  for the same rule and check are at least the cooldown of the rule apart, whatever the results and
  however often it is called.
\<close>

theorem Evaluate_cooldown:
  assumes "sorted (map fst calls)" and "cooldowns_in_range (eng_rules e)"
    and "distinct (map rule_ID (eng_rules e))"
    and "sent = snd (run_evaluate calls e)" and "i < j" and "j < length sent"
    and "alert_RuleID (sent ! i) = alert_RuleID (sent ! j)"
    and "alert_CheckID (sent ! i) = alert_CheckID (sent ! j)"
    and "rule \<in> set (eng_rules e)" and "rule_ID rule = alert_RuleID (sent ! j)"
  shows "alert_TriggeredAt (sent ! i) + rule_CooldownMinutes rule * minute \<le> alert_TriggeredAt (sent ! j)"
proof -
  have "cooldown_inv (eng_rules e) (Max (insert 0 (fst ` set calls))) (run_evaluate calls e)"
    by (rule run_evaluate_inv [OF assms(2) refl assms(1)]) auto
  then have "sorted_wrt (spaced (eng_rules e)) sent" by (simp add: cooldown_inv_def assms(4))
  then have "spaced (eng_rules e) (sent ! i) (sent ! j)" using assms(5,6) by (rule sorted_wrt_nth_less)
  then obtain r where r: "r \<in> set (eng_rules e)" "rule_ID r = alert_RuleID (sent ! j)"
      "rule_CooldownMinutes r * 60000000000 \<le> alert_TriggeredAt (sent ! j) - alert_TriggeredAt (sent ! i)"
    using assms(7,8) by (auto simp: spaced_def alert_key_def)
  from assms(3,9,10) r(1,2) have "r = rule" by (metis find_key_member option.inject)
  with r(3) show ?thesis by (simp add: minute_def)
qed

definition down_result :: "string \<Rightarrow> CheckResult" where
  "down_result i = zero_result\<lparr>res_CheckID := i, res_Status := ''critical'', res_Healthy := False\<rparr>"

definition down_rule :: AlertRule where
  "down_rule = default_rule ''r'' ''Down'' ''critical'' 5 []
     \<lparr>cond_Field = ''healthy'', cond_Operator = OperatorEquals, cond_Value = VBool False\<rparr>"

lemma down_rule_triggers: "triggers (down_result i) down_rule"
  by (simp add: triggers_def down_rule_def default_rule_def checkMatchesRule_iff evaluateConditions_iff
      evaluateCondition_def compareBool_def down_result_def zero_result_def)

theorem Evaluate_cooldown_witness:
  "map alert_TriggeredAt (snd (run_evaluate
     [(0, [down_result ''a'']), (minute, [down_result ''a'']), (5 * minute, [down_result ''a''])]
     (NewAlertRuleEngine [down_rule]))) = [0, 5 * minute] \<and> 0 + 5 * minute \<le> 5 * minute"
proof -
  let ?calls = "[(0, [down_result ''a'']), (minute, [down_result ''a'']), (5 * minute, [down_result ''a''])]"
  let ?e = "NewAlertRuleEngine [down_rule]"
  have trig: "rule_Enabled down_rule" "checkMatchesRule (down_result ''a'') down_rule"
    "evaluateConditions (down_result ''a'') (rule_Conditions down_rule)"
    using down_rule_triggers [of "''a''"] by (simp_all add: triggers_def)
  have sent: "snd (run_evaluate ?calls ?e) =
      [buildAlert down_rule (down_result ''a'') 0, buildAlert down_rule (down_result ''a'') (5 * minute)]"
    by (simp add: run_evaluate_def Evaluate_def evaluate_def evaluate_result_def evaluate_rule_def
        NewAlertRuleEngine_def sendAlert_def in_cooldown_def trig Let_def minute_def time_sub_def dur_mul_def
        wrap64_def down_rule_def [THEN arg_cong, of rule_CooldownMinutes] default_rule_def)
  have "0 + rule_CooldownMinutes down_rule * minute \<le> 5 * minute"
    using Evaluate_cooldown [where calls = ?calls and e = ?e and sent = "snd (run_evaluate ?calls ?e)"
        and i = 0 and j = 1 and rule = down_rule] sent
    by (simp add: NewAlertRuleEngine_def cooldowns_in_range_def minute_def down_rule_def default_rule_def)
  then show ?thesis by (simp add: sent)
qed

text \<open>
  a rule condition on a metric never holds once it has passed validation, unless a runner
  reports a metric whose own name starts with \<open>metrics.\<close>: \<open>Validate\<close> demands that prefix and
  \<open>evaluateCondition\<close> looks the field up with the prefix still on it. So a validated rule with
  such a condition triggers no alert.
\<close>

theorem validated_metric_rule_never_fires:
  assumes "validateRule rule0 = (rule, None)" and "c \<in> set (rule_Conditions rule)"
    and "cond_Field c \<notin> {''status'', ''healthy'', ''durationMs''}"
    and "\<forall>key \<in> fst ` set (res_Metrics result). \<not> has_prefix key ''metrics.''"
  shows "\<not> triggers result rule"
proof -
  from validateRule_conditions [OF assms(1,2)] assms(3) have "has_prefix (cond_Field c) ''metrics.''"
    by (auto dest: validateCondition_field)
  with assms(4) have "map_of (res_Metrics result) (cond_Field c) = None"
    by (auto simp: map_of_eq_None_iff)
  with assms(3) have "\<not> evaluateCondition result c" by (simp add: evaluateCondition_def)
  with assms(2) show ?thesis by (auto simp: triggers_def evaluateConditions_iff)
qed

definition cpu_rule :: "string \<Rightarrow> AlertRule" where
  "cpu_rule field = default_rule ''cpu'' ''CPU'' ''warning'' 5 []
     \<lparr>cond_Field = field, cond_Operator = OperatorGreaterThan, cond_Value = VFloat 80\<rparr>"

theorem validated_metric_rule_never_fires_witness:
  "snd (validateRule (cpu_rule ''metrics.cpuPercent'')) = None \<and>
   \<not> triggers (zero_result\<lparr>res_Metrics := [(''cpuPercent'', 99)]\<rparr>) (cpu_rule ''metrics.cpuPercent'') \<and>
   triggers (zero_result\<lparr>res_Metrics := [(''cpuPercent'', 99)]\<rparr>) (cpu_rule ''cpuPercent'') \<and>
   snd (validateRule (cpu_rule ''cpuPercent'')) \<noteq> None"
proof -
  have valid: "validateRule (cpu_rule ''metrics.cpuPercent'') = (cpu_rule ''metrics.cpuPercent'', None)"
    by (simp add: validateRule_def cpu_rule_def default_rule_def validateCondition_def validOps_def
        validFields_def)
  have "\<not> triggers (zero_result\<lparr>res_Metrics := [(''cpuPercent'', 99)]\<rparr>) (cpu_rule ''metrics.cpuPercent'')"
    by (rule validated_metric_rule_never_fires [OF valid, where
          c = "\<lparr>cond_Field = ''metrics.cpuPercent'', cond_Operator = OperatorGreaterThan, cond_Value = VFloat 80\<rparr>"])
       (simp_all add: cpu_rule_def default_rule_def zero_result_def)
  moreover have "triggers (zero_result\<lparr>res_Metrics := [(''cpuPercent'', 99)]\<rparr>) (cpu_rule ''cpuPercent'')"
    by (simp add: triggers_def cpu_rule_def default_rule_def checkMatchesRule_iff evaluateConditions_iff
        evaluateCondition_def compareFloat_def compare_ord_def zero_result_def)
  moreover have "snd (validateRule (cpu_rule ''cpuPercent'')) \<noteq> None"
    by (simp add: validateRule_def cpu_rule_def default_rule_def validateCondition_def validOps_def
        validFields_def)
  ultimately show ?thesis using valid by simp
qed

end
