(* ===== verification/Incidents.thy ===== *)
theory Incidents
  imports Model
begin

text \<open>
  Incidents: the repository interface and its in-memory implementation
  (\<open>incident_repository.go\<close>) and the \<open>IncidentManager\<close> on top of it
  (\<open>incident_manager.go\<close>), which opens, updates, acknowledges and resolves incidents. The
  contract of a repository is a locale; the life cycle of incidents is proved inside it and holds
  for the in-memory repository by interpretation. A Go map is an association list with distinct
  keys, and the order in which \<open>range\<close> visits it is an argument.
\<close>

section \<open>The repository\<close>

type_synonym inc_mutator = "Incident \<Rightarrow> string + Incident"

text \<open>The method table of the interface \<open>IncidentRepository\<close> over a state \<open>'r\<close>.\<close>

record 'r IncidentRepo =
  repo_create :: "Incident \<Rightarrow> 'r \<Rightarrow> 'r \<times> string option"
  repo_update :: "string \<Rightarrow> inc_mutator \<Rightarrow> 'r \<Rightarrow> 'r \<times> string option"
  repo_get :: "string \<Rightarrow> 'r \<Rightarrow> Incident \<times> string option"
  repo_list :: "'r \<Rightarrow> Incident list \<times> string option"
  repo_find_open :: "string \<Rightarrow> 'r \<Rightarrow> Incident \<times> string option"

text \<open>\<open>MemoryIncidentRepository\<close>: \<open>map[string]Incident\<close>.\<close>

type_synonym MemoryRepo = "(string \<times> Incident) list"

definition NewMemoryIncidentRepository :: MemoryRepo where
  "NewMemoryIncidentRepository = []"

definition mem_create :: "Incident \<Rightarrow> MemoryRepo \<Rightarrow> MemoryRepo \<times> string option" where
  "mem_create incident r =
     (case map_of r (inc_ID incident) of
        Some _ \<Rightarrow> (r, Some (''incident already exists: '' @ inc_ID incident))
      | None \<Rightarrow> (AList.update (inc_ID incident) incident r, None))"

definition mem_update :: "string \<Rightarrow> inc_mutator \<Rightarrow> MemoryRepo \<Rightarrow> MemoryRepo \<times> string option" where
  "mem_update i mutate r =
     (case map_of r i of
        None \<Rightarrow> (r, Some (''incident not found: '' @ i))
      | Some incident \<Rightarrow>
          (case mutate incident of
             Inl err \<Rightarrow> (r, Some err)
           | Inr incident' \<Rightarrow> (AList.update i incident' r, None)))"

definition mem_get :: "string \<Rightarrow> MemoryRepo \<Rightarrow> Incident \<times> string option" where
  "mem_get i r = (case map_of r i of None \<Rightarrow> (zero_incident, None) | Some inc \<Rightarrow> (inc, None))"

type_synonym visit = "(string \<times> Incident) list \<Rightarrow> (string \<times> Incident) list"

text \<open>
  \<open>range\<close> over the map in the order that \<open>ord\<close> chooses; a choice that is not a rearrangement of
  the entries stands for the stored order.
\<close>

definition range_order :: "visit \<Rightarrow> visit" where
  "range_order ord m = (if mset (ord m) = mset m then ord m else m)"

lemma set_range_order [simp]: "set (range_order ord m) = set m"
  by (auto simp: range_order_def dest: mset_eq_setD)

definition mem_list :: "visit \<Rightarrow> MemoryRepo \<Rightarrow> Incident list \<times> string option" where
  "mem_list ord r = (map snd (range_order ord r), None)"

definition open_for :: "string \<Rightarrow> Incident \<Rightarrow> bool" where
  "open_for checkID inc \<longleftrightarrow> inc_CheckID inc = checkID \<and> inc_Status inc \<noteq> ''resolved''"

definition mem_find_open :: "visit \<Rightarrow> string \<Rightarrow> MemoryRepo \<Rightarrow> Incident \<times> string option" where
  "mem_find_open ord checkID r =
     (case find (\<lambda>(_, inc). open_for checkID inc) (range_order ord r) of
        Some (_, inc) \<Rightarrow> (inc, None)
      | None \<Rightarrow> (zero_incident, None))"

text \<open>Not part of the interface: the retention job calls it on this repository.\<close>

definition mem_prune_before :: "gotime \<Rightarrow> MemoryRepo \<Rightarrow> MemoryRepo" where
  "mem_prune_before cutoff r =
     filter (\<lambda>(_, inc). \<not> (inc_Status inc = ''resolved'' \<and> before (inc_UpdatedAt inc) cutoff)) r"

definition memory_repo :: "visit \<Rightarrow> MemoryRepo IncidentRepo" where
  "memory_repo ord = \<lparr>repo_create = mem_create, repo_update = mem_update, repo_get = mem_get,
     repo_list = mem_list ord, repo_find_open = mem_find_open ord\<rparr>"

section \<open>The incident manager\<close>

text \<open>
  The calls of the two callbacks are recorded; \<open>im_onCreated\<close> and \<open>im_onResolved\<close> say whether
  one has been set.
\<close>

datatype incident_event = Created Incident | Resolved Incident

record 'r IncidentManager =
  im_repo :: 'r
  im_onCreated :: bool
  im_onResolved :: bool
  im_events :: "incident_event list"

definition NewIncidentManager :: "'r \<Rightarrow> 'r IncidentManager" where
  "NewIncidentManager r = \<lparr>im_repo = r, im_onCreated = False, im_onResolved = False, im_events = []\<rparr>"

definition severity_level :: "string \<Rightarrow> int option" where
  "severity_level s = (if s = ''warning'' then Some 1 else if s = ''critical'' then Some 2 else None)"

definition severityHasIncreased :: "string \<Rightarrow> string \<Rightarrow> bool" where
  "severityHasIncreased old new =
     (case severity_level old of
        None \<Rightarrow> True
      | Some oldLevel \<Rightarrow>
          (case severity_level new of None \<Rightarrow> False | Some newLevel \<Rightarrow> newLevel > oldLevel))"

definition generateIncidentID :: "string \<Rightarrow> gotime \<Rightarrow> string" where
  "generateIncidentID checkID t = checkID @ ''-'' @ itoa (unix t)"

definition merge_metadata :: "smap \<Rightarrow> smap \<Rightarrow> smap" where
  "merge_metadata metadata m = foldl (\<lambda>m (k, v). AList.update k v m) m metadata"

text \<open>The alert that a caller passes in: the six arguments of \<open>ProcessAlert\<close>.\<close>

record AlertInput =
  in_checkID :: string
  in_checkName :: string
  in_checkType :: string
  in_severity :: string
  in_message :: string
  in_metadata :: smap

definition new_incident :: "gotime \<Rightarrow> AlertInput \<Rightarrow> Incident" where
  "new_incident now a = zero_incident\<lparr>
     inc_ID := generateIncidentID (in_checkID a) now, inc_CheckID := in_checkID a,
     inc_CheckName := in_checkName a, inc_Type := in_checkType a, inc_Status := ''open'',
     inc_Severity := in_severity a, inc_Message := in_message a, inc_StartedAt := now,
     inc_UpdatedAt := now, inc_Metadata := in_metadata a\<rparr>"

definition createIncident ::
  "'r IncidentRepo \<Rightarrow> gotime \<Rightarrow> AlertInput \<Rightarrow> 'r IncidentManager \<Rightarrow> 'r IncidentManager \<times> string option" where
  "createIncident repo now a im =
     (let incident = new_incident now a
      in case repo_create repo incident (im_repo im) of
           (r, Some err) \<Rightarrow> (im\<lparr>im_repo := r\<rparr>, Some (''create incident: '' @ err))
         | (r, None) \<Rightarrow>
             (im\<lparr>im_repo := r, im_events := im_events im @
                (if im_onCreated im then [Created incident] else [])\<rparr>, None))"

definition update_mut :: "gotime \<Rightarrow> AlertInput \<Rightarrow> inc_mutator" where
  "update_mut now a inc =
     (let inc = (if severityHasIncreased (inc_Severity inc) (in_severity a)
                 then inc\<lparr>inc_Severity := in_severity a\<rparr> else inc)
      in Inr (inc\<lparr>inc_Message := in_message a,
                  inc_Metadata := merge_metadata (in_metadata a) (inc_Metadata inc),
                  inc_UpdatedAt := now\<rparr>))"

definition updateIncident ::
  "'r IncidentRepo \<Rightarrow> gotime \<Rightarrow> Incident \<Rightarrow> AlertInput \<Rightarrow> 'r IncidentManager \<Rightarrow>
     'r IncidentManager \<times> string option" where
  "updateIncident repo now incident a im =
     (let (r, e) = repo_update repo (inc_ID incident) (update_mut now a) (im_repo im)
      in (im\<lparr>im_repo := r\<rparr>, e))"

text \<open>
  \<open>ProcessAlert\<close> in its two calls of the repository: it looks for an open incident (an error is
  only logged) and then, in a second critical section, updates what it found or creates.
\<close>

definition process_found ::
  "'r IncidentRepo \<Rightarrow> gotime \<Rightarrow> AlertInput \<Rightarrow> Incident \<Rightarrow> 'r IncidentManager \<Rightarrow>
     'r IncidentManager \<times> string option" where
  "process_found repo now a incident im =
     (if inc_ID incident \<noteq> [] then updateIncident repo now incident a im
      else createIncident repo now a im)"

definition ProcessAlert ::
  "'r IncidentRepo \<Rightarrow> gotime \<Rightarrow> AlertInput \<Rightarrow> 'r IncidentManager \<Rightarrow> 'r IncidentManager \<times> string option" where
  "ProcessAlert repo now a im =
     (let (incident, _) = repo_find_open repo (in_checkID a) (im_repo im)
      in process_found repo now a incident im)"

definition ack_mut :: "gotime \<Rightarrow> string \<Rightarrow> inc_mutator" where
  "ack_mut now who inc =
     (if inc_Status inc = ''resolved'' then Inl ''cannot acknowledge resolved incident''
      else Inr (inc\<lparr>inc_Status := ''acknowledged'', inc_AcknowledgedAt := Some now,
                    inc_AcknowledgedBy := who, inc_UpdatedAt := now\<rparr>))"

definition AcknowledgeIncident ::
  "'r IncidentRepo \<Rightarrow> gotime \<Rightarrow> string \<Rightarrow> string \<Rightarrow> 'r IncidentManager \<Rightarrow>
     'r IncidentManager \<times> string option" where
  "AcknowledgeIncident repo now i who im =
     (let (r, e) = repo_update repo i (ack_mut now who) (im_repo im) in (im\<lparr>im_repo := r\<rparr>, e))"

definition resolve_mut :: "gotime \<Rightarrow> string \<Rightarrow> inc_mutator" where
  "resolve_mut now who inc =
     (if inc_Status inc = ''resolved'' then Inl ''incident already resolved''
      else Inr (inc\<lparr>inc_Status := ''resolved'', inc_ResolvedAt := Some now,
                    inc_ResolvedBy := who, inc_UpdatedAt := now\<rparr>))"

definition ResolveIncident ::
  "'r IncidentRepo \<Rightarrow> gotime \<Rightarrow> string \<Rightarrow> string \<Rightarrow> 'r IncidentManager \<Rightarrow>
     'r IncidentManager \<times> string option" where
  "ResolveIncident repo now i who im =
     (case repo_update repo i (resolve_mut now who) (im_repo im) of
        (r, Some err) \<Rightarrow> (im\<lparr>im_repo := r\<rparr>, Some err)
      | (r, None) \<Rightarrow>
          (let im = im\<lparr>im_repo := r\<rparr>
           in if im_onResolved im then
                (case repo_get repo i r of
                   (inc, None) \<Rightarrow> (im\<lparr>im_events := im_events im @ [Resolved inc]\<rparr>, None)
                 | (_, Some _) \<Rightarrow> (im, None))
              else (im, None)))"

definition AutoResolveOnRecovery ::
  "'r IncidentRepo \<Rightarrow> gotime \<Rightarrow> string \<Rightarrow> 'r IncidentManager \<Rightarrow> 'r IncidentManager \<times> string option" where
  "AutoResolveOnRecovery repo now checkID im =
     (case repo_find_open repo checkID (im_repo im) of
        (_, Some err) \<Rightarrow> (im, Some (''find open incident: '' @ err))
      | (incident, None) \<Rightarrow>
          if inc_ID incident = [] then (im, None)
          else ResolveIncident repo now (inc_ID incident) ''system'' im)"

section \<open>The life cycle, abstractly\<close>

text \<open>
  Incidents as a map from IDs, and the steps it can take: an incident is opened where no unresolved
  one exists for the check, an unresolved one is updated, acknowledged or resolved. The retention
  job prunes resolved ones.
\<close>

type_synonym inc_map = "string \<rightharpoonup> Incident"

definition unresolved :: "Incident \<Rightarrow> bool" where
  "unresolved inc \<longleftrightarrow> inc_Status inc \<noteq> ''resolved''"

definition no_open :: "inc_map \<Rightarrow> string \<Rightarrow> bool" where
  "no_open m checkID \<longleftrightarrow> (\<forall>i inc. m i = Some inc \<longrightarrow> \<not> open_for checkID inc)"

inductive inc_step :: "gotime \<Rightarrow> inc_map \<Rightarrow> inc_map \<Rightarrow> bool" where
  stay: "inc_step now m m"
| opened: "no_open m (in_checkID a) \<Longrightarrow> m (generateIncidentID (in_checkID a) now) = None \<Longrightarrow>
    inc_step now m (m(generateIncidentID (in_checkID a) now \<mapsto> new_incident now a))"
| updated: "m i = Some inc \<Longrightarrow> unresolved inc \<Longrightarrow> update_mut now a inc = Inr inc' \<Longrightarrow>
    inc_step now m (m(i \<mapsto> inc'))"
| acknowledged: "m i = Some inc \<Longrightarrow> ack_mut now who inc = Inr inc' \<Longrightarrow> inc_step now m (m(i \<mapsto> inc'))"
| resolved: "m i = Some inc \<Longrightarrow> resolve_mut now who inc = Inr inc' \<Longrightarrow> inc_step now m (m(i \<mapsto> inc'))"

inductive_cases inc_stepE: "inc_step now m m'"

definition inc_pruned :: "inc_map \<Rightarrow> inc_map \<Rightarrow> bool" where
  "inc_pruned m m' \<longleftrightarrow>
     (\<forall>i. m' i = m i \<or> (\<exists>inc. m i = Some inc \<and> \<not> unresolved inc \<and> m' i = None))"

text \<open>What a stored incident always looks like.\<close>

definition wf_incident :: "gotime \<Rightarrow> Incident \<Rightarrow> bool" where
  "wf_incident now inc \<longleftrightarrow>
     inc_Status inc \<in> {''open'', ''acknowledged'', ''resolved''} \<and>
     inc_ID inc = generateIncidentID (inc_CheckID inc) (inc_StartedAt inc) \<and>
     (inc_ResolvedAt inc \<noteq> None \<longleftrightarrow> inc_Status inc = ''resolved'') \<and>
     (inc_Status inc = ''open'' \<longrightarrow> inc_AcknowledgedAt inc = None) \<and>
     (inc_Status inc = ''acknowledged'' \<longrightarrow> inc_AcknowledgedAt inc \<noteq> None) \<and>
     inc_StartedAt inc \<le> inc_UpdatedAt inc \<and> inc_UpdatedAt inc \<le> now \<and>
     (\<forall>t. inc_ResolvedAt inc = Some t \<longrightarrow> t = inc_UpdatedAt inc) \<and>
     (\<forall>t. inc_AcknowledgedAt inc = Some t \<longrightarrow> inc_StartedAt inc \<le> t \<and> t \<le> inc_UpdatedAt inc)"

definition inc_inv :: "gotime \<Rightarrow> inc_map \<Rightarrow> bool" where
  "inc_inv now m \<longleftrightarrow>
     (\<forall>i inc. m i = Some inc \<longrightarrow> inc_ID inc = i \<and> wf_incident now inc) \<and>
     (\<forall>i j inc inc'. m i = Some inc \<and> m j = Some inc' \<and> unresolved inc \<and> unresolved inc' \<and>
        inc_CheckID inc = inc_CheckID inc' \<longrightarrow> i = j)"

lemma wf_later: "wf_incident now inc \<Longrightarrow> now \<le> now' \<Longrightarrow> wf_incident now' inc"
  by (auto simp: wf_incident_def)

lemma inc_inv_later: "inc_inv now m \<Longrightarrow> now \<le> now' \<Longrightarrow> inc_inv now' m"
  unfolding inc_inv_def by (blast intro: wf_later)

lemma wf_new: "wf_incident now (new_incident now a)"
  by (simp add: wf_incident_def new_incident_def zero_incident_def)

lemma update_mut_fields:
  "update_mut now a inc = Inr inc' \<Longrightarrow>
     inc_ID inc' = inc_ID inc \<and> inc_CheckID inc' = inc_CheckID inc \<and>
     inc_Status inc' = inc_Status inc \<and> inc_StartedAt inc' = inc_StartedAt inc \<and>
     inc_ResolvedAt inc' = inc_ResolvedAt inc \<and> inc_AcknowledgedAt inc' = inc_AcknowledgedAt inc \<and>
     inc_UpdatedAt inc' = now"
  by (auto simp: update_mut_def Let_def)

lemma wf_update:
  "wf_incident now inc \<Longrightarrow> unresolved inc \<Longrightarrow> update_mut now a inc = Inr inc' \<Longrightarrow> wf_incident now inc'"
  by (frule update_mut_fields) (auto simp: wf_incident_def unresolved_def)

lemma wf_ack: "wf_incident now inc \<Longrightarrow> ack_mut now who inc = Inr inc' \<Longrightarrow> wf_incident now inc'"
  by (auto simp: wf_incident_def ack_mut_def split: if_splits)

lemma wf_resolve: "wf_incident now inc \<Longrightarrow> resolve_mut now who inc = Inr inc' \<Longrightarrow> wf_incident now inc'"
  by (auto simp: wf_incident_def resolve_mut_def split: if_splits)

text \<open>A change of one incident that keeps its identity and does not reopen it keeps the invariant.\<close>

lemma inc_inv_change:
  assumes inv: "inc_inv now m" and i: "m i = Some inc" and wf: "wf_incident now inc'"
    and same: "inc_ID inc' = inc_ID inc" "inc_CheckID inc' = inc_CheckID inc"
    and "unresolved inc' \<Longrightarrow> unresolved inc"
  shows "inc_inv now (m(i \<mapsto> inc'))"
  unfolding inc_inv_def
proof (intro conjI allI impI)
  fix j y
  assume "(m(i \<mapsto> inc')) j = Some y"
  then show "inc_ID y = j" and "wf_incident now y"
    using inv i wf same by (auto simp: inc_inv_def split: if_splits)
next
  fix j k y z
  assume *: "(m(i \<mapsto> inc')) j = Some y \<and> (m(i \<mapsto> inc')) k = Some z \<and> unresolved y \<and> unresolved z \<and>
    inc_CheckID y = inc_CheckID z"
  have "\<exists>y0. m j = Some y0 \<and> unresolved y0 \<and> inc_CheckID y0 = inc_CheckID y"
    using * i same assms(6) by (auto split: if_splits)
  moreover have "\<exists>z0. m k = Some z0 \<and> unresolved z0 \<and> inc_CheckID z0 = inc_CheckID z"
    using * i same assms(6) by (auto split: if_splits)
  ultimately show "j = k" using inv * unfolding inc_inv_def by metis
qed

lemma mut_identity:
  "ack_mut now who inc = Inr inc' \<Longrightarrow> inc_ID inc' = inc_ID inc \<and> inc_CheckID inc' = inc_CheckID inc \<and> unresolved inc"
  "resolve_mut now who inc = Inr inc' \<Longrightarrow> inc_ID inc' = inc_ID inc \<and> inc_CheckID inc' = inc_CheckID inc \<and> unresolved inc"
  by (auto simp: ack_mut_def resolve_mut_def unresolved_def split: if_splits)

lemma inc_inv_opened:
  assumes inv: "inc_inv now m" and none: "no_open m (in_checkID a)"
    and new: "m (generateIncidentID (in_checkID a) now) = None"
  shows "inc_inv now (m(generateIncidentID (in_checkID a) now \<mapsto> new_incident now a))"
proof -
  let ?n = "new_incident now a"
  have n: "inc_ID ?n = generateIncidentID (in_checkID a) now" "inc_CheckID ?n = in_checkID a"
    by (simp_all add: new_incident_def)
  have other: "inc_CheckID y \<noteq> in_checkID a" if "m j = Some y" "unresolved y" for j y
    using none that by (auto simp: no_open_def open_for_def unresolved_def)
  show ?thesis
    unfolding inc_inv_def
  proof (intro conjI allI impI)
    fix j y
    assume "(m(generateIncidentID (in_checkID a) now \<mapsto> ?n)) j = Some y"
    then show "inc_ID y = j" and "wf_incident now y"
      using inv n wf_new by (auto simp: inc_inv_def split: if_splits)
  next
    fix j k y z
    assume "(m(generateIncidentID (in_checkID a) now \<mapsto> ?n)) j = Some y \<and>
      (m(generateIncidentID (in_checkID a) now \<mapsto> ?n)) k = Some z \<and>
      unresolved y \<and> unresolved z \<and> inc_CheckID y = inc_CheckID z"
    then show "j = k"
      using inv n(2) other unfolding inc_inv_def by (auto split: if_splits)
  qed
qed

lemma inc_step_inv:
  assumes "inc_step now m m'" and "inc_inv now m"
  shows "inc_inv now m'"
  using assms
proof (cases rule: inc_step.cases)
  case stay
  with assms(2) show ?thesis by simp
next
  case (opened a)
  with assms(2) show ?thesis by (simp add: inc_inv_opened)
next
  case (updated i inc a inc')
  from assms(2) updated(2) have "wf_incident now inc" by (auto simp: inc_inv_def)
  then have "wf_incident now inc'" using updated(3,4) by (rule wf_update)
  with update_mut_fields [OF updated(4)] updated(3) show ?thesis
    unfolding updated(1) by (intro inc_inv_change [OF assms(2) updated(2)]) (simp_all add: unresolved_def)
next
  case (acknowledged i inc who inc')
  from assms(2) acknowledged(2) have "wf_incident now inc" by (auto simp: inc_inv_def)
  then have "wf_incident now inc'" using acknowledged(3) by (rule wf_ack)
  with mut_identity(1) [OF acknowledged(3)] show ?thesis
    unfolding acknowledged(1) by (intro inc_inv_change [OF assms(2) acknowledged(2)]) simp_all
next
  case (resolved i inc who inc')
  from assms(2) resolved(2) have "wf_incident now inc" by (auto simp: inc_inv_def)
  then have "wf_incident now inc'" using resolved(3) by (rule wf_resolve)
  with mut_identity(2) [OF resolved(3)] show ?thesis
    unfolding resolved(1) by (intro inc_inv_change [OF assms(2) resolved(2)]) simp_all
qed

lemma inc_pruned_inv:
  assumes "inc_pruned m m'" and "inc_inv now m"
  shows "inc_inv now m'"
proof -
  have "m' i = Some inc \<Longrightarrow> m i = Some inc" for i inc
    using assms(1) unfolding inc_pruned_def by (metis option.distinct(1))
  with assms(2) show ?thesis unfolding inc_inv_def by meson
qed

text \<open>A resolved incident stays as it is, and a severity never drops.\<close>

lemma inc_step_resolved:
  "inc_step now m m' \<Longrightarrow> m i = Some inc \<Longrightarrow> \<not> unresolved inc \<Longrightarrow> m' i = Some inc"
  by (erule inc_stepE) (auto split: if_splits dest: mut_identity)

lemma inc_inv_ID:
  assumes "inc_inv now m" and "m i = Some inc"
  shows "inc_ID inc = i" and "i \<noteq> []"
proof -
  from assms show "inc_ID inc = i" unfolding inc_inv_def by blast
  moreover from assms have "wf_incident now inc" unfolding inc_inv_def by blast
  then have "inc_ID inc = generateIncidentID (inc_CheckID inc) (inc_StartedAt inc)"
    unfolding wf_incident_def by blast
  ultimately show "i \<noteq> []" by (auto simp: generateIncidentID_def)
qed

lemma inc_inv_unique:
  assumes "inc_inv now m" and "m i = Some x" and "open_for c x" and "m j = Some y" and "open_for c y"
  shows "i = j"
proof -
  from assms(3,5) have "unresolved x" "unresolved y" "inc_CheckID x = inc_CheckID y"
    by (simp_all add: open_for_def unresolved_def)
  with assms(1,2,4) show ?thesis unfolding inc_inv_def by blast
qed

definition severity_rank :: "string \<Rightarrow> int" where
  "severity_rank s = (case severity_level s of None \<Rightarrow> 0 | Some n \<Rightarrow> n)"

lemma severity_rank_update:
  "update_mut now a inc = Inr inc' \<Longrightarrow> severity_rank (inc_Severity inc) \<le> severity_rank (inc_Severity inc')"
  by (auto simp: update_mut_def Let_def severityHasIncreased_def severity_rank_def severity_level_def
      split: option.splits if_splits)

lemma inc_step_severity:
  "inc_step now m m' \<Longrightarrow> m i = Some inc \<Longrightarrow>
     \<exists>inc'. m' i = Some inc' \<and> severity_rank (inc_Severity inc) \<le> severity_rank (inc_Severity inc')"
  by (erule inc_stepE)
     (auto split: if_splits dest: severity_rank_update simp: ack_mut_def resolve_mut_def)

section \<open>The contract of a repository\<close>

locale incident_repository =
  fixes repo :: "'r IncidentRepo"
    and valid :: "'r \<Rightarrow> bool"
    and lookup :: "'r \<Rightarrow> inc_map"
  assumes create_new: "valid r \<Longrightarrow> lookup r (inc_ID inc) = None \<Longrightarrow>
      \<exists>r'. repo_create repo inc r = (r', None) \<and> valid r' \<and> lookup r' = (lookup r)(inc_ID inc \<mapsto> inc)"
    and create_dup: "valid r \<Longrightarrow> lookup r (inc_ID inc) = Some inc' \<Longrightarrow>
      \<exists>err. repo_create repo inc r = (r, Some err)"
    and update_missing: "valid r \<Longrightarrow> lookup r i = None \<Longrightarrow> \<exists>err. repo_update repo i m r = (r, Some err)"
    and update_refused: "valid r \<Longrightarrow> lookup r i = Some inc \<Longrightarrow> m inc = Inl err \<Longrightarrow>
      repo_update repo i m r = (r, Some err)"
    and update_done: "valid r \<Longrightarrow> lookup r i = Some inc \<Longrightarrow> m inc = Inr inc' \<Longrightarrow>
      \<exists>r'. repo_update repo i m r = (r', None) \<and> valid r' \<and> lookup r' = (lookup r)(i \<mapsto> inc')"
    and get: "valid r \<Longrightarrow>
      repo_get repo i r = (case lookup r i of None \<Rightarrow> zero_incident | Some inc \<Rightarrow> inc, None)"
    and find_open_none: "valid r \<Longrightarrow> no_open (lookup r) c \<Longrightarrow> repo_find_open repo c r = (zero_incident, None)"
    and find_open_some: "valid r \<Longrightarrow> \<not> no_open (lookup r) c \<Longrightarrow>
      \<exists>i inc. lookup r i = Some inc \<and> open_for c inc \<and> repo_find_open repo c r = (inc, None)"
begin

text \<open>The effect of an update by a mutator: refused or missing (no change), or the change.\<close>

lemma update_cases:
  assumes "valid r"
  obtains (failed) err where "repo_update repo i m r = (r, Some err)"
      "\<And>inc inc'. lookup r i = Some inc \<Longrightarrow> m inc = Inr inc' \<Longrightarrow> False"
  | (changed) r' inc inc' where "repo_update repo i m r = (r', None)" "valid r'"
      "lookup r i = Some inc" "m inc = Inr inc'" "lookup r' = (lookup r)(i \<mapsto> inc')"
proof (cases "lookup r i")
  case None
  with update_missing [where m = m, OF assms None] show ?thesis by (auto intro: failed)
next
  case (Some inc)
  then show ?thesis
  proof (cases "m inc")
    case (Inl err)
    with update_refused [where m = m, OF assms Some Inl] Some show ?thesis by (auto intro: failed)
  next
    case (Inr inc')
    with update_done [where m = m, OF assms Some Inr] Some show ?thesis by (auto intro: changed)
  qed
qed

definition im_ok :: "gotime \<Rightarrow> 'r IncidentManager \<Rightarrow> bool" where
  "im_ok now im \<longleftrightarrow> valid (im_repo im) \<and> inc_inv now (lookup (im_repo im))"

text \<open>Every method of the manager takes a step of the abstract life cycle.\<close>

definition simulates :: "gotime \<Rightarrow> 'r IncidentManager \<Rightarrow> 'r IncidentManager \<Rightarrow> bool" where
  "simulates now im im' \<longleftrightarrow>
     valid (im_repo im') \<and> inc_step now (lookup (im_repo im)) (lookup (im_repo im'))"

lemma simulates_refl: "im_ok now im \<Longrightarrow> im_repo im' = im_repo im \<Longrightarrow> simulates now im im'"
  by (simp add: simulates_def im_ok_def stay)

text \<open>What \<open>ProcessAlert\<close> does in each of its three cases.\<close>

lemma process_updates:
  assumes ok: "im_ok now im" and ex: "\<not> no_open (lookup (im_repo im)) (in_checkID a)"
  shows "\<exists>i inc inc' r'. lookup (im_repo im) i = Some inc \<and> open_for (in_checkID a) inc \<and>
    update_mut now a inc = Inr inc' \<and> ProcessAlert repo now a im = (im\<lparr>im_repo := r'\<rparr>, None) \<and>
    valid r' \<and> lookup r' = (lookup (im_repo im))(i \<mapsto> inc')"
proof -
  from ok have v: "valid (im_repo im)" by (simp add: im_ok_def)
  from find_open_some [OF v ex] obtain i inc where i: "lookup (im_repo im) i = Some inc"
    and o: "open_for (in_checkID a) inc"
    and f: "repo_find_open repo (in_checkID a) (im_repo im) = (inc, None)" by blast
  from inc_inv_ID [OF ok [unfolded im_ok_def, THEN conjunct2] i] have id: "inc_ID inc = i" "inc_ID inc \<noteq> []"
    by simp_all
  obtain inc' where inc': "update_mut now a inc = Inr inc'" by (simp add: update_mut_def Let_def)
  from update_done [where m = "update_mut now a", OF v i inc'] obtain r' where "repo_update repo i (update_mut now a) (im_repo im) = (r', None)"
    "valid r'" "lookup r' = (lookup (im_repo im))(i \<mapsto> inc')" by blast
  with f i o id inc' show ?thesis
    by (auto simp: ProcessAlert_def process_found_def updateIncident_def)
qed

lemma process_creates:
  assumes ok: "im_ok now im" and none: "no_open (lookup (im_repo im)) (in_checkID a)"
    and new: "lookup (im_repo im) (generateIncidentID (in_checkID a) now) = None"
  shows "\<exists>r'. ProcessAlert repo now a im =
      (im\<lparr>im_repo := r', im_events := im_events im @
        (if im_onCreated im then [Created (new_incident now a)] else [])\<rparr>, None) \<and> valid r' \<and>
    lookup r' = (lookup (im_repo im))(generateIncidentID (in_checkID a) now \<mapsto> new_incident now a)"
proof -
  from ok have v: "valid (im_repo im)" by (simp add: im_ok_def)
  have "inc_ID (new_incident now a) = generateIncidentID (in_checkID a) now" by (simp add: new_incident_def)
  with create_new [OF v, of "new_incident now a"] new find_open_none [OF v none] show ?thesis
    by (auto simp: ProcessAlert_def process_found_def createIncident_def zero_incident_def Let_def)
qed

lemma process_collides:
  assumes ok: "im_ok now im" and none: "no_open (lookup (im_repo im)) (in_checkID a)"
    and old: "lookup (im_repo im) (generateIncidentID (in_checkID a) now) = Some inc"
  shows "\<exists>err. ProcessAlert repo now a im = (im, Some err)"
proof -
  from ok have v: "valid (im_repo im)" by (simp add: im_ok_def)
  have "inc_ID (new_incident now a) = generateIncidentID (in_checkID a) now" by (simp add: new_incident_def)
  with create_dup [OF v, of "new_incident now a"] old find_open_none [OF v none] show ?thesis
    by (auto simp: ProcessAlert_def process_found_def createIncident_def zero_incident_def Let_def)
qed

lemma process_simulates: "im_ok now im \<Longrightarrow> simulates now im (fst (ProcessAlert repo now a im))"
proof (cases "no_open (lookup (im_repo im)) (in_checkID a)")
  case True
  assume ok: "im_ok now im"
  show ?thesis
  proof (cases "lookup (im_repo im) (generateIncidentID (in_checkID a) now)")
    case None
    with process_creates [OF ok True] inc_step.opened [OF True] show ?thesis
      by (fastforce simp: simulates_def)
  next
    case (Some inc)
    with process_collides [OF ok True] ok show ?thesis by (force intro: simulates_refl)
  qed
next
  case False
  assume ok: "im_ok now im"
  from process_updates [OF ok False] show ?thesis
    by (force simp: simulates_def open_for_def unresolved_def intro: inc_step.updated)
qed

lemma ack_simulates: "im_ok now im \<Longrightarrow> simulates now im (fst (AcknowledgeIncident repo now i who im))"
  by (rule update_cases [of "im_repo im" i "ack_mut now who"])
     (auto simp: im_ok_def simulates_def AcknowledgeIncident_def intro: inc_step.intros)

lemma resolve_simulates: "im_ok now im \<Longrightarrow> simulates now im (fst (ResolveIncident repo now i who im))"
  by (rule update_cases [of "im_repo im" i "resolve_mut now who"])
     (auto simp: im_ok_def simulates_def ResolveIncident_def Let_def intro: inc_step.intros
       split: prod.splits option.splits)

lemma auto_resolve_simulates: "im_ok now im \<Longrightarrow> simulates now im (fst (AutoResolveOnRecovery repo now c im))"
  by (auto simp: AutoResolveOnRecovery_def simulates_refl resolve_simulates split: prod.splits option.splits)

text \<open>After \<open>AutoResolveOnRecovery\<close> the check has no open incident.\<close>

lemma auto_resolve_effect:
  assumes ok: "im_ok now im"
  shows "no_open (lookup (im_repo (fst (AutoResolveOnRecovery repo now c im)))) c \<and>
    snd (AutoResolveOnRecovery repo now c im) = None"
proof (cases "no_open (lookup (im_repo im)) c")
  case True
  from ok have v: "valid (im_repo im)" by (simp add: im_ok_def)
  from find_open_none [OF v True] True show ?thesis
    by (simp add: AutoResolveOnRecovery_def zero_incident_def)
next
  case False
  from ok have v: "valid (im_repo im)" by (simp add: im_ok_def)
  from find_open_some [OF v False] obtain i inc where i: "lookup (im_repo im) i = Some inc"
    and o: "open_for c inc" and f: "repo_find_open repo c (im_repo im) = (inc, None)" by blast
  note id = inc_inv_ID [OF ok [unfolded im_ok_def, THEN conjunct2] i]
  from o obtain inc' where inc': "resolve_mut now ''system'' inc = Inr inc'" "inc_Status inc' = ''resolved''"
    by (auto simp: resolve_mut_def open_for_def)
  from update_done [where m = "resolve_mut now ''system''", OF v i inc'(1)] obtain r' where
    r': "repo_update repo i (resolve_mut now ''system'') (im_repo im) = (r', None)" "valid r'"
      "lookup r' = (lookup (im_repo im))(i \<mapsto> inc')" by blast
  have "no_open (lookup r') c"
  proof -
    have "j = i" if "lookup (im_repo im) j = Some y" "open_for c y" for j y
      by (rule inc_inv_unique [OF ok [unfolded im_ok_def, THEN conjunct2] that i o])
    with r'(3) inc'(2) show ?thesis by (auto simp: no_open_def open_for_def)
  qed
  moreover have "im_repo (fst (ResolveIncident repo now i ''system'' im)) = r'"
    and "snd (ResolveIncident repo now i ''system'' im) = None"
    by (simp_all add: ResolveIncident_def r'(1) get [OF r'(2)] Let_def)
  ultimately show ?thesis by (simp add: AutoResolveOnRecovery_def f id)
qed

end

section \<open>The in-memory repository keeps the contract\<close>

lemma map_of_change: "map_of (AList.update i x r) = (map_of r)(i \<mapsto> x)"
  by (rule update_conv')

interpretation memory: incident_repository "memory_repo ord" "\<lambda>r. distinct (map fst r)" map_of for ord
proof unfold_locales
  fix r :: MemoryRepo and c
  assume d: "distinct (map fst r)"
  show "no_open (map_of r) c \<Longrightarrow> repo_find_open (memory_repo ord) c r = (zero_incident, None)"
  proof -
    assume none: "no_open (map_of r) c"
    then have "\<not> open_for c inc" if "(i, inc) \<in> set r" for i inc
      using that d by (auto simp: no_open_def)
    then have "find (\<lambda>(_, inc). open_for c inc) (range_order ord r) = None"
      by (auto simp: find_None_iff)
    then show ?thesis by (simp add: memory_repo_def mem_find_open_def)
  qed
  show "\<exists>i inc. map_of r i = Some inc \<and> open_for c inc \<and> repo_find_open (memory_repo ord) c r = (inc, None)"
    if "\<not> no_open (map_of r) c"
  proof -
    from that obtain i inc where "(i, inc) \<in> set r" "open_for c inc"
      by (auto simp: no_open_def dest: map_of_SomeD)
    then have "find (\<lambda>(_, inc). open_for c inc) (range_order ord r) \<noteq> None"
      by (auto simp: find_None_iff)
    then obtain e where e: "find (\<lambda>(_, inc). open_for c inc) (range_order ord r) = Some e" by blast
    then have "e \<in> set r" "open_for c (snd e)" by (auto dest!: find_SomeD split: prod.splits)
    with e d have "map_of r (fst e) = Some (snd e) \<and> open_for c (snd e) \<and>
        repo_find_open (memory_repo ord) c r = (snd e, None)"
      by (simp add: memory_repo_def mem_find_open_def split: prod.splits)
    then show ?thesis by blast
  qed
qed (auto simp: memory_repo_def mem_create_def mem_update_def mem_get_def map_of_change distinct_update
      split: option.splits)

section \<open>Histories\<close>

datatype im_action =
  AProcess AlertInput
| AAck string string
| AResolve string string
| AAutoResolve string
| APrune gotime

definition im_exec ::
  "visit \<Rightarrow> gotime \<Rightarrow> im_action \<Rightarrow> MemoryRepo IncidentManager \<Rightarrow> MemoryRepo IncidentManager" where
  "im_exec ord now act im =
     (case act of
        AProcess a \<Rightarrow> fst (ProcessAlert (memory_repo ord) now a im)
      | AAck i who \<Rightarrow> fst (AcknowledgeIncident (memory_repo ord) now i who im)
      | AResolve i who \<Rightarrow> fst (ResolveIncident (memory_repo ord) now i who im)
      | AAutoResolve c \<Rightarrow> fst (AutoResolveOnRecovery (memory_repo ord) now c im)
      | APrune cutoff \<Rightarrow> im\<lparr>im_repo := mem_prune_before cutoff (im_repo im)\<rparr>)"

text \<open>
  The managers that a sequence of calls on a new repository can lead to, the time of the last call
  next to it; the clock does not go back, and every call may meet another map order.
\<close>

inductive im_reach :: "gotime \<Rightarrow> MemoryRepo IncidentManager \<Rightarrow> bool" where
  start: "im_repo im = NewMemoryIncidentRepository \<Longrightarrow> im_reach now im"
| later: "im_reach t im \<Longrightarrow> t \<le> now \<Longrightarrow> im_reach now im"
| step: "im_reach now im \<Longrightarrow> im_reach now (im_exec ord now act im)"

lemma map_of_filter_distinct:
  "distinct (map fst r) \<Longrightarrow> map_of (filter P r) i =
     (case map_of r i of None \<Rightarrow> None | Some x \<Rightarrow> if P (i, x) then Some x else None)"
proof (induction r)
  case Nil
  then show ?case by simp
next
  case (Cons e r)
  then have "i = fst e \<Longrightarrow> map_of r i = None" by (simp add: map_of_eq_None_iff)
  with Cons show ?case by (cases e) (auto split: option.splits)
qed

lemma prune_step: "distinct (map fst r) \<Longrightarrow> inc_pruned (map_of r) (map_of (mem_prune_before cutoff r))"
  by (auto simp: inc_pruned_def mem_prune_before_def map_of_filter_distinct unresolved_def
      split: option.splits)

lemma im_exec_simulates:
  assumes "memory.im_ok now im" and "\<forall>cutoff. act \<noteq> APrune cutoff"
  shows "memory.simulates now im (im_exec ord now act im)"
  using assms(2)
  by (cases act) (simp_all add: im_exec_def assms(1) memory.process_simulates memory.ack_simulates
      memory.resolve_simulates memory.auto_resolve_simulates)

lemma im_exec_ok:
  assumes ok: "memory.im_ok now im"
  shows "memory.im_ok now (im_exec ord now act im)"
proof (cases "\<exists>cutoff. act = APrune cutoff")
  case True
  then obtain cutoff where act: "act = APrune cutoff" by blast
  from ok have d: "distinct (map fst (im_repo im))" and inv: "inc_inv now (map_of (im_repo im))"
    by (simp_all add: memory.im_ok_def)
  from d have "distinct (map fst (mem_prune_before cutoff (im_repo im)))"
    by (simp add: mem_prune_before_def distinct_map_filter_key)
  with inc_pruned_inv [OF prune_step [OF d] inv] show ?thesis
    by (simp add: memory.im_ok_def im_exec_def act)
next
  case False
  with im_exec_simulates [OF ok, of act ord] ok show ?thesis
    by (auto simp: memory.im_ok_def memory.simulates_def intro: inc_step_inv)
qed

lemma im_reach_ok: "im_reach now im \<Longrightarrow> memory.im_ok now im"
proof (induction rule: im_reach.induct)
  case (start im now)
  then show ?case
    by (simp add: memory.im_ok_def NewMemoryIncidentRepository_def inc_inv_def)
next
  case (later t im now)
  then show ?case by (auto simp: memory.im_ok_def inc_inv_later)
next
  case (step now im ord act)
  then show ?case by (simp add: im_exec_ok)
qed

lemma one_open:
  assumes "distinct (map fst r)" and "inc_inv now (map_of r)"
  shows "length (filter (\<lambda>(_, inc). open_for c inc) r) \<le> 1"
proof (rule ccontr)
  assume "\<not> ?thesis"
  then obtain e f rest where ef: "filter (\<lambda>(_, inc). open_for c inc) r = e # f # rest"
    by (metis One_nat_def Suc_le_mono le0 length_Cons list.size(3) neq_Nil_conv)
  then have in_r: "e \<in> set r" "f \<in> set r" and o: "open_for c (snd e)" "open_for c (snd f)"
    by (auto dest!: filter_eq_ConsD Cons_eq_filterD)
  with assms(1) have "map_of r (fst e) = Some (snd e)" "map_of r (fst f) = Some (snd f)" by simp_all
  from inc_inv_unique [OF assms(2) this(1) o(1) this(2) o(2)] have "fst e = fst f" .
  moreover from assms(1) have "distinct (map fst (e # f # rest))"
    unfolding ef [symmetric] by (rule distinct_map_filter_key)
  ultimately show False by simp
qed

section \<open>Properties\<close>

text \<open>
  C5: In every history of calls that the incident manager completes one after the other, on the in-memory
  repository, each stored incident is well formed (status, timestamps and ID agree: a resolution time exactly
  when resolved, an acknowledgement time when acknowledged, no time after the present), and no check has two
  unresolved incidents. Calls that overlap are excluded: \<open>ProcessAlert\<close> looks and creates in two critical
  sections, and \<open>concurrent_alerts_open_two\<close> below shows two overlapping alerts open two incidents.
\<close>

theorem incident_invariant:
  assumes "im_reach now im"
  shows "distinct (map fst (im_repo im)) \<and>
    (\<forall>i inc. map_of (im_repo im) i = Some inc \<longrightarrow> inc_ID inc = i \<and> wf_incident now inc) \<and>
    (\<forall>c. length (filter (\<lambda>(_, inc). open_for c inc) (im_repo im)) \<le> 1)"
proof -
  from im_reach_ok [OF assms] have d: "distinct (map fst (im_repo im))"
    and inv: "inc_inv now (map_of (im_repo im))"
    by (simp_all add: memory.im_ok_def)
  from inv have "\<forall>i inc. map_of (im_repo im) i = Some inc \<longrightarrow> inc_ID inc = i \<and> wf_incident now inc"
    unfolding inc_inv_def by blast
  with d one_open [OF d inv] show ?thesis by blast
qed

definition sample_alert :: "string \<Rightarrow> AlertInput" where
  "sample_alert severity = \<lparr>in_checkID = ''db'', in_checkName = ''Database'', in_checkType = ''tcp'',
     in_severity = severity, in_message = ''down'', in_metadata = []\<rparr>"

definition sample_manager :: "MemoryRepo IncidentManager" where
  "sample_manager = im_exec id 62135596807000000000 (AProcess (sample_alert ''warning''))
     (NewIncidentManager NewMemoryIncidentRepository)"

lemma sample_manager_repo:
  "im_repo sample_manager = [(''db-7'', new_incident 62135596807000000000 (sample_alert ''warning''))]"
  by (simp add: sample_manager_def im_exec_def ProcessAlert_def process_found_def createIncident_def
      memory_repo_def mem_find_open_def mem_create_def range_order_def NewIncidentManager_def
      NewMemoryIncidentRepository_def zero_incident_def new_incident_def generateIncidentID_def
      sample_alert_def unix_def itoa_simps)

lemma sample_manager_reach: "im_reach 62135596807000000000 sample_manager"
  unfolding sample_manager_def
  by (rule im_reach.step, rule im_reach.start) (simp add: NewIncidentManager_def)

theorem incident_invariant_witness:
  "length (filter (\<lambda>(_, inc). open_for ''db'' inc) (im_repo sample_manager)) \<le> 1 \<and>
   map fst (im_repo sample_manager) = [''db-7'']"
  using incident_invariant [OF sample_manager_reach] by (simp add: sample_manager_repo)

text \<open>
  C6: \<open>ProcessAlert\<close> updates or creates. If the check has an unresolved incident, exactly that
  one takes the message, the merged metadata and the higher of the two severities, and no error is
  returned. If it has none, a new open incident appears under \<open>checkID-seconds\<close> and the creation
  callback is told; unless that ID is taken, and then nothing changes and an error is returned.
\<close>

theorem ProcessAlert_correct:
  fixes im now a ord
  defines "m \<equiv> map_of (im_repo im)" and "i0 \<equiv> generateIncidentID (in_checkID a) now"
    and "out \<equiv> ProcessAlert (memory_repo ord) now a im"
  assumes "im_reach t im" and "t \<le> now"
  shows "if \<exists>i inc. m i = Some inc \<and> open_for (in_checkID a) inc then
      snd out = None \<and> (\<exists>i inc. m i = Some inc \<and> open_for (in_checkID a) inc \<and>
        map_of (im_repo (fst out)) = m(i \<mapsto> inc\<lparr>
          inc_Severity := (if severityHasIncreased (inc_Severity inc) (in_severity a)
                           then in_severity a else inc_Severity inc),
          inc_Message := in_message a,
          inc_Metadata := merge_metadata (in_metadata a) (inc_Metadata inc), inc_UpdatedAt := now\<rparr>))
    else if m i0 \<noteq> None then fst out = im \<and> snd out \<noteq> None
    else snd out = None \<and> map_of (im_repo (fst out)) = m(i0 \<mapsto> new_incident now a) \<and>
      im_events (fst out) = im_events im @ (if im_onCreated im then [Created (new_incident now a)] else [])"
proof -
  from im_reach_ok [OF assms(4)] assms(5) have ok: "memory.im_ok now im"
    by (auto simp: memory.im_ok_def inc_inv_later)
  show ?thesis
  proof (cases "no_open m (in_checkID a)")
    case True
    then have none: "\<not> (\<exists>i inc. m i = Some inc \<and> open_for (in_checkID a) inc)"
      by (auto simp: no_open_def)
    show ?thesis
    proof (cases "m i0")
      case None
      with none memory.process_creates [OF ok True [unfolded m_def], of ord] show ?thesis
        by (auto simp: m_def i0_def out_def)
    next
      case (Some inc)
      with none memory.process_collides [OF ok True [unfolded m_def], of inc ord] show ?thesis
        by (auto simp: m_def i0_def out_def)
    qed
  next
    case False
    from memory.process_updates [OF ok False [unfolded m_def], of ord]
    obtain i inc inc' r' where i: "m i = Some inc" "open_for (in_checkID a) inc"
      and inc': "update_mut now a inc = Inr inc'"
      and out: "out = (im\<lparr>im_repo := r'\<rparr>, None)" "map_of r' = m(i \<mapsto> inc')"
      by (auto simp: m_def out_def)
    from inc' have "inc' = inc\<lparr>inc_Severity := (if severityHasIncreased (inc_Severity inc) (in_severity a)
        then in_severity a else inc_Severity inc), inc_Message := in_message a,
        inc_Metadata := merge_metadata (in_metadata a) (inc_Metadata inc), inc_UpdatedAt := now\<rparr>"
      by (auto simp: update_mut_def Let_def)
    with out have "snd out = None \<and> map_of (im_repo (fst out)) = m(i \<mapsto> inc\<lparr>inc_Severity :=
        (if severityHasIncreased (inc_Severity inc) (in_severity a)
         then in_severity a else inc_Severity inc), inc_Message := in_message a,
        inc_Metadata := merge_metadata (in_metadata a) (inc_Metadata inc), inc_UpdatedAt := now\<rparr>)"
      by simp
    with i have "snd out = None \<and> (\<exists>i inc. m i = Some inc \<and> open_for (in_checkID a) inc \<and>
        map_of (im_repo (fst out)) = m(i \<mapsto> inc\<lparr>inc_Severity :=
        (if severityHasIncreased (inc_Severity inc) (in_severity a)
         then in_severity a else inc_Severity inc), inc_Message := in_message a,
        inc_Metadata := merge_metadata (in_metadata a) (inc_Metadata inc), inc_UpdatedAt := now\<rparr>))"
      by blast
    moreover from i have "\<exists>i inc. m i = Some inc \<and> open_for (in_checkID a) inc" by blast
    ultimately show ?thesis by (simp only: if_True simp_thms)
  qed
qed

theorem ProcessAlert_correct_witness:
  "map_option inc_Severity (map_of (im_repo (fst (ProcessAlert (memory_repo id) 62135596808000000000
     (sample_alert ''critical'') sample_manager))) ''db-7'') = Some ''critical''"
proof -
  have c: "\<exists>i inc. map_of (im_repo sample_manager) i = Some inc \<and>
      open_for (in_checkID (sample_alert ''critical'')) inc"
    by (auto simp: sample_manager_repo open_for_def new_incident_def sample_alert_def)
  from ProcessAlert_correct [OF sample_manager_reach, of 62135596808000000000 "sample_alert ''critical''" id,
      unfolded if_P [OF c]]
  show ?thesis
    by (auto simp: sample_manager_repo severityHasIncreased_def severity_level_def new_incident_def
        sample_alert_def split: if_splits)
qed

text \<open>
  a resolved incident is final: no call changes anything of it, and only the retention job can
  remove it. And no call lowers the severity of an incident that stays.
\<close>

theorem resolved_is_final:
  fixes ord :: visit
  assumes "im_reach t im" and "t \<le> now" and "map_of (im_repo im) i = Some inc"
  defines "post act \<equiv> map_of (im_repo (im_exec ord now act im)) i"
  shows "((\<forall>cutoff. act \<noteq> APrune cutoff) \<longrightarrow>
      (\<exists>inc'. post act = Some inc' \<and> (inc_Status inc = ''resolved'' \<longrightarrow> inc' = inc) \<and>
        severity_rank (inc_Severity inc) \<le> severity_rank (inc_Severity inc'))) \<and>
    (post (APrune cutoff) = Some inc \<or> inc_Status inc = ''resolved'' \<and> post (APrune cutoff) = None)"
proof (intro conjI impI)
  from im_reach_ok [OF assms(1)] assms(2) have ok: "memory.im_ok now im"
    by (auto simp: memory.im_ok_def inc_inv_later)
  assume "\<forall>cutoff. act \<noteq> APrune cutoff"
  from im_exec_simulates [OF ok this, of ord]
  have st: "inc_step now (map_of (im_repo im)) (map_of (im_repo (im_exec ord now act im)))"
    by (simp add: memory.simulates_def)
  from inc_step_severity [OF st assms(3)] inc_step_resolved [OF st assms(3)]
  show "\<exists>inc'. post act = Some inc' \<and> (inc_Status inc = ''resolved'' \<longrightarrow> inc' = inc) \<and>
      severity_rank (inc_Severity inc) \<le> severity_rank (inc_Severity inc')"
    unfolding post_def unresolved_def by force
next
  from im_reach_ok [OF assms(1)] have "distinct (map fst (im_repo im))" by (simp add: memory.im_ok_def)
  from prune_step [OF this, of cutoff]
  have "map_of (mem_prune_before cutoff (im_repo im)) i = map_of (im_repo im) i \<or>
      (\<exists>x. map_of (im_repo im) i = Some x \<and> \<not> unresolved x \<and>
         map_of (mem_prune_before cutoff (im_repo im)) i = None)"
    unfolding inc_pruned_def by blast
  then show "post (APrune cutoff) = Some inc \<or> inc_Status inc = ''resolved'' \<and> post (APrune cutoff) = None"
    using assms(3) by (auto simp: post_def im_exec_def unresolved_def)
qed

theorem resolved_is_final_witness:
  "map_of (im_repo (im_exec id 62135596809000000000 (AProcess (sample_alert ''critical''))
      (im_exec id 62135596808000000000 (AResolve ''db-7'' ''alice'') sample_manager))) ''db-7'' =
   map_of (im_repo (im_exec id 62135596808000000000 (AResolve ''db-7'' ''alice'') sample_manager)) ''db-7''"
proof -
  let ?im = "im_exec id 62135596808000000000 (AResolve ''db-7'' ''alice'') sample_manager"
  have reach: "im_reach 62135596808000000000 ?im"
    by (rule im_reach.step, rule im_reach.later [OF sample_manager_reach]) simp
  have "\<exists>inc. map_of (im_repo ?im) ''db-7'' = Some inc \<and> inc_Status inc = ''resolved''"
    by (simp add: im_exec_def ResolveIncident_def memory_repo_def mem_update_def mem_get_def
        sample_manager_repo resolve_mut_def new_incident_def Let_def)
  then obtain inc where inc: "map_of (im_repo ?im) ''db-7'' = Some inc" "inc_Status inc = ''resolved''"
    by blast
  from resolved_is_final [OF reach _ inc(1), where now = 62135596809000000000 and ord = id
      and act = "AProcess (sample_alert ''critical'')"] inc
  show ?thesis by simp
qed

text \<open>
  an incident that is resolved cannot be reopened within the second it was opened in. Then the
  generated ID is still taken, \<open>ProcessAlert\<close> returns an error (which the alert pipeline drops),
  and the failing check is left without an open incident.
\<close>

theorem reopen_in_same_second_is_lost:
  fixes ord :: visit
  assumes "im_reach t im" and "t \<le> now" and "map_of (im_repo im) i = Some inc"
    and "inc_Status inc = ''resolved''" and "unix (inc_StartedAt inc) = unix now"
    and "\<forall>j x. map_of (im_repo im) j = Some x \<and> inc_CheckID x = inc_CheckID inc \<longrightarrow> inc_Status x = ''resolved''"
    and "in_checkID a = inc_CheckID inc"
  shows "fst (ProcessAlert (memory_repo ord) now a im) = im \<and>
    snd (ProcessAlert (memory_repo ord) now a im) \<noteq> None"
proof -
  from im_reach_ok [OF assms(1)] assms(2) have ok: "memory.im_ok now im"
    by (auto simp: memory.im_ok_def inc_inv_later)
  from assms(6,7) have none: "no_open (map_of (im_repo im)) (in_checkID a)"
    by (auto simp: no_open_def open_for_def)
  from ok assms(3) have "inc_ID inc = i" and "wf_incident now inc"
    unfolding memory.im_ok_def inc_inv_def by blast+
  then have "i = generateIncidentID (in_checkID a) now"
    using assms(5,7) by (simp add: wf_incident_def generateIncidentID_def)
  with memory.process_collides [OF ok none, of inc ord] assms(3) show ?thesis by auto
qed

theorem reopen_in_same_second_is_lost_witness:
  "let im = im_exec id 62135596807000000001 (AAutoResolve ''db'') sample_manager
   in ProcessAlert (memory_repo id) 62135596807000000002 (sample_alert ''critical'') im =
      (im, Some ''create incident: incident already exists: db-7'')"
proof -
  let ?im = "im_exec id 62135596807000000001 (AAutoResolve ''db'') sample_manager"
  have reach: "im_reach 62135596807000000001 ?im"
    by (rule im_reach.step, rule im_reach.later [OF sample_manager_reach]) simp
  let ?inc = "(new_incident 62135596807000000000 (sample_alert ''warning''))\<lparr>inc_Status := ''resolved'',
      inc_ResolvedAt := Some 62135596807000000001, inc_ResolvedBy := ''system'',
      inc_UpdatedAt := 62135596807000000001\<rparr>"
  have repo: "im_repo ?im = [(''db-7'', ?inc)]"
    by (simp add: im_exec_def AutoResolveOnRecovery_def ResolveIncident_def memory_repo_def mem_find_open_def
        range_order_def mem_update_def mem_get_def sample_manager_repo resolve_mut_def new_incident_def
        open_for_def sample_alert_def Let_def generateIncidentID_def unix_def itoa_simps)
  have "fst (ProcessAlert (memory_repo id) 62135596807000000002 (sample_alert ''critical'') ?im) = ?im"
    using reopen_in_same_second_is_lost [OF reach, where now = 62135596807000000002 and i = "''db-7''"
        and inc = ?inc and a = "sample_alert ''critical''" and ord = id]
    by (simp add: repo new_incident_def sample_alert_def unix_def)
  moreover have "snd (ProcessAlert (memory_repo id) 62135596807000000002 (sample_alert ''critical'') ?im) =
      Some ''create incident: incident already exists: db-7''"
    by (simp add: ProcessAlert_def process_found_def createIncident_def memory_repo_def mem_find_open_def
        mem_create_def range_order_def repo new_incident_def open_for_def zero_incident_def sample_alert_def
        generateIncidentID_def unix_def itoa_simps)
  ultimately show ?thesis by (simp add: prod_eq_iff Let_def)
qed

lemma process_found_new:
  assumes "inc_ID found = []" and "map_of (im_repo im) (generateIncidentID (in_checkID a) now) = None"
  shows "im_repo (fst (process_found (memory_repo ord) now a found im)) =
    im_repo im @ [(generateIncidentID (in_checkID a) now, new_incident now a)]"
proof -
  have new: "AList.update i x r = r @ [(i, x)]" if "map_of r i = None" for i x and r :: MemoryRepo
    using that by (induction r) auto
  have "inc_ID (new_incident now a) = generateIncidentID (in_checkID a) now" by (simp add: new_incident_def)
  with assms show ?thesis
    by (simp add: process_found_def createIncident_def memory_repo_def mem_create_def new Let_def)
qed

text \<open>
  looking for an open incident and creating one are two critical sections. When two alerts for
  a check without an open incident both look before either creates, at different seconds, the check
  ends up with two open incidents: the invariant above holds for calls one after the other only.
\<close>

theorem concurrent_alerts_open_two:
  fixes ord :: visit
  assumes "im_reach t im" and "t \<le> now1" and "now1 \<le> now2" and "unix now1 \<noteq> unix now2"
    and "no_open (map_of (im_repo im)) c" and "in_checkID a1 = c" and "in_checkID a2 = c"
    and "map_of (im_repo im) (generateIncidentID c now1) = None"
    and "map_of (im_repo im) (generateIncidentID c now2) = None"
  defines "found \<equiv> fst (repo_find_open (memory_repo ord) c (im_repo im))"
  shows "length (filter (\<lambda>(_, inc). open_for c inc) (im_repo (fst
      (process_found (memory_repo ord) now2 a2 found
        (fst (process_found (memory_repo ord) now1 a1 found im)))))) = 2"
proof -
  from im_reach_ok [OF assms(1)] have d: "distinct (map fst (im_repo im))" by (simp add: memory.im_ok_def)
  from memory.find_open_none [OF d assms(5), of ord] have found: "inc_ID found = []"
    by (simp add: found_def zero_incident_def)
  have ids: "generateIncidentID c now1 \<noteq> generateIncidentID c now2"
    using assms(4) by (auto simp: generateIncidentID_def dest: itoa_inj)
  from assms(5) d have none: "filter (\<lambda>(_, inc). open_for c inc) (im_repo im) = []"
    by (auto simp: no_open_def filter_empty_conv)
  have opens: "open_for c (new_incident now1 a1)" "open_for c (new_incident now2 a2)"
    using assms(6,7) by (simp_all add: open_for_def new_incident_def)
  have r1: "im_repo (fst (process_found (memory_repo ord) now1 a1 found im)) =
      im_repo im @ [(generateIncidentID c now1, new_incident now1 a1)]"
    using process_found_new [OF found, of im a1 now1 ord] assms(6,8) by simp
  with ids assms(9)
  have "map_of (im_repo (fst (process_found (memory_repo ord) now1 a1 found im))) (generateIncidentID c now2) = None"
    by (simp add: map_add_def)
  then have "im_repo (fst (process_found (memory_repo ord) now2 a2 found
        (fst (process_found (memory_repo ord) now1 a1 found im)))) =
      (im_repo im @ [(generateIncidentID c now1, new_incident now1 a1)]) @
        [(generateIncidentID c now2, new_incident now2 a2)]"
    using process_found_new [OF found, of "fst (process_found (memory_repo ord) now1 a1 found im)" a2 now2 ord]
      assms(7) r1 by simp
  then show ?thesis using none opens by simp
qed

theorem concurrent_alerts_open_two_witness:
  "length (filter (\<lambda>(_, inc). open_for ''db'' inc) (im_repo (fst
      (process_found (memory_repo id) 62135596808000000000 (sample_alert ''critical'')
        (fst (repo_find_open (memory_repo id) ''db'' []))
        (fst (process_found (memory_repo id) 62135596807000000000 (sample_alert ''critical'')
          (fst (repo_find_open (memory_repo id) ''db'' [])) (NewIncidentManager []))))))) = 2"
proof -
  have "im_reach 62135596807000000000 (NewIncidentManager [])"
    by (rule im_reach.start) (simp add: NewIncidentManager_def NewMemoryIncidentRepository_def)
  from concurrent_alerts_open_two [OF this, where ?now1.0 = 62135596807000000000
      and ?now2.0 = 62135596808000000000 and c = "''db''" and ?a1.0 = "sample_alert ''critical''"
      and ?a2.0 = "sample_alert ''critical''" and ord = id]
  show ?thesis by (simp add: NewIncidentManager_def unix_def no_open_def sample_alert_def)
qed

end
