(* ===== verification/AlertPipeline.thy ===== *)
theory AlertPipeline
  imports AlertRules Incidents
begin

text \<open>
  How check results become incidents: \<open>Service.handleAlertResults\<close> and the methods it calls
  (\<open>service.go\<close>), between the alert rule engine and the incident manager. It counts
  consecutive failures and successes of every check, holds alerts back during maintenance and until
  \<open>FailuresToOpen\<close> failed runs, and resolves the incident of a check that has recovered. The
  lemmas are proved for any repository that keeps the contract of \<open>Incidents\<close>.
\<close>

section \<open>Counting consecutive runs\<close>

record consecutiveCount =
  cc_failures :: int
  cc_successes :: int

type_synonym tracker = "string \<rightharpoonup> consecutiveCount"

definition track_result :: "tracker \<Rightarrow> CheckResult \<Rightarrow> tracker" where
  "track_result t result =
     (let cc = (case t (res_CheckID result) of
                  None \<Rightarrow> \<lparr>cc_failures = 0, cc_successes = 0\<rparr> | Some cc \<Rightarrow> cc)
      in t(res_CheckID result \<mapsto>
           (if res_Healthy result
            then cc\<lparr>cc_successes := cc_successes cc + 1, cc_failures := 0\<rparr>
            else cc\<lparr>cc_failures := cc_failures cc + 1, cc_successes := 0\<rparr>)))"

definition updateConsecutiveTrackers :: "CheckResult list \<Rightarrow> tracker \<Rightarrow> tracker" where
  "updateConsecutiveTrackers results t = foldl track_result t results"

definition consecutiveFailures :: "tracker \<Rightarrow> string \<Rightarrow> int" where
  "consecutiveFailures t checkID = (case t checkID of Some cc \<Rightarrow> cc_failures cc | None \<Rightarrow> 0)"

definition consecutiveSuccesses :: "tracker \<Rightarrow> string \<Rightarrow> int" where
  "consecutiveSuccesses t checkID = (case t checkID of Some cc \<Rightarrow> cc_successes cc | None \<Rightarrow> 0)"

section \<open>From alerts to incidents\<close>

definition check_map :: "CheckConfig list \<Rightarrow> string \<rightharpoonup> CheckConfig" where
  "check_map checks = foldl (\<lambda>m c. m(chk_ID c \<mapsto> c)) Map.empty checks"

definition result_map :: "CheckResult list \<Rightarrow> string \<rightharpoonup> CheckResult" where
  "result_map results = foldl (\<lambda>m r. m(res_CheckID r \<mapsto> r)) Map.empty results"

text \<open>\<open>IsCheckInMaintenance\<close> of the maintenance store, when one is set.\<close>

type_synonym maintenance = "(CheckConfig \<Rightarrow> bool) option"

definition in_maintenance :: "maintenance \<Rightarrow> (string \<rightharpoonup> CheckConfig) \<Rightarrow> string \<Rightarrow> bool" where
  "in_maintenance maint checkMap checkID =
     (case maint of
        None \<Rightarrow> False
      | Some isIn \<Rightarrow> (case checkMap checkID of Some cc \<Rightarrow> isIn cc | None \<Rightarrow> False))"

definition failure_threshold :: "CheckConfig \<Rightarrow> int" where
  "failure_threshold cc = (if chk_FailuresToOpen cc \<le> 0 then 1 else chk_FailuresToOpen cc)"

definition below_threshold ::
  "(string \<rightharpoonup> CheckConfig) \<Rightarrow> (string \<rightharpoonup> CheckResult) \<Rightarrow> tracker \<Rightarrow> string \<Rightarrow> bool" where
  "below_threshold checkMap resultMap t checkID =
     (case checkMap checkID of
        None \<Rightarrow> False
      | Some cc \<Rightarrow>
          (case resultMap checkID of
             None \<Rightarrow> False
           | Some result \<Rightarrow>
               \<not> res_Healthy result \<and> consecutiveFailures t checkID < failure_threshold cc))"

definition alert_input :: "(string \<rightharpoonup> CheckResult) \<Rightarrow> Alert \<Rightarrow> AlertInput" where
  "alert_input resultMap alert =
     (let metadata = [(''ruleId'', alert_RuleID alert), (''ruleName'', alert_RuleName alert),
                      (''message'', alert_Message alert)];
          (checkType, metadata) =
            (case resultMap (alert_CheckID alert) of
               Some r \<Rightarrow> (res_Type r, if res_Server r \<noteq> [] then metadata @ [(''server'', res_Server r)]
                                      else metadata)
             | None \<Rightarrow> ([], metadata))
      in \<lparr>in_checkID = alert_CheckID alert, in_checkName = alert_CheckName alert,
          in_checkType = checkType, in_severity = alert_Severity alert,
          in_message = alert_Message alert, in_metadata = metadata\<rparr>)"

text \<open>One turn of the loop of \<open>processIncidentAlerts\<close>; the error of \<open>ProcessAlert\<close> is dropped.\<close>

definition process_incident_alert ::
  "'r IncidentRepo \<Rightarrow> gotime \<Rightarrow> maintenance \<Rightarrow> (string \<rightharpoonup> CheckConfig) \<Rightarrow> (string \<rightharpoonup> CheckResult) \<Rightarrow>
     tracker \<Rightarrow> 'r IncidentManager \<Rightarrow> Alert \<Rightarrow> 'r IncidentManager" where
  "process_incident_alert repo now maint checkMap resultMap t im alert =
     (if in_maintenance maint checkMap (alert_CheckID alert) then im
      else if below_threshold checkMap resultMap t (alert_CheckID alert) then im
      else fst (ProcessAlert repo now (alert_input resultMap alert) im))"

definition processIncidentAlerts ::
  "'r IncidentRepo \<Rightarrow> gotime \<Rightarrow> maintenance \<Rightarrow> (string \<rightharpoonup> CheckConfig) \<Rightarrow> (string \<rightharpoonup> CheckResult) \<Rightarrow>
     tracker \<Rightarrow> Alert list \<Rightarrow> 'r IncidentManager \<Rightarrow> 'r IncidentManager" where
  "processIncidentAlerts repo now maint checkMap resultMap t alerts im =
     foldl (process_incident_alert repo now maint checkMap resultMap t) im alerts"

definition success_threshold :: "(string \<rightharpoonup> CheckConfig) \<Rightarrow> string \<Rightarrow> int" where
  "success_threshold checkMap checkID =
     (case checkMap checkID of
        Some cc \<Rightarrow> if chk_SuccessesToResolve cc > 0 then chk_SuccessesToResolve cc else 1
      | None \<Rightarrow> 1)"

definition auto_resolve_result ::
  "'r IncidentRepo \<Rightarrow> gotime \<Rightarrow> (string \<rightharpoonup> CheckConfig) \<Rightarrow> tracker \<Rightarrow>
     'r IncidentManager \<Rightarrow> CheckResult \<Rightarrow> 'r IncidentManager" where
  "auto_resolve_result repo now checkMap t im result =
     (if \<not> res_Healthy result then im
      else if consecutiveSuccesses t (res_CheckID result) \<ge> success_threshold checkMap (res_CheckID result)
        then fst (AutoResolveOnRecovery repo now (res_CheckID result) im)
      else im)"

definition autoResolveRecovered ::
  "'r IncidentRepo \<Rightarrow> gotime \<Rightarrow> (string \<rightharpoonup> CheckConfig) \<Rightarrow> tracker \<Rightarrow> CheckResult list \<Rightarrow>
     'r IncidentManager \<Rightarrow> 'r IncidentManager" where
  "autoResolveRecovered repo now checkMap t results im =
     foldl (auto_resolve_result repo now checkMap t) im results"

text \<open>
  The part of the service that \<open>handleAlertResults\<close> works on. One point in time stands for all the
  readings of the clock during one call.
\<close>

record 'r AlertService =
  svc_engine :: "AlertRuleEngine option"
  svc_tracker :: tracker
  svc_manager :: "'r IncidentManager option"

definition handleAlertResults ::
  "'r IncidentRepo \<Rightarrow> gotime \<Rightarrow> maintenance \<Rightarrow> State \<Rightarrow> CheckResult list \<Rightarrow>
     'r AlertService \<Rightarrow> 'r AlertService" where
  "handleAlertResults repo now maint state results s =
     (case svc_engine s of
        None \<Rightarrow> s
      | Some e \<Rightarrow>
          if length results = 0 then s
          else
            let checkMap = check_map (st_Checks state);
                resultMap = result_map results;
                t = updateConsecutiveTrackers results (svc_tracker s);
                (e, _) = Evaluate now results e;
                s = s\<lparr>svc_engine := Some e, svc_tracker := t\<rparr>
            in case svc_manager s of
                 None \<Rightarrow> s
               | Some im \<Rightarrow>
                   let (e, incidentAlerts) = EvaluateForIncidents now results e;
                       im = processIncidentAlerts repo now maint checkMap resultMap t incidentAlerts im;
                       im = autoResolveRecovered repo now checkMap t results im
                   in s\<lparr>svc_engine := Some e, svc_manager := Some im\<rparr>)"

section \<open>The trackers count the end of the history\<close>

definition history_of :: "string \<Rightarrow> CheckResult list \<Rightarrow> CheckResult list" where
  "history_of c results = filter (\<lambda>r. res_CheckID r = c) results"

definition trailing :: "(CheckResult \<Rightarrow> bool) \<Rightarrow> CheckResult list \<Rightarrow> int" where
  "trailing P results = int (length (takeWhile P (rev results)))"

lemma tracker_counts:
  "consecutiveFailures (updateConsecutiveTrackers rs Map.empty) c =
     trailing (\<lambda>r. \<not> res_Healthy r) (history_of c rs) \<and>
   consecutiveSuccesses (updateConsecutiveTrackers rs Map.empty) c =
     trailing res_Healthy (history_of c rs)"
proof (induction rs rule: rev_induct)
  case Nil
  then show ?case
    by (simp add: updateConsecutiveTrackers_def consecutiveFailures_def consecutiveSuccesses_def
        history_of_def trailing_def)
next
  case (snoc r rs)
  then show ?case
    by (auto simp: updateConsecutiveTrackers_def consecutiveFailures_def consecutiveSuccesses_def
        history_of_def trailing_def track_result_def Let_def split: option.splits)
qed

lemma trackers_append:
  "updateConsecutiveTrackers rs' (updateConsecutiveTrackers rs t) = updateConsecutiveTrackers (rs @ rs') t"
  by (simp add: updateConsecutiveTrackers_def)

section \<open>What a batch does to the incidents of one check\<close>

text \<open>The incidents of a check, whatever their IDs.\<close>

definition incidents_of :: "string \<Rightarrow> inc_map \<Rightarrow> Incident set" where
  "incidents_of c m = {inc. \<exists>i. m i = Some inc \<and> inc_CheckID inc = c}"

lemma no_open_incidents_of: "no_open m c \<longleftrightarrow> (\<forall>inc \<in> incidents_of c m. inc_Status inc = ''resolved'')"
  by (auto simp: no_open_def incidents_of_def open_for_def)

lemma incidents_of_change:
  assumes "m i = None \<or> (\<exists>inc. m i = Some inc \<and> inc_CheckID inc \<noteq> c)" and "inc_CheckID inc' \<noteq> c"
  shows "incidents_of c (m(i \<mapsto> inc')) = incidents_of c m"
proof -
  have "(m(i \<mapsto> inc')) j = Some inc \<and> inc_CheckID inc = c \<longleftrightarrow> m j = Some inc \<and> inc_CheckID inc = c" for j inc
    using assms by (cases "j = i") auto
  then show ?thesis by (simp add: incidents_of_def)
qed

context incident_repository
begin

abbreviation incs :: "string \<Rightarrow> 'r IncidentManager \<Rightarrow> Incident set" where
  "incs c im \<equiv> incidents_of c (lookup (im_repo im))"

lemma process_ok: "im_ok now im \<Longrightarrow> im_ok now (fst (ProcessAlert repo now a im))"
  using process_simulates [of now im a] by (auto simp: simulates_def im_ok_def intro: inc_step_inv)

lemma auto_resolve_ok: "im_ok now im \<Longrightarrow> im_ok now (fst (AutoResolveOnRecovery repo now c im))"
  using auto_resolve_simulates [of now im c] by (auto simp: simulates_def im_ok_def intro: inc_step_inv)

text \<open>Both touch the incidents of their own check only.\<close>

lemma process_other:
  assumes ok: "im_ok now im" and other: "in_checkID a \<noteq> c"
  shows "incs c (fst (ProcessAlert repo now a im)) = incs c im"
proof (cases "no_open (lookup (im_repo im)) (in_checkID a)")
  case True
  show ?thesis
  proof (cases "lookup (im_repo im) (generateIncidentID (in_checkID a) now)")
    case None
    from process_creates [OF ok True None] other None show ?thesis
      by (auto simp: incidents_of_change new_incident_def)
  next
    case (Some inc)
    from process_collides [OF ok True Some] show ?thesis by auto
  qed
next
  case False
  from process_updates [OF ok False] obtain i inc inc' r' where
    "lookup (im_repo im) i = Some inc" "open_for (in_checkID a) inc" "update_mut now a inc = Inr inc'"
    "ProcessAlert repo now a im = (im\<lparr>im_repo := r'\<rparr>, None)" "lookup r' = (lookup (im_repo im))(i \<mapsto> inc')"
    by blast
  with other show ?thesis
    by (auto simp: incidents_of_change open_for_def dest: update_mut_fields)
qed

lemma resolve_effect:
  assumes "valid (im_repo im)" and "lookup (im_repo im) i = Some inc" and "inc_CheckID inc \<noteq> c"
  shows "incs c (fst (ResolveIncident repo now i who im)) = incs c im"
proof (rule update_cases [OF assms(1), where i = i and m = "resolve_mut now who"])
  fix err
  assume "repo_update repo i (resolve_mut now who) (im_repo im) = (im_repo im, Some err)"
  then show ?thesis by (simp add: ResolveIncident_def)
next
  fix r' inc0 inc'
  assume *: "repo_update repo i (resolve_mut now who) (im_repo im) = (r', None)" "valid r'"
    "lookup (im_repo im) i = Some inc0" "resolve_mut now who inc0 = Inr inc'"
    "lookup r' = (lookup (im_repo im))(i \<mapsto> inc')"
  from * assms mut_identity(2) [OF *(4)] have "incidents_of c (lookup r') = incs c im"
    by (simp add: incidents_of_change)
  moreover have "im_repo (fst (ResolveIncident repo now i who im)) = r'"
    by (simp add: ResolveIncident_def *(1) Let_def split: prod.splits option.splits)
  ultimately show ?thesis by simp
qed

lemma auto_resolve_other:
  assumes ok: "im_ok now im" and other: "c' \<noteq> c"
  shows "incs c (fst (AutoResolveOnRecovery repo now c' im)) = incs c im"
proof (cases "no_open (lookup (im_repo im)) c'")
  case True
  from ok have v: "valid (im_repo im)" by (simp add: im_ok_def)
  from find_open_none [OF v True] show ?thesis by (simp add: AutoResolveOnRecovery_def zero_incident_def)
next
  case False
  from ok have v: "valid (im_repo im)" and inv: "inc_inv now (lookup (im_repo im))" by (simp_all add: im_ok_def)
  from find_open_some [OF v False] obtain i inc where i: "lookup (im_repo im) i = Some inc"
    and o: "open_for c' inc" and f: "repo_find_open repo c' (im_repo im) = (inc, None)" by blast
  from o other have "inc_CheckID inc \<noteq> c" by (simp add: open_for_def)
  from resolve_effect [OF v i this, of now "''system''"] inc_inv_ID [OF inv i] show ?thesis
    by (simp add: AutoResolveOnRecovery_def f)
qed

text \<open>An alert that is held back, and one for another check, leave the incidents of a check alone.\<close>

definition held_back ::
  "maintenance \<Rightarrow> (string \<rightharpoonup> CheckConfig) \<Rightarrow> (string \<rightharpoonup> CheckResult) \<Rightarrow> tracker \<Rightarrow> string \<Rightarrow> bool" where
  "held_back maint checkMap resultMap t c \<longleftrightarrow>
     in_maintenance maint checkMap c \<or> below_threshold checkMap resultMap t c"

lemma in_checkID_alert_input [simp]: "in_checkID (alert_input rm alert) = alert_CheckID alert"
  by (simp add: alert_input_def Let_def split: option.splits)

lemma process_alerts_ok:
  "im_ok now im \<Longrightarrow> im_ok now (processIncidentAlerts repo now maint cm rm t alerts im)"
  unfolding processIncidentAlerts_def
  by (induction alerts arbitrary: im) (auto simp: process_incident_alert_def process_ok)

lemma process_alerts_other:
  assumes "im_ok now im"
    and "\<forall>al \<in> set alerts. alert_CheckID al = c \<longrightarrow> held_back maint cm rm t c"
  shows "incs c (processIncidentAlerts repo now maint cm rm t alerts im) = incs c im"
  using assms unfolding processIncidentAlerts_def
proof (induction alerts arbitrary: im)
  case Nil
  then show ?case by simp
next
  case (Cons al alerts)
  let ?im = "process_incident_alert repo now maint cm rm t im al"
  have "incs c ?im = incs c im"
  proof (cases "alert_CheckID al = c")
    case True
    with Cons.prems(2) show ?thesis by (auto simp: process_incident_alert_def held_back_def)
  next
    case False
    with process_other [OF Cons.prems(1), of "alert_input rm al" c] show ?thesis
      by (simp add: process_incident_alert_def)
  qed
  moreover from Cons.prems(1) have "im_ok now ?im" by (simp add: process_incident_alert_def process_ok)
  ultimately show ?case using Cons by simp
qed

lemma auto_resolve_result_ok: "im_ok now im \<Longrightarrow> im_ok now (auto_resolve_result repo now cm t im r)"
  by (simp add: auto_resolve_result_def auto_resolve_ok)

lemma auto_resolve_all_ok: "im_ok now im \<Longrightarrow> im_ok now (autoResolveRecovered repo now cm t rs im)"
  unfolding autoResolveRecovered_def
  by (induction rs arbitrary: im) (simp_all add: auto_resolve_result_ok)

definition recovers :: "(string \<rightharpoonup> CheckConfig) \<Rightarrow> tracker \<Rightarrow> string \<Rightarrow> bool" where
  "recovers cm t c \<longleftrightarrow> consecutiveSuccesses t c \<ge> success_threshold cm c"

lemma auto_resolve_all_other:
  assumes "im_ok now im" and "\<forall>r \<in> set rs. res_CheckID r = c \<longrightarrow> \<not> (res_Healthy r \<and> recovers cm t c)"
  shows "incs c (autoResolveRecovered repo now cm t rs im) = incs c im"
  using assms unfolding autoResolveRecovered_def
proof (induction rs arbitrary: im)
  case Nil
  then show ?case by simp
next
  case (Cons r rs)
  let ?im = "auto_resolve_result repo now cm t im r"
  have "incs c ?im = incs c im"
  proof (cases "res_CheckID r = c")
    case True
    with Cons.prems(2) show ?thesis by (auto simp: auto_resolve_result_def recovers_def)
  next
    case False
    with auto_resolve_other [OF Cons.prems(1) False] show ?thesis by (simp add: auto_resolve_result_def)
  qed
  moreover have "im_ok now ?im" by (rule auto_resolve_result_ok [OF Cons.prems(1)])
  ultimately show ?case using Cons by simp
qed

lemma auto_resolve_keeps_closed:
  assumes ok: "im_ok now im" and closed: "no_open (lookup (im_repo im)) c"
  shows "no_open (lookup (im_repo (auto_resolve_result repo now cm t im r))) c"
proof (cases "res_CheckID r = c")
  case True
  with auto_resolve_effect [OF ok, of c] closed show ?thesis by (auto simp: auto_resolve_result_def)
next
  case False
  with auto_resolve_other [OF ok False] closed show ?thesis
    by (auto simp: auto_resolve_result_def no_open_incidents_of)
qed

lemma auto_resolve_all_closes:
  assumes "im_ok now im" and "r \<in> set rs" "res_CheckID r = c" "res_Healthy r" "recovers cm t c"
  shows "no_open (lookup (im_repo (autoResolveRecovered repo now cm t rs im))) c"
proof -
  have keep: "no_open (lookup (im_repo (foldl (auto_resolve_result repo now cm t) im xs))) c"
    if "im_ok now im" "no_open (lookup (im_repo im)) c" for im xs
    using that
  proof (induction xs arbitrary: im)
    case (Cons x xs)
    then show ?case by (simp add: auto_resolve_keeps_closed auto_resolve_result_ok)
  qed simp
  from assms(2) obtain us vs where rs: "rs = us @ r # vs" by (metis split_list)
  let ?im = "autoResolveRecovered repo now cm t us im"
  have ok: "im_ok now ?im" by (rule auto_resolve_all_ok [OF assms(1)])
  then have "no_open (lookup (im_repo (auto_resolve_result repo now cm t ?im r))) c"
    using auto_resolve_effect [of now ?im c] assms(3-5) by (simp add: auto_resolve_result_def recovers_def)
  moreover from ok have "im_ok now (auto_resolve_result repo now cm t ?im r)"
    by (rule auto_resolve_result_ok)
  ultimately show ?thesis using keep by (simp add: rs autoResolveRecovered_def)
qed

end

section \<open>The whole batch\<close>

lemma result_map_latest: "result_map rs c = find (\<lambda>r. res_CheckID r = c) (rev rs)"
  unfolding result_map_def by (induction rs rule: rev_induct) auto

lemma check_map_last: "check_map cs c = find (\<lambda>x. chk_ID x = c) (rev cs)"
  unfolding check_map_def by (induction cs rule: rev_induct) auto

lemma handle_tracker:
  "svc_engine s \<noteq> None \<Longrightarrow> svc_tracker (handleAlertResults repo now maint st rs s) =
     updateConsecutiveTrackers rs (svc_tracker s) \<and>
   svc_engine (handleAlertResults repo now maint st rs s) \<noteq> None"
  by (auto simp: handleAlertResults_def Let_def updateConsecutiveTrackers_def EvaluateForIncidents_def
      evaluate_no_cooldown split: option.splits prod.splits)

lemma evaluate_rules: "eng_rules (fst (evaluate now rs ac sd e)) = eng_rules e"
proof -
  have "eng_rules (fst (foldl (evaluate_rule now ac sd r) acc rules)) = eng_rules (fst acc)" for r acc rules
    by (induction rules arbitrary: acc)
       (auto simp: evaluate_rule_def sendAlert_def Let_def split: prod.splits)
  then have "eng_rules (fst (foldl (evaluate_result now ac sd) acc rs)) = eng_rules (fst acc)" for acc
    by (induction rs arbitrary: acc) (simp_all add: evaluate_result_def)
  then show ?thesis by (simp add: evaluate_def)
qed

lemma handle_manager_rules:
  assumes "svc_engine s = Some e" and "rs \<noteq> []" and "svc_manager s = Some im"
  shows "svc_manager (handleAlertResults repo now maint st rs s) =
    Some (autoResolveRecovered repo now (check_map (st_Checks st)) (updateConsecutiveTrackers rs (svc_tracker s)) rs
      (processIncidentAlerts repo now maint (check_map (st_Checks st)) (result_map rs)
        (updateConsecutiveTrackers rs (svc_tracker s)) (alerts_spec now (eng_rules e) rs) im))"
  using assms evaluate_rules [of now rs True True e]
  by (auto simp: handleAlertResults_def Let_def Evaluate_def EvaluateForIncidents_def evaluate_no_cooldown
      split: prod.splits)

lemma handle_manager:
  assumes "svc_engine s \<noteq> None" and "rs \<noteq> []" and "svc_manager s = Some im"
  shows "\<exists>rules. svc_manager (handleAlertResults repo now maint st rs s) =
    Some (autoResolveRecovered repo now (check_map (st_Checks st)) (updateConsecutiveTrackers rs (svc_tracker s)) rs
      (processIncidentAlerts repo now maint (check_map (st_Checks st)) (result_map rs)
        (updateConsecutiveTrackers rs (svc_tracker s)) (alerts_spec now rules rs) im))"
  using assms handle_manager_rules by blast

text \<open>The last result of a check in the batch decides which of its two counters is positive.\<close>

lemma tracker_last:
  "result_map rs c = Some r \<Longrightarrow>
     (if res_Healthy r then consecutiveFailures (updateConsecutiveTrackers rs t) c = 0
      else consecutiveSuccesses (updateConsecutiveTrackers rs t) c = 0)"
proof (induction rs rule: rev_induct)
  case Nil
  then show ?case by (simp add: result_map_def)
next
  case (snoc x rs)
  then show ?case
    by (auto simp: result_map_latest updateConsecutiveTrackers_def track_result_def Let_def
        consecutiveFailures_def consecutiveSuccesses_def split: option.splits if_splits)
qed

lemma success_threshold_pos: "0 < success_threshold cm c"
  by (auto simp: success_threshold_def split: option.splits)

context incident_repository
begin

lemma batch_unchanged:
  assumes "im_ok now im" and "held_back maint cm rm t c"
    and "\<forall>r \<in> set rs. res_CheckID r = c \<longrightarrow> \<not> (res_Healthy r \<and> recovers cm t c)"
  shows "incs c (autoResolveRecovered repo now cm t rs (processIncidentAlerts repo now maint cm rm t alerts im)) =
    incs c im"
  using assms by (simp add: auto_resolve_all_other process_alerts_other process_alerts_ok)

lemma batch_closes:
  assumes "im_ok now im" and "r \<in> set rs" "res_CheckID r = c" "res_Healthy r" "recovers cm t c"
  shows "no_open (lookup (im_repo
    (autoResolveRecovered repo now cm t rs (processIncidentAlerts repo now maint cm rm t alerts im)))) c"
  by (rule auto_resolve_all_closes [OF process_alerts_ok [OF assms(1)] assms(2-5)])

lemma batch_ok:
  "im_ok now im \<Longrightarrow>
     im_ok now (autoResolveRecovered repo now cm t rs (processIncidentAlerts repo now maint cm rm t alerts im))"
  by (simp add: auto_resolve_all_ok process_alerts_ok)

end

text \<open>A history of batches, each with its time, maintenance windows, stored state and results.\<close>

type_synonym batch = "gotime \<times> maintenance \<times> State \<times> CheckResult list"

definition run_batches :: "'r IncidentRepo \<Rightarrow> batch list \<Rightarrow> 'r AlertService \<Rightarrow> 'r AlertService" where
  "run_batches repo batches s =
     foldl (\<lambda>s (now, maint, st, rs). handleAlertResults repo now maint st rs s) s batches"

definition NewAlertService :: "AlertRule list \<Rightarrow> 'r IncidentManager option \<Rightarrow> 'r AlertService" where
  "NewAlertService rules im =
     \<lparr>svc_engine = Some (NewAlertRuleEngine rules), svc_tracker = Map.empty, svc_manager = im\<rparr>"

definition memory_ok :: "gotime \<Rightarrow> MemoryRepo AlertService \<Rightarrow> bool" where
  "memory_ok now s \<longleftrightarrow> (case svc_manager s of None \<Rightarrow> True | Some im \<Rightarrow> memory.im_ok now im)"

lemma handle_memory_ok:
  assumes "memory_ok t s" and "t \<le> now"
  shows "memory_ok now (handleAlertResults (memory_repo ord) now maint st rs s)"
proof (cases "svc_manager s")
  case None
  then show ?thesis
    by (auto simp: memory_ok_def handleAlertResults_def Let_def split: option.splits prod.splits)
next
  case (Some im)
  with assms have ok: "memory.im_ok now im"
    by (auto simp: memory_ok_def memory.im_ok_def inc_inv_later)
  show ?thesis
  proof (cases "svc_engine s = None \<or> rs = []")
    case True
    then show ?thesis using ok Some by (auto simp: memory_ok_def handleAlertResults_def split: option.splits)
  next
    case False
    then show ?thesis
      using handle_manager [where s = s and rs = rs and im = im and repo = "memory_repo ord" and now = now
          and maint = maint and st = st] memory.batch_ok [OF ok] Some
      by (auto simp: memory_ok_def)
  qed
qed

lemma process_alerts_reach:
  "im_reach now im \<Longrightarrow> im_reach now (processIncidentAlerts (memory_repo ord) now maint cm rm t alerts im)"
  unfolding processIncidentAlerts_def
proof (induction alerts arbitrary: im)
  case (Cons al alerts)
  have "im_reach now (process_incident_alert (memory_repo ord) now maint cm rm t im al)"
    using im_reach.step [OF Cons.prems, of ord "AProcess (alert_input rm al)"] Cons.prems
    by (simp add: process_incident_alert_def im_exec_def)
  with Cons.IH show ?case by simp
qed simp

lemma auto_resolve_reach:
  "im_reach now im \<Longrightarrow> im_reach now (autoResolveRecovered (memory_repo ord) now cm t rs im)"
  unfolding autoResolveRecovered_def
proof (induction rs arbitrary: im)
  case (Cons r rs)
  have "im_reach now (auto_resolve_result (memory_repo ord) now cm t im r)"
    using im_reach.step [OF Cons.prems, of ord "AAutoResolve (res_CheckID r)"] Cons.prems
    by (simp add: auto_resolve_result_def im_exec_def)
  with Cons.IH show ?case by simp
qed simp

lemma tracker_run_batches:
  "svc_engine s \<noteq> None \<Longrightarrow> svc_tracker (run_batches repo bs s) =
     updateConsecutiveTrackers (concat (map (\<lambda>(_, _, _, rs). rs) bs)) (svc_tracker s)"
proof (induction bs arbitrary: s)
  case Nil
  then show ?case by (simp add: run_batches_def updateConsecutiveTrackers_def)
next
  case (Cons b bs)
  obtain now maint st rs where b: "b = (now, maint, st, rs)" by (cases b)
  from handle_tracker [OF Cons.prems, of repo now maint st rs] Cons.IH show ?case
    by (simp add: b run_batches_def trackers_append)
qed

section \<open>Properties\<close>

text \<open>
  after any history of batches, the counters of a check are the lengths of the run of failures
  and of the run of successes at the end of that check's results, whatever the rules, cooldowns,
  maintenance windows and incidents were on the way.
\<close>

theorem trackers_count_runs:
  fixes batches rules im repo
  defines "hist \<equiv> concat (map (\<lambda>(_, _, _, rs). rs) batches)"
    and "t \<equiv> svc_tracker (run_batches repo batches (NewAlertService rules im))"
  shows "consecutiveFailures t c =
      int (length (takeWhile (\<lambda>r. \<not> res_Healthy r) (rev (filter (\<lambda>r. res_CheckID r = c) hist)))) \<and>
    consecutiveSuccesses t c =
      int (length (takeWhile res_Healthy (rev (filter (\<lambda>r. res_CheckID r = c) hist))))"
proof -
  have "t = updateConsecutiveTrackers hist Map.empty"
    by (simp add: t_def hist_def tracker_run_batches NewAlertService_def)
  with tracker_counts [of hist c] show ?thesis by (simp add: trailing_def history_of_def)
qed

text \<open>
  a check whose run of failures is still shorter than its \<open>FailuresToOpen\<close>, or that is in a
  maintenance window and has not recovered, has exactly the same incidents after the batch as
  before, whichever rules its results trigger.
\<close>

theorem alerts_held_back:
  fixes ord :: visit
  assumes "svc_engine s \<noteq> None" and "svc_manager s = Some im" and "im_reach t im" and "t \<le> now"
    and "find (\<lambda>x. chk_ID x = c) (rev (st_Checks st)) = Some cc"
    and "find (\<lambda>r. res_CheckID r = c) (rev rs) = Some r" and "\<not> res_Healthy r"
    and "consecutiveFailures (updateConsecutiveTrackers rs (svc_tracker s)) c < max 1 (chk_FailuresToOpen cc) \<or>
         (\<exists>isIn. maint = Some isIn \<and> isIn cc)"
  shows "\<exists>im'. svc_manager (handleAlertResults (memory_repo ord) now maint st rs s) = Some im' \<and>
    incidents_of c (map_of (im_repo im')) = incidents_of c (map_of (im_repo im))"
proof -
  let ?cm = "check_map (st_Checks st)" and ?rm = "result_map rs"
  let ?t = "updateConsecutiveTrackers rs (svc_tracker s)"
  have cm: "?cm c = Some cc" and rm: "?rm c = Some r"
    using assms(5,6) by (simp_all add: check_map_last result_map_latest)
  have ok: "memory.im_ok now im" by (rule im_reach_ok [OF im_reach.later [OF assms(3,4)]])
  have held: "memory.held_back maint ?cm ?rm ?t c"
    using assms(7,8) cm rm
    by (auto simp: memory.held_back_def in_maintenance_def below_threshold_def failure_threshold_def max_def
        split: if_splits)
  have "\<not> memory.recovers ?cm ?t c"
    using tracker_last [OF rm, of "svc_tracker s"] assms(7) success_threshold_pos [of ?cm c]
    by (simp add: memory.recovers_def)
  then have same: "\<forall>r \<in> set rs. res_CheckID r = c \<longrightarrow> \<not> (res_Healthy r \<and> memory.recovers ?cm ?t c)" by simp
  have "rs \<noteq> []" using assms(6) by auto
  from handle_manager [OF assms(1) this assms(2), of "memory_repo ord" now maint st] obtain rules where
    h: "svc_manager (handleAlertResults (memory_repo ord) now maint st rs s) =
      Some (autoResolveRecovered (memory_repo ord) now ?cm ?t rs
        (processIncidentAlerts (memory_repo ord) now maint ?cm ?rm ?t (alerts_spec now rules rs) im))" by blast
  show ?thesis
    by (rule exI, rule conjI, rule h, rule memory.batch_unchanged [OF ok held same])
qed

text \<open>
  a check that has a healthy result in the batch, and whose run of successes has reached its
  \<open>SuccessesToResolve\<close>, has no open incident after the batch. This includes an incident that a
  rule of the same batch has just opened on the healthy result.
\<close>

theorem recovered_checks_are_closed:
  fixes ord :: visit
  assumes "svc_engine s \<noteq> None" and "svc_manager s = Some im" and "im_reach t im" and "t \<le> now"
    and "r \<in> set rs" and "res_CheckID r = c" and "res_Healthy r"
    and "success_threshold (check_map (st_Checks st)) c
           \<le> consecutiveSuccesses (updateConsecutiveTrackers rs (svc_tracker s)) c"
  shows "\<exists>im'. svc_manager (handleAlertResults (memory_repo ord) now maint st rs s) = Some im' \<and>
    im_reach now im' \<and>
    (\<forall>inc \<in> incidents_of c (map_of (im_repo im')). inc_Status inc = ''resolved'')"
proof -
  have reach: "im_reach now im" by (rule im_reach.later [OF assms(3,4)])
  note ok = im_reach_ok [OF reach]
  have "rs \<noteq> []" using assms(5) by auto
  from handle_manager [OF assms(1) this assms(2), of "memory_repo ord" now maint st] obtain rules where
    h: "svc_manager (handleAlertResults (memory_repo ord) now maint st rs s) =
      Some (autoResolveRecovered (memory_repo ord) now (check_map (st_Checks st))
        (updateConsecutiveTrackers rs (svc_tracker s)) rs
        (processIncidentAlerts (memory_repo ord) now maint (check_map (st_Checks st)) (result_map rs)
        (updateConsecutiveTrackers rs (svc_tracker s)) (alerts_spec now rules rs) im))" by blast
  have "memory.recovers (check_map (st_Checks st)) (updateConsecutiveTrackers rs (svc_tracker s)) c"
    using assms(8) by (simp add: memory.recovers_def)
  note closed = memory.batch_closes [OF ok assms(5-7) this]
  show ?thesis
    by (rule exI, rule conjI, rule h, rule conjI)
       (rule auto_resolve_reach [OF process_alerts_reach [OF reach]],
        rule closed [unfolded no_open_incidents_of])
qed

definition latency_result :: CheckResult where
  "latency_result = zero_result\<lparr>res_CheckID := ''api'', res_Name := ''API'', res_Status := ''healthy'',
     res_Healthy := True, res_DurationMs := 4000\<rparr>"

definition sample_service :: "MemoryRepo AlertService" where
  "sample_service = NewAlertService DefaultAlertRules
     (Some ((NewIncidentManager NewMemoryIncidentRepository)\<lparr>im_onCreated := True, im_onResolved := True\<rparr>))"

definition sample_state :: State where
  "sample_state = \<lparr>st_Checks = [zero_check\<lparr>chk_ID := ''api'', chk_FailuresToOpen := 3\<rparr>], st_Results = [],
     st_LastRunAt = 0, st_UpdatedAt = 0\<rparr>"

lemma sample_service_reach: "im_reach now ((NewIncidentManager NewMemoryIncidentRepository)
    \<lparr>im_onCreated := True, im_onResolved := True\<rparr>)"
  by (rule im_reach.start) (simp add: NewIncidentManager_def)

theorem alerts_held_back_witness:
  "let s' = handleAlertResults (memory_repo id) 62135596807000000000 None sample_state
      [zero_result\<lparr>res_CheckID := ''api'', res_Status := ''critical''\<rparr>] sample_service
   in map_option (\<lambda>im. incidents_of ''api'' (map_of (im_repo im))) (svc_manager s') = Some {}"
proof -
  have t: "consecutiveFailures (updateConsecutiveTrackers [zero_result\<lparr>res_CheckID := ''api'',
      res_Status := ''critical''\<rparr>] (svc_tracker sample_service)) ''api'' = 1"
    by (simp add: updateConsecutiveTrackers_def track_result_def consecutiveFailures_def sample_service_def
        NewAlertService_def zero_result_def Let_def)
  show ?thesis
    using alerts_held_back [where s = sample_service and now = 62135596807000000000 and t = 0 and c = "''api''"
        and st = sample_state and rs = "[zero_result\<lparr>res_CheckID := ''api'', res_Status := ''critical''\<rparr>]"
        and ord = id and maint = None, OF _ _ sample_service_reach] t
    by (auto simp: sample_service_def NewAlertService_def sample_state_def zero_check_def zero_result_def
        NewIncidentManager_def NewMemoryIncidentRepository_def incidents_of_def Let_def)
qed

theorem recovered_checks_are_closed_witness:
  "let s' = handleAlertResults (memory_repo id) 62135596807000000000 None sample_state [latency_result]
      sample_service
   in \<exists>im. svc_manager s' = Some im \<and> length (im_repo im) = 1 \<and> length (im_events im) = 2 \<and>
      (\<forall>inc \<in> incidents_of ''api'' (map_of (im_repo im)). inc_Status inc = ''resolved'')"
proof -
  let ?s = "handleAlertResults (memory_repo id) 62135596807000000000 None sample_state [latency_result]
      sample_service"
  have "\<exists>im. svc_manager ?s = Some im \<and> length (im_repo im) = 1 \<and> length (im_events im) = 2"
  proof -
    have "filter (triggers latency_result) DefaultAlertRules = [DefaultAlertRules ! 1]"
      by (simp add: DefaultAlertRules_def default_rule_def triggers_def checkMatchesRule_def
          evaluateConditions_iff evaluateCondition_def compareBool_def compareInt_def compareStrings_def
          compare_ord_def trunc_f64_def latency_result_def zero_result_def)
    then have alerts: "alerts_spec now DefaultAlertRules [latency_result] =
        [buildAlert (DefaultAlertRules ! 1) latency_result now]" for now
      by (simp add: alerts_spec_def)
    show ?thesis
      unfolding sample_service_def NewAlertService_def
      by (subst handle_manager_rules, simp, simp, simp)
         (simp only: NewAlertRuleEngine_def AlertRuleEngine.select_convs alerts,
          simp add: buildAlert_def alert_input_def processIncidentAlerts_def process_incident_alert_def
           in_maintenance_def below_threshold_def ProcessAlert_def process_found_def createIncident_def
           memory_repo_def mem_find_open_def mem_create_def range_order_def NewIncidentManager_def
           NewMemoryIncidentRepository_def zero_incident_def new_incident_def sample_state_def check_map_def
           result_map_def updateConsecutiveTrackers_def track_result_def autoResolveRecovered_def
           auto_resolve_result_def success_threshold_def consecutiveSuccesses_def AutoResolveOnRecovery_def
           ResolveIncident_def mem_update_def mem_get_def open_for_def resolve_mut_def latency_result_def
           zero_result_def zero_check_def generateIncidentID_def Let_def)
  qed
  moreover have "\<exists>im. svc_manager ?s = Some im \<and>
      (\<forall>inc \<in> incidents_of ''api'' (map_of (im_repo im)). inc_Status inc = ''resolved'')"
    using recovered_checks_are_closed [where s = sample_service and now = 62135596807000000000 and t = 0
        and c = "''api''" and st = sample_state and rs = "[latency_result]" and r = latency_result
        and ord = id and maint = None, OF _ _ sample_service_reach]
    by (auto simp: sample_service_def NewAlertService_def latency_result_def sample_state_def zero_check_def
        zero_result_def updateConsecutiveTrackers_def track_result_def consecutiveSuccesses_def
        success_threshold_def check_map_def Let_def)
  ultimately show ?thesis by (auto simp: Let_def)
qed

end
