(* ===== verification/Float64.thy ===== *)
theory Float64
  imports Prelude
begin

text \<open>
  \<open>float64\<close> arithmetic on rational numbers: every operation is the exact one followed by rounding
  to the nearest double, ties to even (\<open>fl64\<close>). Infinities, NaN and the sign of zero are left
  out: the program computes ratios and rates of counters, far from overflow. Also the truncating
  integer division and \<open>time.Duration.Seconds\<close>.
\<close>

function int_log2 :: "int \<Rightarrow> nat" where
  "int_log2 n = (if n < 2 then 0 else Suc (int_log2 (n div 2)))"
  by auto
termination by (relation "measure nat") auto

declare int_log2.simps [simp del]

definition two_powi :: "int \<Rightarrow> rat" where
  "two_powi e = (if 0 \<le> e then 2 ^ nat e else 1 / 2 ^ nat (- e))"

definition rat_log2 :: "rat \<Rightarrow> int" where
  "rat_log2 q =
     (let (n, d) = quotient_of q;
          k = int (int_log2 n) - int (int_log2 d)
      in if two_powi k \<le> q then k else k - 1)"

definition round_half_even :: "rat \<Rightarrow> int" where
  "round_half_even q =
     (let f = \<lfloor>q\<rfloor>; r = q - of_int f
      in if r < 1 / 2 then f else if r > 1 / 2 then f + 1 else if even f then f else f + 1)"

definition fl64 :: "rat \<Rightarrow> rat" where
  "fl64 q =
     (if q = 0 then 0
      else
        let a = \<bar>q\<bar>;
            e = max (rat_log2 a - 52) (- 1074);
            v = of_int (round_half_even (a / two_powi e)) * two_powi e
        in if q < 0 then - v else v)"

definition f_of_int :: "int \<Rightarrow> rat" where "f_of_int i = fl64 (of_int i)"
definition f_add :: "rat \<Rightarrow> rat \<Rightarrow> rat" where "f_add a b = fl64 (a + b)"
definition f_sub :: "rat \<Rightarrow> rat \<Rightarrow> rat" where "f_sub a b = fl64 (a - b)"
definition f_mul :: "rat \<Rightarrow> rat \<Rightarrow> rat" where "f_mul a b = fl64 (a * b)"
definition f_div :: "rat \<Rightarrow> rat \<Rightarrow> rat" where "f_div a b = fl64 (a / b)"

lemmas float_defs = f_of_int_def f_add_def f_sub_def f_mul_def f_div_def

lemma two_powi_pos [simp]: "0 < two_powi e"
  by (simp add: two_powi_def)

lemma round_half_even_nonneg: "0 \<le> q \<Longrightarrow> 0 \<le> round_half_even q"
proof -
  assume "0 \<le> q"
  then have "0 \<le> \<lfloor>q\<rfloor>" by simp
  then show ?thesis by (simp add: round_half_even_def Let_def)
qed

lemma round_half_even_of_int: "round_half_even (of_int i) = i"
  by (simp add: round_half_even_def)

lemma fl64_0 [simp]: "fl64 0 = 0"
  by (simp add: fl64_def)

lemma fl64_nonneg: "0 \<le> q \<Longrightarrow> 0 \<le> fl64 q"
proof -
  assume q: "0 \<le> q"
  have "0 \<le> of_int (round_half_even (\<bar>q\<bar> / two_powi e)) * two_powi e" for e
    by (intro mult_nonneg_nonneg) (simp_all add: round_half_even_nonneg less_imp_le)
  with q show ?thesis by (simp add: fl64_def Let_def)
qed

text \<open>A number with at most 53 significant bits (and not below the smallest double) is not changed.\<close>

lemma int_log2_bounds: "0 < n \<Longrightarrow> 2 ^ int_log2 n \<le> n \<and> n < 2 ^ Suc (int_log2 n)"
proof (induction n rule: int_log2.induct)
  case (1 n)
  show ?case
  proof (cases "n < 2")
    case True
    with "1.prems" show ?thesis by (simp add: int_log2.simps [of n])
  next
    case False
    with "1.IH" have IH: "2 ^ int_log2 (n div 2) \<le> n div 2" "n div 2 < 2 ^ Suc (int_log2 (n div 2))" by auto
    from False have "int_log2 n = Suc (int_log2 (n div 2))" by (simp add: int_log2.simps [of n])
    with IH show ?thesis by auto
  qed
qed

lemma fl64_of_int_exact:
  assumes "0 \<le> i" and "i < 2 ^ 53"
  shows "fl64 (of_int i) = of_int i"
proof (cases "i = 0")
  case False
  with assms have pos: "0 < i" by simp
  let ?k = "int_log2 i"
  from int_log2_bounds [OF pos] have b: "2 ^ ?k \<le> i" "i < 2 ^ Suc ?k" by auto
  with assms(2) have "(2::int) ^ ?k < 2 ^ 53" by linarith
  then have k: "?k < 53" by (rule power_less_imp_less_exp [rotated]) simp
  have "quotient_of (of_int i) = (i, 1)" by (simp add: quotient_of_int)
  moreover have "int_log2 1 = 0" by (simp add: int_log2.simps)
  moreover have "two_powi (int ?k) \<le> (of_int i :: rat)"
  proof -
    have "(of_int (2 ^ ?k) :: rat) \<le> of_int i" using b(1) by (simp only: of_int_le_iff)
    then show ?thesis by (simp add: two_powi_def)
  qed
  ultimately have "rat_log2 (of_int i) = int ?k" by (simp add: rat_log2_def)
  moreover have "two_powi (int ?k - 52) = 1 / 2 ^ (52 - ?k)"
    using k by (cases "?k = 52") (auto simp: two_powi_def nat_diff_distrib)
  moreover have "(of_int i :: rat) / (1 / 2 ^ (52 - ?k)) = of_int (i * 2 ^ (52 - ?k))" by simp
  ultimately show ?thesis
    using pos k by (simp add: fl64_def Let_def round_half_even_of_int del: of_int_mult) simp
qed simp

section \<open>Truncating division and seconds\<close>

definition go_quot :: "int \<Rightarrow> int \<Rightarrow> int" where
  "go_quot a b = sgn a * sgn b * (\<bar>a\<bar> div \<bar>b\<bar>)"

definition go_rem :: "int \<Rightarrow> int \<Rightarrow> int" where
  "go_rem a b = a - b * go_quot a b"

definition duration_seconds :: "duration \<Rightarrow> rat" where
  "duration_seconds d =
     f_add (f_of_int (go_quot d 1000000000)) (f_div (f_of_int (go_rem d 1000000000)) 1000000000)"

end
