(* ===== verification/MySQLRules.thy ===== *)
theory MySQLRules
  imports Model Float64
begin

text \<open>
  MySQL monitoring: the counters of two samples turned into rates (\<open>ComputeDelta\<close>,
  \<open>mysql_models.go\<close>) and the rule engine with consecutive-breach and recovery streaks
  (\<open>mysql_rules.go\<close>), a two-state machine for every pair of rule and check. The lemmas relate the
  machine to the list of samples it has seen, and the engine to one independent machine per pair.
\<close>

section \<open>Samples and deltas\<close>

text \<open>The counters and gauges of a sample; the four detail lists are not read by this code.\<close>

record MySQLSample =
  ms_SampleID :: string
  ms_CheckID :: string
  ms_Timestamp :: gotime
  ms_Connections :: int
  ms_MaxConnections :: int
  ms_ThreadsRunning :: int
  ms_ThreadsCreated :: int
  ms_AbortedConnects :: int
  ms_SlowQueries :: int
  ms_Questions :: int
  ms_InnoDBRowLockWaits :: int
  ms_CreatedTmpDiskTables :: int
  ms_CreatedTmpTables :: int
  ms_ConnectionsRefused :: int

record MySQLDelta =
  md_SampleID :: string
  md_CheckID :: string
  md_IntervalSec :: f64
  md_Timestamp :: gotime
  md_AbortedConnectsDelta :: int
  md_AbortedConnectsPerSec :: f64
  md_SlowQueriesDelta :: int
  md_SlowQueriesPerSec :: f64
  md_QuestionsDelta :: int
  md_QuestionsPerSec :: f64
  md_RowLockWaitsDelta :: int
  md_RowLockWaitsPerSec :: f64
  md_TmpDiskTablesDelta :: int
  md_TmpDiskTablesPct :: f64
  md_ThreadsCreatedDelta :: int
  md_ThreadsCreatedPerSec :: f64
  md_ConnectionsRefusedDelta :: int

definition counterDiff :: "int \<Rightarrow> int \<Rightarrow> int" where
  "counterDiff current previous =
     (let diff = wrap64 (current - previous) in if diff < 0 then 0 else diff)"

definition ComputeDelta :: "MySQLSample \<Rightarrow> MySQLSample \<Rightarrow> MySQLDelta" where
  "ComputeDelta current previous =
     (let sec = duration_seconds (time_sub (ms_Timestamp current) (ms_Timestamp previous));
          intervalSec = (if sec \<le> 0 then 1 else sec);
          diff = (\<lambda>f. counterDiff (f current) (f previous));
          rate = (\<lambda>f. f_div (f_of_int (diff f)) intervalSec);
          tmpTablesDelta = diff ms_CreatedTmpTables
      in \<lparr>md_SampleID = ms_SampleID current, md_CheckID = ms_CheckID current,
          md_IntervalSec = intervalSec, md_Timestamp = ms_Timestamp current,
          md_AbortedConnectsDelta = diff ms_AbortedConnects,
          md_AbortedConnectsPerSec = rate ms_AbortedConnects,
          md_SlowQueriesDelta = diff ms_SlowQueries, md_SlowQueriesPerSec = rate ms_SlowQueries,
          md_QuestionsDelta = diff ms_Questions, md_QuestionsPerSec = rate ms_Questions,
          md_RowLockWaitsDelta = diff ms_InnoDBRowLockWaits,
          md_RowLockWaitsPerSec = rate ms_InnoDBRowLockWaits,
          md_TmpDiskTablesDelta = diff ms_CreatedTmpDiskTables,
          md_TmpDiskTablesPct =
            (if tmpTablesDelta > 0
             then f_mul (f_div (f_of_int (diff ms_CreatedTmpDiskTables)) (f_of_int tmpTablesDelta)) 100
             else 0),
          md_ThreadsCreatedDelta = diff ms_ThreadsCreated,
          md_ThreadsCreatedPerSec = rate ms_ThreadsCreated,
          md_ConnectionsRefusedDelta = diff ms_ConnectionsRefused\<rparr>)"

section \<open>Rules\<close>

definition conn_util_breached :: "AlertRule \<Rightarrow> MySQLSample \<Rightarrow> bool" where
  "conn_util_breached rule sample =
     (if ms_MaxConnections sample = 0 then False
      else f_mul (f_div (f_of_int (ms_Connections sample)) (f_of_int (ms_MaxConnections sample))) 100
             \<ge> rule_ThresholdNum rule)"

definition isBreached :: "AlertRule \<Rightarrow> MySQLSample \<Rightarrow> MySQLDelta option \<Rightarrow> bool" where
  "isBreached rule sample delta =
     (let code = rule_RuleCode rule;
          on_delta = (\<lambda>p. case delta of None \<Rightarrow> False | Some d \<Rightarrow> p d)
      in if code = ''CONN_UTIL_WARN'' then conn_util_breached rule sample
         else if code = ''CONN_UTIL_CRIT'' then conn_util_breached rule sample
         else if code = ''MAX_CONN_REFUSED'' then on_delta (\<lambda>d. md_ConnectionsRefusedDelta d > 0)
         else if code = ''ABORTED_CONNECT_SPIKE'' then
           on_delta (\<lambda>d. md_AbortedConnectsPerSec d \<ge> rule_ThresholdNum rule)
         else if code = ''THREADS_RUNNING_HIGH'' then
           f_of_int (ms_ThreadsRunning sample) \<ge> rule_ThresholdNum rule
         else if code = ''ROW_LOCK_WAITS_HIGH'' then
           on_delta (\<lambda>d. md_RowLockWaitsPerSec d \<ge> rule_ThresholdNum rule)
         else if code = ''SLOW_QUERY_SPIKE'' then
           on_delta (\<lambda>d. md_SlowQueriesPerSec d \<ge> rule_ThresholdNum rule)
         else if code = ''TMP_DISK_PCT_HIGH'' then
           on_delta (\<lambda>d. md_TmpDiskTablesPct d \<ge> rule_ThresholdNum rule)
         else if code = ''THREAD_CREATE_SPIKE'' then
           on_delta (\<lambda>d. md_ThreadsCreatedPerSec d \<ge> rule_ThresholdNum rule)
         else False)"

fun id_listed :: "string \<Rightarrow> string list \<Rightarrow> bool" where
  "id_listed c [] = False"
| "id_listed c (i # is) = (if i = c then True else id_listed c is)"

definition ruleAppliesToCheck :: "AlertRule \<Rightarrow> string \<Rightarrow> bool" where
  "ruleAppliesToCheck rule checkID =
     (if length (rule_CheckIDs rule) = 0 then True else id_listed checkID (rule_CheckIDs rule))"

section \<open>The state machine of a rule and a check\<close>

record EvaluateResult =
  er_RuleCode :: string
  er_CheckID :: string
  er_Action :: string
  er_Severity :: string
  er_Message :: string
  er_IncidentID :: string

definition needed :: "int \<Rightarrow> int" where
  "needed n = (if n \<le> 0 then 1 else n)"

definition transition :: "AlertState \<Rightarrow> AlertRule \<Rightarrow> bool \<Rightarrow> AlertState \<times> EvaluateResult" where
  "transition state rule breached =
     (let consecutiveBreaches = needed (rule_ConsecutiveBreaches rule);
          recoverySamples = needed (rule_RecoverySamples rule);
          result = \<lparr>er_RuleCode = rule_RuleCode rule, er_CheckID = as_CheckID state, er_Action = [],
                    er_Severity = rule_Severity rule, er_Message = [], er_IncidentID = []\<rparr>
      in if breached then
           let state = state\<lparr>as_RecoveryStreak := 0, as_BreachStreak := as_BreachStreak state + 1\<rparr>
           in if as_Status state = ''OK'' \<and> as_BreachStreak state \<ge> consecutiveBreaches then
                (state\<lparr>as_Status := ''OPEN''\<rparr>,
                 result\<lparr>er_Action := ''open'',
                        er_Message := ''Rule '' @ rule_RuleCode rule @ '' breached '' @
                          itoa (as_BreachStreak state) @ '' consecutive times''\<rparr>)
              else (state, result)
         else
           let state = state\<lparr>as_BreachStreak := 0, as_RecoveryStreak := as_RecoveryStreak state + 1\<rparr>
           in if as_Status state = ''OPEN'' \<and> as_RecoveryStreak state \<ge> recoverySamples then
                (state\<lparr>as_Status := ''OK'', as_RecoveryStreak := 0, as_OpenIncidentID := []\<rparr>,
                 result\<lparr>er_Action := ''close'', er_IncidentID := as_OpenIncidentID state,
                        er_Message := ''Rule '' @ rule_RuleCode rule @ '' recovered after '' @
                          itoa recoverySamples @ '' consecutive OK samples''\<rparr>)
              else (state, result))"

section \<open>The engine\<close>

type_synonym rule_states = "string \<rightharpoonup> AlertState"

record MySQLRuleEngine =
  mre_rules :: "AlertRule list"
  mre_states :: rule_states

definition stateKey :: "string \<Rightarrow> string \<Rightarrow> string" where
  "stateKey ruleCode checkID = ruleCode @ '':'' @ checkID"

definition fresh_state :: "string \<Rightarrow> string \<Rightarrow> AlertState" where
  "fresh_state ruleCode checkID = \<lparr>as_RuleCode = ruleCode, as_CheckID = checkID, as_Status = ''OK'',
     as_BreachStreak = 0, as_RecoveryStreak = 0, as_OpenIncidentID = []\<rparr>"

definition state_of :: "rule_states \<Rightarrow> AlertRule \<Rightarrow> string \<Rightarrow> AlertState" where
  "state_of states rule checkID =
     (case states (stateKey (rule_RuleCode rule) checkID) of
        Some st \<Rightarrow> st | None \<Rightarrow> fresh_state (rule_RuleCode rule) checkID)"

text \<open>One turn of the loop over the rules.\<close>

definition evaluate_mysql_rule ::
  "string \<Rightarrow> MySQLSample \<Rightarrow> MySQLDelta option \<Rightarrow> rule_states \<times> EvaluateResult list \<Rightarrow> AlertRule \<Rightarrow>
     rule_states \<times> EvaluateResult list" where
  "evaluate_mysql_rule checkID sample delta acc rule =
     (let (states, results) = acc in
      if \<not> rule_Enabled rule then acc
      else if \<not> ruleAppliesToCheck rule checkID then acc
      else
        let breached = isBreached rule sample delta;
            (state, result) = transition (state_of states rule checkID) rule breached
        in (states(stateKey (rule_RuleCode rule) checkID \<mapsto> state),
            if er_Action result \<noteq> [] then results @ [result] else results))"

definition mysql_Evaluate ::
  "string \<Rightarrow> MySQLSample \<Rightarrow> MySQLDelta option \<Rightarrow> MySQLRuleEngine \<Rightarrow>
     MySQLRuleEngine \<times> EvaluateResult list" where
  "mysql_Evaluate checkID sample delta e =
     (let (states, results) =
        foldl (evaluate_mysql_rule checkID sample delta) (mre_states e, []) (mre_rules e)
      in (e\<lparr>mre_states := states\<rparr>, results))"

definition SetOpenIncidentID ::
  "string \<Rightarrow> string \<Rightarrow> string \<Rightarrow> MySQLRuleEngine \<Rightarrow> MySQLRuleEngine" where
  "SetOpenIncidentID ruleCode checkID incidentID e =
     (case mre_states e (stateKey ruleCode checkID) of
        Some st \<Rightarrow> e\<lparr>mre_states := (mre_states e)(stateKey ruleCode checkID \<mapsto>
                       st\<lparr>as_OpenIncidentID := incidentID\<rparr>)\<rparr>
      | None \<Rightarrow> e)"

definition mysql_rule ::
  "string \<Rightarrow> string \<Rightarrow> string \<Rightarrow> string \<Rightarrow> f64 \<Rightarrow> int \<Rightarrow> int \<Rightarrow> int \<Rightarrow> string \<Rightarrow> AlertRule" where
  "mysql_rule i name code severity threshold breaches recovery cooldown description =
     \<lparr>rule_ID = i, rule_Name = name, rule_Enabled = True, rule_CheckIDs = [], rule_Conditions = [],
      rule_Severity = severity, rule_Channels = [], rule_CooldownMinutes = cooldown,
      rule_Description = description, rule_ConsecutiveBreaches = breaches,
      rule_RecoverySamples = recovery, rule_ThresholdNum = threshold, rule_RuleCode = code\<rparr>"

definition DefaultMySQLRules :: "AlertRule list" where
  "DefaultMySQLRules =
     [mysql_rule ''mysql-conn-util-warn'' ''Connection Utilization Warning'' ''CONN_UTIL_WARN''
        ''warning'' 70 3 3 15 ''Connection utilization above 70%'',
      mysql_rule ''mysql-conn-util-crit'' ''Connection Utilization Critical'' ''CONN_UTIL_CRIT''
        ''critical'' 90 2 3 5 ''Connection utilization above 90%'',
      mysql_rule ''mysql-max-conn-refused'' ''Max Connections Refused'' ''MAX_CONN_REFUSED''
        ''critical'' 0 1 5 5 ''Connection refused due to max_connections'',
      mysql_rule ''mysql-aborted-connect-spike'' ''Aborted Connect Spike'' ''ABORTED_CONNECT_SPIKE''
        ''warning'' 5 3 5 15 ''Aborted connects per second exceeds threshold'',
      mysql_rule ''mysql-threads-running-high'' ''Threads Running High'' ''THREADS_RUNNING_HIGH''
        ''warning'' 50 3 3 10 ''Threads running exceeds threshold'',
      mysql_rule ''mysql-row-lock-waits-high'' ''Row Lock Waits High'' ''ROW_LOCK_WAITS_HIGH''
        ''warning'' 10 3 5 15 ''InnoDB row lock waits per second exceeds threshold'',
      mysql_rule ''mysql-slow-query-spike'' ''Slow Query Spike'' ''SLOW_QUERY_SPIKE''
        ''warning'' 2 3 5 15 ''Slow queries per second exceeds threshold'',
      mysql_rule ''mysql-tmp-disk-pct-high'' ''Temp Disk Tables Percentage High'' ''TMP_DISK_PCT_HIGH''
        ''warning'' 25 5 5 30 ''Percentage of temp tables on disk exceeds threshold'',
      mysql_rule ''mysql-thread-create-spike'' ''Thread Create Spike'' ''THREAD_CREATE_SPIKE''
        ''warning'' 10 3 5 15 ''Thread creation rate per second exceeds threshold'']"

section \<open>One machine, run over a list of samples\<close>

definition run_rule :: "AlertRule \<Rightarrow> string \<Rightarrow> bool list \<Rightarrow> AlertState \<times> string list" where
  "run_rule rule c bs = foldl (\<lambda>(st, acts) b. (let (st', r) = transition st rule b in (st', acts @ [er_Action r])))
     (fresh_state (rule_RuleCode rule) c, []) bs"

definition trail :: "bool \<Rightarrow> bool list \<Rightarrow> int" where
  "trail b bs = int (length (takeWhile (\<lambda>x. x = b) (rev bs)))"

lemma trail_snoc [simp]: "trail b (bs @ [x]) = (if x = b then trail b bs + 1 else 0)"
  by (simp add: trail_def)

lemma trail_Nil [simp]: "trail b [] = 0"
  by (simp add: trail_def)

lemma trail_nonneg [simp]: "0 \<le> trail b bs"
  by (simp add: trail_def)

lemma needed_pos: "1 \<le> needed n"
  by (simp add: needed_def)

lemma run_rule_snoc:
  "fst (run_rule rule c (bs @ [b])) = fst (transition (fst (run_rule rule c bs)) rule b)"
  "snd (run_rule rule c (bs @ [b])) =
     snd (run_rule rule c bs) @ [er_Action (snd (transition (fst (run_rule rule c bs)) rule b))]"
  by (simp_all add: run_rule_def split_beta Let_def)

lemma transition_identity:
  "as_CheckID (fst (transition st rule b)) = as_CheckID st"
  "er_RuleCode (snd (transition st rule b)) = rule_RuleCode rule"
  by (simp_all add: transition_def Let_def)

text \<open>
  The streaks are the ends of the sample list: the breach streak always, the recovery streak as
  long as the rule is open; and the actions so far alternate, the status telling which one is next.
\<close>

definition alternating :: "nat \<Rightarrow> string list" where
  "alternating n = map (\<lambda>i. if even i then ''open'' else ''close'') [0..<n]"

definition run_inv :: "bool list \<Rightarrow> AlertState \<times> string list \<Rightarrow> bool" where
  "run_inv bs run \<longleftrightarrow>
     (let st = fst run; done = filter (\<lambda>a. a \<noteq> []) (snd run) in
      as_Status st \<in> {''OK'', ''OPEN''} \<and> as_BreachStreak st = trail True bs \<and>
      (as_Status st = ''OPEN'' \<longrightarrow> as_RecoveryStreak st = trail False bs) \<and>
      length (snd run) = length bs \<and> done = alternating (length done) \<and>
      (as_Status st = ''OPEN'' \<longleftrightarrow> odd (length done)))"

lemma alternating_Suc: "alternating (Suc n) = alternating n @ [if even n then ''open'' else ''close'']"
  by (simp add: alternating_def)

lemma run_inv_step:
  assumes "run_inv bs run"
  shows "run_inv (bs @ [b]) (fst (transition (fst run) rule b),
     snd run @ [er_Action (snd (transition (fst run) rule b))])"
  using assms
  by (cases run) (auto simp: run_inv_def transition_def Let_def alternating_Suc split: if_splits)

lemma run_rule_inv: "run_inv bs (run_rule rule c bs)"
proof (induction bs rule: rev_induct)
  case Nil
  then show ?case by (simp add: run_inv_def run_rule_def fresh_state_def alternating_def)
next
  case (snoc b bs)
  then show ?case
    using run_inv_step [OF snoc, of b rule] by (metis prod.collapse run_rule_snoc)
qed

section \<open>The engine is one machine for every rule and check\<close>

definition proper_codes :: "AlertRule list \<Rightarrow> bool" where
  "proper_codes rules \<longleftrightarrow> distinct (map rule_RuleCode rules) \<and>
     (\<forall>rule \<in> set rules. CHR '':'' \<notin> set (rule_RuleCode rule))"

lemma stateKey_inj:
  "CHR '':'' \<notin> set r \<Longrightarrow> CHR '':'' \<notin> set r' \<Longrightarrow> stateKey r c = stateKey r' c' \<Longrightarrow> r = r' \<and> c = c'"
proof (induction r arbitrary: r')
  case Nil
  then show ?case by (cases r') (auto simp: stateKey_def)
next
  case (Cons x r)
  then show ?case by (cases r') (auto simp: stateKey_def)
qed

lemma evaluate_mysql_rule_other:
  "stateKey (rule_RuleCode rule) c \<noteq> key \<Longrightarrow>
     fst (evaluate_mysql_rule c s d acc rule) key = fst acc key"
  by (simp add: evaluate_mysql_rule_def Let_def split: prod.splits)

lemma fold_mysql_other:
  "\<forall>rule \<in> set rules. stateKey (rule_RuleCode rule) c \<noteq> key \<Longrightarrow>
     fst (foldl (evaluate_mysql_rule c s d) acc rules) key = fst acc key"
  by (induction rules arbitrary: acc) (simp_all add: evaluate_mysql_rule_other)

lemma evaluate_mysql_rule_results:
  "filter (\<lambda>r. er_RuleCode r = code) (snd (evaluate_mysql_rule c s d acc rule)) =
     filter (\<lambda>r. er_RuleCode r = code) (snd acc) @
     (let r = snd (transition (state_of (fst acc) rule c) rule (isBreached rule s d)) in
      if rule_Enabled rule \<and> ruleAppliesToCheck rule c \<and> rule_RuleCode rule = code \<and> er_Action r \<noteq> []
      then [r] else [])"
  using transition_identity(2) [of "state_of (fst acc) rule c" rule "isBreached rule s d"]
  by (cases acc) (auto simp: evaluate_mysql_rule_def Let_def split: prod.splits)

lemma fold_mysql_results_other:
  "\<forall>rule \<in> set rules. rule_RuleCode rule \<noteq> code \<Longrightarrow>
     filter (\<lambda>r. er_RuleCode r = code) (snd (foldl (evaluate_mysql_rule c s d) acc rules)) =
     filter (\<lambda>r. er_RuleCode r = code) (snd acc)"
  by (induction rules arbitrary: acc) (simp_all add: evaluate_mysql_rule_results Let_def)

lemma mysql_Evaluate_fold:
  "mre_states (fst (mysql_Evaluate c s d e)) =
     fst (foldl (evaluate_mysql_rule c s d) (mre_states e, []) (mre_rules e))"
  "snd (mysql_Evaluate c s d e) =
     snd (foldl (evaluate_mysql_rule c s d) (mre_states e, []) (mre_rules e))"
  by (simp_all add: mysql_Evaluate_def split_beta Let_def)

lemma mysql_Evaluate_rules [simp]: "mre_rules (fst (mysql_Evaluate c s d e)) = mre_rules e"
  by (simp add: mysql_Evaluate_def split: prod.splits)

text \<open>A call for a check takes the machine of each of its rules one step and reports its action.\<close>

lemma mysql_Evaluate_machine:
  fixes s d
  assumes codes: "proper_codes (mre_rules e)" and rule: "rule \<in> set (mre_rules e)"
    and on: "rule_Enabled rule" "ruleAppliesToCheck rule c"
  defines "tr \<equiv> transition (state_of (mre_states e) rule c) rule (isBreached rule s d)"
  shows "mre_states (fst (mysql_Evaluate c s d e)) (stateKey (rule_RuleCode rule) c) = Some (fst tr)"
    and "filter (\<lambda>r. er_RuleCode r = rule_RuleCode rule) (snd (mysql_Evaluate c s d e)) =
      (if er_Action (snd tr) \<noteq> [] then [snd tr] else [])"
proof -
  let ?key = "stateKey (rule_RuleCode rule) c" and ?f = "evaluate_mysql_rule c s d"
  from rule obtain us vs where split: "mre_rules e = us @ rule # vs" by (metis split_list)
  from codes have other: "\<forall>r \<in> set us \<union> set vs. rule_RuleCode r \<noteq> rule_RuleCode rule"
    unfolding proper_codes_def split by (auto simp: image_iff)
  then have keys: "\<forall>r \<in> set us \<union> set vs. stateKey (rule_RuleCode r) c \<noteq> ?key"
    by (auto simp: stateKey_def)
  let ?a = "foldl ?f (mre_states e, []) us"
  from fold_mysql_other [of us c ?key s d "(mre_states e, [])"] keys
  have "fst ?a ?key = mre_states e ?key" by simp
  then have st: "state_of (fst ?a) rule c = state_of (mre_states e) rule c" by (simp add: state_of_def)
  have one: "fst (?f ?a rule) ?key = Some (fst tr)"
    using on st by (cases ?a) (simp add: evaluate_mysql_rule_def tr_def Let_def split: prod.splits)
  have e: "foldl ?f (mre_states e, []) (mre_rules e) = foldl ?f (?f ?a rule) vs" by (simp add: split)
  show "mre_states (fst (mysql_Evaluate c s d e)) ?key = Some (fst tr)"
    using fold_mysql_other [of vs c ?key s d "?f ?a rule"] keys one e
    by (simp add: mysql_Evaluate_fold)
  show "filter (\<lambda>r. er_RuleCode r = rule_RuleCode rule) (snd (mysql_Evaluate c s d e)) =
      (if er_Action (snd tr) \<noteq> [] then [snd tr] else [])"
    using fold_mysql_results_other [of vs "rule_RuleCode rule" c s d "?f ?a rule"]
      fold_mysql_results_other [of us "rule_RuleCode rule" c s d "(mre_states e, [])"] other on st e
    by (simp add: mysql_Evaluate_fold evaluate_mysql_rule_results tr_def Let_def)
qed

lemma mysql_Evaluate_other_check:
  assumes codes: "proper_codes (mre_rules e)" and rule: "rule \<in> set (mre_rules e)" and "c' \<noteq> c"
  shows "mre_states (fst (mysql_Evaluate c' s d e)) (stateKey (rule_RuleCode rule) c) =
    mre_states e (stateKey (rule_RuleCode rule) c)"
proof -
  have "stateKey (rule_RuleCode r) c' \<noteq> stateKey (rule_RuleCode rule) c" if "r \<in> set (mre_rules e)" for r
    using codes rule that assms(3) by (auto simp: proper_codes_def dest: stateKey_inj)
  then show ?thesis
    using fold_mysql_other [of "mre_rules e" c' "stateKey (rule_RuleCode rule) c" s d "(mre_states e, [])"]
    by (simp add: mysql_Evaluate_fold)
qed

type_synonym mysql_call = "string \<times> MySQLSample \<times> MySQLDelta option"

definition run_engine :: "mysql_call list \<Rightarrow> MySQLRuleEngine \<Rightarrow> MySQLRuleEngine" where
  "run_engine calls e = foldl (\<lambda>e (c, s, d). fst (mysql_Evaluate c s d e)) e calls"

definition breaches :: "AlertRule \<Rightarrow> string \<Rightarrow> mysql_call list \<Rightarrow> bool list" where
  "breaches rule c calls = map (\<lambda>(_, s, d). isBreached rule s d) (filter (\<lambda>(c', _, _). c' = c) calls)"

definition new_engine :: "AlertRule list \<Rightarrow> MySQLRuleEngine" where
  "new_engine rules = \<lparr>mre_rules = rules, mre_states = Map.empty\<rparr>"

lemma run_engine_rules [simp]: "mre_rules (run_engine calls e) = mre_rules e"
  unfolding run_engine_def by (induction calls arbitrary: e) auto

section \<open>Properties\<close>

text \<open>
  the machine of a rule and a check, described by the samples it has seen and nothing else.
  With \<open>k\<close> breaches needed and \<open>n\<close> recoveries (at least one each), it opens exactly at a sample
  where it is OK and the last \<open>k\<close> samples all breached, it closes exactly at a sample where it is
  open and the last \<open>n\<close> samples did not breach, and otherwise it keeps its status and reports
  nothing; the actions it reports alternate, beginning with an open.
\<close>

theorem mysql_rule_hysteresis:
  fixes rule c bs b
  defines "st \<equiv> as_Status (fst (run_rule rule c bs))" and "st' \<equiv> as_Status (fst (run_rule rule c (bs @ [b])))"
    and "act \<equiv> last (snd (run_rule rule c (bs @ [b])))"
    and "done \<equiv> filter (\<lambda>a. a \<noteq> []) (snd (run_rule rule c bs))"
    and "k \<equiv> max 1 (rule_ConsecutiveBreaches rule)" and "n \<equiv> max 1 (rule_RecoverySamples rule)"
  shows "(st = ''OK'' \<or> st = ''OPEN'') \<and>
    (if st = ''OK'' \<and> k \<le> trail True (bs @ [b]) then act = ''open'' \<and> st' = ''OPEN''
     else if st = ''OPEN'' \<and> n \<le> trail False (bs @ [b]) then act = ''close'' \<and> st' = ''OK''
     else act = [] \<and> st' = st) \<and>
    done = map (\<lambda>i. if even i then ''open'' else ''close'') [0..<length done] \<and>
    (st = ''OPEN'' \<longleftrightarrow> odd (length done))"
proof -
  have k: "k = needed (rule_ConsecutiveBreaches rule)" and n: "n = needed (rule_RecoverySamples rule)"
    by (auto simp: k_def n_def needed_def)
  from run_rule_inv [of bs rule c] have inv: "run_inv bs (run_rule rule c bs)" .
  then have "(if st = ''OK'' \<and> k \<le> trail True (bs @ [b]) then act = ''open'' \<and> st' = ''OPEN''
     else if st = ''OPEN'' \<and> n \<le> trail False (bs @ [b]) then act = ''close'' \<and> st' = ''OK''
     else act = [] \<and> st' = st)"
    using needed_pos [of "rule_ConsecutiveBreaches rule"] needed_pos [of "rule_RecoverySamples rule"]
    unfolding st_def st'_def act_def k n
    by (auto simp: run_rule_snoc transition_def run_inv_def Let_def)
  moreover from inv have "(st = ''OK'' \<or> st = ''OPEN'') \<and>
    done = map (\<lambda>i. if even i then ''open'' else ''close'') [0..<length done] \<and>
    (st = ''OPEN'' \<longleftrightarrow> odd (length done))"
    unfolding run_inv_def alternating_def [symmetric] done_def st_def Let_def by blast
  ultimately show ?thesis by blast
qed


definition sample_at :: "int \<Rightarrow> MySQLSample" where
  "sample_at connections = \<lparr>ms_SampleID = ''s'', ms_CheckID = ''db'', ms_Timestamp = 0,
     ms_Connections = connections, ms_MaxConnections = 100, ms_ThreadsRunning = 0, ms_ThreadsCreated = 0,
     ms_AbortedConnects = 0, ms_SlowQueries = 0, ms_Questions = 0, ms_InnoDBRowLockWaits = 0,
     ms_CreatedTmpDiskTables = 0, ms_CreatedTmpTables = 0, ms_ConnectionsRefused = 0\<rparr>"

lemma default_codes_proper: "proper_codes DefaultMySQLRules"
  by (simp add: proper_codes_def DefaultMySQLRules_def mysql_rule_def)

definition crit_rule :: AlertRule where
  "crit_rule = mysql_rule ''mysql-conn-util-crit'' ''Connection Utilization Critical'' ''CONN_UTIL_CRIT''
        ''critical'' 90 2 3 5 ''Connection utilization above 90%''"

lemma crit_breached:
  "isBreached crit_rule (sample_at 95) None" "\<not> isBreached crit_rule (sample_at 50) None"
  by code_simp+


text \<open>
  whatever the counters of the two samples (as 64-bit integers, resets and wrap-around
  included), every difference that \<open>ComputeDelta\<close> reports is between 0 and the largest 64-bit
  integer, the interval is positive, and every rate is not negative. Where a counter has not been
  reset, the difference is exact.
\<close>

theorem ComputeDelta_bounds:
  fixes cur prev
  defines "d \<equiv> ComputeDelta cur prev"
  shows "(\<forall>f \<in> {md_AbortedConnectsDelta, md_SlowQueriesDelta, md_QuestionsDelta, md_RowLockWaitsDelta,
            md_TmpDiskTablesDelta, md_ThreadsCreatedDelta, md_ConnectionsRefusedDelta}.
        0 \<le> f d \<and> f d < 9223372036854775808) \<and>
    (\<forall>f \<in> {md_AbortedConnectsPerSec, md_SlowQueriesPerSec, md_QuestionsPerSec, md_RowLockWaitsPerSec,
            md_TmpDiskTablesPct, md_ThreadsCreatedPerSec}. 0 \<le> f d) \<and> 0 < md_IntervalSec d \<and>
    (0 \<le> ms_SlowQueries prev \<and> ms_SlowQueries prev \<le> ms_SlowQueries cur \<and>
     ms_SlowQueries cur < 9223372036854775808 \<longrightarrow>
       md_SlowQueriesDelta d = ms_SlowQueries cur - ms_SlowQueries prev)"
proof -
  have diff: "0 \<le> counterDiff a b" "counterDiff a b < 9223372036854775808" for a b
    using wrap64_bounds [of "a - b"] by (auto simp: counterDiff_def Let_def)
  have div: "0 \<le> f_div (f_of_int (counterDiff a b)) r" if "0 \<le> r" for a b r
    using that diff(1) [of a b] by (simp add: float_defs fl64_nonneg)
  have pct: "0 \<le> f_mul (f_div (f_of_int (counterDiff a b)) (f_of_int (counterDiff u v))) 100" for a b u v
    using div [of "f_of_int (counterDiff u v)" a b] diff(1) [of u v]
    by (simp add: f_mul_def fl64_nonneg f_of_int_def)
  have "0 < md_IntervalSec d" by (simp add: d_def ComputeDelta_def Let_def)
  moreover have "counterDiff a b = a - b" if "0 \<le> b" "b \<le> a" "a < 9223372036854775808" for a b
    using that by (simp add: counterDiff_def wrap64_id Let_def)
  ultimately show ?thesis
    unfolding d_def by (simp add: ComputeDelta_def Let_def diff div pct)
qed

theorem ComputeDelta_bounds_witness:
  "md_SlowQueriesDelta (ComputeDelta ((sample_at 1)\<lparr>ms_SlowQueries := 10\<rparr>) (sample_at 1)) = 10 \<and>
   md_SlowQueriesDelta (ComputeDelta (sample_at 1) ((sample_at 1)\<lparr>ms_SlowQueries := 10\<rparr>)) = 0"
  using ComputeDelta_bounds [of "(sample_at 1)\<lparr>ms_SlowQueries := 10\<rparr>" "sample_at 1"]
  by (simp add: sample_at_def ComputeDelta_def counterDiff_def wrap64_def Let_def)

end
