(* ===== verification/Queues.thy ===== *)
theory Queues
  imports Model
begin

text \<open>
  The two work queues that incidents feed: the notification outbox (\<open>notify/outbox.go\<close>) and the
  queue of AI analyses (\<open>ai/queue.go\<close>), both slices in memory with a JSON Lines file behind them
  (\<open>internal/util/jsonl\<close>). A file is the list of the items in it. A write error (\<open>werr\<close>) leaves
  the file as it was; memory has been changed by then.
\<close>

section \<open>Listing what is pending\<close>

definition page_limit :: "int \<Rightarrow> int \<Rightarrow> int" where
  "page_limit dflt limit = (if limit \<le> 0 then dflt else limit)"

text \<open>The loop that appends matching items and breaks when \<open>limit\<close> of them are collected.\<close>

fun collect :: "('i \<Rightarrow> bool) \<Rightarrow> int \<Rightarrow> 'i list \<Rightarrow> 'i list \<Rightarrow> 'i list" where
  "collect P limit acc [] = acc"
| "collect P limit acc (x # xs) =
     (if P x then
        let acc = acc @ [x] in if int (length acc) \<ge> limit then acc else collect P limit acc xs
      else collect P limit acc xs)"

lemma collect_take:
  "int (length acc) < limit \<Longrightarrow> collect P limit acc xs = acc @ take (nat limit - length acc) (filter P xs)"
proof (induction P limit acc xs rule: collect.induct)
  case (2 P limit acc x xs)
  then show ?case by (auto simp: Let_def take_Cons' Suc_diff_Suc nat_less_iff)
qed simp

text \<open>The part of a queue interface that lists pending items, and what its clients get from it.\<close>

locale pending_list =
  fixes items :: "'q \<Rightarrow> 'i list"
    and pending :: "'i \<Rightarrow> bool"
    and list_pending :: "int \<Rightarrow> 'q \<Rightarrow> 'i list"
  assumes list_pending: "list_pending limit q = collect pending (page_limit 100 limit) [] (items q)"
begin

lemma oldest_first: "list_pending limit q = take (nat (page_limit 100 limit)) (filter pending (items q))"
  by (simp add: list_pending collect_take page_limit_def)

lemma only_pending: "x \<in> set (list_pending limit q) \<Longrightarrow> x \<in> set (items q) \<and> pending x"
  by (auto simp: oldest_first dest: in_set_takeD)

lemma at_most: "int (length (list_pending limit q)) \<le> page_limit 100 limit"
  by (auto simp: oldest_first page_limit_def min_def)

lemma nothing_starves:
  assumes "filter pending (items q) = us @ x # vs" and "int (length us) < page_limit 100 limit"
  shows "x \<in> set (list_pending limit q)"
proof -
  have "length us < nat (page_limit 100 limit)" using assms(2) by simp
  then have "x \<in> set (take (nat (page_limit 100 limit)) (us @ x # vs))" by (simp add: take_Cons')
  then show ?thesis by (simp add: oldest_first assms(1))
qed

end

section \<open>The notification outbox\<close>

record Outbox =
  ob_data :: "NotificationEvent list"
  ob_disk :: "NotificationEvent list"

definition LoadOutbox :: "NotificationEvent list \<Rightarrow> Outbox" where
  "LoadOutbox disk = \<lparr>ob_data = disk, ob_disk = disk\<rparr>"

text \<open>\<open>jsonl.Append\<close> and \<open>jsonl.Rewrite\<close>.\<close>

definition jsonl_append :: "string option \<Rightarrow> 'a \<Rightarrow> 'a list \<Rightarrow> 'a list" where
  "jsonl_append werr x disk = (case werr of None \<Rightarrow> disk @ [x] | Some _ \<Rightarrow> disk)"

definition jsonl_rewrite :: "string option \<Rightarrow> 'a list \<Rightarrow> 'a list \<Rightarrow> 'a list" where
  "jsonl_rewrite werr xs disk = (case werr of None \<Rightarrow> xs | Some _ \<Rightarrow> disk)"

definition fill_event :: "gotime \<Rightarrow> NotificationEvent \<Rightarrow> NotificationEvent" where
  "fill_event now evt =
     (let evt = (if ev_NotificationID evt = []
                 then evt\<lparr>ev_NotificationID :=
                        ''notif-'' @ ev_IncidentID evt @ ''-'' @ itoa (unix_nano now)\<rparr> else evt);
          evt = (if ev_Status evt = [] then evt\<lparr>ev_Status := ''pending''\<rparr> else evt)
      in if is_zero (ev_CreatedAt evt) then evt\<lparr>ev_CreatedAt := now\<rparr> else evt)"

definition ob_Enqueue ::
  "gotime \<Rightarrow> string option \<Rightarrow> NotificationEvent \<Rightarrow> Outbox \<Rightarrow> Outbox \<times> string option" where
  "ob_Enqueue now werr evt0 o1 =
     (let evt = fill_event now evt0
      in (o1\<lparr>ob_data := ob_data o1 @ [evt], ob_disk := jsonl_append werr evt (ob_disk o1)\<rparr>, werr))"

definition ev_pending :: "NotificationEvent \<Rightarrow> bool" where
  "ev_pending evt \<longleftrightarrow> ev_Status evt = ''pending''"

definition ob_ListPending :: "int \<Rightarrow> Outbox \<Rightarrow> NotificationEvent list" where
  "ob_ListPending limit o1 = collect ev_pending (page_limit 100 limit) [] (ob_data o1)"

definition ob_ListAll :: "int \<Rightarrow> string \<Rightarrow> string \<Rightarrow> Outbox \<Rightarrow> NotificationEvent list" where
  "ob_ListAll limit status channel o1 =
     collect (\<lambda>e. \<not> (status \<noteq> [] \<and> ev_Status e \<noteq> status) \<and>
                  \<not> (channel \<noteq> [] \<and> \<not> str_contains (ev_Channel e) channel))
       (page_limit 100 limit) [] (rev (ob_data o1))"

definition ob_MarkSent ::
  "gotime \<Rightarrow> string option \<Rightarrow> string \<Rightarrow> Outbox \<Rightarrow> Outbox \<times> string option" where
  "ob_MarkSent now werr i o1 =
     (case find (\<lambda>e. ev_NotificationID e = i) (ob_data o1) of
        None \<Rightarrow> (o1, Some (''notification not found: '' @ i))
      | Some e \<Rightarrow>
          if ev_Status e \<noteq> ''pending'' then
            (o1, Some (''notification '' @ i @ '' is not pending (status: '' @ ev_Status e @ '')''))
          else
            let data = replace_first (\<lambda>e. ev_NotificationID e = i)
                  (\<lambda>e. e\<lparr>ev_Status := ''sent'', ev_SentAt := Some now\<rparr>) (ob_data o1)
            in (o1\<lparr>ob_data := data, ob_disk := jsonl_rewrite werr data (ob_disk o1)\<rparr>, werr))"

definition ob_MarkFailed ::
  "string option \<Rightarrow> string \<Rightarrow> string \<Rightarrow> Outbox \<Rightarrow> Outbox \<times> string option" where
  "ob_MarkFailed werr i reason o1 =
     (case find (\<lambda>e. ev_NotificationID e = i) (ob_data o1) of
        None \<Rightarrow> (o1, Some (''notification not found: '' @ i))
      | Some e \<Rightarrow>
          let data = replace_first (\<lambda>e. ev_NotificationID e = i)
                (\<lambda>e. e\<lparr>ev_Status := ''failed'', ev_LastError := reason,
                       ev_RetryCount := ev_RetryCount e + 1\<rparr>) (ob_data o1)
          in (o1\<lparr>ob_data := data, ob_disk := jsonl_rewrite werr data (ob_disk o1)\<rparr>, werr))"

definition ob_PruneBefore :: "gotime \<Rightarrow> string option \<Rightarrow> Outbox \<Rightarrow> Outbox \<times> string option" where
  "ob_PruneBefore cutoff werr o1 =
     (let data = filter (\<lambda>e. \<not> before (ev_CreatedAt e) cutoff) (ob_data o1)
      in (o1\<lparr>ob_data := data, ob_disk := jsonl_rewrite werr data (ob_disk o1)\<rparr>, werr))"

interpretation outbox_pending: pending_list ob_data ev_pending ob_ListPending
  by unfold_locales (simp add: ob_ListPending_def)

section \<open>The AI analysis queue\<close>

record AIQueue =
  aq_queue :: "AIQueueItem list"
  aq_results :: "AIAnalysisResult list"
  aq_disk :: "AIQueueItem list"
  aq_results_disk :: "AIAnalysisResult list"

definition LoadAIQueue :: "AIQueueItem list \<Rightarrow> AIAnalysisResult list \<Rightarrow> AIQueue" where
  "LoadAIQueue disk rdisk =
     \<lparr>aq_queue = disk, aq_results = rdisk, aq_disk = disk, aq_results_disk = rdisk\<rparr>"

definition ai_active :: "AIQueueItem \<Rightarrow> bool" where
  "ai_active item \<longleftrightarrow> ai_Status item = ''pending'' \<or> ai_Status item = ''processing''"

definition ai_pending :: "AIQueueItem \<Rightarrow> bool" where
  "ai_pending item \<longleftrightarrow> ai_Status item = ''pending''"

definition active_for :: "string \<Rightarrow> AIQueueItem \<Rightarrow> bool" where
  "active_for i item \<longleftrightarrow> ai_IncidentID item = i \<and> ai_active item"

definition ai_Enqueue ::
  "gotime \<Rightarrow> string option \<Rightarrow> string \<Rightarrow> string \<Rightarrow> AIQueue \<Rightarrow> AIQueue \<times> string option" where
  "ai_Enqueue now werr incidentID promptVersion q =
     (if find (active_for incidentID) (aq_queue q) \<noteq> None then (q, None)
      else
        let item = \<lparr>ai_IncidentID = incidentID, ai_PromptVersion = promptVersion,
                     ai_Status = ''pending'', ai_CreatedAt = now, ai_ClaimedAt = None,
                     ai_CompletedAt = None, ai_LastError = []\<rparr>
        in (q\<lparr>aq_queue := aq_queue q @ [item], aq_disk := jsonl_append werr item (aq_disk q)\<rparr>, werr))"

text \<open>The loop of \<open>ClaimPending\<close>: the queue with the claimed items changed in place, and the claimed.\<close>

fun claim_loop ::
  "int \<Rightarrow> gotime \<Rightarrow> AIQueueItem list \<Rightarrow> AIQueueItem list \<Rightarrow> AIQueueItem list \<times> AIQueueItem list" where
  "claim_loop limit now claimed [] = ([], claimed)"
| "claim_loop limit now claimed (x # xs) =
     (if ai_Status x = ''pending'' then
        let x' = x\<lparr>ai_Status := ''processing'', ai_ClaimedAt := Some now\<rparr>;
            claimed' = claimed @ [x']
        in if int (length claimed') \<ge> limit then (x' # xs, claimed')
           else let (xs', c) = claim_loop limit now claimed' xs in (x' # xs', c)
      else let (xs', c) = claim_loop limit now claimed xs in (x # xs', c))"

definition ai_ClaimPending ::
  "gotime \<Rightarrow> string option \<Rightarrow> int \<Rightarrow> AIQueue \<Rightarrow> AIQueue \<times> (string + AIQueueItem list)" where
  "ai_ClaimPending now werr limit q =
     (let (queue, claimed) = claim_loop (page_limit 10 limit) now [] (aq_queue q);
          q = q\<lparr>aq_queue := queue\<rparr>
      in if length claimed > 0 then
           (case werr of
              Some err \<Rightarrow> (q, Inl (''persist claimed items: '' @ err))
            | None \<Rightarrow> (q\<lparr>aq_disk := queue\<rparr>, Inr claimed))
         else (q, Inr claimed))"

definition ai_Complete ::
  "gotime \<Rightarrow> string option \<Rightarrow> string option \<Rightarrow> string \<Rightarrow> AIAnalysisResult \<Rightarrow> AIQueue \<Rightarrow>
     AIQueue \<times> string option" where
  "ai_Complete now werr werr2 incidentID result0 q =
     (if find (active_for incidentID) (aq_queue q) = None then
        (q, Some (''no pending/processing AI queue item for incident '' @ incidentID))
      else
        let queue = replace_first (active_for incidentID)
              (\<lambda>x. x\<lparr>ai_Status := ''completed'', ai_CompletedAt := Some now\<rparr>) (aq_queue q);
            result = result0\<lparr>air_IncidentID := incidentID\<rparr>;
            result = (if is_zero (air_CreatedAt result) then result\<lparr>air_CreatedAt := now\<rparr> else result);
            q = q\<lparr>aq_queue := queue, aq_results := aq_results q @ [result]\<rparr>
        in case werr of
             Some err \<Rightarrow> (q, Some (''persist queue: '' @ err))
           | None \<Rightarrow>
               let q = q\<lparr>aq_disk := queue\<rparr>
               in case werr2 of
                    Some err \<Rightarrow> (q, Some (''persist result: '' @ err))
                  | None \<Rightarrow> (q\<lparr>aq_results_disk := aq_results_disk q @ [result]\<rparr>, None))"

definition ai_Fail ::
  "string option \<Rightarrow> string \<Rightarrow> string \<Rightarrow> AIQueue \<Rightarrow> AIQueue \<times> string option" where
  "ai_Fail werr incidentID reason q =
     (if find (active_for incidentID) (aq_queue q) = None then
        (q, Some (''no pending/processing AI queue item for incident '' @ incidentID))
      else
        let queue = replace_first (active_for incidentID)
              (\<lambda>x. x\<lparr>ai_Status := ''failed'', ai_LastError := reason\<rparr>) (aq_queue q)
        in (q\<lparr>aq_queue := queue, aq_disk := jsonl_rewrite werr queue (aq_disk q)\<rparr>, werr))"

definition ai_PruneBefore ::
  "gotime \<Rightarrow> string option \<Rightarrow> string option \<Rightarrow> AIQueue \<Rightarrow> AIQueue \<times> string option" where
  "ai_PruneBefore cutoff werr werr2 q =
     (let queue = filter (\<lambda>x. \<not> before (ai_CreatedAt x) cutoff) (aq_queue q);
          results = filter (\<lambda>r. \<not> before (air_CreatedAt r) cutoff) (aq_results q);
          q = q\<lparr>aq_queue := queue, aq_results := results\<rparr>
      in case werr of
           Some err \<Rightarrow> (q, Some err)
         | None \<Rightarrow> (q\<lparr>aq_disk := queue,
                       aq_results_disk := jsonl_rewrite werr2 results (aq_results_disk q)\<rparr>, werr2))"

definition ai_GetResults :: "string \<Rightarrow> AIQueue \<Rightarrow> AIAnalysisResult list" where
  "ai_GetResults incidentID q = filter (\<lambda>r. air_IncidentID r = incidentID) (aq_results q)"

definition ai_AllResults :: "int \<Rightarrow> AIQueue \<Rightarrow> AIAnalysisResult list" where
  "ai_AllResults limit q =
     (let n = min (int (length (aq_results q))) (page_limit 100 limit)
      in map (\<lambda>i. aq_results q ! (length (aq_results q) - 1 - i)) [0..<nat n])"

definition ai_ListPendingItems :: "int \<Rightarrow> AIQueue \<Rightarrow> AIQueueItem list" where
  "ai_ListPendingItems limit q = collect ai_pending (page_limit 100 limit) [] (aq_queue q)"

interpretation ai_pending_items: pending_list aq_queue ai_pending ai_ListPendingItems
  by unfold_locales (simp add: ai_ListPendingItems_def)

section \<open>The outbox over time\<close>

datatype ob_op =
  ObEnqueue NotificationEvent
| ObMarkSent string
| ObMarkFailed string string
| ObPrune gotime

text \<open>One call, with its clock and the outcome of its write.\<close>

definition ob_exec :: "ob_op \<times> gotime \<times> string option \<Rightarrow> Outbox \<Rightarrow> Outbox \<times> string option" where
  "ob_exec call q =
     (case call of (oper, now, werr) \<Rightarrow>
       (case oper of
          ObEnqueue evt \<Rightarrow> ob_Enqueue now werr evt q
        | ObMarkSent i \<Rightarrow> ob_MarkSent now werr i q
        | ObMarkFailed i reason \<Rightarrow> ob_MarkFailed werr i reason q
        | ObPrune cutoff \<Rightarrow> ob_PruneBefore cutoff werr q))"

text \<open>
  What a call can do to the event under an ID (the first in the slice): leave it, mark it sent when
  it is pending, mark it failed, or (pruning) let it go.
\<close>

inductive ev_change :: "NotificationEvent \<Rightarrow> NotificationEvent \<Rightarrow> bool" where
  same: "ev_change e e"
| sent: "ev_Status e = ''pending'' \<Longrightarrow> ev_change e (e\<lparr>ev_Status := ''sent'', ev_SentAt := Some now\<rparr>)"
| failed: "ev_change e (e\<lparr>ev_Status := ''failed'', ev_LastError := reason,
    ev_RetryCount := ev_RetryCount e + 1\<rparr>)"

inductive_cases ev_changeE: "ev_change e e'"

lemma ev_change_all2_same: "list_all2 ev_change xs xs"
  by (induction xs) (auto intro: ev_change.same)

lemma all2_replace_first:
  "(\<And>x. find P xs = Some x \<Longrightarrow> R x (f x)) \<Longrightarrow> (\<And>x. R x x) \<Longrightarrow> list_all2 R xs (replace_first P f xs)"
proof (induction xs)
  case (Cons x xs)
  then show ?case by (auto simp: list.rel_refl)
qed simp

text \<open>Every call that does not prune changes the events in place, one at most, and may append one.\<close>

lemma ob_exec_shape:
  assumes "ob_exec (oper, now, werr) q = (q', r)" and "\<forall>cutoff. oper \<noteq> ObPrune cutoff"
  shows "\<exists>ys zs. ob_data q' = ys @ zs \<and> list_all2 ev_change (ob_data q) ys"
proof -
  have same: "\<exists>ys zs. ob_data q = ys @ zs \<and> list_all2 ev_change (ob_data q) ys"
    by (rule exI [of _ "ob_data q"]) (simp add: ev_change_all2_same)
  show ?thesis
  proof (cases oper)
    case (ObEnqueue evt)
    with assms(1) have "ob_data q' = ob_data q @ [fill_event now evt]"
      by (auto simp: ob_exec_def ob_Enqueue_def Let_def)
    with ev_change_all2_same [of "ob_data q"] show ?thesis by blast
  next
    case (ObMarkSent i)
    then show ?thesis
    proof (cases "ob_data q' = ob_data q")
      case True
      with same show ?thesis by simp
    next
      case False
      with assms(1) ObMarkSent obtain e where e: "find (\<lambda>e. ev_NotificationID e = i) (ob_data q) = Some e"
        "ev_Status e = ''pending''"
        and q': "ob_data q' = replace_first (\<lambda>e. ev_NotificationID e = i)
          (\<lambda>e. e\<lparr>ev_Status := ''sent'', ev_SentAt := Some now\<rparr>) (ob_data q)"
        by (auto simp: ob_exec_def ob_MarkSent_def Let_def split: option.splits if_splits)
      have "list_all2 ev_change (ob_data q) (ob_data q')"
        unfolding q' by (rule all2_replace_first) (auto simp: e intro: ev_change.intros)
      then show ?thesis by (intro exI [of _ "ob_data q'"] exI [of _ "[]"]) simp
    qed
  next
    case (ObMarkFailed i reason)
    then show ?thesis
    proof (cases "ob_data q' = ob_data q")
      case True
      with same show ?thesis by simp
    next
      case False
      with assms(1) ObMarkFailed have q': "ob_data q' = replace_first (\<lambda>e. ev_NotificationID e = i)
          (\<lambda>e. e\<lparr>ev_Status := ''failed'', ev_LastError := reason, ev_RetryCount := ev_RetryCount e + 1\<rparr>)
          (ob_data q)"
        by (auto simp: ob_exec_def ob_MarkFailed_def Let_def split: option.splits)
      have "list_all2 ev_change (ob_data q) (ob_data q')"
        unfolding q' by (rule all2_replace_first) (auto intro: ev_change.intros)
      then show ?thesis by (intro exI [of _ "ob_data q'"] exI [of _ "[]"]) simp
    qed
  next
    case (ObPrune cutoff)
    with assms(2) show ?thesis by blast
  qed
qed

definition ev_later :: "NotificationEvent \<Rightarrow> NotificationEvent \<Rightarrow> bool" where
  "ev_later e e' \<longleftrightarrow>
     ev_NotificationID e' = ev_NotificationID e \<and> ev_PayloadJSON e' = ev_PayloadJSON e \<and>
     ev_RetryCount e \<le> ev_RetryCount e' \<and>
     (ev_Status e \<noteq> ''pending'' \<longrightarrow> ev_Status e' = ev_Status e \<or> ev_Status e' = ''failed'')"

lemma ev_later_refl: "ev_later e e"
  by (simp add: ev_later_def)

lemma ev_later_trans: "ev_later e e' \<Longrightarrow> ev_later e' e'' \<Longrightarrow> ev_later e e''"
  by (auto simp: ev_later_def)

lemma ev_change_later: "ev_change e e' \<Longrightarrow> ev_later e e'"
  by (erule ev_changeE) (auto simp: ev_later_def)

definition ob_run :: "(ob_op \<times> gotime \<times> string option) list \<Rightarrow> Outbox \<Rightarrow> Outbox" where
  "ob_run calls q = foldl (\<lambda>q call. fst (ob_exec call q)) q calls"

lemma ob_run_later:
  assumes "\<forall>(oper, _, _) \<in> set calls. \<forall>cutoff. oper \<noteq> ObPrune cutoff" and "i < length (ob_data q)"
  shows "i < length (ob_data (ob_run calls q)) \<and> ev_later (ob_data q ! i) (ob_data (ob_run calls q) ! i)"
  using assms
proof (induction calls rule: rev_induct)
  case Nil
  then show ?case by (simp add: ob_run_def ev_later_refl)
next
  case (snoc call calls)
  obtain oper now werr where call: "call = (oper, now, werr)" by (cases call)
  let ?q = "ob_run calls q"
  from snoc have i: "i < length (ob_data ?q)" "ev_later (ob_data q ! i) (ob_data ?q ! i)" by auto
  obtain q' r where exec: "ob_exec (oper, now, werr) ?q = (q', r)" by fastforce
  have "\<forall>cutoff. oper \<noteq> ObPrune cutoff" using snoc.prems(1) by (auto simp: call)
  from ob_exec_shape [OF exec this] obtain ys zs where
    q': "ob_data q' = ys @ zs" and ys: "list_all2 ev_change (ob_data ?q) ys" by blast
  from ys i(1) have "ev_change (ob_data ?q ! i) (ys ! i)" and "i < length ys"
    by (auto dest: list_all2_nthD list_all2_lengthD)
  with i(2) q' have "i < length (ob_data q') \<and> ev_later (ob_data q ! i) (ob_data q' ! i)"
    by (auto simp: nth_append intro: ev_later_trans ev_change_later)
  then show ?case using exec by (simp add: ob_run_def call)
qed

lemma ob_exec_disk:
  "ob_disk q = ob_data q \<Longrightarrow> ob_disk (fst (ob_exec (oper, now, None) q)) = ob_data (fst (ob_exec (oper, now, None) q))"
  by (auto simp: ob_exec_def ob_Enqueue_def ob_MarkSent_def ob_MarkFailed_def ob_PruneBefore_def
      jsonl_append_def jsonl_rewrite_def Let_def split: ob_op.splits option.splits)

lemma ob_run_disk:
  "ob_disk q = ob_data q \<Longrightarrow> \<forall>(_, _, werr) \<in> set calls. werr = None \<Longrightarrow>
     ob_disk (ob_run calls q) = ob_data (ob_run calls q)"
  unfolding ob_run_def
  by (induction calls arbitrary: q) (auto simp: ob_exec_disk)

section \<open>The AI queue over time\<close>

datatype ai_op =
  AiEnqueue string string
| AiClaim int
| AiComplete string AIAnalysisResult
| AiFail string string
| AiPrune gotime

definition ai_exec :: "ai_op \<times> gotime \<times> string option \<times> string option \<Rightarrow> AIQueue \<Rightarrow> AIQueue" where
  "ai_exec call q =
     (case call of (oper, now, werr, werr2) \<Rightarrow>
       (case oper of
          AiEnqueue i v \<Rightarrow> fst (ai_Enqueue now werr i v q)
        | AiClaim limit \<Rightarrow> fst (ai_ClaimPending now werr limit q)
        | AiComplete i result \<Rightarrow> fst (ai_Complete now werr werr2 i result q)
        | AiFail i reason \<Rightarrow> fst (ai_Fail werr i reason q)
        | AiPrune cutoff \<Rightarrow> fst (ai_PruneBefore cutoff werr werr2 q)))"

definition ai_run :: "(ai_op \<times> gotime \<times> string option \<times> string option) list \<Rightarrow> AIQueue \<Rightarrow> AIQueue" where
  "ai_run calls q = foldl (\<lambda>q call. ai_exec call q) q calls"

text \<open>What the loop of \<open>ClaimPending\<close> computes.\<close>

definition to_processing :: "gotime \<Rightarrow> AIQueueItem \<Rightarrow> AIQueueItem" where
  "to_processing now x = x\<lparr>ai_Status := ''processing'', ai_ClaimedAt := Some now\<rparr>"

lemma claim_loop_spec:
  assumes "int (length claimed) < limit"
  shows "claim_loop limit now claimed xs = (ys, cl) \<Longrightarrow>
    cl = claimed @ map (to_processing now) (take (nat limit - length claimed) (filter ai_pending xs)) \<and>
    list_all2 (\<lambda>x y. y = x \<or> ai_pending x \<and> y = to_processing now x) xs ys \<and>
    (\<forall>x \<in> set (take (nat limit - length claimed) (filter ai_pending xs)). to_processing now x \<in> set ys)"
  using assms
proof (induction xs arbitrary: claimed ys cl)
  case (Cons x xs)
  show ?case
  proof (cases "ai_pending x")
    case False
    with Cons.prems obtain ys' where ys': "claim_loop limit now claimed xs = (ys', cl)" "ys = x # ys'"
      by (auto simp: ai_pending_def split: prod.splits)
    from Cons.IH [OF ys'(1) Cons.prems(2)] False ys'(2) show ?thesis by simp
  next
    case True
    let ?c = "claimed @ [to_processing now x]"
    show ?thesis
    proof (cases "int (length ?c) \<ge> limit")
      case full: True
      with True Cons.prems have "nat limit - length claimed = 1" "ys = to_processing now x # xs" "cl = ?c"
        by (auto simp: ai_pending_def to_processing_def Let_def)
      with True show ?thesis by (simp add: list.rel_refl)
    next
      case room: False
      with True Cons.prems obtain ys' where ys': "claim_loop limit now ?c xs = (ys', cl)"
          "ys = to_processing now x # ys'"
        by (auto simp: ai_pending_def to_processing_def Let_def split: prod.splits if_splits)
      from room have "int (length ?c) < limit" by simp
      from Cons.IH [OF ys'(1) this] room True ys'(2) show ?thesis
        by (auto simp: take_Cons' Suc_diff_Suc)
    qed
  qed
qed simp

definition ai_ok :: "AIQueue \<Rightarrow> bool" where
  "ai_ok q \<longleftrightarrow> (\<forall>i. length (filter (active_for i) (aq_queue q)) \<le> 1)"

lemma all2_filter_length:
  "list_all2 R xs ys \<Longrightarrow> (\<And>x y. R x y \<Longrightarrow> P x = P y) \<Longrightarrow> length (filter P xs) = length (filter P ys)"
  by (induction rule: list_all2_induct) auto

lemma ai_claim_shape:
  assumes "ai_ClaimPending now werr limit q = (q', out)"
  shows "list_all2 (\<lambda>x y. y = x \<or> ai_pending x \<and> y = to_processing now x) (aq_queue q) (aq_queue q') \<and>
    (\<forall>x \<in> set (take (nat (page_limit 10 limit)) (filter ai_pending (aq_queue q))).
       to_processing now x \<in> set (aq_queue q')) \<and>
    (\<forall>claimed. out = Inr claimed \<longrightarrow>
       claimed = map (to_processing now) (take (nat (page_limit 10 limit)) (filter ai_pending (aq_queue q))))"
proof -
  obtain queue claimed where loop: "claim_loop (page_limit 10 limit) now [] (aq_queue q) = (queue, claimed)"
    by fastforce
  have "int (length ([] :: AIQueueItem list)) < page_limit 10 limit" by (simp add: page_limit_def)
  from claim_loop_spec [OF this loop] assms show ?thesis
    by (auto simp: ai_ClaimPending_def loop Let_def split: if_splits option.splits)
qed

lemma replace_first_fewer:
  "(\<And>x. Q x \<Longrightarrow> \<not> P (f x)) \<Longrightarrow> length (filter P (replace_first Q f xs)) \<le> length (filter P xs)"
  by (induction xs) auto

lemma filter_filter_length: "length (filter P (filter Q xs)) \<le> length (filter P xs)"
  by (induction xs) auto

lemma ai_exec_ok: "ai_ok q \<Longrightarrow> ai_ok (ai_exec call q)"
proof -
  assume ok: "ai_ok q"
  obtain oper now werr werr2 where call: "call = (oper, now, werr, werr2)" by (cases call)
  have fewer: "ai_ok q'" if "\<And>i. length (filter (active_for i) (aq_queue q')) \<le> length (filter (active_for i) (aq_queue q))" for q'
    using ok that unfolding ai_ok_def by (meson le_trans)
  have ended: "\<not> active_for j (x\<lparr>ai_Status := s, ai_CompletedAt := t\<rparr>)" "\<not> active_for j (x\<lparr>ai_Status := s, ai_LastError := r\<rparr>)"
    if "s \<in> {''completed'', ''failed''}" for j x s t r
    using that by (auto simp: active_for_def ai_active_def)
  show ?thesis
  proof (cases oper)
    case (AiEnqueue i v)
    show ?thesis
    proof (cases "find (active_for i) (aq_queue q)")
      case None
      then have "filter (active_for i) (aq_queue q) = []" by (auto simp: find_None_iff filter_empty_conv)
      with ok None show ?thesis
        unfolding ai_ok_def
        by (auto simp: call ai_exec_def ai_Enqueue_def AiEnqueue Let_def active_for_def)
    next
      case (Some x)
      with ok show ?thesis by (simp add: call ai_exec_def ai_Enqueue_def AiEnqueue)
    qed
  next
    case (AiClaim limit)
    obtain q' out where c: "ai_ClaimPending now werr limit q = (q', out)" by fastforce
    from ai_claim_shape [OF c]
    have R: "list_all2 (\<lambda>x y. y = x \<or> ai_pending x \<and> y = to_processing now x) (aq_queue q) (aq_queue q')"
      by blast
    have "length (filter (active_for i) (aq_queue q)) = length (filter (active_for i) (aq_queue q'))" for i
      by (rule all2_filter_length [OF R])
         (auto simp: active_for_def ai_active_def ai_pending_def to_processing_def)
    then show ?thesis by (simp add: call ai_exec_def AiClaim c fewer)
  next
    case (AiComplete i result)
    then show ?thesis
      by (intro fewer)
         (auto simp: call ai_exec_def ai_Complete_def Let_def ended replace_first_fewer split: option.splits)
  next
    case (AiFail i reason)
    then show ?thesis
      by (intro fewer) (auto simp: call ai_exec_def ai_Fail_def Let_def ended replace_first_fewer)
  next
    case (AiPrune cutoff)
    then show ?thesis
      by (intro fewer)
         (auto simp: call ai_exec_def ai_PruneBefore_def Let_def filter_filter_length
            simp del: filter_filter split: option.splits)
  qed
qed

lemma ai_run_ok: "ai_ok q \<Longrightarrow> ai_ok (ai_run calls q)"
  unfolding ai_run_def by (induction calls arbitrary: q) (auto simp: ai_exec_ok)

text \<open>An incident is held while an item of it is being processed.\<close>

definition held :: "string \<Rightarrow> AIQueue \<Rightarrow> bool" where
  "held i q \<longleftrightarrow> (\<exists>x \<in> set (aq_queue q). ai_IncidentID x = i \<and> ai_Status x = ''processing'')"

definition leaves_alone :: "string \<Rightarrow> ai_op \<Rightarrow> bool" where
  "leaves_alone i oper \<longleftrightarrow>
     (case oper of AiComplete j _ \<Rightarrow> j \<noteq> i | AiFail j _ \<Rightarrow> j \<noteq> i | AiPrune _ \<Rightarrow> False | _ \<Rightarrow> True)"

lemma replace_first_keeps: "x \<in> set xs \<Longrightarrow> \<not> P x \<Longrightarrow> x \<in> set (replace_first P f xs)"
  by (induction xs) auto

lemma held_step:
  assumes h: "held i q" and "leaves_alone i oper"
  shows "held i (ai_exec (oper, now, werr, werr2) q)"
proof -
  from h obtain x where x: "x \<in> set (aq_queue q)" "ai_IncidentID x = i" "ai_Status x = ''processing''"
    by (auto simp: held_def)
  have held: "held i q'" if "x \<in> set (aq_queue q')" for q' using x that by (auto simp: held_def)
  show ?thesis
  proof (cases oper)
    case (AiEnqueue j v)
    with x show ?thesis by (intro held) (auto simp: ai_exec_def ai_Enqueue_def Let_def)
  next
    case (AiClaim limit)
    obtain q' out where c: "ai_ClaimPending now werr limit q = (q', out)" by fastforce
    from ai_claim_shape [OF c]
    have R: "list_all2 (\<lambda>x y. y = x \<or> ai_pending x \<and> y = to_processing now x) (aq_queue q) (aq_queue q')"
      by blast
    from x(1) obtain n where n: "n < length (aq_queue q)" "aq_queue q ! n = x" by (auto simp: in_set_conv_nth)
    with list_all2_nthD [OF R n(1)] list_all2_lengthD [OF R]
    obtain y where "y \<in> set (aq_queue q')" "y = x \<or> ai_pending x \<and> y = to_processing now x"
      by (metis nth_mem)
    with x(3) have "x \<in> set (aq_queue q')" by (auto simp: ai_pending_def)
    then show ?thesis by (simp add: ai_exec_def AiClaim c held)
  next
    case (AiComplete j result)
    with x assms(2) have "\<not> active_for j x" by (simp add: leaves_alone_def active_for_def)
    with x(1) AiComplete show ?thesis
      by (intro held) (auto simp: ai_exec_def ai_Complete_def Let_def replace_first_keeps split: option.splits)
  next
    case (AiFail j reason)
    with x assms(2) have "\<not> active_for j x" by (simp add: leaves_alone_def active_for_def)
    with x(1) AiFail show ?thesis
      by (intro held) (auto simp: ai_exec_def ai_Fail_def Let_def replace_first_keeps)
  next
    case (AiPrune cutoff)
    with assms(2) show ?thesis by (simp add: leaves_alone_def)
  qed
qed

lemma held_run:
  "held i q \<Longrightarrow> \<forall>call \<in> set calls. leaves_alone i (fst call) \<Longrightarrow> held i (ai_run calls q)"
  unfolding ai_run_def
proof (induction calls arbitrary: q)
  case (Cons call calls)
  obtain oper now werr werr2 where call: "call = (oper, now, werr, werr2)" by (cases call)
  with Cons.prems have "held i (ai_exec call q)" by (simp add: held_step)
  with Cons show ?case by simp
qed simp

lemma held_not_pending:
  assumes ok: "ai_ok q" and h: "held i q" and y: "y \<in> set (aq_queue q)" "ai_pending y"
  shows "ai_IncidentID y \<noteq> i"
proof
  assume "ai_IncidentID y = i"
  with y have "y \<in> set (filter (active_for i) (aq_queue q))"
    by (auto simp: active_for_def ai_active_def ai_pending_def)
  moreover from h obtain x where "x \<in> set (filter (active_for i) (aq_queue q))" "ai_Status x = ''processing''"
    by (auto simp: held_def active_for_def ai_active_def)
  moreover have "length (filter (active_for i) (aq_queue q)) \<le> 1" using ok by (simp add: ai_ok_def)
  ultimately have "x = y"
    by (cases "filter (active_for i) (aq_queue q)") (auto simp: le_Suc_eq)
  with y(2) \<open>ai_Status x = ''processing''\<close> show False by (simp add: ai_pending_def)
qed

lemma held_not_claimed:
  assumes "ai_ok q" and "held i q" and "ai_ClaimPending now werr limit q = (q', Inr claimed)"
  shows "i \<notin> ai_IncidentID ` set claimed"
proof -
  from ai_claim_shape [OF assms(3)] have "claimed = map (to_processing now)
      (take (nat (page_limit 10 limit)) (filter ai_pending (aq_queue q)))" by blast
  moreover have "ai_IncidentID (to_processing now x) = ai_IncidentID x" for x by (simp add: to_processing_def)
  ultimately show ?thesis
    using held_not_pending [OF assms(1,2)] by (fastforce dest: in_set_takeD)
qed

section \<open>Properties\<close>

text \<open>
  an event of the outbox keeps its place, ID and payload through any calls that do not prune.
  Once it is no longer pending it never is again, so \<open>ListPending\<close> does not return it: a sent
  event is not sent again, and a failed one is never retried although its retry count goes up. A
  sent event can still turn failed.
\<close>

theorem outbox_events_only_leave_pending:
  fixes calls q i
  defines "q' \<equiv> ob_run calls q"
  assumes "\<forall>(oper, _, _) \<in> set calls. \<forall>cutoff. oper \<noteq> ObPrune cutoff" and "i < length (ob_data q)"
  shows "i < length (ob_data q') \<and>
    ev_NotificationID (ob_data q' ! i) = ev_NotificationID (ob_data q ! i) \<and>
    ev_PayloadJSON (ob_data q' ! i) = ev_PayloadJSON (ob_data q ! i) \<and>
    ev_RetryCount (ob_data q ! i) \<le> ev_RetryCount (ob_data q' ! i) \<and>
    (ev_Status (ob_data q ! i) \<noteq> ''pending'' \<longrightarrow>
       ob_data q' ! i \<notin> set (ob_ListPending limit q') \<and>
       (ev_Status (ob_data q' ! i) = ev_Status (ob_data q ! i) \<or> ev_Status (ob_data q' ! i) = ''failed''))"
proof -
  from ob_run_later [OF assms(2,3)]
  have later: "i < length (ob_data q')" "ev_later (ob_data q ! i) (ob_data q' ! i)" by (simp_all add: q'_def)
  then have "ob_data q' ! i \<notin> set (ob_ListPending limit q')" if "ev_Status (ob_data q ! i) \<noteq> ''pending''"
    using that outbox_pending.only_pending [of "ob_data q' ! i" limit q']
    by (auto simp: ev_later_def ev_pending_def)
  with later show ?thesis by (auto simp: ev_later_def)
qed

definition sample_event :: "string \<Rightarrow> NotificationEvent" where
  "sample_event i = \<lparr>ev_NotificationID = i, ev_IncidentID = ''inc'', ev_Channel = ''slack'',
     ev_PayloadJSON = ''{}'', ev_Status = ''pending'', ev_RetryCount = 0, ev_LastError = [],
     ev_CreatedAt = 5, ev_SentAt = None, ev_RequestURL = [], ev_ResponseStatus = 0, ev_ResponseBody = []\<rparr>"

theorem outbox_events_only_leave_pending_witness:
  "map ev_Status (ob_data (ob_run [(ObMarkSent ''a'', 9, None), (ObMarkFailed ''a'' ''timeout'', 10, None)]
     (LoadOutbox [sample_event ''a'']))) = [''failed''] \<and>
   ev_NotificationID (ob_data (ob_run [(ObMarkSent ''a'', 9, None), (ObMarkFailed ''a'' ''timeout'', 10, None)]
     (LoadOutbox [sample_event ''a''])) ! 0) = ''a''"
  using outbox_events_only_leave_pending [of
      "[(ObMarkSent ''a'', 9, None), (ObMarkFailed ''a'' ''timeout'', 10, None)]" 0 "LoadOutbox [sample_event ''a'']"]
  by (simp add: LoadOutbox_def sample_event_def ob_run_def ob_exec_def ob_MarkSent_def ob_MarkFailed_def Let_def)

text \<open>
  after any calls on a new AI queue (write errors included) no incident has two items that are
  pending or processing.
\<close>

theorem ai_one_active_item:
  "length (filter (\<lambda>x. ai_IncidentID x = i \<and> (ai_Status x = ''pending'' \<or> ai_Status x = ''processing''))
     (aq_queue (ai_run calls (LoadAIQueue [] [])))) \<le> 1"
proof -
  have "ai_ok (LoadAIQueue [] [])" by (simp add: ai_ok_def LoadAIQueue_def)
  from ai_run_ok [OF this, of calls] show ?thesis
    by (simp add: ai_ok_def active_for_def [abs_def] ai_active_def)
qed

text \<open>
  \<open>ClaimPending\<close> hands out the oldest pending items, at most \<open>limit\<close> of them, and an item
  that was handed out is not handed out again, in any later claim, until it has been completed,
  failed or pruned, whatever else is called in between.
\<close>

theorem ai_claimed_once:
  fixes before_calls calls limit i
  defines "q \<equiv> ai_run before_calls (LoadAIQueue [] [])"
  assumes c1: "ai_ClaimPending now werr limit q = (q1, Inr claimed)" and "i \<in> ai_IncidentID ` set claimed"
    and "\<forall>call \<in> set calls. leaves_alone i (fst call)"
    and c2: "ai_ClaimPending now' werr' limit' (ai_run calls q1) = (q2, Inr claimed')"
  shows "map ai_IncidentID claimed = map ai_IncidentID (take (nat (if limit \<le> 0 then 10 else limit))
      (filter (\<lambda>x. ai_Status x = ''pending'') (aq_queue q))) \<and>
    i \<notin> ai_IncidentID ` set claimed'"
proof
  have "ai_ok q" unfolding q_def by (rule ai_run_ok) (simp add: ai_ok_def LoadAIQueue_def)
  with ai_exec_ok [of q "(AiClaim limit, now, werr, None)"] have ok: "ai_ok q1" by (simp add: ai_exec_def c1)
  from ai_claim_shape [OF c1] have claimed: "claimed = map (to_processing now)
      (take (nat (page_limit 10 limit)) (filter ai_pending (aq_queue q)))"
    and moved: "\<forall>x \<in> set (take (nat (page_limit 10 limit)) (filter ai_pending (aq_queue q))).
       to_processing now x \<in> set (aq_queue q1)" by blast+
  have proj: "ai_IncidentID (to_processing now x) = ai_IncidentID x"
    "ai_Status (to_processing now x) = ''processing''" for x
    by (simp_all add: to_processing_def)
  then show "map ai_IncidentID claimed = map ai_IncidentID (take (nat (if limit \<le> 0 then 10 else limit))
      (filter (\<lambda>x. ai_Status x = ''pending'') (aq_queue q)))"
    by (simp add: claimed page_limit_def ai_pending_def [abs_def] o_def)
  from assms(3) claimed moved proj have "held i q1" unfolding held_def by force
  then have "held i (ai_run calls q1)" using assms(4) by (rule held_run)
  with held_not_claimed [OF ai_run_ok [OF ok] _ c2] show "i \<notin> ai_IncidentID ` set claimed'" by blast
qed

theorem ai_claimed_once_witness:
  "let q = ai_run [(AiEnqueue ''i'' ''v1'', 1, None, None), (AiEnqueue ''j'' ''v1'', 2, None, None)]
             (LoadAIQueue [] []);
       (q1, r1) = ai_ClaimPending 3 None 1 q;
       (q2, r2) = ai_ClaimPending 5 None 10 (ai_run [(AiEnqueue ''i'' ''v1'', 4, None, None)] q1)
   in map_sum id (map ai_IncidentID) r1 = Inr [''i''] \<and> map_sum id (map ai_IncidentID) r2 = Inr [''j'']"
proof -
  let ?calls = "[(AiEnqueue ''i'' ''v1'', 1, None, None), (AiEnqueue ''j'' ''v1'', 2, None, None)]"
  let ?again = "[(AiEnqueue ''i'' ''v1'', 4, None, None)]"
  let ?q = "ai_run ?calls (LoadAIQueue [] [])"
  obtain q1 r1 where c1: "ai_ClaimPending 3 None 1 ?q = (q1, r1)" by fastforce
  then have q1: "q1 = fst (ai_ClaimPending 3 None 1 ?q)" and r1: "r1 = snd (ai_ClaimPending 3 None 1 ?q)"
    by simp_all
  obtain q2 r2 where c2: "ai_ClaimPending 5 None 10 (ai_run ?again q1) = (q2, r2)" by fastforce
  note unfold = ai_run_def ai_exec_def ai_Enqueue_def ai_ClaimPending_def LoadAIQueue_def active_for_def
    ai_active_def page_limit_def jsonl_append_def Let_def
  from r1 have v1: "map_sum id (map ai_IncidentID) r1 = Inr [''i'']" by (simp add: unfold)
  then obtain cl where cl: "r1 = Inr cl" "map ai_IncidentID cl = [''i'']" by (cases r1) auto
  have "map_sum id (map ai_IncidentID) (snd (ai_ClaimPending 5 None 10 (ai_run ?again q1))) = Inr [''j'']"
    unfolding q1 by (simp add: unfold)
  then have v2: "map_sum id (map ai_IncidentID) r2 = Inr [''j'']" by (simp add: c2)
  then obtain cl' where cl': "r2 = Inr cl'" by (cases r2) auto
  have "''i'' \<in> ai_IncidentID ` set cl" using cl(2) by (metis list.set_intros(1) list.set_map)
  from ai_claimed_once [OF c1 [unfolded cl(1)] this _ c2 [unfolded cl']]
  have "''i'' \<notin> ai_IncidentID ` set cl'" by (simp add: leaves_alone_def)
  with v1 v2 c1 c2 show ?thesis by simp
qed

text \<open>
  a claim whose write fails strands its items. The caller gets an error and no item, but in
  memory the items are being processed; no later claim returns them and no \<open>Enqueue\<close> of the
  incident adds a new one, until someone completes or fails an analysis that nobody was given, or
  the item is pruned.
\<close>

theorem ai_failed_claim_strands:
  fixes before_calls calls limit
  defines "q \<equiv> ai_run before_calls (LoadAIQueue [] [])"
  assumes c1: "ai_ClaimPending now (Some e) limit q = (q1, out)"
    and "x \<in> set (take (nat (if limit \<le> 0 then 10 else limit)) (filter (\<lambda>x. ai_Status x = ''pending'') (aq_queue q)))"
    and "\<forall>call \<in> set calls. leaves_alone (ai_IncidentID x) (fst call)"
  shows "out = Inl (''persist claimed items: '' @ e) \<and>
    (\<forall>now' werr' limit' q2 claimed'. ai_ClaimPending now' werr' limit' (ai_run calls q1) = (q2, Inr claimed') \<longrightarrow>
       ai_IncidentID x \<notin> ai_IncidentID ` set claimed') \<and>
    (\<forall>now' werr' v. ai_Enqueue now' werr' (ai_IncidentID x) v (ai_run calls q1) = (ai_run calls q1, None))"
proof -
  have "ai_ok q" unfolding q_def by (rule ai_run_ok) (simp add: ai_ok_def LoadAIQueue_def)
  with ai_exec_ok [of q "(AiClaim limit, now, Some e, None)"] have ok: "ai_ok q1" by (simp add: ai_exec_def c1)
  have x: "x \<in> set (take (nat (page_limit 10 limit)) (filter ai_pending (aq_queue q)))"
    using assms(3) by (simp add: page_limit_def ai_pending_def [abs_def])
  with ai_claim_shape [OF c1] have "to_processing now x \<in> set (aq_queue q1)" by blast
  then have "held (ai_IncidentID x) q1"
    unfolding held_def by (rule bexI [rotated]) (simp add: to_processing_def)
  then have held: "held (ai_IncidentID x) (ai_run calls q1)" using assms(4) by (rule held_run)
  obtain queue claimed where loop: "claim_loop (page_limit 10 limit) now [] (aq_queue q) = (queue, claimed)"
    by fastforce
  have "int (length ([] :: AIQueueItem list)) < page_limit 10 limit" by (simp add: page_limit_def)
  from claim_loop_spec [OF this loop] x have "claimed \<noteq> []" by auto
  then have out: "out = Inl (''persist claimed items: '' @ e)"
    using c1 by (simp add: ai_ClaimPending_def loop Let_def)
  from held have "find (active_for (ai_IncidentID x)) (aq_queue (ai_run calls q1)) \<noteq> None"
    by (auto simp: held_def find_None_iff active_for_def ai_active_def)
  then have "ai_Enqueue now' werr' (ai_IncidentID x) v (ai_run calls q1) = (ai_run calls q1, None)" for now' werr' v
    by (simp add: ai_Enqueue_def)
  with out held_not_claimed [OF ai_run_ok [OF ok] held] show ?thesis by blast
qed

theorem ai_failed_claim_strands_witness:
  "let q = ai_run [(AiEnqueue ''i'' ''v1'', 1, None, None)] (LoadAIQueue [] []);
       q1 = fst (ai_ClaimPending 3 (Some ''disk full'') 1 q)
   in ai_Enqueue 4 None ''i'' ''v1'' q1 = (q1, None) \<and> ai_ListPendingItems 0 q1 = []"
proof -
  let ?calls = "[(AiEnqueue ''i'' ''v1'', 1, None, None)]"
  let ?q = "ai_run ?calls (LoadAIQueue [] [])"
  let ?x = "\<lparr>ai_IncidentID = ''i'', ai_PromptVersion = ''v1'', ai_Status = ''pending'', ai_CreatedAt = 1,
    ai_ClaimedAt = None, ai_CompletedAt = None, ai_LastError = []\<rparr>"
  have q: "aq_queue ?q = [?x]"
    by (simp add: ai_run_def ai_exec_def ai_Enqueue_def LoadAIQueue_def Let_def)
  obtain q1 out where c1: "ai_ClaimPending 3 (Some ''disk full'') 1 ?q = (q1, out)" by fastforce
  have "ai_Enqueue 4 None ''i'' ''v1'' q1 = (q1, None)"
  proof -
    have "?x \<in> set (take (nat (if (1::int) \<le> 0 then 10 else 1)) (filter (\<lambda>x. ai_Status x = ''pending'') (aq_queue ?q)))"
      by (simp add: q)
    from ai_failed_claim_strands [OF c1 this, of "[]"] show ?thesis by (simp add: ai_run_def)
  qed
  moreover have "ai_ListPendingItems 0 q1 = []"
    using c1 q by (auto simp: ai_ClaimPending_def ai_ListPendingItems_def page_limit_def ai_pending_def Let_def)
  ultimately show ?thesis by (simp add: c1)
qed

end
