(* ===== verification/RateLimit.thy ===== *)
theory RateLimit
  imports Prelude
begin

text \<open>
  The per-client rate limiter of the HTTP server (\<open>internal/httpx/ratelimit.go\<close>): a counter per
  address that is refilled when its window is over, the clean-up of stale counters, and the rule
  for which requests are counted at all. The lemmas group the requests that were let through into
  windows, and bound them in any period.
\<close>

section \<open>The limiter\<close>

record visitor =
  vis_tokens :: int
  vis_lastReset :: gotime

record rateLimiter =
  rl_visitors :: "string \<rightharpoonup> visitor"
  rl_rate :: int
  rl_window :: duration

definition newRateLimiter :: "int \<Rightarrow> duration \<Rightarrow> rateLimiter" where
  "newRateLimiter rate window = \<lparr>rl_visitors = Map.empty, rl_rate = rate, rl_window = window\<rparr>"

definition allow :: "gotime \<Rightarrow> string \<Rightarrow> rateLimiter \<Rightarrow> rateLimiter \<times> bool" where
  "allow now ip rl =
     (let fresh = (rl\<lparr>rl_visitors := (rl_visitors rl)(ip \<mapsto>
                        \<lparr>vis_tokens = rl_rate rl - 1, vis_lastReset = now\<rparr>)\<rparr>, True)
      in case rl_visitors rl ip of
           None \<Rightarrow> fresh
         | Some v \<Rightarrow>
             if time_sub now (vis_lastReset v) \<ge> rl_window rl then fresh
             else if vis_tokens v > 0 then
               (rl\<lparr>rl_visitors := (rl_visitors rl)(ip \<mapsto> v\<lparr>vis_tokens := vis_tokens v - 1\<rparr>)\<rparr>, True)
             else (rl, False))"

text \<open>One round of the clean-up loop.\<close>

definition cleanup :: "gotime \<Rightarrow> rateLimiter \<Rightarrow> rateLimiter" where
  "cleanup now rl = rl\<lparr>rl_visitors := (\<lambda>ip.
     case rl_visitors rl ip of
       None \<Rightarrow> None
     | Some v \<Rightarrow> if time_sub now (vis_lastReset v) > wrap64 (2 * rl_window rl) then None else Some v)\<rparr>"

definition isRateLimitExempt :: "string \<Rightarrow> bool" where
  "isRateLimitExempt path =
     (if path = ''/healthz'' \<or> path = ''/readyz'' \<or> path = ''/'' \<or> path = ''/favicon.ico'' then True
      else if has_prefix path ''/assets/'' then True
      else if path = ''/api/v1/events'' \<or> path = ''/api/v1/mysql/live'' then True
      else if has_prefix path ''/api/v1/servers/'' \<and> has_suffix path ''/live'' then True
      else \<not> has_prefix path ''/api/'')"

text \<open>
  \<open>extractIP\<close>: the headers and the remote address of a request; splitting host and port is a call
  of the \<open>net\<close> package and stands as an argument (\<open>None\<close> for its error).
\<close>

definition extractIP :: "(string \<Rightarrow> string option) \<Rightarrow> string \<Rightarrow> string \<Rightarrow> string \<Rightarrow> string" where
  "extractIP splitHost xRealIP xff remoteAddr =
     (if xRealIP \<noteq> [] then xRealIP
      else if xff \<noteq> [] then takeWhile (\<lambda>c. c \<noteq> CHR '','') xff
      else case splitHost remoteAddr of None \<Rightarrow> remoteAddr | Some ip \<Rightarrow> ip)"

text \<open>The two middlewares: whether a request is counted, and whether it reaches the handler.\<close>

definition RateLimit :: "gotime \<Rightarrow> string \<Rightarrow> string \<Rightarrow> rateLimiter \<Rightarrow> rateLimiter \<times> bool" where
  "RateLimit now path ip rl = (if isRateLimitExempt path then (rl, True) else allow now ip rl)"

definition LoginRateLimit ::
  "gotime \<Rightarrow> string \<Rightarrow> string \<Rightarrow> string \<Rightarrow> rateLimiter \<Rightarrow> rateLimiter \<times> bool" where
  "LoginRateLimit now meth path ip rl =
     (if path \<noteq> ''/api/v1/auth/login'' \<or> meth \<noteq> ''POST'' then (rl, True) else allow now ip rl)"

section \<open>Histories\<close>

datatype rl_event = Request string | Cleanup

definition rl_step :: "rateLimiter \<times> (string \<times> gotime) list \<Rightarrow> gotime \<times> rl_event \<Rightarrow>
    rateLimiter \<times> (string \<times> gotime) list" where
  "rl_step acc ev =
     (let (rl, passed) = acc; (now, e) = ev in
      case e of
        Request ip \<Rightarrow> (let (rl, ok) = allow now ip rl in (rl, if ok then passed @ [(ip, now)] else passed))
      | Cleanup \<Rightarrow> (cleanup now rl, passed))"

text \<open>The limiter after a list of timed events, and the requests that were let through.\<close>

definition rl_run :: "(gotime \<times> rl_event) list \<Rightarrow> rateLimiter \<Rightarrow> rateLimiter \<times> (string \<times> gotime) list" where
  "rl_run evs rl = foldl rl_step (rl, []) evs"

definition passed_times :: "string \<Rightarrow> (string \<times> gotime) list \<Rightarrow> gotime list" where
  "passed_times ip passed = map snd (filter (\<lambda>(i, _). i = ip) passed)"

section \<open>Windows\<close>

text \<open>
  The requests of one address that were let through, in blocks: a block starts at a refill and holds
  at most \<open>R\<close> requests, all within one window of its start, and the next block starts when the
  window is over.
\<close>

type_synonym block = "gotime \<times> gotime list"

definition blocks_ok :: "int \<Rightarrow> duration \<Rightarrow> block list \<Rightarrow> bool" where
  "blocks_ok R W bs \<longleftrightarrow>
     (\<forall>(r, ts) \<in> set bs. int (length ts) \<le> R \<and> (\<forall>t \<in> set ts. r \<le> t \<and> t < r + W)) \<and>
     sorted_wrt (\<lambda>(r, _) (r', _). r + W \<le> r') bs"

lemma blocks_ok_snoc:
  "blocks_ok R W (bs @ [(r, ts)]) \<longleftrightarrow>
     blocks_ok R W bs \<and> int (length ts) \<le> R \<and> (\<forall>t \<in> set ts. r \<le> t \<and> t < r + W) \<and>
     (\<forall>(r', _) \<in> set bs. r' + W \<le> r)"
  by (auto simp: blocks_ok_def sorted_wrt_append)

text \<open>An interval of one window meets at most two blocks.\<close>

definition hits :: "gotime \<Rightarrow> duration \<Rightarrow> block \<Rightarrow> bool" where
  "hits t W b \<longleftrightarrow> (\<exists>x \<in> set (snd b). t \<le> x \<and> x < t + W)"

lemma at_most_two_blocks:
  assumes "blocks_ok R W bs"
  shows "length (filter (hits t W) bs) \<le> 2"
proof (rule ccontr)
  let ?H = "filter (hits t W) bs"
  assume "\<not> length ?H \<le> 2"
  then have len: "3 \<le> length ?H" by simp
  have sorted: "sorted_wrt (\<lambda>(r, _) (r', _). r + W \<le> r') ?H"
    using assms by (simp add: blocks_ok_def sorted_wrt_filter)
  obtain r1 t1 r2 t2 r3 t3 where H: "?H ! 0 = (r1, t1)" "?H ! 1 = (r2, t2)" "?H ! 2 = (r3, t3)"
    by (metis surj_pair)
  have "r1 + W \<le> r2" "r2 + W \<le> r3"
    using sorted_wrt_nth_less [OF sorted, of 0 1] sorted_wrt_nth_less [OF sorted, of 1 2] len H by auto
  moreover have "?H ! 0 \<in> set ?H" "?H ! 2 \<in> set ?H" using len by (intro nth_mem; linarith)+
  with H have "(r1, t1) \<in> set bs" "hits t W (r1, t1)" "(r3, t3) \<in> set bs" "hits t W (r3, t3)" by auto
  then obtain x z where "t \<le> x" "x < r1 + W" "r3 \<le> z" "z < t + W"
    using assms by (fastforce simp: hits_def blocks_ok_def)
  ultimately show False by linarith
qed

lemma count_blocks:
  assumes "\<forall>(r, ts) \<in> set bs. int (length ts) \<le> R"
  shows "int (length (filter (\<lambda>x. t \<le> x \<and> x < t + W) (concat (map snd bs)))) \<le>
    R * int (length (filter (hits t W) bs))"
  using assms
proof (induction bs)
  case (Cons b bs)
  let ?P = "\<lambda>x. t \<le> x \<and> x < t + W"
  have "filter ?P (snd b) = [] \<or> hits t W b" by (auto simp: hits_def filter_empty_conv)
  moreover have "int (length (filter ?P (snd b))) \<le> R"
    using Cons.prems length_filter_le [of ?P "snd b"] by (cases b) (auto simp del: length_filter_le)
  ultimately show ?case using Cons by (auto simp: algebra_simps)
qed simp

lemma interval_bound:
  assumes "blocks_ok R W bs" and "0 \<le> R"
  shows "int (length (filter (\<lambda>x. t \<le> x \<and> x < t + W) (concat (map snd bs)))) \<le> 2 * R"
proof -
  have "\<forall>(r, ts) \<in> set bs. int (length ts) \<le> R" using assms(1) by (auto simp: blocks_ok_def)
  from count_blocks [OF this, of t W]
  have "int (length (filter (\<lambda>x. t \<le> x \<and> x < t + W) (concat (map snd bs)))) \<le>
      R * int (length (filter (hits t W) bs))" .
  also have "\<dots> \<le> R * 2" using at_most_two_blocks [OF assms(1), of t] assms(2)
    by (intro mult_left_mono) simp_all
  finally show ?thesis by simp
qed

section \<open>The limiter fills its blocks\<close>

text \<open>
  The invariant for one address: its counter belongs to the last block, or it has no counter and
  every window is over.
\<close>

definition rl_inv :: "int \<Rightarrow> duration \<Rightarrow> gotime \<Rightarrow> visitor option \<Rightarrow> gotime list \<Rightarrow> bool" where
  "rl_inv rate W now v tms \<longleftrightarrow>
     (\<exists>bs. tms = concat (map snd bs) \<and> blocks_ok (max 1 rate) W bs \<and>
        (\<forall>(r, _) \<in> set bs. r \<le> now) \<and>
        (case v of
           None \<Rightarrow> \<forall>(r, _) \<in> set bs. r + W \<le> now
         | Some v \<Rightarrow> \<exists>bs' ts. bs = bs' @ [(vis_lastReset v, ts)] \<and>
             (vis_tokens v > 0 \<longrightarrow> int (length ts) = rate - vis_tokens v)))"

lemma rl_inv_start: "rl_inv rate W now None []"
  by (auto simp: rl_inv_def blocks_ok_def intro!: exI [of _ "[]"])

lemma rl_inv_later: "rl_inv rate W now v tms \<Longrightarrow> now \<le> now' \<Longrightarrow> rl_inv rate W now' v tms"
proof -
  assume inv: "rl_inv rate W now v tms" and now: "now \<le> now'"
  have r: "\<forall>(r, _) \<in> set bs. r + k \<le> now \<Longrightarrow> \<forall>(r, _) \<in> set bs. r + k \<le> now'" for bs :: "block list" and k
    using now by fastforce
  from inv show ?thesis unfolding rl_inv_def
    by (elim ex_forward conj_forward) (use r [of _ 0] r [of _ W] in \<open>auto split: option.splits\<close>)
qed

text \<open>A refill starts a new block.\<close>

lemma rl_inv_fresh:
  assumes "0 < W" and inv: "rl_inv rate W now v tms"
    and over: "\<And>u. v = Some u \<Longrightarrow> vis_lastReset u + W \<le> now"
  shows "rl_inv rate W now (Some \<lparr>vis_tokens = rate - 1, vis_lastReset = now\<rparr>) (tms @ [now])"
proof -
  from inv obtain bs where tms: "tms = concat (map snd bs)" and ok: "blocks_ok (max 1 rate) W bs"
    and start: "\<forall>(r, _) \<in> set bs. r \<le> now"
    and v: "case v of None \<Rightarrow> \<forall>(r, _) \<in> set bs. r + W \<le> now
         | Some v \<Rightarrow> \<exists>bs' ts. bs = bs' @ [(vis_lastReset v, ts)] \<and>
             (vis_tokens v > 0 \<longrightarrow> int (length ts) = rate - vis_tokens v)"
    by (auto simp: rl_inv_def)
  have "\<forall>(r, _) \<in> set bs. r + W \<le> now"
  proof (cases v)
    case None
    with v show ?thesis by simp
  next
    case (Some u)
    with v obtain bs' ts where bs: "bs = bs' @ [(vis_lastReset u, ts)]" by auto
    with ok have "\<forall>(r, _) \<in> set bs'. r + W \<le> vis_lastReset u" by (simp add: blocks_ok_snoc)
    with bs over [OF Some] assms(1) show ?thesis by fastforce
  qed
  with ok have "blocks_ok (max 1 rate) W (bs @ [(now, [now])])" using assms(1) by (simp add: blocks_ok_snoc)
  with start tms show ?thesis
    unfolding rl_inv_def by (intro exI [of _ "bs @ [(now, [now])]"]) auto
qed

text \<open>Within a window a token is taken and the block grows.\<close>

lemma rl_inv_token:
  assumes inv: "rl_inv rate W now (Some u) tms" and "0 < vis_tokens u" and "now < vis_lastReset u + W"
  shows "rl_inv rate W now (Some (u\<lparr>vis_tokens := vis_tokens u - 1\<rparr>)) (tms @ [now])"
proof -
  from inv assms(2) obtain bs ts where tms: "tms = concat (map snd (bs @ [(vis_lastReset u, ts)]))"
    and ok: "blocks_ok (max 1 rate) W (bs @ [(vis_lastReset u, ts)])"
    and start: "\<forall>(r, _) \<in> set (bs @ [(vis_lastReset u, ts)]). r \<le> now"
    and len: "int (length ts) = rate - vis_tokens u"
    by (auto simp: rl_inv_def)
  from ok len start assms(2,3) have "blocks_ok (max 1 rate) W (bs @ [(vis_lastReset u, ts @ [now])])"
    by (auto simp: blocks_ok_snoc)
  with tms start len show ?thesis
    unfolding rl_inv_def
    by (intro exI [of _ "bs @ [(vis_lastReset u, ts @ [now])]"]) auto
qed

lemma rl_inv_drop:
  assumes inv: "rl_inv rate W now (Some u) tms" and "vis_lastReset u + W \<le> now" and "0 < W"
  shows "rl_inv rate W now None tms"
proof -
  from inv obtain bs bs' ts where bs: "bs = bs' @ [(vis_lastReset u, ts)]"
    and rest: "tms = concat (map snd bs)" "blocks_ok (max 1 rate) W bs" "\<forall>(r, _) \<in> set bs. r \<le> now"
    by (auto simp: rl_inv_def)
  then have "\<forall>(r, _) \<in> set bs'. r + W \<le> vis_lastReset u" by (simp add: blocks_ok_snoc)
  with bs assms(2,3) have "\<forall>(r, _) \<in> set bs. r + W \<le> now" by fastforce
  with rest show ?thesis by (auto simp: rl_inv_def)
qed

lemma time_sub_greater: "- 9223372036854775808 \<le> d \<Longrightarrow> d < time_sub t u \<Longrightarrow> d < t - u"
  by (auto simp: time_sub_def)

lemma allow_inv:
  assumes W: "0 < W" "W \<le> 9223372036854775807" "rl_window rl = W" "rl_rate rl = rate"
    and inv: "rl_inv rate W now (rl_visitors rl j) tms"
  shows "rl_inv rate W now (rl_visitors (fst (allow now ip rl)) j)
    (if ip = j \<and> snd (allow now ip rl) then tms @ [now] else tms)"
proof (cases "ip = j")
  case False
  then show ?thesis using inv by (auto simp: allow_def Let_def split: option.splits)
next
  case True
  have ge: "W \<le> time_sub now u \<longleftrightarrow> u + W \<le> now" for u using W(1,2) by (subst time_sub_ge_iff) auto
  show ?thesis
  proof (cases "rl_visitors rl j")
    case None
    with True inv W show ?thesis by (auto simp: allow_def Let_def intro!: rl_inv_fresh)
  next
    case (Some v)
    consider (over) "vis_lastReset v + W \<le> now" | (token) "now < vis_lastReset v + W" "0 < vis_tokens v"
      | (refused) "now < vis_lastReset v + W" "vis_tokens v \<le> 0" by linarith
    then show ?thesis
    proof cases
      case over
      with Some inv W(1) have "rl_inv rate W now (Some \<lparr>vis_tokens = rate - 1, vis_lastReset = now\<rparr>) (tms @ [now])"
        by (intro rl_inv_fresh) auto
      with True Some over W ge show ?thesis by (simp add: allow_def Let_def)
    next
      case token
      with Some inv have "rl_inv rate W now (Some (v\<lparr>vis_tokens := vis_tokens v - 1\<rparr>)) (tms @ [now])"
        by (intro rl_inv_token) auto
      with True Some token W ge show ?thesis by (simp add: allow_def Let_def)
    next
      case refused
      with True Some W ge inv show ?thesis by (simp add: allow_def Let_def)
    qed
  qed
qed

lemma cleanup_inv:
  assumes W: "0 < W" "2 * W \<le> 9223372036854775807" "rl_window rl = W"
    and inv: "rl_inv rate W now (rl_visitors rl j) tms"
  shows "rl_inv rate W now (rl_visitors (cleanup now rl) j) tms"
proof (cases "rl_visitors rl j")
  case None
  with inv show ?thesis by (simp add: cleanup_def)
next
  case (Some v)
  have "wrap64 (2 * W) = 2 * W" using W by (intro wrap64_id) auto
  moreover have "2 * W < time_sub now (vis_lastReset v) \<Longrightarrow> vis_lastReset v + W \<le> now"
    using time_sub_greater [of "2 * W" now "vis_lastReset v"] W(1) by linarith
  ultimately show ?thesis using Some inv W rl_inv_drop [of rate W now v tms]
    by (auto simp: cleanup_def)
qed

lemma allow_config [simp]:
  "rl_window (fst (allow now ip rl)) = rl_window rl" "rl_rate (fst (allow now ip rl)) = rl_rate rl"
  "rl_window (cleanup now rl) = rl_window rl" "rl_rate (cleanup now rl) = rl_rate rl"
  by (auto simp: allow_def cleanup_def Let_def split: option.splits)

lemma passed_times_snoc: "passed_times j (p @ [(ip, t)]) = passed_times j p @ (if ip = j then [t] else [])"
  by (simp add: passed_times_def)

lemma rl_run_snoc: "rl_run (evs @ [(now, e)]) rl =
   (case e of
      Request ip \<Rightarrow> (fst (allow now ip (fst (rl_run evs rl))),
                   if snd (allow now ip (fst (rl_run evs rl))) then snd (rl_run evs rl) @ [(ip, now)]
                   else snd (rl_run evs rl))
    | Cleanup \<Rightarrow> (cleanup now (fst (rl_run evs rl)), snd (rl_run evs rl)))"
  by (simp add: rl_run_def rl_step_def case_prod_unfold Let_def split: rl_event.splits)

lemma rl_run_inv:
  assumes W: "0 < W" "2 * W \<le> 9223372036854775807"
    and "sorted (map fst evs)" and "\<forall>t \<in> fst ` set evs. t \<le> now"
  shows "rl_inv rate W now (rl_visitors (fst (rl_run evs (newRateLimiter rate W))) j)
           (passed_times j (snd (rl_run evs (newRateLimiter rate W)))) \<and>
         rl_window (fst (rl_run evs (newRateLimiter rate W))) = W \<and>
         rl_rate (fst (rl_run evs (newRateLimiter rate W))) = rate"
  using assms(3,4)
proof (induction evs arbitrary: now rule: rev_induct)
  case Nil
  show ?case by (simp add: rl_run_def newRateLimiter_def passed_times_def rl_inv_start)
next
  case (snoc ev evs)
  obtain t e where ev: "ev = (t, e)" by (cases ev)
  have "sorted (map fst evs)" and before: "\<forall>s \<in> fst ` set evs. s \<le> t" and "t \<le> now"
    using snoc.prems ev by (auto simp: sorted_append)
  then have IH: "rl_inv rate W t (rl_visitors (fst (rl_run evs (newRateLimiter rate W))) j)
        (passed_times j (snd (rl_run evs (newRateLimiter rate W))))"
      "rl_window (fst (rl_run evs (newRateLimiter rate W))) = W"
      "rl_rate (fst (rl_run evs (newRateLimiter rate W))) = rate"
    using snoc.IH by blast+
  have "rl_inv rate W t (rl_visitors (fst (rl_run (evs @ [ev]) (newRateLimiter rate W))) j)
        (passed_times j (snd (rl_run (evs @ [ev]) (newRateLimiter rate W))))"
  proof (cases e)
    case (Request ip)
    show ?thesis
      using allow_inv [OF W(1) _ IH(2,3) IH(1), of ip] W(2) W(1)
      by (cases "ip = j") (simp_all add: ev Request rl_run_snoc passed_times_snoc split: if_splits)
  next
    case Cleanup
    then show ?thesis using cleanup_inv [OF W IH(2) IH(1)] by (simp add: ev rl_run_snoc)
  qed
  moreover have "rl_window (fst (rl_run (evs @ [ev]) (newRateLimiter rate W))) = W"
    "rl_rate (fst (rl_run (evs @ [ev]) (newRateLimiter rate W))) = rate"
    using IH by (auto simp: ev rl_run_snoc split: rl_event.splits)
  ultimately show ?case using rl_inv_later \<open>t \<le> now\<close> by blast
qed

section \<open>What the limiter promises\<close>

text \<open>
  Let a limiter for \<open>rate\<close> requests in a window of length \<open>W\<close> see any history of requests and
  clean-ups, in the order of their times. Then, of the requests of one address in any interval of the
  length of the window, at most \<open>2 * max 1 rate\<close> are let through (the windows start at a request
  and not at fixed points, so twice the rate can pass, and a limiter for no requests still lets one
  through in each window), and the clean-up never makes room for more.
\<close>

theorem rate_limit_bounds_every_interval:
  assumes "0 < W" and "2 * W \<le> 9223372036854775807" and "sorted (map fst evs)"
  shows "int (length (filter (\<lambda>x. t \<le> x \<and> x < t + W)
    (passed_times ip (snd (rl_run evs (newRateLimiter rate W)))))) \<le> 2 * max 1 rate"
proof -
  let ?now = "Max (insert 0 (fst ` set evs))"
  have "rl_inv rate W ?now (rl_visitors (fst (rl_run evs (newRateLimiter rate W))) ip)
           (passed_times ip (snd (rl_run evs (newRateLimiter rate W))))"
    using rl_run_inv [OF assms, of ?now rate ip] by simp
  then obtain bs where "passed_times ip (snd (rl_run evs (newRateLimiter rate W))) = concat (map snd bs)"
    and "blocks_ok (max 1 rate) W bs"
    by (auto simp: rl_inv_def)
  then show ?thesis using interval_bound [of "max 1 rate" W bs t] by simp
qed

text \<open>The bound is reached: two requests in a window of 60 for a rate of one, at 0 and at 60.\<close>

theorem rate_limit_bounds_every_interval_witness:
  "int (length (filter (\<lambda>x. 1 \<le> x \<and> x < 1 + 60) (passed_times ''a''
     (snd (rl_run [(0, Request ''a''), (60, Request ''a''), (61, Cleanup)] (newRateLimiter 0 60)))))) \<le> 2"
  using rate_limit_bounds_every_interval
    [of 60 "[(0, Request ''a''), (60, Request ''a''), (61, Cleanup)]" 1 "''a''" 0]
  by simp

end
