(* ===== verification/Calendar.thy ===== *)
theory Calendar
  imports Prelude
begin

text \<open>
  The calendar of Go's \<open>time\<close> package, as far as the program uses it: \<open>Date\<close> with its
  normalisation, the accessors of a point in time and \<open>AddDate\<close>, in a location with a fixed
  offset from UTC. The lemmas say that the civil date of a day and its number are inverse to each
  other.
\<close>

section \<open>Day numbers\<close>

definition day_ns :: duration where "day_ns = 86400000000000"

definition is_leap :: "int \<Rightarrow> bool" where
  "is_leap y \<longleftrightarrow> y mod 4 = 0 \<and> (y mod 100 \<noteq> 0 \<or> y mod 400 = 0)"

text \<open>Days from 1 January of year 1 to 1 January of year \<open>y\<close>.\<close>

definition days_before_year :: "int \<Rightarrow> int" where
  "days_before_year y = 365 * (y - 1) + (y - 1) div 4 - (y - 1) div 100 + (y - 1) div 400"

definition month_lengths :: "bool \<Rightarrow> int list" where
  "month_lengths leap = [31, if leap then 29 else 28, 31, 30, 31, 30, 31, 31, 30, 31, 30, 31]"

text \<open>The number of the day before the first of month \<open>m\<close> (from 0) of a year.\<close>

definition days_before_month :: "int \<Rightarrow> nat \<Rightarrow> int" where
  "days_before_month y m = days_before_year y + sum_list (take m (month_lengths (is_leap y)))"

text \<open>
  The year of a day and the day of the year, from 0: whole cycles of 400, 100, 4 and 1 years are
  cut off, and the last cycle of 100 years or of one year may be a day longer.
\<close>

definition year_day :: "int \<Rightarrow> int \<times> int" where
  "year_day n =
     (let a = n div 146097; d = n mod 146097;
          b0 = d div 36524; b = b0 - b0 div 4; d = d - 36524 * b;
          c = d div 1461; d = d - 1461 * c;
          e0 = d div 365; e = e0 - e0 div 4; d = d - 365 * e
      in (400 * a + 100 * b + 4 * c + e + 1, d))"

fun month_scan :: "int list \<Rightarrow> nat \<Rightarrow> int \<Rightarrow> nat \<times> int" where
  "month_scan [] m d = (m, d)"
| "month_scan (l # ls) m d = (if d < l then (m, d) else month_scan ls (m + 1) (d - l))"

text \<open>Year, month (from 1) and day of the month (from 1) of a day.\<close>

definition civil :: "int \<Rightarrow> int \<times> int \<times> int" where
  "civil n = (let (y, yday) = year_day n; (m, d) = month_scan (month_lengths (is_leap y)) 0 yday
              in (y, int m + 1, d + 1))"

definition day_number :: "int \<Rightarrow> int \<Rightarrow> int \<Rightarrow> int" where
  "day_number y m d = days_before_month (y + (m - 1) div 12) (nat ((m - 1) mod 12)) + d - 1"

section \<open>The operations of the time package\<close>

text \<open>\<open>time.Date\<close>: months, days and the parts of the day out of range carry over.\<close>

definition date_time :: "int \<Rightarrow> int \<Rightarrow> int \<Rightarrow> int \<Rightarrow> int \<Rightarrow> int \<Rightarrow> int \<Rightarrow> duration \<Rightarrow> gotime" where
  "date_time y m d h mi s ns loc =
     day_number y m d * day_ns + h * hour + mi * minute + s * second + ns - loc"

definition local_day :: "duration \<Rightarrow> gotime \<Rightarrow> int" where
  "local_day loc t = (t + loc) div day_ns"

definition time_of_day :: "duration \<Rightarrow> gotime \<Rightarrow> duration" where
  "time_of_day loc t = (t + loc) mod day_ns"

definition t_year :: "duration \<Rightarrow> gotime \<Rightarrow> int" where
  "t_year loc t = fst (civil (local_day loc t))"

definition t_month :: "duration \<Rightarrow> gotime \<Rightarrow> int" where
  "t_month loc t = fst (snd (civil (local_day loc t)))"

definition t_day :: "duration \<Rightarrow> gotime \<Rightarrow> int" where
  "t_day loc t = snd (snd (civil (local_day loc t)))"

definition t_hour :: "duration \<Rightarrow> gotime \<Rightarrow> int" where
  "t_hour loc t = time_of_day loc t div hour"

definition t_minute :: "duration \<Rightarrow> gotime \<Rightarrow> int" where
  "t_minute loc t = time_of_day loc t mod hour div minute"

definition t_second :: "duration \<Rightarrow> gotime \<Rightarrow> int" where
  "t_second loc t = time_of_day loc t mod minute div second"

definition t_nanosecond :: "duration \<Rightarrow> gotime \<Rightarrow> int" where
  "t_nanosecond loc t = time_of_day loc t mod second"

text \<open>Sunday is 0; 1 January of year 1 is a Monday.\<close>

definition t_weekday :: "duration \<Rightarrow> gotime \<Rightarrow> int" where
  "t_weekday loc t = (local_day loc t + 1) mod 7"

definition add_date :: "gotime \<Rightarrow> duration \<Rightarrow> int \<Rightarrow> int \<Rightarrow> int \<Rightarrow> gotime" where
  "add_date t loc years months days =
     date_time (t_year loc t + years) (t_month loc t + months) (t_day loc t + days)
       (t_hour loc t) (t_minute loc t) (t_second loc t) (t_nanosecond loc t) loc"

section \<open>Civil dates and day numbers\<close>

lemma days_before_year_cycles:
  assumes "0 \<le> b" "b \<le> 3" "0 \<le> c" "c \<le> 24" "0 \<le> e" "e \<le> 3"
  shows "days_before_year (400 * a + 100 * b + 4 * c + e + 1) = 146097 * a + 36524 * b + 1461 * c + 365 * e"
proof -
  have "(400 * a + 100 * b + 4 * c + e) div 4 = 100 * a + 25 * b + c"
    using assms by (intro int_div_pos_eq [of _ _ _ e]) auto
  moreover have "(400 * a + 100 * b + 4 * c + e) div 100 = 4 * a + b"
    using assms by (intro int_div_pos_eq [of _ _ _ "4 * c + e"]) auto
  moreover have "(400 * a + 100 * b + 4 * c + e) div 400 = a"
    using assms by (intro int_div_pos_eq [of _ _ _ "100 * b + 4 * c + e"]) auto
  ultimately show ?thesis by (simp add: days_before_year_def)
qed

lemma is_leap_cycles:
  assumes "0 \<le> b" "b \<le> 3" "0 \<le> c" "c \<le> 24" "0 \<le> e" "e \<le> 3"
  shows "is_leap (400 * a + 100 * b + 4 * c + e + 1) \<longleftrightarrow> e = 3 \<and> (c \<noteq> 24 \<or> b = 3)"
proof (cases "e = 3")
  case False
  with assms have "(400 * a + 100 * b + 4 * c + e + 1) mod 4 = e + 1"
    by (intro int_mod_pos_eq [of _ _ "100 * a + 25 * b + c"]) auto
  with False assms show ?thesis by (simp add: is_leap_def)
next
  case True
  have "(400 * a + 100 * b + 4 * c + e + 1) mod 4 = 0"
    using True by (intro int_mod_pos_eq [of _ _ "100 * a + 25 * b + c + 1"]) auto
  moreover have "(400 * a + 100 * b + 4 * c + e + 1) mod 100 = (if c = 24 then 0 else 4 * c + 4)"
    using True assms by (intro int_mod_pos_eq [of _ _ "4 * a + b + of_bool (c = 24)"]) auto
  moreover have "(400 * a + 100 * b + 4 * c + e + 1) mod 400 =
      (if c = 24 \<and> b = 3 then 0 else 100 * b + 4 * c + 4)"
    using True assms by (intro int_mod_pos_eq [of _ _ "a + of_bool (c = 24 \<and> b = 3)"]) auto
  ultimately show ?thesis using True assms by (auto simp: is_leap_def)
qed

text \<open>Cutting four equal cycles, the last of which may be one longer.\<close>

lemma cut_cycle:
  fixes d k b :: int
  assumes "b = d div k - d div k div 4" and "0 < k" and "0 \<le> d" and d: "d < 4 * k + of_bool P"
  shows "0 \<le> b" "b \<le> 3" "0 \<le> d - k * b" "d - k * b < k + of_bool (b = 3 \<and> P)"
proof -
  define q r where "q = d div k" and "r = d mod k"
  have qr: "d = k * q + r" "0 \<le> r" "r < k" using assms(2) by (simp_all add: q_def r_def)
  have "0 \<le> q" using assms(2,3) by (simp add: q_def pos_imp_zdiv_nonneg_iff)
  have "q \<le> 4"
  proof (rule ccontr)
    assume "\<not> q \<le> 4"
    then have "k * 5 \<le> k * q" using assms(2) by (intro mult_left_mono) auto
    moreover have "d < 5 * k" using d assms(2) by (cases P) auto
    ultimately show False using qr by linarith
  qed
  then consider "q = 4" | "q \<le> 3" by linarith
  then have "b = min q 3 \<and> (q = 4 \<longrightarrow> r = 0 \<and> P)"
  proof cases
    case 1
    with d qr have "r = 0 \<and> P" by (cases P) auto
    with 1 assms(1) show ?thesis by (simp add: q_def [symmetric])
  next
    case 2
    with \<open>0 \<le> q\<close> have "q div 4 = 0" by simp
    with 2 assms(1) show ?thesis by (simp add: q_def [symmetric])
  qed
  moreover have "k * q - k * b = k * (q - b)" by (simp add: algebra_simps)
  ultimately show "0 \<le> b" "b \<le> 3" "0 \<le> d - k * b" "d - k * b < k + of_bool (b = 3 \<and> P)"
    using \<open>0 \<le> q\<close> \<open>q \<le> 4\<close> qr assms(2) by (auto simp: min_def split: if_splits)
qed

lemma sum_month_lengths: "sum_list (month_lengths leap) = (if leap then 366 else 365)"
  by (simp add: month_lengths_def)

lemma year_day:
  assumes "year_day n = (y, d)"
  shows "days_before_year y + d = n \<and> 0 \<le> d \<and> d < sum_list (month_lengths (is_leap y))"
proof -
  define a d1 where "a = n div 146097" and "d1 = n mod 146097"
  define b where "b = d1 div 36524 - d1 div 36524 div 4"
  define d2 where "d2 = d1 - 36524 * b"
  define c where "c = d2 div 1461"
  define d3 where "d3 = d2 - 1461 * c"
  define e where "e = d3 div 365 - d3 div 365 div 4"
  have yd: "y = 400 * a + 100 * b + 4 * c + e + 1" "d = d3 - 365 * e"
    using assms [unfolded year_day_def Let_def, folded a_def d1_def, folded b_def, folded d2_def,
      folded c_def, folded d3_def, folded e_def] by simp_all
  have n: "n = 146097 * a + d1" "0 \<le> d1" "d1 < 146097" by (simp_all add: a_def d1_def)
  have b: "0 \<le> b" "b \<le> 3" "0 \<le> d2" "d2 < 36524 + of_bool (b = 3 \<and> True)"
    using cut_cycle [OF b_def, of True] n(2,3) unfolding d2_def by simp_all
  have c: "0 \<le> c" "0 \<le> d3" "d3 < 1461" "c \<le> 24" "c = 24 \<Longrightarrow> d3 < 1460 + of_bool (b = 3)"
  proof -
    have d3: "d3 = d2 mod 1461" by (simp add: d3_def c_def minus_mult_div_eq_mod)
    have eq: "d2 = 1461 * c + d3" by (simp add: d3_def)
    show "0 \<le> d3" "d3 < 1461" by (simp_all add: d3)
    show "0 \<le> c" using b(3) by (simp add: c_def)
    show "c \<le> 24" using eq b(4) \<open>0 \<le> d3\<close> by (cases "b = 3") auto
    show "d3 < 1460 + of_bool (b = 3)" if "c = 24" using eq b(4) that by (cases "b = 3") auto
  qed
  then have "d3 < 4 * 365 + of_bool (c \<noteq> 24 \<or> b = 3)" by (auto split: if_splits)
  then have e: "0 \<le> e" "e \<le> 3" "0 \<le> d" "d < 365 + of_bool (e = 3 \<and> (c \<noteq> 24 \<or> b = 3))"
    using cut_cycle [OF e_def, of "c \<noteq> 24 \<or> b = 3"] c(2) unfolding yd(2) by simp_all
  have "days_before_year y + d = n"
    using days_before_year_cycles [OF b(1,2) c(1,4) e(1,2), of a] n(1)
    unfolding yd(1) [symmetric] yd(2) d3_def d2_def by linarith
  moreover have "d < 365 + of_bool (is_leap y)"
    using e(4) unfolding yd(1) is_leap_cycles [OF b(1,2) c(1,4) e(1,2)] .
  ultimately show ?thesis using e(3) by (cases "is_leap y") (simp_all add: sum_month_lengths)
qed

lemma month_scan:
  assumes "month_scan ls m d = (m', d')" and "0 \<le> d" and "d < sum_list ls"
  shows "m \<le> m' \<and> m' < m + length ls \<and> d = sum_list (take (m' - m) ls) + d' \<and> 0 \<le> d' \<and> d' < ls ! (m' - m)"
  using assms
proof (induction ls m d rule: month_scan.induct)
  case (1 m d)
  then show ?case by simp
next
  case (2 l ls m d)
  show ?case
  proof (cases "d < l")
    case True
    with 2 show ?thesis by simp
  next
    case False
    with 2 have IH: "m + 1 \<le> m' \<and> m' < m + 1 + length ls \<and>
        d - l = sum_list (take (m' - (m + 1)) ls) + d' \<and> 0 \<le> d' \<and> d' < ls ! (m' - (m + 1))"
      by simp
    then obtain k where "m' = m + 1 + k" using le_Suc_ex by blast
    with IH show ?thesis by simp
  qed
qed

lemma length_month_lengths [simp]: "length (month_lengths leap) = 12"
  by (simp add: month_lengths_def)

text \<open>The number of the civil date of a day is the day, and the date is in range.\<close>

lemma civil:
  assumes "civil n = (y, m, d)"
  shows "day_number y m d = n \<and> 1 \<le> m \<and> m \<le> 12 \<and> 1 \<le> d \<and> d \<le> month_lengths (is_leap y) ! nat (m - 1)"
proof -
  obtain yd where yd: "year_day n = (y, yd)" and
    md: "month_scan (month_lengths (is_leap y)) 0 yd = (nat (m - 1), d - 1)" and "1 \<le> m"
    using assms by (auto simp: civil_def Let_def split: prod.splits)
  from month_scan [OF md] year_day [OF yd] \<open>1 \<le> m\<close> show ?thesis
    by (auto simp: day_number_def days_before_month_def)
qed

corollary day_number_civil:
  "day_number (fst (civil n)) (fst (snd (civil n))) (snd (snd (civil n)) + k) = n + k"
proof -
  have "day_number (fst (civil n)) (fst (snd (civil n))) (snd (snd (civil n))) = n"
    using civil [of n "fst (civil n)"] by simp
  then show ?thesis by (simp add: day_number_def)
qed

lemma recombine:
  "(tod div hour) * hour + (tod mod hour div minute) * minute + (tod mod minute div second) * second + tod mod second = tod"
proof -
  have "tod mod hour mod minute = tod mod minute" "tod mod minute mod second = tod mod second"
    by (simp_all add: go_time mod_mod_cancel)
  then show ?thesis by (metis div_mult_mod_eq add.assoc)
qed

text \<open>A point in time is the number of its day and its time of day.\<close>

lemma date_time_parts:
  "date_time y m d (t_hour loc t) (t_minute loc t) (t_second loc t) (t_nanosecond loc t) loc =
     day_number y m d * day_ns + time_of_day loc t - loc"
  using recombine [of "time_of_day loc t"]
  by (simp add: date_time_def t_hour_def t_minute_def t_second_def t_nanosecond_def)

lemma local_parts: "t + loc = local_day loc t * day_ns + time_of_day loc t"
  by (simp add: local_day_def time_of_day_def)

lemma add_date_days: "add_date t loc 0 0 k = t + k * day_ns"
  using day_number_civil [of "local_day loc t" k] local_parts [of t loc]
  unfolding add_date_def date_time_parts
  by (simp add: t_year_def t_month_def t_day_def algebra_simps)

lemma time_of_day_bounds: "0 \<le> time_of_day loc t" "time_of_day loc t < day_ns"
  by (simp_all add: time_of_day_def day_ns_def)


section \<open>Months\<close>

text \<open>Months are counted through the years: \<open>k\<close> is month \<open>k mod 12 + 1\<close> of year \<open>k div 12\<close>.\<close>

definition month_first :: "int \<Rightarrow> int" where
  "month_first k = days_before_month (k div 12) (nat (k mod 12))"

definition month_len :: "int \<Rightarrow> int" where
  "month_len k = month_lengths (is_leap (k div 12)) ! nat (k mod 12)"

lemma day_number_month: "day_number y m d = month_first (12 * y + m - 1) + d - 1"
proof -
  have "(12 * y + m - 1) div 12 = y + (m - 1) div 12"
    using div_mult_self3 [of 12 y "m - 1"] by (simp add: algebra_simps)
  moreover have "(12 * y + m - 1) mod 12 = (m - 1) mod 12"
    using mod_mult_self3 [of y 12 "m - 1"] by (simp add: algebra_simps)
  ultimately show ?thesis by (simp add: day_number_def month_first_def)
qed

lemma month_len_bounds: "28 \<le> month_len k" "month_len k \<le> 31"
proof -
  have "\<forall>l \<in> set (month_lengths leap). 28 \<le> l \<and> l \<le> 31" for leap by (simp add: month_lengths_def)
  moreover have "month_len k \<in> set (month_lengths (is_leap (k div 12)))"
    unfolding month_len_def by (intro nth_mem) (simp add: nat_less_iff)
  ultimately show "28 \<le> month_len k" "month_len k \<le> 31" by auto
qed

lemma div_step:
  fixes y k :: int
  assumes "0 < k"
  shows "y div k = (y - 1) div k + of_bool (y mod k = 0)"
proof (cases "y mod k = 0")
  case True
  then have y: "y = k * (y div k)" using mult_div_mod_eq [of k y] by simp
  have "(y - 1) div k = y div k - 1"
    using assms y by (intro int_div_pos_eq [of _ _ _ "k - 1"]) (auto simp: algebra_simps)
  with True show ?thesis by simp
next
  case False
  then have "0 < y mod k" using assms by (metis pos_mod_sign order_le_less)
  moreover have "y mod k < k" using assms by simp
  ultimately have "(y - 1) div k = y div k"
    using mult_div_mod_eq [of k y] by (intro int_div_pos_eq [of _ _ _ "y mod k - 1"]) linarith+
  with False show ?thesis by simp
qed

lemma days_before_year_diff:
  "days_before_year (y + 1) =
     days_before_year y + (365 + of_bool (y mod 4 = 0) - of_bool (y mod 100 = 0) + of_bool (y mod 400 = 0))"
proof -
  have shift: "a = a' + x \<Longrightarrow> b = b' + u \<Longrightarrow> c = c' + z \<Longrightarrow>
      365 * k + a - b + c = 365 * (k - 1) + a' - b' + c' + (365 + x - u + z)"
    for a a' b b' c c' k x u z :: int
    by simp
  show ?thesis
    unfolding days_before_year_def add_diff_cancel_right'
    by (rule shift) (rule div_step, simp)+
qed

lemma days_before_year_Suc: "days_before_year (y + 1) = days_before_year y + (if is_leap y then 366 else 365)"
proof -
  have "y mod 400 mod 100 = y mod 100" "y mod 100 mod 4 = y mod 4" by (simp_all add: mod_mod_cancel)
  then have nested: "y mod 400 = 0 \<Longrightarrow> y mod 100 = 0" "y mod 100 = 0 \<Longrightarrow> y mod 4 = 0"
    by (metis mod_0)+
  have "(if is_leap y then 366 else 365) =
      (365 + of_bool (y mod 4 = 0) - of_bool (y mod 100 = 0) + of_bool (y mod 400 = 0) :: int)"
  proof (cases "y mod 400 = 0")
    case True
    with nested show ?thesis by (simp add: is_leap_def)
  next
    case False
    show ?thesis
    proof (cases "y mod 100 = 0")
      case True
      with False nested show ?thesis by (simp add: is_leap_def)
    next
      case not100: False
      with False show ?thesis by (simp add: is_leap_def)
    qed
  qed
  then show ?thesis unfolding days_before_year_diff by (rule arg_cong [OF sym])
qed

lemma month_first_Suc: "month_first (k + 1) = month_first k + month_len k"
proof (cases "k mod 12 = 11")
  case True
  then have "(k + 1) div 12 = k div 12 + 1" "(k + 1) mod 12 = 0"
    using int_div_pos_eq [of "k + 1" 12 "k div 12 + 1" 0] int_mod_pos_eq [of "k + 1" 12 "k div 12 + 1" 0]
      mult_div_mod_eq [of 12 k] by simp_all
  then have "month_first (k + 1) = days_before_year (k div 12) + sum_list (month_lengths (is_leap (k div 12)))"
    by (simp add: month_first_def days_before_month_def days_before_year_Suc sum_month_lengths)
  also have "month_lengths (is_leap (k div 12)) = take 11 (month_lengths (is_leap (k div 12))) @ [31]"
    by (simp add: month_lengths_def)
  finally show ?thesis
    by (simp add: True month_first_def month_len_def days_before_month_def) (simp add: month_lengths_def)
next
  case False
  then have "k mod 12 < 11" using pos_mod_bound [of 12 k] by simp
  then have "(k + 1) div 12 = k div 12" "(k + 1) mod 12 = k mod 12 + 1"
    using int_div_pos_eq [of "k + 1" 12 "k div 12" "k mod 12 + 1"]
      int_mod_pos_eq [of "k + 1" 12 "k div 12" "k mod 12 + 1"] mult_div_mod_eq [of 12 k] by simp_all
  moreover have "nat (k mod 12 + 1) = Suc (nat (k mod 12))" by (simp add: nat_add_distrib)
  ultimately show ?thesis
    by (simp add: month_first_def month_len_def days_before_month_def take_Suc_conv_app_nth nat_less_iff)
qed

lemma month_first_add: "28 * int j \<le> month_first (k + int j) - month_first k"
proof (induction j)
  case (Suc j)
  then show ?case using month_first_Suc [of "k + int j"] month_len_bounds [of "k + int j"]
    by (simp add: add.assoc add.commute [of 1])
qed simp

lemma month_first_mono: "k < l \<Longrightarrow> month_first (k + 1) \<le> month_first l"
  using month_first_add [of "nat (l - k - 1)" "k + 1"] by simp

lemma month_unique:
  assumes "month_first k \<le> n" "n < month_first (k + 1)" "month_first l \<le> n" "n < month_first (l + 1)"
  shows "k = l"
  using assms month_first_mono [of k l] month_first_mono [of l k] by linarith

text \<open>The month of a day, and the civil date of a day of a month.\<close>

definition month_of :: "int \<Rightarrow> int" where
  "month_of n = 12 * fst (civil n) + fst (snd (civil n)) - 1"

lemma month_of:
  "month_first (month_of n) \<le> n" "n < month_first (month_of n + 1)"
  "snd (snd (civil n)) = n - month_first (month_of n) + 1"
  "fst (civil n) = month_of n div 12" "fst (snd (civil n)) = month_of n mod 12 + 1"
proof -
  obtain y m d where ymd: "civil n = (y, m, d)" by (cases "civil n")
  note c = civil [OF ymd]
  have k: "month_of n = 12 * y + m - 1" by (simp add: month_of_def ymd)
  then have divmod: "month_of n div 12 = y" "month_of n mod 12 = m - 1"
    using c int_div_pos_eq [of "12 * y + m - 1" 12 y "m - 1"] int_mod_pos_eq [of "12 * y + m - 1" 12 y "m - 1"]
    by simp_all
  have n: "n = month_first (month_of n) + d - 1" using c day_number_month [of y m d] k by simp
  have "d \<le> month_len (month_of n)" using c by (simp add: month_len_def divmod)
  then show "month_first (month_of n) \<le> n" "n < month_first (month_of n + 1)"
    "snd (snd (civil n)) = n - month_first (month_of n) + 1"
    "fst (civil n) = month_of n div 12" "fst (snd (civil n)) = month_of n mod 12 + 1"
    using n c month_first_Suc [of "month_of n"] by (simp_all add: divmod ymd)
qed

lemma month_of_eq: "month_first k \<le> n \<Longrightarrow> n < month_first (k + 1) \<Longrightarrow> month_of n = k"
  using month_unique month_of(1,2) by blast

end
