(* ===== verification/Maintenance.thy ===== *)
theory Maintenance
  imports Model Calendar
begin

text \<open>
  Maintenance windows: \<open>maintenance.go\<close> and the handlers of \<open>maintenance_api.go\<close> that change
  them. A window holds once or repeats daily, weekly or monthly; while it is active it suppresses
  the checks in its scope. The location of a window's start time is a fixed offset from UTC, as it
  is for a time read from JSON.
\<close>

section \<open>Windows\<close>

record MaintenanceWindow =
  mw_ID :: string
  mw_Name :: string
  mw_Description :: string
  mw_StartTime :: gotime
  mw_Location :: duration
  mw_EndTime :: gotime
  mw_CheckIDs :: "string list"
  mw_Tags :: "string list"
  mw_Servers :: "string list"
  mw_Recurring :: bool
  mw_RecurrenceRule :: string
  mw_CreatedAt :: gotime
  mw_CreatedBy :: string
  mw_Enabled :: bool

definition buildMonthlyOccurrence :: "int \<Rightarrow> int \<Rightarrow> gotime \<Rightarrow> duration \<Rightarrow> gotime" where
  "buildMonthlyOccurrence year month start loc =
     (let lastDay = t_day loc (date_time year (month + 1) 0 0 0 0 0 loc);
          day = t_day loc start;
          day = (if day > lastDay then lastDay else day)
      in date_time year month day (t_hour loc start) (t_minute loc start) (t_second loc start)
           (t_nanosecond loc start) loc)"

definition currentOccurrence :: "gotime \<Rightarrow> MaintenanceWindow \<Rightarrow> gotime \<times> gotime" where
  "currentOccurrence now mw =
     (let start = mw_StartTime mw; loc = mw_Location mw;
          dur = time_sub (mw_EndTime mw) start;
          rule = to_lower (mw_RecurrenceRule mw)
      in if before now start then (zero_time, zero_time)
         else if dur \<le> 0 then (zero_time, zero_time)
         else if rule = ''daily'' then
           let occ = date_time (t_year loc now) (t_month loc now) (t_day loc now)
                       (t_hour loc start) (t_minute loc start) (t_second loc start) (t_nanosecond loc start) loc;
               occ = (if after occ now then add_date occ loc 0 0 (- 1) else occ)
           in (occ, time_add occ dur)
         else if rule = ''weekly'' then
           let daysDiff = t_weekday loc now - t_weekday loc start;
               daysDiff = (if daysDiff < 0 then daysDiff + 7 else daysDiff);
               occ = date_time (t_year loc now) (t_month loc now) (t_day loc now - daysDiff)
                       (t_hour loc start) (t_minute loc start) (t_second loc start) (t_nanosecond loc start) loc;
               occ = (if after occ now then add_date occ loc 0 0 (- 7) else occ)
           in (occ, time_add occ dur)
         else if rule = ''monthly'' then
           let occ = buildMonthlyOccurrence (t_year loc now) (t_month loc now) start loc;
               occ = (if after occ now then
                        let year = t_year loc now; month = t_month loc now - 1
                        in if month = 0 then buildMonthlyOccurrence (year - 1) 12 start loc
                           else buildMonthlyOccurrence year month start loc
                      else occ)
           in (occ, time_add occ dur)
         else (zero_time, zero_time))"

definition IsActive :: "gotime \<Rightarrow> MaintenanceWindow \<Rightarrow> bool" where
  "IsActive now mw =
     (if \<not> mw_Enabled mw then False
      else if is_zero (mw_StartTime mw) \<or> is_zero (mw_EndTime mw) then False
      else if \<not> mw_Recurring mw then \<not> before now (mw_StartTime mw) \<and> before now (mw_EndTime mw)
      else let (occStart, occEnd) = currentOccurrence now mw
           in if is_zero occStart then False else \<not> before now occStart \<and> before now occEnd)"

definition CoversCheck :: "MaintenanceWindow \<Rightarrow> CheckConfig \<Rightarrow> bool" where
  "CoversCheck mw check =
     (if mw_CheckIDs mw = [] \<and> mw_Tags mw = [] \<and> mw_Servers mw = [] then True
      else if chk_ID check \<in> set (mw_CheckIDs mw) then True
      else if mw_Tags mw \<noteq> [] \<and> chk_Tags check \<noteq> [] \<and>
        (\<exists>t \<in> set (mw_Tags mw). t \<in> set (chk_Tags check)) then True
      else chk_Server check \<in> set (mw_Servers mw))"

section \<open>The store\<close>

text \<open>
  \<open>mws_file\<close> is the content of the file, \<open>None\<close> if there is none. Writing the file may fail; the
  argument \<open>ok\<close> says whether it succeeds, and the windows in memory are changed either way.
\<close>

record MaintenanceStore =
  mws_windows :: "MaintenanceWindow list"
  mws_file :: "MaintenanceWindow list option"

datatype mw_error = MWNotFound string | MWPersist | MWInvalid string

definition NewMaintenanceStore :: "MaintenanceWindow list option \<Rightarrow> MaintenanceStore" where
  "NewMaintenanceStore file =
     \<lparr>mws_windows = (case file of None \<Rightarrow> [] | Some ws \<Rightarrow> ws), mws_file = file\<rparr>"

definition mw_persist :: "bool \<Rightarrow> MaintenanceStore \<Rightarrow> MaintenanceStore \<times> (mw_error + unit)" where
  "mw_persist ok s = (if ok then (s\<lparr>mws_file := Some (mws_windows s)\<rparr>, Inr ()) else (s, Inl MWPersist))"

definition mw_Create ::
  "bool \<Rightarrow> gotime \<Rightarrow> MaintenanceWindow \<Rightarrow> MaintenanceStore \<Rightarrow> MaintenanceStore \<times> (mw_error + unit)" where
  "mw_Create ok now mw s =
     (let mw = (if mw_ID mw = [] then mw\<lparr>mw_ID := ''mw-'' @ itoa (unix_nano now)\<rparr> else mw);
          mw = (if is_zero (mw_CreatedAt mw) then mw\<lparr>mw_CreatedAt := now\<rparr> else mw)
      in mw_persist ok (s\<lparr>mws_windows := mws_windows s @ [mw]\<rparr>))"

definition mw_Update ::
  "bool \<Rightarrow> string \<Rightarrow> (MaintenanceWindow \<Rightarrow> mw_error + MaintenanceWindow) \<Rightarrow> MaintenanceStore \<Rightarrow>
     MaintenanceStore \<times> (mw_error + unit)" where
  "mw_Update ok i mutator s =
     (case find (\<lambda>w. mw_ID w = i) (mws_windows s) of
        None \<Rightarrow> (s, Inl (MWNotFound i))
      | Some w \<Rightarrow>
          (case mutator w of
             Inl e \<Rightarrow> (s, Inl e)
           | Inr w' \<Rightarrow> mw_persist ok
               (s\<lparr>mws_windows := replace_first (\<lambda>w. mw_ID w = i) (\<lambda>_. w') (mws_windows s)\<rparr>)))"

definition mw_Delete :: "bool \<Rightarrow> string \<Rightarrow> MaintenanceStore \<Rightarrow> MaintenanceStore \<times> (mw_error + unit)" where
  "mw_Delete ok i s =
     (case find (\<lambda>w. mw_ID w = i) (mws_windows s) of
        None \<Rightarrow> (s, Inl (MWNotFound i))
      | Some _ \<Rightarrow> mw_persist ok (s\<lparr>mws_windows := remove_first (\<lambda>w. mw_ID w = i) (mws_windows s)\<rparr>))"

definition mw_Get :: "string \<Rightarrow> MaintenanceStore \<Rightarrow> mw_error + MaintenanceWindow" where
  "mw_Get i s = (case find (\<lambda>w. mw_ID w = i) (mws_windows s) of None \<Rightarrow> Inl (MWNotFound i) | Some w \<Rightarrow> Inr w)"

definition mw_List :: "MaintenanceStore \<Rightarrow> MaintenanceWindow list" where
  "mw_List s = mws_windows s"

definition ListActive :: "gotime \<Rightarrow> MaintenanceStore \<Rightarrow> MaintenanceWindow list" where
  "ListActive now s = filter (IsActive now) (mws_windows s)"

definition IsCheckInMaintenance :: "gotime \<Rightarrow> MaintenanceStore \<Rightarrow> CheckConfig \<Rightarrow> bool" where
  "IsCheckInMaintenance now s check \<longleftrightarrow> (\<exists>mw \<in> set (mws_windows s). IsActive now mw \<and> CoversCheck mw check)"

definition PruneExpired :: "bool \<Rightarrow> gotime \<Rightarrow> MaintenanceStore \<Rightarrow> MaintenanceStore \<times> (mw_error + int)" where
  "PruneExpired ok cutoff s =
     (let expired = (\<lambda>mw. \<not> mw_Recurring mw \<and> before (mw_EndTime mw) cutoff);
          kept = filter (\<lambda>mw. \<not> expired mw) (mws_windows s);
          removed = int (length (filter expired (mws_windows s)))
      in if removed > 0 then
           case mw_persist ok (s\<lparr>mws_windows := kept\<rparr>) of
             (s', Inl e) \<Rightarrow> (s', Inl e)
           | (s', Inr _) \<Rightarrow> (s', Inr removed)
         else (s, Inr removed))"

section \<open>The handlers\<close>

definition handleCreate ::
  "bool \<Rightarrow> gotime \<Rightarrow> MaintenanceWindow \<Rightarrow> MaintenanceStore \<Rightarrow>
     MaintenanceStore \<times> (mw_error + MaintenanceWindow)" where
  "handleCreate ok now mw s =
     (if mw_Name mw = [] then (s, Inl (MWInvalid ''name is required''))
      else if is_zero (mw_StartTime mw) \<or> is_zero (mw_EndTime mw)
        then (s, Inl (MWInvalid ''startTime and endTime are required''))
      else if \<not> after (mw_EndTime mw) (mw_StartTime mw)
        then (s, Inl (MWInvalid ''endTime must be after startTime''))
      else let mw = mw\<lparr>mw_Enabled := True, mw_CreatedAt := now\<rparr>
           in case mw_Create ok now mw s of (s', Inl e) \<Rightarrow> (s', Inl e) | (s', Inr _) \<Rightarrow> (s', Inr mw))"

text \<open>The fields of the body of an update; a nil slice or pointer is \<open>None\<close>.\<close>

record mw_update =
  up_Name :: string
  up_Description :: string
  up_StartTime :: gotime
  up_Location :: duration
  up_EndTime :: gotime
  up_CheckIDs :: "string list option"
  up_Tags :: "string list option"
  up_Servers :: "string list option"
  up_Recurring :: "bool option"
  up_RecurrenceRule :: "string option"
  up_Enabled :: "bool option"

definition set_some :: "'b option \<Rightarrow> ('b \<Rightarrow> 'a \<Rightarrow> 'a) \<Rightarrow> 'a \<Rightarrow> 'a" where
  "set_some v f a = (case v of None \<Rightarrow> a | Some x \<Rightarrow> f x a)"

definition merge_update :: "mw_update \<Rightarrow> MaintenanceWindow \<Rightarrow> MaintenanceWindow" where
  "merge_update u mw =
     (let mw = (if up_Name u \<noteq> [] then mw\<lparr>mw_Name := up_Name u\<rparr> else mw);
          mw = (if up_Description u \<noteq> [] then mw\<lparr>mw_Description := up_Description u\<rparr> else mw);
          mw = (if \<not> is_zero (up_StartTime u)
                then mw\<lparr>mw_StartTime := up_StartTime u, mw_Location := up_Location u\<rparr> else mw);
          mw = (if \<not> is_zero (up_EndTime u) then mw\<lparr>mw_EndTime := up_EndTime u\<rparr> else mw);
          mw = set_some (up_CheckIDs u) (\<lambda>x mw. mw\<lparr>mw_CheckIDs := x\<rparr>) mw;
          mw = set_some (up_Tags u) (\<lambda>x mw. mw\<lparr>mw_Tags := x\<rparr>) mw;
          mw = set_some (up_Servers u) (\<lambda>x mw. mw\<lparr>mw_Servers := x\<rparr>) mw;
          mw = set_some (up_Recurring u) (\<lambda>x mw. mw\<lparr>mw_Recurring := x\<rparr>) mw;
          mw = set_some (up_RecurrenceRule u) (\<lambda>x mw. mw\<lparr>mw_RecurrenceRule := x\<rparr>) mw
      in set_some (up_Enabled u) (\<lambda>x mw. mw\<lparr>mw_Enabled := x\<rparr>) mw)"

definition apply_update :: "mw_update \<Rightarrow> MaintenanceWindow \<Rightarrow> mw_error + MaintenanceWindow" where
  "apply_update u mw =
     (let mw = merge_update u mw
      in if mw_Name mw = [] then Inl (MWInvalid ''name is required'')
         else if is_zero (mw_StartTime mw) \<or> is_zero (mw_EndTime mw)
           then Inl (MWInvalid ''startTime and endTime are required'')
         else if \<not> after (mw_EndTime mw) (mw_StartTime mw)
           then Inl (MWInvalid ''endTime must be after startTime'')
         else Inr mw)"

definition handleUpdate ::
  "bool \<Rightarrow> string \<Rightarrow> mw_update \<Rightarrow> MaintenanceStore \<Rightarrow> MaintenanceStore \<times> (mw_error + MaintenanceWindow)" where
  "handleUpdate ok i u s =
     (case mw_Update ok i (apply_update u) s of
        (s', Inl e) \<Rightarrow> (s', Inl e)
      | (s', Inr _) \<Rightarrow> (s', mw_Get i s'))"

definition handleDelete :: "bool \<Rightarrow> string \<Rightarrow> MaintenanceStore \<Rightarrow> MaintenanceStore \<times> (mw_error + unit)" where
  "handleDelete ok i s = mw_Delete ok i s"

section \<open>Repeating windows\<close>

text \<open>The three loops over the scope together.\<close>

lemma CoversCheck_iff:
  "CoversCheck mw check \<longleftrightarrow>
     (mw_CheckIDs mw = [] \<and> mw_Tags mw = [] \<and> mw_Servers mw = []) \<or>
     chk_ID check \<in> set (mw_CheckIDs mw) \<or> set (mw_Tags mw) \<inter> set (chk_Tags check) \<noteq> {} \<or>
     chk_Server check \<in> set (mw_Servers mw)"
  by (auto simp: CoversCheck_def)

lemma today:
  "date_time (t_year loc now) (t_month loc now) (t_day loc now + k)
     (t_hour loc start) (t_minute loc start) (t_second loc start) (t_nanosecond loc start) loc =
   (local_day loc now + k) * day_ns + time_of_day loc start - loc"
  by (simp add: date_time_parts t_year_def t_month_def t_day_def day_number_civil)

text \<open>
  A point that is congruent to the start modulo the period and at most a period before now is the
  last occurrence.
\<close>

lemma last_occurrence:
  fixes occ now start p :: int
  assumes "occ = start + k * p" and "occ \<le> now" and "now < occ + p"
  shows "now - occ = (now - start) mod p"
proof -
  have "(now - start) mod p = (now - occ + k * p) mod p" using assms(1) by (simp add: algebra_simps)
  also have "\<dots> = now - occ" using assms(2,3) by simp
  finally show ?thesis by simp
qed

lemma daily_occurrence:
  assumes "to_lower (mw_RecurrenceRule mw) = ''daily''" and "mw_StartTime mw \<le> now"
    and "0 < time_sub (mw_EndTime mw) (mw_StartTime mw)"
  shows "currentOccurrence now mw = (now - (now - mw_StartTime mw) mod day_ns,
    now - (now - mw_StartTime mw) mod day_ns + time_sub (mw_EndTime mw) (mw_StartTime mw))"
proof -
  let ?s = "mw_StartTime mw" and ?loc = "mw_Location mw"
  define base where "base = local_day ?loc now * day_ns + time_of_day ?loc ?s - ?loc"
  define occ where "occ = (if now < base then base - day_ns else base)"
  have eq: "currentOccurrence now mw = (occ, occ + time_sub (mw_EndTime mw) ?s)"
    using assms today [of ?loc now 0 ?s] add_date_days [of base ?loc "- 1"]
    by (simp add: currentOccurrence_def Let_def occ_def base_def before_def after_def time_add_def)
  have base: "base = ?s + (local_day ?loc now - local_day ?loc ?s) * day_ns"
    using local_parts [of ?s ?loc] by (simp add: base_def algebra_simps)
  have "base < now + day_ns" "now < base + day_ns"
    using local_parts [of now ?loc] time_of_day_bounds [of ?loc] by (auto simp: base_def) (smt (verit))+
  then have "occ \<le> now" "now < occ + day_ns" by (auto simp: occ_def)
  moreover have "occ = ?s + (local_day ?loc now - local_day ?loc ?s - of_bool (now < base)) * day_ns"
    unfolding occ_def by (simp add: base algebra_simps)
  ultimately have "now - occ = (now - ?s) mod day_ns" using last_occurrence by blast
  with eq show ?thesis by (simp add: algebra_simps)
qed

lemma weekday_distance:
  fixes n m :: int
  shows "(if (n + 1) mod 7 - (m + 1) mod 7 < 0 then (n + 1) mod 7 - (m + 1) mod 7 + 7
    else (n + 1) mod 7 - (m + 1) mod 7) = (n - m) mod 7"
proof -
  define x y where "x = (n + 1) mod 7" and "y = (m + 1) mod 7"
  have range: "0 \<le> x" "x < 7" "0 \<le> y" "y < 7" by (simp_all add: x_def y_def)
  have "(n - m) mod 7 = (x - y) mod 7" using mod_diff_eq [of "n + 1" 7 "m + 1"] by (simp add: x_def y_def)
  also have "\<dots> = (if x - y < 0 then x - y + 7 else x - y)"
  proof (cases "x - y < 0")
    case True
    have "(x - y) mod 7 = (x - y + 7) mod 7" by simp
    also have "\<dots> = x - y + 7" using True range by (intro mod_pos_pos_trivial) linarith+
    finally show ?thesis using True by simp
  next
    case False
    with range show ?thesis by (simp add: mod_pos_pos_trivial)
  qed
  finally show ?thesis by (simp add: x_def y_def)
qed

lemma weekly_occurrence:
  assumes "to_lower (mw_RecurrenceRule mw) = ''weekly''" and "mw_StartTime mw \<le> now"
    and "0 < time_sub (mw_EndTime mw) (mw_StartTime mw)"
  shows "currentOccurrence now mw = (now - (now - mw_StartTime mw) mod (7 * day_ns),
    now - (now - mw_StartTime mw) mod (7 * day_ns) + time_sub (mw_EndTime mw) (mw_StartTime mw))"
proof -
  let ?s = "mw_StartTime mw" and ?loc = "mw_Location mw"
  define n m where "n = local_day ?loc now" and "m = local_day ?loc ?s"
  define diff where "diff = (n - m) mod 7"
  define base where "base = (n - diff) * day_ns + time_of_day ?loc ?s - ?loc"
  define occ where "occ = (if now < base then base - 7 * day_ns else base)"
  have wd: "(if t_weekday ?loc now - t_weekday ?loc ?s < 0 then t_weekday ?loc now - t_weekday ?loc ?s + 7
      else t_weekday ?loc now - t_weekday ?loc ?s) = diff"
    unfolding t_weekday_def diff_def n_def m_def by (rule weekday_distance)
  have eq: "currentOccurrence now mw = (occ, occ + time_sub (mw_EndTime mw) ?s)"
    using assms today [of ?loc now "- diff" ?s] add_date_days [of base ?loc "- 7"]
    unfolding currentOccurrence_def Let_def wd
    by (simp add: occ_def base_def before_def after_def time_add_def n_def)
  have "n - diff = m + 7 * ((n - m) div 7)" using minus_mod_eq_mult_div [of "n - m" 7] unfolding diff_def by linarith
  then have "(n - diff) * day_ns = m * day_ns + ((n - m) div 7) * (7 * day_ns)"
    by (simp add: distrib_right)
  then have base: "base = ?s + ((n - m) div 7) * (7 * day_ns)"
    using local_parts [of ?s ?loc] by (simp add: base_def m_def [symmetric])
  have "0 \<le> diff" "diff < 7" by (simp_all add: diff_def)
  then have diff: "0 \<le> diff * day_ns" "diff * day_ns \<le> 6 * day_ns" by (simp_all add: day_ns_def)
  have "now - base = time_of_day ?loc now - time_of_day ?loc ?s + diff * day_ns"
    using local_parts [of now ?loc] by (simp add: base_def n_def algebra_simps)
  then have "base < now + 7 * day_ns" "now < base + 7 * day_ns"
    using diff time_of_day_bounds [of ?loc now] time_of_day_bounds [of ?loc ?s] by linarith+
  then have "occ \<le> now" "now < occ + 7 * day_ns" by (auto simp: occ_def)
  moreover have "occ = ?s + ((n - m) div 7 - of_bool (now < base)) * (7 * day_ns)"
    unfolding occ_def by (simp add: base algebra_simps)
  ultimately have "now - occ = (now - ?s) mod (7 * day_ns)" using last_occurrence by blast
  with eq show ?thesis by (simp add: algebra_simps)
qed

text \<open>The occurrence in the \<open>k\<close>-th month.\<close>

definition month_occurrence :: "gotime \<Rightarrow> duration \<Rightarrow> int \<Rightarrow> gotime" where
  "month_occurrence start loc k =
     (month_first k + min (t_day loc start) (month_len k) - 1) * day_ns + time_of_day loc start - loc"

lemma t_day_start: "t_day loc t = local_day loc t - month_first (month_of (local_day loc t)) + 1"
  by (simp add: t_day_def month_of)

lemma t_day_pos: "1 \<le> t_day loc t"
  using month_of(1) [of "local_day loc t"] by (simp add: t_day_start)

lemma local_day_date: "local_day loc (date_time y m d 0 0 0 0 loc) = day_number y m d"
  by (simp add: local_day_def date_time_def go_time day_ns_def)

lemma last_day: "t_day loc (date_time y (m + 1) 0 0 0 0 0 loc) = month_len (12 * y + m - 1)"
proof -
  have n: "day_number y (m + 1) 0 = month_first (12 * y + m - 1) + month_len (12 * y + m - 1) - 1"
    using month_first_Suc [of "12 * y + m - 1"] by (simp add: day_number_month)
  then have "month_of (day_number y (m + 1) 0) = 12 * y + m - 1"
    using month_len_bounds [of "12 * y + m - 1"] month_first_Suc [of "12 * y + m - 1"]
    by (intro month_of_eq) linarith+
  then show ?thesis using n by (simp add: t_day_start local_day_date)
qed

lemma buildMonthlyOccurrence: "buildMonthlyOccurrence y m start loc = month_occurrence start loc (12 * y + m - 1)"
  unfolding buildMonthlyOccurrence_def Let_def date_time_parts last_day day_number_month
  by (simp add: month_occurrence_def min_def)

lemma month_occurrence_bounds:
  "month_first k * day_ns \<le> month_occurrence start loc k + loc"
  "month_occurrence start loc k + loc < month_first (k + 1) * day_ns"
proof -
  let ?d = "min (t_day loc start) (month_len k) - 1"
  have "0 \<le> ?d" "?d \<le> month_len k - 1"
    using t_day_pos [of loc start] month_len_bounds [of k] by auto
  then have "0 \<le> ?d * day_ns" "?d * day_ns \<le> (month_len k - 1) * day_ns" by (simp_all add: day_ns_def)
  moreover have "month_occurrence start loc k + loc = month_first k * day_ns + ?d * day_ns + time_of_day loc start"
    by (simp add: month_occurrence_def algebra_simps)
  moreover have "month_first (k + 1) * day_ns = month_first k * day_ns + (month_len k - 1) * day_ns + day_ns"
    unfolding month_first_Suc by (simp add: algebra_simps)
  ultimately show "month_first k * day_ns \<le> month_occurrence start loc k + loc"
    and "month_occurrence start loc k + loc < month_first (k + 1) * day_ns"
    using time_of_day_bounds [of loc start] by linarith+
qed

lemma month_occurrence_mono:
  assumes "k < l"
  shows "month_occurrence start loc k < month_occurrence start loc l"
proof -
  have "month_first (k + 1) * day_ns \<le> month_first l * day_ns"
    using month_first_mono [OF assms] by (simp add: day_ns_def)
  then show ?thesis
    using month_occurrence_bounds(2) [of start loc k] month_occurrence_bounds(1) [of l start loc] by linarith
qed

lemma month_of_now:
  "month_first (month_of (local_day loc t)) * day_ns \<le> t + loc"
  "t + loc < month_first (month_of (local_day loc t) + 1) * day_ns"
proof -
  let ?k = "month_of (local_day loc t)"
  have "month_first ?k * day_ns \<le> local_day loc t * day_ns"
    "(local_day loc t + 1) * day_ns \<le> month_first (?k + 1) * day_ns"
    using month_of(1,2) [of "local_day loc t"] by (simp_all add: day_ns_def)
  moreover have "(local_day loc t + 1) * day_ns = local_day loc t * day_ns + day_ns" by (simp add: algebra_simps)
  ultimately show "month_first ?k * day_ns \<le> t + loc" "t + loc < month_first (?k + 1) * day_ns"
    using local_parts [of t loc] time_of_day_bounds [of loc t] by linarith+
qed

lemma monthly_occurrence:
  assumes "to_lower (mw_RecurrenceRule mw) = ''monthly''" and "mw_StartTime mw \<le> now"
    and "0 < time_sub (mw_EndTime mw) (mw_StartTime mw)"
  obtains k where "currentOccurrence now mw = (month_occurrence (mw_StartTime mw) (mw_Location mw) k,
      month_occurrence (mw_StartTime mw) (mw_Location mw) k + time_sub (mw_EndTime mw) (mw_StartTime mw))"
    and "month_occurrence (mw_StartTime mw) (mw_Location mw) k \<le> now"
    and "now < month_occurrence (mw_StartTime mw) (mw_Location mw) (k + 1)"
proof -
  let ?s = "mw_StartTime mw" and ?loc = "mw_Location mw"
  let ?n = "month_of (local_day ?loc now)"
  let ?occ = "month_occurrence ?s ?loc"
  have this_month: "12 * t_year ?loc now + t_month ?loc now - 1 = ?n"
    by (simp add: t_year_def t_month_def month_of)
  then have month: "t_month ?loc now = ?n + 1 - 12 * t_year ?loc now" by linarith
  define k where "k = (if now < ?occ ?n then ?n - 1 else ?n)"
  have "currentOccurrence now mw = (?occ k, ?occ k + time_sub (mw_EndTime mw) ?s)"
    using assms
    unfolding currentOccurrence_def Let_def buildMonthlyOccurrence month
    by (simp add: k_def before_def after_def time_add_def algebra_simps)
  moreover have "?occ k \<le> now"
    using month_occurrence_bounds(2) [of ?s ?loc "?n - 1"] month_of_now(1) [of ?loc now] by (simp add: k_def)
  moreover have "now < ?occ (k + 1)"
    using month_occurrence_bounds(1) [of "?n + 1" ?s ?loc] month_of_now(2) [where t = now and loc = ?loc]
    by (simp add: k_def)
  ultimately show thesis using that by blast
qed

text \<open>
  The same occurrences, said without computing one: a point that has the time of day of the start,
  and for a weekly window its weekday, for a monthly one its day of the month, or the last day of a
  month that is too short.
\<close>

definition occurs :: "MaintenanceWindow \<Rightarrow> gotime \<Rightarrow> bool" where
  "occurs mw t \<longleftrightarrow>
     (let start = mw_StartTime mw; loc = mw_Location mw; rule = to_lower (mw_RecurrenceRule mw)
      in time_of_day loc t = time_of_day loc start \<and>
         (rule = ''daily'' \<or>
          rule = ''weekly'' \<and> t_weekday loc t = t_weekday loc start \<or>
          rule = ''monthly'' \<and> t_day loc t =
            min (t_day loc start) (month_lengths (is_leap (t_year loc t)) ! nat (t_month loc t - 1))))"

lemma same_time_of_day:
  "time_of_day loc t = time_of_day loc s \<longleftrightarrow> (\<exists>k. t = s + k * day_ns)"
proof
  assume "time_of_day loc t = time_of_day loc s"
  then have "t = s + (local_day loc t - local_day loc s) * day_ns"
    using local_parts [of t loc] local_parts [of s loc] by (simp add: algebra_simps)
  then show "\<exists>k. t = s + k * day_ns" ..
next
  assume "\<exists>k. t = s + k * day_ns"
  then obtain k where eq: "t + loc = s + loc + k * day_ns" by force
  show "time_of_day loc t = time_of_day loc s" unfolding time_of_day_def eq by (rule mod_mult_self1)
qed

lemma local_day_add: "local_day loc (s + k * day_ns) = local_day loc s + k"
proof -
  have "s + k * day_ns + loc = s + loc + k * day_ns" by simp
  then show ?thesis by (simp add: local_day_def day_ns_def)
qed

lemma same_weekday:
  "time_of_day loc t = time_of_day loc s \<and> t_weekday loc t = t_weekday loc s \<longleftrightarrow>
     (\<exists>k. t = s + k * (7 * day_ns))"
proof
  assume *: "time_of_day loc t = time_of_day loc s \<and> t_weekday loc t = t_weekday loc s"
  then obtain k where t: "t = s + k * day_ns" using same_time_of_day by blast
  with * have "(local_day loc s + k + 1) mod 7 = (local_day loc s + 1) mod 7"
    by (simp add: t_weekday_def local_day_add)
  then have "7 dvd k" using mod_eq_dvd_iff [of "local_day loc s + k + 1" 7 "local_day loc s + 1"] by simp
  then obtain j where "k = 7 * j" ..
  with t have "t = s + j * (7 * day_ns)" by simp
  then show "\<exists>k. t = s + k * (7 * day_ns)" ..
next
  assume "\<exists>k. t = s + k * (7 * day_ns)"
  then obtain k where "t = s + k * (7 * day_ns)" ..
  then have "t = s + (k * 7) * day_ns" by simp
  moreover from this have day: "local_day loc t + 1 = local_day loc s + 1 + k * 7"
    using local_day_add [of loc s "k * 7"] by simp
  have "t_weekday loc t = t_weekday loc s"
    unfolding t_weekday_def day by (rule mod_mult_self1)
  ultimately show "time_of_day loc t = time_of_day loc s \<and> t_weekday loc t = t_weekday loc s"
    using same_time_of_day by blast
qed

lemma same_day_of_month:
  "time_of_day loc t = time_of_day loc s \<and>
     t_day loc t = min (t_day loc s) (month_lengths (is_leap (t_year loc t)) ! nat (t_month loc t - 1)) \<longleftrightarrow>
   (\<exists>k. t = month_occurrence s loc k)"
  (is "?same \<longleftrightarrow> _")
proof -
  have len: "month_lengths (is_leap (t_year loc u)) ! nat (t_month loc u - 1) = month_len (month_of (local_day loc u))"
    for u
    by (simp add: t_year_def t_month_def month_of month_len_def)
  show ?thesis
  proof
    assume same: ?same
    let ?k = "month_of (local_day loc t)"
    have "local_day loc t = month_first ?k + min (t_day loc s) (month_len ?k) - 1"
      using same t_day_start [of loc t] unfolding len by linarith
    then have "t = month_occurrence s loc ?k"
      using local_parts [of t loc] same by (simp add: month_occurrence_def)
    then show "\<exists>k. t = month_occurrence s loc k" ..
  next
    assume "\<exists>k. t = month_occurrence s loc k"
    then obtain k where t: "t = month_occurrence s loc k" ..
    let ?d = "min (t_day loc s) (month_len k)"
    have eq: "t + loc = (month_first k + ?d - 1) * day_ns + time_of_day loc s"
      by (simp add: t month_occurrence_def)
    then have day: "local_day loc t = month_first k + ?d - 1" and tod: "time_of_day loc t = time_of_day loc s"
      using time_of_day_bounds [of loc s] by (simp_all add: local_day_def time_of_day_def)
    have "1 \<le> ?d" "?d \<le> month_len k" using t_day_pos [of loc s] month_len_bounds [of k] by auto
    then have "month_of (local_day loc t) = k"
      unfolding day using month_first_Suc [of k] by (intro month_of_eq) linarith+
    then show ?same using tod day t_day_start [of loc t] unfolding len by simp
  qed
qed

lemma last_multiple:
  fixes now start p :: int
  assumes "0 < p"
  shows "\<exists>k. now - (now - start) mod p = start + k * p"
    and "start + k * p \<le> now \<Longrightarrow> start + k * p \<le> now - (now - start) mod p"
proof -
  have eq: "now - (now - start) mod p = start + ((now - start) div p) * p"
    using div_mult_mod_eq [of "now - start" p] by linarith
  then show "\<exists>k. now - (now - start) mod p = start + k * p" ..
  assume "start + k * p \<le> now"
  then have "k * p div p \<le> (now - start) div p" using assms by (intro zdiv_mono1) linarith+
  then have "k \<le> (now - start) div p" using assms by simp
  then have "k * p \<le> ((now - start) div p) * p" using assms by (intro mult_right_mono) simp_all
  then show "start + k * p \<le> now - (now - start) mod p" unfolding eq by simp
qed

lemma last_occurrence_found:
  assumes "to_lower (mw_RecurrenceRule mw) \<in> {''daily'', ''weekly'', ''monthly''}"
    and "mw_StartTime mw \<le> now" and "0 < time_sub (mw_EndTime mw) (mw_StartTime mw)"
  obtains occ where "currentOccurrence now mw = (occ, occ + time_sub (mw_EndTime mw) (mw_StartTime mw))"
    and "occurs mw occ" and "occ \<le> now" and "\<And>t. occurs mw t \<Longrightarrow> t \<le> now \<Longrightarrow> t \<le> occ"
proof -
  let ?s = "mw_StartTime mw" and ?loc = "mw_Location mw"
  have pos: "0 < day_ns" "0 < 7 * day_ns" by (simp_all add: day_ns_def)
  consider (daily) "to_lower (mw_RecurrenceRule mw) = ''daily''"
    | (weekly) "to_lower (mw_RecurrenceRule mw) = ''weekly''"
    | (monthly) "to_lower (mw_RecurrenceRule mw) = ''monthly''" using assms(1) by blast
  then show thesis
  proof cases
    case daily
    then have occurs: "occurs mw t \<longleftrightarrow> (\<exists>k. t = ?s + k * day_ns)" for t
      by (simp add: occurs_def Let_def same_time_of_day)
    show ?thesis
      using last_multiple [OF pos(1)] pos
      by (intro that [OF daily_occurrence [OF daily assms(2,3)]]) (auto simp: occurs)
  next
    case weekly
    then have occurs: "occurs mw t \<longleftrightarrow> (\<exists>k. t = ?s + k * (7 * day_ns))" for t
      by (simp add: occurs_def Let_def same_weekday del: mult.left_commute)
    show ?thesis
      using last_multiple [OF pos(2)] pos
      by (intro that [OF weekly_occurrence [OF weekly assms(2,3)]]) (auto simp: occurs)
  next
    case monthly
    then have occurs: "occurs mw t \<longleftrightarrow> (\<exists>k. t = month_occurrence ?s ?loc k)" for t
      by (simp add: occurs_def Let_def same_day_of_month)
    obtain k where k: "currentOccurrence now mw = (month_occurrence ?s ?loc k,
          month_occurrence ?s ?loc k + time_sub (mw_EndTime mw) ?s)"
      "month_occurrence ?s ?loc k \<le> now" "now < month_occurrence ?s ?loc (k + 1)"
      using monthly_occurrence [OF monthly assms(2,3)] by blast
    have "t \<le> month_occurrence ?s ?loc k" if t: "occurs mw t" "t \<le> now" for t
    proof -
      from t obtain l where l: "t = month_occurrence ?s ?loc l" using occurs by blast
      have "l \<le> k"
      proof (rule ccontr)
        assume "\<not> l \<le> k"
        then have "month_occurrence ?s ?loc (k + 1) \<le> t"
          using month_occurrence_mono [of "k + 1" l ?s ?loc] l by (cases "l = k + 1") auto
        with t(2) k(3) show False by simp
      qed
      then show ?thesis using month_occurrence_mono [of l k ?s ?loc] l by (cases "l = k") auto
    qed
    with k occurs that show ?thesis by blast
  qed
qed

lemma occurs_start:
  "to_lower (mw_RecurrenceRule mw) \<in> {''daily'', ''weekly'', ''monthly''} \<Longrightarrow> occurs mw (mw_StartTime mw)"
proof -
  let ?s = "mw_StartTime mw" and ?loc = "mw_Location mw"
  have "?s = month_occurrence ?s ?loc (month_of (local_day ?loc ?s))"
    using local_parts [of ?s ?loc] month_of(1,2) [of "local_day ?loc ?s"]
      month_first_Suc [of "month_of (local_day ?loc ?s)"]
    by (simp add: month_occurrence_def t_day_start min_def)
  then have "\<exists>k. ?s = month_occurrence ?s ?loc k" ..
  then show "to_lower (mw_RecurrenceRule mw) \<in> {''daily'', ''weekly'', ''monthly''} \<Longrightarrow> occurs mw ?s"
    using same_day_of_month [of ?loc ?s ?s] by (auto simp: occurs_def Let_def)
qed

section \<open>When a window is active\<close>

text \<open>
  Take an enabled window from a start time to a later end time (after the zero time and less than
  292 years long). If it does not repeat, it is active exactly from its start up to its end. If it
  repeats, it is never active before its start, nor with an unknown rule; otherwise it is active
  exactly when at most its length has passed since some occurrence: a point with the time of day of
  the start, and its weekday (weekly) or its day of the month, or the last day of a shorter month
  (monthly).
\<close>

theorem IsActive_correct:
  assumes "mw_Enabled mw" and "0 < mw_StartTime mw" and "mw_StartTime mw < mw_EndTime mw"
    and "mw_EndTime mw - mw_StartTime mw \<le> 9223372036854775807"
  shows "IsActive now mw \<longleftrightarrow>
    (if \<not> mw_Recurring mw then mw_StartTime mw \<le> now \<and> now < mw_EndTime mw
     else mw_StartTime mw \<le> now \<and>
       to_lower (mw_RecurrenceRule mw) \<in> {''daily'', ''weekly'', ''monthly''} \<and>
       (\<exists>t. occurs mw t \<and> t \<le> now \<and> now < t + (mw_EndTime mw - mw_StartTime mw)))"
proof (cases "mw_Recurring mw \<and> mw_StartTime mw \<le> now \<and>
    to_lower (mw_RecurrenceRule mw) \<in> {''daily'', ''weekly'', ''monthly''}")
  case False
  then show ?thesis using assms
    by (auto simp: IsActive_def currentOccurrence_def before_def is_zero_def zero_time_def Let_def)
next
  case True
  have dur: "time_sub (mw_EndTime mw) (mw_StartTime mw) = mw_EndTime mw - mw_StartTime mw"
    using assms by (simp add: time_sub_def)
  then obtain occ where occ: "currentOccurrence now mw = (occ, occ + (mw_EndTime mw - mw_StartTime mw))"
    "occurs mw occ" "occ \<le> now" and last: "\<And>t. occurs mw t \<Longrightarrow> t \<le> now \<Longrightarrow> t \<le> occ"
    using last_occurrence_found [of mw now] True assms(3) by auto
  have "0 < occ" using last [OF occurs_start] True assms(2) by force
  then have "IsActive now mw \<longleftrightarrow> now < occ + (mw_EndTime mw - mw_StartTime mw)"
    using assms True occ by (simp add: IsActive_def before_def is_zero_def zero_time_def)
  also have "\<dots> \<longleftrightarrow> (\<exists>t. occurs mw t \<and> t \<le> now \<and> now < t + (mw_EndTime mw - mw_StartTime mw))"
    using occ last by force
  finally show ?thesis using True by simp
qed

text \<open>A window from 22:00 to midnight on the last day of January 2024, repeated every month.\<close>

definition january_window :: MaintenanceWindow where
  "january_window = \<lparr>mw_ID = ''mw-1'', mw_Name = ''backup'', mw_Description = [],
     mw_StartTime = 738915 * 86400000000000 + 22 * 3600000000000, mw_Location = 0,
     mw_EndTime = 738916 * 86400000000000, mw_CheckIDs = [], mw_Tags = [], mw_Servers = [],
     mw_Recurring = True, mw_RecurrenceRule = ''Monthly'', mw_CreatedAt = 0, mw_CreatedBy = [],
     mw_Enabled = True\<rparr>"

text \<open>It is active at 23:00 on 29 February 2024.\<close>

theorem IsActive_correct_witness:
  "(IsActive (738944 * 86400000000000 + 23 * 3600000000000) january_window \<longleftrightarrow>
    mw_StartTime january_window \<le> 738944 * 86400000000000 + 23 * 3600000000000 \<and>
    (\<exists>t. occurs january_window t \<and> t \<le> 738944 * 86400000000000 + 23 * 3600000000000 \<and>
      738944 * 86400000000000 + 23 * 3600000000000 < t + (mw_EndTime january_window - mw_StartTime january_window))) \<and>
   IsActive (738944 * 86400000000000 + 23 * 3600000000000) january_window"
proof (rule conjI)
  have "to_lower ''Monthly'' = ''monthly''" by code_simp
  then show "IsActive (738944 * 86400000000000 + 23 * 3600000000000) january_window \<longleftrightarrow>
    mw_StartTime january_window \<le> 738944 * 86400000000000 + 23 * 3600000000000 \<and>
    (\<exists>t. occurs january_window t \<and> t \<le> 738944 * 86400000000000 + 23 * 3600000000000 \<and>
      738944 * 86400000000000 + 23 * 3600000000000 < t + (mw_EndTime january_window - mw_StartTime january_window))"
    by (subst IsActive_correct) (simp_all add: january_window_def)
  show "IsActive (738944 * 86400000000000 + 23 * 3600000000000) january_window" by code_simp
qed

section \<open>Pruning\<close>

lemma mw_persist_windows [simp]: "mws_windows (fst (mw_persist ok s)) = mws_windows s"
  by (simp add: mw_persist_def)

lemma PruneExpired_windows:
  "mws_windows (fst (PruneExpired ok cutoff s)) =
     filter (\<lambda>mw. mw_Recurring mw \<or> cutoff \<le> mw_EndTime mw) (mws_windows s)"
proof (cases "filter (\<lambda>mw. \<not> mw_Recurring mw \<and> mw_EndTime mw < cutoff) (mws_windows s) = []")
  case True
  then have "filter (\<lambda>mw. mw_Recurring mw \<or> cutoff \<le> mw_EndTime mw) (mws_windows s) = mws_windows s"
    by (auto simp: filter_empty_conv filter_id_conv)
  with True show ?thesis by (simp add: PruneExpired_def before_def)
next
  case False
  have neg: "(\<not> (\<not> mw_Recurring mw \<and> mw_EndTime mw < cutoff)) = (mw_Recurring mw \<or> cutoff \<le> mw_EndTime mw)" for mw
    by auto
  show ?thesis using False
    by (auto simp: PruneExpired_def before_def mw_persist_def neg Let_def not_less split: prod.splits sum.splits)
qed

lemma expired_not_active: "\<not> mw_Recurring mw \<Longrightarrow> mw_EndTime mw < cutoff \<Longrightarrow> cutoff \<le> now \<Longrightarrow> \<not> IsActive now mw"
  by (auto simp: IsActive_def before_def)

text \<open>
  Pruning with a cutoff that is not in the future changes no answer about the present or any later
  time: the active windows are the same, in the same order, and so are the checks in maintenance,
  whether or not the file can be written; and no repeating window is ever removed. When the write
  succeeds, the number returned is the number of windows that are gone.
\<close>

theorem PruneExpired_keeps_answers:
  assumes "cutoff \<le> now"
  shows "ListActive now (fst (PruneExpired ok cutoff s)) = ListActive now s \<and>
    (\<forall>check. IsCheckInMaintenance now (fst (PruneExpired ok cutoff s)) check = IsCheckInMaintenance now s check) \<and>
    filter mw_Recurring (mws_windows (fst (PruneExpired ok cutoff s))) = filter mw_Recurring (mws_windows s) \<and>
    (\<forall>n. snd (PruneExpired ok cutoff s) = Inr n \<longrightarrow>
       int (length (mws_windows s)) = int (length (mws_windows (fst (PruneExpired ok cutoff s)))) + n)"
proof (intro conjI allI impI)
  have active: "IsActive now mw \<Longrightarrow> mw_Recurring mw \<or> cutoff \<le> mw_EndTime mw" for mw
    using expired_not_active [OF _ _ assms, of mw] by force
  then show *: "ListActive now (fst (PruneExpired ok cutoff s)) = ListActive now s"
    unfolding ListActive_def PruneExpired_windows by (auto simp: filter_filter intro: filter_cong)
  show "IsCheckInMaintenance now (fst (PruneExpired ok cutoff s)) check = IsCheckInMaintenance now s check" for check
    unfolding IsCheckInMaintenance_def PruneExpired_windows using active by auto
  show "filter mw_Recurring (mws_windows (fst (PruneExpired ok cutoff s))) = filter mw_Recurring (mws_windows s)"
    unfolding PruneExpired_windows by (auto intro: filter_cong)
  fix n
  let ?P = "\<lambda>mw. mw_Recurring mw \<or> cutoff \<le> mw_EndTime mw"
  have not: "(\<not> mw_Recurring mw \<and> mw_EndTime mw < cutoff) = (\<not> ?P mw)" for mw by auto
  assume "snd (PruneExpired ok cutoff s) = Inr n"
  then have "n = int (length (filter (\<lambda>mw. \<not> ?P mw) (mws_windows s)))"
    by (auto simp: PruneExpired_def before_def Let_def not mw_persist_def split: prod.splits sum.splits if_splits)
  then show "int (length (mws_windows s)) = int (length (mws_windows (fst (PruneExpired ok cutoff s)))) + n"
    using sum_length_filter_compl [of ?P "mws_windows s"] unfolding PruneExpired_windows by simp
qed

theorem PruneExpired_keeps_answers_witness:
  "ListActive 50 (fst (PruneExpired True 40 \<lparr>mws_windows =
      [january_window\<lparr>mw_Recurring := False, mw_StartTime := 10, mw_EndTime := 30\<rparr>,
       january_window\<lparr>mw_Recurring := False, mw_StartTime := 10, mw_EndTime := 90\<rparr>], mws_file = None\<rparr>)) =
   [january_window\<lparr>mw_Recurring := False, mw_StartTime := 10, mw_EndTime := 90\<rparr>]"
  using PruneExpired_keeps_answers [of 40 50 True "\<lparr>mws_windows =
      [january_window\<lparr>mw_Recurring := False, mw_StartTime := 10, mw_EndTime := 30\<rparr>,
       january_window\<lparr>mw_Recurring := False, mw_StartTime := 10, mw_EndTime := 90\<rparr>], mws_file = None\<rparr>"]
  by (simp add: ListActive_def IsActive_def january_window_def before_def is_zero_def zero_time_def)

section \<open>What the handlers accept\<close>

definition mw_ok :: "MaintenanceWindow \<Rightarrow> bool" where
  "mw_ok mw \<longleftrightarrow> mw_ID mw \<noteq> [] \<and> mw_Name mw \<noteq> [] \<and> mw_StartTime mw \<noteq> 0 \<and> mw_EndTime mw \<noteq> 0 \<and>
     mw_StartTime mw < mw_EndTime mw"

text \<open>The stores that the handlers, pruning and restarts lead to from an empty one.\<close>

inductive mw_reach :: "MaintenanceStore \<Rightarrow> bool" where
  "mw_reach (NewMaintenanceStore None)"
| "mw_reach s \<Longrightarrow> mw_reach (fst (handleCreate ok now mw s))"
| "mw_reach s \<Longrightarrow> mw_reach (fst (handleUpdate ok i u s))"
| "mw_reach s \<Longrightarrow> mw_reach (fst (handleDelete ok i s))"
| "mw_reach s \<Longrightarrow> mw_reach (fst (PruneExpired ok cutoff s))"
| "mw_reach s \<Longrightarrow> mw_reach (NewMaintenanceStore (mws_file s))"

definition store_ok :: "MaintenanceStore \<Rightarrow> bool" where
  "store_ok s \<longleftrightarrow> (\<forall>mw \<in> set (mws_windows s). mw_ok mw) \<and> (\<forall>ws. mws_file s = Some ws \<longrightarrow> (\<forall>mw \<in> set ws. mw_ok mw))"

lemma store_ok_persist:
  "store_ok s \<Longrightarrow> (\<forall>mw \<in> set ws. mw_ok mw) \<Longrightarrow> store_ok (fst (mw_persist ok (s\<lparr>mws_windows := ws\<rparr>)))"
  by (auto simp: store_ok_def mw_persist_def)

lemma set_some_keeps: "(\<And>x. k (f x a) = k a) \<Longrightarrow> k (set_some v f a) = k a"
  by (simp add: set_some_def split: option.splits)

lemma merge_update_ID [simp]: "mw_ID (merge_update u mw) = mw_ID mw"
  by (simp add: merge_update_def Let_def set_some_keeps [where k = mw_ID])

lemma apply_update_ok: "apply_update u mw = Inr mw' \<Longrightarrow> mw_ok mw \<Longrightarrow> mw_ok mw'"
  by (auto simp: apply_update_def mw_ok_def Let_def after_def is_zero_def zero_time_def
      split: if_splits)

lemma mw_Create_ok:
  "store_ok s \<Longrightarrow> mw_Name mw \<noteq> [] \<Longrightarrow> mw_StartTime mw \<noteq> 0 \<Longrightarrow> mw_EndTime mw \<noteq> 0 \<Longrightarrow>
     mw_StartTime mw < mw_EndTime mw \<Longrightarrow> store_ok (fst (mw_Create ok now mw s))"
  unfolding mw_Create_def Let_def
  by (rule store_ok_persist) (auto simp: store_ok_def mw_ok_def)

lemma mw_Update_ok: "store_ok s \<Longrightarrow> store_ok (fst (mw_Update ok i (apply_update u) s))"
  by (auto simp: mw_Update_def split: option.splits sum.splits intro!: store_ok_persist
      dest!: find_SomeD elim!: replace_first_ball [rotated 2])
    (auto simp: store_ok_def dest: apply_update_ok)

lemma mw_Delete_ok: "store_ok s \<Longrightarrow> store_ok (fst (mw_Delete ok i s))"
  using set_remove_first [of "\<lambda>w. mw_ID w = i" "mws_windows s"]
  by (auto simp: mw_Delete_def store_ok_def mw_persist_def split: option.splits)

lemma PruneExpired_ok: "store_ok s \<Longrightarrow> store_ok (fst (PruneExpired ok cutoff s))"
  using PruneExpired_windows [of ok cutoff s]
  by (auto simp: store_ok_def PruneExpired_def Let_def mw_persist_def split: prod.splits sum.splits if_splits)

lemma mw_reach_ok: "mw_reach s \<Longrightarrow> store_ok s"
proof (induction rule: mw_reach.induct)
  case 1
  then show ?case by (simp add: store_ok_def NewMaintenanceStore_def)
next
  case (2 s ok now mw)
  then show ?case
    using mw_Create_ok [of s "mw\<lparr>mw_Enabled := True, mw_CreatedAt := now\<rparr>" ok now]
    by (auto simp: handleCreate_def Let_def after_def is_zero_def zero_time_def split: prod.splits sum.splits)
next
  case (3 s ok i u)
  then show ?case using mw_Update_ok [of s ok i u]
    by (auto simp: handleUpdate_def split: prod.splits sum.splits)
next
  case (4 s ok i)
  then show ?case by (simp add: handleDelete_def mw_Delete_ok)
next
  case (5 s ok cutoff)
  then show ?case by (simp add: PruneExpired_ok)
next
  case (6 s)
  then show ?case by (cases "mws_file s") (auto simp: store_ok_def NewMaintenanceStore_def)
qed

text \<open>
  Whatever sequence of create, update, delete and prune calls and restarts led to a store, and
  whichever writes failed on the way, every window in it has an ID, a name and times with the end
  after the start; and an enabled window that does not repeat is active at its start time.
\<close>

theorem handlers_keep_windows_well_formed:
  assumes "mw_reach s" and "mw \<in> set (mws_windows s)"
  shows "mw_ID mw \<noteq> [] \<and> mw_Name mw \<noteq> [] \<and> \<not> is_zero (mw_StartTime mw) \<and> \<not> is_zero (mw_EndTime mw) \<and>
    before (mw_StartTime mw) (mw_EndTime mw) \<and>
    (mw_Enabled mw \<and> \<not> mw_Recurring mw \<longrightarrow> IsActive (mw_StartTime mw) mw)"
  using mw_reach_ok [OF assms(1)] assms(2)
  by (auto simp: store_ok_def mw_ok_def is_zero_def zero_time_def before_def IsActive_def)

theorem handlers_keep_windows_well_formed_witness:
  "IsActive (mw_StartTime january_window) (january_window\<lparr>mw_Recurring := False\<rparr>)"
proof -
  let ?w = "january_window\<lparr>mw_Recurring := False\<rparr>"
  let ?s = "fst (handleCreate True 0 ?w (NewMaintenanceStore None))"
  have "mw_reach ?s" by (intro mw_reach.intros)
  moreover have "?w \<in> set (mws_windows ?s)"
    by (simp add: handleCreate_def mw_Create_def mw_persist_def NewMaintenanceStore_def january_window_def
        is_zero_def zero_time_def after_def Let_def)
  ultimately show ?thesis
    using handlers_keep_windows_well_formed [of ?s ?w] by (simp add: january_window_def)
qed

text \<open>
  A window that is created without an ID, as the API allows, is stored under a generated one, but
  the response still carries the empty ID, and no window of any reachable store has that: reading,
  changing or deleting the window by the ID of the response reports that it does not exist.
\<close>

theorem created_ID_is_not_returned:
  assumes "mw_reach s" and "mw_ID mw = []" and "mw_Name mw \<noteq> []" and "\<not> is_zero (mw_StartTime mw)"
    and "\<not> is_zero (mw_EndTime mw)" and "before (mw_StartTime mw) (mw_EndTime mw)"
  shows "\<exists>s' mw'. handleCreate True now mw s = (s', Inr mw') \<and> mw_ID mw' = [] \<and>
    mw_ID (last (mws_windows s')) = ''mw-'' @ itoa (unix_nano now) \<and>
    mw_Get (mw_ID mw') s' = Inl (MWNotFound []) \<and>
    snd (handleUpdate True (mw_ID mw') u s') = Inl (MWNotFound []) \<and>
    snd (handleDelete True (mw_ID mw') s') = Inl (MWNotFound [])"
proof -
  obtain s' mw' where created: "handleCreate True now mw s = (s', Inr mw')" and "mw_ID mw' = []"
    and last: "mw_ID (last (mws_windows s')) = ''mw-'' @ itoa (unix_nano now)"
    using assms
    by (auto simp: handleCreate_def mw_Create_def mw_persist_def Let_def after_def before_def)
  have "mw_reach s'" using mw_reach.intros(2) [OF assms(1), of True now mw] created by simp
  then have "\<forall>w \<in> set (mws_windows s'). mw_ID w \<noteq> []"
    using mw_reach_ok by (simp add: store_ok_def mw_ok_def)
  then have "find (\<lambda>w. mw_ID w = []) (mws_windows s') = None" by (simp add: find_None_iff)
  then show ?thesis using created last \<open>mw_ID mw' = []\<close>
    by (simp add: mw_Get_def handleUpdate_def mw_Update_def handleDelete_def mw_Delete_def)
qed

theorem created_ID_is_not_returned_witness:
  "\<exists>s' mw'. handleCreate True 0 (january_window\<lparr>mw_ID := []\<rparr>) (NewMaintenanceStore None) = (s', Inr mw') \<and>
    mw_Get (mw_ID mw') s' = Inl (MWNotFound [])"
proof -
  let ?w = "january_window\<lparr>mw_ID := []\<rparr>"
  let ?u = "\<lparr>up_Name = ''new'', up_Description = [], up_StartTime = 0, up_Location = 0, up_EndTime = 0,
    up_CheckIDs = None, up_Tags = None, up_Servers = None, up_Recurring = None, up_RecurrenceRule = None,
    up_Enabled = None\<rparr>"
  have "mw_ID ?w = []" "mw_Name ?w \<noteq> []" "\<not> is_zero (mw_StartTime ?w)" "\<not> is_zero (mw_EndTime ?w)"
    "before (mw_StartTime ?w) (mw_EndTime ?w)"
    by (simp_all add: january_window_def is_zero_def zero_time_def before_def)
  from created_ID_is_not_returned [OF mw_reach.intros(1) this, of 0 ?u] show ?thesis by blast
qed

end
