(* ===== verification/Scheduler.thy ===== *)
theory Scheduler
  imports Model
begin

text \<open>
  The check scheduler (\<open>scheduler.go\<close>): one timer per check that starts a goroutine, which runs the
  check at once and then on a ticker; retries, and a cooldown after a run whose attempts all failed.
  Goroutines are steps of a transition relation: a run of a check, with all its attempts, is one
  step, and the calls of the API come between.
\<close>

section \<open>One run of a check\<close>

text \<open>How the attempts of a run ended: a healthy result, the end of the context, or none left.\<close>

datatype run_end = Passed | Stopped | Exhausted

text \<open>
  What a run meets: the time it starts, whether the context ends while it waits before attempt \<open>n\<close>,
  the outcome of attempt \<open>n\<close> (\<open>Inl ()\<close> for an error of \<open>Runner.RunCheck\<close>), and the time it ends.
\<close>

record run_env =
  run_now :: gotime
  run_done :: "nat \<Rightarrow> bool"
  run_attempt :: "nat \<Rightarrow> unit + CheckResult"
  run_ended :: gotime

fun run_attempts :: "run_env \<Rightarrow> nat \<Rightarrow> nat \<Rightarrow> (unit + CheckResult) list \<times> run_end" where
  "run_attempts env attempt 0 = ([], Exhausted)"
| "run_attempts env attempt (Suc n) =
     (if attempt > 0 \<and> run_done env attempt then ([], Stopped)
      else case run_attempt env attempt of
             Inl e \<Rightarrow> (let (rs, r) = run_attempts env (attempt + 1) n in (Inl e # rs, r))
           | Inr result \<Rightarrow>
               if res_Healthy result then ([Inr result], Passed)
               else (let (rs, r) = run_attempts env (attempt + 1) n in (Inr result # rs, r)))"

definition getCheckRetryCount :: "CheckConfig \<Rightarrow> int" where
  "getCheckRetryCount check = (if chk_RetryCount check \<ge> 0 then chk_RetryCount check else 0)"

definition getCheckRetryDelay :: "CheckConfig \<Rightarrow> int" where
  "getCheckRetryDelay check = (if chk_RetryDelaySeconds check > 0 then chk_RetryDelaySeconds check else 5)"

definition getCheckCooldown :: "CheckConfig \<Rightarrow> int" where
  "getCheckCooldown check = (if chk_CooldownSeconds check > 0 then chk_CooldownSeconds check else 0)"

section \<open>The scheduler\<close>

text \<open>
  \<open>timers\<close> maps a check to its timer. A timer's function is pending until it starts (\<open>Stop\<close> on the
  timer prevents that, and nothing else); then it is a loop of its own, for which nothing is kept.
  \<open>sch_interval\<close> is the default interval of the configuration; a change of it by the API is not modelled.
\<close>

record CheckScheduler =
  sch_interval :: int
  sch_running :: bool
  sch_cancelled :: bool
  sch_timers :: "string \<rightharpoonup> nat"
  sch_cooldowns :: "string \<rightharpoonup> gotime"
  sch_pending :: "(nat \<times> CheckConfig \<times> duration) list"
  sch_loops :: "(string \<times> duration) list"
  sch_next :: nat

definition NewCheckScheduler :: "Config \<Rightarrow> CheckScheduler" where
  "NewCheckScheduler cfg =
     \<lparr>sch_interval = cfg_CheckIntervalSeconds cfg, sch_running = False, sch_cancelled = False,
      sch_timers = Map.empty, sch_cooldowns = Map.empty, sch_pending = [], sch_loops = [], sch_next = 0\<rparr>"

definition getCheckInterval :: "CheckScheduler \<Rightarrow> CheckConfig \<Rightarrow> int" where
  "getCheckInterval s check =
     (if chk_IntervalSeconds check > 0 then chk_IntervalSeconds check else sch_interval s)"

definition getEnabledChecks :: "State \<Rightarrow> CheckConfig list" where
  "getEnabledChecks st = filter check_is_enabled (st_Checks st)"

definition findCheckByID :: "CheckConfig list \<Rightarrow> string \<Rightarrow> CheckConfig option" where
  "findCheckByID checks i = find (\<lambda>c. chk_ID c = i) checks"

text \<open>\<open>timer.Stop()\<close> and the deletion of the entry.\<close>

definition stop_timer :: "string \<Rightarrow> CheckScheduler \<Rightarrow> CheckScheduler" where
  "stop_timer i s =
     (case sch_timers s i of
        None \<Rightarrow> s
      | Some t \<Rightarrow> s\<lparr>sch_timers := (sch_timers s)(i := None),
                    sch_pending := filter (\<lambda>(u, _). u \<noteq> t) (sch_pending s)\<rparr>)"

definition scheduleCheck :: "CheckConfig \<Rightarrow> CheckScheduler \<Rightarrow> CheckScheduler" where
  "scheduleCheck check s =
     (let s = stop_timer (chk_ID check) s
      in if \<not> check_is_enabled check then s
         else let interval = dur_mul (getCheckInterval s check) second;
                  interval = (if interval \<le> 0 then dur_mul (sch_interval s) second else interval)
              in s\<lparr>sch_timers := (sch_timers s)(chk_ID check \<mapsto> sch_next s),
                   sch_pending := sch_pending s @ [(sch_next s, check, interval)],
                   sch_next := sch_next s + 1\<rparr>)"

text \<open>The loop over all timers stops each of them; a timer is kept under the ID of its check.\<close>

definition stop_all_timers :: "CheckScheduler \<Rightarrow> CheckScheduler" where
  "stop_all_timers s =
     s\<lparr>sch_timers := Map.empty,
       sch_pending := filter (\<lambda>(u, c, _). sch_timers s (chk_ID c) \<noteq> Some u) (sch_pending s)\<rparr>"

definition rescheduleAll :: "State \<Rightarrow> CheckScheduler \<Rightarrow> CheckScheduler" where
  "rescheduleAll st s = fold scheduleCheck (getEnabledChecks st) (stop_all_timers s)"

definition sch_Start :: "State \<Rightarrow> CheckScheduler \<Rightarrow> CheckScheduler" where
  "sch_Start st s = (if sch_running s then s else rescheduleAll st (s\<lparr>sch_running := True\<rparr>))"

definition sch_Stop :: "CheckScheduler \<Rightarrow> CheckScheduler" where
  "sch_Stop s =
     (if \<not> sch_running s then s
      else (stop_all_timers (s\<lparr>sch_running := False\<rparr>))\<lparr>sch_cancelled := True\<rparr>)"

definition RescheduleAll :: "State \<Rightarrow> CheckScheduler \<Rightarrow> CheckScheduler" where
  "RescheduleAll st s = (if \<not> sch_running s then s else rescheduleAll st s)"

definition UpsertSchedule :: "CheckConfig \<Rightarrow> CheckScheduler \<Rightarrow> CheckScheduler" where
  "UpsertSchedule check s = (if \<not> sch_running s then s else scheduleCheck check s)"

definition RemoveSchedule :: "string \<Rightarrow> CheckScheduler \<Rightarrow> CheckScheduler" where
  "RemoveSchedule i s =
     (let s = stop_timer i s in s\<lparr>sch_cooldowns := (sch_cooldowns s)(i := None)\<rparr>)"

definition in_sch_cooldown :: "gotime \<Rightarrow> string \<Rightarrow> CheckScheduler \<Rightarrow> bool" where
  "in_sch_cooldown now i s = (case sch_cooldowns s i of None \<Rightarrow> False | Some u \<Rightarrow> before now u)"

text \<open>\<open>runCheck\<close>, with the attempts it made; the results among them go to the alert callback.\<close>

definition runCheck :: "run_env \<Rightarrow> CheckConfig \<Rightarrow> CheckScheduler \<Rightarrow> CheckScheduler \<times> (unit + CheckResult) list" where
  "runCheck env check s =
     (if sch_cancelled s then (s, [])
      else if in_sch_cooldown (run_now env) (chk_ID check) s then (s, [])
      else let (attempts, r) = run_attempts env 0 (nat (getCheckRetryCount check) + 1)
           in if r = Exhausted \<and> getCheckCooldown check > 0 then
                (s\<lparr>sch_cooldowns := (sch_cooldowns s)(chk_ID check \<mapsto>
                     time_add (run_ended env) (dur_mul (getCheckCooldown check) second))\<rparr>, attempts)
              else (s, attempts))"

definition callback_batches :: "(unit + CheckResult) list \<Rightarrow> CheckResult list list" where
  "callback_batches attempts =
     concat (map (\<lambda>a. case a of Inl _ \<Rightarrow> [] | Inr result \<Rightarrow> [[result]]) attempts)"

text \<open>
  The function of a timer: the first run, then \<open>time.NewTicker\<close>, which panics on an interval that is
  not positive (\<open>None\<close>), and the loop.
\<close>

definition timer_fires :: "run_env \<Rightarrow> nat \<times> CheckConfig \<times> duration \<Rightarrow> CheckScheduler \<Rightarrow>
    (CheckScheduler \<times> (unit + CheckResult) list) option" where
  "timer_fires env p s =
     (let (t, check, interval) = p;
          (s, attempts) = runCheck env check (s\<lparr>sch_pending := remove1 p (sch_pending s)\<rparr>)
      in if interval \<le> 0 then None
         else Some (s\<lparr>sch_loops := sch_loops s @ [(chk_ID check, interval)]\<rparr>, attempts))"

text \<open>One turn of a loop; a loop ends when the context is done, or its check is gone or disabled.\<close>

definition loop_ticks :: "run_env \<Rightarrow> State \<Rightarrow> string \<times> duration \<Rightarrow> CheckScheduler \<Rightarrow>
    CheckScheduler \<times> (unit + CheckResult) list" where
  "loop_ticks env st l s =
     (let ends = s\<lparr>sch_loops := remove1 l (sch_loops s)\<rparr>
      in if sch_cancelled s then (ends, [])
         else case findCheckByID (st_Checks st) (fst l) of
                None \<Rightarrow> (ends, [])
              | Some current \<Rightarrow>
                  if \<not> check_is_enabled current then (ends, [])
                  else if in_sch_cooldown (run_now env) (fst l) s then (s, [])
                  else runCheck env current s)"

section \<open>Steps\<close>

text \<open>
  The label of a step is the check that was run and its attempts. Every step may see any state of
  the store, as other parts of the program change it.
\<close>

inductive sch_step ::
  "CheckScheduler \<Rightarrow> (string \<times> (unit + CheckResult) list) option \<Rightarrow> CheckScheduler \<Rightarrow> bool" where
  start: "sch_step s None (sch_Start st s)"
| stop: "sch_step s None (sch_Stop s)"
| reschedule: "sch_step s None (RescheduleAll st s)"
| upsert: "sch_step s None (UpsertSchedule check s)"
| remove: "sch_step s None (RemoveSchedule i s)"
| fire: "p \<in> set (sch_pending s) \<Longrightarrow> timer_fires env p s = Some (s', attempts) \<Longrightarrow>
    sch_step s (Some (chk_ID (fst (snd p)), attempts)) s'"
| tick: "l \<in> set (sch_loops s) \<Longrightarrow> loop_ticks env st l s = (s', attempts) \<Longrightarrow>
    sch_step s (Some (fst l, attempts)) s'"

inductive sch_steps ::
  "CheckScheduler \<Rightarrow> (string \<times> (unit + CheckResult) list) list \<Rightarrow> CheckScheduler \<Rightarrow> bool" where
  refl: "sch_steps s [] s"
| silent: "sch_steps s tr s' \<Longrightarrow> sch_step s' None s'' \<Longrightarrow> sch_steps s tr s''"
| run: "sch_steps s tr s' \<Longrightarrow> sch_step s' (Some e) s'' \<Longrightarrow> sch_steps s (tr @ [e]) s''"

inductive_cases sch_step_silentE: "sch_step s None s'"
inductive_cases sch_step_runE: "sch_step s (Some e) s'"

section \<open>Lemmas on runs\<close>

lemma run_attempts_made:
  "k < length (fst (run_attempts env a n)) \<Longrightarrow> fst (run_attempts env a n) ! k = run_attempt env (a + k)"
proof (induction env a n arbitrary: k rule: run_attempts.induct)
  case (2 env a n)
  then show ?case by (cases k) (auto split: sum.splits if_splits prod.splits)
qed simp

lemma run_attempts_length: "length (fst (run_attempts env a n)) \<le> n"
  by (induction env a n rule: run_attempts.induct) (auto split: sum.splits prod.splits)

lemma run_attempts_first: "fst (run_attempts env 0 (Suc n)) \<noteq> []"
  by (auto split: sum.splits prod.splits)

definition healthy_attempt :: "unit + CheckResult \<Rightarrow> bool" where
  "healthy_attempt a \<longleftrightarrow> (case a of Inl _ \<Rightarrow> False | Inr result \<Rightarrow> res_Healthy result)"

text \<open>Only the last attempt can be healthy, and it is exactly when the run passed.\<close>

lemma run_attempts_end:
  assumes "run_attempts env a n = (rs, e)"
  shows "(\<forall>k. k + 1 < length rs \<longrightarrow> \<not> healthy_attempt (rs ! k)) \<and>
    (e = Passed \<longleftrightarrow> (\<exists>r \<in> set rs. healthy_attempt r)) \<and>
    (e = Exhausted \<longleftrightarrow> length rs = n \<and> (\<forall>r \<in> set rs. \<not> healthy_attempt r)) \<and>
    (e = Stopped \<longrightarrow> length rs < n \<and> run_done env (a + length rs))"
  using assms
proof (induction env a n arbitrary: rs rule: run_attempts.induct)
  case (1 env a)
  then show ?case by auto
next
  case (2 env a n)
  show ?case
  proof (cases "a > 0 \<and> run_done env a")
    case True
    with 2 show ?thesis by auto
  next
    case False
    obtain rs' e' where rec: "run_attempts env (a + 1) n = (rs', e')" by (cases "run_attempts env (a + 1) n")
    show ?thesis
    proof (cases "healthy_attempt (run_attempt env a)")
      case True
      with 2(3) False show ?thesis by (auto simp: healthy_attempt_def split: sum.splits if_splits)
    next
      case unhealthy: False
      then have rs: "rs = run_attempt env a # rs'" "e = e'"
        using 2(3) False rec by (auto simp: healthy_attempt_def split: sum.splits if_splits)
      have "(\<forall>k. k + 1 < length rs' \<longrightarrow> \<not> healthy_attempt (rs' ! k)) \<and>
        (e = Passed \<longleftrightarrow> (\<exists>r \<in> set rs'. healthy_attempt r)) \<and>
        (e = Exhausted \<longleftrightarrow> length rs' = n \<and> (\<forall>r \<in> set rs'. \<not> healthy_attempt r)) \<and>
        (e = Stopped \<longrightarrow> length rs' < n \<and> run_done env (a + 1 + length rs'))"
      proof (cases "run_attempt env a")
        case (Inl u)
        then show ?thesis using 2(1) [OF False Inl] rec rs by simp
      next
        case (Inr r)
        then show ?thesis using 2(2) [OF False Inr] rec rs unhealthy by (simp add: healthy_attempt_def)
      qed
      then show ?thesis using unhealthy rs by (auto simp: nth_Cons split: nat.splits)
    qed
  qed
qed

lemma callback_batches_iff: "[result] \<in> set (callback_batches attempts) \<longleftrightarrow> Inr result \<in> set attempts"
  by (auto simp: callback_batches_def split: sum.splits)

lemma runCheck_fields [simp]:
  "sch_running (fst (runCheck env check s)) = sch_running s"
  "sch_cancelled (fst (runCheck env check s)) = sch_cancelled s"
  "sch_timers (fst (runCheck env check s)) = sch_timers s"
  "sch_pending (fst (runCheck env check s)) = sch_pending s"
  "sch_loops (fst (runCheck env check s)) = sch_loops s"
  "sch_next (fst (runCheck env check s)) = sch_next s"
  "sch_interval (fst (runCheck env check s)) = sch_interval s"
  by (auto simp: runCheck_def Let_def split: prod.splits)

lemma stop_timer_fields [simp]:
  "sch_running (stop_timer i s) = sch_running s" "sch_cancelled (stop_timer i s) = sch_cancelled s"
  "sch_loops (stop_timer i s) = sch_loops s" "sch_next (stop_timer i s) = sch_next s"
  "sch_interval (stop_timer i s) = sch_interval s" "sch_cooldowns (stop_timer i s) = sch_cooldowns s"
  by (auto simp: stop_timer_def split: option.splits)

lemma scheduleCheck_fields [simp]:
  "sch_running (scheduleCheck c s) = sch_running s" "sch_cancelled (scheduleCheck c s) = sch_cancelled s"
  "sch_loops (scheduleCheck c s) = sch_loops s" "sch_interval (scheduleCheck c s) = sch_interval s"
  by (auto simp: scheduleCheck_def Let_def)

lemma rescheduleAll_fields [simp]:
  "sch_running (rescheduleAll st s) = sch_running s" "sch_cancelled (rescheduleAll st s) = sch_cancelled s"
  "sch_loops (rescheduleAll st s) = sch_loops s" "sch_interval (rescheduleAll st s) = sch_interval s"
proof -
  have "sch_running (fold scheduleCheck cs s) = sch_running s \<and>
      sch_cancelled (fold scheduleCheck cs s) = sch_cancelled s \<and>
      sch_loops (fold scheduleCheck cs s) = sch_loops s \<and>
      sch_interval (fold scheduleCheck cs s) = sch_interval s" for cs s
    by (induction cs arbitrary: s) auto
  then show "sch_running (rescheduleAll st s) = sch_running s" "sch_cancelled (rescheduleAll st s) = sch_cancelled s"
    "sch_loops (rescheduleAll st s) = sch_loops s" "sch_interval (rescheduleAll st s) = sch_interval s"
    by (simp_all add: rescheduleAll_def stop_all_timers_def)
qed

section \<open>A run of a check\<close>

text \<open>
  C7: A run outside a cooldown makes at least one and at most \<open>RetryCount + 1\<close> attempts, in order,
  and stops at the first healthy one: no attempt but the last is healthy. Every result is handed to
  the alert callback in a batch of its own, those of failed attempts included. The cooldown starts,
  from the end of the run, exactly if one is configured, no attempt was healthy and none is left.
\<close>

theorem runCheck_correct:
  assumes "\<not> sch_cancelled s" and "\<not> in_sch_cooldown (run_now env) (chk_ID check) s"
    and run: "runCheck env check s = (s', attempts)"
  shows "attempts \<noteq> [] \<and> int (length attempts) \<le> max 0 (chk_RetryCount check) + 1 \<and>
    (\<forall>k < length attempts. attempts ! k = run_attempt env k) \<and>
    (\<forall>k. k + 1 < length attempts \<longrightarrow> \<not> healthy_attempt (attempts ! k)) \<and>
    (\<forall>result. [result] \<in> set (callback_batches attempts) \<longleftrightarrow> Inr result \<in> set attempts) \<and>
    s' = (if 0 < chk_CooldownSeconds check \<and> int (length attempts) = max 0 (chk_RetryCount check) + 1 \<and>
            (\<forall>a \<in> set attempts. \<not> healthy_attempt a)
          then s\<lparr>sch_cooldowns := (sch_cooldowns s)(chk_ID check \<mapsto>
            run_ended env + dur_mul (chk_CooldownSeconds check) second)\<rparr>
          else s)"
proof -
  let ?n = "nat (getCheckRetryCount check)"
  obtain e where e: "run_attempts env 0 (?n + 1) = (attempts, e)" and
    s': "s' = (if e = Exhausted \<and> getCheckCooldown check > 0 then
                s\<lparr>sch_cooldowns := (sch_cooldowns s)(chk_ID check \<mapsto>
                     time_add (run_ended env) (dur_mul (getCheckCooldown check) second))\<rparr> else s)"
    using run assms(1,2) by (auto simp: runCheck_def Let_def split: prod.splits if_splits)
  have n: "int (?n + 1) = max 0 (chk_RetryCount check) + 1" by (simp add: getCheckRetryCount_def)
  have "attempts \<noteq> []" using run_attempts_first [of env ?n] e by simp
  moreover have "int (length attempts) \<le> max 0 (chk_RetryCount check) + 1"
    using run_attempts_length [of env 0 "?n + 1"] n unfolding e fst_conv by linarith
  moreover have "\<forall>k < length attempts. attempts ! k = run_attempt env k"
    using run_attempts_made [of _ env 0 "?n + 1"] e by simp
  moreover have "\<forall>result. [result] \<in> set (callback_batches attempts) \<longleftrightarrow> Inr result \<in> set attempts"
    by (simp add: callback_batches_iff)
  moreover have "length attempts = ?n + 1 \<longleftrightarrow> int (length attempts) = max 0 (chk_RetryCount check) + 1"
    using n by linarith
  ultimately show ?thesis
    using run_attempts_end [OF e] s' by (simp add: getCheckCooldown_def time_add_def)
qed

section \<open>Stopping\<close>

lemma sch_step_cancelled: "sch_step s e s' \<Longrightarrow> sch_cancelled s \<Longrightarrow> sch_cancelled s' \<and> (\<forall>c a. e = Some (c, a) \<longrightarrow> a = [])"
proof (induction rule: sch_step.induct)
  case (fire p s env s' attempts)
  then show ?case
    by (auto simp: timer_fires_def runCheck_def Let_def split: prod.splits if_splits)
next
  case (tick l s env st s' attempts)
  then show ?case by (auto simp: loop_ticks_def)
qed (auto simp: sch_Start_def sch_Stop_def RescheduleAll_def UpsertSchedule_def RemoveSchedule_def Let_def)

text \<open>
  Once a running scheduler is stopped, no check is run any more, whatever timers were pending and
  loops were alive, and whatever calls follow: also \<open>Start\<close> does not make it run anything again.
\<close>

theorem stopped_for_good:
  assumes "sch_running s" and "sch_steps (sch_Stop s) tr s'"
  shows "(\<forall>(c, attempts) \<in> set tr. attempts = []) \<and> (\<forall>env check. snd (runCheck env check (sch_Start st s')) = [])"
proof -
  have "sch_cancelled s' \<and> (\<forall>(c, attempts) \<in> set tr. attempts = [])"
    using assms(2)
  proof (induction "sch_Stop s" tr s' rule: sch_steps.induct)
    case refl
    then show ?case using assms(1) by (simp add: sch_Stop_def)
  next
    case (silent tr s' s'')
    then show ?case using sch_step_cancelled by blast
  next
    case (run tr s' e s'')
    then show ?case using sch_step_cancelled [of s' "Some e" s''] by (cases e) auto
  qed
  then show ?thesis by (auto simp: runCheck_def sch_Start_def)
qed

section \<open>Timers and loops\<close>

text \<open>
  Every pending timer is the timer of its check, so a check has at most one; and no ticker of a loop
  or of a pending timer panics if the configured interval is positive and not absurdly long.
\<close>

definition sch_inv :: "CheckScheduler \<Rightarrow> bool" where
  "sch_inv s \<longleftrightarrow>
     distinct (map fst (sch_pending s)) \<and>
     (\<forall>(t, c, d) \<in> set (sch_pending s). sch_timers s (chk_ID c) = Some t \<and> t < sch_next s \<and> 0 < d) \<and>
     (\<forall>i t. sch_timers s i = Some t \<longrightarrow> t < sch_next s) \<and> 0 < sch_interval s \<and> sch_interval s \<le> 9223372036"

lemma interval_positive: "0 < n \<Longrightarrow> n \<le> 9223372036 \<Longrightarrow> 0 < dur_mul n second"
  by (subst dur_mul_def, subst wrap64_id) (simp_all add: second_def)

lemma sch_inv_stop_timer: "sch_inv s \<Longrightarrow> sch_inv (stop_timer i s)"
  unfolding sch_inv_def stop_timer_def
  by (cases "sch_timers s i") (auto simp: distinct_map_filter_key)

lemma stop_timer_gone: "sch_inv s \<Longrightarrow> (t, c, d) \<in> set (sch_pending (stop_timer i s)) \<Longrightarrow> chk_ID c \<noteq> i"
  unfolding sch_inv_def stop_timer_def
  by (cases "sch_timers s i") auto

lemma sch_inv_scheduleCheck:
  assumes "sch_inv s"
  shows "sch_inv (scheduleCheck c s)"
proof -
  let ?s = "stop_timer (chk_ID c) s"
  have inv: "sch_inv ?s" by (rule sch_inv_stop_timer [OF assms])
  have gone: "\<And>t c' d. (t, c', d) \<in> set (sch_pending ?s) \<Longrightarrow> chk_ID c' \<noteq> chk_ID c"
    by (rule stop_timer_gone [OF assms])
  have "0 < sch_interval ?s" "sch_interval ?s \<le> 9223372036" using inv by (simp_all add: sch_inv_def)
  then have "0 < dur_mul (sch_interval ?s) second" by (rule interval_positive)
  moreover have "sch_next ?s \<notin> fst ` set (sch_pending ?s)" using inv by (auto simp: sch_inv_def)
  ultimately show ?thesis using inv gone
    unfolding scheduleCheck_def Let_def sch_inv_def
    by (auto simp: less_Suc_eq split: if_splits)
qed

lemma sch_inv_stop_all: "sch_inv s \<Longrightarrow> sch_inv (stop_all_timers s)"
  unfolding sch_inv_def stop_all_timers_def by (auto simp: distinct_map_filter_key)

lemma sch_inv_rescheduleAll: "sch_inv s \<Longrightarrow> sch_inv (rescheduleAll st s)"
proof -
  have "sch_inv s \<Longrightarrow> sch_inv (fold scheduleCheck cs s)" for cs s
    by (induction cs arbitrary: s) (auto simp: sch_inv_scheduleCheck)
  then show "sch_inv s \<Longrightarrow> sch_inv (rescheduleAll st s)" by (simp add: rescheduleAll_def sch_inv_stop_all)
qed

lemma sch_inv_cong:
  "sch_inv s \<Longrightarrow> sch_timers s' = sch_timers s \<Longrightarrow> sch_next s' = sch_next s \<Longrightarrow> sch_interval s' = sch_interval s \<Longrightarrow>
     distinct (map fst (sch_pending s')) \<Longrightarrow> set (sch_pending s') \<subseteq> set (sch_pending s) \<Longrightarrow> sch_inv s'"
  unfolding sch_inv_def by auto

lemma sch_inv_step: "sch_step s e s' \<Longrightarrow> sch_inv s \<Longrightarrow> sch_inv s'"
proof (induction rule: sch_step.induct)
  case (start s st)
  have "sch_inv (s\<lparr>sch_running := True\<rparr>)" using start by (rule sch_inv_cong) (use start in \<open>auto simp: sch_inv_def\<close>)
  then show ?case using start by (simp add: sch_Start_def sch_inv_rescheduleAll)
next
  case (stop s)
  have "sch_inv (stop_all_timers (s\<lparr>sch_running := False\<rparr>))"
    by (rule sch_inv_stop_all, rule sch_inv_cong [OF stop]) (use stop in \<open>auto simp: sch_inv_def\<close>)
  then show ?case using stop by (auto simp: sch_Stop_def sch_inv_def)
next
  case (reschedule s st)
  then show ?case by (simp add: RescheduleAll_def sch_inv_rescheduleAll)
next
  case (upsert s check)
  then show ?case by (simp add: UpsertSchedule_def sch_inv_scheduleCheck)
next
  case (remove s i)
  show ?case unfolding RemoveSchedule_def Let_def
    by (rule sch_inv_cong [OF sch_inv_stop_timer [OF remove, of i]])
      (use sch_inv_stop_timer [OF remove, of i] in \<open>auto simp: sch_inv_def\<close>)
next
  case (fire p s env s' attempts)
  obtain t c d where p: "p = (t, c, d)" by (cases p)
  have s': "s' = (fst (runCheck env c (s\<lparr>sch_pending := remove1 p (sch_pending s)\<rparr>)))\<lparr>sch_loops :=
      sch_loops (fst (runCheck env c (s\<lparr>sch_pending := remove1 p (sch_pending s)\<rparr>))) @ [(chk_ID c, d)]\<rparr>"
    using fire(2) by (simp add: timer_fires_def p case_prod_unfold Let_def split: if_splits)
  have "distinct (map fst (remove1 p (sch_pending s)))" using fire(3)
    by (simp add: sch_inv_def distinct_map distinct_remove1 inj_on_def)
  then show ?case
    using set_remove1_subset [of p "sch_pending s"] by (intro sch_inv_cong [OF fire(3)]) (auto simp: s')
next
  case (tick l s env st s' attempts)
  have "s' = s \<or> s' = s\<lparr>sch_loops := remove1 l (sch_loops s)\<rparr> \<or> (\<exists>c. s' = fst (runCheck env c s))"
    using tick(2) by (auto simp: loop_ticks_def Let_def split: option.splits if_splits) (metis fst_conv)
  then show ?case using tick(3) by (auto intro!: sch_inv_cong [OF tick(3)] simp: sch_inv_def)
qed

lemma sch_inv_steps: "sch_steps s tr s' \<Longrightarrow> sch_inv s \<Longrightarrow> sch_inv s'"
  by (induction rule: sch_steps.induct) (auto dest: sch_inv_step)

text \<open>
  In any history of a scheduler whose configured interval is between one second and the longest
  that fits a \<open>Duration\<close>, no two timers of the same check are pending, no ticker panics when a pending
  timer fires, and removing a check leaves no timer of it pending; but the loops that are already
  running stay, whatever is removed.
\<close>

theorem timers_stay_consistent:
  assumes "0 < cfg_CheckIntervalSeconds cfg" and "cfg_CheckIntervalSeconds cfg \<le> 9223372036"
    and "sch_steps (NewCheckScheduler cfg) tr s"
  shows "distinct (map (\<lambda>(t, c, d). chk_ID c) (sch_pending s)) \<and>
    (\<forall>p \<in> set (sch_pending s). timer_fires env p s \<noteq> None) \<and>
    (\<forall>(t, c, d) \<in> set (sch_pending (RemoveSchedule i s)). chk_ID c \<noteq> i) \<and>
    sch_loops (RemoveSchedule i s) = sch_loops s"
proof -
  have "sch_inv (NewCheckScheduler cfg)" using assms(1,2) by (simp add: sch_inv_def NewCheckScheduler_def)
  then have inv: "sch_inv s" by (rule sch_inv_steps [OF assms(3)])
  have "inj_on (\<lambda>(t, c, d). chk_ID c) (set (sch_pending s))"
  proof (rule inj_onI)
    fix p q
    assume pq: "p \<in> set (sch_pending s)" "q \<in> set (sch_pending s)"
      and eq: "(case p of (t, c, d) \<Rightarrow> chk_ID c) = (case q of (t, c, d) \<Rightarrow> chk_ID c)"
    have "sch_timers s (case p of (t, c, d) \<Rightarrow> chk_ID c) = Some (fst p)" if "p \<in> set (sch_pending s)" for p
      using inv that by (auto simp: sch_inv_def)
    from this [OF pq(1)] this [OF pq(2)] eq have "fst p = fst q" by simp
    moreover note pq
    moreover have "inj_on fst (set (sch_pending s))" using inv by (simp add: sch_inv_def distinct_map)
    ultimately show "p = q" by (simp add: inj_onD)
  qed
  moreover have "distinct (sch_pending s)" using inv by (auto simp: sch_inv_def distinct_map)
  moreover have "\<forall>p \<in> set (sch_pending s). timer_fires env p s \<noteq> None"
    using inv by (force simp: sch_inv_def timer_fires_def split: prod.splits)
  moreover have "\<forall>(t, c, d) \<in> set (sch_pending (RemoveSchedule i s)). chk_ID c \<noteq> i"
    using stop_timer_gone [OF inv] by (auto simp: RemoveSchedule_def Let_def)
  ultimately show ?thesis by (simp add: distinct_map RemoveSchedule_def Let_def)
qed

lemma sch_steps_trans: "sch_steps s' tr' s'' \<Longrightarrow> sch_steps s tr s' \<Longrightarrow> sch_steps s (tr @ tr') s''"
proof (induction rule: sch_steps.induct)
  case (silent s tr s' s'')
  then show ?case by (auto intro: sch_steps.silent)
next
  case (run s tr s' e s'')
  then show ?case by (metis append.assoc sch_steps.run)
qed simp

text \<open>An update of a check whose timer then fires, and a sequence of such updates with what each first run meets.\<close>

definition update_and_fire :: "CheckConfig \<Rightarrow> run_env \<Rightarrow> CheckScheduler \<Rightarrow> CheckScheduler option" where
  "update_and_fire c env s = (let s = UpsertSchedule c s in map_option fst (timer_fires env (last (sch_pending s)) s))"

fun updates_fired :: "CheckConfig \<Rightarrow> run_env list \<Rightarrow> CheckScheduler \<Rightarrow> CheckScheduler option" where
  "updates_fired c [] s = Some s"
| "updates_fired c (env # envs) s = Option.bind (update_and_fire c env s) (updates_fired c envs)"

lemma update_adds_loop:
  assumes "sch_running s" and "\<not> sch_cancelled s" and "check_is_enabled c"
    and "0 < dur_mul (getCheckInterval s c) second"
  shows "\<exists>attempts s'. update_and_fire c env s = Some s' \<and> sch_steps s [(chk_ID c, attempts)] s' \<and>
    sch_running s' \<and> \<not> sch_cancelled s' \<and> sch_interval s' = sch_interval s \<and>
    sch_loops s' = sch_loops s @ [(chk_ID c, dur_mul (getCheckInterval s c) second)]"
proof -
  define p where "p = (sch_next (stop_timer (chk_ID c) s), c, dur_mul (getCheckInterval s c) second)"
  define s1 where "s1 = UpsertSchedule c s"
  have gi: "getCheckInterval (stop_timer (chk_ID c) s) c = getCheckInterval s c" by (simp add: getCheckInterval_def)
  have s1: "sch_running s1" "\<not> sch_cancelled s1" "sch_interval s1 = sch_interval s" "sch_loops s1 = sch_loops s"
    "p \<in> set (sch_pending s1)" "last (sch_pending s1) = p"
    using assms by (simp_all add: s1_def UpsertSchedule_def scheduleCheck_def Let_def p_def gi)
  let ?r = "runCheck env c (s1\<lparr>sch_pending := remove1 p (sch_pending s1)\<rparr>)"
  let ?s' = "(fst ?r)\<lparr>sch_loops := sch_loops (fst ?r) @ [(chk_ID c, dur_mul (getCheckInterval s c) second)]\<rparr>"
  have f: "timer_fires env p s1 = Some (?s', snd ?r)"
    using assms(4) by (simp add: timer_fires_def p_def case_prod_unfold Let_def)
  then have "sch_step s1 (Some (chk_ID (fst (snd p)), snd ?r)) ?s'" by (rule sch_step.fire [OF s1(5)])
  moreover have "sch_steps s [] s1"
    unfolding s1_def by (rule sch_steps.silent [OF sch_steps.refl sch_step.upsert])
  ultimately have "sch_steps s ([] @ [(chk_ID (fst (snd p)), snd ?r)]) ?s'" by (intro sch_steps.run)
  moreover have "update_and_fire c env s = Some ?s'"
    using f s1(6) by (simp add: update_and_fire_def s1_def [symmetric] Let_def)
  ultimately show ?thesis using s1(1-4) by (intro exI [of _ "snd ?r"] exI [of _ ?s']) (simp add: p_def)
qed

lemma tick_runs:
  assumes "\<not> sch_cancelled s" and "findCheckByID (st_Checks st) (fst l) = Some cur" and "check_is_enabled cur"
    and "\<not> in_sch_cooldown (run_now env) (fst l) s"
  shows "snd (loop_ticks env st l s) \<noteq> [] \<and> sch_loops (fst (loop_ticks env st l s)) = sch_loops s"
proof -
  have "chk_ID cur = fst l" using find_SomeD [OF assms(2) [unfolded findCheckByID_def]] by simp
  then show ?thesis
    using assms run_attempts_first [of env "nat (getCheckRetryCount cur)"]
    by (simp add: loop_ticks_def runCheck_def case_prod_unfold Let_def)
qed

text \<open>
  C12: Stopping the timer of a check does not stop a loop that has started, so every update of a
  check leaves one more. On a running scheduler, let an enabled check, whose interval in nanoseconds does not
  overflow to zero or below, be updated any number of times, and let the timer of each update fire before the
  next one, whatever the runs meet. None of this fails; the loops that there were are still there, and there is
  one more for each update, with a ticker of the interval of the check. Each of these, at a tick that finds the
  check stored, enabled and not in a cooldown, runs it and goes on. So after \<open>n\<close> updates the check is run by \<open>n\<close> more
  tickers of its interval.
\<close>

theorem updates_multiply_runs:
  assumes "sch_running s" and "\<not> sch_cancelled s" and "check_is_enabled c"
    and "0 < dur_mul (getCheckInterval s c) second"
  shows "\<exists>tr s'. updates_fired c envs s = Some s' \<and> sch_steps s tr s' \<and> map fst tr = replicate (length envs) (chk_ID c) \<and>
    sch_loops s' = sch_loops s @ replicate (length envs) (chk_ID c, dur_mul (getCheckInterval s c) second) \<and>
    (\<forall>l \<in> set (sch_loops s'). \<forall>env st cur. fst l = chk_ID c \<and>
       findCheckByID (st_Checks st) (chk_ID c) = Some cur \<and> check_is_enabled cur \<and>
       \<not> in_sch_cooldown (run_now env) (chk_ID c) s' \<longrightarrow>
         snd (loop_ticks env st l s') \<noteq> [] \<and> sch_loops (fst (loop_ticks env st l s')) = sch_loops s')"
proof -
  have "\<exists>tr s'. updates_fired c envs s = Some s' \<and> sch_steps s tr s' \<and> map fst tr = replicate (length envs) (chk_ID c) \<and>
    \<not> sch_cancelled s' \<and> sch_loops s' = sch_loops s @ replicate (length envs) (chk_ID c, dur_mul (getCheckInterval s c) second)"
    using assms
  proof (induction envs arbitrary: s)
    case Nil
    then show ?case by (intro exI [of _ "[]"] exI [of _ s]) (simp add: sch_steps.refl)
  next
    case (Cons env envs)
    obtain a s1 where s1: "update_and_fire c env s = Some s1" "sch_steps s [(chk_ID c, a)] s1" "sch_running s1"
      "\<not> sch_cancelled s1" "sch_interval s1 = sch_interval s"
      "sch_loops s1 = sch_loops s @ [(chk_ID c, dur_mul (getCheckInterval s c) second)]"
      using update_adds_loop [OF Cons.prems] by blast
    have gi: "getCheckInterval s1 c = getCheckInterval s c" using s1(5) by (simp add: getCheckInterval_def)
    obtain tr s' where s': "updates_fired c envs s1 = Some s'" "sch_steps s1 tr s'" "map fst tr = replicate (length envs) (chk_ID c)"
      "\<not> sch_cancelled s'" "sch_loops s' = sch_loops s1 @ replicate (length envs) (chk_ID c, dur_mul (getCheckInterval s1 c) second)"
      using Cons.IH [OF s1(3,4) Cons.prems(3)] Cons.prems(4) unfolding gi by blast
    show ?case
      using s1(1,6) s' sch_steps_trans [OF s'(2) s1(2)]
      by (intro exI [of _ "(chk_ID c, a) # tr"] exI [of _ s']) (simp add: gi)
  qed
  then show ?thesis using tick_runs by (metis (no_types, lifting))
qed

section \<open>Concrete runs\<close>

definition flaky_check :: CheckConfig where
  "flaky_check = zero_check\<lparr>chk_ID := ''c'', chk_IntervalSeconds := 30, chk_RetryCount := 1, chk_CooldownSeconds := 60\<rparr>"

text \<open>A run whose two attempts fail, and one whose second attempt is healthy.\<close>

definition failing_env :: run_env where
  "failing_env = \<lparr>run_now = 100, run_done = (\<lambda>_. False), run_attempt = (\<lambda>_. Inr zero_result), run_ended = 200\<rparr>"

definition recovering_env :: run_env where
  "recovering_env = failing_env\<lparr>run_attempt := (\<lambda>n. if n = 0 then Inl () else Inr (zero_result\<lparr>res_Healthy := True\<rparr>))\<rparr>"

definition example_config :: Config where
  "example_config = \<lparr>cfg_Server = \<lparr>sc_Addr = [], sc_ReadTimeoutSeconds = 0, sc_WriteTimeoutSeconds = 0,
     sc_IdleTimeoutSeconds = 0\<rparr>, cfg_Auth = \<lparr>auth_Enabled = False, auth_Username = [], auth_Password = []\<rparr>,
     cfg_RetentionDays = 7, cfg_CheckIntervalSeconds = 60, cfg_Workers = 1, cfg_AllowCommandChecks = False,
     cfg_Servers = [], cfg_Checks = []\<rparr>"

definition one_check_state :: State where
  "one_check_state = \<lparr>st_Checks = [flaky_check], st_Results = [], st_LastRunAt = 0, st_UpdatedAt = 0\<rparr>"

definition started :: CheckScheduler where
  "started = sch_Start one_check_state (NewCheckScheduler example_config)"

theorem runCheck_correct_witness:
  "sch_cooldowns (fst (runCheck failing_env flaky_check started)) ''c'' = Some (200 + 60000000000) \<and>
   fst (runCheck recovering_env flaky_check started) = started"
proof (rule conjI)
  have "\<not> sch_cancelled started" by code_simp
  moreover have "sch_cooldowns started ''c'' = None" by code_simp
  then have "\<not> in_sch_cooldown (run_now env) (chk_ID flaky_check) started" for env
    by (simp add: in_sch_cooldown_def flaky_check_def)
  ultimately have correct: "runCheck env flaky_check started = (s', attempts) \<Longrightarrow>
      s' = (if 0 < chk_CooldownSeconds flaky_check \<and>
            int (length attempts) = max 0 (chk_RetryCount flaky_check) + 1 \<and> (\<forall>a \<in> set attempts. \<not> healthy_attempt a)
          then started\<lparr>sch_cooldowns := (sch_cooldowns started)(chk_ID flaky_check \<mapsto>
            run_ended env + dur_mul (chk_CooldownSeconds flaky_check) second)\<rparr> else started)" for env s' attempts
    using runCheck_correct by blast
  have "snd (runCheck failing_env flaky_check started) = [Inr zero_result, Inr zero_result]" by code_simp
  then show "sch_cooldowns (fst (runCheck failing_env flaky_check started)) ''c'' = Some (200 + 60000000000)"
    using correct [of failing_env, OF prod.collapse [symmetric]]
    by (simp add: flaky_check_def healthy_attempt_def zero_check_def zero_result_def failing_env_def dur_mul_def second_def wrap64_def)
  have "snd (runCheck recovering_env flaky_check started) = [Inl (), Inr (zero_result\<lparr>res_Healthy := True\<rparr>)]" by code_simp
  then show "fst (runCheck recovering_env flaky_check started) = started"
    using correct [of recovering_env, OF prod.collapse [symmetric]] by (simp add: healthy_attempt_def)
qed

theorem stopped_for_good_witness:
  "snd (runCheck failing_env flaky_check (sch_Start one_check_state (sch_Start one_check_state (sch_Stop started)))) = []"
proof -
  have "sch_running started" by code_simp
  moreover have "sch_steps (sch_Stop started) [] (sch_Start one_check_state (sch_Stop started))"
    by (rule sch_steps.silent [OF sch_steps.refl sch_step.start])
  ultimately show ?thesis using stopped_for_good by blast
qed

theorem timers_stay_consistent_witness:
  "timer_fires failing_env (0, flaky_check, 30000000000) started \<noteq> None \<and>
   list_all (\<lambda>(t, c, d). chk_ID c \<noteq> ''c'') (sch_pending (RemoveSchedule ''c'' started))"
proof -
  have "sch_steps (NewCheckScheduler example_config) [] started"
    unfolding started_def by (rule sch_steps.silent [OF sch_steps.refl sch_step.start])
  moreover have "0 < cfg_CheckIntervalSeconds example_config" "cfg_CheckIntervalSeconds example_config \<le> 9223372036"
    by (simp_all add: example_config_def)
  moreover have "sch_pending started = [(0, flaky_check, 30000000000)]" by code_simp
  ultimately show ?thesis using timers_stay_consistent by (fastforce simp: list_all_iff)
qed

theorem updates_multiply_runs_witness:
  "map_option sch_loops (updates_fired flaky_check [failing_env, recovering_env, failing_env] started) =
     Some (replicate 3 (''c'', 30000000000))"
proof -
  have "sch_running started" "\<not> sch_cancelled started" "check_is_enabled flaky_check" "sch_loops started = []"
    "dur_mul (getCheckInterval started flaky_check) second = 30000000000" "chk_ID flaky_check = ''c''"
    by code_simp+
  with updates_multiply_runs [of started flaky_check "[failing_env, recovering_env, failing_env]"]
  show ?thesis by (auto simp: eval_nat_numeral)
qed

end
