(* ===== verification/Summaries.thy ===== *)
theory Summaries
  imports Model
begin

text \<open>
  The read side of the check results: \<open>filterResults\<close>, \<open>buildSummary\<close> with its counters
  (\<open>service.go\<close>), \<open>buildDashboardSnapshot\<close> (\<open>dashboard.go\<close>) and \<open>pruneResults\<close>
  (\<open>store.go\<close>), the retention rule that the stores apply. The lemmas show that the counters are
  the numbers of checks in each state, overall and for each group, and what retention keeps.
\<close>

section \<open>Retention\<close>

text \<open>
  \<^verbatim>\<open>now.Add(-time.Duration(days) * 24 * time.Hour)\<close>; the two products are 64-bit products, so
  \<open>days\<close> from 106752 on does not give a point 106752 days ago.
\<close>

definition retention_cutoff :: "gotime \<Rightarrow> int \<Rightarrow> gotime" where
  "retention_cutoff now days = time_add now (dur_mul (wrap64 (wrap64 (- days) * 24)) hour)"

lemma retention_cutoff_exact:
  "0 < days \<Longrightarrow> days \<le> 106751 \<Longrightarrow> retention_cutoff now days = now - days * 86400000000000"
  by (simp add: retention_cutoff_def go_time wrap64_id)

text \<open>The time a result counts for: when it finished, else when it started.\<close>

definition result_time :: "CheckResult \<Rightarrow> gotime" where
  "result_time r = (if is_zero (res_FinishedAt r) then res_StartedAt r else res_FinishedAt r)"

definition pruneResults :: "gotime \<Rightarrow> int \<Rightarrow> CheckResult list \<Rightarrow> CheckResult list" where
  "pruneResults now retentionDays results =
     (if retentionDays \<le> 0 then results
      else
        let cutoff = retention_cutoff now retentionDays;
            items = filter (\<lambda>r. is_zero (result_time r) \<or> after (result_time r) cutoff) results
        in sort_key res_FinishedAt items)"

lemma set_pruneResults: "set (pruneResults now days rs) \<subseteq> set rs"
  by (auto simp: pruneResults_def Let_def)

lemma sorted_pruneResults:
  "0 < days \<Longrightarrow> sorted (map res_FinishedAt (pruneResults now days rs))"
  by (simp add: pruneResults_def Let_def)

lemma mset_pruneResults:
  "0 < days \<Longrightarrow> mset (pruneResults now days rs) =
     filter_mset (\<lambda>r. is_zero (result_time r) \<or> retention_cutoff now days < result_time r) (mset rs)"
  by (simp add: pruneResults_def Let_def after_def)

lemma pruneResults_idem: "pruneResults now days (pruneResults now days rs) = pruneResults now days rs"
proof (cases "0 < days")
  case True
  have keep: "filter P (sort_key k (filter P xs)) = sort_key k (filter P xs)"
    for P and k :: "CheckResult \<Rightarrow> int" and xs
    by (rule filter_True) simp
  have again: "sort_key k (sort_key k xs) = sort_key k xs" for k :: "CheckResult \<Rightarrow> int" and xs
    by (rule sort_key_id_if_sorted) simp
  from True have "\<not> days \<le> 0" by simp
  then show ?thesis by (simp only: pruneResults_def Let_def if_False keep again)
next
  case False
  then show ?thesis by (simp add: pruneResults_def)
qed

definition filterResults :: "gotime \<Rightarrow> CheckResult list \<Rightarrow> string \<Rightarrow> int \<Rightarrow> CheckResult list" where
  "filterResults now results checkID days0 =
     (let days = (if days0 \<le> 0 then 7 else days0);
          cutoff = retention_cutoff now days
      in filter (\<lambda>r. \<not> (\<not> is_zero (result_time r) \<and> before (result_time r) cutoff) \<and>
                     \<not> (checkID \<noteq> [] \<and> res_CheckID r \<noteq> checkID)) results)"

section \<open>The summary\<close>

definition latest_by_id :: "CheckResult list \<Rightarrow> string \<rightharpoonup> CheckResult" where
  "latest_by_id results = foldl (\<lambda>m r. m(res_CheckID r \<mapsto> r)) Map.empty results"

definition not_run_yet :: "CheckConfig \<Rightarrow> CheckResult" where
  "not_run_yet check = zero_result\<lparr>
     res_CheckID := chk_ID check, res_Name := chk_Name check, res_Type := chk_Type check,
     res_Server := chk_Server check, res_Application := chk_Application check,
     res_Status := ''unknown'', res_Healthy := False,
     res_Message := ''check has not run yet'', res_Tags := chk_Tags check\<rparr>"

definition accumulateCount :: "CheckResult \<Rightarrow> Summary \<Rightarrow> Summary" where
  "accumulateCount result s =
     (if res_Status result = ''healthy'' then s\<lparr>sum_Healthy := sum_Healthy s + 1\<rparr>
      else if res_Status result = ''warning'' then s\<lparr>sum_Warning := sum_Warning s + 1\<rparr>
      else if res_Status result = ''critical'' then s\<lparr>sum_Critical := sum_Critical s + 1\<rparr>
      else s\<lparr>sum_Unknown := sum_Unknown s + 1\<rparr>)"

definition count_status :: "string \<Rightarrow> StatusCount \<Rightarrow> StatusCount" where
  "count_status status c =
     (if status = ''healthy'' then c\<lparr>cnt_Healthy := cnt_Healthy c + 1\<rparr>
      else if status = ''warning'' then c\<lparr>cnt_Warning := cnt_Warning c + 1\<rparr>
      else if status = ''critical'' then c\<lparr>cnt_Critical := cnt_Critical c + 1\<rparr>
      else c\<lparr>cnt_Unknown := cnt_Unknown c + 1\<rparr>)"

definition group_key :: "string \<Rightarrow> string" where
  "group_key key = (if key = [] then ''default'' else key)"

definition addGroupCount ::
  "string \<Rightarrow> string \<Rightarrow> (string \<times> StatusCount) list \<Rightarrow> (string \<times> StatusCount) list" where
  "addGroupCount key0 status groups =
     (let key = group_key key0;
          current = (case map_of groups key of None \<Rightarrow> zero_count | Some c \<Rightarrow> c);
          current = current\<lparr>cnt_Total := cnt_Total current + 1\<rparr>
      in AList.update key (count_status status current) groups)"

text \<open>One turn of the loop over the checks.\<close>

definition result_of :: "(string \<rightharpoonup> CheckResult) \<Rightarrow> CheckConfig \<Rightarrow> CheckResult" where
  "result_of latestByID check =
     (case latestByID (chk_ID check) of Some r \<Rightarrow> r | None \<Rightarrow> not_run_yet check)"

definition summary_step :: "(string \<rightharpoonup> CheckResult) \<Rightarrow> Summary \<Rightarrow> CheckConfig \<Rightarrow> Summary" where
  "summary_step latestByID s check =
     (let result = result_of latestByID check;
          s = s\<lparr>sum_Latest := sum_Latest s @ [result]\<rparr>;
          s = (if check_is_enabled check then s\<lparr>sum_EnabledChecks := sum_EnabledChecks s + 1\<rparr> else s);
          s = accumulateCount result s
      in s\<lparr>sum_ByServer := addGroupCount (chk_Server check) (res_Status result) (sum_ByServer s),
           sum_ByApplication :=
             addGroupCount (chk_Application check) (res_Status result) (sum_ByApplication s)\<rparr>)"

definition empty_summary :: "nat \<Rightarrow> gotime option \<Rightarrow> Summary" where
  "empty_summary n lastRunAt = \<lparr>sum_TotalChecks = int n, sum_EnabledChecks = 0, sum_Healthy = 0,
     sum_Warning = 0, sum_Critical = 0, sum_Unknown = 0,
     sum_LastRunAt = (case lastRunAt of
        None \<Rightarrow> None | Some t \<Rightarrow> if is_zero t then None else Some t),
     sum_ByServer = [], sum_ByApplication = [], sum_Latest = []\<rparr>"

definition buildSummary :: "CheckConfig list \<Rightarrow> CheckResult list \<Rightarrow> gotime option \<Rightarrow> Summary" where
  "buildSummary checks results lastRunAt =
     foldl (summary_step (latest_by_id results)) (empty_summary (length checks) lastRunAt) checks"

definition buildDashboardSnapshot :: "gotime \<Rightarrow> State \<Rightarrow> DashboardSnapshot" where
  "buildDashboardSnapshot now state =
     \<lparr>dash_State = state,
      dash_Summary = buildSummary (st_Checks state) (st_Results state) (Some (st_LastRunAt state)),
      dash_GeneratedAt = now\<rparr>"

section \<open>What the summary counts\<close>

text \<open>
  The counters as they are meant: a \<open>tally\<close> of a list of results, computed by filtering.
\<close>

definition tally :: "CheckResult list \<Rightarrow> StatusCount" where
  "tally rs = \<lparr>cnt_Total = int (length rs),
     cnt_Healthy = int (length (filter (\<lambda>r. res_Status r = ''healthy'') rs)),
     cnt_Warning = int (length (filter (\<lambda>r. res_Status r = ''warning'') rs)),
     cnt_Critical = int (length (filter (\<lambda>r. res_Status r = ''critical'') rs)),
     cnt_Unknown = int (length (filter
       (\<lambda>r. res_Status r \<notin> {''healthy'', ''warning'', ''critical''}) rs))\<rparr>"

definition overall :: "Summary \<Rightarrow> StatusCount" where
  "overall s = \<lparr>cnt_Total = int (length (sum_Latest s)), cnt_Healthy = sum_Healthy s,
     cnt_Warning = sum_Warning s, cnt_Critical = sum_Critical s, cnt_Unknown = sum_Unknown s\<rparr>"

lemma tally_Nil: "tally [] = zero_count"
  by (simp add: tally_def zero_count_def)

lemma tally_snoc:
  "tally (rs @ [r]) = count_status (res_Status r) ((tally rs)\<lparr>cnt_Total := cnt_Total (tally rs) + 1\<rparr>)"
  by (simp add: tally_def count_status_def)

lemma tally_total:
  "cnt_Total (tally rs) =
     cnt_Healthy (tally rs) + cnt_Warning (tally rs) + cnt_Critical (tally rs) + cnt_Unknown (tally rs)"
  by (induction rs rule: rev_induct) (auto simp: tally_Nil tally_snoc zero_count_def count_status_def)

lemma latest_by_id_snoc: "latest_by_id (rs @ [r]) = (latest_by_id rs)(res_CheckID r \<mapsto> r)"
  by (simp add: latest_by_id_def)

lemma latest_by_id_find: "latest_by_id rs i = find (\<lambda>r. res_CheckID r = i) (rev rs)"
  by (induction rs rule: rev_induct) (auto simp: latest_by_id_snoc, simp add: latest_by_id_def)

text \<open>A summary under construction: the checks handled so far, in groups.\<close>

definition grouped ::
  "(CheckConfig \<Rightarrow> string) \<Rightarrow> (CheckConfig \<Rightarrow> CheckResult) \<Rightarrow> CheckConfig list \<Rightarrow> string \<rightharpoonup> StatusCount" where
  "grouped key res cs k =
     (let mine = filter (\<lambda>c. group_key (key c) = k) cs
      in if mine = [] then None else Some (tally (map res mine)))"

lemma addGroupCount_grouped:
  "map_of groups = grouped key res cs \<Longrightarrow>
     map_of (addGroupCount (key c) (res_Status (res c)) groups) = grouped key res (cs @ [c])"
  by (rule ext)
     (auto simp: addGroupCount_def Let_def update_conv' grouped_def tally_snoc
        tally_snoc [where rs = "[]", simplified] tally_Nil split: option.splits)

lemma summary_step_fields:
  "sum_Latest (summary_step L s c) = sum_Latest s @ [result_of L c]"
  "sum_TotalChecks (summary_step L s c) = sum_TotalChecks s"
  "sum_LastRunAt (summary_step L s c) = sum_LastRunAt s"
  "sum_EnabledChecks (summary_step L s c) =
     sum_EnabledChecks s + (if check_is_enabled c then 1 else 0)"
  "sum_ByServer (summary_step L s c) =
     addGroupCount (chk_Server c) (res_Status (result_of L c)) (sum_ByServer s)"
  "sum_ByApplication (summary_step L s c) =
     addGroupCount (chk_Application c) (res_Status (result_of L c)) (sum_ByApplication s)"
  "overall (summary_step L s c) = count_status (res_Status (result_of L c))
     ((overall s)\<lparr>cnt_Total := cnt_Total (overall s) + 1\<rparr>)"
  by (simp_all add: summary_step_def Let_def accumulateCount_def overall_def count_status_def)

text \<open>The invariant of the loop, for the checks handled so far.\<close>

lemma summary_fold:
  fixes L lr n
  defines "s cs \<equiv> foldl (summary_step L) (empty_summary n lr) cs"
  shows "sum_Latest (s cs) = map (result_of L) cs" and "overall (s cs) = tally (map (result_of L) cs)"
    and "sum_EnabledChecks (s cs) = int (length (filter check_is_enabled cs))"
    and "map_of (sum_ByServer (s cs)) = grouped chk_Server (result_of L) cs"
    and "map_of (sum_ByApplication (s cs)) = grouped chk_Application (result_of L) cs"
    and "sum_TotalChecks (s cs) = int n"
  unfolding s_def
  by (induction cs rule: rev_induct)
     (simp_all add: summary_step_fields addGroupCount_grouped tally_snoc,
      simp_all add: empty_summary_def overall_def tally_def grouped_def fun_eq_iff)

lemma distinct_addGroupCount:
  "distinct (map fst groups) \<Longrightarrow> distinct (map fst (addGroupCount k st groups))"
  by (simp add: addGroupCount_def Let_def distinct_update)

lemma distinct_summary_fold:
  "distinct (map fst (sum_ByServer (foldl (summary_step L) (empty_summary n lr) cs)))"
  "distinct (map fst (sum_ByApplication (foldl (summary_step L) (empty_summary n lr) cs)))"
  by (induction cs rule: rev_induct)
     (simp_all add: summary_step_fields distinct_addGroupCount, simp_all add: empty_summary_def)

section \<open>Properties\<close>

text \<open>
  \<open>buildSummary\<close> reports for every check its last result (or the "has not run yet" result),
  its overall counters are the numbers of checks in each state and add up to the number of checks,
  the enabled counter counts the enabled checks, and the entry of every server and application is
  the tally of exactly the checks of that group (absent for a group without checks).
\<close>

theorem buildSummary_correct:
  fixes cs rs lr
  defines "s \<equiv> buildSummary cs rs lr"
    and "res \<equiv> \<lambda>c. case find (\<lambda>r. res_CheckID r = chk_ID c) (rev rs) of
           Some r \<Rightarrow> r | None \<Rightarrow> not_run_yet c"
  shows "sum_Latest s = map res cs \<and> overall s = tally (map res cs) \<and>
    sum_TotalChecks s = sum_Healthy s + sum_Warning s + sum_Critical s + sum_Unknown s \<and>
    sum_TotalChecks s = int (length cs) \<and>
    sum_EnabledChecks s = int (length (filter check_is_enabled cs)) \<and>
    map_of (sum_ByServer s) = grouped chk_Server res cs \<and>
    map_of (sum_ByApplication s) = grouped chk_Application res cs \<and>
    distinct (map fst (sum_ByServer s)) \<and> distinct (map fst (sum_ByApplication s))"
proof -
  have res: "res = result_of (latest_by_id rs)"
    by (simp add: res_def result_of_def latest_by_id_find fun_eq_iff)
  have s: "s = foldl (summary_step (latest_by_id rs)) (empty_summary (length cs) lr) cs"
    by (simp add: s_def buildSummary_def)
  note facts = summary_fold [where L = "latest_by_id rs" and n = "length cs" and lr = lr and cs = cs,
      folded s res]
  have "cnt_Total (overall s) = int (length cs)" by (simp add: facts(2) tally_def)
  moreover have "sum_Healthy s + sum_Warning s + sum_Critical s + sum_Unknown s = cnt_Total (overall s)"
    using tally_total [of "map res cs", folded facts(2)] by (simp add: overall_def)
  ultimately show ?thesis
    using facts distinct_summary_fold [where L = "latest_by_id rs" and n = "length cs" and lr = lr
        and cs = cs, folded s]
    by simp
qed

text \<open>
  within the range of days where the 64-bit products are exact, \<open>pruneResults\<close> keeps
  exactly the results younger than \<open>days\<close> times 24 hours and the results without any time, orders
  them by the time they finished, keeps the order of results that finished together, and is
  idempotent.
\<close>

theorem pruneResults_correct:
  assumes "0 < days" and "days \<le> 106751"
  shows "mset (pruneResults now days rs) =
      filter_mset (\<lambda>r. result_time r = 0 \<or> now - days * 86400000000000 < result_time r) (mset rs) \<and>
    sorted (map res_FinishedAt (pruneResults now days rs)) \<and>
    filter (\<lambda>r. res_FinishedAt r = t) (pruneResults now days rs) =
      filter (\<lambda>r. res_FinishedAt r = t \<and>
        (result_time r = 0 \<or> now - days * 86400000000000 < result_time r)) rs \<and>
    pruneResults now days (pruneResults now days rs) = pruneResults now days rs"
  using assms
  by (simp add: mset_pruneResults sorted_pruneResults pruneResults_idem retention_cutoff_exact go_time)
     (simp add: pruneResults_def Let_def retention_cutoff_exact sort_key_stable go_time conj_commute)

theorem pruneResults_correct_witness:
  "pruneResults 86400000000005 1
     [zero_result\<lparr>res_ID := ''b'', res_FinishedAt := 9\<rparr>,
      zero_result\<lparr>res_ID := ''old'', res_StartedAt := 5\<rparr>,
      zero_result\<lparr>res_ID := ''a'', res_FinishedAt := 6\<rparr>] =
     [zero_result\<lparr>res_ID := ''a'', res_FinishedAt := 6\<rparr>,
      zero_result\<lparr>res_ID := ''b'', res_FinishedAt := 9\<rparr>] \<and>
   sorted (map res_FinishedAt (pruneResults 86400000000005 1
     [zero_result\<lparr>res_ID := ''b'', res_FinishedAt := 9\<rparr>,
      zero_result\<lparr>res_ID := ''old'', res_StartedAt := 5\<rparr>,
      zero_result\<lparr>res_ID := ''a'', res_FinishedAt := 6\<rparr>]))"
  using pruneResults_correct [of 1 86400000000005 "[zero_result\<lparr>res_ID := ''b'', res_FinishedAt := 9\<rparr>,
      zero_result\<lparr>res_ID := ''old'', res_StartedAt := 5\<rparr>,
      zero_result\<lparr>res_ID := ''a'', res_FinishedAt := 6\<rparr>]"]
  by (simp add: pruneResults_def Let_def retention_cutoff_exact result_time_def zero_result_def go_time)

text \<open>
  a retention of 106752 days or more is not a long retention. At 106752 days (about 292
  years) the product of days, 24 and one hour leaves the 64-bit range, the cutoff lies in the
  future, and a result that finished at or before \<open>now\<close> is dropped by \<open>pruneResults\<close> and
  not shown by \<open>filterResults\<close>.
\<close>

theorem retention_overflow:
  "0 < result_time r \<and> result_time r \<le> now \<longrightarrow>
     r \<notin> set (pruneResults now 106752 rs) \<and> r \<notin> set (filterResults now rs checkID 106752)"
  by (simp add: pruneResults_def filterResults_def retention_cutoff_def wrap64_def go_time Let_def)

theorem retention_overflow_witness:
  "pruneResults 10 106752 [zero_result\<lparr>res_FinishedAt := 9\<rparr>] = [] \<and>
   pruneResults 10 106751 [zero_result\<lparr>res_FinishedAt := 9\<rparr>] = [zero_result\<lparr>res_FinishedAt := 9\<rparr>]"
  using retention_overflow [of "zero_result\<lparr>res_FinishedAt := 9\<rparr>" 10
      "[zero_result\<lparr>res_FinishedAt := 9\<rparr>]" "[]"]
  by (simp add: pruneResults_def Let_def retention_cutoff_def wrap64_def result_time_def
      zero_result_def go_time)

end
