(* ===== verification/Stores.thy ===== *)
theory Stores
  imports Summaries
begin

text \<open>
  The stores of the monitoring state: the \<open>Store\<close> interface as a locale, \<open>FileStore\<close>
  (\<open>store.go\<close>), which writes a new state to disk before it becomes the current one, and
  \<open>HybridStore\<close> (\<open>hybrid_store.go\<close>), which mirrors a \<open>FileStore\<close> to a database. What a
  client may rely on is proved once, inside the locale, and holds for both stores by
  interpretation. The database behind the mirror is a parameter: two functions, one that reads its
  state and one that replaces it.
\<close>

section \<open>FileStore\<close>

text \<open>
  A mutator either fails, or changes the copy of the state it was given. \<open>fs_disk\<close> is what the
  state file holds (\<open>None\<close>: no file); encoding the state and reading it back is the identity here.
\<close>

type_synonym mutator = "State \<Rightarrow> string + State"

record FileStore =
  fs_state :: State
  fs_disk :: "State option"

text \<open>The answers of the environment to one store operation: the clock, and whether writing fails.\<close>

record StoreEnv =
  env_now :: gotime
  env_werr :: "string option"

definition writeLocked :: "StoreEnv \<Rightarrow> State \<Rightarrow> FileStore \<Rightarrow> FileStore \<times> string option" where
  "writeLocked env state s =
     (case env_werr env of
        Some err \<Rightarrow> (s, Some err)
      | None \<Rightarrow> (s\<lparr>fs_disk := Some state\<rparr>, None))"

definition fs_update :: "StoreEnv \<Rightarrow> mutator \<Rightarrow> FileStore \<Rightarrow> FileStore \<times> string option" where
  "fs_update env mutate s =
     (case mutate (fs_state s) of
        Inl err \<Rightarrow> (s, Some err)
      | Inr nxt0 \<Rightarrow>
          (let nxt = nxt0\<lparr>st_UpdatedAt := env_now env\<rparr>
           in case writeLocked env nxt s of
                (s', Some err) \<Rightarrow> (s', Some err)
              | (s', None) \<Rightarrow> (s'\<lparr>fs_state := nxt\<rparr>, None)))"

text \<open>\<open>NewFileStore\<close>: the configured checks are only a seed for a store without a state file.\<close>

definition empty_state :: State where
  "empty_state = \<lparr>st_Checks = [], st_Results = [], st_LastRunAt = zero_time, st_UpdatedAt = zero_time\<rparr>"

definition NewFileStore ::
  "StoreEnv \<Rightarrow> string \<Rightarrow> State option \<Rightarrow> CheckConfig list \<Rightarrow> string + FileStore" where
  "NewFileStore env path disk checks =
     (if path = [] then Inl ''state path is required''
      else
        let state = (case disk of Some st \<Rightarrow> st | None \<Rightarrow> empty_state);
            state = (if disk = None \<and> length checks > 0 then state\<lparr>st_Checks := checks\<rparr> else state);
            state = state\<lparr>st_UpdatedAt := env_now env\<rparr>
        in case writeLocked env state \<lparr>fs_state = state, fs_disk = disk\<rparr> of
             (_, Some err) \<Rightarrow> Inl err
           | (s, None) \<Rightarrow> Inr s)"

definition fs_snapshot :: "FileStore \<Rightarrow> State" where
  "fs_snapshot s = fs_state s"

definition fs_dashboard_snapshot :: "gotime \<Rightarrow> FileStore \<Rightarrow> DashboardSnapshot" where
  "fs_dashboard_snapshot now s = buildDashboardSnapshot now (fs_state s)"

subsection \<open>The mutators of the operations\<close>

definition replace_mut :: "CheckConfig list \<Rightarrow> mutator" where
  "replace_mut checks st = Inr (st\<lparr>st_Checks := checks\<rparr>)"

definition upsert_mut :: "CheckConfig \<Rightarrow> mutator" where
  "upsert_mut check st =
     Inr (if find (\<lambda>c. chk_ID c = chk_ID check) (st_Checks st) \<noteq> None
          then st\<lparr>st_Checks := replace_first (\<lambda>c. chk_ID c = chk_ID check) (\<lambda>_. check) (st_Checks st)\<rparr>
          else st\<lparr>st_Checks := st_Checks st @ [check]\<rparr>)"

definition delete_mut :: "string \<Rightarrow> mutator" where
  "delete_mut i st = Inr (st\<lparr>st_Checks := filter (\<lambda>c. chk_ID c \<noteq> i) (st_Checks st)\<rparr>)"

definition append_mut :: "gotime \<Rightarrow> CheckResult list \<Rightarrow> int \<Rightarrow> mutator" where
  "append_mut now results retentionDays st =
     Inr (st\<lparr>st_Results := pruneResults now retentionDays (st_Results st @ results)\<rparr>)"

definition setlast_mut :: "gotime \<Rightarrow> mutator" where
  "setlast_mut t st = Inr (st\<lparr>st_LastRunAt := t\<rparr>)"

definition fs_replace_checks ::
  "StoreEnv \<Rightarrow> CheckConfig list \<Rightarrow> FileStore \<Rightarrow> FileStore \<times> string option" where
  "fs_replace_checks env checks = fs_update env (replace_mut checks)"

definition fs_upsert_check :: "StoreEnv \<Rightarrow> CheckConfig \<Rightarrow> FileStore \<Rightarrow> FileStore \<times> string option" where
  "fs_upsert_check env check = fs_update env (upsert_mut check)"

definition fs_delete_check :: "StoreEnv \<Rightarrow> string \<Rightarrow> FileStore \<Rightarrow> FileStore \<times> string option" where
  "fs_delete_check env i = fs_update env (delete_mut i)"

definition fs_append_results ::
  "StoreEnv \<Rightarrow> CheckResult list \<Rightarrow> int \<Rightarrow> FileStore \<Rightarrow> FileStore \<times> string option" where
  "fs_append_results env results days = fs_update env (append_mut (env_now env) results days)"

definition fs_set_last_run :: "StoreEnv \<Rightarrow> gotime \<Rightarrow> FileStore \<Rightarrow> FileStore \<times> string option" where
  "fs_set_last_run env t = fs_update env (setlast_mut t)"

lemmas mutator_defs = replace_mut_def upsert_mut_def delete_mut_def append_mut_def setlast_mut_def

section \<open>What a mutator does to the checks\<close>

definition lookup_check :: "string \<Rightarrow> State \<Rightarrow> CheckConfig option" where
  "lookup_check i st = find (\<lambda>c. chk_ID c = i) (st_Checks st)"

definition check_ids :: "State \<Rightarrow> string list" where
  "check_ids st = map chk_ID (st_Checks st)"

definition distinct_ids :: "State \<Rightarrow> bool" where
  "distinct_ids st \<longleftrightarrow> distinct (check_ids st)"

lemma lookup_upsert:
  "upsert_mut c st = Inr st' \<Longrightarrow>
     lookup_check i st' = (if i = chk_ID c then Some c else lookup_check i st)"
  by (auto simp: upsert_mut_def lookup_check_def find_append find_key_replace
      split: if_splits option.splits)

lemma lookup_delete:
  "delete_mut j st = Inr st' \<Longrightarrow> lookup_check i st' = (if i = j then None else lookup_check i st)"
  by (auto simp: delete_mut_def lookup_check_def find_key_filter)

lemma check_ids_upsert:
  "upsert_mut c st = Inr st' \<Longrightarrow>
     check_ids st' = (if chk_ID c \<in> set (check_ids st) then check_ids st else check_ids st @ [chk_ID c])"
  by (auto simp: upsert_mut_def check_ids_def find_key_None map_key_replace split: if_splits)

lemma check_ids_delete:
  "delete_mut i st = Inr st' \<Longrightarrow> check_ids st' = filter (\<lambda>j. j \<noteq> i) (check_ids st)"
  by (auto simp: delete_mut_def check_ids_def filter_map o_def)

lemma distinct_upsert: "upsert_mut c st = Inr st' \<Longrightarrow> distinct_ids st \<Longrightarrow> distinct_ids st'"
  by (simp add: distinct_ids_def check_ids_upsert)

lemma distinct_delete: "delete_mut i st = Inr st' \<Longrightarrow> distinct_ids st \<Longrightarrow> distinct_ids st'"
  by (simp add: distinct_ids_def check_ids_delete)

lemma lookup_replace: "replace_mut cs st = Inr st' \<Longrightarrow> lookup_check i st' = find (\<lambda>c. chk_ID c = i) cs"
  by (auto simp: replace_mut_def lookup_check_def)

section \<open>The \<open>Store\<close> interface\<close>

text \<open>
  A store holds a current state (\<open>contents\<close>). \<open>update\<close> runs a mutator and reports an error or
  none; the environment \<open>'e\<close> of a call has a clock and says whether it can complete.
\<close>

locale store =
  fixes contents :: "'s \<Rightarrow> State"
    and clock :: "'e \<Rightarrow> gotime"
    and available :: "'e \<Rightarrow> bool"
    and update :: "'e \<Rightarrow> mutator \<Rightarrow> 's \<Rightarrow> 's \<times> string option"
  assumes update_fails: "update e m s = (s', Some err) \<Longrightarrow> contents s' = contents s"
    and update_done: "update e m s = (s', None) \<Longrightarrow>
      \<exists>st. m (contents s) = Inr st \<and> contents s' = st\<lparr>st_UpdatedAt := clock e\<rparr>"
    and update_available: "available e \<Longrightarrow> m (contents s) = Inr st \<Longrightarrow> snd (update e m s) = None"
begin

definition replace_checks :: "'e \<Rightarrow> CheckConfig list \<Rightarrow> 's \<Rightarrow> 's \<times> string option" where
  "replace_checks e cs = update e (replace_mut cs)"

definition upsert_check :: "'e \<Rightarrow> CheckConfig \<Rightarrow> 's \<Rightarrow> 's \<times> string option" where
  "upsert_check e c = update e (upsert_mut c)"

definition delete_check :: "'e \<Rightarrow> string \<Rightarrow> 's \<Rightarrow> 's \<times> string option" where
  "delete_check e i = update e (delete_mut i)"

definition append_results :: "'e \<Rightarrow> CheckResult list \<Rightarrow> int \<Rightarrow> 's \<Rightarrow> 's \<times> string option" where
  "append_results e rs days = update e (append_mut (clock e) rs days)"

definition set_last_run :: "'e \<Rightarrow> gotime \<Rightarrow> 's \<Rightarrow> 's \<times> string option" where
  "set_last_run e t = update e (setlast_mut t)"

lemma lookup_updated [simp]: "lookup_check i (st\<lparr>st_UpdatedAt := t\<rparr>) = lookup_check i st"
  by (simp add: lookup_check_def)

lemma distinct_updated [simp]: "distinct_ids (st\<lparr>st_UpdatedAt := t\<rparr>) = distinct_ids st"
  by (simp add: distinct_ids_def check_ids_def)

lemma update_lookup:
  "update e m s = (s', None) \<Longrightarrow>
     \<exists>st. m (contents s) = Inr st \<and> lookup_check i (contents s') = lookup_check i st"
  using update_done [of e m s s'] by auto

lemma lookup_after_upsert:
  "upsert_check e c s = (s', None) \<Longrightarrow>
     lookup_check i (contents s') = (if i = chk_ID c then Some c else lookup_check i (contents s))"
  unfolding upsert_check_def by (drule update_lookup [where i = i]) (auto simp: lookup_upsert)

lemma lookup_after_delete:
  "delete_check e j s = (s', None) \<Longrightarrow>
     lookup_check i (contents s') = (if i = j then None else lookup_check i (contents s))"
  unfolding delete_check_def by (drule update_lookup [where i = i]) (auto simp: lookup_delete)

lemma ids_after_upsert:
  assumes "distinct_ids (contents s)" and up: "upsert_check e c s = (s', r)"
  shows "distinct_ids (contents s')"
proof (cases r)
  case None
  with up obtain st where "upsert_mut c (contents s) = Inr st"
    and "contents s' = st\<lparr>st_UpdatedAt := clock e\<rparr>"
    unfolding upsert_check_def using update_done by blast
  with assms(1) show ?thesis by (simp add: distinct_upsert)
next
  case (Some err)
  with up assms(1) show ?thesis unfolding upsert_check_def by (simp add: update_fails)
qed

lemma ids_after_delete:
  assumes "distinct_ids (contents s)" and del: "delete_check e i s = (s', r)"
  shows "distinct_ids (contents s')"
proof (cases r)
  case None
  with del obtain st where "delete_mut i (contents s) = Inr st"
    and "contents s' = st\<lparr>st_UpdatedAt := clock e\<rparr>"
    unfolding delete_check_def using update_done by blast
  with assms(1) show ?thesis by (simp add: distinct_delete)
next
  case (Some err)
  with del assms(1) show ?thesis unfolding delete_check_def by (simp add: update_fails)
qed

lemma results_after_append:
  "append_results e rs days s = (s', None) \<Longrightarrow>
     st_Results (contents s') = pruneResults (clock e) days (st_Results (contents s) @ rs) \<and>
     st_Checks (contents s') = st_Checks (contents s) \<and> st_UpdatedAt (contents s') = clock e"
  unfolding append_results_def by (drule update_done) (auto simp: append_mut_def)

end

section \<open>\<open>FileStore\<close> is a store\<close>

definition can_write :: "StoreEnv \<Rightarrow> bool" where
  "can_write env \<longleftrightarrow> env_werr env = None"

lemma fs_update_cases:
  "fs_update env m s =
     (case m (fs_state s) of
        Inl err \<Rightarrow> (s, Some err)
      | Inr st \<Rightarrow>
          (case env_werr env of
             Some err \<Rightarrow> (s, Some err)
           | None \<Rightarrow> (\<lparr>fs_state = st\<lparr>st_UpdatedAt := env_now env\<rparr>,
                      fs_disk = Some (st\<lparr>st_UpdatedAt := env_now env\<rparr>)\<rparr>, None)))"
  by (auto simp: fs_update_def writeLocked_def Let_def split: sum.splits option.splits)

lemma fs_update_error: "fs_update env m s = (s', Some err) \<Longrightarrow> s' = s"
  by (auto simp: fs_update_cases split: sum.splits option.splits)

interpretation fstore: store fs_state env_now can_write fs_update
  by unfold_locales
     (auto simp: fs_update_cases can_write_def split: sum.splits option.splits)

lemma fs_ops_are_store_ops:
  "fs_replace_checks = fstore.replace_checks" "fs_upsert_check = fstore.upsert_check"
  "fs_delete_check = fstore.delete_check" "fs_append_results = fstore.append_results"
  "fs_set_last_run = fstore.set_last_run"
  by (simp_all add: fun_eq_iff fs_replace_checks_def fstore.replace_checks_def fs_upsert_check_def
      fstore.upsert_check_def fs_delete_check_def fstore.delete_check_def fs_append_results_def
      fstore.append_results_def fs_set_last_run_def fstore.set_last_run_def)

subsection \<open>Durability\<close>

text \<open>The file holds the current state, from the first write on.\<close>

definition durable :: "FileStore \<Rightarrow> bool" where
  "durable s \<longleftrightarrow> fs_disk s = Some (fs_state s)"

lemma durable_update: "durable s \<Longrightarrow> durable (fst (fs_update env m s))"
  by (auto simp: durable_def fs_update_cases split: sum.splits option.splits)

lemma durable_new: "NewFileStore env path disk checks = Inr s \<Longrightarrow> durable s"
  by (auto simp: NewFileStore_def writeLocked_def durable_def Let_def split: if_splits option.splits)

text \<open>A history of a store: the updates that were tried, each with the answers it met.\<close>

definition fs_run :: "(StoreEnv \<times> mutator) list \<Rightarrow> FileStore \<Rightarrow> FileStore" where
  "fs_run ops s = foldl (\<lambda>s (env, m). fst (fs_update env m s)) s ops"

lemma durable_run: "durable s \<Longrightarrow> durable (fs_run ops s)"
  unfolding fs_run_def by (induction ops arbitrary: s) (auto simp: durable_update)

section \<open>HybridStore\<close>

text \<open>
  A \<open>FileStore\<close> and a mirror \<open>'m\<close>, present when the database was reachable at start. The
  methods of the interface \<open>Mirror\<close> are the arguments \<open>sync\<close> and \<open>read\<close>; \<open>'x\<close> is what
  the network does to one call of them.
\<close>

record 'm HybridStore =
  hs_local :: FileStore
  hs_mirror :: "'m option"
  hs_mongoDown :: bool

type_synonym ('x, 'm) mirror_sync = "'x \<Rightarrow> State \<Rightarrow> 'm \<Rightarrow> 'm \<times> string option"
type_synonym ('x, 'm) mirror_read = "'x \<Rightarrow> 'm \<Rightarrow> string + State"

definition isEmptyState :: "State \<Rightarrow> bool" where
  "isEmptyState st \<longleftrightarrow> length (st_Checks st) = 0 \<and> length (st_Results st) = 0 \<and>
     is_zero (st_LastRunAt st) \<and> is_zero (st_UpdatedAt st)"

definition syncToMongo ::
  "('x, 'm) mirror_sync \<Rightarrow> 'x \<Rightarrow> 'm HybridStore \<Rightarrow> 'm HybridStore \<times> string option" where
  "syncToMongo sync x s =
     (case hs_mirror s of
        None \<Rightarrow> (s, None)
      | Some m \<Rightarrow>
          (case sync x (fs_snapshot (hs_local s)) m of
             (m', Some err) \<Rightarrow> (s\<lparr>hs_mirror := Some m', hs_mongoDown := True\<rparr>, Some err)
           | (m', None) \<Rightarrow> (s\<lparr>hs_mirror := Some m', hs_mongoDown := False\<rparr>, None)))"

text \<open>Every method of the interface: the local store first, then the mirror, whose error is dropped.\<close>

definition hs_local_then_sync ::
  "('x, 'm) mirror_sync \<Rightarrow> 'x \<Rightarrow> (FileStore \<Rightarrow> FileStore \<times> string option) \<Rightarrow>
     'm HybridStore \<Rightarrow> 'm HybridStore \<times> string option" where
  "hs_local_then_sync sync x op s =
     (case op (hs_local s) of
        (l, Some err) \<Rightarrow> (s\<lparr>hs_local := l\<rparr>, Some err)
      | (l, None) \<Rightarrow> (fst (syncToMongo sync x (s\<lparr>hs_local := l\<rparr>)), None))"

definition hs_update ::
  "('x, 'm) mirror_sync \<Rightarrow> StoreEnv \<times> 'x \<Rightarrow> mutator \<Rightarrow>
     'm HybridStore \<Rightarrow> 'm HybridStore \<times> string option" where
  "hs_update sync e m = hs_local_then_sync sync (snd e) (fs_update (fst e) m)"

definition hs_upsert_check ::
  "('x, 'm) mirror_sync \<Rightarrow> StoreEnv \<times> 'x \<Rightarrow> CheckConfig \<Rightarrow>
     'm HybridStore \<Rightarrow> 'm HybridStore \<times> string option" where
  "hs_upsert_check sync e c = hs_local_then_sync sync (snd e) (fs_upsert_check (fst e) c)"

definition hs_delete_check ::
  "('x, 'm) mirror_sync \<Rightarrow> StoreEnv \<times> 'x \<Rightarrow> string \<Rightarrow>
     'm HybridStore \<Rightarrow> 'm HybridStore \<times> string option" where
  "hs_delete_check sync e i = hs_local_then_sync sync (snd e) (fs_delete_check (fst e) i)"

definition hs_replace_checks ::
  "('x, 'm) mirror_sync \<Rightarrow> StoreEnv \<times> 'x \<Rightarrow> CheckConfig list \<Rightarrow>
     'm HybridStore \<Rightarrow> 'm HybridStore \<times> string option" where
  "hs_replace_checks sync e cs = hs_local_then_sync sync (snd e) (fs_replace_checks (fst e) cs)"

definition hs_append_results ::
  "('x, 'm) mirror_sync \<Rightarrow> StoreEnv \<times> 'x \<Rightarrow> CheckResult list \<Rightarrow> int \<Rightarrow>
     'm HybridStore \<Rightarrow> 'm HybridStore \<times> string option" where
  "hs_append_results sync e rs days =
     hs_local_then_sync sync (snd e) (fs_append_results (fst e) rs days)"

definition hs_set_last_run ::
  "('x, 'm) mirror_sync \<Rightarrow> StoreEnv \<times> 'x \<Rightarrow> gotime \<Rightarrow>
     'm HybridStore \<Rightarrow> 'm HybridStore \<times> string option" where
  "hs_set_last_run sync e t = hs_local_then_sync sync (snd e) (fs_set_last_run (fst e) t)"

definition hs_snapshot :: "('x, 'm) mirror_read \<Rightarrow> 'x \<Rightarrow> 'm HybridStore \<Rightarrow> State" where
  "hs_snapshot read x s =
     (case hs_mirror s of
        Some m \<Rightarrow>
          if \<not> hs_mongoDown s then
            (case read x m of
               Inr st \<Rightarrow> if \<not> isEmptyState st then st else fs_snapshot (hs_local s)
             | Inl _ \<Rightarrow> fs_snapshot (hs_local s))
          else fs_snapshot (hs_local s)
      | None \<Rightarrow> fs_snapshot (hs_local s))"

text \<open>
  \<open>NewHybridStore\<close>: the result of connecting is an argument (\<open>None\<close>: no database is
  configured). The second component says whether the initial background sync was started.
\<close>

definition seed_mut :: "State \<Rightarrow> mutator" where
  "seed_mut mongoState st =
     Inr (st\<lparr>st_Checks := st_Checks mongoState, st_Results := st_Results mongoState,
             st_LastRunAt := st_LastRunAt mongoState, st_UpdatedAt := st_UpdatedAt mongoState\<rparr>)"

definition NewHybridStore ::
  "('x, 'm) mirror_read \<Rightarrow> StoreEnv \<times> 'x \<Rightarrow> string \<Rightarrow> State option \<Rightarrow> CheckConfig list \<Rightarrow>
     (string + 'm) option \<Rightarrow> string + ('m HybridStore \<times> bool)" where
  "NewHybridStore read e path disk checks mongo =
     (case NewFileStore (fst e) path disk checks of
        Inl err \<Rightarrow> Inl err
      | Inr l \<Rightarrow>
          (case mongo of
             None \<Rightarrow> Inr (\<lparr>hs_local = l, hs_mirror = None, hs_mongoDown = False\<rparr>, False)
           | Some (Inl err) \<Rightarrow>
               Inr (\<lparr>hs_local = l, hs_mirror = None, hs_mongoDown = True\<rparr>, False)
           | Some (Inr m) \<Rightarrow>
               (case read (snd e) m of
                  Inl err \<Rightarrow>
                    Inr (\<lparr>hs_local = l, hs_mirror = Some m, hs_mongoDown = False\<rparr>, False)
                | Inr mongoState \<Rightarrow>
                    if \<not> isEmptyState mongoState \<and> isEmptyState (fs_snapshot l) then
                      Inr (\<lparr>hs_local = fst (fs_update (fst e) (seed_mut mongoState) l),
                             hs_mirror = Some m, hs_mongoDown = False\<rparr>, False)
                    else Inr (\<lparr>hs_local = l, hs_mirror = Some m, hs_mongoDown = False\<rparr>, True))))"

definition hs_contents :: "'m HybridStore \<Rightarrow> State" where
  "hs_contents s = fs_state (hs_local s)"

lemma syncToMongo_local [simp]: "hs_local (fst (syncToMongo sync x s)) = hs_local s"
  by (auto simp: syncToMongo_def split: option.splits prod.splits)

lemma hs_update_local:
  "hs_local (fst (hs_update sync e m s)) = fst (fs_update (fst e) m (hs_local s))"
  "snd (hs_update sync e m s) = snd (fs_update (fst e) m (hs_local s))"
  by (auto simp: hs_update_def hs_local_then_sync_def split: prod.splits option.splits)

lemma hs_update_fs:
  "hs_update sync e m s = (s', r) \<Longrightarrow> fs_update (fst e) m (hs_local s) = (hs_local s', r)"
  using hs_update_local [of sync e m s] by (simp add: prod_eq_iff)

interpretation hstore: store hs_contents "env_now \<circ> fst" "can_write \<circ> fst" "hs_update sync" for sync
proof unfold_locales
  fix e m s s' err st
  show "hs_update sync e m s = (s', Some err) \<Longrightarrow> hs_contents s' = hs_contents s"
    unfolding hs_contents_def by (drule hs_update_fs, drule fstore.update_fails, assumption)
  show "hs_update sync e m s = (s', None) \<Longrightarrow>
      \<exists>st. m (hs_contents s) = Inr st \<and> hs_contents s' = st\<lparr>st_UpdatedAt := (env_now \<circ> fst) e\<rparr>"
    unfolding hs_contents_def o_def by (drule hs_update_fs, drule fstore.update_done, assumption)
  show "(can_write \<circ> fst) e \<Longrightarrow> m (hs_contents s) = Inr st \<Longrightarrow> snd (hs_update sync e m s) = None"
    unfolding hs_contents_def o_def hs_update_local by (rule fstore.update_available)
qed

lemma hs_ops_are_store_ops:
  "hs_replace_checks sync = hstore.replace_checks sync" "hs_upsert_check sync = hstore.upsert_check sync"
  "hs_delete_check sync = hstore.delete_check sync" "hs_append_results sync = hstore.append_results sync"
  "hs_set_last_run sync = hstore.set_last_run sync"
  by (simp_all add: fun_eq_iff hs_replace_checks_def hstore.replace_checks_def hs_upsert_check_def
      hstore.upsert_check_def hs_delete_check_def hstore.delete_check_def hs_append_results_def
      hstore.append_results_def hs_set_last_run_def hstore.set_last_run_def hs_update_def
      fs_replace_checks_def fs_upsert_check_def fs_delete_check_def fs_append_results_def
      fs_set_last_run_def)

section \<open>MongoMirror\<close>

text \<open>
  \<open>mongo.go\<close>: what \<open>SyncState\<close> writes and \<open>ReadState\<close> reads, over the operations of the
  database driver that they call; the database \<open>'w\<close> and these operations are parameters.
\<close>

record 'w MongoOps =
  mo_replace_check :: "string \<Rightarrow> CheckConfig \<Rightarrow> 'w \<Rightarrow> 'w \<times> string option"
  mo_replace_result :: "string \<Rightarrow> CheckResult \<Rightarrow> 'w \<Rightarrow> 'w \<times> string option"
  mo_delete_results_before :: "gotime \<Rightarrow> 'w \<Rightarrow> 'w \<times> string option"
  mo_replace_state :: "State \<Rightarrow> 'w \<Rightarrow> 'w \<times> string option"
  mo_replace_dashboard :: "DashboardSnapshot \<Rightarrow> 'w \<Rightarrow> 'w \<times> string option"
  mo_find_checks :: "'w \<Rightarrow> string + CheckConfig list"
  mo_find_results :: "gotime option \<Rightarrow> 'w \<Rightarrow> string + CheckResult list"
  mo_find_state :: "'w \<Rightarrow> string + (gotime \<times> gotime)"

fun upsertChecks :: "'w MongoOps \<Rightarrow> CheckConfig list \<Rightarrow> 'w \<Rightarrow> 'w \<times> string option" where
  "upsertChecks db [] w = (w, None)"
| "upsertChecks db (c # cs) w =
     (if chk_ID c = [] then upsertChecks db cs w
      else case mo_replace_check db (chk_ID c) c w of
             (w', Some err) \<Rightarrow> (w', Some err)
           | (w', None) \<Rightarrow> upsertChecks db cs w')"

fun upsertResultDocs :: "'w MongoOps \<Rightarrow> CheckResult list \<Rightarrow> 'w \<Rightarrow> 'w \<times> string option" where
  "upsertResultDocs db [] w = (w, None)"
| "upsertResultDocs db (r # rs) w =
     (if res_ID r = [] then upsertResultDocs db rs w
      else case mo_replace_result db (res_ID r) r w of
             (w', Some err) \<Rightarrow> (w', Some err)
           | (w', None) \<Rightarrow> upsertResultDocs db rs w')"

definition upsertResults ::
  "'w MongoOps \<Rightarrow> gotime \<Rightarrow> int \<Rightarrow> CheckResult list \<Rightarrow> 'w \<Rightarrow> 'w \<times> string option" where
  "upsertResults db now retentionDays rs w =
     (let cutoff = (if retentionDays > 0 then retention_cutoff now retentionDays else zero_time)
      in case upsertResultDocs db rs w of
           (w', Some err) \<Rightarrow> (w', Some err)
         | (w', None) \<Rightarrow>
             if \<not> is_zero cutoff then mo_delete_results_before db cutoff w' else (w', None))"

definition SyncState :: "'w MongoOps \<Rightarrow> int \<Rightarrow> (gotime, 'w) mirror_sync" where
  "SyncState db retentionDays now st w =
     (case upsertChecks db (st_Checks st) w of
        (w, Some err) \<Rightarrow> (w, Some err)
      | (w, None) \<Rightarrow>
     (case upsertResults db now retentionDays (st_Results st) w of
        (w, Some err) \<Rightarrow> (w, Some err)
      | (w, None) \<Rightarrow>
     (case mo_replace_state db st w of
        (w, Some err) \<Rightarrow> (w, Some err)
      | (w, None) \<Rightarrow> mo_replace_dashboard db (buildDashboardSnapshot now st) w)))"

definition ReadState :: "'w MongoOps \<Rightarrow> int \<Rightarrow> (gotime, 'w) mirror_read" where
  "ReadState db retentionDays now w =
     (case mo_find_checks db w of Inl err \<Rightarrow> Inl err | Inr checks \<Rightarrow>
     (case mo_find_results db
             (if retentionDays > 0 then Some (retention_cutoff now retentionDays) else None) w of
        Inl err \<Rightarrow> Inl err | Inr results \<Rightarrow>
     (case mo_find_state db w of Inl err \<Rightarrow> Inl err | Inr (lastRun, updated) \<Rightarrow>
        Inr \<lparr>st_Checks = checks, st_Results = results, st_LastRunAt = lastRun,
             st_UpdatedAt = updated\<rparr>)))"

text \<open>
  What the driver documents: replacing a document leaves the documents with another \<open>_id\<close> alone,
  and writing to one collection leaves the other collections alone.
\<close>

definition documents_independent :: "'w MongoOps \<Rightarrow> bool" where
  "documents_independent db \<longleftrightarrow>
     (\<forall>i c w w' cs. mo_replace_check db i c w = (w', None) \<and> mo_find_checks db w = Inr cs \<longrightarrow>
        (\<exists>cs'. mo_find_checks db w' = Inr cs' \<and> (\<forall>d \<in> set cs. chk_ID d \<noteq> i \<longrightarrow> d \<in> set cs'))) \<and>
     (\<forall>i r w. mo_find_checks db (fst (mo_replace_result db i r w)) = mo_find_checks db w) \<and>
     (\<forall>t w. mo_find_checks db (fst (mo_delete_results_before db t w)) = mo_find_checks db w) \<and>
     (\<forall>st w. mo_find_checks db (fst (mo_replace_state db st w)) = mo_find_checks db w) \<and>
     (\<forall>d w. mo_find_checks db (fst (mo_replace_dashboard db d w)) = mo_find_checks db w)"

lemma documents_independentD:
  assumes "documents_independent db"
  shows "mo_replace_check db i c w = (w', None) \<Longrightarrow> mo_find_checks db w = Inr cs \<Longrightarrow>
      \<exists>cs'. mo_find_checks db w' = Inr cs' \<and> (\<forall>d \<in> set cs. chk_ID d \<noteq> i \<longrightarrow> d \<in> set cs')"
    and "mo_replace_result db j r w = (w', e) \<Longrightarrow> mo_find_checks db w' = mo_find_checks db w"
    and "mo_delete_results_before db t w = (w', e) \<Longrightarrow> mo_find_checks db w' = mo_find_checks db w"
    and "mo_replace_state db st w = (w', e) \<Longrightarrow> mo_find_checks db w' = mo_find_checks db w"
    and "mo_replace_dashboard db d w = (w', e) \<Longrightarrow> mo_find_checks db w' = mo_find_checks db w"
  using assms unfolding documents_independent_def by (blast, (metis fst_conv)+)

lemma upsertChecks_keeps:
  assumes db: "documents_independent db"
  shows "upsertChecks db ds w = (w', None) \<Longrightarrow> mo_find_checks db w = Inr cs \<Longrightarrow> c \<in> set cs \<Longrightarrow>
    chk_ID c \<notin> chk_ID ` set ds \<Longrightarrow> \<exists>cs'. mo_find_checks db w' = Inr cs' \<and> c \<in> set cs'"
proof (induction ds arbitrary: w cs)
  case Nil
  then show ?case by simp
next
  case (Cons d ds)
  show ?case
  proof (cases "chk_ID d = []")
    case True
    with Cons show ?thesis by simp
  next
    case False
    with Cons.prems(1) obtain w1 where w1: "mo_replace_check db (chk_ID d) d w = (w1, None)"
      and rest: "upsertChecks db ds w1 = (w', None)"
      by (auto split: prod.splits option.splits)
    from documents_independentD(1) [OF db w1 Cons.prems(2)]
    obtain cs1 where cs1: "mo_find_checks db w1 = Inr cs1"
      and keep: "\<forall>x \<in> set cs. chk_ID x \<noteq> chk_ID d \<longrightarrow> x \<in> set cs1"
      by blast
    from keep Cons.prems have "c \<in> set cs1" by auto
    from Cons.IH [OF rest cs1 this] Cons.prems show ?thesis by simp
  qed
qed

lemma upsertResultDocs_keeps:
  assumes db: "documents_independent db"
  shows "upsertResultDocs db rs w = (w', e) \<Longrightarrow> mo_find_checks db w' = mo_find_checks db w"
proof (induction rs arbitrary: w)
  case Nil
  then show ?case by simp
next
  case (Cons r rs)
  then show ?case
    by (auto split: if_splits prod.splits option.splits dest: documents_independentD(2) [OF db])
qed

lemma upsertResults_keeps:
  assumes db: "documents_independent db"
  shows "upsertResults db now days rs w = (w', e) \<Longrightarrow> mo_find_checks db w' = mo_find_checks db w"
  by (auto simp: upsertResults_def Let_def split: if_splits prod.splits option.splits
      dest!: upsertResultDocs_keeps [OF db] documents_independentD(3) [OF db])

lemma SyncState_keeps:
  assumes db: "documents_independent db" and sync: "SyncState db days now st w = (w', None)"
    and cs: "mo_find_checks db w = Inr cs" "c \<in> set cs" and gone: "chk_ID c \<notin> set (check_ids st)"
  shows "\<exists>cs'. mo_find_checks db w' = Inr cs' \<and> c \<in> set cs'"
proof -
  from sync obtain w1 w2 w3 where
    w1: "upsertChecks db (st_Checks st) w = (w1, None)"
    and w2: "upsertResults db now days (st_Results st) w1 = (w2, None)"
    and w3: "mo_replace_state db st w2 = (w3, None)"
    and w': "mo_replace_dashboard db (buildDashboardSnapshot now st) w3 = (w', None)"
    by (auto simp: SyncState_def split: prod.splits option.splits)
  from gone have "chk_ID c \<notin> chk_ID ` set (st_Checks st)" by (simp add: check_ids_def)
  from upsertChecks_keeps [OF db w1 cs this]
  obtain cs' where "mo_find_checks db w1 = Inr cs'" and "c \<in> set cs'" by blast
  moreover have "mo_find_checks db w' = mo_find_checks db w1"
    using upsertResults_keeps [OF db w2] documents_independentD(4) [OF db w3]
      documents_independentD(5) [OF db w'] by simp
  ultimately show ?thesis by simp
qed

section \<open>Properties\<close>

text \<open>
  whatever sequence of updates is tried on a new \<open>FileStore\<close>, with whatever failures, the
  state file holds exactly the state in memory; so a restart finds that state (only its
  \<open>UpdatedAt\<close> is new), and the checks of the configuration do not come back over it.
\<close>

theorem FileStore_durable:
  assumes "NewFileStore env path disk checks = Inr s"
    and "NewFileStore env' path (fs_disk (fs_run ops s)) checks' = Inr s'"
  shows "durable (fs_run ops s) \<and>
    fs_state s' = (fs_state (fs_run ops s))\<lparr>st_UpdatedAt := env_now env'\<rparr>"
proof -
  have "durable (fs_run ops s)" by (rule durable_run [OF durable_new [OF assms(1)]])
  with assms(2) show ?thesis
    by (auto simp: NewFileStore_def writeLocked_def durable_def Let_def split: if_splits option.splits)
qed

definition sample_env :: "gotime \<Rightarrow> StoreEnv" where
  "sample_env t = \<lparr>env_now = t, env_werr = None\<rparr>"

definition sample_store :: FileStore where
  "sample_store = \<lparr>fs_state = empty_state\<lparr>st_UpdatedAt := 1\<rparr>,
     fs_disk = Some (empty_state\<lparr>st_UpdatedAt := 1\<rparr>)\<rparr>"

lemma sample_store_new: "NewFileStore (sample_env 1) ''state.json'' None [] = Inr sample_store"
  by (simp add: NewFileStore_def writeLocked_def sample_env_def sample_store_def Let_def)

theorem FileStore_durable_witness:
  "durable (fs_run [(sample_env 2, setlast_mut 2), ((sample_env 3)\<lparr>env_werr := Some ''full''\<rparr>, setlast_mut 3)]
     sample_store)"
  using FileStore_durable [OF sample_store_new, where
      ops = "[(sample_env 2, setlast_mut 2), ((sample_env 3)\<lparr>env_werr := Some ''full''\<rparr>, setlast_mut 3)]"
      and env' = "sample_env 4" and checks' = "[]"]
  by (simp add: NewFileStore_def writeLocked_def sample_env_def sample_store_def Let_def fs_run_def
      fs_update_cases setlast_mut_def)

text \<open>
  a successful \<open>UpsertCheck\<close> or \<open>DeleteCheck\<close> of the \<open>FileStore\<close> changes the
  check with that ID and no other; check IDs stay distinct, and an operation that reports an error
  has not changed the state.
\<close>

theorem FileStore_check_crud:
  "(fs_upsert_check env c s = (s', None) \<longrightarrow>
      lookup_check i (fs_state s') = (if i = chk_ID c then Some c else lookup_check i (fs_state s)) \<and>
      (distinct_ids (fs_state s) \<longrightarrow> distinct_ids (fs_state s'))) \<and>
   (fs_delete_check env j s = (s', None) \<longrightarrow>
      lookup_check i (fs_state s') = (if i = j then None else lookup_check i (fs_state s)) \<and>
      (distinct_ids (fs_state s) \<longrightarrow> distinct_ids (fs_state s'))) \<and>
   (fs_update env m s = (s', Some err) \<longrightarrow> s' = s)"
  unfolding fs_ops_are_store_ops
  by (blast intro: fstore.lookup_after_upsert fstore.ids_after_upsert fstore.lookup_after_delete
      fstore.ids_after_delete fs_update_error)

theorem FileStore_check_crud_witness:
  "lookup_check ''a'' (fs_state (fst (fs_upsert_check (sample_env 5)
     (zero_check\<lparr>chk_ID := ''a'', chk_Name := ''A''\<rparr>) sample_store))) =
   Some (zero_check\<lparr>chk_ID := ''a'', chk_Name := ''A''\<rparr>)"
proof -
  let ?c = "zero_check\<lparr>chk_ID := ''a'', chk_Name := ''A''\<rparr>"
  let ?s = "fst (fs_upsert_check (sample_env 5) ?c sample_store)"
  have "fs_upsert_check (sample_env 5) ?c sample_store = (?s, None)"
    by (simp add: fs_upsert_check_def fs_update_cases sample_env_def upsert_mut_def)
  then show ?thesis
    using FileStore_check_crud [of "sample_env 5" ?c sample_store ?s "''a''"]
    by (simp add: zero_check_def)
qed

text \<open>
  \<open>HybridStore\<close> never loses a local update to a database failure. An operation whose mirror
  write fails marks the database as down, and from then on \<open>Snapshot\<close> answers with the local
  state, which has the update.
\<close>

theorem HybridStore_falls_back:
  assumes "hs_update sync e m s = (s', None)" and "hs_mirror s = Some w"
    and "snd (sync (snd e) (hs_contents s') w) \<noteq> None"
  shows "hs_snapshot read y s' = hs_contents s' \<and>
    (\<exists>st. m (hs_contents s) = Inr st \<and> hs_contents s' = st\<lparr>st_UpdatedAt := env_now (fst e)\<rparr>)"
proof -
  have "\<exists>st. m (hs_contents s) = Inr st \<and> hs_contents s' = st\<lparr>st_UpdatedAt := env_now (fst e)\<rparr>"
    using hstore.update_done [OF assms(1)] by simp
  moreover have "hs_mongoDown s'"
    using assms
    by (auto simp: hs_update_def hs_local_then_sync_def syncToMongo_def hs_contents_def fs_snapshot_def
        split: prod.splits option.splits)
  ultimately show ?thesis
    by (auto simp: hs_snapshot_def hs_contents_def fs_snapshot_def split: option.splits)
qed

definition sample_hybrid :: "'m \<Rightarrow> 'm HybridStore" where
  "sample_hybrid m = \<lparr>hs_local = sample_store, hs_mirror = Some m, hs_mongoDown = False\<rparr>"

theorem HybridStore_falls_back_witness:
  "hs_snapshot (\<lambda>_ w. Inr w) ()
     (fst (hs_update (\<lambda>_ st w. (w, Some ''no reachable servers'')) (sample_env 7, ()) (setlast_mut 7)
        (sample_hybrid empty_state))) =
   empty_state\<lparr>st_LastRunAt := 7, st_UpdatedAt := 7\<rparr>"
proof -
  let ?sync = "\<lambda>_ st w. (w, Some ''no reachable servers'')"
  let ?s = "fst (hs_update ?sync (sample_env 7, ()) (setlast_mut 7) (sample_hybrid empty_state))"
  have eq: "hs_update ?sync (sample_env 7, ()) (setlast_mut 7) (sample_hybrid empty_state) = (?s, None)"
    by (simp add: hs_update_def hs_local_then_sync_def fs_update_cases sample_env_def setlast_mut_def
        sample_hybrid_def)
  show ?thesis
    using HybridStore_falls_back [OF eq, where w = empty_state and read = "\<lambda>_ w. Inr w" and y = "()"]
    by (simp add: sample_hybrid_def setlast_mut_def hs_contents_def sample_store_def sample_env_def)
qed

text \<open>
  with the mirror that the program uses, a check deleted from \<open>HybridStore\<close> comes back.
  \<open>DeleteCheck\<close> removes it from the local state, and \<open>SyncState\<close> replaces documents but
  removes none; so when the mirror can be read, the next \<open>Snapshot\<close> has the deleted check again.
\<close>

theorem HybridStore_deleted_check_returns:
  assumes "documents_independent db"
    and "hs_mirror s = Some w" and "mo_find_checks db w = Inr cs" and "c \<in> set cs"
    and del: "hs_delete_check (SyncState db days) e (chk_ID c) s = (s', None)"
    and "\<not> hs_mongoDown s'" and w': "hs_mirror s' = Some w'"
    and rd: "ReadState db days now w' = Inr st"
  shows "lookup_check (chk_ID c) (hs_contents s') = None \<and>
    c \<in> set (st_Checks (hs_snapshot (ReadState db days) now s'))"
proof
  show gone: "lookup_check (chk_ID c) (hs_contents s') = None"
    using hstore.lookup_after_delete [OF del [unfolded hs_ops_are_store_ops]] by simp
  from del obtain l where "fs_delete_check (fst e) (chk_ID c) (hs_local s) = (l, None)"
    and s': "s' = fst (syncToMongo (SyncState db days) (snd e) (s\<lparr>hs_local := l\<rparr>))"
    by (auto simp: hs_delete_check_def hs_local_then_sync_def split: prod.splits option.splits)
  from s' have "hs_contents s' = fs_state l" by (simp add: hs_contents_def)
  with gone have ids: "chk_ID c \<notin> set (check_ids (fs_state l))"
    by (simp add: lookup_check_def find_key_None check_ids_def)
  from s' assms(2,6) w' have "SyncState db days (snd e) (fs_state l) w = (w', None)"
    by (auto simp: syncToMongo_def fs_snapshot_def split: prod.splits option.splits)
  from SyncState_keeps [OF assms(1) this assms(3,4) ids]
  obtain cs' where "mo_find_checks db w' = Inr cs'" and c: "c \<in> set cs'" by blast
  with rd have st: "st_Checks st = cs'" by (auto simp: ReadState_def split: sum.splits prod.splits)
  with c have "\<not> isEmptyState st" by (auto simp: isEmptyState_def)
  with rd w' assms(6) c st show "c \<in> set (st_Checks (hs_snapshot (ReadState db days) now s'))"
    by (simp add: hs_snapshot_def)
qed

text \<open>A database whose checks are a list of documents, for the witness.\<close>

definition sample_db :: "CheckConfig list MongoOps" where
  "sample_db = \<lparr>mo_replace_check = (\<lambda>i c w. (filter (\<lambda>d. chk_ID d \<noteq> i) w @ [c], None)),
     mo_replace_result = (\<lambda>_ _ w. (w, None)), mo_delete_results_before = (\<lambda>_ w. (w, None)),
     mo_replace_state = (\<lambda>_ w. (w, None)), mo_replace_dashboard = (\<lambda>_ w. (w, None)),
     mo_find_checks = Inr, mo_find_results = (\<lambda>_ _. Inr []), mo_find_state = (\<lambda>_. Inr (1, 1))\<rparr>"

lemma sample_db_independent: "documents_independent sample_db"
  by (auto simp: documents_independent_def sample_db_def)

theorem HybridStore_deleted_check_returns_witness:
  "let c = zero_check\<lparr>chk_ID := ''a''\<rparr>;
       s' = fst (hs_delete_check (SyncState sample_db 7) (sample_env 5, 5) ''a''
              ((sample_hybrid [c])\<lparr>hs_local := sample_store\<lparr>fs_state := empty_state\<lparr>st_Checks := [c]\<rparr>\<rparr>\<rparr>))
   in lookup_check ''a'' (hs_contents s') = None \<and>
      c \<in> set (st_Checks (hs_snapshot (ReadState sample_db 7) 6 s'))"
proof -
  let ?c = "zero_check\<lparr>chk_ID := ''a''\<rparr>"
  let ?s = "(sample_hybrid [?c])\<lparr>hs_local := sample_store\<lparr>fs_state := empty_state\<lparr>st_Checks := [?c]\<rparr>\<rparr>\<rparr>"
  let ?r = "hs_delete_check (SyncState sample_db 7) (sample_env 5, 5) ''a'' ?s"
  have id: "chk_ID ?c = ''a''" by (simp add: zero_check_def)
  have r: "?r = (fst ?r, None)" "\<not> hs_mongoDown (fst ?r)" "hs_mirror (fst ?r) = Some [?c]"
    by (simp_all add: hs_delete_check_def hs_local_then_sync_def fs_delete_check_def fs_update_cases
        delete_mut_def sample_env_def sample_hybrid_def syncToMongo_def SyncState_def upsertResults_def
        sample_db_def empty_state_def fs_snapshot_def Let_def id sample_store_def)
  have rd: "ReadState sample_db 7 6 [?c] = Inr \<lparr>st_Checks = [?c], st_Results = [], st_LastRunAt = 1,
      st_UpdatedAt = 1\<rparr>"
    by (simp add: ReadState_def sample_db_def)
  have m: "hs_mirror ?s = Some [?c]" "mo_find_checks sample_db [?c] = Inr [?c]"
    by (simp_all add: sample_hybrid_def sample_db_def)
  show ?thesis
    using HybridStore_deleted_check_returns [where db = sample_db and s = ?s and c = ?c and s' = "fst ?r"
        and days = 7 and now = 6 and e = "(sample_env 5, 5)", OF sample_db_independent m _ _ r(2,3) rd] r(1)
    by (simp add: id Let_def)
qed

text \<open>
  \<open>NewHybridStore\<close> never seeds the local file from the database. \<open>NewFileStore\<close> has
  stamped the local state with the current time, so \<open>isEmptyState\<close> is false of it whatever it
  holds, and the local state after the call is that of \<open>NewFileStore\<close>.
\<close>

theorem NewHybridStore_never_seeds:
  assumes "env_now (fst e) \<noteq> zero_time"
    and "NewHybridStore read e path disk checks mongo = Inr (s, syncing)"
  shows "NewFileStore (fst e) path disk checks = Inr (hs_local s)"
proof -
  have "\<not> isEmptyState (fs_snapshot l)" if "NewFileStore (fst e) path disk checks = Inr l" for l
    using that assms(1)
    by (auto simp: NewFileStore_def writeLocked_def Let_def isEmptyState_def fs_snapshot_def is_zero_def
        split: if_splits option.splits)
  with assms(2) show ?thesis
    by (auto simp: NewHybridStore_def split: sum.splits option.splits if_splits)
qed

theorem NewHybridStore_never_seeds_witness:
  "NewHybridStore (ReadState sample_db 0) (sample_env 1, 1) ''state.json'' None []
     (Some (Inr [zero_check\<lparr>chk_ID := ''a''\<rparr>])) =
   Inr (\<lparr>hs_local = sample_store, hs_mirror = Some [zero_check\<lparr>chk_ID := ''a''\<rparr>],
         hs_mongoDown = False\<rparr>, True) \<and>
   st_Checks (fs_state sample_store) = []"
proof -
  let ?n = "NewHybridStore (ReadState sample_db 0) (sample_env 1, 1) ''state.json'' None []
     (Some (Inr [zero_check\<lparr>chk_ID := ''a''\<rparr>]))"
  have n: "?n = Inr (\<lparr>hs_local = sample_store, hs_mirror = Some [zero_check\<lparr>chk_ID := ''a''\<rparr>],
         hs_mongoDown = False\<rparr>, True)"
    by (simp add: NewHybridStore_def sample_store_new ReadState_def sample_db_def fs_snapshot_def)
       (simp add: isEmptyState_def sample_store_def is_zero_def zero_time_def empty_state_def)
  have "st_Checks (fs_state sample_store) = []" by (simp add: sample_store_def empty_state_def)
  with n show ?thesis
    using NewHybridStore_never_seeds [OF _ n] by (simp add: sample_env_def zero_time_def sample_store_def)
qed

end
