(* ===== verification/Heartbeat.thy ===== *)
theory Heartbeat
  imports Model Float64
begin

text \<open>
  Heartbeat checks: the in-memory store of pings, the check executor that turns the age of the last
  ping into a result (\<open>check_heartbeat.go\<close>), and the ping endpoint (\<open>heartbeat_api.go\<close>). Random
  tokens are an argument.
\<close>

section \<open>The store of pings\<close>

record HeartbeatPing =
  hp_Token :: string
  hp_Status :: string
  hp_Message :: string
  hp_PingedAt :: gotime
  hp_IPAddress :: string

record HeartbeatState =
  hbs_Token :: string
  hbs_CheckID :: string
  hbs_LastPing :: "HeartbeatPing option"
  hbs_PingCount :: int
  hbs_MissedCount :: int
  hbs_CurrentState :: string

type_synonym HeartbeatStore = "string \<rightharpoonup> HeartbeatState"

definition hb_Register :: "string \<Rightarrow> string \<Rightarrow> HeartbeatStore \<Rightarrow> HeartbeatStore" where
  "hb_Register token checkID states =
     (case states token of
        Some _ \<Rightarrow> states
      | None \<Rightarrow> states(token \<mapsto> \<lparr>hbs_Token = token, hbs_CheckID = checkID, hbs_LastPing = None,
                                  hbs_PingCount = 0, hbs_MissedCount = 0, hbs_CurrentState = ''missed''\<rparr>))"

definition RecordPing :: "HeartbeatPing \<Rightarrow> HeartbeatStore \<Rightarrow> HeartbeatStore \<times> string option" where
  "RecordPing ping states =
     (case states (hp_Token ping) of
        None \<Rightarrow> (states, Some ''unknown heartbeat token'')
      | Some st \<Rightarrow>
          (states(hp_Token ping \<mapsto> st\<lparr>hbs_LastPing := Some ping,
             hbs_PingCount := wrap64 (hbs_PingCount st + 1), hbs_CurrentState := ''healthy''\<rparr>), None))"

definition hb_GetState :: "string \<Rightarrow> HeartbeatStore \<Rightarrow> HeartbeatState option" where
  "hb_GetState token states = states token"

text \<open>
  The status and message of a ping: the body of a POST, when it is JSON with these fields, then the
  query string.
\<close>

definition handlePing ::
  "gotime \<Rightarrow> string \<Rightarrow> (string \<times> string) option \<Rightarrow> string \<Rightarrow> string \<Rightarrow> string \<Rightarrow>
     HeartbeatStore \<Rightarrow> HeartbeatStore \<times> int" where
  "handlePing now token payload queryStatus queryMsg ip states =
     (if token = [] then (states, 400)
      else
        let ping = \<lparr>hp_Token = token, hp_Status = ''success'', hp_Message = [], hp_PingedAt = now,
                    hp_IPAddress = ip\<rparr>;
            ping = (case payload of
                      None \<Rightarrow> ping
                    | Some (status, message) \<Rightarrow>
                        (if status \<noteq> [] then ping\<lparr>hp_Status := status\<rparr> else ping)\<lparr>hp_Message := message\<rparr>);
            ping = (if queryStatus \<noteq> [] then ping\<lparr>hp_Status := queryStatus\<rparr> else ping);
            ping = (if queryMsg \<noteq> [] then ping\<lparr>hp_Message := queryMsg\<rparr> else ping)
        in case RecordPing ping states of
             (states, Some _) \<Rightarrow> (states, 404)
           | (states, None) \<Rightarrow> (states, 200))"

definition maskToken :: "string \<Rightarrow> string" where
  "maskToken token =
     (if length token \<le> 6 then token
      else replicate (length token - 6) (CHR ''*'') @ drop (length token - 6) token)"

section \<open>The executor\<close>

definition hb_ApplyDefaults :: "string \<Rightarrow> CheckConfig \<Rightarrow> HeartbeatStore \<Rightarrow> CheckConfig \<times> HeartbeatStore" where
  "hb_ApplyDefaults newToken c states =
     (let h = (case chk_Heartbeat c of
                 Some h \<Rightarrow> h
               | None \<Rightarrow> \<lparr>hb_Token = [], hb_ExpectedIntervalSeconds = 0, hb_GraceSeconds = 0\<rparr>);
          h = (if hb_Token h = [] then h\<lparr>hb_Token := newToken\<rparr> else h);
          h = (if hb_GraceSeconds h \<le> 0 then h\<lparr>hb_GraceSeconds := 60\<rparr> else h)
      in (c\<lparr>chk_Heartbeat := Some h\<rparr>, hb_Register (hb_Token h) (chk_ID c) states))"

definition hb_Validate :: "CheckConfig \<Rightarrow> string option" where
  "hb_Validate c =
     (case chk_Heartbeat c of
        None \<Rightarrow> Some ''heartbeat config block is required for heartbeat checks''
      | Some h \<Rightarrow>
          if hb_ExpectedIntervalSeconds h \<le> 0
          then Some ''heartbeat.expectedIntervalSeconds must be > 0'' else None)"

definition set_metric :: "string \<Rightarrow> f64 \<Rightarrow> CheckResult \<Rightarrow> CheckResult" where
  "set_metric k v r = r\<lparr>res_Metrics := AList.update k v (res_Metrics r)\<rparr>"

text \<open>The verb \<open>%.0f\<close> of a number that is not negative.\<close>

definition fmt_f0 :: "f64 \<Rightarrow> string" where
  "fmt_f0 q = itoa (round_half_even q)"

text \<open>A missed heartbeat is counted in the store, where it is still registered.\<close>

definition count_missed :: "string \<Rightarrow> HeartbeatStore \<Rightarrow> HeartbeatStore" where
  "count_missed token states =
     (case states token of
        None \<Rightarrow> states
      | Some s \<Rightarrow> states(token \<mapsto> s\<lparr>hbs_MissedCount := wrap64 (hbs_MissedCount s + 1),
                                      hbs_CurrentState := ''missed''\<rparr>))"

definition hb_Execute ::
  "gotime \<Rightarrow> HeartbeatStore \<Rightarrow> CheckConfig \<Rightarrow> CheckResult \<Rightarrow> HeartbeatStore \<times> CheckResult \<times> string option" where
  "hb_Execute now states check result =
     (case chk_Heartbeat check of
        None \<Rightarrow> (states, result, Some ''heartbeat config is nil'')
      | Some cfg \<Rightarrow>
          (let expected = hb_ExpectedIntervalSeconds cfg; grace = hb_GraceSeconds cfg;
               result = set_metric ''expectedIntervalSeconds'' (f_of_int expected) result;
               result = set_metric ''graceSeconds'' (f_of_int grace) result
           in case hb_GetState (hb_Token cfg) states of
                None \<Rightarrow>
                  (states, set_metric ''pingCount'' 0 (set_metric ''missedCount'' 0 result),
                   Some (''no heartbeat ping received yet for check '' @ chk_Name check))
              | Some st \<Rightarrow>
                  (case hbs_LastPing st of
                     None \<Rightarrow>
                       (states, set_metric ''pingCount'' 0 (set_metric ''missedCount'' 0 result),
                        Some (''no heartbeat ping received yet for check '' @ chk_Name check))
                   | Some ping \<Rightarrow>
                       (let result = set_metric ''pingCount'' (f_of_int (hbs_PingCount st)) result;
                            result = set_metric ''missedCount'' (f_of_int (hbs_MissedCount st)) result;
                            age = time_sub now (hp_PingedAt ping);
                            secs = duration_seconds age;
                            result = set_metric ''lastPingAgeSeconds'' secs result;
                            deadline = dur_mul (wrap64 (expected + grace)) second
                        in if hp_Status ping = ''fail'' then
                             (states, result, Some (''heartbeat '' @ chk_Name check @ '' reported failure: '' @ hp_Message ping))
                           else if age > deadline then
                             (count_missed (hb_Token cfg) states, result,
                              Some (''heartbeat '' @ chk_Name check @ '' is late: last ping '' @ fmt_f0 secs @
                                    ''s ago, expected every '' @ itoa expected @ ''s (+'' @ itoa grace @ ''s grace)''))
                           else if age > dur_mul expected second then
                             (states, result\<lparr>res_Status := ''warning'', res_Healthy := False,
                                res_Message := ''heartbeat '' @ chk_Name check @ '': last ping '' @ fmt_f0 secs @
                                  ''s ago (within grace period, deadline at '' @ itoa (wrap64 (expected + grace)) @ ''s)''\<rparr>, None)
                           else (states, result, None)))))"

section \<open>Lemmas\<close>

lemma set_metric_keeps [simp]:
  "res_ID (set_metric k v r) = res_ID r" "res_CheckID (set_metric k v r) = res_CheckID r"
  "res_Name (set_metric k v r) = res_Name r" "res_Type (set_metric k v r) = res_Type r"
  "res_Status (set_metric k v r) = res_Status r" "res_Healthy (set_metric k v r) = res_Healthy r"
  "res_StartedAt (set_metric k v r) = res_StartedAt r" "res_Message (set_metric k v r) = res_Message r"
  by (simp_all add: set_metric_def)

text \<open>The executor leaves the identity of the result alone.\<close>

lemma hb_Execute_keeps:
  assumes "hb_Execute now states check r = (states', r', err)"
  shows "res_ID r' = res_ID r \<and> res_CheckID r' = res_CheckID r \<and> res_Type r' = res_Type r \<and>
    res_StartedAt r' = res_StartedAt r"
  using assms
  by (auto simp: hb_Execute_def Let_def split: option.splits if_splits)

lemma hb_Execute_status:
  assumes "hb_Execute now states check r = (states', r', None)"
  shows "res_Status r' = res_Status r \<and> res_Healthy r' = res_Healthy r \<or>
    res_Status r' = ''warning'' \<and> \<not> res_Healthy r'"
  using assms
  by (auto simp: hb_Execute_def Let_def split: option.splits if_splits)

text \<open>The last ping of a token in a history of pings.\<close>

definition pings :: "HeartbeatPing list \<Rightarrow> HeartbeatStore \<Rightarrow> HeartbeatStore" where
  "pings ps states = foldl (\<lambda>s p. fst (RecordPing p s)) states ps"

lemma pings_snoc: "pings (ps @ [p]) states = fst (RecordPing p (pings ps states))"
  by (simp add: pings_def)

lemma pings_last:
  assumes "states token = Some st"
  shows "\<exists>st'. pings ps states token = Some st' \<and> hbs_LastPing st' =
    (if filter (\<lambda>p. hp_Token p = token) ps = [] then hbs_LastPing st
     else Some (last (filter (\<lambda>p. hp_Token p = token) ps)))"
proof (induction ps rule: rev_induct)
  case Nil
  show ?case using assms by (simp add: pings_def)
next
  case (snoc p ps)
  then obtain st' where "pings ps states token = Some st'" and "hbs_LastPing st' =
    (if filter (\<lambda>p. hp_Token p = token) ps = [] then hbs_LastPing st
     else Some (last (filter (\<lambda>p. hp_Token p = token) ps)))" by blast
  then show ?case
    by (cases "hp_Token p = token") (auto simp: pings_snoc RecordPing_def split: option.splits)
qed

lemma pings_unknown: "states token = None \<Longrightarrow> pings ps states token = None"
  by (induction ps rule: rev_induct) (auto simp: pings_def RecordPing_def split: option.splits)

section \<open>What a heartbeat check reports\<close>

text \<open>
  Let a heartbeat check with a positive interval \<open>E\<close> and grace \<open>G\<close> (seconds, within the range of a
  \<open>Duration\<close>) be registered, and let any pings arrive, for it and for others. If none was for it, the
  check fails. Otherwise its last ping decides: it fails if that reported failure or is more than
  \<open>E + G\<close> seconds old, warns if it is more than \<open>E\<close> seconds old, and leaves the result as it was
  (which the runner makes healthy) if it is at most \<open>E\<close> seconds old.
\<close>

theorem heartbeat_verdict:
  assumes "chk_Heartbeat check = Some cfg" and "0 < hb_ExpectedIntervalSeconds cfg" and "0 < hb_GraceSeconds cfg"
    and "hb_ExpectedIntervalSeconds cfg + hb_GraceSeconds cfg \<le> 9223372036"
    and "states (hb_Token cfg) = None"
    and "hb_Execute now (pings ps (hb_Register (hb_Token cfg) (chk_ID check) states)) check r = (states', r', err)"
  shows "(case filter (\<lambda>p. hp_Token p = hb_Token cfg) ps of
      [] \<Rightarrow> err \<noteq> None
    | _ # _ \<Rightarrow>
        let p = last (filter (\<lambda>p. hp_Token p = hb_Token cfg) ps); age = now - hp_PingedAt p in
        (err \<noteq> None \<longleftrightarrow> hp_Status p = ''fail'' \<or>
           age > (hb_ExpectedIntervalSeconds cfg + hb_GraceSeconds cfg) * 1000000000) \<and>
        (err = None \<longrightarrow>
           (if age > hb_ExpectedIntervalSeconds cfg * 1000000000
            then res_Status r' = ''warning'' \<and> \<not> res_Healthy r'
            else res_Status r' = res_Status r \<and> res_Healthy r' = res_Healthy r)))"
proof -
  let ?E = "hb_ExpectedIntervalSeconds cfg" and ?G = "hb_GraceSeconds cfg" and ?tok = "hb_Token cfg"
  let ?mine = "filter (\<lambda>p. hp_Token p = ?tok) ps"
  define s where "s = pings ps (hb_Register ?tok (chk_ID check) states)"
  have exec: "hb_Execute now s check r = (states', r', err)" using assms(6) by (simp add: s_def)
  have reg: "hb_Register ?tok (chk_ID check) states ?tok = Some \<lparr>hbs_Token = ?tok, hbs_CheckID = chk_ID check,
      hbs_LastPing = None, hbs_PingCount = 0, hbs_MissedCount = 0, hbs_CurrentState = ''missed''\<rparr>"
    using assms(5) by (simp add: hb_Register_def)
  from pings_last [where states = "hb_Register ?tok (chk_ID check) states" and token = ?tok and ps = ps, OF reg]
  obtain st where st: "s ?tok = Some st"
    "hbs_LastPing st = (if ?mine = [] then None else Some (last ?mine))" by (auto simp: s_def)
  have "wrap64 (?E + ?G) = ?E + ?G" using assms by (intro wrap64_id) auto
  moreover have "dur_mul (?E + ?G) second = (?E + ?G) * 1000000000" "dur_mul ?E second = ?E * 1000000000"
    using assms unfolding dur_mul_def second_def by (intro wrap64_id; simp)+
  ultimately have deadline: "dur_mul (wrap64 (?E + ?G)) second = (?E + ?G) * 1000000000"
    and warn: "dur_mul ?E second = ?E * 1000000000" by simp_all
  show ?thesis
  proof (cases "?mine = []")
    case True
    then show ?thesis using exec st assms(1) by (auto simp: hb_Execute_def hb_GetState_def Let_def)
  next
    case False
    then obtain q qs where q: "?mine = q # qs" by (cases ?mine) auto
    let ?p = "last ?mine"
    have late: "d < time_sub now (hp_PingedAt ?p) \<longleftrightarrow> d < now - hp_PingedAt ?p"
      if "0 \<le> d" "d \<le> 9223372036 * 1000000000" for d
      using that by (auto simp: time_sub_def)
    have range: "0 \<le> (?E + ?G) * 1000000000" "(?E + ?G) * 1000000000 \<le> 9223372036 * 1000000000"
      "0 \<le> ?E * 1000000000" "?E * 1000000000 \<le> 9223372036 * 1000000000"
      using assms(2-4) by simp_all
    define D W where "D = dur_mul (wrap64 (?E + ?G)) second" and "W = dur_mul ?E second"
    have "(err \<noteq> None \<longleftrightarrow> hp_Status ?p = ''fail'' \<or> D < time_sub now (hp_PingedAt ?p)) \<and>
      (err = None \<longrightarrow> (if W < time_sub now (hp_PingedAt ?p) then res_Status r' = ''warning'' \<and> \<not> res_Healthy r'
         else res_Status r' = res_Status r \<and> res_Healthy r' = res_Healthy r))"
      using exec st False assms(1)
      by (auto simp: hb_Execute_def hb_GetState_def Let_def D_def [symmetric] W_def [symmetric] split: if_splits)
    moreover have "D < time_sub now (hp_PingedAt ?p) \<longleftrightarrow> (?E + ?G) * 1000000000 < now - hp_PingedAt ?p"
      "W < time_sub now (hp_PingedAt ?p) \<longleftrightarrow> ?E * 1000000000 < now - hp_PingedAt ?p"
      unfolding D_def W_def deadline warn by (rule late [OF range(1,2)], rule late [OF range(3,4)])
    ultimately show ?thesis unfolding q Let_def by simp
  qed
qed

definition nightly_check :: CheckConfig where
  "nightly_check = zero_check\<lparr>chk_ID := ''nightly'', chk_Name := ''nightly'', chk_Heartbeat :=
     Some \<lparr>hb_Token = ''tok'', hb_ExpectedIntervalSeconds = 60, hb_GraceSeconds = 30\<rparr>\<rparr>"

definition ping_at :: "gotime \<Rightarrow> HeartbeatPing" where
  "ping_at t = \<lparr>hp_Token = ''tok'', hp_Status = ''success'', hp_Message = [], hp_PingedAt = t, hp_IPAddress = []\<rparr>"

theorem heartbeat_verdict_witness:
  "res_Status (fst (snd (hb_Execute 70000000000 (pings [ping_at 0] (hb_Register ''tok'' ''nightly'' Map.empty))
     nightly_check zero_result))) = ''warning'' \<and>
   snd (snd (hb_Execute 91000000000 (pings [ping_at 0] (hb_Register ''tok'' ''nightly'' Map.empty))
     nightly_check zero_result)) \<noteq> None"
proof -
  let ?cfg = "\<lparr>hb_Token = ''tok'', hb_ExpectedIntervalSeconds = 60, hb_GraceSeconds = 30\<rparr>"
  have check: "chk_Heartbeat nightly_check = Some ?cfg" "chk_ID nightly_check = ''nightly''"
    by (simp_all add: nightly_check_def)
  let ?X = "\<lambda>now. hb_Execute now (pings [ping_at 0] (hb_Register ''tok'' ''nightly'' Map.empty)) nightly_check zero_result"
  have tok: "hp_Token (ping_at 0) = ''tok''" "hp_Status (ping_at 0) = ''success''" "hp_PingedAt (ping_at 0) = 0"
    by (simp_all add: ping_at_def)
  have exec: "(snd (snd (?X now)) \<noteq> None \<longleftrightarrow> 90000000000 < now) \<and>
      (snd (snd (?X now)) = None \<longrightarrow> 60000000000 < now \<longrightarrow> res_Status (fst (snd (?X now))) = ''warning'')" for now
    using heartbeat_verdict [OF check(1), of Map.empty now "[ping_at 0]" zero_result
        "fst (?X now)" "fst (snd (?X now))" "snd (snd (?X now))"]
    by (simp add: check(2) Let_def tok)
  have "\<not> (90000000000 :: int) < 70000000000" "(90000000000 :: int) < 91000000000" "(60000000000 :: int) < 70000000000" by simp_all
  with exec [of 70000000000] exec [of 91000000000] show ?thesis by blast
qed

text \<open>
  The store of pings is only in memory, and tokens are registered only when defaults are applied:
  to the checks of the configuration file at start, and to a check that is created or changed. So
  after a restart, the pings of any other heartbeat check, one that came from the API, are answered
  with 404 and its runs fail, whatever pings arrive.
\<close>

theorem heartbeat_lost_on_restart:
  assumes "chk_Heartbeat check = Some cfg" and "hb_Token cfg \<noteq> []"
    and "hb_Token cfg \<notin> (\<lambda>c. case chk_Heartbeat c of None \<Rightarrow> [] | Some h \<Rightarrow> hb_Token h) ` set configured"
    and "\<forall>c \<in> set configured. case chk_Heartbeat c of None \<Rightarrow> False | Some h \<Rightarrow> hb_Token h \<noteq> []"
  shows "snd (handlePing now (hb_Token cfg) payload qs qm ip
      (pings ps (foldl (\<lambda>s c. snd (hb_ApplyDefaults newToken c s)) Map.empty configured))) = 404 \<and>
    snd (snd (hb_Execute now (pings ps (foldl (\<lambda>s c. snd (hb_ApplyDefaults newToken c s)) Map.empty configured))
      check r)) \<noteq> None"
proof -
  let ?start = "foldl (\<lambda>s c. snd (hb_ApplyDefaults newToken c s)) Map.empty configured"
  have "?start (hb_Token cfg) = None"
    using assms(3,4)
  proof (induction configured rule: rev_induct)
    case (snoc c cs)
    then show ?case
      by (auto simp: hb_ApplyDefaults_def hb_Register_def Let_def split: option.splits)
  qed simp
  then have "pings ps ?start (hb_Token cfg) = None" by (rule pings_unknown)
  then show ?thesis using assms(1,2)
    by (auto simp: handlePing_def RecordPing_def hb_Execute_def hb_GetState_def Let_def split: option.splits)
qed

theorem heartbeat_lost_on_restart_witness:
  "snd (handlePing 5 ''tok'' None [] [] ''10.0.0.1'' (pings [ping_at 0] Map.empty)) = 404"
  using heartbeat_lost_on_restart [of nightly_check _ "[]" 5 None "[]" "[]" "''10.0.0.1''" "[ping_at 0]" "''t''" zero_result]
  by (simp add: nightly_check_def)

end
