(* ===== verification/Runner.thy ===== *)
theory Runner
  imports Stores Heartbeat
begin

text \<open>
  The runner (\<open>runner.go\<close>): executing one check or all enabled ones, and recording the results in a
  store. Check executors are known by their contract only, a locale; the executor of heartbeat checks
  is the instance the model has. The store is one of the locale \<open>store\<close>.
\<close>

section \<open>Executors\<close>

text \<open>
  An executor works on the resources \<open>'w\<close> it shares with others, gets a check and the prepared result,
  and returns the result as it has filled it in, and an error or none. \<open>'e\<close> is what it reads from its
  environment.
\<close>

type_synonym ('e, 'w) executor = "'e \<Rightarrow> 'w \<Rightarrow> CheckConfig \<Rightarrow> CheckResult \<Rightarrow> 'w \<times> CheckResult \<times> string option"

text \<open>\<open>%q\<close> of a string of printable ASCII characters.\<close>

definition go_quote :: "string \<Rightarrow> string" where
  "go_quote s = CHR 0x22 # concat (map (\<lambda>c. if c = CHR 0x22 \<or> c = CHR 0x5C then [CHR 0x5C, c] else [c]) s) @ [CHR 0x22]"

definition cloneTags :: "string list \<Rightarrow> string list" where
  "cloneTags tags = (if length tags = 0 then [] else tags)"

definition enabledChecks :: "CheckConfig list \<Rightarrow> CheckConfig list" where
  "enabledChecks checks = filter check_is_enabled checks"

definition resolveServer :: "RemoteServer list \<Rightarrow> string \<Rightarrow> RemoteServer option" where
  "resolveServer servers serverId = (if serverId = [] then None else find (\<lambda>s. srv_ID s = serverId) servers)"

text \<open>
  \<open>executeCheck\<close>: \<open>started\<close> and \<open>ended\<close> are the clock before and after; the deadline of the context
  that the executor gets is part of its environment.
\<close>

definition prepared_result :: "gotime \<Rightarrow> CheckConfig \<Rightarrow> CheckResult" where
  "prepared_result started check = zero_result\<lparr>
     res_ID := chk_ID check @ ''-'' @ itoa (unix_nano started), res_CheckID := chk_ID check,
     res_Name := chk_Name check, res_Type := chk_Type check, res_Server := chk_Server check,
     res_Application := chk_Application check, res_StartedAt := started, res_Tags := cloneTags (chk_Tags check),
     res_Metrics := []\<rparr>"

definition critical_result :: "string \<Rightarrow> CheckResult \<Rightarrow> CheckResult" where
  "critical_result message r = r\<lparr>res_Status := ''critical'', res_Healthy := False, res_Message := message\<rparr>"

definition executeCheck ::
  "(string \<Rightarrow> ('e, 'w) executor option) \<Rightarrow> gotime \<Rightarrow> 'e \<Rightarrow> gotime \<Rightarrow> CheckConfig \<Rightarrow> 'w \<Rightarrow> 'w \<times> CheckResult" where
  "executeCheck lookup started e ended check w =
     (let result = prepared_result started check;
          (w, result) =
            (case lookup (chk_Type check) of
               None \<Rightarrow> (w, critical_result (''unsupported check type '' @ go_quote (chk_Type check)) result)
             | Some exec \<Rightarrow>
                 (case exec e w check result of
                    (w, result, Some err) \<Rightarrow> (w, critical_result err result)
                  | (w, result, None) \<Rightarrow> (w, result)));
          result = (if res_Status result = [] then result\<lparr>res_Status := ''healthy'', res_Healthy := True\<rparr> else result)
      in (w, result\<lparr>res_DurationMs := go_quot (time_sub ended started) 1000000, res_FinishedAt := ended\<rparr>))"

section \<open>Recording results\<close>

text \<open>\<open>persistResults\<close> over the two operations of the store it calls.\<close>

definition persistResults ::
  "(CheckResult list \<Rightarrow> int \<Rightarrow> 's \<Rightarrow> 's \<times> string option) \<Rightarrow> (gotime \<Rightarrow> 's \<Rightarrow> 's \<times> string option) \<Rightarrow>
     int \<Rightarrow> CheckResult list \<Rightarrow> gotime \<Rightarrow> 's \<Rightarrow> 's \<times> string option" where
  "persistResults appendResults setLastRun retentionDays results finishedAt s =
     (case appendResults results retentionDays s of
        (s, Some err) \<Rightarrow> (s, Some err)
      | (s, None) \<Rightarrow> setLastRun finishedAt s)"

definition RunCheck ::
  "(CheckResult list \<Rightarrow> int \<Rightarrow> 's \<Rightarrow> 's \<times> string option) \<Rightarrow> (gotime \<Rightarrow> 's \<Rightarrow> 's \<times> string option) \<Rightarrow>
     (string \<Rightarrow> ('e, 'w) executor option) \<Rightarrow> int \<Rightarrow> gotime \<Rightarrow> 'e \<Rightarrow> gotime \<Rightarrow> CheckConfig \<Rightarrow> 's \<times> 'w \<Rightarrow>
     ('s \<times> 'w) \<times> (string + CheckResult)" where
  "RunCheck appendResults setLastRun lookup retentionDays started e ended check sw =
     (let (s, w) = sw;
          (w, result) = executeCheck lookup started e ended check w;
          result = (if is_zero (res_FinishedAt result) then result\<lparr>res_FinishedAt := ended\<rparr> else result)
      in case persistResults appendResults setLastRun retentionDays [result] (res_FinishedAt result) s of
           (s, Some err) \<Rightarrow> ((s, w), Inl err)
         | (s, None) \<Rightarrow> ((s, w), Inr result))"

text \<open>
  \<open>RunOnce\<close>. The workers take the checks from one channel and put the results on another: the checks
  are executed, and the results arrive, in any order, the argument \<open>order\<close> (a permutation, otherwise it
  is ignored); each check is given its own times and environment. An execution is atomic.
\<close>

record 'e check_env =
  ce_started :: gotime
  ce_env :: 'e
  ce_ended :: gotime

fun execute_all ::
  "(string \<Rightarrow> ('e, 'w) executor option) \<Rightarrow> (CheckConfig \<Rightarrow> 'e check_env) \<Rightarrow> CheckConfig list \<Rightarrow> 'w \<Rightarrow>
     'w \<times> CheckResult list" where
  "execute_all lookup env [] w = (w, [])"
| "execute_all lookup env (c # cs) w =
     (let (w, r) = executeCheck lookup (ce_started (env c)) (ce_env (env c)) (ce_ended (env c)) c w;
          (w, rs) = execute_all lookup env cs w
      in (w, r # rs))"

definition in_any_order :: "('a list \<Rightarrow> 'a list) \<Rightarrow> 'a list \<Rightarrow> 'a list" where
  "in_any_order order xs = (if mset (order xs) = mset xs then order xs else xs)"

definition skipped_run :: RunSummary where
  "skipped_run = \<lparr>run_StartedAt = zero_time, run_FinishedAt = zero_time, run_Skipped = True, run_Results = [],
     run_Summary = \<lparr>sum_TotalChecks = 0, sum_EnabledChecks = 0, sum_Healthy = 0, sum_Warning = 0, sum_Critical = 0,
       sum_Unknown = 0, sum_LastRunAt = None, sum_ByServer = [], sum_ByApplication = [], sum_Latest = []\<rparr>\<rparr>"

definition RunOnce ::
  "('s \<Rightarrow> State) \<Rightarrow> (CheckResult list \<Rightarrow> int \<Rightarrow> 's \<Rightarrow> 's \<times> string option) \<Rightarrow>
     (gotime \<Rightarrow> 's \<Rightarrow> 's \<times> string option) \<Rightarrow> (string \<Rightarrow> ('e, 'w) executor option) \<Rightarrow> int \<Rightarrow>
     (CheckConfig list \<Rightarrow> CheckConfig list) \<Rightarrow> (CheckConfig \<Rightarrow> 'e check_env) \<Rightarrow> gotime \<Rightarrow> gotime \<Rightarrow> bool \<Rightarrow>
     's \<times> 'w \<Rightarrow> ('s \<times> 'w) \<times> (string + RunSummary)" where
  "RunOnce snapshot appendResults setLastRun lookup retentionDays order env startedAt finishedAt running sw =
     (if running then (sw, Inr skipped_run)
      else
        let (s, w) = sw; state = snapshot s; checks = enabledChecks (st_Checks state)
        in if length checks = 0 then
             (case setLastRun finishedAt s of
                (s, Some err) \<Rightarrow> ((s, w), Inl err)
              | (s, None) \<Rightarrow> ((s, w), Inr \<lparr>run_StartedAt = startedAt, run_FinishedAt = finishedAt,
                    run_Skipped = False, run_Results = [],
                    run_Summary = buildSummary (st_Checks state) [] (Some finishedAt)\<rparr>))
           else
             let (w, results) = execute_all lookup env (in_any_order order checks) w
             in case persistResults appendResults setLastRun retentionDays results finishedAt s of
                  (s, Some err) \<Rightarrow> ((s, w), Inl err)
                | (s, None) \<Rightarrow> ((s, w), Inr \<lparr>run_StartedAt = startedAt, run_FinishedAt = finishedAt,
                      run_Skipped = False, run_Results = results,
                      run_Summary = buildSummary (st_Checks state) results (Some finishedAt)\<rparr>))"

section \<open>The contract of an executor\<close>

text \<open>
  What the comment on the interface asks for: an executor fills in metrics, and either returns an
  error or sets a status with the matching health flag, or leaves both as they are; it has no business
  with the identity of the result.
\<close>

locale check_executor =
  fixes exec :: "('e, 'w) executor"
  assumes keeps_identity: "exec e w c r = (w', r', err) \<Longrightarrow>
      res_ID r' = res_ID r \<and> res_CheckID r' = res_CheckID r \<and> res_Type r' = res_Type r \<and> res_StartedAt r' = res_StartedAt r"
    and status_agrees: "exec e w c r = (w', r', None) \<Longrightarrow> res_Status r = [] \<Longrightarrow> \<not> res_Healthy r \<Longrightarrow>
      res_Status r' = [] \<and> \<not> res_Healthy r' \<or> (res_Healthy r' \<longleftrightarrow> res_Status r' = ''healthy'')"
begin

lemma identity_of_run:
  assumes "lookup (chk_Type c) = Some exec" and "executeCheck lookup t0 e t1 c w = (w', r)"
  shows "res_ID r = chk_ID c @ ''-'' @ itoa (unix_nano t0) \<and> res_CheckID r = chk_ID c \<and> res_Type r = chk_Type c \<and>
    res_StartedAt r = t0 \<and> res_FinishedAt r = t1"
proof -
  obtain w1 r1 err where r1: "exec e w c (prepared_result t0 c) = (w1, r1, err)" by (cases "exec e w c (prepared_result t0 c)")
  from keeps_identity [OF r1] assms r1 show ?thesis
    by (cases err) (auto simp: executeCheck_def Let_def prepared_result_def critical_result_def split: if_splits)
qed

lemma health_of_run:
  assumes "lookup (chk_Type c) = Some exec" and "executeCheck lookup t0 e t1 c w = (w', r)"
  shows "res_Healthy r \<longleftrightarrow> res_Status r = ''healthy''"
proof -
  obtain w1 r1 err where r1: "exec e w c (prepared_result t0 c) = (w1, r1, err)" by (cases "exec e w c (prepared_result t0 c)")
  show ?thesis
  proof (cases err)
    case None
    have "res_Status (prepared_result t0 c) = []" "\<not> res_Healthy (prepared_result t0 c)"
      by (simp_all add: prepared_result_def zero_result_def)
    with status_agrees [OF r1 [unfolded None]] assms r1 None show ?thesis
      by (auto simp: executeCheck_def Let_def split: if_splits)
  next
    case (Some m)
    with assms r1 show ?thesis by (auto simp: executeCheck_def Let_def critical_result_def)
  qed
qed

end

interpretation heartbeat_executor: check_executor hb_Execute
proof
  fix e w c r w' r' err
  assume "hb_Execute e w c r = (w', r', err)"
  then show "res_ID r' = res_ID r \<and> res_CheckID r' = res_CheckID r \<and> res_Type r' = res_Type r \<and> res_StartedAt r' = res_StartedAt r"
    by (rule hb_Execute_keeps)
next
  fix e w c r w' r'
  assume "hb_Execute e w c r = (w', r', None)" "res_Status r = []" "\<not> res_Healthy r"
  then show "res_Status r' = [] \<and> \<not> res_Healthy r' \<or> (res_Healthy r' \<longleftrightarrow> res_Status r' = ''healthy'')"
    using hb_Execute_status by fastforce
qed

text \<open>A registry all of whose executors keep the contract.\<close>

definition registry_ok :: "(string \<Rightarrow> ('e, 'w) executor option) \<Rightarrow> bool" where
  "registry_ok lookup \<longleftrightarrow> (\<forall>t exec. lookup t = Some exec \<longrightarrow> check_executor exec)"

lemma executeCheck_result:
  assumes "registry_ok lookup" and exec: "executeCheck lookup t0 e t1 c w = (w', r)"
  shows "res_CheckID r = chk_ID c \<and> res_FinishedAt r = t1 \<and> (res_Healthy r \<longleftrightarrow> res_Status r = ''healthy'')"
proof (cases "lookup (chk_Type c)")
  case None
  with exec show ?thesis
    by (auto simp: executeCheck_def Let_def critical_result_def prepared_result_def)
next
  case (Some ex)
  with assms(1) have "check_executor ex" by (simp add: registry_ok_def)
  then show ?thesis
    using check_executor.identity_of_run [OF _ Some exec] check_executor.health_of_run [OF _ Some exec] by blast
qed

lemma execute_all_results:
  "registry_ok lookup \<Longrightarrow> execute_all lookup env cs w = (w', rs) \<Longrightarrow>
     map res_CheckID rs = map chk_ID cs \<and> (\<forall>r \<in> set rs. res_Healthy r \<longleftrightarrow> res_Status r = ''healthy'')"
proof (induction cs arbitrary: w w' rs)
  case (Cons c cs)
  obtain w1 r where r: "executeCheck lookup (ce_started (env c)) (ce_env (env c)) (ce_ended (env c)) c w = (w1, r)"
    by (cases "executeCheck lookup (ce_started (env c)) (ce_env (env c)) (ce_ended (env c)) c w")
  obtain w2 rs' where rs': "execute_all lookup env cs w1 = (w2, rs')" by (cases "execute_all lookup env cs w1")
  from Cons.prems(2) have "rs = r # rs'" by (simp add: r rs')
  with Cons.IH [OF Cons.prems(1) rs'] executeCheck_result [OF Cons.prems(1) r] show ?case by simp
qed simp

lemma mset_in_any_order [simp]: "mset (in_any_order order xs) = mset xs"
  by (simp add: in_any_order_def)

section \<open>The runner over any store\<close>

context store
begin

lemma persist_done:
  assumes "available e1" "available e2"
    and "persistResults (append_results e1) (set_last_run e2) days rs t s = (s', r)"
  shows "r = None \<and> st_Results (contents s') = pruneResults (clock e1) days (st_Results (contents s) @ rs) \<and>
    st_Checks (contents s') = st_Checks (contents s) \<and> st_LastRunAt (contents s') = t"
proof -
  obtain s1 r1 where s1: "append_results e1 rs days s = (s1, r1)" by (cases "append_results e1 rs days s")
  have "r1 = None"
    using update_available [OF assms(1), of "append_mut (clock e1) rs days" s] s1
    by (simp add: append_results_def append_mut_def)
  moreover obtain s2 r2 where s2: "set_last_run e2 t s1 = (s2, r2)" by (cases "set_last_run e2 t s1")
  moreover have "r2 = None"
    using update_available [OF assms(2), of "setlast_mut t" s1] s2
    by (simp add: set_last_run_def setlast_mut_def)
  moreover from this s2 have "\<exists>st. setlast_mut t (contents s1) = Inr st \<and> contents s2 = st\<lparr>st_UpdatedAt := clock e2\<rparr>"
    unfolding set_last_run_def by (intro update_done) simp
  ultimately show ?thesis
    using results_after_append [of e1 rs days s s1] s1 assms(3)
    by (auto simp: persistResults_def setlast_mut_def)
qed

lemma set_last_run_done:
  assumes "available e" and "set_last_run e t s = (s', r)"
  shows "r = None \<and> st_Results (contents s') = st_Results (contents s) \<and>
    st_Checks (contents s') = st_Checks (contents s) \<and> st_LastRunAt (contents s') = t"
proof -
  have "r = None"
    using update_available [OF assms(1), of "setlast_mut t" s] assms(2)
    by (simp add: set_last_run_def setlast_mut_def)
  moreover from this have "\<exists>st. setlast_mut t (contents s) = Inr st \<and> contents s' = st\<lparr>st_UpdatedAt := clock e\<rparr>"
    using assms(2) unfolding set_last_run_def by (intro update_done) simp
  ultimately show ?thesis by (auto simp: setlast_mut_def)
qed

lemma run_once_done:
  assumes "registry_ok lookup" and "available e1" "available e2"
    and run: "RunOnce contents (append_results e1) (set_last_run e2) lookup days order env t0 t1 False (s, w) = ((s', w'), r)"
  shows "\<exists>rs. r = Inr \<lparr>run_StartedAt = t0, run_FinishedAt = t1, run_Skipped = False, run_Results = rs,
       run_Summary = buildSummary (st_Checks (contents s)) rs (Some t1)\<rparr> \<and>
     mset (map res_CheckID rs) = mset (map chk_ID (enabledChecks (st_Checks (contents s)))) \<and>
     (\<forall>r \<in> set rs. res_Healthy r \<longleftrightarrow> res_Status r = ''healthy'') \<and>
     st_Results (contents s') = (if rs = [] then st_Results (contents s)
       else pruneResults (clock e1) days (st_Results (contents s) @ rs)) \<and>
     st_Checks (contents s') = st_Checks (contents s) \<and> st_LastRunAt (contents s') = t1"
proof (cases "enabledChecks (st_Checks (contents s)) = []")
  case True
  obtain s1 r1 where s1: "set_last_run e2 t1 s = (s1, r1)" by (cases "set_last_run e2 t1 s")
  from set_last_run_done [OF assms(3) s1] True run s1 show ?thesis by (auto simp: RunOnce_def Let_def)
next
  case False
  let ?cs = "in_any_order order (enabledChecks (st_Checks (contents s)))"
  obtain w1 rs where rs: "execute_all lookup env ?cs w = (w1, rs)" by (cases "execute_all lookup env ?cs w")
  from execute_all_results [OF assms(1) rs] have ids: "map res_CheckID rs = map chk_ID ?cs"
    and healthy: "\<forall>r \<in> set rs. res_Healthy r \<longleftrightarrow> res_Status r = ''healthy''" by auto
  have "mset (map res_CheckID rs) = image_mset chk_ID (mset ?cs)" by (simp only: ids mset_map)
  then have mset_ids: "mset (map res_CheckID rs) = mset (map chk_ID (enabledChecks (st_Checks (contents s))))"
    by (simp only: mset_in_any_order mset_map)
  then have "rs \<noteq> []" using False by auto
  moreover obtain s1 r1 where s1: "persistResults (append_results e1) (set_last_run e2) days rs t1 s = (s1, r1)"
    by (cases "persistResults (append_results e1) (set_last_run e2) days rs t1 s")
  moreover note persist_done [OF assms(2,3) s1]
  ultimately show ?thesis using run False rs mset_ids healthy by (auto simp: RunOnce_def Let_def)
qed

end

section \<open>What the runner promises\<close>

text \<open>
  Over a \<open>FileStore\<close> whose writes succeed, and executors that keep their contract, \<open>RunOnce\<close>
  returns exactly one result for each enabled check and none for a disabled one, in whatever order the
  workers finish, each healthy exactly if its status is; it appends them to the results of the store,
  pruned, sets the time of the last run, leaves the checks alone, and the summary is that of these
  results. While a run is going on, a second one is skipped and changes nothing.
\<close>

theorem RunOnce_correct:
  assumes "registry_ok lookup" and "can_write e1" and "can_write e2"
    and "RunOnce fs_snapshot (fs_append_results e1) (fs_set_last_run e2) lookup days order env t0 t1 False (s, w) =
      ((s', w'), r)"
  shows "(\<exists>rs. r = Inr \<lparr>run_StartedAt = t0, run_FinishedAt = t1, run_Skipped = False, run_Results = rs,
       run_Summary = buildSummary (st_Checks (fs_state s)) rs (Some t1)\<rparr> \<and>
     mset (map res_CheckID rs) = mset (map chk_ID (filter check_is_enabled (st_Checks (fs_state s)))) \<and>
     (\<forall>r \<in> set rs. res_Healthy r \<longleftrightarrow> res_Status r = ''healthy'') \<and>
     st_Results (fs_state s') = (if rs = [] then st_Results (fs_state s)
       else pruneResults (env_now e1) days (st_Results (fs_state s) @ rs)) \<and>
     st_Checks (fs_state s') = st_Checks (fs_state s) \<and> st_LastRunAt (fs_state s') = t1) \<and>
   (let (sw, r) = RunOnce fs_snapshot (fs_append_results e1) (fs_set_last_run e2) lookup days order env t0 t1 True (s, w)
    in sw = (s, w) \<and> (\<exists>sum. r = Inr sum \<and> run_Skipped sum))"
proof (rule conjI)
  have snapshot: "fs_snapshot = fs_state" by (simp add: fun_eq_iff fs_snapshot_def)
  show "\<exists>rs. r = Inr \<lparr>run_StartedAt = t0, run_FinishedAt = t1, run_Skipped = False, run_Results = rs,
       run_Summary = buildSummary (st_Checks (fs_state s)) rs (Some t1)\<rparr> \<and>
     mset (map res_CheckID rs) = mset (map chk_ID (filter check_is_enabled (st_Checks (fs_state s)))) \<and>
     (\<forall>r \<in> set rs. res_Healthy r \<longleftrightarrow> res_Status r = ''healthy'') \<and>
     st_Results (fs_state s') = (if rs = [] then st_Results (fs_state s)
       else pruneResults (env_now e1) days (st_Results (fs_state s) @ rs)) \<and>
     st_Checks (fs_state s') = st_Checks (fs_state s) \<and> st_LastRunAt (fs_state s') = t1"
    using fstore.run_once_done [OF assms(1-3) assms(4) [unfolded snapshot fs_ops_are_store_ops]]
    unfolding enabledChecks_def .
qed (simp add: RunOnce_def skipped_run_def)

definition heartbeat_registry :: "string \<Rightarrow> (gotime, HeartbeatStore) executor option" where
  "heartbeat_registry t = (if t = ''heartbeat'' then Some hb_Execute else None)"

lemma heartbeat_registry_ok: "registry_ok heartbeat_registry"
  by (simp add: registry_ok_def heartbeat_registry_def heartbeat_executor.check_executor_axioms)

text \<open>Two checks, one of them disabled, and no ping yet.\<close>

definition two_checks_store :: FileStore where
  "two_checks_store = \<lparr>fs_state = empty_state\<lparr>st_Checks :=
     [nightly_check\<lparr>chk_Type := ''heartbeat''\<rparr>, nightly_check\<lparr>chk_ID := ''off'', chk_Enabled := Some False\<rparr>]\<rparr>,
     fs_disk = None\<rparr>"

theorem RunOnce_correct_witness:
  "\<exists>rs. snd (RunOnce fs_snapshot (fs_append_results (sample_env 9)) (fs_set_last_run (sample_env 10)) heartbeat_registry 7
     rev (\<lambda>_. \<lparr>ce_started = 5, ce_env = 6, ce_ended = 7\<rparr>) 4 8 False (two_checks_store, Map.empty)) =
     Inr \<lparr>run_StartedAt = 4, run_FinishedAt = 8, run_Skipped = False, run_Results = rs,
       run_Summary = buildSummary (st_Checks (fs_state two_checks_store)) rs (Some 8)\<rparr> \<and>
   map res_CheckID rs = [''nightly'']"
proof -
  let ?run = "RunOnce fs_snapshot (fs_append_results (sample_env 9)) (fs_set_last_run (sample_env 10)) heartbeat_registry 7
     rev (\<lambda>_. \<lparr>ce_started = 5, ce_env = 6, ce_ended = 7\<rparr>) 4 8 False (two_checks_store, Map.empty)"
  have w: "can_write (sample_env t)" for t by (simp add: can_write_def sample_env_def)
  have "?run = ((fst (fst ?run), snd (fst ?run)), snd ?run)" by simp
  from RunOnce_correct [OF heartbeat_registry_ok w w this]
  obtain rs where "snd ?run = Inr \<lparr>run_StartedAt = 4, run_FinishedAt = 8, run_Skipped = False, run_Results = rs,
       run_Summary = buildSummary (st_Checks (fs_state two_checks_store)) rs (Some 8)\<rparr>"
    and ids: "mset (map res_CheckID rs) = mset (map chk_ID (filter check_is_enabled (st_Checks (fs_state two_checks_store))))"
    by auto
  moreover have "map chk_ID (filter check_is_enabled (st_Checks (fs_state two_checks_store))) = [''nightly'']"
    by (simp add: two_checks_store_def nightly_check_def zero_check_def check_is_enabled_def)
  moreover from this ids have "map res_CheckID rs = [''nightly'']"
    by (metis mset.simps(1) mset.simps(2) mset_single_iff_right)
  ultimately show ?thesis by (intro exI [of _ rs]) simp
qed

text \<open>
  \<open>RunCheck\<close> over a \<open>FileStore\<close> either records the result of its check, sets the time of the last run
  and returns the result, or fails. It fails in two ways: nothing is recorded; or the result is
  recorded but the time of the last run cannot be written, and then the caller gets an error and not
  the result, so that no alert is evaluated for it.
\<close>

theorem RunCheck_correct:
  assumes "registry_ok lookup" and "t1 \<noteq> zero_time"
    and "RunCheck (fs_append_results e1) (fs_set_last_run e2) lookup days t0 e t1 c (s, w) = ((s', w'), r)"
  shows "(case r of
      Inr result \<Rightarrow> res_CheckID result = chk_ID c \<and> (res_Healthy result \<longleftrightarrow> res_Status result = ''healthy'') \<and>
        st_Results (fs_state s') = pruneResults (env_now e1) days (st_Results (fs_state s) @ [result]) \<and>
        st_LastRunAt (fs_state s') = t1
    | Inl err \<Rightarrow>
        env_werr e1 = Some err \<and> s' = s \<or>
        env_werr e1 = None \<and> env_werr e2 = Some err \<and>
        (\<exists>result. snd (executeCheck lookup t0 e t1 c w) = result \<and> res_CheckID result = chk_ID c \<and>
          st_Results (fs_state s') = pruneResults (env_now e1) days (st_Results (fs_state s) @ [result]) \<and>
          st_LastRunAt (fs_state s') = st_LastRunAt (fs_state s)))"
proof -
  obtain w1 result where result: "executeCheck lookup t0 e t1 c w = (w1, result)" by (cases "executeCheck lookup t0 e t1 c w")
  note r = executeCheck_result [OF assms(1) result]
  have run: "((s', w'), r) = (case persistResults (fs_append_results e1) (fs_set_last_run e2) days [result] t1 s of
           (s, Some err) \<Rightarrow> ((s, w1), Inl err)
         | (s, None) \<Rightarrow> ((s, w1), Inr result))"
    using assms(2,3) result r by (simp add: RunCheck_def is_zero_def)
  show ?thesis
  proof (cases "env_werr e1")
    case (Some err)
    then show ?thesis using run
      by (simp add: persistResults_def fs_append_results_def append_mut_def fs_update_cases)
  next
    case written: None
    show ?thesis
    proof (cases "env_werr e2")
      case (Some err)
      then show ?thesis using run written r result
        by (simp add: persistResults_def fs_append_results_def append_mut_def fs_update_cases
            fs_set_last_run_def setlast_mut_def)
    next
      case None
      then show ?thesis using run written r
        by (simp add: persistResults_def fs_append_results_def append_mut_def fs_update_cases
            fs_set_last_run_def setlast_mut_def)
    qed
  qed
qed

theorem RunCheck_correct_witness:
  "\<exists>err. snd (RunCheck (fs_append_results (sample_env 9)) (fs_set_last_run ((sample_env 10)\<lparr>env_werr := Some err\<rparr>))
     heartbeat_registry 0 5 6 7 nightly_check (two_checks_store, Map.empty)) = Inl err \<and>
   (\<exists>result. st_Results (fs_state (fst (fst (RunCheck (fs_append_results (sample_env 9))
       (fs_set_last_run ((sample_env 10)\<lparr>env_werr := Some err\<rparr>))
     heartbeat_registry 0 5 6 7 nightly_check (two_checks_store, Map.empty))))) = [result])"
proof (rule exI [of _ "''disk full''"])
  let ?run = "RunCheck (fs_append_results (sample_env 9)) (fs_set_last_run ((sample_env 10)\<lparr>env_werr := Some ''disk full''\<rparr>))
     heartbeat_registry 0 5 6 7 nightly_check (two_checks_store, Map.empty)"
  have "snd ?run = Inl ''disk full''"
    by (simp add: RunCheck_def case_prod_unfold Let_def persistResults_def fs_append_results_def append_mut_def
        fs_update_cases fs_set_last_run_def setlast_mut_def sample_env_def)
  moreover have "?run = ((fst (fst ?run), snd (fst ?run)), snd ?run)" by simp
  moreover note RunCheck_correct [OF heartbeat_registry_ok _ this]
  ultimately show "snd ?run = Inl ''disk full'' \<and> (\<exists>result. st_Results (fs_state (fst (fst ?run))) = [result])"
    by (auto simp: sample_env_def zero_time_def two_checks_store_def empty_state_def pruneResults_def)
qed

end
