(* ===== verification/Redact.thy ===== *)
theory Redact
  imports Prelude
begin

text \<open>
  \<open>redactAndCap\<close> of \<open>internal/monitoring/remediation/engine.go\<close>: the output of a
  remediation command is stored and sent to the AI provider only after the values of
  \<open>password=\<close>, \<open>token=\<close> and four similar keys have been overwritten and the text has been
  cut to a limit. \<open>redact_loop\<close> is the inner loop as written, with its index into a string that
  is rebuilt in every round; since nothing in it says that it stops, it is a partial function, and
  that it returns is a theorem. \<open>redact\<close> is the reference: one pass from left to right.

  Strings are byte strings. \<open>lower\<close> is \<open>strings.ToLower\<close>: on ASCII text it changes letters one by one, on other
  text it can change the length, and the indices of the source, which are taken in the lowered string
  and used in the original, no longer match. A slice out of range is a panic, an error value here. The theorems
  are about ASCII text; a text that makes the code panic is given at the end.
\<close>

section \<open>The code\<close>

definition redaction :: string where
  "redaction = ''***REDACTED***''"

definition ends_value :: "char \<Rightarrow> bool" where
  "ends_value c \<longleftrightarrow> c = CHR '' '' \<or> c = CHR 0x0A \<or> c = CHR ''&''"

text \<open>The scan \<^verbatim>\<open>valueEnd := end; for valueEnd < len(s) && ... { valueEnd++ }\<close>.\<close>

function value_end :: "string \<Rightarrow> nat \<Rightarrow> nat" where
  "value_end s v =
     (if v < length s \<and> \<not> ends_value (s ! v) then value_end s (v + 1) else v)"
  by pat_completeness auto
termination by (relation "measure (\<lambda>(s, v). length s - v)") auto

declare value_end.simps [simp del]

definition slice_panic :: string where
  "slice_panic = ''runtime error: slice bounds out of range''"

partial_function (option) redact_loop :: "(string \<Rightarrow> string) \<Rightarrow> string \<Rightarrow> string \<Rightarrow> nat \<Rightarrow> (string + string) option" where
  "redact_loop lower p s idx =
     (let e = idx + length p
      in if length s < e then Some (Inl slice_panic)
         else let s' = take e s @ redaction @ drop (value_end s e) s
           in case str_index (lower (drop e s')) p of
                None \<Rightarrow> Some (Inr s')
              | Some k \<Rightarrow> redact_loop lower p s' (k + e))"

definition redact_pattern :: "(string \<Rightarrow> string) \<Rightarrow> string \<Rightarrow> string \<Rightarrow> (string + string) option" where
  "redact_pattern lower p s =
     (case str_index (lower s) p of None \<Rightarrow> Some (Inr s) | Some idx \<Rightarrow> redact_loop lower p s idx)"

definition redact_patterns :: "string list" where
  "redact_patterns =
     [''password='', ''passwd='', ''secret='', ''token='', ''api_key='', ''apikey='']"

fun redact_all :: "(string \<Rightarrow> string) \<Rightarrow> string list \<Rightarrow> string \<Rightarrow> (string + string) option" where
  "redact_all lower [] s = Some (Inr s)"
| "redact_all lower (p # ps) s =
     (case redact_pattern lower p s of
        None \<Rightarrow> None
      | Some (Inl panic) \<Rightarrow> Some (Inl panic)
      | Some (Inr s') \<Rightarrow> redact_all lower ps s')"

definition cap_output :: "string \<Rightarrow> int \<Rightarrow> string" where
  "cap_output s limit =
     (if limit < int (length s)
      then take (nat limit) s @ CHR 0x0A # ''... [output truncated at '' @ itoa limit @ '' bytes]''
      else s)"

definition redactAndCap :: "(string \<Rightarrow> string) \<Rightarrow> string \<Rightarrow> int \<Rightarrow> (string + string) option" where
  "redactAndCap lower s limit =
     (case redact_all lower redact_patterns s of
        None \<Rightarrow> None
      | Some (Inl panic) \<Rightarrow> Some (Inl panic)
      | Some (Inr t) \<Rightarrow> if limit < 0 then Some (Inl slice_panic) else Some (Inr (cap_output t limit)))"

definition ascii :: "string \<Rightarrow> bool" where
  "ascii s \<longleftrightarrow> (\<forall>c \<in> set s. of_char c < (128 :: nat))"

text \<open>What is documented of \<open>strings.ToLower\<close> and used here.\<close>

definition lowers_ascii :: "(string \<Rightarrow> string) \<Rightarrow> bool" where
  "lowers_ascii lower \<longleftrightarrow> (\<forall>s. ascii s \<longrightarrow> lower s = to_lower s)"

section \<open>The reference and what it means for a text to be clean\<close>

function redact :: "string \<Rightarrow> string \<Rightarrow> string" where
  "redact p s =
     (if p = [] then s
      else case str_index (to_lower s) p of
             None \<Rightarrow> s
           | Some i \<Rightarrow> take (i + length p) s @ redaction @
               redact p (dropWhile (\<lambda>c. \<not> ends_value c) (drop (i + length p) s)))"
  by pat_completeness auto
termination
proof (relation "measure (\<lambda>(p, s). length s)", simp, clarsimp)
  fix p s :: string and i
  assume "p \<noteq> []" and "str_index (to_lower s) p = Some i"
  then have "i + length p \<le> length s" and "0 < length p"
    by (auto dest!: str_index_Some simp: to_lower_def)
  moreover have "length (dropWhile (\<lambda>c. \<not> ends_value c) (drop (i + length p) s)) \<le>
      length (drop (i + length p) s)" by (rule length_dropWhile_le)
  ultimately show "length (dropWhile (\<lambda>c. \<not> ends_value c) (drop (i + length p) s)) < length s"
    unfolding length_drop by linarith
qed

declare redact.simps [simp del]

text \<open>
  A text is clean for a key when every occurrence of the key, in whatever case, is followed by
  the mask, and the mask by the end of the text or of the value.
\<close>

definition masked_value :: "string \<Rightarrow> bool" where
  "masked_value u \<longleftrightarrow> has_prefix u redaction \<and>
     (case drop (length redaction) u of [] \<Rightarrow> True | d # _ \<Rightarrow> ends_value d)"

fun clean :: "string \<Rightarrow> string \<Rightarrow> bool" where
  "clean p [] \<longleftrightarrow> True"
| "clean p (c # cs) \<longleftrightarrow>
     (has_prefix (to_lower (c # cs)) p \<longrightarrow> masked_value (drop (length p) (c # cs))) \<and> clean p cs"

section \<open>Strings and keys\<close>

lemma to_lower_append [simp]: "to_lower (a @ b) = to_lower a @ to_lower b"
  by (simp add: to_lower_def)

lemma to_lower_Cons [simp]: "to_lower (c # cs) = to_lower_char c # to_lower cs"
  by (simp add: to_lower_def)

lemma to_lower_Nil [simp]: "to_lower [] = []"
  by (simp add: to_lower_def)

lemma length_to_lower [simp]: "length (to_lower s) = length s"
  by (simp add: to_lower_def)

lemma to_lower_mask: "to_lower redaction = ''***redacted***''"
  unfolding redaction_def by code_simp

lemma value_end_dropWhile:
  "drop (value_end s v) s = dropWhile (\<lambda>c. \<not> ends_value c) (drop v s)"
proof (induction s v rule: value_end.induct)
  case (1 s v)
  show ?case
  proof (cases "v < length s")
    case True
    then have v: "drop v s = s ! v # drop (v + 1) s" by (simp add: Cons_nth_drop_Suc)
    have "drop (if \<not> ends_value (s ! v) then value_end s (v + 1) else v) s =
        dropWhile (\<lambda>c. \<not> ends_value c) (s ! v # drop (v + 1) s)"
      using 1 True v by simp
    with True v show ?thesis by (subst value_end.simps) simp
  next
    case False
    then show ?thesis by (subst value_end.simps) simp
  qed
qed

text \<open>What the proofs use of a key: it ends with its only equals sign and has no star.\<close>

definition key :: "string \<Rightarrow> bool" where
  "key p \<longleftrightarrow> p \<noteq> [] \<and> last p = CHR ''='' \<and> CHR ''='' \<notin> set (butlast p) \<and>
     CHR ''*'' \<notin> set p \<and> (\<forall>c \<in> set p. \<not> ends_value c \<and> \<not> ends_value (to_upper_char c))"

lemma keys: "p \<in> set redact_patterns \<Longrightarrow> key p"
proof -
  have "\<forall>p \<in> set redact_patterns. key p" unfolding redact_patterns_def by code_simp
  then show "p \<in> set redact_patterns \<Longrightarrow> key p" by blast
qed

lemma keys_no_suffix:
  "p \<in> set redact_patterns \<Longrightarrow> q \<in> set redact_patterns \<Longrightarrow> p = a @ q \<Longrightarrow> a = []"
proof -
  have "\<forall>p \<in> set redact_patterns. \<forall>q \<in> set redact_patterns. has_suffix p q \<longrightarrow> p = q"
    unfolding redact_patterns_def by code_simp
  then show "p \<in> set redact_patterns \<Longrightarrow> q \<in> set redact_patterns \<Longrightarrow> p = a @ q \<Longrightarrow> a = []"
    by (fastforce simp: has_suffix_def)
qed

section \<open>Where a key can occur after a replacement\<close>

lemma key_snoc: "key p \<Longrightarrow> \<exists>p0. p = p0 @ [CHR ''=''] \<and> CHR ''='' \<notin> set p0 \<and> CHR ''*'' \<notin> set p0"
proof -
  assume p: "key p"
  then have "butlast p @ [CHR ''=''] = p" by (metis append_butlast_last_id key_def)
  with p show ?thesis by (metis in_set_butlastD key_def)
qed

lemma key_nonempty: "key p \<Longrightarrow> p \<noteq> []"
  by (simp add: key_def)

text \<open>No key begins inside the redaction or runs into it.\<close>

lemma no_key_in_mask:
  assumes "key p" and "m \<noteq> []" and "CHR ''='' \<notin> set m" and "last m = CHR ''*''"
  shows "\<not> has_prefix (m @ r) p"
proof
  assume "has_prefix (m @ r) p"
  then obtain t where "m @ r = p @ t" by (auto simp: has_prefix_iff)
  then obtain u where "m = p @ u \<or> p = m @ u" by (auto simp: append_eq_append_conv2)
  moreover have "CHR ''='' \<in> set p" and "CHR ''*'' \<notin> set p" using \<open>key p\<close>
    by (auto simp: key_def intro: last_in_set) (metis last_in_set)
  moreover have "CHR ''*'' \<in> set m" using assms(2,4) by (metis last_in_set)
  ultimately show False using assms(3) by auto
qed

lemma str_index_skip:
  assumes "key p" and "CHR ''='' \<notin> set m" and "m \<noteq> [] \<Longrightarrow> last m = CHR ''*''"
  shows "str_index (m @ r) p = map_option ((+) (length m)) (str_index r p)"
  using assms(2,3)
proof (induction m)
  case Nil
  show ?case by (simp add: option.map_ident)
next
  case (Cons c m)
  from Cons.prems have "\<not> has_prefix ((c # m) @ r) p" by (intro no_key_in_mask [OF \<open>key p\<close>]) auto
  moreover from Cons have "str_index (m @ r) p = map_option ((+) (length m)) (str_index r p)"
    by (auto split: if_splits)
  ultimately show ?case by (simp add: option.map_comp comp_def)
qed

lemma mask_facts:
  "CHR ''='' \<notin> set (to_lower redaction)" "last (to_lower redaction) = CHR ''*''" "hd (to_lower redaction) = CHR ''*''"
  "length redaction = 14" "redaction \<noteq> []"
  by (simp_all add: to_lower_mask) (simp_all add: redaction_def)

lemma str_index_after_mask:
  "key p \<Longrightarrow> str_index (to_lower (redaction @ r)) p = map_option ((+) (length redaction)) (str_index (to_lower r) p)"
  using str_index_skip [of p "to_lower redaction" "to_lower r"] mask_facts by simp

lemma ascii_append [simp]: "ascii (a @ b) \<longleftrightarrow> ascii a \<and> ascii b"
  by (auto simp: ascii_def)

lemma ascii_part: "ascii s \<Longrightarrow> ascii (take n s)" "ascii s \<Longrightarrow> ascii (drop n s)" "ascii s \<Longrightarrow> ascii (dropWhile P s)"
  by (auto simp: ascii_def dest: in_set_takeD in_set_dropD set_dropWhileD)

lemma ascii_redaction [simp]: "ascii redaction"
  unfolding ascii_def redaction_def by code_simp

lemma ascii_redact: "ascii s \<Longrightarrow> ascii (redact p s)"
proof (induction p s rule: redact.induct)
  case (1 p s)
  then show ?case by (subst redact.simps) (simp add: ascii_part split: option.split)
qed

lemma redact_loop_eq:
  assumes "key p" and "str_index (to_lower (drop base s)) p = Some i" and "lowers_ascii lower" and "ascii s"
  shows "redact_loop lower p s (base + i) = Some (Inr (take base s @ redact p (drop base s)))"
  using assms(2,4)
proof (induction "length (drop base s)" arbitrary: base s i rule: less_induct)
  case less
  define e where "e = base + i + length p"
  define r where "r = dropWhile (\<lambda>c. \<not> ends_value c) (drop e s)"
  define s' where "s' = take e s @ redaction @ r"
  from less.prems have bound: "i + length p \<le> length s - base"
    by (auto dest!: str_index_Some)
  moreover from \<open>key p\<close> have "0 < length p" by (simp add: key_def)
  ultimately have e: "e \<le> length s" "base + i < e"
    unfolding e_def by linarith+
  then have drops: "drop e s' = redaction @ r" "take e s' = take e s" by (simp_all add: s'_def)
  have red: "redact p (drop base s) = take (i + length p) (drop base s) @ redaction @ redact p r"
    using less.prems key_nonempty [OF \<open>key p\<close>]
    by (subst redact.simps) (simp add: r_def e_def ac_simps)
  have front: "take base s @ take (i + length p) (drop base s) = take e s"
    by (simp add: e_def take_add add.assoc)
  have ascii: "ascii s'" "ascii (redaction @ r)" using less.prems(2) by (simp_all add: s'_def r_def ascii_part)
  have low: "lower (drop e s') = to_lower (redaction @ r)"
    using assms(3) ascii(2) unfolding lowers_ascii_def drops(1) by blast
  have "redact_loop lower p s (base + i) =
      (case str_index (lower (drop e s')) p of None \<Rightarrow> Some (Inr s') | Some k \<Rightarrow> redact_loop lower p s' (k + e))"
    using e(1) by (subst redact_loop.simps)
      (simp only: Let_def value_end_dropWhile e_def [symmetric] r_def [symmetric] s'_def [symmetric] not_less [symmetric] if_False)
  then have unfolded: "redact_loop lower p s (base + i) =
      (case str_index (to_lower (redaction @ r)) p of None \<Rightarrow> Some (Inr s') | Some k \<Rightarrow> redact_loop lower p s' (k + e))"
    by (simp only: low)
  show ?case
  proof (cases "str_index (to_lower r) p")
    case None
    then have "redact p r = r" by (subst redact.simps) simp
    with None red front show ?thesis
      using str_index_after_mask [OF \<open>key p\<close>, of r] by (simp add: unfolded s'_def del: to_lower_append flip: append_assoc)
  next
    case (Some j)
    define b where "b = e + length redaction"
    have b: "drop b s' = r" "take b s' = take e s @ redaction"
      using e by (simp_all add: b_def s'_def)
    have "length r \<le> length (drop e s)" unfolding r_def by (rule length_dropWhile_le)
    with e have "length (drop b s') < length (drop base s)" by (simp add: b)
    from less.hyps [OF this] Some b ascii(1) have "redact_loop lower p s' (b + j) = Some (Inr ((take e s @ redaction) @ redact p r))"
      by simp
    moreover have "redact_loop lower p s (base + i) = redact_loop lower p s' (b + j)"
      using Some str_index_after_mask [OF \<open>key p\<close>, of r]
      by (simp add: unfolded b_def add.commute add.left_commute del: to_lower_append)
    moreover have "take base s @ redact p (drop base s) = (take e s @ redaction) @ redact p r"
      unfolding red front [symmetric] append_assoc ..
    ultimately show ?thesis by simp
  qed
qed

lemma redact_pattern_eq:
  assumes "key p" and "lowers_ascii lower" and "ascii s"
  shows "redact_pattern lower p s = Some (Inr (redact p s))"
proof -
  have low: "lower s = to_lower s" using assms(2,3) by (simp add: lowers_ascii_def)
  show ?thesis
  proof (cases "str_index (to_lower s) p")
    case None
    then show ?thesis by (simp add: redact_pattern_def low redact.simps [of p s])
  next
    case (Some i)
    with redact_loop_eq [OF assms(1), of 0 s i lower] assms(2,3) show ?thesis by (simp add: redact_pattern_def low)
  qed
qed

section \<open>The output is clean\<close>

text \<open>
  Two keys can only overlap completely: an occurrence of \<open>p\<close> in a text that ends with \<open>q\<close>
  lies before that \<open>q\<close> or ends with it.
\<close>

lemma key_overlap:
  assumes "key p" and "key q" and eq: "a @ q = p @ t"
  shows "length p \<le> length a \<or> p = a @ q"
proof (rule disjCI)
  assume "p \<noteq> a @ q"
  with eq have "t \<noteq> []" by auto
  obtain p0 q0 where p: "p = p0 @ [CHR ''='']" and q: "q = q0 @ [CHR ''='']" and "CHR ''='' \<notin> set q0"
    using key_snoc [OF \<open>key p\<close>] key_snoc [OF \<open>key q\<close>] by blast
  from eq obtain u where u: "a = p @ u \<and> u @ q = t \<or> a @ u = p \<and> q = u @ t"
    by (auto simp: append_eq_append_conv2)
  show "length p \<le> length a"
  proof (rule ccontr)
    assume "\<not> length p \<le> length a"
    with u have "a @ u = p" and "q = u @ t" and "u \<noteq> []" by auto
    then have "last u = CHR ''=''" using p by (metis last_appendR last_snoc)
    then have "CHR ''='' \<in> set u" using \<open>u \<noteq> []\<close> by (metis last_in_set)
    moreover from \<open>q = u @ t\<close> \<open>t \<noteq> []\<close> q have "q0 = u @ butlast t" by (metis butlast_append butlast_snoc)
    ultimately show False using \<open>CHR ''='' \<notin> set q0\<close> by simp
  qed
qed

lemma key_inside:
  assumes "key p" and "key q" and eq: "u @ p @ t = q"
  shows "t = []"
proof (rule ccontr)
  assume "t \<noteq> []"
  with eq have "butlast q = u @ p @ butlast t" by (auto simp: butlast_append)
  with \<open>key q\<close> have "CHR ''='' \<notin> set p" by (auto simp: key_def)
  moreover from \<open>key p\<close> have "CHR ''='' \<in> set p" by (metis key_def last_in_set)
  ultimately show False by blast
qed

lemma key_before_mask:
  assumes "key p" and "has_prefix (to_lower (b @ redaction @ r)) p"
  shows "\<exists>t. to_lower b = p @ t"
proof -
  have split: "to_lower redaction = CHR ''*'' # tl (to_lower redaction)" by (simp add: to_lower_mask)
  from assms(2) obtain t where t: "to_lower b @ to_lower redaction @ to_lower r = p @ t"
    by (auto simp: has_prefix_iff)
  have "length p \<le> length b"
  proof (rule ccontr)
    assume "\<not> length p \<le> length b"
    then have "p ! length b = (p @ t) ! length b" by (simp add: nth_append)
    also have "\<dots> = (to_lower redaction @ to_lower r) ! 0" unfolding t [symmetric]
      by (metis add.right_neutral length_to_lower nth_append_length_plus)
    also have "\<dots> = CHR ''*''" by (subst split) simp
    finally show False using \<open>key p\<close> \<open>\<not> length p \<le> length b\<close>
      by (metis key_def not_le nth_mem)
  qed
  with t have "take (length p) (to_lower b) = p" by (metis append_eq_conv_conj length_to_lower take_append take_all_iff diff_is_0_eq take0 append_Nil2)
  then show ?thesis by (metis append_take_drop_id)
qed

lemma clean_append: "clean p (a @ b) \<Longrightarrow> clean p b"
  by (induction a) auto

lemma clean_absent: "str_index (to_lower s) p = None \<Longrightarrow> clean p s"
  by (induction s) (auto split: if_splits)

lemma clean_mask:
  assumes "key p" and "clean p r"
  shows "clean p (redaction @ r)"
proof -
  have "clean p (m @ r)" if "to_lower m = drop k (to_lower redaction)" for m k
    using that
  proof (induction m arbitrary: k)
    case Nil
    then show ?case using assms(2) by simp
  next
    case (Cons c m)
    have "\<not> has_prefix (to_lower (c # m) @ to_lower r) p"
    proof (rule no_key_in_mask [OF assms(1)])
      show "CHR ''='' \<notin> set (to_lower (c # m))"
        using Cons.prems mask_facts(1) by (metis in_set_dropD)
      have "drop k (to_lower redaction) \<noteq> []" using Cons.prems by (metis list.distinct(1) to_lower_Cons)
      then show "last (to_lower (c # m)) = CHR ''*''"
        using Cons.prems mask_facts(2) by (metis last_drop drop_eq_Nil not_le)
    qed simp
    moreover from Cons.prems have "to_lower m = drop (Suc k) (to_lower redaction)"
      by (metis drop_Suc list.sel(3) tl_drop to_lower_Cons)
    ultimately show ?case using Cons.IH by simp
  qed
  from this [of redaction 0] show ?thesis by simp
qed

lemma masked_value_extends:
  assumes "masked_value (d @ q @ x)" and "key (to_lower q)"
  shows "\<exists>c d'. d = redaction @ c # d' \<and> ends_value c"
proof -
  from assms(1) have "has_prefix (d @ q @ x) redaction" by (simp add: masked_value_def)
  then obtain t where t: "d @ q @ x = redaction @ t" by (auto simp: has_prefix_iff)
  then have "\<exists>u. d = redaction @ u \<and> u @ q @ x = t \<or> d @ u = redaction \<and> q @ x = u @ t"
    by (simp only: append_eq_append_conv2)
  then have "(\<exists>u. d = redaction @ u) \<or> (\<exists>u. u \<noteq> [] \<and> redaction = d @ u \<and> q @ x = u @ t)"
    by (metis append_Nil2)
  then obtain u where u: "d = redaction @ u"
  proof (elim disjE exE conjE)
    fix u assume "u \<noteq> []" and m: "redaction = d @ u" and "q @ x = u @ t"
    then have "to_lower q @ to_lower x = to_lower u @ to_lower t" by (metis to_lower_append)
    then have "has_prefix (to_lower u @ to_lower t) (to_lower q)" by (metis has_prefix_append)
    moreover have "\<not> has_prefix (to_lower u @ to_lower t) (to_lower q)"
    proof (rule no_key_in_mask [OF assms(2)])
      show "CHR ''='' \<notin> set (to_lower u)" using mask_facts(1) by (simp add: m)
      show "last (to_lower u) = CHR ''*''" using mask_facts(2) \<open>u \<noteq> []\<close>
        by (metis m last_appendR to_lower_append length_0_conv length_to_lower)
      show "to_lower u \<noteq> []" using \<open>u \<noteq> []\<close> by (metis length_0_conv length_to_lower)
    qed
    ultimately show thesis by blast
  qed
  obtain c cs where q: "q = c # cs" using key_nonempty [OF assms(2)] by (cases q) auto
  have "\<not> ends_value c"
  proof
    assume "ends_value c"
    then have "to_lower_char c = c" by (auto simp: ends_value_def to_lower_char_def)
    with \<open>ends_value c\<close> assms(2) show False by (simp add: q key_def)
  qed
  then show ?thesis using assms(1) by (cases u) (auto simp: u q masked_value_def)
qed

text \<open>
  The step of the two inductions: in \<open>b @ redaction @ r\<close>, where \<open>b\<close> ends with the key \<open>q\<close> whose
  value has just been replaced, the occurrences of \<open>p\<close> before the redaction are those of the old
  text that lie before \<open>q\<close>, and \<open>q\<close> itself.
\<close>

lemma clean_replaced:
  assumes p: "p \<in> set redact_patterns" and q: "q \<in> set redact_patterns" "to_lower q' = q"
    and r: "clean p r" "p = q \<Longrightarrow> r = [] \<or> ends_value (hd r)"
    and old: "\<And>a1 a2. a = a1 @ a2 \<Longrightarrow> has_prefix (to_lower a2) p \<Longrightarrow> \<exists>d c d'. a2 = d @ redaction @ c # d' \<and> length d = length p \<and> ends_value c"
  shows "clean p (a @ q' @ redaction @ r)"
proof -
  have keys: "key p" "key q" using p q keys by auto
  have "clean p (b @ redaction @ r)" if "\<exists>x. x @ b = a @ q'" for b
    using that
  proof (induction b)
    case Nil
    show ?case using clean_mask [OF keys(1) r(1)] by simp
  next
    case (Cons c b)
    then obtain x where x: "x @ c # b = a @ q'" by blast
    then have "(x @ [c]) @ b = a @ q'" by simp
    with Cons.IH have IH: "clean p (b @ redaction @ r)" by blast
    have "masked_value (drop (length p) (c # b @ redaction @ r))"
      if occ: "has_prefix (to_lower ((c # b) @ redaction @ r)) p"
    proof -
      from key_before_mask [OF keys(1) occ] obtain t where t: "to_lower (c # b) = p @ t" by blast
      from x have "\<exists>u. x = a @ u \<and> u @ c # b = q' \<or> x @ u = a \<and> c # b = u @ q'"
        by (simp only: append_eq_append_conv2)
      then obtain u where "(a = x @ u \<and> c # b = u @ q') \<or> (q' = u @ c # b \<and> u \<noteq> [])"
        by (metis append_Nil append_Nil2)
      then show ?thesis
      proof (elim disjE conjE)
        assume a: "a = x @ u" and b: "c # b = u @ q'"
        with t q have "to_lower u @ q = p @ t" by (metis to_lower_append)
        from key_overlap [OF keys this] show ?thesis
        proof (elim disjE)
          assume "length p \<le> length (to_lower u)"
          then have "has_prefix (to_lower u) p"
            using \<open>to_lower u @ q = p @ t\<close>
            by (metis append_eq_append_conv_if append_take_drop_id has_prefix_append)
          from old [OF a this] obtain d k d' where d: "u = d @ redaction @ k # d'" "length d = length p"
              and "ends_value k" by blast
          have eq: "c # b @ redaction @ r = d @ redaction @ k # d' @ q' @ redaction @ r"
            using d(1) b by (metis append_Cons append_assoc)
          have "drop (length p) (c # b @ redaction @ r) = redaction @ k # d' @ q' @ redaction @ r"
            unfolding eq d(2) [symmetric] by simp
          with \<open>ends_value k\<close> show ?thesis by (simp add: masked_value_def)
        next
          assume "p = to_lower u @ q"
          with keys_no_suffix [OF p q(1) this] have "p = q" and "u = []"
            by (auto simp: to_lower_def)
          with b q(2) have "c # b = q'" and "length q' = length p" by auto
          then have "drop (length p) (c # b @ redaction @ r) = redaction @ r" by (metis append_Cons append_eq_conv_conj)
          with r(2) [OF \<open>p = q\<close>] show ?thesis
            using has_prefix_append [of redaction "[]"] by (cases r) (auto simp: masked_value_def)
        qed
      next
        assume u: "q' = u @ c # b" "u \<noteq> []"
        with t q have "to_lower u @ p @ t = q" by (metis to_lower_append)
        with key_inside [OF keys(1,2)] keys_no_suffix [OF q(1) p] have "u = []"
          by (metis append_Nil2 length_0_conv length_to_lower)
        with u show ?thesis by blast
      qed
    qed
    with IH show ?case by simp
  qed
  then show ?thesis by (metis append_Nil append_assoc)
qed

lemma old_occurrence:
  assumes "clean p (a @ q' @ x)" and "key (to_lower q')"
    and "a = a1 @ a2" and "has_prefix (to_lower a2) p" and "p \<noteq> []"
  shows "\<exists>d c d'. a2 = d @ redaction @ c # d' \<and> length d = length p \<and> ends_value c"
proof -
  from assms(4) obtain t where t: "to_lower a2 = p @ t" by (auto simp: has_prefix_iff)
  then have "length p \<le> length a2" by (metis length_append length_to_lower le_add1)
  moreover have "clean p (a2 @ q' @ x)" using assms(1,3) by (simp add: clean_append)
  moreover have "has_prefix (to_lower (a2 @ q' @ x)) p" by (simp add: t)
  moreover have "a2 \<noteq> []" using \<open>length p \<le> length a2\<close> \<open>p \<noteq> []\<close> by auto
  ultimately have "masked_value (drop (length p) (a2 @ q' @ x))" by (cases a2) auto
  with \<open>length p \<le> length a2\<close> have "masked_value (drop (length p) a2 @ q' @ x)" by simp
  from masked_value_extends [OF this assms(2)] obtain c d'
    where "drop (length p) a2 = redaction @ c # d'" and "ends_value c" by blast
  then have "a2 = take (length p) a2 @ redaction @ c # d'" by (metis append_take_drop_id)
  moreover have "length (take (length p) a2) = length p" using \<open>length p \<le> length a2\<close> by simp
  ultimately show ?thesis using \<open>ends_value c\<close> by blast
qed

lemma str_index_first:
  "str_index s p = Some i \<Longrightarrow> j < i \<Longrightarrow> \<not> has_prefix (drop j s) p"
proof (induction s p arbitrary: i j rule: str_index.induct)
  case (2 c cs p)
  then show ?case by (cases j) (auto split: if_splits)
qed (auto split: if_splits)

lemma redact_hd: "r = [] \<or> ends_value (hd r) \<Longrightarrow> key p \<Longrightarrow> redact p r = [] \<or> ends_value (hd (redact p r))"
proof (induction p r rule: redact.induct)
  case (1 p r)
  show ?case
  proof (cases "r = [] \<or> str_index (to_lower r) p = None")
    case True
    then have "redact p r = r" using key_nonempty [OF "1.prems"(2)] by (subst redact.simps) auto
    with 1 show ?thesis by simp
  next
    case False
    then obtain i where i: "str_index (to_lower r) p = Some i" and "r \<noteq> []" by auto
    have "0 < length p" using key_nonempty [OF "1.prems"(2)] by simp
    then have "hd (redact p r) = hd r" using i \<open>r \<noteq> []\<close>
      by (subst redact.simps) (auto simp: hd_append)
    with 1 \<open>r \<noteq> []\<close> show ?thesis by simp
  qed
qed

lemma rest_hd: "dropWhile (\<lambda>c. \<not> P c) s = [] \<or> P (hd (dropWhile (\<lambda>c. \<not> P c) s))"
  using hd_dropWhile [of "\<lambda>c. \<not> P c" s] by blast

lemma redact_clean:
  assumes q: "q \<in> set redact_patterns" and p: "p \<in> set redact_patterns" and "p = q \<or> clean p s"
  shows "clean p (redact q s)"
  using assms(3)
proof (induction "length s" arbitrary: s rule: less_induct)
  case less
  have keys: "key p" "key q" using p q keys by auto
  show ?case
  proof (cases "str_index (to_lower s) q")
    case None
    then have "redact q s = s" by (subst redact.simps) simp
    with less.prems None show ?thesis by (auto intro: clean_absent)
  next
    case (Some i)
    define a where "a = take i s"
    define q' where "q' = take (length q) (drop i s)"
    define v where "v = drop (i + length q) s"
    define r where "r = dropWhile (\<lambda>c. \<not> ends_value c) v"
    from str_index_Some [OF Some] have bound: "i + length q \<le> length s"
      and occ: "has_prefix (drop i (to_lower s)) q" by auto
    have s: "s = a @ q' @ v" by (simp add: a_def q'_def v_def take_add add.commute [of i] flip: drop_drop)
    have len: "length a = i" "length q' = length q" using bound by (simp_all add: a_def q'_def)
    have q'_low: "to_lower q' = q"
      using occ len by (auto simp: s has_prefix_iff append_eq_append_conv)
    have "redact q s = take (i + length q) s @ redaction @ redact q r"
      using Some key_nonempty [OF keys(2)] by (subst redact.simps) (simp add: r_def v_def)
    moreover have "take (i + length q) s = a @ q'" by (simp add: a_def q'_def take_add)
    ultimately have red: "redact q s = a @ q' @ redaction @ redact q r" by simp
    have suffix: "\<exists>w. v = w @ r" unfolding r_def by (metis takeWhile_dropWhile_id)
    have "length r \<le> length v" unfolding r_def by (rule length_dropWhile_le)
    moreover have "0 < length q" using key_nonempty [OF keys(2)] by simp
    ultimately have shorter: "length r < length s"
      unfolding s length_append len by linarith
    have rest: "p = q \<or> clean p r"
      using less.prems suffix by (auto simp: s dest!: clean_append)
    show ?thesis unfolding red
    proof (rule clean_replaced [OF p q q'_low less.hyps [OF shorter rest]])
      show "redact q r = [] \<or> ends_value (hd (redact q r))"
        unfolding r_def by (rule redact_hd [OF rest_hd keys(2)])
    next
      fix a1 a2 assume split: "a = a1 @ a2" and at: "has_prefix (to_lower a2) p"
      have "p \<noteq> q"
      proof
        assume "p = q"
        from at obtain t where t: "to_lower a2 = p @ t" by (auto simp: has_prefix_iff)
        then have "has_prefix (drop (length a1) (to_lower s)) q"
          by (simp add: s split \<open>p = q\<close>)
        moreover have "length a1 < i" using t key_nonempty [OF keys(1)] len split by (cases a2) auto
        ultimately show False using str_index_first [OF Some] by blast
      qed
      with less.prems have "clean p (a @ q' @ v)" by (simp flip: s)
      then show "\<exists>d c d'. a2 = d @ redaction @ c # d' \<and> length d = length p \<and> ends_value c"
        using old_occurrence [OF _ _ split at key_nonempty [OF keys(1)]] keys(2) q'_low by blast
    qed
  qed
qed

section \<open>Properties\<close>

lemma redact_all_eq:
  "list_all key ps \<Longrightarrow> lowers_ascii lower \<Longrightarrow> ascii s \<Longrightarrow> redact_all lower ps s = Some (Inr (fold redact ps s))"
  by (induction ps arbitrary: s) (auto simp: redact_pattern_eq ascii_redact)

lemma redact_all_patterns:
  "lowers_ascii lower \<Longrightarrow> ascii s \<Longrightarrow> redact_all lower redact_patterns s = Some (Inr (fold redact redact_patterns s))"
  by (rule redact_all_eq) (auto simp: list_all_iff keys)

lemma fold_redact_clean:
  "set qs \<subseteq> set redact_patterns \<Longrightarrow> p \<in> set redact_patterns \<Longrightarrow> p \<in> set qs \<or> clean p s \<Longrightarrow>
     clean p (fold redact qs s)"
  by (induction qs arbitrary: s) (auto intro: redact_clean)

lemma fold_redact_absent:
  "(\<And>p. p \<in> set ps \<Longrightarrow> \<not> str_contains (to_lower s) p) \<Longrightarrow> fold redact ps s = s"
  by (induction ps) (auto simp: str_contains_def redact.simps [of _ s])

text \<open>
  C39: On ASCII text, and with a limit that is not negative, \<open>redactAndCap\<close> returns without a panic, although its loop
  edits the string it is scanning, and what it returns is the single pass from left to right for each key in turn, cut to
  the limit. Before it is cut, that text has nothing but the mask behind any occurrence of any of the six keys, in
  whatever case, although the keys are treated one after the other and a replacement could have undone an
  earlier one; and a text that contains none of the keys is left as it is.
\<close>

theorem redactAndCap_returns:
  assumes "lowers_ascii lower" and "ascii s" and "0 \<le> limit"
  shows "\<exists>t. redactAndCap lower s limit = Some (Inr (cap_output t limit)) \<and> t = fold redact redact_patterns s \<and>
    list_all (\<lambda>p. clean p t) redact_patterns \<and>
    (t = s \<or> list_ex (str_contains (to_lower s)) redact_patterns)"
proof (intro exI conjI)
  let ?t = "fold redact redact_patterns s"
  show "redactAndCap lower s limit = Some (Inr (cap_output ?t limit))"
    using assms by (simp add: redactAndCap_def redact_all_patterns)
  show "list_all (\<lambda>p. clean p ?t) redact_patterns"
    using fold_redact_clean [of redact_patterns _ s] by (auto simp: list_all_iff)
  show "?t = s \<or> list_ex (str_contains (to_lower s)) redact_patterns"
    using fold_redact_absent [of redact_patterns s] by (auto simp: list_ex_iff)
qed simp

lemma redactAndCap_returns_witness:
  "redactAndCap to_lower ''run PASSWORD=hunter2&token=abc done'' 100 =
     Some (Inr ''run PASSWORD=***REDACTED***&token=***REDACTED*** done'')"
proof -
  have "lowers_ascii to_lower" by (simp add: lowers_ascii_def)
  moreover have "ascii ''run PASSWORD=hunter2&token=abc done''" unfolding ascii_def by code_simp
  ultimately have "redactAndCap to_lower ''run PASSWORD=hunter2&token=abc done'' 100 =
      Some (Inr (cap_output (fold redact redact_patterns ''run PASSWORD=hunter2&token=abc done'') 100))"
    using redactAndCap_returns [of to_lower "''run PASSWORD=hunter2&token=abc done''" 100] by auto
  also have "cap_output (fold redact redact_patterns ''run PASSWORD=hunter2&token=abc done'') 100 =
      ''run PASSWORD=***REDACTED***&token=***REDACTED*** done''" by code_simp
  finally show ?thesis .
qed

text \<open>
  The letter U+023A has two bytes and its lower case U+2C65 three: behind eleven of them the key seems to lie
  beyond the end of the text, and the code panics.
\<close>

definition long_lower :: "string \<Rightarrow> string" where
  "long_lower s = (if ascii s then to_lower s
     else concat (replicate 11 [CHR 0xE2, CHR 0xB1, CHR 0xA5]) @ ''password=x'')"

lemma redactAndCap_panics:
  "redactAndCap long_lower (concat (replicate 11 [CHR 0xC8, CHR 0xBA]) @ ''password=x'') 100 = Some (Inl slice_panic)"
proof -
  let ?s = "concat (replicate 11 [CHR 0xC8, CHR 0xBA]) @ ''password=x''"
  have "str_index (long_lower ?s) ''password='' = Some 33" by code_simp
  moreover have "length ?s < 33 + length ''password=''" by code_simp
  ultimately have "redact_pattern long_lower ''password='' ?s = Some (Inl slice_panic)"
    by (simp only: redact_pattern_def option.case) (subst redact_loop.simps, simp only: Let_def if_True)
  then show ?thesis by (simp only: redactAndCap_def redact_patterns_def redact_all.simps option.case sum.case)
qed

end
