(* ===== verification/Remediation.thy ===== *)
theory Remediation
  imports Model Redact
begin

text \<open>
  The remediation engine, \<open>internal/monitoring/remediation\<close>: pre-approved actions are executed
  for a failing check, limited by a global switch, a bound on concurrent executions, a cooldown for
  every check and a bound on the attempts for an incident; and the code of
  \<open>cmd/healthops/main.go\<close> that builds the request when an incident is opened.

  The repository is an interface of the source. It is a record of operations over a state of a type
  of its own here, and \<open>repository_laws\<close> states what the engine relies on. What the outside world
  does in one execution (the clock, the random id, the process, the HTTP response, the AI
  provider) is an argument. \<open>execute\<close> is split where other goroutines can get between: before
  the command is started and after it has ended.
\<close>

section \<open>Data\<close>

record GlobalConfig =
  gc_Enabled :: bool
  gc_DryRun :: bool
  gc_MaxConcurrent :: int
  gc_OutputLimitBytes :: int
  gc_UpdatedAt :: string

definition DefaultGlobalConfig :: GlobalConfig where
  "DefaultGlobalConfig = \<lparr>gc_Enabled = False, gc_DryRun = True, gc_MaxConcurrent = 2,
     gc_OutputLimitBytes = 8192, gc_UpdatedAt = []\<rparr>"

record AllowedAction =
  act_ID :: string
  act_Name :: string
  act_Type :: string
  act_Command :: string
  act_URL :: string
  act_Method :: string
  act_Headers :: smap
  act_TimeoutSeconds :: int
  act_Risk :: string
  act_Description :: string
  act_CreatedAt :: gotime
  act_UpdatedAt :: gotime

record RemediationRef =
  ref_ActionRef :: string
  ref_MaxAttempts :: int
  ref_CooldownSeconds :: int
  ref_ConsecutiveFailuresRequired :: int
  ref_VerifyAfterSeconds :: int
  ref_NotifyOnRemediation :: bool
  ref_EscalateOnExhaustion :: bool

definition ref_Defaults :: "RemediationRef \<Rightarrow> RemediationRef" where
  "ref_Defaults r =
     (let r1 = (if ref_MaxAttempts r \<le> 0 then r\<lparr>ref_MaxAttempts := 3\<rparr> else r);
          r2 = (if ref_CooldownSeconds r1 \<le> 0 then r1\<lparr>ref_CooldownSeconds := 300\<rparr> else r1)
      in if ref_VerifyAfterSeconds r2 \<le> 0 then r2\<lparr>ref_VerifyAfterSeconds := 10\<rparr> else r2)"

record Attempt =
  att_ID :: string
  att_CheckID :: string
  att_IncidentID :: string
  att_ActionID :: string
  att_ActionName :: string
  att_ActionType :: string
  att_Command :: string
  att_AttemptNumber :: int
  att_Status :: string
  att_DryRun :: bool
  att_ExitCode :: int
  att_Output :: string
  att_Error :: string
  att_Verified :: "bool option"
  att_AIAnalysis :: string
  att_DurationMs :: int
  att_TriggeredBy :: string
  att_CreatedAt :: gotime

record SSHConfig =
  rsh_Host :: string
  rsh_Port :: int
  rsh_User :: string
  rsh_KeyPath :: string
  rsh_KeyEnv :: string
  rsh_Password :: string
  rsh_PasswordEnc :: string
  rsh_PasswordEnv :: string
  rsh_HostKeyFingerprint :: string

record CheckInfo =
  ci_CheckID :: string
  ci_CheckName :: string
  ci_CheckType :: string
  ci_Target :: string
  ci_ServerID :: string
  ci_SSH :: "SSHConfig option"
  ci_Ref :: RemediationRef
  ci_IncidentID :: string
  ci_InlineAction :: "AllowedAction option"

record 'r Repository =
  rp_GetConfig :: "'r \<Rightarrow> string + GlobalConfig"
  rp_GetAction :: "'r \<Rightarrow> string \<Rightarrow> string + AllowedAction"
  rp_CountAttempts :: "'r \<Rightarrow> string \<Rightarrow> string \<Rightarrow> string + int"
  rp_CreateAttempt :: "Attempt \<Rightarrow> 'r \<Rightarrow> 'r \<times> string option"
  rp_UpdateAttempt :: "string \<Rightarrow> (Attempt \<Rightarrow> Attempt) \<Rightarrow> 'r \<Rightarrow> 'r"

text \<open>
  What an execution hands to the operating system or to the network: a command for the local shell, one for a
  session that has been opened over SSH, or an HTTP request, each with its timeout in nanoseconds.
\<close>

datatype launch = LocalCommand string int | RemoteCommand SSHConfig string int | HttpRequest string string smap int

text \<open>
  The engine. \<open>en_audit\<close> is what the audit callback has been given, \<open>en_started\<close> what has been
  launched and for which attempt, newest last: neither is read by the code.
\<close>

record 'r Engine =
  en_repo :: 'r
  en_running :: int
  en_cooldowns :: "(string \<times> gotime) list"
  en_audit :: "(string \<times> string) list"
  en_started :: "(Attempt \<times> launch) list"

definition NewEngine :: "'r \<Rightarrow> 'r Engine" where
  "NewEngine r = \<lparr>en_repo = r, en_running = 0, en_cooldowns = [], en_audit = [], en_started = []\<rparr>"

section \<open>What the world answers\<close>

text \<open>
  One execution: the clock and the random id when it begins, for whatever is launched the end of the process (what
  \<open>cmd.Run\<close> or \<open>session.Run\<close> returned) and its output, what SSH needs (environment, key
  files, decryption, the error of the connection, the fingerprint the server presents), the error of building an
  HTTP request and the response to what is sent, \<open>strings.ToLower\<close>, the clock when it is done and the AI analysis.
\<close>

datatype run_end = RunOk | RunExit int | RunError string
datatype http_end = HttpFailed string | HttpResponse int string string

record Outside =
  out_now :: gotime
  out_id :: string
  out_stdout :: "launch \<Rightarrow> string"
  out_stderr :: "launch \<Rightarrow> string"
  out_end :: "launch \<Rightarrow> run_end"
  out_getenv :: "string \<Rightarrow> string"
  out_readkey :: "string \<Rightarrow> string + string"
  out_decrypt :: "string \<Rightarrow> string + string"
  out_connect :: "string option"
  out_hostkey :: string
  out_badrequest :: "string option"
  out_http :: "launch \<Rightarrow> http_end"
  out_lower :: "string \<Rightarrow> string"
  out_duration :: int
  out_done :: gotime
  out_analysis :: "(string option) option"

section \<open>Executing an action\<close>

text \<open>
  Each function returns what it has launched, if anything, the output, the exit code and the error.
  \<open>execLocalCommand\<close> and \<open>execSSHCommand\<close> put the output together in the same way. An exit
  status that is not zero is a result, anything else an error with exit code \<open>-1\<close>.
\<close>

type_synonym execution = "launch option \<times> string \<times> int \<times> string option"

definition process_output :: "Outside \<Rightarrow> launch \<Rightarrow> string" where
  "process_output x l =
     (if out_stderr x l \<noteq> [] then out_stdout x l @ CHR 0x0A # ''[stderr]'' @ CHR 0x0A # out_stderr x l
      else out_stdout x l)"

definition execLocalCommand :: "Outside \<Rightarrow> string \<Rightarrow> int \<Rightarrow> execution" where
  "execLocalCommand x command timeout =
     (let l = LocalCommand command timeout
      in case out_end x l of
           RunOk \<Rightarrow> (Some l, process_output x l, 0, None)
         | RunExit code \<Rightarrow> (Some l, process_output x l, code, None)
         | RunError err \<Rightarrow> (Some l, process_output x l, -1, Some err))"

datatype ssh_auth = PublicKey string | PasswordAuth string

definition buildSSHAuth :: "Outside \<Rightarrow> SSHConfig \<Rightarrow> string + ssh_auth list" where
  "buildSSHAuth x cfg =
     (let keyPath = (if rsh_KeyPath cfg = [] \<and> rsh_KeyEnv cfg \<noteq> [] then out_getenv x (rsh_KeyEnv cfg)
                     else rsh_KeyPath cfg);
          key = (if keyPath = [] then Inr []
                 else case out_readkey x keyPath of
                        Inl err \<Rightarrow> Inl err
                      | Inr signer \<Rightarrow> Inr [PublicKey signer])
      in case key of
           Inl err \<Rightarrow> Inl err
         | Inr methods \<Rightarrow>
             (let decrypted = (if rsh_Password cfg = [] \<and> rsh_PasswordEnc cfg \<noteq> []
                               then out_decrypt x (rsh_PasswordEnc cfg) else Inr (rsh_Password cfg))
              in case decrypted of
                   Inl err \<Rightarrow> Inl (''decrypt ssh password: '' @ err)
                 | Inr password \<Rightarrow>
                     (let password' = (if password = [] \<and> rsh_PasswordEnv cfg \<noteq> []
                                       then out_getenv x (rsh_PasswordEnv cfg) else password);
                          methods' = (if password' \<noteq> [] then methods @ [PasswordAuth password'] else methods)
                      in if methods' = [] then
                           Inl (''no SSH auth method configured (need keyPath/keyEnv or '' @
                                ''password/passwordEnc/passwordEnv)'')
                         else Inr methods')))"

definition makeHostKeyCallback :: "SSHConfig \<Rightarrow> string \<Rightarrow> bool" where
  "makeHostKeyCallback cfg got \<longleftrightarrow>
     (if rsh_HostKeyFingerprint cfg = [] then True else got = rsh_HostKeyFingerprint cfg)"

definition em_dash :: string where
  "em_dash = [CHR 0xE2, CHR 0x80, CHR 0x94]"

text \<open>
  \<open>out_connect\<close> is the error of \<open>ssh.Dial\<close> or \<open>NewSession\<close>; a host key that the callback
  refuses is an error of \<open>ssh.Dial\<close> as well.
\<close>

definition execSSHCommand :: "Outside \<Rightarrow> SSHConfig option \<Rightarrow> string \<Rightarrow> int \<Rightarrow> execution" where
  "execSSHCommand x sshCfg command timeout =
     (case sshCfg of
        None \<Rightarrow> (None, [], -1, Some (''SSH config not available for this check '' @ em_dash @
                           '' cannot execute ssh_command''))
      | Some cfg \<Rightarrow>
          (case buildSSHAuth x cfg of
             Inl err \<Rightarrow> (None, [], -1, Some (''ssh auth: '' @ err))
           | Inr _ \<Rightarrow>
               if \<not> makeHostKeyCallback cfg (out_hostkey x) then (None, [], -1, Some ''ssh connect: host key mismatch'')
               else case out_connect x of
                      Some err \<Rightarrow> (None, [], -1, Some err)
                    | None \<Rightarrow>
                        (let l = RemoteCommand cfg command timeout
                         in case out_end x l of
                              RunOk \<Rightarrow> (Some l, process_output x l, 0, None)
                            | RunExit code \<Rightarrow> (Some l, process_output x l, code, None)
                            | RunError err \<Rightarrow> (Some l, process_output x l, -1, Some (''ssh command failed: '' @ err)))))"

definition execHTTPAction :: "Outside \<Rightarrow> AllowedAction \<Rightarrow> int \<Rightarrow> execution" where
  "execHTTPAction x action timeout =
     (if act_URL action = [] then (None, [], -1, Some ''HTTP action URL is required'')
      else
        let meth = (if act_Method action = [] then ''POST'' else act_Method action);
            l = HttpRequest meth (act_URL action) (act_Headers action) timeout
        in case out_badrequest x of
             Some err \<Rightarrow> (None, [], -1, Some (''create request: '' @ err))
           | None \<Rightarrow>
               (case out_http x l of
                  HttpFailed err \<Rightarrow> (Some l, [], -1, Some (''http request failed: '' @ err))
                | HttpResponse code status body \<Rightarrow>
                    (Some l, ''HTTP '' @ itoa code @ '' '' @ status @ CHR 0x0A # take 8192 body,
                     if 400 \<le> code then 1 else 0, None)))"

definition action_timeout :: "AllowedAction \<Rightarrow> int" where
  "action_timeout action =
     (let timeout = dur_mul (act_TimeoutSeconds action) second in if timeout \<le> 0 then dur_mul 30 second else timeout)"

definition run_action :: "Outside \<Rightarrow> CheckInfo \<Rightarrow> AllowedAction \<Rightarrow> execution" where
  "run_action x info action =
     (if act_Type action = ''command'' then execLocalCommand x (act_Command action) (action_timeout action)
      else if act_Type action = ''ssh_command'' then execSSHCommand x (ci_SSH info) (act_Command action) (action_timeout action)
      else if act_Type action = ''http'' then execHTTPAction x action (action_timeout action)
      else (None, [], 0, Some (''unsupported action type: '' @ act_Type action)))"

section \<open>The engine\<close>

definition setCooldown :: "string \<Rightarrow> int \<Rightarrow> gotime \<Rightarrow> 'r Engine \<Rightarrow> 'r Engine" where
  "setCooldown checkID seconds now e =
     (let seconds' = (if seconds \<le> 0 then 300 else seconds)
      in e\<lparr>en_cooldowns := AList.update checkID (time_add now (dur_mul seconds' second)) (en_cooldowns e)\<rparr>)"

definition audit :: "string \<Rightarrow> CheckInfo \<Rightarrow> 'r Engine \<Rightarrow> 'r Engine" where
  "audit action info e = e\<lparr>en_audit := en_audit e @ [(action, ci_CheckID info)]\<rparr>"

definition save_attempt :: "Attempt \<Rightarrow> Attempt \<Rightarrow> Attempt" where
  "save_attempt attempt a =
     a\<lparr>att_Status := att_Status attempt, att_Output := att_Output attempt,
       att_ExitCode := att_ExitCode attempt, att_Error := att_Error attempt,
       att_DurationMs := att_DurationMs attempt, att_DryRun := att_DryRun attempt\<rparr>"

definition updateAttempt :: "'r Repository \<Rightarrow> Attempt \<Rightarrow> 'r Engine \<Rightarrow> 'r Engine" where
  "updateAttempt R attempt e =
     e\<lparr>en_repo := rp_UpdateAttempt R (att_ID attempt) (save_attempt attempt) (en_repo e)\<rparr>"

text \<open>\<open>None\<close>: no AI provider; \<open>Some None\<close>: its call failed.\<close>

definition analyzeFailure :: "'r Repository \<Rightarrow> Outside \<Rightarrow> Attempt \<Rightarrow> 'r Engine \<Rightarrow> 'r Engine" where
  "analyzeFailure R x attempt e =
     (case out_analysis x of
        Some (Some analysis) \<Rightarrow>
          e\<lparr>en_repo := rp_UpdateAttempt R (att_ID attempt)
              (\<lambda>a. a\<lparr>att_AIAnalysis := trim_space analysis\<rparr>) (en_repo e)\<rparr>
      | _ \<Rightarrow> e)"

definition logEscalation :: "CheckInfo \<Rightarrow> 'r Engine \<Rightarrow> 'r Engine" where
  "logEscalation info e = audit ''remediation.escalated'' info e"

text \<open>\<open>execute\<close> up to the start of the command, \<open>None\<close> when the attempt cannot be persisted.\<close>

definition new_attempt :: "Outside \<Rightarrow> CheckInfo \<Rightarrow> AllowedAction \<Rightarrow> GlobalConfig \<Rightarrow> int \<Rightarrow> Attempt" where
  "new_attempt x info action cfg attemptNum =
     \<lparr>att_ID = out_id x, att_CheckID = ci_CheckID info, att_IncidentID = ci_IncidentID info,
      att_ActionID = act_ID action, att_ActionName = act_Name action, att_ActionType = act_Type action,
      att_Command = act_Command action, att_AttemptNumber = attemptNum,
      att_Status = (if gc_DryRun cfg then ''dry_run'' else ''running''), att_DryRun = gc_DryRun cfg,
      att_ExitCode = 0, att_Output = [], att_Error = [], att_Verified = None, att_AIAnalysis = [],
      att_DurationMs = 0, att_TriggeredBy = ''system'', att_CreatedAt = out_now x\<rparr>"

definition begin_execute ::
  "'r Repository \<Rightarrow> Outside \<Rightarrow> CheckInfo \<Rightarrow> AllowedAction \<Rightarrow> GlobalConfig \<Rightarrow> int \<Rightarrow>
     'r Engine \<Rightarrow> 'r Engine \<times> Attempt option" where
  "begin_execute R x info action cfg attemptNum e =
     (let e1 = e\<lparr>en_running := en_running e + 1\<rparr>;
          attempt = new_attempt x info action cfg attemptNum
      in case rp_CreateAttempt R attempt (en_repo e1) of
           (r, Some err) \<Rightarrow> (e1\<lparr>en_repo := r, en_running := en_running e1 - 1\<rparr>, None)
         | (r, None) \<Rightarrow>
             (e1\<lparr>en_repo := r\<rparr>, Some attempt))"

text \<open>
  The rest of \<open>execute\<close>, with the deferred decrement of the counter last. The verification that
  follows a success is \<open>verifyAfter\<close> below. When \<open>redactAndCap\<close> panics, the counter is decremented and nothing
  else happens; the panic ends the request of an operator, and the whole process if the request was automatic.
\<close>

definition finish_dry_run ::
  "'r Repository \<Rightarrow> CheckInfo \<Rightarrow> AllowedAction \<Rightarrow> Attempt \<Rightarrow> 'r Engine \<Rightarrow> 'r Engine \<times> Attempt" where
  "finish_dry_run R info action attempt e =
     (let attempt' = attempt\<lparr>att_Output := ''[DRY RUN] would execute: '' @ act_Type action @ '' '' @ act_Command action,
            att_Status := ''dry_run'', att_ExitCode := 0\<rparr>;
          e1 = audit ''remediation.dry_run'' info (updateAttempt R attempt' e)
      in (e1\<lparr>en_running := en_running e1 - 1\<rparr>, attempt'))"

definition output_limit :: "GlobalConfig \<Rightarrow> int" where
  "output_limit cfg = (if gc_OutputLimitBytes cfg \<le> 0 then 8192 else gc_OutputLimitBytes cfg)"

definition launched :: "Attempt \<Rightarrow> launch option \<Rightarrow> 'r Engine \<Rightarrow> 'r Engine" where
  "launched attempt l e = e\<lparr>en_started := en_started e @ (case l of None \<Rightarrow> [] | Some l \<Rightarrow> [(attempt, l)])\<rparr>"

definition finish_execute ::
  "'r Repository \<Rightarrow> Outside \<Rightarrow> CheckInfo \<Rightarrow> AllowedAction \<Rightarrow> GlobalConfig \<Rightarrow> Attempt \<Rightarrow>
     'r Engine \<Rightarrow> 'r Engine \<times> Attempt option" where
  "finish_execute R x info action cfg attempt e =
     (let (l, output, exitCode, execErr) = run_action x info action;
          e = launched attempt l e
      in case redactAndCap (out_lower x) output (output_limit cfg) of
           Some (Inr output) \<Rightarrow>
             (let attempt1 = attempt\<lparr>att_DurationMs := out_duration x, att_Output := output, att_ExitCode := exitCode\<rparr>;
                  failed = (execErr \<noteq> None \<or> exitCode \<noteq> 0);
                  attempt2 = (if failed
                              then attempt1\<lparr>att_Status := ''failed'',
                                     att_Error := (case execErr of None \<Rightarrow> att_Error attempt1 | Some err \<Rightarrow> err)\<rparr>
                              else attempt1\<lparr>att_Status := ''success''\<rparr>);
                  e1 = audit (if failed then ''remediation.failed'' else ''remediation.executed'') info
                         (updateAttempt R attempt2 e);
                  e2 = (if failed then analyzeFailure R x attempt2 e1 else e1);
                  e3 = setCooldown (ci_CheckID info) (ref_CooldownSeconds (ci_Ref info)) (out_done x) e2
              in (e3\<lparr>en_running := en_running e3 - 1\<rparr>, Some attempt2))
         | _ \<Rightarrow> (e\<lparr>en_running := en_running e - 1\<rparr>, None))"

definition execute ::
  "'r Repository \<Rightarrow> Outside \<Rightarrow> CheckInfo \<Rightarrow> AllowedAction \<Rightarrow> GlobalConfig \<Rightarrow> int \<Rightarrow>
     'r Engine \<Rightarrow> 'r Engine \<times> Attempt option" where
  "execute R x info action cfg attemptNum e =
     (case begin_execute R x info action cfg attemptNum e of
        (e1, None) \<Rightarrow> (e1, None)
      | (e1, Some attempt) \<Rightarrow>
          if gc_DryRun cfg then apsnd Some (finish_dry_run R info action attempt e1)
          else finish_execute R x info action cfg attempt e1)"

text \<open>Whether \<open>execute\<close> starts \<open>verifyAfter\<close>; \<open>runner\<close> says that a check runner has been set.\<close>

definition starts_verification :: "bool \<Rightarrow> CheckInfo \<Rightarrow> Attempt \<Rightarrow> bool" where
  "starts_verification runner info attempt \<longleftrightarrow>
     att_Status attempt = ''success'' \<and> runner \<and> ref_VerifyAfterSeconds (ref_Defaults (ci_Ref info)) > 0"

section \<open>Admission\<close>

datatype refusal =
    NoConfig string
  | Disabled
  | NoAction string
  | TooManyRunning
  | CoolingDown gotime
  | NoCount string
  | AttemptsUsed int

definition to_int32 :: "int \<Rightarrow> int" where
  "to_int32 x = (x + 2147483648) mod 4294967296 - 2147483648"

definition max_concurrent :: "GlobalConfig \<Rightarrow> int" where
  "max_concurrent cfg = (if to_int32 (gc_MaxConcurrent cfg) \<le> 0 then 2 else to_int32 (gc_MaxConcurrent cfg))"

definition resolve_action :: "'r Repository \<Rightarrow> CheckInfo \<Rightarrow> 'r \<Rightarrow> string + AllowedAction" where
  "resolve_action R info r =
     (case ci_InlineAction info of
        Some action \<Rightarrow> Inr action
      | None \<Rightarrow> rp_GetAction R r (ref_ActionRef (ref_Defaults (ci_Ref info))))"

definition cooling_down :: "string \<Rightarrow> gotime \<Rightarrow> 'r Engine \<Rightarrow> gotime option" where
  "cooling_down checkID now e =
     (case map_of (en_cooldowns e) checkID of
        Some earliest \<Rightarrow> if before now earliest then Some earliest else None
      | None \<Rightarrow> None)"

text \<open>
  The guards of \<open>tryRemediateAsync\<close> and \<open>ManualRemediate\<close>, in their order; only the first one
  looks at the number of running executions.
\<close>

definition admission ::
  "'r Repository \<Rightarrow> bool \<Rightarrow> gotime \<Rightarrow> CheckInfo \<Rightarrow> 'r Engine \<Rightarrow>
     refusal + (AllowedAction \<times> GlobalConfig \<times> int)" where
  "admission R automatic now info e =
     (case rp_GetConfig R (en_repo e) of
        Inl err \<Rightarrow> Inl (NoConfig err)
      | Inr cfg \<Rightarrow>
          if \<not> gc_Enabled cfg then Inl Disabled
          else case resolve_action R info (en_repo e) of
            Inl err \<Rightarrow> Inl (NoAction err)
          | Inr action \<Rightarrow>
              if automatic \<and> max_concurrent cfg \<le> en_running e then Inl TooManyRunning
              else case cooling_down (ci_CheckID info) now e of
                Some earliest \<Rightarrow> Inl (CoolingDown earliest)
              | None \<Rightarrow>
                  (case rp_CountAttempts R (en_repo e) [] (ci_IncidentID info) of
                     Inl err \<Rightarrow> Inl (NoCount err)
                   | Inr attemptCount \<Rightarrow>
                       if ref_MaxAttempts (ref_Defaults (ci_Ref info)) \<le> attemptCount
                       then Inl (AttemptsUsed attemptCount)
                       else Inr (action, cfg, attemptCount + 1)))"

definition refused :: "CheckInfo \<Rightarrow> refusal \<Rightarrow> 'r Engine \<Rightarrow> 'r Engine" where
  "refused info why e =
     (case why of
        AttemptsUsed n \<Rightarrow> if ref_EscalateOnExhaustion (ref_Defaults (ci_Ref info)) then logEscalation info e else e
      | _ \<Rightarrow> e)"

definition tryRemediateAsync :: "'r Repository \<Rightarrow> Outside \<Rightarrow> CheckInfo \<Rightarrow> 'r Engine \<Rightarrow> 'r Engine" where
  "tryRemediateAsync R x info e =
     (case admission R True (out_now x) info e of
        Inl why \<Rightarrow> refused info why e
      | Inr (action, cfg, n) \<Rightarrow> fst (execute R x info action cfg n e))"

definition ManualRemediate ::
  "'r Repository \<Rightarrow> Outside \<Rightarrow> CheckInfo \<Rightarrow> string \<Rightarrow> 'r Engine \<Rightarrow>
     'r Engine \<times> (refusal + Attempt option)" where
  "ManualRemediate R x info actor e =
     (case admission R False (out_now x) info e of
        Inl why \<Rightarrow> (e, Inl why)
      | Inr (action, cfg, n) \<Rightarrow>
          (case execute R x info action cfg n e of
             (e', None) \<Rightarrow> (e', Inr None)
           | (e', Some attempt) \<Rightarrow>
               (e'\<lparr>en_repo := rp_UpdateAttempt R (att_ID attempt)
                      (\<lambda>a. a\<lparr>att_TriggeredBy := actor\<rparr>) (en_repo e')\<rparr>,
                Inr (Some (attempt\<lparr>att_TriggeredBy := actor\<rparr>)))))"

text \<open>
  \<open>verifyAfter\<close>, once the delay is over: \<open>Inl\<close> is the error of the check runner. The second
  component is the incident that \<open>onSuccess\<close> is called with.
\<close>

definition verifyAfter ::
  "'r Repository \<Rightarrow> Outside \<Rightarrow> string + (bool \<times> string) \<Rightarrow> CheckInfo \<Rightarrow> Attempt \<Rightarrow> 'r Engine \<Rightarrow>
     'r Engine \<times> string option" where
  "verifyAfter R x outcome info attempt e =
     (case outcome of
        Inl err \<Rightarrow> (e, None)
      | Inr (verified, msg) \<Rightarrow>
          (let e1 = e\<lparr>en_repo := rp_UpdateAttempt R (att_ID attempt)
                 (\<lambda>a. let a1 = a\<lparr>att_Verified := Some verified\<rparr>
                      in if verified then a1 else a1\<lparr>att_Error := ''verification failed: '' @ msg\<rparr>)
                 (en_repo e)\<rparr>
           in if verified then
                (audit ''remediation.verified'' info e1,
                 if ci_IncidentID info \<noteq> [] then Some (ci_IncidentID info) else None)
              else
                (analyzeFailure R x
                   (attempt\<lparr>att_Error :=
                      ''Remediation ran successfully (exit 0) but check still failing: '' @ msg\<rparr>)
                   (audit ''remediation.verify_failed'' info e1), None)))"

section \<open>Building the request\<close>

definition sshConfigFromMonitoring :: "SSHCheckConfig \<Rightarrow> SSHConfig" where
  "sshConfigFromMonitoring s =
     \<lparr>rsh_Host = ssh_Host s, rsh_Port = ssh_Port s, rsh_User = ssh_User s,
      rsh_KeyPath = ssh_KeyPath s, rsh_KeyEnv = ssh_KeyEnv s, rsh_Password = ssh_Password s,
      rsh_PasswordEnc = ssh_PasswordEnc s, rsh_PasswordEnv = ssh_PasswordEnv s,
      rsh_HostKeyFingerprint = ssh_HostKeyFingerprint s\<rparr>"

definition buildInlineAction :: "CheckConfig \<Rightarrow> AllowedAction option" where
  "buildInlineAction c =
     (case chk_Remediation c of
        None \<Rightarrow> None
      | Some rem \<Rightarrow>
          if rem_Type rem = [] then None
          else Some \<lparr>act_ID = ''inline-'' @ chk_ID c, act_Name = chk_Name c @ '' remediation'',
                 act_Type = rem_Type rem, act_Command = rem_Command rem, act_URL = rem_URL rem,
                 act_Method = rem_Method rem, act_Headers = rem_Headers rem,
                 act_TimeoutSeconds = (if rem_TimeoutSeconds rem \<le> 0 then 30 else rem_TimeoutSeconds rem),
                 act_Risk = (if rem_Risk rem = [] then ''low'' else rem_Risk rem),
                 act_Description = rem_Description rem, act_CreatedAt = zero_time,
                 act_UpdatedAt = zero_time\<rparr>)"

definition remediation_ref :: "CheckRemediationConfig \<Rightarrow> RemediationRef" where
  "remediation_ref rem =
     \<lparr>ref_ActionRef = rem_ActionRef rem, ref_MaxAttempts = rem_MaxAttempts rem,
      ref_CooldownSeconds = rem_CooldownSeconds rem,
      ref_ConsecutiveFailuresRequired = rem_ConsecutiveFailuresRequired rem,
      ref_VerifyAfterSeconds = rem_VerifyAfterSeconds rem,
      ref_NotifyOnRemediation = rem_NotifyOnRemediation rem,
      ref_EscalateOnExhaustion = rem_EscalateOnExhaustion rem\<rparr>"

definition remediation_ssh :: "CheckConfig \<Rightarrow> CheckRemediationConfig \<Rightarrow> SSHConfig option" where
  "remediation_ssh c rem =
     (case rem_SSH rem of
        Some s \<Rightarrow> if ssh_Host s \<noteq> [] then Some (sshConfigFromMonitoring s)
                  else map_option sshConfigFromMonitoring (chk_SSH c)
      | None \<Rightarrow> map_option sshConfigFromMonitoring (chk_SSH c))"

definition remediation_request :: "CheckConfig \<Rightarrow> Incident \<Rightarrow> CheckInfo option" where
  "remediation_request c incident =
     (case chk_Remediation c of
        None \<Rightarrow> None
      | Some rem \<Rightarrow>
          if rem_ActionRef rem = [] \<and> rem_Type rem = [] then None
          else Some \<lparr>ci_CheckID = chk_ID c, ci_CheckName = chk_Name c, ci_CheckType = chk_Type c,
                 ci_Target = chk_Target c, ci_ServerID = chk_ServerId c,
                 ci_SSH = remediation_ssh c rem, ci_Ref = remediation_ref rem,
                 ci_IncidentID = inc_ID incident, ci_InlineAction = buildInlineAction c\<rparr>)"

text \<open>The request handed to \<open>engine.TryRemediate\<close>, if any; only the first check with the id counts.\<close>

fun triggerRemediation :: "CheckConfig list \<Rightarrow> Incident \<Rightarrow> CheckInfo option" where
  "triggerRemediation [] incident = None"
| "triggerRemediation (c # checks) incident =
     (if chk_ID c \<noteq> inc_CheckID incident then triggerRemediation checks incident
      else remediation_request c incident)"

definition empty_ref :: RemediationRef where
  "empty_ref = \<lparr>ref_ActionRef = [], ref_MaxAttempts = 0, ref_CooldownSeconds = 0,
     ref_ConsecutiveFailuresRequired = 0, ref_VerifyAfterSeconds = 0, ref_NotifyOnRemediation = False,
     ref_EscalateOnExhaustion = False\<rparr>"

fun checkResolver :: "CheckConfig list \<Rightarrow> string \<Rightarrow> CheckInfo option" where
  "checkResolver [] checkID = None"
| "checkResolver (c # checks) checkID =
     (if chk_ID c \<noteq> checkID then checkResolver checks checkID
      else Some
        (let info = \<lparr>ci_CheckID = chk_ID c, ci_CheckName = chk_Name c, ci_CheckType = chk_Type c,
               ci_Target = chk_Target c, ci_ServerID = chk_ServerId c,
               ci_SSH = map_option sshConfigFromMonitoring (chk_SSH c), ci_Ref = empty_ref,
               ci_IncidentID = [], ci_InlineAction = None\<rparr>
         in case chk_Remediation c of
              None \<Rightarrow> info
            | Some rem \<Rightarrow> info\<lparr>ci_SSH := remediation_ssh c rem, ci_Ref := remediation_ref rem,
                                ci_InlineAction := buildInlineAction c\<rparr>))"

section \<open>The handlers that change state\<close>

datatype remediation_response =
    BadRequest string
  | NotFound
  | Conflict refusal
  | Triggered "Attempt option"

definition handleManualRemediate ::
  "'r Repository \<Rightarrow> Outside \<Rightarrow> CheckConfig list \<Rightarrow> string \<Rightarrow> string \<Rightarrow> string \<Rightarrow> 'r Engine \<Rightarrow>
     'r Engine \<times> remediation_response" where
  "handleManualRemediate R x checks checkID incidentID actor e =
     (let actor' = (if actor = [] then ''manual'' else actor)
      in case checkResolver checks checkID of
           None \<Rightarrow> (e, NotFound)
         | Some info \<Rightarrow>
             if ref_ActionRef (ci_Ref info) = [] then (e, BadRequest ''NO_REMEDIATION'')
             else
               (let info' = (if incidentID \<noteq> [] then info\<lparr>ci_IncidentID := incidentID\<rparr> else info)
                in case ManualRemediate R x info' actor' e of
                     (e', Inl why) \<Rightarrow> (e', Conflict why)
                   | (e', Inr attempt) \<Rightarrow> (e', Triggered attempt)))"

text \<open>What the registry handlers accept, and the action or configuration they pass on.\<close>

definition accept_config :: "GlobalConfig \<Rightarrow> string + GlobalConfig" where
  "accept_config cfg =
     (if gc_MaxConcurrent cfg < 0 then Inl ''maxConcurrent must be >= 0''
      else if gc_OutputLimitBytes cfg < 0 then Inl ''outputLimitBytes must be >= 0''
      else Inr cfg)"

abbreviation known_type :: "string \<Rightarrow> bool" where
  "known_type t \<equiv> t = ''command'' \<or> t = ''ssh_command'' \<or> t = ''http''"

definition accept_new_action :: "AllowedAction \<Rightarrow> string + AllowedAction" where
  "accept_new_action action =
     (if act_ID action = [] then Inl ''id is required''
      else if act_Name action = [] then Inl ''name is required''
      else if act_Type action = [] then Inl ''type is required (command, ssh_command, http)''
      else if \<not> known_type (act_Type action) then Inl ''type must be command, ssh_command, or http''
      else if act_Type action \<noteq> ''http'' \<and> act_Command action = []
      then Inl ''command is required for command/ssh_command types''
      else if act_Type action = ''http'' \<and> act_URL action = [] then Inl ''url is required for http type''
      else Inr (let a1 = (if act_Risk action = [] then action\<lparr>act_Risk := ''medium''\<rparr> else action)
                in if act_TimeoutSeconds a1 \<le> 0 then a1\<lparr>act_TimeoutSeconds := 30\<rparr> else a1))"

definition accept_changed_action :: "string \<Rightarrow> AllowedAction \<Rightarrow> string + AllowedAction" where
  "accept_changed_action i action =
     (let a = action\<lparr>act_ID := i\<rparr>
      in if act_Type a \<noteq> [] \<and> \<not> known_type (act_Type a)
         then Inl ''type must be command, ssh_command, or http'' else Inr a)"

section \<open>What the engine relies on\<close>

text \<open>
  \<open>att r\<close> is the collection of attempts. \<open>CountAttempts\<close> counts those that match, where an empty id
  matches everything (\<open>mongo_remediation_repository.go\<close> leaves it out of the query);
  \<open>CreateAttempt\<close> adds one, and may have added it although it reports an error; \<open>UpdateAttempt\<close>
  changes the attempt with the id, or nothing. The configuration and the actions do not depend on
  the attempts.
\<close>

definition matching :: "string \<Rightarrow> string \<Rightarrow> Attempt \<Rightarrow> bool" where
  "matching checkID incidentID a \<longleftrightarrow>
     (checkID \<noteq> [] \<longrightarrow> att_CheckID a = checkID) \<and> (incidentID \<noteq> [] \<longrightarrow> att_IncidentID a = incidentID)"

definition repository_laws :: "'r Repository \<Rightarrow> ('r \<Rightarrow> Attempt list) \<Rightarrow> bool" where
  "repository_laws R att \<longleftrightarrow>
     (\<forall>r c i n. rp_CountAttempts R r c i = Inr n \<longrightarrow> n = int (length (filter (matching c i) (att r)))) \<and>
     (\<forall>r a r'. rp_CreateAttempt R a r = (r', None) \<longrightarrow> att r' = att r @ [a]) \<and>
     (\<forall>r a r' err. rp_CreateAttempt R a r = (r', Some err) \<longrightarrow> att r' = att r \<or> att r' = att r @ [a]) \<and>
     (\<forall>r i f. att (rp_UpdateAttempt R i f r) = att r \<or>
        att (rp_UpdateAttempt R i f r) = replace_first (\<lambda>a. att_ID a = i) f (att r))"

text \<open>Automatic requests that are executed one after the other.\<close>

definition remediate_all ::
  "'r Repository \<Rightarrow> (Outside \<times> CheckInfo) list \<Rightarrow> 'r Engine \<Rightarrow> 'r Engine" where
  "remediate_all R evs e = foldl (\<lambda>e (x, info). tryRemediateAsync R x info e) e evs"

section \<open>Lemmas\<close>

lemma save_attempt_fields [simp]:
  "att_ID (save_attempt b a) = att_ID a" "att_CheckID (save_attempt b a) = att_CheckID a"
  "att_IncidentID (save_attempt b a) = att_IncidentID a"
  by (simp_all add: save_attempt_def)

lemma keys_update:
  assumes "repository_laws R att" and "\<And>a. att_IncidentID (f a) = att_IncidentID a"
  shows "map att_IncidentID (att (rp_UpdateAttempt R i f r)) = map att_IncidentID (att r)"
proof -
  have "att (rp_UpdateAttempt R i f r) = att r \<or>
      att (rp_UpdateAttempt R i f r) = replace_first (\<lambda>a. att_ID a = i) f (att r)"
    using assms(1) unfolding repository_laws_def by blast
  moreover have "map att_IncidentID (replace_first (\<lambda>a. att_ID a = i) f (att r)) = map att_IncidentID (att r)"
    by (rule map_replace_first) (simp add: assms(2))
  ultimately show ?thesis by auto
qed

lemma incidents_updateAttempt:
  "repository_laws R att \<Longrightarrow>
     map att_IncidentID (att (en_repo (updateAttempt R a e))) = map att_IncidentID (att (en_repo e))"
  by (simp add: updateAttempt_def keys_update)

lemma incidents_analyzeFailure:
  "repository_laws R att \<Longrightarrow>
     map att_IncidentID (att (en_repo (analyzeFailure R x a e))) = map att_IncidentID (att (en_repo e))"
  by (simp add: analyzeFailure_def keys_update split: option.splits)

lemma audit_simps [simp]:
  "en_repo (audit s info e) = en_repo e" "en_running (audit s info e) = en_running e"
  "en_cooldowns (audit s info e) = en_cooldowns e" "en_started (audit s info e) = en_started e"
  by (simp_all add: audit_def)

lemma updateAttempt_simps [simp]:
  "en_running (updateAttempt R a e) = en_running e" "en_cooldowns (updateAttempt R a e) = en_cooldowns e"
  "en_started (updateAttempt R a e) = en_started e"
  by (simp_all add: updateAttempt_def)

lemma analyzeFailure_simps [simp]:
  "en_running (analyzeFailure R x a e) = en_running e" "en_started (analyzeFailure R x a e) = en_started e"
  "en_cooldowns (analyzeFailure R x a e) = en_cooldowns e"
  by (simp_all add: analyzeFailure_def split: option.splits)

lemma setCooldown_simps [simp]:
  "en_repo (setCooldown c s now e) = en_repo e" "en_running (setCooldown c s now e) = en_running e"
  "en_started (setCooldown c s now e) = en_started e"
  by (simp_all add: setCooldown_def Let_def)

lemma launched_simps [simp]:
  "en_repo (launched a l e) = en_repo e" "en_running (launched a l e) = en_running e"
  "en_cooldowns (launched a l e) = en_cooldowns e" "en_audit (launched a l e) = en_audit e"
  by (simp_all add: launched_def)

text \<open>The redaction of the output returns: if it panics, an automatic execution takes the process down.\<close>

definition survives :: "Outside \<Rightarrow> CheckInfo \<Rightarrow> AllowedAction \<Rightarrow> GlobalConfig \<Rightarrow> bool" where
  "survives x info action cfg \<longleftrightarrow>
     (\<exists>t. redactAndCap (out_lower x) (fst (snd (run_action x info action))) (output_limit cfg) = Some (Inr t))"

lemma finish_panicked:
  assumes "\<not> survives x info action cfg"
  shows "finish_execute R x info action cfg a e =
    ((launched a (fst (run_action x info action)) e)\<lparr>en_running := en_running e - 1\<rparr>, None)"
proof -
  obtain l out code err where r: "run_action x info action = (l, out, code, err)" by (metis prod_cases4)
  have "redactAndCap (out_lower x) out (output_limit cfg) = None \<or>
      (\<exists>p. redactAndCap (out_lower x) out (output_limit cfg) = Some (Inl p))"
    using assms by (auto simp: survives_def r) (metis not_None_eq old.sum.exhaust)
  then show ?thesis by (auto simp: finish_execute_def r)
qed

lemma finish_survived:
  assumes "survives x info action cfg"
  obtains b e1 where "finish_execute R x info action cfg a e = (e1, Some b)" "en_running e1 = en_running e - 1"
    "en_started e1 = en_started (launched a (fst (run_action x info action)) e)"
    "en_cooldowns e1 = en_cooldowns (setCooldown (ci_CheckID info) (ref_CooldownSeconds (ci_Ref info)) (out_done x) e)"
    "en_repo e1 = en_repo (updateAttempt R b e) \<or> en_repo e1 = en_repo (analyzeFailure R x b (updateAttempt R b e))"
    "redactAndCap (out_lower x) (fst (snd (run_action x info action))) (output_limit cfg) = Some (Inr (att_Output b))"
proof -
  obtain l out code err where r: "run_action x info action = (l, out, code, err)" by (metis prod_cases4)
  obtain t where t: "redactAndCap (out_lower x) out (output_limit cfg) = Some (Inr t)"
    using assms by (auto simp: survives_def r)
  show thesis
    by (rule that [of "fst (finish_execute R x info action cfg a e)" "the (snd (finish_execute R x info action cfg a e))"])
      (simp_all add: finish_execute_def r t Let_def updateAttempt_def audit_def setCooldown_def analyzeFailure_def launched_def
        split: option.split)
qed

text \<open>One execution, as seen from outside.\<close>

lemma incidents_create:
  assumes "repository_laws R att"
  shows "map att_IncidentID (att (fst (rp_CreateAttempt R a r))) = map att_IncidentID (att r) \<or>
    map att_IncidentID (att (fst (rp_CreateAttempt R a r))) = map att_IncidentID (att r) @ [att_IncidentID a]"
proof (cases "rp_CreateAttempt R a r")
  case (Pair r' err)
  with assms have "att r' = att r \<or> att r' = att r @ [a]"
    unfolding repository_laws_def by (cases err) blast+
  with Pair show ?thesis by auto
qed

lemma finish_effect:
  "en_running (fst (finish_execute R x info action cfg a e)) = en_running e - 1"
  "en_started (fst (finish_execute R x info action cfg a e)) = en_started (launched a (fst (run_action x info action)) e)"
  "en_cooldowns (fst (finish_execute R x info action cfg a e)) =
     (if survives x info action cfg
      then en_cooldowns (setCooldown (ci_CheckID info) (ref_CooldownSeconds (ci_Ref info)) (out_done x) e) else en_cooldowns e)"
  "repository_laws R att \<Longrightarrow>
     map att_IncidentID (att (en_repo (fst (finish_execute R x info action cfg a e)))) = map att_IncidentID (att (en_repo e))"
proof -
  have "en_running (fst (finish_execute R x info action cfg a e)) = en_running e - 1 \<and>
    en_started (fst (finish_execute R x info action cfg a e)) = en_started (launched a (fst (run_action x info action)) e) \<and>
    en_cooldowns (fst (finish_execute R x info action cfg a e)) =
     (if survives x info action cfg
      then en_cooldowns (setCooldown (ci_CheckID info) (ref_CooldownSeconds (ci_Ref info)) (out_done x) e) else en_cooldowns e) \<and>
    (repository_laws R att \<longrightarrow>
     map att_IncidentID (att (en_repo (fst (finish_execute R x info action cfg a e)))) = map att_IncidentID (att (en_repo e)))"
  proof (cases "survives x info action cfg")
    case True
    obtain b e1 where f: "finish_execute R x info action cfg a e = (e1, Some b)" "en_running e1 = en_running e - 1"
      "en_started e1 = en_started (launched a (fst (run_action x info action)) e)"
      "en_cooldowns e1 = en_cooldowns (setCooldown (ci_CheckID info) (ref_CooldownSeconds (ci_Ref info)) (out_done x) e)"
      "en_repo e1 = en_repo (updateAttempt R b e) \<or> en_repo e1 = en_repo (analyzeFailure R x b (updateAttempt R b e))"
      by (rule finish_survived [OF True])
    have "repository_laws R att \<longrightarrow> map att_IncidentID (att (en_repo e1)) = map att_IncidentID (att (en_repo e))"
      using f(5) incidents_updateAttempt incidents_analyzeFailure by metis
    with f(1-4) True show ?thesis by simp
  next
    case False
    then show ?thesis by (simp add: finish_panicked launched_def)
  qed
  then show "en_running (fst (finish_execute R x info action cfg a e)) = en_running e - 1"
    "en_started (fst (finish_execute R x info action cfg a e)) = en_started (launched a (fst (run_action x info action)) e)"
    "en_cooldowns (fst (finish_execute R x info action cfg a e)) =
     (if survives x info action cfg
      then en_cooldowns (setCooldown (ci_CheckID info) (ref_CooldownSeconds (ci_Ref info)) (out_done x) e) else en_cooldowns e)"
    "repository_laws R att \<Longrightarrow>
     map att_IncidentID (att (en_repo (fst (finish_execute R x info action cfg a e)))) = map att_IncidentID (att (en_repo e))"
    by blast+
qed

lemma execute_incidents:
  assumes "repository_laws R att"
  shows "map att_IncidentID (att (en_repo (fst (execute R x info action cfg n e)))) \<in>
    {map att_IncidentID (att (en_repo e)), map att_IncidentID (att (en_repo e)) @ [ci_IncidentID info]}"
proof -
  let ?a = "new_attempt x info action cfg n"
  have "att_IncidentID ?a = ci_IncidentID info" by (simp add: new_attempt_def)
  then show ?thesis
    using incidents_create [OF assms, of ?a "en_repo e"]
      incidents_updateAttempt [OF assms] finish_effect(4) [OF assms]
    by (auto simp: execute_def begin_execute_def finish_dry_run_def Let_def
        split: prod.splits option.splits)
qed

lemma execute_running [simp]: "en_running (fst (execute R x info action cfg n e)) = en_running e"
  by (auto simp: execute_def begin_execute_def finish_dry_run_def finish_effect Let_def
      split: prod.splits option.splits)

definition started_by :: "Attempt \<Rightarrow> launch option \<Rightarrow> (Attempt \<times> launch) list" where
  "started_by a l = (case l of None \<Rightarrow> [] | Some l \<Rightarrow> [(a, l)])"

lemma execute_started:
  "en_started (fst (execute R x info action cfg n e)) = en_started e @
     (let a = new_attempt x info action cfg n
      in if \<not> gc_DryRun cfg \<and> snd (rp_CreateAttempt R a (en_repo e)) = None
         then started_by a (fst (run_action x info action)) else [])"
  by (auto simp: execute_def begin_execute_def finish_dry_run_def finish_effect launched_def started_by_def Let_def
      split: prod.splits option.splits)

lemma execute_cooldowns:
  "en_cooldowns (fst (execute R x info action cfg n e)) =
     (if \<not> gc_DryRun cfg \<and> snd (rp_CreateAttempt R (new_attempt x info action cfg n) (en_repo e)) = None \<and>
        survives x info action cfg
      then en_cooldowns (setCooldown (ci_CheckID info) (ref_CooldownSeconds (ci_Ref info)) (out_done x) e)
      else en_cooldowns e)"
  by (auto simp: execute_def begin_execute_def finish_dry_run_def finish_effect setCooldown_def Let_def
      split: prod.splits option.splits)

lemma admission_Inr:
  "admission R automatic now info e = Inr (action, cfg, k) \<longleftrightarrow>
     rp_GetConfig R (en_repo e) = Inr cfg \<and> gc_Enabled cfg \<and>
     resolve_action R info (en_repo e) = Inr action \<and>
     (automatic \<longrightarrow> en_running e < max_concurrent cfg) \<and>
     cooling_down (ci_CheckID info) now e = None \<and>
     (\<exists>n. rp_CountAttempts R (en_repo e) [] (ci_IncidentID info) = Inr n \<and>
          n < ref_MaxAttempts (ref_Defaults (ci_Ref info)) \<and> k = n + 1)"
  by (auto simp: admission_def not_le split: sum.splits option.splits if_splits)

lemma refused_simps [simp]:
  "en_repo (refused info why e) = en_repo e" "en_running (refused info why e) = en_running e"
  "en_cooldowns (refused info why e) = en_cooldowns e" "en_started (refused info why e) = en_started e"
  by (simp_all add: refused_def logEscalation_def split: refusal.splits)

lemma try_cases:
  obtains (refused) why where "tryRemediateAsync R x info e = refused info why e"
    | (executed) action cfg k where "admission R True (out_now x) info e = Inr (action, cfg, k)"
        "tryRemediateAsync R x info e = fst (execute R x info action cfg k e)"
  unfolding tryRemediateAsync_def by (cases "admission R True (out_now x) info e") auto

section \<open>Properties\<close>

text \<open>What the configuration of an action and the world outside allow to be launched, by its type.\<close>

definition can_launch :: "Outside \<Rightarrow> CheckInfo \<Rightarrow> AllowedAction \<Rightarrow> launch \<Rightarrow> bool" where
  "can_launch x info action l \<longleftrightarrow>
     (act_Type action = ''command'' \<and> l = LocalCommand (act_Command action) (action_timeout action)) \<or>
     (act_Type action = ''ssh_command'' \<and> (\<exists>h methods. ci_SSH info = Some h \<and> buildSSHAuth x h = Inr methods \<and>
        (rsh_HostKeyFingerprint h = [] \<or> out_hostkey x = rsh_HostKeyFingerprint h) \<and> out_connect x = None \<and>
        l = RemoteCommand h (act_Command action) (action_timeout action))) \<or>
     (act_Type action = ''http'' \<and> act_URL action \<noteq> [] \<and> out_badrequest x = None \<and>
        l = HttpRequest (if act_Method action = [] then ''POST'' else act_Method action) (act_URL action) (act_Headers action)
              (action_timeout action))"

lemma local_launches: "fst (execLocalCommand x c t) = Some (LocalCommand c t)"
  by (cases "out_end x (LocalCommand c t)") (simp_all add: execLocalCommand_def Let_def)

lemma ssh_launches:
  "fst (execSSHCommand x cfg c t) = Some l \<longleftrightarrow> (\<exists>h methods. cfg = Some h \<and> buildSSHAuth x h = Inr methods \<and>
     (rsh_HostKeyFingerprint h = [] \<or> out_hostkey x = rsh_HostKeyFingerprint h) \<and> out_connect x = None \<and> l = RemoteCommand h c t)"
proof (cases cfg)
  case (Some h)
  then show ?thesis
    by (cases "buildSSHAuth x h"; cases "out_connect x"; cases "out_end x (RemoteCommand h c t)")
      (auto simp: execSSHCommand_def makeHostKeyCallback_def Let_def)
qed (simp add: execSSHCommand_def)

lemma http_launches:
  "fst (execHTTPAction x action t) = Some l \<longleftrightarrow> act_URL action \<noteq> [] \<and> out_badrequest x = None \<and>
     l = HttpRequest (if act_Method action = [] then ''POST'' else act_Method action) (act_URL action) (act_Headers action) t"
proof (cases "out_badrequest x")
  case None
  define l' where "l' = HttpRequest (if act_Method action = [] then ''POST'' else act_Method action) (act_URL action) (act_Headers action) t"
  show ?thesis
    by (cases "out_http x l'") (auto simp: execHTTPAction_def None Let_def l'_def)
qed (simp add: execHTTPAction_def)

lemma run_launches: "fst (run_action x info action) = Some l \<longleftrightarrow> can_launch x info action l"
proof -
  consider (local) "act_Type action = ''command''" | (ssh) "act_Type action = ''ssh_command''" | (http) "act_Type action = ''http''"
    | (other) "act_Type action \<notin> {''command'', ''ssh_command'', ''http''}" by blast
  then show ?thesis
  proof cases
    case local
    then show ?thesis by (auto simp: run_action_def can_launch_def local_launches)
  next
    case ssh
    then show ?thesis unfolding can_launch_def by (simp add: run_action_def ssh_launches)
  next
    case http
    then show ?thesis unfolding can_launch_def by (simp add: run_action_def http_launches)
  next
    case other
    then show ?thesis unfolding can_launch_def by (simp add: run_action_def)
  qed
qed

lemma started_by_iff: "started_by a l = [(a', l')] \<longleftrightarrow> a' = a \<and> l = Some l'"
  by (auto simp: started_by_def split: option.split)


lemma count_incident:
  "length (filter (\<lambda>a. att_IncidentID a = i) as) = count_list (map att_IncidentID as) i"
  by (induction as) auto

lemma remediate_one_bounded:
  assumes laws: "repository_laws R att" and i: "i \<noteq> []"
    and m: "ci_IncidentID info = i \<Longrightarrow> ref_MaxAttempts (ref_Defaults (ci_Ref info)) \<le> m"
  shows "int (count_list (map att_IncidentID (att (en_repo (tryRemediateAsync R x info e)))) i) \<le>
    max m (int (count_list (map att_IncidentID (att (en_repo e))) i))"
proof (cases rule: try_cases [of R x info e])
  case (refused why)
  then show ?thesis by simp
next
  case (executed action cfg k)
  show ?thesis
  proof (cases "ci_IncidentID info = i")
    case True
    from executed(1) obtain n where n: "rp_CountAttempts R (en_repo e) [] i = Inr n"
      and "n < ref_MaxAttempts (ref_Defaults (ci_Ref info))"
      unfolding admission_Inr True by blast
    with m [OF True] have "n < m" by simp
    have "n = int (length (filter (matching [] i) (att (en_repo e))))"
      using laws n unfolding repository_laws_def by blast
    moreover have "matching [] i = (\<lambda>a. att_IncidentID a = i)" using i by (auto simp: matching_def)
    ultimately have "int (count_list (map att_IncidentID (att (en_repo e))) i) < m"
      using \<open>n < m\<close> by (simp add: count_incident)
    then show ?thesis using execute_incidents [OF laws, of x info action cfg k e] True
      by (auto simp: executed(2) count_list_append)
  next
    case False
    then show ?thesis using execute_incidents [OF laws, of x info action cfg k e]
      by (auto simp: executed(2) count_list_append)
  qed
qed

text \<open>
  Executed one after the other, automatic remediation never makes more attempts for an
  incident than the check allows, whatever happens to the commands and to the repository calls.
\<close>

theorem attempts_are_bounded:
  assumes "repository_laws R att" and "i \<noteq> []"
    and "\<forall>(x, info) \<in> set evs. ci_IncidentID info = i \<longrightarrow> ref_MaxAttempts (ref_Defaults (ci_Ref info)) \<le> m"
  shows "int (length (filter (\<lambda>a. att_IncidentID a = i) (att (en_repo (remediate_all R evs e))))) \<le>
    max m (int (length (filter (\<lambda>a. att_IncidentID a = i) (att (en_repo e)))))"
  using assms(3)
proof (induction evs arbitrary: e)
  case Nil
  then show ?case by (simp add: remediate_all_def)
next
  case (Cons ev evs)
  obtain x info where ev: "ev = (x, info)" by (cases ev)
  with Cons.prems have "ci_IncidentID info = i \<Longrightarrow> ref_MaxAttempts (ref_Defaults (ci_Ref info)) \<le> m" by auto
  from remediate_one_bounded [OF assms(1,2) this, of x e]
    Cons.IH [of "tryRemediateAsync R x info e"] Cons.prems
  show ?case by (simp add: remediate_all_def ev count_incident)
qed

definition no_panic :: "'r Repository \<Rightarrow> Outside \<Rightarrow> CheckInfo \<Rightarrow> 'r Engine \<Rightarrow> bool" where
  "no_panic R x info e \<longleftrightarrow>
     (\<forall>action cfg k. admission R True (out_now x) info e = Inr (action, cfg, k) \<longrightarrow> survives x info action cfg)"

lemma try_started_cooldown:
  assumes "en_started (tryRemediateAsync R x info e) \<noteq> en_started e" and "no_panic R x info e"
  shows "map_of (en_cooldowns (tryRemediateAsync R x info e)) (ci_CheckID info) =
    Some (time_add (out_done x) (dur_mul (ref_CooldownSeconds (ref_Defaults (ci_Ref info))) second))"
proof (cases rule: try_cases [of R x info e])
  case (refused why)
  with assms show ?thesis by simp
next
  case (executed action cfg k)
  with assms show ?thesis
    by (auto simp: execute_started execute_cooldowns no_panic_def setCooldown_def ref_Defaults_def update_conv' Let_def
        split: if_splits)
qed

lemma try_other_cooldown:
  "c \<noteq> ci_CheckID info \<Longrightarrow>
     map_of (en_cooldowns (tryRemediateAsync R x info e)) c = map_of (en_cooldowns e) c \<and>
     filter (\<lambda>a. att_CheckID (fst a) = c) (en_started (tryRemediateAsync R x info e)) =
       filter (\<lambda>a. att_CheckID (fst a) = c) (en_started e)"
  by (cases rule: try_cases [of R x info e])
     (auto simp: execute_started execute_cooldowns setCooldown_def new_attempt_def started_by_def update_conv' Let_def split: option.split)

lemma try_cooling:
  assumes "map_of (en_cooldowns e) (ci_CheckID info) = Some earliest" and "out_now x < earliest"
  shows "en_started (tryRemediateAsync R x info e) = en_started e"
    "en_cooldowns (tryRemediateAsync R x info e) = en_cooldowns e"
proof -
  have "cooling_down (ci_CheckID info) (out_now x) e \<noteq> None"
    using assms by (simp add: cooling_down_def go_time)
  then obtain why where "tryRemediateAsync R x info e = refused info why e"
    by (cases rule: try_cases [of R x info e]) (auto simp: admission_Inr)
  then show "en_started (tryRemediateAsync R x info e) = en_started e"
    "en_cooldowns (tryRemediateAsync R x info e) = en_cooldowns e" by simp_all
qed

text \<open>
  After something has been launched for a check (and the redaction of its output has not ended the process), nothing is
  launched for this check before the cooldown that begins when it has ended is over, whatever requests come in for
  this and other checks in between, one after the other.
\<close>

theorem cooldown_is_kept:
  assumes "en_started (tryRemediateAsync R x info e) \<noteq> en_started e" and "no_panic R x info e"
    and "\<forall>(x', info') \<in> set evs. out_now x' <
      time_add (out_done x) (dur_mul (ref_CooldownSeconds (ref_Defaults (ci_Ref info))) second)"
  shows "filter (\<lambda>a. att_CheckID (fst a) = ci_CheckID info)
      (en_started (remediate_all R evs (tryRemediateAsync R x info e))) =
    filter (\<lambda>a. att_CheckID (fst a) = ci_CheckID info) (en_started (tryRemediateAsync R x info e))"
proof -
  define until where "until = time_add (out_done x) (dur_mul (ref_CooldownSeconds (ref_Defaults (ci_Ref info))) second)"
  have "filter (\<lambda>a. att_CheckID (fst a) = ci_CheckID info) (en_started (remediate_all R evs e1)) =
      filter (\<lambda>a. att_CheckID (fst a) = ci_CheckID info) (en_started e1)"
    if "map_of (en_cooldowns e1) (ci_CheckID info) = Some until"
      and "\<forall>(x', info') \<in> set evs. out_now x' < until" for e1
    using that
  proof (induction evs arbitrary: e1)
    case Nil
    then show ?case by (simp add: remediate_all_def)
  next
    case (Cons ev evs)
    obtain x' info' where ev: "ev = (x', info')" by (cases ev)
    let ?e2 = "tryRemediateAsync R x' info' e1"
    have step: "map_of (en_cooldowns ?e2) (ci_CheckID info) = Some until \<and>
        filter (\<lambda>a. att_CheckID (fst a) = ci_CheckID info) (en_started ?e2) =
        filter (\<lambda>a. att_CheckID (fst a) = ci_CheckID info) (en_started e1)"
    proof (cases "ci_CheckID info' = ci_CheckID info")
      case True
      with Cons.prems ev try_cooling [of e1 info' until x' R] show ?thesis by simp
    next
      case False
      with Cons.prems try_other_cooldown [of "ci_CheckID info" info' R x' e1] show ?thesis by simp
    qed
    then show ?case using Cons.IH [of ?e2] Cons.prems(2) by (simp add: remediate_all_def ev)
  qed
  from this [OF try_started_cooldown [OF assms(1,2), folded until_def]] assms(3)
  show ?thesis by (simp add: until_def)
qed

text \<open>What is stored of an execution has been redacted.\<close>

lemma stored_output_is_clean:
  assumes "lowers_ascii (out_lower x)" and "ascii (fst (snd (run_action x info action)))"
  shows "\<exists>e' b t. finish_execute R x info action cfg a e = (e', Some b) \<and> att_Output b = cap_output t (output_limit cfg) \<and>
     list_all (\<lambda>p. clean p t) redact_patterns"
proof -
  let ?out = "fst (snd (run_action x info action))"
  have "0 \<le> output_limit cfg" by (simp add: output_limit_def)
  then have red: "redactAndCap (out_lower x) ?out (output_limit cfg) =
      Some (Inr (cap_output (fold redact redact_patterns ?out) (output_limit cfg)))"
    using assms by (simp add: redactAndCap_def redact_all_patterns)
  then have "survives x info action cfg" by (simp add: survives_def)
  from finish_survived [OF this, of R a e] obtain b e' where
    f: "finish_execute R x info action cfg a e = (e', Some b)" "redactAndCap (out_lower x) ?out (output_limit cfg) = Some (Inr (att_Output b))"
    by metis
  have "list_all (\<lambda>p. clean p (fold redact redact_patterns ?out)) redact_patterns"
    using fold_redact_clean [of redact_patterns _ ?out] by (auto simp: list_all_iff)
  moreover have "att_Output b = cap_output (fold redact redact_patterns ?out) (output_limit cfg)" using f(2) red by simp
  ultimately show ?thesis using f(1) by blast
qed

text \<open>With the defaults filled in there is always a delay, so that every success is verified.\<close>

lemma every_success_is_verified:
  "starts_verification True info a \<longleftrightarrow> att_Status a = ''success''"
  by (simp add: starts_verification_def ref_Defaults_def Let_def)

section \<open>Interleaved executions\<close>

text \<open>
  \<open>TryRemediate\<close> starts a goroutine for every request. Its guards, the time until the attempt is
  created and the execution of the command are separate steps here, and any number of goroutines
  take them in any order.
\<close>

datatype thread =
    Admitted CheckInfo AllowedAction GlobalConfig int
  | Running Outside CheckInfo AllowedAction GlobalConfig Attempt

inductive interleaved ::
  "'r Repository \<Rightarrow> 'r Engine \<times> thread list \<Rightarrow> 'r Engine \<times> thread list \<Rightarrow> bool" for R where
  refuse: "admission R True now info e = Inl why \<Longrightarrow> interleaved R (e, ts) (refused info why e, ts)"
| admit: "admission R True now info e = Inr (action, cfg, n) \<Longrightarrow>
    interleaved R (e, ts) (e, ts @ [Admitted info action cfg n])"
| start: "begin_execute R x info action cfg n e = (e', Some a) \<Longrightarrow>
    interleaved R (e, us @ Admitted info action cfg n # vs) (e', us @ Running x info action cfg a # vs)"
| give_up: "begin_execute R x info action cfg n e = (e', None) \<Longrightarrow>
    interleaved R (e, us @ Admitted info action cfg n # vs) (e', us @ vs)"
| finish: "(if gc_DryRun cfg then apsnd Some (finish_dry_run R info action a e) else finish_execute R x info action cfg a e) =
      (e', a') \<Longrightarrow>
    interleaved R (e, us @ Running x info action cfg a # vs) (e', us @ vs)"

fun is_running :: "thread \<Rightarrow> bool" where
  "is_running (Running x info action cfg a) = True"
| "is_running (Admitted info action cfg n) = False"

lemma finish_running:
  "(if gc_DryRun cfg then apsnd Some (finish_dry_run R info action a e) else finish_execute R x info action cfg a e) =
     (e', a') \<Longrightarrow> en_running e' = en_running e - 1"
  using finish_effect(1) [of R x info action cfg a e] by (auto simp: finish_dry_run_def Let_def split: if_splits)

lemma begin_running:
  "begin_execute R x info action cfg n e = (e', r) \<Longrightarrow>
     en_running e' = en_running e + (if r = None then 0 else 1)"
  by (auto simp: begin_execute_def Let_def split: if_splits prod.splits option.splits)

text \<open>
  The counter of running executions is exact in every interleaving: it is the number of
  goroutines between the creation of their attempt and the end of their execution, and it returns
  to where it was when the last one is done.
\<close>

theorem running_counter_is_exact:
  assumes "(interleaved R)\<^sup>*\<^sup>* (e, []) (e', ts)"
  shows "en_running e' = en_running e + int (length (filter is_running ts))"
  using assms
proof (induction "(e', ts)" arbitrary: e' ts rule: rtranclp_induct)
  case base
  then show ?case by simp
next
  case (step y)
  from step(2) step(3) [of "fst y" "snd y"] show ?case
    by (cases rule: interleaved.cases) (auto dest: finish_running begin_running)
qed

text \<open>
  The limits are checked before they are used up: two requests that arrive together are both
  admitted when there is room for one, so that two executions with the same attempt number run at
  the same time, one more than the limit on concurrent executions and on attempts allows.
\<close>

theorem limits_are_overrun:
  assumes "admission R True (out_now x1) info1 e = Inr (action1, cfg, n)"
    and "admission R True (out_now x2) info2 e = Inr (action2, cfg, n)"
    and "begin_execute R x1 info1 action1 cfg n e = (e1, Some a1)"
    and "begin_execute R x2 info2 action2 cfg n e1 = (e2, Some a2)"
    and "max_concurrent cfg = en_running e + 1"
  shows "\<exists>ts. (interleaved R)\<^sup>*\<^sup>* (e, []) (e2, ts) \<and> length (filter is_running ts) = 2 \<and>
    max_concurrent cfg < en_running e2 \<and> att_AttemptNumber a1 = att_AttemptNumber a2"
proof (intro exI conjI)
  have "interleaved R (e, []) (e, [Admitted info1 action1 cfg n])"
    using admit [OF assms(1), of "[]"] by simp
  moreover have "interleaved R (e, [Admitted info1 action1 cfg n])
      (e, [Admitted info1 action1 cfg n, Admitted info2 action2 cfg n])"
    using admit [OF assms(2), of "[Admitted info1 action1 cfg n]"] by simp
  moreover have "interleaved R (e, [Admitted info1 action1 cfg n, Admitted info2 action2 cfg n])
      (e1, [Running x1 info1 action1 cfg a1, Admitted info2 action2 cfg n])"
    using start [OF assms(3), of "[]"] by simp
  moreover have "interleaved R (e1, [Running x1 info1 action1 cfg a1, Admitted info2 action2 cfg n])
      (e2, [Running x1 info1 action1 cfg a1, Running x2 info2 action2 cfg a2])"
    using start [OF assms(4), of "[Running x1 info1 action1 cfg a1]" "[]"] by simp
  ultimately show "(interleaved R)\<^sup>*\<^sup>* (e, [])
      (e2, [Running x1 info1 action1 cfg a1, Running x2 info2 action2 cfg a2])"
    by (meson rtranclp.rtrancl_into_rtrancl rtranclp.rtrancl_refl)
  show "max_concurrent cfg < en_running e2"
    using begin_running [OF assms(3)] begin_running [OF assms(4)] assms(5) by simp
  show "att_AttemptNumber a1 = att_AttemptNumber a2"
    using assms(3,4) by (auto simp: begin_execute_def new_attempt_def Let_def split: prod.splits option.splits if_splits)
qed simp

section \<open>Instances\<close>

text \<open>A repository that keeps the attempts in a list, one action, and remediation switched on.\<close>

definition restart :: AllowedAction where
  "restart = \<lparr>act_ID = ''restart'', act_Name = ''restart'', act_Type = ''command'', act_Command = ''restart'',
     act_URL = [], act_Method = [], act_Headers = [], act_TimeoutSeconds = 30, act_Risk = ''low'',
     act_Description = [], act_CreatedAt = 0, act_UpdatedAt = 0\<rparr>"

definition live_config :: GlobalConfig where
  "live_config = DefaultGlobalConfig\<lparr>gc_Enabled := True, gc_DryRun := False, gc_MaxConcurrent := 1\<rparr>"

definition list_repository :: "Attempt list Repository" where
  "list_repository = \<lparr>rp_GetConfig = \<lambda>r. Inr live_config,
     rp_GetAction = \<lambda>r i. if i = ''restart'' then Inr restart else Inl ''not found'',
     rp_CountAttempts = \<lambda>r c i. Inr (int (length (filter (matching c i) r))),
     rp_CreateAttempt = \<lambda>a r. (r @ [a], None),
     rp_UpdateAttempt = \<lambda>i f r. replace_first (\<lambda>a. att_ID a = i) f r\<rparr>"

lemma list_repository_laws: "repository_laws list_repository (\<lambda>r. r)"
  by (simp add: repository_laws_def list_repository_def)

definition request :: CheckInfo where
  "request = \<lparr>ci_CheckID = ''web'', ci_CheckName = [], ci_CheckType = [], ci_Target = [], ci_ServerID = [],
     ci_SSH = None, ci_Ref = empty_ref\<lparr>ref_ActionRef := ''restart'', ref_MaxAttempts := 1\<rparr>,
     ci_IncidentID = ''i1'', ci_InlineAction = None\<rparr>"

definition outside :: "string \<Rightarrow> gotime \<Rightarrow> Outside" where
  "outside i t = \<lparr>out_now = t, out_id = i, out_stdout = \<lambda>_. ''done'', out_stderr = \<lambda>_. [], out_end = \<lambda>_. RunOk,
     out_getenv = \<lambda>_. [], out_readkey = \<lambda>_. Inl ''no file'', out_decrypt = \<lambda>_. Inl ''no key'',
     out_connect = None, out_hostkey = [], out_badrequest = None, out_http = \<lambda>_. HttpFailed ''refused'',
     out_lower = to_lower, out_duration = 5,
     out_done = t + 5, out_analysis = None\<rparr>"

text \<open>Three requests for one incident whose check allows one attempt.\<close>

lemma attempts_are_bounded_witness:
  "length (filter (\<lambda>a. att_IncidentID a = ''i1'') (en_repo (remediate_all list_repository
     [(outside ''a'' 0, request), (outside ''b'' 10, request), (outside ''c'' 1000000000000, request)]
     (NewEngine [])))) \<le> 1"
proof -
  let ?evs = "[(outside ''a'' 0, request), (outside ''b'' 10, request), (outside ''c'' 1000000000000, request)]"
  have "ref_MaxAttempts (ref_Defaults (ci_Ref request)) \<le> 1" by code_simp
  then show ?thesis
    using attempts_are_bounded [OF list_repository_laws, of "''i1''" ?evs 1 "NewEngine []"]
    by (simp add: NewEngine_def)
qed

lemma cooldown_is_kept_witness:
  "length (filter (\<lambda>a. att_CheckID (fst a) = ''web'') (en_started (remediate_all list_repository
     [(outside ''b'' 299000000000, request\<lparr>ci_IncidentID := ''i2''\<rparr>)]
     (tryRemediateAsync list_repository (outside ''a'' 0) request (NewEngine []))))) = 1"
proof -
  have s: "map (att_CheckID \<circ> fst) (en_started (tryRemediateAsync list_repository (outside ''a'' 0) request (NewEngine []))) = [''web'']"
    by code_simp
  have late: "(299000000000::int) < time_add (out_done (outside ''a'' 0))
      (dur_mul (ref_CooldownSeconds (ref_Defaults (ci_Ref request))) second)"
    by code_simp
  let ?e = "tryRemediateAsync list_repository (outside ''a'' 0) request (NewEngine [])"
  from s have one: "filter (\<lambda>a. att_CheckID (fst a) = ''web'') (en_started ?e) = en_started ?e"
    by (auto simp: filter_id_conv Cons_eq_map_conv map_eq_Cons_conv)
  from s have started: "en_started ?e \<noteq> en_started (NewEngine [])" by (auto simp: NewEngine_def)
  have chk: "ci_CheckID request = ''web''" by (simp add: request_def)
  let ?evs = "[(outside ''b'' 299000000000, request\<lparr>ci_IncidentID := ''i2''\<rparr>)]"
  have "\<forall>(x', info') \<in> set ?evs. out_now x' < time_add (out_done (outside ''a'' 0))
      (dur_mul (ref_CooldownSeconds (ref_Defaults (ci_Ref request))) second)"
    using late by (simp add: outside_def [of "''b''"])
  moreover have "no_panic list_repository (outside ''a'' 0) request (NewEngine [])"
    unfolding no_panic_def survives_def
    by (auto simp: admission_Inr list_repository_def resolve_action_def request_def empty_ref_def ref_Defaults_def run_action_def restart_def
        execLocalCommand_def outside_def process_output_def output_limit_def live_config_def DefaultGlobalConfig_def
        redactAndCap_def redact_all_patterns lowers_ascii_def ascii_def Let_def)
  ultimately have kept0: "filter (\<lambda>a. att_CheckID (fst a) = ci_CheckID request) (en_started (remediate_all list_repository ?evs ?e)) =
     filter (\<lambda>a. att_CheckID (fst a) = ci_CheckID request) (en_started ?e)"
    by (intro cooldown_is_kept [OF started]) 
  from kept0
  have kept: "filter (\<lambda>a. att_CheckID (fst a) = ''web'') (en_started (remediate_all list_repository ?evs ?e)) =
     filter (\<lambda>a. att_CheckID (fst a) = ''web'') (en_started ?e)"
    unfolding chk .
  have "length (map (att_CheckID \<circ> fst) (en_started ?e)) = 1" unfolding s by simp
  then show ?thesis unfolding kept one by (simp only: length_map)
qed

lemma running_counter_is_exact_witness:
  "en_running (fst (begin_execute list_repository (outside ''a'' 0) request restart live_config 1 (NewEngine []))) = 1"
proof -
  let ?r = "begin_execute list_repository (outside ''a'' 0) request restart live_config 1 (NewEngine [])"
  obtain a where a: "?r = (fst ?r, Some a)" by (cases ?r) (auto simp: begin_execute_def list_repository_def Let_def live_config_def)
  have "admission list_repository True 0 request (NewEngine []) = Inr (restart, live_config, 1)" by code_simp
  from admit [OF this, of "[]"] start [OF a, of "[]" "[]"]
  have "(interleaved list_repository)\<^sup>*\<^sup>* (NewEngine [], [])
      (fst ?r, [Running (outside ''a'' 0) request restart live_config a])"
    by (auto intro: rtranclp.rtrancl_into_rtrancl)
  from running_counter_is_exact [OF this] show ?thesis by (simp add: NewEngine_def)
qed

text \<open>The attempt of the two requests has number one of one, and both are running.\<close>

lemma limits_are_overrun_witness:
  "\<exists>e ts. (interleaved list_repository)\<^sup>*\<^sup>* (NewEngine [], []) (e, ts) \<and>
     length (filter is_running ts) = 2 \<and> max_concurrent live_config < en_running e"
proof -
  let ?r1 = "begin_execute list_repository (outside ''a'' 0) request restart live_config 1 (NewEngine [])"
  let ?r2 = "begin_execute list_repository (outside ''b'' 0) request restart live_config 1 (fst ?r1)"
  obtain a where a: "?r1 = (fst ?r1, Some a)"
    by (cases ?r1) (auto simp: begin_execute_def list_repository_def Let_def live_config_def)
  obtain b where b: "?r2 = (fst ?r2, Some b)"
    by (cases ?r2) (auto simp: begin_execute_def list_repository_def Let_def live_config_def)
  have "admission list_repository True (out_now (outside ''a'' 0)) request (NewEngine []) = Inr (restart, live_config, 1)"
    "admission list_repository True (out_now (outside ''b'' 0)) request (NewEngine []) = Inr (restart, live_config, 1)"
    "max_concurrent live_config = en_running (NewEngine ([] :: Attempt list)) + 1"
    by code_simp+
  from limits_are_overrun [OF this(1,2) a b this(3)] show ?thesis by blast
qed

text \<open>
  A manual request without an incident is counted against all attempts there are, of whatever check
  and incident, since an empty id is left out of the query; and dry runs use up the attempts.
\<close>

lemma manual_without_incident_is_exhausted:
  assumes "repository_laws R att" and "rp_CountAttempts R (en_repo e) [] [] = Inr n"
    and "ref_MaxAttempts (ref_Defaults (ci_Ref info)) \<le> int (length (att (en_repo e)))"
    and "ci_IncidentID info = []"
  shows "admission R automatic now info e \<notin> range Inr"
proof -
  have "n = int (length (filter (matching [] []) (att (en_repo e))))"
    using assms(1,2) unfolding repository_laws_def by blast
  then have "n = int (length (att (en_repo e)))" by (simp add: matching_def)
  with assms show ?thesis by (auto simp: admission_Inr)
qed

end
