(* ===== verification/Channels.thy ===== *)
theory Channels
  imports Model
begin

text \<open>
  Notification channels, \<open>internal/monitoring/notify/channel.go\<close>: the configuration, its validation
  with the guard against webhooks into the internal network, the view without secrets that the API
  shows, the file store, and the adapter that takes its place in production
  (\<open>repositories/channel_store_adapter.go\<close> with the checks of
  \<open>mongo_channel_repository.go\<close>).

  \<open>net/url\<close> and \<open>net.ParseIP\<close> are parameters: \<open>UrlOps\<close> holds the parser and the printer of URLs,
  and an address is the list of its 4 or 16 bytes. What is done with their results is written out.
\<close>

section \<open>Configuration\<close>

record NotificationChannelConfig =
  ch_ID :: string
  ch_Name :: string
  ch_Type :: string
  ch_Enabled :: bool
  ch_WebhookURL :: string
  ch_Email :: string
  ch_SMTPHost :: string
  ch_SMTPPort :: int
  ch_SMTPUser :: string
  ch_SMTPPass :: string
  ch_SMTPPassEnv :: string
  ch_FromEmail :: string
  ch_BotToken :: string
  ch_ChatID :: string
  ch_RoutingKey :: string
  ch_Severities :: "string list"
  ch_CheckIDs :: "string list"
  ch_CheckTypes :: "string list"
  ch_Servers :: "string list"
  ch_Tags :: "string list"
  ch_CooldownMinutes :: int
  ch_MinConsecutiveFailures :: int
  ch_NotifyOnResolve :: bool
  ch_Headers :: smap
  ch_BodyTemplate :: string
  ch_CreatedAt :: gotime
  ch_UpdatedAt :: gotime

section \<open>URLs\<close>

record ParsedURL =
  pu_Scheme :: string
  pu_User :: "string option"
  pu_Hostname :: string
  pu_Port :: string
  pu_Path :: string
  pu_RawQuery :: string
  pu_Fragment :: string

record UrlOps =
  url_parse :: "string \<Rightarrow> ParsedURL option"
  url_string :: "ParsedURL \<Rightarrow> string"
  ip_parse :: "string \<Rightarrow> nat list option"

fun split_on :: "char \<Rightarrow> string \<Rightarrow> string list" where
  "split_on d [] = [[]]"
| "split_on d (c # cs) =
     (if c = d then [] # split_on d cs
      else case split_on d cs of [] \<Rightarrow> [[c]] | w # ws \<Rightarrow> (c # w) # ws)"

definition trim_char :: "char \<Rightarrow> string \<Rightarrow> string" where
  "trim_char d s = rev (dropWhile (\<lambda>c. c = d) (rev (dropWhile (\<lambda>c. c = d) s)))"

definition sanitizeRequestPath :: "string \<Rightarrow> string \<Rightarrow> string" where
  "sanitizeRequestPath host path =
     (let trimmed = trim_char (CHR ''/'') path
      in if trimmed = [] then path
         else let segments = split_on (CHR ''/'') trimmed;
                  lowerHost = to_lower host
              in if str_contains lowerHost ''slack.com'' \<and> length segments > 0 \<and> segments ! 0 = ''services''
                 then ''/services/REDACTED''
                 else if str_contains lowerHost ''discord.com'' \<and> length segments > 1 \<and>
                         segments ! 0 = ''api'' \<and> segments ! 1 = ''webhooks''
                 then ''/api/webhooks/REDACTED''
                 else if str_contains lowerHost ''telegram.org'' \<and> length segments > 0 \<and>
                         has_prefix (segments ! 0) ''bot''
                 then (if length segments = 1 then ''/botREDACTED''
                       else ''/botREDACTED/'' @ join ''/'' (tl segments))
                 else if length segments = 1 then ''/'' @ segments ! 0
                 else ''/'' @ segments ! 0 @ ''/REDACTED'')"

definition sanitizeRequestURL :: "UrlOps \<Rightarrow> string \<Rightarrow> string" where
  "sanitizeRequestURL U raw =
     (if raw = [] then []
      else case url_parse U raw of
             None \<Rightarrow> ''[invalid-url]''
           | Some p \<Rightarrow> url_string U (p\<lparr>pu_User := None, pu_RawQuery := [], pu_Fragment := [],
                         pu_Path := sanitizeRequestPath (pu_Hostname p) (pu_Path p)\<rparr>))"

text \<open>\<open>IsLoopback\<close>, \<open>IsPrivate\<close>, \<open>IsLinkLocalUnicast\<close> and \<open>IsLinkLocalMulticast\<close> of \<open>net.IP\<close>.\<close>

fun internal_ip :: "nat list \<Rightarrow> bool" where
  "internal_ip [a, b, c, d] \<longleftrightarrow>
     a = 127 \<or> a = 10 \<or> (a = 172 \<and> 16 \<le> b \<and> b < 32) \<or> (a = 192 \<and> b = 168) \<or>
     (a = 169 \<and> b = 254) \<or> (a = 224 \<and> b = 0 \<and> c = 0)"
| "internal_ip ip \<longleftrightarrow>
     ip = replicate 15 0 @ [1] \<or> (length ip = 16 \<and> ip ! 0 div 2 = 126) \<or>
     (length ip = 16 \<and> ip ! 0 = 254 \<and> ip ! 1 div 64 = 2) \<or>
     (length ip = 16 \<and> ip ! 0 = 255 \<and> ip ! 1 mod 16 = 2)"

definition validateWebhookURL :: "UrlOps \<Rightarrow> string \<Rightarrow> string option" where
  "validateWebhookURL U rawURL =
     (case url_parse U rawURL of
        None \<Rightarrow> Some ''invalid webhook URL''
      | Some parsed \<Rightarrow>
          if pu_Scheme parsed \<noteq> ''https'' \<and> pu_Scheme parsed \<noteq> ''http''
          then Some ''webhook URL must use http or https scheme''
          else let host = pu_Hostname parsed
               in if host = [] then Some ''webhook URL must have a hostname''
                  else if host = ''localhost'' \<or> host = ''127.0.0.1'' \<or> host = ''::1'' \<or> host = ''0.0.0.0''
                  then Some ''webhook URL must not target localhost''
                  else if (case ip_parse U host of None \<Rightarrow> False | Some ip \<Rightarrow> internal_ip ip)
                  then Some ''webhook URL must not target private or internal IP addresses''
                  else if host = ''169.254.169.254'' \<or> host = ''metadata.google.internal''
                  then Some ''webhook URL must not target cloud metadata services''
                  else None)"

definition channel_Validate :: "UrlOps \<Rightarrow> NotificationChannelConfig \<Rightarrow> string option" where
  "channel_Validate U c =
     (if ch_Name c = [] then Some ''name is required''
      else if ch_Type c = ''slack'' \<or> ch_Type c = ''discord'' then
        (if ch_WebhookURL c = [] then Some (''webhookUrl is required for '' @ ch_Type c)
         else validateWebhookURL U (ch_WebhookURL c))
      else if ch_Type c = ''webhook'' then
        (if ch_WebhookURL c = [] then Some ''webhookUrl is required for webhook''
         else validateWebhookURL U (ch_WebhookURL c))
      else if ch_Type c = ''email'' then
        (if ch_Email c = [] then Some ''email is required''
         else if ch_SMTPHost c = [] then Some ''smtpHost is required for email'' else None)
      else if ch_Type c = ''telegram'' then
        (if ch_BotToken c = [] \<or> ch_ChatID c = [] then Some ''botToken and chatId are required for telegram''
         else None)
      else if ch_Type c = ''pagerduty'' then
        (if ch_RoutingKey c = [] then Some ''routingKey is required for pagerduty'' else None)
      else Some (''unsupported channel type: '' @ ch_Type c))"

section \<open>The view without secrets\<close>

text \<open>A bullet is three bytes of UTF-8.\<close>

definition bullets :: "nat \<Rightarrow> string" where
  "bullets n = concat (replicate n [CHR 0xE2, CHR 0x80, CHR 0xA2])"

definition maskString :: "string \<Rightarrow> string" where
  "maskString s =
     (if length s \<le> 8 then bullets 8 else take 4 s @ bullets 4 @ drop (length s - 4) s)"

definition SafeView :: "UrlOps \<Rightarrow> NotificationChannelConfig \<Rightarrow> NotificationChannelConfig" where
  "SafeView U c =
     (let s1 = (if ch_WebhookURL c \<noteq> [] then c\<lparr>ch_WebhookURL := sanitizeRequestURL U (ch_WebhookURL c)\<rparr> else c);
          s2 = (if ch_SMTPPass s1 \<noteq> [] then s1\<lparr>ch_SMTPPass := bullets 8\<rparr> else s1);
          s3 = (if ch_BotToken s2 \<noteq> [] then s2\<lparr>ch_BotToken := maskString (ch_BotToken s2)\<rparr> else s2)
      in if ch_RoutingKey s3 \<noteq> [] then s3\<lparr>ch_RoutingKey := maskString (ch_RoutingKey s3)\<rparr> else s3)"

definition SMTPPassword :: "(string \<Rightarrow> string) \<Rightarrow> NotificationChannelConfig \<Rightarrow> string" where
  "SMTPPassword getenv c =
     (if ch_SMTPPass c \<noteq> [] then ch_SMTPPass c
      else if ch_SMTPPassEnv c \<noteq> [] then getenv (ch_SMTPPassEnv c) else [])"

section \<open>The file store\<close>

record ChannelStore =
  cs_channels :: "NotificationChannelConfig list"
  cs_disk :: "NotificationChannelConfig list"

datatype outcome = Ok | Err string | Panic

definition cs_save :: "string option \<Rightarrow> ChannelStore \<Rightarrow> ChannelStore \<times> outcome" where
  "cs_save werr s =
     (case werr of
        None \<Rightarrow> (s\<lparr>cs_disk := cs_channels s\<rparr>, Ok)
      | Some err \<Rightarrow> (s, Err err))"

definition cs_List :: "UrlOps \<Rightarrow> ChannelStore \<Rightarrow> NotificationChannelConfig list" where
  "cs_List U s = map (SafeView U) (cs_channels s)"

definition cs_ListRaw :: "ChannelStore \<Rightarrow> NotificationChannelConfig list" where
  "cs_ListRaw s = cs_channels s"

definition cs_Get :: "UrlOps \<Rightarrow> string \<Rightarrow> ChannelStore \<Rightarrow> NotificationChannelConfig option" where
  "cs_Get U i s = map_option (SafeView U) (find (\<lambda>c. ch_ID c = i) (cs_channels s))"

definition cs_Create ::
  "UrlOps \<Rightarrow> gotime \<Rightarrow> string option \<Rightarrow> NotificationChannelConfig \<Rightarrow> ChannelStore \<Rightarrow> ChannelStore \<times> outcome" where
  "cs_Create U now werr c s =
     (case channel_Validate U c of
        Some err \<Rightarrow> (s, Err err)
      | None \<Rightarrow>
          if find (\<lambda>e. ch_ID e = ch_ID c) (cs_channels s) \<noteq> None
          then (s, Err (''channel with id already exists: '' @ ch_ID c))
          else let c1 = (if ch_ID c = [] then c\<lparr>ch_ID := ''ch-'' @ itoa (unix_nano now)\<rparr> else c);
                   c2 = c1\<lparr>ch_CreatedAt := now, ch_UpdatedAt := now\<rparr>
               in cs_save werr (s\<lparr>cs_channels := cs_channels s @ [c2]\<rparr>))"

text \<open>
  \<^verbatim>\<open>s[4:8]\<close> panics when the string is shorter than 8 bytes, and compares 4 bytes with the 12
  bytes of four bullets.
\<close>

definition keep_masked :: "string \<Rightarrow> string \<Rightarrow> string option" where
  "keep_masked new old =
     (if new \<noteq> [] \<and> length new > 4 then
        (if length new < 8 then None
         else if take 4 (drop 4 new) = bullets 4 then Some old else Some new)
      else Some new)"

definition merge_channel ::
  "UrlOps \<Rightarrow> gotime \<Rightarrow> string \<Rightarrow> NotificationChannelConfig \<Rightarrow> NotificationChannelConfig \<Rightarrow>
     NotificationChannelConfig option" where
  "merge_channel U now i c existing =
     (let c1 = c\<lparr>ch_ID := i, ch_CreatedAt := ch_CreatedAt existing, ch_UpdatedAt := now\<rparr>;
          c2 = (if ch_SMTPPass c1 = bullets 8 then c1\<lparr>ch_SMTPPass := ch_SMTPPass existing\<rparr> else c1);
          c3 = (if ch_WebhookURL c2 \<noteq> [] \<and> ch_WebhookURL c2 = sanitizeRequestURL U (ch_WebhookURL existing)
                then c2\<lparr>ch_WebhookURL := ch_WebhookURL existing\<rparr> else c2)
      in case keep_masked (ch_BotToken c3) (ch_BotToken existing) of
           None \<Rightarrow> None
         | Some token \<Rightarrow>
             (let c4 = c3\<lparr>ch_BotToken := token\<rparr>
              in case keep_masked (ch_RoutingKey c4) (ch_RoutingKey existing) of
                   None \<Rightarrow> None
                 | Some key \<Rightarrow> Some (c4\<lparr>ch_RoutingKey := key\<rparr>)))"

definition cs_Update ::
  "UrlOps \<Rightarrow> gotime \<Rightarrow> string option \<Rightarrow> string \<Rightarrow> NotificationChannelConfig \<Rightarrow> ChannelStore \<Rightarrow>
     ChannelStore \<times> outcome" where
  "cs_Update U now werr i c s =
     (case channel_Validate U c of
        Some err \<Rightarrow> (s, Err err)
      | None \<Rightarrow>
          (case find (\<lambda>e. ch_ID e = i) (cs_channels s) of
             None \<Rightarrow> (s, Err (''channel not found: '' @ i))
           | Some existing \<Rightarrow>
               (case merge_channel U now i c existing of
                  None \<Rightarrow> (s, Panic)
                | Some c' \<Rightarrow>
                    cs_save werr (s\<lparr>cs_channels := replace_first (\<lambda>e. ch_ID e = i) (\<lambda>_. c') (cs_channels s)\<rparr>))))"

definition cs_Delete :: "string option \<Rightarrow> string \<Rightarrow> ChannelStore \<Rightarrow> ChannelStore \<times> outcome" where
  "cs_Delete werr i s =
     (case find (\<lambda>e. ch_ID e = i) (cs_channels s) of
        None \<Rightarrow> (s, Err (''channel not found: '' @ i))
      | Some _ \<Rightarrow> cs_save werr (s\<lparr>cs_channels := remove_first (\<lambda>e. ch_ID e = i) (cs_channels s)\<rparr>))"

definition cs_ToggleEnabled ::
  "gotime \<Rightarrow> string option \<Rightarrow> string \<Rightarrow> bool \<Rightarrow> ChannelStore \<Rightarrow> ChannelStore \<times> outcome" where
  "cs_ToggleEnabled now werr i enabled s =
     (case find (\<lambda>e. ch_ID e = i) (cs_channels s) of
        None \<Rightarrow> (s, Err (''channel not found: '' @ i))
      | Some _ \<Rightarrow> cs_save werr (s\<lparr>cs_channels :=
          replace_first (\<lambda>e. ch_ID e = i) (\<lambda>e. e\<lparr>ch_Enabled := enabled, ch_UpdatedAt := now\<rparr>) (cs_channels s)\<rparr>))"

section \<open>The adapter used in production\<close>

text \<open>
  \<open>ChannelDB\<close> is the collection, with the calls of the driver that
  \<open>mongo_channel_repository.go\<close> makes. The repository's own channel type has the same fields as the
  configuration except \<open>SMTPPassEnv\<close>, so that \<open>toRepository\<close> followed by \<open>toNotify\<close> loses it.
\<close>

record 'w ChannelDB =
  db_find :: "'w \<Rightarrow> string \<Rightarrow> string + NotificationChannelConfig"
  db_insert :: "NotificationChannelConfig \<Rightarrow> 'w \<Rightarrow> 'w \<times> string option"
  db_replace :: "string \<Rightarrow> NotificationChannelConfig \<Rightarrow> 'w \<Rightarrow> 'w \<times> string option"

definition toRepository :: "NotificationChannelConfig \<Rightarrow> NotificationChannelConfig" where
  "toRepository c = c\<lparr>ch_SMTPPassEnv := []\<rparr>"

definition validateChannelType :: "string \<Rightarrow> string option" where
  "validateChannelType t =
     (if t \<in> set [''email'', ''slack'', ''discord'', ''telegram'', ''webhook'', ''pagerduty''] then None
      else Some (''unsupported channel type: '' @ t))"

definition repo_Create ::
  "'w ChannelDB \<Rightarrow> gotime \<Rightarrow> NotificationChannelConfig \<Rightarrow> 'w \<Rightarrow> 'w \<times> outcome" where
  "repo_Create D now c w =
     (case validateChannelType (ch_Type c) of
        Some err \<Rightarrow> (w, Err err)
      | None \<Rightarrow>
          (let c1 = (if ch_ID c = [] then c\<lparr>ch_ID := ''ch-'' @ itoa (unix_nano now)\<rparr> else c)
           in case db_insert D (c1\<lparr>ch_CreatedAt := now, ch_UpdatedAt := now\<rparr>) w of
                (w', None) \<Rightarrow> (w', Ok)
              | (w', Some err) \<Rightarrow> (w', Err err)))"

definition repo_Update ::
  "'w ChannelDB \<Rightarrow> gotime \<Rightarrow> string \<Rightarrow> NotificationChannelConfig \<Rightarrow> 'w \<Rightarrow> 'w \<times> outcome" where
  "repo_Update D now i c w =
     (case validateChannelType (ch_Type c) of
        Some err \<Rightarrow> (w, Err err)
      | None \<Rightarrow>
          (case db_replace D i (c\<lparr>ch_ID := i, ch_UpdatedAt := now\<rparr>) w of
             (w', None) \<Rightarrow> (w', Ok)
           | (w', Some err) \<Rightarrow> (w', Err err)))"

definition isMaskedSecret :: "string \<Rightarrow> bool" where
  "isMaskedSecret v = str_contains v (bullets 4)"

definition adapter_Create ::
  "'w ChannelDB \<Rightarrow> gotime \<Rightarrow> NotificationChannelConfig \<Rightarrow> 'w \<Rightarrow> 'w \<times> outcome" where
  "adapter_Create D now c w = repo_Create D now (toRepository c) w"

definition adapter_merge :: "NotificationChannelConfig \<Rightarrow> NotificationChannelConfig \<Rightarrow> NotificationChannelConfig" where
  "adapter_merge c existing =
     (let merged = c\<lparr>ch_ID := ch_ID existing, ch_SMTPPass := ch_SMTPPass existing,
            ch_SMTPPassEnv := ch_SMTPPassEnv existing, ch_BotToken := ch_BotToken existing,
            ch_RoutingKey := ch_RoutingKey existing, ch_CreatedAt := ch_CreatedAt existing,
            ch_UpdatedAt := ch_UpdatedAt existing\<rparr>;
          m1 = (if ch_SMTPPass c \<noteq> [] \<and> ch_SMTPPass c \<noteq> bullets 8
                then merged\<lparr>ch_SMTPPass := ch_SMTPPass c\<rparr> else merged);
          m2 = (if ch_SMTPPass c = [] then m1\<lparr>ch_SMTPPass := []\<rparr> else m1);
          m3 = (if ch_BotToken c \<noteq> [] \<and> \<not> isMaskedSecret (ch_BotToken c)
                then m2\<lparr>ch_BotToken := ch_BotToken c\<rparr> else m2);
          m4 = (if ch_BotToken c = [] then m3\<lparr>ch_BotToken := []\<rparr> else m3);
          m5 = (if ch_RoutingKey c \<noteq> [] \<and> \<not> isMaskedSecret (ch_RoutingKey c)
                then m4\<lparr>ch_RoutingKey := ch_RoutingKey c\<rparr> else m4)
      in if ch_RoutingKey c = [] then m5\<lparr>ch_RoutingKey := []\<rparr> else m5)"

definition adapter_Update ::
  "'w ChannelDB \<Rightarrow> gotime \<Rightarrow> string \<Rightarrow> NotificationChannelConfig \<Rightarrow> 'w \<Rightarrow> 'w \<times> outcome" where
  "adapter_Update D now i c w =
     (case db_find D w i of
        Inl err \<Rightarrow> (w, Err err)
      | Inr existing \<Rightarrow> repo_Update D now i (toRepository (adapter_merge c existing)) w)"

definition adapter_Get :: "UrlOps \<Rightarrow> 'w ChannelDB \<Rightarrow> string \<Rightarrow> 'w \<Rightarrow> NotificationChannelConfig option" where
  "adapter_Get U D i w = (case db_find D w i of Inl _ \<Rightarrow> None | Inr c \<Rightarrow> Some (SafeView U c))"

definition adapter_ToggleEnabled ::
  "'w ChannelDB \<Rightarrow> gotime \<Rightarrow> string \<Rightarrow> bool \<Rightarrow> 'w \<Rightarrow> 'w \<times> outcome" where
  "adapter_ToggleEnabled D now i enabled w =
     (case db_find D w i of
        Inl err \<Rightarrow> (w, Err err)
      | Inr existing \<Rightarrow> repo_Update D now i (existing\<lparr>ch_Enabled := enabled\<rparr>) w)"

section \<open>Lemmas\<close>

lemma length_bullets [simp]: "length (bullets n) = 3 * n"
  by (induction n) (auto simp: bullets_def)

lemma bullets_never_equal: "length s = 4 \<Longrightarrow> s \<noteq> bullets 4"
  using length_bullets [of 4] by fastforce

lemma bullets_split: "bullets 8 = bullets 4 @ bullets 4"
  by (simp add: bullets_def numeral_eq_Suc)

lemma masked_is_recognised: "isMaskedSecret (maskString s)"
proof (cases "length s \<le> 8")
  case True
  then have "maskString s = [] @ bullets 4 @ bullets 4" by (simp only: maskString_def bullets_split if_True append_Nil)
  then show ?thesis unfolding isMaskedSecret_def str_contains_iff by - (intro exI, assumption)
next
  case False
  then have "maskString s = take 4 s @ bullets 4 @ drop (length s - 4) s" by (simp only: maskString_def if_False)
  then show ?thesis unfolding isMaskedSecret_def str_contains_iff by - (intro exI, assumption)
qed

lemma length_maskString: "12 \<le> length (maskString s)"
  by (simp add: maskString_def)

lemma maskString_nonempty: "maskString s \<noteq> []"
  using length_maskString [of s] by auto

lemma keep_masked_replaces: "8 \<le> length new \<Longrightarrow> keep_masked new old = Some new"
  using bullets_never_equal [of "take 4 (drop 4 new)"] by (simp add: keep_masked_def)

lemma keep_masked_mask: "keep_masked (maskString s) old = Some (maskString s)"
  using length_maskString [of s] by (intro keep_masked_replaces) simp

lemma SafeView_fields [simp]:
  "ch_WebhookURL (SafeView U c) = sanitizeRequestURL U (ch_WebhookURL c)"
  "ch_SMTPPass (SafeView U c) = (if ch_SMTPPass c = [] then [] else bullets 8)"
  "ch_BotToken (SafeView U c) = (if ch_BotToken c = [] then [] else maskString (ch_BotToken c))"
  "ch_RoutingKey (SafeView U c) = (if ch_RoutingKey c = [] then [] else maskString (ch_RoutingKey c))"
  "ch_ID (SafeView U c) = ch_ID c" "ch_Type (SafeView U c) = ch_Type c"
  "ch_CreatedAt (SafeView U c) = ch_CreatedAt c"
  by (simp_all add: SafeView_def Let_def sanitizeRequestURL_def)

lemma merge_shown:
  assumes "ch_BotToken e \<noteq> []" "ch_RoutingKey e \<noteq> []"
    and "ch_WebhookURL e = [] \<or> sanitizeRequestURL U (ch_WebhookURL e) \<noteq> []"
  shows "\<exists>c'. merge_channel U now i (SafeView U e) e = Some c' \<and> ch_ID c' = i \<and>
    ch_WebhookURL c' = ch_WebhookURL e \<and> ch_SMTPPass c' = ch_SMTPPass e \<and>
    ch_BotToken c' = maskString (ch_BotToken e) \<and> ch_RoutingKey c' = maskString (ch_RoutingKey e)"
proof -
  have "bullets 8 \<noteq> []" using length_bullets [of 8] by fastforce
  moreover have "sanitizeRequestURL U [] = []" by (simp add: sanitizeRequestURL_def)
  ultimately show ?thesis using assms
    by (auto simp: merge_channel_def Let_def keep_masked_mask)
qed

section \<open>Properties\<close>

text \<open>
  A channel that the file store has accepted points no webhook at a literal internal address:
  the scheme is HTTP or HTTPS, the host is none of the names that are listed, and if it is an IP
  address it is not a loopback, private or link-local one.
\<close>

theorem accepted_webhook_is_external:
  assumes "cs_Create U now werr c s = (s', Ok)" and "ch_Type c \<in> {''slack'', ''discord'', ''webhook''}"
  shows "\<exists>p. url_parse U (ch_WebhookURL c) = Some p \<and> pu_Scheme p \<in> {''http'', ''https''} \<and>
    pu_Hostname p \<notin> {[], ''localhost'', ''metadata.google.internal''} \<and>
    (ip_parse U (pu_Hostname p) = None \<or> (\<exists>ip. ip_parse U (pu_Hostname p) = Some ip \<and> \<not> internal_ip ip))"
proof -
  have "channel_Validate U c = None" using assms(1) by (auto simp: cs_Create_def split: option.splits)
  with assms(2) have "validateWebhookURL U (ch_WebhookURL c) = None"
    by (auto simp: channel_Validate_def split: if_splits)
  then show ?thesis
    by (auto simp: validateWebhookURL_def Let_def split: option.splits if_splits)
qed

text \<open>The names are compared as they are written, and the unspecified IPv6 address is not one of them.\<close>

lemma upper_case_localhost_is_accepted:
  assumes "url_parse U u = Some p" and "pu_Scheme p = ''http''" and "pu_Hostname p = ''LOCALHOST''"
    and "ip_parse U ''LOCALHOST'' = None"
  shows "validateWebhookURL U u = None"
  using assms by (simp add: validateWebhookURL_def)

lemma unspecified_ipv6_is_accepted:
  assumes "url_parse U u = Some p" and "pu_Scheme p = ''http''" and "pu_Hostname p = ''::''"
    and "ip_parse U ''::'' = Some (replicate 16 0)"
  shows "validateWebhookURL U u = None"
proof -
  have "\<not> internal_ip (replicate 16 0)" by code_simp
  with assms show ?thesis by (simp add: validateWebhookURL_def)
qed

text \<open>
  The production adapter accepts what the file store refuses: a channel of a known type is
  created whatever its webhook address, name or credentials are.
\<close>

theorem adapter_skips_validation:
  assumes "ch_Type c \<in> {''slack'', ''discord'', ''webhook'', ''email'', ''telegram'', ''pagerduty''}" and "ch_ID c \<noteq> []"
    and "channel_Validate U c = Some err"
    and "db_insert D ((toRepository c)\<lparr>ch_CreatedAt := now, ch_UpdatedAt := now\<rparr>) w = (w', None)"
  shows "adapter_Create D now c w = (w', Ok) \<and> cs_Create U now werr c s = (s, Err err)"
  using assms
  by (auto simp: adapter_Create_def repo_Create_def validateChannelType_def toRepository_def cs_Create_def)

text \<open>
  Saving a channel as the API has shown it does not leave it as it was. The file store keeps
  the webhook address and the SMTP password, but compares four bytes with four bullets of three
  bytes each, so that it replaces a bot token and a routing key by their masks. The production
  adapter keeps these, but replaces the webhook address by the redacted one.
\<close>

theorem saving_the_shown_channel:
  assumes e: "find (\<lambda>c. ch_ID c = i) (cs_channels s) = Some e"
    and valid: "channel_Validate U (SafeView U e) = None"
    and tokens: "ch_BotToken e \<noteq> []" "ch_RoutingKey e \<noteq> []"
    and url: "ch_WebhookURL e = [] \<or> sanitizeRequestURL U (ch_WebhookURL e) \<noteq> []"
  shows "(\<exists>c'. find (\<lambda>c. ch_ID c = i) (cs_channels (fst (cs_Update U now werr i (SafeView U e) s))) = Some c' \<and>
      ch_WebhookURL c' = ch_WebhookURL e \<and> ch_SMTPPass c' = ch_SMTPPass e \<and>
      ch_BotToken c' = maskString (ch_BotToken e) \<and> ch_RoutingKey c' = maskString (ch_RoutingKey e)) \<and>
    ch_BotToken (adapter_merge (SafeView U e) e) = ch_BotToken e \<and>
    ch_RoutingKey (adapter_merge (SafeView U e) e) = ch_RoutingKey e \<and>
    ch_WebhookURL (adapter_merge (SafeView U e) e) = sanitizeRequestURL U (ch_WebhookURL e)"
proof (intro conjI)
  show "\<exists>c'. find (\<lambda>c. ch_ID c = i) (cs_channels (fst (cs_Update U now werr i (SafeView U e) s))) = Some c' \<and>
      ch_WebhookURL c' = ch_WebhookURL e \<and> ch_SMTPPass c' = ch_SMTPPass e \<and>
      ch_BotToken c' = maskString (ch_BotToken e) \<and> ch_RoutingKey c' = maskString (ch_RoutingKey e)"
  proof -
    from merge_shown [OF tokens url, of now i] obtain c' where c': "merge_channel U now i (SafeView U e) e = Some c'"
      and kept: "ch_ID c' = i" "ch_WebhookURL c' = ch_WebhookURL e" "ch_SMTPPass c' = ch_SMTPPass e"
        "ch_BotToken c' = maskString (ch_BotToken e)" "ch_RoutingKey c' = maskString (ch_RoutingKey e)" by blast
    have "cs_channels (fst (cs_Update U now werr i (SafeView U e) s)) =
        replace_first (\<lambda>c. ch_ID c = i) (\<lambda>_. c') (cs_channels s)"
      by (simp add: cs_Update_def valid e c' cs_save_def split: option.splits)
    moreover have "find (\<lambda>c. ch_ID c = i) (replace_first (\<lambda>c. ch_ID c = i) (\<lambda>_. c') (cs_channels s)) = Some c'"
      by (rule find_replace_first [OF e]) (rule kept(1))
    ultimately show ?thesis using kept by auto
  qed
qed (use tokens in \<open>simp_all add: adapter_merge_def Let_def masked_is_recognised maskString_nonempty\<close>)

section \<open>Instances\<close>

text \<open>Plain \<open>http://host/path\<close> addresses, one of them with an IP address.\<close>

definition plain_urls :: UrlOps where
  "plain_urls = \<lparr>url_parse = \<lambda>u. if has_prefix u ''http://'' then
       Some \<lparr>pu_Scheme = ''http'', pu_User = None, pu_Hostname = takeWhile (\<lambda>c. c \<noteq> CHR ''/'') (drop 7 u),
             pu_Port = [], pu_Path = dropWhile (\<lambda>c. c \<noteq> CHR ''/'') (drop 7 u), pu_RawQuery = [], pu_Fragment = []\<rparr>
     else None,
     url_string = \<lambda>p. ''http://'' @ pu_Hostname p @ pu_Path p,
     ip_parse = \<lambda>h. if h = ''10.0.0.1'' then Some [10, 0, 0, 1] else None\<rparr>"

definition slack_channel :: NotificationChannelConfig where
  "slack_channel = \<lparr>ch_ID = ''c1'', ch_Name = ''ops'', ch_Type = ''slack'', ch_Enabled = True,
     ch_WebhookURL = ''http://hooks.slack.com/services/T/B'', ch_Email = [], ch_SMTPHost = [], ch_SMTPPort = 0,
     ch_SMTPUser = [], ch_SMTPPass = [], ch_SMTPPassEnv = [], ch_FromEmail = [], ch_BotToken = ''123456:secret'',
     ch_ChatID = [], ch_RoutingKey = ''key'', ch_Severities = [], ch_CheckIDs = [], ch_CheckTypes = [],
     ch_Servers = [], ch_Tags = [], ch_CooldownMinutes = 0, ch_MinConsecutiveFailures = 0,
     ch_NotifyOnResolve = False, ch_Headers = [], ch_BodyTemplate = [], ch_CreatedAt = 0, ch_UpdatedAt = 0\<rparr>"

definition list_db :: "NotificationChannelConfig list ChannelDB" where
  "list_db = \<lparr>db_find = \<lambda>w i. case find (\<lambda>c. ch_ID c = i) w of None \<Rightarrow> Inl ''not found'' | Some c \<Rightarrow> Inr c,
     db_insert = \<lambda>c w. (w @ [c], None),
     db_replace = \<lambda>i c w. (replace_first (\<lambda>c. ch_ID c = i) (\<lambda>_. c) w, None)\<rparr>"

lemma accepted_webhook_is_external_witness:
  "\<exists>p. url_parse plain_urls (ch_WebhookURL slack_channel) = Some p \<and> pu_Hostname p \<notin> {[], ''localhost'', ''metadata.google.internal''}"
proof -
  let ?s = "\<lparr>cs_channels = [], cs_disk = []\<rparr>"
  have "snd (cs_Create plain_urls 5 None slack_channel ?s) = Ok" by code_simp
  then have "cs_Create plain_urls 5 None slack_channel ?s = (fst (cs_Create plain_urls 5 None slack_channel ?s), Ok)"
    by (metis prod.collapse)
  moreover have "ch_Type slack_channel \<in> {''slack'', ''discord'', ''webhook''}" by (simp add: slack_channel_def)
  ultimately show ?thesis using accepted_webhook_is_external by blast
qed

lemma adapter_skips_validation_witness:
  "snd (adapter_Create list_db 5 (slack_channel\<lparr>ch_WebhookURL := ''http://10.0.0.1/''\<rparr>) []) = Ok"
proof -
  let ?c = "slack_channel\<lparr>ch_WebhookURL := ''http://10.0.0.1/''\<rparr>"
  have "channel_Validate plain_urls ?c = Some ''webhook URL must not target private or internal IP addresses''"
    by code_simp
  moreover have "ch_Type ?c \<in> {''slack'', ''discord'', ''webhook'', ''email'', ''telegram'', ''pagerduty''}" "ch_ID ?c \<noteq> []"
    by (simp_all add: slack_channel_def)
  moreover have "db_insert list_db ((toRepository ?c)\<lparr>ch_CreatedAt := 5, ch_UpdatedAt := 5\<rparr>) [] =
      ([(toRepository ?c)\<lparr>ch_CreatedAt := 5, ch_UpdatedAt := 5\<rparr>], None)"
    by (simp add: list_db_def)
  ultimately show ?thesis
    using adapter_skips_validation [of ?c plain_urls _ list_db 5 "[]" _ None "\<lparr>cs_channels = [], cs_disk = []\<rparr>"]
    by simp
qed

lemma saving_the_shown_channel_witness:
  "ch_WebhookURL (adapter_merge (SafeView plain_urls slack_channel) slack_channel) =
     ''http://hooks.slack.com/services/REDACTED'' \<and>
   map ch_BotToken (cs_channels (fst (cs_Update plain_urls 9 None ''c1'' (SafeView plain_urls slack_channel)
     \<lparr>cs_channels = [slack_channel], cs_disk = [slack_channel]\<rparr>))) = [maskString ''123456:secret'']"
proof -
  let ?s = "\<lparr>cs_channels = [slack_channel], cs_disk = [slack_channel]\<rparr>"
  have "find (\<lambda>c. ch_ID c = ''c1'') (cs_channels ?s) = Some slack_channel" by (simp add: slack_channel_def)
  moreover have "channel_Validate plain_urls (SafeView plain_urls slack_channel) = None" by code_simp
  moreover have "ch_BotToken slack_channel \<noteq> []" "ch_RoutingKey slack_channel \<noteq> []"
    by (simp_all add: slack_channel_def)
  moreover have url: "sanitizeRequestURL plain_urls (ch_WebhookURL slack_channel) = ''http://hooks.slack.com/services/REDACTED''"
    by code_simp
  ultimately have all: "(\<exists>c'. find (\<lambda>c. ch_ID c = ''c1'') (cs_channels (fst (cs_Update plain_urls 9 None ''c1''
        (SafeView plain_urls slack_channel) ?s))) = Some c' \<and> ch_BotToken c' = maskString (ch_BotToken slack_channel)) \<and>
      ch_WebhookURL (adapter_merge (SafeView plain_urls slack_channel) slack_channel) =
        sanitizeRequestURL plain_urls (ch_WebhookURL slack_channel)"
    using saving_the_shown_channel [of "''c1''" ?s slack_channel plain_urls 9 None] by auto
  have "length (cs_channels (fst (cs_Update plain_urls 9 None ''c1'' (SafeView plain_urls slack_channel) ?s))) = 1"
    by (simp add: cs_Update_def cs_save_def split: option.splits)
  moreover have "\<exists>x. xs = [x]" if "length xs = 1" for xs :: "NotificationChannelConfig list"
    using that by (cases xs) auto
  ultimately obtain x where x: "cs_channels (fst (cs_Update plain_urls 9 None ''c1'' (SafeView plain_urls slack_channel) ?s)) = [x]"
    by blast
  have "ch_BotToken slack_channel = ''123456:secret''" by (simp add: slack_channel_def)
  moreover from all obtain c' where "find (\<lambda>c. ch_ID c = ''c1'') [x] = Some c'"
    and "ch_BotToken c' = maskString (ch_BotToken slack_channel)" unfolding x by blast
  ultimately have "ch_BotToken x = maskString ''123456:secret''" by (simp split: if_splits)
  with all url show ?thesis unfolding x by (simp only: list.map)
qed

end
