(* ===== verification/Notify.thy ===== *)
theory Notify
  imports Channels Queues
begin

text \<open>
  The notification dispatcher, \<open>internal/monitoring/notify/dispatcher.go\<close>: incidents are collected
  for a window of silence, matched against the filters of the channels, and sent as one message or
  as a digest; cooldowns and the set of pairs that have been notified limit what is sent, and every
  attempt is recorded in the outbox.

  A state of the dispatcher and an operation give the next state and the deliveries that have been
  started. The channels are those that \<open>ListRaw\<close> returned. The text of the messages, the network
  and the format of a time are arguments; the pure text functions are modelled at the end.
\<close>

section \<open>Payloads, filters and tracking\<close>

record NotificationPayload =
  np_IncidentID :: string
  np_CheckID :: string
  np_CheckName :: string
  np_CheckType :: string
  np_Server :: string
  np_Severity :: string
  np_Status :: string
  np_Message :: string
  np_StartedAt :: string
  np_ResolvedAt :: string

record PendingNotification =
  pn_incident :: Incident
  pn_checkResult :: "CheckResult option"
  pn_checkChannelIDs :: "string list"

record Dispatcher =
  nd_cooldowns :: "(string \<times> gotime) list"
  nd_notified :: "string list"
  nd_pending :: "PendingNotification list"
  nd_timer :: "gotime option"

definition NewNotificationDispatcher :: Dispatcher where
  "NewNotificationDispatcher = \<lparr>nd_cooldowns = [], nd_notified = [], nd_pending = [], nd_timer = None\<rparr>"

definition batchWindow :: duration where
  "batchWindow = 5000000000"

definition buildPayload :: "(gotime \<Rightarrow> string) \<Rightarrow> Incident \<Rightarrow> string \<Rightarrow> NotificationPayload" where
  "buildPayload rfc3339 incident status =
     \<lparr>np_IncidentID = inc_ID incident, np_CheckID = inc_CheckID incident,
      np_CheckName = inc_CheckName incident, np_CheckType = inc_Type incident,
      np_Server = (case map_of (inc_Metadata incident) ''server'' of None \<Rightarrow> [] | Some s \<Rightarrow> s),
      np_Severity = inc_Severity incident, np_Status = status, np_Message = inc_Message incident,
      np_StartedAt = rfc3339 (inc_StartedAt incident), np_ResolvedAt = []\<rparr>"

fun containsStr :: "string list \<Rightarrow> string \<Rightarrow> bool" where
  "containsStr [] s \<longleftrightarrow> False"
| "containsStr (item # slice) s \<longleftrightarrow> equal_fold item s \<or> containsStr slice s"

definition server_matches :: "string list \<Rightarrow> Incident \<Rightarrow> CheckResult option \<Rightarrow> bool" where
  "server_matches servers incident result =
     (let listed = (case result of None \<Rightarrow> False | Some r \<Rightarrow> containsStr servers (res_Server r))
      in if \<not> listed then
           (case map_of (inc_Metadata incident) ''server'' of
              Some srv \<Rightarrow> containsStr servers srv
            | None \<Rightarrow> result \<noteq> None)
         else True)"

definition matchesFilters :: "NotificationChannelConfig \<Rightarrow> Incident \<Rightarrow> CheckResult option \<Rightarrow> bool" where
  "matchesFilters ch incident result =
     (if ch_Severities ch \<noteq> [] \<and> \<not> containsStr (ch_Severities ch) (inc_Severity incident) then False
      else if ch_CheckIDs ch \<noteq> [] \<and> \<not> containsStr (ch_CheckIDs ch) (inc_CheckID incident) then False
      else if ch_CheckTypes ch \<noteq> [] \<and> \<not> containsStr (ch_CheckTypes ch) (inc_Type incident) then False
      else if ch_Servers ch \<noteq> [] \<and> \<not> server_matches (ch_Servers ch) incident result then False
      else if ch_Tags ch \<noteq> [] then
        (case result of
           None \<Rightarrow> False
         | Some r \<Rightarrow> list_ex (\<lambda>tag. containsStr (res_Tags r) tag) (ch_Tags ch))
      else True)"

definition channel_cooldown_key :: "NotificationChannelConfig \<Rightarrow> string \<Rightarrow> string" where
  "channel_cooldown_key ch checkID = ch_ID ch @ '':'' @ checkID"

definition inCooldown :: "gotime \<Rightarrow> NotificationChannelConfig \<Rightarrow> string \<Rightarrow> Dispatcher \<Rightarrow> bool" where
  "inCooldown now ch checkID d =
     (if ch_CooldownMinutes ch \<le> 0 then False
      else case map_of (nd_cooldowns d) (channel_cooldown_key ch checkID) of
             None \<Rightarrow> False
           | Some lastSent \<Rightarrow> time_sub now lastSent < dur_mul (ch_CooldownMinutes ch) minute)"

definition recordCooldown :: "gotime \<Rightarrow> NotificationChannelConfig \<Rightarrow> string \<Rightarrow> Dispatcher \<Rightarrow> Dispatcher" where
  "recordCooldown now ch checkID d =
     (if ch_CooldownMinutes ch \<le> 0 then d
      else d\<lparr>nd_cooldowns := AList.update (channel_cooldown_key ch checkID) now (nd_cooldowns d)\<rparr>)"

definition notified_key :: "string \<Rightarrow> string \<Rightarrow> string" where
  "notified_key incidentID channelID = incidentID @ '':'' @ channelID"

definition alreadyNotified :: "string \<Rightarrow> string \<Rightarrow> Dispatcher \<Rightarrow> bool" where
  "alreadyNotified incidentID channelID d \<longleftrightarrow> notified_key incidentID channelID \<in> set (nd_notified d)"

definition markNotified :: "string \<Rightarrow> string \<Rightarrow> Dispatcher \<Rightarrow> Dispatcher" where
  "markNotified incidentID channelID d =
     d\<lparr>nd_notified := List.insert (notified_key incidentID channelID) (nd_notified d)\<rparr>"

definition ClearIncident :: "string \<Rightarrow> Dispatcher \<Rightarrow> Dispatcher" where
  "ClearIncident incidentID d =
     d\<lparr>nd_notified := filter (\<lambda>key. \<not> has_prefix key (incidentID @ '':'')) (nd_notified d)\<rparr>"

definition CleanupStaleTracking :: "gotime \<Rightarrow> Dispatcher \<Rightarrow> Dispatcher" where
  "CleanupStaleTracking now d =
     (let cutoff = time_add now (- 24 * hour);
          d1 = d\<lparr>nd_cooldowns := filter (\<lambda>(key, lastSent). \<not> before lastSent cutoff) (nd_cooldowns d)\<rparr>
      in if length (nd_notified d1) > 10000 then d1\<lparr>nd_notified := []\<rparr> else d1)"

text \<open>
  \<open>cmd/healthops/main.go\<close> passes the channels of the check and no check result, so that a channel
  with a tag filter is only ever reached through the check; and a result of another server passes the
  server filter when the incident names no server.
\<close>

fun lookupCheckChannelIDs :: "CheckConfig list \<Rightarrow> string \<Rightarrow> string list" where
  "lookupCheckChannelIDs [] checkID = []"
| "lookupCheckChannelIDs (c # checks) checkID =
     (if chk_ID c = checkID then chk_NotificationChannelIDs c else lookupCheckChannelIDs checks checkID)"

lemma tag_filter_needs_a_result: "ch_Tags ch \<noteq> [] \<Longrightarrow> \<not> matchesFilters ch incident None"
  by (simp add: matchesFilters_def)

lemma other_server_passes:
  "ch_Servers ch = [s] \<Longrightarrow> \<not> equal_fold s (res_Server r) \<Longrightarrow> map_of (inc_Metadata incident) ''server'' = None \<Longrightarrow>
   ch_Severities ch = [] \<Longrightarrow> ch_CheckIDs ch = [] \<Longrightarrow> ch_CheckTypes ch = [] \<Longrightarrow> ch_Tags ch = [] \<Longrightarrow>
     matchesFilters ch incident (Some r)"
  by (simp add: matchesFilters_def server_matches_def)

section \<open>Collecting and flushing\<close>

datatype delivery =
    Single NotificationChannelConfig NotificationPayload
  | Digest NotificationChannelConfig "NotificationPayload list"

definition NotifyIncident ::
  "gotime \<Rightarrow> NotificationChannelConfig list \<Rightarrow> PendingNotification \<Rightarrow> Dispatcher \<Rightarrow> Dispatcher" where
  "NotifyIncident now channels pn d =
     (if channels = [] then d
      else d\<lparr>nd_pending := nd_pending d @ [pn], nd_timer := Some (time_add now batchWindow)\<rparr>)"

definition eligible ::
  "gotime \<Rightarrow> Dispatcher \<Rightarrow> PendingNotification \<Rightarrow> NotificationChannelConfig \<Rightarrow> bool" where
  "eligible now d pn ch \<longleftrightarrow>
     ch_Enabled ch \<and>
     (ch_ID ch \<in> set (pn_checkChannelIDs pn) \<or> matchesFilters ch (pn_incident pn) (pn_checkResult pn)) \<and>
     \<not> inCooldown now ch (inc_CheckID (pn_incident pn)) d \<and>
     \<not> alreadyNotified (inc_ID (pn_incident pn)) (ch_ID ch) d"

type_synonym batches = "(string \<times> NotificationChannelConfig \<times> NotificationPayload list) list"

definition add_payload :: "NotificationChannelConfig \<Rightarrow> NotificationPayload \<Rightarrow> batches \<Rightarrow> batches" where
  "add_payload ch payload cbs =
     (case map_of cbs (ch_ID ch) of
        None \<Rightarrow> cbs @ [(ch_ID ch, ch, [payload])]
      | Some (ch', payloads) \<Rightarrow> AList.update (ch_ID ch) (ch', payloads @ [payload]) cbs)"

definition flush_one ::
  "(gotime \<Rightarrow> string) \<Rightarrow> gotime \<Rightarrow> PendingNotification \<times> NotificationChannelConfig \<Rightarrow>
     Dispatcher \<times> batches \<Rightarrow> Dispatcher \<times> batches" where
  "flush_one rfc3339 now p s =
     (let (pn, ch) = p; (d, cbs) = s
      in if \<not> eligible now d pn ch then s
         else (markNotified (inc_ID (pn_incident pn)) (ch_ID ch)
                 (recordCooldown now ch (inc_CheckID (pn_incident pn)) d),
               add_payload ch (buildPayload rfc3339 (pn_incident pn) ''open'') cbs))"

definition dispatch :: "string \<times> NotificationChannelConfig \<times> NotificationPayload list \<Rightarrow> delivery" where
  "dispatch cb =
     (let (_, ch, payloads) = cb
      in if length payloads = 1 then Single ch (payloads ! 0) else Digest ch payloads)"

definition flushBatch ::
  "(gotime \<Rightarrow> string) \<Rightarrow> gotime \<Rightarrow> NotificationChannelConfig list \<Rightarrow> Dispatcher \<Rightarrow>
     Dispatcher \<times> delivery list" where
  "flushBatch rfc3339 now channels d =
     (let batch = nd_pending d;
          d1 = d\<lparr>nd_pending := [], nd_timer := None\<rparr>
      in if batch = [] then (d1, [])
         else if channels = [] then (d1, [])
         else (let (d2, cbs) = fold (flush_one rfc3339 now) (List.product batch channels) (d1, [])
               in (d2, map dispatch cbs)))"

text \<open>\<open>Stop\<close> stops the timer and flushes.\<close>

definition nd_Stop ::
  "(gotime \<Rightarrow> string) \<Rightarrow> gotime \<Rightarrow> NotificationChannelConfig list \<Rightarrow> Dispatcher \<Rightarrow>
     Dispatcher \<times> delivery list" where
  "nd_Stop rfc3339 now channels d = flushBatch rfc3339 now channels (d\<lparr>nd_timer := None\<rparr>)"

definition NotifyResolved ::
  "(gotime \<Rightarrow> string) \<Rightarrow> NotificationChannelConfig list \<Rightarrow> PendingNotification \<Rightarrow> Dispatcher \<Rightarrow>
     Dispatcher \<times> delivery list" where
  "NotifyResolved rfc3339 channels pn d =
     (let incident = pn_incident pn;
          payload = (case inc_ResolvedAt incident of
                       None \<Rightarrow> buildPayload rfc3339 incident ''resolved''
                     | Some t \<Rightarrow> (buildPayload rfc3339 incident ''resolved'')\<lparr>np_ResolvedAt := rfc3339 t\<rparr>)
      in (ClearIncident (inc_ID incident) d,
          map (\<lambda>ch. Single ch payload)
            (filter (\<lambda>ch. ch_Enabled ch \<and> ch_NotifyOnResolve ch \<and>
               (ch_ID ch \<in> set (pn_checkChannelIDs pn) \<or> matchesFilters ch incident (pn_checkResult pn)))
             channels)))"

text \<open>
  Time passes: a timer that is due fires before anything that happens later. A run is a list of
  calls with their times; its result is the last state and everything that has been sent.
\<close>

datatype call =
    Opened PendingNotification
  | Resolved PendingNotification
  | Cleanup

definition advance ::
  "(gotime \<Rightarrow> string) \<Rightarrow> gotime \<Rightarrow> NotificationChannelConfig list \<Rightarrow> Dispatcher \<Rightarrow>
     Dispatcher \<times> delivery list" where
  "advance rfc3339 now channels d =
     (case nd_timer d of
        Some deadline \<Rightarrow> if deadline \<le> now then flushBatch rfc3339 deadline channels d else (d, [])
      | None \<Rightarrow> (d, []))"

fun nd_call ::
  "(gotime \<Rightarrow> string) \<Rightarrow> NotificationChannelConfig list \<Rightarrow> gotime \<times> call \<Rightarrow> Dispatcher \<Rightarrow>
     Dispatcher \<times> delivery list" where
  "nd_call rfc3339 channels (now, Opened pn) d = (NotifyIncident now channels pn d, [])"
| "nd_call rfc3339 channels (now, Resolved pn) d = NotifyResolved rfc3339 channels pn d"
| "nd_call rfc3339 channels (now, Cleanup) d = (CleanupStaleTracking now d, [])"

fun nd_run ::
  "(gotime \<Rightarrow> string) \<Rightarrow> NotificationChannelConfig list \<Rightarrow> (gotime \<times> call) list \<Rightarrow> Dispatcher \<Rightarrow>
     Dispatcher \<times> delivery list" where
  "nd_run rfc3339 channels [] d = (d, [])"
| "nd_run rfc3339 channels (ev # evs) d =
     (let (d1, out1) = advance rfc3339 (fst ev) channels d;
          (d2, out2) = nd_call rfc3339 channels ev d1;
          (d3, out3) = nd_run rfc3339 channels evs d2
      in (d3, out1 @ out2 @ out3))"

section \<open>Lemmas on batches\<close>

definition delivery_channel :: "delivery \<Rightarrow> NotificationChannelConfig" where
  "delivery_channel x = (case x of Single ch _ \<Rightarrow> ch | Digest ch _ \<Rightarrow> ch)"

definition delivery_payloads :: "delivery \<Rightarrow> NotificationPayload list" where
  "delivery_payloads x = (case x of Single _ p \<Rightarrow> [p] | Digest _ ps \<Rightarrow> ps)"

text \<open>The pairs of incident and channel that a delivery announces as open.\<close>

definition announced :: "delivery \<Rightarrow> (string \<times> string) list" where
  "announced x = map (\<lambda>p. (np_IncidentID p, ch_ID (delivery_channel x)))
     (filter (\<lambda>p. np_Status p = ''open'') (delivery_payloads x))"

definition payloads_of :: "batches \<Rightarrow> string \<Rightarrow> NotificationPayload list" where
  "payloads_of cbs c = (case map_of cbs c of None \<Rightarrow> [] | Some (_, ps) \<Rightarrow> ps)"

text \<open>What the loop keeps of its batches: one for a channel, under its id, and none without incidents.\<close>

definition batches_ok :: "NotificationChannelConfig list \<Rightarrow> batches \<Rightarrow> bool" where
  "batches_ok channels cbs \<longleftrightarrow> distinct (map fst cbs) \<and>
     (\<forall>(k, ch, ps) \<in> set cbs. ch \<in> set channels \<and> ch_ID ch = k \<and> ps \<noteq> [] \<and> (\<forall>p \<in> set ps. np_Status p = ''open''))"

lemma alist_update_split:
  "map_of xs k = Some v \<Longrightarrow>
     \<exists>us vs. xs = us @ (k, v) # vs \<and> k \<notin> fst ` set us \<and> AList.update k w xs = us @ (k, w) # vs"
proof (induction xs)
  case (Cons x xs)
  show ?case
  proof (cases "fst x = k")
    case True
    with Cons.prems have "x # xs = [] @ (k, v) # xs \<and> k \<notin> fst ` set [] \<and> AList.update k w (x # xs) = [] @ (k, w) # xs"
      by (cases x) auto
    then show ?thesis by blast
  next
    case False
    with Cons obtain us vs where "xs = us @ (k, v) # vs \<and> k \<notin> fst ` set us \<and> AList.update k w xs = us @ (k, w) # vs"
      by (cases x) auto
    with False have "x # xs = (x # us) @ (k, v) # vs \<and> k \<notin> fst ` set (x # us) \<and>
        AList.update k w (x # xs) = (x # us) @ (k, w) # vs"
      by (cases x) auto
    then show ?thesis by blast
  qed
qed simp

lemma batches_ok_add:
  assumes ok: "batches_ok channels cbs" and "ch \<in> set channels" and "np_Status p = ''open''"
  shows "batches_ok channels (add_payload ch p cbs)"
proof (cases "map_of cbs (ch_ID ch)")
  case None
  then have "ch_ID ch \<notin> fst ` set cbs" by (simp add: map_of_eq_None_iff)
  with assms None show ?thesis by (auto simp: batches_ok_def add_payload_def)
next
  case (Some v)
  obtain ch' ps where v: "v = (ch', ps)" by (cases v)
  from alist_update_split [OF Some, of "(ch', ps @ [p])"] obtain us vs
    where "cbs = us @ (ch_ID ch, v) # vs"
      and "AList.update (ch_ID ch) (ch', ps @ [p]) cbs = us @ (ch_ID ch, ch', ps @ [p]) # vs" by blast
  with assms Some v show ?thesis by (auto simp: batches_ok_def add_payload_def)
qed

lemma payloads_of_add:
  "payloads_of (add_payload ch p cbs) c = payloads_of cbs c @ (if c = ch_ID ch then [p] else [])"
  by (auto simp: payloads_of_def add_payload_def update_conv' map_add_def split: option.splits)

definition open_pairs :: "batches \<Rightarrow> (string \<times> string) list" where
  "open_pairs cbs = concat (map (\<lambda>(k, ch, ps). map (\<lambda>p. (np_IncidentID p, k)) ps) cbs)"

lemma open_pairs_add:
  "mset (open_pairs (add_payload ch p cbs)) = add_mset (np_IncidentID p, ch_ID ch) (mset (open_pairs cbs))"
proof (cases "map_of cbs (ch_ID ch)")
  case None
  then show ?thesis by (simp add: add_payload_def open_pairs_def)
next
  case (Some v)
  obtain ch' ps where v: "v = (ch', ps)" by (cases v)
  from alist_update_split [OF Some, of "(ch', ps @ [p])"] obtain us vs
    where "cbs = us @ (ch_ID ch, v) # vs"
      and "AList.update (ch_ID ch) (ch', ps @ [p]) cbs = us @ (ch_ID ch, ch', ps @ [p]) # vs" by blast
  with Some v show ?thesis by (simp add: add_payload_def open_pairs_def)
qed

lemma announced_dispatch:
  "batches_ok channels cbs \<Longrightarrow> concat (map announced (map dispatch cbs)) = open_pairs cbs"
proof (induction cbs)
  case Nil
  then show ?case by (simp add: open_pairs_def)
next
  case (Cons cb cbs)
  obtain k ch ps where cb: "cb = (k, ch, ps)" by (cases cb)
  from Cons.prems cb have "ch_ID ch = k" and all: "filter (\<lambda>p. np_Status p = ''open'') ps = ps"
    by (auto simp: batches_ok_def filter_id_conv)
  then have "announced (dispatch cb) = map (\<lambda>p. (np_IncidentID p, k)) ps"
    by (cases ps) (auto simp: announced_def dispatch_def cb delivery_channel_def delivery_payloads_def)
  moreover from Cons have "concat (map announced (map dispatch cbs)) = open_pairs cbs"
    by (auto simp: batches_ok_def)
  ultimately show ?case by (simp add: open_pairs_def cb)
qed

lemma flush_one_ok:
  assumes "batches_ok channels cbs" and "snd p \<in> set channels"
  shows "batches_ok channels (snd (flush_one rfc3339 now p (d, cbs)))"
  using assms batches_ok_add [OF assms] by (cases p) (auto simp: flush_one_def buildPayload_def)

lemma flush_fold_ok:
  "batches_ok channels (snd s) \<Longrightarrow> \<forall>p \<in> set ps. snd p \<in> set channels \<Longrightarrow>
     batches_ok channels (snd (fold (flush_one rfc3339 now) ps s))"
proof (induction ps arbitrary: s)
  case (Cons p ps)
  with flush_one_ok [of channels "snd s" p rfc3339 now "fst s"] show ?case by simp
qed simp

lemma batches_ok_Nil: "batches_ok channels []"
  by (simp add: batches_ok_def)

section \<open>Who is told what\<close>

definition independent ::
  "PendingNotification \<times> NotificationChannelConfig \<Rightarrow> PendingNotification \<times> NotificationChannelConfig \<Rightarrow> bool" where
  "independent p q \<longleftrightarrow>
     channel_cooldown_key (snd p) (inc_CheckID (pn_incident (fst p))) \<noteq> channel_cooldown_key (snd q) (inc_CheckID (pn_incident (fst q))) \<and>
     notified_key (inc_ID (pn_incident (fst p))) (ch_ID (snd p)) \<noteq>
       notified_key (inc_ID (pn_incident (fst q))) (ch_ID (snd q))"

lemma eligible_independent:
  assumes "independent p q"
  shows "eligible now (fst (flush_one rfc3339 now p (d, cbs))) (fst q) (snd q) = eligible now d (fst q) (snd q)"
  using assms
  by (cases p; cases q)
     (auto simp: flush_one_def independent_def eligible_def inCooldown_def recordCooldown_def alreadyNotified_def
       markNotified_def update_conv')

lemma flush_fold_payloads:
  "sorted_wrt independent ps \<Longrightarrow>
     payloads_of (snd (fold (flush_one rfc3339 now) ps (d, cbs))) c =
       payloads_of cbs c @ map (\<lambda>(pn, ch). buildPayload rfc3339 (pn_incident pn) ''open'')
         (filter (\<lambda>(pn, ch). ch_ID ch = c \<and> eligible now d pn ch) ps)"
proof (induction ps arbitrary: d cbs)
  case (Cons p ps)
  obtain pn ch where p: "p = (pn, ch)" by (cases p)
  let ?s = "flush_one rfc3339 now p (d, cbs)"
  have "filter (\<lambda>(pn, ch). ch_ID ch = c \<and> eligible now (fst ?s) pn ch) ps =
      filter (\<lambda>(pn, ch). ch_ID ch = c \<and> eligible now d pn ch) ps"
  proof (rule filter_cong [OF refl])
    fix q assume "q \<in> set ps"
    with Cons.prems have "independent p q" by simp
    from eligible_independent [OF this, of now rfc3339 d cbs]
    show "(case q of (pn, ch) \<Rightarrow> ch_ID ch = c \<and> eligible now (fst ?s) pn ch) =
        (case q of (pn, ch) \<Rightarrow> ch_ID ch = c \<and> eligible now d pn ch)"
      by (cases q) simp
  qed
  moreover have "payloads_of (snd ?s) c = payloads_of cbs c @
      (if ch_ID ch = c \<and> eligible now d pn ch then [buildPayload rfc3339 (pn_incident pn) ''open''] else [])"
    by (auto simp: flush_one_def p payloads_of_add)
  ultimately show ?case using Cons.IH [of "fst ?s" "snd ?s"] Cons.prems by (simp add: p)
qed simp

lemma cooldown_key_inj:
  assumes "CHR '':'' \<notin> set (ch_ID a)" and "CHR '':'' \<notin> set (ch_ID b)"
    and eq: "channel_cooldown_key a x = channel_cooldown_key b y"
  shows "ch_ID a = ch_ID b \<and> x = y"
proof -
  have "takeWhile (\<lambda>c. c \<noteq> CHR '':'') (u @ '':'' @ v) = u" if "CHR '':'' \<notin> set u" for u v :: string
    using that by (subst takeWhile_append2) auto
  with assms have "ch_ID a = ch_ID b" unfolding channel_cooldown_key_def by metis
  with eq show ?thesis by (simp add: channel_cooldown_key_def)
qed

lemma notified_key_inj:
  assumes "CHR '':'' \<notin> set c" and "CHR '':'' \<notin> set c'" and eq: "notified_key i c = notified_key i' c'"
  shows "i = i' \<and> c = c'"
proof -
  have tw: "takeWhile (\<lambda>k. k \<noteq> CHR '':'') (rev v @ '':'' @ rev u) = rev v" if "CHR '':'' \<notin> set v" for u v :: string
    using that by (subst takeWhile_append2) auto
  have "rev c @ '':'' @ rev i = rev c' @ '':'' @ rev i'"
    using arg_cong [OF eq, of rev] by (simp add: notified_key_def)
  with assms(1,2) have "rev c = rev c'" using tw by metis
  with eq show ?thesis by (simp add: notified_key_def)
qed

lemma independentI:
  assumes "CHR '':'' \<notin> set (ch_ID a)" and "CHR '':'' \<notin> set (ch_ID b)"
    and "ch_ID a \<noteq> ch_ID b \<or>
      (inc_CheckID (pn_incident p) \<noteq> inc_CheckID (pn_incident q) \<and> inc_ID (pn_incident p) \<noteq> inc_ID (pn_incident q))"
  shows "independent (p, a) (q, b)"
  unfolding independent_def fst_conv snd_conv
  using cooldown_key_inj [OF assms(1,2)] notified_key_inj [OF assms(1,2)] assms(3) by blast

lemma product_independent:
  assumes "distinct (map (inc_ID \<circ> pn_incident) batch)" and "distinct (map (inc_CheckID \<circ> pn_incident) batch)"
    and "distinct (map ch_ID channels)" and plain: "\<forall>ch \<in> set channels. CHR '':'' \<notin> set (ch_ID ch)"
  shows "sorted_wrt independent (List.product batch channels)"
  using assms(1,2)
proof (induction batch)
  case (Cons pn batch)
  have row: "sorted_wrt independent (map (Pair pn) chs)" if "distinct (map ch_ID chs)" and "set chs \<subseteq> set channels" for chs
    using that
  proof (induction chs)
    case (Cons ch chs)
    have "independent (pn, ch) (pn, b)" if "b \<in> set chs" for b
    proof (rule independentI)
      have "ch_ID ch \<noteq> ch_ID b" using Cons.prems(1) that by auto
      then show "ch_ID ch \<noteq> ch_ID b \<or> (inc_CheckID (pn_incident pn) \<noteq> inc_CheckID (pn_incident pn) \<and>
        inc_ID (pn_incident pn) \<noteq> inc_ID (pn_incident pn))" ..
    qed (use plain Cons.prems(2) that in auto)
    with Cons show ?case by auto
  qed simp
  have "independent (pn, ch) (pn', ch')" if "pn' \<in> set batch" "ch \<in> set channels" "ch' \<in> set channels" for ch pn' ch'
  proof (rule independentI)
    have "inc_ID (pn_incident pn) \<noteq> inc_ID (pn_incident pn')"
      and "inc_CheckID (pn_incident pn) \<noteq> inc_CheckID (pn_incident pn')"
      using Cons.prems that(1) by (force simp: comp_def)+
    then show "ch_ID ch \<noteq> ch_ID ch' \<or> (inc_CheckID (pn_incident pn) \<noteq> inc_CheckID (pn_incident pn') \<and>
        inc_ID (pn_incident pn) \<noteq> inc_ID (pn_incident pn'))" by blast
  qed (use plain that in auto)
  moreover have "sorted_wrt independent (List.product batch channels)" using Cons by simp
  ultimately show ?case using row [OF assms(3) subset_refl] by (auto simp: sorted_wrt_append)
qed simp

lemma filter_product:
  assumes "ch \<in> set channels" and "distinct (map ch_ID channels)"
  shows "filter (\<lambda>(pn, ch'). ch_ID ch' = ch_ID ch \<and> P pn ch') (List.product batch channels) =
    map (\<lambda>pn. (pn, ch)) (filter (\<lambda>pn. P pn ch) batch)"
proof -
  have only: "ch_ID x = ch_ID ch \<Longrightarrow> x \<in> set channels \<Longrightarrow> x = ch" for x
    using assms by (auto simp: distinct_map inj_on_def)
  have row: "filter (\<lambda>ch'. ch_ID ch' = ch_ID ch \<and> P pn ch') chs = (if ch \<in> set chs \<and> P pn ch then [ch] else [])"
    if "distinct chs" and "set chs \<subseteq> set channels" for chs pn
    using that
  proof (induction chs)
    case (Cons x chs)
    then have "ch_ID x = ch_ID ch \<Longrightarrow> x = ch" using only by auto
    with Cons show ?case by auto
  qed simp
  have "distinct channels" using assms(2) by (simp add: distinct_map)
  from row [OF this subset_refl] assms(1) show ?thesis
    by (induction batch) (simp_all add: filter_map comp_def)
qed

lemma dispatch_channel: "ch_ID (delivery_channel (dispatch (k, ch, ps))) = ch_ID ch"
  by (simp add: dispatch_def delivery_channel_def)

lemma dispatch_for:
  assumes "batches_ok channels cbs" and "ch \<in> set channels" and "distinct (map ch_ID channels)"
  shows "filter (\<lambda>x. ch_ID (delivery_channel x) = ch_ID ch) (map dispatch cbs) =
    (if payloads_of cbs (ch_ID ch) = [] then [] else [dispatch (ch_ID ch, ch, payloads_of cbs (ch_ID ch))])"
  using assms(1)
proof (induction cbs)
  case Nil
  then show ?case by (simp add: payloads_of_def)
next
  case (Cons cb cbs)
  obtain k ch' ps where cb: "cb = (k, ch', ps)" by (cases cb)
  from Cons.prems cb have ch': "ch' \<in> set channels" "ch_ID ch' = k" "ps \<noteq> []" "k \<notin> fst ` set cbs"
    and rest: "batches_ok channels cbs"
    by (auto simp: batches_ok_def)
  show ?case
  proof (cases "k = ch_ID ch")
    case True
    with ch' assms(2,3) have "ch' = ch" by (auto simp: distinct_map inj_on_def)
    moreover from True ch'(4) have "payloads_of cbs (ch_ID ch) = []"
      by (simp add: payloads_of_def map_of_eq_None_iff [symmetric])
    ultimately show ?thesis using Cons.IH [OF rest] True ch'(3)
      by (simp add: cb dispatch_channel) (simp add: payloads_of_def)
  next
    case False
    with ch'(2) Cons.IH [OF rest] show ?thesis
      by (simp add: cb dispatch_channel) (simp add: payloads_of_def)
  qed
qed

text \<open>
  C32: A flush tells every channel exactly what concerns it: the incidents of the window that pass
  its filters or name it, that are not in its cooldown and have not been announced to it, in the
  order in which they came, as one message when there is one and as one digest when there are more,
  and nothing when there is none. Channels do not influence each other.
\<close>

theorem flush_tells_every_channel:
  assumes "distinct (map (inc_ID \<circ> pn_incident) (nd_pending d))"
    and "distinct (map (inc_CheckID \<circ> pn_incident) (nd_pending d))"
    and ids: "distinct (map ch_ID channels)" and "\<forall>ch \<in> set channels. CHR '':'' \<notin> set (ch_ID ch)"
    and ch: "ch \<in> set channels"
  shows "filter (\<lambda>x. ch_ID (delivery_channel x) = ch_ID ch) (snd (flushBatch rfc3339 now channels d)) =
    (let ps = map (\<lambda>pn. buildPayload rfc3339 (pn_incident pn) ''open'') (filter (\<lambda>pn. eligible now d pn ch) (nd_pending d))
     in if ps = [] then [] else if length ps = 1 then [Single ch (ps ! 0)] else [Digest ch ps])"
proof -
  define d1 where "d1 = d\<lparr>nd_pending := [], nd_timer := None\<rparr>"
  define cbs where "cbs = snd (fold (flush_one rfc3339 now) (List.product (nd_pending d) channels) (d1, []))"
  have same: "eligible now d1 pn ch = eligible now d pn ch" for pn
    by (simp add: eligible_def inCooldown_def alreadyNotified_def d1_def)
  have "payloads_of cbs (ch_ID ch) =
      map (\<lambda>pn. buildPayload rfc3339 (pn_incident pn) ''open'') (filter (\<lambda>pn. eligible now d pn ch) (nd_pending d))"
    unfolding cbs_def flush_fold_payloads [OF product_independent [OF assms(1-4)]]
    by (simp add: filter_product [OF ch ids] same payloads_of_def comp_def)
  moreover have "batches_ok channels cbs" unfolding cbs_def
    by (rule flush_fold_ok) (auto simp: batches_ok_Nil)
  moreover have "snd (flushBatch rfc3339 now channels d) = map dispatch cbs"
    using ch by (auto simp: flushBatch_def cbs_def d1_def Let_def split: prod.splits)
  ultimately show ?thesis
    using dispatch_for [OF _ ch ids, of cbs] by (simp add: Let_def dispatch_def)
qed

section \<open>Nothing is announced twice\<close>

lemma mark_record [simp]:
  "nd_pending (markNotified i c d) = nd_pending d" "nd_timer (markNotified i c d) = nd_timer d"
  "nd_cooldowns (markNotified i c d) = nd_cooldowns d"
  "nd_pending (recordCooldown now ch k d) = nd_pending d" "nd_timer (recordCooldown now ch k d) = nd_timer d"
  "nd_notified (recordCooldown now ch k d) = nd_notified d"
  by (simp_all add: markNotified_def recordCooldown_def)

lemma mark_notified: "set (nd_notified (markNotified i c d)) = insert (notified_key i c) (set (nd_notified d))"
  "length (nd_notified (markNotified i c d)) \<le> Suc (length (nd_notified d))"
  by (auto simp: markNotified_def List.insert_def)

text \<open>
  \<open>n\<close> is the number of announcements of the pair so far: at most one, and then the pair is
  remembered.
\<close>

definition once :: "string \<Rightarrow> string \<Rightarrow> nat \<Rightarrow> Dispatcher \<Rightarrow> bool" where
  "once i c n d \<longleftrightarrow> n = 0 \<or> (n = 1 \<and> notified_key i c \<in> set (nd_notified d))"

lemma flush_one_once:
  assumes "once i c (n + count (mset (open_pairs cbs)) (i, c)) d"
    and "flush_one rfc3339 now p (d, cbs) = (d', cbs')"
  shows "once i c (n + count (mset (open_pairs cbs')) (i, c)) d' \<and>
    length (nd_notified d') \<le> Suc (length (nd_notified d)) \<and> nd_pending d' = nd_pending d"
proof -
  obtain pn ch where p: "p = (pn, ch)" by (cases p)
  show ?thesis
  proof (cases "eligible now d pn ch")
    case False
    with assms show ?thesis by (auto simp: flush_one_def p)
  next
    case True
    let ?i = "inc_ID (pn_incident pn)"
    have new: "notified_key ?i (ch_ID ch) \<notin> set (nd_notified d)"
      using True by (simp add: eligible_def alreadyNotified_def)
    have d': "d' = markNotified ?i (ch_ID ch) (recordCooldown now ch (inc_CheckID (pn_incident pn)) d)"
      and cbs': "cbs' = add_payload ch (buildPayload rfc3339 (pn_incident pn) ''open'') cbs"
      using assms(2) True by (auto simp: flush_one_def p)
    have "count (mset (open_pairs cbs')) (i, c) =
        count (mset (open_pairs cbs)) (i, c) + (if ?i = i \<and> ch_ID ch = c then 1 else 0)"
      by (simp add: cbs' open_pairs_add buildPayload_def)
    moreover have "length (nd_notified d') \<le> Suc (length (nd_notified d))"
      using mark_notified(2) [of ?i "ch_ID ch" "recordCooldown now ch (inc_CheckID (pn_incident pn)) d"] by (simp add: d')
    ultimately show ?thesis using assms(1) new by (auto simp: once_def d' mark_notified(1))
  qed
qed

lemma flush_fold_once:
  "once i c (n + count (mset (open_pairs cbs)) (i, c)) d \<Longrightarrow>
   fold (flush_one rfc3339 now) ps (d, cbs) = (d', cbs') \<Longrightarrow>
     once i c (n + count (mset (open_pairs cbs')) (i, c)) d' \<and>
     length (nd_notified d') \<le> length (nd_notified d) + length ps \<and> nd_pending d' = nd_pending d"
proof (induction ps arbitrary: d cbs)
  case (Cons p ps)
  obtain d1 cbs1 where s: "flush_one rfc3339 now p (d, cbs) = (d1, cbs1)" by fastforce
  from flush_one_once [OF Cons.prems(1) s] Cons.IH [of cbs1 d1] Cons.prems(2) show ?case
    by (simp add: s)
qed simp

abbreviation announcements :: "delivery list \<Rightarrow> string \<times> string \<Rightarrow> nat" where
  "announcements out x \<equiv> count (mset (concat (map announced out))) x"

lemma flush_once:
  assumes "once i c n d" and "flushBatch rfc3339 now channels d = (d', out)"
  shows "once i c (n + announcements out (i, c)) d' \<and> nd_pending d' = [] \<and>
    length (nd_notified d') \<le> length (nd_notified d) + length (nd_pending d) * length channels"
proof (cases "nd_pending d = [] \<or> channels = []")
  case True
  with assms(2) have "out = []" and "d' = d\<lparr>nd_pending := [], nd_timer := None\<rparr>"
    by (auto simp: flushBatch_def Let_def split: if_splits)
  with assms(1) show ?thesis by (simp add: once_def)
next
  case False
  let ?d1 = "d\<lparr>nd_pending := [], nd_timer := None\<rparr>"
  obtain d2 cbs where f: "fold (flush_one rfc3339 now) (List.product (nd_pending d) channels) (?d1, []) = (d2, cbs)"
    by fastforce
  have "batches_ok channels cbs"
    using flush_fold_ok [of channels "(?d1, [])" "List.product (nd_pending d) channels" rfc3339 now]
    by (auto simp: f batches_ok_Nil)
  then have "concat (map announced (map dispatch cbs)) = open_pairs cbs" by (rule announced_dispatch)
  moreover have "once i c (n + count (mset (open_pairs [])) (i, c)) ?d1"
    using assms(1) by (simp add: once_def open_pairs_def)
  ultimately show ?thesis using flush_fold_once [OF _ f, of i c n] assms(2) False
    by (auto simp: flushBatch_def f Let_def)
qed

lemma advance_once:
  assumes "once i c n d" and "advance rfc3339 now channels d = (d', out)"
  shows "once i c (n + announcements out (i, c)) d' \<and>
    length (nd_notified d') + length (nd_pending d') * length channels \<le>
      length (nd_notified d) + length (nd_pending d) * length channels"
proof -
  show ?thesis
  proof (cases "\<exists>deadline. nd_timer d = Some deadline \<and> deadline \<le> now")
    case True
    then obtain deadline where "flushBatch rfc3339 deadline channels d = (d', out)"
      using assms(2) by (auto simp only: advance_def option.simps if_True)
    from flush_once [OF assms(1) this] show ?thesis by simp
  next
    case False
    then have "advance rfc3339 now channels d = (d, [])" by (simp add: advance_def split: option.splits)
    with assms show ?thesis by simp
  qed
qed

lemma resolved_announces_nothing: "announced ` set (snd (NotifyResolved rfc3339 channels pn d)) \<subseteq> {[]}"
  by (auto simp: NotifyResolved_def announced_def delivery_payloads_def buildPayload_def Let_def split: option.splits)

lemma call_once:
  assumes "once i c n d" and "nd_call rfc3339 channels ev d = (d', out)"
    and "snd ev = Resolved pn \<Longrightarrow> \<not> has_prefix (notified_key i c) (inc_ID (pn_incident pn) @ '':'')"
    and "snd ev = Cleanup \<Longrightarrow> length (nd_notified d) \<le> 10000"
    and pn: "case snd ev of Resolved pn' \<Rightarrow> pn' = pn | _ \<Rightarrow> True"
  shows "once i c (n + announcements out (i, c)) d' \<and>
    length (nd_notified d') + length (nd_pending d') * length channels \<le>
      length (nd_notified d) + Suc (length (nd_pending d)) * length channels"
proof (cases "snd ev")
  case (Opened p)
  then obtain t where "ev = (t, Opened p)" by (cases ev) auto
  with assms(1,2) show ?thesis by (auto simp: NotifyIncident_def once_def)
next
  case (Resolved p)
  then obtain t where ev: "ev = (t, Resolved pn)" using pn by (cases ev) auto
  with assms(2) have out: "out = snd (NotifyResolved rfc3339 channels pn d)" and d': "d' = ClearIncident (inc_ID (pn_incident pn)) d"
    by (auto simp: NotifyResolved_def Let_def)
  have "concat (map announced out) = []" using resolved_announces_nothing [of rfc3339 channels pn d] out by auto
  then have none: "announcements out (i, c) = 0" by (simp only: mset.simps count_empty)
  have "once i c n d'" using assms(1,3) ev by (auto simp: once_def d' ClearIncident_def)
  then have "once i c (n + announcements out (i, c)) d'" unfolding none add_0_right .
  moreover have "length (nd_notified d') \<le> length (nd_notified d)" "nd_pending d' = nd_pending d"
    by (simp_all add: d' ClearIncident_def)
  ultimately show ?thesis by simp
next
  case Cleanup
  then obtain t where "ev = (t, Cleanup)" by (cases ev) auto
  with assms(2,4) Cleanup have "out = []" and "nd_notified d' = nd_notified d" and "nd_pending d' = nd_pending d"
    by (auto simp: CleanupStaleTracking_def Let_def split: if_splits)
  with assms(1) show ?thesis by (simp add: once_def)
qed

lemma run_once:
  assumes "once i c n d"
    and "length (nd_notified d) + (length (nd_pending d) + length evs) * length channels \<le> 10000"
    and "\<forall>(t, ev) \<in> set evs. \<forall>pn. ev = Resolved pn \<longrightarrow> \<not> has_prefix (notified_key i c) (inc_ID (pn_incident pn) @ '':'')"
  shows "n + announcements (snd (nd_run rfc3339 channels evs d)) (i, c) \<le> 1"
  using assms
proof (induction evs arbitrary: d n)
  case Nil
  then show ?case by (auto simp: once_def)
next
  case (Cons ev evs)
  obtain d1 out1 where a: "advance rfc3339 (fst ev) channels d = (d1, out1)" by fastforce
  obtain d2 out2 where b: "nd_call rfc3339 channels ev d1 = (d2, out2)" by fastforce
  note A = advance_once [OF Cons.prems(1) a]
  define pn where "pn = (case snd ev of Resolved p \<Rightarrow> p | _ \<Rightarrow> undefined)"
  from Cons.prems(3) have clear: "snd ev = Resolved pn \<Longrightarrow> \<not> has_prefix (notified_key i c) (inc_ID (pn_incident pn) @ '':'')"
    by (cases ev) auto
  have room: "snd ev = Cleanup \<Longrightarrow> length (nd_notified d1) \<le> 10000"
    using A Cons.prems(2) by (simp add: add_mult_distrib)
  have "case snd ev of Resolved pn' \<Rightarrow> pn' = pn | _ \<Rightarrow> True" by (simp add: pn_def split: call.splits)
  from call_once [OF conjunct1 [OF A] b clear room this]
  have B: "once i c (n + announcements out1 (i, c) + announcements out2 (i, c)) d2"
    "length (nd_notified d2) + length (nd_pending d2) * length channels \<le>
      length (nd_notified d1) + Suc (length (nd_pending d1)) * length channels" by auto
  have "length (nd_notified d2) + (length (nd_pending d2) + length evs) * length channels \<le> 10000"
    using A B(2) Cons.prems(2) by (simp add: add_mult_distrib)
  moreover obtain d3 out3 where r: "nd_run rfc3339 channels evs d2 = (d3, out3)" by fastforce
  ultimately have "n + announcements out1 (i, c) + announcements out2 (i, c) + announcements out3 (i, c) \<le> 1"
    using Cons.IH [OF B(1)] Cons.prems(3) by simp
  then show ?case by (simp add: a b r add.assoc)
qed


section \<open>The window of silence\<close>

lemma opened_run:
  assumes "channels \<noteq> []" and "nd_timer d = Some deadline"
    and "\<forall>k < length arrivals. fst (arrivals ! k) < (if k = 0 then deadline else fst (arrivals ! (k - 1)) + batchWindow)"
  shows "nd_run rfc3339 channels (map (\<lambda>(t, pn). (t, Opened pn)) arrivals) d =
    (d\<lparr>nd_pending := nd_pending d @ map snd arrivals,
       nd_timer := Some (if arrivals = [] then deadline else fst (last arrivals) + batchWindow)\<rparr>, [])"
  using assms(2,3)
proof (induction arrivals arbitrary: d deadline)
  case Nil
  then show ?case by simp
next
  case (Cons a arrivals)
  obtain t pn where a: "a = (t, pn)" by (cases a)
  let ?d = "NotifyIncident t channels pn d"
  from Cons.prems(2) have "t < deadline" by (force simp: a)
  then have adv: "advance rfc3339 t channels d = (d, [])" using Cons.prems(1) by (simp add: advance_def)
  have d: "?d = d\<lparr>nd_pending := nd_pending d @ [pn], nd_timer := Some (t + batchWindow)\<rparr>"
    using assms(1) by (simp add: NotifyIncident_def time_add_def)
  have "\<forall>k < length arrivals. fst (arrivals ! k) < (if k = 0 then t + batchWindow else fst (arrivals ! (k - 1)) + batchWindow)"
  proof (intro allI impI)
    fix k assume "k < length arrivals"
    then show "fst (arrivals ! k) < (if k = 0 then t + batchWindow else fst (arrivals ! (k - 1)) + batchWindow)"
      using Cons.prems(2) [rule_format, of "Suc k"] by (cases k) (auto simp: a)
  qed
  from Cons.IH [OF _ this] d have "nd_run rfc3339 channels (map (\<lambda>(t, pn). (t, Opened pn)) arrivals) ?d =
      (?d\<lparr>nd_pending := nd_pending ?d @ map snd arrivals,
         nd_timer := Some (if arrivals = [] then t + batchWindow else fst (last arrivals) + batchWindow)\<rparr>, [])"
    by simp
  then show ?case by (simp add: a adv d)
qed

text \<open>
  The window is one of silence, not of time: as long as a new incident arrives within five
  seconds of the one before, nothing at all is sent, however many incidents there are and however
  long it takes; five seconds after the last one the timer fires and nothing is left waiting.
\<close>

theorem burst_holds_everything_back:
  assumes "channels \<noteq> []" and "nd_timer d = None" and "arrivals \<noteq> []"
    and "\<forall>k. Suc k < length arrivals \<longrightarrow> fst (arrivals ! Suc k) < fst (arrivals ! k) + batchWindow"
    and "nd_run rfc3339 channels (map (\<lambda>(t, pn). (t, Opened pn)) arrivals) d = (d', out)"
  shows "out = [] \<and> nd_pending d' = nd_pending d @ map snd arrivals \<and>
    (let late = fst (last arrivals) + batchWindow
     in advance rfc3339 late channels d' = flushBatch rfc3339 late channels d' \<and>
        nd_pending (fst (advance rfc3339 late channels d')) = [])"
proof -
  obtain t pn rest where a: "arrivals = (t, pn) # rest" using assms(3) by (cases arrivals) auto
  let ?d = "NotifyIncident t channels pn d"
  have adv: "advance rfc3339 t channels d = (d, [])" using assms(2) by (simp add: advance_def)
  have d: "?d = d\<lparr>nd_pending := nd_pending d @ [pn], nd_timer := Some (t + batchWindow)\<rparr>"
    using assms(1) by (simp add: NotifyIncident_def time_add_def)
  have "\<forall>k < length rest. fst (rest ! k) < (if k = 0 then t + batchWindow else fst (rest ! (k - 1)) + batchWindow)"
  proof (intro allI impI)
    fix k assume "k < length rest"
    then show "fst (rest ! k) < (if k = 0 then t + batchWindow else fst (rest ! (k - 1)) + batchWindow)"
      using assms(4) [rule_format, of k] by (cases k) (auto simp: a)
  qed
  from opened_run [OF assms(1) _ this, of ?d rfc3339] d
  have "nd_run rfc3339 channels (map (\<lambda>(t, pn). (t, Opened pn)) rest) ?d =
      (?d\<lparr>nd_pending := nd_pending ?d @ map snd rest,
         nd_timer := Some (fst (last arrivals) + batchWindow)\<rparr>, [])"
    by (simp add: a)
  with assms(5) have out: "out = []" and d': "d' = d\<lparr>nd_pending := nd_pending d @ map snd arrivals,
      nd_timer := Some (fst (last arrivals) + batchWindow)\<rparr>"
    by (auto simp: a adv d)
  have "nd_pending (fst (flushBatch rfc3339 late channels e)) = []" for late e
    using flush_once [of i c 0 e rfc3339 late channels "fst (flushBatch rfc3339 late channels e)"
        "snd (flushBatch rfc3339 late channels e)"] by (simp add: once_def)
  then show ?thesis by (simp add: out d' advance_def Let_def)
qed

section \<open>An incident that is resolved within the window\<close>

text \<open>
  Resolving an incident sends its resolution at once and leaves its opening in the window: what
  is sent first is that the incident is resolved, what is sent last is that it is open, and after
  that the pair is remembered as announced. This holds for every channel that wants resolutions and
  is not in a cooldown.
\<close>

theorem resolution_overtakes_opening:
  assumes fresh: "nd_pending d = []" "nd_timer d = None" "nd_notified d = []" "nd_cooldowns d = []"
    and ch: "ch_Enabled ch" "ch_NotifyOnResolve ch" "ch_ID ch \<in> set (pn_checkChannelIDs pn)"
    and t: "t \<le> u" "u < t + batchWindow"
    and run: "nd_run rfc3339 [ch] [(t, Opened pn), (u, Resolved pn), (t + batchWindow, Cleanup)] d = (d', out)"
  shows "map (\<lambda>x. map np_Status (delivery_payloads x)) out = [[''resolved''], [''open'']] \<and>
    alreadyNotified (inc_ID (pn_incident pn)) (ch_ID ch) d'"
proof -
  let ?i = "inc_ID (pn_incident pn)"
  let ?d1 = "d\<lparr>nd_pending := [pn], nd_timer := Some (t + batchWindow)\<rparr>"
  have a1: "advance rfc3339 t [ch] d = (d, [])" using fresh(2) by (simp add: advance_def)
  have n1: "NotifyIncident t [ch] pn d = ?d1" using fresh(1) by (simp add: NotifyIncident_def time_add_def)
  have a2: "advance rfc3339 u [ch] ?d1 = (?d1, [])" using t(2) by (simp add: advance_def)
  obtain p where res: "NotifyResolved rfc3339 [ch] pn ?d1 = (?d1, [Single ch p])" and p: "np_Status p = ''resolved''"
    using ch fresh(3) by (auto simp: NotifyResolved_def ClearIncident_def buildPayload_def Let_def split: option.splits)
  have el: "eligible (t + batchWindow) (?d1\<lparr>nd_pending := [], nd_timer := None\<rparr>) pn ch"
    using ch fresh by (simp add: eligible_def inCooldown_def alreadyNotified_def)
  let ?d2 = "markNotified ?i (ch_ID ch) (recordCooldown (t + batchWindow) ch (inc_CheckID (pn_incident pn))
      (?d1\<lparr>nd_pending := [], nd_timer := None\<rparr>))"
  have a3: "advance rfc3339 (t + batchWindow) [ch] ?d1 = (?d2, [Single ch (buildPayload rfc3339 (pn_incident pn) ''open'')])"
    using el by (simp add: advance_def flushBatch_def flush_one_def add_payload_def dispatch_def Let_def)
  have "nd_notified ?d2 = [notified_key ?i (ch_ID ch)]"
    using fresh(3) by (simp add: markNotified_def recordCooldown_def)
  then have "nd_notified (CleanupStaleTracking (t + batchWindow) ?d2) = [notified_key ?i (ch_ID ch)]"
    by (simp add: CleanupStaleTracking_def Let_def)
  moreover from run have "d' = CleanupStaleTracking (t + batchWindow) ?d2"
    and "out = [Single ch p, Single ch (buildPayload rfc3339 (pn_incident pn) ''open'')]"
    by (simp_all add: a1 n1 a2 res a3)
  ultimately show ?thesis using p by (simp add: alreadyNotified_def delivery_payloads_def buildPayload_def)
qed

section \<open>Sending and recording\<close>

record DeliveryTrace =
  tr_RequestURL :: string
  tr_RequestBody :: string
  tr_ResponseStatus :: int
  tr_ResponseBody :: string

definition no_trace :: DeliveryTrace where
  "no_trace = \<lparr>tr_RequestURL = [], tr_RequestBody = [], tr_ResponseStatus = 0, tr_ResponseBody = []\<rparr>"

datatype post_end = PostBadRequest string | PostFailed string | PostResponse int string

definition postRaw :: "post_end \<Rightarrow> string \<Rightarrow> int \<times> string \<times> string option" where
  "postRaw e url =
     (case e of
        PostBadRequest err \<Rightarrow> (0, [], Some (''create request: '' @ err))
      | PostFailed err \<Rightarrow> (0, [], Some (''send request: '' @ err))
      | PostResponse status body \<Rightarrow>
          (status, take 4096 body,
           if 300 \<le> status then Some (''unexpected status '' @ itoa status @ '' from '' @ url) else None))"

definition smtpEndpoint :: "NotificationChannelConfig \<Rightarrow> string" where
  "smtpEndpoint ch =
     (let port = (if ch_SMTPPort ch = 0 then 25 else ch_SMTPPort ch);
          host = trim_space (ch_SMTPHost ch)
      in ''smtp://'' @ (if host = [] then ''unknown'' else host) @ '':'' @ itoa port)"

definition target_url :: "NotificationChannelConfig \<Rightarrow> string" where
  "target_url ch =
     (if ch_Type ch = ''telegram'' then ''https://api.telegram.org/bot'' @ ch_BotToken ch @ ''/sendMessage''
      else if ch_Type ch = ''pagerduty'' then ''https://events.pagerduty.com/v2/enqueue''
      else ch_WebhookURL ch)"

text \<open>
  The network of one delivery: how the text is rendered (or why not), how the POST ended, and the
  error of \<open>smtp.SendMail\<close>.
\<close>

record Network =
  net_render :: "NotificationChannelConfig \<Rightarrow> NotificationPayload list \<Rightarrow> string + string"
  net_post :: post_end
  net_smtp :: "string option"

definition send_http ::
  "UrlOps \<Rightarrow> Network \<Rightarrow> NotificationChannelConfig \<Rightarrow> NotificationPayload list \<Rightarrow> DeliveryTrace \<times> string option" where
  "send_http U net ch payloads =
     (case net_render net ch payloads of
        Inl err \<Rightarrow> (no_trace, Some err)
      | Inr body \<Rightarrow>
          (let (status, responseBody, err) = postRaw (net_post net) (target_url ch)
           in (\<lparr>tr_RequestURL = sanitizeRequestURL U (target_url ch), tr_RequestBody = body,
                tr_ResponseStatus = status, tr_ResponseBody = responseBody\<rparr>, err)))"

definition send_email ::
  "Network \<Rightarrow> NotificationChannelConfig \<Rightarrow> NotificationPayload list \<Rightarrow> DeliveryTrace \<times> string option" where
  "send_email net ch payloads =
     (\<lparr>tr_RequestURL = smtpEndpoint ch,
       tr_RequestBody = (case net_render net ch payloads of Inl _ \<Rightarrow> [] | Inr msg \<Rightarrow> msg),
       tr_ResponseStatus = 0, tr_ResponseBody = []\<rparr>, net_smtp net)"

definition send_by_type ::
  "UrlOps \<Rightarrow> Network \<Rightarrow> NotificationChannelConfig \<Rightarrow> NotificationPayload list \<Rightarrow> DeliveryTrace \<times> string option" where
  "send_by_type U net ch payloads =
     (if ch_Type ch \<in> set [''slack'', ''discord'', ''webhook'', ''telegram'', ''pagerduty'']
      then send_http U net ch payloads
      else if ch_Type ch = ''email'' then send_email net ch payloads
      else (no_trace, Some (''unsupported channel type: '' @ ch_Type ch)))"

definition or_json :: "string \<Rightarrow> string \<Rightarrow> string" where
  "or_json body fallback = (if body = [] then fallback else body)"

definition event_id :: "gotime \<Rightarrow> string \<Rightarrow> string" where
  "event_id now incidentID = ''notif-'' @ incidentID @ ''-'' @ itoa (unix_nano now)"

definition delivery_event ::
  "gotime \<Rightarrow> (NotificationPayload list \<Rightarrow> string) \<Rightarrow> NotificationChannelConfig \<Rightarrow> NotificationPayload \<Rightarrow>
     string \<Rightarrow> DeliveryTrace \<times> string option \<Rightarrow> NotificationEvent" where
  "delivery_event now json ch payload incidentID sent =
     \<lparr>ev_NotificationID = event_id now incidentID,
      ev_IncidentID = incidentID, ev_Channel = ch_Type ch @ '':'' @ ch_Name ch,
      ev_PayloadJSON = or_json (tr_RequestBody (fst sent)) (json [payload]), ev_Status = [],
      ev_RetryCount = 0, ev_LastError = (case snd sent of None \<Rightarrow> [] | Some err \<Rightarrow> err),
      ev_CreatedAt = zero_time, ev_SentAt = None, ev_RequestURL = tr_RequestURL (fst sent),
      ev_ResponseStatus = tr_ResponseStatus (fst sent), ev_ResponseBody = tr_ResponseBody (fst sent)\<rparr>"

definition sendToChannel ::
  "UrlOps \<Rightarrow> Network \<Rightarrow> (NotificationPayload list \<Rightarrow> string) \<Rightarrow> gotime \<Rightarrow> string option \<Rightarrow> string option \<Rightarrow>
     NotificationChannelConfig \<Rightarrow> NotificationPayload \<Rightarrow> string \<Rightarrow> Outbox \<Rightarrow> Outbox" where
  "sendToChannel U net json now werr1 werr2 ch payload incidentID o1 =
     (let sent = send_by_type U net ch [payload];
          evt = delivery_event now json ch payload incidentID sent
      in case ob_Enqueue now werr1 evt o1 of
           (o2, Some _) \<Rightarrow> o2
         | (o2, None) \<Rightarrow>
             (case snd sent of
                None \<Rightarrow> fst (ob_MarkSent now werr2 (ev_NotificationID evt) o2)
              | Some err \<Rightarrow> fst (ob_MarkFailed werr2 (ev_NotificationID evt) err o2)))"

definition digest_event ::
  "gotime \<Rightarrow> (NotificationPayload list \<Rightarrow> string) \<Rightarrow> NotificationChannelConfig \<Rightarrow> NotificationPayload list \<Rightarrow>
     DeliveryTrace \<times> string option \<Rightarrow> NotificationEvent" where
  "digest_event now json ch payloads sent =
     \<lparr>ev_NotificationID = ''notif-digest-'' @ itoa (unix_nano now),
      ev_IncidentID = join '','' (map np_IncidentID payloads), ev_Channel = ch_Type ch @ '':'' @ ch_Name ch,
      ev_PayloadJSON = or_json (tr_RequestBody (fst sent)) (json payloads),
      ev_Status = (case snd sent of None \<Rightarrow> ''sent'' | Some _ \<Rightarrow> ''failed''), ev_RetryCount = 0,
      ev_LastError = (case snd sent of None \<Rightarrow> [] | Some err \<Rightarrow> err), ev_CreatedAt = now,
      ev_SentAt = (case snd sent of None \<Rightarrow> Some now | Some _ \<Rightarrow> None),
      ev_RequestURL = tr_RequestURL (fst sent), ev_ResponseStatus = tr_ResponseStatus (fst sent),
      ev_ResponseBody = tr_ResponseBody (fst sent)\<rparr>"

text \<open>PagerDuty gets one event for every incident instead of a digest, and these are not recorded.\<close>

definition sendDigest ::
  "UrlOps \<Rightarrow> Network \<Rightarrow> (NotificationPayload list \<Rightarrow> string) \<Rightarrow> gotime \<Rightarrow> string option \<Rightarrow>
     NotificationChannelConfig \<Rightarrow> NotificationPayload list \<Rightarrow> Outbox \<Rightarrow> Outbox" where
  "sendDigest U net json now werr ch payloads o1 =
     (if ch_Type ch = ''pagerduty'' then o1
      else fst (ob_Enqueue now werr (digest_event now json ch payloads (send_by_type U net ch payloads)) o1))"

lemma find_last: "i \<notin> ev_NotificationID ` set xs \<Longrightarrow> ev_NotificationID e = i \<Longrightarrow>
    find (\<lambda>e. ev_NotificationID e = i) (xs @ [e]) = Some e \<and>
    replace_first (\<lambda>e. ev_NotificationID e = i) f (xs @ [e]) = xs @ [f e]"
  by (induction xs) auto

lemma filled_delivery:
  "ev_NotificationID (fill_event now (delivery_event now json ch p i sent)) = event_id now i"
  "ev_Status (fill_event now (delivery_event now json ch p i sent)) = ''pending''"
  "ev_IncidentID (fill_event now (delivery_event now json ch p i sent)) = i"
  "ev_LastError (fill_event now (delivery_event now json ch p i sent)) = (case snd sent of None \<Rightarrow> [] | Some err \<Rightarrow> err)"
  "ev_RequestURL (fill_event now (delivery_event now json ch p i sent)) = tr_RequestURL (fst sent)"
  by (simp_all add: fill_event_def delivery_event_def event_id_def Let_def)

lemma contains_suffix: "str_contains (a @ b) b"
  unfolding str_contains_iff by (rule exI [of _ a], rule exI [of _ "[]"]) simp

lemma sent_event:
  assumes "event_id now i \<notin> ev_NotificationID ` set (ob_data o1)"
  shows "\<exists>evt. ob_data (sendToChannel U net json now None None ch p i o1) = ob_data o1 @ [evt] \<and>
    ev_IncidentID evt = i \<and> ev_RequestURL evt = tr_RequestURL (fst (send_by_type U net ch [p])) \<and>
    (case snd (send_by_type U net ch [p]) of
       None \<Rightarrow> ev_Status evt = ''sent'' \<and> ev_SentAt evt = Some now \<and> ev_LastError evt = []
     | Some err \<Rightarrow> ev_Status evt = ''failed'' \<and> ev_LastError evt = err \<and> ev_RetryCount evt = 1)"
proof -
  let ?sent = "send_by_type U net ch [p]"
  let ?e = "fill_event now (delivery_event now json ch p i ?sent)"
  let ?o2 = "o1\<lparr>ob_data := ob_data o1 @ [?e], ob_disk := jsonl_append None ?e (ob_disk o1)\<rparr>"
  have enq: "ob_Enqueue now None (delivery_event now json ch p i ?sent) o1 = (?o2, None)"
    by (simp add: ob_Enqueue_def Let_def)
  have i': "ev_NotificationID (delivery_event now json ch p i ?sent) = event_id now i"
    by (simp add: delivery_event_def)
  have retry: "ev_RetryCount ?e = 0" by (simp add: fill_event_def delivery_event_def Let_def)
  note at = find_last [OF assms filled_delivery(1) [of now json ch p i ?sent]]
  show ?thesis
  proof (cases "snd ?sent")
    case None
    have "ob_data (sendToChannel U net json now None None ch p i o1) = ob_data o1 @ [?e\<lparr>ev_Status := ''sent'', ev_SentAt := Some now\<rparr>]"
      unfolding sendToChannel_def Let_def enq prod.case option.case None i'
      by (simp add: ob_MarkSent_def at filled_delivery Let_def)
    with None show ?thesis by (simp add: filled_delivery)
  next
    case (Some err)
    have "ob_data (sendToChannel U net json now None None ch p i o1) =
        ob_data o1 @ [?e\<lparr>ev_Status := ''failed'', ev_LastError := err, ev_RetryCount := ev_RetryCount ?e + 1\<rparr>]"
      unfolding sendToChannel_def Let_def enq prod.case option.case Some i'
      by (simp add: ob_MarkFailed_def at Let_def)
    with Some retry show ?thesis by (simp add: filled_delivery)
  qed
qed

text \<open>
  Every message is recorded with its fate: after sending to a channel the outbox has one more
  event, which is not left pending but sent or failed with the error, and a digest is recorded as one
  event with its final status; only the events that PagerDuty gets instead of a digest are not.
\<close>

theorem every_message_is_recorded:
  assumes "event_id now i \<notin> ev_NotificationID ` set (ob_data o1)"
    and "ch_Type ch \<noteq> ''pagerduty''" and "0 < now"
  shows "(\<exists>evt. ob_data (sendToChannel U net json now None None ch p i o1) = ob_data o1 @ [evt] \<and> ev_IncidentID evt = i \<and>
      (case snd (send_by_type U net ch [p]) of
         None \<Rightarrow> ev_Status evt = ''sent'' \<and> ev_SentAt evt = Some now \<and> ev_LastError evt = []
       | Some err \<Rightarrow> ev_Status evt = ''failed'' \<and> ev_LastError evt = err \<and> ev_RetryCount evt = 1)) \<and>
    ob_data (sendDigest U net json now None ch ps o1) =
      ob_data o1 @ [digest_event now json ch ps (send_by_type U net ch ps)]"
proof
  show "\<exists>evt. ob_data (sendToChannel U net json now None None ch p i o1) = ob_data o1 @ [evt] \<and> ev_IncidentID evt = i \<and>
      (case snd (send_by_type U net ch [p]) of
         None \<Rightarrow> ev_Status evt = ''sent'' \<and> ev_SentAt evt = Some now \<and> ev_LastError evt = []
       | Some err \<Rightarrow> ev_Status evt = ''failed'' \<and> ev_LastError evt = err \<and> ev_RetryCount evt = 1)"
    using sent_event [OF assms(1), of U net json ch p] by blast
  have "fill_event now (digest_event now json ch ps sent) = digest_event now json ch ps sent" for sent
    using assms(3) by (simp add: fill_event_def digest_event_def go_time Let_def split: option.splits)
  then show "ob_data (sendDigest U net json now None ch ps o1) =
      ob_data o1 @ [digest_event now json ch ps (send_by_type U net ch ps)]"
    using assms(2) by (simp add: sendDigest_def ob_Enqueue_def Let_def)
qed

text \<open>
  The secret in the address of a channel is kept out of the recorded request URL but not out of
  the recorded error: when the other side answers with a status of 300 or more, the error names the
  full address, with the bot token or the path of the webhook, and is stored with the event.
\<close>

theorem recorded_error_has_the_secret_url:
  assumes "event_id now i \<notin> ev_NotificationID ` set (ob_data o1)"
    and "ch_Type ch \<in> {''slack'', ''discord'', ''webhook'', ''telegram''}" and "net_render net ch [p] = Inr body"
    and "net_post net = PostResponse status answer" and "300 \<le> status"
  shows "\<exists>evt. ob_data (sendToChannel U net json now None None ch p i o1) = ob_data o1 @ [evt] \<and>
    ev_RequestURL evt = sanitizeRequestURL U (target_url ch) \<and> str_contains (ev_LastError evt) (target_url ch)"
proof -
  obtain err where "send_by_type U net ch [p] = (\<lparr>tr_RequestURL = sanitizeRequestURL U (target_url ch), tr_RequestBody = body,
        tr_ResponseStatus = status, tr_ResponseBody = take 4096 answer\<rparr>, Some err)"
      and err: "err = (''unexpected status '' @ itoa status @ '' from '') @ target_url ch"
    using assms(2-5) by (auto simp: send_by_type_def send_http_def postRaw_def)
  moreover have "str_contains err (target_url ch)" unfolding err by (rule contains_suffix)
  moreover note calculation(1)
  ultimately have "tr_RequestURL (fst (send_by_type U net ch [p])) = sanitizeRequestURL U (target_url ch)"
      and "snd (send_by_type U net ch [p]) = Some err" and "str_contains err (target_url ch)" by simp_all
  with sent_event [OF assms(1), of U net json ch p] show ?thesis by auto
qed

section \<open>Text\<close>

definition slackSeverityEmoji :: "string \<Rightarrow> string \<Rightarrow> string" where
  "slackSeverityEmoji severity status =
     (if status = ''resolved'' then '':white_check_mark:''
      else if severity = ''critical'' then '':red_circle:''
      else if severity = ''warning'' then '':large_yellow_circle:''
      else '':large_blue_circle:'')"

definition mapPDSeverity :: "string \<Rightarrow> string" where
  "mapPDSeverity severity =
     (if severity = ''critical'' then ''critical'' else if severity = ''warning'' then ''warning'' else ''info'')"

fun digest_counts :: "NotificationPayload list \<Rightarrow> int \<times> int \<times> int \<Rightarrow> int \<times> int \<times> int" where
  "digest_counts [] n = n"
| "digest_counts (p # ps) (critical, warning, other) =
     digest_counts ps
       (if np_Severity p = ''critical'' then (critical + 1, warning, other)
        else if np_Severity p = ''warning'' then (critical, warning + 1, other)
        else (critical, warning, other + 1))"

definition digestSummary :: "NotificationPayload list \<Rightarrow> int \<times> int \<times> int \<times> string" where
  "digestSummary payloads =
     (let (critical, warning, other) = digest_counts payloads (0, 0, 0)
      in (critical, warning, other,
          if critical > 0 then ''critical'' else if warning > 0 then ''warning'' else ''info''))"

definition markdown_special :: "char \<Rightarrow> bool" where
  "markdown_special c \<longleftrightarrow> c \<in> set ''_*[]()~`>#+-=|{}.!''"

definition escapeMarkdown :: "string \<Rightarrow> string" where
  "escapeMarkdown s = concat (map (\<lambda>c. if markdown_special c then [CHR 0x5C, c] else [c]) s)"

definition newline :: string where "newline = [CHR 0x0A]"

definition buildPlainTextFallback :: "NotificationPayload \<Rightarrow> string" where
  "buildPlainTextFallback p =
     join newline
       ([''Incident: '' @ np_IncidentID p, ''Check: '' @ np_CheckName p @ '' ('' @ np_CheckType p @ '')'',
         ''Severity: '' @ to_upper (np_Severity p)] @
        (if np_Server p \<noteq> [] then [''Server: '' @ np_Server p] else []) @
        [''Status: '' @ to_upper (np_Status p), ''Started: '' @ np_StartedAt p, [], np_Message p] @
        (if np_ResolvedAt p \<noteq> [] then [newline @ ''Resolved: '' @ np_ResolvedAt p] else []))"

definition digest_entry :: "nat \<Rightarrow> NotificationPayload \<Rightarrow> string list" where
  "digest_entry i p =
     [itoa (int i + 1) @ ''. '' @ np_CheckName p @ '' ['' @ to_upper (np_Severity p) @ '']'', ''   '' @ np_Message p] @
     (if np_Server p \<noteq> [] then [''   Server: '' @ np_Server p] else []) @
     [''   Started: '' @ np_StartedAt p, []]"

definition buildDigestPlainText :: "NotificationPayload list \<Rightarrow> string" where
  "buildDigestPlainText payloads =
     join newline
       ([''HealthOps Alert '' @ [CHR 0xE2, CHR 0x80, CHR 0x94] @ '' '' @ itoa (int (length payloads)) @ '' checks failing'',
         replicate 50 (CHR ''=''), []] @
        concat (map (\<lambda>(i, p). digest_entry i p) (List.enumerate 0 payloads)))"

text \<open>A digest counts every incident once, and its highest severity is that of some incident.\<close>

lemma digest_counts_sum:
  "digest_counts ps (a, b, c) = (x, y, z) \<Longrightarrow> x + y + z = a + b + c + int (length ps) \<and>
     x = a + int (length (filter (\<lambda>p. np_Severity p = ''critical'') ps)) \<and>
     y = b + int (length (filter (\<lambda>p. np_Severity p = ''warning'') ps))"
proof (induction ps arbitrary: a b c)
  case (Cons p ps)
  show ?case
    using Cons.prems Cons.IH [of "a + 1" b c] Cons.IH [of a "b + 1" c] Cons.IH [of a b "c + 1"]
    by (auto split: if_splits)
qed simp

text \<open>
  Reading a text in which a backslash takes away the special meaning of the character after it;
  \<open>None\<close> when a special character is left that begins or ends a markup.
\<close>

fun read_markdown :: "string \<Rightarrow> string option" where
  "read_markdown [] = Some []"
| "read_markdown [c] = (if markdown_special c \<or> c = CHR 0x5C then None else Some [c])"
| "read_markdown (c # d # s) =
     (if c = CHR 0x5C then map_option ((#) d) (read_markdown s)
      else if markdown_special c then None
      else map_option ((#) c) (read_markdown (d # s)))"

lemma read_plain: "\<not> markdown_special c \<Longrightarrow> c \<noteq> CHR 0x5C \<Longrightarrow> read_markdown (c # s) = map_option ((#) c) (read_markdown s)"
  by (cases s) auto

text \<open>
  A text without backslashes that has been escaped for Telegram is read back as it was: nothing
  in the name or the message of a check can begin a markup.
\<close>

theorem markdown_round_trip:
  assumes "CHR 0x5C \<notin> set s"
  shows "read_markdown (escapeMarkdown s) = Some s"
  using assms
proof (induction s)
  case (Cons c s)
  then have IH: "read_markdown (escapeMarkdown s) = Some s" and "c \<noteq> CHR 0x5C" by auto
  show ?case
  proof (cases "markdown_special c")
    case True
    then have "escapeMarkdown (c # s) = CHR 0x5C # c # escapeMarkdown s" by (simp add: escapeMarkdown_def)
    with IH show ?thesis by simp
  next
    case False
    then have "escapeMarkdown (c # s) = c # escapeMarkdown s" by (simp add: escapeMarkdown_def)
    moreover have "read_markdown (c # escapeMarkdown s) = map_option ((#) c) (read_markdown (escapeMarkdown s))"
      using False \<open>c \<noteq> CHR 0x5C\<close> by (rule read_plain)
    ultimately show ?thesis using IH by simp
  qed
qed (simp add: escapeMarkdown_def)

text \<open>A backslash is not escaped, and takes the effect of the escape away.\<close>

lemma backslash_opens_markup: "read_markdown (escapeMarkdown [CHR 0x5C, CHR ''_'']) = None"
  by code_simp

lemma markdown_round_trip_witness: "read_markdown (escapeMarkdown ''disk_full (sda1)!'') = Some ''disk_full (sda1)!''"
  by (rule markdown_round_trip) simp

section \<open>Instances\<close>

definition sample_pending :: "string \<Rightarrow> string \<Rightarrow> PendingNotification" where
  "sample_pending i c = \<lparr>pn_incident = zero_incident\<lparr>inc_ID := i, inc_CheckID := c\<rparr>, pn_checkResult = None,
     pn_checkChannelIDs = [''c1'']\<rparr>"

definition eager_channel :: NotificationChannelConfig where
  "eager_channel = slack_channel\<lparr>ch_NotifyOnResolve := True\<rparr>"

definition no_format :: "gotime \<Rightarrow> string" where
  "no_format t = []"

lemma flush_tells_every_channel_witness:
  "map (\<lambda>x. length (delivery_payloads x)) (filter (\<lambda>x. ch_ID (delivery_channel x) = ch_ID eager_channel)
     (snd (flushBatch no_format 5 [eager_channel]
       (NewNotificationDispatcher\<lparr>nd_pending := [sample_pending ''i1'' ''web'', sample_pending ''i2'' ''db'']\<rparr>)))) = [2]"
proof -
  let ?d = "NewNotificationDispatcher\<lparr>nd_pending := [sample_pending ''i1'' ''web'', sample_pending ''i2'' ''db'']\<rparr>"
  have "distinct (map (inc_ID \<circ> pn_incident) (nd_pending ?d))" "distinct (map (inc_CheckID \<circ> pn_incident) (nd_pending ?d))"
    "distinct (map ch_ID [eager_channel])" "\<forall>ch \<in> set [eager_channel]. CHR '':'' \<notin> set (ch_ID ch)"
    "eager_channel \<in> set [eager_channel]"
    by (simp_all add: sample_pending_def eager_channel_def slack_channel_def)
  note told = flush_tells_every_channel [OF this, of no_format 5]
  show ?thesis unfolding told by code_simp
qed


lemma burst_holds_everything_back_witness:
  "snd (nd_run no_format [eager_channel] [(0, Opened (sample_pending ''i1'' ''web'')), (4000000000, Opened (sample_pending ''i2'' ''db'')),
      (8000000000, Opened (sample_pending ''i3'' ''api''))] NewNotificationDispatcher) = []"
proof -
  let ?arrivals = "[(0, sample_pending ''i1'' ''web''), (4000000000, sample_pending ''i2'' ''db''), (8000000000, sample_pending ''i3'' ''api'')]"
  let ?r = "nd_run no_format [eager_channel] (map (\<lambda>(t, pn). (t, Opened pn)) ?arrivals) NewNotificationDispatcher"
  have "\<forall>k. Suc k < length ?arrivals \<longrightarrow> fst (?arrivals ! Suc k) < fst (?arrivals ! k) + batchWindow"
    by (auto simp: less_Suc_eq batchWindow_def)
  from burst_holds_everything_back [OF _ _ _ this, of "[eager_channel]" NewNotificationDispatcher no_format "fst ?r" "snd ?r"]
  have "snd ?r = []" by (simp add: NewNotificationDispatcher_def)
  then show ?thesis by simp
qed

lemma resolution_overtakes_opening_witness:
  "map (\<lambda>x. map np_Status (delivery_payloads x)) (snd (nd_run no_format [eager_channel]
     [(0, Opened (sample_pending ''i1'' ''web'')), (1000000000, Resolved (sample_pending ''i1'' ''web'')),
      (0 + batchWindow, Cleanup)] NewNotificationDispatcher)) = [[''resolved''], [''open'']]"
proof -
  let ?r = "nd_run no_format [eager_channel]
     [(0, Opened (sample_pending ''i1'' ''web'')), (1000000000, Resolved (sample_pending ''i1'' ''web'')),
      (0 + batchWindow, Cleanup)] NewNotificationDispatcher"
  have "nd_pending NewNotificationDispatcher = []" "nd_timer NewNotificationDispatcher = None"
    "nd_notified NewNotificationDispatcher = []" "nd_cooldowns NewNotificationDispatcher = []"
    "ch_Enabled eager_channel" "ch_NotifyOnResolve eager_channel"
    "ch_ID eager_channel \<in> set (pn_checkChannelIDs (sample_pending ''i1'' ''web''))"
    "(0::int) \<le> 1000000000" "1000000000 < 0 + batchWindow" "?r = (fst ?r, snd ?r)"
    by (simp_all add: NewNotificationDispatcher_def eager_channel_def slack_channel_def sample_pending_def batchWindow_def)
  from resolution_overtakes_opening [OF this] show ?thesis by blast
qed

definition failing_network :: Network where
  "failing_network = \<lparr>net_render = \<lambda>ch ps. Inr ''{}'', net_post = PostResponse 404 ''no_service'', net_smtp = None\<rparr>"

lemma every_message_is_recorded_witness:
  "map ev_Status (ob_data (sendToChannel plain_urls failing_network (\<lambda>_. []) 7 None None eager_channel
     (buildPayload no_format zero_incident ''open'') ''i1'' (LoadOutbox []))) = [''failed'']"
proof -
  let ?p = "buildPayload no_format zero_incident ''open''"
  have "snd (send_by_type plain_urls failing_network eager_channel [?p]) \<noteq> None" by code_simp
  then obtain err where "snd (send_by_type plain_urls failing_network eager_channel [?p]) = Some err" by blast
  moreover have "ch_Type eager_channel \<noteq> ''pagerduty''" by (simp add: eager_channel_def slack_channel_def)
  ultimately show ?thesis
    using every_message_is_recorded [of 7 "''i1''" "LoadOutbox []" eager_channel plain_urls failing_network "\<lambda>_. []" ?p "[]"]
    by (auto simp: LoadOutbox_def)
qed

lemma recorded_error_has_the_secret_url_witness:
  "\<exists>evt. ob_data (sendToChannel plain_urls failing_network (\<lambda>_. []) 7 None None eager_channel
     (buildPayload no_format zero_incident ''open'') ''i1'' (LoadOutbox [])) = [evt] \<and>
   ev_RequestURL evt = ''http://hooks.slack.com/services/REDACTED'' \<and>
   str_contains (ev_LastError evt) ''http://hooks.slack.com/services/T/B''"
proof -
  let ?p = "buildPayload no_format zero_incident ''open''"
  have "ch_Type eager_channel \<in> {''slack'', ''discord'', ''webhook'', ''telegram''}"
    by (simp add: eager_channel_def slack_channel_def)
  moreover have "sanitizeRequestURL plain_urls (target_url eager_channel) = ''http://hooks.slack.com/services/REDACTED''"
    "target_url eager_channel = ''http://hooks.slack.com/services/T/B''" by code_simp+
  ultimately show ?thesis
    using recorded_error_has_the_secret_url [of 7 "''i1''" "LoadOutbox []" eager_channel failing_network ?p "''{}''" 404
        "''no_service''" plain_urls "\<lambda>_. []"]
    by (auto simp: LoadOutbox_def failing_network_def)
qed

end
