(* ===== verification/Auth.thy ===== *)
theory Auth
  imports Model
begin

text \<open>
  Users and access, \<open>internal/monitoring/users.go\<close> and \<open>auth.go\<close>: the tokens that a login issues
  and every request is checked by, the middleware in front of all handlers, and the file-backed user
  store.

  HMAC-SHA256, bcrypt and the JSON form of the claims are parameters (\<open>Crypto\<close>); base64 is written
  out. A request is its method, its path and the two places a token can come from. A time is
  seconds since the epoch where the token has it, and a \<open>gotime\<close> in the user store.
\<close>

section \<open>Base64\<close>

text \<open>
  \<open>RawURLEncoding\<close> has no padding; decoding skips line breaks and refuses a character outside
  the alphabet and a single left-over character. \<open>StdEncoding\<close> has another alphabet and padding.
\<close>

definition sextet_char :: "char \<Rightarrow> char \<Rightarrow> nat \<Rightarrow> char" where
  "sextet_char c62 c63 n =
     (if n < 26 then char_of (65 + n)
      else if n < 52 then char_of (71 + n)
      else if n < 62 then char_of (n - 4)
      else if n = 62 then c62 else c63)"

definition char_sextet :: "char \<Rightarrow> char \<Rightarrow> char \<Rightarrow> nat option" where
  "char_sextet c62 c63 c =
     (let n = of_char c :: nat
      in if 65 \<le> n \<and> n \<le> 90 then Some (n - 65)
         else if 97 \<le> n \<and> n \<le> 122 then Some (n - 71)
         else if 48 \<le> n \<and> n \<le> 57 then Some (n + 4)
         else if c = c62 then Some 62
         else if c = c63 then Some 63 else None)"

fun sextets :: "nat list \<Rightarrow> nat list" where
  "sextets [] = []"
| "sextets [a] = [a div 4, (a mod 4) * 16]"
| "sextets [a, b] = [a div 4, (a mod 4) * 16 + b div 16, (b mod 16) * 4]"
| "sextets (a # b # c # bs) =
     a div 4 # ((a mod 4) * 16 + b div 16) # ((b mod 16) * 4 + c div 64) # (c mod 64) # sextets bs"

fun octets :: "nat list \<Rightarrow> nat list option" where
  "octets [] = Some []"
| "octets [p] = None"
| "octets [p, q] = Some [p * 4 + q div 16]"
| "octets [p, q, r] = Some [p * 4 + q div 16, (q mod 16) * 16 + r div 4]"
| "octets (p # q # r # s # ss) =
     map_option (\<lambda>bs. (p * 4 + q div 16) # ((q mod 16) * 16 + r div 4) # ((r mod 4) * 64 + s) # bs) (octets ss)"

fun all_some :: "'a option list \<Rightarrow> 'a list option" where
  "all_some [] = Some []"
| "all_some (None # xs) = None"
| "all_some (Some x # xs) = map_option ((#) x) (all_some xs)"

definition raw_encode :: "char \<Rightarrow> char \<Rightarrow> string \<Rightarrow> string" where
  "raw_encode c62 c63 s = map (sextet_char c62 c63) (sextets (map of_char s))"

definition raw_decode :: "char \<Rightarrow> char \<Rightarrow> string \<Rightarrow> string option" where
  "raw_decode c62 c63 s =
     (case all_some (map (char_sextet c62 c63) (filter (\<lambda>c. c \<noteq> CHR 0x0A \<and> c \<noteq> CHR 0x0D) s)) of
        None \<Rightarrow> None
      | Some vs \<Rightarrow> map_option (map char_of) (octets vs))"

abbreviation url_encode :: "string \<Rightarrow> string" where
  "url_encode \<equiv> raw_encode (CHR ''-'') (CHR ''_'')"

abbreviation url_decode :: "string \<Rightarrow> string option" where
  "url_decode \<equiv> raw_decode (CHR ''-'') (CHR ''_'')"

definition std_decode :: "string \<Rightarrow> string option" where
  "std_decode s =
     (let t = filter (\<lambda>c. c \<noteq> CHR 0x0A \<and> c \<noteq> CHR 0x0D) s;
          padding = min 2 (length (takeWhile (\<lambda>c. c = CHR ''='') (rev t)))
      in if length t mod 4 \<noteq> 0 then None
         else raw_decode (CHR ''+'') (CHR ''/'') (take (length t - padding) t))"

section \<open>Tokens\<close>

record JWTClaims =
  jwt_UserID :: string
  jwt_Username :: string
  jwt_Role :: string
  jwt_Exp :: int
  jwt_Iat :: int

record Crypto =
  cr_mac :: "string \<Rightarrow> string \<Rightarrow> string"
  cr_marshal :: "JWTClaims \<Rightarrow> string"
  cr_unmarshal :: "string \<Rightarrow> JWTClaims option"
  cr_hash :: "string \<Rightarrow> string option"
  cr_compare :: "string \<Rightarrow> string \<Rightarrow> bool"

text \<open>Documented behaviour: \<open>encoding/json\<close> reads back what it has written, bcrypt accepts what it has hashed.\<close>

definition crypto_laws :: "Crypto \<Rightarrow> bool" where
  "crypto_laws K \<longleftrightarrow>
     (\<forall>c. cr_unmarshal K (cr_marshal K c) = Some c) \<and>
     (\<forall>p h. cr_hash K p = Some h \<longrightarrow> cr_compare K h p)"

definition jwt_header :: string where
  "jwt_header = url_encode (''{'' @ [CHR 0x22] @ ''alg'' @ [CHR 0x22] @ '':'' @ [CHR 0x22] @ ''HS256'' @ [CHR 0x22] @
     '','' @ [CHR 0x22] @ ''typ'' @ [CHR 0x22] @ '':'' @ [CHR 0x22] @ ''JWT'' @ [CHR 0x22] @ ''}'')"

definition signJWT :: "Crypto \<Rightarrow> string \<Rightarrow> JWTClaims \<Rightarrow> string" where
  "signJWT K secret claims =
     (let msg = jwt_header @ ''.'' @ url_encode (cr_marshal K claims)
      in msg @ ''.'' @ url_encode (cr_mac K secret msg))"

text \<open>\<^verbatim>\<open>strings.SplitN(s, sep, n)\<close> for a separator of one byte and \<open>n > 0\<close>.\<close>

fun split_n :: "char \<Rightarrow> nat \<Rightarrow> string \<Rightarrow> string list" where
  "split_n d 0 s = []"
| "split_n d (Suc 0) s = [s]"
| "split_n d (Suc (Suc n)) s =
     (let w = takeWhile (\<lambda>c. c \<noteq> d) s
      in if length w = length s then [s] else w # split_n d (Suc n) (drop (length w + 1) s))"

definition verifyJWT :: "Crypto \<Rightarrow> string \<Rightarrow> int \<Rightarrow> string \<Rightarrow> string + JWTClaims" where
  "verifyJWT K secret now token =
     (case split_n (CHR ''.'') 3 token of
        [header, payload, sig] \<Rightarrow>
          if sig \<noteq> url_encode (cr_mac K secret (header @ ''.'' @ payload)) then Inl ''invalid signature''
          else (case url_decode payload of
                  None \<Rightarrow> Inl ''invalid payload encoding''
                | Some bytes \<Rightarrow>
                    (case cr_unmarshal K bytes of
                       None \<Rightarrow> Inl ''invalid payload''
                     | Some claims \<Rightarrow>
                         if now > jwt_Exp claims then Inl ''token expired'' else Inr claims))
      | _ \<Rightarrow> Inl ''invalid token format'')"

section \<open>Requests and the middleware\<close>

record Request =
  rq_Method :: string
  rq_Path :: string
  rq_Authorization :: string
  rq_Token :: string

definition ExtractJWTClaims :: "Crypto \<Rightarrow> string \<Rightarrow> int \<Rightarrow> Request \<Rightarrow> JWTClaims option" where
  "ExtractJWTClaims K secret now r =
     (if has_prefix (rq_Authorization r) ''Bearer '' then
        (case verifyJWT K secret now (drop 7 (rq_Authorization r)) of Inl _ \<Rightarrow> None | Inr claims \<Rightarrow> Some claims)
      else if rq_Token r \<noteq> [] then
        (case verifyJWT K secret now (rq_Token r) of Inl _ \<Rightarrow> None | Inr claims \<Rightarrow> Some claims)
      else None)"

definition parseBasicAuth :: "string \<Rightarrow> (string \<times> string) option" where
  "parseBasicAuth auth =
     (if \<not> has_prefix auth ''Basic '' then None
      else case std_decode (drop 6 auth) of
             None \<Rightarrow> None
           | Some decoded \<Rightarrow>
               (case split_n (CHR '':'') 2 decoded of
                  [username, password] \<Rightarrow> Some (username, password)
                | _ \<Rightarrow> None))"

definition IsRequestAuthorized :: "Crypto \<Rightarrow> string \<Rightarrow> int \<Rightarrow> AuthConfig \<Rightarrow> Request \<Rightarrow> bool" where
  "IsRequestAuthorized K secret now cfg r =
     (if \<not> auth_Enabled cfg then True
      else case ExtractJWTClaims K secret now r of
             Some claims \<Rightarrow> jwt_Role claims = ''admin''
           | None \<Rightarrow>
               if rq_Authorization r = [] then False
               else case parseBasicAuth (rq_Authorization r) of
                      None \<Rightarrow> False
                    | Some (username, password) \<Rightarrow>
                        username = auth_Username cfg \<and> password = auth_Password cfg)"

definition isMutatingMethod :: "string \<Rightarrow> bool" where
  "isMutatingMethod m \<longleftrightarrow> m = ''POST'' \<or> m = ''PUT'' \<or> m = ''PATCH'' \<or> m = ''DELETE''"

definition isHeartbeatPingPath :: "string \<Rightarrow> bool" where
  "isHeartbeatPingPath path \<longleftrightarrow>
     has_prefix path ''/api/v1/heartbeats/'' \<and> length path > length ''/api/v1/heartbeats/''"

definition isSensitiveReadPath :: "string \<Rightarrow> bool" where
  "isSensitiveReadPath path \<longleftrightarrow>
     path = ''/api/v1/heartbeats'' \<or>
     path = ''/api/v1/dashboards'' \<or> has_prefix path ''/api/v1/dashboards/'' \<or>
     path = ''/api/v1/chat'' \<or> has_prefix path ''/api/v1/chat/'' \<or>
     path = ''/api/v1/status-pages'' \<or> has_prefix path ''/api/v1/status-pages/'' \<or>
     path = ''/api/v1/maintenance'' \<or> has_prefix path ''/api/v1/maintenance/''"

datatype passage = Served | Unauthorized | Forbidden

definition public_path :: "string \<Rightarrow> bool" where
  "public_path path \<longleftrightarrow>
     path = ''/healthz'' \<or> path = ''/readyz'' \<or> path = ''/api/v1/system/status'' \<or>
     path = ''/api/v1/auth/login'' \<or> has_prefix path ''/assets/'' \<or> path = ''/'' \<or>
     path = ''/favicon.ico'' \<or> has_prefix path ''/api/v1/help/''"

definition authMiddleware ::
  "Crypto \<Rightarrow> string \<Rightarrow> int \<Rightarrow> AuthConfig \<Rightarrow> bool \<Rightarrow> Request \<Rightarrow> passage" where
  "authMiddleware K secret now cfg hasUserStore r =
     (let path = rq_Path r
      in if public_path path then Served
         else if isHeartbeatPingPath path then Served
         else if has_prefix path ''/status/'' then Served
         else if \<not> has_prefix path ''/api/'' \<and> path \<noteq> ''/metrics'' then Served
         else if hasUserStore then
           (case ExtractJWTClaims K secret now r of
              None \<Rightarrow>
                if auth_Enabled cfg \<and> IsRequestAuthorized K secret now cfg r then Served else Unauthorized
            | Some claims \<Rightarrow>
                if isMutatingMethod (rq_Method r) \<and> jwt_Role claims \<noteq> ''admin'' then Forbidden else Served)
         else if auth_Enabled cfg \<and> (isMutatingMethod (rq_Method r) \<or> isSensitiveReadPath path) \<and>
                 \<not> IsRequestAuthorized K secret now cfg r then Unauthorized
         else Served)"

definition basicAuthMiddleware :: "Crypto \<Rightarrow> string \<Rightarrow> int \<Rightarrow> AuthConfig \<Rightarrow> Request \<Rightarrow> passage" where
  "basicAuthMiddleware K secret now cfg r =
     (if \<not> auth_Enabled cfg then Served
      else if isHeartbeatPingPath (rq_Path r) \<or> has_prefix (rq_Path r) ''/status/'' then Served
      else if (isMutatingMethod (rq_Method r) \<or> isSensitiveReadPath (rq_Path r)) \<and>
              \<not> IsRequestAuthorized K secret now cfg r then Unauthorized
      else Served)"

definition ownerFromRequest :: "Crypto \<Rightarrow> string \<Rightarrow> int \<Rightarrow> Request \<Rightarrow> string" where
  "ownerFromRequest K secret now r =
     (case ExtractJWTClaims K secret now r of Some claims \<Rightarrow> jwt_Username claims | None \<Rightarrow> [])"

section \<open>Base64 can be read back\<close>

lemma sixteen: "y < 16 \<Longrightarrow> (x * 16 + y) div 16 = (x::nat)" "y < 16 \<Longrightarrow> (x * 16 + y) mod 16 = (y::nat)"
  by simp_all

lemma four: "y < 4 \<Longrightarrow> (x * 4 + y) div 4 = (x::nat)" "y < 4 \<Longrightarrow> (x * 4 + y) mod 4 = (y::nat)"
  by simp_all

lemma byte_parts:
  "b < 256 \<Longrightarrow> b div 16 < (16::nat)" "b < 256 \<Longrightarrow> b div 64 < (4::nat)" "b < 256 \<Longrightarrow> b div 4 < (64::nat)"
  by (simp_all add: less_mult_imp_div_less)

lemma div_mod_parts: "b div 16 * 16 + b mod 16 = (b::nat)" "b div 4 * 4 + b mod 4 = (b::nat)"
  "b div 64 * 64 + b mod 64 = (b::nat)"
  by simp_all

lemma octet1: "a < 256 \<Longrightarrow> b < 256 \<Longrightarrow> a div 4 * 4 + ((a mod 4) * 16 + b div 16) div 16 = (a::nat)"
  using sixteen(1) [OF byte_parts(1), of b "a mod 4"] by simp

lemma octet2: "b < 256 \<Longrightarrow> c < 256 \<Longrightarrow>
    (((a mod 4) * 16 + b div 16) mod 16) * 16 + ((b mod 16) * 4 + c div 64) div 4 = (b::nat)"
  using sixteen(2) [OF byte_parts(1), of b "a mod 4"] four(1) [OF byte_parts(2), of c "b mod 16"] by simp

lemma octet3: "c < 256 \<Longrightarrow> (((b mod 16) * 4 + c div 64) mod 4) * 64 + c mod 64 = (c::nat)"
  using four(2) [OF byte_parts(2), of c "b mod 16"] by simp

lemma octets_sextets: "\<forall>b \<in> set bs. b < 256 \<Longrightarrow> octets (sextets bs) = Some bs"
proof (induction bs rule: sextets.induct)
  case (2 a)
  then show ?case by simp
next
  case (3 a b)
  then show ?case using octet1 [of a b] octet2 [of b 0 a] by simp
next
  case (4 a b c bs)
  then show ?case using octet1 [of a b] octet2 [of b c a] octet3 [of c b] by simp
qed simp

lemma sextets_small: "\<forall>b \<in> set bs. b < 256 \<Longrightarrow> \<forall>v \<in> set (sextets bs). v < 64"
proof (induction bs rule: sextets.induct)
  case (2 a)
  then have "a div 4 < 64" using byte_parts by simp
  moreover have "a mod 4 * 16 < 64" by simp
  ultimately show ?case by simp
next
  case (3 a b)
  have "(a mod 4) * 16 + b div 16 < 64"
  proof -
    have "a mod 4 \<le> 3" by simp
    moreover have "b div 16 < 16" using 3 byte_parts by simp
    ultimately show ?thesis by linarith
  qed
  moreover have "(b mod 16) * 4 < 64" by simp
  moreover have "a div 4 < 64" using 3 byte_parts by simp
  ultimately show ?case by simp
next
  case (4 a b c bs)
  have "(a mod 4) * 16 + b div 16 < 64"
  proof -
    have "a mod 4 \<le> 3" by simp
    moreover have "b div 16 < 16" using 4 byte_parts by simp
    ultimately show ?thesis by linarith
  qed
  moreover have "(b mod 16) * 4 + c div 64 < 64"
  proof -
    have "b mod 16 \<le> 15" by simp
    moreover have "c div 64 < 4" using 4 byte_parts by simp
    ultimately show ?thesis by linarith
  qed
  moreover have "a div 4 < 64" using 4 byte_parts by simp
  ultimately show ?case using 4 by simp
qed simp

lemma url_alphabet:
  assumes "n < 64"
  shows "char_sextet (CHR ''-'') (CHR ''_'') (sextet_char (CHR ''-'') (CHR ''_'') n) = Some n"
    and "sextet_char (CHR ''-'') (CHR ''_'') n \<notin> {CHR 0x0A, CHR 0x0D, CHR ''.''}"
proof -
  let ?c = "sextet_char (CHR ''-'') (CHR ''_'') n"
  consider "n < 26" | "26 \<le> n" "n < 52" | "52 \<le> n" "n < 62" | "n = 62" | "n = 63"
    using assms by linarith
  then have "char_sextet (CHR ''-'') (CHR ''_'') ?c = Some n \<and> of_char ?c \<notin> {10, 13, 46 :: nat}"
  proof cases
    case 1
    then show ?thesis by (simp add: sextet_char_def char_sextet_def)
  next
    case 2
    then show ?thesis by (simp add: sextet_char_def char_sextet_def)
  next
    case 3
    then have "\<not> 65 \<le> n - 4" "48 \<le> n - 4" "n - 4 \<le> 57" "n - 4 + 4 = n" "n - 4 < 256" by linarith+
    moreover have "?c = char_of (n - 4)" using 3 by (simp add: sextet_char_def)
    ultimately have "of_char ?c = n - 4" and "\<not> 65 \<le> n - 4" "\<not> 97 \<le> n - 4" "48 \<le> n - 4" "n - 4 \<le> 57" "n - 4 + 4 = n"
      by simp_all
    then show ?thesis unfolding char_sextet_def Let_def by (simp del: of_char_of)
  next
    case 4
    then show ?thesis by (simp add: sextet_char_def char_sextet_def)
  next
    case 5
    then show ?thesis by (simp add: sextet_char_def char_sextet_def)
  qed
  then show "char_sextet (CHR ''-'') (CHR ''_'') ?c = Some n" and "?c \<notin> {CHR 0x0A, CHR 0x0D, CHR ''.''}"
    by auto
qed

lemma all_some_map: "(\<And>x. x \<in> set xs \<Longrightarrow> f x = Some x) \<Longrightarrow> all_some (map f xs) = Some xs"
  by (induction xs) auto

lemma url_encode_chars: "c \<in> set (url_encode s) \<Longrightarrow> c \<notin> {CHR 0x0A, CHR 0x0D, CHR ''.''}"
proof -
  assume "c \<in> set (url_encode s)"
  then obtain v where v: "v \<in> set (sextets (map of_char s))" and c: "c = sextet_char (CHR ''-'') (CHR ''_'') v"
    unfolding raw_encode_def set_map by (rule imageE)
  have "\<forall>b \<in> set (map of_char s :: nat list). b < 256" by auto
  from bspec [OF sextets_small [OF this] v] show ?thesis unfolding c by (rule url_alphabet(2))
qed

lemma url_decode_encode: "url_decode (url_encode s) = Some s"
proof -
  let ?vs = "sextets (map of_char s) :: nat list"
  have bytes: "\<forall>b \<in> set (map of_char s :: nat list). b < 256" by auto
  have "filter (\<lambda>c. c \<noteq> CHR 0x0A \<and> c \<noteq> CHR 0x0D) (url_encode s) = url_encode s"
    by (rule filter_True) (use url_encode_chars in blast)
  moreover have "all_some (map (char_sextet (CHR ''-'') (CHR ''_'')) (url_encode s)) = Some ?vs"
    unfolding raw_encode_def map_map
    by (rule all_some_map) (use bspec [OF sextets_small [OF bytes]] in \<open>simp add: url_alphabet(1)\<close>)
  moreover have "map char_of (map of_char s :: nat list) = s" by (simp add: comp_def)
  ultimately show ?thesis by (simp add: raw_decode_def octets_sextets [OF bytes])
qed

lemma url_encode_no_dot: "CHR ''.'' \<notin> set (url_encode s)"
  using url_encode_chars by blast

section \<open>Tokens\<close>

lemma split_first: "d \<notin> set w \<Longrightarrow> split_n d (Suc (Suc n)) (w @ d # s) = w # split_n d (Suc n) s"
proof -
  assume "d \<notin> set w"
  then have "takeWhile (\<lambda>c. c \<noteq> d) (w @ d # s) = w" by (subst takeWhile_append2) auto
  then show ?thesis by simp
qed

lemma split_three:
  "CHR ''.'' \<notin> set h \<Longrightarrow> CHR ''.'' \<notin> set p \<Longrightarrow> split_n (CHR ''.'') 3 (h @ ''.'' @ p @ ''.'' @ s) = [h, p, s]"
  by (simp del: split_n.simps(3) add: numeral_3_eq_3 split_first)

lemma split_n_join: "split_n d n s = ws \<Longrightarrow> n \<noteq> 0 \<Longrightarrow> join [d] ws = s \<and> (\<forall>w \<in> set (butlast ws). d \<notin> set w)"
proof (induction d n s arbitrary: ws rule: split_n.induct)
  case (3 d n s)
  define w where "w = takeWhile (\<lambda>c. c \<noteq> d) s"
  have "d \<notin> set w" by (auto simp: w_def dest: set_takeWhileD)
  show ?case
  proof (cases "length w = length s")
    case True
    with "3.prems" show ?thesis by (auto simp: w_def)
  next
    case False
    have "s = w @ dropWhile (\<lambda>c. c \<noteq> d) s" by (simp add: w_def)
    with False obtain y r where yr: "dropWhile (\<lambda>c. c \<noteq> d) s = y # r" by (cases "dropWhile (\<lambda>c. c \<noteq> d) s") auto
    then have "y = d" using hd_dropWhile [of "\<lambda>c. c \<noteq> d" s] by simp
    with yr \<open>s = w @ dropWhile (\<lambda>c. c \<noteq> d) s\<close> have s: "s = w @ d # r" by simp
    then have dr: "drop (length w + 1) s = r" by simp
    define vs where "vs = split_n d (Suc n) r"
    have ws: "ws = w # vs" using "3.prems"(1) False by (auto simp: Let_def vs_def w_def [symmetric] simp flip: dr)
    have IH: "join [d] vs = r \<and> (\<forall>w \<in> set (butlast vs). d \<notin> set w)"
      using "3.IH" [OF w_def False, unfolded dr, of vs] by (simp add: vs_def)
    have "vs \<noteq> []" unfolding vs_def by (cases n) (auto simp: Let_def)
    have "join [d] ws = w @ [d] @ r" using IH \<open>vs \<noteq> []\<close> by (cases vs) (simp_all add: ws)
    then show ?thesis using IH \<open>vs \<noteq> []\<close> s \<open>d \<notin> set w\<close> by (auto simp: ws)
  qed
qed auto

lemma verify_signed:
  assumes "crypto_laws K"
  shows "verifyJWT K secret now (signJWT K secret claims) =
    (if now \<le> jwt_Exp claims then Inr claims else Inl ''token expired'')"
proof -
  let ?p = "url_encode (cr_marshal K claims)"
  have "CHR ''.'' \<notin> set jwt_header" unfolding jwt_header_def by (rule url_encode_no_dot)
  from split_three [OF this url_encode_no_dot]
  have "split_n (CHR ''.'') 3 (signJWT K secret claims) =
      [jwt_header, ?p, url_encode (cr_mac K secret (jwt_header @ ''.'' @ ?p))]"
    by (simp add: signJWT_def Let_def)
  moreover have "cr_unmarshal K (cr_marshal K claims) = Some claims"
    using assms by (simp add: crypto_laws_def)
  ultimately show ?thesis by (simp add: verifyJWT_def url_decode_encode)
qed

text \<open>
  A token that has been issued is accepted until it expires, and gives back the claims it was
  issued for; after that it is refused.
\<close>

theorem token_round_trip:
  assumes "crypto_laws K"
  shows "verifyJWT K secret now (signJWT K secret claims) =
    (if now \<le> jwt_Exp claims then Inr claims else Inl ''token expired'')"
  by (rule verify_signed [OF assms])

text \<open>
  Nothing without the secret is accepted: a token that verifies consists of three parts, the
  last of which is the HMAC, under the secret of the server, of the first two as they were sent;
  the claims are those of the second part and have not expired.
\<close>

theorem verified_token_is_signed:
  assumes "verifyJWT K secret now token = Inr claims"
  shows "\<exists>header payload bytes.
    token = header @ ''.'' @ payload @ ''.'' @ url_encode (cr_mac K secret (header @ ''.'' @ payload)) \<and>
    CHR ''.'' \<notin> set header \<and> CHR ''.'' \<notin> set payload \<and>
    url_decode payload = Some bytes \<and> cr_unmarshal K bytes = Some claims \<and> now \<le> jwt_Exp claims"
proof -
  obtain header payload sig where parts: "split_n (CHR ''.'') 3 token = [header, payload, sig]"
    using assms by (auto simp: verifyJWT_def split: list.splits)
  with assms obtain bytes where "sig = url_encode (cr_mac K secret (header @ ''.'' @ payload))"
    and "url_decode payload = Some bytes" and "cr_unmarshal K bytes = Some claims" and "now \<le> jwt_Exp claims"
    by (auto simp: verifyJWT_def split: if_splits option.splits)
  moreover from split_n_join [OF parts] have "token = header @ ''.'' @ payload @ ''.'' @ sig"
    and "CHR ''.'' \<notin> set header" and "CHR ''.'' \<notin> set payload" by auto
  ultimately show ?thesis by blast
qed

section \<open>The middleware\<close>

text \<open>
  C31: With a user store, no request to the API outside the public paths (system status, login, help pages) and the
  heartbeat pings \<open>/api/v1/heartbeats/{token}\<close>, which need no credentials although they change state,
  reaches a handler without a verified token or, with no token, the legacy credentials; and if it changes
  something, a token must be that of an administrator.
\<close>

theorem changes_need_an_administrator:
  assumes "authMiddleware K secret now cfg True r = Served" and "has_prefix (rq_Path r) ''/api/''"
    and "\<not> public_path (rq_Path r)" and "\<not> isHeartbeatPingPath (rq_Path r)"
  shows "(\<exists>claims. ExtractJWTClaims K secret now r = Some claims \<and>
        (jwt_Role claims = ''admin'' \<or> \<not> isMutatingMethod (rq_Method r))) \<or>
    (ExtractJWTClaims K secret now r = None \<and> auth_Enabled cfg \<and>
        parseBasicAuth (rq_Authorization r) = Some (auth_Username cfg, auth_Password cfg))"
proof -
  have "\<not> has_prefix (rq_Path r) ''/status/''"
    using assms(2) by (auto simp: has_prefix_iff)
  then show ?thesis using assms
    by (auto simp: authMiddleware_def IsRequestAuthorized_def Let_def split: option.splits if_splits)
qed

section \<open>The user store\<close>

record User =
  usr_ID :: string
  usr_Username :: string
  usr_PasswordHash :: string
  usr_Role :: string
  usr_DisplayName :: string
  usr_Email :: string
  usr_CreatedAt :: gotime
  usr_UpdatedAt :: gotime

record CreateUserRequest =
  cu_Username :: string
  cu_Password :: string
  cu_Role :: string
  cu_DisplayName :: string
  cu_Email :: string

record UpdateUserRequest =
  uu_Password :: "string option"
  uu_Role :: "string option"
  uu_DisplayName :: "string option"
  uu_Email :: "string option"

text \<open>\<open>users\<close> is a map with a key for every user; a write to disk that fails is ignored by the code.\<close>

record UserStore =
  us_users :: "(string \<times> User) list"
  us_disk :: "User list"

definition us_save :: "bool \<Rightarrow> UserStore \<Rightarrow> UserStore" where
  "us_save written s = (if written then s\<lparr>us_disk := map snd (us_users s)\<rparr> else s)"

fun load_users :: "User list \<Rightarrow> (string \<times> User) list \<Rightarrow> (string \<times> User) list" where
  "load_users [] m = m"
| "load_users (r # records) m = load_users records (AList.update (usr_ID r) r m)"

definition default_admin :: "Crypto \<Rightarrow> gotime \<Rightarrow> User" where
  "default_admin K now = \<lparr>usr_ID = ''admin'', usr_Username = ''admin'',
     usr_PasswordHash = (case cr_hash K ''admin'' of None \<Rightarrow> [] | Some h \<Rightarrow> h), usr_Role = ''admin'',
     usr_DisplayName = ''Administrator'', usr_Email = [], usr_CreatedAt = now, usr_UpdatedAt = now\<rparr>"

definition NewUserStore :: "Crypto \<Rightarrow> gotime \<Rightarrow> bool \<Rightarrow> User list option \<Rightarrow> UserStore" where
  "NewUserStore K now written file =
     (let s = \<lparr>us_users = (case file of None \<Rightarrow> [] | Some records \<Rightarrow> load_users records []),
               us_disk = (case file of None \<Rightarrow> [] | Some records \<Rightarrow> records)\<rparr>
      in if us_users s = [] then
           us_save written (s\<lparr>us_users := AList.update ''admin'' (default_admin K now) (us_users s)\<rparr>)
         else s)"

definition us_Authenticate :: "Crypto \<Rightarrow> string \<Rightarrow> string \<Rightarrow> UserStore \<Rightarrow> User option" where
  "us_Authenticate K username password s =
     (case find (\<lambda>(i, u). usr_Username u = username) (us_users s) of
        None \<Rightarrow> None
      | Some (i, u) \<Rightarrow> if cr_compare K (usr_PasswordHash u) password then Some u else None)"

definition IsUsingDefaultCredentials :: "Crypto \<Rightarrow> UserStore \<Rightarrow> bool" where
  "IsUsingDefaultCredentials K s =
     (if length (us_users s) \<noteq> 1 then False
      else case map_of (us_users s) ''admin'' of
             None \<Rightarrow> False
           | Some u \<Rightarrow> cr_compare K (usr_PasswordHash u) ''admin'')"

definition us_Create ::
  "Crypto \<Rightarrow> gotime \<Rightarrow> bool \<Rightarrow> CreateUserRequest \<Rightarrow> UserStore \<Rightarrow> UserStore \<times> (string + User)" where
  "us_Create K now written req s =
     (if find (\<lambda>(i, u). usr_Username u = cu_Username req) (us_users s) \<noteq> None then (s, Inl ''username already exists'')
      else if cu_Role req \<noteq> ''admin'' \<and> cu_Role req \<noteq> ''ops'' then (s, Inl ''role must be admin or ops'')
      else if length (cu_Password req) < 8 then (s, Inl ''password must be at least 8 characters'')
      else case cr_hash K (cu_Password req) of
             None \<Rightarrow> (s, Inl ''hash password'')
           | Some hash \<Rightarrow>
               (let i = to_lower (cu_Username req);
                    u = \<lparr>usr_ID = i, usr_Username = cu_Username req, usr_PasswordHash = hash, usr_Role = cu_Role req,
                         usr_DisplayName = cu_DisplayName req, usr_Email = cu_Email req,
                         usr_CreatedAt = now, usr_UpdatedAt = now\<rparr>
                in (us_save written (s\<lparr>us_users := AList.update i u (us_users s)\<rparr>), Inr u)))"

text \<open>
  The user is changed in place while the request is checked: a request that is refused for its role
  leaves the new password hash in memory.
\<close>

definition with_password :: "Crypto \<Rightarrow> UpdateUserRequest \<Rightarrow> User \<Rightarrow> User option" where
  "with_password K req u =
     (case uu_Password req of
        Some p \<Rightarrow> if 4 \<le> length p then map_option (\<lambda>h. u\<lparr>usr_PasswordHash := h\<rparr>) (cr_hash K p) else Some u
      | None \<Rightarrow> Some u)"

definition bad_role :: "UpdateUserRequest \<Rightarrow> bool" where
  "bad_role req \<longleftrightarrow> (case uu_Role req of Some role \<Rightarrow> role \<noteq> ''admin'' \<and> role \<noteq> ''ops'' | None \<Rightarrow> False)"

definition with_profile :: "gotime \<Rightarrow> UpdateUserRequest \<Rightarrow> User \<Rightarrow> User" where
  "with_profile now req u1 =
     (let u2 = (case uu_Role req of Some role \<Rightarrow> u1\<lparr>usr_Role := role\<rparr> | None \<Rightarrow> u1);
          u3 = (case uu_DisplayName req of
                  Some d \<Rightarrow> (case uu_Email req of Some m \<Rightarrow> u2\<lparr>usr_Email := m\<rparr> | None \<Rightarrow> u2)\<lparr>usr_DisplayName := d\<rparr>
                | None \<Rightarrow> u2);
          u4 = (case uu_Email req of Some m \<Rightarrow> u3\<lparr>usr_Email := m\<rparr> | None \<Rightarrow> u3)
      in u4\<lparr>usr_UpdatedAt := now\<rparr>)"

definition us_Update ::
  "Crypto \<Rightarrow> gotime \<Rightarrow> bool \<Rightarrow> string \<Rightarrow> UpdateUserRequest \<Rightarrow> UserStore \<Rightarrow> UserStore \<times> (string + User)" where
  "us_Update K now written i req s =
     (case map_of (us_users s) i of
        None \<Rightarrow> (s, Inl ''user not found'')
      | Some u \<Rightarrow>
          (case with_password K req u of
             None \<Rightarrow> (s, Inl ''hash password'')
           | Some u1 \<Rightarrow>
               if bad_role req
               then (s\<lparr>us_users := AList.update i u1 (us_users s)\<rparr>, Inl ''role must be admin or ops'')
               else (us_save written (s\<lparr>us_users := AList.update i (with_profile now req u1) (us_users s)\<rparr>),
                     Inr (with_profile now req u1))))"

definition adminCount :: "UserStore \<Rightarrow> nat" where
  "adminCount s = length (filter (\<lambda>(i, u). usr_Role u = ''admin'') (us_users s))"

definition us_Delete :: "bool \<Rightarrow> string \<Rightarrow> UserStore \<Rightarrow> UserStore \<times> string option" where
  "us_Delete written i s =
     (case map_of (us_users s) i of
        None \<Rightarrow> (s, Some ''user not found'')
      | Some u \<Rightarrow>
          if usr_Role u = ''admin'' \<and> adminCount s \<le> 1 then (s, Some ''cannot delete the last admin user'')
          else (us_save written (s\<lparr>us_users := AList.delete i (us_users s)\<rparr>), None))"

text \<open>A login: the token and what is refused; times are seconds since the epoch.\<close>

definition HandleLogin :: "Crypto \<Rightarrow> string \<Rightarrow> int \<Rightarrow> string \<Rightarrow> string \<Rightarrow> UserStore \<Rightarrow> string option" where
  "HandleLogin K secret now username password s =
     (case us_Authenticate K username password s of
        None \<Rightarrow> None
      | Some u \<Rightarrow> Some (signJWT K secret \<lparr>jwt_UserID = usr_ID u, jwt_Username = usr_Username u, jwt_Role = usr_Role u,
                     jwt_Exp = now + 86400, jwt_Iat = now\<rparr>))"

section \<open>The handlers of the user API\<close>

text \<open>
  What a request does and the status it is answered with; a body that is no JSON is \<open>None\<close>, the
  path of \<open>HandleUserByID\<close> has lost its prefix.
\<close>

datatype user_answer = Failed nat string | Listed "User list" | Answered nat User | Deleted string | Not_allowed

definition HandleUsers ::
  "Crypto \<Rightarrow> gotime \<Rightarrow> bool \<Rightarrow> JWTClaims option \<Rightarrow> string \<Rightarrow> CreateUserRequest option \<Rightarrow> UserStore \<Rightarrow> UserStore \<times> user_answer" where
  "HandleUsers K now written auth m body s =
     (case auth of
        None \<Rightarrow> (s, Failed 401 ''authentication required'')
      | Some claims \<Rightarrow>
          if m = ''GET'' then (s, Listed (map snd (us_users s)))
          else if m = ''POST'' then
            (if jwt_Role claims \<noteq> ''admin'' then (s, Failed 403 ''admin role required'')
             else case body of
                    None \<Rightarrow> (s, Failed 400 ''invalid JSON'')
                  | Some req \<Rightarrow>
                      (case us_Create K now written req s of
                         (s', Inl e) \<Rightarrow> (s', Failed 400 e)
                       | (s', Inr u) \<Rightarrow> (s', Answered 201 u)))
          else (s, Not_allowed))"

definition HandleUserByID ::
  "Crypto \<Rightarrow> gotime \<Rightarrow> bool \<Rightarrow> JWTClaims option \<Rightarrow> string \<Rightarrow> string \<Rightarrow> UpdateUserRequest option \<Rightarrow> UserStore \<Rightarrow>
     UserStore \<times> user_answer" where
  "HandleUserByID K now written auth m i body s =
     (case auth of
        None \<Rightarrow> (s, Failed 401 ''authentication required'')
      | Some claims \<Rightarrow>
          if i = [] then (s, Failed 400 ''user id required'')
          else if m = ''GET'' then
            (case map_of (us_users s) i of
               None \<Rightarrow> (s, Failed 404 ''user not found'')
             | Some u \<Rightarrow> (s, Answered 200 u))
          else if m = ''PUT'' then
            (if jwt_Role claims \<noteq> ''admin'' then (s, Failed 403 ''admin role required'')
             else case body of
                    None \<Rightarrow> (s, Failed 400 ''invalid JSON'')
                  | Some req \<Rightarrow>
                      (case us_Update K now written i req s of
                         (s', Inl e) \<Rightarrow> (s', Failed 400 e)
                       | (s', Inr u) \<Rightarrow> (s', Answered 200 u)))
          else if m = ''DELETE'' then
            (if jwt_Role claims \<noteq> ''admin'' then (s, Failed 403 ''admin role required'')
             else case us_Delete written i s of
                    (s', Some e) \<Rightarrow> (s', Failed 400 e)
                  | (s', None) \<Rightarrow> (s', Deleted i))
          else (s, Not_allowed))"

definition HandleMe :: "JWTClaims option \<Rightarrow> string \<Rightarrow> UserStore \<Rightarrow> user_answer" where
  "HandleMe auth m s =
     (if m \<noteq> ''GET'' then Not_allowed
      else case auth of
             None \<Rightarrow> Failed 401 ''authentication required''
           | Some claims \<Rightarrow>
               (case map_of (us_users s) (jwt_UserID claims) of
                  None \<Rightarrow> Failed 404 ''user not found''
                | Some u \<Rightarrow> Answered 200 u))"

section \<open>Lemmas on the user store\<close>

definition user_ok :: "string \<times> User \<Rightarrow> bool" where
  "user_ok e \<longleftrightarrow> usr_ID (snd e) = fst e \<and> fst e = to_lower (usr_Username (snd e)) \<and>
     (usr_Role (snd e) = ''admin'' \<or> usr_Role (snd e) = ''ops'')"

definition users_ok :: "UserStore \<Rightarrow> bool" where
  "users_ok s \<longleftrightarrow> distinct (map fst (us_users s)) \<and> list_all user_ok (us_users s)"

lemma us_save_users [simp]: "us_users (us_save w s) = us_users s"
  by (simp add: us_save_def)

lemma list_all_update: "list_all P al \<Longrightarrow> P (k, v) \<Longrightarrow> list_all P (AList.update k v al)"
  by (induction al) auto

lemma list_all_delete: "list_all P al \<Longrightarrow> list_all P (AList.delete k al)"
  by (auto simp: list_all_iff AList.delete_eq)

lemma users_ok_entry: "users_ok s \<Longrightarrow> map_of (us_users s) i = Some u \<Longrightarrow> user_ok (i, u)"
  by (auto simp: users_ok_def list_all_iff dest: map_of_SomeD)

lemma users_ok_update:
  "users_ok s \<Longrightarrow> user_ok (i, u) \<Longrightarrow> us_users s' = AList.update i u (us_users s) \<Longrightarrow> users_ok s'"
  by (simp add: users_ok_def list_all_update distinct_update)

lemma users_ok_delete: "users_ok s \<Longrightarrow> us_users s' = AList.delete i (us_users s) \<Longrightarrow> users_ok s'"
  by (simp add: users_ok_def list_all_delete distinct_delete)

text \<open>Names are unique, so the order in which the map is searched does not matter.\<close>

lemma find_user:
  assumes "users_ok s"
  shows "find (\<lambda>(i, u). usr_Username u = n) (us_users s) =
    (case map_of (us_users s) (to_lower n) of
       None \<Rightarrow> None | Some u \<Rightarrow> if usr_Username u = n then Some (to_lower n, u) else None)"
    (is "?l = ?r")
proof -
  have d: "distinct (map fst (us_users s))" using assms by (simp add: users_ok_def)
  have key: "i = to_lower (usr_Username u)" if "(i, u) \<in> set (us_users s)" for i u
    using assms that by (auto simp: users_ok_def list_all_iff user_ok_def)
  show ?thesis
  proof (cases ?l)
    case None
    then have "usr_Username u \<noteq> n" if "(i, u) \<in> set (us_users s)" for i u
      using that by (auto simp: find_None_iff)
    then show ?thesis using None by (auto split: option.splits dest: map_of_SomeD)
  next
    case (Some e)
    then obtain i u where e: "e = (i, u)" by (cases e)
    with Some have "(i, u) \<in> set (us_users s)" and "usr_Username u = n"
      by (auto simp: find_Some_iff) (metis nth_mem)
    moreover from this have "map_of (us_users s) i = Some u" using d by simp
    ultimately show ?thesis using Some e key by auto
  qed
qed

lemma us_Create_result:
  assumes "users_ok s" and "us_Create K now w req s = (s', Inr u)"
  shows "us_users s' = AList.update (to_lower (cu_Username req)) u (us_users s)"
    and "usr_Username u = cu_Username req" and "usr_ID u = to_lower (cu_Username req)"
    and "usr_Role u = cu_Role req" and "usr_Role u = ''admin'' \<or> usr_Role u = ''ops''"
    and "cr_hash K (cu_Password req) = Some (usr_PasswordHash u)" and "8 \<le> length (cu_Password req)"
  using assms(2) by (auto simp: us_Create_def Let_def split: if_splits option.splits)

section \<open>What the user store keeps\<close>

datatype user_op =
    Create_user CreateUserRequest
  | Update_user string UpdateUserRequest
  | Delete_user string

text \<open>One change, with its time and whether the file could be written.\<close>

definition us_apply :: "Crypto \<Rightarrow> gotime \<times> bool \<times> user_op \<Rightarrow> UserStore \<Rightarrow> UserStore" where
  "us_apply K e s =
     (case e of (now, written, oper) \<Rightarrow>
        (case oper of
           Create_user req \<Rightarrow> fst (us_Create K now written req s)
         | Update_user i req \<Rightarrow> fst (us_Update K now written i req s)
         | Delete_user i \<Rightarrow> fst (us_Delete written i s)))"

lemma us_Create_ok:
  assumes "users_ok s"
  shows "users_ok (fst (us_Create K now w req s))"
proof (cases "snd (us_Create K now w req s)")
  case (Inl e)
  then show ?thesis using assms by (auto simp: us_Create_def Let_def split: if_splits option.splits)
next
  case (Inr u)
  then obtain s' where c: "us_Create K now w req s = (s', Inr u)" by (metis prod.collapse)
  note r = us_Create_result [OF assms c]
  show ?thesis unfolding c fst_conv
    by (rule users_ok_update [OF assms _ r(1)]) (use r in \<open>auto simp: user_ok_def\<close>)
qed

text \<open>An update keeps who the user is, and gives only a role that exists.\<close>

lemma with_password_keeps:
  "with_password K req u = Some v \<Longrightarrow> usr_ID v = usr_ID u \<and> usr_Username v = usr_Username u \<and> usr_Role v = usr_Role u"
  by (auto simp: with_password_def split: option.splits if_splits)

lemma with_profile_keeps:
  "usr_ID (with_profile now req u) = usr_ID u" "usr_Username (with_profile now req u) = usr_Username u"
  "usr_PasswordHash (with_profile now req u) = usr_PasswordHash u"
  "usr_Role (with_profile now req u) = (case uu_Role req of Some role \<Rightarrow> role | None \<Rightarrow> usr_Role u)"
  by (auto simp: with_profile_def Let_def split: option.splits)

lemma us_Update_cases:
  assumes "map_of (us_users s) i = Some u"
  obtains (hash) "us_Update K now w i req s = (s, Inl ''hash password'')"
    | (role) v where "with_password K req u = Some v" and "bad_role req"
        and "us_Update K now w i req s =
          (s\<lparr>us_users := AList.update i v (us_users s)\<rparr>, Inl ''role must be admin or ops'')"
    | (changed) v where "with_password K req u = Some v" and "\<not> bad_role req"
        and "us_Update K now w i req s =
          (us_save w (s\<lparr>us_users := AList.update i (with_profile now req v) (us_users s)\<rparr>), Inr (with_profile now req v))"
proof (cases "with_password K req u")
  case None
  then show ?thesis using assms by (intro hash) (simp add: us_Update_def)
next
  case (Some v)
  show ?thesis
  proof (cases "bad_role req")
    case True
    then show ?thesis using assms Some by (intro role [of v]) (simp_all add: us_Update_def)
  next
    case False
    then show ?thesis using assms Some by (intro changed [of v]) (simp_all add: us_Update_def)
  qed
qed

lemma us_Update_unknown: "map_of (us_users s) i = None \<Longrightarrow> us_Update K now w i req s = (s, Inl ''user not found'')"
  by (simp add: us_Update_def)

lemma us_Update_ok:
  assumes "users_ok s"
  shows "users_ok (fst (us_Update K now w i req s))"
proof (cases "map_of (us_users s) i")
  case None
  then show ?thesis using assms by (simp add: us_Update_unknown)
next
  case (Some u)
  have u: "user_ok (i, u)" by (rule users_ok_entry [OF assms Some])
  from Some show ?thesis
  proof (cases rule: us_Update_cases [of s i u K now w req])
    case hash
    then show ?thesis using assms by simp
  next
    case (role v)
    have "user_ok (i, v)" using u with_password_keeps [OF role(1)] by (simp add: user_ok_def)
    from users_ok_update [OF assms this] show ?thesis by (simp add: role(3))
  next
    case (changed v)
    have "user_ok (i, with_profile now req v)"
      using u with_password_keeps [OF changed(1)] changed(2)
      by (auto simp: user_ok_def with_profile_keeps bad_role_def split: option.splits)
    from users_ok_update [OF assms this] show ?thesis by (simp add: changed(3))
  qed
qed

lemma us_Delete_ok:
  assumes "users_ok s"
  shows "users_ok (fst (us_Delete w i s))"
  using assms users_ok_delete [OF assms, of "us_save w (s\<lparr>us_users := AList.delete i (us_users s)\<rparr>)" i]
  by (auto simp: us_Delete_def split: option.splits)

lemma us_apply_ok: "users_ok s \<Longrightarrow> users_ok (us_apply K e s)"
  by (auto simp: us_apply_def us_Create_ok us_Update_ok us_Delete_ok split: prod.splits user_op.splits)

lemma fold_us_apply_ok: "users_ok s \<Longrightarrow> users_ok (fold (us_apply K) es s)"
  by (induction es arbitrary: s) (simp_all add: us_apply_ok)

lemma NewUserStore_ok: "users_ok (NewUserStore K now w None)"
  by (simp add: users_ok_def NewUserStore_def Let_def default_admin_def user_ok_def to_lower_def to_lower_char_def)

section \<open>Properties of the user store\<close>

text \<open>
  Whatever the API does to the users of a fresh store, every user keeps its identifier as key,
  the identifier is the lower-case form of the name, the role is one of the two that exist, and no
  two users have one identifier.
\<close>

theorem users_stay_wellformed: "users_ok (fold (us_apply K) es (NewUserStore K now w None))"
  by (rule fold_us_apply_ok [OF NewUserStore_ok])

lemma us_Authenticate_user:
  assumes "users_ok s" and "map_of (us_users s) (to_lower n) = Some u" and "usr_Username u = n"
  shows "us_Authenticate K n p s = (if cr_compare K (usr_PasswordHash u) p then Some u else None)"
  using assms(2,3) by (simp add: us_Authenticate_def find_user [OF assms(1)])

lemma bearer_token: "rq_Authorization r = ''Bearer '' @ token \<Longrightarrow>
    ExtractJWTClaims K secret now r = (case verifyJWT K secret now token of Inl _ \<Rightarrow> None | Inr claims \<Rightarrow> Some claims)"
  by (simp add: ExtractJWTClaims_def)

text \<open>The tokens of a login, and how the middleware answers them.\<close>

lemma issued_token:
  assumes "crypto_laws K" and "rq_Authorization r = ''Bearer '' @ signJWT K secret claims"
  shows "ExtractJWTClaims K secret now r = (if now \<le> jwt_Exp claims then Some claims else None)"
  using bearer_token [OF assms(2), of K secret now] by (simp add: verify_signed [OF assms(1)])

lemma bearer_is_not_basic: "rq_Authorization r = ''Bearer '' @ token \<Longrightarrow> parseBasicAuth (rq_Authorization r) = None"
  by (simp add: parseBasicAuth_def)

definition api_request :: "Request \<Rightarrow> bool" where
  "api_request r \<longleftrightarrow> has_prefix (rq_Path r) ''/api/'' \<and> \<not> public_path (rq_Path r) \<and> \<not> isHeartbeatPingPath (rq_Path r)"

lemma api_request_answer:
  assumes "api_request r" and "rq_Authorization r = ''Bearer '' @ token"
  shows "authMiddleware K secret now cfg True r =
    (case ExtractJWTClaims K secret now r of
       None \<Rightarrow> Unauthorized
     | Some claims \<Rightarrow> if isMutatingMethod (rq_Method r) \<and> jwt_Role claims \<noteq> ''admin'' then Forbidden else Served)"
proof -
  have "\<not> has_prefix (rq_Path r) ''/status/''" using assms(1) by (auto simp: api_request_def has_prefix_iff)
  then show ?thesis using assms(1) bearer_is_not_basic [OF assms(2)]
    by (auto simp: api_request_def authMiddleware_def IsRequestAuthorized_def Let_def split: option.splits)
qed

lemma authenticated_user:
  assumes "us_Authenticate K n p s = Some u" and "users_ok s"
  shows "map_of (us_users s) (to_lower n) = Some u" and "usr_Username u = n"
  using assms(1) by (auto simp: us_Authenticate_def find_user [OF assms(2)] split: option.splits if_splits)

definition login_claims :: "int \<Rightarrow> User \<Rightarrow> JWTClaims" where
  "login_claims now u = \<lparr>jwt_UserID = usr_ID u, jwt_Username = usr_Username u, jwt_Role = usr_Role u,
     jwt_Exp = now + 86400, jwt_Iat = now\<rparr>"

lemma HandleLogin_token:
  "HandleLogin K secret now n p s = Some token \<longleftrightarrow>
   (\<exists>u. us_Authenticate K n p s = Some u \<and> token = signJWT K secret (login_claims now u))"
  by (auto simp: HandleLogin_def login_claims_def split: option.splits)

text \<open>
  The password an account was created with logs its owner in. For twenty-four hours the token
  admits the owner to every part of the API, to what changes something only with the role of an
  administrator; after that, to nothing.
\<close>

theorem created_user_can_work:
  assumes "crypto_laws K" and "users_ok s" and "us_Create K tm w req s = (s', Inr u)"
  shows "HandleLogin K secret t (cu_Username req) (cu_Password req) s' = Some (signJWT K secret (login_claims t u)) \<and>
    (api_request r \<and> rq_Authorization r = ''Bearer '' @ signJWT K secret (login_claims t u) \<longrightarrow>
       authMiddleware K secret now cfg True r =
         (if t + 86400 < now then Unauthorized
          else if isMutatingMethod (rq_Method r) \<and> cu_Role req \<noteq> ''admin'' then Forbidden else Served))"
proof -
  note r = us_Create_result [OF assms(2,3)]
  have "users_ok s'" using us_Create_ok [OF assms(2), of K tm w req] by (simp add: assms(3))
  moreover have "map_of (us_users s') (to_lower (cu_Username req)) = Some u" by (simp add: r(1) update_conv')
  moreover have "cr_compare K (usr_PasswordHash u) (cu_Password req)"
    using assms(1) r(6) by (simp add: crypto_laws_def)
  ultimately have "us_Authenticate K (cu_Username req) (cu_Password req) s' = Some u"
    by (simp add: us_Authenticate_user r(2))
  moreover have "jwt_Role (login_claims t u) = cu_Role req" and "jwt_Exp (login_claims t u) = t + 86400"
    by (simp_all add: login_claims_def r(4))
  ultimately show ?thesis using issued_token [OF assms(1)] api_request_answer
    by (auto simp: HandleLogin_token)
qed

text \<open>
  A token outlives its user: an administrator whose account has been deleted cannot log in, and
  yet, until the token expires, every request of his is served, and one to create a user is carried
  out.
\<close>

theorem deleted_administrator_keeps_access:
  assumes "crypto_laws K" and "users_ok s" and "HandleLogin K secret t n p s = Some token"
    and "map_of (us_users s) (to_lower n) = Some u" and "usr_Role u = ''admin''"
    and "us_Delete w (to_lower n) s = (s', None)"
    and "api_request r" and "rq_Authorization r = ''Bearer '' @ token" and "now \<le> t + 86400"
  shows "HandleLogin K secret t' n p' s' = None \<and> authMiddleware K secret now cfg True r = Served \<and>
    HandleUsers K tm w' (ExtractJWTClaims K secret now r) ''POST'' (Some req) s' =
      (case us_Create K tm w' req s' of (s'', Inl e) \<Rightarrow> (s'', Failed 400 e) | (s'', Inr v) \<Rightarrow> (s'', Answered 201 v))"
proof -
  obtain v where "us_Authenticate K n p s = Some v" and token: "token = signJWT K secret (login_claims t v)"
    using assms(3) by (auto simp: HandleLogin_token)
  with authenticated_user [OF _ assms(2)] assms(4) have v: "v = u" by auto
  have claims: "ExtractJWTClaims K secret now r = Some (login_claims t u)"
    using issued_token [OF assms(1) assms(8) [unfolded token]] assms(9) by (simp add: login_claims_def v)
  have role: "jwt_Role (login_claims t u) = ''admin''" by (simp add: login_claims_def assms(5))
  have "us_users s' = AList.delete (to_lower n) (us_users s)"
    using assms(4,6) by (auto simp: us_Delete_def split: if_splits)
  moreover have "users_ok s'" using us_Delete_ok [OF assms(2), of w "to_lower n"] by (simp add: assms(6))
  ultimately have "us_Authenticate K n p' s' = None"
    using find_user [of s' n] by (simp add: us_Authenticate_def delete_conv')
  then show ?thesis using api_request_answer [OF assms(7,8)] claims role
    by (simp add: HandleLogin_def HandleUsers_def)
qed

text \<open>
  The guard that keeps the last administrator is no guard: he cannot be deleted, but can be made
  an ordinary user and then be deleted; the next start finds no users and seeds the default account.
\<close>

definition demotion :: UpdateUserRequest where
  "demotion = \<lparr>uu_Password = None, uu_Role = Some ''ops'', uu_DisplayName = None, uu_Email = None\<rparr>"

theorem last_administrator_can_be_removed:
  assumes "crypto_laws K" and "cr_hash K ''admin'' = Some h"
    and "us_users s = [(i, u)]" and "usr_Role u = ''admin''"
  shows "us_Delete True i s = (s, Some ''cannot delete the last admin user'') \<and>
    us_Delete True i (fst (us_Update K tm True i demotion s)) = (\<lparr>us_users = [], us_disk = []\<rparr>, None) \<and>
    us_Authenticate K ''admin'' ''admin'' (NewUserStore K tm' w (Some [])) = Some (default_admin K tm')"
proof (intro conjI)
  show "us_Delete True i s = (s, Some ''cannot delete the last admin user'')"
    using assms by (simp add: us_Delete_def adminCount_def)
  have "us_Update K tm True i demotion s =
      (us_save True (s\<lparr>us_users := [(i, with_profile tm demotion u)]\<rparr>), Inr (with_profile tm demotion u))"
    using assms(3) by (simp add: us_Update_def with_password_def demotion_def bad_role_def)
  moreover have "usr_Role (with_profile tm demotion u) = ''ops''" by (simp add: with_profile_keeps demotion_def)
  ultimately show "us_Delete True i (fst (us_Update K tm True i demotion s)) = (\<lparr>us_users = [], us_disk = []\<rparr>, None)"
    by (simp add: us_Delete_def us_save_def)
  have "cr_compare K h ''admin''" using assms(1,2) by (simp add: crypto_laws_def)
  then show "us_Authenticate K ''admin'' ''admin'' (NewUserStore K tm' w (Some [])) = Some (default_admin K tm')"
    using assms(2) by (simp add: us_Authenticate_def NewUserStore_def default_admin_def)
qed

lemma length_update_known: "k \<in> fst ` set al \<Longrightarrow> length (AList.update k v al) = length al"
  by (induction al) auto

text \<open>
  A name that differs from an existing one in case only is no duplicate for the check, but has
  the same identifier: creating it replaces the existing account, whose owner can no longer log in.
\<close>

theorem create_replaces_another_account:
  assumes "users_ok s" and "map_of (us_users s) (to_lower (cu_Username req)) = Some v"
    and "usr_Username v \<noteq> cu_Username req"
    and "cu_Role req = ''admin'' \<or> cu_Role req = ''ops''" and "8 \<le> length (cu_Password req)"
    and "cr_hash K (cu_Password req) = Some h"
  shows "\<exists>s' u. us_Create K tm w req s = (s', Inr u) \<and> map_of (us_users s') (usr_ID v) = Some u \<and>
    length (us_users s') = length (us_users s) \<and> us_Authenticate K (usr_Username v) p s' = None"
proof -
  have v: "usr_ID v = to_lower (cu_Username req)" "to_lower (usr_Username v) = to_lower (cu_Username req)"
    using users_ok_entry [OF assms(1,2)] by (simp_all add: user_ok_def)
  have "find (\<lambda>(i, u). usr_Username u = cu_Username req) (us_users s) = None"
    using assms(2,3) by (simp add: find_user [OF assms(1)])
  then obtain s' u where c: "us_Create K tm w req s = (s', Inr u)"
    using assms(4-6) by (auto simp: us_Create_def Let_def not_less)
  note r = us_Create_result [OF assms(1) c]
  have m: "map_of (us_users s') (to_lower (cu_Username req)) = Some u" by (simp add: r(1) update_conv')
  have "users_ok s'" using us_Create_ok [OF assms(1), of K tm w req] by (simp add: c)
  then have "us_Authenticate K (usr_Username v) p s' = None"
    using assms(3) m r(2) by (auto simp: us_Authenticate_def find_user v(2))
  moreover have "to_lower (cu_Username req) \<in> fst ` set (us_users s)" using assms(2) by (force dest: map_of_SomeD)
  then have "length (us_users s') = length (us_users s)" unfolding r(1) by (rule length_update_known)
  ultimately show ?thesis using c m v(1) by auto
qed

text \<open>
  A refused update is not without effect: the role is checked after the password has been
  replaced, so the caller is told that the request failed and the new password already logs in,
  until a restart reads the old one from the file.
\<close>

theorem refused_update_changes_the_password:
  assumes "crypto_laws K" and "users_ok s" and "map_of (us_users s) i = Some u"
    and "uu_Password req = Some p" and "4 \<le> length p" and "cr_hash K p = Some h" and "bad_role req"
  shows "\<exists>s'. us_Update K tm w i req s = (s', Inl ''role must be admin or ops'') \<and> us_disk s' = us_disk s \<and>
    us_Authenticate K (usr_Username u) p s' = Some (u\<lparr>usr_PasswordHash := h\<rparr>)"
proof -
  let ?v = "u\<lparr>usr_PasswordHash := h\<rparr>" and ?s = "s\<lparr>us_users := AList.update i (u\<lparr>usr_PasswordHash := h\<rparr>) (us_users s)\<rparr>"
  have "with_password K req u = Some ?v" using assms(4-6) by (simp add: with_password_def)
  then have c: "us_Update K tm w i req s = (?s, Inl ''role must be admin or ops'')"
    using assms(3,7) by (simp add: us_Update_def)
  have "users_ok ?s" using us_Update_ok [OF assms(2), of K tm w i req] by (simp add: c)
  moreover have "i = to_lower (usr_Username u)" using users_ok_entry [OF assms(2,3)] by (simp add: user_ok_def)
  moreover have "cr_compare K h p" using assms(1,6) by (simp add: crypto_laws_def)
  ultimately have "us_Authenticate K (usr_Username u) p ?s = Some ?v"
    by (simp add: us_Authenticate_user [of _ _ ?v] update_conv')
  with c show ?thesis by simp
qed

section \<open>The properties at work\<close>

text \<open>A hash that is the identity, and a code of the claims with every length in front.\<close>

definition put_string :: "string \<Rightarrow> string" where
  "put_string s = replicate (length s) (CHR ''x'') @ CHR ''.'' # s"

definition get_string :: "string \<Rightarrow> string \<times> string" where
  "get_string t = (let n = length (takeWhile (\<lambda>c. c = CHR ''x'') t) in (take n (drop (n + 1) t), drop (n + 1 + n) t))"

definition put_int :: "int \<Rightarrow> string" where
  "put_int k = put_string (replicate (nat k) (CHR ''x'')) @ put_string (replicate (nat (- k)) (CHR ''x''))"

definition get_int :: "string \<Rightarrow> int \<times> string" where
  "get_int t = (let (a, t1) = get_string t; (b, t2) = get_string t1 in (int (length a) - int (length b), t2))"

definition plain_crypto :: Crypto where
  "plain_crypto = \<lparr>
     cr_mac = (\<lambda>secret msg. secret @ msg),
     cr_marshal = (\<lambda>c. put_string (jwt_UserID c) @ put_string (jwt_Username c) @ put_string (jwt_Role c) @
       put_int (jwt_Exp c) @ put_int (jwt_Iat c)),
     cr_unmarshal = (\<lambda>t. let (i, t1) = get_string t; (n, t2) = get_string t1; (r, t3) = get_string t2;
         (e, t4) = get_int t3; (a, t5) = get_int t4
       in Some \<lparr>jwt_UserID = i, jwt_Username = n, jwt_Role = r, jwt_Exp = e, jwt_Iat = a\<rparr>),
     cr_hash = Some, cr_compare = (=)\<rparr>"

lemma get_put_string [simp]: "get_string (put_string s @ t) = (s, t)"
proof -
  have "takeWhile (\<lambda>c. c = CHR ''x'') (put_string s @ t) = replicate (length s) (CHR ''x'')"
    unfolding put_string_def by (subst append_assoc, subst takeWhile_append2) auto
  then show ?thesis by (simp add: get_string_def put_string_def)
qed

lemma get_put_int [simp]: "get_int (put_int k @ t) = (k, t)"
  by (simp add: get_int_def put_int_def)

lemma plain_crypto_laws: "crypto_laws plain_crypto"
proof -
  have "get_int (put_int k) = (k, [])" for k using get_put_int [of k "[]"] by simp
  then show ?thesis by (simp add: crypto_laws_def plain_crypto_def)
qed

lemma plain_hash: "cr_hash plain_crypto p = Some p" "cr_compare plain_crypto h p \<longleftrightarrow> h = p"
  by (simp_all add: plain_crypto_def)

definition sample_user :: User where
  "sample_user = \<lparr>usr_ID = ''eve'', usr_Username = ''Eve'', usr_PasswordHash = ''password1'', usr_Role = ''admin'',
     usr_DisplayName = [], usr_Email = [], usr_CreatedAt = 0, usr_UpdatedAt = 0\<rparr>"

definition sample_users :: UserStore where
  "sample_users = us_save True \<lparr>us_users = [(''eve'', sample_user),
     (''admin'', default_admin plain_crypto 0)], us_disk = []\<rparr>"

definition sample_create :: "string \<Rightarrow> CreateUserRequest" where
  "sample_create n = \<lparr>cu_Username = n, cu_Password = ''password2'', cu_Role = ''ops'', cu_DisplayName = [], cu_Email = []\<rparr>"

definition sample_request :: "string \<Rightarrow> Request" where
  "sample_request token = \<lparr>rq_Method = ''POST'', rq_Path = ''/api/v1/users'', rq_Authorization = ''Bearer '' @ token, rq_Token = []\<rparr>"

lemma sample_names: "to_lower ''Eve'' = ''eve''" "to_lower ''eve'' = ''eve''" "to_lower ''admin'' = ''admin''"
  by code_simp+

lemma sample_users_ok: "users_ok sample_users"
  by (simp add: users_ok_def sample_users_def user_ok_def sample_user_def default_admin_def sample_names)

lemma sample_request_api: "api_request (sample_request token)"
  by (simp add: api_request_def sample_request_def public_path_def isHeartbeatPingPath_def)

lemma sample_lookup: "map_of (us_users sample_users) ''eve'' = Some sample_user"
  by (simp add: sample_users_def)

lemma token_round_trip_witness:
  "verifyJWT plain_crypto ''key'' 5 (signJWT plain_crypto ''key'' (login_claims 1 sample_user)) = Inr (login_claims 1 sample_user)"
  using token_round_trip [OF plain_crypto_laws, of "''key''" 5 "login_claims 1 sample_user"] by (simp add: login_claims_def)

lemma verified_token_is_signed_witness:
  "\<exists>header payload bytes.
    signJWT plain_crypto ''key'' (login_claims 1 sample_user) =
      header @ ''.'' @ payload @ ''.'' @ url_encode (cr_mac plain_crypto ''key'' (header @ ''.'' @ payload)) \<and>
    url_decode payload = Some bytes \<and> cr_unmarshal plain_crypto bytes = Some (login_claims 1 sample_user)"
proof -
  have "verifyJWT plain_crypto ''key'' 5 (signJWT plain_crypto ''key'' (login_claims 1 sample_user)) = Inr (login_claims 1 sample_user)"
    by (simp add: verify_signed [OF plain_crypto_laws] login_claims_def)
  from verified_token_is_signed [OF this] show ?thesis by blast
qed

lemma changes_need_an_administrator_witness:
  "\<exists>claims. ExtractJWTClaims plain_crypto ''key'' 5
      (sample_request (signJWT plain_crypto ''key'' (login_claims 1 sample_user))) = Some claims \<and> jwt_Role claims = ''admin''"
proof -
  let ?token = "signJWT plain_crypto ''key'' (login_claims 1 sample_user)"
  let ?r = "sample_request ?token" and ?cfg = "\<lparr>auth_Enabled = False, auth_Username = [], auth_Password = []\<rparr>"
  have bearer: "rq_Authorization ?r = ''Bearer '' @ ?token" by (simp add: sample_request_def)
  have "ExtractJWTClaims plain_crypto ''key'' 5 ?r = Some (login_claims 1 sample_user)"
    using issued_token [OF plain_crypto_laws bearer, of 5] by (simp add: login_claims_def)
  then have "authMiddleware plain_crypto ''key'' 5 ?cfg True ?r = Served"
    using api_request_answer [OF sample_request_api bearer] by (simp add: login_claims_def sample_user_def)
  from changes_need_an_administrator [OF this] sample_request_api [of ?token]
  show ?thesis by (auto simp: api_request_def isMutatingMethod_def sample_request_def)
qed

lemma created_user_can_work_witness:
  "\<exists>s' u. us_Create plain_crypto 0 True (sample_create ''bob'') sample_users = (s', Inr u) \<and>
    HandleLogin plain_crypto ''key'' 1 ''bob'' ''password2'' s' = Some (signJWT plain_crypto ''key'' (login_claims 1 u)) \<and>
    authMiddleware plain_crypto ''key'' 5 \<lparr>auth_Enabled = False, auth_Username = [], auth_Password = []\<rparr> True
      (sample_request (signJWT plain_crypto ''key'' (login_claims 1 u))) = Forbidden"
proof -
  have "find (\<lambda>(i, u). usr_Username u = ''bob'') (us_users sample_users) = None"
    by (simp add: sample_users_def sample_user_def default_admin_def)
  then obtain s' u where c: "us_Create plain_crypto 0 True (sample_create ''bob'') sample_users = (s', Inr u)"
    by (simp add: us_Create_def sample_create_def plain_hash Let_def)
  let ?r = "sample_request (signJWT plain_crypto ''key'' (login_claims 1 u))"
  have "rq_Authorization ?r = ''Bearer '' @ signJWT plain_crypto ''key'' (login_claims 1 u)" by (simp add: sample_request_def)
  moreover have "isMutatingMethod (rq_Method ?r)" by (simp add: isMutatingMethod_def sample_request_def)
  ultimately show ?thesis
    using c sample_request_api created_user_can_work [OF plain_crypto_laws sample_users_ok c, of "''key''" 1 ?r 5
      "\<lparr>auth_Enabled = False, auth_Username = [], auth_Password = []\<rparr>"]
    by (simp add: sample_create_def)
qed

lemma deleted_administrator_keeps_access_witness:
  "\<exists>token s'. HandleLogin plain_crypto ''key'' 1 ''Eve'' ''password1'' sample_users = Some token \<and>
    us_Delete True ''eve'' sample_users = (s', None) \<and>
    HandleLogin plain_crypto ''key'' 2 ''Eve'' ''password1'' s' = None \<and>
    authMiddleware plain_crypto ''key'' 5 \<lparr>auth_Enabled = False, auth_Username = [], auth_Password = []\<rparr> True
      (sample_request token) = Served"
proof -
  have login: "us_Authenticate plain_crypto ''Eve'' ''password1'' sample_users = Some sample_user"
    by (simp add: us_Authenticate_def sample_users_def plain_hash sample_user_def)
  then have "HandleLogin plain_crypto ''key'' 1 ''Eve'' ''password1'' sample_users =
      Some (signJWT plain_crypto ''key'' (login_claims 1 sample_user))" (is "_ = Some ?token")
    by (simp add: HandleLogin_token)
  moreover obtain s' where d: "us_Delete True ''eve'' sample_users = (s', None)"
    by (simp add: us_Delete_def sample_users_def adminCount_def sample_user_def default_admin_def)
  moreover have "rq_Authorization (sample_request ?token) = ''Bearer '' @ ?token" by (simp add: sample_request_def)
  moreover have "usr_Role sample_user = ''admin''" by (simp add: sample_user_def)
  ultimately show ?thesis
    using deleted_administrator_keeps_access [where n = "''Eve''" and s = sample_users and w = True and s' = s' and
        u = sample_user and now = 5 and t = 1 and r = "sample_request ?token",
        OF plain_crypto_laws sample_users_ok] sample_request_api sample_lookup
    by (simp add: sample_names)
qed

lemma last_administrator_can_be_removed_witness:
  "us_Delete True ''eve'' (fst (us_Update plain_crypto 5 True ''eve'' demotion
      \<lparr>us_users = [(''eve'', sample_user)], us_disk = [sample_user]\<rparr>)) = (\<lparr>us_users = [], us_disk = []\<rparr>, None)"
  using last_administrator_can_be_removed [OF plain_crypto_laws plain_hash(1), where i = "''eve''" and u = sample_user
    and s = "\<lparr>us_users = [(''eve'', sample_user)], us_disk = [sample_user]\<rparr>" and tm = 5]
  by (simp add: sample_user_def)

lemma create_replaces_another_account_witness:
  "\<exists>s' u. us_Create plain_crypto 0 True (sample_create ''eve'') sample_users = (s', Inr u) \<and>
    map_of (us_users s') ''eve'' = Some u \<and> us_Authenticate plain_crypto ''Eve'' ''password1'' s' = None"
proof -
  have "usr_ID sample_user = ''eve''" "usr_Username sample_user = ''Eve''" by (simp_all add: sample_user_def)
  then show ?thesis
    using create_replaces_another_account [OF sample_users_ok, of "sample_create ''eve''" sample_user plain_crypto "''password2''"
        0 True "''password1''"] sample_lookup
    by (force simp: sample_create_def sample_names plain_hash)
qed

lemma refused_update_changes_the_password_witness:
  "\<exists>s'. us_Update plain_crypto 0 True ''eve'' \<lparr>uu_Password = Some ''other'', uu_Role = Some ''root'', uu_DisplayName = None,
      uu_Email = None\<rparr> sample_users = (s', Inl ''role must be admin or ops'') \<and>
    us_Authenticate plain_crypto ''Eve'' ''other'' s' = Some (sample_user\<lparr>usr_PasswordHash := ''other''\<rparr>)"
proof -
  have "usr_Username sample_user = ''Eve''" by (simp add: sample_user_def)
  then show ?thesis
    using refused_update_changes_the_password [OF plain_crypto_laws sample_users_ok sample_lookup, of
        "\<lparr>uu_Password = Some ''other'', uu_Role = Some ''root'', uu_DisplayName = None, uu_Email = None\<rparr>" "''other''" "''other''" 0 True]
    by (auto simp: plain_hash bad_role_def)
qed

end
