(* ===== verification/Config.thy ===== *)
theory Config
  imports Runner
begin

text \<open>
  Loading the configuration (\<open>config.go\<close>, \<open>validation.go\<close>): default values, the identifiers made from
  names, and the validation of servers and checks with the \<open>ApplyDefaults\<close> and \<open>Validate\<close> of every check
  type (\<open>check_*.go\<close>). \<open>url.Parse\<close> is a parameter: it gives the \<open>Host\<close> and the \<open>Hostname\<close> of a URL;
  random tokens are an argument. Reading and parsing the file is left out.
\<close>

section \<open>Names and identifiers\<close>

definition is_slug_char :: "char \<Rightarrow> bool" where
  "is_slug_char c \<longleftrightarrow> (let n = of_char c :: nat in 97 \<le> n \<and> n \<le> 122 \<or> 48 \<le> n \<and> n \<le> 57)"

text \<open>\<open>nonSlug.ReplaceAllString(s, "-")\<close> for the expression \<open>[^a-z0-9]+\<close>.\<close>

function replace_non_slug :: "string \<Rightarrow> string" where
  "replace_non_slug [] = []"
| "replace_non_slug (c # s) =
     (if is_slug_char c then c # replace_non_slug s
      else CHR ''-'' # replace_non_slug (dropWhile (\<lambda>d. \<not> is_slug_char d) s))"
  by pat_completeness auto
termination by (relation "measure length") (auto simp: le_imp_less_Suc length_dropWhile_le)

definition trim_dashes :: "string \<Rightarrow> string" where
  "trim_dashes s = rev (dropWhile (\<lambda>c. c = CHR ''-'') (rev (dropWhile (\<lambda>c. c = CHR ''-'') s)))"

definition slugify :: "string \<Rightarrow> string" where
  "slugify v =
     (let v = trim_dashes (replace_non_slug (to_lower (trim_space v)))
      in if v = [] then ''check'' else v)"

definition buildCheckID :: "CheckConfig \<Rightarrow> string" where
  "buildCheckID c =
     (let base = trim_space (chk_ID c);
          base = (if base = [] then chk_Name c else base);
          base = (if base = [] then chk_Target c else base)
      in slugify base)"

text \<open>The expressions \<open>^[a-z0-9-]+$\<close> and \<open><[^>]*>\<close>.\<close>

definition checkIDRegex :: "string \<Rightarrow> bool" where
  "checkIDRegex s \<longleftrightarrow> s \<noteq> [] \<and> list_all (\<lambda>c. is_slug_char c \<or> c = CHR ''-'') s"

definition htmlTagRegex :: "string \<Rightarrow> bool" where
  "htmlTagRegex s \<longleftrightarrow> CHR ''>'' \<in> set (dropWhile (\<lambda>c. c \<noteq> CHR ''<'') s)"

definition ValidateCheckID :: "string \<Rightarrow> string option" where
  "ValidateCheckID i =
     (if i = [] then Some ''check ID cannot be empty''
      else if length i > 100 then Some ''check ID must be 100 characters or fewer''
      else if \<not> checkIDRegex i then Some ''check ID must match pattern''
      else None)"

definition validateName :: "string \<Rightarrow> string option" where
  "validateName name =
     (if name = [] then Some ''name is required''
      else if length name > 200 then Some ''name must be 200 characters or fewer''
      else if htmlTagRegex name then Some ''name must not contain HTML tags''
      else None)"

definition ValidateAndDecodeCheck :: "CheckConfig option \<Rightarrow> string + CheckConfig" where
  "ValidateAndDecodeCheck decoded =
     (case decoded of
        None \<Rightarrow> Inl ''invalid JSON''
      | Some check \<Rightarrow>
          (case (if chk_ID check \<noteq> [] then ValidateCheckID (chk_ID check) else None) of
             Some err \<Rightarrow> Inl err
           | None \<Rightarrow>
               (case validateName (chk_Name check) of
                  Some err \<Rightarrow> Inl err
                | None \<Rightarrow> if chk_Type check = [] then Inl ''type is required'' else Inr check)))"

text \<open>A query parameter that is a number, or is not.\<close>

definition QueryIntRange :: "int option \<Rightarrow> int \<Rightarrow> int \<Rightarrow> int \<Rightarrow> int" where
  "QueryIntRange param lo hi fallback =
     (case param of
        None \<Rightarrow> fallback
      | Some v \<Rightarrow> if v < lo then lo else if v > hi then hi else v)"

section \<open>Hosts\<close>

text \<open>\<open>net.SplitHostPort\<close>, only its host.\<close>

definition last_colon :: "string \<Rightarrow> nat option" where
  "last_colon s =
     (let after_colon = takeWhile (\<lambda>c. c \<noteq> CHR '':'') (rev s)
      in if length after_colon = length s then None else Some (length s - length after_colon - 1))"

definition SplitHost :: "string \<Rightarrow> string option" where
  "SplitHost hostport =
     (case last_colon hostport of
        None \<Rightarrow> None
      | Some i \<Rightarrow>
          if hostport ! 0 = CHR ''['' then
            (let n = length (takeWhile (\<lambda>c. c \<noteq> CHR '']'') hostport)
             in if n = length hostport \<or> n + 1 \<noteq> i then None
                else if CHR ''['' \<in> set (drop 1 hostport) \<or> CHR '']'' \<in> set (drop (n + 1) hostport) then None
                else Some (take (n - 1) (drop 1 hostport)))
          else if CHR '':'' \<in> set (take i hostport) then None
          else if CHR ''['' \<in> set hostport \<or> CHR '']'' \<in> set hostport then None
          else Some (take i hostport))"

definition parseHostFromTarget :: "(string \<Rightarrow> (string \<times> string) option) \<Rightarrow> string \<Rightarrow> string" where
  "parseHostFromTarget parse target =
     (let plain = (case SplitHost target of Some host \<Rightarrow> host | None \<Rightarrow> target)
      in if target = [] then []
         else if str_contains target ''://'' then
           (case parse target of
              Some (host, hostname) \<Rightarrow> if host \<noteq> [] then (if hostname \<noteq> [] then hostname else host) else plain
            | None \<Rightarrow> plain)
         else plain)"

definition resolveTCPAddress :: "CheckConfig \<Rightarrow> string" where
  "resolveTCPAddress c =
     (if chk_Target c \<noteq> [] \<and> str_contains (chk_Target c) '':'' then chk_Target c
      else (if chk_Host c = [] then ''127.0.0.1'' else chk_Host c) @ '':'' @ itoa (chk_Port c))"

section \<open>Default values\<close>

definition positive_or :: "int \<Rightarrow> int \<Rightarrow> int" where
  "positive_or d n = (if n \<le> 0 then d else n)"

definition mysql_ApplyDefaults :: "CheckConfig \<Rightarrow> CheckConfig" where
  "mysql_ApplyDefaults c =
     (case chk_MySQL c of
        None \<Rightarrow> c
      | Some m \<Rightarrow> c\<lparr>
          chk_MySQL := Some (m\<lparr>
            my_Port := positive_or 3306 (my_Port m),
            my_ConnectTimeoutSeconds := positive_or 3 (my_ConnectTimeoutSeconds m),
            my_QueryTimeoutSeconds := positive_or 5 (my_QueryTimeoutSeconds m),
            my_ProcesslistLimit := positive_or 50 (my_ProcesslistLimit m),
            my_StatementLimit := positive_or 20 (my_StatementLimit m),
            my_HostUserLimit := positive_or 20 (my_HostUserLimit m)\<rparr>),
          chk_IntervalSeconds := positive_or 15 (chk_IntervalSeconds c),
          chk_TimeoutSeconds := positive_or 10 (chk_TimeoutSeconds c)\<rparr>)"

definition ssh_ApplyDefaults :: "CheckConfig \<Rightarrow> CheckConfig" where
  "ssh_ApplyDefaults c =
     (case chk_SSH c of
        Some h \<Rightarrow> if ssh_Port h \<le> 0 then c\<lparr>chk_SSH := Some (h\<lparr>ssh_Port := 22\<rparr>)\<rparr> else c
      | None \<Rightarrow> c)"

definition ssl_ApplyDefaults :: "CheckConfig \<Rightarrow> CheckConfig" where
  "ssl_ApplyDefaults c =
     (let s = (case chk_SSL c of
                 Some s \<Rightarrow> s
               | None \<Rightarrow> \<lparr>ssl_Host = [], ssl_Port = 0, ssl_ServerName = [], ssl_WarningDays = 0,
                          ssl_CriticalDays = 0, ssl_InsecureSkipVerify = False\<rparr>)
      in c\<lparr>chk_SSL := Some (s\<lparr>ssl_Port := positive_or 443 (ssl_Port s),
            ssl_WarningDays := positive_or 30 (ssl_WarningDays s),
            ssl_CriticalDays := positive_or 7 (ssl_CriticalDays s)\<rparr>)\<rparr>)"

definition dns_ApplyDefaults :: "CheckConfig \<Rightarrow> CheckConfig" where
  "dns_ApplyDefaults c =
     (let d = (case chk_DNS c of
                 Some d \<Rightarrow> d
               | None \<Rightarrow> \<lparr>dns_Name = [], dns_RecordType = [], dns_Resolver = [], dns_Expected = [],
                          dns_MustNotContain = []\<rparr>)
      in c\<lparr>chk_DNS := Some (if dns_RecordType d = [] then d\<lparr>dns_RecordType := ''A''\<rparr> else d)\<rparr>)"

definition ping_ApplyDefaults :: "CheckConfig \<Rightarrow> CheckConfig" where
  "ping_ApplyDefaults c =
     (let p = (case chk_Ping c of
                 Some p \<Rightarrow> p
               | None \<Rightarrow> \<lparr>ping_Host = [], ping_Count = 0, ping_MaxPacketLossPercent = 0, ping_MaxAvgLatencyMs = 0\<rparr>)
      in c\<lparr>chk_Ping := Some (p\<lparr>ping_Count := positive_or 3 (ping_Count p),
            ping_MaxPacketLossPercent := positive_or 50 (ping_MaxPacketLossPercent p)\<rparr>)\<rparr>)"

definition domain_ApplyDefaults :: "CheckConfig \<Rightarrow> CheckConfig" where
  "domain_ApplyDefaults c =
     (let d = (case chk_Domain c of
                 Some d \<Rightarrow> d
               | None \<Rightarrow> \<lparr>dom_Domain = [], dom_WarningDays = 0, dom_CriticalDays = 0, dom_RDAPEndpoint = []\<rparr>)
      in c\<lparr>chk_Domain := Some (d\<lparr>dom_WarningDays := positive_or 30 (dom_WarningDays d),
            dom_CriticalDays := positive_or 7 (dom_CriticalDays d)\<rparr>)\<rparr>)"

definition plugin_ApplyDefaults ::
  "string \<Rightarrow> CheckConfig \<Rightarrow> HeartbeatStore \<Rightarrow> CheckConfig \<times> HeartbeatStore" where
  "plugin_ApplyDefaults newToken c states =
     (if chk_Type c = ''mysql'' then (mysql_ApplyDefaults c, states)
      else if chk_Type c = ''ssh'' then (ssh_ApplyDefaults c, states)
      else if chk_Type c = ''ssl'' then (ssl_ApplyDefaults c, states)
      else if chk_Type c = ''dns'' then (dns_ApplyDefaults c, states)
      else if chk_Type c = ''ping'' then (ping_ApplyDefaults c, states)
      else if chk_Type c = ''domain'' then (domain_ApplyDefaults c, states)
      else if chk_Type c = ''heartbeat'' then hb_ApplyDefaults newToken c states
      else (c, states))"

definition common_defaults :: "CheckConfig \<Rightarrow> CheckConfig" where
  "common_defaults c = c\<lparr>
     chk_TimeoutSeconds := positive_or 5 (chk_TimeoutSeconds c),
     chk_ExpectedStatus := (if chk_ExpectedStatus c = 0 then 200 else chk_ExpectedStatus c),
     chk_Enabled := (case chk_Enabled c of None \<Rightarrow> Some True | Some b \<Rightarrow> Some b),
     chk_Type := to_lower (trim_space (chk_Type c)),
     chk_Server := (if chk_Server c = [] then ''default'' else chk_Server c),
     chk_FailuresToOpen := positive_or 1 (chk_FailuresToOpen c),
     chk_SuccessesToResolve := positive_or 1 (chk_SuccessesToResolve c)\<rparr>"

definition check_applyDefaults ::
  "string \<Rightarrow> CheckConfig \<Rightarrow> HeartbeatStore \<Rightarrow> CheckConfig \<times> HeartbeatStore" where
  "check_applyDefaults newToken c states = plugin_ApplyDefaults newToken (common_defaults c) states"

definition server_applyDefaults :: "RemoteServer \<Rightarrow> RemoteServer" where
  "server_applyDefaults s = s\<lparr>
     srv_Port := positive_or 22 (srv_Port s),
     srv_Enabled := (case srv_Enabled s of None \<Rightarrow> Some True | Some b \<Rightarrow> Some b)\<rparr>"

text \<open>Every check is given the token that would be generated for it.\<close>

fun checks_applyDefaults ::
  "(nat \<Rightarrow> string) \<Rightarrow> nat \<Rightarrow> CheckConfig list \<Rightarrow> HeartbeatStore \<Rightarrow> CheckConfig list \<times> HeartbeatStore" where
  "checks_applyDefaults tokens i [] states = ([], states)"
| "checks_applyDefaults tokens i (c # cs) states =
     (let (c, states) = check_applyDefaults (tokens i) c states;
          (cs, states) = checks_applyDefaults tokens (i + 1) cs states
      in (c # cs, states))"

definition config_applyDefaults ::
  "(nat \<Rightarrow> string) \<Rightarrow> Config \<Rightarrow> HeartbeatStore \<Rightarrow> Config \<times> HeartbeatStore" where
  "config_applyDefaults tokens c states =
     (let sv = cfg_Server c;
          sv = sv\<lparr>sc_Addr := (if sc_Addr sv = [] then '':8080'' else sc_Addr sv),
                  sc_ReadTimeoutSeconds := positive_or 10 (sc_ReadTimeoutSeconds sv),
                  sc_WriteTimeoutSeconds := positive_or 10 (sc_WriteTimeoutSeconds sv),
                  sc_IdleTimeoutSeconds := positive_or 60 (sc_IdleTimeoutSeconds sv)\<rparr>;
          (checks, states) = checks_applyDefaults tokens 0 (cfg_Checks c) states
      in (c\<lparr>cfg_Server := sv,
            cfg_RetentionDays := positive_or 7 (cfg_RetentionDays c),
            cfg_CheckIntervalSeconds := positive_or 60 (cfg_CheckIntervalSeconds c),
            cfg_Workers := positive_or 8 (cfg_Workers c),
            cfg_Servers := map server_applyDefaults (cfg_Servers c),
            cfg_Checks := checks\<rparr>, states))"

section \<open>Validation\<close>

text \<open>A type that is not registered is \<open>None\<close>; an executor's verdict is an error or none.\<close>

definition api_Validate :: "CheckConfig \<Rightarrow> string option" where
  "api_Validate c = (if chk_Target c = [] then Some ''target is required for api checks'' else None)"

definition tcp_Validate :: "CheckConfig \<Rightarrow> string option" where
  "tcp_Validate c =
     (if chk_Port c \<le> 0 then Some ''port is required for tcp checks''
      else if chk_Host c = [] \<and> chk_Target c = [] then Some ''host or target is required for tcp checks''
      else None)"

definition command_Validate :: "bool \<Rightarrow> CheckConfig \<Rightarrow> string option" where
  "command_Validate allowed c =
     (if chk_Command c = [] then Some ''command is required for command checks''
      else if \<not> allowed then
        Some ''command checks are disabled for security; set allowCommandChecks=true to enable (use with caution)''
      else None)"

definition log_Validate :: "CheckConfig \<Rightarrow> string option" where
  "log_Validate c =
     (if chk_Path c = [] then Some ''path is required for log checks''
      else if chk_FreshnessSeconds c \<le> 0 then Some ''freshnessSeconds is required for log checks''
      else None)"

definition process_Validate :: "CheckConfig \<Rightarrow> string option" where
  "process_Validate c = (if chk_Target c = [] then Some ''target is required for process checks'' else None)"

definition mysql_Validate :: "CheckConfig \<Rightarrow> string option" where
  "mysql_Validate c =
     (case chk_MySQL c of
        None \<Rightarrow> Some ''mysql config block is required for mysql checks''
      | Some m \<Rightarrow>
          if \<not> (my_Host m \<noteq> [] \<and> my_Username m \<noteq> []) \<and> my_DSNEnv m = []
          then Some ''mysql config requires either host+username or dsnEnv'' else None)"

definition ssh_Validate :: "CheckConfig \<Rightarrow> string option" where
  "ssh_Validate c =
     (case chk_SSH c of
        None \<Rightarrow> Some ''ssh config block is required for ssh checks''
      | Some h \<Rightarrow>
          if ssh_Host h = [] then Some ''ssh.host is required for ssh checks''
          else if ssh_User h = [] then Some ''ssh.user is required for ssh checks''
          else if \<not> (ssh_KeyPath h \<noteq> [] \<or> ssh_KeyEnv h \<noteq> []) \<and>
                  \<not> (ssh_Password h \<noteq> [] \<or> ssh_PasswordEnc h \<noteq> [] \<or> ssh_PasswordEnv h \<noteq> [])
          then Some ''ssh auth required: set keyPath/keyEnv or password/passwordEnv''
          else None)"

definition ssl_resolveHost :: "(string \<Rightarrow> (string \<times> string) option) \<Rightarrow> CheckConfig \<Rightarrow> string" where
  "ssl_resolveHost parse c =
     (case chk_SSL c of
        Some s \<Rightarrow>
          if ssl_Host s \<noteq> [] then ssl_Host s
          else if chk_Host c \<noteq> [] then chk_Host c else parseHostFromTarget parse (chk_Target c)
      | None \<Rightarrow> if chk_Host c \<noteq> [] then chk_Host c else parseHostFromTarget parse (chk_Target c))"

definition days_error :: "string \<Rightarrow> int \<Rightarrow> int \<Rightarrow> string" where
  "days_error kind crit warn =
     kind @ ''.criticalDays ('' @ itoa crit @ '') must be <= '' @ kind @ ''.warningDays ('' @ itoa warn @ '')''"

definition ssl_Validate :: "(string \<Rightarrow> (string \<times> string) option) \<Rightarrow> CheckConfig \<Rightarrow> string option" where
  "ssl_Validate parse c =
     (if ssl_resolveHost parse c = [] then Some ''ssl check requires host, target, or ssl.host''
      else case chk_SSL c of
             Some s \<Rightarrow>
               if ssl_CriticalDays s > ssl_WarningDays s
               then Some (days_error ''ssl'' (ssl_CriticalDays s) (ssl_WarningDays s)) else None
           | None \<Rightarrow> None)"

definition dns_Validate :: "CheckConfig \<Rightarrow> string option" where
  "dns_Validate c =
     (let name = (case chk_DNS c of Some d \<Rightarrow> dns_Name d | None \<Rightarrow> []);
          name = (if name = [] then chk_Target c else name)
      in if name = [] then Some ''dns check requires dns.name or target''
         else case chk_DNS c of
                None \<Rightarrow> None
              | Some d \<Rightarrow>
                  (let rt = to_upper (dns_RecordType d)
                   in if rt \<in> {''A'', ''AAAA'', ''CNAME'', ''TXT'', ''MX'', ''NS''} then None
                      else Some (''unsupported dns recordType '' @ go_quote rt @ '' (use A, AAAA, CNAME, TXT, MX, NS)'')))"

definition ping_resolveHost :: "CheckConfig \<Rightarrow> string" where
  "ping_resolveHost c =
     (case chk_Ping c of
        Some p \<Rightarrow> if ping_Host p \<noteq> [] then ping_Host p else if chk_Host c \<noteq> [] then chk_Host c else chk_Target c
      | None \<Rightarrow> if chk_Host c \<noteq> [] then chk_Host c else chk_Target c)"

definition ping_Validate :: "CheckConfig \<Rightarrow> string option" where
  "ping_Validate c =
     (if ping_resolveHost c = [] then Some ''ping check requires host, target, or ping.host'' else None)"

definition domain_Validate :: "CheckConfig \<Rightarrow> string option" where
  "domain_Validate c =
     (let domain = (case chk_Domain c of Some d \<Rightarrow> dom_Domain d | None \<Rightarrow> []);
          domain = (if domain = [] then chk_Target c else domain)
      in if domain = [] then Some ''domain check requires domain.domain or target''
         else case chk_Domain c of
                None \<Rightarrow> None
              | Some d \<Rightarrow>
                  if dom_CriticalDays d > dom_WarningDays d
                  then Some (days_error ''domain'' (dom_CriticalDays d) (dom_WarningDays d)) else None)"

definition plugin_Validate ::
  "(string \<Rightarrow> (string \<times> string) option) \<Rightarrow> Config \<Rightarrow> CheckConfig \<Rightarrow> string option option" where
  "plugin_Validate parse cfg c =
     (let t = chk_Type c
      in if t = ''api'' then Some (api_Validate c)
         else if t = ''tcp'' then Some (tcp_Validate c)
         else if t = ''command'' then Some (command_Validate (cfg_AllowCommandChecks cfg) c)
         else if t = ''log'' then Some (log_Validate c)
         else if t = ''process'' then Some (process_Validate c)
         else if t = ''mysql'' then Some (mysql_Validate c)
         else if t = ''ssh'' then Some (ssh_Validate c)
         else if t = ''ssl'' then Some (ssl_Validate parse c)
         else if t = ''dns'' then Some (dns_Validate c)
         else if t = ''ping'' then Some (ping_Validate c)
         else if t = ''domain'' then Some (domain_Validate c)
         else if t = ''heartbeat'' then Some (hb_Validate c)
         else None)"

definition check_validate ::
  "(string \<Rightarrow> (string \<times> string) option) \<Rightarrow> Config \<Rightarrow> CheckConfig \<Rightarrow> string option" where
  "check_validate parse cfg c =
     (case validateName (chk_Name c) of
        Some err \<Rightarrow> Some err
      | None \<Rightarrow>
          if chk_IntervalSeconds c > 0 \<and> chk_IntervalSeconds c < 10
          then Some (''intervalSeconds must be >= 10 (got '' @ itoa (chk_IntervalSeconds c) @ '')'')
          else if chk_RetryCount c < 0
          then Some (''retryCount must be >= 0 (got '' @ itoa (chk_RetryCount c) @ '')'')
          else if chk_RetryCount c > 0 \<and> chk_RetryDelaySeconds c < 1
          then Some (''retryDelaySeconds must be >= 1 when retryCount > 0 (got '' @ itoa (chk_RetryDelaySeconds c) @ '')'')
          else if chk_CooldownSeconds c < 0
          then Some (''cooldownSeconds must be >= 0 (got '' @ itoa (chk_CooldownSeconds c) @ '')'')
          else case plugin_Validate parse cfg c of
                 None \<Rightarrow> Some (''unsupported type '' @ go_quote (chk_Type c))
               | Some verdict \<Rightarrow> verdict)"

definition server_validate :: "RemoteServer \<Rightarrow> string option" where
  "server_validate s =
     (case validateName (srv_Name s) of
        Some err \<Rightarrow> Some err
      | None \<Rightarrow>
          if srv_Host s = [] then Some ''host is required''
          else if srv_User s = [] then Some ''user is required''
          else if \<not> (srv_KeyPath s \<noteq> [] \<or> srv_KeyEnv s \<noteq> []) \<and>
                  \<not> (srv_Password s \<noteq> [] \<or> srv_PasswordEnc s \<noteq> [] \<or> srv_PasswordEnv s \<noteq> [])
          then Some ''auth required: set keyPath/keyEnv or password/passwordEnv''
          else None)"

text \<open>The two loops of \<open>Config.validate\<close>; the loop over the checks fills in missing identifiers.\<close>

fun validate_servers :: "int \<Rightarrow> string list \<Rightarrow> RemoteServer list \<Rightarrow> string + string list" where
  "validate_servers i ids [] = Inr ids"
| "validate_servers i ids (s # ss) =
     (if srv_ID s = [] then Inl (''server at index '' @ itoa i @ '' must have an id'')
      else if srv_ID s \<in> set ids then Inl (''duplicate server id '' @ go_quote (srv_ID s))
      else case server_validate s of
             Some err \<Rightarrow> Inl (''server '' @ go_quote (srv_ID s) @ '': '' @ err)
           | None \<Rightarrow> validate_servers (i + 1) (srv_ID s # ids) ss)"

fun validate_checks ::
  "(string \<Rightarrow> (string \<times> string) option) \<Rightarrow> Config \<Rightarrow> string list \<Rightarrow> int \<Rightarrow> string list \<Rightarrow> CheckConfig list \<Rightarrow>
     string + CheckConfig list" where
  "validate_checks parse cfg servers i seen [] = Inr []"
| "validate_checks parse cfg servers i seen (c # cs) =
     (let c = (if chk_ID c = [] then c\<lparr>chk_ID := buildCheckID c\<rparr> else c)
      in if chk_ID c = [] then Inl (''check at index '' @ itoa i @ '' must have an id or name'')
         else if chk_ID c \<in> set seen then Inl (''duplicate check id '' @ go_quote (chk_ID c))
         else if chk_ServerId c \<noteq> [] \<and> chk_ServerId c \<notin> set servers
         then Inl (''check '' @ go_quote (chk_ID c) @ '' references unknown server '' @ go_quote (chk_ServerId c))
         else case check_validate parse cfg c of
                Some err \<Rightarrow> Inl (''check '' @ go_quote (chk_ID c) @ '': '' @ err)
              | None \<Rightarrow>
                  (case validate_checks parse cfg servers (i + 1) (chk_ID c # seen) cs of
                     Inl err \<Rightarrow> Inl err
                   | Inr cs \<Rightarrow> Inr (c # cs)))"

definition config_validate :: "(string \<Rightarrow> (string \<times> string) option) \<Rightarrow> Config \<Rightarrow> string + Config" where
  "config_validate parse cfg =
     (case validate_servers 0 [] (cfg_Servers cfg) of
        Inl err \<Rightarrow> Inl err
      | Inr servers \<Rightarrow>
          if length (cfg_Checks cfg) = 0 then Inl ''config must define at least one check''
          else case validate_checks parse cfg servers 0 [] (cfg_Checks cfg) of
                 Inl err \<Rightarrow> Inl err
               | Inr checks \<Rightarrow> Inr (cfg\<lparr>cfg_Checks := checks\<rparr>))"

definition LoadConfig ::
  "(nat \<Rightarrow> string) \<Rightarrow> (string \<Rightarrow> (string \<times> string) option) \<Rightarrow> string + Config \<Rightarrow> HeartbeatStore \<Rightarrow>
     HeartbeatStore \<times> (string + Config)" where
  "LoadConfig tokens parse file states =
     (case file of
        Inl err \<Rightarrow> (states, Inl err)
      | Inr cfg \<Rightarrow>
          (let (cfg, states) = config_applyDefaults tokens cfg states
           in (states, config_validate parse cfg)))"

section \<open>Identifiers are what the expressions say\<close>

text \<open>The test for HTML tags is the match of the expression \<open><[^>]*>\<close> anywhere in the name.\<close>

lemma htmlTagRegex_iff:
  "htmlTagRegex s \<longleftrightarrow> (\<exists>pre mid post. s = pre @ CHR ''<'' # mid @ CHR ''>'' # post \<and> CHR ''>'' \<notin> set mid)"
proof
  assume "htmlTagRegex s"
  then have gt: "CHR ''>'' \<in> set (dropWhile (\<lambda>c. c \<noteq> CHR ''<'') s)" by (simp add: htmlTagRegex_def)
  then obtain d rest where d: "dropWhile (\<lambda>c. c \<noteq> CHR ''<'') s = d # rest"
    by (cases "dropWhile (\<lambda>c. c \<noteq> CHR ''<'') s") auto
  then have "d = CHR ''<''" using hd_dropWhile [of "\<lambda>c. c \<noteq> CHR ''<''" s] by simp
  moreover have "s = takeWhile (\<lambda>c. c \<noteq> CHR ''<'') s @ d # rest" by (simp flip: d)
  moreover from gt d \<open>d = CHR ''<''\<close> obtain mid post where "rest = mid @ CHR ''>'' # post" "CHR ''>'' \<notin> set mid"
    by (auto dest: split_list_first)
  ultimately show "\<exists>pre mid post. s = pre @ CHR ''<'' # mid @ CHR ''>'' # post \<and> CHR ''>'' \<notin> set mid"
    by metis
next
  assume "\<exists>pre mid post. s = pre @ CHR ''<'' # mid @ CHR ''>'' # post \<and> CHR ''>'' \<notin> set mid"
  then obtain pre mid post where s: "s = pre @ CHR ''<'' # mid @ CHR ''>'' # post" by blast
  show "htmlTagRegex s" unfolding htmlTagRegex_def s by (induction pre) auto
qed

lemma slug_chars: "c \<in> set (replace_non_slug s) \<Longrightarrow> is_slug_char c \<or> c = CHR ''-''"
  by (induction s rule: replace_non_slug.induct) (auto split: if_splits)

definition trimmed :: "('a \<Rightarrow> bool) \<Rightarrow> 'a list \<Rightarrow> bool" where
  "trimmed P s \<longleftrightarrow> s = [] \<or> \<not> P (hd s) \<and> \<not> P (last s)"

lemma trim_id: "trimmed P s \<Longrightarrow> rev (dropWhile P (rev (dropWhile P s))) = s"
proof -
  assume t: "trimmed P s"
  then have "dropWhile P s = s" by (cases s) (simp_all add: trimmed_def)
  moreover from t have "dropWhile P (rev s) = rev s" by (cases s rule: rev_cases) (simp_all add: trimmed_def)
  ultimately show ?thesis by simp
qed

lemma last_dropped: "dropWhile P s \<noteq> [] \<Longrightarrow> last (dropWhile P s) = last s"
  by (induction s) (auto split: if_splits)

lemma trimmed_trim: "trimmed P (rev (dropWhile P (rev (dropWhile P s))))"
proof -
  let ?t = "dropWhile P s"
  have "last (dropWhile P (rev ?t)) = hd ?t" if "dropWhile P (rev ?t) \<noteq> []"
    using last_dropped [OF that] that by (auto simp: last_rev)
  moreover have "?t \<noteq> []" if "dropWhile P (rev ?t) \<noteq> []" using that by (metis dropWhile.simps(1) rev.simps(1))
  ultimately show ?thesis using hd_dropWhile [of P s] hd_dropWhile [of P "rev ?t"]
    unfolding trimmed_def by (metis hd_rev last_rev rev_is_Nil_conv)
qed

lemma trim_sublist: "\<exists>xs ys. s = xs @ rev (dropWhile P (rev (dropWhile P s))) @ ys"
proof (intro exI)
  have "dropWhile P s = rev (dropWhile P (rev (dropWhile P s))) @ rev (takeWhile P (rev (dropWhile P s)))"
    by (simp flip: rev_append)
  then show "s = takeWhile P s @ rev (dropWhile P (rev (dropWhile P s))) @ rev (takeWhile P (rev (dropWhile P s)))"
    using takeWhile_dropWhile_id [of P s] by metis
qed

lemma set_trim_dashes: "set (trim_dashes s) \<subseteq> set s"
proof -
  obtain xs ys where "s = xs @ trim_dashes s @ ys"
    using trim_sublist [of s "\<lambda>c. c = CHR ''-''"] unfolding trim_dashes_def by blast
  then have "set s = set (xs @ trim_dashes s @ ys)" by simp
  then show ?thesis by auto
qed

lemma slugify_regex: "checkIDRegex (slugify v)"
proof -
  let ?t = "trim_dashes (replace_non_slug (to_lower (trim_space v)))"
  have "\<forall>c \<in> set ?t. is_slug_char c \<or> c = CHR ''-''" using set_trim_dashes slug_chars by blast
  moreover have "list_all (\<lambda>c. is_slug_char c \<or> c = CHR ''-'') ''check''" by code_simp
  ultimately show ?thesis by (auto simp: slugify_def checkIDRegex_def list_all_iff Let_def)
qed

text \<open>No character is outside the alphabet, and no two dashes stand side by side.\<close>

definition dashed :: "string \<Rightarrow> bool" where
  "dashed s \<longleftrightarrow> successively (\<lambda>c d. is_slug_char c \<or> is_slug_char d) s \<and> list_all (\<lambda>c. is_slug_char c \<or> c = CHR ''-'') s"

lemma dash_no_slug [simp]: "\<not> is_slug_char (CHR ''-'')"
  by code_simp

lemma replace_hd: "s \<noteq> [] \<Longrightarrow> is_slug_char (hd s) \<Longrightarrow> hd (replace_non_slug s) = hd s"
  by (cases s) auto

lemma hd_rest: "dropWhile (\<lambda>d. \<not> is_slug_char d) s \<noteq> [] \<Longrightarrow> is_slug_char (hd (dropWhile (\<lambda>d. \<not> is_slug_char d) s))"
  using hd_dropWhile [of "\<lambda>d. \<not> is_slug_char d" s] by simp

lemma replace_dashed: "dashed (replace_non_slug s)"
proof (induction s rule: replace_non_slug.induct)
  case (2 c s)
  show ?case
  proof (cases "is_slug_char c")
    case True
    with 2 show ?thesis by (auto simp: dashed_def successively_Cons)
  next
    case False
    define t where "t = dropWhile (\<lambda>d. \<not> is_slug_char d) s"
    have "t \<noteq> [] \<Longrightarrow> is_slug_char (hd (replace_non_slug t))"
      using hd_rest [of s] by (simp add: replace_hd flip: t_def)
    then have "replace_non_slug t \<noteq> [] \<Longrightarrow> is_slug_char (hd (replace_non_slug t))" by (cases t) auto
    with 2 False show ?thesis by (auto simp: dashed_def successively_Cons simp flip: t_def)
  qed
qed (simp add: dashed_def)

lemma dashed_replace: "dashed s \<Longrightarrow> replace_non_slug s = s"
proof (induction s rule: replace_non_slug.induct)
  case (2 c s)
  then have s: "dashed s" by (auto simp: dashed_def successively_Cons)
  show ?case
  proof (cases "is_slug_char c")
    case False
    with 2 have "c = CHR ''-''" "dropWhile (\<lambda>d. \<not> is_slug_char d) s = s"
      by (cases s; auto simp: dashed_def successively_Cons)+
    with 2 False s show ?thesis by simp
  qed (use 2 s in simp)
qed simp

lemma dashed_sublist: "dashed (xs @ ys) \<Longrightarrow> dashed xs \<and> dashed ys"
  by (auto simp: dashed_def successively_append_iff)

lemma dashed_trim: "dashed s \<Longrightarrow> dashed (trim_dashes s)"
proof -
  assume "dashed s"
  obtain xs ys where "s = xs @ trim_dashes s @ ys"
    using trim_sublist [of s "\<lambda>c. c = CHR ''-''"] unfolding trim_dashes_def by blast
  with \<open>dashed s\<close> have "dashed (xs @ trim_dashes s @ ys)" by simp
  then show ?thesis using dashed_sublist by blast
qed

lemma slug_char_facts:
  assumes "is_slug_char c \<or> c = CHR ''-''"
  shows "to_lower_char c = c" and "\<not> is_space c"
  using assms by (auto simp: is_slug_char_def to_lower_char_def is_space_def Let_def)

lemma slugify_shape: "dashed (slugify v) \<and> trimmed (\<lambda>c. c = CHR ''-'') (slugify v) \<and> slugify v \<noteq> []"
proof -
  let ?t = "trim_dashes (replace_non_slug (to_lower (trim_space v)))"
  have "dashed ''check''" by code_simp
  moreover have "trimmed (\<lambda>c. c = CHR ''-'') ?t" unfolding trim_dashes_def by (rule trimmed_trim)
  moreover have "dashed ?t" by (intro dashed_trim replace_dashed)
  ultimately show ?thesis by (auto simp: slugify_def Let_def trimmed_def)
qed

lemma slugify_id:
  assumes "dashed s" and "trimmed (\<lambda>c. c = CHR ''-'') s" and "s \<noteq> []"
  shows "slugify s = s"
proof -
  have ok: "is_slug_char c \<or> c = CHR ''-''" if "c \<in> set s" for c
    using assms(1) that by (auto simp: dashed_def list_all_iff)
  have "trimmed is_space s" using ok slug_char_facts(2) assms(3) by (auto simp: trimmed_def)
  then have "trim_space s = s" unfolding trim_space_def by (rule trim_id)
  moreover have "to_lower s = s" unfolding to_lower_def by (rule map_idI) (use ok slug_char_facts(1) in blast)
  moreover have "trim_dashes s = s" unfolding trim_dashes_def by (rule trim_id [OF assms(2)])
  ultimately show ?thesis using assms(3) dashed_replace [OF assms(1)] by (simp add: slugify_def)
qed

lemma slugify_twice: "slugify (slugify v) = slugify v"
  using slugify_shape [of v] slugify_id by blast

section \<open>Defaults are applied once\<close>

lemma is_space_lower [simp]: "is_space (to_lower_char c) = is_space c"
  by (auto simp: is_space_def to_lower_char_def Let_def)

lemma lower_char_twice [simp]: "to_lower_char (to_lower_char c) = to_lower_char c"
  by (auto simp: to_lower_char_def Let_def)

definition norm_type :: "string \<Rightarrow> string" where
  "norm_type t = to_lower (trim_space t)"

lemma norm_type_twice: "norm_type (norm_type t) = norm_type t"
proof -
  have "trimmed is_space (trim_space t)" unfolding trim_space_def by (rule trimmed_trim)
  then have "trimmed is_space (to_lower (trim_space t))"
    by (auto simp: trimmed_def to_lower_def hd_map last_map)
  then have "trim_space (to_lower (trim_space t)) = to_lower (trim_space t)"
    unfolding trim_space_def [of "to_lower (trim_space t)"] by (rule trim_id)
  then show ?thesis by (simp add: norm_type_def to_lower_def)
qed

lemma positive_or_id [simp]: "0 < n \<Longrightarrow> positive_or d n = n"
  by (simp add: positive_or_def)

lemma positive_or_pos [simp]: "0 < d \<Longrightarrow> 0 < positive_or d n"
  by (simp add: positive_or_def)

text \<open>What the defaults leave, type by type.\<close>

definition kind_defaults_ok :: "CheckConfig \<Rightarrow> bool" where
  "kind_defaults_ok c \<longleftrightarrow>
     (if chk_Type c = ''mysql'' then
        (case chk_MySQL c of None \<Rightarrow> True | Some m \<Rightarrow> 0 < my_Port m \<and> 0 < my_ConnectTimeoutSeconds m \<and>
           0 < my_QueryTimeoutSeconds m \<and> 0 < my_ProcesslistLimit m \<and> 0 < my_StatementLimit m \<and> 0 < my_HostUserLimit m \<and>
           0 < chk_IntervalSeconds c)
      else if chk_Type c = ''ssh'' then (case chk_SSH c of None \<Rightarrow> True | Some h \<Rightarrow> 0 < ssh_Port h)
      else if chk_Type c = ''ssl'' then
        (case chk_SSL c of None \<Rightarrow> False | Some s \<Rightarrow> 0 < ssl_Port s \<and> 0 < ssl_WarningDays s \<and> 0 < ssl_CriticalDays s)
      else if chk_Type c = ''dns'' then (case chk_DNS c of None \<Rightarrow> False | Some d \<Rightarrow> dns_RecordType d \<noteq> [])
      else if chk_Type c = ''ping'' then
        (case chk_Ping c of None \<Rightarrow> False | Some p \<Rightarrow> 0 < ping_Count p \<and> 0 < ping_MaxPacketLossPercent p)
      else if chk_Type c = ''domain'' then
        (case chk_Domain c of None \<Rightarrow> False | Some d \<Rightarrow> 0 < dom_WarningDays d \<and> 0 < dom_CriticalDays d)
      else if chk_Type c = ''heartbeat'' then
        (case chk_Heartbeat c of None \<Rightarrow> False | Some h \<Rightarrow> hb_Token h \<noteq> [] \<and> 0 < hb_GraceSeconds h)
      else True)"

definition defaults_ok :: "CheckConfig \<Rightarrow> bool" where
  "defaults_ok c \<longleftrightarrow> 0 < chk_TimeoutSeconds c \<and> chk_ExpectedStatus c \<noteq> 0 \<and> chk_Enabled c \<noteq> None \<and>
     norm_type (chk_Type c) = chk_Type c \<and> chk_Server c \<noteq> [] \<and> 0 < chk_FailuresToOpen c \<and> 0 < chk_SuccessesToResolve c \<and>
     kind_defaults_ok c"

lemmas apply_defaults_defs = mysql_ApplyDefaults_def ssh_ApplyDefaults_def ssl_ApplyDefaults_def dns_ApplyDefaults_def
  ping_ApplyDefaults_def domain_ApplyDefaults_def hb_ApplyDefaults_def

lemma common_defaults_id:
  assumes "defaults_ok c"
  shows "common_defaults c = c"
proof -
  from assms obtain b where "chk_Enabled c = Some b" by (auto simp: defaults_ok_def)
  with assms show ?thesis by (simp add: common_defaults_def defaults_ok_def norm_type_def)
qed

lemma plugin_type_cases:
  obtains "chk_Type c = ''mysql''" | "chk_Type c = ''ssh''" | "chk_Type c = ''ssl''" | "chk_Type c = ''dns''"
    | "chk_Type c = ''ping''" | "chk_Type c = ''domain''" | "chk_Type c = ''heartbeat''"
    | "chk_Type c \<notin> {''mysql'', ''ssh'', ''ssl'', ''dns'', ''ping'', ''domain'', ''heartbeat''}"
  by blast

lemma plugin_defaults_id:
  assumes "kind_defaults_ok c" and "0 < chk_TimeoutSeconds c"
  shows "fst (plugin_ApplyDefaults tok c states) = c"
proof (cases rule: plugin_type_cases [of c])
  case 1
  with assms show ?thesis by (cases "chk_MySQL c") (simp_all add: plugin_ApplyDefaults_def kind_defaults_ok_def mysql_ApplyDefaults_def)
next
  case 2
  with assms show ?thesis by (cases "chk_SSH c") (simp_all add: plugin_ApplyDefaults_def kind_defaults_ok_def ssh_ApplyDefaults_def)
next
  case 3
  with assms show ?thesis by (cases "chk_SSL c") (simp_all add: plugin_ApplyDefaults_def kind_defaults_ok_def ssl_ApplyDefaults_def)
next
  case 4
  with assms show ?thesis by (cases "chk_DNS c") (simp_all add: plugin_ApplyDefaults_def kind_defaults_ok_def dns_ApplyDefaults_def)
next
  case 5
  with assms show ?thesis by (cases "chk_Ping c") (simp_all add: plugin_ApplyDefaults_def kind_defaults_ok_def ping_ApplyDefaults_def)
next
  case 6
  with assms show ?thesis by (cases "chk_Domain c") (simp_all add: plugin_ApplyDefaults_def kind_defaults_ok_def domain_ApplyDefaults_def)
next
  case 7
  with assms show ?thesis
    by (cases "chk_Heartbeat c") (simp_all add: plugin_ApplyDefaults_def kind_defaults_ok_def hb_ApplyDefaults_def)
next
  case 8
  then show ?thesis by (simp add: plugin_ApplyDefaults_def)
qed

lemma defaults_id: "defaults_ok c \<Longrightarrow> fst (check_applyDefaults tok c states) = c"
  using common_defaults_id plugin_defaults_id by (simp add: check_applyDefaults_def defaults_ok_def)

text \<open>Whatever a check was before, with its defaults it is complete.\<close>

lemma plugin_kind_ok:
  assumes "tok \<noteq> []"
  shows "kind_defaults_ok (fst (plugin_ApplyDefaults tok c states))"
proof (cases rule: plugin_type_cases [of c])
  case 1
  then show ?thesis by (cases "chk_MySQL c") (simp_all add: plugin_ApplyDefaults_def kind_defaults_ok_def mysql_ApplyDefaults_def)
next
  case 2
  then show ?thesis by (cases "chk_SSH c") (simp_all add: plugin_ApplyDefaults_def kind_defaults_ok_def ssh_ApplyDefaults_def)
next
  case 3
  then show ?thesis by (simp add: plugin_ApplyDefaults_def kind_defaults_ok_def ssl_ApplyDefaults_def Let_def)
next
  case 4
  then show ?thesis by (simp add: plugin_ApplyDefaults_def kind_defaults_ok_def dns_ApplyDefaults_def Let_def)
next
  case 5
  then show ?thesis by (simp add: plugin_ApplyDefaults_def kind_defaults_ok_def ping_ApplyDefaults_def Let_def)
next
  case 6
  then show ?thesis by (simp add: plugin_ApplyDefaults_def kind_defaults_ok_def domain_ApplyDefaults_def Let_def)
next
  case 7
  then show ?thesis using assms by (simp add: plugin_ApplyDefaults_def kind_defaults_ok_def hb_ApplyDefaults_def Let_def)
next
  case 8
  then show ?thesis by (simp add: plugin_ApplyDefaults_def kind_defaults_ok_def)
qed

lemma plugin_keeps:
  fixes c states tok
  defines "d \<equiv> fst (plugin_ApplyDefaults tok c states)"
  shows "chk_ID d = chk_ID c" and "chk_Name d = chk_Name c" and "chk_Type d = chk_Type c" and "chk_ServerId d = chk_ServerId c"
    and "chk_ExpectedStatus d = chk_ExpectedStatus c" and "chk_Enabled d = chk_Enabled c" and "chk_Server d = chk_Server c"
    and "chk_FailuresToOpen d = chk_FailuresToOpen c" and "chk_SuccessesToResolve d = chk_SuccessesToResolve c"
    and "0 < chk_TimeoutSeconds c \<Longrightarrow> chk_TimeoutSeconds d = chk_TimeoutSeconds c"
  unfolding d_def by (cases rule: plugin_type_cases [of c];
    simp add: plugin_ApplyDefaults_def apply_defaults_defs Let_def split: option.split)+

lemma defaults_complete:
  assumes "tok \<noteq> []"
  shows "defaults_ok (fst (check_applyDefaults tok c states))"
proof -
  let ?c = "common_defaults c"
  have "0 < chk_TimeoutSeconds ?c \<and> chk_ExpectedStatus ?c \<noteq> 0 \<and> chk_Enabled ?c \<noteq> None \<and>
      norm_type (chk_Type ?c) = chk_Type ?c \<and> chk_Server ?c \<noteq> [] \<and> 0 < chk_FailuresToOpen ?c \<and> 0 < chk_SuccessesToResolve ?c"
    using norm_type_twice [of "chk_Type c"] by (simp add: common_defaults_def norm_type_def split: option.split) blast
  then show ?thesis using plugin_kind_ok [OF assms] unfolding check_applyDefaults_def defaults_ok_def
    by (simp add: plugin_keeps)
qed

section \<open>A loaded configuration is well formed\<close>

definition name_ok :: "string \<Rightarrow> bool" where
  "name_ok n \<longleftrightarrow> n \<noteq> [] \<and> length n \<le> 200 \<and> \<not> htmlTagRegex n"

definition server_ok :: "RemoteServer \<Rightarrow> bool" where
  "server_ok s \<longleftrightarrow> srv_ID s \<noteq> [] \<and> name_ok (srv_Name s) \<and> srv_Host s \<noteq> [] \<and> srv_User s \<noteq> [] \<and>
     0 < srv_Port s \<and> srv_Enabled s \<noteq> None \<and>
     (srv_KeyPath s \<noteq> [] \<or> srv_KeyEnv s \<noteq> [] \<or> srv_Password s \<noteq> [] \<or> srv_PasswordEnc s \<noteq> [] \<or> srv_PasswordEnv s \<noteq> [])"

text \<open>What a check of each type needs to be run.\<close>

definition kind_ok :: "(string \<Rightarrow> (string \<times> string) option) \<Rightarrow> bool \<Rightarrow> CheckConfig \<Rightarrow> bool" where
  "kind_ok parse commands c \<longleftrightarrow>
     (chk_Type c = ''api'' \<or> chk_Type c = ''process'') \<and> chk_Target c \<noteq> [] \<or>
     chk_Type c = ''tcp'' \<and> 0 < chk_Port c \<and> (chk_Host c \<noteq> [] \<or> chk_Target c \<noteq> []) \<or>
     chk_Type c = ''command'' \<and> commands \<and> chk_Command c \<noteq> [] \<or>
     chk_Type c = ''log'' \<and> chk_Path c \<noteq> [] \<and> 0 < chk_FreshnessSeconds c \<or>
     chk_Type c = ''mysql'' \<and> (\<exists>m. chk_MySQL c = Some m \<and> (my_Host m \<noteq> [] \<and> my_Username m \<noteq> [] \<or> my_DSNEnv m \<noteq> []) \<and>
        0 < my_Port m \<and> 0 < my_ConnectTimeoutSeconds m \<and> 0 < my_QueryTimeoutSeconds m) \<or>
     chk_Type c = ''ssh'' \<and> (\<exists>h. chk_SSH c = Some h \<and> ssh_Host h \<noteq> [] \<and> ssh_User h \<noteq> [] \<and> 0 < ssh_Port h \<and>
        (ssh_KeyPath h \<noteq> [] \<or> ssh_KeyEnv h \<noteq> [] \<or> ssh_Password h \<noteq> [] \<or> ssh_PasswordEnc h \<noteq> [] \<or> ssh_PasswordEnv h \<noteq> [])) \<or>
     chk_Type c = ''ssl'' \<and> ssl_resolveHost parse c \<noteq> [] \<and>
        (\<exists>s. chk_SSL c = Some s \<and> 0 < ssl_Port s \<and> 0 < ssl_CriticalDays s \<and> ssl_CriticalDays s \<le> ssl_WarningDays s) \<or>
     chk_Type c = ''dns'' \<and> (\<exists>d. chk_DNS c = Some d \<and> (dns_Name d \<noteq> [] \<or> chk_Target c \<noteq> []) \<and>
        to_upper (dns_RecordType d) \<in> {''A'', ''AAAA'', ''CNAME'', ''TXT'', ''MX'', ''NS''}) \<or>
     chk_Type c = ''ping'' \<and> ping_resolveHost c \<noteq> [] \<and>
        (\<exists>p. chk_Ping c = Some p \<and> 0 < ping_Count p \<and> 0 < ping_MaxPacketLossPercent p) \<or>
     chk_Type c = ''domain'' \<and> (\<exists>d. chk_Domain c = Some d \<and> (dom_Domain d \<noteq> [] \<or> chk_Target c \<noteq> []) \<and>
        0 < dom_CriticalDays d \<and> dom_CriticalDays d \<le> dom_WarningDays d) \<or>
     chk_Type c = ''heartbeat'' \<and> (\<exists>h. chk_Heartbeat c = Some h \<and> hb_Token h \<noteq> [] \<and> 0 < hb_GraceSeconds h \<and>
        0 < hb_ExpectedIntervalSeconds h)"

definition check_ok :: "(string \<Rightarrow> (string \<times> string) option) \<Rightarrow> bool \<Rightarrow> string list \<Rightarrow> CheckConfig \<Rightarrow> bool" where
  "check_ok parse commands servers c \<longleftrightarrow>
     chk_ID c \<noteq> [] \<and> name_ok (chk_Name c) \<and> (chk_ServerId c = [] \<or> chk_ServerId c \<in> set servers) \<and>
     0 < chk_TimeoutSeconds c \<and> chk_ExpectedStatus c \<noteq> 0 \<and> chk_Enabled c \<noteq> None \<and> chk_Server c \<noteq> [] \<and>
     0 < chk_FailuresToOpen c \<and> 0 < chk_SuccessesToResolve c \<and>
     (chk_IntervalSeconds c \<le> 0 \<or> 10 \<le> chk_IntervalSeconds c) \<and> 0 \<le> chk_RetryCount c \<and>
     (chk_RetryCount c = 0 \<or> 1 \<le> chk_RetryDelaySeconds c) \<and> 0 \<le> chk_CooldownSeconds c \<and>
     kind_ok parse commands c"

definition config_ok :: "(string \<Rightarrow> (string \<times> string) option) \<Rightarrow> Config \<Rightarrow> bool" where
  "config_ok parse cfg \<longleftrightarrow>
     sc_Addr (cfg_Server cfg) \<noteq> [] \<and> 0 < sc_ReadTimeoutSeconds (cfg_Server cfg) \<and>
     0 < sc_WriteTimeoutSeconds (cfg_Server cfg) \<and> 0 < sc_IdleTimeoutSeconds (cfg_Server cfg) \<and>
     0 < cfg_RetentionDays cfg \<and> 0 < cfg_CheckIntervalSeconds cfg \<and> 0 < cfg_Workers cfg \<and>
     distinct (map srv_ID (cfg_Servers cfg)) \<and> list_all server_ok (cfg_Servers cfg) \<and>
     cfg_Checks cfg \<noteq> [] \<and> distinct (map chk_ID (cfg_Checks cfg)) \<and>
     list_all (check_ok parse (cfg_AllowCommandChecks cfg) (map srv_ID (cfg_Servers cfg))) (cfg_Checks cfg)"

lemma validateName_ok: "validateName n = None \<longleftrightarrow> name_ok n"
  by (auto simp: validateName_def name_ok_def)

lemma server_validate_ok:
  "server_validate s = None \<longleftrightarrow> name_ok (srv_Name s) \<and> srv_Host s \<noteq> [] \<and> srv_User s \<noteq> [] \<and>
     (srv_KeyPath s \<noteq> [] \<or> srv_KeyEnv s \<noteq> [] \<or> srv_Password s \<noteq> [] \<or> srv_PasswordEnc s \<noteq> [] \<or> srv_PasswordEnv s \<noteq> [])"
  by (cases "validateName (srv_Name s)") (auto simp: server_validate_def validateName_ok [symmetric])

lemma validate_servers_Cons:
  "(\<exists>out. validate_servers i ids (s # ss) = Inr out) \<longleftrightarrow>
     srv_ID s \<noteq> [] \<and> srv_ID s \<notin> set ids \<and> server_validate s = None \<and>
     (\<exists>out. validate_servers (i + 1) (srv_ID s # ids) ss = Inr out)"
  by (cases "srv_ID s = []"; cases "srv_ID s \<in> set ids"; cases "server_validate s";
    simp only: validate_servers.simps if_True if_False option.case simp_thms sum.distinct option.distinct)

lemma validate_servers_iff:
  "(\<exists>out. validate_servers i ids ss = Inr out) \<longleftrightarrow>
     distinct (map srv_ID ss) \<and> set (map srv_ID ss) \<inter> set ids = {} \<and>
     (\<forall>s \<in> set ss. srv_ID s \<noteq> [] \<and> server_validate s = None)"
proof (induction ss arbitrary: i ids)
  case (Cons s ss)
  show ?case unfolding validate_servers_Cons Cons.IH by auto
qed simp

lemma validate_servers_ids: "validate_servers i ids ss = Inr out \<Longrightarrow> set out = set (map srv_ID ss) \<union> set ids"
proof (induction ss arbitrary: i ids)
  case (Cons s ss)
  from Cons.prems have "validate_servers (i + 1) (srv_ID s # ids) ss = Inr out"
    by (cases "srv_ID s = []"; cases "srv_ID s \<in> set ids"; cases "server_validate s";
      simp only: validate_servers.simps if_True if_False option.case simp_thms sum.distinct)
  from Cons.IH [OF this] show ?case by auto
qed simp

text \<open>Completed by the defaults and accepted by its executor, a check has what its type needs.\<close>

lemma plugin_Validate_unknown:
  "chk_Type c \<notin> {''api'', ''tcp'', ''command'', ''log'', ''process'', ''mysql'', ''ssh'', ''ssl'', ''dns'', ''ping'', ''domain'', ''heartbeat''} \<Longrightarrow>
   plugin_Validate parse cfg c = None"
  by (simp add: plugin_Validate_def)

lemma type_cases:
  obtains "t = ''api''" | "t = ''tcp''" | "t = ''command''" | "t = ''log''" | "t = ''process''" | "t = ''mysql''"
    | "t = ''ssh''" | "t = ''ssl''" | "t = ''dns''" | "t = ''ping''" | "t = ''domain''" | "t = ''heartbeat''"
    | "t \<notin> {''api'', ''tcp'', ''command'', ''log'', ''process'', ''mysql'', ''ssh'', ''ssl'', ''dns'', ''ping'', ''domain'', ''heartbeat''}"
  by (cases "t = ''api''", rule that(1), assumption,
    cases "t = ''tcp''", rule that(2), assumption,
    cases "t = ''command''", rule that(3), assumption,
    cases "t = ''log''", rule that(4), assumption,
    cases "t = ''process''", rule that(5), assumption,
    cases "t = ''mysql''", rule that(6), assumption,
    cases "t = ''ssh''", rule that(7), assumption,
    cases "t = ''ssl''", rule that(8), assumption,
    cases "t = ''dns''", rule that(9), assumption,
    cases "t = ''ping''", rule that(10), assumption,
    cases "t = ''domain''", rule that(11), assumption,
    cases "t = ''heartbeat''", rule that(12), assumption,
    rule that(13), simp only: insert_iff empty_iff simp_thms)

lemma kind_ok_iff:
  assumes "kind_defaults_ok c"
  shows "plugin_Validate parse cfg c = Some None \<longleftrightarrow> kind_ok parse (cfg_AllowCommandChecks cfg) c"
proof (cases rule: type_cases [of "chk_Type c"])
  case 1
  then show ?thesis by (simp add: plugin_Validate_def kind_ok_def api_Validate_def)
next
  case 2
  then show ?thesis by (simp add: plugin_Validate_def kind_ok_def tcp_Validate_def not_le)
next
  case 3
  then show ?thesis by (auto simp: plugin_Validate_def kind_ok_def command_Validate_def)
next
  case 4
  then show ?thesis by (auto simp: plugin_Validate_def kind_ok_def log_Validate_def)
next
  case 5
  then show ?thesis by (simp add: plugin_Validate_def kind_ok_def process_Validate_def)
next
  case 6
  with assms show ?thesis
    by (cases "chk_MySQL c") (auto simp: plugin_Validate_def kind_ok_def mysql_Validate_def kind_defaults_ok_def)
next
  case 7
  with assms show ?thesis
    by (cases "chk_SSH c") (auto simp: plugin_Validate_def kind_ok_def ssh_Validate_def kind_defaults_ok_def)
next
  case 8
  with assms show ?thesis
    by (cases "chk_SSL c") (auto simp: plugin_Validate_def kind_ok_def ssl_Validate_def kind_defaults_ok_def)
next
  case 9
  with assms show ?thesis
    by (cases "chk_DNS c") (simp_all add: plugin_Validate_def kind_ok_def dns_Validate_def kind_defaults_ok_def Let_def)
next
  case 10
  with assms show ?thesis
    by (cases "chk_Ping c") (auto simp: plugin_Validate_def kind_ok_def ping_Validate_def kind_defaults_ok_def)
next
  case 11
  with assms show ?thesis
    by (cases "chk_Domain c") (simp_all add: plugin_Validate_def kind_ok_def domain_Validate_def kind_defaults_ok_def Let_def not_less)
next
  case 12
  with assms show ?thesis
    by (cases "chk_Heartbeat c") (auto simp: plugin_Validate_def kind_ok_def hb_Validate_def kind_defaults_ok_def)
next
  case 13
  then show ?thesis by (auto simp: plugin_Validate_unknown kind_ok_def)
qed

lemma check_validate_iff:
  "check_validate parse cfg c = None \<longleftrightarrow>
     name_ok (chk_Name c) \<and> (chk_IntervalSeconds c \<le> 0 \<or> 10 \<le> chk_IntervalSeconds c) \<and> 0 \<le> chk_RetryCount c \<and>
     (chk_RetryCount c \<le> 0 \<or> 1 \<le> chk_RetryDelaySeconds c) \<and> 0 \<le> chk_CooldownSeconds c \<and>
     plugin_Validate parse cfg c = Some None"
proof (cases "validateName (chk_Name c)")
  case None
  then have "name_ok (chk_Name c)" by (simp add: validateName_ok)
  with None show ?thesis
    by (cases "plugin_Validate parse cfg c")
      (simp_all only: check_validate_def option.case option.distinct option.inject simp_thms not_less not_le split: if_split, linarith+)
next
  case (Some err)
  then have "\<not> name_ok (chk_Name c)" by (simp flip: validateName_ok)
  with Some show ?thesis by (simp add: check_validate_def)
qed

text \<open>The loop over the checks: what it returns, and that it accepts its own results.\<close>

definition with_ID :: "CheckConfig \<Rightarrow> CheckConfig" where
  "with_ID c = (if chk_ID c = [] then c\<lparr>chk_ID := buildCheckID c\<rparr> else c)"

lemma validate_checks_Cons:
  "validate_checks parse cfg servers i seen (c # cs) = Inr out \<longleftrightarrow>
     chk_ID (with_ID c) \<noteq> [] \<and> chk_ID (with_ID c) \<notin> set seen \<and>
     (chk_ServerId (with_ID c) = [] \<or> chk_ServerId (with_ID c) \<in> set servers) \<and>
     check_validate parse cfg (with_ID c) = None \<and>
     (\<exists>rest. validate_checks parse cfg servers (i + 1) (chk_ID (with_ID c) # seen) cs = Inr rest \<and> out = with_ID c # rest)"
  unfolding validate_checks.simps with_ID_def [symmetric] Let_def
  by (cases "chk_ID (with_ID c) = []"; cases "chk_ID (with_ID c) \<in> set seen";
      cases "chk_ServerId (with_ID c) = []"; cases "chk_ServerId (with_ID c) \<in> set servers";
      cases "check_validate parse cfg (with_ID c)";
      cases "validate_checks parse cfg servers (i + 1) (chk_ID (with_ID c) # seen) cs";
      simp only: if_True if_False option.case option.distinct sum.case sum.distinct sum.inject simp_thms; blast)

lemma validate_checks_result:
  "validate_checks parse cfg servers i seen cs = Inr out \<Longrightarrow>
     out = map with_ID cs \<and> distinct (map chk_ID out) \<and> set (map chk_ID out) \<inter> set seen = {} \<and>
     (\<forall>c \<in> set out. chk_ID c \<noteq> [] \<and> (chk_ServerId c = [] \<or> chk_ServerId c \<in> set servers) \<and> check_validate parse cfg c = None)"
proof (induction cs arbitrary: i seen out)
  case (Cons c cs)
  then obtain rest where "validate_checks parse cfg servers (i + 1) (chk_ID (with_ID c) # seen) cs = Inr rest"
    and "out = with_ID c # rest" unfolding validate_checks_Cons by blast
  note out = this(2) and IH = Cons.IH [OF this(1)] and c = Cons.prems [unfolded validate_checks_Cons]
  from IH have rest: "rest = map with_ID cs" and a: "distinct (map chk_ID rest)"
    and b: "set (map chk_ID rest) \<inter> set (chk_ID (with_ID c) # seen) = {}"
    and d: "\<forall>c \<in> set rest. chk_ID c \<noteq> [] \<and> (chk_ServerId c = [] \<or> chk_ServerId c \<in> set servers) \<and> check_validate parse cfg c = None"
    by blast+
  show ?case
  proof (intro conjI)
    show "out = map with_ID (c # cs)" by (simp add: out rest)
    show "distinct (map chk_ID out)" using a b unfolding out by auto
    show "set (map chk_ID out) \<inter> set seen = {}" using b c unfolding out by auto
    show "\<forall>c \<in> set out. chk_ID c \<noteq> [] \<and> (chk_ServerId c = [] \<or> chk_ServerId c \<in> set servers) \<and> check_validate parse cfg c = None"
      using d c unfolding out by simp
  qed
qed simp

lemma validate_checks_again:
  "distinct (map chk_ID cs) \<Longrightarrow> set (map chk_ID cs) \<inter> set seen = {} \<Longrightarrow>
     \<forall>c \<in> set cs. chk_ID c \<noteq> [] \<and> (chk_ServerId c = [] \<or> chk_ServerId c \<in> set servers) \<and> check_validate parse cfg c = None \<Longrightarrow>
     validate_checks parse cfg servers i seen cs = Inr cs"
proof (induction cs arbitrary: i seen)
  case (Cons c cs)
  then have "with_ID c = c" by (simp add: with_ID_def)
  with Cons show ?case unfolding validate_checks_Cons by auto
qed simp

lemma slugify_nonempty: "slugify v \<noteq> []"
  using slugify_shape by blast

lemma with_ID_nonempty: "chk_ID (with_ID c) \<noteq> []"
  using slugify_nonempty by (auto simp: with_ID_def buildCheckID_def Let_def)

lemma with_ID_defaults: "defaults_ok (with_ID c) = defaults_ok c"
  by (cases "chk_MySQL c") (simp_all add: with_ID_def defaults_ok_def kind_defaults_ok_def)

lemma checks_defaults:
  "(\<And>k. tokens k \<noteq> []) \<Longrightarrow> list_all defaults_ok (fst (checks_applyDefaults tokens i cs states)) \<and>
     length (fst (checks_applyDefaults tokens i cs states)) = length cs"
proof (induction tokens i cs states rule: checks_applyDefaults.induct)
  case (2 tokens i c cs states)
  obtain c' st where c: "check_applyDefaults (tokens i) c states = (c', st)" by force
  have "defaults_ok c'" using defaults_complete [OF "2.prems", of i c states] by (simp add: c)
  with "2.IH" [OF c [symmetric] refl "2.prems"] show ?case by (simp add: c split_beta)
qed simp

lemma checks_defaults_id:
  "list_all defaults_ok cs \<Longrightarrow> fst (checks_applyDefaults tokens i cs states) = cs"
proof (induction tokens i cs states rule: checks_applyDefaults.induct)
  case (2 tokens i c cs states)
  obtain c' st where c: "check_applyDefaults (tokens i) c states = (c', st)" by force
  have "c' = c" using defaults_id [of c "tokens i" states] "2.prems" by (simp add: c)
  with "2.IH" [OF c [symmetric] refl] "2.prems" show ?case by (simp add: c split_beta)
qed simp

lemma plugin_Validate_cong:
  "cfg_AllowCommandChecks cfg' = cfg_AllowCommandChecks cfg \<Longrightarrow> plugin_Validate parse cfg' c = plugin_Validate parse cfg c"
  by (simp only: plugin_Validate_def)

lemma check_validate_cong:
  "cfg_AllowCommandChecks cfg' = cfg_AllowCommandChecks cfg \<Longrightarrow> check_validate parse cfg' c = check_validate parse cfg c"
  by (simp only: check_validate_def plugin_Validate_cong [of cfg' cfg])

lemma config_validate_result:
  assumes "config_validate parse c = Inr cfg"
  obtains out where "validate_servers 0 [] (cfg_Servers c) = Inr out" and "cfg_Checks c \<noteq> []"
    and "validate_checks parse c out 0 [] (cfg_Checks c) = Inr (cfg_Checks cfg)"
    and "cfg = c\<lparr>cfg_Checks := cfg_Checks cfg\<rparr>"
proof -
  obtain out where out: "validate_servers 0 [] (cfg_Servers c) = Inr out"
    using assms by (cases "validate_servers 0 [] (cfg_Servers c)") (simp_all add: config_validate_def)
  moreover have checks: "cfg_Checks c \<noteq> []"
    using assms out by (cases "cfg_Checks c") (simp_all add: config_validate_def)
  moreover obtain cs where cs: "validate_checks parse c out 0 [] (cfg_Checks c) = Inr cs"
    using assms out checks by (cases "validate_checks parse c out 0 [] (cfg_Checks c)") (simp_all add: config_validate_def)
  moreover have "cfg = c\<lparr>cfg_Checks := cs\<rparr>" using assms out checks cs by (simp add: config_validate_def)
  ultimately show thesis by (intro that [of out]) simp_all
qed

text \<open>A configuration whose defaults have been applied.\<close>

definition server_defaults_ok :: "RemoteServer \<Rightarrow> bool" where
  "server_defaults_ok s \<longleftrightarrow> 0 < srv_Port s \<and> srv_Enabled s \<noteq> None"

definition config_defaults_ok :: "Config \<Rightarrow> bool" where
  "config_defaults_ok cfg \<longleftrightarrow>
     sc_Addr (cfg_Server cfg) \<noteq> [] \<and> 0 < sc_ReadTimeoutSeconds (cfg_Server cfg) \<and>
     0 < sc_WriteTimeoutSeconds (cfg_Server cfg) \<and> 0 < sc_IdleTimeoutSeconds (cfg_Server cfg) \<and>
     0 < cfg_RetentionDays cfg \<and> 0 < cfg_CheckIntervalSeconds cfg \<and> 0 < cfg_Workers cfg \<and>
     list_all server_defaults_ok (cfg_Servers cfg) \<and> list_all defaults_ok (cfg_Checks cfg)"

lemma server_defaults: "server_defaults_ok (server_applyDefaults s)"
  by (simp add: server_defaults_ok_def server_applyDefaults_def split: option.split) blast

lemma server_defaults_id: "server_defaults_ok s \<Longrightarrow> server_applyDefaults s = s"
  by (cases "srv_Enabled s") (simp_all add: server_defaults_ok_def server_applyDefaults_def)

lemma config_defaults:
  assumes "\<forall>k. tokens k \<noteq> []"
  shows "config_defaults_ok (fst (config_applyDefaults tokens c states))"
proof -
  have "list_all server_defaults_ok (map server_applyDefaults ss)" for ss
    by (induction ss) (simp_all add: server_defaults)
  then show ?thesis using checks_defaults [of tokens 0 "cfg_Checks c" states] assms
    by (simp add: config_applyDefaults_def config_defaults_ok_def Let_def split_beta)
qed

lemma config_defaults_id:
  assumes "config_defaults_ok c"
  shows "fst (config_applyDefaults tokens c states) = c"
proof -
  have "map server_applyDefaults (cfg_Servers c) = cfg_Servers c"
    using assms server_defaults_id by (intro map_idI) (auto simp: config_defaults_ok_def list_all_iff)
  moreover have "fst (checks_applyDefaults tokens 0 (cfg_Checks c) states) = cfg_Checks c"
    using assms checks_defaults_id by (simp add: config_defaults_ok_def)
  ultimately show ?thesis using assms
    by (simp add: config_applyDefaults_def config_defaults_ok_def Let_def split_beta)
qed

text \<open>What a successful load has established.\<close>

lemma LoadConfig_result:
  assumes "\<forall>k. tokens k \<noteq> []" and "LoadConfig tokens parse file states = (states', Inr cfg)"
  obtains c out where "config_defaults_ok c" and "validate_servers 0 [] (cfg_Servers c) = Inr out"
    and "cfg_Checks c \<noteq> []" and "validate_checks parse c out 0 [] (cfg_Checks c) = Inr (cfg_Checks cfg)"
    and "cfg = c\<lparr>cfg_Checks := cfg_Checks cfg\<rparr>" and "config_defaults_ok cfg"
proof -
  obtain c0 where c0: "file = Inr c0" using assms(2) by (cases "file") (simp_all add: LoadConfig_def)
  define c where "c = fst (config_applyDefaults tokens c0 states)"
  have "config_validate parse c = Inr cfg"
    using assms(2) by (simp add: LoadConfig_def c0 c_def split: prod.splits)
  then obtain out where out: "validate_servers 0 [] (cfg_Servers c) = Inr out" "cfg_Checks c \<noteq> []"
    "validate_checks parse c out 0 [] (cfg_Checks c) = Inr (cfg_Checks cfg)" "cfg = c\<lparr>cfg_Checks := cfg_Checks cfg\<rparr>"
    by (rule config_validate_result)
  have c: "config_defaults_ok c" unfolding c_def by (rule config_defaults [OF assms(1)])
  have "cfg_Checks cfg = map with_ID (cfg_Checks c)" using validate_checks_result [OF out(3)] by blast
  then have "list_all defaults_ok (cfg_Checks cfg)"
    using c by (simp add: config_defaults_ok_def list.pred_map comp_def with_ID_defaults)
  then have "config_defaults_ok (c\<lparr>cfg_Checks := cfg_Checks cfg\<rparr>)" using c by (simp add: config_defaults_ok_def)
  then have "config_defaults_ok cfg" using out(4) by simp
  with c out show thesis by (rule that)
qed

section \<open>Properties of the configuration\<close>

text \<open>
  C14: A configuration that loads is complete and well formed: identifiers are present and unique,
  references to servers exist, every interval and threshold is in its range, and every check has a
  known type with all that its executor needs.
\<close>

theorem loaded_config_is_well_formed:
  assumes "\<forall>k. tokens k \<noteq> []" and "LoadConfig tokens parse file states = (states', Inr cfg)"
  shows "config_ok parse cfg"
proof -
  obtain c out where c: "config_defaults_ok c" "validate_servers 0 [] (cfg_Servers c) = Inr out" "cfg_Checks c \<noteq> []"
    "validate_checks parse c out 0 [] (cfg_Checks c) = Inr (cfg_Checks cfg)" "cfg = c\<lparr>cfg_Checks := cfg_Checks cfg\<rparr>"
    "config_defaults_ok cfg"
    by (rule LoadConfig_result [OF assms])
  have servers: "cfg_Servers cfg = cfg_Servers c" and allow: "cfg_AllowCommandChecks cfg = cfg_AllowCommandChecks c"
    by (subst c(5), simp)+
  have v: "cfg_Checks cfg \<noteq> []" "distinct (map chk_ID (cfg_Checks cfg))"
    "\<forall>d \<in> set (cfg_Checks cfg). chk_ID d \<noteq> [] \<and> (chk_ServerId d = [] \<or> chk_ServerId d \<in> set out) \<and> check_validate parse c d = None"
    using validate_checks_result [OF c(4)] c(3) by auto
  have ids: "set out = set (map srv_ID (cfg_Servers cfg))" using validate_servers_ids [OF c(2)] servers by simp
  have "list_all server_ok (cfg_Servers cfg)" and "distinct (map srv_ID (cfg_Servers cfg))"
    using validate_servers_iff [of 0 "[]" "cfg_Servers c"] c(2,6)
    by (auto simp: servers config_defaults_ok_def list_all_iff server_ok_def server_defaults_ok_def server_validate_ok)
  moreover have "check_ok parse (cfg_AllowCommandChecks cfg) (map srv_ID (cfg_Servers cfg)) d" if d: "d \<in> set (cfg_Checks cfg)" for d
  proof -
    have dd: "defaults_ok d" using c(6) d by (simp add: config_defaults_ok_def list_all_iff)
    have vd: "chk_ID d \<noteq> []" "chk_ServerId d = [] \<or> chk_ServerId d \<in> set out" "check_validate parse c d = None"
      using v(3) d by blast+
    have "kind_ok parse (cfg_AllowCommandChecks c) d"
      using vd(3) kind_ok_iff [of d parse c] dd by (simp add: check_validate_iff defaults_ok_def)
    then show ?thesis using dd vd unfolding check_ok_def check_validate_iff defaults_ok_def ids allow by auto
  qed
  ultimately show ?thesis using v(1,2) c(6) by (simp add: config_ok_def config_defaults_ok_def list_all_iff)
qed

text \<open>
  Loading is stable: a loaded configuration that is written out and loaded again is accepted and
  not changed; defaults are applied once, identifiers are made once.
\<close>

theorem loading_again_changes_nothing:
  assumes "\<forall>k. tokens k \<noteq> []" and "LoadConfig tokens parse file states = (states', Inr cfg)"
  shows "snd (LoadConfig tokens' parse (Inr cfg) states'') = Inr cfg"
proof -
  obtain c out where c: "config_defaults_ok c" "validate_servers 0 [] (cfg_Servers c) = Inr out" "cfg_Checks c \<noteq> []"
    "validate_checks parse c out 0 [] (cfg_Checks c) = Inr (cfg_Checks cfg)" "cfg = c\<lparr>cfg_Checks := cfg_Checks cfg\<rparr>"
    "config_defaults_ok cfg"
    by (rule LoadConfig_result [OF assms])
  have servers: "cfg_Servers cfg = cfg_Servers c" and allow: "cfg_AllowCommandChecks cfg = cfg_AllowCommandChecks c"
    by (subst c(5), simp)+
  have v: "cfg_Checks cfg \<noteq> []" "distinct (map chk_ID (cfg_Checks cfg))"
    "\<forall>d \<in> set (cfg_Checks cfg). chk_ID d \<noteq> [] \<and> (chk_ServerId d = [] \<or> chk_ServerId d \<in> set out) \<and> check_validate parse c d = None"
    using validate_checks_result [OF c(4)] c(3) by auto
  from v(3) have "\<forall>d \<in> set (cfg_Checks cfg). chk_ID d \<noteq> [] \<and> (chk_ServerId d = [] \<or> chk_ServerId d \<in> set out) \<and>
      check_validate parse cfg d = None"
    using check_validate_cong [OF allow] by simp
  then have "validate_checks parse cfg out 0 [] (cfg_Checks cfg) = Inr (cfg_Checks cfg)"
    using v(2) by (intro validate_checks_again) simp_all
  moreover note v(1)
  ultimately have "config_validate parse cfg = Inr cfg"
    using c(2) by (simp add: config_validate_def servers)
  moreover have "fst (config_applyDefaults tokens' cfg states'') = cfg" by (rule config_defaults_id [OF c(6)])
  ultimately show ?thesis by (simp add: LoadConfig_def split_beta)
qed

text \<open>
  The identifier made from a name is accepted by the identifier rule of the API unless it is too
  long, and is its own identifier: it has no character outside \<open>a-z0-9-\<close>, no dash at an end.
\<close>

theorem made_identifiers_are_valid:
  "ValidateCheckID (slugify v) = (if length (slugify v) > 100 then Some ''check ID must be 100 characters or fewer'' else None) \<and>
   slugify (slugify v) = slugify v"
  using slugify_regex [of v] slugify_shape [of v] slugify_twice [of v] by (simp add: ValidateCheckID_def)

text \<open>
  The default timeout of ten seconds for MySQL checks is never used: the general default of five has
  been filled in before.
\<close>

lemma mysql_timeout_default:
  assumes "norm_type (chk_Type c) = ''mysql''" and "chk_TimeoutSeconds c \<le> 0"
  shows "chk_TimeoutSeconds (fst (check_applyDefaults tok c states)) = 5"
proof -
  have "chk_Type (common_defaults c) = ''mysql''" and "chk_TimeoutSeconds (common_defaults c) = 5"
    using assms by (simp_all add: common_defaults_def norm_type_def positive_or_def)
  then show ?thesis
    by (cases "chk_MySQL (common_defaults c)")
      (simp_all add: check_applyDefaults_def plugin_ApplyDefaults_def mysql_ApplyDefaults_def)
qed

text \<open>
  A certificate check that only asks to be warned five days ahead is refused: the critical threshold
  it has not set is seven.
\<close>

lemma short_warning_is_refused:
  assumes "norm_type (chk_Type c) = ''ssl''" and "chk_SSL c = Some s" and "ssl_WarningDays s = 5" and "ssl_CriticalDays s = 0"
  shows "ssl_Validate parse (fst (check_applyDefaults tok c states)) \<noteq> None"
proof -
  have "chk_Type (common_defaults c) = ''ssl''" and "chk_SSL (common_defaults c) = Some s"
    using assms by (simp_all add: common_defaults_def norm_type_def)
  then have "chk_SSL (fst (check_applyDefaults tok c states)) =
      Some (s\<lparr>ssl_Port := positive_or 443 (ssl_Port s), ssl_WarningDays := 5, ssl_CriticalDays := 7\<rparr>)"
    using assms(3,4) by (simp add: check_applyDefaults_def plugin_ApplyDefaults_def ssl_ApplyDefaults_def positive_or_def)
  then show ?thesis by (simp add: ssl_Validate_def)
qed

section \<open>The properties at work\<close>

definition sample_file :: Config where
  "sample_file = \<lparr>cfg_Server = \<lparr>sc_Addr = [], sc_ReadTimeoutSeconds = 0, sc_WriteTimeoutSeconds = 0, sc_IdleTimeoutSeconds = 0\<rparr>,
     cfg_Auth = \<lparr>auth_Enabled = False, auth_Username = [], auth_Password = []\<rparr>, cfg_RetentionDays = 0,
     cfg_CheckIntervalSeconds = 30, cfg_Workers = 0, cfg_AllowCommandChecks = False, cfg_Servers = [],
     cfg_Checks = [zero_check\<lparr>chk_Name := ''Shop: Web'', chk_Type := '' API '', chk_Target := ''u''\<rparr>,
       zero_check\<lparr>chk_ID := ''cert'', chk_Name := ''c'', chk_Type := ''ssl'', chk_Host := ''h''\<rparr>]\<rparr>"

definition sample_loaded :: Config where
  "sample_loaded = sample_file\<lparr>
     cfg_Server := \<lparr>sc_Addr = '':8080'', sc_ReadTimeoutSeconds = 10, sc_WriteTimeoutSeconds = 10, sc_IdleTimeoutSeconds = 60\<rparr>,
     cfg_RetentionDays := 7, cfg_Workers := 8,
     cfg_Checks := map (\<lambda>c. c\<lparr>chk_TimeoutSeconds := 5, chk_ExpectedStatus := 200, chk_Enabled := Some True,
         chk_Server := ''default'', chk_FailuresToOpen := 1, chk_SuccessesToResolve := 1\<rparr>)
       [zero_check\<lparr>chk_ID := ''shop-web'', chk_Name := ''Shop: Web'', chk_Type := ''api'', chk_Target := ''u''\<rparr>,
        zero_check\<lparr>chk_ID := ''cert'', chk_Name := ''c'', chk_Type := ''ssl'', chk_Host := ''h'',
          chk_SSL := Some \<lparr>ssl_Host = [], ssl_Port = 443, ssl_ServerName = [], ssl_WarningDays = 30, ssl_CriticalDays = 7,
            ssl_InsecureSkipVerify = False\<rparr>\<rparr>]\<rparr>"

lemma sample_loads: "snd (LoadConfig (\<lambda>_. ''t'') (\<lambda>_. None) (Inr sample_file) Map.empty) = Inr sample_loaded"
  by code_simp

lemma sample_load: "LoadConfig (\<lambda>_. ''t'') (\<lambda>_. None) (Inr sample_file) Map.empty =
    (fst (LoadConfig (\<lambda>_. ''t'') (\<lambda>_. None) (Inr sample_file) Map.empty), Inr sample_loaded)"
  using sample_loads by (metis prod.collapse)

theorem loaded_config_is_well_formed_witness: "config_ok (\<lambda>_. None) sample_loaded"
  by (rule loaded_config_is_well_formed [OF _ sample_load]) simp

theorem loading_again_changes_nothing_witness:
  "snd (LoadConfig (\<lambda>_. ''u'') (\<lambda>_. None) (Inr sample_loaded) Map.empty) = Inr sample_loaded"
  by (rule loading_again_changes_nothing [OF _ sample_load]) simp

end
