(* ===== verification/Checks.thy ===== *)
theory Checks
  imports Config Calendar "HOL-Library.List_Lexorder" "HOL-Library.Char_ord"
begin

text \<open>
  The executors of the built-in checks (\<open>check_api.go\<close>, \<open>check_tcp.go\<close>, \<open>check_command.go\<close>,
  \<open>check_log.go\<close>, \<open>check_process.go\<close>, \<open>check_ssl.go\<close>, \<open>check_dns.go\<close>, \<open>check_ping.go\<close>,
  \<open>check_domain.go\<close>): how what the outside world answers becomes the verdict of a check.

  What an executor asks the world for during one execution is a record of functions, \<open>World\<close>: HTTP,
  TCP, TLS and DNS, commands, files, SSH sessions, decryption, and \<open>url.Parse\<close>, \<open>time.Parse\<close> and regular
  expressions. The deadline of the context is part of these answers.
\<close>

section \<open>Numbers and their texts\<close>

text \<open>\<open>strconv.ParseFloat\<close> for decimal numbers without an exponent.\<close>

definition is_digit :: "char \<Rightarrow> bool" where
  "is_digit c \<longleftrightarrow> (let n = of_char c :: nat in 48 \<le> n \<and> n \<le> 57)"

definition parse_unsigned :: "string \<Rightarrow> f64 option" where
  "parse_unsigned s =
     (let whole = takeWhile is_digit s; rest = drop (length whole) s; frac = takeWhile is_digit (drop 1 rest)
      in if rest = [] then (if whole = [] then None else Some (fl64 (of_nat (digits_value whole))))
         else if hd rest = CHR ''.'' \<and> length rest = length frac + 1 \<and> (whole \<noteq> [] \<or> frac \<noteq> [])
         then Some (fl64 (of_nat (digits_value (whole @ frac)) / 10 ^ length frac))
         else None)"

definition ParseFloat :: "string \<Rightarrow> f64 option" where
  "ParseFloat s =
     (case s of
        [] \<Rightarrow> None
      | c # cs \<Rightarrow> if c = CHR ''+'' then parse_unsigned cs
                  else if c = CHR ''-'' then map_option uminus (parse_unsigned cs)
                  else parse_unsigned s)"

text \<open>The verbs \<open>%.1f\<close> and \<open>%.2f\<close>.\<close>

definition fmt_fixed :: "nat \<Rightarrow> f64 \<Rightarrow> string" where
  "fmt_fixed k q =
     (let n = round_half_even (\<bar>q\<bar> * 10 ^ k); frac = itoa (n mod 10 ^ k)
      in (if q < 0 then ''-'' else []) @ itoa (n div 10 ^ k) @ ''.'' @ replicate (k - length frac) (CHR ''0'') @ frac)"

definition duration_hours :: "duration \<Rightarrow> f64" where
  "duration_hours d = f_add (f_of_int (go_quot d 3600000000000)) (f_div (f_of_int (go_rem d 3600000000000)) 3600000000000)"

text \<open>\<open>fmt.Sscanf\<close> with \<open>%d\<close> on text without leading blanks.\<close>

definition scan_int :: "string \<Rightarrow> int option" where
  "scan_int s =
     (let neg = has_prefix s ''-''; t = (if neg \<or> has_prefix s ''+'' then drop 1 s else s); ds = takeWhile is_digit t;
          v = (if neg then - int (digits_value ds) else int (digits_value ds))
      in if ds = [] \<or> v < - 9223372036854775808 \<or> v > 9223372036854775807 then None else Some v)"

section \<open>The world\<close>

datatype tls_answer = Dial_failed string | Handshake_failed string | Certificates "(gotime \<times> gotime) list"

datatype 'p http_answer = Fetch_failed string | Http_status int string | Bad_json string | Payload 'p

datatype auth_method = KeyAuth string | PasswordAuth string

datatype ssh_answer = Connect_failed string | Session_failed string | Ran string "string option"

type_synonym rdap_services = "string option list option list list"

record World =
  w_now :: gotime
  w_darwin :: bool
  w_servers :: "RemoteServer list"
  w_get :: "string \<Rightarrow> string + int \<times> string \<times> int"
  w_dial :: "string \<Rightarrow> string + int"
  w_ssh :: "string \<Rightarrow> string \<Rightarrow> auth_method list \<Rightarrow> string \<Rightarrow> string \<Rightarrow> duration \<Rightarrow> ssh_answer"
  w_getenv :: "string \<Rightarrow> string"
  w_read_file :: "string \<Rightarrow> string + string"
  w_parse_key :: "string \<Rightarrow> string option"
  w_decrypt :: "string \<Rightarrow> string + string"
  w_run :: "string list \<Rightarrow> string \<times> string option"
  w_mtime :: "string \<Rightarrow> string + gotime"
  w_tls :: "string \<Rightarrow> string \<Rightarrow> bool \<Rightarrow> tls_answer"
  w_lookup_ip :: "string \<Rightarrow> string \<Rightarrow> string + (string \<times> bool) list"
  w_lookup_cname :: "string \<Rightarrow> string \<Rightarrow> string + string"
  w_lookup_txt :: "string \<Rightarrow> string \<Rightarrow> string + string list"
  w_lookup_mx :: "string \<Rightarrow> string \<Rightarrow> string + (int \<times> string) list"
  w_lookup_ns :: "string \<Rightarrow> string \<Rightarrow> string + string list"
  w_lookup_ms :: int
  w_rdap :: "string \<Rightarrow> (string \<times> string) list http_answer"
  w_bootstrap :: "rdap_services http_answer"
  w_has_whois :: bool
  w_find :: "string \<Rightarrow> string \<Rightarrow> string option"
  w_parse_time :: "string \<Rightarrow> string \<Rightarrow> gotime option"
  w_parse_url :: "string \<Rightarrow> (string \<times> string) option"

record ProcessInfo =
  pi_PID :: int
  pi_User :: string
  pi_CPUPct :: f64
  pi_MemPct :: f64
  pi_MemMB :: f64
  pi_Command :: string

record ServerSnapshot =
  ss_ServerID :: string
  ss_Timestamp :: gotime
  ss_CPUUsagePercent :: f64
  ss_MemoryTotalMB :: f64
  ss_MemoryUsedMB :: f64
  ss_MemoryUsagePercent :: f64
  ss_DiskTotalGB :: f64
  ss_DiskUsedGB :: f64
  ss_DiskUsagePercent :: f64
  ss_LoadAvg1 :: f64
  ss_LoadAvg5 :: f64
  ss_LoadAvg15 :: f64
  ss_UptimeHours :: f64
  ss_TopProcesses :: "ProcessInfo list"

text \<open>
  What the executors share: the heartbeats, the snapshots of servers, where they are kept at all
  (one file per server), and the cached RDAP registry with its time.
\<close>

record Shared =
  sh_heartbeats :: HeartbeatStore
  sh_snapshots :: "(string \<Rightarrow> ServerSnapshot list) option"
  sh_rdap :: "((string \<rightharpoonup> string) \<times> gotime) option"

definition warn :: "string \<Rightarrow> CheckResult \<Rightarrow> CheckResult" where
  "warn message r = r\<lparr>res_Status := ''warning'', res_Healthy := False, res_Message := message\<rparr>"

section \<open>SSH connections\<close>

text \<open>
  \<open>ssh_collector.go\<close>: the methods of authentication, a key first, and running one command. What the
  server answers depends on its address, the user, the methods, the pinned fingerprint of the host
  key, the command and the timeout.
\<close>

definition loadSSHKey :: "World \<Rightarrow> SSHCheckConfig \<Rightarrow> string + string" where
  "loadSSHKey w cfg =
     (let path = (if ssh_KeyPath cfg = [] \<and> ssh_KeyEnv cfg \<noteq> [] then w_getenv w (ssh_KeyEnv cfg) else ssh_KeyPath cfg)
      in if path = [] then Inl ''no SSH key configured: set keyPath or keyEnv''
         else case w_read_file w path of
                Inl err \<Rightarrow> Inl (''read key '' @ path @ '': '' @ err)
              | Inr bytes \<Rightarrow>
                  (case w_parse_key w bytes of Some err \<Rightarrow> Inl (''parse key: '' @ err) | None \<Rightarrow> Inr bytes))"

definition ssh_password :: "World \<Rightarrow> SSHCheckConfig \<Rightarrow> string + string" where
  "ssh_password w cfg =
     (case (if ssh_Password cfg = [] \<and> ssh_PasswordEnc cfg \<noteq> [] then w_decrypt w (ssh_PasswordEnc cfg) else Inr (ssh_Password cfg)) of
        Inl err \<Rightarrow> Inl (''decrypt ssh password: '' @ err)
      | Inr p \<Rightarrow> Inr (if p = [] \<and> ssh_PasswordEnv cfg \<noteq> [] then w_getenv w (ssh_PasswordEnv cfg) else p))"

definition checkSSHAuth :: "World \<Rightarrow> SSHCheckConfig \<Rightarrow> string + auth_method list" where
  "checkSSHAuth w cfg =
     (case (if ssh_KeyPath cfg \<noteq> [] \<or> ssh_KeyEnv cfg \<noteq> []
            then (case loadSSHKey w cfg of Inl err \<Rightarrow> Inl err | Inr key \<Rightarrow> Inr [KeyAuth key]) else Inr []) of
        Inl err \<Rightarrow> Inl err
      | Inr keys \<Rightarrow>
          (case ssh_password w cfg of
             Inl err \<Rightarrow> Inl err
           | Inr password \<Rightarrow>
               (let methods = keys @ (if password \<noteq> [] then [PasswordAuth password] else [])
                in if methods = []
                   then Inl ''no SSH auth configured: set keyPath/keyEnv or password/passwordEnc/passwordEnv''
                   else Inr methods)))"

definition JoinHostPort :: "string \<Rightarrow> string \<Rightarrow> string" where
  "JoinHostPort host port =
     (if CHR '':'' \<in> set host then ''['' @ host @ '']:'' @ port else host @ '':'' @ port)"

definition ssh_addr :: "SSHCheckConfig \<Rightarrow> string" where
  "ssh_addr cfg = JoinHostPort (ssh_Host cfg) (itoa (positive_or 22 (ssh_Port cfg)))"

definition sshDialAndRun :: "World \<Rightarrow> SSHCheckConfig \<Rightarrow> string \<Rightarrow> duration \<Rightarrow> string \<times> string option" where
  "sshDialAndRun w cfg command timeout =
     (case checkSSHAuth w cfg of
        Inl err \<Rightarrow> ([], Some (''ssh auth: '' @ err))
      | Inr methods \<Rightarrow>
          (case w_ssh w (ssh_addr cfg) (ssh_User cfg) methods (ssh_HostKeyFingerprint cfg) command timeout of
             Connect_failed err \<Rightarrow> ([], Some (''ssh connect '' @ ssh_addr cfg @ '': '' @ err))
           | Session_failed err \<Rightarrow> ([], Some (''ssh session: '' @ err))
           | Ran out err \<Rightarrow> (out, err)))"

section \<open>API, TCP, commands, logs and processes\<close>

definition body_limit :: nat where
  "body_limit = 65536"

definition api_Execute :: "World \<Rightarrow> Shared \<Rightarrow> CheckConfig \<Rightarrow> CheckResult \<Rightarrow> Shared \<times> CheckResult \<times> string option" where
  "api_Execute w sh c r =
     (case w_get w (chk_Target c) of
        Inl err \<Rightarrow> (sh, r, Some err)
      | Inr (status, whole, ms) \<Rightarrow>
          (let body = take body_limit whole;
               latency = f_of_int ms;
               r = set_metric ''latencyMs'' latency
                     (set_metric ''bodyBytes'' (f_of_int (int (length body))) (set_metric ''statusCode'' (f_of_int status) r))
           in if status \<noteq> chk_ExpectedStatus c then (sh, r, Some (''unexpected status code '' @ itoa status))
              else if chk_ExpectedContains c \<noteq> [] \<and> \<not> str_contains body (chk_ExpectedContains c)
              then (sh, r, Some (''expected response to contain '' @ go_quote (chk_ExpectedContains c)))
              else if chk_WarningThresholdMs c > 0 \<and> latency > f_of_int (chk_WarningThresholdMs c)
              then (sh, warn (''slow api response: '' @ fmt_f0 latency @ ''ms'') r, None)
              else (sh, r, None)))"

definition tcp_Execute :: "World \<Rightarrow> Shared \<Rightarrow> CheckConfig \<Rightarrow> CheckResult \<Rightarrow> Shared \<times> CheckResult \<times> string option" where
  "tcp_Execute w sh c r =
     (case w_dial w (resolveTCPAddress c) of
        Inl err \<Rightarrow> (sh, r, Some err)
      | Inr ms \<Rightarrow>
          (let latency = f_of_int ms;
               r = set_metric ''port'' (f_of_int (chk_Port c)) (set_metric ''latencyMs'' latency r)
           in if chk_WarningThresholdMs c > 0 \<and> latency > f_of_int (chk_WarningThresholdMs c)
              then (sh, warn (''slow tcp connect: '' @ fmt_f0 latency @ ''ms'') r, None)
              else (sh, r, None)))"

definition ToSSHConfig :: "RemoteServer \<Rightarrow> SSHCheckConfig" where
  "ToSSHConfig s = \<lparr>ssh_Host = srv_Host s, ssh_Port = srv_Port s, ssh_User = srv_User s, ssh_KeyPath = srv_KeyPath s,
     ssh_KeyEnv = srv_KeyEnv s, ssh_Password = srv_Password s, ssh_PasswordEnc = srv_PasswordEnc s,
     ssh_PasswordEnv = srv_PasswordEnv s, ssh_HasPassword = False, ssh_HostKeyFingerprint = [], ssh_Metrics = []\<rparr>"

definition remote_timeout :: "CheckConfig \<Rightarrow> duration" where
  "remote_timeout c =
     (let t = dur_mul (chk_TimeoutSeconds c) second in if t \<le> 0 then dur_mul 5 second else t)"

definition command_Execute :: "World \<Rightarrow> Shared \<Rightarrow> CheckConfig \<Rightarrow> CheckResult \<Rightarrow> Shared \<times> CheckResult \<times> string option" where
  "command_Execute w sh c r =
     (let (text, failure) =
            (case resolveServer (w_servers w) (chk_ServerId c) of
               Some srv \<Rightarrow>
                 (case sshDialAndRun w (ToSSHConfig srv) (chk_Command c) (remote_timeout c) of
                    (out, Some err) \<Rightarrow> (out, Some (''remote command on '' @ srv_Host srv @ '' failed: '' @ err @ '': '' @ trim_space out))
                  | (out, None) \<Rightarrow> (out, None))
             | None \<Rightarrow>
                 (case w_run w [''sh'', ''-c'', chk_Command c] of
                    (out, Some err) \<Rightarrow> (out, Some (''command failed: '' @ err @ '': '' @ trim_space out))
                  | (out, None) \<Rightarrow> (out, None)))
      in case failure of
           Some err \<Rightarrow> (sh, r, Some err)
         | None \<Rightarrow>
             (let r = set_metric ''outputBytes'' (f_of_int (int (length text))) r
              in if chk_ExpectedContains c \<noteq> [] \<and> \<not> str_contains text (chk_ExpectedContains c)
                 then (sh, r, Some (''expected command output to contain '' @ go_quote (chk_ExpectedContains c)))
                 else (sh, r, None)))"

definition log_age_verdict :: "gotime \<Rightarrow> gotime \<Rightarrow> CheckConfig \<Rightarrow> CheckResult \<Rightarrow> CheckResult \<times> string option" where
  "log_age_verdict now mtime c r =
     (let age = time_sub now mtime; secs = duration_seconds age; r = set_metric ''ageSeconds'' secs r
      in if chk_FreshnessSeconds c > 0 \<and> age > dur_mul (chk_FreshnessSeconds c) second
         then (r, Some (''log heartbeat stale: last update '' @ fmt_f0 secs @ ''s ago''))
         else (r, None))"

definition stat_command :: "string \<Rightarrow> string" where
  "stat_command path = ''stat -c %Y '' @ go_quote path @ '' 2>/dev/null || stat -f %m '' @ go_quote path @ '' 2>/dev/null''"

definition unix_time :: "int \<Rightarrow> gotime" where
  "unix_time s = (s + 62135596800) * 1000000000"

definition log_Execute :: "World \<Rightarrow> Shared \<Rightarrow> CheckConfig \<Rightarrow> CheckResult \<Rightarrow> Shared \<times> CheckResult \<times> string option" where
  "log_Execute w sh c r =
     (case resolveServer (w_servers w) (chk_ServerId c) of
        Some srv \<Rightarrow>
          (case sshDialAndRun w (ToSSHConfig srv) (stat_command (chk_Path c)) (remote_timeout c) of
             (out, Some err) \<Rightarrow> (sh, r, Some (''remote log check on '' @ srv_Host srv @ '': '' @ err))
           | (out, None) \<Rightarrow>
               (case scan_int (trim_space out) of
                  None \<Rightarrow> (sh, r, Some (''failed to parse remote file mtime: '' @ trim_space out))
                | Some mtime \<Rightarrow> (sh, log_age_verdict (w_now w) (unix_time mtime) c r)))
      | None \<Rightarrow>
          (case w_mtime w (chk_Path c) of
             Inl err \<Rightarrow> (sh, r, Some err)
           | Inr mtime \<Rightarrow> (sh, log_age_verdict (w_now w) mtime c r)))"

definition processListCommand :: "bool \<Rightarrow> string list" where
  "processListCommand darwin = (if darwin then [''ps'', ''-ax'', ''-o'', ''pid=,command=''] else [''ps'', ''-eo'', ''pid=,args=''])"

text \<open>\<open>strings.Split\<close> at a single character.\<close>

function split_all :: "char \<Rightarrow> string \<Rightarrow> string list" where
  "split_all d s =
     (let line = takeWhile (\<lambda>c. c \<noteq> d) s
      in if length line = length s then [s] else line # split_all d (drop (length line + 1) s))"
  by pat_completeness auto
termination
proof (relation "measure (\<lambda>(d, s). length s)")
  fix d s and line :: string
  assume "line = takeWhile (\<lambda>c. c \<noteq> d) s" and "length line \<noteq> length s"
  moreover have "length (takeWhile (\<lambda>c. c \<noteq> d) s) \<le> length s" by (rule length_takeWhile_le)
  ultimately show "((d, drop (length line + 1) s), d, s) \<in> measure (\<lambda>(d, s). length s)" by simp
qed simp

declare split_all.simps [simp del]

definition process_Execute :: "World \<Rightarrow> Shared \<Rightarrow> CheckConfig \<Rightarrow> CheckResult \<Rightarrow> Shared \<times> CheckResult \<times> string option" where
  "process_Execute w sh c r =
     (let (text, failure) =
            (case resolveServer (w_servers w) (chk_ServerId c) of
               Some srv \<Rightarrow>
                 (case sshDialAndRun w (ToSSHConfig srv) ''ps -eo pid=,args='' (remote_timeout c) of
                    (out, Some err) \<Rightarrow> (out, Some (''remote process check on '' @ srv_Host srv @ '': '' @ err))
                  | (out, None) \<Rightarrow> (out, None))
             | None \<Rightarrow> w_run w (processListCommand (w_darwin w)))
      in case failure of
           Some err \<Rightarrow> (sh, r, Some err)
         | None \<Rightarrow>
             (let matched = length (filter (\<lambda>line. str_contains line (chk_Target c)) (split_all (CHR 0x0A) text));
                  r = set_metric ''matchedProcesses'' (f_of_int (int matched)) r
              in if matched = 0 then (sh, r, Some (''process '' @ go_quote (chk_Target c) @ '' not found'')) else (sh, r, None)))"

section \<open>Certificates and domains\<close>

definition days_until :: "gotime \<Rightarrow> gotime \<Rightarrow> f64" where
  "days_until now expiry = of_int \<lfloor>f_div (duration_hours (time_sub expiry now)) 24\<rfloor>"

definition fmt_date :: "gotime \<Rightarrow> string" where
  "fmt_date t =
     (let pad = (\<lambda>n s. replicate (n - length s) (CHR ''0'') @ s)
      in pad 4 (itoa (t_year 0 t)) @ ''-'' @ pad 2 (itoa (t_month 0 t)) @ ''-'' @ pad 2 (itoa (t_day 0 t)))"

text \<open>The two thresholds in days, of certificates and domains.\<close>

definition expiry_verdict :: "string \<Rightarrow> string \<Rightarrow> f64 \<Rightarrow> int \<Rightarrow> int \<Rightarrow> CheckResult \<Rightarrow> CheckResult \<times> string option" where
  "expiry_verdict what name days warning critical r =
     (let warningDays = positive_or 30 warning; criticalDays = positive_or 7 critical
      in if \<lfloor>days\<rfloor> \<le> criticalDays
         then (r, Some (what @ name @ '' expires in '' @ fmt_f0 days @ '' days (critical threshold: '' @ itoa criticalDays @ '')''))
         else if \<lfloor>days\<rfloor> \<le> warningDays
         then (warn (what @ name @ '' expires in '' @ fmt_f0 days @ '' days (warning threshold: '' @ itoa warningDays @ '')'') r, None)
         else (r, None))"

definition ssl_config :: "CheckConfig \<Rightarrow> SSLCheckConfig" where
  "ssl_config c =
     (case chk_SSL c of
        Some s \<Rightarrow> s
      | None \<Rightarrow> \<lparr>ssl_Host = [], ssl_Port = 443, ssl_ServerName = [], ssl_WarningDays = 30, ssl_CriticalDays = 7,
                 ssl_InsecureSkipVerify = False\<rparr>)"

definition ssl_port :: "CheckConfig \<Rightarrow> int" where
  "ssl_port c = positive_or 443 (ssl_Port (ssl_config c))"

definition ssl_addr :: "World \<Rightarrow> CheckConfig \<Rightarrow> string" where
  "ssl_addr w c = ssl_resolveHost (w_parse_url w) c @ '':'' @ itoa (ssl_port c)"

definition ssl_answer :: "World \<Rightarrow> CheckConfig \<Rightarrow> tls_answer" where
  "ssl_answer w c =
     w_tls w (ssl_addr w c)
       (if ssl_ServerName (ssl_config c) = [] then ssl_resolveHost (w_parse_url w) c else ssl_ServerName (ssl_config c))
       (ssl_InsecureSkipVerify (ssl_config c))"

definition leaf_verdict ::
  "gotime \<Rightarrow> string \<Rightarrow> SSLCheckConfig \<Rightarrow> gotime \<times> gotime \<Rightarrow> CheckResult \<Rightarrow> CheckResult \<times> string option" where
  "leaf_verdict now host cfg leaf r =
     (let (notBefore, notAfter) = leaf
      in if after now notAfter then (r, Some (''certificate for '' @ host @ '' expired on '' @ fmt_date notAfter))
         else if before now notBefore then (r, Some (''certificate for '' @ host @ '' not valid until '' @ fmt_date notBefore))
         else expiry_verdict ''certificate for '' host (days_until now notAfter) (ssl_WarningDays cfg) (ssl_CriticalDays cfg) r)"

definition ssl_metrics :: "gotime \<Rightarrow> int \<Rightarrow> (gotime \<times> gotime) list \<Rightarrow> CheckResult \<Rightarrow> CheckResult" where
  "ssl_metrics now port certs r =
     set_metric ''port'' (f_of_int port)
       (set_metric ''chainLength'' (f_of_int (int (length certs)))
         (set_metric ''daysUntilExpiry'' (days_until now (snd (hd certs))) r))"

definition ssl_Execute :: "World \<Rightarrow> Shared \<Rightarrow> CheckConfig \<Rightarrow> CheckResult \<Rightarrow> Shared \<times> CheckResult \<times> string option" where
  "ssl_Execute w sh c r =
     (case ssl_answer w c of
        Dial_failed err \<Rightarrow> (sh, r, Some (''tcp connect to '' @ ssl_addr w c @ '' failed: '' @ err))
      | Handshake_failed err \<Rightarrow> (sh, r, Some (''tls handshake with '' @ ssl_addr w c @ '' failed: '' @ err))
      | Certificates certs \<Rightarrow>
          (case certs of
             [] \<Rightarrow> (sh, r, Some (''no certificates returned by '' @ ssl_addr w c))
           | leaf # _ \<Rightarrow>
               (sh, leaf_verdict (w_now w) (ssl_resolveHost (w_parse_url w) c) (ssl_config c) leaf
                      (ssl_metrics (w_now w) (ssl_port c) certs r))))"

text \<open>The date formats a registrar may use, and the fields it may stand in.\<close>

definition date_formats :: "string list" where
  "date_formats = [''2006-01-02T15:04:05Z07:00'', ''2006-01-02T15:04:05Z'', ''2006-01-02T15:04:05-07:00'', ''2006-01-02 15:04:05'',
     ''2006-01-02'', ''02-Jan-2006'', ''January 02 2006'', ''02/01/2006'', ''2006/01/02'', ''20060102'']"

fun first_some :: "('a \<Rightarrow> 'b option) \<Rightarrow> 'a list \<Rightarrow> 'b option" where
  "first_some f [] = None"
| "first_some f (x # xs) = (case f x of Some y \<Rightarrow> Some y | None \<Rightarrow> first_some f xs)"

definition parseDate :: "World \<Rightarrow> string \<Rightarrow> string + gotime" where
  "parseDate w s =
     (let s = trim_space s
      in case first_some (\<lambda>f. w_parse_time w f s) date_formats of
           Some t \<Rightarrow> Inr t
         | None \<Rightarrow> Inl (''could not parse date '' @ go_quote s))"

definition expiry_patterns :: "string list" where
  "expiry_patterns = map (\<lambda>label. ''(?i)'' @ label @ '':'' @ [CHR 0x5C] @ ''s*(.+)'')
     [''Registry Expiry Date'', ''Registrar Registration Expiration Date'', ''Expir(?:y|ation|es) Date'', ''paid-till'',
      ''Expiry date'', ''renewal date'', ''expire'']"

definition parseExpiryDate :: "World \<Rightarrow> string \<Rightarrow> string + gotime" where
  "parseExpiryDate w whois =
     (case first_some (\<lambda>p. case w_find w p whois of
                            None \<Rightarrow> None
                          | Some dateStr \<Rightarrow> (case parseDate w (trim_space dateStr) of Inr t \<Rightarrow> Some t | Inl _ \<Rightarrow> None))
         expiry_patterns of
        Some t \<Rightarrow> Inr t
      | None \<Rightarrow> Inl ''could not find expiry date in WHOIS output'')"

definition lookupWhois :: "World \<Rightarrow> string \<Rightarrow> string + gotime" where
  "lookupWhois w domain =
     (case w_run w [''whois'', domain] of
        (out, Some err) \<Rightarrow> Inl (''whois lookup for '' @ domain @ '' failed: '' @ err)
      | (out, None) \<Rightarrow> parseExpiryDate w out)"

text \<open>The IANA registry: the first \<open>https\<close> address of every entry, or else its first, for all its names.\<close>

definition chosen_url :: "string option list \<Rightarrow> string" where
  "chosen_url urls =
     (case find (\<lambda>u. case u of Some s \<Rightarrow> has_prefix s ''https://'' | None \<Rightarrow> False) urls of
        Some (Some s) \<Rightarrow> s
      | _ \<Rightarrow> (case hd urls of Some s \<Rightarrow> s | None \<Rightarrow> []))"

definition add_service :: "string option list option list \<Rightarrow> (string \<rightharpoonup> string) \<Rightarrow> (string \<rightharpoonup> string)" where
  "add_service svc out =
     (case svc of
        t # u # _ \<Rightarrow>
          (let tlds = (case t of Some ts \<Rightarrow> ts | None \<Rightarrow> []); urls = (case u of Some us \<Rightarrow> us | None \<Rightarrow> [])
           in if urls = [] then out
              else fold (\<lambda>t m. case t of Some s \<Rightarrow> m(to_lower s \<mapsto> chosen_url urls) | None \<Rightarrow> m) tlds out)
      | _ \<Rightarrow> out)"

definition loadRDAPBootstrap :: "World \<Rightarrow> Shared \<Rightarrow> Shared \<times> (string + (string \<rightharpoonup> string))" where
  "loadRDAPBootstrap w sh =
     (case (case sh_rdap sh of
              Some (services, fetched) \<Rightarrow> if time_sub (w_now w) fetched < dur_mul 24 hour then Some services else None
            | None \<Rightarrow> None) of
        Some services \<Rightarrow> (sh, Inr services)
      | None \<Rightarrow>
          (case w_bootstrap w of
             Fetch_failed err \<Rightarrow> (sh, Inl (''fetch rdap bootstrap: '' @ err))
           | Http_status n _ \<Rightarrow> (sh, Inl (''rdap bootstrap HTTP '' @ itoa n))
           | Bad_json err \<Rightarrow> (sh, Inl (''decode rdap bootstrap: '' @ err))
           | Payload svcs \<Rightarrow>
               (let services = fold add_service svcs Map.empty
                in (sh\<lparr>sh_rdap := Some (services, w_now w)\<rparr>, Inr services))))"

definition trim_suffix :: "string \<Rightarrow> string \<Rightarrow> string" where
  "trim_suffix s p = (if has_suffix s p then take (length s - length p) s else s)"

definition rdapBaseForDomain :: "World \<Rightarrow> string \<Rightarrow> Shared \<Rightarrow> Shared \<times> (string + string)" where
  "rdapBaseForDomain w domain sh =
     (let parts = split_all (CHR ''.'') (trim_suffix domain ''.'')
      in if length parts < 2 then (sh, Inl (''invalid domain '' @ go_quote domain))
         else (let tld = to_lower (last parts)
               in case loadRDAPBootstrap w sh of
                    (sh, Inl err) \<Rightarrow> (sh, Inl err)
                  | (sh, Inr services) \<Rightarrow>
                      (case services tld of
                         None \<Rightarrow> (sh, Inl (''no rdap service registered for tld '' @ go_quote tld))
                       | Some base \<Rightarrow> (sh, Inr base))))"

definition trim_right_slashes :: "string \<Rightarrow> string" where
  "trim_right_slashes s = rev (dropWhile (\<lambda>c. c = CHR ''/'') (rev s))"

text \<open>The first event that is an expiration and has a date that can be read.\<close>

definition event_expiry :: "World \<Rightarrow> string \<times> string \<Rightarrow> gotime option" where
  "event_expiry w ev =
     (if equal_fold (fst ev) ''expiration'' then
        (case w_parse_time w ''2006-01-02T15:04:05Z07:00'' (snd ev) of
           Some t \<Rightarrow> Some t
         | None \<Rightarrow> (case parseDate w (snd ev) of Inr t \<Rightarrow> Some t | Inl _ \<Rightarrow> None))
      else None)"

definition lookupRDAP :: "World \<Rightarrow> string \<Rightarrow> string \<Rightarrow> Shared \<Rightarrow> Shared \<times> (string + gotime)" where
  "lookupRDAP w domain overrideEndpoint sh =
     (case (if overrideEndpoint \<noteq> [] then (sh, Inr overrideEndpoint)
            else case rdapBaseForDomain w domain sh of
                   (sh, Inl err) \<Rightarrow> (sh, Inl (''resolve rdap endpoint: '' @ err))
                 | (sh, Inr base) \<Rightarrow> (sh, Inr base)) of
        (sh, Inl err) \<Rightarrow> (sh, Inl err)
      | (sh, Inr base) \<Rightarrow>
          (sh, case w_rdap w (trim_right_slashes base @ ''/domain/'' @ domain) of
                 Fetch_failed err \<Rightarrow> Inl (''rdap request failed: '' @ err)
               | Http_status n body \<Rightarrow> Inl (''rdap returned HTTP '' @ itoa n @ '': '' @ trim_space (take 1024 body))
               | Bad_json err \<Rightarrow> Inl (''decode rdap response: '' @ err)
               | Payload events \<Rightarrow>
                   (case first_some (event_expiry w) events of
                      Some t \<Rightarrow> Inr t
                    | None \<Rightarrow> Inl (''no expiration event in rdap response for '' @ domain))))"

definition domain_config :: "CheckConfig \<Rightarrow> DomainCheckConfig" where
  "domain_config c =
     (case chk_Domain c of
        Some d \<Rightarrow> d
      | None \<Rightarrow> \<lparr>dom_Domain = [], dom_WarningDays = 30, dom_CriticalDays = 7, dom_RDAPEndpoint = []\<rparr>)"

text \<open>RDAP first, then \<open>whois\<close> where it is installed.\<close>

definition find_expiry :: "World \<Rightarrow> string \<Rightarrow> string \<Rightarrow> Shared \<Rightarrow> Shared \<times> (string + gotime)" where
  "find_expiry w domain endpoint sh =
     (case lookupRDAP w domain endpoint sh of
        (sh, Inr t) \<Rightarrow> (sh, Inr t)
      | (sh, Inl err) \<Rightarrow>
          (if w_has_whois w then
             (case lookupWhois w domain of
                Inr t \<Rightarrow> (sh, Inr t)
              | Inl err' \<Rightarrow> (sh, Inl (''rdap and whois both failed: rdap='' @ err @ '', whois='' @ err')))
           else (sh, Inl (''rdap lookup for '' @ domain @ '' failed: '' @ err @ '' (whois binary not installed)''))))"

definition domain_Execute :: "World \<Rightarrow> Shared \<Rightarrow> CheckConfig \<Rightarrow> CheckResult \<Rightarrow> Shared \<times> CheckResult \<times> string option" where
  "domain_Execute w sh c r =
     (let cfg = domain_config c;
          domain = parseHostFromTarget (w_parse_url w) (if dom_Domain cfg = [] then chk_Target c else dom_Domain cfg)
      in case find_expiry w domain (dom_RDAPEndpoint cfg) sh of
           (sh, Inl err) \<Rightarrow> (sh, r, Some err)
         | (sh, Inr expiry) \<Rightarrow>
             (let now = w_now w; days = days_until now expiry; r = set_metric ''daysUntilExpiry'' days r
              in if after now expiry
                 then (sh, r, Some (''domain '' @ domain @ '' expired on '' @ fmt_date expiry))
                 else (sh, expiry_verdict ''domain '' domain days (dom_WarningDays cfg) (dom_CriticalDays cfg) r)))"

section \<open>DNS\<close>

definition dns_config :: "CheckConfig \<Rightarrow> DNSCheckConfig" where
  "dns_config c =
     (case chk_DNS c of
        Some d \<Rightarrow> d
      | None \<Rightarrow> \<lparr>dns_Name = [], dns_RecordType = ''A'', dns_Resolver = [], dns_Expected = [], dns_MustNotContain = []\<rparr>)"

definition map_answer :: "('a \<Rightarrow> 'b) \<Rightarrow> string + 'a \<Rightarrow> string + 'b" where
  "map_answer f a = (case a of Inl err \<Rightarrow> Inl err | Inr x \<Rightarrow> Inr (f x))"

definition dns_lookup :: "World \<Rightarrow> string \<Rightarrow> string \<Rightarrow> string \<Rightarrow> string + string list" where
  "dns_lookup w resolver name recordType =
     (if recordType = ''A'' then map_answer (\<lambda>ips. sort (map fst (filter snd ips))) (w_lookup_ip w resolver name)
      else if recordType = ''AAAA'' then map_answer (\<lambda>ips. sort (map fst (filter (\<lambda>ip. \<not> snd ip) ips))) (w_lookup_ip w resolver name)
      else if recordType = ''CNAME'' then map_answer (\<lambda>cname. [trim_suffix cname ''.'']) (w_lookup_cname w resolver name)
      else if recordType = ''TXT'' then map_answer sort (w_lookup_txt w resolver name)
      else if recordType = ''MX'' then
        map_answer (\<lambda>mxs. sort (map (\<lambda>(pref, host). itoa pref @ '' '' @ trim_suffix host ''.'') mxs)) (w_lookup_mx w resolver name)
      else if recordType = ''NS'' then map_answer (\<lambda>nss. sort (map (\<lambda>host. trim_suffix host ''.'') nss)) (w_lookup_ns w resolver name)
      else Inl (''unsupported record type '' @ go_quote recordType))"

definition expected_found :: "string \<Rightarrow> string list \<Rightarrow> string \<Rightarrow> bool" where
  "expected_found recordType records e =
     (if recordType = ''TXT'' then list_ex (\<lambda>rec. str_contains rec e) records else e \<in> set records)"

definition blocked_found :: "string \<Rightarrow> string list \<Rightarrow> string \<Rightarrow> bool" where
  "blocked_found recordType records b =
     list_ex (\<lambda>rec. rec = b \<or> recordType = ''TXT'' \<and> str_contains rec b) records"

text \<open>\<open>what\<close> is the type and the name that the messages begin with.\<close>

definition dns_verdict ::
  "string \<Rightarrow> string \<Rightarrow> DNSCheckConfig \<Rightarrow> string list \<Rightarrow> CheckResult \<Rightarrow> CheckResult \<times> string option" where
  "dns_verdict what recordType cfg records r =
     (if records = [] then (r, Some (''dns lookup '' @ what @ '' returned no records''))
      else case find (\<lambda>e. \<not> expected_found recordType records e) (dns_Expected cfg) of
             Some e \<Rightarrow> (r, Some (''dns '' @ what @ '': expected value '' @ go_quote e @ '' not found in ['' @ join '' '' records @ '']''))
           | None \<Rightarrow>
               (case find (blocked_found recordType records) (dns_MustNotContain cfg) of
                  Some b \<Rightarrow> (r, Some (''dns '' @ what @ '': forbidden value '' @ go_quote b @ '' found''))
                | None \<Rightarrow> (r, None)))"

definition dns_metrics :: "int \<Rightarrow> nat \<Rightarrow> CheckResult \<Rightarrow> CheckResult" where
  "dns_metrics ms records r =
     set_metric ''recordCount'' (f_of_int (int records)) (set_metric ''latencyMs'' (f_of_int ms) r)"

definition dns_record_type :: "CheckConfig \<Rightarrow> string" where
  "dns_record_type c = (let t = to_upper (dns_RecordType (dns_config c)) in if t = [] then ''A'' else t)"

definition dns_name :: "CheckConfig \<Rightarrow> string" where
  "dns_name c = (if dns_Name (dns_config c) = [] then chk_Target c else dns_Name (dns_config c))"

definition dns_Execute :: "World \<Rightarrow> Shared \<Rightarrow> CheckConfig \<Rightarrow> CheckResult \<Rightarrow> Shared \<times> CheckResult \<times> string option" where
  "dns_Execute w sh c r =
     (let cfg = dns_config c; what = dns_record_type c @ '' '' @ dns_name c
      in case dns_lookup w (dns_Resolver cfg) (dns_name c) (dns_record_type c) of
           Inl err \<Rightarrow> (sh, dns_metrics (w_lookup_ms w) 0 r, Some (''dns lookup '' @ what @ '' failed: '' @ err))
         | Inr records \<Rightarrow>
             (sh, dns_verdict what (dns_record_type c) cfg records (dns_metrics (w_lookup_ms w) (length records) r)))"

section \<open>Ping\<close>

definition is_number_char :: "char \<Rightarrow> bool" where
  "is_number_char c \<longleftrightarrow> is_digit c \<or> c = CHR ''.''"

text \<open>
  The first match of \<open>([\d.]+)% packet loss\<close>: no number goes over the percent sign, so a match is a
  whole run of number characters in front of it. Likewise \<open>= ([\d.]+)/([\d.]+)/([\d.]+)\<close>, its second
  group.
\<close>

fun find_loss :: "string \<Rightarrow> string option" where
  "find_loss [] = None"
| "find_loss (c # s) =
     (let run = takeWhile is_number_char (c # s)
      in if run \<noteq> [] \<and> has_prefix (drop (length run) (c # s)) ''% packet loss'' then Some run else find_loss s)"

definition average_at :: "string \<Rightarrow> string option" where
  "average_at s =
     (if \<not> has_prefix s ''= '' then None
      else (let s1 = drop 2 s; a = takeWhile is_number_char s1; s2 = drop (length a) s1;
                b = takeWhile is_number_char (drop 1 s2); s3 = drop (1 + length b) s2;
                c = takeWhile is_number_char (drop 1 s3)
            in if a \<noteq> [] \<and> has_prefix s2 ''/'' \<and> b \<noteq> [] \<and> has_prefix s3 ''/'' \<and> c \<noteq> [] then Some b else None))"

fun find_average :: "string \<Rightarrow> string option" where
  "find_average [] = None"
| "find_average (c # s) = (case average_at (c # s) of Some b \<Rightarrow> Some b | None \<Rightarrow> find_average s)"

definition ping_config :: "CheckConfig \<Rightarrow> PingCheckConfig" where
  "ping_config c =
     (case chk_Ping c of
        Some p \<Rightarrow> p
      | None \<Rightarrow> \<lparr>ping_Host = [], ping_Count = 3, ping_MaxPacketLossPercent = 50, ping_MaxAvgLatencyMs = 0\<rparr>)"

definition number_or :: "f64 \<Rightarrow> string option \<Rightarrow> f64" where
  "number_or d found =
     (case found of None \<Rightarrow> d | Some s \<Rightarrow> (case ParseFloat s of Some v \<Rightarrow> v | None \<Rightarrow> d))"

definition ping_Execute :: "World \<Rightarrow> Shared \<Rightarrow> CheckConfig \<Rightarrow> CheckResult \<Rightarrow> Shared \<times> CheckResult \<times> string option" where
  "ping_Execute w sh c r =
     (let cfg = ping_config c;
          host = ping_resolveHost c;
          count = positive_or 3 (ping_Count cfg);
          (out, err) = w_run w [''ping'', ''-c'', itoa count, ''-W'', if w_darwin w then ''3000'' else ''3'', host];
          lossPercent = number_or 100 (find_loss out);
          avgLatency = number_or 0 (find_average out);
          r = set_metric ''probeCount'' (f_of_int count)
                (set_metric ''avgLatencyMs'' avgLatency (set_metric ''packetLossPercent'' lossPercent r));
          maxLoss = positive_or 50 (ping_MaxPacketLossPercent cfg)
      in if err \<noteq> None \<and> lossPercent \<ge> 100 then (sh, r, Some (''ping '' @ host @ '': 100% packet loss''))
         else if \<lfloor>lossPercent\<rfloor> > maxLoss
         then (sh, r, Some (''ping '' @ host @ '': '' @ fmt_f0 lossPercent @ ''% packet loss exceeds threshold '' @ itoa maxLoss @ ''%''))
         else if ping_MaxAvgLatencyMs cfg > 0 \<and> avgLatency > f_of_int (ping_MaxAvgLatencyMs cfg)
         then (sh, warn (''ping '' @ host @ '': avg latency '' @ fmt_fixed 1 avgLatency @ ''ms exceeds threshold '' @
                 itoa (ping_MaxAvgLatencyMs cfg) @ ''ms'') r, None)
         else if lossPercent > 0
         then (sh, warn (''ping '' @ host @ '': '' @ fmt_f0 lossPercent @ ''% packet loss'') r, None)
         else (sh, r, None))"

section \<open>Heartbeats and the registry\<close>

definition heartbeat_Execute :: "World \<Rightarrow> Shared \<Rightarrow> CheckConfig \<Rightarrow> CheckResult \<Rightarrow> Shared \<times> CheckResult \<times> string option" where
  "heartbeat_Execute w sh c r =
     (case hb_Execute (w_now w) (sh_heartbeats sh) c r of (states, r, err) \<Rightarrow> (sh\<lparr>sh_heartbeats := states\<rparr>, r, err))"

section \<open>Every executor keeps the contract\<close>

text \<open>
  An executor touches nothing but metrics, status, health and message of the result, and sets the
  status only together with the health, to a warning.
\<close>

definition same_identity :: "CheckResult \<Rightarrow> CheckResult \<Rightarrow> bool" where
  "same_identity r r' \<longleftrightarrow> res_ID r' = res_ID r \<and> res_CheckID r' = res_CheckID r \<and> res_Type r' = res_Type r \<and>
     res_StartedAt r' = res_StartedAt r"

definition filled_in :: "CheckResult \<Rightarrow> 'a \<times> CheckResult \<times> string option \<Rightarrow> bool" where
  "filled_in r out \<longleftrightarrow>
     (case out of (_, r', err) \<Rightarrow>
        same_identity r r' \<and>
        (err = None \<longrightarrow> res_Status r' = res_Status r \<and> res_Healthy r' = res_Healthy r \<or>
                       res_Status r' = ''warning'' \<and> \<not> res_Healthy r'))"

lemma filled_in_simps [simp]:
  "filled_in r (sh, r, e)"
  "filled_in r (sh, set_metric k v r', e) = filled_in r (sh, r', e)"
  "filled_in r (sh, warn m r', None) = same_identity r r'"
  "same_identity r r" "same_identity r (set_metric k v r') = same_identity r r'"
  by (simp_all add: filled_in_def same_identity_def set_metric_def warn_def)

lemma set_metric_status [simp]: "res_Status (set_metric k v r) = res_Status r" "res_Healthy (set_metric k v r) = res_Healthy r"
  by (simp_all add: set_metric_def)

lemma filled_in_executor:
  assumes "\<And>e w c r. filled_in r (exec e w c r)"
  shows "check_executor exec"
proof
  fix e w c r w' r' err
  assume x: "exec e w c r = (w', r', err)"
  show "res_ID r' = res_ID r \<and> res_CheckID r' = res_CheckID r \<and> res_Type r' = res_Type r \<and> res_StartedAt r' = res_StartedAt r"
    using assms [of r e w c] by (simp add: x filled_in_def same_identity_def)
next
  fix e w c r w' r'
  assume x: "exec e w c r = (w', r', None)" and "res_Status r = []" "\<not> res_Healthy r"
  then show "res_Status r' = [] \<and> \<not> res_Healthy r' \<or> (res_Healthy r' \<longleftrightarrow> res_Status r' = ''healthy'')"
    using assms [of r e w c] by (auto simp: x filled_in_def)
qed

lemma api_filled: "filled_in r (api_Execute w sh c r)"
  unfolding api_Execute_def Let_def by (simp split: sum.split prod.split)

lemma tcp_filled: "filled_in r (tcp_Execute w sh c r)"
  unfolding tcp_Execute_def Let_def by (simp split: sum.split)

lemma command_filled: "filled_in r (command_Execute w sh c r)"
  unfolding command_Execute_def Let_def by (simp split: prod.split option.split)

lemma log_age_filled: "filled_in r (sh, log_age_verdict now mtime c r)"
  unfolding log_age_verdict_def Let_def by simp

lemma log_filled: "filled_in r (log_Execute w sh c r)"
  unfolding log_Execute_def Let_def by (simp add: log_age_filled split: option.split sum.split prod.split)

lemma process_filled: "filled_in r (process_Execute w sh c r)"
  unfolding process_Execute_def Let_def by (simp split: prod.split option.split)

lemma expiry_kept [simp]:
  assumes "filled_in r (sh, r', None)" and "res_Status r' = res_Status r" and "res_Healthy r' = res_Healthy r"
  shows "filled_in r (sh, expiry_verdict what name days warning critical r')"
  using assms by (simp add: expiry_verdict_def Let_def filled_in_def same_identity_def warn_def)

lemma ssl_filled: "filled_in r (ssl_Execute w sh c r)"
  unfolding ssl_Execute_def leaf_verdict_def ssl_metrics_def Let_def
  by (simp split: tls_answer.split list.split prod.split)

lemma domain_filled: "filled_in r (domain_Execute w sh c r)"
  unfolding domain_Execute_def Let_def
  by (simp split: sum.split prod.split)

lemma dns_filled: "filled_in r (dns_Execute w sh c r)"
  unfolding dns_Execute_def dns_verdict_def dns_metrics_def Let_def by (simp split: sum.split option.split)

lemma ping_filled: "filled_in r (ping_Execute w sh c r)"
  unfolding ping_Execute_def Let_def by (simp split: prod.split)

interpretation api_executor: check_executor api_Execute by (rule filled_in_executor [OF api_filled])
interpretation tcp_executor: check_executor tcp_Execute by (rule filled_in_executor [OF tcp_filled])
interpretation command_executor: check_executor command_Execute by (rule filled_in_executor [OF command_filled])
interpretation log_executor: check_executor log_Execute by (rule filled_in_executor [OF log_filled])
interpretation process_executor: check_executor process_Execute by (rule filled_in_executor [OF process_filled])
interpretation ssl_executor: check_executor ssl_Execute by (rule filled_in_executor [OF ssl_filled])
interpretation dns_executor: check_executor dns_Execute by (rule filled_in_executor [OF dns_filled])
interpretation ping_executor: check_executor ping_Execute by (rule filled_in_executor [OF ping_filled])
interpretation domain_executor: check_executor domain_Execute by (rule filled_in_executor [OF domain_filled])

lemma heartbeat_filled: "filled_in r (heartbeat_Execute w sh c r)"
proof -
  obtain states r' err where x: "hb_Execute (w_now w) (sh_heartbeats sh) c r = (states, r', err)"
    by (cases "hb_Execute (w_now w) (sh_heartbeats sh) c r")
  have "same_identity r r'" using hb_Execute_keeps [OF x] by (simp add: same_identity_def)
  moreover have "res_Status r' = res_Status r \<and> res_Healthy r' = res_Healthy r \<or> res_Status r' = ''warning'' \<and> \<not> res_Healthy r'"
    if "err = None" using hb_Execute_status [OF x [unfolded that]] by blast
  ultimately show ?thesis by (simp add: heartbeat_Execute_def x filled_in_def)
qed

interpretation shared_heartbeat_executor: check_executor heartbeat_Execute by (rule filled_in_executor [OF heartbeat_filled])

section \<open>Verdicts\<close>

lemma find_none_iff: "find P xs = None \<longleftrightarrow> list_all (\<lambda>x. \<not> P x) xs"
  by (auto simp: find_None_iff list_all_iff)

lemma dns_verdict_passes:
  "snd (dns_verdict what t cfg records r) = None \<longleftrightarrow>
     records \<noteq> [] \<and> list_all (expected_found t records) (dns_Expected cfg) \<and>
     list_all (\<lambda>b. \<not> blocked_found t records b) (dns_MustNotContain cfg)"
proof -
  have "find (\<lambda>e. \<not> expected_found t records e) (dns_Expected cfg) = None \<longleftrightarrow> list_all (expected_found t records) (dns_Expected cfg)"
    by (simp add: find_none_iff)
  moreover have "find (blocked_found t records) (dns_MustNotContain cfg) = None \<longleftrightarrow>
      list_all (\<lambda>b. \<not> blocked_found t records b) (dns_MustNotContain cfg)"
    by (simp add: find_none_iff)
  ultimately show ?thesis
    by (cases "find (\<lambda>e. \<not> expected_found t records e) (dns_Expected cfg)"; cases "find (blocked_found t records) (dns_MustNotContain cfg)")
      (simp_all add: dns_verdict_def)
qed

text \<open>
  A DNS check passes exactly when the lookup succeeds with at least one record, every expected
  value is among the records (in a TXT record: inside one) and no forbidden value is.
\<close>

theorem dns_check_passes_exactly_when:
  "snd (snd (dns_Execute w sh c r)) = None \<longleftrightarrow>
     (\<exists>records. dns_lookup w (dns_Resolver (dns_config c)) (dns_name c) (dns_record_type c) = Inr records \<and>
        records \<noteq> [] \<and> list_all (expected_found (dns_record_type c) records) (dns_Expected (dns_config c)) \<and>
        list_all (\<lambda>b. \<not> blocked_found (dns_record_type c) records b) (dns_MustNotContain (dns_config c)))"
  by (cases "dns_lookup w (dns_Resolver (dns_config c)) (dns_name c) (dns_record_type c)")
    (simp_all add: dns_Execute_def dns_verdict_passes)

text \<open>
  The verdict on a certificate: an error when it has expired, is not valid yet or has no more than
  the critical number of days left; otherwise a warning when it has no more than the warning number;
  otherwise nothing is reported.
\<close>

theorem certificate_verdict:
  assumes "ssl_answer w c = Certificates ((notBefore, notAfter) # chain)" and "res_Status r = []"
    and "ssl_Execute w sh c r = (sh', r', err)" and "days = \<lfloor>days_until (w_now w) notAfter\<rfloor>"
  shows "(err \<noteq> None \<longleftrightarrow> w_now w > notAfter \<or> w_now w < notBefore \<or> days \<le> positive_or 7 (ssl_CriticalDays (ssl_config c))) \<and>
    res_Status r' = (if err = None \<and> days \<le> positive_or 30 (ssl_WarningDays (ssl_config c)) then ''warning'' else [])"
proof -
  let ?q = "ssl_metrics (w_now w) (ssl_port c) ((notBefore, notAfter) # chain) r"
  have q: "res_Status ?q = []" using assms(2) by (simp add: ssl_metrics_def)
  have "(r', err) = leaf_verdict (w_now w) (ssl_resolveHost (w_parse_url w) c) (ssl_config c) (notBefore, notAfter) ?q"
    using assms(1,3) by (simp add: ssl_Execute_def)
  then show ?thesis using q
    by (auto simp: leaf_verdict_def expiry_verdict_def Let_def assms(4) warn_def after_def before_def split: if_splits)
qed

text \<open>The registry is fetched once: for a day every domain check uses what one of them has fetched.\<close>

lemma registry_is_fetched_once_a_day:
  assumes "w_bootstrap w = Payload svcs" and "sh_rdap sh = None"
    and "0 \<le> w_now w' - w_now w" and "w_now w' - w_now w < 86400000000000"
  shows "\<exists>sh' services. loadRDAPBootstrap w sh = (sh', Inr services) \<and> loadRDAPBootstrap w' sh' = (sh', Inr services)"
  using assms by (auto simp: loadRDAPBootstrap_def Let_def time_sub_def dur_mul_def wrap64_def hour_def)

text \<open>
  The path of a log check goes to the remote shell in the double quotes of Go's \<open>%q\<close>, in which the
  shell still expands \<open>$(...)\<close>: a command substitution in the path reaches it as it is, although command
  checks may be switched off.
\<close>

lemma log_path_is_expanded_by_the_shell:
  assumes "CHR 0x22 \<notin> set cmd" and "CHR 0x5C \<notin> set cmd"
  shows "stat_command (''$('' @ cmd @ '')'') =
    ''stat -c %Y '' @ [CHR 0x22] @ ''$('' @ cmd @ '')'' @ [CHR 0x22] @ '' 2>/dev/null || stat -f %m '' @
    [CHR 0x22] @ ''$('' @ cmd @ '')'' @ [CHR 0x22] @ '' 2>/dev/null''"
proof -
  have "concat (map (\<lambda>c. if c = CHR 0x22 \<or> c = CHR 0x5C then [CHR 0x5C, c] else [c]) cmd) = cmd"
    using assms by (induction cmd) auto
  then show ?thesis by (simp add: stat_command_def go_quote_def)
qed

section \<open>The properties at work\<close>

definition sample_world :: World where
  "sample_world = \<lparr>w_now = 0, w_darwin = False, w_servers = [], w_get = (\<lambda>_. Inl ''no''), w_dial = (\<lambda>_. Inl ''no''),
     w_ssh = (\<lambda>_ _ _ _ _ _. Connect_failed ''no''), w_getenv = (\<lambda>_. []), w_read_file = (\<lambda>_. Inl ''no''),
     w_parse_key = (\<lambda>_. None), w_decrypt = Inr, w_run = (\<lambda>_. ([], Some ''no'')), w_mtime = (\<lambda>_. Inl ''no''),
     w_tls = (\<lambda>_ _ _. Certificates [(- 1, 864000000000000)]), w_lookup_ip = (\<lambda>_ _. Inl ''no''),
     w_lookup_cname = (\<lambda>_ _. Inl ''no''), w_lookup_txt = (\<lambda>_ _. Inl ''no''), w_lookup_mx = (\<lambda>_ _. Inl ''no''),
     w_lookup_ns = (\<lambda>_ _. Inl ''no''), w_lookup_ms = 0, w_rdap = (\<lambda>_. Fetch_failed ''no''),
     w_bootstrap = Fetch_failed ''no'', w_has_whois = False, w_find = (\<lambda>_ _. None), w_parse_time = (\<lambda>_ _. None),
     w_parse_url = (\<lambda>_. None)\<rparr>"

definition sample_shared :: Shared where
  "sample_shared = \<lparr>sh_heartbeats = Map.empty, sh_snapshots = None, sh_rdap = None\<rparr>"

text \<open>Ten days before a certificate expires, its check warns.\<close>

theorem certificate_verdict_witness:
  "res_Status (fst (snd (ssl_Execute sample_world sample_shared zero_check zero_result))) = ''warning''"
proof -
  obtain sh' r' err where x: "ssl_Execute sample_world sample_shared zero_check zero_result = (sh', r', err)"
    by (cases "ssl_Execute sample_world sample_shared zero_check zero_result")
  have "\<lfloor>days_until (w_now sample_world) 864000000000000\<rfloor> = 10" by code_simp
  moreover have "ssl_answer sample_world zero_check = Certificates ((- 1, 864000000000000) # [])" by code_simp
  moreover have world: "\<not> w_now sample_world > 864000000000000" "\<not> w_now sample_world < - 1"
    by (simp_all add: sample_world_def)
  moreover have zero: "res_Status zero_result = []" by (simp add: zero_result_def)
  moreover have "positive_or 7 (ssl_CriticalDays (ssl_config zero_check)) = 7"
    "positive_or 30 (ssl_WarningDays (ssl_config zero_check)) = 30" by code_simp+
  ultimately show ?thesis
    using certificate_verdict [of sample_world zero_check "- 1" 864000000000000 "[]" zero_result, OF _ _ x refl]
    unfolding x fst_conv snd_conv by (auto split: if_splits)
qed

end
