(* ===== verification/ServerMetrics.thy ===== *)
theory ServerMetrics
  imports Checks
begin

text \<open>
  The SSH check (\<open>ssh_collector.go\<close>, \<open>runSSH\<close> of \<open>runner.go\<close>): the command it runs on a server, the
  parser of its output, the verdict, and the file-backed repository of server snapshots
  (\<open>server_metrics.go\<close>). With it the registry of all executors is complete but for MySQL, which is a
  parameter.
\<close>

section \<open>The command\<close>

definition shell_echo :: "string \<Rightarrow> string" where
  "shell_echo name = ''echo '' @ [CHR 0x22] @ ''==='' @ name @ ''==='' @ [CHR 0x22]"

definition wanted :: "string list \<Rightarrow> string \<Rightarrow> bool" where
  "wanted metrics name \<longleftrightarrow> metrics = [] \<or> name \<in> set (map to_lower metrics)"

definition command_parts :: "string list \<Rightarrow> string list" where
  "command_parts metrics =
     (if wanted metrics ''cpu'' then [shell_echo ''CPU'', ''cat /proc/stat | head -1'', ''sleep 1'', ''cat /proc/stat | head -1''] else []) @
     (if wanted metrics ''memory'' then [shell_echo ''MEM'', ''free -b''] else []) @
     (if wanted metrics ''disk'' then [shell_echo ''DISK'', ''df -B1 / | tail -1''] else []) @
     (if wanted metrics ''load'' then [shell_echo ''LOAD'', ''cat /proc/loadavg''] else []) @
     (if wanted metrics ''uptime'' then [shell_echo ''UPTIME'', ''cat /proc/uptime''] else []) @
     (if wanted metrics ''iops'' then [shell_echo ''DISKIO'', ''cat /proc/diskstats''] else []) @
     (if wanted metrics ''processes''
      then [shell_echo ''PROCS'', ''ps aux --sort=-%mem 2>/dev/null | head -16 || ps aux | head -16''] else [])"

definition buildMetricsCommand :: "string list \<Rightarrow> string" where
  "buildMetricsCommand metrics = join '' && '' (command_parts metrics)"

section \<open>The parser\<close>

record sshMetrics =
  sm_CPUUsagePercent :: f64
  sm_MemoryTotalMB :: f64
  sm_MemoryUsedMB :: f64
  sm_MemoryUsagePercent :: f64
  sm_DiskTotalGB :: f64
  sm_DiskUsedGB :: f64
  sm_DiskUsagePercent :: f64
  sm_LoadAvg1 :: f64
  sm_LoadAvg5 :: f64
  sm_LoadAvg15 :: f64
  sm_UptimeSeconds :: f64
  sm_DiskReadIOPS :: f64
  sm_DiskWriteIOPS :: f64
  sm_TopProcesses :: "ProcessInfo list"

definition zero_metrics :: sshMetrics where
  "zero_metrics = \<lparr>sm_CPUUsagePercent = 0, sm_MemoryTotalMB = 0, sm_MemoryUsedMB = 0, sm_MemoryUsagePercent = 0,
     sm_DiskTotalGB = 0, sm_DiskUsedGB = 0, sm_DiskUsagePercent = 0, sm_LoadAvg1 = 0, sm_LoadAvg5 = 0, sm_LoadAvg15 = 0,
     sm_UptimeSeconds = 0, sm_DiskReadIOPS = 0, sm_DiskWriteIOPS = 0, sm_TopProcesses = []\<rparr>"

text \<open>\<open>strings.Fields\<close>, \<open>strings.Trim(line, "= ")\<close>, and a number whose error is ignored.\<close>

function str_fields :: "string \<Rightarrow> string list" where
  "str_fields s =
     (let t = dropWhile is_space s; w = takeWhile (\<lambda>c. \<not> is_space c) t
      in if t = [] then [] else w # str_fields (drop (length w) t))"
  by pat_completeness auto
termination
proof (relation "measure length")
  fix s t w :: string
  assume t: "t = dropWhile is_space s" and w: "w = takeWhile (\<lambda>c. \<not> is_space c) t" and ne: "t \<noteq> []"
  then have "\<not> is_space (hd t)" using hd_dropWhile [of is_space s] by simp
  with w ne have "0 < length w" by (cases t) auto
  moreover have "length t \<le> length s" unfolding t by (rule length_dropWhile_le)
  moreover have "0 < length t" using ne by simp
  ultimately have "length t - length w < length s" by linarith
  then show "(drop (length w) t, s) \<in> measure length" by simp
qed simp

declare str_fields.simps [simp del]

definition trim_marker :: "string \<Rightarrow> string" where
  "trim_marker s =
     (let p = (\<lambda>c. c = CHR ''='' \<or> c = CHR '' '') in rev (dropWhile p (rev (dropWhile p s))))"

definition number :: "string \<Rightarrow> f64" where
  "number s = (case ParseFloat s of Some v \<Rightarrow> v | None \<Rightarrow> 0)"

text \<open>A marker line opens a section, with nothing in it, even one that has been there before.\<close>

fun section_lines :: "string list \<Rightarrow> string \<Rightarrow> (string \<times> string list) list \<Rightarrow> (string \<times> string list) list" where
  "section_lines [] current sections = sections"
| "section_lines (l # ls) current sections =
     (let line = trim_space l
      in if has_prefix line ''==='' \<and> has_suffix line ''===''
         then section_lines ls (trim_marker line) (AList.update (trim_marker line) [] sections)
         else if current \<noteq> [] \<and> line \<noteq> []
         then section_lines ls current
                (AList.update current ((case map_of sections current of Some xs \<Rightarrow> xs | None \<Rightarrow> []) @ [line]) sections)
         else section_lines ls current sections)"

definition splitSections :: "string \<Rightarrow> (string \<times> string list) list" where
  "splitSections raw = section_lines (split_all (CHR 0x0A) raw) [] []"

text \<open>Idle and total time of one line of \<open>/proc/stat\<close>, and the share of the rest between two lines.\<close>

definition cpu_times :: "string \<Rightarrow> f64 \<times> f64" where
  "cpu_times line =
     (let fields = str_fields line; vals = map number (drop 1 fields)
      in if length fields < 5 then (0, 0) else (vals ! 3, foldl f_add 0 vals))"

definition parseCPU :: "string list \<Rightarrow> f64" where
  "parseCPU lines =
     (case lines of
        l1 # l2 # _ \<Rightarrow>
          (let (idle1, total1) = cpu_times l1; (idle2, total2) = cpu_times l2;
               totalDelta = f_sub total2 total1; idleDelta = f_sub idle2 idle1
           in if totalDelta \<le> 0 then 0 else f_mul (f_div (f_sub totalDelta idleDelta) totalDelta) 100)
      | _ \<Rightarrow> 0)"

definition parse_mem_line :: "string \<Rightarrow> sshMetrics \<Rightarrow> sshMetrics" where
  "parse_mem_line line m =
     (if has_prefix line ''Mem:'' \<and> 3 \<le> length (str_fields line) then
        (let total = number (str_fields line ! 1); used = number (str_fields line ! 2);
             m = m\<lparr>sm_MemoryTotalMB := f_div total 1048576, sm_MemoryUsedMB := f_div used 1048576\<rparr>
         in if total > 0 then m\<lparr>sm_MemoryUsagePercent := f_mul (f_div used total) 100\<rparr> else m)
      else m)"

definition parseMem :: "string list \<Rightarrow> sshMetrics \<Rightarrow> sshMetrics" where
  "parseMem lines m = fold parse_mem_line lines m"

definition parseDisk :: "string list \<Rightarrow> sshMetrics \<Rightarrow> sshMetrics" where
  "parseDisk lines m =
     (case lines of
        [] \<Rightarrow> m
      | line # _ \<Rightarrow>
          (let f = str_fields line
           in if 5 \<le> length f then
                m\<lparr>sm_DiskTotalGB := f_div (number (f ! 1)) 1073741824, sm_DiskUsedGB := f_div (number (f ! 2)) 1073741824,
                  sm_DiskUsagePercent := number (trim_suffix (f ! 4) ''%'')\<rparr>
              else m))"

definition parseLoad :: "string list \<Rightarrow> sshMetrics \<Rightarrow> sshMetrics" where
  "parseLoad lines m =
     (case lines of
        [] \<Rightarrow> m
      | line # _ \<Rightarrow>
          (let f = str_fields line
           in if 3 \<le> length f
              then m\<lparr>sm_LoadAvg1 := number (f ! 0), sm_LoadAvg5 := number (f ! 1), sm_LoadAvg15 := number (f ! 2)\<rparr>
              else m))"

definition parseUptime :: "string list \<Rightarrow> sshMetrics \<Rightarrow> sshMetrics" where
  "parseUptime lines m =
     (case lines of
        [] \<Rightarrow> m
      | line # _ \<Rightarrow> (case str_fields line of [] \<Rightarrow> m | f # _ \<Rightarrow> m\<lparr>sm_UptimeSeconds := number f\<rparr>))"

text \<open>The last character that is no digit decides.\<close>

definition isPartition :: "string \<Rightarrow> bool" where
  "isPartition name =
     (if name = [] \<or> \<not> is_digit (last name) then False
      else if str_contains name ''nvme'' \<and> str_contains name ''p'' then True
      else if has_prefix name ''sd'' \<or> has_prefix name ''vd'' \<or> has_prefix name ''xvd'' then
        (case dropWhile is_digit (rev name) of
           [] \<Rightarrow> False
         | c # _ \<Rightarrow> (let n = of_char c :: nat in 97 \<le> n \<and> n \<le> 122))
      else False)"

definition disk_counts :: "string \<Rightarrow> f64 \<times> f64 \<Rightarrow> f64 \<times> f64" where
  "disk_counts line acc =
     (let f = str_fields line
      in if length f < 14 \<or> isPartition (f ! 2) then acc
         else (f_add (fst acc) (number (f ! 3)), f_add (snd acc) (number (f ! 7))))"

definition parseDiskIO :: "string list \<Rightarrow> sshMetrics \<Rightarrow> sshMetrics" where
  "parseDiskIO lines m =
     (let (reads, writes) = fold disk_counts lines (0, 0) in m\<lparr>sm_DiskReadIOPS := reads, sm_DiskWriteIOPS := writes\<rparr>)"

definition go_trunc :: "f64 \<Rightarrow> int" where
  "go_trunc v = (if 0 \<le> v then \<lfloor>v\<rfloor> else \<lceil>v\<rceil>)"

definition round2 :: "f64 \<Rightarrow> f64" where
  "round2 v = f_div (f_of_int (go_trunc (f_add (f_mul v 100) (1 / 2)))) 100"

text \<open>\<open>strconv.Atoi\<close> with its error ignored: a syntax error gives 0, a number out of range the bound.\<close>

definition atoi :: "string \<Rightarrow> int" where
  "atoi s =
     (let neg = has_prefix s ''-''; ds = (if neg \<or> has_prefix s ''+'' then drop 1 s else s);
          v = (if neg then - int (digits_value ds) else int (digits_value ds))
      in if ds = [] \<or> \<not> list_all is_digit ds then 0
         else max (- 9223372036854775808) (min 9223372036854775807 v))"

definition parse_process :: "string \<Rightarrow> ProcessInfo option" where
  "parse_process line =
     (let f = str_fields line
      in if length f < 11 \<or> f ! 0 = ''USER'' then None
         else (let cmd = join '' '' (drop 10 f); cmd = (if length cmd > 120 then take 120 cmd @ ''...'' else cmd)
               in Some \<lparr>pi_PID = atoi (f ! 1), pi_User = f ! 0, pi_CPUPct = number (f ! 2), pi_MemPct = number (f ! 3),
                    pi_MemMB = round2 (f_div (number (f ! 5)) 1024), pi_Command = cmd\<rparr>))"

definition parseProcesses :: "string list \<Rightarrow> ProcessInfo list" where
  "parseProcesses lines = List.map_filter parse_process lines"

text \<open>A parser is run where its section is there at all.\<close>

definition with_section ::
  "(string \<times> string list) list \<Rightarrow> string \<Rightarrow> (string list \<Rightarrow> sshMetrics \<Rightarrow> sshMetrics) \<Rightarrow> sshMetrics \<Rightarrow> sshMetrics" where
  "with_section sections name f m = (case map_of sections name of Some lines \<Rightarrow> f lines m | None \<Rightarrow> m)"

definition parseMetricsOutput :: "string \<Rightarrow> sshMetrics" where
  "parseMetricsOutput raw =
     (let sections = splitSections raw;
          m = with_section sections ''CPU'' (\<lambda>ls m. m\<lparr>sm_CPUUsagePercent := parseCPU ls\<rparr>) zero_metrics;
          m = with_section sections ''MEM'' parseMem m;
          m = with_section sections ''DISK'' parseDisk m;
          m = with_section sections ''LOAD'' parseLoad m;
          m = with_section sections ''UPTIME'' parseUptime m;
          m = with_section sections ''DISKIO'' parseDiskIO m
      in with_section sections ''PROCS'' (\<lambda>ls m. m\<lparr>sm_TopProcesses := parseProcesses ls\<rparr>) m)"

section \<open>The verdict\<close>

definition metrics_map :: "sshMetrics \<Rightarrow> (string \<times> f64) list" where
  "metrics_map m =
     (if sm_CPUUsagePercent m > 0 then [(''cpuUsagePercent'', round2 (sm_CPUUsagePercent m))] else []) @
     (if sm_MemoryTotalMB m > 0 then [(''memoryTotalMB'', round2 (sm_MemoryTotalMB m)),
        (''memoryUsedMB'', round2 (sm_MemoryUsedMB m)), (''memoryUsagePercent'', round2 (sm_MemoryUsagePercent m))] else []) @
     (if sm_DiskTotalGB m > 0 then [(''diskTotalGB'', round2 (sm_DiskTotalGB m)),
        (''diskUsedGB'', round2 (sm_DiskUsedGB m)), (''diskUsagePercent'', round2 (sm_DiskUsagePercent m))] else []) @
     (if sm_LoadAvg1 m > 0 \<or> sm_LoadAvg5 m > 0 then [(''loadAvg1'', round2 (sm_LoadAvg1 m)),
        (''loadAvg5'', round2 (sm_LoadAvg5 m)), (''loadAvg15'', round2 (sm_LoadAvg15 m))] else []) @
     (if sm_UptimeSeconds m > 0 then [(''uptimeHours'', round2 (f_div (sm_UptimeSeconds m) 3600))] else []) @
     (if sm_DiskReadIOPS m > 0 \<or> sm_DiskWriteIOPS m > 0
      then [(''diskReadsTotal'', sm_DiskReadIOPS m), (''diskWritesTotal'', sm_DiskWriteIOPS m)] else [])"

text \<open>One resource with its critical limit of 95 per cent and its own limit for a warning.\<close>

definition resource_status :: "string \<Rightarrow> f64 \<Rightarrow> f64 \<Rightarrow> string \<times> string list \<Rightarrow> string \<times> string list" where
  "resource_status name high v acc =
     (let (status, messages) = acc
      in if v > 95 then (''critical'', messages @ [name @ '' critical: '' @ fmt_fixed 1 v @ ''%''])
         else if v > high
         then (if status \<noteq> ''critical'' then ''warning'' else status, messages @ [name @ '' high: '' @ fmt_fixed 1 v @ ''%''])
         else acc)"

definition buildSSHStatus :: "sshMetrics \<Rightarrow> CheckConfig \<Rightarrow> string \<times> string list" where
  "buildSSHStatus m check =
     (let warn = chk_WarningThresholdMs check;
          acc = resource_status ''CPU'' 80 (sm_CPUUsagePercent m) (''healthy'', []);
          acc = resource_status ''Memory'' 85 (sm_MemoryUsagePercent m) acc;
          acc = resource_status ''Disk'' 85 (sm_DiskUsagePercent m) acc;
          acc = (if warn > 0 \<and> sm_CPUUsagePercent m > f_of_int warn \<and> fst acc = ''healthy''
                 then (''warning'', snd acc @ [''CPU above threshold ('' @ itoa warn @ ''%): '' @ fmt_fixed 1 (sm_CPUUsagePercent m) @ ''%''])
                 else acc)
      in if snd acc = []
         then (fst acc, [''CPU: '' @ fmt_fixed 1 (sm_CPUUsagePercent m) @ ''% | Mem: '' @ fmt_fixed 1 (sm_MemoryUsagePercent m) @
                 ''% | Disk: '' @ fmt_fixed 1 (sm_DiskUsagePercent m) @ ''% | Load: '' @ fmt_fixed 2 (sm_LoadAvg1 m)])
         else acc)"

definition collectSSHMetrics :: "World \<Rightarrow> SSHCheckConfig \<Rightarrow> duration \<Rightarrow> string + sshMetrics" where
  "collectSSHMetrics w cfg timeout =
     (case checkSSHAuth w cfg of
        Inl err \<Rightarrow> Inl (''ssh auth: '' @ err)
      | Inr methods \<Rightarrow>
          (case w_ssh w (ssh_addr cfg) (ssh_User cfg) methods (ssh_HostKeyFingerprint cfg)
                  (buildMetricsCommand (ssh_Metrics cfg)) timeout of
             Connect_failed err \<Rightarrow> Inl (''ssh connect '' @ ssh_addr cfg @ '': '' @ err)
           | Session_failed err \<Rightarrow> Inl (''ssh session: '' @ err)
           | Ran out (Some err) \<Rightarrow> Inl (''ssh exec: '' @ err @ [CHR 0x0A] @ ''output: '' @ out)
           | Ran out None \<Rightarrow> Inr (parseMetricsOutput out)))"

definition SnapshotFromMetrics :: "gotime \<Rightarrow> string \<Rightarrow> sshMetrics \<Rightarrow> ServerSnapshot" where
  "SnapshotFromMetrics now serverID m = \<lparr>ss_ServerID = serverID, ss_Timestamp = now,
     ss_CPUUsagePercent = round2 (sm_CPUUsagePercent m), ss_MemoryTotalMB = round2 (sm_MemoryTotalMB m),
     ss_MemoryUsedMB = round2 (sm_MemoryUsedMB m), ss_MemoryUsagePercent = round2 (sm_MemoryUsagePercent m),
     ss_DiskTotalGB = round2 (sm_DiskTotalGB m), ss_DiskUsedGB = round2 (sm_DiskUsedGB m),
     ss_DiskUsagePercent = round2 (sm_DiskUsagePercent m), ss_LoadAvg1 = round2 (sm_LoadAvg1 m),
     ss_LoadAvg5 = round2 (sm_LoadAvg5 m), ss_LoadAvg15 = round2 (sm_LoadAvg15 m),
     ss_UptimeHours = round2 (f_div (sm_UptimeSeconds m) 3600), ss_TopProcesses = sm_TopProcesses m\<rparr>"

text \<open>A snapshot is appended to the file of its server; the caller ignores errors of the file.\<close>

definition smr_Save :: "ServerSnapshot \<Rightarrow> (string \<Rightarrow> ServerSnapshot list) \<Rightarrow> (string \<Rightarrow> ServerSnapshot list)" where
  "smr_Save snap files = files(ss_ServerID snap := files (ss_ServerID snap) @ [snap])"

definition snapshot_server :: "CheckConfig \<Rightarrow> SSHCheckConfig \<Rightarrow> string" where
  "snapshot_server c cfg =
     (if chk_ServerId c \<noteq> [] then chk_ServerId c else if chk_Server c \<noteq> [] then chk_Server c else ssh_Host cfg)"

definition ssh_Execute :: "World \<Rightarrow> Shared \<Rightarrow> CheckConfig \<Rightarrow> CheckResult \<Rightarrow> Shared \<times> CheckResult \<times> string option" where
  "ssh_Execute w sh c r =
     (case chk_SSH c of
        None \<Rightarrow> (sh, r, Some ''ssh config block is required'')
      | Some cfg \<Rightarrow>
          (let t = dur_mul (chk_TimeoutSeconds c) second; timeout = (if t \<le> 0 then dur_mul 10 second else t)
           in case collectSSHMetrics w cfg timeout of
                Inl err \<Rightarrow> (sh, r, Some err)
              | Inr m \<Rightarrow>
                  (let r = fold (\<lambda>(k, v). set_metric k v) (metrics_map m) r;
                       (status, messages) = buildSSHStatus m c;
                       sh = sh\<lparr>sh_snapshots := map_option
                              (smr_Save (SnapshotFromMetrics (w_now w) (snapshot_server c cfg) m)) (sh_snapshots sh)\<rparr>
                   in (sh, r\<lparr>res_Status := status, res_Healthy := (status = ''healthy''), res_Message := join ''; '' messages\<rparr>, None))))"

section \<open>The repository of snapshots\<close>

text \<open>\<open>sort.Slice\<close> is taken to be stable; \<open>entries\<close> are the servers that have a file.\<close>

definition smr_GetSnapshots ::
  "string \<Rightarrow> gotime \<Rightarrow> gotime \<Rightarrow> (string \<Rightarrow> ServerSnapshot list) \<Rightarrow> ServerSnapshot list" where
  "smr_GetSnapshots serverID since till files =
     sort_key ss_Timestamp (filter (\<lambda>s. (is_zero since \<or> \<not> before (ss_Timestamp s) since) \<and>
                                        (is_zero till \<or> \<not> after (ss_Timestamp s) till)) (files serverID))"

definition smr_GetLatest :: "string \<Rightarrow> (string \<Rightarrow> ServerSnapshot list) \<Rightarrow> ServerSnapshot option" where
  "smr_GetLatest serverID files =
     (case files serverID of
        [] \<Rightarrow> None
      | s # ss \<Rightarrow> Some (foldl (\<lambda>latest s. if after (ss_Timestamp s) (ss_Timestamp latest) then s else latest) s ss))"

fun smr_Prune ::
  "gotime \<Rightarrow> string list \<Rightarrow> (string \<Rightarrow> ServerSnapshot list) \<Rightarrow> (string \<Rightarrow> ServerSnapshot list) \<times> int" where
  "smr_Prune cutoff [] files = (files, 0)"
| "smr_Prune cutoff (e # entries) files =
     (let kept = filter (\<lambda>s. \<not> before (ss_Timestamp s) cutoff) (files e);
          pruned = int (length (files e)) - int (length kept);
          (files', n) = smr_Prune cutoff entries (if pruned > 0 then files(e := kept) else files)
      in (files', n + (if pruned > 0 then pruned else 0)))"

section \<open>The registry of executors\<close>

text \<open>Every built-in type, \<open>mysql\<close> being the executor that is given.\<close>

definition executors :: "(World, Shared) executor \<Rightarrow> string \<Rightarrow> (World, Shared) executor option" where
  "executors mysql t =
     (if t = ''api'' then Some api_Execute
      else if t = ''tcp'' then Some tcp_Execute
      else if t = ''command'' then Some command_Execute
      else if t = ''log'' then Some log_Execute
      else if t = ''process'' then Some process_Execute
      else if t = ''ssl'' then Some ssl_Execute
      else if t = ''dns'' then Some dns_Execute
      else if t = ''ping'' then Some ping_Execute
      else if t = ''domain'' then Some domain_Execute
      else if t = ''heartbeat'' then Some heartbeat_Execute
      else if t = ''ssh'' then Some ssh_Execute
      else if t = ''mysql'' then Some mysql
      else None)"

section \<open>Lemmas\<close>

lemma fold_metrics_identity:
  "same_identity r (fold (\<lambda>(k, v). set_metric k v) kvs r') = same_identity r r'"
  by (induction kvs arbitrary: r') (auto simp: split_beta)

lemma ssh_executor_contract: "check_executor ssh_Execute"
proof
  fix w :: World and sh c r sh' r' err
  assume x: "ssh_Execute w sh c r = (sh', r', err)"
  have "same_identity r r'"
  proof (cases "chk_SSH c")
    case None
    with x show ?thesis by (simp add: ssh_Execute_def)
  next
    case (Some cfg)
    with x show ?thesis
      using fold_metrics_identity [of r _ r]
      by (auto simp: ssh_Execute_def Let_def same_identity_def split: sum.splits prod.splits)
  qed
  then show "res_ID r' = res_ID r \<and> res_CheckID r' = res_CheckID r \<and> res_Type r' = res_Type r \<and> res_StartedAt r' = res_StartedAt r"
    by (simp add: same_identity_def)
next
  fix w :: World and sh c r sh' r'
  assume "ssh_Execute w sh c r = (sh', r', None)"
  then show "res_Status r' = [] \<and> \<not> res_Healthy r' \<or> (res_Healthy r' \<longleftrightarrow> res_Status r' = ''healthy'')"
    by (auto simp: ssh_Execute_def Let_def split: option.splits sum.splits prod.splits)
qed

interpretation ssh_executor: check_executor ssh_Execute by (rule ssh_executor_contract)

lemma executors_ok:
  assumes "check_executor mysql"
  shows "registry_ok (executors mysql)"
  unfolding registry_ok_def
proof (intro allI impI)
  fix t exec
  assume "executors mysql t = Some exec"
  then show "check_executor exec"
    using assms api_executor.check_executor_axioms tcp_executor.check_executor_axioms command_executor.check_executor_axioms
      log_executor.check_executor_axioms process_executor.check_executor_axioms ssl_executor.check_executor_axioms
      dns_executor.check_executor_axioms ping_executor.check_executor_axioms domain_executor.check_executor_axioms
      shared_heartbeat_executor.check_executor_axioms ssh_executor.check_executor_axioms
    by (simp only: executors_def split: if_splits) (auto simp only: option.inject option.distinct)
qed

section \<open>Properties\<close>

text \<open>
  The status of a server is that of its worst resource: critical from any of them above 95 per
  cent, otherwise a warning from the processor above 80 or above the threshold of the check, memory or
  disk above 85, otherwise healthy.
\<close>

theorem ssh_status_is_the_worst:
  "fst (buildSSHStatus m c) =
     (if sm_CPUUsagePercent m > 95 \<or> sm_MemoryUsagePercent m > 95 \<or> sm_DiskUsagePercent m > 95 then ''critical''
      else if sm_CPUUsagePercent m > 80 \<or> sm_MemoryUsagePercent m > 85 \<or> sm_DiskUsagePercent m > 85 \<or>
              0 < chk_WarningThresholdMs c \<and> sm_CPUUsagePercent m > f_of_int (chk_WarningThresholdMs c) then ''warning''
      else ''healthy'')"
proof -
  define crit wrn ok :: string where "crit = ''critical''" and "wrn = ''warning''" and "ok = ''healthy''"
  then have d: "crit \<noteq> wrn" "crit \<noteq> ok" "wrn \<noteq> ok" by simp_all
  have status: "fst (resource_status name high v acc) = (if v > 95 then crit else if v > high \<and> fst acc \<noteq> crit then wrn else fst acc)"
    for name high v acc
    by (simp add: resource_status_def Let_def split_beta crit_def wrn_def)
  have last: "fst (if snd acc = [] then (fst acc, x) else acc) = fst acc" for acc :: "string \<times> string list" and x
    by simp
  show ?thesis
    unfolding buildSSHStatus_def Let_def last crit_def [symmetric] wrn_def [symmetric] ok_def [symmetric]
    using d by (simp add: status if_distrib [of fst])
qed


lemma split_all_line: "d \<notin> set l \<Longrightarrow> split_all d (l @ d # s) = l # split_all d s"
proof -
  assume "d \<notin> set l"
  then have "takeWhile (\<lambda>c. c \<noteq> d) (l @ d # s) = l" by (subst takeWhile_append2) auto
  then show ?thesis by (subst split_all.simps) simp
qed

lemma split_all_last: "d \<notin> set l \<Longrightarrow> split_all d l = [l]"
proof -
  assume "d \<notin> set l"
  then have all: "takeWhile (\<lambda>c. c \<noteq> d) l = l" by (auto simp: takeWhile_eq_all_conv)
  show ?thesis by (subst split_all.simps) (simp add: all)
qed

lemma split_all_join: "ls \<noteq> [] \<Longrightarrow> list_all (\<lambda>l. d \<notin> set l) ls \<Longrightarrow> split_all d (join [d] ls) = ls"
proof (induction ls)
  case (Cons l ls)
  then show ?case by (cases ls) (simp_all add: split_all_line split_all_last)
qed simp

definition is_marker :: "string \<Rightarrow> bool" where
  "is_marker l \<longleftrightarrow> has_prefix l ''==='' \<and> has_suffix l ''===''"

definition plain_line :: "string \<Rightarrow> bool" where
  "plain_line l \<longleftrightarrow> l \<noteq> [] \<and> trim_space l = l \<and> CHR 0x0A \<notin> set l \<and> \<not> is_marker l"

definition section_name :: "string \<Rightarrow> bool" where
  "section_name n \<longleftrightarrow> n \<noteq> [] \<and> list_all (\<lambda>c. c \<noteq> CHR ''='' \<and> c \<noteq> CHR '' '' \<and> c \<noteq> CHR 0x0A) n"

definition section_output :: "string \<times> string list \<Rightarrow> string list" where
  "section_output s = (''==='' @ fst s @ ''==='') # snd s"

lemma marker_line:
  assumes "section_name n"
  shows "trim_space (''==='' @ n @ ''==='') = ''==='' @ n @ ''===''" and "is_marker (''==='' @ n @ ''==='')"
    and "trim_marker (''==='' @ n @ ''==='') = n" and "CHR 0x0A \<notin> set (''==='' @ n @ ''==='')"
proof -
  let ?m = "''==='' @ n @ ''===''"
  have "\<not> is_space (CHR ''='')" by code_simp
  then have "trimmed is_space ?m" by (simp add: trimmed_def)
  then show "trim_space ?m = ?m" unfolding trim_space_def by (rule trim_id)
  show "is_marker ?m" by (simp add: is_marker_def has_suffix_def)
  let ?p = "\<lambda>c. c = CHR ''='' \<or> c = CHR '' ''"
  have n: "n \<noteq> []" "\<forall>c \<in> set n. \<not> ?p c" "CHR 0x0A \<notin> set n" using assms by (auto simp: section_name_def list_all_iff)
  have drop: "dropWhile ?p (''==='' @ xs @ ys) = xs @ ys" if "xs \<noteq> []" "\<forall>c \<in> set xs. \<not> ?p c" for xs ys
    using that by (cases xs) simp_all
  have 1: "dropWhile ?p ?m = n @ ''===''" by (rule drop [OF n(1,2)])
  have 2: "dropWhile ?p (rev (n @ ''==='')) = rev n" using drop [of "rev n" "[]"] n(1,2) by simp
  show "trim_marker ?m = n" by (simp only: trim_marker_def Let_def 1 2 rev_rev_ident)
  show "CHR 0x0A \<notin> set ?m" using n(3) by simp
qed

lemma alist_update_new: "k \<notin> fst ` set al \<Longrightarrow> AList.update k v al = al @ [(k, v)]"
  by (induction al) auto

lemma alist_update_last: "k \<notin> fst ` set al \<Longrightarrow> AList.update k v (al @ [(k, u)]) = al @ [(k, v)]"
  by (induction al) auto

lemma map_of_last: "k \<notin> fst ` set al \<Longrightarrow> map_of (al @ [(k, v)]) k = Some v"
  by (induction al) auto

lemma section_marker:
  "is_marker (trim_space l) \<Longrightarrow> section_lines (l # ls) current sections =
     section_lines ls (trim_marker (trim_space l)) (AList.update (trim_marker (trim_space l)) [] sections)"
  by (simp add: is_marker_def Let_def)

lemma section_line:
  "\<not> is_marker (trim_space l) \<Longrightarrow> trim_space l \<noteq> [] \<Longrightarrow> current \<noteq> [] \<Longrightarrow> map_of sections current = Some xs \<Longrightarrow>
     section_lines (l # ls) current sections = section_lines ls current (AList.update current (xs @ [trim_space l]) sections)"
  by (auto simp: is_marker_def Let_def)

lemma section_plain:
  "list_all plain_line ls \<Longrightarrow> n \<noteq> [] \<Longrightarrow> n \<notin> fst ` set before_it \<Longrightarrow>
     section_lines (ls @ rest) n (before_it @ [(n, acc)]) = section_lines rest n (before_it @ [(n, acc @ ls)])"
proof (induction ls arbitrary: acc)
  case (Cons l ls)
  then have l: "trim_space l = l" "l \<noteq> []" "\<not> is_marker l" by (auto simp: plain_line_def)
  have "section_lines (l # (ls @ rest)) n (before_it @ [(n, acc)]) = section_lines (ls @ rest) n (before_it @ [(n, acc @ [l])])"
    using section_line [of l n "before_it @ [(n, acc)]" acc] l Cons.prems(2,3)
    by (simp only: map_of_last alist_update_last simp_thms)
  also have "\<dots> = section_lines rest n (before_it @ [(n, (acc @ [l]) @ ls)])"
    using Cons by (intro Cons.IH) simp_all
  finally show ?case by simp
qed simp

lemma section_sections:
  "list_all (\<lambda>s. section_name (fst s) \<and> list_all plain_line (snd s)) ss \<Longrightarrow> distinct (map fst (before_it @ ss)) \<Longrightarrow>
     section_lines (concat (map section_output ss)) current before_it = before_it @ ss"
proof (induction ss arbitrary: current before_it)
  case (Cons s ss)
  obtain n ls where s: "s = (n, ls)" by (cases s)
  from Cons.prems s have n: "section_name n" "list_all plain_line ls" "n \<notin> fst ` set before_it" "n \<noteq> []"
    by (auto simp: section_name_def)
  note m = marker_line [OF n(1)]
  let ?rest = "concat (map section_output ss)"
  have "concat (map section_output (s # ss)) = (''==='' @ n @ ''==='') # (ls @ ?rest)"
    by (simp add: s section_output_def)
  then have "section_lines (concat (map section_output (s # ss))) current before_it =
      section_lines (ls @ ?rest) n (before_it @ [(n, [])])"
    using section_marker [of "''==='' @ n @ ''===''" "ls @ ?rest" current before_it] m(2)
    by (simp only: m(1,3) alist_update_new [OF n(3)])
  also have "\<dots> = section_lines ?rest n (before_it @ [(n, ls)])"
    using section_plain [OF n(2,4,3), of ?rest "[]"] by simp
  also have "\<dots> = before_it @ s # ss"
    using Cons.IH [of "before_it @ [(n, ls)]" n] Cons.prems by (simp add: s)
  finally show ?case .
qed simp

text \<open>
  What the server prints is read back: an output made of sections, each a marker and its lines,
  splits into exactly these sections.
\<close>

theorem sections_round_trip:
  assumes "ss \<noteq> []" and "distinct (map fst ss)"
    and "list_all (\<lambda>s. section_name (fst s) \<and> list_all plain_line (snd s)) ss"
  shows "splitSections (join [CHR 0x0A] (concat (map section_output ss))) = ss"
proof -
  have "list_all (\<lambda>l. CHR 0x0A \<notin> set l) (section_output s)" if "section_name (fst s)" "list_all plain_line (snd s)" for s
    using that marker_line(4) [of "fst s"] by (auto simp: section_output_def plain_line_def list_all_iff)
  then have "list_all (\<lambda>l. CHR 0x0A \<notin> set l) (concat (map section_output ss))"
    using assms(3) by (auto simp: list_all_iff)
  moreover have "concat (map section_output ss) \<noteq> []" using assms(1) by (cases ss) (simp_all add: section_output_def)
  ultimately have "split_all (CHR 0x0A) (join [CHR 0x0A] (concat (map section_output ss))) = concat (map section_output ss)"
    by (rule split_all_join [rotated])
  then show ?thesis using section_sections [OF assms(3), of "[]"] assms(2) by (simp add: splitSections_def)
qed

text \<open>
  Snapshots are filed under the server name of the check where it names no registered server, and the
  defaults have made that \<open>default\<close>: the host, the last resort in the code, is never reached, and
  the snapshots of different hosts end up in one file.
\<close>

lemma snapshots_of_hosts_mix:
  assumes "chk_Server c = []" and "chk_ServerId c = []"
  shows "snapshot_server (fst (check_applyDefaults tok c states)) cfg = ''default''"
  using assms by (simp add: snapshot_server_def check_applyDefaults_def plugin_keeps common_defaults_def)

lemma latest_snapshot:
  assumes "smr_GetLatest i files = Some s"
  shows "s \<in> set (files i) \<and> list_all (\<lambda>t. ss_Timestamp t \<le> ss_Timestamp s) (files i)"
proof -
  obtain s0 ss where f: "files i = s0 # ss" and s: "s = foldl (\<lambda>latest s. if after (ss_Timestamp s) (ss_Timestamp latest) then s else latest) s0 ss"
    using assms by (auto simp: smr_GetLatest_def split: list.splits)
  let ?later = "\<lambda>latest s. if after (ss_Timestamp s) (ss_Timestamp latest) then s else latest"
  have "foldl ?later s0 ss \<in> set (s0 # ss) \<and> ss_Timestamp s0 \<le> ss_Timestamp (foldl ?later s0 ss) \<and>
      list_all (\<lambda>t. ss_Timestamp t \<le> ss_Timestamp (foldl ?later s0 ss)) ss" for s0
  proof (induction ss arbitrary: s0)
    case (Cons x xs)
    from Cons.IH [of x] Cons.IH [of s0] show ?case
      by (cases "ss_Timestamp s0 < ss_Timestamp x") (auto simp: after_def)
  qed simp
  then show ?thesis by (simp add: f s)
qed

section \<open>The properties at work\<close>

definition no_mysql :: "(World, Shared) executor" where
  "no_mysql w sh c r = (sh, r, Some ''mysql sampler not configured'')"

lemma no_mysql_contract: "check_executor no_mysql"
  by unfold_locales (simp_all add: no_mysql_def)

definition sample_dns_check :: CheckConfig where
  "sample_dns_check = zero_check\<lparr>chk_ID := ''d'', chk_Type := ''dns''\<rparr>"


theorem sections_round_trip_witness:
  "splitSections (join [CHR 0x0A] [''===LOAD==='', ''0.5 0.4 0.3'', ''===UPTIME==='', ''9 1'']) =
     [(''LOAD'', [''0.5 0.4 0.3'']), (''UPTIME'', [''9 1''])]"
proof -
  have "list_all (\<lambda>s. section_name (fst s) \<and> list_all plain_line (snd s)) [(''LOAD'', [''0.5 0.4 0.3'']), (''UPTIME'', [''9 1''])]"
    by code_simp
  from sections_round_trip [OF _ _ this] show ?thesis by (simp add: section_output_def)
qed

end
