(* ===== verification/FloatOrder.thy ===== *)
theory FloatOrder
  imports Float64
begin

text \<open>
  Rounding to a double keeps the order of numbers, so that bounds of an exact ratio are bounds of the
  computed one. Shared by the components that compute percentages and percentiles.
\<close>

lemma two_powi_add: "two_powi (a + b) = two_powi a * two_powi b"
proof -
  have "two_powi e = 2 powi e" for e
    by (simp add: two_powi_def power_int_def power_one_over)
  then show ?thesis by (simp add: power_int_add)
qed

lemma two_powi_nat [simp]: "two_powi (int n) = 2 ^ n"
  by (simp add: two_powi_def)

lemma two_powi_mono: "a \<le> b \<Longrightarrow> two_powi a \<le> two_powi b"
proof -
  assume "a \<le> b"
  then obtain n where "b = a + int n" using zle_iff_zadd by blast
  moreover have "two_powi a * 1 \<le> two_powi a * 2 ^ n" by (intro mult_left_mono) (simp_all add: less_imp_le)
  ultimately show ?thesis by (simp add: two_powi_add)
qed

lemma two_powi_less_iff: "two_powi a < two_powi b \<longleftrightarrow> a < b"
proof
  assume "two_powi a < two_powi b"
  then show "a < b" using two_powi_mono [of b a] by linarith
next
  assume "a < b"
  then have "two_powi (a + 1) \<le> two_powi b" by (simp add: two_powi_mono)
  moreover have "two_powi (a + 1) = 2 * two_powi a" by (simp add: two_powi_add two_powi_def [of 1])
  ultimately show "two_powi a < two_powi b" using two_powi_pos [of a] by linarith
qed

lemma round_half_even_mono: "a \<le> b \<Longrightarrow> round_half_even a \<le> round_half_even b"
proof -
  assume ab: "a \<le> b"
  then have fl: "\<lfloor>a\<rfloor> \<le> \<lfloor>b\<rfloor>" by (rule floor_mono)
  show ?thesis
  proof (cases "\<lfloor>a\<rfloor> = \<lfloor>b\<rfloor>")
    case True
    then show ?thesis using ab by (auto simp: round_half_even_def Let_def)
  next
    case False
    with fl have "\<lfloor>a\<rfloor> + 1 \<le> \<lfloor>b\<rfloor>" by simp
    moreover have "round_half_even a \<le> \<lfloor>a\<rfloor> + 1" by (simp add: round_half_even_def Let_def)
    moreover have "\<lfloor>b\<rfloor> \<le> round_half_even b" by (simp add: round_half_even_def Let_def)
    ultimately show ?thesis by linarith
  qed
qed

lemma rat_log2_bounds:
  assumes "0 < q"
  shows "two_powi (rat_log2 q) \<le> q \<and> q < two_powi (rat_log2 q + 1)"
proof -
  obtain n d where nd: "quotient_of q = (n, d)" by fastforce
  have d: "0 < d" using quotient_of_denom_pos [OF nd] .
  have q: "q = of_int n / of_int d" using quotient_of_div [OF nd] .
  have n: "0 < n" using assms d unfolding q by (simp add: zero_less_divide_iff)
  have pw: "(of_int (2 ^ k) :: rat) = two_powi (int k)" for k by simp
  have nb: "two_powi (int (int_log2 n)) \<le> of_int n" "of_int n < two_powi (int (int_log2 n) + 1)"
    using int_log2_bounds [OF n] pw [of "int_log2 n"] pw [of "Suc (int_log2 n)"]
    by (metis of_int_le_iff, metis of_int_less_iff add.commute of_nat_Suc)
  have db: "two_powi (int (int_log2 d)) \<le> of_int d" "of_int d < two_powi (int (int_log2 d) + 1)"
    using int_log2_bounds [OF d] pw [of "int_log2 d"] pw [of "Suc (int_log2 d)"]
    by (metis of_int_le_iff, metis of_int_less_iff add.commute of_nat_Suc)
  let ?k = "int (int_log2 n) - int (int_log2 d)"
  have dq: "0 < (of_int d :: rat)" using d by simp
  have "q < two_powi (?k + 1)"
  proof -
    have "of_int n < two_powi (?k + 1) * two_powi (int (int_log2 d))"
      using nb(2) by (simp add: two_powi_add [symmetric] algebra_simps del: two_powi_nat)
    also have "\<dots> \<le> two_powi (?k + 1) * of_int d"
      using db(1) by (intro mult_left_mono) (simp_all add: less_imp_le)
    finally show ?thesis using dq by (simp add: q divide_less_eq)
  qed
  moreover have "two_powi (?k - 1) < q"
  proof -
    have "two_powi (?k - 1) * of_int d < two_powi (?k - 1) * two_powi (int (int_log2 d) + 1)"
      using db(2) by (intro mult_strict_left_mono) simp_all
    also have "\<dots> \<le> of_int n" using nb(1) by (simp add: two_powi_add [symmetric] del: two_powi_nat)
    finally show ?thesis using dq by (simp add: q less_divide_eq)
  qed
  ultimately show ?thesis by (auto simp: rat_log2_def nd Let_def)
qed

text \<open>The exponent and the rounded value of a positive number.\<close>

definition fl_exp :: "rat \<Rightarrow> int" where
  "fl_exp q = max (rat_log2 q - 52) (- 1074)"

lemma fl64_pos: "0 < q \<Longrightarrow> fl64 q = of_int (round_half_even (q / two_powi (fl_exp q))) * two_powi (fl_exp q)"
  by (simp add: fl64_def fl_exp_def Let_def)

lemma fl64_le_two_powi:
  assumes "0 < q" and "q \<le> two_powi k" and "- 1074 \<le> k"
  shows "fl64 q \<le> two_powi k"
proof -
  let ?e = "fl_exp q"
  have "two_powi (rat_log2 q) \<le> two_powi k" using rat_log2_bounds [OF assms(1)] assms(2) by linarith
  then have "rat_log2 q \<le> k" using two_powi_less_iff [of k "rat_log2 q"] by linarith
  then have ek: "?e \<le> k" using assms(3) by (simp add: fl_exp_def)
  then obtain m where m: "k = ?e + int m" using zle_iff_zadd by blast
  have "q / two_powi ?e \<le> of_int (2 ^ m)"
    using assms(2) two_powi_pos [of ?e] by (simp add: m two_powi_add divide_le_eq mult.commute)
  then have "round_half_even (q / two_powi ?e) \<le> 2 ^ m"
    using round_half_even_mono round_half_even_of_int [of "2 ^ m"] by metis
  then have "(of_int (round_half_even (q / two_powi ?e)) :: rat) \<le> of_int (2 ^ m)" by (simp only: of_int_le_iff)
  then have "of_int (round_half_even (q / two_powi ?e)) * two_powi ?e \<le> of_int (2 ^ m) * two_powi ?e"
    by (intro mult_right_mono) (simp_all add: less_imp_le)
  then show ?thesis by (simp add: fl64_pos [OF assms(1)] m two_powi_add mult.commute)
qed

lemma two_powi_le_fl64:
  assumes "0 < q" and "two_powi k \<le> q" and "- 1022 \<le> k"
  shows "two_powi k \<le> fl64 q"
proof -
  let ?e = "rat_log2 q - 52"
  have b: "two_powi (rat_log2 q) \<le> q" "q < two_powi (rat_log2 q + 1)" using rat_log2_bounds [OF assms(1)] by auto
  have kl: "k \<le> rat_log2 q"
  proof -
    have "two_powi k < two_powi (rat_log2 q + 1)" using assms(2) b(2) by linarith
    then show ?thesis by (simp add: two_powi_less_iff)
  qed
  have fe: "fl_exp q = ?e" using kl assms(3) by (simp add: fl_exp_def)
  have "of_int (2 ^ 52) \<le> q / two_powi ?e"
  proof -
    have "two_powi (rat_log2 q) = 2 ^ 52 * two_powi ?e"
      using two_powi_add [of "int 52" ?e] by (simp add: two_powi_def [of 52])
    with b(1) show ?thesis by (simp add: le_divide_eq)
  qed
  then have "2 ^ 52 \<le> round_half_even (q / two_powi ?e)"
    using round_half_even_mono round_half_even_of_int [of "2 ^ 52"] by metis
  then have "(of_int (2 ^ 52) :: rat) \<le> of_int (round_half_even (q / two_powi ?e))" by (simp only: of_int_le_iff)
  then have "of_int (2 ^ 52) * two_powi ?e \<le> of_int (round_half_even (q / two_powi ?e)) * two_powi ?e"
    by (intro mult_right_mono) (simp_all add: less_imp_le)
  moreover have "of_int (2 ^ 52) * two_powi ?e = two_powi (rat_log2 q)"
    using two_powi_add [of "int 52" ?e] by (simp add: two_powi_def [of 52])
  ultimately have "two_powi (rat_log2 q) \<le> fl64 q" unfolding fl64_pos [OF assms(1)] fe by (simp only:)
  then show ?thesis using two_powi_mono [OF kl] by linarith
qed

lemma fl64_mono_pos:
  assumes "0 < a" and "a \<le> b"
  shows "fl64 a \<le> fl64 b"
proof -
  from assms have "0 < b" by simp
  have "two_powi (rat_log2 a) < two_powi (rat_log2 b + 1)"
    using rat_log2_bounds [OF assms(1)] rat_log2_bounds [OF \<open>0 < b\<close>] assms(2) by linarith
  then have lab: "rat_log2 a \<le> rat_log2 b" by (simp add: two_powi_less_iff)
  show ?thesis
  proof (cases "fl_exp a = fl_exp b")
    case True
    have "a / two_powi (fl_exp a) \<le> b / two_powi (fl_exp a)"
      using assms(2) by (intro divide_right_mono) (simp_all add: less_imp_le)
    then have "round_half_even (a / two_powi (fl_exp a)) \<le> round_half_even (b / two_powi (fl_exp a))"
      by (rule round_half_even_mono)
    then show ?thesis
      using True by (simp add: fl64_pos assms(1) \<open>0 < b\<close> mult_right_mono less_imp_le)
  next
    case False
    with lab have l: "rat_log2 a < rat_log2 b" "- 1022 < rat_log2 b" by (auto simp: fl_exp_def max_def split: if_splits)
    have "a \<le> two_powi (rat_log2 a + 1)" using rat_log2_bounds [OF assms(1)] by simp
    also have "\<dots> \<le> two_powi (rat_log2 b)" using l by (intro two_powi_mono) simp
    finally have "fl64 a \<le> two_powi (rat_log2 b)" using assms(1) l by (intro fl64_le_two_powi) simp_all
    also have "\<dots> \<le> fl64 b"
      using rat_log2_bounds [OF \<open>0 < b\<close>] \<open>0 < b\<close> l by (intro two_powi_le_fl64) simp_all
    finally show ?thesis .
  qed
qed

lemma fl64_minus: "fl64 (- q) = - fl64 q"
  by (auto simp: fl64_def Let_def)

theorem fl64_mono: "a \<le> b \<Longrightarrow> fl64 a \<le> fl64 b"
proof -
  assume ab: "a \<le> b"
  consider "0 < a" | "a \<le> 0" "0 \<le> b" | "b < 0" by linarith
  then show ?thesis
  proof cases
    case 1
    then show ?thesis using ab by (rule fl64_mono_pos)
  next
    case 2
    have "0 \<le> fl64 (- a)" using 2(1) by (intro fl64_nonneg) simp
    with 2(2) fl64_nonneg [of b] show ?thesis by (simp add: fl64_minus)
  next
    case 3
    then have "fl64 (- b) \<le> fl64 (- a)" using ab by (intro fl64_mono_pos) simp_all
    then show ?thesis by (simp add: fl64_minus)
  qed
qed

text \<open>The operations between bounds that are doubles.\<close>

lemma fl64_le: "q \<le> c \<Longrightarrow> fl64 c = c \<Longrightarrow> fl64 q \<le> c"
  using fl64_mono by fastforce

lemma fl64_ge: "c \<le> q \<Longrightarrow> fl64 c = c \<Longrightarrow> c \<le> fl64 q"
  using fl64_mono by fastforce

lemma fl64_numeral: "numeral n < (2 ^ 53 :: int) \<Longrightarrow> fl64 (numeral n) = numeral n"
  using fl64_of_int_exact [of "numeral n"] by simp

text \<open>\<open>float64(a) / float64(b) * 100\<close> is a percentage.\<close>

definition percent :: "int \<Rightarrow> int \<Rightarrow> rat" where
  "percent a b = f_mul (f_div (f_of_int a) (f_of_int b)) 100"

lemma percent_bounds:
  assumes "0 \<le> a" and "a \<le> b"
  shows "0 \<le> percent a b \<and> percent a b \<le> 100"
proof -
  let ?a = "fl64 (of_int a)" and ?b = "fl64 (of_int b)"
  have a: "0 \<le> ?a" and ab: "?a \<le> ?b" using assms by (simp_all add: fl64_nonneg fl64_mono)
  then have r: "0 \<le> ?a / ?b" "?a / ?b \<le> 1" by (simp_all add: divide_le_eq)
  have "fl64 1 = 1" using fl64_of_int_exact [of 1] by simp
  then have "fl64 (?a / ?b) \<le> 1" using r(2) by (intro fl64_le)
  moreover have "0 \<le> fl64 (?a / ?b)" using r(1) by (rule fl64_nonneg)
  ultimately show ?thesis
    by (simp add: percent_def float_defs fl64_nonneg fl64_le fl64_numeral)
qed

text \<open>A ratio of small counts exceeds one half exactly if the computed ratio does.\<close>

lemma half_ratio:
  assumes "0 \<le> a" and "a \<le> b" and "b < 2 ^ 52"
  shows "f_div (f_of_int a) (f_of_int b) > 1 / 2 \<longleftrightarrow> b < 2 * a"
proof (cases "b < 2 * a")
  case False
  have "of_int a / of_int b \<le> (1 / 2 :: rat)"
  proof (cases "b = 0")
    case nz: False
    from False have "(of_int (2 * a) :: rat) \<le> of_int b" by (simp only: of_int_le_iff)
    with nz assms show ?thesis by (simp add: divide_le_eq)
  qed simp
  moreover have "fl64 (1 / 2) = 1 / 2" by code_simp
  ultimately have "fl64 (of_int a / of_int b) \<le> 1 / 2" by (rule fl64_le)
  with False show ?thesis using assms by (simp add: float_defs fl64_of_int_exact)
next
  case True
  let ?c = "1 / 2 + 1 / 2 ^ 53 :: rat"
  from True assms have b: "0 < b" by simp
  have "?c \<le> of_int a / of_int b"
  proof -
    have "(b :: int) * 2 ^ 52 + b \<le> a * 2 ^ 53" using True assms by simp
    then have "(of_int (b * 2 ^ 52 + b) :: rat) \<le> of_int (a * 2 ^ 53)" by (simp only: of_int_le_iff)
    then show ?thesis using b by (simp add: le_divide_eq field_simps)
  qed
  moreover have "fl64 ?c = ?c" by code_simp
  ultimately have "?c \<le> fl64 (of_int a / of_int b)" by (rule fl64_ge)
  then have "1 / 2 < fl64 (of_int a / of_int b)" by simp
  with True show ?thesis using assms by (simp add: float_defs fl64_of_int_exact)
qed

end
