(* ===== verification/Latest.thy ===== *)
theory Latest
  imports Model FloatOrder Calendar
begin

text \<open>
  What several components compute of the stored results: the latest result of each check, slices sorted
  by time, and dates as text. A map that is ranged over is an association list, and the order in which Go
  visits it an argument.
\<close>

section \<open>Chosen orders\<close>

text \<open>The order of ranging over a map; a choice that is not a permutation stands for the list's own order.\<close>

definition ranged :: "('a list \<Rightarrow> 'a list) \<Rightarrow> 'a list \<Rightarrow> 'a list" where
  "ranged ord xs = (if mset (ord xs) = mset xs then ord xs else xs)"

lemma mset_ranged [simp]: "mset (ranged ord xs) = mset xs"
  by (simp add: ranged_def)

lemma set_ranged [simp]: "set (ranged ord xs) = set xs"
  by (metis mset_ranged set_mset_mset)

lemma length_ranged [simp]: "length (ranged ord xs) = length xs"
  by (metis mset_ranged size_mset)

lemma ranged_filter: "length (filter P (ranged ord xs)) = length (filter P xs)"
  by (metis mset_filter mset_ranged size_mset)

text \<open>
  A slice sorted by descending time: \<open>sort.Slice\<close> is not stable, so the order of equal elements is an
  argument; a choice that is not sorted stands for the stable order.
\<close>

definition newest_first :: "('a \<Rightarrow> gotime) \<Rightarrow> ('a list \<Rightarrow> 'a list) \<Rightarrow> 'a list \<Rightarrow> 'a list" where
  "newest_first time_of ord xs =
     (if mset (ord xs) = mset xs \<and> sorted_wrt (\<lambda>x y. \<not> after (time_of y) (time_of x)) (ord xs) then ord xs
      else sort_key (\<lambda>x. - time_of x) xs)"

lemma mset_newest_first [simp]: "mset (newest_first t ord xs) = mset xs"
  by (simp add: newest_first_def)

lemma set_newest_first [simp]: "set (newest_first t ord xs) = set xs"
  by (metis mset_newest_first set_mset_mset)

lemma length_newest_first [simp]: "length (newest_first t ord xs) = length xs"
  by (metis mset_newest_first size_mset)

lemma sorted_newest_first: "sorted_wrt (\<lambda>x y. t y \<le> t x) (newest_first t ord xs)"
proof -
  have "sorted_wrt (\<lambda>x y. t y \<le> t x) (sort_key (\<lambda>x. - t x) xs)"
    using sorted_sort_key [of "\<lambda>x. - t x" xs] by (simp add: sorted_wrt_map)
  then show ?thesis by (auto simp: newest_first_def after_def not_less)
qed

section \<open>The latest result of each check\<close>

definition keep_latest :: "CheckResult \<Rightarrow> (string \<times> CheckResult) list \<Rightarrow> (string \<times> CheckResult) list" where
  "keep_latest r m =
     (case map_of m (res_CheckID r) of
        None \<Rightarrow> AList.update (res_CheckID r) r m
      | Some existing \<Rightarrow>
          if after (res_FinishedAt r) (res_FinishedAt existing) then AList.update (res_CheckID r) r m else m)"

definition latest_by_check :: "CheckResult list \<Rightarrow> (string \<times> CheckResult) list" where
  "latest_by_check results = foldl (\<lambda>m r. keep_latest r m) [] results"

lemma latest_snoc [simp]: "latest_by_check (rs @ [r]) = keep_latest r (latest_by_check rs)"
  by (simp add: latest_by_check_def)

lemma latest_Nil [simp]: "latest_by_check [] = []"
  by (simp add: latest_by_check_def)

lemma distinct_latest: "distinct (map fst (latest_by_check rs))"
  by (induction rs rule: rev_induct)
     (auto simp: keep_latest_def distinct_update split: option.split)

lemma keep_latest_again [simp]: "keep_latest r (keep_latest r m) = keep_latest r m"
  by (auto simp: keep_latest_def update_Some_unfold after_def split: option.splits)

lemma map_of_keep_latest:
  "map_of (keep_latest r m) i =
     (if res_CheckID r = i then
        (case map_of m i of
           None \<Rightarrow> Some r
         | Some e \<Rightarrow> if after (res_FinishedAt r) (res_FinishedAt e) then Some r else Some e)
      else map_of m i)"
  by (auto simp: keep_latest_def update_conv' split: option.split)

text \<open>The specification: a result of the check that none of its results is later than.\<close>

lemma latest_is_latest:
  "(case map_of (latest_by_check rs) i of
      None \<Rightarrow> \<forall>r \<in> set rs. res_CheckID r \<noteq> i
    | Some r \<Rightarrow> r \<in> set rs \<and> res_CheckID r = i \<and>
        (\<forall>r' \<in> set rs. res_CheckID r' = i \<longrightarrow> res_FinishedAt r' \<le> res_FinishedAt r))"
proof (induction rs rule: rev_induct)
  case (snoc x xs)
  then show ?case
    by (auto simp: map_of_keep_latest after_def split: option.splits)
qed simp

lemma latest_SomeD:
  "map_of (latest_by_check rs) i = Some r \<Longrightarrow> r \<in> set rs \<and> res_CheckID r = i \<and>
     (\<forall>r' \<in> set rs. res_CheckID r' = i \<longrightarrow> res_FinishedAt r' \<le> res_FinishedAt r)"
  using latest_is_latest [of rs i] by simp

lemma latest_None_iff: "map_of (latest_by_check rs) i = None \<longleftrightarrow> (\<forall>r \<in> set rs. res_CheckID r \<noteq> i)"
  using latest_is_latest [of rs i] by (auto split: option.splits)

lemma latest_filter:
  "map_of (latest_by_check (filter (\<lambda>r. res_CheckID r \<in> A) rs)) i =
     (if i \<in> A then map_of (latest_by_check rs) i else None)"
  by (induction rs rule: rev_induct) (auto simp: map_of_keep_latest)

lemma keys_latest: "fst ` set (latest_by_check rs) = res_CheckID ` set rs"
proof -
  have "i \<in> fst ` set (latest_by_check rs) \<longleftrightarrow> i \<in> res_CheckID ` set rs" for i
    using latest_None_iff [of rs i] by (auto simp: map_of_eq_None_iff)
  then show ?thesis by blast
qed

lemma latest_entry: "(i, r) \<in> set (latest_by_check rs) \<longleftrightarrow> map_of (latest_by_check rs) i = Some r"
  by (simp add: distinct_latest)

section \<open>Dates as text\<close>

text \<open>A number padded to a width with zeros, and the layout \<open>2006-01-02\<close> in UTC.\<close>

definition padded :: "nat \<Rightarrow> int \<Rightarrow> string" where
  "padded n i = (let s = itoa i in replicate (n - length s) (CHR ''0'') @ s)"

definition date_text :: "gotime \<Rightarrow> string" where
  "date_text t = padded 4 (t_year 0 t) @ ''-'' @ padded 2 (t_month 0 t) @ ''-'' @ padded 2 (t_day 0 t)"

lemma padded_value: "0 \<le> i \<Longrightarrow> digits_value (padded n i) = nat i"
proof -
  have "digits_value (replicate k (CHR ''0'') @ s) = digits_value s" for k s
    by (induction k) simp_all
  then show "0 \<le> i \<Longrightarrow> ?thesis" by (simp add: padded_def Let_def itoa_def digits_value_nat_digits del: digits_value.simps)
qed

lemma padded_no_dash: "0 \<le> i \<Longrightarrow> CHR ''-'' \<notin> set (padded n i)"
  by (simp add: padded_def Let_def itoa_def nat_digits_no_dash)

lemma padded_inj: "0 \<le> i \<Longrightarrow> 0 \<le> j \<Longrightarrow> padded n i = padded n j \<Longrightarrow> i = j"
  by (metis eq_nat_nat_iff padded_value)

lemma civil_year_nonneg:
  assumes "0 \<le> n"
  shows "0 \<le> fst (civil n)"
proof -
  obtain y d where yd: "year_day n = (y, d)" by fastforce
  from year_day [OF yd] have n: "days_before_year y + d = n" and d: "d < 366"
    by (auto simp: sum_month_lengths split: if_splits)
  have "0 \<le> y"
  proof (rule ccontr)
    assume "\<not> 0 \<le> y"
    then have "y - 1 \<le> - 2" by simp
    moreover have "(y - 1) div 4 \<le> 0" "(y - 1) div 400 \<le> 0" using \<open>\<not> 0 \<le> y\<close> by (simp_all add: div_nonpos_pos_le0)
    moreover have "(y - 1) - 99 \<le> 100 * ((y - 1) div 100)"
      using mult_div_mod_eq [of 100 "y - 1"] pos_mod_bound [of 100 "y - 1"] by linarith
    moreover have "365 * k + a - b + c < - 366" if "k \<le> - 2" "a \<le> 0" "c \<le> 0" "k - 99 \<le> 100 * b" for a b c k :: int
      using that by linarith
    ultimately have "days_before_year y < - 366" unfolding days_before_year_def by blast
    with n d assms show False by linarith
  qed
  moreover have "fst (civil n) = y" by (simp add: civil_def yd split: prod.split)
  ultimately show ?thesis by simp
qed

text \<open>Two times have the same date text exactly if they are on the same day.\<close>

lemma date_text_iff:
  assumes "0 \<le> t" and "0 \<le> u"
  shows "date_text t = date_text u \<longleftrightarrow> local_day 0 t = local_day 0 u"
proof
  assume eq: "date_text t = date_text u"
  have pos: "0 \<le> t_year 0 v \<and> 0 \<le> t_month 0 v \<and> 0 \<le> t_day 0 v" if "0 \<le> v" for v
  proof -
    have "0 \<le> local_day 0 v" using that by (simp add: local_day_def day_ns_def pos_imp_zdiv_nonneg_iff)
    moreover obtain y m d where "civil (local_day 0 v) = (y, m, d)" by (metis prod_cases3)
    ultimately show ?thesis
      using civil [of "local_day 0 v" y m d] civil_year_nonneg [of "local_day 0 v"]
      by (simp add: t_year_def t_month_def t_day_def)
  qed
  let ?p = "\<lambda>v. padded 4 (t_year 0 v) @ ''-'' @ padded 2 (t_month 0 v)"
  have "?p t = ?p u \<and> padded 2 (t_day 0 t) = padded 2 (t_day 0 u)"
    using eq pos assms by (intro dash_suffix_inj) (simp_all add: date_text_def padded_no_dash)
  moreover from this have "padded 4 (t_year 0 t) = padded 4 (t_year 0 u) \<and> padded 2 (t_month 0 t) = padded 2 (t_month 0 u)"
    using pos assms by (intro dash_suffix_inj) (simp_all add: padded_no_dash)
  ultimately have "t_year 0 t = t_year 0 u" "t_month 0 t = t_month 0 u" "t_day 0 t = t_day 0 u"
    using pos [OF assms(1)] pos [OF assms(2)] by (auto dest: padded_inj)
  then have "civil (local_day 0 t) = civil (local_day 0 u)"
    by (simp add: t_year_def t_month_def t_day_def prod_eq_iff)
  then show "local_day 0 t = local_day 0 u"
    by (metis civil prod_cases3)
qed (simp add: date_text_def t_year_def t_month_def t_day_def)

end
