(* ===== verification/Automation.thy ===== *)
theory Automation
  imports Incidents Latest
begin

text \<open>
  Suggested remediation actions (\<open>automation/engine.go\<close>, \<open>automation/types.go\<close>,
  \<open>automation/handler.go\<close>). An AI provider proposes actions for the current state of the checks; a
  person approves or rejects each; an action that nobody decides expires. The engine is the list of
  its actions and its audit log. The provider, the decoder of its JSON answer and the hash that makes
  IDs are arguments; the readings of the clock are in a record. The engine runs nothing, and every
  operation that changes it holds its mutex throughout, so a history of the engine is a sequence of
  steps.
\<close>

section \<open>Data\<close>

datatype ApprovalStatus = StatusPending | StatusApproved | StatusRejected | StatusExpired

definition status_text :: "ApprovalStatus \<Rightarrow> string" where
  "status_text s = (case s of StatusPending \<Rightarrow> ''pending'' | StatusApproved \<Rightarrow> ''approved''
     | StatusRejected \<Rightarrow> ''rejected'' | StatusExpired \<Rightarrow> ''expired'')"

text \<open>The type and the risk are whatever the provider wrote: both are strings, and nothing checks them.\<close>

record Action =
  act_ID :: string
  act_Type :: string
  act_Title :: string
  act_Description :: string
  act_Risk :: string
  act_CheckID :: string
  act_Server :: string
  act_IncidentID :: string
  act_Command :: string
  act_Params :: "(string \<times> goval) list"
  act_Reason :: string
  act_Status :: ApprovalStatus
  act_CreatedAt :: gotime
  act_ExpiresAt :: gotime
  act_ApprovedBy :: string
  act_ApprovedAt :: "gotime option"
  act_RejectedBy :: string
  act_RejectedAt :: "gotime option"
  act_ExecutedAt :: "gotime option"
  act_Result :: string

record AuditEntry =
  aud_ID :: string
  aud_ActionID :: string
  aud_Actor :: string
  aud_Event :: string
  aud_Details :: string
  aud_Timestamp :: gotime

record SuggestRequest =
  sreq_IncidentID :: string
  sreq_CheckID :: string
  sreq_Context :: string

text \<open>The local struct of \<open>parseAIResponse\<close>.\<close>

record AiAction =
  ai_Type :: string
  ai_Title :: string
  ai_Description :: string
  ai_Risk :: string
  ai_Command :: string
  ai_Reason :: string

record ActionEngine =
  ae_actions :: "Action list"
  ae_audit :: "AuditEntry list"

definition NewActionEngine :: ActionEngine where
  "NewActionEngine = \<lparr>ae_actions = [], ae_audit = []\<rparr>"

definition ActionExpiry :: duration where
  "ActionExpiry = 24 * hour"

text \<open>
  What one call of \<open>Suggest\<close> reads from outside: the time at which the answer is parsed and the
  one at which the lock is taken, the nanoseconds that go into the ID of the \<open>i\<close>-th action, and the
  nanoseconds and the time of its audit entry.
\<close>

record SuggestClock =
  sg_parsed :: gotime
  sg_locked :: gotime
  sg_action_nano :: "nat \<Rightarrow> int"
  sg_audit_nano :: "nat \<Rightarrow> int"
  sg_audit_time :: "nat \<Rightarrow> gotime"

definition actionID :: "(string \<Rightarrow> string) \<Rightarrow> int \<Rightarrow> string \<Rightarrow> string \<Rightarrow> string" where
  "actionID sha8 nano actionType title = ''act_'' @ sha8 (actionType @ '':'' @ title @ '':'' @ itoa nano)"

definition auditID :: "(string \<Rightarrow> string) \<Rightarrow> int \<Rightarrow> string" where
  "auditID sha8 nano = ''aud_'' @ sha8 (''audit:'' @ itoa nano)"

definition actionDedupKey :: "Action \<Rightarrow> string" where
  "actionDedupKey action = act_Type action @ [CHR 0x00] @ to_lower (trim_space (act_Title action))"

section \<open>Parsing the answer\<close>

definition last_index_char :: "char \<Rightarrow> string \<Rightarrow> nat option" where
  "last_index_char c s = find (\<lambda>i. s ! i = c) (rev [0 ..< length s])"

text \<open>The answer may be wrapped in Markdown: cut out what lies between the outer brackets.\<close>

definition json_part :: "string \<Rightarrow> string" where
  "json_part response =
     (case str_index response ''['' of
        None \<Rightarrow> response
      | Some idx \<Rightarrow>
          (case last_index_char (CHR '']'') response of
             None \<Rightarrow> response
           | Some e \<Rightarrow> if idx < e then drop idx (take (e + 1) response) else response))"

definition action_of :: "(string \<Rightarrow> string) \<Rightarrow> SuggestClock \<Rightarrow> SuggestRequest \<Rightarrow> nat \<Rightarrow> AiAction \<Rightarrow> Action" where
  "action_of sha8 clk req i p =
     \<lparr>act_ID = actionID sha8 (sg_action_nano clk i) (ai_Type p) (ai_Title p), act_Type = ai_Type p,
      act_Title = ai_Title p, act_Description = ai_Description p, act_Risk = ai_Risk p,
      act_CheckID = sreq_CheckID req, act_Server = [], act_IncidentID = sreq_IncidentID req,
      act_Command = ai_Command p, act_Params = [], act_Reason = ai_Reason p, act_Status = StatusPending,
      act_CreatedAt = sg_parsed clk, act_ExpiresAt = time_add (sg_parsed clk) ActionExpiry,
      act_ApprovedBy = [], act_ApprovedAt = None, act_RejectedBy = [], act_RejectedAt = None,
      act_ExecutedAt = None, act_Result = []\<rparr>"

fun parse_loop :: "(string \<Rightarrow> string) \<Rightarrow> SuggestClock \<Rightarrow> SuggestRequest \<Rightarrow> Action list \<Rightarrow> AiAction list \<Rightarrow> Action list" where
  "parse_loop sha8 clk req actions [] = actions"
| "parse_loop sha8 clk req actions (p # parsed) =
     (if 3 \<le> length actions then actions
      else parse_loop sha8 clk req (actions @ [action_of sha8 clk req (length actions) p]) parsed)"

text \<open>A decoding error is logged and gives no actions.\<close>

definition parseAIResponse ::
  "(string \<Rightarrow> AiAction list option) \<Rightarrow> (string \<Rightarrow> string) \<Rightarrow> SuggestClock \<Rightarrow> string \<Rightarrow> SuggestRequest \<Rightarrow> Action list" where
  "parseAIResponse unmarshal sha8 clk response req =
     (case unmarshal (json_part response) of
        None \<Rightarrow> []
      | Some parsed \<Rightarrow> parse_loop sha8 clk req [] parsed)"

lemma parse_loop_eq:
  "parse_loop sha8 clk req actions parsed =
     actions @ map2 (action_of sha8 clk req) [length actions ..< 3] parsed"
proof (induction parsed arbitrary: actions)
  case (Cons p parsed)
  then show ?case by (simp add: upt_conv_Cons)
qed simp

lemma parse_at_most_3: "length (parseAIResponse unmarshal sha8 clk response req) \<le> 3"
  by (simp add: parseAIResponse_def parse_loop_eq split: option.split)

lemma parsed_is_new:
  "a \<in> set (parseAIResponse unmarshal sha8 clk response req) \<Longrightarrow> \<exists>i p. a = action_of sha8 clk req i p"
  by (auto simp: parseAIResponse_def parse_loop_eq split: option.splits)

lemma action_of_fields [simp]:
  "act_Status (action_of sha8 clk req i p) = StatusPending" "act_Type (action_of sha8 clk req i p) = ai_Type p"
  "act_Title (action_of sha8 clk req i p) = ai_Title p" "act_ApprovedAt (action_of sha8 clk req i p) = None"
  "act_RejectedAt (action_of sha8 clk req i p) = None" "act_ExecutedAt (action_of sha8 clk req i p) = None"
  "act_ExpiresAt (action_of sha8 clk req i p) = time_add (act_CreatedAt (action_of sha8 clk req i p)) ActionExpiry"
  by (simp_all add: action_of_def)

section \<open>The engine\<close>

text \<open>\<open>expirePendingLocked\<close>\<close>

definition expire_action :: "gotime \<Rightarrow> Action \<Rightarrow> Action" where
  "expire_action now a =
     (if act_Status a = StatusPending \<and> after now (act_ExpiresAt a) then a\<lparr>act_Status := StatusExpired\<rparr> else a)"

definition expirePendingLocked :: "gotime \<Rightarrow> ActionEngine \<Rightarrow> ActionEngine" where
  "expirePendingLocked now e = e\<lparr>ae_actions := map (expire_action now) (ae_actions e)\<rparr>"

definition existing_pending :: "Action list \<Rightarrow> string \<rightharpoonup> Action" where
  "existing_pending actions =
     foldl (\<lambda>m a. if act_Status a = StatusPending then m(actionDedupKey a \<mapsto> a) else m) Map.empty actions"

definition suggested_entry :: "(string \<Rightarrow> string) \<Rightarrow> SuggestClock \<Rightarrow> nat \<Rightarrow> Action \<Rightarrow> AuditEntry" where
  "suggested_entry sha8 clk i action =
     \<lparr>aud_ID = auditID sha8 (sg_audit_nano clk i), aud_ActionID = act_ID action, aud_Actor = ''ai'',
      aud_Event = ''suggested'', aud_Details = act_Reason action, aud_Timestamp = sg_audit_time clk i\<rparr>"

text \<open>The loop of \<open>Suggest\<close> that queues what is new and reuses what is pending.\<close>

fun queue_actions ::
  "(string \<Rightarrow> string) \<Rightarrow> SuggestClock \<Rightarrow> nat \<Rightarrow> Action list \<Rightarrow> (string \<rightharpoonup> Action) \<Rightarrow> ActionEngine \<Rightarrow> ActionEngine \<times> Action list" where
  "queue_actions sha8 clk i [] existing e = (e, [])"
| "queue_actions sha8 clk i (a # actions) existing e =
     (case existing (actionDedupKey a) of
        Some old \<Rightarrow>
          (let (e', stored) = queue_actions sha8 clk (i + 1) actions existing e in (e', old # stored))
      | None \<Rightarrow>
          (let (e', stored) = queue_actions sha8 clk (i + 1) actions (existing(actionDedupKey a \<mapsto> a))
                 (e\<lparr>ae_actions := ae_actions e @ [a], ae_audit := ae_audit e @ [suggested_entry sha8 clk i a]\<rparr>)
           in (e', a # stored)))"

definition store_suggestions :: "(string \<Rightarrow> string) \<Rightarrow> SuggestClock \<Rightarrow> Action list \<Rightarrow> ActionEngine \<Rightarrow> ActionEngine \<times> Action list" where
  "store_suggestions sha8 clk actions e =
     (let e = expirePendingLocked (sg_locked clk) e in
      queue_actions sha8 clk 0 actions (existing_pending (ae_actions e)) e)"

text \<open>\<open>ListActions\<close>: a filter that matches nothing gives a nil slice, which is the empty list here.\<close>

definition ListActions :: "gotime \<Rightarrow> string \<Rightarrow> ActionEngine \<Rightarrow> ActionEngine \<times> Action list" where
  "ListActions now status e =
     (let e = expirePendingLocked now e in
      (e, if status = [] then ae_actions e
          else filter (\<lambda>a. status_text (act_Status a) = status) (ae_actions e)))"

definition GetAction :: "string \<Rightarrow> ActionEngine \<Rightarrow> Action option" where
  "GetAction i e = find (\<lambda>a. act_ID a = i) (ae_actions e)"

definition AuditLog :: "ActionEngine \<Rightarrow> AuditEntry list" where
  "AuditLog e = ae_audit e"

definition not_found_text :: "string \<Rightarrow> string" where
  "not_found_text i = ''action '' @ i @ '' not found''"

definition not_pending_text :: "string \<Rightarrow> ApprovalStatus \<Rightarrow> string" where
  "not_pending_text i s = ''action '' @ i @ '' is not pending (status: '' @ status_text s @ '')''"

definition approve_action :: "string \<Rightarrow> gotime \<Rightarrow> Action \<Rightarrow> Action" where
  "approve_action actor now a =
     a\<lparr>act_Status := StatusApproved, act_ApprovedBy := actor, act_ApprovedAt := Some now,
       act_Result := ''approved in audit log; command not executed''\<rparr>"

definition reject_action :: "string \<Rightarrow> gotime \<Rightarrow> Action \<Rightarrow> Action" where
  "reject_action actor now a =
     a\<lparr>act_Status := StatusRejected, act_RejectedBy := actor, act_RejectedAt := Some now\<rparr>"

text \<open>The two decisions share their shape: find the action, refuse unless it is pending, change it, log it.\<close>

definition decide ::
  "(string \<Rightarrow> string) \<Rightarrow> gotime \<Rightarrow> int \<Rightarrow> string \<Rightarrow> string \<Rightarrow> string \<Rightarrow> string \<Rightarrow> (Action \<Rightarrow> Action) \<Rightarrow> ActionEngine \<Rightarrow>
     ActionEngine \<times> string option" where
  "decide sha8 now nano i actor event details change e =
     (case GetAction i e of
        None \<Rightarrow> (e, Some (not_found_text i))
      | Some a \<Rightarrow>
          if act_Status a \<noteq> StatusPending then (e, Some (not_pending_text i (act_Status a)))
          else (e\<lparr>ae_actions := replace_first (\<lambda>a. act_ID a = i) change (ae_actions e),
                  ae_audit := ae_audit e @ [\<lparr>aud_ID = auditID sha8 nano, aud_ActionID = i, aud_Actor = actor,
                    aud_Event = event, aud_Details = details, aud_Timestamp = now\<rparr>]\<rparr>, None))"

definition Approve :: "(string \<Rightarrow> string) \<Rightarrow> gotime \<Rightarrow> int \<Rightarrow> string \<Rightarrow> string \<Rightarrow> ActionEngine \<Rightarrow> ActionEngine \<times> string option" where
  "Approve sha8 now nano i actor e = decide sha8 now nano i actor ''approved'' [] (approve_action actor now) e"

definition Reject :: "(string \<Rightarrow> string) \<Rightarrow> gotime \<Rightarrow> int \<Rightarrow> string \<Rightarrow> string \<Rightarrow> string \<Rightarrow> ActionEngine \<Rightarrow> ActionEngine \<times> string option" where
  "Reject sha8 now nano i actor reason e =
     decide sha8 now nano i actor ''rejected'' reason (reject_action actor now) e"

section \<open>The context for the provider\<close>

text \<open>
  \<open>buildContext\<close> writes the text the provider sees. \<open>rfc3339\<close> formats a time; \<open>ord\<close> and \<open>ord_inc\<close>
  are the orders in which \<open>sort.Slice\<close>, which is not stable, leaves elements of the same time (the
  elements come from ranging over a map; see theory \<open>Latest\<close>).
\<close>

definition nl :: string where "nl = [CHR 0x0A]"

definition bool_string :: "bool \<Rightarrow> string" where
  "bool_string b = (if b then ''true'' else ''false'')"

definition result_line :: "(gotime \<Rightarrow> string) \<Rightarrow> CheckResult \<Rightarrow> string" where
  "result_line rfc3339 r =
     ''  Result: status='' @ res_Status r @ '' healthy='' @ bool_string (res_Healthy r) @ '' duration='' @
     itoa (res_DurationMs r) @ ''ms at='' @ rfc3339 (res_FinishedAt r) @ '' msg='' @ res_Message r @ nl"

definition check_context :: "(gotime \<Rightarrow> string) \<Rightarrow> string \<Rightarrow> State \<Rightarrow> string" where
  "check_context rfc3339 checkID state =
     (case find (\<lambda>c. chk_ID c = checkID) (st_Checks state) of
        None \<Rightarrow> []
      | Some c \<Rightarrow> ''Check: '' @ chk_Name c @ '' (type='' @ chk_Type c @ '', server='' @ chk_Server c @
          '', target='' @ chk_Target c @ '')'' @ nl) @
     (let recent = filter (\<lambda>r. res_CheckID r = checkID) (st_Results state);
          recent = (if length recent > 5 then drop (length recent - 5) recent else recent)
      in concat (map (result_line rfc3339) recent))"

definition or_else :: "string \<Rightarrow> string \<Rightarrow> string" where
  "or_else s d = (if s = [] then d else s)"

definition unhealthy_line :: "(gotime \<Rightarrow> string) \<Rightarrow> CheckConfig list \<Rightarrow> CheckResult \<Rightarrow> string" where
  "unhealthy_line rfc3339 checks r =
     (let check = (case find (\<lambda>c. chk_ID c = res_CheckID r) (rev checks) of None \<Rightarrow> zero_check | Some c \<Rightarrow> c)
      in ''  - '' @ or_else (res_Name r) (chk_Name check) @ '' (type='' @ or_else (res_Type r) (chk_Type check) @
         '', server='' @ or_else (res_Server r) (chk_Server check) @ '', target='' @ chk_Target check @
         ''): status='' @ res_Status r @ '' duration='' @ itoa (res_DurationMs r) @ ''ms at='' @
         rfc3339 (res_FinishedAt r) @ '' msg='' @ res_Message r @ nl)"

definition unhealthy_context ::
  "(gotime \<Rightarrow> string) \<Rightarrow> (CheckResult list \<Rightarrow> CheckResult list) \<Rightarrow> State \<Rightarrow> string" where
  "unhealthy_context rfc3339 ord state =
     (let unhealthy = newest_first res_FinishedAt ord
        (filter (\<lambda>r. \<not> res_Healthy r) (map snd (latest_by_check (st_Results state))))
      in if unhealthy = [] then []
         else ''Current unhealthy checks:'' @ nl @
           concat (map (unhealthy_line rfc3339 (st_Checks state)) (take 5 unhealthy)))"

definition open_incident_line :: "(gotime \<Rightarrow> string) \<Rightarrow> Incident \<Rightarrow> string" where
  "open_incident_line rfc3339 inc =
     ''  - '' @ inc_CheckName inc @ '' (severity='' @ inc_Severity inc @ '', status='' @ inc_Status inc @
     '', updated='' @ rfc3339 (inc_UpdatedAt inc) @ '')'' @ nl @ ''    Message: '' @ inc_Message inc @ nl"

definition incident_context ::
  "(gotime \<Rightarrow> string) \<Rightarrow> (Incident list \<Rightarrow> Incident list) \<Rightarrow> ('r IncidentRepo \<times> 'r) option \<Rightarrow> string \<Rightarrow> string" where
  "incident_context rfc3339 ord_inc incidentRepo incidentID =
     (case incidentRepo of
        None \<Rightarrow> []
      | Some (repo, r) \<Rightarrow>
          if incidentID \<noteq> [] then
            (case repo_get repo incidentID r of
               (inc, None) \<Rightarrow>
                 nl @ ''Incident: '' @ inc_CheckName inc @ '' (severity='' @ inc_Severity inc @ '', status='' @
                 inc_Status inc @ '', started='' @ rfc3339 (inc_StartedAt inc) @ '')'' @ nl @
                 ''  Message: '' @ inc_Message inc @ nl
             | (_, Some err) \<Rightarrow> [])
          else
            (case repo_list repo r of
               (_, Some err) \<Rightarrow> []
             | (incidents, None) \<Rightarrow>
                 let opened = newest_first inc_UpdatedAt ord_inc (filter (\<lambda>i. inc_Status i \<noteq> ''resolved'') incidents)
                 in if opened = [] then []
                    else nl @ ''Open incidents:'' @ nl @ concat (map (open_incident_line rfc3339) (take 5 opened))))"

definition system_line :: "State \<Rightarrow> string" where
  "system_line state =
     (let latest = map snd (latest_by_check (st_Results state))
      in nl @ ''System: '' @ itoa (int (length (st_Checks state))) @ '' checks total, '' @
         itoa (int (length (filter res_Healthy latest))) @ '' healthy, '' @
         itoa (int (length (filter (\<lambda>r. \<not> res_Healthy r) latest))) @ '' unhealthy'' @ nl)"

definition buildContext ::
  "(gotime \<Rightarrow> string) \<Rightarrow> (CheckResult list \<Rightarrow> CheckResult list) \<Rightarrow> (Incident list \<Rightarrow> Incident list) \<Rightarrow>
     ('r IncidentRepo \<times> 'r) option \<Rightarrow> State \<Rightarrow> SuggestRequest \<Rightarrow> string" where
  "buildContext rfc3339 ord ord_inc incidentRepo state req =
     (if sreq_CheckID req \<noteq> [] then check_context rfc3339 (sreq_CheckID req) state
      else unhealthy_context rfc3339 ord state) @
     incident_context rfc3339 ord_inc incidentRepo (sreq_IncidentID req) @
     system_line state"

definition systemMsg :: string where
  "systemMsg = join nl
     [''You are an infrastructure reliability engineer. Given the monitoring context, suggest specific remediation actions.'',
      ''For each action, respond in JSON array format:'',
      ''[{\"type\":\"restart|drain_node|rotate_credential|inspect_queries|scale_up|clear_queue|custom\",\"title\":\"short title\",\"description\":\"what this does\",\"risk\":\"low|medium|high|critical\",\"command\":\"optional shell command\",\"reason\":\"why this helps\"}]'',
      ''Rules:'',
      ''- Only suggest actions that are safe and reversible when possible'',
      ''- Always include risk level honestly'',
      ''- Never suggest destructive actions without noting the risk as \"critical\"'',
      ''- Maximum 3 suggestions per request'',
      ''- Commands should be specific and executable'']"

definition userMsg :: "string \<Rightarrow> SuggestRequest \<Rightarrow> string" where
  "userMsg contextData req =
     ''Monitoring context:'' @ nl @ contextData @ nl @ nl @ ''Additional context: '' @ sreq_Context req @ nl @ nl @
     ''Suggest remediation actions.''"

text \<open>
  \<open>Suggest\<close>. The state and the incidents are read, and the provider is called, before the lock is taken;
  \<open>e\<close> is the engine at that later moment. The first component tells what the provider was asked.
\<close>

definition Suggest ::
  "(string \<Rightarrow> string \<Rightarrow> string + string) option \<Rightarrow> (string \<Rightarrow> AiAction list option) \<Rightarrow> (string \<Rightarrow> string) \<Rightarrow>
     SuggestClock \<Rightarrow> string \<Rightarrow> SuggestRequest \<Rightarrow> ActionEngine \<Rightarrow> ActionEngine \<times> (string + Action list)" where
  "Suggest aiCall unmarshal sha8 clk contextData req e =
     (case aiCall of
        None \<Rightarrow> (e, Inl ''AI provider not configured'')
      | Some call \<Rightarrow>
          (case call systemMsg (userMsg contextData req) of
             Inl err \<Rightarrow> (e, Inl (''AI call failed: '' @ err))
           | Inr response \<Rightarrow>
               let (e', stored) = store_suggestions sha8 clk (parseAIResponse unmarshal sha8 clk response req) e
               in (e', Inr stored)))"

section \<open>The handlers\<close>

datatype auto_response =
    AutoOk
  | AutoAction Action
  | AutoActions "Action list"
  | AutoAudit "AuditEntry list"
  | AutoAvailable bool
  | AutoError string string

text \<open>A response is its status and its body; a body that cannot be decoded is \<open>None\<close>.\<close>

definition handleListActions :: "gotime \<Rightarrow> string \<Rightarrow> ActionEngine \<Rightarrow> ActionEngine \<times> int \<times> auto_response" where
  "handleListActions now status e = (let (e', actions) = ListActions now status e in (e', 200, AutoActions actions))"

definition handleGetAction :: "string \<Rightarrow> ActionEngine \<Rightarrow> int \<times> auto_response" where
  "handleGetAction i e =
     (case GetAction i e of
        None \<Rightarrow> (404, AutoError ''NOT_FOUND'' ''action not found'')
      | Some a \<Rightarrow> (200, AutoAction a))"

definition handleSuggest ::
  "(string \<Rightarrow> string \<Rightarrow> string + string) option \<Rightarrow> (string \<Rightarrow> AiAction list option) \<Rightarrow> (string \<Rightarrow> string) \<Rightarrow>
     SuggestClock \<Rightarrow> (SuggestRequest \<Rightarrow> string) \<Rightarrow> SuggestRequest option \<Rightarrow> ActionEngine \<Rightarrow>
     ActionEngine \<times> int \<times> auto_response" where
  "handleSuggest aiCall unmarshal sha8 clk build body e =
     (case body of
        None \<Rightarrow> (e, 400, AutoError ''INVALID_BODY'' ''invalid request body'')
      | Some req \<Rightarrow>
          (case Suggest aiCall unmarshal sha8 clk (build req) req e of
             (e', Inl err) \<Rightarrow> (e', 500, AutoError ''SUGGEST_FAILED'' err)
           | (e', Inr actions) \<Rightarrow> (e', 200, AutoActions actions)))"

definition known_actor :: "string \<Rightarrow> string" where
  "known_actor actor = or_else actor ''unknown''"

definition decision_status :: "string \<Rightarrow> string \<Rightarrow> int" where
  "decision_status i err = (if err = not_found_text i then 404 else 400)"

definition handleApprove ::
  "(string \<Rightarrow> string) \<Rightarrow> gotime \<Rightarrow> int \<Rightarrow> string \<Rightarrow> string \<Rightarrow> ActionEngine \<Rightarrow> ActionEngine \<times> int \<times> auto_response" where
  "handleApprove sha8 now nano i actor e =
     (case Approve sha8 now nano i (known_actor actor) e of
        (e', Some err) \<Rightarrow> (e', decision_status i err, AutoError ''APPROVE_FAILED'' err)
      | (e', None) \<Rightarrow> (e', 200, AutoOk))"

definition handleReject ::
  "(string \<Rightarrow> string) \<Rightarrow> gotime \<Rightarrow> int \<Rightarrow> string \<Rightarrow> string \<Rightarrow> string \<Rightarrow> ActionEngine \<Rightarrow> ActionEngine \<times> int \<times> auto_response" where
  "handleReject sha8 now nano i actor reason e =
     (case Reject sha8 now nano i (known_actor actor) reason e of
        (e', Some err) \<Rightarrow> (e', decision_status i err, AutoError ''REJECT_FAILED'' err)
      | (e', None) \<Rightarrow> (e', 200, AutoOk))"

definition handleAuditLog :: "ActionEngine \<Rightarrow> int \<times> auto_response" where
  "handleAuditLog e = (200, AutoAudit (AuditLog e))"

definition handleStatus :: "(string \<Rightarrow> string \<Rightarrow> string + string) option \<Rightarrow> int \<times> auto_response" where
  "handleStatus aiCall = (200, AutoAvailable (aiCall \<noteq> None))"

section \<open>Histories of the engine\<close>

inductive auto_step :: "ActionEngine \<Rightarrow> ActionEngine \<Rightarrow> bool" where
  Suggest: "auto_step e (fst (Suggest aiCall unmarshal sha8 clk contextData req e))"
| List: "auto_step e (fst (ListActions now status e))"
| Approve: "auto_step e (fst (Approve sha8 now nano i actor e))"
| Reject: "auto_step e (fst (Reject sha8 now nano i actor reason e))"

definition auto_steps :: "ActionEngine \<Rightarrow> ActionEngine \<Rightarrow> bool" where
  "auto_steps = auto_step\<^sup>*\<^sup>*"

text \<open>
  Each step is one of five changes: nothing, the expiry of what is overdue, the queueing of new
  actions after that, or a decision on one pending action.
\<close>

definition pending :: "Action \<Rightarrow> bool" where
  "pending a \<longleftrightarrow> act_Status a = StatusPending"

definition pending_keys :: "ActionEngine \<Rightarrow> string list" where
  "pending_keys e = map actionDedupKey (filter pending (ae_actions e))"

definition logged :: "string \<Rightarrow> string \<Rightarrow> ActionEngine \<Rightarrow> nat" where
  "logged event i e = length (filter (\<lambda>x. aud_Event x = event \<and> aud_ActionID x = i) (ae_audit e))"

definition actions_with :: "(Action \<Rightarrow> bool) \<Rightarrow> string \<Rightarrow> ActionEngine \<Rightarrow> nat" where
  "actions_with P i e = length (filter (\<lambda>a. act_ID a = i \<and> P a) (ae_actions e))"

text \<open>What never changes about an action, and what its decision says.\<close>

definition action_ok :: "Action \<Rightarrow> bool" where
  "action_ok a \<longleftrightarrow> act_ExecutedAt a = None \<and> act_ExpiresAt a = time_add (act_CreatedAt a) ActionExpiry \<and>
     (act_ApprovedAt a \<noteq> None \<longleftrightarrow> act_Status a = StatusApproved) \<and>
     (act_RejectedAt a \<noteq> None \<longleftrightarrow> act_Status a = StatusRejected)"

definition engine_ok :: "ActionEngine \<Rightarrow> bool" where
  "engine_ok e \<longleftrightarrow> distinct (pending_keys e) \<and> list_all action_ok (ae_actions e) \<and>
     (\<forall>i. logged ''suggested'' i e = actions_with (\<lambda>_. True) i e \<and>
          logged ''approved'' i e = actions_with (\<lambda>a. act_Status a = StatusApproved) i e \<and>
          logged ''rejected'' i e = actions_with (\<lambda>a. act_Status a = StatusRejected) i e)"

lemma engine_ok_new: "engine_ok NewActionEngine"
  by (simp add: engine_ok_def NewActionEngine_def pending_keys_def logged_def actions_with_def)

subsection \<open>Expiry\<close>

lemma expire_action_simps [simp]:
  "act_ID (expire_action now a) = act_ID a" "actionDedupKey (expire_action now a) = actionDedupKey a"
  "pending (expire_action now a) \<longleftrightarrow> pending a \<and> \<not> after now (act_ExpiresAt a)"
  "act_Status (expire_action now a) = StatusApproved \<longleftrightarrow> act_Status a = StatusApproved"
  "act_Status (expire_action now a) = StatusRejected \<longleftrightarrow> act_Status a = StatusRejected"
  "act_ExpiresAt (expire_action now a) = act_ExpiresAt a"
  by (auto simp: expire_action_def actionDedupKey_def pending_def)

lemma action_ok_expire: "action_ok a \<Longrightarrow> action_ok (expire_action now a)"
  by (auto simp: action_ok_def expire_action_def)

lemma pending_keys_expire:
  "pending_keys (expirePendingLocked now e) =
     map actionDedupKey (filter (\<lambda>a. \<not> after now (act_ExpiresAt a)) (filter pending (ae_actions e)))"
  by (simp add: pending_keys_def expirePendingLocked_def filter_map o_def conj_commute)

lemma logged_expire [simp]: "logged event i (expirePendingLocked now e) = logged event i e"
  by (simp add: logged_def expirePendingLocked_def)

lemma actions_with_expire:
  "(\<And>a. P (expire_action now a) \<longleftrightarrow> P a) \<Longrightarrow> actions_with P i (expirePendingLocked now e) = actions_with P i e"
  by (simp add: actions_with_def expirePendingLocked_def filter_map o_def)

lemma engine_ok_expire:
  assumes "engine_ok e"
  shows "engine_ok (expirePendingLocked now e)"
proof -
  have "distinct (map actionDedupKey (filter pending (ae_actions e)))"
    using assms by (simp add: engine_ok_def pending_keys_def)
  then have "distinct (pending_keys (expirePendingLocked now e))"
    unfolding pending_keys_expire by (rule distinct_map_filter_key)
  moreover have "list_all action_ok (ae_actions (expirePendingLocked now e))"
    using assms by (auto simp: engine_ok_def expirePendingLocked_def list_all_iff intro: action_ok_expire)
  ultimately show ?thesis using assms by (simp add: engine_ok_def actions_with_expire)
qed

subsection \<open>Queueing\<close>

lemma pending_keys_queue:
  "pending_keys (e\<lparr>ae_actions := ae_actions e @ [a], ae_audit := au\<rparr>) =
     pending_keys e @ (if pending a then [actionDedupKey a] else [])"
  by (simp add: pending_keys_def)

lemma engine_ok_queue:
  assumes "engine_ok e" and "a = action_of sha8 clk req k p" and "actionDedupKey a \<notin> set (pending_keys e)"
  shows "engine_ok (e\<lparr>ae_actions := ae_actions e @ [a], ae_audit := ae_audit e @ [suggested_entry sha8' clk' i a]\<rparr>)"
proof -
  have "pending a" "action_ok a" by (simp_all add: assms(2) pending_def action_ok_def)
  then show ?thesis
    using assms(1,3) by (auto simp: engine_ok_def pending_keys_queue logged_def actions_with_def suggested_entry_def pending_def)
qed

lemma dom_existing_pending: "dom (existing_pending actions) = actionDedupKey ` {a \<in> set actions. pending a}"
  unfolding existing_pending_def
  by (induction actions rule: rev_induct) (auto simp: pending_def)

lemma dom_existing_keys: "dom (existing_pending (ae_actions e)) = set (pending_keys e)"
  by (auto simp: dom_existing_pending pending_keys_def)

lemma existing_pendingD:
  "existing_pending actions k = Some a \<Longrightarrow> a \<in> set actions \<and> pending a \<and> actionDedupKey a = k"
  unfolding existing_pending_def
  by (induction actions rule: rev_induct) (auto simp: pending_def split: if_splits)

definition queue_map_ok :: "(string \<rightharpoonup> Action) \<Rightarrow> ActionEngine \<Rightarrow> bool" where
  "queue_map_ok existing e \<longleftrightarrow> dom existing = set (pending_keys e) \<and>
     (\<forall>k a. existing k = Some a \<longrightarrow> a \<in> set (ae_actions e) \<and> pending a \<and> actionDedupKey a = k)"

lemma queue_map_ok_start: "queue_map_ok (existing_pending (ae_actions e)) e"
  using existing_pendingD by (auto simp: queue_map_ok_def dom_existing_keys)

lemma queue_map_ok_add:
  "queue_map_ok existing e \<Longrightarrow> pending a \<Longrightarrow>
     queue_map_ok (existing(actionDedupKey a \<mapsto> a)) (e\<lparr>ae_actions := ae_actions e @ [a], ae_audit := au\<rparr>)"
  by (auto simp: queue_map_ok_def pending_keys_queue)

text \<open>What the loop adds, what it returns, and that it keeps the invariant.\<close>

lemma queue_actions_adds:
  assumes "queue_map_ok existing e" and "list_all pending actions"
    and "queue_actions sha8 clk i actions existing e = (e', stored)"
  shows "\<exists>new. ae_actions e' = ae_actions e @ new \<and> set new \<subseteq> set actions \<and> length new \<le> length actions \<and>
     (actionDedupKey ` set actions \<subseteq> set (pending_keys e) \<longrightarrow> e' = e) \<and>
     map actionDedupKey stored = map actionDedupKey actions \<and>
     list_all (\<lambda>a. a \<in> set (ae_actions e') \<and> pending a) stored"
  using assms
proof (induction sha8 clk i actions existing e arbitrary: e' stored rule: queue_actions.induct)
  case (2 sha8 clk i a actions existing e)
  show ?case
  proof (cases "existing (actionDedupKey a)")
    case None
    let ?e = "e\<lparr>ae_actions := ae_actions e @ [a], ae_audit := ae_audit e @ [suggested_entry sha8 clk i a]\<rparr>"
    obtain st where st: "queue_actions sha8 clk (i + 1) actions (existing(actionDedupKey a \<mapsto> a)) ?e = (e', st)"
      "stored = a # st"
      using 2(5) None by (auto split: prod.splits)
    have "queue_map_ok (existing(actionDedupKey a \<mapsto> a)) ?e" using 2(3,4) by (simp add: queue_map_ok_add)
    then obtain new where "ae_actions e' = ae_actions ?e @ new" "set new \<subseteq> set actions" "length new \<le> length actions"
      "map actionDedupKey st = map actionDedupKey actions" "list_all (\<lambda>a. a \<in> set (ae_actions e') \<and> pending a) st"
      using 2(1) [OF None _ _ st(1)] 2(4) by (auto simp del: fun_upd_apply)
    moreover have "actionDedupKey a \<notin> set (pending_keys e)" using None 2(3) by (auto simp: queue_map_ok_def)
    ultimately show ?thesis using 2(4) st(2) by (intro exI [of _ "a # new"]) auto
  next
    case (Some old)
    obtain st where st: "queue_actions sha8 clk (i + 1) actions existing e = (e', st)" "stored = old # st"
      using 2(5) Some by (auto split: prod.splits)
    then obtain new where "ae_actions e' = ae_actions e @ new" "set new \<subseteq> set actions" "length new \<le> length actions"
      "actionDedupKey ` set actions \<subseteq> set (pending_keys e) \<longrightarrow> e' = e"
      "map actionDedupKey st = map actionDedupKey actions" "list_all (\<lambda>a. a \<in> set (ae_actions e') \<and> pending a) st"
      using 2(2) [OF Some 2(3) _ st(1)] 2(4) by (simp only: list.pred_inject(2)) metis
    moreover have "old \<in> set (ae_actions e)" "pending old" "actionDedupKey old = actionDedupKey a"
      using 2(3) Some by (auto simp: queue_map_ok_def)
    ultimately show ?thesis using st(2) by (intro exI [of _ new]) auto
  qed
qed simp

lemma engine_ok_queue_actions:
  assumes "engine_ok e" and "queue_map_ok existing e" and "list_all (\<lambda>a. \<exists>k p. a = action_of sha8' clk' req k p) actions"
  shows "engine_ok (fst (queue_actions sha8 clk i actions existing e))"
  using assms
proof (induction sha8 clk i actions existing e rule: queue_actions.induct)
  case (2 sha8 clk i a actions existing e)
  from 2(5) obtain k p where a: "a = action_of sha8' clk' req k p" by auto
  show ?case
  proof (cases "existing (actionDedupKey a)")
    case None
    then have "actionDedupKey a \<notin> set (pending_keys e)" using 2(4) by (auto simp: queue_map_ok_def)
    then show ?thesis
      using 2(1) [OF None engine_ok_queue [OF 2(3) a] queue_map_ok_add [OF 2(4)]] 2(5) None
      by (simp add: a pending_def split_beta del: fun_upd_apply)
  next
    case (Some old)
    then show ?thesis using 2(2) [OF Some 2(3,4)] 2(5) by (simp add: split_beta)
  qed
qed simp

lemma engine_ok_store:
  assumes "engine_ok e"
  shows "engine_ok (fst (store_suggestions sha8 clk (parseAIResponse unmarshal sha8' clk' response req) e))"
proof -
  have "list_all (\<lambda>a. \<exists>k p. a = action_of sha8' clk' req k p) (parseAIResponse unmarshal sha8' clk' response req)"
    using parsed_is_new by (force simp: list_all_iff)
  then show ?thesis
    unfolding store_suggestions_def Let_def
    by (rule engine_ok_queue_actions [OF engine_ok_expire [OF assms] queue_map_ok_start])
qed

subsection \<open>Decisions\<close>

lemma decide_cases:
  obtains "fst (decide sha8 now nano i actor event details change e) = e"
  | us a vs where "ae_actions e = us @ a # vs" "act_ID a = i" "pending a" "\<forall>u \<in> set us. act_ID u \<noteq> i"
      "fst (decide sha8 now nano i actor event details change e) =
         e\<lparr>ae_actions := us @ change a # vs,
           ae_audit := ae_audit e @ [\<lparr>aud_ID = auditID sha8 nano, aud_ActionID = i, aud_Actor = actor,
                    aud_Event = event, aud_Details = details, aud_Timestamp = now\<rparr>]\<rparr>"
proof (cases "\<exists>a. GetAction i e = Some a \<and> act_Status a = StatusPending")
  case True
  then obtain a where a: "find (\<lambda>a. act_ID a = i) (ae_actions e) = Some a" "act_Status a = StatusPending"
    by (auto simp: GetAction_def)
  then obtain us vs where "ae_actions e = us @ a # vs" "\<forall>u \<in> set us. act_ID u \<noteq> i"
      "replace_first (\<lambda>a. act_ID a = i) change (ae_actions e) = us @ change a # vs"
    using replace_first_split [of "\<lambda>a. act_ID a = i" "ae_actions e" a change] by auto
  then show ?thesis using that(2) [of us a vs] a find_SomeD [OF a(1)]
    by (simp add: decide_def GetAction_def pending_def)
next
  case False
  then show ?thesis using that(1) by (auto simp: decide_def split: option.splits)
qed

lemma filter_change:
  "P x = P y \<Longrightarrow> length (filter P (us @ x # vs)) = length (filter P (us @ y # vs))"
  by simp

text \<open>A decision on a pending action moves one action of its ID to the decided status and logs it.\<close>

lemma engine_ok_decided:
  assumes "engine_ok e" and "ae_actions e = us @ a # vs" and "act_ID a = i" and "pending a"
    and "aud_ActionID x = i" and "action_ok b" and "act_ID b = i"
    and "(aud_Event x = ''approved'' \<and> act_Status b = StatusApproved) \<or> (aud_Event x = ''rejected'' \<and> act_Status b = StatusRejected)"
  shows "engine_ok (e\<lparr>ae_actions := us @ b # vs, ae_audit := ae_audit e @ [x]\<rparr>)"
proof -
  have "\<not> pending b" "act_Status a = StatusPending" using assms(4,8) by (auto simp: pending_def)
  then have "distinct (pending_keys (e\<lparr>ae_actions := us @ b # vs, ae_audit := ae_audit e @ [x]\<rparr>))"
    using assms(1,2,4) by (simp add: engine_ok_def pending_keys_def)
  moreover have "list_all action_ok (us @ b # vs)" using assms(1,2,6) by (simp add: engine_ok_def)
  ultimately show ?thesis
    using assms(1-3,5,7,8) \<open>act_Status a = StatusPending\<close>
    by (auto simp: engine_ok_def logged_def actions_with_def)
qed

lemma action_ok_decisions:
  assumes "pending a" and "action_ok a"
  shows "action_ok (approve_action actor now a)" "action_ok (reject_action actor now a)"
  using assms by (simp_all add: action_ok_def approve_action_def reject_action_def pending_def)

lemma engine_ok_Approve:
  assumes "engine_ok e"
  shows "engine_ok (fst (Approve sha8 now nano i actor e))"
  unfolding Approve_def
proof (rule decide_cases [of sha8 now nano i actor "''approved''" "[]" "approve_action actor now" e])
  fix us a vs assume d: "ae_actions e = us @ a # vs" "act_ID a = i" "pending a"
    "fst (decide sha8 now nano i actor ''approved'' [] (approve_action actor now) e) =
       e\<lparr>ae_actions := us @ approve_action actor now a # vs,
         ae_audit := ae_audit e @ [\<lparr>aud_ID = auditID sha8 nano, aud_ActionID = i, aud_Actor = actor,
           aud_Event = ''approved'', aud_Details = [], aud_Timestamp = now\<rparr>]\<rparr>"
  have "action_ok a" using assms d(1) by (simp add: engine_ok_def)
  then show "engine_ok (fst (decide sha8 now nano i actor ''approved'' [] (approve_action actor now) e))"
    unfolding d(4) by (intro engine_ok_decided [OF assms d(1-3)] action_ok_decisions d(3))
      (simp_all add: approve_action_def d(2))
qed (use assms in simp)

lemma engine_ok_Reject:
  assumes "engine_ok e"
  shows "engine_ok (fst (Reject sha8 now nano i actor reason e))"
  unfolding Reject_def
proof (rule decide_cases [of sha8 now nano i actor "''rejected''" reason "reject_action actor now" e])
  fix us a vs assume d: "ae_actions e = us @ a # vs" "act_ID a = i" "pending a"
    "fst (decide sha8 now nano i actor ''rejected'' reason (reject_action actor now) e) =
       e\<lparr>ae_actions := us @ reject_action actor now a # vs,
         ae_audit := ae_audit e @ [\<lparr>aud_ID = auditID sha8 nano, aud_ActionID = i, aud_Actor = actor,
           aud_Event = ''rejected'', aud_Details = reason, aud_Timestamp = now\<rparr>]\<rparr>"
  have "action_ok a" using assms d(1) by (simp add: engine_ok_def)
  then show "engine_ok (fst (decide sha8 now nano i actor ''rejected'' reason (reject_action actor now) e))"
    unfolding d(4) by (intro engine_ok_decided [OF assms d(1-3)] action_ok_decisions d(3))
      (simp_all add: reject_action_def d(2))
qed (use assms in simp)

lemma engine_ok_step: "auto_step e e' \<Longrightarrow> engine_ok e \<Longrightarrow> engine_ok e'"
proof (induction rule: auto_step.induct)
  case (Suggest e aiCall unmarshal sha8 clk contextData req)
  then show ?case by (auto simp: Suggest_def Let_def split_beta engine_ok_store split: option.split sum.split)
next
  case (List e now status)
  then show ?case by (simp add: ListActions_def Let_def engine_ok_expire)
qed (simp_all add: engine_ok_Approve engine_ok_Reject)

lemma engine_ok_steps: "auto_steps e e' \<Longrightarrow> engine_ok e \<Longrightarrow> engine_ok e'"
  unfolding auto_steps_def by (induction rule: rtranclp_induct) (auto intro: engine_ok_step)

subsection \<open>What a step does to an action that is already there\<close>

text \<open>
  An action keeps what was suggested; a decided or expired one keeps everything.
\<close>

definition same_proposal :: "Action \<Rightarrow> Action \<Rightarrow> bool" where
  "same_proposal a b \<longleftrightarrow> act_ID b = act_ID a \<and> act_Type b = act_Type a \<and> act_Title b = act_Title a \<and>
     act_Command b = act_Command a \<and> act_Risk b = act_Risk a \<and> act_ExpiresAt b = act_ExpiresAt a"

definition moves_to :: "Action \<Rightarrow> Action \<Rightarrow> bool" where
  "moves_to a b \<longleftrightarrow> same_proposal a b \<and> (pending a \<or> b = a)"

lemma moves_to_refl [simp]: "moves_to a a"
  by (simp add: moves_to_def same_proposal_def)

lemma moves_to_trans: "moves_to a b \<Longrightarrow> moves_to b c \<Longrightarrow> moves_to a c"
  by (auto simp: moves_to_def same_proposal_def)

lemma moves_to_changes:
  "moves_to a (expire_action now a)"
  "pending a \<Longrightarrow> moves_to a (approve_action actor now a)" "pending a \<Longrightarrow> moves_to a (reject_action actor now a)"
  by (auto simp: moves_to_def same_proposal_def expire_action_def approve_action_def reject_action_def pending_def)

text \<open>Positions are kept: the old list moves element by element, and new actions follow.\<close>

definition engine_moves :: "ActionEngine \<Rightarrow> ActionEngine \<Rightarrow> bool" where
  "engine_moves e e' \<longleftrightarrow>
     (\<exists>old new. ae_actions e' = old @ new \<and> list_all2 moves_to (ae_actions e) old) \<and>
     (\<exists>more. ae_audit e' = ae_audit e @ more)"

lemma list_all2_moves_refl [simp]: "list_all2 moves_to xs xs"
  by (simp add: list_all2_same)

lemma engine_movesI:
  "ae_actions e' = old @ new \<Longrightarrow> list_all2 moves_to (ae_actions e) old \<Longrightarrow> ae_audit e' = ae_audit e @ entries \<Longrightarrow>
     engine_moves e e'"
  by (auto simp: engine_moves_def)

lemma engine_moves_refl [simp]: "engine_moves e e"
  by (rule engine_movesI [of e "ae_actions e" "[]" e "[]"]) simp_all

lemma engine_moves_trans:
  assumes "engine_moves e e'" and "engine_moves e' e''"
  shows "engine_moves e e''"
proof -
  obtain old new where 1: "ae_actions e' = old @ new" "list_all2 moves_to (ae_actions e) old"
    using assms(1) by (auto simp: engine_moves_def)
  obtain old' new' where 2: "ae_actions e'' = old' @ new'" "list_all2 moves_to (old @ new) old'"
    using assms(2) 1(1) by (auto simp: engine_moves_def)
  obtain us vs where 3: "old' = us @ vs" "list_all2 moves_to old us"
    using 2(2) by (auto simp: list_all2_append1)
  have "list_all2 moves_to (ae_actions e) us"
    using list_all2_trans [OF moves_to_trans 1(2) 3(2)] by simp
  then show ?thesis using 2(1) 3(1) assms by (auto simp: engine_moves_def)
qed

lemma engine_moves_expire: "engine_moves e (expirePendingLocked now e)"
  by (rule engine_movesI [of _ "map (expire_action now) (ae_actions e)" "[]" _ "[]"])
    (simp_all add: expirePendingLocked_def list_all2_map2 list_all2_same moves_to_changes)

lemma engine_moves_queue: "engine_moves e (fst (queue_actions sha8 clk i actions existing e))"
proof (induction sha8 clk i actions existing e rule: queue_actions.induct)
  case (2 sha8 clk i a actions existing e)
  have "engine_moves e (e\<lparr>ae_actions := ae_actions e @ [a], ae_audit := ae_audit e @ [suggested_entry sha8 clk i a]\<rparr>)"
    by (auto simp: engine_moves_def)
  then show ?case
    using 2 by (cases "existing (actionDedupKey a)")
      (auto simp: split_beta simp del: fun_upd_apply intro: engine_moves_trans)
qed simp

lemma engine_moves_decide:
  assumes "\<And>a. pending a \<Longrightarrow> moves_to a (change a)"
  shows "engine_moves e (fst (decide sha8 now nano i actor event details change e))"
proof (rule decide_cases [of sha8 now nano i actor event details change e])
  fix us a vs assume d: "ae_actions e = us @ a # vs" "act_ID a = i" "pending a"
    "fst (decide sha8 now nano i actor event details change e) =
       e\<lparr>ae_actions := us @ change a # vs,
         ae_audit := ae_audit e @ [\<lparr>aud_ID = auditID sha8 nano, aud_ActionID = i, aud_Actor = actor,
           aud_Event = event, aud_Details = details, aud_Timestamp = now\<rparr>]\<rparr>"
  show ?thesis
    unfolding d(4)
    by (rule engine_movesI [of _ "us @ change a # vs" "[]"]) (auto simp: d(1) list_all2_appendI assms d(3))
qed simp

lemma engine_moves_step: "auto_step e e' \<Longrightarrow> engine_moves e e'"
proof (induction rule: auto_step.induct)
  case (Suggest e aiCall unmarshal sha8 clk contextData req)
  show ?case
    by (auto simp: Suggest_def store_suggestions_def Let_def split_beta split: option.split sum.split
        intro: engine_moves_trans [OF engine_moves_expire engine_moves_queue])
next
  case (List e now status)
  show ?case by (simp add: ListActions_def Let_def engine_moves_expire)
qed (simp_all add: Approve_def Reject_def engine_moves_decide moves_to_changes)

lemma engine_moves_steps: "auto_steps e e' \<Longrightarrow> engine_moves e e'"
  unfolding auto_steps_def
  by (induction rule: rtranclp_induct) (auto intro: engine_moves_trans engine_moves_step)

section \<open>Properties\<close>

text \<open>
  In every history of the engine the action list and the audit log tell the same story: for every ID
  there is one \<open>suggested\<close> entry per action with it, one \<open>approved\<close> entry per approved action and one
  \<open>rejected\<close> entry per rejected one, so no decision is missing from the log, made twice or made without
  an action. No two pending actions propose the same thing (type, and title up to case and surrounding
  space), every action expires 24 hours after its creation, and none is ever executed.
\<close>

theorem log_accounts_for_every_action:
  assumes "auto_steps NewActionEngine e"
  shows "logged ''suggested'' i e = actions_with (\<lambda>_. True) i e \<and>
    logged ''approved'' i e = actions_with (\<lambda>a. act_Status a = StatusApproved) i e \<and>
    logged ''rejected'' i e = actions_with (\<lambda>a. act_Status a = StatusRejected) i e \<and>
    distinct (pending_keys e) \<and>
    list_all (\<lambda>a. act_ExecutedAt a = None \<and> act_ExpiresAt a = time_add (act_CreatedAt a) ActionExpiry \<and>
      (act_ApprovedAt a \<noteq> None \<longleftrightarrow> act_Status a = StatusApproved) \<and>
      (act_RejectedAt a \<noteq> None \<longleftrightarrow> act_Status a = StatusRejected)) (ae_actions e)"
  using engine_ok_steps [OF assms engine_ok_new] by (simp add: engine_ok_def action_ok_def list_all_iff)

text \<open>
  Whatever happens to the engine, an action stays at its place in the list with its ID, type, title,
  command, risk and expiry; once it is approved, rejected or expired it never changes again; and the audit
  log only grows.
\<close>

theorem decisions_are_final:
  assumes "auto_steps e e'" and "n < length (ae_actions e)"
  shows "n < length (ae_actions e') \<and> same_proposal (ae_actions e ! n) (ae_actions e' ! n) \<and>
    (act_Status (ae_actions e ! n) = StatusPending \<or> ae_actions e' ! n = ae_actions e ! n) \<and>
    take (length (ae_audit e)) (ae_audit e') = ae_audit e"
proof -
  obtain old new more where m: "ae_actions e' = old @ new" "list_all2 moves_to (ae_actions e) old"
      "ae_audit e' = ae_audit e @ more"
    using engine_moves_steps [OF assms(1)] by (auto simp: engine_moves_def)
  then have "length old = length (ae_actions e)" "moves_to (ae_actions e ! n) (old ! n)"
    using assms(2) by (auto simp: list_all2_conv_all_nth)
  then show ?thesis using m assms(2) by (auto simp: nth_append moves_to_def pending_def)
qed

lemma GetAction_change:
  "(\<And>a. act_ID (change a) = act_ID a) \<Longrightarrow> find (\<lambda>a. act_ID a = i) xs = Some a \<Longrightarrow>
     find (\<lambda>a. act_ID a = i) (replace_first (\<lambda>a. act_ID a = i) change xs) = Some (change a)"
  by (induction xs) auto

lemma not_found_not_pending: "not_pending_text i s \<noteq> not_found_text i"
  by (simp add: not_pending_text_def not_found_text_def)

text \<open>
  \<open>POST /automation/actions/{id}/approve\<close>, on every branch: 404 for an unknown ID, 400 for an action
  that is not pending, both without a change; otherwise the action is approved by the named actor (or
  \<open>unknown\<close>), exactly one entry is logged, no other action changes, and approving again is refused.
  Its expiry is not consulted: an overdue action that no listing has expired yet is approved.
\<close>

theorem handleApprove_correct:
  "case GetAction i e of
     None \<Rightarrow> handleApprove sha8 now nano i actor e = (e, 404, AutoError ''APPROVE_FAILED'' (not_found_text i))
   | Some a \<Rightarrow>
       if act_Status a \<noteq> StatusPending then
         handleApprove sha8 now nano i actor e =
           (e, 400, AutoError ''APPROVE_FAILED'' (not_pending_text i (act_Status a)))
       else
         (let (e', response) = handleApprove sha8 now nano i actor e in
          response = (200, AutoOk) \<and>
          GetAction i e' = Some (approve_action (if actor = [] then ''unknown'' else actor) now a) \<and>
          filter (\<lambda>a. act_ID a \<noteq> i) (ae_actions e') = filter (\<lambda>a. act_ID a \<noteq> i) (ae_actions e) \<and>
          logged ''approved'' i e' = logged ''approved'' i e + 1 \<and> length (ae_audit e') = length (ae_audit e) + 1 \<and>
          fst (snd (handleApprove sha8' later nano' i actor' e')) = 400)"
proof (cases "GetAction i e")
  case None
  then show ?thesis by (simp add: handleApprove_def Approve_def decide_def decision_status_def)
next
  case (Some a)
  show ?thesis
  proof (cases "act_Status a = StatusPending")
    case True
    let ?change = "approve_action (known_actor actor) now"
    have "find (\<lambda>a. act_ID a = i) (replace_first (\<lambda>a. act_ID a = i) ?change (ae_actions e)) = Some (?change a)"
      using Some by (intro GetAction_change) (simp_all add: approve_action_def GetAction_def)
    moreover have "filter (\<lambda>a. act_ID a \<noteq> i) (replace_first (\<lambda>a. act_ID a = i) ?change xs) =
        filter (\<lambda>a. act_ID a \<noteq> i) xs" for xs
      by (induction xs) (auto simp: approve_action_def)
    moreover have "act_Status (?change a) = StatusApproved" by (simp add: approve_action_def)
    ultimately show ?thesis
      using Some True
      by (simp add: handleApprove_def Approve_def decide_def GetAction_def logged_def decision_status_def
          known_actor_def or_else_def not_found_not_pending)
  next
    case False
    then show ?thesis
      using Some by (simp add: handleApprove_def Approve_def decide_def decision_status_def not_found_not_pending)
  qed
qed

text \<open>
  A successful \<open>Suggest\<close> returns at most three actions, each pending and in the engine, and adds at most
  three to what was there. Asking again, while none of the pending actions is overdue, for suggestions
  that are already pending (whatever their wording beyond type and title, and whoever asks) changes
  nothing at all: neither a second action nor a log entry appears.
\<close>

theorem repeated_suggestions_are_reused:
  assumes "Suggest (Some call) unmarshal sha8 clk contextData req e = (e', Inr stored)"
    and "Suggest (Some call') unmarshal' sha8' clk' contextData' req' e' = (e'', Inr stored')"
    and "set (map actionDedupKey stored') \<subseteq> set (pending_keys e')"
    and "\<forall>a \<in> set (ae_actions e'). pending a \<longrightarrow> \<not> after (sg_locked clk') (act_ExpiresAt a)"
  shows "length stored \<le> 3 \<and> list_all (\<lambda>a. a \<in> set (ae_actions e') \<and> pending a) stored \<and>
    length (ae_actions e') \<le> length (ae_actions e) + 3 \<and> e'' = e'"
proof -
  have pend: "list_all pending (parseAIResponse u h c r q)" for u h c r q
    by (auto simp: list_all_iff pending_def dest!: parsed_is_new)
  obtain response where 1: "store_suggestions sha8 clk (parseAIResponse unmarshal sha8 clk response req) e = (e', stored)"
    using assms(1) by (auto simp: Suggest_def Let_def split_beta split: sum.splits)
  obtain response' where 2: "store_suggestions sha8' clk' (parseAIResponse unmarshal' sha8' clk' response' req') e' = (e'', stored')"
    using assms(2) by (auto simp: Suggest_def Let_def split_beta split: sum.splits)
  have "map (expire_action (sg_locked clk')) (ae_actions e') = ae_actions e'"
    using assms(4) by (intro map_idI) (auto simp: expire_action_def pending_def)
  then have unexpired: "expirePendingLocked (sg_locked clk') e' = e'" by (simp add: expirePendingLocked_def)
  obtain new where new: "ae_actions e' = ae_actions (expirePendingLocked (sg_locked clk) e) @ new"
      "length new \<le> length (parseAIResponse unmarshal sha8 clk response req)"
      "map actionDedupKey stored = map actionDedupKey (parseAIResponse unmarshal sha8 clk response req)"
      "list_all (\<lambda>a. a \<in> set (ae_actions e') \<and> pending a) stored"
    using queue_actions_adds [OF queue_map_ok_start pend 1 [unfolded store_suggestions_def Let_def]] by auto
  have "map actionDedupKey stored' = map actionDedupKey (parseAIResponse unmarshal' sha8' clk' response' req')"
      "actionDedupKey ` set (parseAIResponse unmarshal' sha8' clk' response' req') \<subseteq> set (pending_keys e') \<longrightarrow> e'' = e'"
    using queue_actions_adds [OF queue_map_ok_start pend 2 [unfolded store_suggestions_def Let_def unexpired]] by auto
  then have "e'' = e'" using assms(3) by (metis set_map)
  moreover have "length stored \<le> 3" using new(3) parse_at_most_3 by (metis length_map)
  moreover have "length (ae_actions e') \<le> length (ae_actions e) + 3"
    using new(1) le_trans [OF new(2) parse_at_most_3] by (simp add: expirePendingLocked_def)
  ultimately show ?thesis using new(4) by simp
qed

section \<open>Witnesses\<close>

definition sample_ai :: AiAction where
  "sample_ai = \<lparr>ai_Type = ''restart'', ai_Title = ''Restart DB'', ai_Description = [], ai_Risk = ''low'',
     ai_Command = ''systemctl restart mysql'', ai_Reason = ''stuck''\<rparr>"

definition sample_clock :: SuggestClock where
  "sample_clock = \<lparr>sg_parsed = 100, sg_locked = 101, sg_action_nano = (\<lambda>i. 100 + int i),
     sg_audit_nano = (\<lambda>i. 102 + int i), sg_audit_time = (\<lambda>i. 102)\<rparr>"

definition sample_suggest :: "ActionEngine \<Rightarrow> ActionEngine \<times> (string + Action list)" where
  "sample_suggest = Suggest (Some (\<lambda>_ _. Inr ''ok [x]'')) (\<lambda>s. if s = ''[x]'' then Some [sample_ai] else None)
     id sample_clock [] \<lparr>sreq_IncidentID = [], sreq_CheckID = [], sreq_Context = []\<rparr>"

definition sample_action :: Action where
  "sample_action = action_of id sample_clock \<lparr>sreq_IncidentID = [], sreq_CheckID = [], sreq_Context = []\<rparr> 0 sample_ai"

definition suggested_engine :: ActionEngine where
  "suggested_engine = \<lparr>ae_actions = [sample_action], ae_audit = [suggested_entry id sample_clock 0 sample_action]\<rparr>"

lemma sample_suggested:
  "sample_suggest NewActionEngine = (suggested_engine, Inr [sample_action])"
  "sample_suggest suggested_engine = (suggested_engine, Inr [sample_action])"
  by code_simp+

definition approved_engine :: ActionEngine where
  "approved_engine = fst (Approve id 200 201 (act_ID sample_action) ''ann'' suggested_engine)"

lemma sample_history: "auto_steps NewActionEngine suggested_engine" "auto_steps suggested_engine approved_engine"
proof -
  have "auto_step NewActionEngine (fst (sample_suggest NewActionEngine))"
    unfolding sample_suggest_def by (rule auto_step.Suggest)
  then show "auto_steps NewActionEngine suggested_engine" by (simp add: auto_steps_def sample_suggested)
  show "auto_steps suggested_engine approved_engine"
    unfolding auto_steps_def approved_engine_def by (intro r_into_rtranclp auto_step.Approve)
qed

lemma approved_statuses:
  "map act_Status (ae_actions approved_engine) = [StatusApproved]"
  "map act_Status (ae_actions suggested_engine) = [StatusPending]" "length (ae_actions suggested_engine) = 1"
  by code_simp+

theorem log_accounts_for_every_action_witness:
  "logged ''approved'' (act_ID sample_action) approved_engine =
     actions_with (\<lambda>a. act_Status a = StatusApproved) (act_ID sample_action) approved_engine"
proof -
  have "auto_steps NewActionEngine approved_engine" using sample_history by (simp add: auto_steps_def)
  then show ?thesis using log_accounts_for_every_action [of approved_engine "act_ID sample_action"] by blast
qed

theorem decisions_are_final_witness:
  "0 < length (ae_actions approved_engine) \<and>
     same_proposal (ae_actions suggested_engine ! 0) (ae_actions approved_engine ! 0)"
  using decisions_are_final [OF sample_history(2), of 0] approved_statuses(3) by simp

theorem repeated_suggestions_are_reused_witness:
  "fst (sample_suggest suggested_engine) = suggested_engine \<and> length (ae_actions suggested_engine) \<le> 3"
proof -
  have "set (map actionDedupKey [sample_action]) \<subseteq> set (pending_keys suggested_engine)"
    "list_all (\<lambda>a. pending a \<longrightarrow> \<not> after (sg_locked sample_clock) (act_ExpiresAt a)) (ae_actions suggested_engine)"
    by code_simp+
  then show ?thesis
    using repeated_suggestions_are_reused [OF sample_suggested(1) [unfolded sample_suggest_def]
        sample_suggested(2) [unfolded sample_suggest_def]]
    by (simp add: sample_suggested list_all_iff NewActionEngine_def approved_statuses)
qed
end
