(* ===== verification/Secrets.thy ===== *)
theory Secrets
  imports Checks
begin

text \<open>
  Credentials of checks and servers (\<open>secrets.go\<close>), what the read API shows of them
  (\<open>sanitizeCheckForResponse\<close> in \<open>api_types.go\<close>) and the MySQL connection string that uses them
  (\<open>BuildDSN\<close> in \<open>types.go\<close>). \<open>cryptoutil\<close> is AES-GCM of Go's library: \<open>enc i\<close> is its answer to the
  \<open>i\<close>-th encryption of a call (each draws a fresh nonce), \<open>dec\<close> decrypts. A stored configuration is
  reached through pointers: \<open>same\<close> says that the current and the previous block are the same object, so
  that a write to one is seen through the other.
\<close>

section \<open>Before storing\<close>

definition SecretMask :: string where
  "SecretMask = ''********''"

definition prepareMySQLSecrets ::
  "(string \<Rightarrow> string + string) \<Rightarrow> bool \<Rightarrow> MySQLCheckConfig \<Rightarrow> MySQLCheckConfig option \<Rightarrow> MySQLCheckConfig \<times> string option" where
  "prepareMySQLSecrets enc same cur prev =
     (if my_Password cur = SecretMask then
        let cur = cur\<lparr>my_Password := []\<rparr>
        in case prev of
             None \<Rightarrow> (cur, None)
           | Some prev \<Rightarrow>
               let prev = (if same then cur else prev);
                   cur = cur\<lparr>my_PasswordEnc := my_PasswordEnc prev\<rparr>
               in if my_PasswordEnc cur = [] \<and> my_Password prev \<noteq> [] then
                    (case enc (my_Password prev) of
                       Inl err \<Rightarrow> (cur, Some (''encrypt legacy mysql password: '' @ err))
                     | Inr c \<Rightarrow> (cur\<lparr>my_PasswordEnc := c\<rparr>, None))
                  else (cur, None)
      else if my_Password cur \<noteq> [] then
        (case enc (my_Password cur) of
           Inl err \<Rightarrow> (cur, Some (''encrypt mysql password: '' @ err))
         | Inr c \<Rightarrow> (cur\<lparr>my_PasswordEnc := c, my_Password := []\<rparr>, None))
      else case prev of
        Some prev \<Rightarrow>
          if my_PasswordEnc cur = [] \<and> \<not> same then (cur\<lparr>my_PasswordEnc := my_PasswordEnc prev\<rparr>, None) else (cur, None)
      | None \<Rightarrow> (cur, None))"

definition prepareSSHSecrets ::
  "(string \<Rightarrow> string + string) \<Rightarrow> bool \<Rightarrow> SSHCheckConfig \<Rightarrow> SSHCheckConfig option \<Rightarrow> SSHCheckConfig \<times> string option" where
  "prepareSSHSecrets enc same cur prev =
     (if ssh_Password cur = SecretMask then
        let cur = cur\<lparr>ssh_Password := []\<rparr>
        in case prev of
             None \<Rightarrow> (cur, None)
           | Some prev \<Rightarrow>
               let prev = (if same then cur else prev);
                   cur = cur\<lparr>ssh_PasswordEnc := ssh_PasswordEnc prev\<rparr>
               in if ssh_PasswordEnc cur = [] \<and> ssh_Password prev \<noteq> [] then
                    (case enc (ssh_Password prev) of
                       Inl err \<Rightarrow> (cur, Some (''encrypt legacy ssh password: '' @ err))
                     | Inr c \<Rightarrow> (cur\<lparr>ssh_PasswordEnc := c\<rparr>, None))
                  else (cur, None)
      else if ssh_Password cur \<noteq> [] then
        (case enc (ssh_Password cur) of
           Inl err \<Rightarrow> (cur, Some (''encrypt ssh password: '' @ err))
         | Inr c \<Rightarrow> (cur\<lparr>ssh_PasswordEnc := c, ssh_Password := []\<rparr>, None))
      else case prev of
        Some prev \<Rightarrow>
          if ssh_PasswordEnc cur = [] \<and> \<not> same then (cur\<lparr>ssh_PasswordEnc := ssh_PasswordEnc prev\<rparr>, None) else (cur, None)
      | None \<Rightarrow> (cur, None))"

text \<open>\<open>prepareServerSecrets\<close>: its callers pass distinct objects.\<close>

definition prepareServerSecrets ::
  "(string \<Rightarrow> string + string) \<Rightarrow> RemoteServer \<Rightarrow> RemoteServer option \<Rightarrow> RemoteServer \<times> string option" where
  "prepareServerSecrets enc srv prev =
     (if srv_Password srv = SecretMask then
        let srv = srv\<lparr>srv_Password := []\<rparr>
        in case prev of
             None \<Rightarrow> (srv, None)
           | Some prev \<Rightarrow>
               let srv = srv\<lparr>srv_PasswordEnc := srv_PasswordEnc prev\<rparr>
               in if srv_PasswordEnc srv = [] \<and> srv_Password prev \<noteq> [] then
                    (case enc (srv_Password prev) of
                       Inl err \<Rightarrow> (srv, Some (''encrypt legacy server password: '' @ err))
                     | Inr c \<Rightarrow> (srv\<lparr>srv_PasswordEnc := c\<rparr>, None))
                  else (srv, None)
      else if srv_Password srv \<noteq> [] then
        (case enc (srv_Password srv) of
           Inl err \<Rightarrow> (srv, Some (''encrypt server password: '' @ err))
         | Inr c \<Rightarrow> (srv\<lparr>srv_PasswordEnc := c, srv_Password := []\<rparr>, None))
      else case prev of
        Some prev \<Rightarrow> if srv_PasswordEnc srv = [] then (srv\<lparr>srv_PasswordEnc := srv_PasswordEnc prev\<rparr>, None) else (srv, None)
      | None \<Rightarrow> (srv, None))"

text \<open>
  \<open>prepareCheckSecrets\<close>. After an error the check keeps what was changed before it. \<open>sameMySQL\<close> and
  \<open>sameSSH\<close> say which blocks of \<open>check\<close> are those of \<open>existing\<close>.
\<close>

definition prepareCheckSecrets ::
  "(nat \<Rightarrow> string \<Rightarrow> string + string) \<Rightarrow> bool \<Rightarrow> bool \<Rightarrow> CheckConfig \<Rightarrow> CheckConfig option \<Rightarrow> CheckConfig \<times> string option" where
  "prepareCheckSecrets enc sameMySQL sameSSH check existing =
     (let (check, err) =
        (case chk_MySQL check of
           None \<Rightarrow> (check, None)
         | Some m \<Rightarrow>
             let (m, err) = prepareMySQLSecrets (enc 0) sameMySQL m (Option.bind existing chk_MySQL)
             in (check\<lparr>chk_MySQL := Some m\<rparr>, err))
      in if err \<noteq> None then (check, err)
         else case chk_SSH check of
           None \<Rightarrow> (check, None)
         | Some h \<Rightarrow>
             let (h, err) = prepareSSHSecrets (enc 1) sameSSH h (Option.bind existing chk_SSH)
             in (check\<lparr>chk_SSH := Some h\<rparr>, err))"

section \<open>In responses\<close>

definition mask_mysql :: "MySQLCheckConfig \<Rightarrow> MySQLCheckConfig" where
  "mask_mysql cp =
     (let hasPw = (my_Password cp \<noteq> [] \<or> my_PasswordEnc cp \<noteq> [])
      in cp\<lparr>my_Password := (if hasPw then SecretMask else []), my_PasswordEnc := [], my_HasPassword := hasPw\<rparr>)"

definition mask_ssh :: "SSHCheckConfig \<Rightarrow> SSHCheckConfig" where
  "mask_ssh cp =
     (let hasPw = (ssh_Password cp \<noteq> [] \<or> ssh_PasswordEnc cp \<noteq> [])
      in cp\<lparr>ssh_Password := (if hasPw then SecretMask else []), ssh_PasswordEnc := [], ssh_HasPassword := hasPw\<rparr>)"

definition mask_heartbeat :: "HeartbeatCheckConfig \<Rightarrow> HeartbeatCheckConfig" where
  "mask_heartbeat cp = (if hb_Token cp \<noteq> [] then cp\<lparr>hb_Token := maskToken (hb_Token cp)\<rparr> else cp)"

definition sanitizeCheckForResponse :: "CheckConfig \<Rightarrow> CheckConfig" where
  "sanitizeCheckForResponse check =
     check\<lparr>chk_Metadata := [], chk_MySQL := map_option mask_mysql (chk_MySQL check),
       chk_SSH := map_option mask_ssh (chk_SSH check), chk_Heartbeat := map_option mask_heartbeat (chk_Heartbeat check)\<rparr>"

definition sanitizeChecksForList :: "CheckConfig list \<Rightarrow> CheckConfig list" where
  "sanitizeChecksForList checks = map sanitizeCheckForResponse checks"

section \<open>In use\<close>

definition DSN_password :: "(string \<Rightarrow> string + string) \<Rightarrow> MySQLCheckConfig \<Rightarrow> string + string" where
  "DSN_password dec c =
     (if my_Password c = [] \<and> my_PasswordEnc c \<noteq> [] then dec (my_PasswordEnc c) else Inr (my_Password c))"

definition BuildDSN ::
  "(string \<Rightarrow> string + string) \<Rightarrow> (string \<Rightarrow> string) \<Rightarrow> MySQLCheckConfig \<Rightarrow> string + string" where
  "BuildDSN dec getenv c =
     (if my_Host c \<noteq> [] \<and> my_Username c \<noteq> [] then
        (case DSN_password dec c of
           Inl err \<Rightarrow> Inl (''decrypt mysql password: '' @ err)
         | Inr password \<Rightarrow>
             Inr (my_Username c @ '':'' @ password @ ''@tcp('' @ my_Host c @ '':'' @
               itoa (if my_Port c \<le> 0 then 3306 else my_Port c) @ '')/'' @
               (if my_Database c = [] then ''mysql'' else my_Database c)))
      else if my_DSNEnv c \<noteq> [] then
        (let dsn = getenv (my_DSNEnv c)
         in if dsn = [] then Inl (''environment variable '' @ go_quote (my_DSNEnv c) @ '' is not set'') else Inr dsn)
      else Inl ''mysql config requires either host+username or dsnEnv'')"

section \<open>Lemmas\<close>

text \<open>Whether a check carries a password in plain text.\<close>

definition no_plaintext :: "CheckConfig \<Rightarrow> bool" where
  "no_plaintext c \<longleftrightarrow> (case chk_MySQL c of None \<Rightarrow> True | Some m \<Rightarrow> my_Password m = []) \<and>
     (case chk_SSH c of None \<Rightarrow> True | Some h \<Rightarrow> ssh_Password h = [])"

lemma prepareMySQL_plain: "prepareMySQLSecrets enc same m prev = (m', None) \<Longrightarrow> my_Password m' = []"
  by (auto simp: prepareMySQLSecrets_def Let_def split: if_splits option.splits sum.splits)

lemma prepareSSH_plain: "prepareSSHSecrets enc same h prev = (h', None) \<Longrightarrow> ssh_Password h' = []"
  by (auto simp: prepareSSHSecrets_def Let_def split: if_splits option.splits sum.splits)

lemma prepareCheck_plain:
  assumes "prepareCheckSecrets enc sm ss c existing = (c', None)"
  shows "no_plaintext c'"
  using assms prepareMySQL_plain prepareSSH_plain
  by (fastforce simp: prepareCheckSecrets_def no_plaintext_def Let_def split: option.splits prod.splits if_splits)

lemma prepareCheck_keeps:
  assumes "prepareCheckSecrets enc sm ss c existing = (c', err)"
  shows "chk_ID c' = chk_ID c" "chk_Type c' = chk_Type c" "chk_Name c' = chk_Name c"
    "(chk_MySQL c' = None) = (chk_MySQL c = None)" "(chk_SSH c' = None) = (chk_SSH c = None)"
  using assms by (auto simp: prepareCheckSecrets_def Let_def split: option.splits prod.splits if_splits)

text \<open>A check without its passwords: nothing else of it is changed.\<close>

definition without_passwords :: "CheckConfig \<Rightarrow> CheckConfig" where
  "without_passwords c = c\<lparr>chk_MySQL := map_option (\<lambda>m. m\<lparr>my_Password := [], my_PasswordEnc := []\<rparr>) (chk_MySQL c),
     chk_SSH := map_option (\<lambda>h. h\<lparr>ssh_Password := [], ssh_PasswordEnc := []\<rparr>) (chk_SSH c)\<rparr>"

lemma prepareMySQL_fields:
  "prepareMySQLSecrets enc same m prev = (m', err) \<Longrightarrow>
     m'\<lparr>my_Password := [], my_PasswordEnc := []\<rparr> = m\<lparr>my_Password := [], my_PasswordEnc := []\<rparr>"
  by (auto simp: prepareMySQLSecrets_def Let_def split: if_splits option.splits sum.splits)

lemma prepareSSH_fields:
  "prepareSSHSecrets enc same h prev = (h', err) \<Longrightarrow>
     h'\<lparr>ssh_Password := [], ssh_PasswordEnc := []\<rparr> = h\<lparr>ssh_Password := [], ssh_PasswordEnc := []\<rparr>"
  by (auto simp: prepareSSHSecrets_def Let_def split: if_splits option.splits sum.splits)

lemma prepareCheck_fields:
  assumes "prepareCheckSecrets enc sm ss c existing = (c', err)"
  shows "without_passwords c' = without_passwords c"
proof -
  obtain c1 e1 where c1: "c1 = (case chk_MySQL c of None \<Rightarrow> c
      | Some m \<Rightarrow> c\<lparr>chk_MySQL := Some (fst (prepareMySQLSecrets (enc 0) sm m (Option.bind existing chk_MySQL)))\<rparr>)"
    and c': "c' = c1 \<or> (\<exists>h. chk_SSH c1 = Some h \<and>
      c' = c1\<lparr>chk_SSH := Some (fst (prepareSSHSecrets (enc 1) ss h (Option.bind existing chk_SSH)))\<rparr>)"
    using assms by (auto simp: prepareCheckSecrets_def Let_def split_beta split: option.splits if_splits)
  have "without_passwords c1 = without_passwords c"
    using prepareMySQL_fields [OF surjective_pairing] by (cases "chk_MySQL c") (simp_all add: c1 without_passwords_def)
  moreover have "without_passwords c' = without_passwords c1"
    using c' prepareSSH_fields [OF surjective_pairing] by (auto simp: without_passwords_def)
  ultimately show ?thesis by simp
qed

text \<open>A password that is sent is the one that is encrypted.\<close>

lemma prepareCheck_new_password:
  assumes "prepareCheckSecrets enc sm ss c existing = (c', None)" and "chk_MySQL c = Some m" and "my_Password m \<notin> {[], SecretMask}"
  shows "\<exists>m'. chk_MySQL c' = Some m' \<and> enc 0 (my_Password m) = Inr (my_PasswordEnc m')"
  using assms by (auto simp: prepareCheckSecrets_def prepareMySQLSecrets_def Let_def split_beta split: option.splits if_splits sum.splits)

lemma nothing_to_prepare:
  "prepareMySQLSecrets enc same m None = (m, None)" if "my_Password m = []"
  using that by (simp add: prepareMySQLSecrets_def SecretMask_def)

lemma mask_nonempty [simp]: "SecretMask \<noteq> []" "[] \<noteq> SecretMask"
  by (simp_all add: SecretMask_def)

lemma masked_mysql:
  "my_PasswordEnc (mask_mysql m) = []" "my_Host (mask_mysql m) = my_Host m"
  "my_Password (mask_mysql m) = (if my_Password m \<noteq> [] \<or> my_PasswordEnc m \<noteq> [] then SecretMask else [])"
  by (simp_all add: mask_mysql_def Let_def)

lemma masked_ssh:
  "ssh_PasswordEnc (mask_ssh h) = []" "ssh_Host (mask_ssh h) = ssh_Host h"
  "ssh_Password (mask_ssh h) = (if ssh_Password h \<noteq> [] \<or> ssh_PasswordEnc h \<noteq> [] then SecretMask else [])"
  by (simp_all add: mask_ssh_def Let_def)

lemma masked_heartbeat:
  "length (hb_Token (mask_heartbeat h)) = length (hb_Token h)"
  "x \<in> set (take (length (hb_Token h) - 6) (hb_Token (mask_heartbeat h))) \<Longrightarrow> x = CHR ''*''"
  by (auto simp: mask_heartbeat_def maskToken_def split: if_splits)

text \<open>
  What the API shows of a check has no ciphertext, and its passwords are the mask exactly when one is
  stored and empty otherwise; a heartbeat token shows its last six characters only (all of a shorter
  token); the metadata is left out; identity and schedule are those of the check.
\<close>

theorem responses_hide_secrets:
  "(case chk_MySQL (sanitizeCheckForResponse c) of
      None \<Rightarrow> chk_MySQL c = None
    | Some m \<Rightarrow> my_PasswordEnc m = [] \<and> my_Password m \<in> {[], SecretMask} \<and>
        (\<exists>m'. chk_MySQL c = Some m' \<and>
          (my_Password m = SecretMask) = (\<not> (my_Password m' = [] \<and> my_PasswordEnc m' = [])) \<and> my_Host m = my_Host m')) \<and>
   (case chk_SSH (sanitizeCheckForResponse c) of
      None \<Rightarrow> chk_SSH c = None
    | Some h \<Rightarrow> ssh_PasswordEnc h = [] \<and> ssh_Password h \<in> {[], SecretMask} \<and>
        (\<exists>h'. chk_SSH c = Some h' \<and>
          (ssh_Password h = SecretMask) = (\<not> (ssh_Password h' = [] \<and> ssh_PasswordEnc h' = [])) \<and> ssh_Host h = ssh_Host h')) \<and>
   (case chk_Heartbeat (sanitizeCheckForResponse c) of
      None \<Rightarrow> chk_Heartbeat c = None
    | Some h \<Rightarrow> (\<exists>h'. chk_Heartbeat c = Some h' \<and> length (hb_Token h) = length (hb_Token h') \<and>
        set (take (length (hb_Token h') - 6) (hb_Token h)) \<subseteq> {CHR ''*''})) \<and>
   chk_Metadata (sanitizeCheckForResponse c) = [] \<and> chk_ID (sanitizeCheckForResponse c) = chk_ID c \<and>
   chk_IntervalSeconds (sanitizeCheckForResponse c) = chk_IntervalSeconds c"
proof -
  have fields: "chk_MySQL (sanitizeCheckForResponse c) = map_option mask_mysql (chk_MySQL c)"
    "chk_SSH (sanitizeCheckForResponse c) = map_option mask_ssh (chk_SSH c)"
    "chk_Heartbeat (sanitizeCheckForResponse c) = map_option mask_heartbeat (chk_Heartbeat c)"
    "chk_Metadata (sanitizeCheckForResponse c) = []" "chk_ID (sanitizeCheckForResponse c) = chk_ID c"
    "chk_IntervalSeconds (sanitizeCheckForResponse c) = chk_IntervalSeconds c"
    by (simp_all add: sanitizeCheckForResponse_def)
  show ?thesis
    unfolding fields
    by (intro conjI; (simp split: option.split)?)
      (auto simp: masked_mysql masked_ssh masked_heartbeat)
qed

lemma new_password_stored:
  assumes "my_Password m \<noteq> []" and "my_Password m \<noteq> SecretMask" and "prepareMySQLSecrets enc same m prev = (m', None)"
  obtains c where "enc (my_Password m) = Inr c" "m' = m\<lparr>my_Password := [], my_PasswordEnc := c\<rparr>"
  using assms by (auto simp: prepareMySQLSecrets_def split: sum.splits)

text \<open>
  An update decodes into the stored block itself, so that the current and the previous block are one object:
  the mask, or no password, leaves its ciphertext alone.
\<close>

lemma mask_sent_back:
  assumes "my_Password k \<in> {[], SecretMask}" and "prepareMySQLSecrets enc True k (Some old) = (k', err)"
  shows "k' = k\<lparr>my_Password := []\<rparr> \<and> err = None"
  using assms by (cases k) (auto simp: prepareMySQLSecrets_def SecretMask_def)

text \<open>A password that is stored in clear text and has no ciphertext is lost that way.\<close>

lemma mask_loses_clear_text:
  assumes "my_Password k = SecretMask" and "my_PasswordEnc k = []" and "prepareMySQLSecrets enc True k (Some old) = (k', err)"
  shows "my_Password k' = [] \<and> my_PasswordEnc k' = [] \<and> err = None"
  using mask_sent_back [OF _ assms(3)] assms(1,2) by simp

lemma BuildDSN_cong:
  "my_Host c = my_Host d \<Longrightarrow> my_Username c = my_Username d \<Longrightarrow> my_Port c = my_Port d \<Longrightarrow>
     my_Database c = my_Database d \<Longrightarrow> my_DSNEnv c = my_DSNEnv d \<Longrightarrow> DSN_password dec c = DSN_password dec d \<Longrightarrow>
     BuildDSN dec getenv c = BuildDSN dec getenv d"
  by (simp only: BuildDSN_def)

lemma BuildDSN_password:
  "DSN_password dec (m\<lparr>my_Password := p, my_PasswordEnc := e\<rparr>) = DSN_password dec (m\<lparr>my_Password := p', my_PasswordEnc := e'\<rparr>) \<Longrightarrow>
     BuildDSN dec getenv (m\<lparr>my_Password := p, my_PasswordEnc := e\<rparr>) = BuildDSN dec getenv (m\<lparr>my_Password := p', my_PasswordEnc := e'\<rparr>)"
  by (rule BuildDSN_cong) simp_all

text \<open>
  C11: Let decryption undo encryption. A new password (neither empty nor the mask) that is saved for a MySQL check,
  by a create or by an update, is the one its connection uses: the connection string after
  \<open>prepareMySQLSecrets\<close> is that of the plain password, which is no longer stored. Let a later update, which
  decodes into the stored block, send the mask that the API shows, or no password, with any other fields: it
  succeeds, and the connection with the new fields still uses that password.
\<close>

theorem saved_password_is_used:
  assumes "\<And>p c. enc p = Inr c \<Longrightarrow> dec c = Inr p \<and> c \<noteq> []"
    and "my_Password m \<notin> {[], SecretMask}" and "prepareMySQLSecrets enc same m prev = (m', None)"
    and "my_PasswordEnc k = my_PasswordEnc m'" and "my_Password k \<in> {[], SecretMask}"
    and "prepareMySQLSecrets enc' True k (Some old) = (k', err)"
  shows "BuildDSN dec getenv m' = BuildDSN dec getenv m \<and> my_Password m' = [] \<and>
    err = None \<and> my_Password k' = [] \<and> BuildDSN dec getenv k' = BuildDSN dec getenv (k\<lparr>my_Password := my_Password m\<rparr>)"
proof -
  obtain c where c: "enc (my_Password m) = Inr c" "m' = m\<lparr>my_Password := [], my_PasswordEnc := c\<rparr>"
    using new_password_stored [of m enc same prev m'] assms(2,3) by auto
  have d: "dec c = Inr (my_Password m)" "c \<noteq> []" using assms(1) [OF c(1)] by simp_all
  have "BuildDSN dec getenv (m\<lparr>my_Password := [], my_PasswordEnc := c\<rparr>) =
      BuildDSN dec getenv (m\<lparr>my_Password := my_Password m, my_PasswordEnc := my_PasswordEnc m\<rparr>)"
    by (rule BuildDSN_password) (use d assms(2) in \<open>simp add: DSN_password_def\<close>)
  moreover have k: "k' = k\<lparr>my_Password := []\<rparr>" "err = None" using mask_sent_back [OF assms(5,6)] by simp_all
  moreover have "BuildDSN dec getenv (k\<lparr>my_Password := []\<rparr>) = BuildDSN dec getenv (k\<lparr>my_Password := my_Password m\<rparr>)"
    by (rule BuildDSN_cong) (use d assms(2,4) c(2) in \<open>simp_all add: DSN_password_def\<close>)
  ultimately show ?thesis by (simp add: c(2))
qed

text \<open>A toy cipher: the ciphertext is the password behind a letter.\<close>

definition sample_encrypt :: "string \<Rightarrow> string + string" where
  "sample_encrypt p = Inr (CHR ''E'' # p)"

definition sample_decrypt :: "string \<Rightarrow> string + string" where
  "sample_decrypt c = (case c of x # p \<Rightarrow> Inr p | [] \<Rightarrow> Inl ''short'')"

definition sample_mysql :: MySQLCheckConfig where
  "sample_mysql = \<lparr>my_DSNEnv = [], my_Host = ''db'', my_Port = 0, my_Username = ''ann'', my_Password = ''pw'',
     my_PasswordEnc = [], my_HasPassword = False, my_Database = [], my_ConnectTimeoutSeconds = 0,
     my_QueryTimeoutSeconds = 0, my_ProcesslistLimit = 0, my_StatementLimit = 0, my_HostUserLimit = 0\<rparr>"

text \<open>Saved, and then moved to another host with the mask in place of the password.\<close>

definition moved_mysql :: MySQLCheckConfig where
  "moved_mysql = (fst (prepareMySQLSecrets sample_encrypt False sample_mysql None))\<lparr>my_Host := ''db2'', my_Password := SecretMask\<rparr>"

theorem saved_password_is_used_witness:
  "BuildDSN sample_decrypt id (fst (prepareMySQLSecrets sample_encrypt True moved_mysql (Some moved_mysql))) =
     Inr ''ann:pw@tcp(db2:3306)/mysql''"
proof -
  let ?p = "prepareMySQLSecrets sample_encrypt False sample_mysql None" and ?q = "prepareMySQLSecrets sample_encrypt True moved_mysql (Some moved_mysql)"
  have "snd ?p = None" "BuildDSN sample_decrypt id (moved_mysql\<lparr>my_Password := my_Password sample_mysql\<rparr>) = Inr ''ann:pw@tcp(db2:3306)/mysql''"
    "my_Password sample_mysql \<noteq> []" "my_Password sample_mysql \<noteq> SecretMask" "my_PasswordEnc moved_mysql = my_PasswordEnc (fst ?p)"
    "my_Password moved_mysql = SecretMask"
    by code_simp+
  then show ?thesis
    using saved_password_is_used [of sample_encrypt sample_decrypt sample_mysql False None "fst ?p" moved_mysql sample_encrypt moved_mysql
        "fst ?q" "snd ?q" id]
    by (simp add: sample_encrypt_def sample_decrypt_def prod_eq_iff)
qed
end
