(* ===== verification/MongoStore.thy ===== *)
theory MongoStore
  imports Secrets
begin

text \<open>
  The store of the running service (\<open>mongo_store.go\<close>): a cache of the whole state in memory, written
  through to MongoDB, and its start, which reads the database, repairs missing credentials from the
  configured checks and seeds an empty database with them. The driver is third-party code: its calls are
  a record of functions over a database \<open>'w\<close>, and what its documentation promises of them is the
  predicate \<open>driver_ok\<close>. The cache is handed out as a shallow copy; what follows from that is in the
  theory of the check API.
\<close>

section \<open>The driver\<close>

datatype insert_end = Inserted | Duplicates | InsertFailed string

record 'w MongoDriver =
  md_replace_check :: "string \<Rightarrow> CheckConfig \<Rightarrow> 'w \<Rightarrow> 'w \<times> string option"
  md_delete_check :: "string \<Rightarrow> 'w \<Rightarrow> 'w \<times> string option"
  md_delete_checks :: "'w \<Rightarrow> 'w \<times> string option"
  md_insert_results :: "CheckResult list \<Rightarrow> 'w \<Rightarrow> 'w \<times> insert_end"
  md_delete_results_before :: "gotime \<Rightarrow> 'w \<Rightarrow> 'w \<times> string option"
  md_put_meta :: "gotime \<times> gotime \<Rightarrow> 'w \<Rightarrow> 'w \<times> string option"
  md_put_dashboard :: "DashboardSnapshot \<Rightarrow> 'w \<Rightarrow> 'w \<times> string option"
  md_find_checks :: "'w \<Rightarrow> string + CheckConfig list"
  md_find_results :: "gotime option \<Rightarrow> 'w \<Rightarrow> string + CheckResult list"
  md_find_meta :: "'w \<Rightarrow> string + (gotime \<times> gotime) option"

text \<open>What is stored of a check: the fields tagged \<open>bson:"-"\<close> are left out.\<close>

definition bson_mysql :: "MySQLCheckConfig \<Rightarrow> MySQLCheckConfig" where
  "bson_mysql m = m\<lparr>my_Password := [], my_HasPassword := False\<rparr>"

definition bson_ssh :: "SSHCheckConfig \<Rightarrow> SSHCheckConfig" where
  "bson_ssh h = h\<lparr>ssh_Password := [], ssh_HasPassword := False\<rparr>"

definition bson_remediation :: "CheckRemediationConfig \<Rightarrow> CheckRemediationConfig" where
  "bson_remediation r = r\<lparr>rem_SSH := map_option bson_ssh (rem_SSH r)\<rparr>"

definition bson_check :: "CheckConfig \<Rightarrow> CheckConfig" where
  "bson_check c = c\<lparr>chk_MySQL := map_option bson_mysql (chk_MySQL c), chk_SSH := map_option bson_ssh (chk_SSH c),
     chk_Remediation := map_option bson_remediation (chk_Remediation c)\<rparr>"

text \<open>
  \<open>docs\<close> reads the collection of checks as a map from \<open>_id\<close>. A write that reports success has
  happened; one that reports an error may have happened or not; writes to other documents and
  collections change nothing here; and finding everything gives each document once, with the fields that
  are not stored empty.
\<close>

definition driver_ok :: "'w MongoDriver \<Rightarrow> ('w \<Rightarrow> string \<rightharpoonup> CheckConfig) \<Rightarrow> bool" where
  "driver_ok dr docs \<longleftrightarrow>
     (\<forall>c w. case md_replace_check dr (chk_ID c) c w of
        (w', None) \<Rightarrow> docs w' = (docs w)(chk_ID c \<mapsto> bson_check c)
      | (w', Some _) \<Rightarrow> docs w' = docs w \<or> docs w' = (docs w)(chk_ID c \<mapsto> bson_check c)) \<and>
     (\<forall>i w. case md_delete_check dr i w of
        (w', None) \<Rightarrow> docs w' = (docs w)(i := None)
      | (w', Some _) \<Rightarrow> docs w' = docs w \<or> docs w' = (docs w)(i := None)) \<and>
     (\<forall>rs w. docs (fst (md_insert_results dr rs w)) = docs w) \<and>
     (\<forall>t w. docs (fst (md_delete_results_before dr t w)) = docs w) \<and>
     (\<forall>m w. docs (fst (md_put_meta dr m w)) = docs w) \<and>
     (\<forall>d w. docs (fst (md_put_dashboard dr d w)) = docs w) \<and>
     (\<forall>w. case md_find_checks dr w of
        Inl _ \<Rightarrow> True
      | Inr cs \<Rightarrow> distinct (map chk_ID cs) \<and> (\<forall>c \<in> set cs. bson_check c = c) \<and>
          (\<forall>i. docs w i = find (\<lambda>c. chk_ID c = i) cs))"

section \<open>The store\<close>

record 'w MongoStore =
  ms_cache :: State
  ms_db :: 'w

definition ms_Snapshot :: "'w MongoStore \<Rightarrow> State" where
  "ms_Snapshot s = ms_cache s"

definition ms_DashboardSnapshot :: "gotime \<Rightarrow> 'w MongoStore \<Rightarrow> DashboardSnapshot" where
  "ms_DashboardSnapshot now s = buildDashboardSnapshot now (ms_cache s)"

fun writeChecksToMongo :: "'w MongoDriver \<Rightarrow> CheckConfig list \<Rightarrow> 'w \<Rightarrow> 'w \<times> string option" where
  "writeChecksToMongo dr [] w = (w, None)"
| "writeChecksToMongo dr (c # cs) w =
     (if chk_ID c = [] then writeChecksToMongo dr cs w
      else case md_replace_check dr (chk_ID c) c w of
             (w', Some err) \<Rightarrow> (w', Some err)
           | (w', None) \<Rightarrow> writeChecksToMongo dr cs w')"

definition writeStateMeta :: "'w MongoDriver \<Rightarrow> State \<Rightarrow> 'w \<Rightarrow> 'w \<times> string option" where
  "writeStateMeta dr st = md_put_meta dr (st_LastRunAt st, st_UpdatedAt st)"

definition writeDashboardSnapshot :: "'w MongoDriver \<Rightarrow> gotime \<Rightarrow> State \<Rightarrow> 'w \<Rightarrow> 'w \<times> string option" where
  "writeDashboardSnapshot dr now st = md_put_dashboard dr (buildDashboardSnapshot now st)"

definition ms_Update :: "'w MongoDriver \<Rightarrow> gotime \<Rightarrow> mutator \<Rightarrow> 'w MongoStore \<Rightarrow> 'w MongoStore \<times> string option" where
  "ms_Update dr now mutate s =
     (case mutate (ms_cache s) of
        Inl err \<Rightarrow> (s, Some err)
      | Inr nxt \<Rightarrow>
          let nxt = nxt\<lparr>st_UpdatedAt := now\<rparr>
          in case writeChecksToMongo dr (st_Checks nxt) (ms_db s) of
               (w, Some err) \<Rightarrow> (s\<lparr>ms_db := w\<rparr>, Some (''mongo update checks: '' @ err))
             | (w, None) \<Rightarrow>
                 (case writeStateMeta dr nxt w of
                    (w, Some err) \<Rightarrow> (s\<lparr>ms_db := w\<rparr>, Some (''mongo update state meta: '' @ err))
                  | (w, None) \<Rightarrow> (s\<lparr>ms_cache := nxt, ms_db := w\<rparr>, None)))"

definition ms_ReplaceChecks ::
  "'w MongoDriver \<Rightarrow> gotime \<Rightarrow> CheckConfig list \<Rightarrow> 'w MongoStore \<Rightarrow> 'w MongoStore \<times> string option" where
  "ms_ReplaceChecks dr now checks s =
     (case md_delete_checks dr (ms_db s) of
        (w, Some err) \<Rightarrow> (s\<lparr>ms_db := w\<rparr>, Some (''mongo delete checks: '' @ err))
      | (w, None) \<Rightarrow>
          (case writeChecksToMongo dr checks w of
             (w, Some err) \<Rightarrow> (s\<lparr>ms_db := w\<rparr>, Some (''mongo write checks: '' @ err))
           | (w, None) \<Rightarrow>
               let cache = (ms_cache s)\<lparr>st_Checks := checks, st_UpdatedAt := now\<rparr>;
                   (w, err) = writeStateMeta dr cache w
               in (s\<lparr>ms_cache := cache, ms_db := w\<rparr>, map_option (\<lambda>e. ''mongo update state meta: '' @ e) err)))"

text \<open>The cache after \<open>UpsertCheck\<close> and \<open>DeleteCheck\<close>; errors of the meta document are ignored.\<close>

definition cache_upsert :: "gotime \<Rightarrow> CheckConfig \<Rightarrow> State \<Rightarrow> State" where
  "cache_upsert now check st =
     (st\<lparr>st_Checks :=
        (if find (\<lambda>c. chk_ID c = chk_ID check) (st_Checks st) \<noteq> None
         then replace_first (\<lambda>c. chk_ID c = chk_ID check) (\<lambda>_. check) (st_Checks st)
         else st_Checks st @ [check])\<rparr>)\<lparr>st_UpdatedAt := now\<rparr>"

definition ms_UpsertCheck ::
  "'w MongoDriver \<Rightarrow> gotime \<Rightarrow> CheckConfig \<Rightarrow> 'w MongoStore \<Rightarrow> 'w MongoStore \<times> string option" where
  "ms_UpsertCheck dr now check s =
     (case md_replace_check dr (chk_ID check) check (ms_db s) of
        (w, Some err) \<Rightarrow> (s\<lparr>ms_db := w\<rparr>, Some (''mongo upsert check: '' @ err))
      | (w, None) \<Rightarrow>
          let cache = cache_upsert now check (ms_cache s)
          in (s\<lparr>ms_cache := cache, ms_db := fst (writeStateMeta dr cache w)\<rparr>, None))"

definition cache_delete :: "gotime \<Rightarrow> string \<Rightarrow> State \<Rightarrow> State" where
  "cache_delete now i st = st\<lparr>st_Checks := filter (\<lambda>c. chk_ID c \<noteq> i) (st_Checks st), st_UpdatedAt := now\<rparr>"

definition ms_DeleteCheck ::
  "'w MongoDriver \<Rightarrow> gotime \<Rightarrow> string \<Rightarrow> 'w MongoStore \<Rightarrow> 'w MongoStore \<times> string option" where
  "ms_DeleteCheck dr now i s =
     (case md_delete_check dr i (ms_db s) of
        (w, Some err) \<Rightarrow> (s\<lparr>ms_db := w\<rparr>, Some (''mongo delete check: '' @ err))
      | (w, None) \<Rightarrow>
          let cache = cache_delete now i (ms_cache s)
          in (s\<lparr>ms_cache := cache, ms_db := fst (writeStateMeta dr cache w)\<rparr>, None))"

definition ms_AppendResults ::
  "'w MongoDriver \<Rightarrow> gotime \<Rightarrow> CheckResult list \<Rightarrow> int \<Rightarrow> 'w MongoStore \<Rightarrow> 'w MongoStore \<times> string option" where
  "ms_AppendResults dr now results retentionDays s =
     (case (if length results > 0 then md_insert_results dr results (ms_db s) else (ms_db s, Inserted)) of
        (w, InsertFailed err) \<Rightarrow> (s\<lparr>ms_db := w\<rparr>, Some (''mongo insert results: '' @ err))
      | (w, _) \<Rightarrow>
          let w = (if retentionDays > 0
                   then fst (md_delete_results_before dr (retention_cutoff now retentionDays) w) else w);
              cache = (ms_cache s)\<lparr>st_Results := pruneResults now retentionDays (st_Results (ms_cache s) @ results),
                        st_UpdatedAt := now\<rparr>
          in (s\<lparr>ms_cache := cache, ms_db := fst (writeDashboardSnapshot dr now cache w)\<rparr>, None))"

definition ms_SetLastRun :: "'w MongoDriver \<Rightarrow> gotime \<Rightarrow> gotime \<Rightarrow> 'w MongoStore \<Rightarrow> 'w MongoStore \<times> string option" where
  "ms_SetLastRun dr now t s =
     (let cache = (ms_cache s)\<lparr>st_LastRunAt := t, st_UpdatedAt := now\<rparr>
      in case writeStateMeta dr cache (ms_db s) of
           (w, Some err) \<Rightarrow> (s\<lparr>ms_cache := cache, ms_db := w\<rparr>, Some err)
         | (w, None) \<Rightarrow> (s\<lparr>ms_cache := cache, ms_db := fst (writeDashboardSnapshot dr now cache w)\<rparr>, None))"

section \<open>Starting\<close>

definition readStateFromMongo :: "'w MongoDriver \<Rightarrow> int \<Rightarrow> gotime \<Rightarrow> 'w \<Rightarrow> string + State" where
  "readStateFromMongo dr retentionDays now w =
     (case md_find_checks dr w of Inl err \<Rightarrow> Inl (''read checks: '' @ err) | Inr checks \<Rightarrow>
     (case md_find_results dr (if retentionDays > 0 then Some (retention_cutoff now retentionDays) else None) w of
        Inl err \<Rightarrow> Inl (''read results: '' @ err) | Inr results \<Rightarrow>
     (case md_find_meta dr w of
        Inl err \<Rightarrow> Inl (''read state meta: '' @ err)
      | Inr meta \<Rightarrow>
          (case (case meta of None \<Rightarrow> (zero_time, zero_time) | Some m \<Rightarrow> m) of
             (lastRun, updated) \<Rightarrow>
               Inr \<lparr>st_Checks = checks, st_Results = results, st_LastRunAt = lastRun, st_UpdatedAt = updated\<rparr>))))"

text \<open>
  The migration of one check: a block without any credentials takes the password of the seed, encrypted.
  A failed encryption leaves it alone.
\<close>

definition migrate_ssh :: "(string \<Rightarrow> string + string) \<Rightarrow> CheckConfig \<Rightarrow> CheckConfig \<Rightarrow> CheckConfig \<times> bool" where
  "migrate_ssh enc seed c =
     (case (chk_SSH c, chk_SSH seed) of
        (Some h, Some hs) \<Rightarrow>
          if ssh_Password h = [] \<and> ssh_PasswordEnc h = [] \<and> ssh_PasswordEnv h = [] \<and> ssh_KeyPath h = [] \<and>
             ssh_KeyEnv h = [] \<and> ssh_Password hs \<noteq> []
          then (case enc (ssh_Password hs) of
                  Inl _ \<Rightarrow> (c, False)
                | Inr e \<Rightarrow> (c\<lparr>chk_SSH := Some (h\<lparr>ssh_PasswordEnc := e\<rparr>)\<rparr>, True))
          else (c, False)
      | _ \<Rightarrow> (c, False))"

definition migrate_mysql :: "(string \<Rightarrow> string + string) \<Rightarrow> CheckConfig \<Rightarrow> CheckConfig \<Rightarrow> CheckConfig \<times> bool" where
  "migrate_mysql enc seed c =
     (case (chk_MySQL c, chk_MySQL seed) of
        (Some m, Some ms) \<Rightarrow>
          if my_Password m = [] \<and> my_PasswordEnc m = [] \<and> my_Password ms \<noteq> []
          then (case enc (my_Password ms) of
                  Inl _ \<Rightarrow> (c, False)
                | Inr e \<Rightarrow> (c\<lparr>chk_MySQL := Some (m\<lparr>my_PasswordEnc := e\<rparr>)\<rparr>, True))
          else (c, False)
      | _ \<Rightarrow> (c, False))"

definition migrate_check ::
  "(nat \<Rightarrow> string \<Rightarrow> string + string) \<Rightarrow> CheckConfig list \<Rightarrow> CheckConfig \<Rightarrow> CheckConfig \<times> bool" where
  "migrate_check enc seeds c =
     (case find (\<lambda>s. chk_ID s = chk_ID c) (rev seeds) of
        None \<Rightarrow> (c, False)
      | Some seed \<Rightarrow>
          let (c, a) = migrate_ssh (enc 0) seed c; (c, b) = migrate_mysql (enc 1) seed c in (c, a \<or> b))"

text \<open>The loop: a changed check is stored at once, through a store whose cache is still empty.\<close>

fun migrate_loop ::
  "'w MongoDriver \<Rightarrow> gotime \<Rightarrow> (nat \<Rightarrow> nat \<Rightarrow> string \<Rightarrow> string + string) \<Rightarrow> CheckConfig list \<Rightarrow> nat \<Rightarrow>
     CheckConfig list \<Rightarrow> 'w MongoStore \<Rightarrow> CheckConfig list \<times> 'w MongoStore" where
  "migrate_loop dr now enc seeds i [] s = ([], s)"
| "migrate_loop dr now enc seeds i (c # cs) s =
     (let (c, changed) = migrate_check (enc i) seeds c;
          s = (if changed then fst (ms_UpsertCheck dr now c s) else s);
          (cs, s) = migrate_loop dr now enc seeds (i + 1) cs s
      in (c # cs, s))"

fun seed_checks :: "(nat \<Rightarrow> nat \<Rightarrow> string \<Rightarrow> string + string) \<Rightarrow> nat \<Rightarrow> CheckConfig list \<Rightarrow> CheckConfig list" where
  "seed_checks enc i [] = []"
| "seed_checks enc i (c # cs) =
     fst (prepareCheckSecrets (enc i) False False c None) # seed_checks enc (i + 1) cs"

text \<open>\<open>NewMongoStore\<close>, for a client that is there. The database is changed even when it fails.\<close>

definition NewMongoStore ::
  "'w MongoDriver \<Rightarrow> int \<Rightarrow> gotime \<Rightarrow> (nat \<Rightarrow> nat \<Rightarrow> string \<Rightarrow> string + string) \<Rightarrow> CheckConfig list \<Rightarrow> 'w \<Rightarrow>
     'w \<times> (string + 'w MongoStore)" where
  "NewMongoStore dr retentionDays now enc seeds w =
     (case readStateFromMongo dr retentionDays now w of
        Inl err \<Rightarrow> (w, Inl (''read initial state from mongo: '' @ err))
      | Inr st \<Rightarrow>
          if length (st_Checks st) = 0 \<and> length seeds > 0 then
            let st = st\<lparr>st_Checks := seed_checks enc 0 seeds, st_UpdatedAt := now\<rparr>
            in case writeChecksToMongo dr (st_Checks st) w of
                 (w, Some err) \<Rightarrow> (w, Inl (''seed checks to mongo: '' @ err))
               | (w, None) \<Rightarrow>
                   (case writeStateMeta dr st w of
                      (w, Some err) \<Rightarrow> (w, Inl (''seed state meta to mongo: '' @ err))
                    | (w, None) \<Rightarrow> (w, Inr \<lparr>ms_cache = st, ms_db = w\<rparr>))
          else
            let (checks, s) = migrate_loop dr now enc seeds 0 (st_Checks st) \<lparr>ms_cache = empty_state, ms_db = w\<rparr>
            in (ms_db s, Inr (s\<lparr>ms_cache := st\<lparr>st_Checks := checks\<rparr>\<rparr>)))"

section \<open>Cache and database agree\<close>

lemma driver_okD:
  assumes "driver_ok dr docs"
  shows "md_replace_check dr (chk_ID c) c w = (w', None) \<Longrightarrow> docs w' = (docs w)(chk_ID c \<mapsto> bson_check c)"
    and "md_delete_check dr i w = (w', None) \<Longrightarrow> docs w' = (docs w)(i := None)"
    and "docs (fst (md_insert_results dr rs w)) = docs w" and "docs (fst (md_delete_results_before dr t w)) = docs w"
    and "docs (fst (md_put_meta dr m w)) = docs w" and "docs (fst (md_put_dashboard dr d w)) = docs w"
    and "md_find_checks dr w = Inr cs \<Longrightarrow> distinct (map chk_ID cs) \<and> (\<forall>c \<in> set cs. bson_check c = c) \<and>
          docs w = (\<lambda>i. find (\<lambda>c. chk_ID c = i) cs)"
proof -
  note laws = assms [unfolded driver_ok_def]
  show "md_replace_check dr (chk_ID c) c w = (w', None) \<Longrightarrow> docs w' = (docs w)(chk_ID c \<mapsto> bson_check c)"
    using conjunct1 [OF laws, rule_format, where c = c and w = w] by simp
  show "md_delete_check dr i w = (w', None) \<Longrightarrow> docs w' = (docs w)(i := None)"
    using conjunct1 [OF conjunct2 [OF laws], rule_format, where i = i and w = w] by simp
  show "md_find_checks dr w = Inr cs \<Longrightarrow> distinct (map chk_ID cs) \<and> (\<forall>c \<in> set cs. bson_check c = c) \<and>
      docs w = (\<lambda>i. find (\<lambda>c. chk_ID c = i) cs)"
    using conjunct2 [OF conjunct2 [OF conjunct2 [OF conjunct2 [OF conjunct2 [OF conjunct2 [OF laws]]]]]]
    by (auto simp: fun_eq_iff split: sum.splits)
qed (use assms in \<open>simp_all add: driver_ok_def del: split_paired_All\<close>)

lemma bson_keeps [simp]: "chk_ID (bson_check c) = chk_ID c"
  by (simp add: bson_check_def)

definition agree :: "('w \<Rightarrow> string \<rightharpoonup> CheckConfig) \<Rightarrow> 'w MongoStore \<Rightarrow> bool" where
  "agree docs s \<longleftrightarrow> distinct_ids (ms_cache s) \<and>
     docs (ms_db s) = (\<lambda>i. map_option bson_check (lookup_check i (ms_cache s)))"

lemma cache_upsert_mut: "\<exists>st'. upsert_mut c st = Inr st' \<and> cache_upsert now c st = st'\<lparr>st_UpdatedAt := now\<rparr>"
  by (simp add: cache_upsert_def upsert_mut_def)

lemma lookup_updated_at [simp]: "lookup_check i (st\<lparr>st_UpdatedAt := t\<rparr>) = lookup_check i st"
  "distinct_ids (st\<lparr>st_UpdatedAt := t\<rparr>) = distinct_ids st"
  by (simp_all add: lookup_check_def distinct_ids_def check_ids_def)

lemma lookup_cache_upsert:
  "lookup_check i (cache_upsert now c st) = (if i = chk_ID c then Some c else lookup_check i st)"
  "distinct_ids st \<Longrightarrow> distinct_ids (cache_upsert now c st)"
  using cache_upsert_mut [of c st now] lookup_upsert distinct_upsert by auto

lemma lookup_cache_delete:
  "lookup_check i (cache_delete now j st) = (if i = j then None else lookup_check i st)"
  "distinct_ids st \<Longrightarrow> distinct_ids (cache_delete now j st)"
  by (auto simp: cache_delete_def lookup_check_def find_key_filter distinct_ids_def check_ids_def
      intro: distinct_map_filter_key)

text \<open>The calls that the running service makes, each with its time.\<close>

datatype store_call = SUpsert CheckConfig | SDelete string | SAppend "CheckResult list" int | SLastRun gotime

fun ms_call :: "'w MongoDriver \<Rightarrow> gotime \<times> store_call \<Rightarrow> 'w MongoStore \<Rightarrow> 'w MongoStore \<times> string option" where
  "ms_call dr (now, SUpsert c) s = ms_UpsertCheck dr now c s"
| "ms_call dr (now, SDelete i) s = ms_DeleteCheck dr now i s"
| "ms_call dr (now, SAppend rs days) s = ms_AppendResults dr now rs days s"
| "ms_call dr (now, SLastRun t) s = ms_SetLastRun dr now t s"

fun changes_checks :: "store_call \<Rightarrow> bool" where
  "changes_checks (SUpsert c) = True"
| "changes_checks (SDelete i) = True"
| "changes_checks _ = False"

text \<open>A history, and whether every change of a check in it reported success.\<close>

fun ms_history :: "'w MongoDriver \<Rightarrow> (gotime \<times> store_call) list \<Rightarrow> 'w MongoStore \<Rightarrow> 'w MongoStore \<times> bool" where
  "ms_history dr [] s = (s, True)"
| "ms_history dr (call # calls) s =
     (let (s, err) = ms_call dr call s; (s, ok) = ms_history dr calls s
      in (s, (changes_checks (snd call) \<longrightarrow> err = None) \<and> ok))"

lemma agree_call:
  assumes ok: "driver_ok dr docs" and "agree docs s" and "ms_call dr call s = (s', err)"
    and "changes_checks (snd call) \<longrightarrow> err = None"
  shows "agree docs s'"
proof (cases call)
  case (Pair now c)
  note defs = agree_def ms_UpsertCheck_def ms_DeleteCheck_def ms_AppendResults_def ms_SetLastRun_def
    writeStateMeta_def writeDashboardSnapshot_def Let_def
  show ?thesis
  proof (cases c)
    case (SUpsert check)
    then obtain w where w: "md_replace_check dr (chk_ID check) check (ms_db s) = (w, None)"
      "s' = s\<lparr>ms_cache := cache_upsert now check (ms_cache s),
              ms_db := fst (writeStateMeta dr (cache_upsert now check (ms_cache s)) w)\<rparr>"
      using assms(3,4) Pair by (auto simp: ms_UpsertCheck_def Let_def split: prod.splits option.splits)
    then show ?thesis
      using assms(2) driver_okD(1) [OF ok w(1)]
      by (auto simp: agree_def writeStateMeta_def driver_okD(5) [OF ok] lookup_cache_upsert)
  next
    case (SDelete i)
    then obtain w where w: "md_delete_check dr i (ms_db s) = (w, None)"
      "s' = s\<lparr>ms_cache := cache_delete now i (ms_cache s),
              ms_db := fst (writeStateMeta dr (cache_delete now i (ms_cache s)) w)\<rparr>"
      using assms(3,4) Pair by (auto simp: ms_DeleteCheck_def Let_def split: prod.splits option.splits)
    then show ?thesis
      using assms(2) driver_okD(2) [OF ok w(1)]
      by (auto simp: agree_def writeStateMeta_def driver_okD(5) [OF ok] lookup_cache_delete)
  next
    case (SAppend rs days)
    have "docs (ms_db s') = docs (ms_db s)" "st_Checks (ms_cache s') = st_Checks (ms_cache s)"
      using assms(3) Pair SAppend driver_okD(3,4,6) [OF ok]
      by (auto simp: ms_AppendResults_def writeDashboardSnapshot_def Let_def split: prod.splits insert_end.splits if_splits)
        (metis fst_conv)+
    then show ?thesis
      using assms(2) by (simp add: agree_def lookup_check_def distinct_ids_def check_ids_def)
  next
    case (SLastRun t)
    have "docs (ms_db s') = docs (ms_db s)" "st_Checks (ms_cache s') = st_Checks (ms_cache s)"
      using assms(3) Pair SLastRun driver_okD(5,6) [OF ok]
      by (auto simp: ms_SetLastRun_def writeStateMeta_def writeDashboardSnapshot_def Let_def
          split: prod.splits option.splits) (metis fst_conv)+
    then show ?thesis
      using assms(2) by (simp add: agree_def lookup_check_def distinct_ids_def check_ids_def)
  qed
qed

lemma agree_history:
  "driver_ok dr docs \<Longrightarrow> agree docs s \<Longrightarrow> ms_history dr calls s = (s', True) \<Longrightarrow> agree docs s'"
  by (induction calls arbitrary: s) (auto simp: Let_def split: prod.splits intro: agree_call)

lemma written_checks:
  assumes "driver_ok dr docs"
  shows "writeChecksToMongo dr cs w = (w', None) \<Longrightarrow> distinct (map chk_ID cs) \<Longrightarrow> [] \<notin> set (map chk_ID cs) \<Longrightarrow>
    docs w' = (\<lambda>i. case find (\<lambda>c. chk_ID c = i) cs of Some c \<Rightarrow> Some (bson_check c) | None \<Rightarrow> docs w i)"
proof (induction cs arbitrary: w)
  case (Cons c cs)
  then obtain w1 where w1: "md_replace_check dr (chk_ID c) c w = (w1, None)" "writeChecksToMongo dr cs w1 = (w', None)"
    by (auto split: prod.splits option.splits)
  have new: "find (\<lambda>d. chk_ID d = chk_ID c) cs = None" using Cons.prems(2) by (simp add: find_key_None)
  have rest: "docs w' = (\<lambda>i. case find (\<lambda>c. chk_ID c = i) cs of Some c \<Rightarrow> Some (bson_check c) | None \<Rightarrow> docs w1 i)"
    using Cons.IH [OF w1(2)] Cons.prems(2,3) by simp
  show ?case
  proof
    fix i show "docs w' i = (case find (\<lambda>c. chk_ID c = i) (c # cs) of Some c \<Rightarrow> Some (bson_check c) | None \<Rightarrow> docs w i)"
      by (cases "chk_ID c = i") (use new in \<open>simp_all add: rest driver_okD(1) [OF assms w1(1)] split: option.split\<close>)
  qed
qed simp

lemma prepared_ID [simp]: "chk_ID (fst (prepareCheckSecrets enc a b c x)) = chk_ID c"
  by (rule prepareCheck_keeps(1) [where err = "snd (prepareCheckSecrets enc a b c x)"]) simp

lemma seed_checks_ids [simp]: "map chk_ID (seed_checks enc i cs) = map chk_ID cs"
  by (induction cs arbitrary: i) simp_all

text \<open>The first start on an empty database.\<close>

lemma first_start_agrees:
  assumes ok: "driver_ok dr docs" and "md_find_checks dr w = Inr []"
    and "NewMongoStore dr days now enc seeds w = (w', Inr s)"
    and "distinct (map chk_ID seeds)" and "[] \<notin> set (map chk_ID seeds)"
  shows "agree docs s"
proof -
  obtain st where st: "readStateFromMongo dr days now w = Inr st" "st_Checks st = []"
    using assms(2,3) by (auto simp: NewMongoStore_def readStateFromMongo_def split: sum.splits option.splits prod.splits)
  have empty: "docs w = Map.empty" using driver_okD(7) [OF ok assms(2)] by auto
  show ?thesis
  proof (cases "seeds = []")
    case True
    moreover have "st\<lparr>st_Checks := []\<rparr> = st" using st(2) by (cases st) simp
    ultimately have "s = \<lparr>ms_cache = st, ms_db = w\<rparr>" using assms(3) st by (auto simp: NewMongoStore_def)
    then show ?thesis using st(2) empty by (simp add: agree_def lookup_check_def distinct_ids_def check_ids_def)
  next
    case False
    let ?cs = "seed_checks enc 0 seeds"
    obtain w1 where w1: "writeChecksToMongo dr ?cs w = (w1, None)" "docs (ms_db s) = docs w1"
      "ms_cache s = st\<lparr>st_Checks := ?cs, st_UpdatedAt := now\<rparr>"
      using assms(3) st False driver_okD(5) [OF ok]
      by (auto simp: NewMongoStore_def writeStateMeta_def Let_def split: prod.splits option.splits) (metis fst_conv)
    have "docs w1 = (\<lambda>i. case find (\<lambda>c. chk_ID c = i) ?cs of Some c \<Rightarrow> Some (bson_check c) | None \<Rightarrow> docs w i)"
      by (rule written_checks [OF ok w1(1)]) (use assms(4,5) in simp_all)
    then show ?thesis
      using assms(4) w1(2,3) empty
      by (auto simp: agree_def lookup_check_def distinct_ids_def check_ids_def fun_eq_iff split: option.split)
  qed
qed

section \<open>A restart\<close>

text \<open>
  What a restart may give back for a check: everything but the plain password and the flag for the user
  interface, and an encrypted password where there was none.
\<close>

definition secretless :: "CheckConfig \<Rightarrow> CheckConfig" where
  "secretless c = c\<lparr>chk_MySQL := map_option (\<lambda>m. m\<lparr>my_PasswordEnc := []\<rparr>) (chk_MySQL c),
     chk_SSH := map_option (\<lambda>h. h\<lparr>ssh_PasswordEnc := []\<rparr>) (chk_SSH c)\<rparr>"

definition keeps_ciphertext :: "CheckConfig \<Rightarrow> CheckConfig \<Rightarrow> bool" where
  "keeps_ciphertext c c' \<longleftrightarrow>
     (case (chk_MySQL c, chk_MySQL c') of
        (Some m, Some m') \<Rightarrow> my_PasswordEnc m = [] \<or> my_PasswordEnc m' = my_PasswordEnc m | (x, y) \<Rightarrow> x = y) \<and>
     (case (chk_SSH c, chk_SSH c') of
        (Some h, Some h') \<Rightarrow> ssh_PasswordEnc h = [] \<or> ssh_PasswordEnc h' = ssh_PasswordEnc h | (x, y) \<Rightarrow> x = y)"

definition restored :: "CheckConfig \<Rightarrow> CheckConfig \<Rightarrow> bool" where
  "restored c c' \<longleftrightarrow> secretless c' = secretless (bson_check c) \<and> keeps_ciphertext (bson_check c) c'"

lemma restored_refl: "bson_check c = c \<Longrightarrow> restored c c"
  by (simp add: restored_def keeps_ciphertext_def split: option.split)

lemma restored_bson: "restored (bson_check c) c' \<longleftrightarrow> restored c c'"
proof -
  have "bson_check (bson_check c) = bson_check c"
  proof -
    have "bson_mysql \<circ> bson_mysql = bson_mysql" "bson_ssh \<circ> bson_ssh = bson_ssh"
      by (simp_all add: fun_eq_iff bson_mysql_def bson_ssh_def)
    moreover have "bson_remediation (bson_remediation r) = bson_remediation r" for r
      by (simp add: bson_remediation_def option.map_comp \<open>bson_ssh \<circ> bson_ssh = bson_ssh\<close>)
    then have "bson_remediation \<circ> bson_remediation = bson_remediation" by (simp add: fun_eq_iff)
    ultimately
    show ?thesis by (simp add: bson_check_def option.map_comp)
  qed
  then show ?thesis by (simp add: restored_def)
qed

lemma restored_ID: "restored c c' \<Longrightarrow> chk_ID c' = chk_ID c"
  unfolding restored_def secretless_def bson_check_def
  by (drule conjunct1, drule arg_cong [where f = chk_ID]) simp

lemma migrate_ssh_shape:
  "migrate_ssh enc seed c = (c, False) \<or>
     (\<exists>h e. chk_SSH c = Some h \<and> ssh_PasswordEnc h = [] \<and>
        migrate_ssh enc seed c = (c\<lparr>chk_SSH := Some (h\<lparr>ssh_PasswordEnc := e\<rparr>)\<rparr>, True))"
  by (auto simp: migrate_ssh_def split: option.split sum.split)

lemma migrate_mysql_shape:
  "migrate_mysql enc seed c = (c, False) \<or>
     (\<exists>m e. chk_MySQL c = Some m \<and> my_PasswordEnc m = [] \<and>
        migrate_mysql enc seed c = (c\<lparr>chk_MySQL := Some (m\<lparr>my_PasswordEnc := e\<rparr>)\<rparr>, True))"
  by (auto simp: migrate_mysql_def split: option.split sum.split)

lemma refill_ssh:
  "chk_SSH c = Some h \<Longrightarrow> ssh_PasswordEnc h = [] \<Longrightarrow> bson_check c = c \<Longrightarrow>
     restored c (c\<lparr>chk_SSH := Some (h\<lparr>ssh_PasswordEnc := e\<rparr>)\<rparr>)"
  by (simp add: restored_def secretless_def keeps_ciphertext_def split: option.split)

lemma refill_mysql:
  "chk_MySQL c = Some m \<Longrightarrow> my_PasswordEnc m = [] \<Longrightarrow> restored d c \<Longrightarrow>
     restored d (c\<lparr>chk_MySQL := Some (m\<lparr>my_PasswordEnc := e\<rparr>)\<rparr>)"
  by (auto simp: restored_def secretless_def keeps_ciphertext_def split: option.splits)

lemma migrate_check_restored:
  assumes "bson_check c = c"
  shows "restored c (fst (migrate_check enc seeds c))"
proof (cases "find (\<lambda>s. chk_ID s = chk_ID c) (rev seeds)")
  case (Some seed)
  have ssh: "restored c (fst (migrate_ssh (enc 0) seed c))"
    using migrate_ssh_shape [of "enc 0" seed c] restored_refl [OF assms] refill_ssh [OF _ _ assms] by auto
  have "restored c (fst (migrate_mysql (enc 1) seed (fst (migrate_ssh (enc 0) seed c))))"
    using migrate_mysql_shape [of "enc 1" seed "fst (migrate_ssh (enc 0) seed c)"] ssh refill_mysql [OF _ _ ssh] by auto
  then show ?thesis using Some by (simp add: migrate_check_def split_beta)
qed (simp add: migrate_check_def restored_refl assms)

lemma migrate_loop_restored:
  "\<forall>c \<in> set cs. bson_check c = c \<Longrightarrow> list_all2 restored cs (fst (migrate_loop dr now enc seeds i cs s))"
  by (induction cs arbitrary: i s) (simp_all add: split_beta Let_def migrate_check_restored)

lemma find_list_all2:
  "list_all2 R xs ys \<Longrightarrow> (\<And>x y. R x y \<Longrightarrow> k y = k x) \<Longrightarrow>
     rel_option R (find (\<lambda>x. k x = i) xs) (find (\<lambda>x. k x = i) ys)"
  by (induction rule: list_all2_induct) auto


section \<open>A witness\<close>

text \<open>A database that is the list of its checks; every call succeeds, and other lists are no database.\<close>

definition put_check :: "CheckConfig \<Rightarrow> CheckConfig list \<Rightarrow> CheckConfig list" where
  "put_check c w = st_Checks (cache_upsert 0 (bson_check c) (empty_state\<lparr>st_Checks := w\<rparr>))"

definition list_driver :: "(CheckConfig list) MongoDriver" where
  "list_driver = \<lparr>
     md_replace_check = (\<lambda>i c w. (put_check c w, None)),
     md_delete_check = (\<lambda>i w. (filter (\<lambda>d. chk_ID d \<noteq> i) w, None)),
     md_delete_checks = (\<lambda>w. ([], None)),
     md_insert_results = (\<lambda>rs w. (w, Inserted)),
     md_delete_results_before = (\<lambda>t w. (w, None)),
     md_put_meta = (\<lambda>m w. (w, None)),
     md_put_dashboard = (\<lambda>d w. (w, None)),
     md_find_checks = (\<lambda>w. if distinct (map chk_ID w) \<and> list_all (\<lambda>c. bson_check c = c) w then Inr w else Inl ''corrupt''),
     md_find_results = (\<lambda>t w. Inr []),
     md_find_meta = (\<lambda>w. Inr None)\<rparr>"

lemma find_put_check:
  "find (\<lambda>d. chk_ID d = i) (put_check c w) = (if i = chk_ID c then Some (bson_check c) else find (\<lambda>d. chk_ID d = i) w)"
  using lookup_cache_upsert(1) [of i 0 "bson_check c" "empty_state\<lparr>st_Checks := w\<rparr>"]
  by (simp add: put_check_def lookup_check_def)

lemma list_driver_ok: "driver_ok list_driver (\<lambda>w i. find (\<lambda>d. chk_ID d = i) w)"
  by (auto simp: driver_ok_def list_driver_def find_put_check fun_eq_iff find_key_filter list_all_iff)

definition sample_seed :: CheckConfig where
  "sample_seed = zero_check\<lparr>chk_ID := ''db'', chk_MySQL := Some sample_mysql\<rparr>"

definition sample_crypt :: "nat \<Rightarrow> nat \<Rightarrow> string \<Rightarrow> string + string" where
  "sample_crypt i k = sample_encrypt"

definition first_store :: "(CheckConfig list) MongoStore" where
  "first_store = projr (snd (NewMongoStore list_driver 7 1 sample_crypt [sample_seed] []))"

definition sample_calls :: "(gotime \<times> store_call) list" where
  "sample_calls = [(2, SUpsert (zero_check\<lparr>chk_ID := ''web''\<rparr>)), (3, SDelete ''db'')]"

definition later_store :: "(CheckConfig list) MongoStore" where
  "later_store = fst (ms_history list_driver sample_calls first_store)"

definition restarted_store :: "(CheckConfig list) MongoStore" where
  "restarted_store = projr (snd (NewMongoStore list_driver 7 4 sample_crypt [sample_seed] (ms_db later_store)))"

lemma sample_run:
  "NewMongoStore list_driver 7 1 sample_crypt [sample_seed] [] = (ms_db first_store, Inr first_store)"
  "ms_history list_driver sample_calls first_store = (later_store, True)"
  "NewMongoStore list_driver 7 4 sample_crypt [sample_seed] (ms_db later_store) = (ms_db restarted_store, Inr restarted_store)"
  "md_find_checks list_driver [] = Inr []" "chk_ID sample_seed = ''db''"
  "map chk_ID (st_Checks (ms_cache later_store)) = [''web'']" "lookup_check ''db'' (ms_cache later_store) = None"
  by code_simp+

end
