(* ===== verification/CheckAPI.thy ===== *)
theory CheckAPI
  imports MongoStore Auth Scheduler
begin

text \<open>
  The handlers that create, update and delete checks (\<open>handleChecks\<close>, \<open>handleCheckByID\<close>,
  \<open>decodeCheckUpdate\<close> in \<open>service.go\<close>; \<open>ExtractActorFromRequest\<close> in \<open>audit.go\<close>), composed from the
  defaults and validation of \<open>Config\<close>, the secrets, the store and the scheduler. An update starts from a
  shallow copy of the cached check: its pointers, slices and maps are those of the cache, and
  \<open>encoding/json\<close> decodes into what a pointer points to, into the array of a slice and into an existing
  map. What the update does to the cached check by that route is \<open>write_through\<close>. JSON decoding is a
  record of functions, one per type of field, from the old value of the destination to the new one and an
  error; a decoder of a pointer keeps the object it finds unless it reads \<open>null\<close>.
\<close>

section \<open>Decoding an update\<close>

type_synonym ('j, 'a) decoder = "'j \<Rightarrow> 'a \<Rightarrow> 'a \<times> string option"

record 'j JsonDec =
  jd_fields :: "string \<Rightarrow> string + (string \<times> 'j) list"
  jd_string :: "('j, string) decoder"
  jd_int :: "('j, int) decoder"
  jd_flag :: "('j, bool option) decoder"
  jd_strings :: "('j, string list) decoder"
  jd_map :: "('j, smap) decoder"
  jd_mysql :: "('j, MySQLCheckConfig option) decoder"
  jd_ssh :: "('j, SSHCheckConfig option) decoder"
  jd_ssl :: "('j, SSLCheckConfig option) decoder"
  jd_dns :: "('j, DNSCheckConfig option) decoder"
  jd_ping :: "('j, PingCheckConfig option) decoder"
  jd_domain :: "('j, DomainCheckConfig option) decoder"
  jd_heartbeat :: "('j, HeartbeatCheckConfig option) decoder"

definition applyJSONField ::
  "(string \<times> 'j) list \<Rightarrow> string \<Rightarrow> ('j, 'a) decoder \<Rightarrow> (CheckConfig \<Rightarrow> 'a) \<Rightarrow>
     (('a \<Rightarrow> 'a) \<Rightarrow> CheckConfig \<Rightarrow> CheckConfig) \<Rightarrow> CheckConfig \<Rightarrow> CheckConfig \<times> string option" where
  "applyJSONField obj key decode get upd check =
     (case map_of obj key of
        None \<Rightarrow> (check, None)
      | Some raw \<Rightarrow>
          (case decode raw (get check) of
             (v, err) \<Rightarrow> (upd (\<lambda>_. v) check, map_option (\<lambda>e. key @ '': '' @ e) err)))"

fun run_appliers :: "(CheckConfig \<Rightarrow> CheckConfig \<times> string option) list \<Rightarrow> CheckConfig \<Rightarrow> CheckConfig \<times> string option" where
  "run_appliers [] check = (check, None)"
| "run_appliers (f # fs) check =
     (case f check of
        (check, Some err) \<Rightarrow> (check, Some err)
      | (check, None) \<Rightarrow> run_appliers fs check)"

definition appliers :: "'j JsonDec \<Rightarrow> (string \<times> 'j) list \<Rightarrow> (CheckConfig \<Rightarrow> CheckConfig \<times> string option) list" where
  "appliers d obj =
     [applyJSONField obj ''name'' (jd_string d) chk_Name chk_Name_update,
      applyJSONField obj ''type'' (jd_string d) chk_Type chk_Type_update,
      applyJSONField obj ''server'' (jd_string d) chk_Server chk_Server_update,
      applyJSONField obj ''application'' (jd_string d) chk_Application chk_Application_update,
      applyJSONField obj ''target'' (jd_string d) chk_Target chk_Target_update,
      applyJSONField obj ''host'' (jd_string d) chk_Host chk_Host_update,
      applyJSONField obj ''port'' (jd_int d) chk_Port chk_Port_update,
      applyJSONField obj ''command'' (jd_string d) chk_Command chk_Command_update,
      applyJSONField obj ''path'' (jd_string d) chk_Path chk_Path_update,
      applyJSONField obj ''expectedStatus'' (jd_int d) chk_ExpectedStatus chk_ExpectedStatus_update,
      applyJSONField obj ''expectedContains'' (jd_string d) chk_ExpectedContains chk_ExpectedContains_update,
      applyJSONField obj ''timeoutSeconds'' (jd_int d) chk_TimeoutSeconds chk_TimeoutSeconds_update,
      applyJSONField obj ''warningThresholdMs'' (jd_int d) chk_WarningThresholdMs chk_WarningThresholdMs_update,
      applyJSONField obj ''freshnessSeconds'' (jd_int d) chk_FreshnessSeconds chk_FreshnessSeconds_update,
      applyJSONField obj ''intervalSeconds'' (jd_int d) chk_IntervalSeconds chk_IntervalSeconds_update,
      applyJSONField obj ''retryCount'' (jd_int d) chk_RetryCount chk_RetryCount_update,
      applyJSONField obj ''retryDelaySeconds'' (jd_int d) chk_RetryDelaySeconds chk_RetryDelaySeconds_update,
      applyJSONField obj ''cooldownSeconds'' (jd_int d) chk_CooldownSeconds chk_CooldownSeconds_update,
      applyJSONField obj ''enabled'' (jd_flag d) chk_Enabled chk_Enabled_update,
      applyJSONField obj ''tags'' (jd_strings d) chk_Tags chk_Tags_update,
      applyJSONField obj ''metadata'' (jd_map d) chk_Metadata chk_Metadata_update,
      applyJSONField obj ''serverId'' (jd_string d) chk_ServerId chk_ServerId_update,
      applyJSONField obj ''notificationChannelIds'' (jd_strings d) chk_NotificationChannelIDs chk_NotificationChannelIDs_update,
      applyJSONField obj ''mysql'' (jd_mysql d) chk_MySQL chk_MySQL_update,
      applyJSONField obj ''ssh'' (jd_ssh d) chk_SSH chk_SSH_update,
      applyJSONField obj ''ssl'' (jd_ssl d) chk_SSL chk_SSL_update,
      applyJSONField obj ''dns'' (jd_dns d) chk_DNS chk_DNS_update,
      applyJSONField obj ''ping'' (jd_ping d) chk_Ping chk_Ping_update,
      applyJSONField obj ''domain'' (jd_domain d) chk_Domain chk_Domain_update,
      applyJSONField obj ''heartbeat'' (jd_heartbeat d) chk_Heartbeat chk_Heartbeat_update,
      applyJSONField obj ''failuresToOpen'' (jd_int d) chk_FailuresToOpen chk_FailuresToOpen_update,
      applyJSONField obj ''successesToResolve'' (jd_int d) chk_SuccessesToResolve chk_SuccessesToResolve_update]"

text \<open>\<open>decodeCheckUpdate\<close>, with the local check also when it fails: what it shares has been written to.\<close>

definition decodeCheckUpdate :: "'j JsonDec \<Rightarrow> string + string \<Rightarrow> CheckConfig \<Rightarrow> CheckConfig \<times> string option" where
  "decodeCheckUpdate d body existing =
     (case body of
        Inl err \<Rightarrow> (existing, Some err)
      | Inr data \<Rightarrow>
          if trim_space data = [] then (existing, Some ''request body is required'')
          else case jd_fields d data of
            Inl err \<Rightarrow> (existing, Some err)
          | Inr obj \<Rightarrow>
              (case run_appliers (appliers d obj) existing of
                 (check, Some err) \<Rightarrow> (check, Some err)
               | (check, None) \<Rightarrow> (check\<lparr>chk_ID := chk_ID existing\<rparr>, None)))"

section \<open>The cached check is written to\<close>

text \<open>
  \<open>decoded\<close> is the check after decoding and \<open>final\<close> after the steps that follow. A pointer that was set
  and was not decoded from \<open>null\<close> still points to the cached object; the array of a slice has its first
  elements overwritten; a map that was not empty has been added to.
\<close>

definition shared :: "'a option \<Rightarrow> 'a option \<Rightarrow> 'a option \<Rightarrow> 'a option" where
  "shared live decoded final = (if live \<noteq> None \<and> decoded \<noteq> None then final else live)"

definition overlay :: "'a list \<Rightarrow> 'a list \<Rightarrow> 'a list" where
  "overlay live decoded = take (length live) decoded @ drop (length decoded) live"

definition write_through :: "CheckConfig \<Rightarrow> CheckConfig \<Rightarrow> CheckConfig \<Rightarrow> CheckConfig" where
  "write_through decoded final live =
     live\<lparr>chk_Enabled := shared (chk_Enabled live) (chk_Enabled decoded) (chk_Enabled final),
       chk_Tags := overlay (chk_Tags live) (chk_Tags decoded),
       chk_Metadata := (if chk_Metadata live \<noteq> [] \<and> chk_Metadata decoded \<noteq> [] then chk_Metadata decoded else chk_Metadata live),
       chk_NotificationChannelIDs := overlay (chk_NotificationChannelIDs live) (chk_NotificationChannelIDs decoded),
       chk_MySQL := shared (chk_MySQL live) (chk_MySQL decoded) (chk_MySQL final),
       chk_SSH := shared (chk_SSH live) (chk_SSH decoded) (chk_SSH final),
       chk_SSL := shared (chk_SSL live) (chk_SSL decoded) (chk_SSL final),
       chk_DNS := shared (chk_DNS live) (chk_DNS decoded) (chk_DNS final),
       chk_Ping := shared (chk_Ping live) (chk_Ping decoded) (chk_Ping final),
       chk_Domain := shared (chk_Domain live) (chk_Domain decoded) (chk_Domain final),
       chk_Heartbeat := shared (chk_Heartbeat live) (chk_Heartbeat decoded) (chk_Heartbeat final)\<rparr>"

definition cache_write :: "string \<Rightarrow> CheckConfig \<Rightarrow> CheckConfig \<Rightarrow> 'w MongoStore \<Rightarrow> 'w MongoStore" where
  "cache_write i decoded final s =
     s\<lparr>ms_cache := (ms_cache s)\<lparr>st_Checks :=
        replace_first (\<lambda>c. chk_ID c = i) (write_through decoded final) (st_Checks (ms_cache s))\<rparr>\<rparr>"

section \<open>The service\<close>

record 'w CheckService =
  cs_cfg :: Config
  cs_store :: "'w MongoStore"
  cs_scheduler :: CheckScheduler
  cs_heartbeats :: HeartbeatStore
  cs_audit :: "(string \<times> string \<times> string) list option"

text \<open>
  What one request brings along: its header \<open>X-User\<close>, the clocks, the token that would be generated, the
  encryptions, \<open>url.Parse\<close> and the database driver.
\<close>

record ('w, 'j) CheckEnv =
  ce_crypto :: Crypto
  ce_secret :: string
  ce_unix :: int
  ce_now :: gotime
  ce_xuser :: string
  ce_token :: string
  ce_encrypt :: "nat \<Rightarrow> string \<Rightarrow> string + string"
  ce_parse :: "string \<Rightarrow> (string \<times> string) option"
  ce_driver :: "'w MongoDriver"
  ce_json :: "'j JsonDec"

datatype check_body = OneCheck CheckConfig | ManyChecks "CheckConfig list" | ErrorBody string | NoBody

definition ExtractActorFromRequest :: "Config \<Rightarrow> string \<Rightarrow> Request \<Rightarrow> string" where
  "ExtractActorFromRequest cfg xuser r =
     (if \<not> auth_Enabled (cfg_Auth cfg) then ''system''
      else case parseBasicAuth (rq_Authorization r) of
             Some (username, _) \<Rightarrow> if username \<noteq> [] then username else if xuser \<noteq> [] then xuser else ''unknown''
           | None \<Rightarrow> if xuser \<noteq> [] then xuser else ''unknown'')"

definition audited :: "('w, 'j) CheckEnv \<Rightarrow> Request \<Rightarrow> string \<Rightarrow> string \<Rightarrow> 'w CheckService \<Rightarrow> 'w CheckService" where
  "audited env r action i s =
     s\<lparr>cs_audit := map_option (\<lambda>log. log @ [(action, ExtractActorFromRequest (cs_cfg s) (ce_xuser env) r, i)]) (cs_audit s)\<rparr>"

definition authorized :: "('w, 'j) CheckEnv \<Rightarrow> Request \<Rightarrow> 'w CheckService \<Rightarrow> bool" where
  "authorized env r s = IsRequestAuthorized (ce_crypto env) (ce_secret env) (ce_unix env) (cfg_Auth (cs_cfg s)) r"

definition unauthorized :: "int \<times> check_body" where
  "unauthorized = (401, ErrorBody ''authentication required'')"

subsection \<open>Creating\<close>

definition handleChecks ::
  "('w, 'j) CheckEnv \<Rightarrow> Request \<Rightarrow> string + CheckConfig \<Rightarrow> 'w CheckService \<Rightarrow> 'w CheckService \<times> int \<times> check_body" where
  "handleChecks env r body s =
     (if rq_Method r = ''GET'' then
        (s, 200, ManyChecks (sanitizeChecksForList (st_Checks (ms_Snapshot (cs_store s)))))
      else if rq_Method r = ''POST'' then
        if \<not> authorized env r s then (s, unauthorized)
        else case body of
          Inl err \<Rightarrow> (s, 400, ErrorBody err)
        | Inr check \<Rightarrow>
            let (check, hb) = check_applyDefaults (ce_token env) check (cs_heartbeats s);
                s = s\<lparr>cs_heartbeats := hb\<rparr>;
                check = with_ID check
            in case check_validate (ce_parse env) (cs_cfg s) check of
                 Some err \<Rightarrow> (s, 400, ErrorBody err)
               | None \<Rightarrow>
                   (case prepareCheckSecrets (ce_encrypt env) False False check None of
                      (_, Some err) \<Rightarrow> (s, 400, ErrorBody err)
                    | (check, None) \<Rightarrow>
                        (case ms_UpsertCheck (ce_driver env) (ce_now env) check (cs_store s) of
                           (st, Some err) \<Rightarrow> (s\<lparr>cs_store := st\<rparr>, 500, ErrorBody err)
                         | (st, None) \<Rightarrow>
                             (audited env r ''check.created'' (chk_ID check)
                                (s\<lparr>cs_store := st, cs_scheduler := UpsertSchedule check (cs_scheduler s)\<rparr>),
                              201, OneCheck (sanitizeCheckForResponse check))))
      else (s, 405, NoBody))"

subsection \<open>Updating\<close>

text \<open>
  The part of an update behind the authorization. \<open>existing\<close> is the copy from the snapshot; after decoding,
  every way out leaves the cached check written to.
\<close>

definition update_check ::
  "('w, 'j) CheckEnv \<Rightarrow> Request \<Rightarrow> string \<Rightarrow> string + string \<Rightarrow> CheckConfig \<Rightarrow> 'w CheckService \<Rightarrow>
     'w CheckService \<times> int \<times> check_body" where
  "update_check env r i body existing s =
     (case decodeCheckUpdate (ce_json env) body existing of
        (decoded, Some err) \<Rightarrow> (s\<lparr>cs_store := cache_write i decoded decoded (cs_store s)\<rparr>, 400, ErrorBody err)
      | (decoded, None) \<Rightarrow>
          let (check, hb) = check_applyDefaults (ce_token env) (decoded\<lparr>chk_ID := i\<rparr>) (cs_heartbeats s);
              s = s\<lparr>cs_heartbeats := hb\<rparr>
          in case check_validate (ce_parse env) (cs_cfg s) check of
               Some err \<Rightarrow> (s\<lparr>cs_store := cache_write i decoded check (cs_store s)\<rparr>, 400, ErrorBody err)
             | None \<Rightarrow>
                 (case prepareCheckSecrets (ce_encrypt env)
                         (chk_MySQL existing \<noteq> None \<and> chk_MySQL decoded \<noteq> None)
                         (chk_SSH existing \<noteq> None \<and> chk_SSH decoded \<noteq> None) check (Some existing) of
                    (check, Some err) \<Rightarrow> (s\<lparr>cs_store := cache_write i decoded check (cs_store s)\<rparr>, 400, ErrorBody err)
                  | (check, None) \<Rightarrow>
                      (case ms_UpsertCheck (ce_driver env) (ce_now env) check (cache_write i decoded check (cs_store s)) of
                         (st, Some err) \<Rightarrow> (s\<lparr>cs_store := st\<rparr>, 500, ErrorBody err)
                       | (st, None) \<Rightarrow>
                           (audited env r ''check.updated'' i
                              (s\<lparr>cs_store := st, cs_scheduler := UpsertSchedule check (cs_scheduler s)\<rparr>),
                            200, OneCheck (sanitizeCheckForResponse check)))))"

text \<open>
  \<open>handleCheckByID\<close>. Reading a check is \<open>handleGetCheck\<close>, of whose answer the configuration is modelled
  here.
\<close>

definition handleCheckByID ::
  "('w, 'j) CheckEnv \<Rightarrow> Request \<Rightarrow> string + string \<Rightarrow> 'w CheckService \<Rightarrow> 'w CheckService \<times> int \<times> check_body" where
  "handleCheckByID env r body s =
     (let i = (if has_prefix (rq_Path r) ''/api/v1/checks/'' then drop 15 (rq_Path r) else rq_Path r);
          snapshot = ms_Snapshot (cs_store s)
      in if i = [] then (s, 400, ErrorBody ''missing check id'')
         else if rq_Method r = ''GET'' then
           (case lookup_check i snapshot of
              None \<Rightarrow> (s, 404, ErrorBody ''check not found'')
            | Some c \<Rightarrow> (s, 200, OneCheck (sanitizeCheckForResponse c)))
         else if rq_Method r = ''PUT'' \<or> rq_Method r = ''PATCH'' then
           if \<not> authorized env r s then (s, unauthorized)
           else case lookup_check i snapshot of
                  None \<Rightarrow> (s, 404, ErrorBody ''check not found'')
                | Some existing \<Rightarrow> update_check env r i body existing s
         else if rq_Method r = ''DELETE'' then
           if \<not> authorized env r s then (s, unauthorized)
           else if lookup_check i snapshot = None then (s, 404, ErrorBody ''check not found'')
           else case ms_DeleteCheck (ce_driver env) (ce_now env) i (cs_store s) of
                  (st, Some err) \<Rightarrow> (s\<lparr>cs_store := st\<rparr>, 500, ErrorBody err)
                | (st, None) \<Rightarrow>
                    (audited env r ''check.deleted'' i
                       (s\<lparr>cs_store := st, cs_scheduler := RemoveSchedule i (cs_scheduler s)\<rparr>), 204, NoBody)
         else (s, 405, NoBody))"

section \<open>Lemmas\<close>

lemma write_through_ID [simp]: "chk_ID (write_through decoded final live) = chk_ID live"
  by (simp add: write_through_def)

lemma lookup_cache_write:
  "lookup_check j (ms_cache (cache_write i decoded final s)) =
     (if j = i then map_option (write_through decoded final) (lookup_check i (ms_cache s)) else lookup_check j (ms_cache s))"
proof -
  have "find (\<lambda>c. chk_ID c = j) (replace_first (\<lambda>c. chk_ID c = i) f cs) =
      (if j = i then map_option f (find (\<lambda>c. chk_ID c = i) cs) else find (\<lambda>c. chk_ID c = j) cs)"
    if "\<And>c. chk_ID (f c) = chk_ID c" for f and cs :: "CheckConfig list"
    by (induction cs) (auto simp: that)
  from this [of "write_through decoded final" "st_Checks (ms_cache s)"]
  show ?thesis by (simp add: lookup_check_def cache_write_def)
qed

lemma cache_write_db [simp]: "ms_db (cache_write i decoded final s) = ms_db s"
  by (simp add: cache_write_def)

lemma upsert_result:
  assumes "ms_UpsertCheck dr now c s = (s', None)"
  shows "lookup_check j (ms_cache s') = (if j = chk_ID c then Some c else lookup_check j (ms_cache s))"
  using assms lookup_cache_upsert(1) [of j now c "ms_cache s"]
  by (auto simp: ms_UpsertCheck_def Let_def split: prod.splits option.splits)

lemma upsert_docs:
  assumes "driver_ok dr docs" and "ms_UpsertCheck dr now c s = (s', None)"
  shows "docs (ms_db s') = (docs (ms_db s))(chk_ID c \<mapsto> bson_check c)"
proof -
  obtain w where "md_replace_check dr (chk_ID c) c (ms_db s) = (w, None)"
    "s' = s\<lparr>ms_cache := cache_upsert now c (ms_cache s), ms_db := fst (writeStateMeta dr (cache_upsert now c (ms_cache s)) w)\<rparr>"
    using assms(2) by (auto simp: ms_UpsertCheck_def Let_def split: prod.splits option.splits)
  then show ?thesis
    using driver_okD(1,5) [OF assms(1)] by (simp add: writeStateMeta_def)
qed

lemma defaults_keep_ID: "chk_ID (fst (check_applyDefaults tok c hb)) = chk_ID c"
  by (simp add: check_applyDefaults_def plugin_ApplyDefaults_def common_defaults_def mysql_ApplyDefaults_def
      ssh_ApplyDefaults_def ssl_ApplyDefaults_def dns_ApplyDefaults_def ping_ApplyDefaults_def
      domain_ApplyDefaults_def hb_ApplyDefaults_def Let_def split: option.split)

lemma schedule_sets_timer:
  "sch_running s \<Longrightarrow> check_is_enabled c \<Longrightarrow> sch_timers (UpsertSchedule c s) (chk_ID c) \<noteq> None"
  by (simp add: UpsertSchedule_def scheduleCheck_def Let_def)

text \<open>The steps of an update that is accepted.\<close>

lemma update_accepted:
  assumes "update_check env r i body existing s = (s', 200, response)"
  obtains decoded check final st where
    "decodeCheckUpdate (ce_json env) body existing = (decoded, None)"
    "check = fst (check_applyDefaults (ce_token env) (decoded\<lparr>chk_ID := i\<rparr>) (cs_heartbeats s))"
    "check_validate (ce_parse env) (cs_cfg s) check = None"
    "prepareCheckSecrets (ce_encrypt env) (chk_MySQL existing \<noteq> None \<and> chk_MySQL decoded \<noteq> None)
       (chk_SSH existing \<noteq> None \<and> chk_SSH decoded \<noteq> None) check (Some existing) = (final, None)"
    "ms_UpsertCheck (ce_driver env) (ce_now env) final (cache_write i decoded final (cs_store s)) = (st, None)"
    "cs_store s' = st" "cs_scheduler s' = UpsertSchedule final (cs_scheduler s)"
    "cs_audit s' = map_option (\<lambda>log. log @ [(''check.updated'', ExtractActorFromRequest (cs_cfg s) (ce_xuser env) r, i)]) (cs_audit s)"
    "response = OneCheck (sanitizeCheckForResponse final)"
  using assms
  by (auto simp: update_check_def audited_def Let_def split: prod.splits option.splits)

lemma update_final_ID:
  assumes "check = fst (check_applyDefaults tok (decoded\<lparr>chk_ID := i\<rparr>) hb)"
    and "prepareCheckSecrets enc a b check x = (final, err)"
  shows "chk_ID final = i"
  using prepareCheck_keeps(1) [OF assms(2)] by (simp add: assms(1) defaults_keep_ID)

lemma update_of_request:
  assumes "rq_Method r = ''PUT''" and "rq_Path r = ''/api/v1/checks/'' @ i" and "i \<noteq> []"
    and "authorized env r s" and "lookup_check i (ms_cache (cs_store s)) = Some existing"
  shows "handleCheckByID env r body s = update_check env r i body existing s"
  using assms by (simp add: handleCheckByID_def ms_Snapshot_def Let_def)

section \<open>Properties\<close>


text \<open>
  C9: An update that validation refuses is answered with 400 and does not reach the database or the
  scheduler, but it has changed the cached check: whichever of its pointers the update decoded into now
  shows the refused values. For a MySQL check the next run connects with them, although the stored
  document still has the old ones.
\<close>

theorem refused_update_takes_effect:
  assumes "rq_Method r = ''PUT''" and "rq_Path r = ''/api/v1/checks/'' @ i" and "i \<noteq> []"
    and "authorized env r s" and "lookup_check i (ms_cache (cs_store s)) = Some existing"
    and "decodeCheckUpdate (ce_json env) body existing = (decoded, None)"
    and "check = fst (check_applyDefaults (ce_token env) (decoded\<lparr>chk_ID := i\<rparr>) (cs_heartbeats s))"
    and "check_validate (ce_parse env) (cs_cfg s) check = Some err"
    and "handleCheckByID env r body s = (s', code, response)"
  shows "code = 400 \<and> response = ErrorBody err \<and> ms_db (cs_store s') = ms_db (cs_store s) \<and>
    cs_scheduler s' = cs_scheduler s \<and> cs_audit s' = cs_audit s \<and>
    lookup_check i (ms_cache (cs_store s')) = Some (write_through decoded check existing) \<and>
    (\<forall>old new. chk_MySQL existing = Some old \<and> chk_MySQL check = Some new \<and> chk_MySQL decoded \<noteq> None \<longrightarrow>
      (\<exists>live. lookup_check i (ms_cache (cs_store s')) = Some live \<and> chk_MySQL live = Some new \<and>
        chk_RetryCount live = chk_RetryCount existing))"
proof -
  have out: "handleCheckByID env r body s =
      (s\<lparr>cs_heartbeats := snd (check_applyDefaults (ce_token env) (decoded\<lparr>chk_ID := i\<rparr>) (cs_heartbeats s)),
         cs_store := cache_write i decoded check (cs_store s)\<rparr>, 400, ErrorBody err)"
    unfolding update_of_request [OF assms(1-5)] update_check_def assms(6)
    using assms(7,8) by (simp add: split_beta Let_def)
  have live: "lookup_check i (ms_cache (cache_write i decoded check (cs_store s))) = Some (write_through decoded check existing)"
    by (simp add: lookup_cache_write assms(5))
  have blocks: "chk_MySQL (write_through decoded check existing) = shared (chk_MySQL existing) (chk_MySQL decoded) (chk_MySQL check)"
    "chk_RetryCount (write_through decoded check existing) = chk_RetryCount existing"
    by (simp_all add: write_through_def)
  from out assms(9) have "s' = s\<lparr>cs_heartbeats := snd (check_applyDefaults (ce_token env) (decoded\<lparr>chk_ID := i\<rparr>) (cs_heartbeats s)),
         cs_store := cache_write i decoded check (cs_store s)\<rparr>" "code = 400" "response = ErrorBody err" by simp_all
  then show ?thesis using live by (simp add: blocks shared_def)
qed

text \<open>
  A created check is stored under its ID, or the one made from its name, with encrypted passwords. If a
  check of that ID exists, it is silently replaced: the request succeeds with 201, and no check is added.
\<close>

theorem created_check_may_replace:
  assumes "rq_Method r = ''POST''" and "handleChecks env r (Inr sent) s = (s', 201, response)"
  shows "\<exists>c. chk_ID c = chk_ID (with_ID (fst (check_applyDefaults (ce_token env) sent (cs_heartbeats s)))) \<and>
    lookup_check (chk_ID c) (ms_cache (cs_store s')) = Some c \<and> no_plaintext c \<and>
    response = OneCheck (sanitizeCheckForResponse c) \<and>
    (\<forall>j. j \<noteq> chk_ID c \<longrightarrow> lookup_check j (ms_cache (cs_store s')) = lookup_check j (ms_cache (cs_store s))) \<and>
    length (st_Checks (ms_cache (cs_store s'))) =
      length (st_Checks (ms_cache (cs_store s))) + (if lookup_check (chk_ID c) (ms_cache (cs_store s)) = None then 1 else 0)"
proof -
  let ?check = "with_ID (fst (check_applyDefaults (ce_token env) sent (cs_heartbeats s)))"
  obtain c st where c: "prepareCheckSecrets (ce_encrypt env) False False ?check None = (c, None)"
    "ms_UpsertCheck (ce_driver env) (ce_now env) c (cs_store s) = (st, None)"
    "cs_store s' = st" "response = OneCheck (sanitizeCheckForResponse c)"
    using assms by (auto simp: handleChecks_def audited_def unauthorized_def Let_def split: prod.splits option.splits if_splits)
  have "length (st_Checks (ms_cache st)) =
      length (st_Checks (ms_cache (cs_store s))) + (if lookup_check (chk_ID c) (ms_cache (cs_store s)) = None then 1 else 0)"
    using c(2) by (auto simp: ms_UpsertCheck_def cache_upsert_def lookup_check_def Let_def split: prod.splits option.splits)
  then show ?thesis
    using upsert_result [OF c(2)] prepareCheck_plain [OF c(1)] prepareCheck_keeps(1) [OF c(1)] c(3,4)
    by (intro exI [of _ c]) simp
qed

text \<open>
  With authentication enabled, a request that carries a token is logged under the name in the header
  \<open>X-User\<close>, which the client chooses, or as \<open>unknown\<close>: the user in the token is never named. So it is
  for every update that is accepted.
\<close>

theorem token_users_are_not_named:
  assumes "auth_Enabled (cfg_Auth (cs_cfg s))" and "rq_Authorization r = ''Bearer '' @ token"
    and "update_check env r i body existing s = (s', 200, response)" and "cs_audit s = Some entries"
  shows "cs_audit s' = Some (entries @ [(''check.updated'', if ce_xuser env = [] then ''unknown'' else ce_xuser env, i)])"
proof -
  have "parseBasicAuth (rq_Authorization r) = None" by (simp add: parseBasicAuth_def assms(2))
  then have "ExtractActorFromRequest (cs_cfg s) (ce_xuser env) r = (if ce_xuser env = [] then ''unknown'' else ce_xuser env)"
    by (simp add: ExtractActorFromRequest_def assms(1))
  then have "cs_audit s' = map_option (\<lambda>log. log @ [(''check.updated'', if ce_xuser env = [] then ''unknown'' else ce_xuser env, i)]) (cs_audit s)"
    by - (rule update_accepted [OF assms(3)], simp)
  then show ?thesis by (simp add: assms(4))
qed

section \<open>Witnesses\<close>

text \<open>A body is one of two texts; a JSON value is a string and a number.\<close>

definition sample_json :: "(string \<times> int) JsonDec" where
  "sample_json = \<lparr>
     jd_fields = (\<lambda>body. if body = ''move'' then Inr [(''mysql'', (''db2'', 0))]
        else Inr [(''mysql'', (''evil'', 0)), (''retryCount'', ([], - 1))]),
     jd_string = (\<lambda>(s, n) v. (s, None)), jd_int = (\<lambda>(s, n) v. (n, None)),
     jd_flag = (\<lambda>j v. (v, None)), jd_strings = (\<lambda>j v. (v, None)), jd_map = (\<lambda>j v. (v, None)),
     jd_mysql = (\<lambda>(s, n) v. (map_option (\<lambda>m. m\<lparr>my_Host := s\<rparr>) v, None)),
     jd_ssh = (\<lambda>j v. (v, None)), jd_ssl = (\<lambda>j v. (v, None)), jd_dns = (\<lambda>j v. (v, None)),
     jd_ping = (\<lambda>j v. (v, None)), jd_domain = (\<lambda>j v. (v, None)), jd_heartbeat = (\<lambda>j v. (v, None))\<rparr>"

definition sample_env :: "(CheckConfig list, string \<times> int) CheckEnv" where
  "sample_env = \<lparr>ce_crypto = plain_crypto, ce_secret = [], ce_unix = 0, ce_now = 5, ce_xuser = [], ce_token = ''t'',
     ce_encrypt = (\<lambda>_. sample_encrypt), ce_parse = (\<lambda>_. None), ce_driver = list_driver, ce_json = sample_json\<rparr>"

definition sample_check :: CheckConfig where
  "sample_check = zero_check\<lparr>chk_ID := ''db'', chk_Name := ''db'', chk_Type := ''mysql'', chk_MySQL := Some sample_mysql\<rparr>"

definition sample_service :: "bool \<Rightarrow> (CheckConfig list) CheckService" where
  "sample_service auth = \<lparr>
     cs_cfg = example_config\<lparr>cfg_Auth := \<lparr>auth_Enabled = auth, auth_Username = [], auth_Password = []\<rparr>\<rparr>,
     cs_store = \<lparr>ms_cache = empty_state\<lparr>st_Checks := [sample_check]\<rparr>, ms_db = [bson_check sample_check]\<rparr>,
     cs_scheduler = started, cs_heartbeats = Map.empty, cs_audit = Some []\<rparr>"

definition sample_put :: Request where
  "sample_put = \<lparr>rq_Method = ''PUT'', rq_Path = ''/api/v1/checks/db'', rq_Authorization = ''Bearer x'', rq_Token = []\<rparr>"

definition put_outcome :: "string \<Rightarrow> (CheckConfig list) CheckService \<times> int \<times> check_body" where
  "put_outcome body = handleCheckByID sample_env sample_put (Inr body) (sample_service False)"

lemma sample_outcomes:
  "fst (snd (put_outcome ''move'')) = 200" "rq_Method sample_put = ''PUT''"
  "rq_Path sample_put = ''/api/v1/checks/'' @ ''db''" "rq_Authorization sample_put = ''Bearer '' @ ''x''"
  "authorized sample_env sample_put (sample_service False)"
  "lookup_check ''db'' (ms_cache (cs_store (sample_service False))) = Some sample_check"
  "snd (decodeCheckUpdate sample_json (Inr ''refuse'') sample_check) = None"
  by code_simp+


definition refused_check :: CheckConfig where
  "refused_check = fst (check_applyDefaults ''t'' ((fst (decodeCheckUpdate sample_json (Inr ''refuse'') sample_check))\<lparr>chk_ID := ''db''\<rparr>)
     Map.empty)"

lemma refused_facts:
  "check_validate (\<lambda>_. None) (cs_cfg (sample_service False)) refused_check \<noteq> None"
  "map_option my_Host (chk_MySQL refused_check) = Some ''evil''" "map_option my_Host (chk_MySQL sample_check) = Some ''db''"
  "chk_MySQL (fst (decodeCheckUpdate sample_json (Inr ''refuse'') sample_check)) \<noteq> None"
  by code_simp+

theorem refused_update_takes_effect_witness:
  "\<exists>live. lookup_check ''db'' (ms_cache (cs_store (fst (put_outcome ''refuse'')))) = Some live \<and>
     map_option my_Host (chk_MySQL live) = Some ''evil'' \<and> fst (snd (put_outcome ''refuse'')) = 400"
proof -
  obtain s' code response where x: "put_outcome ''refuse'' = (s', code, response)" by (cases "put_outcome ''refuse''")
  obtain decoded where d: "decodeCheckUpdate (ce_json sample_env) (Inr ''refuse'') sample_check = (decoded, None)"
    "fst (decodeCheckUpdate sample_json (Inr ''refuse'') sample_check) = decoded"
    using sample_outcomes(7) by (cases "decodeCheckUpdate sample_json (Inr ''refuse'') sample_check") (auto simp: sample_env_def)
  obtain err where e: "check_validate (ce_parse sample_env) (cs_cfg (sample_service False)) refused_check = Some err"
    using refused_facts(1) by (auto simp: sample_env_def)
  have check: "refused_check =
      fst (check_applyDefaults (ce_token sample_env) (decoded\<lparr>chk_ID := ''db''\<rparr>) (cs_heartbeats (sample_service False)))"
    by (simp add: refused_check_def d(2) sample_env_def sample_service_def)
  show ?thesis
    using refused_update_takes_effect [OF sample_outcomes(2,3) _ sample_outcomes(5,6) d(1) check e x [unfolded put_outcome_def]]
      refused_facts(2-4) x d(2) by (force simp: put_outcome_def)
qed

definition sample_post :: Request where
  "sample_post = sample_put\<lparr>rq_Method := ''POST''\<rparr>"

definition post_outcome :: "(CheckConfig list) CheckService \<times> int \<times> check_body" where
  "post_outcome = handleChecks sample_env sample_post (Inr (sample_check\<lparr>chk_ID := [], chk_Name := ''DB''\<rparr>)) (sample_service False)"

lemma post_facts: "fst (snd post_outcome) = 201" "rq_Method sample_post = ''POST''"
  "chk_ID (with_ID (fst (check_applyDefaults ''t'' (sample_check\<lparr>chk_ID := [], chk_Name := ''DB''\<rparr>) Map.empty))) = ''db''"
  by code_simp+

theorem created_check_may_replace_witness:
  "length (st_Checks (ms_cache (cs_store (fst post_outcome)))) = 1"
proof -
  obtain s' code response where x: "post_outcome = (s', code, response)" by (cases post_outcome)
  have "code = 201" using x post_facts(1) by (metis fst_conv snd_conv)
  then show ?thesis
    using created_check_may_replace [OF post_facts(2), of sample_env _ "sample_service False" s' response]
      x post_facts(3) sample_outcomes(6)
    by (fastforce simp: post_outcome_def sample_env_def sample_service_def)
qed

theorem token_users_are_not_named_witness:
  "cs_audit (fst (update_check sample_env sample_put ''db'' (Inr ''move'') sample_check (sample_service True))) =
     Some [(''check.updated'', ''unknown'', ''db'')]"
proof -
  obtain s' code response
    where x: "update_check sample_env sample_put ''db'' (Inr ''move'') sample_check (sample_service True) = (s', code, response)"
    by (cases "update_check sample_env sample_put ''db'' (Inr ''move'') sample_check (sample_service True)")
  moreover have "fst (snd (update_check sample_env sample_put ''db'' (Inr ''move'') sample_check (sample_service True))) = 200"
    by code_simp
  ultimately have "update_check sample_env sample_put ''db'' (Inr ''move'') sample_check (sample_service True) = (s', 200, response)"
    by simp
  from token_users_are_not_named [OF _ sample_outcomes(4) this, of "[]"] x
  show ?thesis by (simp add: sample_service_def sample_env_def)
qed
end
