(* ===== verification/PageText.thy ===== *)
theory PageText
  imports AlertRules Channels
begin

text \<open>
  The text of an incident on a public status page (\<open>publicStatusIncidentTitle\<close> of \<open>status_page_api.go\<close>): the
  message of the alert is taken apart again and the part that is meant for readers is put into plain
  words.
\<close>

section \<open>String functions\<close>

text \<open>\<open>strings.Cut\<close>, \<open>strings.LastIndex\<close>, \<open>strings.Trim\<close> with a set of characters, \<open>strings.ReplaceAll\<close>.\<close>

definition str_cut :: "string \<Rightarrow> string \<Rightarrow> (string \<times> string) option" where
  "str_cut s sep = map_option (\<lambda>i. (take i s, drop (i + length sep) s)) (str_index s sep)"

definition str_last_index :: "string \<Rightarrow> string \<Rightarrow> nat option" where
  "str_last_index s p = find (\<lambda>i. has_prefix (drop i s) p) (rev [0 ..< length s + 1])"

definition trim_set :: "char set \<Rightarrow> string \<Rightarrow> string" where
  "trim_set A s = rev (dropWhile (\<lambda>c. c \<in> A) (rev (dropWhile (\<lambda>c. c \<in> A) s)))"

function replace_all :: "string \<Rightarrow> string \<Rightarrow> string \<Rightarrow> string" where
  "replace_all old new s =
     (if s = [] \<or> old = [] then s
      else if has_prefix s old then new @ replace_all old new (drop (length old) s)
      else hd s # replace_all old new (tl s))"
  by auto
termination by (relation "measure (\<lambda>(_, _, s). length s)") (auto simp: neq_Nil_conv)

declare replace_all.simps [simp del]

section \<open>The title of an incident\<close>

definition parseAlertMessageParts :: "string \<Rightarrow> string \<rightharpoonup> string" where
  "parseAlertMessageParts message =
     foldl (\<lambda>parts part.
       case str_cut (trim_space part) '':'' of
         None \<Rightarrow> parts
       | Some (key, val) \<Rightarrow> parts(to_lower (trim_space key) \<mapsto> trim_space val))
     Map.empty (split_on (CHR ''|'') message)"

definition part_text :: "(string \<rightharpoonup> string) \<Rightarrow> string \<Rightarrow> string" where
  "part_text parts key = (case parts key of None \<Rightarrow> [] | Some v \<Rightarrow> v)"

definition statusPageInternalMessagePart :: "string \<Rightarrow> bool" where
  "statusPageInternalMessagePart part =
     (case str_cut part '':'' of
        None \<Rightarrow> False
      | Some (key, _) \<Rightarrow> to_lower (trim_space key) \<in> {''rule'', ''check'', ''status'', ''description''})"

definition extractBetween :: "string \<Rightarrow> string \<Rightarrow> string \<Rightarrow> string" where
  "extractBetween val prefix suffix =
     (case str_index val prefix of
        None \<Rightarrow> []
      | Some i \<Rightarrow>
          let start = i + length prefix
          in case str_index (drop start val) suffix of
               None \<Rightarrow> trim_space (drop start val)
             | Some e \<Rightarrow> trim_space (take e (drop start val)))"

definition get_prefix :: string where "get_prefix = ''Get '' @ [CHR 0x22]"
definition quote_colon :: string where "quote_colon = [CHR 0x22, CHR '':'']"

definition strip_request :: "string \<Rightarrow> string" where
  "strip_request detail =
     (if has_prefix detail get_prefix then
        (case str_cut detail quote_colon of None \<Rightarrow> detail | Some (_, rest) \<Rightarrow> trim_space rest)
      else detail)"

definition slow_response :: "string \<Rightarrow> string" where
  "slow_response detail =
     (if has_prefix (to_lower detail) ''slow api response:'' then
        ''slow API response ('' @
        trim_space (replace_all ''ms'' '' ms'' (trim_space (drop (length ''slow api response:'') detail))) @ '')''
      else detail)"

text \<open>Positions found in the lower-case copy are used in the original, as in the source.\<close>

definition humanizePublicIncidentDetail :: "string \<Rightarrow> string" where
  "humanizePublicIncidentDetail detail =
     (let detail = trim_space detail
      in if detail = [] then detail
         else
           let detail = strip_request detail;
               lower = to_lower detail
           in if str_contains lower ''dial tcp: lookup '' \<and> str_contains lower ''no such host'' then
                (let host = extractBetween detail ''lookup '' '' on ''
                 in if host \<noteq> [] then ''could not resolve '' @ host else ''could not resolve monitored endpoint'')
              else
                case str_last_index lower ''unexpected status code '' of
                  None \<Rightarrow> slow_response detail
                | Some i \<Rightarrow>
                    let code = trim_space (drop (i + length ''unexpected status code '') detail)
                    in if code \<noteq> [] then ''unexpected HTTP status '' @ code else slow_response detail)"

definition unlabelled :: "string \<Rightarrow> string" where
  "unlabelled message =
     join '' | '' (filter (\<lambda>part. part \<noteq> [] \<and> \<not> statusPageInternalMessagePart part)
       (map trim_space (split_on (CHR ''|'') (trim_space message))))"

definition cut_marker :: "string \<Rightarrow> string \<Rightarrow> string" where
  "cut_marker detail marker =
     (case str_index detail marker of None \<Rightarrow> detail | Some i \<Rightarrow> trim_space (take i detail))"

definition shortened :: "string \<Rightarrow> string" where
  "shortened detail = (if length detail > 180 then trim_space (take 177 detail) @ ''...'' else detail)"

definition incident_detail :: "Incident \<Rightarrow> string" where
  "incident_detail inc =
     (let parts = parseAlertMessageParts (inc_Message inc);
          detail = trim_space (part_text parts ''details'');
          detail = (if detail = [] \<and> equal_fold (part_text parts ''rule'') ''High Latency'' \<and> part_text parts ''duration'' \<noteq> []
                    then ''response time exceeded threshold ('' @ part_text parts ''duration'' @ '')'' else detail);
          detail = (if detail = [] then unlabelled (inc_Message inc) else detail);
          detail = foldl cut_marker detail ['' | Duration:'', '' | Description:''];
          detail = humanizePublicIncidentDetail (trim_set {CHR '' '', CHR ''|''} detail)
      in shortened detail)"

definition publicStatusIncidentTitle :: "Incident \<Rightarrow> string" where
  "publicStatusIncidentTitle inc =
     (let detail = incident_detail inc;
          checkName = trim_space (inc_CheckName inc);
          checkName = (if checkName = [] then trim_space (inc_CheckID inc) else checkName)
      in if detail = [] then checkName
         else if checkName = [] then detail
         else checkName @ '': '' @ detail)"

section \<open>Taking an alert message apart\<close>

definition rtrim :: "string \<Rightarrow> string" where
  "rtrim s = rev (dropWhile is_space (rev s))"

lemma trim_space_rtrim: "trim_space s = rtrim (dropWhile is_space s)"
  by (simp add: trim_space_def rtrim_def)

lemma rtrim_Nil [simp]: "rtrim [] = []"
  by (simp add: rtrim_def)

lemma rtrim_Cons [simp]: "rtrim (c # cs) = (if is_space c \<and> rtrim cs = [] then [] else c # rtrim cs)"
proof (cases "\<forall>x \<in> set cs. is_space x")
  case True
  then show ?thesis by (cases "is_space c") (simp_all add: rtrim_def dropWhile_append3)
next
  case False
  then obtain x where "x \<in> set (rev cs)" "\<not> is_space x" by auto
  moreover from this have "dropWhile is_space (rev cs) \<noteq> []" by (auto simp: dropWhile_eq_Nil_conv)
  ultimately show ?thesis by (simp add: rtrim_def dropWhile_append1)
qed

lemma rtrim_idem [simp]: "rtrim (rtrim s) = rtrim s"
  by (induction s) auto

lemma rtrim_append: "\<not> is_space c \<Longrightarrow> rtrim (k @ c # s) = k @ c # rtrim s"
  by (induction k) auto

lemma set_rtrim: "set (rtrim s) \<subseteq> set s"
  by (induction s) auto

lemma trim_rtrim [simp]: "trim_space (rtrim s) = trim_space s"
  unfolding trim_space_rtrim by (induction s) auto

lemma trim_space_space [simp]: "is_space c \<Longrightarrow> trim_space (c # s) = trim_space s"
  by (simp add: trim_space_rtrim)

lemma ltrim_idem: "dropWhile P (dropWhile P s) = dropWhile P s"
  by (induction s) auto

lemma trim_space_idem [simp]: "trim_space (trim_space s) = trim_space s"
proof -
  have "trim_space (rtrim (dropWhile is_space s)) = trim_space (dropWhile is_space s)" by simp
  then show ?thesis by (simp only: trim_space_rtrim ltrim_idem)
qed

lemma trim_space_trailing [simp]: "is_space c \<Longrightarrow> trim_space (s @ [c]) = trim_space s"
proof -
  assume "is_space c"
  then have "rtrim (s @ [c]) = rtrim s" by (simp add: rtrim_def)
  then show ?thesis by (metis trim_rtrim)
qed

lemma set_trim_space: "set (trim_space s) \<subseteq> set s"
proof
  fix x
  assume "x \<in> set (trim_space s)"
  then have "x \<in> set (dropWhile is_space s)" using set_rtrim unfolding trim_space_rtrim by fast
  then show "x \<in> set s" by (rule set_dropWhileD)
qed

lemma blank: "is_space (CHR '' '')" "\<not> is_space (CHR '':'')"
  by code_simp+

text \<open>The parts of a joined message, up to the blanks around the separators.\<close>

lemma split_on_plain: "d \<notin> set s \<Longrightarrow> split_on d s = [s]"
  by (induction s) auto

lemma split_on_append: "d \<notin> set s \<Longrightarrow> split_on d (s @ d # t) = s # split_on d t"
  by (induction s) auto

lemma split_on_not_Nil: "split_on d s \<noteq> []"
  by (cases s) (auto split: list.split)

lemma split_on_blank:
  "map trim_space (split_on (CHR ''|'') (CHR '' '' # s)) = map trim_space (split_on (CHR ''|'') s)"
  by (cases "split_on (CHR ''|'') s") (auto simp: blank split_on_not_Nil)

lemma split_join:
  "ps \<noteq> [] \<Longrightarrow> \<forall>p \<in> set ps. CHR ''|'' \<notin> set p \<Longrightarrow>
     map trim_space (split_on (CHR ''|'') (join '' | '' ps)) = map trim_space ps"
proof (induction "'' | ''" ps rule: join.induct)
  case (3 x y ys)
  have "join '' | '' (x # y # ys) = (x @ '' '') @ CHR ''|'' # CHR '' '' # join '' | '' (y # ys)" by simp
  moreover have "CHR ''|'' \<notin> set (x @ '' '')" using 3 by simp
  ultimately have "split_on (CHR ''|'') (join '' | '' (x # y # ys)) =
      (x @ '' '') # split_on (CHR ''|'') (CHR '' '' # join '' | '' (y # ys))"
    using split_on_append by metis
  with 3 show ?case by (simp only: list.map split_on_blank) (simp add: blank)
qed (simp_all add: split_on_plain)

definition labelled :: "(string \<times> string) list \<Rightarrow> string list" where
  "labelled kvs = map (\<lambda>(k, v). k @ '': '' @ v) kvs"

lemma char_index_first: "c \<notin> set k \<Longrightarrow> str_index (k @ c # s) [c] = Some (length k)"
  by (induction k) auto

lemma str_cut_first: "c \<notin> set k \<Longrightarrow> str_cut (k @ c # s) [c] = Some (k, s)"
  by (simp add: str_cut_def char_index_first)

lemma cut_labelled:
  assumes "k \<noteq> []" and "\<not> is_space (hd k)" and "CHR '':'' \<notin> set k"
  shows "\<exists>y. str_cut (trim_space (k @ '': '' @ v)) '':'' = Some (k, y) \<and> trim_space y = trim_space v"
proof -
  have "dropWhile is_space (k @ '': '' @ v) = k @ '': '' @ v" using assms by (cases k) auto
  then have "trim_space (k @ '': '' @ v) = k @ CHR '':'' # rtrim (CHR '' '' # v)"
    by (simp only: trim_space_rtrim append_Cons append_Nil rtrim_append blank not_False_eq_True)
  then have "str_cut (trim_space (k @ '': '' @ v)) '':'' = Some (k, rtrim (CHR '' '' # v))"
    by (simp only: str_cut_first [OF assms(3)])
  moreover have "trim_space (rtrim (CHR '' '' # v)) = trim_space v" by (simp only: trim_rtrim) (simp add: blank)
  ultimately show ?thesis by blast
qed

text \<open>Reading the labelled parts of a message back: the text of each part, without blanks around it.\<close>

definition label_ok :: "string \<Rightarrow> bool" where
  "label_ok k \<longleftrightarrow> k \<noteq> [] \<and> trim_space k = k \<and> CHR '':'' \<notin> set k \<and> CHR ''|'' \<notin> set k"

lemma label_okD: "label_ok k \<Longrightarrow> k \<noteq> [] \<and> \<not> is_space (hd k) \<and> trim_space k = k \<and> CHR '':'' \<notin> set k \<and> CHR ''|'' \<notin> set k"
proof -
  assume ok: "label_ok k"
  have "\<not> is_space (hd k)"
  proof
    assume sp: "is_space (hd k)"
    obtain c cs where k: "k = c # cs" using ok by (cases k) (auto simp: label_ok_def)
    with sp have "k = trim_space cs" using ok by (simp add: label_ok_def)
    moreover have "length (trim_space cs) \<le> length cs"
      unfolding trim_space_def using length_dropWhile_le by (metis length_rev le_trans)
    ultimately have "length k \<le> length cs" by metis
    then show False using k by simp
  qed
  then show ?thesis using ok by (simp add: label_ok_def)
qed

lemma parse_labelled:
  assumes "kvs \<noteq> []" and "\<forall>(k, v) \<in> set kvs. label_ok k \<and> CHR ''|'' \<notin> set v"
  shows "parseAlertMessageParts (join '' | '' (labelled kvs)) =
    foldl (\<lambda>m (k, v). m(to_lower k \<mapsto> trim_space v)) Map.empty kvs"
proof -
  let ?step = "\<lambda>parts t. case str_cut t '':'' of None \<Rightarrow> parts
       | Some (key, val) \<Rightarrow> parts(to_lower (trim_space key) \<mapsto> trim_space val)"
  have fold: "foldl (\<lambda>m p. ?step m (trim_space p)) m0 ps = foldl ?step m0 (map trim_space ps)" for m0 ps
    by (induction ps arbitrary: m0) simp_all
  have "\<forall>p \<in> set (labelled kvs). CHR ''|'' \<notin> set p"
    using assms(2) by (fastforce simp: labelled_def dest: label_okD)
  with assms(1) have "parseAlertMessageParts (join '' | '' (labelled kvs)) =
      foldl ?step Map.empty (map trim_space (labelled kvs))"
    by (simp add: parseAlertMessageParts_def fold split_join labelled_def)
  moreover have "foldl ?step m0 (map trim_space (labelled kvs)) =
      foldl (\<lambda>m (k, v). m(to_lower k \<mapsto> trim_space v)) m0 kvs" for m0
    using assms(2)
  proof (induction kvs arbitrary: m0)
    case (Cons kv kvs)
    obtain k v where kv: "kv = (k, v)" by fastforce
    with Cons.prems have k: "label_ok k" by simp
    obtain y where "str_cut (trim_space (k @ '': '' @ v)) '':'' = Some (k, y)" "trim_space y = trim_space v"
      using cut_labelled [of k v] label_okD [OF k] by blast
    then have "?step m0 (trim_space (k @ '': '' @ v)) = m0(to_lower k \<mapsto> trim_space v)"
      using label_okD [OF k] by simp
    with Cons kv show ?case by (simp add: labelled_def del: append_Cons fun_upd_apply)
  qed (simp add: labelled_def)
  ultimately show ?thesis by simp
qed

text \<open>The parts that \<open>buildAlertMessage\<close> writes.\<close>

definition alert_parts :: "AlertRule \<Rightarrow> CheckResult \<Rightarrow> (string \<times> string) list" where
  "alert_parts rule result =
     [(''Rule'', rule_Name rule), (''Check'', res_Name result), (''Status'', res_Status result)] @
     (if res_Message result \<noteq> [] then [(''Details'', res_Message result)] else []) @
     (if res_DurationMs result > 0 then [(''Duration'', itoa (res_DurationMs result) @ ''ms'')] else []) @
     (if rule_Description rule \<noteq> [] then [(''Description'', rule_Description rule)] else [])"

lemma buildAlertMessage_parts: "buildAlertMessage rule result = join '' | '' (labelled (alert_parts rule result))"
  by (simp add: buildAlertMessage_def alert_parts_def labelled_def Let_def del: join.simps)

lemma nat_digits_digit: "c \<in> set (nat_digits n) \<Longrightarrow> 48 \<le> (of_char c :: nat) \<and> (of_char c :: nat) < 58"
proof (induction n rule: nat_digits.induct)
  case (1 n)
  show ?case
  proof (cases "n < 10")
    case True
    with "1.prems" show ?thesis by (subst (asm) nat_digits.simps) (simp add: of_char_digit)
  next
    case False
    then have "c \<in> set (nat_digits (n div 10)) \<or> c = digit_char (n mod 10)"
      using "1.prems" by (subst (asm) nat_digits.simps) auto
    then show ?thesis using "1.IH" [OF False] by (auto simp: of_char_digit)
  qed
qed

lemma parse_alert_message:
  assumes "\<forall>t \<in> {rule_Name rule, res_Name r, res_Status r, res_Message r, rule_Description rule}. CHR ''|'' \<notin> set t"
  shows "parseAlertMessageParts (buildAlertMessage rule r) =
    foldl (\<lambda>m (k, v). m(to_lower k \<mapsto> trim_space v)) Map.empty (alert_parts rule r)"
proof -
  have labels: "label_ok ''Rule''" "label_ok ''Check''" "label_ok ''Status''" "label_ok ''Details''" "label_ok ''Duration''"
    "label_ok ''Description''" by code_simp+
  have "CHR ''|'' \<notin> set (itoa i @ ''ms'')" for i
    using nat_digits_digit [of "CHR ''|''"] by (auto simp: itoa_def)
  then have "\<forall>(k, v) \<in> set (alert_parts rule r). label_ok k \<and> CHR ''|'' \<notin> set v"
    using assms labels by (auto simp: alert_parts_def)
  then show ?thesis unfolding buildAlertMessage_parts by (intro parse_labelled) (simp_all add: alert_parts_def)
qed

lemma labels_lower:
  "to_lower ''Rule'' = ''rule''" "to_lower ''Check'' = ''check''" "to_lower ''Status'' = ''status''"
  "to_lower ''Details'' = ''details''" "to_lower ''Duration'' = ''duration''" "to_lower ''Description'' = ''description''"
  by code_simp+

lemma no_marker: "CHR ''|'' \<notin> set s \<Longrightarrow> CHR ''|'' \<in> set m \<Longrightarrow> cut_marker s m = s"
proof -
  assume s: "CHR ''|'' \<notin> set s" and m: "CHR ''|'' \<in> set m"
  have "\<not> str_contains s m" using s m by (auto simp: str_contains_iff)
  then show ?thesis by (simp add: cut_marker_def str_contains_def)
qed

lemma trim_fix:
  assumes "trim_space s = s"
  shows "dropWhile is_space s = s" and "dropWhile is_space (rev s) = rev s"
proof -
  let ?l = "dropWhile is_space s"
  have "length s = length (dropWhile is_space (rev ?l))" using assms by (metis length_rev trim_space_def)
  then have "length s \<le> length ?l" using length_dropWhile_le [of is_space "rev ?l"] by simp
  moreover have "length (takeWhile is_space s) + length ?l = length s" by (metis length_append takeWhile_dropWhile_id)
  ultimately have "length (takeWhile is_space s) = 0" by linarith
  then have "takeWhile is_space s = []" by (simp only: length_0_conv)
  then show l: "?l = s" by (metis append_Nil takeWhile_dropWhile_id)
  from assms have "rev (dropWhile is_space (rev ?l)) = s" by (simp add: trim_space_def)
  then show "dropWhile is_space (rev s) = rev s" by (metis l rev_rev_ident)
qed

lemma trim_set_plain:
  assumes "CHR ''|'' \<notin> set s" and "trim_space s = s"
  shows "trim_set {CHR '' '', CHR ''|''} s = s"
proof -
  have *: "dropWhile (\<lambda>c. c \<in> {CHR '' '', CHR ''|''}) xs = xs"
    if "dropWhile is_space xs = xs" "CHR ''|'' \<notin> set xs" for xs
  proof -
    have "xs = [] \<or> \<not> is_space (hd xs)" using that(1) by (simp only: dropWhile_eq_self_iff)
    with that(2) have "xs = [] \<or> hd xs \<notin> {CHR '' '', CHR ''|''}" using blank(1) by (cases xs) auto
    then show ?thesis by (simp only: dropWhile_eq_self_iff)
  qed
  have "dropWhile (\<lambda>c. c \<in> {CHR '' '', CHR ''|''}) s = s" using trim_fix [OF assms(2)] assms(1) by (intro *) auto
  moreover have "dropWhile (\<lambda>c. c \<in> {CHR '' '', CHR ''|''}) (rev s) = rev s"
    using trim_fix [OF assms(2)] assms(1) by (intro *) auto
  ultimately show ?thesis unfolding trim_set_def by simp
qed

lemma title_of_details:
  assumes "parseAlertMessageParts (inc_Message inc) ''details'' = Some d" and "trim_space d = d" and "d \<noteq> []"
    and "CHR ''|'' \<notin> set d"
  shows "incident_detail inc = shortened (humanizePublicIncidentDetail d)"
proof -
  have bars: "CHR ''|'' \<in> set '' | Duration:''" "CHR ''|'' \<in> set '' | Description:''" by simp_all
  have "foldl cut_marker d ['' | Duration:'', '' | Description:''] = d"
    using no_marker [OF assms(4) bars(1)] no_marker [OF assms(4) bars(2)] by (simp only: foldl.simps)
  then show ?thesis
    using assms trim_set_plain [OF assms(4,2)]
    by (simp only: incident_detail_def part_text_def Let_def option.case) simp
qed

text \<open>
  C24: Alert messages can be read back: when none of the rule name, the check name, the status, the details
  and the description has a bar in it, the status page finds exactly the labelled parts that the alert
  engine wrote, up to surrounding blanks. So if moreover the details and the name of the check are not
  blank, the public title of the incident shows that name and those details in plain words, and neither the
  rule nor its description.
\<close>

theorem alert_message_round_trip:
  assumes "\<forall>t \<in> {rule_Name rule, res_Name r, res_Status r, res_Message r, rule_Description rule}. CHR ''|'' \<notin> set t"
  shows "parseAlertMessageParts (buildAlertMessage rule r) =
      [''rule'' \<mapsto> trim_space (rule_Name rule), ''check'' \<mapsto> trim_space (res_Name r), ''status'' \<mapsto> trim_space (res_Status r)] ++
      (if res_Message r \<noteq> [] then [''details'' \<mapsto> trim_space (res_Message r)] else Map.empty) ++
      (if res_DurationMs r > 0 then [''duration'' \<mapsto> trim_space (itoa (res_DurationMs r) @ ''ms'')] else Map.empty) ++
      (if rule_Description rule \<noteq> [] then [''description'' \<mapsto> trim_space (rule_Description rule)] else Map.empty) \<and>
    (inc_Message inc = buildAlertMessage rule r \<and> trim_space (res_Message r) \<noteq> [] \<and> trim_space (inc_CheckName inc) \<noteq> [] \<longrightarrow>
      publicStatusIncidentTitle inc =
        (let detail = shortened (humanizePublicIncidentDetail (trim_space (res_Message r)))
         in if detail = [] then trim_space (inc_CheckName inc) else trim_space (inc_CheckName inc) @ '': '' @ detail))"
proof
  show parts: "parseAlertMessageParts (buildAlertMessage rule r) =
      [''rule'' \<mapsto> trim_space (rule_Name rule), ''check'' \<mapsto> trim_space (res_Name r), ''status'' \<mapsto> trim_space (res_Status r)] ++
      (if res_Message r \<noteq> [] then [''details'' \<mapsto> trim_space (res_Message r)] else Map.empty) ++
      (if res_DurationMs r > 0 then [''duration'' \<mapsto> trim_space (itoa (res_DurationMs r) @ ''ms'')] else Map.empty) ++
      (if rule_Description rule \<noteq> [] then [''description'' \<mapsto> trim_space (rule_Description rule)] else Map.empty)"
    unfolding parse_alert_message [OF assms] by (simp add: alert_parts_def labels_lower del: fun_upd_apply)
  show "inc_Message inc = buildAlertMessage rule r \<and> trim_space (res_Message r) \<noteq> [] \<and> trim_space (inc_CheckName inc) \<noteq> [] \<longrightarrow>
      publicStatusIncidentTitle inc =
        (let detail = shortened (humanizePublicIncidentDetail (trim_space (res_Message r)))
         in if detail = [] then trim_space (inc_CheckName inc) else trim_space (inc_CheckName inc) @ '': '' @ detail)"
  proof (intro impI, elim conjE)
    assume msg: "inc_Message inc = buildAlertMessage rule r" and m: "trim_space (res_Message r) \<noteq> []"
      and nm: "trim_space (inc_CheckName inc) \<noteq> []"
    have "res_Message r \<noteq> []" using m by (auto simp: trim_space_def)
    then have "parseAlertMessageParts (inc_Message inc) ''details'' = Some (trim_space (res_Message r))"
      unfolding msg parts by simp
    moreover have "CHR ''|'' \<notin> set (trim_space (res_Message r))" using assms set_trim_space by auto
    ultimately have "incident_detail inc = shortened (humanizePublicIncidentDetail (trim_space (res_Message r)))"
      using m by (intro title_of_details) simp_all
    with nm show "publicStatusIncidentTitle inc =
        (let detail = shortened (humanizePublicIncidentDetail (trim_space (res_Message r)))
         in if detail = [] then trim_space (inc_CheckName inc) else trim_space (inc_CheckName inc) @ '': '' @ detail)"
      by (simp add: publicStatusIncidentTitle_def Let_def)
  qed
qed

definition failed_probe :: CheckResult where
  "failed_probe = zero_result\<lparr>res_Name := ''API'', res_Status := ''critical'', res_Message := ''unexpected status code 503 ''\<rparr>"

definition probe_rule :: AlertRule where
  "probe_rule = \<lparr>rule_ID = ''r1'', rule_Name = ''Internal rule'', rule_Enabled = True, rule_CheckIDs = [],
     rule_Conditions = [], rule_Severity = ''critical'', rule_Channels = [], rule_CooldownMinutes = 0,
     rule_Description = ''page the team'', rule_ConsecutiveBreaches = 0, rule_RecoverySamples = 0,
     rule_ThresholdNum = 0, rule_RuleCode = []\<rparr>"

definition probe_incident :: Incident where
  "probe_incident = zero_incident\<lparr>inc_CheckName := ''API'', inc_Message := buildAlertMessage probe_rule failed_probe\<rparr>"

theorem alert_message_round_trip_witness:
  "parseAlertMessageParts (buildAlertMessage probe_rule failed_probe) ''description'' = Some ''page the team'' \<and>
   publicStatusIncidentTitle probe_incident = ''API: unexpected HTTP status 503''"
proof -
  have bars: "\<forall>t \<in> {rule_Name probe_rule, res_Name failed_probe, res_Status failed_probe, res_Message failed_probe,
      rule_Description probe_rule}. CHR ''|'' \<notin> set t"
    by (simp add: probe_rule_def failed_probe_def zero_result_def)
  have facts: "trim_space (res_Message failed_probe) = ''unexpected status code 503''"
    "trim_space (inc_CheckName probe_incident) = ''API''" "trim_space (rule_Description probe_rule) = ''page the team''"
    "shortened (humanizePublicIncidentDetail ''unexpected status code 503'') = ''unexpected HTTP status 503''"
    "rule_Description probe_rule \<noteq> []"
    by code_simp+
  have "inc_Message probe_incident = buildAlertMessage probe_rule failed_probe" by (simp add: probe_incident_def)
  then show ?thesis
    using alert_message_round_trip [OF bars, of probe_incident] by (simp add: facts)
qed

end
