(* ===== verification/StatusPages.thy ===== *)
theory StatusPages
  imports Latest Maintenance Incidents PageText
begin

text \<open>
  Public status pages: \<open>status_page.go\<close> and the handlers of \<open>status_page_api.go\<close>. A page maps checks to
  components and shows their state, the recent incidents and the uptime per day. Pages are kept in memory
  and written to one file as a whole; whether the write succeeds, fails or leaves the file damaged
  (\<open>os.WriteFile\<close> truncates it first) is an argument.
\<close>

section \<open>Data\<close>

abbreviation ComponentOperational :: string where "ComponentOperational \<equiv> ''operational''"
abbreviation ComponentDegraded :: string where "ComponentDegraded \<equiv> ''degraded_performance''"
abbreviation ComponentPartialOutage :: string where "ComponentPartialOutage \<equiv> ''partial_outage''"
abbreviation ComponentMajorOutage :: string where "ComponentMajorOutage \<equiv> ''major_outage''"
abbreviation ComponentUnderMaintenance :: string where "ComponentUnderMaintenance \<equiv> ''under_maintenance''"

record StatusPageComponent =
  cmp_ID :: string
  cmp_Name :: string
  cmp_Description :: string
  cmp_CheckIDs :: "string list"
  cmp_Tags :: "string list"
  cmp_Servers :: "string list"
  cmp_Order :: int
  cmp_Group :: string

record StatusPageConfig =
  pg_ID :: string
  pg_Name :: string
  pg_Slug :: string
  pg_Description :: string
  pg_LogoURL :: string
  pg_FaviconURL :: string
  pg_CustomDomain :: string
  pg_IsPublic :: bool
  pg_ShowIncidents :: bool
  pg_ShowUptime :: bool
  pg_UptimeDays :: int
  pg_Components :: "StatusPageComponent list"
  pg_AnnouncementMsg :: string
  pg_CreatedAt :: gotime
  pg_UpdatedAt :: gotime

record StatusPageComponentState =
  cst_ID :: string
  cst_Name :: string
  cst_Description :: string
  cst_Group :: string
  cst_Status :: string
  cst_Uptime :: f64
  cst_Latency :: int
  cst_LastChecked :: string

text \<open>An entry of the incident list, without the affected components and updates, which the code never sets.\<close>

record StatusPageIncident =
  spi_ID :: string
  spi_Title :: string
  spi_Status :: string
  spi_Severity :: string
  spi_CreatedAt :: gotime
  spi_ResolvedAt :: "gotime option"

record OverallStatus =
  os_Indicator :: string
  os_Description :: string

record StatusPageMeta =
  meta_Name :: string
  meta_Description :: string
  meta_LogoURL :: string
  meta_Announcement :: string

record StatusPageResponse =
  resp_Page :: StatusPageMeta
  resp_Status :: OverallStatus
  resp_Components :: "StatusPageComponentState list"
  resp_Incidents :: "StatusPageIncident list"
  resp_UptimeData :: "(string \<times> f64) list"

section \<open>The store of pages\<close>

datatype page_file = Missing | Saved "StatusPageConfig list" | Damaged string

datatype write_end = Written | Not_opened string | Torn string

record StatusPageStore =
  sps_pages :: "(string \<times> StatusPageConfig) list"
  sps_nextID :: int
  sps_file :: page_file

definition sp_load :: "StatusPageConfig list \<Rightarrow> StatusPageStore \<Rightarrow> StatusPageStore" where
  "sp_load pages s = foldl (\<lambda>s p. s\<lparr>sps_pages := AList.update (pg_ID p) p (sps_pages s),
     sps_nextID := sps_nextID s + 1\<rparr>) s pages"

definition NewStatusPageStore :: "page_file \<Rightarrow> string + StatusPageStore" where
  "NewStatusPageStore file =
     (let s = \<lparr>sps_pages = [], sps_nextID = 1, sps_file = file\<rparr>
      in case file of
           Missing \<Rightarrow> Inr s
         | Damaged err \<Rightarrow> Inl (''load status pages: '' @ err)
         | Saved pages \<Rightarrow> Inr (sp_load pages s))"

type_synonym page_order = "(string \<times> StatusPageConfig) list \<Rightarrow> (string \<times> StatusPageConfig) list"

definition sp_List :: "page_order \<Rightarrow> StatusPageStore \<Rightarrow> StatusPageConfig list" where
  "sp_List ord s = map snd (ranged ord (sps_pages s))"

definition sp_save :: "page_order \<Rightarrow> write_end \<Rightarrow> StatusPageStore \<Rightarrow> StatusPageStore \<times> string option" where
  "sp_save ord w s =
     (case w of
        Written \<Rightarrow> (s\<lparr>sps_file := Saved (sp_List ord s)\<rparr>, None)
      | Not_opened err \<Rightarrow> (s, Some err)
      | Torn err \<Rightarrow> (s\<lparr>sps_file := Damaged ''unexpected end of JSON input''\<rparr>, Some err))"

definition slug_taken :: "string \<Rightarrow> string" where
  "slug_taken slug = ''slug \"'' @ slug @ ''\" already in use''"

definition page_not_found :: "string \<Rightarrow> string" where
  "page_not_found i = ''status page \"'' @ i @ ''\" not found''"

definition assign_page_id :: "StatusPageConfig \<Rightarrow> StatusPageStore \<Rightarrow> StatusPageConfig \<times> StatusPageStore" where
  "assign_page_id cfg s =
     (if pg_ID cfg = [] then (cfg\<lparr>pg_ID := ''sp-'' @ itoa (sps_nextID s)\<rparr>, s\<lparr>sps_nextID := sps_nextID s + 1\<rparr>)
      else (cfg, s))"

definition stamped :: "gotime \<Rightarrow> StatusPageConfig \<Rightarrow> StatusPageConfig" where
  "stamped now cfg = cfg\<lparr>pg_CreatedAt := now, pg_UpdatedAt := now,
     pg_UptimeDays := (if pg_UptimeDays cfg = 0 then 90 else pg_UptimeDays cfg)\<rparr>"

definition sp_Create ::
  "page_order \<Rightarrow> write_end \<Rightarrow> gotime \<Rightarrow> StatusPageConfig \<Rightarrow> StatusPageStore \<Rightarrow> StatusPageStore \<times> (string + StatusPageConfig)" where
  "sp_Create ord w now cfg s =
     (if pg_Name cfg = [] then (s, Inl ''status page name is required'')
      else if pg_Slug cfg = [] then (s, Inl ''status page slug is required'')
      else if \<exists>(_, existing) \<in> set (sps_pages s). pg_Slug existing = pg_Slug cfg then (s, Inl (slug_taken (pg_Slug cfg)))
      else
        let (cfg, s) = assign_page_id cfg s;
            cfg = stamped now cfg;
            s = s\<lparr>sps_pages := AList.update (pg_ID cfg) cfg (sps_pages s)\<rparr>
        in case sp_save ord w s of
             (s, Some err) \<Rightarrow> (s\<lparr>sps_pages := AList.delete (pg_ID cfg) (sps_pages s)\<rparr>, Inl err)
           | (s, None) \<Rightarrow> (s, Inr cfg))"

definition sp_Get :: "string \<Rightarrow> StatusPageStore \<Rightarrow> string + StatusPageConfig" where
  "sp_Get i s = (case map_of (sps_pages s) i of None \<Rightarrow> Inl (page_not_found i) | Some p \<Rightarrow> Inr p)"

definition GetBySlug :: "page_order \<Rightarrow> string \<Rightarrow> StatusPageStore \<Rightarrow> string + StatusPageConfig" where
  "GetBySlug ord slug s =
     (case find (\<lambda>p. pg_Slug p = slug) (sp_List ord s) of
        None \<Rightarrow> Inl (''status page with slug \"'' @ slug @ ''\" not found'')
      | Some p \<Rightarrow> Inr p)"

text \<open>
  The updates write to the page that the map points to, so what they have changed stays changed when
  they then refuse or fail to save.
\<close>

definition put_page :: "string \<Rightarrow> StatusPageConfig \<Rightarrow> StatusPageStore \<Rightarrow> StatusPageStore" where
  "put_page i p s = s\<lparr>sps_pages := AList.update i p (sps_pages s)\<rparr>"

definition slug_used_by_other :: "string \<Rightarrow> string \<Rightarrow> StatusPageStore \<Rightarrow> bool" where
  "slug_used_by_other i slug s \<longleftrightarrow> (\<exists>(_, p) \<in> set (sps_pages s). pg_ID p \<noteq> i \<and> pg_Slug p = slug)"

definition save_page ::
  "page_order \<Rightarrow> write_end \<Rightarrow> string \<Rightarrow> StatusPageConfig \<Rightarrow> StatusPageStore \<Rightarrow> StatusPageStore \<times> (string + StatusPageConfig)" where
  "save_page ord w i p s =
     (case sp_save ord w (put_page i p s) of
        (s, Some err) \<Rightarrow> (s, Inl err)
      | (s, None) \<Rightarrow> (s, Inr p))"

definition sp_Update ::
  "page_order \<Rightarrow> write_end \<Rightarrow> gotime \<Rightarrow> string \<Rightarrow> StatusPageConfig \<Rightarrow> StatusPageStore \<Rightarrow>
     StatusPageStore \<times> (string + StatusPageConfig)" where
  "sp_Update ord w now i update s =
     (case map_of (sps_pages s) i of
        None \<Rightarrow> (s, Inl (page_not_found i))
      | Some existing \<Rightarrow>
          if pg_Slug update \<noteq> [] \<and> pg_Slug update \<noteq> pg_Slug existing \<and> slug_used_by_other i (pg_Slug update) s
          then (s, Inl (slug_taken (pg_Slug update)))
          else save_page ord w i
            (existing\<lparr>pg_Name := pg_Name update,
               pg_Slug := (if pg_Slug update \<noteq> [] then pg_Slug update else pg_Slug existing),
               pg_Description := pg_Description update, pg_LogoURL := pg_LogoURL update,
               pg_Components := pg_Components update,
               pg_UptimeDays := (if pg_UptimeDays update > 0 then pg_UptimeDays update else pg_UptimeDays existing),
               pg_IsPublic := pg_IsPublic update, pg_ShowIncidents := pg_ShowIncidents update,
               pg_ShowUptime := pg_ShowUptime update, pg_AnnouncementMsg := pg_AnnouncementMsg update,
               pg_UpdatedAt := now\<rparr>) s)"

record StatusPageConfigUpdate =
  up_Name :: "string option"
  up_Slug :: "string option"
  up_Description :: "string option"
  up_LogoURL :: "string option"
  up_Components :: "StatusPageComponent list option"
  up_UptimeDays :: "int option"
  up_IsPublic :: "bool option"
  up_ShowIncidents :: "bool option"
  up_ShowUptime :: "bool option"
  up_AnnouncementMsg :: "string option"

definition given_or :: "'a option \<Rightarrow> 'a \<Rightarrow> 'a" where
  "given_or x d = (case x of None \<Rightarrow> d | Some v \<Rightarrow> v)"

definition given_text :: "string option \<Rightarrow> string \<Rightarrow> string" where
  "given_text x d = (case x of None \<Rightarrow> d | Some v \<Rightarrow> if v \<noteq> [] then v else d)"

definition partial_fields :: "gotime \<Rightarrow> StatusPageConfigUpdate \<Rightarrow> StatusPageConfig \<Rightarrow> StatusPageConfig" where
  "partial_fields now u p = p\<lparr>
     pg_Description := given_or (up_Description u) (pg_Description p),
     pg_LogoURL := given_or (up_LogoURL u) (pg_LogoURL p),
     pg_Components := given_or (up_Components u) (pg_Components p),
     pg_UptimeDays := (case up_UptimeDays u of None \<Rightarrow> pg_UptimeDays p | Some d \<Rightarrow> if d > 0 then d else pg_UptimeDays p),
     pg_IsPublic := given_or (up_IsPublic u) (pg_IsPublic p),
     pg_ShowIncidents := given_or (up_ShowIncidents u) (pg_ShowIncidents p),
     pg_ShowUptime := given_or (up_ShowUptime u) (pg_ShowUptime p),
     pg_AnnouncementMsg := given_or (up_AnnouncementMsg u) (pg_AnnouncementMsg p),
     pg_UpdatedAt := now\<rparr>"

definition UpdatePartial ::
  "page_order \<Rightarrow> write_end \<Rightarrow> gotime \<Rightarrow> string \<Rightarrow> StatusPageConfigUpdate \<Rightarrow> StatusPageStore \<Rightarrow>
     StatusPageStore \<times> (string + StatusPageConfig)" where
  "UpdatePartial ord w now i u s =
     (case map_of (sps_pages s) i of
        None \<Rightarrow> (s, Inl (page_not_found i))
      | Some existing \<Rightarrow>
          let existing = existing\<lparr>pg_Name := given_text (up_Name u) (pg_Name existing)\<rparr>;
              slug = given_text (up_Slug u) (pg_Slug existing);
              s = put_page i existing s
          in if slug \<noteq> pg_Slug existing \<and> slug_used_by_other i slug s
             then (s, Inl (slug_taken slug))
             else save_page ord w i (partial_fields now u (existing\<lparr>pg_Slug := slug\<rparr>)) s)"

definition sp_Delete :: "page_order \<Rightarrow> write_end \<Rightarrow> string \<Rightarrow> StatusPageStore \<Rightarrow> StatusPageStore \<times> string option" where
  "sp_Delete ord w i s =
     (case map_of (sps_pages s) i of
        None \<Rightarrow> (s, Some (page_not_found i))
      | Some _ \<Rightarrow> sp_save ord w (s\<lparr>sps_pages := AList.delete i (sps_pages s)\<rparr>))"

section \<open>The state of a component\<close>

definition component_matches :: "StatusPageComponent \<Rightarrow> CheckConfig \<Rightarrow> bool" where
  "component_matches cmp c =
     (if cmp_CheckIDs cmp \<noteq> [] \<and> chk_ID c \<in> set (cmp_CheckIDs cmp) then True
      else if cmp_Servers cmp \<noteq> [] \<and> chk_Server c \<in> set (cmp_Servers cmp) then True
      else cmp_Tags cmp \<noteq> [] \<and> chk_Tags c \<noteq> [] \<and> (\<exists>t \<in> set (chk_Tags c). t \<in> set (cmp_Tags cmp)))"

definition matchComponentChecks :: "StatusPageComponent \<Rightarrow> CheckConfig list \<Rightarrow> CheckConfig list" where
  "matchComponentChecks cmp checks =
     (if cmp_CheckIDs cmp = [] \<and> cmp_Tags cmp = [] \<and> cmp_Servers cmp = [] then []
      else filter (component_matches cmp) checks)"

text \<open>The nested loops that collect the latest results of the matching checks.\<close>

definition latest_of :: "CheckConfig list \<Rightarrow> CheckResult list \<Rightarrow> (string \<times> CheckResult) list" where
  "latest_of matching results =
     foldl (\<lambda>m r. foldl (\<lambda>m check. if res_CheckID r = chk_ID check then keep_latest r m else m) m matching) [] results"

record tally_state =
  ta_healthy :: int
  ta_unhealthy :: int
  ta_latency :: int
  ta_checked :: string

definition tally_result :: "(gotime \<Rightarrow> string) \<Rightarrow> tally_state \<Rightarrow> CheckResult \<Rightarrow> tally_state" where
  "tally_result rfc3339 t r = \<lparr>
     ta_healthy = (if res_Healthy r then ta_healthy t + 1 else ta_healthy t),
     ta_unhealthy = (if res_Healthy r then ta_unhealthy t else ta_unhealthy t + 1),
     ta_latency = (if res_DurationMs r > ta_latency t then res_DurationMs r else ta_latency t),
     ta_checked = rfc3339 (res_FinishedAt r)\<rparr>"

definition component_status :: "int \<Rightarrow> int \<Rightarrow> string" where
  "component_status unhealthy n =
     (if unhealthy = 0 then ComponentOperational
      else if unhealthy = n then ComponentMajorOutage
      else if f_div (f_of_int unhealthy) (f_of_int n) > 1 / 2 then ComponentPartialOutage
      else ComponentDegraded)"

text \<open>
  What the handler reads: the stored state, the repository of incidents, the maintenance windows, one
  reading of the clock, the format of a time, and the orders of maps and of sorting.
\<close>

record 'r PageWorld =
  pw_state :: State
  pw_incidents :: "('r IncidentRepo \<times> 'r) option"
  pw_maintenance :: "MaintenanceStore option"
  pw_now :: gotime
  pw_rfc3339 :: "gotime \<Rightarrow> string"
  pw_ord :: "(string \<times> CheckResult) list \<Rightarrow> (string \<times> CheckResult) list"
  pw_sort :: "StatusPageIncident list \<Rightarrow> StatusPageIncident list"

definition check_in_maintenance :: "'r PageWorld \<Rightarrow> CheckConfig \<Rightarrow> bool" where
  "check_in_maintenance h c = (case pw_maintenance h of None \<Rightarrow> False | Some ms \<Rightarrow> IsCheckInMaintenance (pw_now h) ms c)"

definition resolveComponentState :: "'r PageWorld \<Rightarrow> StatusPageComponent \<Rightarrow> StatusPageComponentState" where
  "resolveComponentState h cmp =
     (let cs = \<lparr>cst_ID = cmp_ID cmp, cst_Name = cmp_Name cmp, cst_Description = cmp_Description cmp,
                cst_Group = cmp_Group cmp, cst_Status = [], cst_Uptime = 0, cst_Latency = 0, cst_LastChecked = []\<rparr>;
          matching = matchComponentChecks cmp (st_Checks (pw_state h))
      in if matching = [] then cs\<lparr>cst_Status := ComponentOperational\<rparr>
         else if \<exists>check \<in> set matching. check_in_maintenance h check then cs\<lparr>cst_Status := ComponentUnderMaintenance\<rparr>
         else
           let latest = latest_of matching (st_Results (pw_state h));
               n = int (length matching);
               t = foldl (tally_result (pw_rfc3339 h))
                     \<lparr>ta_healthy = 0, ta_unhealthy = 0, ta_latency = 0, ta_checked = []\<rparr>
                     (map snd (ranged (pw_ord h) latest))
           in cs\<lparr>cst_LastChecked := ta_checked t, cst_Latency := ta_latency t,
                 cst_Status := component_status (ta_unhealthy t) n,
                 cst_Uptime := (if n > 0 \<and> length latest > 0 then percent (ta_healthy t) (int (length latest)) else 0)\<rparr>)"

section \<open>The public page\<close>

text \<open>The checks of all components of the page.\<close>

definition page_check_ids :: "StatusPageConfig \<Rightarrow> State \<Rightarrow> string list" where
  "page_check_ids page state =
     concat (map (\<lambda>cmp. map chk_ID (matchComponentChecks cmp (st_Checks state))) (pg_Components page))"

definition page_incident :: "Incident \<Rightarrow> StatusPageIncident" where
  "page_incident inc =
     \<lparr>spi_ID = inc_ID inc, spi_Title = publicStatusIncidentTitle inc, spi_Status = inc_Status inc,
      spi_Severity = inc_Severity inc, spi_CreatedAt = inc_StartedAt inc,
      spi_ResolvedAt = (if inc_Status inc = ''resolved'' then inc_ResolvedAt inc else None)\<rparr>"

definition getRecentIncidents :: "'r PageWorld \<Rightarrow> 'r IncidentRepo \<times> 'r \<Rightarrow> StatusPageConfig \<Rightarrow> StatusPageIncident list" where
  "getRecentIncidents h repository page =
     (case repo_list (fst repository) (snd repository) of
        (_, Some err) \<Rightarrow> []
      | (allIncidents, None) \<Rightarrow>
          let checkIDs = set (page_check_ids page (pw_state h));
              cutoff = time_add (pw_now h) (- 7 * 24 * hour);
              incidents = map page_incident (filter (\<lambda>inc. inc_CheckID inc \<in> checkIDs \<and>
                \<not> before (inc_StartedAt inc) cutoff) allIncidents);
              incidents = newest_first spi_CreatedAt (pw_sort h) incidents
          in if length incidents > 20 then take 20 incidents else incidents)"

definition day_counts :: "string set \<Rightarrow> CheckResult list \<Rightarrow> string \<rightharpoonup> int \<times> int" where
  "day_counts checkIDs results = foldl (\<lambda>m r.
     if res_CheckID r \<notin> checkIDs then m
     else let day = date_text (res_FinishedAt r);
              (healthy, n) = (case m day of None \<Rightarrow> (0, 0) | Some dr \<Rightarrow> dr)
          in m(day \<mapsto> (if res_Healthy r then healthy + 1 else healthy, n + 1)))
     Map.empty results"

definition uptime_days :: "StatusPageConfig \<Rightarrow> int" where
  "uptime_days page =
     (let days = (if pg_UptimeDays page \<le> 0 then 90 else pg_UptimeDays page) in if days > 365 then 365 else days)"

definition computeUptimeHistory :: "gotime \<Rightarrow> StatusPageConfig \<Rightarrow> State \<Rightarrow> (string \<times> f64) list" where
  "computeUptimeHistory now page state =
     (let dayResults = day_counts (set (page_check_ids page state)) (st_Results state)
      in map (\<lambda>i. let day = date_text (add_date now 0 0 0 (- i))
                  in (day, case dayResults day of
                             None \<Rightarrow> 100
                           | Some (healthy, n) \<Rightarrow> if n > 0 then percent healthy n else 100))
           (rev (map int [0 ..< nat (uptime_days page)])))"

definition overall_status :: "string list \<Rightarrow> OverallStatus" where
  "overall_status statuses =
     (let hasMinor = (\<exists>s \<in> set statuses. s \<in> {ComponentDegraded, ComponentPartialOutage, ComponentUnderMaintenance});
          hasMajor = (ComponentMajorOutage \<in> set statuses)
      in if hasMajor then \<lparr>os_Indicator = ''major'', os_Description = ''Major System Outage''\<rparr>
         else if hasMinor then \<lparr>os_Indicator = ''minor'', os_Description = ''Minor Service Disruption''\<rparr>
         else \<lparr>os_Indicator = ''none'', os_Description = ''All Systems Operational''\<rparr>)"

definition buildPublicResponse :: "'r PageWorld \<Rightarrow> StatusPageConfig \<Rightarrow> StatusPageResponse" where
  "buildPublicResponse h page =
     (let states = map (resolveComponentState h) (pg_Components page)
      in \<lparr>resp_Page = \<lparr>meta_Name = pg_Name page, meta_Description = pg_Description page, meta_LogoURL = pg_LogoURL page,
                      meta_Announcement = pg_AnnouncementMsg page\<rparr>,
          resp_Status = overall_status (map cst_Status states),
          resp_Components = states,
          resp_Incidents = (case pw_incidents h of
                              None \<Rightarrow> []
                            | Some repository \<Rightarrow> if pg_ShowIncidents page then getRecentIncidents h repository page else []),
          resp_UptimeData = (if pg_ShowUptime page then computeUptimeHistory (pw_now h) page (pw_state h) else [])\<rparr>)"

section \<open>The handlers\<close>

datatype page_answer =
    Pages "StatusPageConfig list" | Page StatusPageConfig | DeletedPage string
  | PublicJSON StatusPageResponse | PublicHTML StatusPageResponse | Refused string | NotAllowed

text \<open>A request: its method, the rest of its path, the \<open>Accept\<close> header and what the body decodes to.\<close>

definition handleStatusPages ::
  "page_order \<Rightarrow> write_end \<Rightarrow> gotime \<Rightarrow> string \<Rightarrow> string + StatusPageConfig \<Rightarrow> StatusPageStore \<Rightarrow>
     StatusPageStore \<times> int \<times> page_answer" where
  "handleStatusPages ord w now meth body s =
     (if meth = ''GET'' then (s, 200, Pages (sp_List ord s))
      else if meth = ''POST'' then
        case body of
          Inl err \<Rightarrow> (s, 400, Refused (''invalid JSON: '' @ err))
        | Inr cfg \<Rightarrow>
            if pg_Name cfg = [] then (s, 400, Refused ''name is required'')
            else if pg_Slug cfg = [] then (s, 400, Refused ''slug is required'')
            else case sp_Create ord w now cfg s of
                   (s, Inl err) \<Rightarrow> (s, if str_contains err ''already in use'' then 409 else 500, Refused err)
                 | (s, Inr page) \<Rightarrow> (s, 201, Page page)
      else (s, 405, NotAllowed))"

definition handleStatusPageByID ::
  "page_order \<Rightarrow> write_end \<Rightarrow> gotime \<Rightarrow> string \<Rightarrow> string \<Rightarrow> string + StatusPageConfigUpdate \<Rightarrow> StatusPageStore \<Rightarrow>
     StatusPageStore \<times> int \<times> page_answer" where
  "handleStatusPageByID ord w now meth path body s =
     (if path = [] then (s, 400, Refused ''status page ID required'')
      else
        let i = hd (split_on (CHR ''/'') path);
            status = (\<lambda>err. if str_contains err ''not found'' then 404 else 500)
        in if meth = ''GET'' then
             (case sp_Get i s of Inl err \<Rightarrow> (s, 404, Refused err) | Inr page \<Rightarrow> (s, 200, Page page))
           else if meth = ''PUT'' then
             (case body of
                Inl err \<Rightarrow> (s, 400, Refused (''invalid JSON: '' @ err))
              | Inr update \<Rightarrow>
                  (case UpdatePartial ord w now i update s of
                     (s, Inl err) \<Rightarrow> (s, status err, Refused err)
                   | (s, Inr page) \<Rightarrow> (s, 200, Page page)))
           else if meth = ''DELETE'' then
             (case sp_Delete ord w i s of
                (s, Some err) \<Rightarrow> (s, status err, Refused err)
              | (s, None) \<Rightarrow> (s, 200, DeletedPage i))
           else (s, 405, NotAllowed))"

definition wantsStatusPageHTML :: "string \<Rightarrow> bool" where
  "wantsStatusPageHTML accept =
     (if accept = [] then False
      else case str_index accept ''text/html'' of
             None \<Rightarrow> False
           | Some htmlIndex \<Rightarrow>
               (case str_index accept ''application/json'' of
                  None \<Rightarrow> True
                | Some jsonIndex \<Rightarrow> htmlIndex < jsonIndex))"

definition trim_slash :: "string \<Rightarrow> string" where
  "trim_slash s = (if has_suffix s ''/'' then butlast s else s)"

definition handlePublicStatusPage ::
  "page_order \<Rightarrow> 'r PageWorld \<Rightarrow> string \<Rightarrow> string \<Rightarrow> string \<Rightarrow> StatusPageStore \<Rightarrow> int \<times> page_answer" where
  "handlePublicStatusPage ord h meth path accept s =
     (if meth \<noteq> ''GET'' then (405, NotAllowed)
      else
        let slug = trim_slash path
        in if slug = [] then (400, Refused ''status page slug required'')
           else case GetBySlug ord slug s of
                  Inl err \<Rightarrow> (404, Refused err)
                | Inr page \<Rightarrow>
                    if \<not> pg_IsPublic page then (404, Refused ''status page not found'')
                    else let response = buildPublicResponse h page
                         in (200, if wantsStatusPageHTML accept then PublicHTML response else PublicJSON response))"

section \<open>Components show the state of their checks\<close>

lemma latest_of_filter:
  "latest_of matching results = latest_by_check (filter (\<lambda>r. res_CheckID r \<in> chk_ID ` set matching) results)"
proof -
  have inner: "foldl (\<lambda>m check. if res_CheckID r = chk_ID check then keep_latest r m else m) m cs =
      (if res_CheckID r \<in> chk_ID ` set cs then keep_latest r m else m)" for r m cs
    by (induction cs arbitrary: m) auto
  show ?thesis
    unfolding latest_of_def inner by (induction results rule: rev_induct) simp_all
qed

text \<open>A check is failing if its latest result is not healthy (\<open>latest_is_latest\<close> says which result that is).\<close>

definition failing :: "State \<Rightarrow> CheckConfig \<Rightarrow> bool" where
  "failing state c =
     (case map_of (latest_by_check (st_Results state)) (chk_ID c) of None \<Rightarrow> False | Some r \<Rightarrow> \<not> res_Healthy r)"

lemma tally_unhealthy:
  "ta_unhealthy (foldl (tally_result f) t rs) = ta_unhealthy t + int (length (filter (\<lambda>r. \<not> res_Healthy r) rs))"
  "ta_healthy (foldl (tally_result f) t rs) = ta_healthy t + int (length (filter res_Healthy rs))"
  by (induction rs arbitrary: t) (simp_all add: tally_result_def)

lemma count_latest:
  assumes "distinct (map chk_ID matching)"
  shows "length (filter (\<lambda>r. \<not> res_Healthy r) (map snd (latest_of matching (st_Results state)))) =
    length (filter (failing state) matching)"
proof -
  let ?m = "latest_of matching (st_Results state)"
  have d: "distinct (map fst ?m)" unfolding latest_of_filter by (rule distinct_latest)
  have m: "map_of ?m i = (if i \<in> chk_ID ` set matching then map_of (latest_by_check (st_Results state)) i else None)" for i
    unfolding latest_of_filter by (rule latest_filter)
  let ?bad = "filter (\<lambda>(i, r). \<not> res_Healthy r) ?m"
  have "fst ` set ?bad = chk_ID ` set (filter (failing state) matching)"
  proof -
    have "i \<in> fst ` set ?bad \<longleftrightarrow> (\<exists>r. map_of ?m i = Some r \<and> \<not> res_Healthy r)" for i
      using d by (force simp: image_iff)
    moreover have "i \<in> chk_ID ` set (filter (failing state) matching) \<longleftrightarrow>
        i \<in> chk_ID ` set matching \<and> (\<exists>r. map_of (latest_by_check (st_Results state)) i = Some r \<and> \<not> res_Healthy r)" for i
      by (auto simp: failing_def image_iff split: option.splits)
    ultimately have "i \<in> fst ` set ?bad \<longleftrightarrow> i \<in> chk_ID ` set (filter (failing state) matching)" for i
      by (simp only: m split: if_split) simp
    then show ?thesis by blast
  qed
  moreover have "distinct (map fst ?bad)" using d by (rule distinct_map_filter_key)
  then have "length ?bad = card (fst ` set ?bad)" by (metis distinct_card length_map list.set_map)
  moreover have "distinct (map chk_ID (filter (failing state) matching))" using assms by (rule distinct_map_filter_key)
  then have "length (filter (failing state) matching) = card (chk_ID ` set (filter (failing state) matching))"
    by (metis distinct_card length_map list.set_map)
  moreover have "length (filter (\<lambda>r. \<not> res_Healthy r) (map snd ?m)) = length ?bad"
    by (simp add: filter_map o_def split_def)
  ultimately show ?thesis by simp
qed

lemma distinct_matching:
  "distinct (map chk_ID checks) \<Longrightarrow> distinct (map chk_ID (matchComponentChecks cmp checks))"
  by (simp add: matchComponentChecks_def distinct_map_filter_key)

lemma length_matching: "length (matchComponentChecks cmp checks) \<le> length checks"
  by (simp add: matchComponentChecks_def)

lemma component_status_correct:
  assumes "distinct (map chk_ID (st_Checks (pw_state h)))" and "length (st_Checks (pw_state h)) < 2 ^ 52"
    and "matching = matchComponentChecks cmp (st_Checks (pw_state h))"
    and "bad = filter (failing (pw_state h)) matching"
  shows "cst_Status (resolveComponentState h cmp) =
    (if \<exists>c \<in> set matching. check_in_maintenance h c then ComponentUnderMaintenance
     else if bad = [] then ComponentOperational
     else if length bad = length matching then ComponentMajorOutage
     else if length matching < 2 * length bad then ComponentPartialOutage
     else ComponentDegraded)"
proof (cases "matching = []")
  case False
  let ?t = "foldl (tally_result (pw_rfc3339 h)) \<lparr>ta_healthy = 0, ta_unhealthy = 0, ta_latency = 0, ta_checked = []\<rparr>
    (map snd (ranged (pw_ord h) (latest_of matching (st_Results (pw_state h)))))"
  have "length (filter (\<lambda>r. \<not> res_Healthy r) (map snd (ranged (pw_ord h) (latest_of matching (st_Results (pw_state h)))))) =
      length (filter (\<lambda>r. \<not> res_Healthy r) (map snd (latest_of matching (st_Results (pw_state h)))))"
    by (simp add: filter_map ranged_filter)
  also have "\<dots> = length bad" unfolding assms(4) by (rule count_latest) (simp add: assms distinct_matching)
  finally have t: "ta_unhealthy ?t = int (length bad)" by (simp add: tally_unhealthy)
  have l: "length bad \<le> length matching" by (simp add: assms(4))
  have "f_div (f_of_int (int (length bad))) (f_of_int (int (length matching))) > 1 / 2 \<longleftrightarrow>
      int (length matching) < 2 * int (length bad)"
  proof (rule half_ratio)
    have "length matching < 2 ^ 52" using assms(2,3) length_matching le_less_trans by blast
    then show "int (length matching) < 2 ^ 52" by simp
  qed (simp_all add: l)
  moreover have "int (length matching) < 2 * int (length bad) \<longleftrightarrow> length matching < 2 * length bad" by linarith
  ultimately show ?thesis
    using False assms(3) t by (simp add: resolveComponentState_def component_status_def Let_def)
qed (use assms in \<open>simp add: resolveComponentState_def Let_def\<close>)

definition quiet :: "'r PageWorld \<Rightarrow> CheckConfig \<Rightarrow> bool" where
  "quiet h c \<longleftrightarrow> \<not> check_in_maintenance h c \<and> \<not> failing (pw_state h) c"

definition all_down :: "'r PageWorld \<Rightarrow> CheckConfig list \<Rightarrow> bool" where
  "all_down h cs \<longleftrightarrow> cs \<noteq> [] \<and> (\<forall>c \<in> set cs. \<not> check_in_maintenance h c \<and> failing (pw_state h) c)"

lemma length_filter_all: "length (filter P xs) = length xs \<longleftrightarrow> (\<forall>x \<in> set xs. P x)"
  by (metis filter_id_conv length_filter_less less_irrefl)

lemma component_extremes:
  assumes "distinct (map chk_ID (st_Checks (pw_state h)))" and "length (st_Checks (pw_state h)) < 2 ^ 52"
  shows "cst_Status (resolveComponentState h cmp) = ComponentOperational \<longleftrightarrow>
      (\<forall>c \<in> set (matchComponentChecks cmp (st_Checks (pw_state h))). quiet h c)"
    and "cst_Status (resolveComponentState h cmp) = ComponentMajorOutage \<longleftrightarrow>
      all_down h (matchComponentChecks cmp (st_Checks (pw_state h)))"
    and "cst_Status (resolveComponentState h cmp) \<in> {ComponentOperational, ComponentDegraded, ComponentPartialOutage,
      ComponentMajorOutage, ComponentUnderMaintenance}"
  unfolding component_status_correct [OF assms refl refl]
  by (auto simp: quiet_def all_down_def filter_empty_conv length_filter_all)

lemma map_map_member: "x \<in> set (map f (map g xs)) \<longleftrightarrow> (\<exists>y \<in> set xs. f (g y) = x)"
  by auto

lemma overall_cases:
  "os_Indicator (overall_status ss) = ''major'' \<longleftrightarrow> ComponentMajorOutage \<in> set ss"
  "os_Indicator (overall_status ss) \<in> {''none'', ''minor'', ''major''}"
  "os_Indicator (overall_status ss) = ''none'' \<longleftrightarrow>
     (\<forall>s \<in> set ss. s \<notin> {ComponentDegraded, ComponentPartialOutage, ComponentUnderMaintenance, ComponentMajorOutage})"
  by (auto simp: overall_status_def Let_def)

text \<open>
  C15: The overall indicator of a public page is right. It is \<open>none\<close> exactly if no check of any component is
  in maintenance or unhealthy in its latest result, and \<open>major\<close> exactly if the checks of some component
  are all unhealthy (and none is in maintenance); everything else is \<open>minor\<close>, and \<open>critical\<close> never occurs.
\<close>

theorem indicator_is_right:
  assumes "distinct (map chk_ID (st_Checks (pw_state h)))" and "length (st_Checks (pw_state h)) < 2 ^ 52"
  shows "(os_Indicator (resp_Status (buildPublicResponse h page)) = ''none'') =
      (\<forall>cmp \<in> set (pg_Components page). \<forall>c \<in> set (matchComponentChecks cmp (st_Checks (pw_state h))). quiet h c) \<and>
    (os_Indicator (resp_Status (buildPublicResponse h page)) = ''major'') =
      (\<exists>cmp \<in> set (pg_Components page). all_down h (matchComponentChecks cmp (st_Checks (pw_state h)))) \<and>
    os_Indicator (resp_Status (buildPublicResponse h page)) \<in> {''none'', ''minor'', ''major''}"
proof -
  let ?ss = "map cst_Status (map (resolveComponentState h) (pg_Components page))"
  have status: "resp_Status (buildPublicResponse h page) = overall_status ?ss"
    by (simp add: buildPublicResponse_def Let_def)
  have none: "s \<notin> {ComponentDegraded, ComponentPartialOutage, ComponentUnderMaintenance, ComponentMajorOutage} \<longleftrightarrow>
      (\<forall>c \<in> set (matchComponentChecks cmp (st_Checks (pw_state h))). quiet h c)"
    if "s = cst_Status (resolveComponentState h cmp)" for s cmp
    using component_extremes [OF assms, of cmp] that by auto
  have "os_Indicator (overall_status ?ss) = ''none'' \<longleftrightarrow>
      (\<forall>cmp \<in> set (pg_Components page). \<forall>c \<in> set (matchComponentChecks cmp (st_Checks (pw_state h))). quiet h c)"
    unfolding overall_cases(3) using none by auto
  moreover have "os_Indicator (overall_status ?ss) = ''major'' \<longleftrightarrow>
      (\<exists>cmp \<in> set (pg_Components page). all_down h (matchComponentChecks cmp (st_Checks (pw_state h))))"
  proof -
    have "ComponentMajorOutage \<in> set ?ss \<longleftrightarrow>
        (\<exists>cmp \<in> set (pg_Components page). cst_Status (resolveComponentState h cmp) = ComponentMajorOutage)"
      by (rule map_map_member)
    then show ?thesis unfolding overall_cases(1) component_extremes(2) [OF assms] .
  qed
  ultimately show ?thesis unfolding status using overall_cases(2) by blast
qed

section \<open>Uptime per day\<close>

definition results_on :: "string set \<Rightarrow> int \<Rightarrow> CheckResult list \<Rightarrow> CheckResult list" where
  "results_on ids day results =
     filter (\<lambda>r. res_CheckID r \<in> ids \<and> local_day 0 (res_FinishedAt r) = day) results"

lemma day_counts_spec:
  "day_counts ids results day =
     (let rs = filter (\<lambda>r. res_CheckID r \<in> ids \<and> date_text (res_FinishedAt r) = day) results
      in if rs = [] then None else Some (int (length (filter res_Healthy rs)), int (length rs)))"
proof -
  have step: "day_counts ids (rs @ [r]) = (if res_CheckID r \<notin> ids then day_counts ids rs
      else let (healthy, n) = (case day_counts ids rs (date_text (res_FinishedAt r)) of None \<Rightarrow> (0, 0) | Some dr \<Rightarrow> dr)
           in (day_counts ids rs)(date_text (res_FinishedAt r) \<mapsto> (if res_Healthy r then healthy + 1 else healthy, n + 1)))"
    for rs r
    by (simp add: day_counts_def Let_def)
  show ?thesis
  proof (induction results arbitrary: day rule: rev_induct)
    case Nil
    then show ?case by (simp add: day_counts_def)
  next
    case (snoc r rs)
    then show ?case
      unfolding step by (auto simp: Let_def filter_empty_conv split: if_splits)
  qed
qed

lemma uptime_days_bounds: "1 \<le> uptime_days page \<and> uptime_days page \<le> 365"
  by (simp add: uptime_days_def Let_def)

lemma local_day_minus: "local_day 0 (t - i * day_ns) = local_day 0 t - i"
  using div_mult_self1 [of day_ns t "- i"] by (simp add: local_day_def day_ns_def)

lemma distinct_minus: "distinct (map (\<lambda>i. k - i) xs) = distinct (xs :: int list)"
  by (simp add: distinct_map inj_on_def)

definition uptime_of :: "CheckResult list \<Rightarrow> f64" where
  "uptime_of rs = (if rs = [] then 100 else percent (int (length (filter res_Healthy rs))) (int (length rs)))"

lemma uptime_of_bounds: "0 \<le> uptime_of rs \<and> uptime_of rs \<le> 100"
  by (simp add: uptime_of_def percent_bounds)

lemma uptime_entries:
  assumes "364 * day_ns \<le> now" and "\<forall>r \<in> set (st_Results state). 0 \<le> res_FinishedAt r"
  shows "computeUptimeHistory now page state =
    map (\<lambda>d. (date_text (d * day_ns), uptime_of (results_on (set (page_check_ids page state)) d (st_Results state))))
      [local_day 0 now - uptime_days page + 1 .. local_day 0 now]"
proof -
  let ?ids = "set (page_check_ids page state)"
  have day: "date_text (now - i * day_ns) = date_text ((local_day 0 now - i) * day_ns)" (is ?A)
    and rs: "filter (\<lambda>r. res_CheckID r \<in> ?ids \<and> date_text (res_FinishedAt r) = date_text (now - i * day_ns)) (st_Results state) =
      results_on ?ids (local_day 0 now - i) (st_Results state)" (is ?B)
    if "0 \<le> i" "i < uptime_days page" for i
  proof -
    have "i \<le> 364" using that uptime_days_bounds [of page] by linarith
    then have "i * day_ns \<le> 364 * day_ns" by (intro mult_right_mono) (simp_all add: day_ns_def)
    with assms(1) have pos: "0 \<le> now - i * day_ns" by linarith
    then have "0 \<le> local_day 0 (now - i * day_ns)" by (simp add: local_day_def day_ns_def pos_imp_zdiv_nonneg_iff)
    then have d: "0 \<le> local_day 0 now - i" by (simp only: local_day_minus)
    have "local_day 0 ((local_day 0 now - i) * day_ns) = local_day 0 now - i" by (simp add: local_day_def day_ns_def)
    moreover have "0 \<le> (local_day 0 now - i) * day_ns" using d by (simp add: day_ns_def)
    ultimately show ?A using pos local_day_minus by (simp only: date_text_iff)
    show ?B unfolding results_on_def
    proof (rule filter_cong [OF refl])
      fix r
      assume "r \<in> set (st_Results state)"
      then have "0 \<le> res_FinishedAt r" using assms(2) by blast
      then show "(res_CheckID r \<in> ?ids \<and> date_text (res_FinishedAt r) = date_text (now - i * day_ns)) =
          (res_CheckID r \<in> ?ids \<and> local_day 0 (res_FinishedAt r) = local_day 0 now - i)"
        using date_text_iff [OF _ pos, of "res_FinishedAt r"] by (simp only: local_day_minus)
    qed
  qed
  have entry: "(let day = date_text (add_date now 0 0 0 (- i))
       in (day, case day_counts ?ids (st_Results state) day of None \<Rightarrow> 100
                | Some (healthy, n) \<Rightarrow> if n > 0 then percent healthy n else 100)) =
      (date_text ((local_day 0 now - i) * day_ns), uptime_of (results_on ?ids (local_day 0 now - i) (st_Results state)))"
    if "0 \<le> i" "i < uptime_days page" for i
    using day [OF that] rs [OF that]
    by (simp add: add_date_days day_counts_spec uptime_of_def Let_def del: filter_filter)
  have days: "[local_day 0 now - uptime_days page + 1 .. local_day 0 now] =
      map (\<lambda>i. local_day 0 now - i) (rev (map int [0 ..< nat (uptime_days page)]))"
  proof (rule nth_equalityI)
    show "length [local_day 0 now - uptime_days page + 1 .. local_day 0 now] =
        length (map (\<lambda>i. local_day 0 now - i) (rev (map int [0 ..< nat (uptime_days page)])))"
      by simp
    fix k
    assume "k < length [local_day 0 now - uptime_days page + 1 .. local_day 0 now]"
    then have "k < nat (uptime_days page)" by simp
    then show "[local_day 0 now - uptime_days page + 1 .. local_day 0 now] ! k =
        map (\<lambda>i. local_day 0 now - i) (rev (map int [0 ..< nat (uptime_days page)])) ! k"
      by (simp add: rev_nth nth_upto of_nat_diff)
  qed
  have "computeUptimeHistory now page state = map (\<lambda>i. (date_text ((local_day 0 now - i) * day_ns),
      uptime_of (results_on ?ids (local_day 0 now - i) (st_Results state)))) (rev (map int [0 ..< nat (uptime_days page)]))"
    unfolding computeUptimeHistory_def Let_def [of "day_counts ?ids (st_Results state)"]
  proof (rule map_cong [OF refl])
    fix i
    assume "i \<in> set (rev (map int [0 ..< nat (uptime_days page)]))"
    then have "0 \<le> i" "i < uptime_days page" by auto
    then show "(let day = date_text (add_date now 0 0 0 (- i))
       in (day, case day_counts ?ids (st_Results state) day of None \<Rightarrow> 100
                | Some (healthy, n) \<Rightarrow> if n > 0 then percent healthy n else 100)) =
      (date_text ((local_day 0 now - i) * day_ns), uptime_of (results_on ?ids (local_day 0 now - i) (st_Results state)))"
      by (rule entry)
  qed
  then show ?thesis unfolding days map_map by (simp only: o_def)
qed

text \<open>
  The uptime history of a page has one entry per day, 1 to 365 of them in order, ending today. The value
  of a day is the share of healthy results among all results that the checks of the page finished on that
  day in UTC (100 on a day without any), and lies between 0 and 100.
\<close>

theorem uptime_history_correct:
  assumes "364 * day_ns \<le> now" and "\<forall>r \<in> set (st_Results state). 0 \<le> res_FinishedAt r"
  shows "computeUptimeHistory now page state =
      map (\<lambda>d. (date_text (d * day_ns), uptime_of (results_on (set (page_check_ids page state)) d (st_Results state))))
        [local_day 0 now - uptime_days page + 1 .. local_day 0 now] \<and>
    length (computeUptimeHistory now page state) \<in> {1 .. 365} \<and>
    distinct (map fst (computeUptimeHistory now page state)) \<and>
    (\<forall>(day, uptime) \<in> set (computeUptimeHistory now page state). 0 \<le> uptime \<and> uptime \<le> 100)"
proof -
  let ?days = "[local_day 0 now - uptime_days page + 1 .. local_day 0 now]"
  have "0 \<le> local_day 0 now - uptime_days page + 1"
  proof -
    have "364 * day_ns div day_ns \<le> now div day_ns" using assms(1) by (intro zdiv_mono1) (simp_all add: day_ns_def)
    then have "364 \<le> local_day 0 now" by (simp add: local_day_def day_ns_def)
    then show ?thesis using uptime_days_bounds [of page] by linarith
  qed
  then have pos: "0 \<le> d * day_ns" if "d \<in> set ?days" for d using that by (auto simp: day_ns_def)
  have "inj_on (\<lambda>d. date_text (d * day_ns)) (set ?days)"
  proof (rule inj_onI)
    fix d e
    assume "d \<in> set ?days" "e \<in> set ?days" "date_text (d * day_ns) = date_text (e * day_ns)"
    then have "local_day 0 (d * day_ns) = local_day 0 (e * day_ns)" using date_text_iff [OF pos pos] by blast
    then show "d = e" by (simp add: local_day_def day_ns_def)
  qed
  then have "distinct (map (\<lambda>d. date_text (d * day_ns)) ?days)" by (simp only: distinct_map distinct_upto simp_thms)
  moreover have "Suc 0 \<le> nat (uptime_days page)" using uptime_days_bounds [of page] by linarith
  ultimately show ?thesis
    using uptime_of_bounds uptime_days_bounds [of page]
    by (simp add: uptime_entries [OF assms] o_def nat_le_iff del: set_upto)
qed

section \<open>Samples\<close>

definition blank_page :: StatusPageConfig where
  "blank_page = \<lparr>pg_ID = [], pg_Name = [], pg_Slug = [], pg_Description = [], pg_LogoURL = [], pg_FaviconURL = [],
     pg_CustomDomain = [], pg_IsPublic = True, pg_ShowIncidents = False, pg_ShowUptime = True, pg_UptimeDays = 2,
     pg_Components = [], pg_AnnouncementMsg = [], pg_CreatedAt = 0, pg_UpdatedAt = 0\<rparr>"

definition tagged_component :: "string \<Rightarrow> StatusPageComponent" where
  "tagged_component tag = \<lparr>cmp_ID = tag, cmp_Name = tag, cmp_Description = [], cmp_CheckIDs = [], cmp_Tags = [tag],
     cmp_Servers = [], cmp_Order = 0, cmp_Group = []\<rparr>"

definition sample_page :: StatusPageConfig where
  "sample_page = blank_page\<lparr>pg_ID := ''sp-1'', pg_Name := ''Acme'', pg_Slug := ''acme'',
     pg_Components := [tagged_component ''web'', tagged_component ''db'']\<rparr>"

definition page_day :: gotime where "page_day = 738000 * day_ns"

definition page_result :: "string \<Rightarrow> gotime \<Rightarrow> bool \<Rightarrow> CheckResult" where
  "page_result i t ok = zero_result\<lparr>res_CheckID := i, res_FinishedAt := t, res_Healthy := ok\<rparr>"

definition page_state :: State where
  "page_state = \<lparr>st_Checks = [zero_check\<lparr>chk_ID := ''a'', chk_Tags := [''web'']\<rparr>,
       zero_check\<lparr>chk_ID := ''b'', chk_Tags := [''web'', ''db'']\<rparr>],
     st_Results = [page_result ''a'' page_day True, page_result ''b'' (page_day + hour) True,
       page_result ''b'' (page_day + 2 * hour) False], st_LastRunAt = 0, st_UpdatedAt = 0\<rparr>"

definition page_world :: "unit PageWorld" where
  "page_world = \<lparr>pw_state = page_state, pw_incidents = None, pw_maintenance = None, pw_now = page_day + 3 * hour,
     pw_rfc3339 = date_text, pw_ord = rev, pw_sort = id\<rparr>"

text \<open>One of two web checks is down, and the only database check: a major outage.\<close>

theorem indicator_is_right_witness:
  "os_Indicator (resp_Status (buildPublicResponse page_world sample_page)) = ''major''"
proof -
  have hyps: "distinct (map chk_ID (st_Checks (pw_state page_world)))" "length (st_Checks (pw_state page_world)) < 2 ^ 52"
    by (simp_all add: page_world_def page_state_def)
  have "matchComponentChecks (tagged_component ''db'') (st_Checks (pw_state page_world)) =
      [zero_check\<lparr>chk_ID := ''b'', chk_Tags := [''web'', ''db'']\<rparr>]"
    by (simp add: page_world_def page_state_def matchComponentChecks_def component_matches_def tagged_component_def zero_check_def)
  moreover have "failing (pw_state page_world) (zero_check\<lparr>chk_ID := ''b'', chk_Tags := [''web'', ''db'']\<rparr>)" by code_simp
  ultimately have "all_down page_world (matchComponentChecks (tagged_component ''db'') (st_Checks (pw_state page_world)))"
    by (simp add: all_down_def check_in_maintenance_def page_world_def)
  moreover have "tagged_component ''db'' \<in> set (pg_Components sample_page)" by (simp add: sample_page_def)
  ultimately show ?thesis using indicator_is_right [OF hyps, of sample_page] by blast
qed

theorem uptime_history_correct_witness:
  "computeUptimeHistory (page_day + 3 * hour) sample_page page_state =
     [(date_text (737999 * day_ns), 100), (date_text (738000 * day_ns), percent 2 3)] \<and>
   length (computeUptimeHistory (page_day + 3 * hour) sample_page page_state) \<in> {1 .. 365}"
proof -
  have "364 * day_ns \<le> page_day + 3 * hour" by code_simp
  moreover have "\<forall>r \<in> set (st_Results page_state). 0 \<le> res_FinishedAt r" by code_simp
  moreover have "uptime_days sample_page = 2" "local_day 0 (page_day + 3 * hour) = 738000"
    "set (page_check_ids sample_page page_state) = {''a'', ''b''}"
    by code_simp+
  moreover have "results_on {''a'', ''b''} 738000 (st_Results page_state) = st_Results page_state"
    "results_on {''a'', ''b''} 737999 (st_Results page_state) = []"
    "length (filter res_Healthy (st_Results page_state)) = 2" "length (st_Results page_state) = 3"
    by code_simp+
  moreover have "[737999 .. 738000 :: int] = [737999, 738000]" by (simp add: upto.simps)
  moreover have "st_Results page_state \<noteq> []" by (simp add: page_state_def)
  ultimately show ?thesis
    using uptime_history_correct [of "page_day + 3 * hour" page_state sample_page]
    by (simp add: uptime_of_def page_day_def del: upto.simps)
qed

section \<open>Slugs stay unique\<close>

definition pages_ok :: "(string \<times> StatusPageConfig) list \<Rightarrow> bool" where
  "pages_ok m \<longleftrightarrow> distinct (map fst m) \<and>
     (\<forall>(k, p) \<in> set m. pg_ID p = k \<and> pg_Slug p \<noteq> []) \<and>
     (\<forall>(k, p) \<in> set m. \<forall>(l, q) \<in> set m. pg_Slug p = pg_Slug q \<longrightarrow> k = l)"

definition file_ok :: "page_file \<Rightarrow> bool" where
  "file_ok f \<longleftrightarrow> (case f of Saved ps \<Rightarrow> pages_ok (map (\<lambda>p. (pg_ID p, p)) ps) | _ \<Rightarrow> True)"

lemma pages_ok_Nil [simp]: "pages_ok []"
  by (simp add: pages_ok_def)

lemma set_update: "distinct (map fst m) \<Longrightarrow> set (AList.update k v m) = insert (k, v) {(l, w) \<in> set m. l \<noteq> k}"
proof -
  assume d: "distinct (map fst m)"
  have "(l, w) \<in> set (AList.update k v m) \<longleftrightarrow> map_of (AList.update k v m) l = Some w" for l w
    using distinct_update [OF d, of k v] by simp
  moreover have "(l, w) \<in> set m \<longleftrightarrow> map_of m l = Some w" for l w using d by simp
  ultimately show ?thesis by (auto simp: update_conv' split: if_split_asm)
qed

lemma pages_okD: "pages_ok m \<Longrightarrow> (k, p) \<in> set m \<Longrightarrow> pg_ID p = k \<and> pg_Slug p \<noteq> []"
  unfolding pages_ok_def by blast

lemma pages_ok_update:
  assumes "pages_ok m" and "pg_ID p = k" and "pg_Slug p \<noteq> []"
    and "\<And>l q. (l, q) \<in> set m \<Longrightarrow> l \<noteq> k \<Longrightarrow> pg_Slug q \<noteq> pg_Slug p"
  shows "pages_ok (AList.update k p m)"
proof -
  have d: "distinct (map fst m)" using assms(1) by (simp add: pages_ok_def)
  show ?thesis
    unfolding pages_ok_def set_update [OF d]
    using assms distinct_update [OF d, of k p] by (fastforce simp: pages_ok_def)
qed

lemma pages_ok_subset:
  "pages_ok m \<Longrightarrow> distinct (map fst m') \<Longrightarrow> set m' \<subseteq> set m \<Longrightarrow> pages_ok m'"
  unfolding pages_ok_def by blast

lemma pages_ok_delete: "pages_ok m \<Longrightarrow> pages_ok (AList.delete k m)"
proof (rule pages_ok_subset)
  assume "pages_ok m"
  then show "distinct (map fst (AList.delete k m))" by (simp add: pages_ok_def distinct_delete)
qed (auto simp: AList.delete_eq)

lemma pages_ok_ranged: "pages_ok m \<Longrightarrow> pages_ok (ranged ord m)"
proof (rule pages_ok_subset [of m])
  assume "pages_ok m"
  moreover have "mset (map fst (ranged ord m)) = mset (map fst m)" by simp
  ultimately show "distinct (map fst (ranged ord m))" using mset_eq_imp_distinct_iff pages_ok_def by blast
qed auto

lemma slug_found:
  assumes "pages_ok m" and "(k, p) \<in> set m" and "(l, q) \<in> set m" and "pg_Slug p = pg_Slug q"
  shows "k = l \<and> p = q"
  using assms unfolding pages_ok_def by (fastforce dest: eq_key_imp_eq_value)

lemma file_ok_save: "pages_ok (sps_pages s) \<Longrightarrow> file_ok (Saved (sp_List ord s))"
proof -
  assume ok: "pages_ok (sps_pages s)"
  have "map (\<lambda>p. (pg_ID p, p)) (sp_List ord s) = ranged ord (sps_pages s)"
    unfolding sp_List_def map_map using pages_okD [OF ok] by (intro map_idI) auto
  then show ?thesis using pages_ok_ranged [OF ok] by (simp add: file_ok_def)
qed

definition pstore_ok :: "StatusPageStore \<Rightarrow> bool" where
  "pstore_ok s \<longleftrightarrow> pages_ok (sps_pages s) \<and> file_ok (sps_file s)"

lemma save_ok: "pstore_ok s \<Longrightarrow> pstore_ok (fst (sp_save ord w s)) \<and> sps_pages (fst (sp_save ord w s)) = sps_pages s"
  by (auto simp: sp_save_def pstore_ok_def file_ok_save file_ok_def [of "Damaged _"] split: write_end.split)

lemma Delete_ok: "pstore_ok s \<Longrightarrow> pstore_ok (fst (sp_Delete ord w i s))"
proof -
  assume "pstore_ok s"
  then have "pstore_ok (s\<lparr>sps_pages := AList.delete i (sps_pages s)\<rparr>)" by (simp add: pstore_ok_def pages_ok_delete)
  with \<open>pstore_ok s\<close> show ?thesis by (simp add: sp_Delete_def save_ok split: option.split)
qed

lemma added_ok:
  assumes "pstore_ok s" and "pg_ID p = k" and "pg_Slug p \<noteq> []" and "\<not> (\<exists>(_, q) \<in> set (sps_pages s). pg_Slug q = pg_Slug p)"
    and "sps_pages t = AList.update k p (sps_pages s)" and "sps_file t = sps_file s"
  shows "pstore_ok t"
  using assms by (auto simp: pstore_ok_def intro!: pages_ok_update)

lemma undo_ok:
  "pstore_ok t \<Longrightarrow> pstore_ok (fst (case sp_save ord w t of
     (s, Some err) \<Rightarrow> (s\<lparr>sps_pages := AList.delete k (sps_pages s)\<rparr>, Inl err) | (s, None) \<Rightarrow> (s, Inr p)))"
  using save_ok [of t ord w] by (auto simp: pstore_ok_def pages_ok_delete split: prod.split option.split)

lemma Create_ok: "pstore_ok s \<Longrightarrow> pstore_ok (fst (sp_Create ord w now cfg s))"
proof -
  assume ok: "pstore_ok s"
  show ?thesis
  proof (cases "pg_Name cfg = [] \<or> pg_Slug cfg = [] \<or> (\<exists>(_, q) \<in> set (sps_pages s). pg_Slug q = pg_Slug cfg)")
    case True
    then show ?thesis using ok by (auto simp: sp_Create_def)
  next
    case False
    then have "\<not> (\<exists>(_, q) \<in> set (sps_pages s). pg_Slug q = pg_Slug cfg)" and slug: "pg_Slug cfg \<noteq> []" by auto
    note free = this
    obtain cfg' s' where new: "assign_page_id cfg s = (cfg', s')" by fastforce
    then have same: "pg_Slug (stamped now cfg') = pg_Slug cfg" "sps_pages s' = sps_pages s" "sps_file s' = sps_file s"
      by (auto simp: assign_page_id_def stamped_def split: if_splits)
    have "pstore_ok (s'\<lparr>sps_pages := AList.update (pg_ID (stamped now cfg')) (stamped now cfg') (sps_pages s')\<rparr>)"
      using free by (intro added_ok [OF ok]) (simp_all add: same)
    from undo_ok [OF this] False show ?thesis by (simp add: sp_Create_def new Let_def)
  qed
qed

lemma put_ok:
  assumes "pstore_ok s" and "map_of (sps_pages s) i = Some e" and "pg_ID p = pg_ID e" and "pg_Slug p \<noteq> []"
    and "pg_Slug p = pg_Slug e \<or> \<not> slug_used_by_other i (pg_Slug p) s"
  shows "pstore_ok (put_page i p s)"
proof -
  have ok: "pages_ok (sps_pages s)" using assms(1) by (simp add: pstore_ok_def)
  have e: "(i, e) \<in> set (sps_pages s)" using assms(2) by (rule map_of_SomeD)
  then have "pg_ID e = i" using ok by (auto simp: pages_ok_def)
  moreover have "pg_Slug q \<noteq> pg_Slug p" if "(l, q) \<in> set (sps_pages s)" "l \<noteq> i" for l q
  proof -
    have "pg_ID q = l" using ok that by (auto simp: pages_ok_def)
    then show ?thesis using assms(5) slug_found [OF ok that(1) e] that by (fastforce simp: slug_used_by_other_def)
  qed
  ultimately show ?thesis
    using assms ok by (simp add: pstore_ok_def put_page_def pages_ok_update)
qed

lemma save_page_ok: "pstore_ok (put_page i p s) \<Longrightarrow> pstore_ok (fst (save_page ord w i p s))"
  using save_ok [of "put_page i p s" ord w] by (auto simp: save_page_def split: prod.split option.split)

lemma existing_slug: "pstore_ok s \<Longrightarrow> map_of (sps_pages s) i = Some e \<Longrightarrow> pg_Slug e \<noteq> []"
  by (auto simp: pstore_ok_def pages_ok_def dest!: map_of_SomeD)

lemma Update_ok: "pstore_ok s \<Longrightarrow> pstore_ok (fst (sp_Update ord w now i u s))"
proof -
  assume ok: "pstore_ok s"
  have "pstore_ok (put_page i p s)" if "map_of (sps_pages s) i = Some e" "pg_ID p = pg_ID e"
      "pg_Slug p = (if pg_Slug u \<noteq> [] then pg_Slug u else pg_Slug e)"
      "\<not> (pg_Slug u \<noteq> [] \<and> pg_Slug u \<noteq> pg_Slug e \<and> slug_used_by_other i (pg_Slug u) s)" for e p
    using that existing_slug [OF ok that(1)] by (intro put_ok [OF ok that(1)]) auto
  then show ?thesis
    unfolding sp_Update_def by (auto intro!: save_page_ok simp: ok split: option.split)
qed

lemma UpdatePartial_ok:
  assumes "pstore_ok s"
  shows "pstore_ok (fst (UpdatePartial ord w now i u s))"
proof (cases "map_of (sps_pages s) i")
  case (Some e)
  let ?e = "e\<lparr>pg_Name := given_text (up_Name u) (pg_Name e)\<rparr>"
  let ?slug = "given_text (up_Slug u) (pg_Slug e)"
  have s1: "pstore_ok (put_page i ?e s)" using put_ok [OF assms Some, of ?e] existing_slug [OF assms Some] by simp
  have m1: "map_of (sps_pages (put_page i ?e s)) i = Some ?e" by (simp add: put_page_def update_conv')
  have "?slug \<noteq> []" using existing_slug [OF assms Some] by (simp add: given_text_def split: option.split)
  then have "pstore_ok (put_page i (partial_fields now u (?e\<lparr>pg_Slug := ?slug\<rparr>)) (put_page i ?e s))"
    if "\<not> (?slug \<noteq> pg_Slug e \<and> slug_used_by_other i ?slug (put_page i ?e s))"
    using that by (intro put_ok [OF s1 m1]) (auto simp: partial_fields_def)
  then show ?thesis
    using Some s1 by (auto simp: UpdatePartial_def Let_def intro: save_page_ok)
qed (simp add: UpdatePartial_def assms)

text \<open>
  Histories of the store: calls in any order, whatever happens to each write of the file, and restarts
  from the file while it can be read.
\<close>

inductive page_step :: "StatusPageStore \<Rightarrow> StatusPageStore \<Rightarrow> bool" where
  step_create: "page_step s (fst (sp_Create ord w now cfg s))"
| step_update: "page_step s (fst (sp_Update ord w now i update s))"
| step_partial: "page_step s (fst (UpdatePartial ord w now i u s))"
| step_delete: "page_step s (fst (sp_Delete ord w i s))"
| step_restart: "NewStatusPageStore (sps_file s) = Inr s' \<Longrightarrow> page_step s s'"

definition no_pages :: StatusPageStore where
  "no_pages = \<lparr>sps_pages = [], sps_nextID = 1, sps_file = Missing\<rparr>"

lemma load_pages:
  "sps_pages (sp_load ps s) = foldl (\<lambda>m p. AList.update (pg_ID p) p m) (sps_pages s) ps \<and>
   sps_file (sp_load ps s) = sps_file s \<and> sps_nextID (sp_load ps s) = sps_nextID s + int (length ps)"
  unfolding sp_load_def by (induction ps arbitrary: s) simp_all

lemma load_distinct:
  "distinct (map fst m @ map pg_ID ps) \<Longrightarrow>
     foldl (\<lambda>m p. AList.update (pg_ID p) p m) m ps = m @ map (\<lambda>p. (pg_ID p, p)) ps"
  for m :: "(string \<times> StatusPageConfig) list"
proof (induction ps arbitrary: m)
  case (Cons p ps)
  have "AList.update k v m = m @ [(k, v)]" if "k \<notin> fst ` set m" for k and v :: StatusPageConfig and m
    using that by (induction m) auto
  then have "AList.update (pg_ID p) p m = m @ [(pg_ID p, p)]" using Cons.prems by auto
  with Cons show ?case by simp
qed simp

lemma restart_pages:
  assumes "file_ok (Saved ps)" and "NewStatusPageStore (Saved ps) = Inr s"
  shows "sps_pages s = map (\<lambda>p. (pg_ID p, p)) ps \<and> sps_file s = Saved ps \<and> sps_nextID s = 1 + int (length ps)"
proof -
  have "distinct (map pg_ID ps)" using assms(1) by (simp add: file_ok_def pages_ok_def o_def)
  then show ?thesis
    using assms(2) load_pages [of ps "\<lparr>sps_pages = [], sps_nextID = 1, sps_file = Saved ps\<rparr>"] load_distinct [of "[]" ps]
    by (auto simp: NewStatusPageStore_def)
qed

lemma page_step_ok: "page_step s s' \<Longrightarrow> pstore_ok s \<Longrightarrow> pstore_ok s'"
proof (induction rule: page_step.induct)
  case (step_restart s s')
  show ?case
  proof (cases "sps_file s")
    case Missing
    with step_restart show ?thesis by (auto simp: NewStatusPageStore_def pstore_ok_def file_ok_def)
  next
    case (Saved ps)
    with step_restart have "file_ok (Saved ps)" "NewStatusPageStore (Saved ps) = Inr s'" by (simp_all add: pstore_ok_def)
    from restart_pages [OF this] show ?thesis using \<open>file_ok (Saved ps)\<close> by (simp add: pstore_ok_def file_ok_def)
  next
    case (Damaged err)
    with step_restart show ?thesis by (simp add: NewStatusPageStore_def)
  qed
qed (simp_all add: Create_ok Update_ok UpdatePartial_ok Delete_ok)

lemma found_by_slug:
  assumes "pages_ok (sps_pages s)"
  shows "GetBySlug ord slug s = Inr p \<longleftrightarrow> (pg_ID p, p) \<in> set (sps_pages s) \<and> pg_Slug p = slug"
proof -
  let ?ps = "sp_List ord s"
  have ps: "q \<in> set ?ps \<longleftrightarrow> (pg_ID q, q) \<in> set (sps_pages s)" for q
  proof -
    have "q \<in> set ?ps \<longleftrightarrow> (\<exists>k. (k, q) \<in> set (sps_pages s))" by (force simp: sp_List_def)
    then show ?thesis using pages_okD [OF assms] by metis
  qed
  have uniq: "q = p" if "q \<in> set ?ps" "p \<in> set ?ps" "pg_Slug q = pg_Slug p" for q p
    using that slug_found [OF assms] ps by blast
  show ?thesis
  proof (cases "find (\<lambda>p. pg_Slug p = slug) ?ps")
    case None
    then show ?thesis using ps find_NoneD [OF None] by (auto simp: GetBySlug_def)
  next
    case (Some q)
    then show ?thesis using ps uniq find_SomeD [OF Some] by (auto simp: GetBySlug_def)
  qed
qed

text \<open>
  In every history of the page store, with failed and torn writes and restarts, no two pages share a
  slug or an ID and none is without a slug. So the page shown at an address is the one page with that slug,
  in whatever order Go ranges over the map.
\<close>

theorem slugs_stay_unique:
  assumes "page_step\<^sup>*\<^sup>* no_pages s"
  shows "distinct (map (pg_Slug \<circ> snd) (sps_pages s)) \<and> distinct (map fst (sps_pages s)) \<and> [] \<notin> (pg_Slug \<circ> snd) ` set (sps_pages s) \<and>
    (GetBySlug ord slug s = Inr p \<longleftrightarrow> (pg_ID p, p) \<in> set (sps_pages s) \<and> pg_Slug p = slug)"
proof -
  have "pstore_ok no_pages" by (simp add: no_pages_def pstore_ok_def file_ok_def)
  with assms have "pstore_ok s" by (induction rule: rtranclp_induct) (simp_all add: page_step_ok)
  then have ok: "pages_ok (sps_pages s)" by (simp add: pstore_ok_def)
  then have d: "distinct (map fst (sps_pages s))" by (simp add: pages_ok_def)
  moreover have "inj_on (pg_Slug \<circ> snd) (set (sps_pages s))"
    using slug_found [OF ok] by (auto intro!: inj_onI)
  ultimately have "distinct (map (pg_Slug \<circ> snd) (sps_pages s))" by (metis distinct_map)
  moreover have "[] \<notin> (pg_Slug \<circ> snd) ` set (sps_pages s)" using pages_okD [OF ok] by force
  ultimately show ?thesis using found_by_slug [OF ok] d by simp
qed

definition named_page :: "string \<Rightarrow> StatusPageConfig" where
  "named_page slug = blank_page\<lparr>pg_Name := slug, pg_Slug := slug\<rparr>"

definition create_page :: "string \<Rightarrow> StatusPageStore \<Rightarrow> StatusPageStore" where
  "create_page slug s = fst (sp_Create id Written 5 (named_page slug) s)"

text \<open>Two pages are created, the first is deleted, and the service restarts.\<close>

definition two_pages :: StatusPageStore where
  "two_pages = create_page ''b'' (create_page ''a'' no_pages)"

definition after_delete :: StatusPageStore where
  "after_delete = fst (sp_Delete id Written ''sp-1'' two_pages)"

definition restarted :: StatusPageStore where
  "restarted = projr (NewStatusPageStore (sps_file after_delete))"

lemma page_history: "page_step\<^sup>*\<^sup>* no_pages restarted"
proof -
  have "page_step no_pages (create_page ''a'' no_pages)" unfolding create_page_def by (rule step_create)
  moreover have "page_step (create_page ''a'' no_pages) two_pages" unfolding two_pages_def create_page_def by (rule step_create)
  moreover have "page_step two_pages after_delete" unfolding after_delete_def by (rule step_delete)
  moreover have "page_step after_delete restarted"
  proof (rule step_restart)
    have "isl (NewStatusPageStore (sps_file after_delete)) = False" by code_simp
    then show "NewStatusPageStore (sps_file after_delete) = Inr restarted"
      unfolding restarted_def by (cases "NewStatusPageStore (sps_file after_delete)") simp_all
  qed
  ultimately show ?thesis by (meson converse_rtranclp_into_rtranclp rtranclp.rtrancl_refl)
qed

lemma restarted_facts:
  "map fst (sps_pages restarted) = [''sp-2'']" "map (pg_Slug \<circ> snd) (sps_pages restarted) = [''b'']" "sps_nextID restarted = 2"
  by code_simp+

theorem slugs_stay_unique_witness:
  "[] \<notin> (pg_Slug \<circ> snd) ` set (sps_pages restarted) \<and> map (pg_Slug \<circ> snd) (sps_pages restarted) = [''b'']"
  using slugs_stay_unique [OF page_history] restarted_facts by blast

text \<open>
  The counter of generated IDs starts at the number of stored pages, so after a deletion and a restart
  it can name a page that exists. A new page is then stored in its place: the create call succeeds, the
  other page is gone from memory and from the file, and its address is not found.
\<close>

theorem new_page_replaces_another:
  assumes "page_step\<^sup>*\<^sup>* no_pages s" and "(''sp-'' @ itoa (sps_nextID s), p) \<in> set (sps_pages s)"
    and "pg_ID cfg = []" and "pg_Name cfg \<noteq> []" and "pg_Slug cfg \<noteq> []" and "pg_Slug cfg \<notin> (pg_Slug \<circ> snd) ` set (sps_pages s)"
    and "sp_Create ord Written now cfg s = (s', r)"
  shows "\<exists>q. r = Inr q \<and> pg_ID q = pg_ID p \<and> pg_Slug q = pg_Slug cfg \<and> p \<notin> snd ` set (sps_pages s') \<and>
    length (sps_pages s') = length (sps_pages s) \<and>
    (\<exists>ps. sps_file s' = Saved ps \<and> p \<notin> set ps) \<and> GetBySlug ord' (pg_Slug p) s' = Inl (''status page with slug \"'' @ pg_Slug p @ ''\" not found'')"
proof -
  let ?k = "''sp-'' @ itoa (sps_nextID s)"
  let ?q = "stamped now (cfg\<lparr>pg_ID := ?k\<rparr>)"
  let ?m = "AList.update ?k ?q (sps_pages s)"
  have "pstore_ok no_pages" by (simp add: no_pages_def pstore_ok_def file_ok_def)
  with assms(1) have sok: "pstore_ok s" by (induction rule: rtranclp_induct) (simp_all add: page_step_ok)
  then have ok: "pages_ok (sps_pages s)" by (simp add: pstore_ok_def)
  have q: "pg_ID ?q = ?k" "pg_Slug ?q = pg_Slug cfg" by (simp_all add: stamped_def)
  have free: "\<not> (\<exists>(_, e) \<in> set (sps_pages s). pg_Slug e = pg_Slug cfg)" using assms(6) by force
  let ?s1 = "s\<lparr>sps_nextID := sps_nextID s + 1, sps_pages := ?m\<rparr>"
  have created: "sp_Create ord Written now cfg s = (?s1\<lparr>sps_file := Saved (sp_List ord ?s1)\<rparr>, Inr ?q)"
    using free assms(3-5) q by (simp add: sp_Create_def assign_page_id_def Let_def sp_save_def)
  have d: "distinct (map fst (sps_pages s))" using ok by (simp add: pages_ok_def)
  have set_m: "set ?m = insert (?k, ?q) {(l, w) \<in> set (sps_pages s). l \<noteq> ?k}" by (rule set_update [OF d])
  have "pg_ID p = ?k" using pages_okD [OF ok assms(2)] by simp
  have other: "pg_Slug w \<noteq> pg_Slug p" if lw: "(l, w) \<in> set ?m" for l w
  proof (cases "l = ?k \<and> w = ?q")
    case True
    then show ?thesis using assms(2,6) q(2) by force
  next
    case False
    with lw have "(l, w) \<in> set (sps_pages s)" "l \<noteq> ?k" unfolding set_m by auto
    then show ?thesis using slug_found [OF ok _ assms(2), of l w] by blast
  qed
  then have gone: "w \<noteq> p" if "(l, w) \<in> set ?m" for l w using that by blast
  have len: "length ?m = length (sps_pages s)"
  proof -
    have "?k \<in> set (map fst (sps_pages s))" using assms(2) by force
    then have "map fst ?m = map fst (sps_pages s)" by (simp only: update_keys if_True)
    then show ?thesis by (metis length_map)
  qed
  have listed: "set (sp_List o' ?s1) = snd ` set ?m" for o' by (simp add: sp_List_def)
  have "p \<notin> snd ` set ?m" using gone by force
  moreover have "find (\<lambda>e. pg_Slug e = pg_Slug p) (sp_List ord' ?s1) = None"
  proof -
    have "pg_Slug x \<noteq> pg_Slug p" if "x \<in> set (sp_List ord' ?s1)" for x
      using that other unfolding listed by fastforce
    then show ?thesis by (auto simp only: find_None_iff)
  qed
  ultimately show ?thesis
    using assms(7) created q \<open>pg_ID p = ?k\<close> len listed [of ord]
    by (auto simp: GetBySlug_def sp_List_def)
qed

theorem new_page_replaces_another_witness:
  "GetBySlug id ''b'' (create_page ''c'' restarted) = Inl ''status page with slug \"b\" not found'' \<and>
   length (sps_pages (create_page ''c'' restarted)) = 1"
proof -
  obtain p where p: "sps_pages restarted = [(''sp-2'', p)]" "pg_Slug p = ''b''"
    using restarted_facts(1,2) by (auto simp: map_eq_Cons_conv)
  have "''sp-'' @ itoa (sps_nextID restarted) = ''sp-2''" unfolding restarted_facts by code_simp
  then have hyps: "(''sp-'' @ itoa (sps_nextID restarted), p) \<in> set (sps_pages restarted)"
    "pg_Slug (named_page ''c'') \<notin> (pg_Slug \<circ> snd) ` set (sps_pages restarted)"
    by (simp_all add: p named_page_def)
  have cfg: "pg_ID (named_page ''c'') = []" "pg_Name (named_page ''c'') \<noteq> []" "pg_Slug (named_page ''c'') \<noteq> []"
    by (simp_all add: named_page_def blank_page_def)
  obtain r where "sp_Create id Written 5 (named_page ''c'') restarted = (create_page ''c'' restarted, r)"
    unfolding create_page_def by (cases "sp_Create id Written 5 (named_page ''c'') restarted") simp
  then show ?thesis
    using new_page_replaces_another [OF page_history hyps(1) cfg hyps(2), of id 5 _ r id] by (auto simp: p)
qed

section \<open>Incidents of the page, and what a refused update leaves\<close>

lemma recent_incidents:
  assumes "repo_list repo r = (incs, None)"
  shows "length (getRecentIncidents h (repo, r) page) \<le> 20 \<and>
    sorted_wrt (\<lambda>i j. spi_CreatedAt j \<le> spi_CreatedAt i) (getRecentIncidents h (repo, r) page) \<and>
    set (getRecentIncidents h (repo, r) page) \<subseteq> page_incident ` {inc \<in> set incs.
      inc_CheckID inc \<in> set (page_check_ids page (pw_state h)) \<and> pw_now h - 7 * day_ns \<le> inc_StartedAt inc}"
  using assms set_newest_first sorted_newest_first [of spi_CreatedAt]
  by (auto simp: getRecentIncidents_def Let_def sorted_wrt_take before_def time_add_def hour_def day_ns_def not_less
      dest!: in_set_takeD)

text \<open>An update that is refused because of its slug has renamed the page in memory already.\<close>

lemma refused_update_renames:
  assumes "map_of (sps_pages s) i = Some e" and "up_Name u = Some name" and "name \<noteq> []" and "up_Slug u = Some slug"
    and "slug \<noteq> []" and "slug \<noteq> pg_Slug e" and "(l, q) \<in> set (sps_pages s)" and "l \<noteq> i" and "pg_ID q = l" and "pg_Slug q = slug"
    and "distinct (map fst (sps_pages s))"
  shows "UpdatePartial ord w now i u s = (put_page i (e\<lparr>pg_Name := name\<rparr>) s, Inl (slug_taken slug))"
proof -
  have "(l, q) \<in> set (sps_pages (put_page i (e\<lparr>pg_Name := name\<rparr>) s))"
    using assms(7,8,11) by (simp add: put_page_def set_update)
  then have "slug_used_by_other i slug (put_page i (e\<lparr>pg_Name := name\<rparr>) s)"
    using assms(8-10) unfolding slug_used_by_other_def by blast
  then show ?thesis using assms(1-6) by (simp add: UpdatePartial_def given_text_def Let_def)
qed

end
