(* ===== verification/PageView.thy ===== *)
theory PageView
  imports StatusPages Checks
begin

text \<open>
  The HTML of a public status page (\<open>renderPublicStatusPage\<close> and its helpers in \<open>status_page_api.go\<close>). What
  administrators type and what checks report is escaped before it is put into the templates; the theorem
  says that it can therefore never add to the markup.
\<close>

section \<open>Escaping and formats\<close>

text \<open>\<open>html.EscapeString\<close>.\<close>

definition escape_char :: "char \<Rightarrow> string" where
  "escape_char c =
     (if c = CHR ''&'' then ''&amp;'' else if c = CHR 0x27 then ''&#39;'' else if c = CHR ''<'' then ''&lt;''
      else if c = CHR ''>'' then ''&gt;'' else if c = CHR 0x22 then ''&#34;'' else [c])"

definition escapeHTML :: "string \<Rightarrow> string" where
  "escapeHTML s = concat (map escape_char s)"

definition month_names :: "string list" where
  "month_names = [''Jan'', ''Feb'', ''Mar'', ''Apr'', ''May'', ''Jun'', ''Jul'', ''Aug'', ''Sep'', ''Oct'', ''Nov'', ''Dec'']"

definition month_day :: "gotime \<Rightarrow> string" where
  "month_day t = month_names ! nat (t_month 0 t - 1) @ '' '' @ itoa (t_day 0 t)"

definition clock :: "gotime \<Rightarrow> string" where
  "clock t = padded 2 (t_hour 0 t) @ '':'' @ padded 2 (t_minute 0 t)"

definition formatPublicStatusTime :: "gotime \<Rightarrow> string" where
  "formatPublicStatusTime t = (if is_zero t then [] else month_day t @ '', '' @ clock t @ '' UTC'')"

text \<open>\<open>parse\<close> is \<open>time.Parse\<close> with the layout RFC3339, which accepts fractions of a second too.\<close>

definition formatPublicStatusTimestamp :: "(string \<Rightarrow> gotime option) \<Rightarrow> string \<Rightarrow> string" where
  "formatPublicStatusTimestamp parse text =
     (case parse text of Some t \<Rightarrow> formatPublicStatusTime t | None \<Rightarrow> text)"

text \<open>The middle dot between parts, in UTF-8.\<close>

definition dot :: string where "dot = '' '' @ [CHR 0xC2, CHR 0xB7] @ '' ''"

section \<open>The parts of the page\<close>

text \<open>The length of the first character of a name in UTF-8; its upper case is that of the ASCII range.\<close>

definition rune_length :: "char \<Rightarrow> nat" where
  "rune_length c = (let n = of_char c :: nat in if n < 192 then 1 else if n < 224 then 2 else if n < 240 then 3 else 4)"

definition initial :: "string \<Rightarrow> string" where
  "initial name = (let name = trim_space name in if name = [] then ''H'' else to_upper (take (rune_length (hd name)) name))"

definition statusPageLogoHTML :: "StatusPageMeta \<Rightarrow> string" where
  "statusPageLogoHTML page =
     (if meta_LogoURL page = []
      then ''<div class=\"mark\" aria-hidden=\"true\">'' @ escapeHTML (initial (meta_Name page)) @ ''</div>''
      else ''<img class=\"logo\" src=\"'' @ escapeHTML (meta_LogoURL page) @ ''\" alt=\"\">'')"

definition statusPageAnnouncementHTML :: "string \<Rightarrow> string" where
  "statusPageAnnouncementHTML announcement =
     (if trim_space announcement = [] then [] else ''<div class=\"banner\">'' @ escapeHTML announcement @ ''</div>'')"

definition statusPageComponentLabel :: "string \<Rightarrow> string" where
  "statusPageComponentLabel status =
     (if status = ComponentOperational then ''Operational''
      else if status = ComponentDegraded then ''Degraded''
      else if status = ComponentPartialOutage then ''Partial outage''
      else if status = ComponentMajorOutage then ''Major outage''
      else if status = ComponentUnderMaintenance then ''Maintenance''
      else status)"

definition subtext_parts :: "(string \<Rightarrow> gotime option) \<Rightarrow> StatusPageComponentState \<Rightarrow> string list" where
  "subtext_parts parse c =
     (if cst_Description c \<noteq> [] then [cst_Description c] else []) @
     (if cst_Uptime c > 0 then [fmt_fixed 2 (cst_Uptime c) @ ''% uptime''] else []) @
     (if cst_Latency c > 0 then [itoa (cst_Latency c) @ '' ms latency''] else []) @
     (if cst_LastChecked c \<noteq> [] then [''checked '' @ formatPublicStatusTimestamp parse (cst_LastChecked c)] else [])"

definition statusPageComponentSubtext :: "(string \<Rightarrow> gotime option) \<Rightarrow> StatusPageComponentState \<Rightarrow> string" where
  "statusPageComponentSubtext parse c =
     (if subtext_parts parse c = [] then []
      else ''<div class=\"sub\">'' @ escapeHTML (join dot (subtext_parts parse c)) @ ''</div>'')"

definition component_row :: "(string \<Rightarrow> gotime option) \<Rightarrow> StatusPageComponentState \<Rightarrow> string" where
  "component_row parse c =
     ''<div class=\"row component\"><div><div class=\"name\">'' @ escapeHTML (cst_Name c) @ ''</div>'' @
     statusPageComponentSubtext parse c @ ''</div><span class=\"pill '' @ escapeHTML (cst_Status c) @ ''\">'' @
     escapeHTML (statusPageComponentLabel (cst_Status c)) @ ''</span></div>''"

definition buildStatusPageComponentRows :: "(string \<Rightarrow> gotime option) \<Rightarrow> StatusPageComponentState list \<Rightarrow> string" where
  "buildStatusPageComponentRows parse components =
     (if components = [] then ''<div class=\"empty\">No public components are configured.</div>''
      else concat (map (component_row parse) components))"

definition statusPageIncidentClass :: "string \<Rightarrow> string" where
  "statusPageIncidentClass status = (if status = ''resolved'' then ''operational'' else ''major_outage'')"

definition statusPageIncidentLabel :: "string \<Rightarrow> string" where
  "statusPageIncidentLabel status =
     (if status = ''open'' then ''Investigating'' else if status = ''acknowledged'' then ''Monitoring''
      else if status = ''resolved'' then ''Resolved'' else status)"

definition incident_row :: "StatusPageIncident \<Rightarrow> string" where
  "incident_row inc =
     (let status = (case spi_ResolvedAt inc of
                      None \<Rightarrow> statusPageIncidentLabel (spi_Status inc)
                    | Some t \<Rightarrow> ''Resolved '' @ month_day t @ '', '' @ clock t)
      in ''<div class=\"row incident '' @ escapeHTML (spi_Status inc) @ ''\"><div><div class=\"name\">'' @
         escapeHTML (spi_Title inc) @ ''</div><div class=\"sub\">'' @ escapeHTML (formatPublicStatusTime (spi_CreatedAt inc)) @
         dot @ escapeHTML (spi_Severity inc) @ ''</div></div><span class=\"pill '' @
         escapeHTML (statusPageIncidentClass (spi_Status inc)) @ ''\">'' @ escapeHTML status @ ''</span></div>'')"

definition buildStatusPageIncidentRows :: "StatusPageIncident list \<Rightarrow> string" where
  "buildStatusPageIncidentRows incidents =
     (if incidents = [] then ''<div class=\"empty\">No incidents reported in the last 7 days.</div>''
      else concat (map incident_row incidents))"

definition uptime_bar :: "string \<times> f64 \<Rightarrow> string" where
  "uptime_bar = (\<lambda>(day, uptime).
     let className = ''bar'' @ (if uptime < 95 then '' bad'' else if uptime < fl64 (999 / 10) then '' warn'' else [])
     in ''<span class=\"'' @ className @ ''\" title=\"'' @ escapeHTML day @ '': '' @ fmt_fixed 2 uptime @ ''%\"></span>'')"

definition buildStatusPageUptimeRows :: "(string \<times> f64) list \<Rightarrow> string" where
  "buildStatusPageUptimeRows days =
     (if days = [] then []
      else ''<section class=\"section\"><div class=\"section-head\"><h2>Uptime history</h2><span class=\"section-meta\">Daily availability</span></div><div class=\"panel\"><div class=\"uptime\" aria-label=\"Uptime history\">'' @
        concat (map uptime_bar days) @ ''</div></div></section>'')"

definition statusPageStatusClass :: "string \<Rightarrow> string" where
  "statusPageStatusClass indicator = (if indicator \<in> {''minor'', ''major'', ''critical''} then indicator else ''none'')"

definition statusPageStatusNote :: "string \<Rightarrow> string" where
  "statusPageStatusNote indicator =
     (if indicator = ''minor'' then ''Some components are degraded. We are monitoring the issue.''
      else if indicator \<in> {''major'', ''critical''} then ''One or more components are unavailable or severely degraded.''
      else ''All monitored components are reporting healthy checks.'')"

section \<open>The page\<close>

definition line_feed :: string where "line_feed = [CHR 0x0A]"

definition page_style :: string where
  "page_style =
     ''<style>'' @
     line_feed @ '':root{color-scheme:light;--bg:#f7f8fa;--panel:#fff;--text:#111827;--subtle:#6b7280;--muted:#8a95a3;--line:#e5e7eb;--line-strong:#d1d5db;--ok:#0a7f5a;--ok-bg:#e9f8f1;--warn:#a16207;--warn-bg:#fff7d6;--bad:#b42318;--bad-bg:#fff0ee;--maint:#475569;--maint-bg:#eef2f7}'' @
     line_feed @ ''*{box-sizing:border-box}html{background:var(--bg)}body{margin:0;background:linear-gradient(180deg,#fff 0,#f7f8fa 220px);color:var(--text);font-family:Inter,-apple-system,BlinkMacSystemFont,\"Segoe UI\",Roboto,Arial,sans-serif;font-size:15px;line-height:1.45;-webkit-font-smoothing:antialiased}'' @
     line_feed @ ''.wrap{width:min(960px,calc(100% - 48px));margin:0 auto;padding:38px 0 64px}.header{display:flex;align-items:flex-start;justify-content:space-between;gap:24px;margin-bottom:30px}'' @
     line_feed @ ''.brand{display:flex;align-items:center;gap:13px;min-width:0}.logo,.mark{width:38px;height:38px;border-radius:9px;flex:0 0 auto}.logo{object-fit:cover;background:#f1f5f9}.mark{display:grid;place-items:center;background:#111827;color:#fff;font-size:15px;font-weight:750;letter-spacing:0}'' @
     line_feed @ ''h1{margin:0;color:#111827;font-size:25px;font-weight:680;letter-spacing:0;line-height:1.2}.desc{max-width:620px;margin:4px 0 0;color:var(--subtle);font-size:14px;line-height:1.45}.stamp{margin-top:4px;color:var(--muted);font-size:12px;font-weight:520;text-align:right;white-space:nowrap}'' @
     line_feed @ ''.banner{margin:0 0 18px;border:1px solid #f2d48b;background:#fff9e8;color:#815b16;border-radius:8px;padding:11px 13px;font-size:13px;line-height:1.45}'' @
     line_feed @ ''.overview{display:flex;align-items:center;gap:15px;margin-bottom:30px;border:1px solid var(--line);background:var(--panel);border-radius:12px;padding:19px 20px;box-shadow:0 1px 2px rgba(16,24,40,.04)}'' @
     line_feed @ ''.indicator{width:14px;height:14px;border-radius:999px;flex:none}.overview.none .indicator{background:var(--ok);box-shadow:0 0 0 5px rgba(10,127,90,.11)}.overview.minor .indicator{background:#d99000;box-shadow:0 0 0 5px rgba(217,144,0,.14)}.overview.major .indicator,.overview.critical .indicator{background:#d92d20;box-shadow:0 0 0 5px rgba(217,45,32,.12)}'' @
     line_feed @ ''.status-title{margin:0;color:#111827;font-size:20px;font-weight:660;line-height:1.25}.status-note{margin-top:3px;color:var(--subtle);font-size:13px}'' @
     line_feed @ ''.section{margin-top:28px}.section-head{display:flex;align-items:baseline;justify-content:space-between;gap:16px;margin-bottom:10px}.section h2{margin:0;color:#1f2937;font-size:14px;font-weight:660;letter-spacing:0}.section-meta{color:var(--muted);font-size:12px}.panel{overflow:hidden;border:1px solid var(--line);border-radius:10px;background:var(--panel);box-shadow:0 1px 2px rgba(16,24,40,.03)}'' @
     line_feed @ ''.row{display:grid;grid-template-columns:minmax(0,1fr) auto;gap:18px;align-items:center;border-top:1px solid var(--line);padding:16px 18px}.row:first-child{border-top:0}.name{color:#111827;font-size:14px;font-weight:620;line-height:1.35}.sub{margin-top:4px;color:var(--subtle);font-size:12px;line-height:1.45}.pill{justify-self:end;display:inline-flex;align-items:center;min-height:26px;border-radius:999px;padding:4px 10px;font-size:12px;font-weight:620;line-height:1;text-align:center;white-space:nowrap}'' @
     line_feed @ ''.operational{background:var(--ok-bg);color:var(--ok)}.degraded_performance,.partial_outage{background:var(--warn-bg);color:var(--warn)}.major_outage{background:var(--bad-bg);color:var(--bad)}.under_maintenance{background:var(--maint-bg);color:var(--maint)}'' @
     line_feed @ ''.incident .name{font-weight:610}.incident.open{background:#fffafa}.empty{padding:18px;color:var(--subtle);font-size:13px}.uptime{display:grid;grid-template-columns:repeat(auto-fit,minmax(6px,1fr));gap:3px;padding:16px 18px}.bar{height:34px;border-radius:2px;background:#22c55e}.bar.warn{background:#f59e0b}.bar.bad{background:#ef4444}'' @
     line_feed @ ''@media(max-width:680px){body{background:#fff}.wrap{width:100%;padding:24px 16px 42px}.header{display:block;margin-bottom:22px}.stamp{text-align:left;margin-top:12px}.overview{padding:17px 16px}.row{grid-template-columns:1fr;gap:9px;padding:15px 16px}.pill{justify-self:start}h1{font-size:22px}.status-title{font-size:18px}.section{margin-top:24px}}'' @
     line_feed @ ''</style>''"

definition renderPublicStatusPage :: "(string \<Rightarrow> gotime option) \<Rightarrow> gotime \<Rightarrow> StatusPageResponse \<Rightarrow> string" where
  "renderPublicStatusPage parse now resp =
     (let title = escapeHTML (meta_Name (resp_Page resp));
          logo = statusPageLogoHTML (resp_Page resp);
          description = escapeHTML (meta_Description (resp_Page resp));
          stamp = escapeHTML (month_day now @ '', '' @ itoa (t_year 0 now) @ '' '' @ clock now @ '' UTC'');
          banner = statusPageAnnouncementHTML (meta_Announcement (resp_Page resp));
          status_class = statusPageStatusClass (os_Indicator (resp_Status resp));
          status_title = escapeHTML (os_Description (resp_Status resp));
          status_note = escapeHTML (statusPageStatusNote (os_Indicator (resp_Status resp)));
          component_rows = buildStatusPageComponentRows parse (resp_Components resp);
          incident_rows = buildStatusPageIncidentRows (resp_Incidents resp);
          uptime_rows = buildStatusPageUptimeRows (resp_UptimeData resp)
      in ''<!doctype html>'' @ line_feed @ ''<html lang=\"en\">'' @ line_feed @ ''<head>'' @ line_feed @
     ''<meta charset=\"utf-8\">'' @ line_feed @
     ''<meta name=\"viewport\" content=\"width=device-width, initial-scale=1\">'' @ line_feed @ ''<title>'' @
     title @ ''</title>'' @ line_feed @ page_style @ line_feed @ ''</head>'' @ line_feed @ ''<body>'' @ line_feed @
     ''<main class=\"wrap\">'' @ line_feed @ ''<header class=\"header\">'' @ line_feed @ ''<div class=\"brand\">'' @
     logo @ ''<div><h1>'' @ title @ ''</h1><p class=\"desc\">'' @ description @ ''</p></div></div>'' @ line_feed @
     ''<div class=\"stamp\">Updated '' @ stamp @ ''</div>'' @ line_feed @ ''</header>'' @ line_feed @ banner @
     line_feed @ ''<section class=\"overview '' @ status_class @
     ''\"><span class=\"indicator\"></span><div><p class=\"status-title\">'' @ status_title @
     ''</p><div class=\"status-note\">'' @ status_note @ ''</div></div></section>'' @ line_feed @
     ''<section class=\"section\"><div class=\"section-head\"><h2>Components</h2><span class=\"section-meta\">Current status</span></div><div class=\"panel\">'' @
     component_rows @ ''</div></section>'' @ line_feed @
     ''<section class=\"section\"><div class=\"section-head\"><h2>Recent incidents</h2><span class=\"section-meta\">Last 7 days</span></div><div class=\"panel\">'' @
     incident_rows @ ''</div></section>'' @ line_feed @ uptime_rows @ line_feed @ ''</main>'' @ line_feed @
     ''</body>'' @ line_feed @ ''</html>'')"

section \<open>No text becomes markup\<close>

definition markup_char :: "char \<Rightarrow> bool" where
  "markup_char c \<longleftrightarrow> c = CHR ''<'' \<or> c = CHR ''>'' \<or> c = CHR 0x22 \<or> c = CHR 0x27"

definition markup :: "string \<Rightarrow> string" where
  "markup s = filter markup_char s"

lemma markup_Nil [simp]: "markup [] = []"
  by (simp add: markup_def)

lemma markup_Cons [simp]: "markup (c # s) = (if markup_char c then c # markup s else markup s)"
  by (simp add: markup_def)

lemma markup_append [simp]: "markup (s @ t) = markup s @ markup t"
  by (simp add: markup_def)

lemma markup_plain: "(\<And>c. c \<in> set s \<Longrightarrow> \<not> markup_char c) \<Longrightarrow> markup s = []"
  by (simp add: markup_def filter_empty_conv)

lemma markup_escape [simp]: "markup (escapeHTML s) = []"
proof -
  have "markup (escape_char c) = []" for c
    by (simp add: escape_char_def markup_char_def)
  then show ?thesis by (induction s) (simp_all add: escapeHTML_def)
qed

lemma markup_concat [simp]: "markup (concat xs) = concat (map markup xs)"
  by (induction xs) simp_all

lemma markup_itoa [simp]: "markup (itoa i) = []"
proof (rule markup_plain)
  fix c
  assume "c \<in> set (itoa i)"
  then have "c = CHR ''-'' \<or> (48 \<le> (of_char c :: nat) \<and> (of_char c :: nat) < 58)"
    by (auto simp: itoa_def dest: nat_digits_digit split: if_splits)
  then show "\<not> markup_char c" by (auto simp: markup_char_def)
qed

lemma markup_fixed [simp]: "markup (fmt_fixed k q) = []"
proof -
  have "markup (replicate n (CHR ''0'')) = []" for n by (rule markup_plain) (simp add: markup_char_def)
  then show ?thesis by (simp add: fmt_fixed_def Let_def markup_char_def)
qed

text \<open>The shape of a response: everything that decides which tags the page has, and no text.\<close>

definition component_shape :: "(string \<Rightarrow> gotime option) \<Rightarrow> StatusPageComponentState \<Rightarrow> bool" where
  "component_shape parse c \<longleftrightarrow> subtext_parts parse c \<noteq> []"

definition page_shape :: "(string \<Rightarrow> gotime option) \<Rightarrow> StatusPageResponse \<Rightarrow> bool \<times> bool \<times> bool list \<times> nat \<times> nat" where
  "page_shape parse r =
     (meta_LogoURL (resp_Page r) = [], trim_space (meta_Announcement (resp_Page r)) = [],
      map (component_shape parse) (resp_Components r), length (resp_Incidents r), length (resp_UptimeData r))"

text \<open>The tags of each part, given its shape.\<close>

lemma markup_component_row:
  "markup (component_row parse c) = markup (''<div class=\"row component\"><div><div class=\"name\"></div>'' @
     (if component_shape parse c then ''<div class=\"sub\"></div>'' else []) @ ''</div><span class=\"pill \"></span></div>'')"
  by (simp add: component_row_def component_shape_def statusPageComponentSubtext_def markup_char_def)

lemma markup_incident_row:
  "markup (incident_row inc) = markup (''<div class=\"row incident \"><div><div class=\"name\"></div><div class=\"sub\">'' @
     dot @ ''</div></div><span class=\"pill \"></span></div>'')"
  by (simp add: incident_row_def markup_char_def Let_def)

lemma markup_uptime_bar: "markup (uptime_bar d) = markup ''<span class=\"\" title=\"\"></span>''"
  by (simp add: uptime_bar_def markup_char_def Let_def split: prod.split)

lemma markup_logo:
  "markup (statusPageLogoHTML p) = markup (if meta_LogoURL p = [] then ''<div class=\"mark\" aria-hidden=\"true\"></div>''
     else ''<img class=\"logo\" src=\"\" alt=\"\">'')"
  by (simp add: statusPageLogoHTML_def markup_char_def)

lemma markup_announcement:
  "markup (statusPageAnnouncementHTML a) = markup (if trim_space a = [] then [] else ''<div class=\"banner\"></div>'')"
  by (simp add: statusPageAnnouncementHTML_def markup_char_def)

lemma markup_class [simp]: "markup (statusPageStatusClass i) = []"
  by (auto simp: statusPageStatusClass_def markup_char_def)

lemma same_rows:
  "(\<And>x. f x = g (shape x)) \<Longrightarrow> map shape xs = map shape ys \<Longrightarrow> concat (map f xs) = concat (map f ys)"
proof -
  assume f: "\<And>x. f x = g (shape x)" and eq: "map shape xs = map shape ys"
  have "map f zs = map g (map shape zs)" for zs by (simp add: f)
  with eq show ?thesis by metis
qed

lemma markup_component_rows:
  assumes "map (component_shape parse) cs = map (component_shape parse) ds"
  shows "markup (buildStatusPageComponentRows parse cs) = markup (buildStatusPageComponentRows parse ds)"
proof -
  have "cs = [] \<longleftrightarrow> ds = []" using assms by (metis map_is_Nil_conv)
  moreover have "concat (map (\<lambda>c. markup (component_row parse c)) cs) = concat (map (\<lambda>c. markup (component_row parse c)) ds)"
    using markup_component_row assms by (rule same_rows)
  ultimately show ?thesis by (simp add: buildStatusPageComponentRows_def o_def)
qed

lemma markup_incident_rows:
  assumes "length is = length js"
  shows "markup (buildStatusPageIncidentRows is) = markup (buildStatusPageIncidentRows js)"
proof -
  have "is = [] \<longleftrightarrow> js = []" using assms by (metis length_0_conv)
  moreover have "map (\<lambda>i. markup (incident_row i)) is = map (\<lambda>i. markup (incident_row i)) js"
    unfolding markup_incident_row map_replicate_const assms ..
  ultimately show ?thesis by (simp add: buildStatusPageIncidentRows_def o_def)
qed

lemma markup_uptime_rows:
  assumes "length ds = length es"
  shows "markup (buildStatusPageUptimeRows ds) = markup (buildStatusPageUptimeRows es)"
proof -
  have "ds = [] \<longleftrightarrow> es = []" using assms by (metis length_0_conv)
  moreover have "map (\<lambda>d. markup (uptime_bar d)) ds = map (\<lambda>d. markup (uptime_bar d)) es"
    unfolding markup_uptime_bar map_replicate_const assms ..
  ultimately show ?thesis by (simp add: buildStatusPageUptimeRows_def o_def)
qed

text \<open>
  C20: No text becomes markup. Two public pages of the same shape (logo and announcement given or not, the
  same number of components, with or without a line below their name, of incidents and of days) consist of
  exactly the same brackets and quotes in the same order, whatever names, descriptions, messages and
  addresses are shown: nothing that an administrator typed or a check reported adds a tag or ends an attribute.
\<close>

theorem no_text_becomes_markup:
  assumes "page_shape parse r = page_shape parse r'"
  shows "markup (renderPublicStatusPage parse now r) = markup (renderPublicStatusPage parse now' r')"
proof -
  have shape: "meta_LogoURL (resp_Page r) = [] \<longleftrightarrow> meta_LogoURL (resp_Page r') = []"
    "trim_space (meta_Announcement (resp_Page r)) = [] \<longleftrightarrow> trim_space (meta_Announcement (resp_Page r')) = []"
    "map (component_shape parse) (resp_Components r) = map (component_shape parse) (resp_Components r')"
    "length (resp_Incidents r) = length (resp_Incidents r')" "length (resp_UptimeData r) = length (resp_UptimeData r')"
    using assms by (simp_all add: page_shape_def)
  have "markup (statusPageLogoHTML (resp_Page r)) = markup (statusPageLogoHTML (resp_Page r'))"
    unfolding markup_logo by (simp only: shape(1))
  moreover have "markup (statusPageAnnouncementHTML (meta_Announcement (resp_Page r))) =
      markup (statusPageAnnouncementHTML (meta_Announcement (resp_Page r')))"
    unfolding markup_announcement by (simp only: shape(2))
  ultimately show ?thesis
    unfolding renderPublicStatusPage_def Let_def markup_append markup_escape markup_class
    using markup_component_rows [OF shape(3)] markup_incident_rows [OF shape(4)] markup_uptime_rows [OF shape(5)]
    by (simp only:)
qed

definition titled :: "string \<Rightarrow> StatusPageResponse" where
  "titled name = \<lparr>resp_Page = \<lparr>meta_Name = name, meta_Description = [], meta_LogoURL = [], meta_Announcement = []\<rparr>,
     resp_Status = overall_status [],
     resp_Components = [\<lparr>cst_ID = [], cst_Name = name, cst_Description = [], cst_Group = [],
       cst_Status = ComponentOperational, cst_Uptime = 0, cst_Latency = 12, cst_LastChecked = []\<rparr>],
     resp_Incidents = [], resp_UptimeData = []\<rparr>"

theorem no_text_becomes_markup_witness:
  "markup (renderPublicStatusPage (\<lambda>_. None) 0 (titled ''<script>'')) = markup (renderPublicStatusPage (\<lambda>_. None) 0 (titled ''Acme''))"
  by (rule no_text_becomes_markup) (simp add: page_shape_def titled_def component_shape_def subtext_parts_def)

end
