(* ===== verification/Documents.thy ===== *)
theory Documents
  imports Prelude
begin

text \<open>
  A collection of documents in MongoDB, as the repositories of \<open>repositories/\<close> use it through the
  driver. The driver and the server are third-party code: the calls are a record of functions over a
  database \<open>'w\<close>, filters and updates are functions on the documents, and what the documentation
  promises of the calls is the predicate \<open>coll_ok\<close>. A call that reports an error may have taken effect
  or not, because the answer may be lost after the server has worked. The last section gives a database
  that keeps the promises, for evaluation.
\<close>

section \<open>The calls of the driver\<close>

datatype insert_answer = DocInserted | DocDuplicate | DocFailed string

datatype find_stage = QueryStage | DecodeStage | IterateStage

text \<open>
  \<open>cl_update p f (Some d)\<close> is an update (or \<open>ReplaceOne\<close>) with the upsert option, and its answer is the
  number of documents matched. The arguments of \<open>cl_find\<close> are the filter, the order, \<open>skip\<close> and \<open>limit\<close>;
  when it fails it says where, and which documents the cursor had delivered before;
  the flag of \<open>cl_modify\<close> asks for the document after the update.
\<close>

record ('w, 'd) Collection =
  cl_insert :: "'d \<Rightarrow> 'w \<Rightarrow> 'w \<times> insert_answer"
  cl_update :: "('d \<Rightarrow> bool) \<Rightarrow> ('d \<Rightarrow> 'd) \<Rightarrow> 'd option \<Rightarrow> 'w \<Rightarrow> 'w \<times> (string + nat)"
  cl_delete_one :: "('d \<Rightarrow> bool) \<Rightarrow> 'w \<Rightarrow> 'w \<times> (string + nat)"
  cl_delete_many :: "('d \<Rightarrow> bool) \<Rightarrow> 'w \<Rightarrow> 'w \<times> (string + nat)"
  cl_find :: "('d \<Rightarrow> bool) \<Rightarrow> ('d \<Rightarrow> 'd \<Rightarrow> bool) \<Rightarrow> nat \<Rightarrow> nat option \<Rightarrow> 'w \<Rightarrow> (find_stage \<times> string \<times> 'd list) + 'd list"
  cl_find_one :: "('d \<Rightarrow> bool) \<Rightarrow> ('d \<Rightarrow> 'd \<Rightarrow> bool) \<Rightarrow> 'w \<Rightarrow> string + 'd option"
  cl_modify :: "('d \<Rightarrow> bool) \<Rightarrow> ('d \<Rightarrow> 'd) \<Rightarrow> ('d \<Rightarrow> 'd \<Rightarrow> bool) \<Rightarrow> bool \<Rightarrow> 'w \<Rightarrow> 'w \<times> (string + 'd option)"
  cl_count :: "('d \<Rightarrow> bool) \<Rightarrow> 'w \<Rightarrow> string + nat"

text \<open>A \<open>time.Time\<close> is stored in milliseconds.\<close>

definition bson_time :: "gotime \<Rightarrow> gotime" where
  "bson_time t = t - t mod 1000000"

lemma bson_time_idem [simp]: "bson_time (bson_time t) = bson_time t"
  by (simp add: bson_time_def minus_mod_eq_mult_div)

lemma bson_time_mono: "t \<le> u \<Longrightarrow> bson_time t \<le> bson_time u"
  by (simp add: bson_time_def minus_mod_eq_mult_div zdiv_mono1)

lemma bson_time_le: "bson_time t \<le> t" "t < bson_time t + 1000000"
  using pos_mod_bound [of 1000000 t] pos_mod_sign [of 1000000 t] by (simp_all add: bson_time_def)

section \<open>What the calls promise\<close>

definition page_of :: "nat \<Rightarrow> nat option \<Rightarrow> 'd list \<Rightarrow> 'd list" where
  "page_of skip limit xs = (case limit of None \<Rightarrow> drop skip xs | Some n \<Rightarrow> take n (drop skip xs))"

definition preorder :: "('d \<Rightarrow> 'd \<Rightarrow> bool) \<Rightarrow> bool" where
  "preorder le \<longleftrightarrow> (\<forall>a b. le a b \<or> le b a) \<and> (\<forall>a b c. le a b \<longrightarrow> le b c \<longrightarrow> le a c)"

definition any_order :: "'d \<Rightarrow> 'd \<Rightarrow> bool" where
  "any_order a b = True"

definition newest :: "('d \<Rightarrow> gotime) \<Rightarrow> 'd \<Rightarrow> 'd \<Rightarrow> bool" where
  "newest time_of a b \<longleftrightarrow> time_of b \<le> time_of a"

definition oldest :: "('d \<Rightarrow> gotime) \<Rightarrow> 'd \<Rightarrow> 'd \<Rightarrow> bool" where
  "oldest time_of a b \<longleftrightarrow> time_of a \<le> time_of b"

lemma preorder_orders [simp]: "preorder any_order" "preorder (newest f)" "preorder (oldest f)"
  by (auto simp: preorder_def any_order_def newest_def oldest_def)

definition updated :: "('d \<Rightarrow> bool) \<Rightarrow> ('d \<Rightarrow> 'd) \<Rightarrow> 'd option \<Rightarrow> 'd multiset \<Rightarrow> 'd multiset \<Rightarrow> bool" where
  "updated P f ups M M' \<longleftrightarrow>
     (if \<exists>x. x \<in># M \<and> P x then \<exists>x. x \<in># M \<and> P x \<and> M' = add_mset (f x) (M - {#x#})
      else M' = (case ups of None \<Rightarrow> M | Some d \<Rightarrow> add_mset d M))"

definition removed_one :: "('d \<Rightarrow> bool) \<Rightarrow> 'd multiset \<Rightarrow> 'd multiset \<Rightarrow> bool" where
  "removed_one P M M' \<longleftrightarrow> (if \<exists>x. x \<in># M \<and> P x then \<exists>x. x \<in># M \<and> P x \<and> M' = M - {#x#} else M' = M)"

definition first_of :: "('d \<Rightarrow> bool) \<Rightarrow> ('d \<Rightarrow> 'd \<Rightarrow> bool) \<Rightarrow> 'd multiset \<Rightarrow> 'd \<Rightarrow> bool" where
  "first_of P le M x \<longleftrightarrow> x \<in># M \<and> P x \<and> (\<forall>y. y \<in># M \<and> P y \<longrightarrow> le x y)"

definition matches :: "('d \<Rightarrow> bool) \<Rightarrow> 'd multiset \<Rightarrow> nat" where
  "matches P M = (if \<exists>x. x \<in># M \<and> P x then 1 else 0)"

text \<open>\<open>conflict\<close> holds of two documents that a unique index, that of \<open>_id\<close> or another, keeps apart.\<close>

definition insert_ok :: "('d \<Rightarrow> 'd \<Rightarrow> bool) \<Rightarrow> ('w \<Rightarrow> 'd multiset) \<Rightarrow> ('w, 'd) Collection \<Rightarrow> bool" where
  "insert_ok conflict docs C \<longleftrightarrow> (\<forall>d w w' a. cl_insert C d w = (w', a) \<longrightarrow>
     (case a of DocInserted \<Rightarrow> docs w' = add_mset d (docs w) \<and> (\<forall>x. x \<in># docs w \<longrightarrow> \<not> conflict x d)
      | DocDuplicate \<Rightarrow> docs w' = docs w \<and> (\<exists>x. x \<in># docs w \<and> conflict x d)
      | DocFailed _ \<Rightarrow> docs w' = docs w \<or> docs w' = add_mset d (docs w) \<and> (\<forall>x. x \<in># docs w \<longrightarrow> \<not> conflict x d)))"

definition update_ok :: "('w \<Rightarrow> 'd multiset) \<Rightarrow> ('w, 'd) Collection \<Rightarrow> bool" where
  "update_ok docs C \<longleftrightarrow> (\<forall>P f ups w w' a. cl_update C P f ups w = (w', a) \<longrightarrow>
     (case a of Inr n \<Rightarrow> updated P f ups (docs w) (docs w') \<and> n = matches P (docs w)
      | Inl _ \<Rightarrow> docs w' = docs w \<or> updated P f ups (docs w) (docs w')))"

definition delete_ok :: "('w \<Rightarrow> 'd multiset) \<Rightarrow> ('w, 'd) Collection \<Rightarrow> bool" where
  "delete_ok docs C \<longleftrightarrow> (\<forall>P w w' a. cl_delete_one C P w = (w', a) \<longrightarrow>
     (case a of Inr n \<Rightarrow> removed_one P (docs w) (docs w') \<and> n = matches P (docs w)
      | Inl _ \<Rightarrow> docs w' = docs w \<or> removed_one P (docs w) (docs w')))"

definition delete_many_ok :: "('w \<Rightarrow> 'd multiset) \<Rightarrow> ('w, 'd) Collection \<Rightarrow> bool" where
  "delete_many_ok docs C \<longleftrightarrow> (\<forall>P w w' a. cl_delete_many C P w = (w', a) \<longrightarrow>
     (case a of Inr n \<Rightarrow> docs w' = filter_mset (\<lambda>x. \<not> P x) (docs w) \<and> n = size (filter_mset P (docs w))
      | Inl _ \<Rightarrow> docs w' \<subseteq># docs w \<and> filter_mset (\<lambda>x. \<not> P x) (docs w) \<subseteq># docs w'))"

definition find_ok :: "('w \<Rightarrow> 'd multiset) \<Rightarrow> ('w, 'd) Collection \<Rightarrow> bool" where
  "find_ok docs C \<longleftrightarrow> (\<forall>P le skip limit w ds. preorder le \<longrightarrow> cl_find C P le skip limit w = Inr ds \<longrightarrow>
     (\<exists>xs. mset xs = filter_mset P (docs w) \<and> sorted_wrt le xs \<and> ds = page_of skip limit xs))"

definition find_one_ok :: "('w \<Rightarrow> 'd multiset) \<Rightarrow> ('w, 'd) Collection \<Rightarrow> bool" where
  "find_one_ok docs C \<longleftrightarrow> (\<forall>P le w d. preorder le \<longrightarrow> cl_find_one C P le w = Inr d \<longrightarrow>
     (case d of None \<Rightarrow> \<forall>x. x \<in># docs w \<longrightarrow> \<not> P x | Some x \<Rightarrow> first_of P le (docs w) x))"

definition modify_ok :: "('w \<Rightarrow> 'd multiset) \<Rightarrow> ('w, 'd) Collection \<Rightarrow> bool" where
  "modify_ok docs C \<longleftrightarrow> (\<forall>P f le new w w' a. preorder le \<longrightarrow> cl_modify C P f le new w = (w', a) \<longrightarrow>
     (case a of Inr None \<Rightarrow> docs w' = docs w \<and> (\<forall>x. x \<in># docs w \<longrightarrow> \<not> P x)
      | Inr (Some d) \<Rightarrow> \<exists>x. first_of P le (docs w) x \<and> docs w' = add_mset (f x) (docs w - {#x#}) \<and>
          d = (if new then f x else x)
      | Inl _ \<Rightarrow> docs w' = docs w \<or> (\<exists>x. first_of P le (docs w) x \<and> docs w' = add_mset (f x) (docs w - {#x#}))))"

definition count_ok :: "('w \<Rightarrow> 'd multiset) \<Rightarrow> ('w, 'd) Collection \<Rightarrow> bool" where
  "count_ok docs C \<longleftrightarrow> (\<forall>P w n. cl_count C P w = Inr n \<longrightarrow> n = size (filter_mset P (docs w)))"

definition coll_ok :: "('d \<Rightarrow> 'd \<Rightarrow> bool) \<Rightarrow> ('w \<Rightarrow> 'd multiset) \<Rightarrow> ('w, 'd) Collection \<Rightarrow> bool" where
  "coll_ok conflict docs C \<longleftrightarrow> insert_ok conflict docs C \<and> update_ok docs C \<and> delete_ok docs C \<and>
     delete_many_ok docs C \<and> find_ok docs C \<and> find_one_ok docs C \<and> modify_ok docs C \<and> count_ok docs C"

lemma coll_insert:
  assumes "coll_ok conflict docs C" and "cl_insert C d w = (w', a)"
  shows "case a of DocInserted \<Rightarrow> docs w' = add_mset d (docs w) \<and> (\<forall>x. x \<in># docs w \<longrightarrow> \<not> conflict x d)
    | DocDuplicate \<Rightarrow> docs w' = docs w \<and> (\<exists>x. x \<in># docs w \<and> conflict x d)
    | DocFailed _ \<Rightarrow> docs w' = docs w \<or> docs w' = add_mset d (docs w) \<and> (\<forall>x. x \<in># docs w \<longrightarrow> \<not> conflict x d)"
  using assms by (simp add: coll_ok_def insert_ok_def)

lemma coll_update:
  assumes "coll_ok conflict docs C" and "cl_update C P f ups w = (w', a)"
  shows "case a of Inr n \<Rightarrow> updated P f ups (docs w) (docs w') \<and> n = matches P (docs w)
    | Inl _ \<Rightarrow> docs w' = docs w \<or> updated P f ups (docs w) (docs w')"
  using assms by (simp add: coll_ok_def update_ok_def)

lemma coll_delete_one:
  assumes "coll_ok conflict docs C" and "cl_delete_one C P w = (w', a)"
  shows "case a of Inr n \<Rightarrow> removed_one P (docs w) (docs w') \<and> n = matches P (docs w)
    | Inl _ \<Rightarrow> docs w' = docs w \<or> removed_one P (docs w) (docs w')"
  using assms by (simp add: coll_ok_def delete_ok_def)

lemma coll_delete_many:
  assumes "coll_ok conflict docs C" and "cl_delete_many C P w = (w', a)"
  shows "case a of Inr n \<Rightarrow> docs w' = filter_mset (\<lambda>x. \<not> P x) (docs w) \<and> n = size (filter_mset P (docs w))
    | Inl _ \<Rightarrow> docs w' \<subseteq># docs w \<and> filter_mset (\<lambda>x. \<not> P x) (docs w) \<subseteq># docs w'"
  using assms by (simp add: coll_ok_def delete_many_ok_def)

lemma coll_find:
  assumes "coll_ok conflict docs C" and "preorder le" and "cl_find C P le skip limit w = Inr ds"
  obtains xs where "mset xs = filter_mset P (docs w)" and "sorted_wrt le xs" and "ds = page_of skip limit xs"
  using assms unfolding coll_ok_def find_ok_def by blast

lemma coll_find_one:
  assumes "coll_ok conflict docs C" and "preorder le" and "cl_find_one C P le w = Inr d"
  shows "case d of None \<Rightarrow> \<forall>x. x \<in># docs w \<longrightarrow> \<not> P x | Some x \<Rightarrow> first_of P le (docs w) x"
  using assms by (simp add: coll_ok_def find_one_ok_def)

lemma coll_modify:
  assumes "coll_ok conflict docs C" and "preorder le" and "cl_modify C P f le new w = (w', a)"
  shows "case a of Inr None \<Rightarrow> docs w' = docs w \<and> (\<forall>x. x \<in># docs w \<longrightarrow> \<not> P x)
    | Inr (Some d) \<Rightarrow> \<exists>x. first_of P le (docs w) x \<and> docs w' = add_mset (f x) (docs w - {#x#}) \<and> d = (if new then f x else x)
    | Inl _ \<Rightarrow> docs w' = docs w \<or> (\<exists>x. first_of P le (docs w) x \<and> docs w' = add_mset (f x) (docs w - {#x#}))"
  using assms by (simp add: coll_ok_def modify_ok_def)

lemma coll_count:
  assumes "coll_ok conflict docs C" and "cl_count C P w = Inr n"
  shows "n = size (filter_mset P (docs w))"
  using assms by (simp add: coll_ok_def count_ok_def)

section \<open>A database that keeps the promises\<close>

fun insort_by :: "('d \<Rightarrow> 'd \<Rightarrow> bool) \<Rightarrow> 'd \<Rightarrow> 'd list \<Rightarrow> 'd list" where
  "insort_by le x [] = [x]"
| "insort_by le x (y # ys) = (if le x y then x # y # ys else y # insort_by le x ys)"

definition sort_by :: "('d \<Rightarrow> 'd \<Rightarrow> bool) \<Rightarrow> 'd list \<Rightarrow> 'd list" where
  "sort_by le xs = foldr (insort_by le) xs []"

lemma mset_insort_by: "mset (insort_by le x ys) = add_mset x (mset ys)"
  by (induction ys) auto

lemma mset_sort_by [simp]: "mset (sort_by le xs) = mset xs"
  unfolding sort_by_def by (induction xs) (auto simp: mset_insort_by)

lemma set_sort_by [simp]: "set (sort_by le xs) = set xs"
  by (metis mset_sort_by set_mset_mset)

lemma sorted_insort_by: "preorder le \<Longrightarrow> sorted_wrt le ys \<Longrightarrow> sorted_wrt le (insort_by le x ys)"
proof (induction ys)
  case (Cons y ys)
  have *: "set (insort_by le x ys) = insert x (set ys)"
    by (metis mset_insort_by set_mset_add_mset_insert set_mset_mset)
  from Cons show ?case unfolding preorder_def by (auto simp: *)
qed simp

lemma sorted_sort_by: "preorder le \<Longrightarrow> sorted_wrt le (sort_by le xs)"
  unfolding sort_by_def by (induction xs) (auto simp: sorted_insort_by)

fun change_first :: "('d \<Rightarrow> bool) \<Rightarrow> ('d \<Rightarrow> 'd list) \<Rightarrow> 'd list \<Rightarrow> 'd list" where
  "change_first P f [] = []"
| "change_first P f (x # xs) = (if P x then f x @ xs else x # change_first P f xs)"

lemma change_first_none: "\<forall>x \<in> set xs. \<not> P x \<Longrightarrow> change_first P f xs = xs"
  by (induction xs) auto

lemma change_first_some:
  "x \<in> set xs \<Longrightarrow> P x \<Longrightarrow>
     \<exists>y. y \<in># mset xs \<and> P y \<and> mset (change_first P f xs) = mset (f y) + (mset xs - {#y#})"
proof (induction xs)
  case (Cons z zs)
  show ?case
  proof (cases "P z")
    case True
    then show ?thesis by (intro exI [of _ z]) (simp add: union_mset_add_mset_right)
  next
    case False
    then obtain y where "y \<in># mset zs" "P y" "mset (change_first P f zs) = mset (f y) + (mset zs - {#y#})"
      using Cons by auto
    then show ?thesis using False by (intro exI [of _ y]) (auto simp: add_mset_commute)
  qed
qed simp

lemma sorted_hd: "preorder le \<Longrightarrow> sorted_wrt le xs \<Longrightarrow> xs \<noteq> [] \<Longrightarrow> y \<in> set xs \<Longrightarrow> le (hd xs) y"
  by (cases xs) (auto simp: preorder_def)

definition best :: "('d \<Rightarrow> bool) \<Rightarrow> ('d \<Rightarrow> 'd \<Rightarrow> bool) \<Rightarrow> 'd list \<Rightarrow> 'd option" where
  "best P le xs = (case sort_by le (filter P xs) of [] \<Rightarrow> None | x # _ \<Rightarrow> Some x)"

lemma best_None: "best P le xs = None \<longleftrightarrow> (\<forall>x \<in> set xs. \<not> P x)"
proof -
  have "set (sort_by le (filter P xs)) = {x \<in> set xs. P x}" by simp
  then show ?thesis by (cases "sort_by le (filter P xs)") (auto simp: best_def)
qed

lemma best_Some:
  assumes "preorder le" and "best P le xs = Some x"
  shows "first_of P le (mset xs) x"
proof -
  obtain ys where s: "sort_by le (filter P xs) = x # ys" using assms(2) by (auto simp: best_def split: list.splits)
  have "set (x # ys) = set (filter P xs)" by (metis s set_sort_by)
  moreover have "sorted_wrt le (x # ys)" using sorted_sort_by [OF assms(1)] s by metis
  ultimately show ?thesis
    using sorted_hd [OF assms(1), of "x # ys"] by (auto simp: first_of_def)
qed

definition list_collection :: "('d \<Rightarrow> 'd \<Rightarrow> bool) \<Rightarrow> ('d list, 'd) Collection" where
  "list_collection conflict = \<lparr>
     cl_insert = (\<lambda>d xs. if list_ex (\<lambda>x. conflict x d) xs then (xs, DocDuplicate) else (xs @ [d], DocInserted)),
     cl_update = (\<lambda>P f ups xs.
       if list_ex P xs then (change_first P (\<lambda>x. [f x]) xs, Inr 1)
       else (case ups of None \<Rightarrow> xs | Some d \<Rightarrow> xs @ [d], Inr 0)),
     cl_delete_one = (\<lambda>P xs. (change_first P (\<lambda>x. []) xs, Inr (if list_ex P xs then 1 else 0))),
     cl_delete_many = (\<lambda>P xs. (filter (\<lambda>x. \<not> P x) xs, Inr (length (filter P xs)))),
     cl_find = (\<lambda>P le skip limit xs. Inr (page_of skip limit (sort_by le (filter P xs)))),
     cl_find_one = (\<lambda>P le xs. Inr (best P le xs)),
     cl_modify = (\<lambda>P f le new xs. case best P le xs of
         None \<Rightarrow> (xs, Inr None)
       | Some x \<Rightarrow> (f x # remove1 x xs, Inr (Some (if new then f x else x)))),
     cl_count = (\<lambda>P xs. Inr (length (filter P xs)))\<rparr>"

lemma list_collection_ok: "coll_ok conflict mset (list_collection conflict)"
proof -
  note unf = list_collection_def
  have "insert_ok conflict mset (list_collection conflict)"
    unfolding insert_ok_def by (auto simp: unf list_ex_iff split: if_splits)
  moreover have "update_ok mset (list_collection conflict)"
    unfolding update_ok_def
  proof (intro allI impI)
    fix P f ups w w' a
    assume e: "cl_update (list_collection conflict) P f ups w = (w', a)"
    show "case a of Inr n \<Rightarrow> updated P f ups (mset w) (mset w') \<and> n = matches P (mset w)
      | Inl _ \<Rightarrow> mset w' = mset w \<or> updated P f ups (mset w) (mset w')"
    proof (cases "list_ex P w")
      case True
      then obtain x where x: "x \<in> set w" "P x" by (auto simp: list_ex_iff)
      from change_first_some [of x w P "\<lambda>x. [f x]", OF x] x True e show ?thesis
        by (auto simp: unf updated_def matches_def)
    next
      case False
      then show ?thesis using e by (auto simp: unf updated_def matches_def list_ex_iff split: option.splits)
    qed
  qed
  moreover have "delete_ok mset (list_collection conflict)"
    unfolding delete_ok_def
  proof (intro allI impI)
    fix P w w' a
    assume e: "cl_delete_one (list_collection conflict) P w = (w', a)"
    show "case a of Inr n \<Rightarrow> removed_one P (mset w) (mset w') \<and> n = matches P (mset w)
      | Inl _ \<Rightarrow> mset w' = mset w \<or> removed_one P (mset w) (mset w')"
    proof (cases "list_ex P w")
      case True
      then obtain x where x: "x \<in> set w" "P x" by (auto simp: list_ex_iff)
      from change_first_some [of x w P "\<lambda>x. []", OF x] x True e show ?thesis
        by (auto simp: unf removed_one_def matches_def)
    next
      case False
      then have "\<forall>x \<in> set w. \<not> P x" by (simp add: list_ex_iff)
      with e False show ?thesis by (auto simp: unf removed_one_def matches_def change_first_none)
    qed
  qed
  moreover have "delete_many_ok mset (list_collection conflict)"
    unfolding delete_many_ok_def by (auto simp: unf simp flip: size_mset)
  moreover have "find_ok mset (list_collection conflict)"
    unfolding find_ok_def by (auto simp: unf intro!: exI [of _ "sort_by _ (filter _ _)"] sorted_sort_by)
  moreover have "find_one_ok mset (list_collection conflict)"
    unfolding find_one_ok_def by (auto simp: unf best_None best_Some split: option.splits)
  moreover have "modify_ok mset (list_collection conflict)"
    unfolding modify_ok_def by (auto simp: unf best_None split: option.splits dest!: best_Some)
  moreover have "count_ok mset (list_collection conflict)"
    unfolding count_ok_def by (auto simp: unf simp flip: size_mset)
  ultimately show ?thesis by (simp add: coll_ok_def)
qed

end
