(* ===== verification/Analytics.thy ===== *)
theory Analytics
  imports Latest Incidents Secrets
begin

text \<open>
  The analytics endpoints (\<open>analytics.go\<close>): uptime, response times in buckets with percentiles, the status
  timeline, failure rates, times to acknowledge and resolve, the overview and the detail of one check. All
  of them read a snapshot of the store and the incidents; one reading of the clock per computation is an
  argument.
\<close>

section \<open>Numbers\<close>

text \<open>\<open>math.Round\<close> (half away from zero), \<open>math.Round(x * 100) / 100\<close> and \<open>Duration.Minutes\<close>.\<close>

definition math_round :: "f64 \<Rightarrow> int" where
  "math_round x = (if 0 \<le> x then \<lfloor>x + 1 / 2\<rfloor> else - \<lfloor>1 / 2 - x\<rfloor>)"

definition hundredths :: "f64 \<Rightarrow> f64" where
  "hundredths x = f_div (fl64 (of_int (math_round (f_mul x 100)))) 100"

definition duration_minutes :: "duration \<Rightarrow> f64" where
  "duration_minutes d = f_add (f_of_int (go_quot d minute)) (f_div (f_of_int (go_rem d minute)) 60000000000)"

section \<open>Periods\<close>

definition parsePeriod :: "string \<Rightarrow> duration" where
  "parsePeriod period =
     (if period = ''7d'' then 7 * 24 * hour else if period = ''30d'' then 30 * 24 * hour
      else if period = ''90d'' then 90 * 24 * hour else 24 * hour)"

definition parsePeriodLabel :: "string \<Rightarrow> string" where
  "parsePeriodLabel period = (if period \<in> {''7d'', ''30d'', ''90d''} then period else ''24h'')"

definition parseInterval :: "string \<Rightarrow> duration" where
  "parseInterval interval =
     (if interval = ''6h'' then 6 * hour else if interval = ''1d'' then 24 * hour else hour)"

section \<open>Uptime\<close>

record UptimeStats =
  ups_CheckID :: string
  ups_CheckName :: string
  ups_Period :: string
  ups_TotalResults :: int
  ups_HealthyCount :: int
  ups_UptimePct :: f64
  ups_AvgDurationMs :: f64
  ups_MaxDurationMs :: int
  ups_MinDurationMs :: int

text \<open>The loop over the results, and its state.\<close>

record uptime_loop =
  ul_total :: int
  ul_healthy :: int
  ul_sum :: int
  ul_max :: int
  ul_min :: int
  ul_name :: string

definition uptime_start :: uptime_loop where
  "uptime_start = \<lparr>ul_total = 0, ul_healthy = 0, ul_sum = 0, ul_max = 0, ul_min = 9223372036854775807, ul_name = []\<rparr>"

definition uptime_step :: "uptime_loop \<Rightarrow> CheckResult \<Rightarrow> uptime_loop" where
  "uptime_step s r = \<lparr>
     ul_total = ul_total s + 1,
     ul_healthy = (if res_Healthy r then ul_healthy s + 1 else ul_healthy s),
     ul_sum = wrap64 (ul_sum s + res_DurationMs r),
     ul_max = (if res_DurationMs r > ul_max s then res_DurationMs r else ul_max s),
     ul_min = (if res_DurationMs r < ul_min s then res_DurationMs r else ul_min s),
     ul_name = (if ul_name s = [] then res_Name r else ul_name s)\<rparr>"

definition in_period :: "gotime \<Rightarrow> string \<Rightarrow> CheckResult \<Rightarrow> bool" where
  "in_period cutoff checkID r \<longleftrightarrow> \<not> (res_CheckID r \<noteq> checkID \<or> before (res_StartedAt r) cutoff)"

definition computeUptime :: "gotime \<Rightarrow> CheckResult list \<Rightarrow> string \<Rightarrow> duration \<Rightarrow> UptimeStats" where
  "computeUptime now results checkID period =
     (let s = foldl uptime_step uptime_start (filter (in_period (time_add now (- period)) checkID) results);
          n = ul_total s
      in \<lparr>ups_CheckID = checkID, ups_CheckName = ul_name s, ups_Period = [], ups_TotalResults = n,
          ups_HealthyCount = ul_healthy s,
          ups_UptimePct = (if n > 0
             then f_div (fl64 (of_int (math_round (f_mul (f_div (f_of_int (ul_healthy s)) (f_of_int n)) 10000)))) 100 else 0),
          ups_AvgDurationMs = (if n > 0 then hundredths (f_div (f_of_int (ul_sum s)) (f_of_int n)) else 0),
          ups_MaxDurationMs = ul_max s, ups_MinDurationMs = (if n = 0 then 0 else ul_min s)\<rparr>)"

section \<open>Response times\<close>

record ResponseTimeBucket =
  rb_Timestamp :: gotime
  rb_AvgDurationMs :: f64
  rb_P50DurationMs :: f64
  rb_P95DurationMs :: f64
  rb_P99DurationMs :: f64
  rb_MaxDurationMs :: int
  rb_MinDurationMs :: int
  rb_Count :: int

definition percentile :: "int list \<Rightarrow> f64 \<Rightarrow> f64" where
  "percentile xs pct =
     (if xs = [] then 0
      else
        let idx = f_mul pct (f_of_int (int (length xs) - 1));
            lower = \<lfloor>idx\<rfloor>; upper = \<lceil>idx\<rceil>
        in if lower = upper \<or> upper \<ge> int (length xs) then f_of_int (xs ! nat lower)
           else let frac = f_sub idx (f_of_int lower)
                in hundredths (f_add (f_mul (f_of_int (xs ! nat lower)) (f_sub 1 frac))
                     (f_mul (f_of_int (xs ! nat upper)) frac)))"

definition bucket_of :: "gotime \<Rightarrow> int list \<Rightarrow> ResponseTimeBucket" where
  "bucket_of t unsorted =
     (let durations = sort unsorted;
          total = foldl (\<lambda>a d. wrap64 (a + d)) 0 durations;
          longest = foldl (\<lambda>m d. if d > m then d else m) (hd durations) durations;
          shortest = foldl (\<lambda>m d. if d < m then d else m) (hd durations) durations
      in \<lparr>rb_Timestamp = t, rb_AvgDurationMs = hundredths (f_div (f_of_int total) (f_of_int (int (length durations)))),
          rb_P50DurationMs = percentile durations (fl64 (1 / 2)), rb_P95DurationMs = percentile durations (fl64 (95 / 100)),
          rb_P99DurationMs = percentile durations (fl64 (99 / 100)), rb_MaxDurationMs = longest,
          rb_MinDurationMs = shortest, rb_Count = int (length durations)\<rparr>)"

text \<open>\<open>Time.Truncate\<close>, and the loop over the time slots; it ends because the interval is positive.\<close>

definition truncate_time :: "gotime \<Rightarrow> duration \<Rightarrow> gotime" where
  "truncate_time t d = t - t mod d"

definition in_slot :: "(gotime \<times> int) list \<Rightarrow> gotime \<Rightarrow> gotime \<Rightarrow> int list" where
  "in_slot entries t bucketEnd = [ms. (ts, ms) \<leftarrow> entries, \<not> before ts t \<and> before ts bucketEnd]"

function bucket_loop :: "(gotime \<times> int) list \<Rightarrow> duration \<Rightarrow> gotime \<Rightarrow> gotime \<Rightarrow> ResponseTimeBucket list" where
  "bucket_loop entries interval now t =
     (if \<not> before t now \<or> interval \<le> 0 then []
      else
        let bucketEnd = time_add t interval;
            durations = in_slot entries t bucketEnd
        in if durations = [] then bucket_loop entries interval now (time_add t interval)
           else bucket_of t durations # bucket_loop entries interval now (time_add t interval))"
  by auto
termination by (relation "measure (\<lambda>(_, interval, now, t). nat (now - t))") (auto simp: go_time)

declare bucket_loop.simps [simp del]

definition bucket_entries :: "gotime \<Rightarrow> string \<Rightarrow> CheckResult list \<Rightarrow> (gotime \<times> int) list" where
  "bucket_entries cutoff checkID results =
     map (\<lambda>r. (res_StartedAt r, res_DurationMs r))
       (filter (\<lambda>r. \<not> (checkID \<noteq> [] \<and> res_CheckID r \<noteq> checkID \<or> before (res_StartedAt r) cutoff)) results)"

definition computeResponseTimeBuckets ::
  "gotime \<Rightarrow> CheckResult list \<Rightarrow> string \<Rightarrow> duration \<Rightarrow> duration \<Rightarrow> ResponseTimeBucket list" where
  "computeResponseTimeBuckets now results checkID period interval =
     (let cutoff = time_add now (- period);
          entries = bucket_entries cutoff checkID results
      in if entries = [] then [] else bucket_loop entries interval now (truncate_time cutoff interval))"

section \<open>The handlers\<close>

record StatusTimelineEntry =
  tl_Timestamp :: gotime
  tl_CheckID :: string
  tl_CheckName :: string
  tl_Status :: string
  tl_DurationMs :: int
  tl_Message :: string

record FailureRateEntry =
  fr_Group :: string
  fr_TotalResults :: int
  fr_FailedCount :: int
  fr_FailureRate :: f64

record IncidentStats =
  ins_Total :: int
  ins_Open :: int
  ins_Acknowledged :: int
  ins_Resolved :: int
  ins_MTTRAMinutes :: f64
  ins_MTTRMinutes :: f64
  ins_BySeverity :: "(string \<times> int) list"

record OverviewStats =
  ov_TotalChecks :: int
  ov_EnabledChecks :: int
  ov_HealthyChecks :: int
  ov_ActiveIncidents :: int
  ov_AvgUptimePct :: f64
  ov_ChecksByType :: "(string \<times> int) list"
  ov_ChecksByServer :: "(string \<times> int) list"

record CheckDetail =
  cd_Config :: CheckConfig
  cd_LatestResult :: "CheckResult option"
  cd_Uptime24h :: f64
  cd_Uptime7d :: f64
  cd_AvgDurationMs :: f64
  cd_RecentResults :: "CheckResult list"
  cd_OpenIncidents :: "Incident list"

datatype analytics_answer =
    Uptime UptimeStats | Uptimes "UptimeStats list" | Buckets "ResponseTimeBucket list"
  | Timeline "StatusTimelineEntry list" | FailureRates "FailureRateEntry list" | MTTR IncidentStats
  | Overview OverviewStats | Detail CheckDetail | AnalyticsError string

definition not_supported :: "int \<times> analytics_answer" where
  "not_supported = (405, AnalyticsError ''feature not supported'')"

definition handleAnalyticsUptime :: "gotime \<Rightarrow> string \<Rightarrow> string \<Rightarrow> string \<Rightarrow> State \<Rightarrow> int \<times> analytics_answer" where
  "handleAnalyticsUptime now meth checkID period snap =
     (if meth \<noteq> ''GET'' then not_supported
      else
        let checkID = trim_space checkID; period = trim_space period;
            stats = (\<lambda>i. (computeUptime now (st_Results snap) i (parsePeriod period))\<lparr>ups_Period := parsePeriodLabel period\<rparr>)
        in if checkID \<noteq> [] then (200, Uptime (stats checkID))
           else (200, Uptimes (map (\<lambda>c. stats (chk_ID c)) (filter check_is_enabled (st_Checks snap)))))"

definition handleAnalyticsResponseTimes ::
  "gotime \<Rightarrow> string \<Rightarrow> string \<Rightarrow> string \<Rightarrow> string \<Rightarrow> State \<Rightarrow> int \<times> analytics_answer" where
  "handleAnalyticsResponseTimes now meth checkID period interval snap =
     (if meth \<noteq> ''GET'' then not_supported
      else (200, Buckets (computeResponseTimeBuckets now (st_Results snap) (trim_space checkID)
                   (parsePeriod (trim_space period)) (parseInterval (trim_space interval)))))"

text \<open>\<open>QueryInt\<close>: the value of the parameter, if it is a number above zero (\<open>None\<close> stands for any other text).\<close>

definition QueryInt :: "int option \<Rightarrow> int \<Rightarrow> int" where
  "QueryInt raw fallback = (case raw of None \<Rightarrow> fallback | Some v \<Rightarrow> if v \<le> 0 then fallback else v)"

definition timeline_entry :: "CheckResult \<Rightarrow> StatusTimelineEntry" where
  "timeline_entry r = \<lparr>tl_Timestamp = res_StartedAt r, tl_CheckID = res_CheckID r, tl_CheckName = res_Name r,
     tl_Status = res_Status r, tl_DurationMs = res_DurationMs r, tl_Message = res_Message r\<rparr>"

definition oldest_first :: "('a \<Rightarrow> gotime) \<Rightarrow> ('a list \<Rightarrow> 'a list) \<Rightarrow> 'a list \<Rightarrow> 'a list" where
  "oldest_first time_of ord xs =
     (if mset (ord xs) = mset xs \<and> sorted_wrt (\<lambda>x y. \<not> before (time_of y) (time_of x)) (ord xs) then ord xs
      else sort_key time_of xs)"

definition handleAnalyticsStatusTimeline ::
  "gotime \<Rightarrow> (StatusTimelineEntry list \<Rightarrow> StatusTimelineEntry list) \<Rightarrow> string \<Rightarrow> string \<Rightarrow> int option \<Rightarrow> State \<Rightarrow>
     int \<times> analytics_answer" where
  "handleAnalyticsStatusTimeline now ord meth checkID raw_days snap =
     (if meth \<noteq> ''GET'' then not_supported
      else
        let checkID = trim_space checkID;
            days = QueryInt raw_days 7;
            cutoff = time_add now (dur_mul (dur_mul (wrap64 (- days)) 24) hour);
            entries = map timeline_entry (filter (\<lambda>r. \<not> (checkID \<noteq> [] \<and> res_CheckID r \<noteq> checkID \<or>
                        before (res_StartedAt r) cutoff)) (st_Results snap))
        in (200, Timeline (oldest_first tl_Timestamp ord entries)))"

text \<open>Counters in a map, by the order in which the keys were first seen.\<close>

definition add_count :: "string \<Rightarrow> (string \<times> int) list \<Rightarrow> (string \<times> int) list" where
  "add_count k m = AList.update k ((case map_of m k of None \<Rightarrow> 0 | Some n \<Rightarrow> n) + 1) m"

definition group_of :: "string \<Rightarrow> CheckResult \<Rightarrow> string" where
  "group_of groupBy r =
     (let key = (if groupBy = ''application'' then res_Application r else if groupBy = ''type'' then res_Type r else res_Server r)
      in if key = [] then ''(none)'' else key)"

definition count_failure :: "string \<Rightarrow> (string \<times> int \<times> int) list \<Rightarrow> CheckResult \<Rightarrow> (string \<times> int \<times> int) list" where
  "count_failure groupBy m r =
     (let key = group_of groupBy r;
          (total, failed) = (case map_of m key of None \<Rightarrow> (0, 0) | Some c \<Rightarrow> c)
      in AList.update key (total + 1, if \<not> res_Healthy r then failed + 1 else failed) m)"

definition failure_entry :: "string \<times> int \<times> int \<Rightarrow> FailureRateEntry" where
  "failure_entry = (\<lambda>(g, total, failed). \<lparr>fr_Group = g, fr_TotalResults = total, fr_FailedCount = failed,
     fr_FailureRate = (if total > 0
       then f_div (fl64 (of_int (math_round (f_mul (f_div (f_of_int failed) (f_of_int total)) 10000)))) 100 else 0)\<rparr>)"

text \<open>\<open>ord\<close> is the order of the entries after ranging over the map and sorting by descending rate.\<close>

definition by_rate :: "(FailureRateEntry list \<Rightarrow> FailureRateEntry list) \<Rightarrow> FailureRateEntry list \<Rightarrow> FailureRateEntry list" where
  "by_rate ord xs =
     (if mset (ord xs) = mset xs \<and> sorted_wrt (\<lambda>x y. \<not> fr_FailureRate y > fr_FailureRate x) (ord xs) then ord xs
      else sort_key (\<lambda>x. - fr_FailureRate x) xs)"

definition handleAnalyticsFailureRate ::
  "gotime \<Rightarrow> (FailureRateEntry list \<Rightarrow> FailureRateEntry list) \<Rightarrow> string \<Rightarrow> string \<Rightarrow> string \<Rightarrow> State \<Rightarrow>
     int \<times> analytics_answer" where
  "handleAnalyticsFailureRate now ord meth period groupBy snap =
     (if meth \<noteq> ''GET'' then not_supported
      else
        let cutoff = time_add now (- parsePeriod (trim_space period));
            groups = foldl (count_failure (trim_space groupBy)) []
                       (filter (\<lambda>r. \<not> before (res_StartedAt r) cutoff) (st_Results snap))
        in (200, FailureRates (by_rate ord (map failure_entry groups))))"

record mttr_loop =
  ml_stats :: IncidentStats
  ml_tta :: f64
  ml_ttr :: f64
  ml_acks :: int
  ml_resolves :: int

definition empty_stats :: IncidentStats where
  "empty_stats = \<lparr>ins_Total = 0, ins_Open = 0, ins_Acknowledged = 0, ins_Resolved = 0, ins_MTTRAMinutes = 0,
     ins_MTTRMinutes = 0, ins_BySeverity = []\<rparr>"

definition count_incident :: "IncidentStats \<Rightarrow> Incident \<Rightarrow> IncidentStats" where
  "count_incident st inc = st\<lparr>
     ins_Total := ins_Total st + 1,
     ins_BySeverity := add_count (inc_Severity inc) (ins_BySeverity st),
     ins_Open := (if inc_Status inc = ''open'' then ins_Open st + 1 else ins_Open st),
     ins_Acknowledged := (if inc_Status inc = ''acknowledged'' then ins_Acknowledged st + 1 else ins_Acknowledged st),
     ins_Resolved := (if inc_Status inc = ''resolved'' then ins_Resolved st + 1 else ins_Resolved st)\<rparr>"

definition mttr_step :: "mttr_loop \<Rightarrow> Incident \<Rightarrow> mttr_loop" where
  "mttr_step s inc = \<lparr>
     ml_stats = count_incident (ml_stats s) inc,
     ml_tta = (case inc_AcknowledgedAt inc of None \<Rightarrow> ml_tta s
               | Some t \<Rightarrow> f_add (ml_tta s) (duration_minutes (time_sub t (inc_StartedAt inc)))),
     ml_ttr = (case inc_ResolvedAt inc of None \<Rightarrow> ml_ttr s
               | Some t \<Rightarrow> f_add (ml_ttr s) (duration_minutes (time_sub t (inc_StartedAt inc)))),
     ml_acks = (case inc_AcknowledgedAt inc of None \<Rightarrow> ml_acks s | Some _ \<Rightarrow> ml_acks s + 1),
     ml_resolves = (case inc_ResolvedAt inc of None \<Rightarrow> ml_resolves s | Some _ \<Rightarrow> ml_resolves s + 1)\<rparr>"

definition incident_stats :: "Incident list \<Rightarrow> IncidentStats" where
  "incident_stats incidents =
     (let s = foldl mttr_step \<lparr>ml_stats = empty_stats, ml_tta = 0, ml_ttr = 0, ml_acks = 0, ml_resolves = 0\<rparr> incidents
      in (ml_stats s)\<lparr>
        ins_MTTRAMinutes := (if ml_acks s > 0 then hundredths (f_div (ml_tta s) (f_of_int (ml_acks s))) else 0),
        ins_MTTRMinutes := (if ml_resolves s > 0 then hundredths (f_div (ml_ttr s) (f_of_int (ml_resolves s))) else 0)\<rparr>)"

definition handleAnalyticsMTTR :: "('r IncidentRepo \<times> 'r) option \<Rightarrow> string \<Rightarrow> int \<times> analytics_answer" where
  "handleAnalyticsMTTR incidentRepo meth =
     (if meth \<noteq> ''GET'' then not_supported
      else case incidentRepo of
             None \<Rightarrow> (200, MTTR empty_stats)
           | Some (repo, r) \<Rightarrow>
               (case repo_list repo r of
                  (_, Some err) \<Rightarrow> (500, AnalyticsError err)
                | (incidents, None) \<Rightarrow> (200, MTTR (incident_stats incidents))))"

definition is_active_incident :: "Incident \<Rightarrow> bool" where
  "is_active_incident inc \<longleftrightarrow> inc_Status inc = ''open'' \<or> inc_Status inc = ''acknowledged''"

definition count_active :: "('r IncidentRepo \<times> 'r) option \<Rightarrow> int" where
  "count_active incidentRepo =
     (case incidentRepo of
        None \<Rightarrow> 0
      | Some (repo, r) \<Rightarrow>
          (case repo_list repo r of (_, Some err) \<Rightarrow> 0 | (incidents, None) \<Rightarrow> int (length (filter is_active_incident incidents))))"

text \<open>The latest result of each check, here by the time it started.\<close>

definition keep_later_start :: "CheckResult \<Rightarrow> (string \<times> CheckResult) list \<Rightarrow> (string \<times> CheckResult) list" where
  "keep_later_start r m =
     (case map_of m (res_CheckID r) of
        None \<Rightarrow> AList.update (res_CheckID r) r m
      | Some prev \<Rightarrow> if after (res_StartedAt r) (res_StartedAt prev) then AList.update (res_CheckID r) r m else m)"

definition latestResultPerCheck :: "CheckResult list \<Rightarrow> (string \<times> CheckResult) list" where
  "latestResultPerCheck results = foldl (\<lambda>m r. keep_later_start r m) [] results"

text \<open>\<open>ids\<close> is the order of ranging over the set of enabled checks.\<close>

definition average_uptime :: "gotime \<Rightarrow> (string list \<Rightarrow> string list) \<Rightarrow> string list \<Rightarrow> CheckResult list \<Rightarrow> f64" where
  "average_uptime now ids enabledIDs results =
     (let stats = filter (\<lambda>st. ups_TotalResults st > 0)
                    (map (\<lambda>i. computeUptime now results i (24 * hour)) (ranged ids (remdups enabledIDs)));
          total = foldl (\<lambda>a st. f_add a (ups_UptimePct st)) 0 stats
      in if stats \<noteq> [] then hundredths (f_div total (f_of_int (int (length stats)))) else 0)"

definition handleStatsOverview ::
  "gotime \<Rightarrow> (string list \<Rightarrow> string list) \<Rightarrow> ('r IncidentRepo \<times> 'r) option \<Rightarrow> string \<Rightarrow> State \<Rightarrow> int \<times> analytics_answer" where
  "handleStatsOverview now ids incidentRepo meth snap =
     (if meth \<noteq> ''GET'' then not_supported
      else
        let checks = st_Checks snap;
            enabledIDs = map chk_ID (filter check_is_enabled checks)
        in (200, Overview \<lparr>ov_TotalChecks = int (length checks), ov_EnabledChecks = int (length enabledIDs),
             ov_HealthyChecks = int (length (filter (\<lambda>(i, r). i \<in> set enabledIDs \<and> res_Healthy r)
                                       (latestResultPerCheck (st_Results snap)))),
             ov_ActiveIncidents = count_active incidentRepo,
             ov_AvgUptimePct = average_uptime now ids enabledIDs (st_Results snap),
             ov_ChecksByType = foldl (\<lambda>m c. add_count (chk_Type c) m) [] checks,
             ov_ChecksByServer = foldl (\<lambda>m c. add_count (chk_Server c) m) [] (filter (\<lambda>c. chk_Server c \<noteq> []) checks)\<rparr>))"

definition handleGetCheck ::
  "gotime \<Rightarrow> (CheckResult list \<Rightarrow> CheckResult list) \<Rightarrow> ('r IncidentRepo \<times> 'r) option \<Rightarrow> string \<Rightarrow> string \<Rightarrow> State \<Rightarrow>
     int \<times> analytics_answer" where
  "handleGetCheck now ord incidentRepo meth checkID snap =
     (if meth \<noteq> ''GET'' then not_supported
      else case find (\<lambda>c. chk_ID c = checkID) (st_Checks snap) of
             None \<Rightarrow> (404, AnalyticsError ''check not found'')
           | Some c \<Rightarrow>
               let results = newest_first res_StartedAt ord (filter (\<lambda>r. res_CheckID r = checkID) (st_Results snap));
                   up24 = computeUptime now (st_Results snap) checkID (24 * hour);
                   up7d = computeUptime now (st_Results snap) checkID (7 * 24 * hour);
                   opened = (case incidentRepo of
                               None \<Rightarrow> []
                             | Some (repo, r) \<Rightarrow>
                                 (case repo_find_open repo checkID r of
                                    (_, Some err) \<Rightarrow> []
                                  | (inc, None) \<Rightarrow> if inc_ID inc \<noteq> [] then [inc] else []))
               in (200, Detail \<lparr>cd_Config = sanitizeCheckForResponse c,
                    cd_LatestResult = (case results of [] \<Rightarrow> None | r # _ \<Rightarrow> Some r),
                    cd_Uptime24h = ups_UptimePct up24, cd_Uptime7d = ups_UptimePct up7d,
                    cd_AvgDurationMs = ups_AvgDurationMs up24, cd_RecentResults = take 50 results,
                    cd_OpenIncidents = opened\<rparr>))"

section \<open>Rounding errors\<close>

lemma round_half_even_error: "\<bar>of_int (round_half_even q) - q\<bar> \<le> 1 / 2"
proof -
  have "of_int \<lfloor>q\<rfloor> \<le> q" "q < of_int \<lfloor>q\<rfloor> + 1" by linarith+
  then show ?thesis by (simp add: round_half_even_def Let_def abs_le_iff)
qed

lemma fl64_error:
  assumes "0 \<le> q"
  shows "\<bar>fl64 q - q\<bar> \<le> q / 2 ^ 53 + 1 / 2 ^ 60"
proof (cases "q = 0")
  case False
  with assms have q: "0 < q" by simp
  let ?e = "fl_exp q" and ?p = "two_powi (fl_exp q)"
  have p: "0 < ?p" by simp
  have "\<bar>of_int (round_half_even (q / ?p)) - q / ?p\<bar> \<le> 1 / 2" by (rule round_half_even_error)
  then have "\<bar>of_int (round_half_even (q / ?p)) - q / ?p\<bar> * ?p \<le> 1 / 2 * ?p" using p by (intro mult_right_mono) (simp_all only: less_imp_le)
  moreover have "\<bar>of_int (round_half_even (q / ?p)) - q / ?p\<bar> * ?p = \<bar>fl64 q - q\<bar>"
  proof -
    have "fl64 q - q = (of_int (round_half_even (q / ?p)) - q / ?p) * ?p"
      using less_imp_neq [OF p] by (simp add: fl64_pos [OF q] left_diff_distrib)
    then show ?thesis using p by (simp only: abs_mult)
  qed
  moreover have "?p \<le> q / 2 ^ 52 + 1 / 2 ^ 59"
  proof (cases "rat_log2 q - 52 \<ge> - 1074")
    case True
    then have "two_powi (rat_log2 q) = 2 ^ 52 * ?p"
      using two_powi_add [of "int 52" ?e] by (simp add: fl_exp_def two_powi_def [of 52])
    with rat_log2_bounds [OF q] have "2 ^ 52 * ?p \<le> q" by simp
    then have "?p \<le> q / 2 ^ 52" by (simp add: field_simps)
    then show ?thesis by simp
  next
    case False
    then have "?p \<le> two_powi (- 59)" by (intro two_powi_mono) (simp add: fl_exp_def)
    moreover have "two_powi (- 59) = 1 / 2 ^ 59" by (simp add: two_powi_def)
    moreover have "0 \<le> q / 2 ^ 52" using assms by simp
    ultimately show ?thesis by linarith
  qed
  ultimately show ?thesis by simp
qed simp

lemma fl64_near:
  assumes "0 \<le> q" and "q \<le> B" and "B / 2 ^ 53 + 1 / 2 ^ 60 \<le> d"
  shows "q - d \<le> fl64 q" and "fl64 q \<le> q + d"
proof -
  have "q / 2 ^ 53 \<le> B / 2 ^ 53" using assms(2) by (intro divide_right_mono) simp_all
  then have "\<bar>fl64 q - q\<bar> \<le> d" using fl64_error [OF assms(1)] assms(3) by linarith
  then show "q - d \<le> fl64 q" and "fl64 q \<le> q + d" by linarith+
qed

lemma math_round_mono: "a \<le> b \<Longrightarrow> math_round a \<le> math_round b"
proof -
  assume ab: "a \<le> b"
  consider "0 \<le> a" | "a < 0" "0 \<le> b" | "b < 0" using ab by linarith
  then show ?thesis
  proof cases
    case 1
    with ab show ?thesis by (simp add: math_round_def floor_mono)
  next
    case 2
    then have "0 \<le> \<lfloor>1 / 2 - a\<rfloor>" "0 \<le> \<lfloor>b + 1 / 2\<rfloor>" by simp_all
    moreover have "math_round a = - \<lfloor>1 / 2 - a\<rfloor>" "math_round b = \<lfloor>b + 1 / 2\<rfloor>" using 2 by (simp_all add: math_round_def)
    ultimately show ?thesis by linarith
  next
    case 3
    with ab have "\<lfloor>1 / 2 - b\<rfloor> \<le> \<lfloor>1 / 2 - a\<rfloor>" by (intro floor_mono) simp
    with 3 ab show ?thesis by (simp add: math_round_def)
  qed
qed

lemma math_round_int: "math_round (of_int i) = i"
proof (cases "0 \<le> i")
  case False
  have "\<lfloor>1 / 2 - of_int i :: rat\<rfloor> = - i" by linarith
  with False show ?thesis by (simp add: math_round_def)
qed (simp add: math_round_def, linarith)

lemma math_round_error: "0 \<le> x \<Longrightarrow> \<bar>of_int (math_round x) - x\<bar> \<le> 1 / 2"
proof -
  assume "0 \<le> x"
  moreover have "of_int \<lfloor>x + 1 / 2\<rfloor> \<le> x + 1 / 2" "x + 1 / 2 < of_int \<lfloor>x + 1 / 2\<rfloor> + 1" by linarith+
  moreover have "math_round x = \<lfloor>x + 1 / 2\<rfloor>" using \<open>0 \<le> x\<close> by (simp add: math_round_def)
  ultimately show ?thesis unfolding abs_le_iff by linarith
qed

text \<open>A number within half a hundredth of an interval of whole milliseconds is rounded into it.\<close>

lemma hundredths_between:
  assumes "of_int a - 1 / 256 \<le> x" and "x \<le> of_int b + 1 / 256" and "0 \<le> a" and "0 \<le> x" and "b < 2 ^ 40"
  shows "of_int a \<le> hundredths x" and "hundredths x \<le> of_int b"
proof -
  have x40: "x \<le> 2 ^ 40"
  proof -
    have "(of_int b :: rat) \<le> of_int (2 ^ 40 - 1)" using assms(5) by (simp only: of_int_le_iff)
    with assms(2) show ?thesis by simp
  qed
  have near: "x * 100 - 1 / 32 \<le> fl64 (x * 100)" "fl64 (x * 100) \<le> x * 100 + 1 / 32"
    using assms(4) x40 by (auto intro!: fl64_near [where B = "100 * 2 ^ 40"])
  let ?r = "math_round (f_mul x 100)"
  have "100 * a \<le> ?r"
  proof -
    have "of_int (100 * a) - 1 / 2 < f_mul x 100" using near assms(1) by (simp add: f_mul_def)
    moreover have "0 \<le> f_mul x 100" using assms(4) by (simp add: f_mul_def fl64_nonneg)
    ultimately show ?thesis by (simp add: math_round_def le_floor_iff)
  qed
  moreover have "?r \<le> 100 * b"
  proof -
    have "f_mul x 100 < of_int (100 * b) + 1 / 2" using near assms(2) by (simp add: f_mul_def)
    moreover have "0 \<le> f_mul x 100" using assms(4) by (simp add: f_mul_def fl64_nonneg)
    ultimately show ?thesis by (simp add: math_round_def floor_le_iff)
  qed
  ultimately have r: "(of_int (100 * a) :: rat) \<le> of_int ?r" "(of_int ?r :: rat) \<le> of_int (100 * b)"
    by (simp_all only: of_int_le_iff)
  have ab: "a \<le> b" using r by (simp add: mult_le_cancel_left_pos)
  have exact: "fl64 (of_int (100 * i) / 100) = of_int i" if "0 \<le> i" "i < 2 ^ 40" for i
    using fl64_of_int_exact [of i] that by simp
  have "fl64 (of_int ?r) = of_int ?r"
  proof (rule fl64_of_int_exact)
    show "0 \<le> ?r" using \<open>100 * a \<le> ?r\<close> assms(3) by linarith
    show "?r < 2 ^ 53" using \<open>?r \<le> 100 * b\<close> assms(5) by simp
  qed
  then have h: "hundredths x = fl64 (of_int ?r / 100)" by (simp add: hundredths_def f_div_def)
  show "of_int a \<le> hundredths x"
  proof -
    have "fl64 (of_int (100 * a) / 100) \<le> fl64 (of_int ?r / 100)" using r by (intro fl64_mono divide_right_mono) simp_all
    then show ?thesis using exact [of a] assms(3,5) ab by (simp only: h)
  qed
  show "hundredths x \<le> of_int b"
  proof -
    have "fl64 (of_int ?r / 100) \<le> fl64 (of_int (100 * b) / 100)" using r by (intro fl64_mono divide_right_mono) simp_all
    then show ?thesis using exact [of b] assms(3,5) ab by (simp only: h)
  qed
qed

text \<open>A weighted mean of two values, computed in floating point, stays within a small distance of both.\<close>

lemma mean_near:
  assumes "0 \<le> a" and "a \<le> b" and "b < 2 ^ 40" and "0 \<le> f" and "f \<le> 1"
  shows "of_int a - 1 / 256 \<le> f_add (f_mul (f_of_int a) (f_sub 1 f)) (f_mul (f_of_int b) f)"
    and "f_add (f_mul (f_of_int a) (f_sub 1 f)) (f_mul (f_of_int b) f) \<le> of_int b + 1 / 256"
    and "0 \<le> f_add (f_mul (f_of_int a) (f_sub 1 f)) (f_mul (f_of_int b) f)"
proof -
  let ?A = "of_int a :: rat" and ?B = "of_int b :: rat"
  let ?g = "fl64 (1 - f)" and ?d = "1 / 4096 :: rat"
  have A: "0 \<le> ?A" and AB: "?A \<le> ?B" using assms by simp_all
  have "?B \<le> of_int (2 ^ 40)" using assms(3) by (simp only: of_int_le_iff)
  then have B: "?B \<le> 2 ^ 40" by simp
  have ex: "f_of_int a = ?A" "f_of_int b = ?B" using assms by (simp_all add: f_of_int_def fl64_of_int_exact)
  have g: "1 - f - 1 / 2 ^ 52 \<le> ?g" "?g \<le> 1 - f + 1 / 2 ^ 52"
    by (rule fl64_near [where B = 1]; use assms(4,5) in simp)+
  have g01: "0 \<le> ?g" "?g \<le> 1"
    using assms(4,5) by (auto intro: fl64_nonneg fl64_le simp: fl64_of_int_exact [of 1, simplified])
  have Ag: "0 \<le> ?A * ?g" "?A * ?g \<le> 2 ^ 40"
    using A AB B g01 by (simp_all add: mult_le_one order_trans [OF mult_left_le])
  have Bf: "0 \<le> ?B * f" "?B * f \<le> 2 ^ 40"
    using A AB B assms(4,5) by (simp_all add: order_trans [OF mult_left_le])
  have x: "?A * ?g - ?d \<le> fl64 (?A * ?g)" "fl64 (?A * ?g) \<le> ?A * ?g + ?d"
    using Ag by (auto intro!: fl64_near [where B = "2 ^ 40"])
  have y: "?B * f - ?d \<le> fl64 (?B * f)" "fl64 (?B * f) \<le> ?B * f + ?d"
    using Bf by (auto intro!: fl64_near [where B = "2 ^ 40"])
  have Agd: "?A * (1 - f) - ?d \<le> ?A * ?g" "?A * ?g \<le> ?A * (1 - f) + ?d"
  proof -
    have "?A * (1 - f - 1 / 2 ^ 52) \<le> ?A * ?g" "?A * ?g \<le> ?A * (1 - f + 1 / 2 ^ 52)"
      using g A by (intro mult_left_mono; simp)+
    moreover have "?A * (1 / 2 ^ 52) \<le> ?d" using AB B by simp
    ultimately show "?A * (1 - f) - ?d \<le> ?A * ?g" "?A * ?g \<le> ?A * (1 - f) + ?d"
      by (simp_all add: algebra_simps)
  qed
  have conv: "?A \<le> ?A * (1 - f) + ?B * f" "?A * (1 - f) + ?B * f \<le> ?B"
  proof -
    have "?A * f \<le> ?B * f" "?A * (1 - f) \<le> ?B * (1 - f)" using AB assms(4,5) by (simp_all add: mult_right_mono)
    then show "?A \<le> ?A * (1 - f) + ?B * f" "?A * (1 - f) + ?B * f \<le> ?B" by (simp_all add: algebra_simps)
  qed
  let ?s = "fl64 (?A * ?g) + fl64 (?B * f)"
  have s0: "0 \<le> ?s" using Ag Bf by (simp add: fl64_nonneg)
  have "(2 :: rat) ^ 41 = 2 * 2 ^ 40" "(1 :: rat) \<le> 2 ^ 40" by simp_all
  then have "?s \<le> 2 ^ 41" using x y Agd conv B by linarith
  then have z: "?s - 1 / 2048 \<le> fl64 ?s" "fl64 ?s \<le> ?s + 1 / 2048"
    using s0 by (auto intro!: fl64_near [where B = "2 ^ 41"])
  have v: "f_add (f_mul (f_of_int a) (f_sub 1 f)) (f_mul (f_of_int b) f) = fl64 ?s"
    by (simp add: f_add_def f_mul_def f_sub_def ex)
  show "?A - 1 / 256 \<le> f_add (f_mul (f_of_int a) (f_sub 1 f)) (f_mul (f_of_int b) f)"
    unfolding v using x y z Agd conv by linarith
  show "f_add (f_mul (f_of_int a) (f_sub 1 f)) (f_mul (f_of_int b) f) \<le> ?B + 1 / 256"
    unfolding v using x y z Agd conv by linarith
  show "0 \<le> f_add (f_mul (f_of_int a) (f_sub 1 f)) (f_mul (f_of_int b) f)"
    unfolding v using s0 by (rule fl64_nonneg)
qed

lemma percentile_between:
  assumes "sorted xs" and "xs \<noteq> []" and "0 \<le> hd xs" and "last xs < 2 ^ 40" and "0 \<le> pct" and "pct \<le> 1" and "length xs < 2 ^ 53"
  shows "of_int (hd xs) \<le> percentile xs pct" and "percentile xs pct \<le> of_int (last xs)"
proof -
  let ?n = "int (length xs) - 1"
  define idx where "idx = f_mul pct (f_of_int ?n)"
  have n: "0 \<le> ?n" using assms(2) by (simp add: Suc_leI)
  have fn: "f_of_int ?n = of_int ?n" using n assms(7) unfolding f_of_int_def by (intro fl64_of_int_exact) simp_all
  have idx: "0 \<le> idx" "idx \<le> of_int ?n"
  proof -
    have N: "(0 :: rat) \<le> of_int ?n" using n by (simp only: of_int_0_le_iff)
    then have "0 \<le> pct * of_int ?n" using assms(5) by (rule mult_nonneg_nonneg [rotated])
    then show "0 \<le> idx" unfolding idx_def f_mul_def fn by (rule fl64_nonneg)
    have "pct * of_int ?n \<le> of_int ?n" using mult_left_le_one_le [OF N assms(5,6)] .
    then show "idx \<le> of_int ?n" unfolding idx_def f_mul_def fn
      by (rule fl64_le) (use fn in \<open>simp add: f_of_int_def\<close>)
  qed
  let ?l = "\<lfloor>idx\<rfloor>" and ?u = "\<lceil>idx\<rceil>"
  have l: "0 \<le> ?l" "?l \<le> ?n" and u: "0 \<le> ?u" "?u \<le> ?n" "?l \<le> ?u"
    using idx by (simp_all add: floor_le_iff ceiling_le_iff le_floor_iff, linarith+)
  have elem: "hd xs \<le> xs ! nat k" "xs ! nat k \<le> last xs" if "0 \<le> k" "k \<le> ?n" for k
  proof -
    have "nat k < length xs" using that by linarith
    then show "hd xs \<le> xs ! nat k" "xs ! nat k \<le> last xs"
      using assms(1,2) by (auto simp: hd_conv_nth last_conv_nth intro!: sorted_nth_mono)
  qed
  have ab: "xs ! nat ?l \<le> xs ! nat ?u" using l u assms(1) by (intro sorted_nth_mono) linarith+
  have lims: "0 \<le> xs ! nat ?l" "xs ! nat ?u < 2 ^ 40" using elem [OF l] elem [OF u(1,2)] assms(3,4) by linarith+
  have fr: "0 \<le> f_sub idx (f_of_int ?l)" "f_sub idx (f_of_int ?l) \<le> 1"
  proof -
    have "int (length xs) < 2 ^ 53" using assms(7) by simp
    then have "?l < 2 ^ 53" using l by linarith
    then have "f_of_int ?l = of_int ?l" using l(1) unfolding f_of_int_def by (rule fl64_of_int_exact [rotated])
    moreover have "0 \<le> idx - of_int ?l" "idx - of_int ?l \<le> 1" by linarith+
    ultimately show "0 \<le> f_sub idx (f_of_int ?l)" "f_sub idx (f_of_int ?l) \<le> 1"
      by (simp_all add: f_sub_def fl64_nonneg fl64_le fl64_of_int_exact [of 1, simplified])
  qed
  note mean = mean_near [OF lims(1) ab lims(2) fr]
  have exact: "f_of_int (xs ! nat ?l) = of_int (xs ! nat ?l)"
  proof -
    have "(2 :: int) ^ 40 < 2 ^ 53" by simp
    then show ?thesis using lims ab unfolding f_of_int_def by (intro fl64_of_int_exact) linarith+
  qed
  have "percentile xs pct = (if ?l = ?u then of_int (xs ! nat ?l)
      else hundredths (f_add (f_mul (f_of_int (xs ! nat ?l)) (f_sub 1 (f_sub idx (f_of_int ?l))))
        (f_mul (f_of_int (xs ! nat ?u)) (f_sub idx (f_of_int ?l)))))"
    using assms(2) u exact by (cases "?l = ?u") (simp_all add: percentile_def Let_def flip: idx_def)
  moreover note hundredths_between [OF mean(1,2) lims(1) mean(3) lims(2)]
  ultimately have "of_int (xs ! nat ?l) \<le> percentile xs pct \<and> percentile xs pct \<le> of_int (xs ! nat ?u)"
    using ab by auto
  moreover have "(of_int (hd xs) :: rat) \<le> of_int (xs ! nat ?l)" "(of_int (xs ! nat ?u) :: rat) \<le> of_int (last xs)"
    using elem(1) [OF l] elem(2) [OF u(1,2)] by (simp_all only: of_int_le_iff)
  ultimately show "of_int (hd xs) \<le> percentile xs pct" and "percentile xs pct \<le> of_int (last xs)" by linarith+
qed

section \<open>Buckets\<close>

lemma mean_between:
  assumes "xs \<noteq> []" and "\<forall>x \<in> set xs. lo \<le> x \<and> x \<le> hi" and "0 \<le> lo" and "hi < 2 ^ 40" and "sum_list xs < 2 ^ 53" and "length xs < 2 ^ 53"
  shows "of_int lo \<le> hundredths (f_div (f_of_int (sum_list xs)) (f_of_int (int (length xs))))"
    and "hundredths (f_div (f_of_int (sum_list xs)) (f_of_int (int (length xs)))) \<le> of_int hi"
proof -
  let ?n = "int (length xs)" and ?s = "sum_list xs"
  have b: "lo * ?n \<le> ?s \<and> ?s \<le> hi * ?n"
    using assms(2) by (induction xs) (auto simp: algebra_simps)
  have n: "0 < ?n" using assms(1) by simp
  have "0 \<le> lo * ?n" using assms(3) n by simp
  with b have s0: "0 \<le> ?s" by linarith
  have "lo \<le> hi" using assms(1,2) by (cases xs) auto
  have ex: "f_of_int ?s = of_int ?s" "f_of_int ?n = of_int ?n"
    using s0 n assms(5,6) fl64_of_int_exact [of ?n] fl64_of_int_exact [of ?s] by (simp_all add: f_of_int_def)
  have exl: "fl64 (of_int lo) = of_int lo" "fl64 (of_int hi) = of_int hi"
    using assms(3,4) \<open>lo \<le> hi\<close> by (simp_all add: fl64_of_int_exact)
  have "(of_int (lo * ?n) :: rat) \<le> of_int ?s" "(of_int ?s :: rat) \<le> of_int (hi * ?n)" using b by (simp_all only: of_int_le_iff)
  then have "of_int lo \<le> of_int ?s / (of_int ?n :: rat)" "of_int ?s / (of_int ?n :: rat) \<le> of_int hi"
    using n by (simp_all add: le_divide_eq divide_le_eq)
  then have "of_int lo \<le> f_div (of_int ?s) (of_int ?n)" "f_div (of_int ?s) (of_int ?n) \<le> of_int hi"
    using exl by (simp_all add: f_div_def fl64_le fl64_ge)
  moreover have "0 \<le> f_div (of_int ?s) (of_int ?n)" using s0 n by (simp add: f_div_def fl64_nonneg)
  ultimately show "of_int lo \<le> hundredths (f_div (f_of_int ?s) (f_of_int ?n))"
    "hundredths (f_div (f_of_int ?s) (f_of_int ?n)) \<le> of_int hi"
    unfolding ex using assms(3,4) by (auto intro!: hundredths_between)
qed

lemma foldl_max: "foldl (\<lambda>m d. if d > m then d else m) a xs = fold max xs (a :: int)"
  by (induction xs arbitrary: a) (simp_all add: max_def)

lemma foldl_min: "foldl (\<lambda>m d. if d < m then d else m) a xs = fold min xs (a :: int)"
  by (induction xs arbitrary: a) (simp_all add: min_def)

lemma sorted_ends: "sorted xs \<Longrightarrow> xs \<noteq> [] \<Longrightarrow> x \<in> set xs \<Longrightarrow> hd xs \<le> x \<and> x \<le> last xs"
  by (auto simp: hd_conv_nth last_conv_nth in_set_conv_nth intro!: sorted_nth_mono)

lemma sorted_extremes:
  "sorted xs \<Longrightarrow> xs \<noteq> [] \<Longrightarrow> fold max xs (hd xs) = last xs \<and> fold min xs (hd xs) = (hd xs :: int)"
proof -
  assume s: "sorted xs" and ne: "xs \<noteq> []"
  have "fold max xs a = Max (insert a (set xs))" "fold min xs a = Min (insert a (set xs))" for a :: int
    using Max.set_eq_fold [of a xs] Min.set_eq_fold [of a xs] by simp_all
  moreover have "Max (insert (hd xs) (set xs)) = last xs" using ne sorted_ends [OF s ne] by (intro Max_eqI) auto
  moreover have "Min (insert (hd xs) (set xs)) = hd xs" using ne sorted_ends [OF s ne] by (intro Min_eqI) auto
  ultimately show ?thesis by simp
qed

lemma wrap_sum:
  assumes "\<forall>x \<in> set xs. 0 \<le> x" and "0 \<le> a" and "a + sum_list xs < 2 ^ 53"
  shows "foldl (\<lambda>a d. wrap64 (a + d)) a xs = a + sum_list (xs :: int list)"
  using assms
proof (induction xs arbitrary: a)
  case (Cons x xs)
  have "0 \<le> sum_list xs" using Cons.prems(1) by (intro sum_list_nonneg) simp
  then have "wrap64 (a + x) = a + x" using Cons.prems by (intro wrap64_id) simp_all
  with Cons show ?case by (simp add: add.assoc)
qed simp

definition between :: "int \<Rightarrow> f64 \<Rightarrow> int \<Rightarrow> bool" where
  "between a x b \<longleftrightarrow> of_int a \<le> x \<and> x \<le> of_int b"

lemma bucket_between:
  assumes "ms \<noteq> []" and "\<forall>x \<in> set ms. 0 \<le> x \<and> x < 2 ^ 40" and "sum_list ms < 2 ^ 53" and "length ms < 2 ^ 53"
    and b: "b = bucket_of t ms"
  shows "rb_MinDurationMs b = Min (set ms)" and "rb_MaxDurationMs b = Max (set ms)"
    and "between (rb_MinDurationMs b) (rb_AvgDurationMs b) (rb_MaxDurationMs b)"
    and "between (rb_MinDurationMs b) (rb_P50DurationMs b) (rb_MaxDurationMs b)"
    and "between (rb_MinDurationMs b) (rb_P95DurationMs b) (rb_MaxDurationMs b)"
    and "between (rb_MinDurationMs b) (rb_P99DurationMs b) (rb_MaxDurationMs b)"
proof -
  let ?xs = "sort ms"
  have ne: "?xs \<noteq> []" using assms(1) by (metis length_0_conv length_sort)
  have srt: "sorted ?xs" by simp
  have ext: "fold max ?xs (hd ?xs) = last ?xs" "fold min ?xs (hd ?xs) = hd ?xs" using sorted_extremes [OF srt ne] by auto
  have lohi: "rb_MinDurationMs b = hd ?xs" "rb_MaxDurationMs b = last ?xs"
    by (simp_all only: b bucket_of_def Let_def foldl_max foldl_min ext ResponseTimeBucket.simps)
  have le: "hd ?xs \<le> x \<and> x \<le> last ?xs" if "x \<in> set ms" for x
    using sorted_ends [OF srt ne] that by simp
  have mem: "hd ?xs \<in> set ms" "last ?xs \<in> set ms" using ne hd_in_set [OF ne] last_in_set [OF ne] by simp_all
  show "rb_MinDurationMs b = Min (set ms)" "rb_MaxDurationMs b = Max (set ms)"
    unfolding lohi using le mem by (auto intro!: Min_eqI [symmetric] Max_eqI [symmetric])
  have lims: "0 \<le> hd ?xs" "last ?xs < 2 ^ 40" using mem assms(2) by auto
  have len: "length ?xs < 2 ^ 53" "length ?xs = length ms" using assms(4) by simp_all
  have sum: "sum_list ?xs = sum_list ms" by (metis mset_sort sum_mset_sum_list)
  have "foldl (\<lambda>a d. wrap64 (a + d)) 0 ?xs = sum_list ?xs"
    using wrap_sum [of ?xs 0] assms(2,3) sum by simp
  then have avg: "rb_AvgDurationMs b = hundredths (f_div (f_of_int (sum_list ?xs)) (f_of_int (int (length ?xs))))"
    by (simp add: b bucket_of_def Let_def)
  show "between (rb_MinDurationMs b) (rb_AvgDurationMs b) (rb_MaxDurationMs b)"
    unfolding between_def lohi avg
    by (intro conjI mean_between) (use ne le lims sum assms(3) len in auto)
  have unit: "0 \<le> fl64 q" "fl64 q \<le> 1" if "0 \<le> q" "q \<le> 1" for q
    using that by (simp_all add: fl64_nonneg fl64_le fl64_of_int_exact [of 1, simplified])
  note pc = percentile_between [OF srt ne lims unit len(1)]
  show "between (rb_MinDurationMs b) (rb_P50DurationMs b) (rb_MaxDurationMs b)"
    "between (rb_MinDurationMs b) (rb_P95DurationMs b) (rb_MaxDurationMs b)"
    "between (rb_MinDurationMs b) (rb_P99DurationMs b) (rb_MaxDurationMs b)"
    unfolding between_def lohi using pc [of "1 / 2"] pc [of "95 / 100"] pc [of "99 / 100"]
    by (simp_all add: b bucket_of_def Let_def)
qed

text \<open>The end of the slot that \<open>now\<close> falls into: the first multiple of the interval that is not before it.\<close>

definition slot_end :: "gotime \<Rightarrow> duration \<Rightarrow> gotime" where
  "slot_end now interval = now + (- now) mod interval"

lemma slot_end_mod: "slot_end now i mod i = 0"
  by (simp add: slot_end_def mod_add_right_eq)

lemma slot_end_bounds: "0 < i \<Longrightarrow> now \<le> slot_end now i \<and> slot_end now i < now + i"
  by (simp add: slot_end_def)

lemma next_slot:
  assumes "0 < i" and "t mod i = 0" and "t < slot_end now i"
  shows "t + i \<le> slot_end now i" and "t < now"
proof -
  obtain a b where ab: "t = i * a" "slot_end now i = i * b" 
    using assms(2) slot_end_mod by (metis add.right_neutral mult_div_mod_eq)
  with assms have "a < b" by simp
  then have "i * (a + 1) \<le> i * b" using assms(1) by (intro mult_left_mono) simp_all
  then show "t + i \<le> slot_end now i" by (simp add: ab algebra_simps)
  then show "t < now" using slot_end_bounds [OF assms(1), of now] by linarith
qed

lemma in_slot_split: "t \<le> u \<Longrightarrow> u \<le> v \<Longrightarrow> length (in_slot es t v) = length (in_slot es t u) + length (in_slot es u v)"
  by (induction es) (auto simp: in_slot_def before_def)

lemma bucket_loop_spec:
  assumes "0 < i" and "t mod i = 0" and "t \<le> slot_end now i"
  shows "sum_list (map rb_Count (bucket_loop es i now t)) = int (length (in_slot es t (slot_end now i))) \<and>
    sorted_wrt (<) (map rb_Timestamp (bucket_loop es i now t)) \<and>
    (\<forall>b \<in> set (bucket_loop es i now t). t \<le> rb_Timestamp b \<and> rb_Timestamp b mod i = 0 \<and>
      b = bucket_of (rb_Timestamp b) (in_slot es (rb_Timestamp b) (rb_Timestamp b + i)) \<and>
      in_slot es (rb_Timestamp b) (rb_Timestamp b + i) \<noteq> [])"
  using assms
proof (induction es i now t rule: bucket_loop.induct)
  case (1 es i now t)
  show ?case
  proof (cases "t < now")
    case False
    then have end_: "t = slot_end now i" using next_slot(2) [OF "1.prems"(1,2)] "1.prems"(3) by force
    have "bucket_loop es i now t = []" using False by (subst bucket_loop.simps) (simp add: before_def)
    moreover have "in_slot es u u = []" for u by (induction es) (auto simp: in_slot_def before_def)
    then have "length (in_slot es t (slot_end now i)) = 0" unfolding end_ by (simp only: list.size)
    ultimately show ?thesis by simp
  next
    case True
    let ?ms = "in_slot es t (t + i)"
    have lt: "t < slot_end now i" using True slot_end_bounds [OF "1.prems"(1), of now] by linarith
    have nxt: "(t + i) mod i = 0" "t + i \<le> slot_end now i"
      using "1.prems" next_slot(1) [OF "1.prems"(1,2) lt] by (simp_all)
    have unf: "bucket_loop es i now t = (if ?ms = [] then bucket_loop es i now (t + i)
        else bucket_of t ?ms # bucket_loop es i now (t + i))"
      using True "1.prems"(1) by (subst bucket_loop.simps) (simp add: Let_def before_def time_add_def)
    have IH: "sum_list (map rb_Count (bucket_loop es i now (t + i))) = int (length (in_slot es (t + i) (slot_end now i))) \<and>
      sorted_wrt (<) (map rb_Timestamp (bucket_loop es i now (t + i))) \<and>
      (\<forall>b \<in> set (bucket_loop es i now (t + i)). t + i \<le> rb_Timestamp b \<and> rb_Timestamp b mod i = 0 \<and>
        b = bucket_of (rb_Timestamp b) (in_slot es (rb_Timestamp b) (rb_Timestamp b + i)) \<and>
        in_slot es (rb_Timestamp b) (rb_Timestamp b + i) \<noteq> [])"
      using "1.IH" True "1.prems"(1) nxt by (cases "?ms = []") (simp_all add: before_def time_add_def)
    have stamp: "rb_Timestamp (bucket_of t ?ms) = t" "rb_Count (bucket_of t ?ms) = int (length ?ms)"
      by (simp_all add: bucket_of_def Let_def)
    have later: "\<forall>b \<in> set (bucket_loop es i now (t + i)). t < rb_Timestamp b"
      using IH "1.prems"(1) by force
    have split: "length (in_slot es t (slot_end now i)) = length ?ms + length (in_slot es (t + i) (slot_end now i))"
      using nxt(2) "1.prems"(1) by (intro in_slot_split) simp_all
    show ?thesis
    proof (cases "?ms = []")
      case True
      with IH later split show ?thesis by (simp add: unf less_imp_le)
    next
      case False
      with IH later split stamp "1.prems"(2) show ?thesis by (simp add: unf less_imp_le)
    qed
  qed
qed

definition summarises :: "ResponseTimeBucket \<Rightarrow> int list \<Rightarrow> bool" where
  "summarises b slot \<longleftrightarrow>
     rb_Count b = int (length slot) \<and> rb_MinDurationMs b = Min (set slot) \<and> rb_MaxDurationMs b = Max (set slot) \<and>
     between (rb_MinDurationMs b) (rb_AvgDurationMs b) (rb_MaxDurationMs b) \<and>
     between (rb_MinDurationMs b) (rb_P50DurationMs b) (rb_MaxDurationMs b) \<and>
     between (rb_MinDurationMs b) (rb_P95DurationMs b) (rb_MaxDurationMs b) \<and>
     between (rb_MinDurationMs b) (rb_P99DurationMs b) (rb_MaxDurationMs b)"

lemma sum_list_filter_le:
  "(\<And>x. x \<in> set xs \<Longrightarrow> 0 \<le> f x) \<Longrightarrow> sum_list (map f (filter P xs)) \<le> sum_list (map (f :: _ \<Rightarrow> int) xs)"
  by (induction xs) (auto simp: add_increasing add_left_mono)

text \<open>
  C26: The chart of response times accounts for every result. A bucket starts at a multiple of the interval,
  holds exactly the results of the check that started in its slot, and its average and percentiles lie
  between its minimum and maximum; buckets are in order of time, and together they count every result of
  the period up to the end of the slot that \<open>now\<close> falls into once.
\<close>

theorem buckets_account_for_every_result:
  assumes "0 < interval" and "0 \<le> period"
    and "\<forall>r \<in> set results. 0 \<le> res_DurationMs r \<and> res_DurationMs r < 2 ^ 40"
    and "sum_list (map res_DurationMs results) < 2 ^ 53" and "length results < 2 ^ 53"
    and "B = computeResponseTimeBuckets now results checkID period interval"
    and "member = (\<lambda>r. (checkID = [] \<or> res_CheckID r = checkID) \<and> now - period \<le> res_StartedAt r)"
  shows "sum_list (map rb_Count B) = int (length (filter (\<lambda>r. member r \<and> res_StartedAt r < slot_end now interval) results)) \<and>
    sorted_wrt (<) (map rb_Timestamp B) \<and>
    (\<forall>b \<in> set B. rb_Timestamp b mod interval = 0 \<and>
      (let slot = map res_DurationMs (filter (\<lambda>r. member r \<and> rb_Timestamp b \<le> res_StartedAt r \<and>
             res_StartedAt r < rb_Timestamp b + interval) results)
       in slot \<noteq> [] \<and> summarises b slot))"
proof -
  let ?es = "bucket_entries (now - period) checkID results"
  let ?t = "truncate_time (now - period) interval"
  have t: "?t mod interval = 0" by (simp add: truncate_time_def minus_mod_eq_mult_div)
  have tle': "?t \<le> now - period" using assms(1) by (simp add: truncate_time_def)
  have "now - period \<le> slot_end now interval" using slot_end_bounds [OF assms(1), of now] assms(2) by linarith
  with tle' have tle: "?t \<le> slot_end now interval" by linarith
  have slot: "in_slot ?es a b = map res_DurationMs (filter (\<lambda>r. member r \<and> a \<le> res_StartedAt r \<and> res_StartedAt r < b) results)" for a b
    unfolding bucket_entries_def assms(7) by (induction results) (auto simp: in_slot_def before_def)
  have early: "filter (\<lambda>r. member r \<and> ?t \<le> res_StartedAt r \<and> res_StartedAt r < u) results =
      filter (\<lambda>r. member r \<and> res_StartedAt r < u) results" for u
    using tle' by (intro filter_cong) (auto simp: assms(7))
  have B: "B = bucket_loop ?es interval now ?t"
  proof (cases "?es = []")
    case True
    have "bucket_loop [] interval now u = []" for u
      by (induction "[] :: (gotime \<times> int) list" interval now u rule: bucket_loop.induct)
        (subst bucket_loop.simps, simp add: in_slot_def Let_def)
    with True show ?thesis by (simp add: assms(6) computeResponseTimeBuckets_def time_add_def Let_def)
  qed (simp add: assms(6) computeResponseTimeBuckets_def time_add_def Let_def)
  note spec = bucket_loop_spec [OF assms(1) t tle, of ?es, folded B, unfolded slot early]
  have stats: "summarises b slot"
    if slot: "slot = map res_DurationMs (filter P results)" and ne: "slot \<noteq> []" and b: "b = bucket_of u slot" for slot b u P
  proof -
    have "sum_list (map res_DurationMs (filter P results)) \<le> sum_list (map res_DurationMs results)"
      using assms(3) by (intro sum_list_filter_le) auto
    then have "sum_list slot < 2 ^ 53" using assms(4) slot by simp
    moreover have "length slot < 2 ^ 53" using le_less_trans [OF length_filter_le assms(5)] slot by simp
    moreover have "\<forall>x \<in> set slot. 0 \<le> x \<and> x < 2 ^ 40" using assms(3) slot by auto
    ultimately show ?thesis
      using bucket_between [OF ne _ _ _ b] b by (simp add: summarises_def bucket_of_def Let_def)
  qed
  show ?thesis unfolding Let_def
  proof (intro conjI ballI)
    fix b assume b: "b \<in> set B"
    have eq: "b = bucket_of (rb_Timestamp b) (map res_DurationMs (filter (\<lambda>r. member r \<and> rb_Timestamp b \<le> res_StartedAt r \<and>
        res_StartedAt r < rb_Timestamp b + interval) results))"
      and ne: "map res_DurationMs (filter (\<lambda>r. member r \<and> rb_Timestamp b \<le> res_StartedAt r \<and>
        res_StartedAt r < rb_Timestamp b + interval) results) \<noteq> []"
      and stamp: "rb_Timestamp b mod interval = 0"
      using spec b by blast+
    show "rb_Timestamp b mod interval = 0" by (rule stamp)
    show "map res_DurationMs (filter (\<lambda>r. member r \<and> rb_Timestamp b \<le> res_StartedAt r \<and>
        res_StartedAt r < rb_Timestamp b + interval) results) \<noteq> []" by (rule ne)
    show "summarises b (map res_DurationMs (filter (\<lambda>r. member r \<and> rb_Timestamp b \<le> res_StartedAt r \<and>
        res_StartedAt r < rb_Timestamp b + interval) results))" by (rule stats [OF refl ne eq])
  next
    have "length (map res_DurationMs (filter P results)) = length (filter P results)" for P by simp
    then show "sum_list (map rb_Count B) = int (length (filter (\<lambda>r. member r \<and> res_StartedAt r < slot_end now interval) results))"
      using conjunct1 [OF spec] by (simp only:)
    show "sorted_wrt (<) (map rb_Timestamp B)" by (rule conjunct1 [OF conjunct2 [OF spec]])
  qed
qed

definition timed_result :: "string \<Rightarrow> gotime \<Rightarrow> int \<Rightarrow> bool \<Rightarrow> CheckResult" where
  "timed_result i t ms ok = zero_result\<lparr>res_CheckID := i, res_StartedAt := t, res_DurationMs := ms, res_Healthy := ok\<rparr>"

definition some_results :: "CheckResult list" where
  "some_results = [timed_result ''a'' (2000 * hour) 40 True, timed_result ''b'' (2000 * hour) 7 True,
     timed_result ''a'' (2000 * hour + minute) 25 False, timed_result ''a'' (2003 * hour) 90 True,
     timed_result ''a'' (3 * hour) 11 True]"

theorem buckets_account_for_every_result_witness:
  "sum_list (map rb_Count (computeResponseTimeBuckets (2003 * hour + minute) some_results ''a'' (24 * hour) hour)) = 3"
proof -
  have "(0 :: int) < hour" "(0 :: int) \<le> 24 * hour" by (simp_all add: hour_def)
  moreover have "\<forall>r \<in> set some_results. 0 \<le> res_DurationMs r \<and> res_DurationMs r < 2 ^ 40" by code_simp
  moreover have "sum_list (map res_DurationMs some_results) < 2 ^ 53" "length some_results < 2 ^ 53"
    by (simp_all add: some_results_def timed_result_def)
  moreover have "int (length (filter (\<lambda>r. ((''a'' = [] \<or> res_CheckID r = ''a'') \<and> 2003 * hour + minute - 24 * hour \<le> res_StartedAt r) \<and>
      res_StartedAt r < slot_end (2003 * hour + minute) hour) some_results)) = 3"
    by code_simp
  ultimately show ?thesis
    by (subst buckets_account_for_every_result [OF _ _ _ _ _ refl refl, THEN conjunct1])
qed

section \<open>Uptime\<close>

lemma uptime_loop_counts:
  "ul_total (foldl uptime_step s rs) = ul_total s + int (length rs)"
  "ul_healthy (foldl uptime_step s rs) = ul_healthy s + int (length (filter res_Healthy rs))"
  by (induction rs arbitrary: s) (simp_all add: uptime_step_def)

text \<open>
  The uptime of a check is what it says: among the results of the check that started within the period
  it counts all and the healthy ones, and the percentage is their exact ratio up to half a hundredth, and
  between 0 and 100.
\<close>

theorem uptime_is_the_share:
  assumes "rs = filter (\<lambda>r. res_CheckID r = checkID \<and> now - period \<le> res_StartedAt r) results" and "length rs < 2 ^ 52"
    and "u = computeUptime now results checkID period"
  shows "ups_TotalResults u = int (length rs) \<and> ups_HealthyCount u = int (length (filter res_Healthy rs)) \<and>
    0 \<le> ups_UptimePct u \<and> ups_UptimePct u \<le> 100 \<and>
    (rs \<noteq> [] \<longrightarrow> \<bar>ups_UptimePct u - 100 * of_nat (length (filter res_Healthy rs)) / of_nat (length rs)\<bar> \<le> 51 / 10000)"
proof -
  let ?n = "int (length rs)" and ?h = "int (length (filter res_Healthy rs))"
  have "filter (in_period (time_add now (- period)) checkID) results = rs"
    unfolding assms(1) by (intro filter_cong) (auto simp: in_period_def time_add_def before_def)
  then have counts: "ups_TotalResults u = ?n" "ups_HealthyCount u = ?h"
    and pct: "ups_UptimePct u = (if ?n > 0 then
      f_div (fl64 (of_int (math_round (f_mul (f_div (f_of_int ?h) (f_of_int ?n)) 10000)))) 100 else 0)"
    by (simp_all add: assms(3) computeUptime_def Let_def uptime_loop_counts uptime_start_def)
  show ?thesis
  proof (cases "rs = []")
    case True
    then show ?thesis using counts pct by simp
  next
    case False
    then have n: "0 < ?n" by simp
    have h: "0 \<le> ?h" "?h \<le> ?n" by simp_all
    define q where "q = (of_int ?h / of_int ?n :: rat)"
    have q: "0 \<le> q" "q \<le> 1" using n h by (simp_all add: q_def divide_le_eq)
    have ex: "f_of_int ?h = of_int ?h" "f_of_int ?n = of_int ?n"
      using fl64_of_int_exact [of ?h] fl64_of_int_exact [of ?n] le_less_trans [OF length_filter_le [of res_Healthy rs] assms(2)] assms(2)
      by (simp_all add: f_of_int_def)
    define y where "y = fl64 (fl64 q * 10000)"
    have y: "f_mul (f_div (f_of_int ?h) (f_of_int ?n)) 10000 = y" by (simp add: y_def f_mul_def f_div_def ex q_def)
    have f1: "q - 1 / 2 ^ 50 \<le> fl64 q" "fl64 q \<le> q + 1 / 2 ^ 50" by (rule fl64_near [where B = 1]; use q in simp)+
    have f01: "0 \<le> fl64 q" "fl64 q \<le> 1" using q by (simp_all add: fl64_nonneg fl64_le fl64_of_int_exact [of 1, simplified])
    have f2: "fl64 q * 10000 - 1 / 2 ^ 30 \<le> y" "y \<le> fl64 q * 10000 + 1 / 2 ^ 30"
      unfolding y_def by (rule fl64_near [where B = 10000]; use f01 in simp)+
    have y0: "0 \<le> y" "y \<le> 10000" unfolding y_def using f01 by (auto intro!: fl64_nonneg fl64_le fl64_numeral)
    let ?r = "math_round y"
    have rerr: "\<bar>of_int ?r - y\<bar> \<le> 1 / 2" using y0(1) by (rule math_round_error)
    have r: "0 \<le> ?r" "?r \<le> 10000"
      using math_round_mono [OF y0(1)] math_round_mono [OF y0(2)] math_round_int [of 0] math_round_int [of 10000] by simp_all
    then have rex: "fl64 (of_int ?r) = of_int ?r" by (intro fl64_of_int_exact) simp_all
    have u: "ups_UptimePct u = fl64 (of_int ?r / 100)" unfolding pct y if_P [OF n] by (simp add: f_div_def rex)
    have r': "(0 :: rat) \<le> of_int ?r" "(of_int ?r :: rat) \<le> 10000" using r by simp_all
    have f3: "of_int ?r / 100 - 1 / 2 ^ 40 \<le> ups_UptimePct u" "ups_UptimePct u \<le> of_int ?r / 100 + 1 / 2 ^ 40"
      unfolding u by (rule fl64_near [where B = 100]; use r' in simp)+
    have "0 \<le> ups_UptimePct u \<and> ups_UptimePct u \<le> 100"
      unfolding u using r' by (auto intro!: fl64_nonneg fl64_le fl64_numeral)
    moreover have "\<bar>ups_UptimePct u - 100 * q\<bar> \<le> 51 / 10000"
      using f1 f2 f3 abs_ge_self [of "of_int ?r - y"] abs_ge_minus_self [of "of_int ?r - y"] rerr
      by (intro abs_leI) simp_all
    ultimately show ?thesis using counts by (simp add: q_def)
  qed
qed

lemma uptime_is_the_share_witness:
  "\<bar>ups_UptimePct (computeUptime (2003 * hour + minute) some_results ''a'' (24 * hour)) - 100 * 2 / 3\<bar> \<le> 51 / 10000"
proof -
  let ?P = "\<lambda>r. res_CheckID r = ''a'' \<and> 2003 * hour + minute - 24 * hour \<le> res_StartedAt r"
  have "length (filter ?P some_results) = 3" "length (filter res_Healthy (filter ?P some_results)) = 2" by code_simp+
  note n = this
  have "length (filter ?P some_results) < 2 ^ 52" unfolding n(1) by simp
  moreover have "filter ?P some_results \<noteq> []" unfolding length_greater_0_conv [symmetric] n(1) by simp
  ultimately have "\<bar>ups_UptimePct (computeUptime (2003 * hour + minute) some_results ''a'' (24 * hour)) -
      100 * of_nat (length (filter res_Healthy (filter ?P some_results))) / of_nat (length (filter ?P some_results))\<bar> \<le> 51 / 10000"
    using uptime_is_the_share [OF refl _ refl] by blast
  then show ?thesis by (simp only: n of_nat_numeral)
qed

text \<open>
  A \<open>days\<close> parameter above 106751 overflows the timeline's duration: the cutoff falls after now, and a result
  that has just been recorded is missing from a timeline that asks for the last 300 years.
\<close>

lemma timeline_cutoff:
  assumes "0 < days" and "days \<le> 106751"
  shows "dur_mul (dur_mul (wrap64 (- days)) 24) hour = - (days * 24 * hour)"
proof -
  have "wrap64 (- days) = - days" "wrap64 (- days * 24) = - days * 24" "wrap64 (- days * 24 * hour) = - days * 24 * hour"
    using assms by (simp_all add: wrap64_def hour_def)
  then show ?thesis by (simp add: dur_mul_def)
qed

lemma timeline_of_300_years_is_empty:
  "handleAnalyticsStatusTimeline (2000 * hour) id ''GET'' [] (Some 109500) (empty_state\<lparr>st_Results := some_results\<rparr>) =
     (200, Timeline [])"
  by code_simp

end
