(* ===== verification/AuditTrail.thy ===== *)
theory AuditTrail
  imports Documents Analytics "HOL-Library.Sublist"
begin

text \<open>
  The audit log (\<open>audit.go\<close>, \<open>repositories/mongo_audit_repository.go\<close>, \<open>handleAudit\<close> of \<open>service.go\<close>):
  who changed what, and when. The repository of the tests keeps the events in a slice and a file, the one of
  the running program in a collection. The details of an event are any JSON object, \<open>'j\<close>. A write of the
  file goes to a second file that then replaces it, so it either happens or leaves the old file.
\<close>

section \<open>Events and filters\<close>

record 'j AuditEvent =
  ev_ID :: string
  ev_Action :: string
  ev_Actor :: string
  ev_Target :: string
  ev_TargetID :: string
  ev_Details :: "'j option"
  ev_Timestamp :: gotime

record AuditFilter =
  af_Action :: string
  af_Actor :: string
  af_Target :: string
  af_TargetID :: string
  af_StartTime :: gotime
  af_EndTime :: gotime
  af_Limit :: int
  af_Offset :: int

section \<open>The repository in a file\<close>

record 'j FileAuditRepository =
  fa_events :: "'j AuditEvent list"
  fa_file :: "(string + 'j AuditEvent list) option"

text \<open>
  The file may be missing, may not be JSON (the error of the parser), or hold events. A file that is there
  but cannot be read (\<open>unread\<close>, the error) is taken for a missing one.
\<close>

definition NewFileAuditRepository ::
  "string option \<Rightarrow> string option \<Rightarrow> (string + 'j AuditEvent list) option \<Rightarrow> string + 'j FileAuditRepository" where
  "NewFileAuditRepository mkdir unread file =
     (case mkdir of
        Some err \<Rightarrow> Inl (''create audit dir: '' @ err)
      | None \<Rightarrow>
          (case (unread, file) of
             (None, Some (Inl err)) \<Rightarrow> Inl (''parse audit log: '' @ err)
           | (None, Some (Inr es)) \<Rightarrow> Inr \<lparr>fa_events = es, fa_file = file\<rparr>
           | _ \<Rightarrow> Inr \<lparr>fa_events = [], fa_file = file\<rparr>))"

definition flushLocked :: "string option \<Rightarrow> 'j FileAuditRepository \<Rightarrow> 'j FileAuditRepository \<times> string option" where
  "flushLocked werr r = (case werr of None \<Rightarrow> (r\<lparr>fa_file := Some (Inr (fa_events r))\<rparr>, None) | Some err \<Rightarrow> (r, Some err))"

definition fa_InsertEvent ::
  "string option \<Rightarrow> 'j AuditEvent \<Rightarrow> 'j FileAuditRepository \<Rightarrow> 'j FileAuditRepository \<times> string option" where
  "fa_InsertEvent werr e r = flushLocked werr (r\<lparr>fa_events := fa_events r @ [e]\<rparr>)"

definition admits :: "AuditFilter \<Rightarrow> 'j AuditEvent \<Rightarrow> bool" where
  "admits f e \<longleftrightarrow>
     (if af_Action f \<noteq> [] \<and> ev_Action e \<noteq> af_Action f then False
      else if af_Actor f \<noteq> [] \<and> ev_Actor e \<noteq> af_Actor f then False
      else if af_Target f \<noteq> [] \<and> ev_Target e \<noteq> af_Target f then False
      else if af_TargetID f \<noteq> [] \<and> ev_TargetID e \<noteq> af_TargetID f then False
      else if \<not> is_zero (af_StartTime f) \<and> before (ev_Timestamp e) (af_StartTime f) then False
      else if \<not> is_zero (af_EndTime f) \<and> after (ev_Timestamp e) (af_EndTime f) then False
      else True)"

text \<open>The bubble sort, as the two loops over the indices.\<close>

definition bubble_step :: "'j AuditEvent list \<Rightarrow> nat \<Rightarrow> 'j AuditEvent list" where
  "bubble_step es j =
     (if before (ev_Timestamp (es ! j)) (ev_Timestamp (es ! (j + 1))) then es[j := es ! (j + 1), j + 1 := es ! j] else es)"

definition bubble_pass :: "'j AuditEvent list \<Rightarrow> nat \<Rightarrow> 'j AuditEvent list" where
  "bubble_pass es i = foldl bubble_step es [0 ..< length es - i - 1]"

definition sortEventsDescending :: "'j AuditEvent list \<Rightarrow> 'j AuditEvent list" where
  "sortEventsDescending es = foldl bubble_pass es [0 ..< length es - 1]"

definition paginated :: "AuditFilter \<Rightarrow> 'a list \<Rightarrow> 'a list" where
  "paginated f xs =
     (let xs' = (if af_Offset f > 0 then (if af_Offset f \<ge> int (length xs) then [] else drop (nat (af_Offset f)) xs) else xs)
      in if af_Offset f > 0 \<and> af_Offset f \<ge> int (length xs) then []
         else if af_Limit f > 0 \<and> af_Limit f < int (length xs') then take (nat (af_Limit f)) xs' else xs')"

definition fa_ListEvents :: "AuditFilter \<Rightarrow> 'j FileAuditRepository \<Rightarrow> 'j AuditEvent list" where
  "fa_ListEvents f r = paginated f (sortEventsDescending (filter (admits f) (fa_events r)))"

section \<open>The repository in the database\<close>

text \<open>
  A stored event comes back as a map from field names to Go values, and which type a value has is the
  driver's choice: \<open>dec\<close>. A date can be a \<open>time.Time\<close> or the driver's own \<open>DateTime\<close>, an embedded
  document a \<open>bson.M\<close> or a \<open>bson.D\<close>.
\<close>

datatype 'j go_value = GoString string | GoTime gotime | GoDateTime int | GoM 'j | GoD 'j

definition strVal :: "(string \<Rightarrow> 'j go_value option) \<Rightarrow> string \<Rightarrow> string" where
  "strVal doc key = (case doc key of Some (GoString v) \<Rightarrow> v | _ \<Rightarrow> [])"

definition read_event :: "(string \<Rightarrow> 'j go_value option) \<Rightarrow> 'j AuditEvent" where
  "read_event doc = \<lparr>
     ev_ID = strVal doc ''_id'', ev_Action = strVal doc ''action'', ev_Actor = strVal doc ''actor'',
     ev_Target = strVal doc ''target'',
     ev_TargetID = (case doc ''targetId'' of Some (GoString v) \<Rightarrow> v | _ \<Rightarrow> []),
     ev_Details = (case doc ''details'' of Some (GoM v) \<Rightarrow> Some v | _ \<Rightarrow> None),
     ev_Timestamp = (case doc ''timestamp'' of Some (GoTime v) \<Rightarrow> v | _ \<Rightarrow> zero_time)\<rparr>"

definition ma_InsertEvent ::
  "('w, 'j AuditEvent) Collection \<Rightarrow> gotime \<Rightarrow> 'j AuditEvent \<Rightarrow> 'w \<Rightarrow> 'w \<times> string option" where
  "ma_InsertEvent C now e w =
     (let e = (if is_zero (ev_Timestamp e) then e\<lparr>ev_Timestamp := now\<rparr> else e)
      in case cl_insert C (e\<lparr>ev_Timestamp := bson_time (ev_Timestamp e)\<rparr>) w of
           (w, DocInserted) \<Rightarrow> (w, None)
         | (w, DocDuplicate) \<Rightarrow> (w, None)
         | (w, DocFailed err) \<Rightarrow> (w, Some err))"

definition mongo_filter :: "AuditFilter \<Rightarrow> 'j AuditEvent \<Rightarrow> bool" where
  "mongo_filter f e \<longleftrightarrow>
     (af_Action f \<noteq> [] \<longrightarrow> ev_Action e = af_Action f) \<and> (af_Actor f \<noteq> [] \<longrightarrow> ev_Actor e = af_Actor f) \<and>
     (af_Target f \<noteq> [] \<longrightarrow> ev_Target e = af_Target f) \<and> (af_TargetID f \<noteq> [] \<longrightarrow> ev_TargetID e = af_TargetID f) \<and>
     (\<not> is_zero (af_StartTime f) \<longrightarrow> bson_time (af_StartTime f) \<le> ev_Timestamp e) \<and>
     (\<not> is_zero (af_EndTime f) \<longrightarrow> ev_Timestamp e \<le> bson_time (af_EndTime f))"

text \<open>A document that cannot be decoded is skipped, and an error of the iteration just ends the list.\<close>

definition ma_ListEvents ::
  "('w, 'j AuditEvent) Collection \<Rightarrow> ('j AuditEvent \<Rightarrow> (string \<Rightarrow> 'j go_value option) option) \<Rightarrow> AuditFilter \<Rightarrow> 'w \<Rightarrow>
     string + 'j AuditEvent list" where
  "ma_ListEvents C dec f w =
     (let skip = (if af_Offset f > 0 then nat (af_Offset f) else 0);
          limit = (if af_Limit f \<le> 0 then 200 else af_Limit f)
      in case cl_find C (mongo_filter f) (newest ev_Timestamp) skip (Some (nat limit)) w of
           Inl (QueryStage, err, _) \<Rightarrow> Inl (''query audit events: '' @ err)
         | Inl (_, _, got) \<Rightarrow> Inr (map read_event (List.map_filter dec got))
         | Inr docs \<Rightarrow> Inr (map read_event (List.map_filter dec docs)))"

definition ma_PruneBefore :: "('w, 'j AuditEvent) Collection \<Rightarrow> gotime \<Rightarrow> 'w \<Rightarrow> 'w \<times> string option" where
  "ma_PruneBefore C cutoff w =
     (case cl_delete_many C (\<lambda>e. before (ev_Timestamp e) (bson_time cutoff)) w of
        (w, Inl err) \<Rightarrow> (w, Some err)
      | (w, Inr _) \<Rightarrow> (w, None))"

section \<open>The logger and its handler\<close>

definition hex_digit :: "nat \<Rightarrow> char" where
  "hex_digit n = ''0123456789abcdef'' ! n"

definition hex_bytes :: "nat list \<Rightarrow> string" where
  "hex_bytes bs = concat (map (\<lambda>b. [hex_digit (b div 16), hex_digit (b mod 16)]) bs)"

definition generateAuditID :: "nat list option \<Rightarrow> gotime \<Rightarrow> string" where
  "generateAuditID random now =
     (case random of None \<Rightarrow> ''audit-'' @ itoa (unix_nano now) | Some bs \<Rightarrow> ''audit-'' @ hex_bytes bs)"

text \<open>\<open>AuditLogger.Log\<close> with any repository; the lines it prints are left out.\<close>

definition audit_Log ::
  "('j AuditEvent \<Rightarrow> 's \<Rightarrow> 's \<times> string option) \<Rightarrow> nat list option \<Rightarrow> gotime \<Rightarrow> string \<Rightarrow> string \<Rightarrow> string \<Rightarrow> string \<Rightarrow>
     'j option \<Rightarrow> 's \<Rightarrow> 's \<times> string option" where
  "audit_Log insert_event random now action actor target targetID details s =
     insert_event \<lparr>ev_ID = generateAuditID random now, ev_Action = action, ev_Actor = actor, ev_Target = target,
       ev_TargetID = targetID, ev_Details = details, ev_Timestamp = now\<rparr> s"

record AuditQuery =
  aqy_action :: string
  aqy_actor :: string
  aqy_target :: string
  aqy_targetId :: string
  aqy_limit :: "int option"
  aqy_offset :: "int option"
  aqy_startTime :: string
  aqy_endTime :: string

definition query_time :: "(string \<Rightarrow> gotime option) \<Rightarrow> string \<Rightarrow> gotime" where
  "query_time rfc3339 raw =
     (let raw = trim_space raw
      in if raw \<noteq> [] then (case rfc3339 raw of None \<Rightarrow> zero_time | Some t \<Rightarrow> t) else zero_time)"

definition query_filter :: "(string \<Rightarrow> gotime option) \<Rightarrow> AuditQuery \<Rightarrow> AuditFilter" where
  "query_filter rfc3339 q = \<lparr>
     af_Action = trim_space (aqy_action q), af_Actor = trim_space (aqy_actor q), af_Target = trim_space (aqy_target q),
     af_TargetID = trim_space (aqy_targetId q),
     af_StartTime = query_time rfc3339 (aqy_startTime q), af_EndTime = query_time rfc3339 (aqy_endTime q),
     af_Limit = QueryInt (aqy_limit q) 100, af_Offset = QueryInt (aqy_offset q) 0\<rparr>"

datatype 'j audit_body = Events "'j AuditEvent list" | AuditError string | NoAuditBody

definition handleAudit ::
  "(string \<Rightarrow> gotime option) \<Rightarrow> (AuditFilter \<Rightarrow> string + 'j AuditEvent list) option \<Rightarrow> string \<Rightarrow> AuditQuery \<Rightarrow> int \<times> 'j audit_body" where
  "handleAudit rfc3339 list_events meth q =
     (if meth \<noteq> ''GET'' then (405, NoAuditBody)
      else case list_events of
             None \<Rightarrow> (503, AuditError ''audit logger not configured'')
           | Some list_events \<Rightarrow>
               (case list_events (query_filter rfc3339 q) of
                  Inl err \<Rightarrow> (500, AuditError err)
                | Inr events \<Rightarrow> (200, Events events)))"

section \<open>The bubble sort is a stable sort\<close>

abbreviation stamps :: "'j AuditEvent list \<Rightarrow> nat \<Rightarrow> gotime" where
  "stamps es i \<equiv> ev_Timestamp (es ! i)"

lemma bubble_step_length [simp]: "length (bubble_step es j) = length es"
  by (simp add: bubble_step_def)

lemma bubble_fold_length [simp]: "length (foldl bubble_step es js) = length es"
  by (induction js arbitrary: es) simp_all

lemma bubble_pass_length [simp]: "length (bubble_pass es i) = length es"
  by (simp add: bubble_pass_def)

lemma swap_mset:
  "Suc j < length es \<Longrightarrow> mset (es[j := es ! Suc j, Suc j := es ! j]) = mset es"
  by (rule mset_swap) simp_all

lemma bubble_step_mset: "j + 1 < length es \<Longrightarrow> mset (bubble_step es j) = mset es"
  by (simp add: bubble_step_def swap_mset)

text \<open>Events with the same time keep their order.\<close>

lemma bubble_step_stable:
  assumes "j + 1 < length es"
  shows "filter (\<lambda>e. ev_Timestamp e = t) (bubble_step es j) = filter (\<lambda>e. ev_Timestamp e = t) es"
proof -
  have split: "es = take j es @ [es ! j, es ! Suc j] @ drop (Suc (Suc j)) es"
    using assms by (metis Cons_nth_drop_Suc Suc_eq_plus1 Suc_lessD append_Cons append_Nil append_take_drop_id)
  have swapped: "es[j := es ! Suc j, Suc j := es ! j] = take j es @ [es ! Suc j, es ! j] @ drop (Suc (Suc j)) es"
    using assms by (subst (1) split) (simp add: list_update_append)
  have parts: "filter P es = filter P (take j es) @ filter P [es ! j, es ! Suc j] @ filter P (drop (Suc (Suc j)) es)" for P
    by (metis split filter_append)
  show ?thesis
  proof (cases "before (stamps es j) (stamps es (j + 1))")
    case True
    then show ?thesis
      by (auto simp: bubble_step_def swapped before_def parts)
  qed (simp add: bubble_step_def)
qed

text \<open>
  One pass carries the oldest of the first \<open>n - i\<close> events to the end of them; after \<open>i\<close> passes the last \<open>i\<close>
  events are in their places.
\<close>

definition carried :: "'j AuditEvent list \<Rightarrow> nat \<Rightarrow> bool" where
  "carried es j \<longleftrightarrow> (\<forall>a \<le> j. stamps es j \<le> stamps es a)"

definition placed :: "'j AuditEvent list \<Rightarrow> nat \<Rightarrow> bool" where
  "placed es m \<longleftrightarrow> (\<forall>a b. a < b \<longrightarrow> m \<le> b \<longrightarrow> b < length es \<longrightarrow> stamps es b \<le> stamps es a)"

lemma step_carries: "j + 1 < length es \<Longrightarrow> carried es j \<Longrightarrow> carried (bubble_step es j) (j + 1)"
  unfolding carried_def bubble_step_def
  by (auto simp: nth_list_update before_def le_Suc_eq)

lemma step_keeps_places:
  assumes "j + 1 < m" and "m \<le> length es" and "placed es m"
  shows "placed (bubble_step es j) m"
  using assms unfolding placed_def bubble_step_def by (auto simp: nth_list_update)

lemma pass_places:
  assumes "Suc i < length es" and "placed es (length es - i)"
  shows "placed (bubble_pass es i) (length es - i - 1)"
proof -
  let ?n = "length es - i - 1"
  have "k \<le> ?n \<Longrightarrow> carried (foldl bubble_step es [0 ..< k]) k \<and> placed (foldl bubble_step es [0 ..< k]) (length es - i)" for k
  proof (induction k)
    case 0
    then show ?case using assms(2) by (simp add: carried_def)
  next
    case (Suc k)
    then show ?case
      using step_carries [of k "foldl bubble_step es [0 ..< k]"] step_keeps_places [of k "length es - i" "foldl bubble_step es [0 ..< k]"]
      by simp
  qed
  from this [of ?n] have c: "carried (bubble_pass es i) ?n" and p: "placed (bubble_pass es i) (Suc ?n)"
    using assms(1) by (simp_all add: bubble_pass_def Suc_diff_Suc)
  show ?thesis
    unfolding placed_def
  proof (intro allI impI)
    fix a b assume ab: "a < b" "?n \<le> b" "b < length (bubble_pass es i)"
    show "stamps (bubble_pass es i) b \<le> stamps (bubble_pass es i) a"
    proof (cases "b = ?n")
      case True
      with c ab(1) show ?thesis by (simp add: carried_def)
    next
      case False
      with p ab show ?thesis by (simp add: placed_def)
    qed
  qed
qed

lemma bubble_fold_keeps:
  "\<forall>j \<in> set js. j + 1 < length es \<Longrightarrow>
     filter (\<lambda>e. ev_Timestamp e = t) (foldl bubble_step es js) = filter (\<lambda>e. ev_Timestamp e = t) es \<and>
     mset (foldl bubble_step es js) = mset es"
  by (induction js arbitrary: es) (simp_all add: bubble_step_stable [simplified] bubble_step_mset)

lemma bubble_passes:
  "k \<le> length es - 1 \<Longrightarrow>
     length (foldl bubble_pass es [0 ..< k]) = length es \<and> mset (foldl bubble_pass es [0 ..< k]) = mset es \<and>
     filter (\<lambda>e. ev_Timestamp e = t) (foldl bubble_pass es [0 ..< k]) = filter (\<lambda>e. ev_Timestamp e = t) es \<and>
     placed (foldl bubble_pass es [0 ..< k]) (length es - k)"
proof (induction k)
  case 0
  then show ?case by (simp add: placed_def)
next
  case (Suc k)
  let ?es = "foldl bubble_pass es [0 ..< k]"
  have IH: "length ?es = length es" "mset ?es = mset es" "placed ?es (length es - k)"
    "filter (\<lambda>e. ev_Timestamp e = t) ?es = filter (\<lambda>e. ev_Timestamp e = t) es"
    using Suc by simp_all
  have "placed (bubble_pass ?es k) (length es - k - 1)" using pass_places [of k ?es] IH Suc.prems by simp
  moreover have "filter (\<lambda>e. ev_Timestamp e = t) (bubble_pass ?es k) = filter (\<lambda>e. ev_Timestamp e = t) ?es \<and>
      mset (bubble_pass ?es k) = mset ?es"
    unfolding bubble_pass_def by (rule bubble_fold_keeps) (use IH Suc.prems in auto)
  ultimately show ?case using IH by simp
qed

text \<open>
  C27: The hand-written sort of the audit log is the stable sort by descending time of the library: it is
  sorted, loses nothing, and leaves events of the same time in the order in which they were logged.
\<close>

theorem bubble_sort_is_stable_sort: "sortEventsDescending es = sort_key (\<lambda>e. - ev_Timestamp e) es"
proof (rule properties_for_sort_key [symmetric])
  note b = bubble_passes [of "length es - 1" es, OF order_refl, folded sortEventsDescending_def]
  show "mset (sortEventsDescending es) = mset es" using b by simp
  show "filter (\<lambda>x. - ev_Timestamp k = - ev_Timestamp x) (sortEventsDescending es) =
      filter (\<lambda>x. - ev_Timestamp k = - ev_Timestamp x) es" for k
    using b [of "ev_Timestamp k"] by (simp add: eq_commute)
  have "placed (sortEventsDescending es) 1 \<or> length es = 0" using b by (cases es) simp_all
  then show "sorted (map (\<lambda>e. - ev_Timestamp e) (sortEventsDescending es))"
    using b by (auto simp: sorted_wrt_iff_nth_less placed_def sorted_wrt_map)
qed

section \<open>What is reported is kept\<close>

text \<open>
  A history of the file repository, which is the one of the running program: inserts, each with the outcome of its
  write, and restarts, each with that of reading the file. Next to the repository it collects the events whose
  insert reported success since the last restart that could not read the file.
\<close>

datatype 'j audit_call = AuditInsert "'j AuditEvent" "string option" | AuditRestart "string option"

fun audit_run ::
  "'j audit_call list \<Rightarrow> 'j FileAuditRepository \<times> 'j AuditEvent list \<Rightarrow> 'j FileAuditRepository \<times> 'j AuditEvent list" where
  "audit_run [] s = s"
| "audit_run (AuditRestart unread # calls) (r, reported) =
     audit_run calls (case NewFileAuditRepository None unread (fa_file r) of
         Inr r \<Rightarrow> (r, if unread = None then reported else []) | Inl _ \<Rightarrow> (r, reported))"
| "audit_run (AuditInsert e werr # calls) (r, reported) =
     audit_run calls (case fa_InsertEvent werr e r of (r, None) \<Rightarrow> (r, reported @ [e]) | (r, Some _) \<Rightarrow> (r, reported))"

fun inserted :: "'j audit_call \<Rightarrow> 'j AuditEvent set" where
  "inserted (AuditInsert e werr) = {e}"
| "inserted (AuditRestart unread) = {}"

definition on_disk :: "'j FileAuditRepository \<Rightarrow> 'j AuditEvent list" where
  "on_disk r = (case fa_file r of Some (Inr es) \<Rightarrow> es | _ \<Rightarrow> [])"

definition audit_ok :: "'j AuditEvent set \<Rightarrow> 'j FileAuditRepository \<times> 'j AuditEvent list \<Rightarrow> bool" where
  "audit_ok A = (\<lambda>(r, reported). (\<forall>err. fa_file r \<noteq> Some (Inl err)) \<and> subseq reported (on_disk r) \<and> subseq reported (fa_events r) \<and>
     set (on_disk r) \<subseteq> A \<and> set (fa_events r) \<subseteq> A)"

lemma audit_run_ok: "audit_ok A s \<Longrightarrow> audit_ok (A \<union> (\<Union>c \<in> set calls. inserted c)) (audit_run calls s)"
proof (induction calls s arbitrary: A rule: audit_run.induct)
  case (2 unread calls r reported)
  have "audit_ok A (case NewFileAuditRepository None unread (fa_file r) of
      Inr r \<Rightarrow> (r, if unread = None then reported else []) | Inl _ \<Rightarrow> (r, reported))"
    using "2.prems"
    by (auto simp: audit_ok_def NewFileAuditRepository_def on_disk_def split: option.splits sum.splits)
  then show ?case using "2.IH" by simp
next
  case (3 e werr calls r reported)
  have "subseq (reported @ [e]) (es @ [e])" if "subseq reported es" for es
    using that by (rule list_emb_append_mono) simp
  moreover have "subseq reported (es @ [e])" if "subseq reported es" for es
    using that by (rule subseq_rev_drop_many)
  ultimately have "audit_ok (A \<union> {e}) (case fa_InsertEvent werr e r of (r, None) \<Rightarrow> (r, reported @ [e]) | (r, Some _) \<Rightarrow> (r, reported))"
    using "3.prems" by (auto simp: audit_ok_def fa_InsertEvent_def flushLocked_def on_disk_def split: option.splits)
  from "3.IH" [OF this] show ?case by simp
qed simp

text \<open>
  C28: After any history of inserts, failed writes and restarts, the next start that can read the file finds there, in
  order, every audit event whose insert reported success since the last restart that could not read it (if there was
  none, every event that was reported), and nothing but events that were to be inserted.
\<close>

theorem reported_events_are_kept:
  "\<exists>r'. NewFileAuditRepository None None (fa_file (fst (audit_run calls (\<lparr>fa_events = [], fa_file = None\<rparr>, [])))) = Inr r' \<and>
     subseq (snd (audit_run calls (\<lparr>fa_events = [], fa_file = None\<rparr>, []))) (fa_events r') \<and>
     set (fa_events r') \<subseteq> (\<Union>c \<in> set calls. inserted c)"
proof -
  have "audit_ok {} (\<lparr>fa_events = [], fa_file = None\<rparr>, [])" by (simp add: audit_ok_def on_disk_def)
  from audit_run_ok [OF this, of calls] show ?thesis
    by (auto simp: audit_ok_def NewFileAuditRepository_def on_disk_def split: option.splits sum.splits)
qed

text \<open>A restart that cannot read the file starts with an empty log, and the next insert writes that over the file.\<close>

lemma unreadable_log_is_lost:
  "fa_file (fst (audit_run [AuditInsert e1 None, AuditRestart (Some err), AuditInsert e2 None] (\<lparr>fa_events = [], fa_file = None\<rparr>, []))) =
     Some (Inr [e2])"
  by (simp add: NewFileAuditRepository_def fa_InsertEvent_def flushLocked_def)

section \<open>What a listing shows\<close>

lemma paginated_page: "0 \<le> af_Offset f \<Longrightarrow> 0 < af_Limit f \<Longrightarrow> paginated f xs = take (nat (af_Limit f)) (drop (nat (af_Offset f)) xs)"
  unfolding paginated_def by (auto simp: Let_def)

lemma admits_mongo:
  assumes "bson_time (af_StartTime f) = af_StartTime f" and "bson_time (af_EndTime f) = af_EndTime f"
  shows "admits f e = mongo_filter f e"
  using assms by (auto simp: admits_def mongo_filter_def before_def after_def)

text \<open>
  If the driver hands a date to a \<open>bson.M\<close> as its own \<open>DateTime\<close> and an embedded document as a \<open>bson.D\<close>, the
  type assertions of \<open>ListEvents\<close> fail: every listed event has the zero time and no details.
\<close>

lemma listed_events_lose_time_and_details:
  assumes "\<forall>e doc. dec e = Some doc \<longrightarrow> (\<exists>t. doc ''timestamp'' = Some (GoDateTime t)) \<and>
      (\<forall>m. doc ''details'' \<noteq> Some (GoM m))"
    and "ma_ListEvents C dec f w = Inr es" and "e \<in> set es"
  shows "ev_Timestamp e = zero_time \<and> ev_Details e = None"
proof -
  obtain docs where "es = map read_event (List.map_filter dec docs)"
    using assms(2) by (auto simp: ma_ListEvents_def Let_def split: sum.splits prod.splits find_stage.splits)
  then obtain d doc where "dec d = Some doc" "e = read_event doc"
    using assms(3) by (auto simp: List.map_filter_def)
  moreover have "\<exists>t. doc ''timestamp'' = Some (GoDateTime t)" "\<forall>m. doc ''details'' \<noteq> Some (GoM m)"
    using assms(1) calculation(1) by blast+
  ultimately show ?thesis
    by (auto simp: read_event_def split: option.splits go_value.splits)
qed

end
