(* ===== verification/Frontend.thy ===== *)
theory Frontend
  imports AuditTrail AlertPipeline CheckAPI
begin

text \<open>
  The handlers that the web interface calls (\<open>frontstopapi.go\<close>): the runtime configuration, the alert
  rules with the file that the engine keeps of them (\<open>alert_rules.go\<close>), the filtered list of incidents, the
  stream of events and the identity of the caller. A request comes with its decoded body, or the error of the decoder;
  the times, the random bytes and the outcomes of the writes are an environment. Requests are handled one
  after the other.
\<close>

section \<open>The file of alert rules\<close>

text \<open>
  What a rule is after it has been written as JSON and read back: a number in an \<open>interface{}\<close> has become
  a \<open>float64\<close>. The file may be missing or hold something else than rules.
\<close>

definition json_value :: "goval \<Rightarrow> goval" where
  "json_value v = (case v of VInt i \<Rightarrow> VFloat (f_of_int i) | VInt64 i \<Rightarrow> VFloat (f_of_int i) | _ \<Rightarrow> v)"

definition json_rule :: "AlertRule \<Rightarrow> AlertRule" where
  "json_rule r = r\<lparr>
     rule_Conditions := map (\<lambda>c. c\<lparr>cond_Value := json_value (cond_Value c)\<rparr>) (rule_Conditions r),
     rule_Channels := map (\<lambda>ch. ch\<lparr>ach_Config := map (\<lambda>(k, v). (k, json_value v)) (ach_Config ch)\<rparr>) (rule_Channels r)\<rparr>"

datatype rules_file = NoRules | NotRules | RulesFile "AlertRule list"

record RuleEngine =
  re_engine :: AlertRuleEngine
  re_path :: string
  re_file :: rules_file

text \<open>How writing the file ends: a failure is only a line of the log.\<close>

datatype persist_end = Persisted | PersistFailed string

definition set_rules :: "AlertRule list \<Rightarrow> RuleEngine \<Rightarrow> RuleEngine" where
  "set_rules rules e = e\<lparr>re_engine := (re_engine e)\<lparr>eng_rules := rules\<rparr>\<rparr>"

definition persist :: "persist_end \<Rightarrow> RuleEngine \<Rightarrow> RuleEngine" where
  "persist p e =
     (if re_path e = [] then e
      else case p of
             Persisted \<Rightarrow> e\<lparr>re_file := RulesFile (map json_rule (eng_rules (re_engine e)))\<rparr>
           | PersistFailed line \<Rightarrow> e\<lparr>re_engine := (re_engine e)\<lparr>eng_log := eng_log (re_engine e) @ [line]\<rparr>\<rparr>)"

definition SetFilePath :: "string \<Rightarrow> RuleEngine \<Rightarrow> RuleEngine" where
  "SetFilePath path e = e\<lparr>re_path := path\<rparr>"

definition PersistIfNeeded :: "persist_end \<Rightarrow> RuleEngine \<Rightarrow> RuleEngine" where
  "PersistIfNeeded p e = (if re_path e = [] then e else if re_file e = NoRules then persist p e else e)"

definition LoadRulesFromConfig :: "rules_file \<Rightarrow> AlertRule list" where
  "LoadRulesFromConfig f = (case f of RulesFile rules \<Rightarrow> rules | _ \<Rightarrow> DefaultAlertRules)"

text \<open>The alert engine as \<open>NewService\<close> sets it up.\<close>

definition start_engine :: "persist_end \<Rightarrow> rules_file \<Rightarrow> RuleEngine" where
  "start_engine p f =
     (let alertRules = LoadRulesFromConfig f;
          e = SetFilePath ''data/alert_rules.json'' \<lparr>re_engine = NewAlertRuleEngine alertRules, re_path = [], re_file = f\<rparr>
      in if length alertRules > 0 then PersistIfNeeded p e else e)"

definition Rules :: "RuleEngine \<Rightarrow> AlertRule list" where
  "Rules e = eng_rules (re_engine e)"

definition AddRule :: "persist_end \<Rightarrow> AlertRule \<Rightarrow> RuleEngine \<Rightarrow> RuleEngine" where
  "AddRule p rule e = persist p (set_rules (Rules e @ [rule]) e)"

definition rule_not_found :: "string \<Rightarrow> string" where
  "rule_not_found i = ''alert rule not found: '' @ i"

definition GetRule :: "string \<Rightarrow> RuleEngine \<Rightarrow> string + AlertRule" where
  "GetRule i e = (case find (\<lambda>r. rule_ID r = i) (Rules e) of Some r \<Rightarrow> Inr r | None \<Rightarrow> Inl (rule_not_found i))"

text \<open>Replacing, or removing, the first rule with an ID.\<close>

fun change_rule :: "string \<Rightarrow> AlertRule list \<Rightarrow> AlertRule list \<Rightarrow> AlertRule list option" where
  "change_rule i new [] = None"
| "change_rule i new (r # rs) = (if rule_ID r = i then Some (new @ rs) else map_option (Cons r) (change_rule i new rs))"

definition UpdateRule :: "persist_end \<Rightarrow> AlertRule \<Rightarrow> RuleEngine \<Rightarrow> RuleEngine \<times> string option" where
  "UpdateRule p rule e =
     (case change_rule (rule_ID rule) [rule] (Rules e) of
        Some rules \<Rightarrow> (persist p (set_rules rules e), None)
      | None \<Rightarrow> (e, Some (rule_not_found (rule_ID rule))))"

definition DeleteRule :: "persist_end \<Rightarrow> string \<Rightarrow> RuleEngine \<Rightarrow> RuleEngine \<times> string option" where
  "DeleteRule p i e =
     (case change_rule i [] (Rules e) of
        Some rules \<Rightarrow> (persist p (set_rules rules e), None)
      | None \<Rightarrow> (e, Some (rule_not_found i)))"

section \<open>The state of the service, and the answers\<close>

datatype detail = TextDetail string | NumberChange int int | FlagChange bool bool

type_synonym details = "(string \<times> detail) list"

record FrontService =
  fs_cfg :: Config
  fs_isDemoMode :: bool
  fs_rules :: RuleEngine
  fs_audit :: "details FileAuditRepository option"

record FrontEnv =
  fe_crypto :: Crypto
  fe_secret :: string
  fe_unix :: int
  fe_now :: gotime
  fe_xuser :: string
  fe_random :: "nat list option"
  fe_audit_err :: "string option"
  fe_persist :: persist_end

record SafeConfigView =
  scv_Server :: ServerConfig
  scv_AuthEnabled :: bool
  scv_RetentionDays :: int
  scv_CheckIntervalSeconds :: int
  scv_Workers :: int
  scv_AllowCommandChecks :: bool
  scv_TotalChecks :: int
  scv_TotalServers :: int
  scv_IsDemoMode :: bool

record ConfigUpdate =
  cup_RetentionDays :: "int option"
  cup_CheckIntervalSeconds :: "int option"
  cup_Workers :: "int option"
  cup_AllowCommandChecks :: "bool option"

datatype front_body =
    ConfigBody SafeConfigView | RulesBody "AlertRule list" | RuleBody AlertRule | DeletedBody string
  | FrontError string | PlainBody string

definition front_authorized :: "FrontEnv \<Rightarrow> Request \<Rightarrow> FrontService \<Rightarrow> bool" where
  "front_authorized env r s = IsRequestAuthorized (fe_crypto env) (fe_secret env) (fe_unix env) (cfg_Auth (fs_cfg s)) r"

definition front_unauthorized :: "int \<times> front_body" where
  "front_unauthorized = (401, FrontError ''authentication required'')"

definition front_audited ::
  "FrontEnv \<Rightarrow> Request \<Rightarrow> string \<Rightarrow> string \<Rightarrow> string \<Rightarrow> details option \<Rightarrow> FrontService \<Rightarrow> FrontService" where
  "front_audited env r action target i d s =
     s\<lparr>fs_audit := map_option (\<lambda>a. fst (audit_Log (fa_InsertEvent (fe_audit_err env)) (fe_random env) (fe_now env)
        action (ExtractActorFromRequest (fs_cfg s) (fe_xuser env) r) target i d a)) (fs_audit s)\<rparr>"

section \<open>The configuration\<close>

definition safeConfigView :: "FrontService \<Rightarrow> SafeConfigView" where
  "safeConfigView s = \<lparr>
     scv_Server = cfg_Server (fs_cfg s), scv_AuthEnabled = auth_Enabled (cfg_Auth (fs_cfg s)),
     scv_RetentionDays = cfg_RetentionDays (fs_cfg s), scv_CheckIntervalSeconds = cfg_CheckIntervalSeconds (fs_cfg s),
     scv_Workers = cfg_Workers (fs_cfg s), scv_AllowCommandChecks = cfg_AllowCommandChecks (fs_cfg s),
     scv_TotalChecks = int (length (cfg_Checks (fs_cfg s))), scv_TotalServers = int (length (cfg_Servers (fs_cfg s))),
     scv_IsDemoMode = False\<rparr>"

definition handleConfigGet :: "FrontService \<Rightarrow> int \<times> front_body" where
  "handleConfigGet s = (200, ConfigBody ((safeConfigView s)\<lparr>scv_IsDemoMode := fs_isDemoMode s\<rparr>))"

definition out_of :: "int option \<Rightarrow> int \<Rightarrow> int \<Rightarrow> bool" where
  "out_of v lo hi \<longleftrightarrow> (case v of None \<Rightarrow> False | Some n \<Rightarrow> n < lo \<or> n > hi)"

definition update_refused :: "ConfigUpdate \<Rightarrow> string option" where
  "update_refused u =
     (if out_of (cup_RetentionDays u) 1 365 then Some ''retentionDays must be 1-365''
      else if out_of (cup_CheckIntervalSeconds u) 5 3600 then Some ''checkIntervalSeconds must be 5-3600''
      else if out_of (cup_Workers u) 1 100 then Some ''workers must be 1-100''
      else None)"

definition apply_config_update :: "ConfigUpdate \<Rightarrow> Config \<Rightarrow> Config \<times> details" where
  "apply_config_update u cfg =
     (let (cfg, d) = (case cup_RetentionDays u of None \<Rightarrow> (cfg, [])
             | Some n \<Rightarrow> (cfg\<lparr>cfg_RetentionDays := n\<rparr>, [(''retentionDays'', NumberChange (cfg_RetentionDays cfg) n)]));
          (cfg, d) = (case cup_CheckIntervalSeconds u of None \<Rightarrow> (cfg, d)
             | Some n \<Rightarrow> (cfg\<lparr>cfg_CheckIntervalSeconds := n\<rparr>,
                 d @ [(''checkIntervalSeconds'', NumberChange (cfg_CheckIntervalSeconds cfg) n)]));
          (cfg, d) = (case cup_Workers u of None \<Rightarrow> (cfg, d)
             | Some n \<Rightarrow> (cfg\<lparr>cfg_Workers := n\<rparr>, d @ [(''workers'', NumberChange (cfg_Workers cfg) n)]))
      in case cup_AllowCommandChecks u of None \<Rightarrow> (cfg, d)
         | Some b \<Rightarrow> (cfg\<lparr>cfg_AllowCommandChecks := b\<rparr>, d @ [(''allowCommandChecks'', FlagChange (cfg_AllowCommandChecks cfg) b)]))"

definition handleConfigPut ::
  "FrontEnv \<Rightarrow> Request \<Rightarrow> string + ConfigUpdate \<Rightarrow> FrontService \<Rightarrow> FrontService \<times> int \<times> front_body" where
  "handleConfigPut env r body s =
     (if \<not> front_authorized env r s then (s, front_unauthorized)
      else case body of
        Inl err \<Rightarrow> (s, 400, FrontError (''invalid JSON: '' @ err))
      | Inr u \<Rightarrow>
          (case update_refused u of
             Some err \<Rightarrow> (s, 400, FrontError err)
           | None \<Rightarrow>
               let (cfg, d) = apply_config_update u (fs_cfg s);
                   s = front_audited env r ''config.updated'' ''config'' [] (Some d) (s\<lparr>fs_cfg := cfg\<rparr>)
               in (s, 200, ConfigBody (safeConfigView s))))"

definition handleConfig ::
  "FrontEnv \<Rightarrow> Request \<Rightarrow> string + ConfigUpdate \<Rightarrow> FrontService \<Rightarrow> FrontService \<times> int \<times> front_body" where
  "handleConfig env r body s =
     (if rq_Method r = ''GET'' then (s, handleConfigGet s)
      else if rq_Method r = ''PUT'' then handleConfigPut env r body s
      else (s, 405, PlainBody ''Method not allowed''))"

section \<open>The alert rules\<close>

definition rule_details :: "AlertRule \<Rightarrow> details" where
  "rule_details rule = [(''name'', TextDetail (rule_Name rule)), (''severity'', TextDetail (rule_Severity rule))]"

definition handleAlertRuleCreate ::
  "FrontEnv \<Rightarrow> Request \<Rightarrow> string + AlertRule \<Rightarrow> FrontService \<Rightarrow> FrontService \<times> int \<times> front_body" where
  "handleAlertRuleCreate env r body s =
     (if \<not> front_authorized env r s then (s, front_unauthorized)
      else case body of
        Inl err \<Rightarrow> (s, 400, FrontError (''invalid JSON: '' @ err))
      | Inr rule \<Rightarrow>
          if rule_ID rule = [] \<or> rule_Name rule = [] \<or> rule_Severity rule = []
          then (s, 400, FrontError ''id, name, and severity are required'')
          else (front_audited env r ''alertrule.created'' ''alertRule'' (rule_ID rule) (Some (rule_details rule))
                  (s\<lparr>fs_rules := AddRule (fe_persist env) rule (fs_rules s)\<rparr>), 201, RuleBody rule))"

definition handleAlertRules ::
  "FrontEnv \<Rightarrow> Request \<Rightarrow> string + AlertRule \<Rightarrow> FrontService \<Rightarrow> FrontService \<times> int \<times> front_body" where
  "handleAlertRules env r body s =
     (if rq_Method r = ''GET'' then (s, 200, RulesBody (Rules (fs_rules s)))
      else if rq_Method r = ''POST'' then handleAlertRuleCreate env r body s
      else (s, 405, PlainBody ''Method not allowed''))"

definition handleAlertRuleGet :: "string \<Rightarrow> FrontService \<Rightarrow> int \<times> front_body" where
  "handleAlertRuleGet i s = (case GetRule i (fs_rules s) of Inl err \<Rightarrow> (404, FrontError err) | Inr rule \<Rightarrow> (200, RuleBody rule))"

definition handleAlertRuleUpdate ::
  "FrontEnv \<Rightarrow> Request \<Rightarrow> string + AlertRule \<Rightarrow> string \<Rightarrow> FrontService \<Rightarrow> FrontService \<times> int \<times> front_body" where
  "handleAlertRuleUpdate env r body i s =
     (if \<not> front_authorized env r s then (s, front_unauthorized)
      else case body of
        Inl err \<Rightarrow> (s, 400, FrontError (''invalid JSON: '' @ err))
      | Inr rule \<Rightarrow>
          let rule = rule\<lparr>rule_ID := i\<rparr>
          in case UpdateRule (fe_persist env) rule (fs_rules s) of
               (_, Some err) \<Rightarrow> (s, 404, FrontError err)
             | (e, None) \<Rightarrow>
                 (front_audited env r ''alertrule.updated'' ''alertRule'' i (Some (rule_details rule)) (s\<lparr>fs_rules := e\<rparr>),
                  200, RuleBody rule))"

definition handleAlertRuleDelete ::
  "FrontEnv \<Rightarrow> Request \<Rightarrow> string \<Rightarrow> FrontService \<Rightarrow> FrontService \<times> int \<times> front_body" where
  "handleAlertRuleDelete env r i s =
     (if \<not> front_authorized env r s then (s, front_unauthorized)
      else case DeleteRule (fe_persist env) i (fs_rules s) of
             (_, Some err) \<Rightarrow> (s, 404, FrontError err)
           | (e, None) \<Rightarrow>
               (front_audited env r ''alertrule.deleted'' ''alertRule'' i None (s\<lparr>fs_rules := e\<rparr>), 200, DeletedBody i))"

definition rule_path_id :: "string \<Rightarrow> string" where
  "rule_path_id path =
     (let p = ''/api/v1/alert-rules/''
      in takeWhile (\<lambda>c. c \<noteq> CHR ''/'') (if has_prefix path p then drop (length p) path else path))"

definition handleAlertRuleByID ::
  "FrontEnv \<Rightarrow> Request \<Rightarrow> string + AlertRule \<Rightarrow> FrontService \<Rightarrow> FrontService \<times> int \<times> front_body" where
  "handleAlertRuleByID env r body s =
     (let i = rule_path_id (rq_Path r)
      in if i = [] then (s, 400, FrontError ''rule id is required'')
         else if rq_Method r = ''GET'' then (s, handleAlertRuleGet i s)
         else if rq_Method r = ''PUT'' then handleAlertRuleUpdate env r body i s
         else if rq_Method r = ''DELETE'' then handleAlertRuleDelete env r i s
         else (s, 405, PlainBody ''Method not allowed''))"

section \<open>The list of incidents\<close>

record IncidentFilter =
  ifl_Status :: string
  ifl_Severity :: string
  ifl_CheckID :: string
  ifl_Limit :: int
  ifl_Offset :: int

definition incident_filter :: "string \<Rightarrow> string \<Rightarrow> string \<Rightarrow> int option \<Rightarrow> int option \<Rightarrow> IncidentFilter" where
  "incident_filter status severity checkId limit offset =
     (let f = \<lparr>ifl_Status = status, ifl_Severity = severity, ifl_CheckID = checkId,
            ifl_Limit = QueryInt limit 50, ifl_Offset = QueryInt offset 0\<rparr>;
          f = (if ifl_Limit f < 1 then f\<lparr>ifl_Limit := 50\<rparr> else f)
      in if ifl_Offset f < 0 then f\<lparr>ifl_Offset := 0\<rparr> else f)"

definition filter_admits :: "IncidentFilter \<Rightarrow> Incident \<Rightarrow> bool" where
  "filter_admits f inc \<longleftrightarrow>
     \<not> (ifl_Status f \<noteq> [] \<and> \<not> equal_fold (inc_Status inc) (ifl_Status f)) \<and>
     \<not> (ifl_Severity f \<noteq> [] \<and> \<not> equal_fold (inc_Severity inc) (ifl_Severity f)) \<and>
     \<not> (ifl_CheckID f \<noteq> [] \<and> inc_CheckID inc \<noteq> ifl_CheckID f)"

text \<open>\<open>xs[start:end]\<close> panics when the bounds are not in order.\<close>

definition go_slice :: "'a list \<Rightarrow> int \<Rightarrow> int \<Rightarrow> 'a list option" where
  "go_slice xs start stop =
     (if 0 \<le> start \<and> start \<le> stop \<and> stop \<le> int (length xs) then Some (take (nat (stop - start)) (drop (nat start) xs)) else None)"

definition incident_page :: "IncidentFilter \<Rightarrow> 'a list \<Rightarrow> 'a list option" where
  "incident_page f filtered =
     (let total = int (length filtered);
          start = (if ifl_Offset f > total then total else ifl_Offset f);
          stop = wrap64 (start + ifl_Limit f);
          stop = (if stop > total then total else stop)
      in go_slice filtered start stop)"

datatype page_answer =
    IncidentPage "Incident list" int int int
  | PageError string
  | PagePlain string
  | PagePanic

definition handleIncidentsFiltered ::
  "('r IncidentRepo \<times> 'r) option \<Rightarrow> string \<Rightarrow> string \<Rightarrow> string \<Rightarrow> string \<Rightarrow> int option \<Rightarrow> int option \<Rightarrow> int \<times> page_answer" where
  "handleIncidentsFiltered incidentRepo meth status severity checkId limit offset =
     (if meth \<noteq> ''GET'' then (405, PagePlain ''Method not allowed'')
      else
        let f = incident_filter status severity checkId limit offset
        in case incidentRepo of
             None \<Rightarrow> (200, IncidentPage [] 0 (ifl_Limit f) (ifl_Offset f))
           | Some (repo, r) \<Rightarrow>
               (case repo_list repo r of
                  (_, Some err) \<Rightarrow> (500, PageError (''list incidents: '' @ err))
                | (incidents, None) \<Rightarrow>
                    let filtered = filter (filter_admits f) incidents
                    in case incident_page f filtered of
                         None \<Rightarrow> (500, PagePanic)
                       | Some page \<Rightarrow> (200, IncidentPage page (int (length filtered)) (ifl_Limit f) (ifl_Offset f))))"

section \<open>Events and identity\<close>

record SSEPayload =
  sse_Type :: string
  sse_Timestamp :: gotime
  sse_Summary :: Summary
  sse_ActiveIncidents :: int

definition sse_payload :: "string \<Rightarrow> gotime \<Rightarrow> Summary \<Rightarrow> ('r IncidentRepo \<times> 'r) option \<Rightarrow> SSEPayload" where
  "sse_payload eventType now summary incidentRepo =
     \<lparr>sse_Type = eventType, sse_Timestamp = now, sse_Summary = summary, sse_ActiveIncidents = count_active incidentRepo\<rparr>"

text \<open>One event; \<open>None\<close> if the payload cannot be encoded (a number that is not finite).\<close>

definition sendSSEEvent :: "(SSEPayload \<Rightarrow> string option) \<Rightarrow> SSEPayload \<Rightarrow> string" where
  "sendSSEEvent to_json p =
     (case to_json p of
        None \<Rightarrow> []
      | Some data \<Rightarrow> ''event: '' @ sse_Type p @ [CHR 0x0A] @ ''data: '' @ data @ [CHR 0x0A, CHR 0x0A])"

text \<open>
  The stream: a snapshot at once and one at every tick, until the client goes. \<open>seen\<close> is what the store and
  the repository hold at the start and at the ticks.
\<close>

definition handleSSE ::
  "(SSEPayload \<Rightarrow> string option) \<Rightarrow> bool \<Rightarrow> (gotime \<times> Summary \<times> ('r IncidentRepo \<times> 'r) option) list \<Rightarrow> int \<times> string" where
  "handleSSE to_json can_flush seen =
     (if \<not> can_flush then (500, ''streaming not supported'')
      else (200, concat (map (\<lambda>(now, summary, repo). sendSSEEvent to_json (sse_payload ''snapshot'' now summary repo)) seen)))"

text \<open>\<open>HandleMe\<close> writes its own status.\<close>

datatype me_answer = LegacyInfo string bool | MeOf user_answer | MePlain int string

definition handleAuthMe ::
  "Config \<Rightarrow> string \<Rightarrow> Request \<Rightarrow> (JWTClaims option \<times> UserStore) option \<Rightarrow> me_answer" where
  "handleAuthMe cfg xuser r users =
     (if rq_Method r \<noteq> ''GET'' then MePlain 405 ''Method not allowed''
      else case users of
             Some (auth, us) \<Rightarrow> MeOf (HandleMe auth (rq_Method r) us)
           | None \<Rightarrow> LegacyInfo (ExtractActorFromRequest cfg xuser r) (auth_Enabled (cfg_Auth cfg)))"

section \<open>Changes need authorization\<close>

text \<open>The requests that can change something, with their decoded bodies.\<close>

datatype front_request =
    ConfigRequest Request "string + ConfigUpdate"
  | RulesRequest Request "string + AlertRule"
  | RuleRequest Request "string + AlertRule"

fun serve :: "FrontEnv \<Rightarrow> front_request \<Rightarrow> FrontService \<Rightarrow> FrontService \<times> int \<times> front_body" where
  "serve env (ConfigRequest r body) s = handleConfig env r body s"
| "serve env (RulesRequest r body) s = handleAlertRules env r body s"
| "serve env (RuleRequest r body) s = handleAlertRuleByID env r body s"

fun the_request :: "front_request \<Rightarrow> Request" where
  "the_request (ConfigRequest r _) = r"
| "the_request (RulesRequest r _) = r"
| "the_request (RuleRequest r _) = r"

lemmas serve_defs = handleConfig_def handleConfigPut_def handleAlertRules_def handleAlertRuleCreate_def
  handleAlertRuleByID_def handleAlertRuleUpdate_def handleAlertRuleDelete_def

text \<open>
  C29: No request changes the configuration, the alert rules, their file or the audit log unless it is
  authorized, and a request that is answered with an error changes nothing.
\<close>

theorem errors_and_strangers_change_nothing:
  assumes "serve env q s = (s', status, answer)"
    and "\<not> front_authorized env (the_request q) s \<or> 400 \<le> status"
  shows "s' = s"
  using assms
  by (cases q) (auto simp: serve_defs front_unauthorized_def Let_def
      split: if_splits sum.splits option.splits prod.splits)

definition stranger :: Request where
  "stranger = \<lparr>rq_Method = ''DELETE'', rq_Path = ''/api/v1/alert-rules/check-down-critical'', rq_Authorization = [], rq_Token = []\<rparr>"

definition sample_config :: Config where
  "sample_config = \<lparr>
     cfg_Server = \<lparr>sc_Addr = '':8080'', sc_ReadTimeoutSeconds = 10, sc_WriteTimeoutSeconds = 10, sc_IdleTimeoutSeconds = 60\<rparr>,
     cfg_Auth = \<lparr>auth_Enabled = True, auth_Username = ''ops'', auth_Password = ''secret''\<rparr>, cfg_RetentionDays = 7,
     cfg_CheckIntervalSeconds = 60, cfg_Workers = 4, cfg_AllowCommandChecks = False, cfg_Servers = [], cfg_Checks = []\<rparr>"

definition sample_front :: FrontService where
  "sample_front = \<lparr>fs_cfg = sample_config, fs_isDemoMode = False, fs_rules = start_engine Persisted NoRules,
     fs_audit = Some \<lparr>fa_events = [], fa_file = None\<rparr>\<rparr>"

definition sample_env :: FrontEnv where
  "sample_env = \<lparr>fe_crypto = plain_crypto, fe_secret = ''k'', fe_unix = 0, fe_now = 0, fe_xuser = [], fe_random = Some [1],
     fe_audit_err = None, fe_persist = Persisted\<rparr>"

lemma errors_and_strangers_change_nothing_witness:
  "fst (serve sample_env (RuleRequest stranger (Inl ''EOF'')) sample_front) = sample_front"
proof -
  have "ExtractJWTClaims K secret now stranger = None" for K secret now
    by (simp add: stranger_def ExtractJWTClaims_def)
  then have "\<not> front_authorized sample_env (the_request (RuleRequest stranger (Inl ''EOF''))) sample_front"
    by (simp add: front_authorized_def IsRequestAuthorized_def sample_front_def sample_config_def stranger_def)
  then show ?thesis
    using errors_and_strangers_change_nothing [of sample_env "RuleRequest stranger (Inl ''EOF'')" sample_front]
    by (metis prod.collapse)
qed

section \<open>A change of the configuration is exact\<close>

definition changed :: "'a option \<Rightarrow> 'a \<Rightarrow> 'a" where
  "changed v old = (case v of None \<Rightarrow> old | Some x \<Rightarrow> x)"

definition in_limits :: "int option \<Rightarrow> int \<Rightarrow> int \<Rightarrow> bool" where
  "in_limits v lo hi \<longleftrightarrow> (case v of None \<Rightarrow> True | Some n \<Rightarrow> lo \<le> n \<and> n \<le> hi)"

lemma update_refused_iff:
  "update_refused u = None \<longleftrightarrow> in_limits (cup_RetentionDays u) 1 365 \<and> in_limits (cup_CheckIntervalSeconds u) 5 3600 \<and>
     in_limits (cup_Workers u) 1 100"
  by (auto simp: update_refused_def out_of_def in_limits_def split: option.splits)

lemma apply_config_update_cfg:
  "fst (apply_config_update u cfg) = cfg\<lparr>
     cfg_RetentionDays := changed (cup_RetentionDays u) (cfg_RetentionDays cfg),
     cfg_CheckIntervalSeconds := changed (cup_CheckIntervalSeconds u) (cfg_CheckIntervalSeconds cfg),
     cfg_Workers := changed (cup_Workers u) (cfg_Workers cfg),
     cfg_AllowCommandChecks := changed (cup_AllowCommandChecks u) (cfg_AllowCommandChecks cfg)\<rparr>"
  by (simp add: apply_config_update_def changed_def split: option.splits)

text \<open>
  An update of the configuration is all or nothing: it is carried out exactly if the request is authorized,
  its body can be decoded and every number in it is within its limits; then the given settings have the given
  values, everything else is as before, and one event of the audit log records who did it.
\<close>

theorem config_update_is_exact:
  assumes "rq_Method r = ''PUT''" and "serve env (ConfigRequest r body) s = (s', status, answer)"
  shows "(status = 200 \<longleftrightarrow> front_authorized env r s \<and> (\<exists>u. body = Inr u \<and> in_limits (cup_RetentionDays u) 1 365 \<and>
      in_limits (cup_CheckIntervalSeconds u) 5 3600 \<and> in_limits (cup_Workers u) 1 100)) \<and>
    (status = 200 \<longrightarrow> (\<forall>u. body = Inr u \<longrightarrow> fs_cfg s' = (fs_cfg s)\<lparr>
        cfg_RetentionDays := changed (cup_RetentionDays u) (cfg_RetentionDays (fs_cfg s)),
        cfg_CheckIntervalSeconds := changed (cup_CheckIntervalSeconds u) (cfg_CheckIntervalSeconds (fs_cfg s)),
        cfg_Workers := changed (cup_Workers u) (cfg_Workers (fs_cfg s)),
        cfg_AllowCommandChecks := changed (cup_AllowCommandChecks u) (cfg_AllowCommandChecks (fs_cfg s))\<rparr>) \<and>
      fs_rules s' = fs_rules s \<and>
      (\<forall>log. fs_audit s = Some log \<longrightarrow> (\<exists>e log'. fs_audit s' = Some log' \<and> fa_events log' = fa_events log @ [e] \<and>
         ev_Action e = ''config.updated'' \<and> ev_Actor e = ExtractActorFromRequest (fs_cfg s) (fe_xuser env) r))) \<and>
    (status \<noteq> 200 \<longrightarrow> s' = s)"
proof (cases "front_authorized env r s")
  case False
  then show ?thesis using assms by (auto simp: serve_defs front_unauthorized_def)
next
  case True
  show ?thesis
  proof (cases body)
    case (Inl err)
    then show ?thesis using assms True by (auto simp: serve_defs)
  next
    case (Inr u)
    show ?thesis
    proof (cases "update_refused u")
      case None
      obtain cfg d where a: "apply_config_update u (fs_cfg s) = (cfg, d)" by fastforce
      have cfg: "cfg = fst (apply_config_update u (fs_cfg s))" by (simp add: a)
      have same: "ExtractActorFromRequest cfg x r = ExtractActorFromRequest (fs_cfg s) x r" for x
        by (simp add: cfg apply_config_update_cfg ExtractActorFromRequest_def)
      have "s' = front_audited env r ''config.updated'' ''config'' [] (Some d) (s\<lparr>fs_cfg := cfg\<rparr>)" "status = 200"
        using assms True Inr None by (auto simp: serve_defs a Let_def)
      moreover have "in_limits (cup_RetentionDays u) 1 365" "in_limits (cup_CheckIntervalSeconds u) 5 3600" "in_limits (cup_Workers u) 1 100"
        using None update_refused_iff by blast+
      moreover have "\<exists>e log'. fs_audit s' = Some log' \<and> fa_events log' = fa_events log @ [e] \<and>
          ev_Action e = ''config.updated'' \<and> ev_Actor e = ExtractActorFromRequest (fs_cfg s) (fe_xuser env) r"
        if "fs_audit s = Some log" for log
        using that calculation(1)
        by (auto simp: front_audited_def audit_Log_def fa_InsertEvent_def flushLocked_def same split: option.splits)
      moreover have "fs_cfg s' = cfg" "fs_rules s' = fs_rules s"
        using calculation(1) by (simp_all add: front_audited_def)
      ultimately show ?thesis using True Inr by (simp add: cfg apply_config_update_cfg)
    next
      case (Some err)
      then have "\<not> (in_limits (cup_RetentionDays u) 1 365 \<and> in_limits (cup_CheckIntervalSeconds u) 5 3600 \<and> in_limits (cup_Workers u) 1 100)"
        using update_refused_iff [of u] by simp
      then show ?thesis using assms True Inr Some by (auto simp: serve_defs)
    qed
  qed
qed

definition admin :: Request where
  "admin = \<lparr>rq_Method = ''PUT'', rq_Path = ''/api/v1/config'', rq_Authorization = [], rq_Token = []\<rparr>"

definition open_front :: FrontService where
  "open_front = sample_front\<lparr>fs_cfg := sample_config\<lparr>cfg_Auth := \<lparr>auth_Enabled = False, auth_Username = [], auth_Password = []\<rparr>\<rparr>\<rparr>"

definition more_workers :: ConfigUpdate where
  "more_workers = \<lparr>cup_RetentionDays = None, cup_CheckIntervalSeconds = None, cup_Workers = Some 8, cup_AllowCommandChecks = None\<rparr>"

lemma config_update_is_exact_witness:
  "fst (snd (serve sample_env (ConfigRequest admin (Inr more_workers)) open_front)) = 200"
proof -
  have "front_authorized sample_env admin open_front"
    by (simp add: front_authorized_def IsRequestAuthorized_def open_front_def sample_config_def)
  moreover have "in_limits (cup_RetentionDays more_workers) 1 365 \<and> in_limits (cup_CheckIntervalSeconds more_workers) 5 3600 \<and>
      in_limits (cup_Workers more_workers) 1 100" by (simp add: in_limits_def more_workers_def)
  moreover have "rq_Method admin = ''PUT''" by (simp add: admin_def)
  ultimately show ?thesis
    using config_update_is_exact [of admin sample_env "Inr more_workers" open_front] by (metis prod.collapse)
qed

section \<open>The rules survive a restart\<close>

lemma json_value_idem [simp]: "json_value (json_value v) = json_value v"
  by (cases v) (simp_all add: json_value_def)

lemma json_rule_idem [simp]: "json_rule (json_rule r) = json_rule r"
  by (simp add: json_rule_def comp_def case_prod_beta)

text \<open>Rules that came out of the file, or that a request brought, are as JSON has them; so are the defaults.\<close>

lemma json_DefaultAlertRules: "map json_rule DefaultAlertRules = DefaultAlertRules"
  by (simp add: DefaultAlertRules_def default_rule_def json_rule_def json_value_def)

datatype rule_call = Add AlertRule | Replace AlertRule | Remove string

fun rule_step :: "persist_end \<Rightarrow> rule_call \<Rightarrow> RuleEngine \<Rightarrow> RuleEngine" where
  "rule_step p (Add r) e = AddRule p r e"
| "rule_step p (Replace r) e = fst (UpdateRule p r e)"
| "rule_step p (Remove i) e = fst (DeleteRule p i e)"

definition rule_run :: "(persist_end \<times> rule_call) list \<Rightarrow> RuleEngine \<Rightarrow> RuleEngine" where
  "rule_run calls e = foldl (\<lambda>e (p, c). rule_step p c e) e calls"

text \<open>What the calls do to the list of rules, whatever becomes of the file.\<close>

fun rules_after :: "rule_call \<Rightarrow> AlertRule list \<Rightarrow> AlertRule list" where
  "rules_after (Add r) rs = rs @ [r]"
| "rules_after (Replace r) rs = (case change_rule (rule_ID r) [r] rs of Some rs' \<Rightarrow> rs' | None \<Rightarrow> rs)"
| "rules_after (Remove i) rs = (case change_rule i [] rs of Some rs' \<Rightarrow> rs' | None \<Rightarrow> rs)"

lemma Rules_persist [simp]: "Rules (persist p e) = Rules e" "re_path (persist p e) = re_path e"
  by (simp_all add: persist_def Rules_def split: persist_end.splits)

lemma Rules_set [simp]: "Rules (set_rules rs e) = rs" "re_path (set_rules rs e) = re_path e" "re_file (set_rules rs e) = re_file e"
  by (simp_all add: set_rules_def Rules_def)

lemma rule_step_rules:
  "Rules (rule_step p c e) = rules_after c (Rules e)" "re_path (rule_step p c e) = re_path e"
  by (cases c; simp add: AddRule_def UpdateRule_def DeleteRule_def split: option.splits)+

definition in_file :: "RuleEngine \<Rightarrow> bool" where
  "in_file e \<longleftrightarrow> re_path e \<noteq> [] \<and> LoadRulesFromConfig (re_file e) = map json_rule (Rules e)"

lemma persist_in_file: "re_path e \<noteq> [] \<Longrightarrow> in_file (persist Persisted e)"
  by (simp add: in_file_def LoadRulesFromConfig_def) (simp add: persist_def Rules_def)

lemma rule_step_in_file: "in_file e \<Longrightarrow> in_file (rule_step Persisted c e)"
proof -
  assume e: "in_file e"
  then have path: "re_path e \<noteq> []" by (simp add: in_file_def)
  show ?thesis using e path
    by (cases c) (auto simp: AddRule_def UpdateRule_def DeleteRule_def persist_in_file split: option.splits)
qed

definition json_file :: "rules_file \<Rightarrow> bool" where
  "json_file f \<longleftrightarrow> (case f of RulesFile rs \<Rightarrow> map json_rule rs = rs | _ \<Rightarrow> True)"

lemma start_in_file:
  assumes "json_file f"
  shows "in_file (start_engine Persisted f)"
proof -
  have load: "map json_rule (LoadRulesFromConfig f) = LoadRulesFromConfig f"
    using assms json_DefaultAlertRules by (cases f) (simp_all add: LoadRulesFromConfig_def json_file_def)
  let ?e = "SetFilePath ''data/alert_rules.json'' \<lparr>re_engine = NewAlertRuleEngine (LoadRulesFromConfig f), re_path = [], re_file = f\<rparr>"
  have e: "re_path ?e \<noteq> []" "Rules ?e = LoadRulesFromConfig f" "re_file ?e = f"
    by (simp_all add: SetFilePath_def Rules_def NewAlertRuleEngine_def)
  then have "in_file ?e" by (simp add: in_file_def load)
  moreover have "in_file (persist Persisted ?e)" using e by (simp add: persist_in_file)
  ultimately show ?thesis
    unfolding start_engine_def PersistIfNeeded_def Let_def by (auto split: if_splits)
qed

text \<open>
  After any changes of the alert rules that reached the disk, a restart finds exactly the rules that were in
  force, with numbers as JSON reads them; that includes the start from a file that was missing or damaged,
  and the removal of every rule.
\<close>

theorem rules_survive_restart:
  assumes "json_file f" and "\<forall>(p, c) \<in> set calls. p = Persisted"
    and "e = rule_run calls (start_engine Persisted f)"
  shows "Rules (start_engine p' (re_file e)) = map json_rule (Rules e) \<and>
    Rules e = foldl (\<lambda>rs c. rules_after c rs) (LoadRulesFromConfig f) (map snd calls)"
proof -
  have start: "Rules (start_engine p f) = LoadRulesFromConfig f" for p f
    by (auto simp: start_engine_def PersistIfNeeded_def SetFilePath_def Let_def) (simp_all add: Rules_def NewAlertRuleEngine_def)
  have "in_file (rule_run calls e0) \<and> Rules (rule_run calls e0) = foldl (\<lambda>rs c. rules_after c rs) (Rules e0) (map snd calls)"
    if "in_file e0" for e0
    using that assms(2)
  proof (induction calls arbitrary: e0)
    case (Cons pc calls)
    obtain c where pc: "pc = (Persisted, c)" using Cons.prems(2) by (cases pc) auto
    have "in_file (rule_step Persisted c e0)" using Cons.prems(1) by (rule rule_step_in_file)
    with Cons.IH [OF this] Cons.prems(2) show ?case by (simp add: rule_run_def pc rule_step_rules)
  qed (simp add: rule_run_def)
  from this [OF start_in_file [OF assms(1)]] show ?thesis by (simp add: assms(3) start in_file_def)
qed

definition few_calls :: "(persist_end \<times> rule_call) list" where
  "few_calls = [(Persisted, Remove ''timeout-warning''), (Persisted, Remove ''no-such-rule'')]"

lemma rules_survive_restart_witness:
  "map rule_ID (Rules (start_engine Persisted (re_file (rule_run few_calls (start_engine Persisted NotRules))))) =
     [''check-down-critical'', ''high-latency-warning'', ''critical-latency'', ''api-error-status'']"
proof -
  have "json_file NotRules" "\<forall>(p, c) \<in> set few_calls. p = Persisted" by (simp_all add: json_file_def few_calls_def)
  from rules_survive_restart [of NotRules few_calls, OF this HOL.refl]
  show ?thesis
    by (simp add: few_calls_def LoadRulesFromConfig_def DefaultAlertRules_def default_rule_def json_rule_def)
qed

text \<open>
  Two rules can be created with the same ID; an update and a deletion then reach the first of them only.
\<close>

lemma second_rule_stays:
  assumes "rule_ID r = rule_ID r'"
  shows "Rules (fst (DeleteRule p (rule_ID r) (AddRule p' r' (set_rules [r] e)))) = [r']"
  by (simp add: DeleteRule_def AddRule_def)

section \<open>The pages of the incident list\<close>

lemma incident_page_eq:
  assumes "0 \<le> ifl_Offset f" and "1 \<le> ifl_Limit f" and "int (length xs) + ifl_Limit f < 2 ^ 63"
  shows "incident_page f xs = Some (take (nat (ifl_Limit f)) (drop (nat (ifl_Offset f)) xs))"
proof -
  let ?n = "int (length xs)" let ?s = "min (ifl_Offset f) ?n"
  have s: "(if ifl_Offset f > ?n then ?n else ifl_Offset f) = ?s" by simp
  have "wrap64 (?s + ifl_Limit f) = ?s + ifl_Limit f" using assms by (intro wrap64_id) auto
  then have p: "incident_page f xs = go_slice xs ?s (min (?s + ifl_Limit f) ?n)"
    unfolding incident_page_def Let_def s by (simp add: min_def)
  also have "\<dots> = Some (take (nat (min (?s + ifl_Limit f) ?n - ?s)) (drop (nat ?s) xs))"
    using assms by (simp add: go_slice_def)
  also have "\<dots> = Some (take (nat (ifl_Limit f)) (drop (nat (ifl_Offset f)) xs))"
  proof (cases "ifl_Offset f < ?n")
    case True
    then have "nat ?s = nat (ifl_Offset f)" "nat (min (?s + ifl_Limit f) ?n - ?s) = min (nat (ifl_Limit f)) (length xs - nat (ifl_Offset f))"
      using assms by auto
    then show ?thesis by (simp add: take_all_iff min_def)
  qed (use assms in \<open>simp add: min_def\<close>)
  finally show ?thesis .
qed

lemma pages_concat: "concat (map (\<lambda>k. take n (drop (k * n) xs)) [0 ..< m]) = take (m * n) xs"
  by (induction m) (simp_all add: take_add [symmetric] add.commute)

text \<open>
  Paging through the incidents misses none and shows none twice: the pages at the offsets \<open>0, n, 2n, ...\<close>
  put together are the list of matching incidents, and no page has more than \<open>n\<close> of them.
\<close>

theorem pages_cover_the_incidents:
  assumes "1 \<le> n" and "int (length xs) + n < 2 ^ 63" and "int (length xs) \<le> int m * n"
  shows "concat (map (\<lambda>k. the (incident_page (f\<lparr>ifl_Limit := n, ifl_Offset := int k * n\<rparr>) xs)) [0 ..< m]) = xs \<and>
    (\<forall>k. length (the (incident_page (f\<lparr>ifl_Limit := n, ifl_Offset := int k * n\<rparr>) xs)) \<le> nat n)"
proof -
  have page: "incident_page (f\<lparr>ifl_Limit := n, ifl_Offset := int k * n\<rparr>) xs = Some (take (nat n) (drop (k * nat n) xs))" for k
    using incident_page_eq [of "f\<lparr>ifl_Limit := n, ifl_Offset := int k * n\<rparr>" xs] assms(1,2) by (simp add: nat_mult_distrib)
  have "int (length xs) \<le> int (m * nat n)" using assms(1,3) by simp
  then have "length xs \<le> m * nat n" by (simp only: of_nat_le_iff)
  then show ?thesis by (simp add: page pages_concat)
qed

definition any_incident :: IncidentFilter where
  "any_incident = incident_filter [] [] [] (Some 2) None"

lemma pages_cover_the_incidents_witness:
  "concat (map (\<lambda>k. the (incident_page (any_incident\<lparr>ifl_Limit := 2, ifl_Offset := int k * 2\<rparr>) ''incidents'')) [0 ..< 5]) = ''incidents''"
  using pages_cover_the_incidents [of 2 "''incidents''" 5 any_incident] by simp

text \<open>
  A limit near the end of the integers overflows the end of the page: the bounds of the slice are then out of
  order and the handler panics.
\<close>

lemma huge_limit_panics:
  "handleIncidentsFiltered (Some (repo, r)) ''GET'' [] [] [] (Some 9223372036854775807) (Some 1) = (500, PagePanic)"
  if "repo_list repo r = (inc # incs, None)"
proof -
  let ?f = "incident_filter [] [] [] (Some 9223372036854775807) (Some 1)"
  have f: "ifl_Limit ?f = 9223372036854775807" "ifl_Offset ?f = 1" by (simp_all add: incident_filter_def QueryInt_def)
  have all: "filter (filter_admits ?f) (inc # incs) = inc # incs"
    by (rule filter_True) (simp add: filter_admits_def incident_filter_def QueryInt_def Let_def)
  have "wrap64 9223372036854775808 = - 9223372036854775808" by (simp add: wrap64_def)
  then have "incident_page ?f (inc # incs) = None"
    by (simp add: incident_page_def f go_slice_def)
  then show ?thesis using that by (simp add: handleIncidentsFiltered_def Let_def all del: filter.simps)
qed

end
