(* ===== verification/Keyed.thy ===== *)
theory Keyed
  imports Documents
begin

text \<open>
  A collection whose documents have a key (\<open>_id\<close>) as a finite map: \<open>holds key m M\<close> says that the documents
  \<open>M\<close> are the entries of \<open>m\<close>. The lemmas say what the promises of the driver mean for the map; the
  repositories are proved over them.
\<close>

definition holds :: "('d \<Rightarrow> 'k) \<Rightarrow> ('k \<rightharpoonup> 'd) \<Rightarrow> 'd multiset \<Rightarrow> bool" where
  "holds key m M \<longleftrightarrow> (\<forall>x. count M x = (if m (key x) = Some x then 1 else 0)) \<and> (\<forall>i x. m i = Some x \<longrightarrow> key x = i)"

definition same_key :: "('d \<Rightarrow> 'k) \<Rightarrow> 'd \<Rightarrow> 'd \<Rightarrow> bool" where
  "same_key key a b \<longleftrightarrow> key a = key b"

definition with_key :: "('d \<Rightarrow> 'k) \<Rightarrow> 'k \<Rightarrow> 'd \<Rightarrow> bool" where
  "with_key key i x \<longleftrightarrow> key x = i"

lemma holds_in: "holds key m M \<Longrightarrow> x \<in># M \<longleftrightarrow> m (key x) = Some x"
  unfolding holds_def by (metis count_eq_zero_iff zero_neq_one)

lemma holds_key: "holds key m M \<Longrightarrow> m i = Some x \<Longrightarrow> key x = i"
  by (simp add: holds_def)

lemma holds_Some: "holds key m M \<Longrightarrow> m i = Some x \<longleftrightarrow> x \<in># M \<and> key x = i"
  using holds_in [of key m M] holds_key [of key m M] by metis

lemma holds_None: "holds key m M \<Longrightarrow> m i = None \<longleftrightarrow> (\<forall>x. x \<in># M \<longrightarrow> key x \<noteq> i)"
  using holds_Some [of key m M] by (metis not_None_eq)

lemma holds_empty [simp]: "holds key Map.empty {#}"
  by (simp add: holds_def)

lemma holds_add:
  assumes "holds key m M" and "m (key d) = None"
  shows "holds key (m(key d \<mapsto> d)) (add_mset d M)"
proof -
  have c: "count M x = (if m (key x) = Some x then 1 else 0)" for x using assms(1) by (simp add: holds_def)
  show ?thesis
    unfolding holds_def
  proof (intro conjI allI impI)
    fix x
    show "count (add_mset d M) x = (if (m(key d \<mapsto> d)) (key x) = Some x then 1 else 0)"
      using assms(2) by (cases "x = d") (simp_all add: c)
  next
    fix i x
    assume "(m(key d \<mapsto> d)) i = Some x"
    then show "key x = i" using holds_key [OF assms(1), of i x] by (cases "i = key d") simp_all
  qed
qed

lemma holds_remove:
  assumes "holds key m M" and "m i = Some x"
  shows "holds key (m(i := None)) (M - {#x#})"
proof -
  have c: "count M y = (if m (key y) = Some y then 1 else 0)" for y using assms(1) by (simp add: holds_def)
  have x: "key x = i" using assms by (rule holds_key)
  show ?thesis
    unfolding holds_def using assms(2) x by (auto simp: c dest: holds_key [OF assms(1)])
qed

lemma holds_change:
  assumes "holds key m M" and "m i = Some x" and "key y = i"
  shows "holds key (m(i \<mapsto> y)) (add_mset y (M - {#x#}))"
  using holds_add [OF holds_remove [OF assms(1,2)], of y] assms(3) by simp

definition map_keep :: "('d \<Rightarrow> bool) \<Rightarrow> ('k \<rightharpoonup> 'd) \<Rightarrow> ('k \<rightharpoonup> 'd)" where
  "map_keep P m i = (case m i of None \<Rightarrow> None | Some x \<Rightarrow> if P x then Some x else None)"

lemma map_keep_Some: "map_keep P m i = Some x \<longleftrightarrow> m i = Some x \<and> P x"
  by (auto simp: map_keep_def split: option.splits)

lemma holds_filter:
  assumes "holds key m M"
  shows "holds key (map_keep P m) (filter_mset P M)"
proof -
  have c: "count M y = (if m (key y) = Some y then 1 else 0)" for y using assms by (simp add: holds_def)
  show ?thesis
    unfolding holds_def by (auto simp: c map_keep_Some dest: holds_key [OF assms])
qed

section \<open>The calls\<close>

lemma keyed_insert:
  assumes "coll_ok (same_key key) docs C" and "cl_insert C d w = (w', a)" and "holds key m (docs w)"
  shows "case a of DocInserted \<Rightarrow> m (key d) = None \<and> holds key (m(key d \<mapsto> d)) (docs w')
    | DocDuplicate \<Rightarrow> m (key d) \<noteq> None \<and> holds key m (docs w')
    | DocFailed _ \<Rightarrow> holds key m (docs w') \<or> m (key d) = None \<and> holds key (m(key d \<mapsto> d)) (docs w')"
proof -
  have fresh: "(\<forall>x. x \<in># docs w \<longrightarrow> \<not> same_key key x d) \<longleftrightarrow> m (key d) = None"
    using holds_None [OF assms(3), of "key d"] by (simp add: same_key_def)
  have taken: "(\<exists>x. x \<in># docs w \<and> same_key key x d) \<longleftrightarrow> m (key d) \<noteq> None" unfolding fresh [symmetric] by blast
  show ?thesis
    using coll_insert [OF assms(1,2)] unfolding fresh taken
    by (cases a) (use assms(3) holds_add [OF assms(3), of d] in auto)
qed

text \<open>Changing the document with a key, perhaps putting in a new one if there is none.\<close>

definition map_update :: "('k \<rightharpoonup> 'd) \<Rightarrow> 'k \<Rightarrow> ('d \<Rightarrow> 'd) \<Rightarrow> 'd option \<Rightarrow> ('k \<rightharpoonup> 'd)" where
  "map_update m i f ups =
     (case m i of Some x \<Rightarrow> m(i \<mapsto> f x) | None \<Rightarrow> (case ups of Some d \<Rightarrow> m(i \<mapsto> d) | None \<Rightarrow> m))"

lemma keyed_updated:
  assumes "holds key m M" and "updated (with_key key i) f ups M M'"
    and "\<And>x. m i = Some x \<Longrightarrow> key (f x) = i" and "\<And>d. ups = Some d \<Longrightarrow> key d = i"
  shows "holds key (map_update m i f ups) M'"
proof (cases "m i")
  case None
  then have "\<not> (\<exists>x. x \<in># M \<and> with_key key i x)" using holds_None [OF assms(1)] by (simp add: with_key_def)
  then have "M' = (case ups of None \<Rightarrow> M | Some d \<Rightarrow> add_mset d M)" using assms(2) by (simp add: updated_def)
  then show ?thesis using None assms(1,4) holds_add [OF assms(1)]
    by (auto simp: map_update_def split: option.splits)
next
  case (Some x)
  then have x: "x \<in># M" "key x = i" using holds_Some [OF assms(1)] by blast+
  then have "\<exists>x. x \<in># M \<and> with_key key i x" by (auto simp: with_key_def)
  then obtain y where "y \<in># M" "key y = i" "M' = add_mset (f y) (M - {#y#})"
    using assms(2) by (auto simp: updated_def with_key_def)
  moreover have "y = x" using calculation(1,2) Some holds_Some [OF assms(1), of i y] by simp
  ultimately show ?thesis
    using holds_change [OF assms(1) Some, of "f x"] assms(3) [OF Some] Some by (simp add: map_update_def)
qed

lemma keyed_matches: "holds key m M \<Longrightarrow> matches (with_key key i) M = (if m i = None then 0 else 1)"
  using holds_None [of key m M i] by (auto simp: matches_def with_key_def)

lemma keyed_update:
  assumes "coll_ok conflict docs C" and "cl_update C (with_key key i) f ups w = (w', a)" and "holds key m (docs w)"
    and "\<And>x. m i = Some x \<Longrightarrow> key (f x) = i" and "\<And>d. ups = Some d \<Longrightarrow> key d = i"
  shows "case a of Inr n \<Rightarrow> holds key (map_update m i f ups) (docs w') \<and> n = (if m i = None then 0 else 1)
    | Inl _ \<Rightarrow> holds key m (docs w') \<or> holds key (map_update m i f ups) (docs w')"
  using coll_update [OF assms(1,2)] keyed_updated [OF assms(3) _ assms(4,5)] keyed_matches [OF assms(3)] assms(3)
  by (auto split: sum.splits)

lemma keyed_removed:
  assumes "holds key m M" and "removed_one (with_key key i) M M'"
  shows "holds key (m(i := None)) M'"
proof (cases "m i")
  case None
  then have "\<not> (\<exists>x. x \<in># M \<and> with_key key i x)" using holds_None [OF assms(1)] by (simp add: with_key_def)
  moreover have "m(i := None) = m" using None by auto
  ultimately show ?thesis using assms by (simp add: removed_one_def)
next
  case (Some x)
  then have "\<exists>x. x \<in># M \<and> with_key key i x" using holds_Some [OF assms(1)] by (auto simp: with_key_def)
  then obtain y where "y \<in># M" "key y = i" "M' = M - {#y#}"
    using assms(2) by (auto simp: removed_one_def with_key_def)
  moreover have "y = x" using calculation(1,2) Some holds_Some [OF assms(1), of i y] by simp
  ultimately show ?thesis using holds_remove [OF assms(1) Some] by simp
qed

lemma keyed_delete:
  assumes "coll_ok conflict docs C" and "cl_delete_one C (with_key key i) w = (w', a)" and "holds key m (docs w)"
  shows "case a of Inr n \<Rightarrow> holds key (m(i := None)) (docs w') \<and> n = (if m i = None then 0 else 1)
    | Inl _ \<Rightarrow> holds key m (docs w') \<or> holds key (m(i := None)) (docs w')"
  using coll_delete_one [OF assms(1,2)] keyed_removed [OF assms(3)] keyed_matches [OF assms(3)] assms(3)
  by (auto split: sum.splits)

lemma holds_sub:
  assumes "holds key m M" and "M' \<subseteq># M"
  shows "holds key (map_keep (\<lambda>x. x \<in># M') m) M'"
proof -
  have c: "count M' x = (if x \<in># M' then 1 else 0)" for x
  proof -
    have "count M' x \<le> count M x" using assms(2) by (simp add: subseteq_mset_def)
    also have "\<dots> \<le> 1" using assms(1) by (simp add: holds_def)
    finally have "count M' x = 0 \<or> count M' x = 1" by linarith
    then show ?thesis
    proof
      assume "count M' x = 0"
      then show ?thesis by (simp add: not_in_iff)
    next
      assume one: "count M' x = 1"
      then have "x \<in># M'" by (intro count_inI) simp
      with one show ?thesis by simp
    qed
  qed
  have "x \<in># M' \<Longrightarrow> m (key x) = Some x" for x
    using holds_in [OF assms(1)] assms(2) by (meson mset_subset_eqD)
  then show ?thesis
    unfolding holds_def by (auto simp: c map_keep_Some dest: holds_key [OF assms(1)])
qed

lemma keyed_delete_many:
  assumes "coll_ok conflict docs C" and "cl_delete_many C P w = (w', a)" and "holds key m (docs w)"
  shows "case a of Inr _ \<Rightarrow> holds key (map_keep (\<lambda>x. \<not> P x) m) (docs w')
    | Inl _ \<Rightarrow> \<exists>K. (\<forall>x. \<not> P x \<longrightarrow> K x) \<and> holds key (map_keep K m) (docs w')"
proof (cases a)
  case (Inr n)
  show ?thesis
    using coll_delete_many [OF assms(1,2)] holds_filter [OF assms(3), of "\<lambda>x. \<not> P x"] Inr by simp
next
  case (Inl err)
  then have s: "docs w' \<subseteq># docs w" "filter_mset (\<lambda>x. \<not> P x) (docs w) \<subseteq># docs w'"
    using coll_delete_many [OF assms(1,2)] by simp_all
  let ?K = "\<lambda>x. x \<in># docs w' \<or> x \<notin># docs w"
  have "\<not> P x \<Longrightarrow> ?K x" for x
    using mset_subset_eqD [OF s(2), of x] by auto
  moreover have "map_keep ?K m = map_keep (\<lambda>x. x \<in># docs w') m"
  proof (rule ext)
    fix i
    have "x \<in># docs w" if "m i = Some x" for x using that holds_Some [OF assms(3)] by blast
    then show "map_keep ?K m i = map_keep (\<lambda>x. x \<in># docs w') m i" by (auto simp: map_keep_def split: option.splits)
  qed
  ultimately show ?thesis using holds_sub [OF assms(3) s(1)] Inl
    by (auto intro!: exI [of _ ?K])
qed

lemma keyed_find_one:
  assumes "coll_ok conflict docs C" and "cl_find_one C (with_key key i) le w = Inr d" and "preorder le" and "holds key m (docs w)"
  shows "d = m i"
proof (cases d)
  case None
  then have "m i = None" using coll_find_one [OF assms(1,3,2)] holds_None [OF assms(4), of i] by (simp add: with_key_def)
  with None show ?thesis by simp
next
  case (Some x)
  then have "m i = Some x"
    using coll_find_one [OF assms(1,3,2)] holds_Some [OF assms(4), of i x] by (simp add: first_of_def with_key_def)
  with Some show ?thesis by simp
qed

text \<open>What a query returns, in terms of the map: the entries that match, in the order asked for.\<close>

lemma keyed_find:
  assumes "coll_ok conflict docs C" and "cl_find C P le 0 None w = Inr ds" and "preorder le" and "holds key m (docs w)"
  shows "distinct (map key ds) \<and> sorted_wrt le ds \<and> (\<forall>x. x \<in> set ds \<longleftrightarrow> m (key x) = Some x \<and> P x)"
proof -
  obtain xs where xs: "mset xs = filter_mset P (docs w)" "sorted_wrt le xs" "ds = page_of 0 None xs"
    using coll_find [OF assms(1,3,2)] by blast
  then have ds: "ds = xs" by (simp add: page_of_def)
  have mem: "x \<in> set ds \<longleftrightarrow> m (key x) = Some x \<and> P x" for x
  proof -
    have "x \<in> set ds \<longleftrightarrow> x \<in># mset xs" by (simp add: ds)
    also have "\<dots> \<longleftrightarrow> x \<in># docs w \<and> P x" unfolding xs(1) by simp
    finally show ?thesis using holds_in [OF assms(4)] by simp
  qed
  have "count (mset ds) x \<le> 1" for x
    using assms(4) xs(1) by (simp add: ds holds_def)
  then have "distinct ds" by (metis count_mset_0_iff distinct_count_atmost_1 le_less less_one)
  moreover have "inj_on key (set ds)" using mem by (intro inj_onI) (metis option.inject)
  ultimately show ?thesis using xs(2) mem by (simp add: ds distinct_map)
qed

end
