(* ===== verification/MongoIncidents.thy ===== *)
theory MongoIncidents
  imports Keyed Incidents
begin

text \<open>
  The incident repository of the running program (\<open>repositories/mongo_incident_repository.go\<close>): the method
  table of \<open>IncidentRepository\<close> over a collection, and \<open>PruneBefore\<close>. The receiver is configured; \<open>with_key\<close>
  is the filter \<open>_id = id\<close>. Loading and replacing an incident are two calls of the driver, and nothing else is
  taken to happen between them.
\<close>

section \<open>The repository\<close>

text \<open>What is stored of an incident: its times in milliseconds.\<close>

definition bson_incident :: "Incident \<Rightarrow> Incident" where
  "bson_incident inc = inc\<lparr>
     inc_StartedAt := bson_time (inc_StartedAt inc), inc_UpdatedAt := bson_time (inc_UpdatedAt inc),
     inc_ResolvedAt := map_option bson_time (inc_ResolvedAt inc),
     inc_AcknowledgedAt := map_option bson_time (inc_AcknowledgedAt inc)\<rparr>"

type_synonym 'w incidents = "('w, Incident) Collection"

definition mi_create :: "'w incidents \<Rightarrow> Incident \<Rightarrow> 'w \<Rightarrow> 'w \<times> string option" where
  "mi_create C inc w =
     (if inc_ID inc = [] then (w, Some ''incident id is required'')
      else case cl_insert C (bson_incident inc) w of
             (w, DocInserted) \<Rightarrow> (w, None)
           | (w, DocDuplicate) \<Rightarrow> (w, Some (''incident already exists: '' @ inc_ID inc))
           | (w, DocFailed err) \<Rightarrow> (w, Some (''insert incident '' @ inc_ID inc @ '': '' @ err)))"

definition mi_get :: "'w incidents \<Rightarrow> string \<Rightarrow> 'w \<Rightarrow> Incident \<times> string option" where
  "mi_get C i w =
     (if i = [] then (zero_incident, Some ''incident id is required'')
      else case cl_find_one C (with_key inc_ID i) any_order w of
             Inr None \<Rightarrow> (zero_incident, None)
           | Inl err \<Rightarrow> (zero_incident, Some (''get incident '' @ i @ '': '' @ err))
           | Inr (Some inc) \<Rightarrow> (inc, None))"

definition mi_update :: "'w incidents \<Rightarrow> string \<Rightarrow> inc_mutator \<Rightarrow> 'w \<Rightarrow> 'w \<times> string option" where
  "mi_update C i mutator w =
     (if i = [] then (w, Some ''incident id is required'')
      else case cl_find_one C (with_key inc_ID i) any_order w of
             Inr None \<Rightarrow> (w, Some (''incident not found: '' @ i))
           | Inl err \<Rightarrow> (w, Some (''load incident '' @ i @ '': '' @ err))
           | Inr (Some inc) \<Rightarrow>
               (case mutator inc of
                  Inl err \<Rightarrow> (w, Some err)
                | Inr inc \<Rightarrow>
                    (case cl_update C (with_key inc_ID i) (\<lambda>_. bson_incident inc) None w of
                       (w, Inl err) \<Rightarrow> (w, Some (''update incident '' @ i @ '': '' @ err))
                     | (w, Inr matched) \<Rightarrow>
                         if matched = 0 then (w, Some (''incident not found: '' @ i)) else (w, None))))"

definition mi_list :: "'w incidents \<Rightarrow> 'w \<Rightarrow> Incident list \<times> string option" where
  "mi_list C w =
     (case cl_find C (\<lambda>_. True) (newest inc_UpdatedAt) 0 None w of
        Inl (QueryStage, err, _) \<Rightarrow> ([], Some (''list incidents: '' @ err))
      | Inl (DecodeStage, err, _) \<Rightarrow> ([], Some (''decode incident: '' @ err))
      | Inl (IterateStage, err, _) \<Rightarrow> ([], Some (''iterate incidents: '' @ err))
      | Inr incs \<Rightarrow> (incs, None))"

definition mi_find_open :: "'w incidents \<Rightarrow> string \<Rightarrow> 'w \<Rightarrow> Incident \<times> string option" where
  "mi_find_open C checkID w =
     (if checkID = [] then (zero_incident, Some ''checkID is required'')
      else case cl_find_one C (open_for checkID) (newest inc_UpdatedAt) w of
             Inr None \<Rightarrow> (zero_incident, None)
           | Inl err \<Rightarrow> (zero_incident, Some (''find open incident for '' @ checkID @ '': '' @ err))
           | Inr (Some inc) \<Rightarrow> (inc, None))"

text \<open>\<open>rfc3339\<close> formats the time in the error message.\<close>

definition prunable :: "gotime \<Rightarrow> Incident \<Rightarrow> bool" where
  "prunable cutoff inc \<longleftrightarrow> inc_Status inc = ''resolved'' \<and> before (inc_UpdatedAt inc) (bson_time cutoff)"

definition mi_prune_before :: "(gotime \<Rightarrow> string) \<Rightarrow> 'w incidents \<Rightarrow> gotime \<Rightarrow> 'w \<Rightarrow> 'w \<times> string option" where
  "mi_prune_before rfc3339 C cutoff w =
     (case cl_delete_many C (prunable cutoff) w of
        (w, Inl err) \<Rightarrow> (w, Some (''prune incidents before '' @ rfc3339 cutoff @ '': '' @ err))
      | (w, Inr _) \<Rightarrow> (w, None))"

definition mongo_repo :: "'w incidents \<Rightarrow> 'w IncidentRepo" where
  "mongo_repo C = \<lparr>repo_create = mi_create C, repo_update = mi_update C, repo_get = mi_get C,
     repo_list = mi_list C, repo_find_open = mi_find_open C\<rparr>"

section \<open>The map that it implements\<close>

datatype incident_call = ICreate Incident | IUpdate string inc_mutator | IPrune gotime

fun mi_call :: "(gotime \<Rightarrow> string) \<Rightarrow> 'w incidents \<Rightarrow> incident_call \<Rightarrow> 'w \<Rightarrow> 'w \<times> string option" where
  "mi_call rfc3339 C (ICreate inc) w = mi_create C inc w"
| "mi_call rfc3339 C (IUpdate i f) w = mi_update C i f w"
| "mi_call rfc3339 C (IPrune t) w = mi_prune_before rfc3339 C t w"

fun inc_effect :: "incident_call \<Rightarrow> inc_map \<Rightarrow> inc_map" where
  "inc_effect (ICreate inc) m = m(inc_ID inc \<mapsto> bson_incident inc)"
| "inc_effect (IUpdate i f) m =
     (case m i of None \<Rightarrow> m | Some inc \<Rightarrow> (case f inc of Inl _ \<Rightarrow> m | Inr inc' \<Rightarrow> m(i \<mapsto> bson_incident inc')))"
| "inc_effect (IPrune t) m = map_keep (\<lambda>inc. \<not> prunable t inc) m"

text \<open>Mutators leave the identifier alone, as those of the incident manager do.\<close>

fun keeps_ID :: "incident_call \<Rightarrow> bool" where
  "keeps_ID (IUpdate i f) \<longleftrightarrow> (\<forall>inc inc'. f inc = Inr inc' \<longrightarrow> inc_ID inc' = inc_ID inc)"
| "keeps_ID _ \<longleftrightarrow> True"

text \<open>A call that fails has done nothing, or all of it, or, for the pruning, some of it.\<close>

fun inc_failure :: "incident_call \<Rightarrow> inc_map \<Rightarrow> inc_map \<Rightarrow> bool" where
  "inc_failure (IPrune t) m m' \<longleftrightarrow> (\<exists>K. (\<forall>inc. \<not> prunable t inc \<longrightarrow> K inc) \<and> m' = map_keep K m)"
| "inc_failure c m m' \<longleftrightarrow> m' = m \<or> m' = inc_effect c m"

lemma bson_incident_ID [simp]: "inc_ID (bson_incident inc) = inc_ID inc"
  by (simp add: bson_incident_def)

lemma mi_create_refines:
  assumes "coll_ok (same_key inc_ID) docs C" and "holds inc_ID m (docs w)" and "mi_create C inc w = (w', err)"
  shows "(err = None \<longrightarrow> m (inc_ID inc) = None \<and> holds inc_ID (inc_effect (ICreate inc) m) (docs w')) \<and>
    (err \<noteq> None \<longrightarrow> holds inc_ID m (docs w') \<or> holds inc_ID (inc_effect (ICreate inc) m) (docs w'))"
proof (cases "inc_ID inc = []")
  case True
  then show ?thesis using assms(2,3) by (auto simp: mi_create_def)
next
  case False
  obtain w1 a where i: "cl_insert C (bson_incident inc) w = (w1, a)" by fastforce
  from keyed_insert [OF assms(1) i assms(2)] show ?thesis
    using assms(3) False by (cases a) (auto simp: mi_create_def i)
qed

lemma mi_update_refines:
  assumes "coll_ok (same_key inc_ID) docs C" and "holds inc_ID m (docs w)" and "mi_update C i f w = (w', err)"
    and "keeps_ID (IUpdate i f)"
  shows "(err = None \<longrightarrow> (\<exists>inc inc'. m i = Some inc \<and> f inc = Inr inc') \<and> holds inc_ID (inc_effect (IUpdate i f) m) (docs w')) \<and>
    (err \<noteq> None \<longrightarrow> holds inc_ID m (docs w') \<or> holds inc_ID (inc_effect (IUpdate i f) m) (docs w'))"
proof (cases "i = [] \<or> (\<exists>e. cl_find_one C (with_key inc_ID i) any_order w = Inl e)")
  case True
  then have "w' = w" "err \<noteq> None"
    using assms(3) by (auto simp: mi_update_def split: if_splits)
  then show ?thesis using assms(2) by blast
next
  case False
  then obtain d where d: "cl_find_one C (with_key inc_ID i) any_order w = Inr d" and i: "i \<noteq> []"
    by (cases "cl_find_one C (with_key inc_ID i) any_order w") auto
  have d_eq: "d = m i" using keyed_find_one [OF assms(1) d _ assms(2)] by simp
  show ?thesis
  proof (cases "\<exists>inc inc'. m i = Some inc \<and> f inc = Inr inc'")
    case False
    then have "w' = w" "err \<noteq> None"
      using assms(3) i d by (auto simp: mi_update_def d_eq split: option.splits sum.splits)
    then show ?thesis using assms(2) by blast
  next
    case True
    then obtain inc inc' where m: "m i = Some inc" "f inc = Inr inc'" by blast
    have ID: "inc_ID inc' = i" using assms(4) m holds_key [OF assms(2) m(1)] by simp
    obtain w1 a where u: "cl_update C (with_key inc_ID i) (\<lambda>_. bson_incident inc') None w = (w1, a)" by fastforce
    from keyed_update [OF assms(1) u assms(2)] ID m
    have "case a of Inr n \<Rightarrow> holds inc_ID (m(i \<mapsto> bson_incident inc')) (docs w1) \<and> n = 1
        | Inl _ \<Rightarrow> holds inc_ID m (docs w1) \<or> holds inc_ID (m(i \<mapsto> bson_incident inc')) (docs w1)"
      by (auto simp: map_update_def split: sum.splits)
    moreover have "w' = w1" "err = None \<longleftrightarrow> (\<exists>n. a = Inr n \<and> n \<noteq> 0)"
      using assms(3) i by (auto simp: mi_update_def d d_eq m u split: sum.splits if_splits)
    ultimately show ?thesis using m by (auto split: sum.splits)
  qed
qed

lemma mi_prune_refines:
  assumes "coll_ok (same_key inc_ID) docs C" and "holds inc_ID m (docs w)" and "mi_prune_before rfc3339 C t w = (w', err)"
  shows "(err = None \<longrightarrow> holds inc_ID (inc_effect (IPrune t) m) (docs w')) \<and>
    (err \<noteq> None \<longrightarrow> (\<exists>m'. holds inc_ID m' (docs w') \<and> inc_failure (IPrune t) m m'))"
proof -
  obtain w1 a where d: "cl_delete_many C (prunable t) w = (w1, a)" by fastforce
  from keyed_delete_many [OF assms(1) d assms(2)] show ?thesis
    using assms(3) by (cases a) (auto simp: mi_prune_before_def d)
qed

lemma mi_call_refines:
  assumes "coll_ok (same_key inc_ID) docs C" and "holds inc_ID m (docs w)" and "mi_call rfc3339 C c w = (w', err)" and "keeps_ID c"
  shows "\<exists>m'. holds inc_ID m' (docs w') \<and> (if err = None then m' = inc_effect c m else inc_failure c m m')"
proof (cases c)
  case (ICreate inc)
  with mi_create_refines [OF assms(1,2), of inc w' err] assms(3) show ?thesis by auto
next
  case (IUpdate i f)
  with mi_update_refines [OF assms(1,2), of i f w' err] assms(3,4) show ?thesis by auto
next
  case (IPrune t)
  then have "mi_prune_before rfc3339 C t w = (w', err)" using assms(3) by simp
  note p = mi_prune_refines [OF assms(1,2) this]
  show ?thesis
  proof (cases err)
    case None
    with p show ?thesis unfolding IPrune by auto
  next
    case (Some e)
    with p show ?thesis unfolding IPrune by auto
  qed
qed

section \<open>Histories\<close>

text \<open>The map after a history: every call that reported success took effect, a failed one may have.\<close>

fun mi_run :: "(gotime \<Rightarrow> string) \<Rightarrow> 'w incidents \<Rightarrow> incident_call list \<Rightarrow> 'w \<Rightarrow> 'w \<times> bool list" where
  "mi_run rfc3339 C [] w = (w, [])"
| "mi_run rfc3339 C (c # cs) w =
     (let (w, err) = mi_call rfc3339 C c w; (w, oks) = mi_run rfc3339 C cs w in (w, (err = None) # oks))"

inductive inc_history :: "inc_map \<Rightarrow> incident_call list \<Rightarrow> bool list \<Rightarrow> inc_map \<Rightarrow> bool" where
  history_end: "inc_history m [] [] m"
| history_done: "inc_history (inc_effect c m) cs oks m' \<Longrightarrow> inc_history m (c # cs) (True # oks) m'"
| history_failed: "inc_failure c m m1 \<Longrightarrow> inc_history m1 cs oks m' \<Longrightarrow> inc_history m (c # cs) (False # oks) m'"

inductive_cases inc_historyE: "inc_history m (c # cs) (True # oks) m'"

lemma mi_run_refines:
  assumes "coll_ok (same_key inc_ID) docs C" and "holds inc_ID m (docs w)" and "\<forall>c \<in> set cs. keeps_ID c"
    and "mi_run rfc3339 C cs w = (w', oks)"
  shows "\<exists>m'. holds inc_ID m' (docs w') \<and> inc_history m cs oks m'"
  using assms(2-4)
proof (induction cs arbitrary: m w oks)
  case Nil
  then show ?case by (auto intro: history_end)
next
  case (Cons c cs)
  obtain w1 err where c: "mi_call rfc3339 C c w = (w1, err)" by fastforce
  obtain w2 oks2 where r: "mi_run rfc3339 C cs w1 = (w2, oks2)" by fastforce
  have out: "w' = w2" "oks = (err = None) # oks2" using Cons.prems(3) by (simp_all add: c r)
  obtain m1 where m1: "holds inc_ID m1 (docs w1)" "if err = None then m1 = inc_effect c m else inc_failure c m m1"
    using mi_call_refines [OF assms(1) Cons.prems(1) c] Cons.prems(2) by auto
  obtain m' where m': "holds inc_ID m' (docs w')" "inc_history m1 cs oks2 m'"
    using Cons.IH [of m1 w1 oks2] m1(1) r Cons.prems(2) out(1) by auto
  then show ?case using m1(2) out by (cases "err = None") (auto intro: history_done history_failed)
qed

text \<open>
  C1: The incident repository in the database implements the map from identifiers to incidents that the
  incident manager is proved against: after any history of calls, some of which may have failed, the stored
  incidents are those of a map that the history can lead to (with all calls successful, the map), and the list, the lookup and the search for
  an open incident answer from it; the list is ordered by the last update, and the search returns the
  incident of the check that was updated last.
\<close>

theorem mongo_incidents_refine_the_map:
  assumes "coll_ok (same_key inc_ID) docs C" and "docs w = {#}" and "\<forall>c \<in> set cs. keeps_ID c"
    and "mi_run rfc3339 C cs w = (w', oks)"
  shows "\<exists>m. inc_history Map.empty cs oks m \<and>
    (list_all id oks \<longrightarrow> m = foldl (\<lambda>m c. inc_effect c m) Map.empty cs) \<and>
    (\<forall>i inc. mi_get C i w' = (inc, None) \<longrightarrow> inc = (case m i of None \<Rightarrow> zero_incident | Some inc \<Rightarrow> inc)) \<and>
    (\<forall>incs. mi_list C w' = (incs, None) \<longrightarrow> distinct (map inc_ID incs) \<and>
       sorted_wrt (\<lambda>a b. inc_UpdatedAt b \<le> inc_UpdatedAt a) incs \<and> (\<forall>inc. inc \<in> set incs \<longleftrightarrow> m (inc_ID inc) = Some inc)) \<and>
    (\<forall>c inc. mi_find_open C c w' = (inc, None) \<longrightarrow>
       (if no_open m c then inc = zero_incident
        else m (inc_ID inc) = Some inc \<and> open_for c inc \<and>
          (\<forall>i x. m i = Some x \<longrightarrow> open_for c x \<longrightarrow> inc_UpdatedAt x \<le> inc_UpdatedAt inc)))"
proof -
  have "holds inc_ID Map.empty (docs w)" by (simp add: assms(2))
  from mi_run_refines [OF assms(1) this assms(3,4)]
  obtain m where m: "holds inc_ID m (docs w')" and hist: "inc_history Map.empty cs oks m" by blast
  have "m' = foldl (\<lambda>m c. inc_effect c m) m0 cs" if "inc_history m0 cs oks m'" "list_all id oks" for m0 m'
    using that by (induction rule: inc_history.induct) simp_all
  then have all: "list_all id oks \<longrightarrow> m = foldl (\<lambda>m c. inc_effect c m) Map.empty cs" using hist by blast
  have get: "inc = (case m i of None \<Rightarrow> zero_incident | Some inc \<Rightarrow> inc)" if g: "mi_get C i w' = (inc, None)" for i inc
  proof -
    obtain d where d: "cl_find_one C (with_key inc_ID i) any_order w' = Inr d"
      using g by (auto simp: mi_get_def split: if_splits sum.splits)
    moreover have "d = m i" using keyed_find_one [OF assms(1) d _ m] by simp
    ultimately show ?thesis using g by (auto simp: mi_get_def split: if_splits option.splits)
  qed
  have lst: "distinct (map inc_ID incs) \<and> sorted_wrt (\<lambda>a b. inc_UpdatedAt b \<le> inc_UpdatedAt a) incs \<and>
      (\<forall>inc. inc \<in> set incs \<longleftrightarrow> m (inc_ID inc) = Some inc)" if "mi_list C w' = (incs, None)" for incs
  proof -
    have "cl_find C (\<lambda>_. True) (newest inc_UpdatedAt) 0 None w' = Inr incs"
      using that by (auto simp: mi_list_def split: sum.splits prod.splits find_stage.splits)
    from keyed_find [OF assms(1) this preorder_orders(2) m] show ?thesis by (simp add: newest_def [abs_def])
  qed
  have opn: "if no_open m c then inc = zero_incident
        else m (inc_ID inc) = Some inc \<and> open_for c inc \<and>
          (\<forall>i x. m i = Some x \<longrightarrow> open_for c x \<longrightarrow> inc_UpdatedAt x \<le> inc_UpdatedAt inc)"
    if f: "mi_find_open C c w' = (inc, None)" for c inc
  proof -
    obtain d where d: "cl_find_one C (open_for c) (newest inc_UpdatedAt) w' = Inr d"
      using f by (auto simp: mi_find_open_def split: if_splits sum.splits)
    note ans = coll_find_one [OF assms(1) _ d, simplified]
    show ?thesis
    proof (cases d)
      case None
      then have "inc = zero_incident" using f d by (auto simp: mi_find_open_def split: if_splits)
      moreover have "no_open m c" using ans None holds_Some [OF m] by (auto simp: no_open_def)
      ultimately show ?thesis by simp
    next
      case (Some x)
      then have x: "inc = x" using f d by (auto simp: mi_find_open_def split: if_splits)
      have first: "x \<in># docs w'" "open_for c x" "\<And>y. y \<in># docs w' \<Longrightarrow> open_for c y \<Longrightarrow> inc_UpdatedAt y \<le> inc_UpdatedAt x"
        using ans Some by (auto simp: first_of_def newest_def)
      moreover have mx: "m (inc_ID x) = Some x" using first(1) holds_in [OF m] by blast
      moreover have "\<not> no_open m c" using mx first(2) by (auto simp: no_open_def)
      ultimately show ?thesis using x holds_Some [OF m] by auto
    qed
  qed
  show ?thesis using hist all get lst opn by blast
qed

definition down :: "string \<Rightarrow> gotime \<Rightarrow> Incident" where
  "down i t = zero_incident\<lparr>inc_ID := i, inc_CheckID := ''db'', inc_Status := ''open'', inc_UpdatedAt := t\<rparr>"

definition some_calls :: "incident_call list" where
  "some_calls = [ICreate (down ''a'' 5000000), ICreate (down ''b'' 3000000), ICreate (down ''b'' 9000000),
     IUpdate ''b'' (\<lambda>inc. Inr (inc\<lparr>inc_UpdatedAt := 7000001\<rparr>))]"

lemma mongo_incidents_refine_the_map_witness:
  "let w' = fst (mi_run (\<lambda>_. []) (list_collection (same_key inc_ID)) some_calls [])
   in \<exists>m. inc_history Map.empty some_calls [True, True, False, True] m \<and> m ''b'' = Some (down ''b'' 7000000)"
proof -
  have run: "mi_run (\<lambda>_. []) (list_collection (same_key inc_ID)) some_calls [] =
      ([down ''a'' 5000000, down ''b'' 7000000], [True, True, False, True])" by code_simp
  have get: "mi_get (list_collection (same_key inc_ID)) ''b'' [down ''a'' 5000000, down ''b'' 7000000] = (down ''b'' 7000000, None)"
    by code_simp
  have keeps: "\<forall>c \<in> set some_calls. keeps_ID c" by (simp add: some_calls_def)
  obtain m where h: "inc_history Map.empty some_calls [True, True, False, True] m"
    and g: "down ''b'' 7000000 = (case m ''b'' of None \<Rightarrow> zero_incident | Some inc \<Rightarrow> inc)"
    using mongo_incidents_refine_the_map [OF list_collection_ok _ keeps run] get by auto
  have "inc_ID (down ''b'' 7000000) \<noteq> inc_ID zero_incident" by code_simp
  with g have "m ''b'' = Some (down ''b'' 7000000)" by (cases "m ''b''") auto
  with h show ?thesis unfolding run Let_def by blast
qed

end
