(* ===== verification/Dashboards.thy ===== *)
theory Dashboards
  imports StatusPages CheckAPI Keyed
begin

text \<open>
  Custom dashboards: the repository of the running program over MongoDB
  (\<open>repositories/mongo_custom_dashboard_repository.go\<close>), the older store with its file
  (\<open>custom_dashboard.go\<close>), and the handlers with their access control (\<open>custom_dashboard_api.go\<close>), which
  reach either through the interface \<open>CustomDashboardRepository\<close>. \<open>'j\<close> is the JSON of a widget's configuration; a
  slice that can be nil is an option. The map of the file store is an association list and the order of ranging
  over it an argument; its file is written in place, so a write can leave a damaged file.
\<close>

section \<open>The store with a file\<close>

record WidgetPosition =
  wp_X :: int
  wp_Y :: int
  wp_Width :: int
  wp_Height :: int

record 'j DashboardWidget =
  wi_ID :: string
  wi_Type :: string
  wi_Title :: string
  wi_Position :: WidgetPosition
  wi_Config :: "'j option"

record 'j CustomDashboard =
  da_ID :: string
  da_Name :: string
  da_Description :: string
  da_Owner :: string
  da_IsDefault :: bool
  da_Visibility :: string
  da_CheckIDs :: "string list option"
  da_Tags :: "string list option"
  da_Servers :: "string list option"
  da_Widgets :: "'j DashboardWidget list option"
  da_RefreshSec :: int
  da_CreatedAt :: gotime
  da_UpdatedAt :: gotime

datatype 'j dashboard_file = NoDashboards | SavedDashboards "'j CustomDashboard list" | DamagedDashboards string

record 'j DashboardStore =
  dst_dashboards :: "(string \<times> 'j CustomDashboard) list"
  dst_nextID :: int
  dst_file :: "'j dashboard_file"

definition dst_load :: "'j CustomDashboard list \<Rightarrow> 'j DashboardStore \<Rightarrow> 'j DashboardStore" where
  "dst_load ds s = foldl (\<lambda>s d. s\<lparr>dst_dashboards := AList.update (da_ID d) d (dst_dashboards s),
     dst_nextID := dst_nextID s + 1\<rparr>) s ds"

definition NewCustomDashboardStore :: "'j dashboard_file \<Rightarrow> string + 'j DashboardStore" where
  "NewCustomDashboardStore file =
     (let s = \<lparr>dst_dashboards = [], dst_nextID = 1, dst_file = file\<rparr>
      in case file of
           NoDashboards \<Rightarrow> Inr s
         | DamagedDashboards err \<Rightarrow> Inl (''load dashboards: '' @ err)
         | SavedDashboards ds \<Rightarrow> Inr (dst_load ds s))"

type_synonym 'j dashboard_order = "(string \<times> 'j CustomDashboard) list \<Rightarrow> (string \<times> 'j CustomDashboard) list"

definition dst_save :: "'j dashboard_order \<Rightarrow> write_end \<Rightarrow> 'j DashboardStore \<Rightarrow> 'j DashboardStore \<times> string option" where
  "dst_save ord w s =
     (case w of
        Written \<Rightarrow> (s\<lparr>dst_file := SavedDashboards (map snd (ranged ord (dst_dashboards s)))\<rparr>, None)
      | Not_opened err \<Rightarrow> (s, Some err)
      | Torn err \<Rightarrow> (s\<lparr>dst_file := DamagedDashboards ''unexpected end of JSON input''\<rparr>, Some err))"

definition dashboard_not_found :: "string \<Rightarrow> string" where
  "dashboard_not_found i = ''dashboard \"'' @ i @ ''\" not found''"

definition fresh_dashboard_id :: "'j DashboardStore \<Rightarrow> string" where
  "fresh_dashboard_id s = ''dash-'' @ itoa (dst_nextID s)"

text \<open>Putting a new dashboard in; a failed write takes it, and whatever it replaced, out again.\<close>

definition dst_put ::
  "'j dashboard_order \<Rightarrow> write_end \<Rightarrow> 'j CustomDashboard \<Rightarrow> 'j DashboardStore \<Rightarrow>
     'j DashboardStore \<times> (string + 'j CustomDashboard)" where
  "dst_put ord w d s =
     (case dst_save ord w (s\<lparr>dst_dashboards := AList.update (da_ID d) d (dst_dashboards s)\<rparr>) of
        (s, Some err) \<Rightarrow> (s\<lparr>dst_dashboards := AList.delete (da_ID d) (dst_dashboards s)\<rparr>, Inl err)
      | (s, None) \<Rightarrow> (s, Inr d))"

definition dst_Create ::
  "'j dashboard_order \<Rightarrow> write_end \<Rightarrow> gotime \<Rightarrow> 'j CustomDashboard \<Rightarrow> 'j DashboardStore \<Rightarrow>
     'j DashboardStore \<times> (string + 'j CustomDashboard)" where
  "dst_Create ord w now d s =
     (if da_Name d = [] then (s, Inl ''dashboard name is required'')
      else
        let (d, s) = (if da_ID d = [] then (d\<lparr>da_ID := fresh_dashboard_id s\<rparr>, s\<lparr>dst_nextID := dst_nextID s + 1\<rparr>) else (d, s));
            d = d\<lparr>da_CreatedAt := now, da_UpdatedAt := now\<rparr>;
            d = (if da_Visibility d = [] then d\<lparr>da_Visibility := ''private''\<rparr> else d);
            d = (if da_Widgets d = None then d\<lparr>da_Widgets := Some []\<rparr> else d)
        in dst_put ord w d s)"

definition dst_Get :: "string \<Rightarrow> 'j DashboardStore \<Rightarrow> string + 'j CustomDashboard" where
  "dst_Get i s = (case map_of (dst_dashboards s) i of None \<Rightarrow> Inl (dashboard_not_found i) | Some d \<Rightarrow> Inr d)"

definition dst_List :: "'j dashboard_order \<Rightarrow> string \<Rightarrow> 'j DashboardStore \<Rightarrow> 'j CustomDashboard list" where
  "dst_List ord owner s =
     filter (\<lambda>d. owner = [] \<or> da_Owner d = owner \<or> da_Visibility d = ''public'' \<or> da_Visibility d = ''team'')
       (map snd (ranged ord (dst_dashboards s)))"

definition given :: "'a option \<Rightarrow> 'a option \<Rightarrow> 'a option" where
  "given new old = (if new \<noteq> None then new else old)"

definition updated_dashboard :: "gotime \<Rightarrow> 'j CustomDashboard \<Rightarrow> 'j CustomDashboard \<Rightarrow> 'j CustomDashboard" where
  "updated_dashboard now update d = d\<lparr>
     da_Name := (if da_Name update \<noteq> [] then da_Name update else da_Name d),
     da_Description := (if da_Description update \<noteq> [] then da_Description update else da_Description d),
     da_Owner := (if da_Owner update \<noteq> [] \<or> da_Owner d \<noteq> [] then da_Owner update else da_Owner d),
     da_Visibility := (if da_Visibility update \<noteq> [] then da_Visibility update else da_Visibility d),
     da_CheckIDs := given (da_CheckIDs update) (da_CheckIDs d),
     da_Tags := given (da_Tags update) (da_Tags d),
     da_Servers := given (da_Servers update) (da_Servers d),
     da_Widgets := given (da_Widgets update) (da_Widgets d),
     da_RefreshSec := (if da_RefreshSec update > 0 then da_RefreshSec update else da_RefreshSec d),
     da_UpdatedAt := now\<rparr>"

definition dst_Update ::
  "'j dashboard_order \<Rightarrow> write_end \<Rightarrow> gotime \<Rightarrow> string \<Rightarrow> 'j CustomDashboard \<Rightarrow> 'j DashboardStore \<Rightarrow>
     'j DashboardStore \<times> (string + 'j CustomDashboard)" where
  "dst_Update ord w now i update s =
     (case map_of (dst_dashboards s) i of
        None \<Rightarrow> (s, Inl (dashboard_not_found i))
      | Some existing \<Rightarrow>
          let d = updated_dashboard now update existing
          in case dst_save ord w (s\<lparr>dst_dashboards := AList.update i d (dst_dashboards s)\<rparr>) of
               (s, Some err) \<Rightarrow> (s, Inl err)
             | (s, None) \<Rightarrow> (s, Inr d))"

definition dst_Delete ::
  "'j dashboard_order \<Rightarrow> write_end \<Rightarrow> string \<Rightarrow> 'j DashboardStore \<Rightarrow> 'j DashboardStore \<times> string option" where
  "dst_Delete ord w i s =
     (case map_of (dst_dashboards s) i of
        None \<Rightarrow> (s, Some (dashboard_not_found i))
      | Some _ \<Rightarrow> dst_save ord w (s\<lparr>dst_dashboards := AList.delete i (dst_dashboards s)\<rparr>))"

definition dst_Duplicate ::
  "'j dashboard_order \<Rightarrow> write_end \<Rightarrow> gotime \<Rightarrow> string \<Rightarrow> string \<Rightarrow> 'j DashboardStore \<Rightarrow>
     'j DashboardStore \<times> (string + 'j CustomDashboard)" where
  "dst_Duplicate ord w now i newName s =
     (case map_of (dst_dashboards s) i of
        None \<Rightarrow> (s, Inl (dashboard_not_found i))
      | Some original \<Rightarrow>
          let dup = original\<lparr>da_ID := fresh_dashboard_id s, da_Name := newName, da_IsDefault := False,
                da_CreatedAt := now, da_UpdatedAt := now\<rparr>
          in dst_put ord w dup (s\<lparr>dst_nextID := dst_nextID s + 1\<rparr>))"

section \<open>The repository over MongoDB\<close>

text \<open>
  \<open>cfg\<close> is what a configuration is after a round trip through BSON. An empty list is left out of the document,
  and is nil when it is read; the widgets are always a list.
\<close>

definition kept_list :: "'a list option \<Rightarrow> 'a list option" where
  "kept_list xs = (if xs = Some [] then None else xs)"

definition bson_widgets :: "('j option \<Rightarrow> 'j option) \<Rightarrow> 'j DashboardWidget list option \<Rightarrow> 'j DashboardWidget list" where
  "bson_widgets cfg ws = map (\<lambda>w. w\<lparr>wi_Config := cfg (wi_Config w)\<rparr>) (case ws of None \<Rightarrow> [] | Some ws \<Rightarrow> ws)"

definition toMongoDashboard :: "('j option \<Rightarrow> 'j option) \<Rightarrow> 'j CustomDashboard \<Rightarrow> 'j CustomDashboard" where
  "toMongoDashboard cfg d = d\<lparr>
     da_CheckIDs := kept_list (da_CheckIDs d), da_Tags := kept_list (da_Tags d), da_Servers := kept_list (da_Servers d),
     da_Widgets := Some (bson_widgets cfg (da_Widgets d)),
     da_CreatedAt := bson_time (da_CreatedAt d), da_UpdatedAt := bson_time (da_UpdatedAt d)\<rparr>"

definition fromMongoDashboard :: "'j CustomDashboard \<Rightarrow> 'j CustomDashboard" where
  "fromMongoDashboard d = d\<lparr>da_Widgets := Some (case da_Widgets d of None \<Rightarrow> [] | Some ws \<Rightarrow> ws)\<rparr>"

type_synonym ('w, 'j) dashboards = "('w, 'j CustomDashboard) Collection"

definition dashboard_time_id :: "gotime \<Rightarrow> string" where
  "dashboard_time_id now = ''dash-'' @ itoa (unix_nano now)"

definition md_Create ::
  "('j option \<Rightarrow> 'j option) \<Rightarrow> ('w, 'j) dashboards \<Rightarrow> gotime \<Rightarrow> 'j CustomDashboard \<Rightarrow> 'w \<Rightarrow> 'w \<times> (string + 'j CustomDashboard)" where
  "md_Create cfg C now d w =
     (if da_Name d = [] then (w, Inl ''dashboard name is required'')
      else
        let d = (if da_ID d = [] then d\<lparr>da_ID := dashboard_time_id now\<rparr> else d);
            d = d\<lparr>da_CreatedAt := now, da_UpdatedAt := now\<rparr>;
            d = (if da_Visibility d = [] then d\<lparr>da_Visibility := ''private''\<rparr> else d);
            d = (if da_Widgets d = None then d\<lparr>da_Widgets := Some []\<rparr> else d)
        in case cl_insert C (toMongoDashboard cfg d) w of
             (w, DocInserted) \<Rightarrow> (w, Inr d)
           | (w, DocDuplicate) \<Rightarrow> (w, Inl ''insert dashboard: E11000 duplicate key error'')
           | (w, DocFailed err) \<Rightarrow> (w, Inl (''insert dashboard: '' @ err)))"

definition md_Get :: "('w, 'j) dashboards \<Rightarrow> string \<Rightarrow> 'w \<Rightarrow> string + 'j CustomDashboard" where
  "md_Get C i w =
     (case cl_find_one C (with_key da_ID i) any_order w of
        Inl err \<Rightarrow> Inl (''get dashboard: '' @ err)
      | Inr None \<Rightarrow> Inl (dashboard_not_found i)
      | Inr (Some doc) \<Rightarrow> Inr (fromMongoDashboard doc))"

definition listed :: "string \<Rightarrow> 'j CustomDashboard \<Rightarrow> bool" where
  "listed owner d \<longleftrightarrow> owner = [] \<or> da_Owner d = owner \<or> da_Visibility d = ''public'' \<or> da_Visibility d = ''team''"

definition md_List :: "('w, 'j) dashboards \<Rightarrow> string \<Rightarrow> 'w \<Rightarrow> 'j CustomDashboard list" where
  "md_List C owner w =
     (case cl_find C (listed owner) (newest da_CreatedAt) 0 None w of Inl _ \<Rightarrow> [] | Inr ds \<Rightarrow> map fromMongoDashboard ds)"

text \<open>The fields that an update sets.\<close>

definition set_fields :: "('j option \<Rightarrow> 'j option) \<Rightarrow> gotime \<Rightarrow> 'j CustomDashboard \<Rightarrow> 'j CustomDashboard \<Rightarrow> 'j CustomDashboard" where
  "set_fields cfg now update d = d\<lparr>
     da_Name := (if da_Name update \<noteq> [] then da_Name update else da_Name d),
     da_Description := (if da_Description update \<noteq> [] then da_Description update else da_Description d),
     da_Owner := (if da_Owner update \<noteq> [] then da_Owner update else da_Owner d),
     da_Visibility := (if da_Visibility update \<noteq> [] then da_Visibility update else da_Visibility d),
     da_CheckIDs := given (da_CheckIDs update) (da_CheckIDs d),
     da_Tags := given (da_Tags update) (da_Tags d),
     da_Servers := given (da_Servers update) (da_Servers d),
     da_Widgets := (if da_Widgets update \<noteq> None then Some (bson_widgets cfg (da_Widgets update)) else da_Widgets d),
     da_RefreshSec := (if da_RefreshSec update > 0 then da_RefreshSec update else da_RefreshSec d),
     da_UpdatedAt := bson_time now\<rparr>"

definition md_Update ::
  "('j option \<Rightarrow> 'j option) \<Rightarrow> ('w, 'j) dashboards \<Rightarrow> gotime \<Rightarrow> string \<Rightarrow> 'j CustomDashboard \<Rightarrow> 'w \<Rightarrow> 'w \<times> (string + 'j CustomDashboard)" where
  "md_Update cfg C now i update w =
     (case cl_modify C (with_key da_ID i) (set_fields cfg now update) any_order True w of
        (w, Inl err) \<Rightarrow> (w, Inl (''update dashboard: '' @ err))
      | (w, Inr None) \<Rightarrow> (w, Inl (dashboard_not_found i))
      | (w, Inr (Some doc)) \<Rightarrow> (w, Inr (fromMongoDashboard doc)))"

definition md_Delete :: "('w, 'j) dashboards \<Rightarrow> string \<Rightarrow> 'w \<Rightarrow> 'w \<times> string option" where
  "md_Delete C i w =
     (case cl_delete_one C (with_key da_ID i) w of
        (w, Inl err) \<Rightarrow> (w, Some (''delete dashboard: '' @ err))
      | (w, Inr n) \<Rightarrow> (w, if n = 0 then Some (dashboard_not_found i) else None))"

definition md_Duplicate ::
  "('j option \<Rightarrow> 'j option) \<Rightarrow> ('w, 'j) dashboards \<Rightarrow> gotime \<Rightarrow> string \<Rightarrow> string \<Rightarrow> 'w \<Rightarrow> 'w \<times> (string + 'j CustomDashboard)" where
  "md_Duplicate cfg C now i newName w =
     (case cl_find_one C (with_key da_ID i) any_order w of
        Inl err \<Rightarrow> (w, Inl (''find dashboard to duplicate: '' @ err))
      | Inr None \<Rightarrow> (w, Inl (dashboard_not_found i))
      | Inr (Some doc) \<Rightarrow>
          let doc = doc\<lparr>da_ID := dashboard_time_id now, da_Name := newName, da_IsDefault := False,
                da_CreatedAt := now, da_UpdatedAt := now\<rparr>
          in case cl_insert C (toMongoDashboard cfg doc) w of
               (w, DocInserted) \<Rightarrow> (w, Inr (fromMongoDashboard doc))
             | (w, DocDuplicate) \<Rightarrow> (w, Inl ''insert duplicated dashboard: E11000 duplicate key error'')
             | (w, DocFailed err) \<Rightarrow> (w, Inl (''insert duplicated dashboard: '' @ err)))"

section \<open>The interface\<close>

text \<open>
  The methods, at the time and with the outcomes of one call. \<open>dr_current\<close> reads through the pointer that
  \<open>Duplicate\<close> returned: the file store returns its own entry, MongoDB a copy.
\<close>

record ('s, 'j) DashboardRepo =
  dr_Create :: "'j CustomDashboard \<Rightarrow> 's \<Rightarrow> 's \<times> (string + 'j CustomDashboard)"
  dr_Get :: "string \<Rightarrow> 's \<Rightarrow> string + 'j CustomDashboard"
  dr_List :: "string \<Rightarrow> 's \<Rightarrow> 'j CustomDashboard list"
  dr_Update :: "string \<Rightarrow> 'j CustomDashboard \<Rightarrow> 's \<Rightarrow> 's \<times> (string + 'j CustomDashboard)"
  dr_Delete :: "string \<Rightarrow> 's \<Rightarrow> 's \<times> string option"
  dr_Duplicate :: "string \<Rightarrow> string \<Rightarrow> 's \<Rightarrow> 's \<times> (string + 'j CustomDashboard)"
  dr_current :: "'j CustomDashboard \<Rightarrow> 's \<Rightarrow> 'j CustomDashboard"

definition stored_dashboard :: "'j CustomDashboard \<Rightarrow> 'j DashboardStore \<Rightarrow> 'j CustomDashboard" where
  "stored_dashboard d s = (case map_of (dst_dashboards s) (da_ID d) of Some d' \<Rightarrow> d' | None \<Rightarrow> d)"

definition file_dashboards :: "'j dashboard_order \<Rightarrow> write_end \<Rightarrow> gotime \<Rightarrow> ('j DashboardStore, 'j) DashboardRepo" where
  "file_dashboards ord w now = \<lparr>dr_Create = dst_Create ord w now, dr_Get = dst_Get, dr_List = dst_List ord,
     dr_Update = dst_Update ord w now, dr_Delete = dst_Delete ord w, dr_Duplicate = dst_Duplicate ord w now,
     dr_current = stored_dashboard\<rparr>"

definition mongo_dashboards :: "('j option \<Rightarrow> 'j option) \<Rightarrow> ('w, 'j) dashboards \<Rightarrow> gotime \<Rightarrow> ('w, 'j) DashboardRepo" where
  "mongo_dashboards cfg C now = \<lparr>dr_Create = md_Create cfg C now, dr_Get = md_Get C, dr_List = md_List C,
     dr_Update = md_Update cfg C now, dr_Delete = md_Delete C, dr_Duplicate = md_Duplicate cfg C now,
     dr_current = (\<lambda>d w. d)\<rparr>"

section \<open>Access\<close>

text \<open>The caller is \<open>ownerFromRequest\<close>, the empty name if the request has no valid token.\<close>

definition canViewDashboard :: "'j CustomDashboard \<Rightarrow> string \<Rightarrow> bool" where
  "canViewDashboard d owner =
     (if da_Visibility d \<noteq> ''private'' then True
      else if da_Owner d = [] then True
      else owner = [] \<or> owner = da_Owner d)"

definition canModifyDashboard :: "'j CustomDashboard \<Rightarrow> string \<Rightarrow> bool" where
  "canModifyDashboard d owner = (if da_Owner d = [] then True else owner = [] \<or> owner = da_Owner d)"

section \<open>The data of a dashboard\<close>

record 'j DashboardData =
  dd_Dashboard :: "'j CustomDashboard"
  dd_Checks :: "CheckConfig list"
  dd_Results :: "string \<Rightarrow> CheckResult list option"
  dd_Summary :: Summary
  dd_Incidents :: "Incident list"
  dd_GeneratedAt :: gotime

definition the_list :: "'a list option \<Rightarrow> 'a list" where
  "the_list xs = (case xs of None \<Rightarrow> [] | Some ys \<Rightarrow> ys)"

definition dashboard_shows :: "'j CustomDashboard \<Rightarrow> CheckConfig \<Rightarrow> bool" where
  "dashboard_shows d c \<longleftrightarrow>
     (let ids = the_list (da_CheckIDs d); tags = the_list (da_Tags d); servers = the_list (da_Servers d)
      in if ids \<noteq> [] \<and> chk_ID c \<in> set ids then True
         else if servers \<noteq> [] \<and> chk_Server c \<in> set servers then True
         else if tags \<noteq> [] \<and> chk_Tags c \<noteq> [] then list_ex (\<lambda>t. t \<in> set tags) (chk_Tags c)
         else False)"

definition filterChecks :: "CheckConfig list \<Rightarrow> 'j CustomDashboard \<Rightarrow> CheckConfig list" where
  "filterChecks checks d =
     (if the_list (da_CheckIDs d) = [] \<and> the_list (da_Tags d) = [] \<and> the_list (da_Servers d) = [] then checks
      else filter (dashboard_shows d) checks)"

text \<open>The map of results, as the list of each check that has one.\<close>

definition results_of :: "string list \<Rightarrow> CheckResult list \<Rightarrow> string \<Rightarrow> CheckResult list option" where
  "results_of ids results i =
     (let rs = filter (\<lambda>r. res_CheckID r \<in> set ids \<and> res_CheckID r = i) results in if rs = [] then None else Some rs)"

definition dashboard_data ::
  "gotime \<Rightarrow> State \<Rightarrow> ('r IncidentRepo \<times> 'r) option \<Rightarrow> 'j CustomDashboard \<Rightarrow> 'j DashboardData" where
  "dashboard_data now state incidentRepo d =
     (let checks = filterChecks (st_Checks state) d; ids = map chk_ID checks
      in \<lparr>dd_Dashboard = d, dd_Checks = sanitizeChecksForList checks, dd_Results = results_of ids (st_Results state),
          dd_Summary = buildSummary checks (st_Results state) (Some (st_LastRunAt state)),
          dd_Incidents = (case incidentRepo of None \<Rightarrow> []
             | Some (repo, r) \<Rightarrow> filter (\<lambda>inc. inc_CheckID inc \<in> set ids) (fst (repo_list repo r))),
          dd_GeneratedAt = now\<rparr>)"

section \<open>The handlers\<close>

datatype 'j dashboard_body =
    Dashboards "'j CustomDashboard list" | OneDashboard "'j CustomDashboard" | DashboardDataBody "'j DashboardData"
  | DashboardDeleted string | DashboardError string | DashboardPlain string

text \<open>
  The environment of one request: the caller, the repository as its first and second change find it
  (duplicating makes two), the decoded bodies, and what the data page reads at which time.
\<close>

record ('s, 'j, 'r) DashboardEnv =
  de_owner :: string
  de_repo :: "('s, 'j) DashboardRepo"
  de_repo2 :: "('s, 'j) DashboardRepo"
  de_now :: gotime
  de_body :: "string + 'j CustomDashboard"
  de_name :: "string + string"
  de_state :: State
  de_incidents :: "('r IncidentRepo \<times> 'r) option"

type_synonym ('s, 'j) dashboard_answer = "'s \<times> int \<times> 'j dashboard_body"

definition dashboard_failure :: "string \<Rightarrow> 's \<Rightarrow> ('s, 'j) dashboard_answer" where
  "dashboard_failure err s = (s, if str_contains err ''not found'' then 404 else 500, DashboardError err)"

definition access_denied :: "'s \<Rightarrow> ('s, 'j) dashboard_answer" where
  "access_denied s = (s, 403, DashboardError ''access denied'')"

definition createDashboard :: "('s, 'j, 'r) DashboardEnv \<Rightarrow> 's \<Rightarrow> ('s, 'j) dashboard_answer" where
  "createDashboard env s =
     (case de_body env of
        Inl err \<Rightarrow> (s, 400, DashboardError (''invalid JSON: '' @ err))
      | Inr req \<Rightarrow>
          if da_Name req = [] then (s, 400, DashboardError ''name is required'')
          else case dr_Create (de_repo env) (req\<lparr>da_Owner := de_owner env\<rparr>) s of
                 (s, Inl err) \<Rightarrow> (s, 500, DashboardError err)
               | (s, Inr d) \<Rightarrow> (s, 201, OneDashboard d))"

definition getDashboard :: "('s, 'j, 'r) DashboardEnv \<Rightarrow> string \<Rightarrow> 's \<Rightarrow> ('s, 'j) dashboard_answer" where
  "getDashboard env i s =
     (case dr_Get (de_repo env) i s of
        Inl err \<Rightarrow> (s, 404, DashboardError err)
      | Inr d \<Rightarrow> if \<not> canViewDashboard d (de_owner env) then access_denied s else (s, 200, OneDashboard d))"

definition updateDashboard :: "('s, 'j, 'r) DashboardEnv \<Rightarrow> string \<Rightarrow> 's \<Rightarrow> ('s, 'j) dashboard_answer" where
  "updateDashboard env i s =
     (case dr_Get (de_repo env) i s of
        Inl err \<Rightarrow> (s, 404, DashboardError err)
      | Inr existing \<Rightarrow>
          if \<not> canModifyDashboard existing (de_owner env) then access_denied s
          else case de_body env of
                 Inl err \<Rightarrow> (s, 400, DashboardError (''invalid JSON: '' @ err))
               | Inr update \<Rightarrow>
                   (case dr_Update (de_repo env) i (update\<lparr>da_Owner := da_Owner existing\<rparr>) s of
                      (s, Inl err) \<Rightarrow> dashboard_failure err s
                    | (s, Inr d) \<Rightarrow> (s, 200, OneDashboard d)))"

definition deleteDashboard :: "('s, 'j, 'r) DashboardEnv \<Rightarrow> string \<Rightarrow> 's \<Rightarrow> ('s, 'j) dashboard_answer" where
  "deleteDashboard env i s =
     (case dr_Get (de_repo env) i s of
        Inl err \<Rightarrow> (s, 404, DashboardError err)
      | Inr existing \<Rightarrow>
          if \<not> canModifyDashboard existing (de_owner env) then access_denied s
          else case dr_Delete (de_repo env) i s of
                 (s, Some err) \<Rightarrow> dashboard_failure err s
               | (s, None) \<Rightarrow> (s, 200, DashboardDeleted i))"

definition duplicateDashboard :: "('s, 'j, 'r) DashboardEnv \<Rightarrow> string \<Rightarrow> string \<Rightarrow> 's \<Rightarrow> ('s, 'j) dashboard_answer" where
  "duplicateDashboard env meth i s =
     (if meth \<noteq> ''POST'' then (s, 405, DashboardPlain ''method not allowed'')
      else case dr_Get (de_repo env) i s of
        Inl err \<Rightarrow> (s, 404, DashboardError err)
      | Inr existing \<Rightarrow>
          if \<not> canViewDashboard existing (de_owner env) then access_denied s
          else case de_name env of
                 Inl err \<Rightarrow> (s, 400, DashboardError (''invalid JSON: '' @ err))
               | Inr name \<Rightarrow>
                   if name = [] then (s, 400, DashboardError ''name is required for duplicate'')
                   else case dr_Duplicate (de_repo env) i name s of
                          (s, Inl err) \<Rightarrow> dashboard_failure err s
                        | (s, Inr d) \<Rightarrow>
                            if de_owner env = [] then (s, 201, OneDashboard d)
                            else case dr_Update (de_repo2 env) (da_ID d)
                                        (d\<lparr>da_Owner := de_owner env\<rparr>) s of
                                   (s, Inl _) \<Rightarrow> (s, 201, OneDashboard (dr_current (de_repo env) d s))
                                 | (s, Inr e) \<Rightarrow> (s, 201, OneDashboard e))"

definition getDashboardData :: "('s, 'j, 'r) DashboardEnv \<Rightarrow> string \<Rightarrow> string \<Rightarrow> 's \<Rightarrow> ('s, 'j) dashboard_answer" where
  "getDashboardData env meth i s =
     (if meth \<noteq> ''GET'' then (s, 405, DashboardPlain ''method not allowed'')
      else case dr_Get (de_repo env) i s of
        Inl err \<Rightarrow> (s, 404, DashboardError err)
      | Inr d \<Rightarrow>
          if \<not> canViewDashboard d (de_owner env) then access_denied s
          else (s, 200, DashboardDataBody (dashboard_data (de_now env) (de_state env) (de_incidents env) d)))"

definition handleDashboards :: "('s, 'j, 'r) DashboardEnv \<Rightarrow> string \<Rightarrow> 's \<Rightarrow> ('s, 'j) dashboard_answer" where
  "handleDashboards env meth s =
     (if meth = ''GET'' then (s, 200, Dashboards (dr_List (de_repo env) (de_owner env) s))
      else if meth = ''POST'' then createDashboard env s
      else (s, 405, DashboardPlain ''method not allowed''))"

definition handleDashboardByID :: "('s, 'j, 'r) DashboardEnv \<Rightarrow> string \<Rightarrow> string \<Rightarrow> 's \<Rightarrow> ('s, 'j) dashboard_answer" where
  "handleDashboardByID env meth path s =
     (let p = ''/api/v1/dashboards/'';
          parts = split_n (CHR ''/'') 2 (if has_prefix path p then drop (length p) path else path);
          i = hd parts
      in if i = [] then (s, 400, DashboardError ''dashboard ID required'')
         else if length parts > 1 \<and> parts ! 1 = ''data'' then getDashboardData env meth i s
         else if length parts > 1 \<and> parts ! 1 = ''duplicate'' then duplicateDashboard env meth i s
         else if meth = ''GET'' then getDashboard env i s
         else if meth = ''PUT'' then updateDashboard env i s
         else if meth = ''DELETE'' then deleteDashboard env i s
         else (s, 405, DashboardPlain ''method not allowed''))"

text \<open>The routes.\<close>

definition dashboard_request :: "('s, 'j, 'r) DashboardEnv \<Rightarrow> string \<Rightarrow> string \<Rightarrow> 's \<Rightarrow> ('s, 'j) dashboard_answer" where
  "dashboard_request env meth path s =
     (if path = ''/api/v1/dashboards'' then handleDashboards env meth s else handleDashboardByID env meth path s)"

section \<open>Other people's dashboards\<close>

text \<open>
  What a repository promises about one dashboard \<open>i\<close>: reading it gives what is there, and no call for another
  dashboard touches it, whatever the call answers. \<open>room s i\<close> says that a duplicate will not be given the ID
  \<open>i\<close>.
\<close>

locale dashboard_repository =
  fixes impl :: "('s, 'j) DashboardRepo \<Rightarrow> bool"
    and has :: "'s \<Rightarrow> string \<Rightarrow> 'j CustomDashboard \<Rightarrow> bool"
    and room :: "'s \<Rightarrow> string \<Rightarrow> bool"
  assumes gets: "impl R \<Longrightarrow> has s i d \<Longrightarrow> dr_Get R j s = Inr e \<Longrightarrow> da_ID e = j \<and> (j = i \<longrightarrow>
      da_Owner e = da_Owner d \<and> da_Visibility e = da_Visibility d)"
    and updates: "impl R \<Longrightarrow> has s i d \<Longrightarrow> j \<noteq> i \<Longrightarrow> dr_Update R j u s = (s', r) \<Longrightarrow>
      has s' i d \<and> (\<forall>e. r = Inr e \<longrightarrow> da_ID e = j)"
    and deletes: "impl R \<Longrightarrow> has s i d \<Longrightarrow> j \<noteq> i \<Longrightarrow> dr_Delete R j s = (s', err) \<Longrightarrow> has s' i d"
    and duplicates: "impl R \<Longrightarrow> has s i d \<Longrightarrow> room s i \<Longrightarrow> dr_Duplicate R j name s = (s', r) \<Longrightarrow>
      has s' i d \<and> (\<forall>e. r = Inr e \<longrightarrow> da_ID e \<noteq> i)"
    and current: "impl R \<Longrightarrow> has s i d \<Longrightarrow> da_ID e \<noteq> i \<Longrightarrow> da_ID (dr_current R e s) \<noteq> i"
    and lists: "impl R \<Longrightarrow> has s i d \<Longrightarrow> da_Visibility d = ''private'' \<Longrightarrow> owner \<noteq> [] \<Longrightarrow> owner \<noteq> da_Owner d \<Longrightarrow>
      e \<in> set (dr_List R owner s) \<Longrightarrow> da_ID e \<noteq> i"

text \<open>A repository that never gives out an ID that is taken, and puts nothing in the place of a dashboard.\<close>

locale guarded_dashboard_repository = dashboard_repository +
  assumes rooms: "has s i d \<Longrightarrow> room s i"
    and creates: "impl R \<Longrightarrow> has s i d \<Longrightarrow> dr_Create R e s = (s', r) \<Longrightarrow> has s' i d \<and> (\<forall>x. r = Inr x \<longrightarrow> da_ID x \<noteq> i)"

fun keeps_secret :: "string \<Rightarrow> 'j dashboard_body \<Rightarrow> bool" where
  "keeps_secret i (OneDashboard e) \<longleftrightarrow> da_ID e \<noteq> i"
| "keeps_secret i (DashboardDataBody x) \<longleftrightarrow> da_ID (dd_Dashboard x) \<noteq> i"
| "keeps_secret i (Dashboards ds) \<longleftrightarrow> (\<forall>e \<in> set ds. da_ID e \<noteq> i)"
| "keeps_secret i _ \<longleftrightarrow> True"

definition stranger :: "'j CustomDashboard \<Rightarrow> string \<Rightarrow> bool" where
  "stranger d owner \<longleftrightarrow> da_Owner d \<noteq> [] \<and> owner \<noteq> [] \<and> owner \<noteq> da_Owner d"

lemma stranger_may_not:
  assumes "stranger d owner" and "da_Owner e = da_Owner d" and "da_Visibility e = da_Visibility d"
  shows "\<not> canModifyDashboard e owner" "da_Visibility d = ''private'' \<Longrightarrow> \<not> canViewDashboard e owner"
  using assms by (auto simp: stranger_def canModifyDashboard_def canViewDashboard_def)

context dashboard_repository
begin

definition safe_answer :: "string \<Rightarrow> 'j CustomDashboard \<Rightarrow> ('s, 'j) dashboard_answer \<Rightarrow> bool" where
  "safe_answer i d a \<longleftrightarrow> has (fst a) i d \<and> (da_Visibility d = ''private'' \<longrightarrow> keeps_secret i (snd (snd a)))"

lemma safe_simple:
  "has s i d \<Longrightarrow> safe_answer i d (s, n, DashboardError msg)" "has s i d \<Longrightarrow> safe_answer i d (s, n, DashboardPlain msg)"
  "has s i d \<Longrightarrow> safe_answer i d (s, n, DashboardDeleted msg)"
  "has s i d \<Longrightarrow> safe_answer i d (access_denied s)" "has s i d \<Longrightarrow> safe_answer i d (dashboard_failure err s)"
  "has s i d \<Longrightarrow> da_ID e \<noteq> i \<Longrightarrow> safe_answer i d (s, n, OneDashboard e)"
  by (simp_all add: safe_answer_def access_denied_def dashboard_failure_def)

lemma safe_get:
  assumes "impl (de_repo env)" and "has s i d" and "stranger d (de_owner env)"
  shows "safe_answer i d (getDashboard env j s)"
proof (cases "dr_Get (de_repo env) j s")
  case (Inl err)
  then show ?thesis using assms(2) by (simp add: getDashboard_def safe_simple)
next
  case (Inr e)
  note g = gets [OF assms(1,2) Inr]
  show ?thesis
  proof (cases "canViewDashboard e (de_owner env)")
    case True
    then have "da_Visibility d = ''private'' \<longrightarrow> j \<noteq> i" using g stranger_may_not(2) [OF assms(3)] by blast
    then show ?thesis using assms(2) g by (auto simp: getDashboard_def Inr safe_answer_def access_denied_def)
  next
    case False
    then show ?thesis using assms(2) by (simp add: getDashboard_def Inr safe_simple)
  qed
qed

lemma safe_data:
  assumes "impl (de_repo env)" and "has s i d" and "stranger d (de_owner env)"
  shows "safe_answer i d (getDashboardData env m j s)"
proof (cases "m = ''GET'' \<and> (\<exists>e. dr_Get (de_repo env) j s = Inr e \<and> canViewDashboard e (de_owner env))")
  case False
  then show ?thesis using assms(2) by (auto simp: getDashboardData_def safe_simple split: sum.split)
next
  case True
  then obtain e where e: "dr_Get (de_repo env) j s = Inr e" "canViewDashboard e (de_owner env)" by blast
  then have "da_ID e = j" "da_Visibility d = ''private'' \<longrightarrow> j \<noteq> i"
    using gets [OF assms(1,2) e(1)] stranger_may_not(2) [OF assms(3)] by blast+
  then show ?thesis using True e assms(2)
    by (simp add: getDashboardData_def safe_answer_def dashboard_data_def Let_def)
qed

lemma safe_update:
  assumes "impl (de_repo env)" and "has s i d" and "stranger d (de_owner env)"
  shows "safe_answer i d (updateDashboard env j s)"
proof (cases "\<exists>e u. dr_Get (de_repo env) j s = Inr e \<and> canModifyDashboard e (de_owner env) \<and> de_body env = Inr u")
  case False
  then show ?thesis using assms(2) by (auto simp: updateDashboard_def safe_simple split: sum.split)
next
  case True
  then obtain e u where e: "dr_Get (de_repo env) j s = Inr e" "canModifyDashboard e (de_owner env)" "de_body env = Inr u" by blast
  then have j: "j \<noteq> i" using gets [OF assms(1,2) e(1)] stranger_may_not(1) [OF assms(3)] by blast
  obtain t r where t: "dr_Update (de_repo env) j (u\<lparr>da_Owner := da_Owner e\<rparr>) s = (t, r)" by fastforce
  from updates [OF assms(1,2) j t] j show ?thesis
    by (cases r) (simp_all add: updateDashboard_def e t safe_simple)
qed

lemma safe_delete:
  assumes "impl (de_repo env)" and "has s i d" and "stranger d (de_owner env)"
  shows "safe_answer i d (deleteDashboard env j s)"
proof (cases "\<exists>e. dr_Get (de_repo env) j s = Inr e \<and> canModifyDashboard e (de_owner env)")
  case False
  then show ?thesis using assms(2) by (auto simp: deleteDashboard_def safe_simple split: sum.split)
next
  case True
  then obtain e where e: "dr_Get (de_repo env) j s = Inr e" "canModifyDashboard e (de_owner env)" by blast
  then have j: "j \<noteq> i" using gets [OF assms(1,2) e(1)] stranger_may_not(1) [OF assms(3)] by blast
  obtain t r where t: "dr_Delete (de_repo env) j s = (t, r)" by fastforce
  from deletes [OF assms(1,2) j t] show ?thesis
    by (cases r) (simp_all add: deleteDashboard_def e t safe_simple)
qed

lemma safe_duplicate:
  assumes "impl (de_repo env)" and "impl (de_repo2 env)" and "has s i d" and "room s i"
  shows "safe_answer i d (duplicateDashboard env m j s)"
proof (cases "\<exists>e name. m = ''POST'' \<and> dr_Get (de_repo env) j s = Inr e \<and> canViewDashboard e (de_owner env) \<and>
    de_name env = Inr name \<and> name \<noteq> []")
  case False
  then show ?thesis using assms(3) by (auto simp: duplicateDashboard_def safe_simple split: sum.split)
next
  case True
  then obtain e name where e: "m = ''POST''" "dr_Get (de_repo env) j s = Inr e" "canViewDashboard e (de_owner env)"
    "de_name env = Inr name" "name \<noteq> []" by blast
  obtain t r where t: "dr_Duplicate (de_repo env) j name s = (t, r)" by fastforce
  note dup = duplicates [OF assms(1,3,4) t]
  show ?thesis
  proof (cases r)
    case (Inl err)
    then show ?thesis using dup by (simp add: duplicateDashboard_def e t safe_simple)
  next
    case (Inr x)
    then have x: "da_ID x \<noteq> i" and ti: "has t i d" using dup by simp_all
    obtain v q where v: "dr_Update (de_repo2 env) (da_ID x) (x\<lparr>da_Owner := de_owner env\<rparr>) t = (v, q)" by fastforce
    from updates [OF assms(2) ti x v] have vi: "has v i d" "\<And>y. q = Inr y \<Longrightarrow> da_ID y \<noteq> i" using x by auto
    show ?thesis
      using ti x vi current [OF assms(1) vi(1) x] by (cases q) (simp_all add: duplicateDashboard_def e t Inr v safe_simple)
  qed
qed

lemma safe_by_ID:
  assumes "impl (de_repo env)" and "impl (de_repo2 env)" and "has s i d" and "stranger d (de_owner env)" and "room s i"
  shows "safe_answer i d (handleDashboardByID env meth path s)"
  using assms
  by (simp add: handleDashboardByID_def Let_def safe_get safe_data safe_update safe_delete safe_duplicate safe_simple)

end

context guarded_dashboard_repository
begin

lemma safe_create:
  assumes "impl (de_repo env)" and "has s i d"
  shows "safe_answer i d (createDashboard env s)"
proof (cases "de_body env")
  case (Inl err)
  then show ?thesis using assms(2) by (simp add: createDashboard_def safe_simple)
next
  case (Inr req)
  obtain t r where t: "dr_Create (de_repo env) (req\<lparr>da_Owner := de_owner env\<rparr>) s = (t, r)" by fastforce
  from creates [OF assms t] show ?thesis
    using assms(2) by (cases r) (simp_all add: createDashboard_def Inr t safe_simple)
qed

lemma safe_request:
  assumes "impl (de_repo env)" and "impl (de_repo2 env)" and "has s i d" and "stranger d (de_owner env)"
  shows "safe_answer i d (dashboard_request env meth path s)"
proof -
  have "safe_answer i d (s, 200, Dashboards (dr_List (de_repo env) (de_owner env) s))"
    using assms lists [OF assms(1,3)] by (auto simp: safe_answer_def stranger_def)
  then show ?thesis
    using safe_by_ID [OF assms rooms [OF assms(3)]] safe_create [OF assms(1,3)] assms(3)
    by (simp add: dashboard_request_def handleDashboards_def safe_simple)
qed

end


section \<open>MongoDB keeps the promises\<close>

lemma keyed_modify:
  assumes "coll_ok conflict docs C" and "cl_modify C (with_key key j) f any_order True w = (w', a)" and "holds key m (docs w)"
    and "\<And>x. key (f x) = key x" and "i \<noteq> j" and "m i = Some d"
  shows "(\<exists>m'. holds key m' (docs w') \<and> m' i = Some d) \<and> (\<forall>x. a = Inr (Some x) \<longrightarrow> key x = j)"
proof -
  have change: "\<exists>m'. holds key m' M' \<and> m' i = Some d"
    if "first_of (with_key key j) any_order (docs w) x" and "M' = add_mset (f x) (docs w - {#x#})" for x M'
  proof -
    have x: "m j = Some x" "key x = j" using that(1) holds_Some [OF assms(3)] by (simp_all add: first_of_def with_key_def)
    have "holds key (m(j \<mapsto> f x)) M'" using holds_change [OF assms(3) x(1)] assms(4) x(2) that(2) by simp
    then show ?thesis using assms(5,6) by (intro exI [of _ "m(j \<mapsto> f x)"]) simp
  qed
  have same: "\<exists>m'. holds key m' M' \<and> m' i = Some d" if "M' = docs w" for M'
    using that assms(3,6) by blast
  have key: "key (f x) = j" if "first_of (with_key key j) any_order (docs w) x" for x
    using that assms(4) by (simp add: first_of_def with_key_def)
  from coll_modify [OF assms(1) preorder_orders(1) assms(2)] show ?thesis
    by (auto split: sum.splits option.splits intro: same change simp: key)
qed

definition mongo_has :: "('w \<Rightarrow> 'j CustomDashboard multiset) \<Rightarrow> 'w \<Rightarrow> string \<Rightarrow> 'j CustomDashboard \<Rightarrow> bool" where
  "mongo_has docs w i d \<longleftrightarrow> (\<exists>m. holds da_ID m (docs w) \<and> m i = Some d)"

definition mongo_impl :: "('w \<Rightarrow> 'j CustomDashboard multiset) \<Rightarrow> ('w, 'j) DashboardRepo \<Rightarrow> bool" where
  "mongo_impl docs R \<longleftrightarrow> (\<exists>cfg C now. coll_ok (same_key da_ID) docs C \<and> R = mongo_dashboards cfg C now)"

lemma mongo_shapes [simp]:
  "da_ID (fromMongoDashboard d) = da_ID d" "da_Owner (fromMongoDashboard d) = da_Owner d"
  "da_Visibility (fromMongoDashboard d) = da_Visibility d"
  "da_ID (toMongoDashboard cfg d) = da_ID d" "da_ID (set_fields cfg now u d) = da_ID d"
  by (simp_all add: fromMongoDashboard_def toMongoDashboard_def set_fields_def)

lemma mongo_insert:
  assumes "coll_ok (same_key da_ID) docs C" and "cl_insert C (toMongoDashboard cfg e) w = (w', a)" and "mongo_has docs w i d"
  shows "mongo_has docs w' i d \<and> (a = DocInserted \<longrightarrow> da_ID e \<noteq> i)"
proof -
  obtain m where m: "holds da_ID m (docs w)" "m i = Some d" using assms(3) by (auto simp: mongo_has_def)
  from keyed_insert [OF assms(1,2) m(1)]
  have a: "holds da_ID m (docs w') \<or> m (da_ID e) = None \<and> holds da_ID (m(da_ID e \<mapsto> toMongoDashboard cfg e)) (docs w')"
    "a = DocInserted \<longrightarrow> m (da_ID e) = None"
    by (cases a; simp)+
  have "m (da_ID e) = None \<Longrightarrow> (m(da_ID e \<mapsto> toMongoDashboard cfg e)) i = Some d" using m(2) by auto
  with a(1) m(2) have "mongo_has docs w' i d" unfolding mongo_has_def by metis
  then show ?thesis using a(2) m(2) by auto
qed

lemma mongo_get:
  assumes "coll_ok (same_key da_ID) docs C" and "mongo_has docs w i d" and "md_Get C j w = Inr e"
  shows "da_ID e = j \<and> (j = i \<longrightarrow> da_Owner e = da_Owner d \<and> da_Visibility e = da_Visibility d)"
proof -
  obtain m where m: "holds da_ID m (docs w)" "m i = Some d" using assms(2) by (auto simp: mongo_has_def)
  obtain x where x: "cl_find_one C (with_key da_ID j) any_order w = Inr (Some x)" "e = fromMongoDashboard x"
    using assms(3) by (auto simp: md_Get_def split: sum.splits option.splits)
  have "m j = Some x" using keyed_find_one [OF assms(1) x(1) _ m(1)] by simp
  then show ?thesis using m x(2) holds_key [OF m(1)] by auto
qed

lemma mongo_update:
  assumes "coll_ok (same_key da_ID) docs C" and "mongo_has docs w i d" and "j \<noteq> i" and "md_Update cfg C now j u w = (w', r)"
  shows "mongo_has docs w' i d \<and> (\<forall>e. r = Inr e \<longrightarrow> da_ID e = j)"
proof -
  obtain m where m: "holds da_ID m (docs w)" "m i = Some d" using assms(2) by (auto simp: mongo_has_def)
  obtain v a where a: "cl_modify C (with_key da_ID j) (set_fields cfg now u) any_order True w = (v, a)" by fastforce
  have "v = w'" and "\<And>e. r = Inr e \<Longrightarrow> \<exists>x. a = Inr (Some x) \<and> e = fromMongoDashboard x"
    using assms(4) by (auto simp: md_Update_def a split: sum.splits option.splits)
  then show ?thesis
    using keyed_modify [OF assms(1) a m(1) _ _ m(2)] assms(3) unfolding mongo_has_def by fastforce
qed

lemma mongo_delete:
  assumes "coll_ok (same_key da_ID) docs C" and "mongo_has docs w i d" and "j \<noteq> i" and "md_Delete C j w = (w', err)"
  shows "mongo_has docs w' i d"
proof -
  obtain m where m: "holds da_ID m (docs w)" "m i = Some d" using assms(2) by (auto simp: mongo_has_def)
  obtain v a where a: "cl_delete_one C (with_key da_ID j) w = (v, a)" by fastforce
  have "v = w'" using assms(4) by (auto simp: md_Delete_def a split: sum.splits)
  moreover have "(m(j := None)) i = Some d" using m(2) assms(3) by simp
  ultimately show ?thesis
    using keyed_delete [OF assms(1) a m(1)] m unfolding mongo_has_def by (cases a) auto
qed

lemma mongo_create:
  assumes "coll_ok (same_key da_ID) docs C" and "mongo_has docs w i d" and "md_Create cfg C now e w = (w', r)"
  shows "mongo_has docs w' i d \<and> (\<forall>x. r = Inr x \<longrightarrow> da_ID x \<noteq> i)"
proof (cases "da_Name e = []")
  case True
  then show ?thesis using assms(2,3) by (auto simp: md_Create_def)
next
  case False
  obtain x where x: "md_Create cfg C now e w = (case cl_insert C (toMongoDashboard cfg x) w of
             (w, DocInserted) \<Rightarrow> (w, Inr x)
           | (w, DocDuplicate) \<Rightarrow> (w, Inl ''insert dashboard: E11000 duplicate key error'')
           | (w, DocFailed err) \<Rightarrow> (w, Inl (''insert dashboard: '' @ err)))"
    using False unfolding md_Create_def Let_def if_not_P [OF False] by blast
  obtain v a where a: "cl_insert C (toMongoDashboard cfg x) w = (v, a)" by fastforce
  from mongo_insert [OF assms(1) a assms(2)] assms(3) show ?thesis by (cases a) (auto simp: x a)
qed

lemma mongo_duplicate:
  assumes "coll_ok (same_key da_ID) docs C" and "mongo_has docs w i d" and "md_Duplicate cfg C now j name w = (w', r)"
  shows "mongo_has docs w' i d \<and> (\<forall>x. r = Inr x \<longrightarrow> da_ID x \<noteq> i)"
proof (cases "\<exists>y. cl_find_one C (with_key da_ID j) any_order w = Inr (Some y)")
  case False
  then show ?thesis using assms(2,3) by (auto simp: md_Duplicate_def split: sum.splits option.splits)
next
  case True
  then obtain y where y: "cl_find_one C (with_key da_ID j) any_order w = Inr (Some y)" by blast
  define x where "x = y\<lparr>da_ID := dashboard_time_id now, da_Name := name, da_IsDefault := False, da_CreatedAt := now, da_UpdatedAt := now\<rparr>"
  obtain v a where a: "cl_insert C (toMongoDashboard cfg x) w = (v, a)" by fastforce
  note a' = a [unfolded x_def]
  have dup: "md_Duplicate cfg C now j name w = (case a of DocInserted \<Rightarrow> (v, Inr (fromMongoDashboard x))
      | DocDuplicate \<Rightarrow> (v, Inl ''insert duplicated dashboard: E11000 duplicate key error'')
      | DocFailed err \<Rightarrow> (v, Inl (''insert duplicated dashboard: '' @ err)))"
    unfolding md_Duplicate_def y sum.case option.case Let_def a' prod.case x_def by (cases a) simp_all
  have "w' = v \<and> (\<forall>e. r = Inr e \<longrightarrow> a = DocInserted \<and> da_ID e = da_ID x)"
    using trans [OF dup [symmetric] assms(3)] by (cases a; simp only: insert_answer.case prod.inject) (metis mongo_shapes(1) sum.inject(2) sum.distinct(1))+
  with mongo_insert [OF assms(1) a assms(2)] show ?thesis by metis
qed

lemma mongo_list:
  assumes "coll_ok (same_key da_ID) docs C" and "mongo_has docs w i d" and "da_Visibility d = ''private''"
    and "owner \<noteq> []" and "owner \<noteq> da_Owner d" and "e \<in> set (md_List C owner w)"
  shows "da_ID e \<noteq> i"
proof
  assume i: "da_ID e = i"
  obtain m where m: "holds da_ID m (docs w)" "m i = Some d" using assms(2) by (auto simp: mongo_has_def)
  obtain ds x where ds: "cl_find C (listed owner) (newest da_CreatedAt) 0 None w = Inr ds" "x \<in> set ds" "e = fromMongoDashboard x"
    using assms(6) by (cases "cl_find C (listed owner) (newest da_CreatedAt) 0 None w") (auto simp: md_List_def)
  then have "m (da_ID x) = Some x \<and> listed owner x"
    using keyed_find [OF assms(1) ds(1) preorder_orders(2) m(1)] by blast
  then have "listed owner d" using i ds(3) m(2) by simp
  then show False using assms(3-5) by (simp add: listed_def)
qed

interpretation md: guarded_dashboard_repository "mongo_impl docs" "mongo_has docs" "\<lambda>w i. True" for docs
proof unfold_locales
  fix R :: "('a, 'b) DashboardRepo" and s i d
  assume impl: "mongo_impl docs R" and has: "mongo_has docs s i d"
  obtain cfg C now where C: "coll_ok (same_key da_ID) docs C" and R: "R = mongo_dashboards cfg C now"
    using impl by (auto simp: mongo_impl_def)
  note r = R mongo_dashboards_def DashboardRepo.simps
  show "da_ID e = j \<and> (j = i \<longrightarrow> da_Owner e = da_Owner d \<and> da_Visibility e = da_Visibility d)"
    if "dr_Get R j s = Inr e" for j e using mongo_get [OF C has] that unfolding r by blast
  show "mongo_has docs s' i d \<and> (\<forall>e. a = Inr e \<longrightarrow> da_ID e = j)" if "j \<noteq> i" "dr_Update R j u s = (s', a)" for j u s' a
    using mongo_update [OF C has that(1)] that(2) unfolding r by blast
  show "mongo_has docs s' i d" if "j \<noteq> i" "dr_Delete R j s = (s', err)" for j s' err
    using mongo_delete [OF C has that(1)] that(2) unfolding r by blast
  show "mongo_has docs s' i d \<and> (\<forall>e. a = Inr e \<longrightarrow> da_ID e \<noteq> i)" if "dr_Duplicate R j name s = (s', a)" for j name s' a
    using mongo_duplicate [OF C has] that unfolding r by blast
  show "da_ID (dr_current R e s) \<noteq> i" if "da_ID e \<noteq> i" for e using that by (simp add: r)
  show "da_ID e \<noteq> i" if "da_Visibility d = ''private''" "owner \<noteq> []" "owner \<noteq> da_Owner d" "e \<in> set (dr_List R owner s)" for owner e
    using mongo_list [OF C has that(1-3)] that(4) unfolding r by blast
  show "mongo_has docs s' i d \<and> (\<forall>x. a = Inr x \<longrightarrow> da_ID x \<noteq> i)" if "dr_Create R e s = (s', a)" for e s' a
    using mongo_create [OF C has] that unfolding r by blast
qed simp


definition blank :: "string \<Rightarrow> string \<Rightarrow> unit CustomDashboard" where
  "blank i owner = \<lparr>da_ID = i, da_Name = ''board'', da_Description = [], da_Owner = owner, da_IsDefault = False,
     da_Visibility = ''private'', da_CheckIDs = None, da_Tags = None, da_Servers = None, da_Widgets = Some [], da_RefreshSec = 0,
     da_CreatedAt = 0, da_UpdatedAt = 0\<rparr>"

definition bob :: "('s, unit) DashboardRepo \<Rightarrow> ('s, unit, unit) DashboardEnv" where
  "bob R = \<lparr>de_owner = ''bob'', de_repo = R, de_repo2 = R, de_now = 7, de_body = Inr (blank ''dash-1'' ''bob''),
     de_name = Inr ''mine'', de_state = empty_state, de_incidents = None\<rparr>"

definition anns :: "unit CustomDashboard list" where
  "anns = [blank ''dash-1'' ''ann'']"

definition bobs_request :: "unit CustomDashboard list \<times> int \<times> unit dashboard_body" where
  "bobs_request = dashboard_request (bob (mongo_dashboards id (list_collection (same_key da_ID)) 7)) ''POST'' ''/api/v1/dashboards'' anns"


section \<open>The file store does not\<close>

definition stored :: "'j DashboardStore \<Rightarrow> string \<rightharpoonup> 'j CustomDashboard" where
  "stored s = map_of (dst_dashboards s)"

lemma stored_save [simp]: "stored (fst (dst_save ord w s)) = stored s"
  by (cases w) (simp_all add: dst_save_def stored_def)

lemma save_dashboards: "dst_save ord w s = (s', e) \<Longrightarrow> dst_dashboards s' = dst_dashboards s"
  by (cases w) (auto simp: dst_save_def)

lemma delete_map: "map_of (AList.delete k m) = (map_of m)(k := None)"
  by (rule ext) (simp add: delete_conv')

lemma stored_put:
  "i \<noteq> da_ID d \<Longrightarrow> stored (fst (dst_put ord w d s)) i = stored s i"
  by (auto simp: dst_put_def stored_def delete_map update_conv' dest!: save_dashboards split: prod.splits option.splits)

lemma stored_Create:
  "i \<noteq> (if da_ID d = [] then fresh_dashboard_id s else da_ID d) \<Longrightarrow> stored (fst (dst_Create ord w now d s)) i = stored s i"
  by (auto simp: dst_Create_def Let_def stored_put) (simp_all add: stored_def)

lemma stored_Update: "i \<noteq> j \<Longrightarrow> stored (fst (dst_Update ord w now j u s)) i = stored s i"
  by (auto simp: dst_Update_def stored_def update_conv' Let_def dest!: save_dashboards split: prod.splits option.splits)

lemma stored_Delete:
  assumes "i \<noteq> j"
  shows "stored (fst (dst_Delete ord w j s)) i = stored s i"
proof (cases "map_of (dst_dashboards s) j")
  case (Some d)
  have "stored (fst (dst_Delete ord w j s)) = stored (s\<lparr>dst_dashboards := AList.delete j (dst_dashboards s)\<rparr>)"
    by (simp add: dst_Delete_def Some)
  then show ?thesis using assms by (simp add: stored_def delete_map)
qed (simp add: dst_Delete_def)

lemma Duplicate_ID: "dst_Duplicate ord w now j name s = (s', Inr d) \<Longrightarrow> da_ID d = fresh_dashboard_id s"
  by (auto simp: dst_Duplicate_def dst_put_def Let_def split: option.splits prod.splits)

lemma stored_Duplicate:
  assumes "i \<noteq> fresh_dashboard_id s"
  shows "stored (fst (dst_Duplicate ord w now j name s)) i = stored s i"
  using assms by (auto simp: dst_Duplicate_def Let_def stored_put split: option.splits) (simp add: stored_def)

definition keys_ok :: "'j DashboardStore \<Rightarrow> bool" where
  "keys_ok s \<longleftrightarrow> distinct (map fst (dst_dashboards s)) \<and> (\<forall>j e. stored s j = Some e \<longrightarrow> da_ID e = j)"

definition file_has :: "'j DashboardStore \<Rightarrow> string \<Rightarrow> 'j CustomDashboard \<Rightarrow> bool" where
  "file_has s i d \<longleftrightarrow> keys_ok s \<and> stored s i = Some d"

definition file_impl :: "('j DashboardStore, 'j) DashboardRepo \<Rightarrow> bool" where
  "file_impl R \<longleftrightarrow> (\<exists>ord w now. R = file_dashboards ord w now)"

lemma keys_upd: "keys_ok s \<Longrightarrow> dst_dashboards s' = AList.update (da_ID d) d (dst_dashboards s) \<Longrightarrow> keys_ok s'"
  by (simp add: keys_ok_def stored_def update_conv' distinct_update)

lemma keys_del: "keys_ok s \<Longrightarrow> dst_dashboards s' = AList.delete j (dst_dashboards s) \<Longrightarrow> keys_ok s'"
  by (simp add: keys_ok_def stored_def delete_map AList.delete_eq distinct_map_filter)

lemma put_shape:
  assumes "dst_put ord w d s = (s', r)"
  shows "dst_dashboards s' = AList.update (da_ID d) d (dst_dashboards s) \<and> r = Inr d \<or>
    dst_dashboards s' = AList.delete (da_ID d) (AList.update (da_ID d) d (dst_dashboards s)) \<and> (\<exists>e. r = Inl e)"
  using assms by (auto simp: dst_put_def dest!: save_dashboards split: prod.splits option.splits)

lemma file_put:
  assumes "file_has s i d" and "dst_put ord w e s = (s', r)" and "da_ID e \<noteq> i"
  shows "file_has s' i d \<and> (\<forall>x. r = Inr x \<longrightarrow> x = e)"
proof -
  let ?t = "s\<lparr>dst_dashboards := AList.update (da_ID e) e (dst_dashboards s)\<rparr>"
  have t: "keys_ok ?t" by (rule keys_upd [of s _ e]) (use assms(1) in \<open>simp_all add: file_has_def\<close>)
  have "keys_ok s'" using put_shape [OF assms(2)] keys_upd [of s s' e] keys_del [OF t, of s' "da_ID e"] assms(1)
    by (auto simp: file_has_def)
  moreover have "stored s' i = Some d"
    using put_shape [OF assms(2)] assms(1,3) by (auto simp: file_has_def stored_def update_conv' delete_map)
  ultimately show ?thesis using put_shape [OF assms(2)] by (auto simp: file_has_def)
qed

lemma file_Update:
  assumes "file_has s i d" and "j \<noteq> i" and "dst_Update ord w now j u s = (s', r)"
  shows "file_has s' i d \<and> (\<forall>e. r = Inr e \<longrightarrow> da_ID e = j)"
proof (cases "map_of (dst_dashboards s) j")
  case None
  then show ?thesis using assms by (auto simp: dst_Update_def)
next
  case (Some x)
  then have x: "da_ID (updated_dashboard now u x) = j" using assms(1) by (simp add: updated_dashboard_def file_has_def keys_ok_def stored_def)
  obtain t e where t: "dst_save ord w (s\<lparr>dst_dashboards := AList.update j (updated_dashboard now u x) (dst_dashboards s)\<rparr>) = (t, e)" by fastforce
  then have d: "dst_dashboards t = AList.update j (updated_dashboard now u x) (dst_dashboards s)" by (simp add: save_dashboards)
  have "s' = t" "\<And>e. r = Inr e \<Longrightarrow> e = updated_dashboard now u x"
    using assms(3) by (auto simp: dst_Update_def Some t Let_def split: option.splits)
  moreover have "keys_ok t" using keys_upd [of s t "updated_dashboard now u x"] assms(1) d x by (simp add: file_has_def)
  moreover have "stored t i = Some d" using assms(1,2) d by (simp add: file_has_def stored_def update_conv')
  ultimately show ?thesis using x by (auto simp: file_has_def)
qed

lemma file_Delete:
  assumes "file_has s i d" and "j \<noteq> i" and "dst_Delete ord w j s = (s', err)"
  shows "file_has s' i d"
proof (cases "map_of (dst_dashboards s) j")
  case None
  then show ?thesis using assms by (auto simp: dst_Delete_def)
next
  case (Some x)
  then have "dst_dashboards s' = AList.delete j (dst_dashboards s)"
    using assms(3) by (auto simp: dst_Delete_def dest!: save_dashboards)
  then show ?thesis using keys_del [of s s' j] assms(1,2) by (simp add: file_has_def stored_def delete_map)
qed

lemma file_Duplicate:
  assumes "file_has s i d" and "i \<noteq> fresh_dashboard_id s" and "dst_Duplicate ord w now j name s = (s', r)"
  shows "file_has s' i d \<and> (\<forall>e. r = Inr e \<longrightarrow> da_ID e \<noteq> i)"
proof (cases "map_of (dst_dashboards s) j")
  case None
  then show ?thesis using assms by (auto simp: dst_Duplicate_def)
next
  case (Some x)
  let ?e = "x\<lparr>da_ID := fresh_dashboard_id s, da_Name := name, da_IsDefault := False, da_CreatedAt := now, da_UpdatedAt := now\<rparr>"
  have p: "dst_put ord w ?e (s\<lparr>dst_nextID := dst_nextID s + 1\<rparr>) = (s', r)"
    using assms(3) by (simp add: dst_Duplicate_def Some Let_def)
  have "file_has (s\<lparr>dst_nextID := dst_nextID s + 1\<rparr>) i d" using assms(1) by (simp add: file_has_def keys_ok_def stored_def)
  from file_put [OF this p] assms(2) have "file_has s' i d" "\<forall>x. r = Inr x \<longrightarrow> x = ?e" by simp_all
  then show ?thesis using assms(2) by (cases r) simp_all
qed

lemma file_list:
  assumes "file_has s i d" and "da_Visibility d = ''private''" and "owner \<noteq> []" and "owner \<noteq> da_Owner d" and "e \<in> set (dst_List ord owner s)"
  shows "da_ID e \<noteq> i"
proof
  assume i: "da_ID e = i"
  have "e \<in> snd ` set (dst_dashboards s)" and l: "owner = [] \<or> da_Owner e = owner \<or> da_Visibility e = ''public'' \<or> da_Visibility e = ''team''"
    using assms(5) by (auto simp: dst_List_def)
  then obtain j where "(j, e) \<in> set (dst_dashboards s)" by auto
  moreover have "distinct (map fst (dst_dashboards s))" using assms(1) by (simp add: file_has_def keys_ok_def)
  ultimately have "stored s j = Some e" by (simp add: stored_def)
  then have "e = d" using assms(1) i by (auto simp: file_has_def keys_ok_def)
  then show False using l assms(2-4) by simp
qed

interpretation fdb: dashboard_repository file_impl file_has "\<lambda>s i. i \<noteq> fresh_dashboard_id s"
proof unfold_locales
  fix R :: "('a DashboardStore, 'a) DashboardRepo" and s :: "'a DashboardStore" and i d
  assume impl: "file_impl R" and has: "file_has s i d"
  obtain ord w now where R: "R = file_dashboards ord w now" using impl by (auto simp: file_impl_def)
  note r = R file_dashboards_def DashboardRepo.simps
  show "da_ID e = j \<and> (j = i \<longrightarrow> da_Owner e = da_Owner d \<and> da_Visibility e = da_Visibility d)"
    if "dr_Get R j s = Inr e" for j e
  proof -
    have "stored s j = Some e" using that unfolding r by (simp add: dst_Get_def stored_def split: option.splits)
    then show ?thesis using has by (auto simp: file_has_def keys_ok_def simp del: map_of_eq_Some_iff)
  qed
  show "file_has s' i d \<and> (\<forall>e. a = Inr e \<longrightarrow> da_ID e = j)" if "j \<noteq> i" "dr_Update R j u s = (s', a)" for j u s' a
    using file_Update [OF has that(1)] that(2) unfolding r by blast
  show "file_has s' i d" if "j \<noteq> i" "dr_Delete R j s = (s', err)" for j s' err
    using file_Delete [OF has that(1)] that(2) unfolding r by blast
  show "file_has s' i d \<and> (\<forall>e. a = Inr e \<longrightarrow> da_ID e \<noteq> i)"
    if "i \<noteq> fresh_dashboard_id s" "dr_Duplicate R j name s = (s', a)" for j name s' a
    using file_Duplicate [OF has that(1)] that(2) unfolding r by blast
  show "da_ID (dr_current R e s) \<noteq> i" if "da_ID e \<noteq> i" for e
    using has that by (auto simp: r stored_dashboard_def file_has_def keys_ok_def stored_def split: option.split)
  show "da_ID e \<noteq> i" if "da_Visibility d = ''private''" "owner \<noteq> []" "owner \<noteq> da_Owner d" "e \<in> set (dr_List R owner s)" for owner e
    using file_list [OF has that(1-3)] that(4) unfolding r by blast
qed

text \<open>With the file store requests to existing dashboards are safe but for a duplicate that is given the ID of the dashboard.\<close>

lemma dashboards_in_files:
  assumes "file_has s i d" and "stranger d (de_owner env)" and "i \<noteq> fresh_dashboard_id s"
    and "de_repo env = file_dashboards ord w now" and "de_repo2 env = file_dashboards ord w2 now2"
  shows "fdb.safe_answer i d (handleDashboardByID env meth path s)"
proof -
  have "file_impl (de_repo env)" "file_impl (de_repo2 env)" using assms(4,5) unfolding file_impl_def by blast+
  then show ?thesis using assms(1-3) by (rule fdb.safe_by_ID)
qed

definition anns_store :: "unit DashboardStore" where
  "anns_store = \<lparr>dst_dashboards = [(''dash-1'', blank ''dash-1'' ''ann'')], dst_nextID = 2, dst_file = SavedDashboards [blank ''dash-1'' ''ann'']\<rparr>"

text \<open>
  Creating is not guarded there: a new dashboard whose ID the caller chooses replaces the one with that ID, whoever
  owns it, and if the file cannot be written the old one is gone all the same. After a restart a duplicate can
  be given an ID that is in use.
\<close>

lemma create_takes_over:
  "map_option da_Owner (stored (fst (createDashboard (bob (file_dashboards id Written 7)) anns_store)) ''dash-1'') = Some ''bob''"
  "stored (fst (createDashboard (bob (file_dashboards id (Not_opened ''disk full'') 7)) anns_store)) ''dash-1'' = None"
  by code_simp+

lemma duplicate_takes_over:
  "(case NewCustomDashboardStore (SavedDashboards [blank ''dash-2'' ''ann'', blank ''dash-3'' ''bob'']) of
      Inr s \<Rightarrow> map_option da_Owner (stored (fst (duplicateDashboard (bob (file_dashboards id Written 7)) ''POST'' ''dash-3'' s)) ''dash-3'')
    | Inl _ \<Rightarrow> None) = Some ''bob''"
  by code_simp

end
