(* ===== verification/Degraded.thy ===== *)
theory Degraded
  imports MongoIncidents Auth
begin

text \<open>
  Degraded mode (\<open>degraded_mode.go\<close>): a watchdog on the database connection that opens and resolves an
  incident of its own, and the middleware that refuses writes to the configuration while the database is
  away. The outcome of each health check and its time are arguments; what the watchdog logs is left out,
  and the ticker is the list of its checks. \<open>rfc3339\<close> formats a time. What holds of the status and the middleware
  holds whatever becomes of the incidents; the last sections show what becomes of the incident on a repository
  that works, and on the database that is down.
\<close>

section \<open>The watchdog\<close>

record DegradedStatus =
  dg_Healthy :: bool
  dg_DegradedSince :: gotime
  dg_LastError :: string

record 'r DegradedMode =
  dm_status :: DegradedStatus
  dm_incidents :: "'r IncidentManager option"

definition NewDegradedMode :: "'r IncidentManager option \<Rightarrow> 'r DegradedMode" where
  "NewDegradedMode im = \<lparr>dm_status = \<lparr>dg_Healthy = True, dg_DegradedSince = zero_time, dg_LastError = []\<rparr>, dm_incidents = im\<rparr>"

definition dm_SetIncidentManager :: "'r IncidentManager option \<Rightarrow> 'r DegradedMode \<Rightarrow> 'r DegradedMode" where
  "dm_SetIncidentManager im dm = dm\<lparr>dm_incidents := im\<rparr>"

definition database_alert :: "(gotime \<Rightarrow> string) \<Rightarrow> gotime \<Rightarrow> string \<Rightarrow> AlertInput" where
  "database_alert rfc3339 since err = \<lparr>in_checkID = ''database'', in_checkName = ''Database Connectivity'', in_checkType = ''system'',
     in_severity = ''critical'', in_message = ''Database unavailable: '' @ err,
     in_metadata = [(''degradedSince'', rfc3339 since), (''error'', err)]\<rparr>"

definition runHealthCheck ::
  "(gotime \<Rightarrow> string) \<Rightarrow> 'r IncidentRepo \<Rightarrow> gotime \<Rightarrow> string option \<Rightarrow> 'r DegradedMode \<Rightarrow> 'r DegradedMode" where
  "runHealthCheck rfc3339 repo now result dm =
     (case result of
        Some err \<Rightarrow>
          if dg_Healthy (dm_status dm) then
            dm\<lparr>dm_status := \<lparr>dg_Healthy = False, dg_DegradedSince = now, dg_LastError = err\<rparr>,
               dm_incidents := map_option (\<lambda>im. fst (ProcessAlert repo now (database_alert rfc3339 now err) im)) (dm_incidents dm)\<rparr>
          else dm
      | None \<Rightarrow>
          let dm = (if \<not> dg_Healthy (dm_status dm)
                    then dm\<lparr>dm_status := \<lparr>dg_Healthy = True, dg_DegradedSince = zero_time, dg_LastError = []\<rparr>\<rparr> else dm)
          in dm\<lparr>dm_incidents := map_option (\<lambda>im. fst (AutoResolveOnRecovery repo now ''database'' im)) (dm_incidents dm)\<rparr>)"

definition IsDegraded :: "'r DegradedMode \<Rightarrow> bool" where
  "IsDegraded dm \<longleftrightarrow> \<not> dg_Healthy (dm_status dm)"

definition GetStatus :: "'r DegradedMode \<Rightarrow> DegradedStatus" where
  "GetStatus dm = dm_status dm"

section \<open>The middleware\<close>

definition protectedPaths :: "string list" where
  "protectedPaths = [''/api/v1/checks'', ''/api/v1/config'', ''/api/v1/servers'', ''/api/v1/users'',
     ''/api/v1/notification-channels'', ''/api/v1/alert-rules'', ''/api/v1/ai/config'']"

definition isProtectedEndpoint :: "string \<Rightarrow> bool" where
  "isProtectedEndpoint path \<longleftrightarrow>
     list_ex (\<lambda>prefix. path = prefix \<or> (length path > length prefix \<and> take (length prefix + 1) path = prefix @ ''/'')) protectedPaths"

definition isWriteMethod :: "string \<Rightarrow> bool" where
  "isWriteMethod m \<longleftrightarrow> m = ''POST'' \<or> m = ''PUT'' \<or> m = ''DELETE'' \<or> m = ''PATCH''"

text \<open>The answer of the middleware itself, or that of the handlers behind it (\<open>None\<close>).\<close>

definition respondDegraded :: "int \<times> string" where
  "respondDegraded = (503, ''System is in degraded mode. Database unavailable. Read-only mode.'')"

definition degradedMiddleware :: "'r DegradedMode \<Rightarrow> Request \<Rightarrow> (int \<times> string) option" where
  "degradedMiddleware dm r =
     (if \<not> isProtectedEndpoint (rq_Path r) then None
      else if \<not> isWriteMethod (rq_Method r) then None
      else if IsDegraded dm then Some respondDegraded
      else None)"

datatype status_answer = StatusAnswer DegradedStatus | StatusPlain string

definition HandleSystemStatus :: "'r DegradedMode \<Rightarrow> string \<Rightarrow> int \<times> status_answer" where
  "HandleSystemStatus dm m =
     (if m \<noteq> ''GET'' then (405, StatusPlain ''Method not allowed'') else (200, StatusAnswer (GetStatus dm)))"

section \<open>The watchdog\<close>

text \<open>
  The life of the watchdog: its checks, each with the repository as its calls find it, and in between whatever
  others do to the incidents, and the wiring of the incident manager.
\<close>

datatype 'r watchdog_event =
    Checked "'r IncidentRepo" gotime "string option" | Meanwhile "'r IncidentManager \<Rightarrow> 'r IncidentManager"
  | ManagerSet "'r IncidentManager option"

fun watchdog_step :: "(gotime \<Rightarrow> string) \<Rightarrow> 'r watchdog_event \<Rightarrow> 'r DegradedMode \<Rightarrow> 'r DegradedMode" where
  "watchdog_step rfc3339 (Checked repo now result) dm = runHealthCheck rfc3339 repo now result dm"
| "watchdog_step rfc3339 (Meanwhile f) dm = dm\<lparr>dm_incidents := map_option f (dm_incidents dm)\<rparr>"
| "watchdog_step rfc3339 (ManagerSet im) dm = dm_SetIncidentManager im dm"

definition watchdog :: "(gotime \<Rightarrow> string) \<Rightarrow> 'r watchdog_event list \<Rightarrow> 'r DegradedMode \<Rightarrow> 'r DegradedMode" where
  "watchdog rfc3339 es dm = foldl (\<lambda>dm e. watchdog_step rfc3339 e dm) dm es"

fun outcome :: "'r watchdog_event \<Rightarrow> (gotime \<times> string option) list" where
  "outcome (Checked repo now result) = [(now, result)]"
| "outcome _ = []"

text \<open>The time and the error of the first check of the failures at the end of a history.\<close>

definition outage :: "(gotime \<times> string option) list \<Rightarrow> (gotime \<times> string) option" where
  "outage cs = (case rev (takeWhile (\<lambda>c. snd c \<noteq> None) (rev cs)) of (t, Some err) # _ \<Rightarrow> Some (t, err) | _ \<Rightarrow> None)"

lemma outage_Nil [simp]: "outage [] = None"
  by (simp add: outage_def)

lemma outage_passed [simp]: "outage (cs @ [(now, None)]) = None"
  by (simp add: outage_def)

lemma outage_failed [simp]:
  "outage (cs @ [(now, Some err)]) = (case outage cs of None \<Rightarrow> Some (now, err) | Some o' \<Rightarrow> Some o')"
proof (cases "rev (takeWhile (\<lambda>c. snd c \<noteq> None) (rev cs))")
  case Nil
  then show ?thesis by (simp add: outage_def)
next
  case (Cons c ys)
  then have "c \<in> set (takeWhile (\<lambda>c. snd c \<noteq> None) (rev cs))" by (metis list.set_intros(1) set_rev)
  then have "snd c \<noteq> None" by (rule set_takeWhileD [THEN conjunct2])
  then obtain t e where "c = (t, Some e)" by (cases c) auto
  with Cons show ?thesis by (simp add: outage_def)
qed

definition outage_status :: "(gotime \<times> string) option \<Rightarrow> DegradedStatus" where
  "outage_status o' = (case o' of
       None \<Rightarrow> \<lparr>dg_Healthy = True, dg_DegradedSince = zero_time, dg_LastError = []\<rparr>
     | Some (t, err) \<Rightarrow> \<lparr>dg_Healthy = False, dg_DegradedSince = t, dg_LastError = err\<rparr>)"

lemma outage_status_healthy [simp]: "dg_Healthy (outage_status o') \<longleftrightarrow> o' = None"
  by (simp add: outage_status_def split: option.split)

lemma check_status:
  "dm_status dm = outage_status (outage cs) \<Longrightarrow>
     dm_status (runHealthCheck rfc3339 repo now result dm) = outage_status (outage (cs @ [(now, result)]))"
  by (cases result; cases "outage cs") (simp_all add: runHealthCheck_def outage_status_def Let_def split: prod.splits)

lemma watchdog_status:
  "dm_status (watchdog rfc3339 es (NewDegradedMode im)) = outage_status (outage (concat (map outcome es)))"
proof (induction es rule: rev_induct)
  case Nil
  then show ?case by (simp add: watchdog_def NewDegradedMode_def outage_status_def)
next
  case (snoc e es)
  then show ?case
    using check_status by (cases e) (simp_all add: watchdog_def dm_SetIncidentManager_def)
qed

text \<open>
  C25: Whatever the repository of the incidents does, refusing every call included, and whatever else happens to the
  incidents meanwhile: the status follows the health checks. It is healthy, with nothing else in it, if
  none has been made or the last one passed; else it is degraded, since the time of the first of the failures
  at the end, and shows the error of that one. A request gets 503 exactly if the system is degraded
  and it writes to a protected path, and reaches the handlers otherwise. The first failure of an
  outage, and no later one, raises an alert of the database with the incident manager, whose error is dropped; every check that passes
  asks it to resolve the incident of the database.
\<close>

theorem watchdog_follows_the_checks:
  "let cs = concat (map outcome es); dm = watchdog rfc3339 es (NewDegradedMode manager) in
    GetStatus dm = outage_status (outage cs) \<and>
    degradedMiddleware dm r =
      (if outage cs \<noteq> None \<and> isWriteMethod (rq_Method r) \<and> isProtectedEndpoint (rq_Path r) then Some respondDegraded else None) \<and>
    dm_incidents (runHealthCheck rfc3339 repo now result dm) = map_option (\<lambda>im.
      case result of
        None \<Rightarrow> fst (AutoResolveOnRecovery repo now ''database'' im)
      | Some err \<Rightarrow> if outage cs = None then fst (ProcessAlert repo now (database_alert rfc3339 now err) im) else im) (dm_incidents dm)"
proof -
  define cs where "cs = concat (map outcome es)"
  define dm where "dm = watchdog rfc3339 es (NewDegradedMode manager)"
  have s: "dm_status dm = outage_status (outage cs)" unfolding dm_def cs_def by (rule watchdog_status)
  have "dm_incidents (runHealthCheck rfc3339 repo now result dm) = map_option (\<lambda>im.
      case result of
        None \<Rightarrow> fst (AutoResolveOnRecovery repo now ''database'' im)
      | Some err \<Rightarrow> if outage cs = None then fst (ProcessAlert repo now (database_alert rfc3339 now err) im) else im) (dm_incidents dm)"
    by (cases result; cases "outage cs") (simp_all add: runHealthCheck_def s Let_def option.map_ident)
  then show ?thesis
    unfolding cs_def [symmetric] dm_def [symmetric] Let_def by (simp add: GetStatus_def degradedMiddleware_def IsDegraded_def s)
qed

text \<open>
  In the running program the incidents are in the database that is watched. If it refuses calls when the outage
  begins, the alert is lost, and no later check of the outage raises it again: it never becomes an incident.
\<close>

definition refuses :: "'w incidents \<Rightarrow> bool" where
  "refuses C \<longleftrightarrow> (\<forall>P le w. \<exists>e. cl_find_one C P le w = Inl e) \<and> (\<forall>d w. \<exists>e. cl_insert C d w = (w, DocFailed e)) \<and>
     (\<forall>P f u w. \<exists>e. cl_update C P f u w = (w, Inl e))"

lemma refused_alert:
  assumes "refuses C"
  shows "fst (ProcessAlert (mongo_repo C) now a im) = im"
proof -
  obtain e where "cl_find_one C (open_for (in_checkID a)) (newest inc_UpdatedAt) (im_repo im) = Inl e"
    using assms unfolding refuses_def by meson
  then have f: "fst (mi_find_open C (in_checkID a) (im_repo im)) = zero_incident" by (simp add: mi_find_open_def)
  have "\<exists>e. mi_create C inc w = (w, Some e)" for inc w
  proof -
    obtain e where "cl_insert C (bson_incident inc) w = (w, DocFailed e)" using assms unfolding refuses_def by meson
    then show ?thesis by (simp add: mi_create_def)
  qed
  then obtain e where c: "mi_create C (new_incident now a) (im_repo im) = (im_repo im, Some e)" by blast
  show ?thesis
    by (simp add: ProcessAlert_def process_found_def mongo_repo_def f createIncident_def c zero_incident_def case_prod_beta Let_def)
qed

lemma outage_is_not_recorded:
  assumes "\<forall>c \<in> set cs. refuses (fst c) \<and> snd (snd c) \<noteq> None"
  shows "dm_incidents (watchdog rfc3339 (map (\<lambda>(C, now, result). Checked (mongo_repo C) now result) cs) dm) = dm_incidents dm"
  using assms
proof (induction cs rule: rev_induct)
  case Nil
  then show ?case by (simp add: watchdog_def)
next
  case (snoc c cs)
  obtain C now err where c: "c = (C, now, Some err)" and C: "refuses C" using snoc.prems by (cases c) auto
  have "dm_incidents (runHealthCheck rfc3339 (mongo_repo C) now (Some err) d) = dm_incidents d" for d
    using refused_alert [OF C] by (simp add: runHealthCheck_def option.map_ident)
  with snoc show ?case by (simp add: watchdog_def c)
qed

section \<open>The incident, on a repository that works\<close>

text \<open>A run of the watchdog: each check with its time, its outcome and the map order that its calls meet.\<close>

type_synonym health_check = "visit \<times> gotime \<times> string option"

fun watch :: "(gotime \<Rightarrow> string) \<Rightarrow> health_check list \<Rightarrow> MemoryRepo DegradedMode \<Rightarrow> MemoryRepo DegradedMode" where
  "watch rfc3339 [] dm = dm"
| "watch rfc3339 ((ord, now, result) # cs) dm = watch rfc3339 cs (runHealthCheck rfc3339 (memory_repo ord) now result dm)"

text \<open>The checks are at least a second apart, the first of them from the given time.\<close>

fun spaced :: "gotime \<Rightarrow> health_check list \<Rightarrow> bool" where
  "spaced t [] \<longleftrightarrow> True"
| "spaced t ((ord, now, result) # cs) \<longleftrightarrow> t + second \<le> now \<and> spaced now cs"

lemma unix_later: "t + second \<le> now \<Longrightarrow> unix t \<noteq> unix now"
proof -
  assume "t + second \<le> now"
  then have "t div 1000000000 + 1 \<le> now div 1000000000"
    using zdiv_mono1 [of "t + 1000000000" now 1000000000] by (simp add: second_def)
  then show ?thesis by (simp add: unix_def)
qed

lemma generateIncidentID_later: "t + second \<le> now \<Longrightarrow> generateIncidentID c t \<noteq> generateIncidentID c now"
  by (auto simp: generateIncidentID_def dest!: itoa_inj unix_later)

text \<open>No incident has an ID that the watchdog could hand out in the future.\<close>

definition unborn :: "gotime \<Rightarrow> inc_map \<Rightarrow> bool" where
  "unborn now m \<longleftrightarrow> (\<forall>t. now + second \<le> t \<longrightarrow> m (generateIncidentID ''database'' t) = None)"

lemma unborn_later: "unborn t m \<Longrightarrow> t \<le> now \<Longrightarrow> unborn now m"
  by (auto simp: unborn_def)

lemma unborn_opened:
  assumes u: "unborn now m" and d: "dom m' \<subseteq> insert (generateIncidentID ''database'' now) (dom m)"
  shows "unborn now m'"
  unfolding unborn_def
proof (intro allI impI)
  fix t
  assume t: "now + second \<le> t"
  with u have "generateIncidentID ''database'' t \<notin> dom m" by (simp add: unborn_def domIff)
  moreover from generateIncidentID_later [OF t, of "''database''"]
  have "generateIncidentID ''database'' t \<noteq> generateIncidentID ''database'' now" by (rule not_sym)
  ultimately have "generateIncidentID ''database'' t \<notin> dom m'" using d by blast
  then show "m' (generateIncidentID ''database'' t) = None" by (simp only: domIff not_not)
qed

lemma unborn_dom: "unborn now m \<Longrightarrow> dom m' = dom m \<Longrightarrow> unborn now m'"
  by (auto simp: unborn_def)

definition watch_ok :: "gotime \<Rightarrow> MemoryRepo DegradedMode \<Rightarrow> bool" where
  "watch_ok now dm \<longleftrightarrow> (\<exists>im. dm_incidents dm = Some im \<and> memory.im_ok now im \<and> unborn now (map_of (im_repo im)) \<and>
     (\<not> dg_Healthy (dm_status dm) \<longrightarrow> \<not> no_open (map_of (im_repo im)) ''database''))"

context incident_repository begin

lemma resolve_dom: "im_ok now im \<Longrightarrow> dom (lookup (im_repo (fst (ResolveIncident repo now i who im)))) = dom (lookup (im_repo im))"
  by (rule update_cases [of "im_repo im" i "resolve_mut now who"])
     (auto simp: im_ok_def ResolveIncident_def Let_def split: prod.splits option.splits)

lemma auto_resolve_dom:
  "im_ok now im \<Longrightarrow> dom (lookup (im_repo (fst (AutoResolveOnRecovery repo now c im)))) = dom (lookup (im_repo im))"
  by (auto simp: AutoResolveOnRecovery_def resolve_dom split: prod.splits option.splits)

lemma im_ok_later: "im_ok t im \<Longrightarrow> t \<le> now \<Longrightarrow> im_ok now im"
  by (auto simp: im_ok_def inc_inv_later)

lemma im_ok_step: "im_ok now im \<Longrightarrow> simulates now im im' \<Longrightarrow> im_ok now im'"
  by (auto simp: im_ok_def simulates_def intro: inc_step_inv)

text \<open>An alert on a check leaves an incident of the check open, under its old ID or the new one.\<close>

lemma process_opens:
  assumes ok: "im_ok now im"
    and new: "lookup (im_repo im) (generateIncidentID (in_checkID a) now) = None"
  shows "\<exists>im'. fst (ProcessAlert repo now a im) = im' \<and> im_ok now im' \<and> \<not> no_open (lookup (im_repo im')) (in_checkID a) \<and>
    dom (lookup (im_repo im')) \<subseteq> insert (generateIncidentID (in_checkID a) now) (dom (lookup (im_repo im)))"
proof (cases "no_open (lookup (im_repo im)) (in_checkID a)")
  case True
  have "open_for (in_checkID a) (new_incident now a)" by (simp add: open_for_def new_incident_def)
  with process_creates [OF ok True new] im_ok_step [OF ok process_simulates [OF ok, of a]] show ?thesis
    by (fastforce simp: no_open_def)
next
  case False
  from process_updates [OF ok False] obtain i inc inc' r' where p: "lookup (im_repo im) i = Some inc" "open_for (in_checkID a) inc"
    "update_mut now a inc = Inr inc'" "ProcessAlert repo now a im = (im\<lparr>im_repo := r'\<rparr>, None)"
    "lookup r' = (lookup (im_repo im))(i \<mapsto> inc')" by blast
  from p(2,3) have "open_for (in_checkID a) inc'" by (auto simp: open_for_def dest: update_mut_fields)
  with p im_ok_step [OF ok process_simulates [OF ok, of a]] show ?thesis by (auto simp: no_open_def)
qed

end

lemma runHealthCheck_ok:
  assumes ok: "watch_ok t dm" and "t + second \<le> now"
  shows "watch_ok now (runHealthCheck rfc3339 (memory_repo ord) now result dm) \<and>
    (\<exists>im. dm_incidents (runHealthCheck rfc3339 (memory_repo ord) now result dm) = Some im \<and>
      (no_open (map_of (im_repo im)) ''database'' \<longleftrightarrow> result = None)) \<and>
    (IsDegraded (runHealthCheck rfc3339 (memory_repo ord) now result dm) \<longleftrightarrow> result \<noteq> None)"
proof -
  from ok obtain im where im: "dm_incidents dm = Some im" and inv: "memory.im_ok t im"
    and u: "unborn t (map_of (im_repo im))"
    and d: "\<not> dg_Healthy (dm_status dm) \<Longrightarrow> \<not> no_open (map_of (im_repo im)) ''database''"
    by (auto simp: watch_ok_def)
  from assms(2) have "t \<le> now" by (simp add: second_def)
  then have inv': "memory.im_ok now im" and u': "unborn now (map_of (im_repo im))"
    by (simp_all add: memory.im_ok_later [OF inv] unborn_later [OF u])
  show ?thesis
  proof (cases result)
    case None
    note r = memory.auto_resolve_effect [OF inv', of ord "''database''"]
      memory.im_ok_step [OF inv' memory.auto_resolve_simulates [OF inv']]
      unborn_dom [OF u' memory.auto_resolve_dom [OF inv']]
    from r(1) r(2) [of ord "''database''"] r(3) [of ord "''database''"] im show ?thesis
      by (simp add: runHealthCheck_def None watch_ok_def IsDegraded_def Let_def)
  next
    case (Some err)
    show ?thesis
    proof (cases "dg_Healthy (dm_status dm)")
      case True
      define a where "a = database_alert rfc3339 now err"
      have c: "in_checkID a = ''database''" by (simp add: a_def database_alert_def)
      from u assms(2) have "map_of (im_repo im) (generateIncidentID (in_checkID a) now) = None"
        by (simp add: unborn_def c)
      from memory.process_opens [OF inv' this, of ord] have p:
        "memory.im_ok now (fst (ProcessAlert (memory_repo ord) now a im))"
        "\<not> no_open (map_of (im_repo (fst (ProcessAlert (memory_repo ord) now a im)))) ''database''"
        "dom (map_of (im_repo (fst (ProcessAlert (memory_repo ord) now a im)))) \<subseteq>
          insert (generateIncidentID ''database'' now) (dom (map_of (im_repo im)))"
        unfolding c by blast+
      from unborn_opened [OF u' p(3)] p(1,2) im True show ?thesis
        by (simp add: runHealthCheck_def Some watch_ok_def IsDegraded_def a_def)
    next
      case False
      with d im inv' u' show ?thesis by (simp add: runHealthCheck_def Some watch_ok_def IsDegraded_def)
    qed
  qed
qed

lemma watch_last:
  "watch_ok t dm \<Longrightarrow> spaced t checks \<Longrightarrow> checks \<noteq> [] \<Longrightarrow>
    (\<exists>im. dm_incidents (watch rfc3339 checks dm) = Some im \<and>
      (no_open (map_of (im_repo im)) ''database'' \<longleftrightarrow> snd (snd (last checks)) = None)) \<and>
    (IsDegraded (watch rfc3339 checks dm) \<longleftrightarrow> snd (snd (last checks)) \<noteq> None)"
proof (induction checks arbitrary: t dm)
  case Nil
  then show ?case by simp
next
  case (Cons c cs)
  obtain ord now result where c: "c = (ord, now, result)" by (cases c)
  with Cons.prems(2) have s: "t + second \<le> now" "spaced now cs" by simp_all
  note r = runHealthCheck_ok [OF Cons.prems(1) s(1), of rfc3339 ord result]
  show ?case
  proof (cases "cs = []")
    case True
    with r show ?thesis by (simp add: c)
  next
    case False
    from Cons.IH [OF conjunct1 [OF r] s(2) False] False show ?thesis by (simp add: c)
  qed
qed

text \<open>
  On the in-memory repository, with nobody else at the incidents, whatever incidents it held at the start of the
  process (an open one about the database among them), after any health checks at least a second apart: an
  incident about the database is open exactly if the last check failed. (Somebody who resolves it during the outage
  leaves none open, because the alert is raised at its first failure only.)
\<close>

lemma incident_open_while_degraded:
  assumes "im_reach t im" and "unborn t (map_of (im_repo im))"
    and "spaced t checks" and "checks \<noteq> []"
  shows "\<exists>im'. dm_incidents (watch rfc3339 checks (NewDegradedMode (Some im))) = Some im' \<and>
      (no_open (map_of (im_repo im')) ''database'' \<longleftrightarrow> snd (snd (last checks)) = None)"
proof -
  have "watch_ok t (NewDegradedMode (Some im))"
    using im_reach_ok [OF assms(1)] assms(2) by (simp add: watch_ok_def NewDegradedMode_def)
  from watch_last [OF this assms(3,4), of rfc3339] show ?thesis by blast
qed

end
