(* ===== verification/Recommend.thy ===== *)
theory Recommend
  imports Analytics Checks AlertRules Channels
begin

text \<open>
  Recommendations (\<open>recommendations/engine.go\<close>, \<open>recommendations/handler.go\<close>): thresholds that fit the measured
  latencies, servers with too few checks and checks that stopped running, and the handler with its cache,
  its dismissals and the comments of an AI model. The clock is read once per computation; the digits of the
  SHA-256 in an identifier, the order of ranging over a map and that of an unstable sort are arguments.
\<close>

section \<open>Recommendations\<close>

datatype detail = DInt int | DText string | DTexts "string list"

record Recommendation =
  rec_ID :: string
  rec_Category :: string
  rec_Priority :: string
  rec_Title :: string
  rec_Description :: string
  rec_CheckID :: string
  rec_Server :: string
  rec_Current :: "(string \<times> detail) list"
  rec_Suggested :: "(string \<times> detail) list"
  rec_Reason :: string
  rec_CreatedAt :: gotime
  rec_Dismissed :: bool
  rec_DismissedAt :: "gotime option"

text \<open>What the engine takes from outside.\<close>

record RecWorld =
  rw_digest :: "string \<Rightarrow> string"
  rw_servers :: "(string \<times> string list) list \<Rightarrow> (string \<times> string list) list"
  rw_sort :: "Recommendation list \<Rightarrow> Recommendation list"

definition StuckThreshold :: duration where "StuckThreshold = 5 * minute"
definition MinResultsForThreshold :: int where "MinResultsForThreshold = 20"
definition TightenRatio :: f64 where "TightenRatio = 1 / 2"
definition LooseFailureRate :: f64 where "LooseFailureRate = fl64 (3 / 10)"
definition MinChecksPerServer :: int where "MinChecksPerServer = 2"

definition recID :: "RecWorld \<Rightarrow> string \<Rightarrow> string \<Rightarrow> string" where
  "recID w prefix key = ''rec_'' @ prefix @ ''_'' @ rw_digest w (prefix @ '':'' @ key)"

definition rec_percentile :: "int list \<Rightarrow> f64 \<Rightarrow> int" where
  "rec_percentile xs p =
     (if xs = [] then 0
      else
        let idx = \<lceil>f_mul p (f_of_int (int (length xs)))\<rceil> - 1;
            idx = (if idx < 0 then 0 else idx);
            idx = (if idx \<ge> int (length xs) then int (length xs) - 1 else idx)
        in xs ! nat idx)"

definition priorityWeight :: "string \<Rightarrow> int" where
  "priorityWeight p = (if p = ''high'' then 3 else if p = ''medium'' then 2 else if p = ''low'' then 1 else 0)"

definition rec_formatDuration :: "duration \<Rightarrow> string" where
  "rec_formatDuration d =
     (if d < minute then itoa (trunc_f64 (duration_seconds d)) @ ''s''
      else if d < hour then itoa (trunc_f64 (duration_minutes d)) @ ''m''
      else if d < 24 * hour then fmt_fixed 1 (duration_hours d) @ ''h''
      else fmt_fixed 1 (f_div (duration_hours d) 24) @ ''d'')"

text \<open>\<open>Duration.String\<close> of the standard library.\<close>

definition fmt_frac :: "nat \<Rightarrow> int \<Rightarrow> string" where
  "fmt_frac prec v =
     (let frac = rev (dropWhile (\<lambda>c. c = CHR ''0'') (rev (padded prec (v mod 10 ^ prec))))
      in itoa (v div 10 ^ prec) @ (if v mod 10 ^ prec = 0 then [] else ''.'' @ frac))"

definition duration_string :: "duration \<Rightarrow> string" where
  "duration_string d =
     (let u = \<bar>d\<bar>;
          text = (if u = 0 then ''0s''
                  else if u < 1000 then itoa u @ ''ns''
                  else if u < 1000000 then fmt_frac 3 u @ [CHR 0xC2, CHR 0xB5, CHR ''s'']
                  else if u < second then fmt_frac 6 u @ ''ms''
                  else let secs = u div second;
                           s = fmt_frac 9 (u mod second + (secs mod 60) * second) @ ''s'';
                           m = secs div 60
                       in if m = 0 then s
                          else if m div 60 = 0 then itoa (m mod 60) @ ''m'' @ s
                          else itoa (m div 60) @ ''h'' @ itoa (m mod 60) @ ''m'' @ s)
      in (if d < 0 then ''-'' else []) @ text)"

section \<open>Thresholds\<close>

text \<open>The figures of one check: the measured latencies in order, and the share of failures.\<close>

definition latencies :: "CheckResult list \<Rightarrow> int list" where
  "latencies results = sort (map res_DurationMs (filter (\<lambda>r. res_DurationMs r > 0) results))"

definition failure_rate :: "CheckResult list \<Rightarrow> f64" where
  "failure_rate results =
     f_div (f_of_int (int (length (filter (\<lambda>r. \<not> res_Healthy r) results)))) (f_of_int (int (length results)))"

definition tighten_to :: "int list \<Rightarrow> int" where
  "tighten_to durations =
     (let p95 = rec_percentile durations (fl64 (95 / 100)); p50 = rec_percentile durations (1 / 2);
          suggested = \<lceil>f_mul (f_of_int p95) (3 / 2)\<rceil>
      in if suggested < wrap64 (p50 * 2) then wrap64 (p50 * 2) else suggested)"

definition loosen_to :: "int list \<Rightarrow> int" where
  "loosen_to durations = \<lceil>f_mul (f_of_int (rec_percentile durations (fl64 (95 / 100)))) (fl64 (12 / 10))\<rceil>"

definition tighten_rec :: "RecWorld \<Rightarrow> gotime \<Rightarrow> CheckConfig \<Rightarrow> int list \<Rightarrow> Recommendation" where
  "tighten_rec w now check durations =
     (let threshold = chk_WarningThresholdMs check;
          p95 = rec_percentile durations (fl64 (95 / 100)); p50 = rec_percentile durations (1 / 2);
          suggested = tighten_to durations
      in \<lparr>rec_ID = recID w ''threshold-tighten'' (chk_ID check), rec_Category = ''threshold'', rec_Priority = ''low'',
          rec_Title = ''Tighten threshold for '' @ go_quote (chk_Name check),
          rec_Description = ''Current threshold is '' @ itoa threshold @ ''ms but p95 latency is only '' @ itoa p95
            @ ''ms. Consider lowering to '' @ itoa suggested @ ''ms for earlier anomaly detection.'',
          rec_CheckID = chk_ID check, rec_Server = chk_Server check,
          rec_Current = [(''warningThresholdMs'', DInt threshold), (''p95Ms'', DInt p95), (''p50Ms'', DInt p50)],
          rec_Suggested = [(''warningThresholdMs'', DInt suggested)],
          rec_Reason = ''p95 latency is significantly below current threshold'', rec_CreatedAt = now,
          rec_Dismissed = False, rec_DismissedAt = None\<rparr>)"

definition loosen_rec :: "RecWorld \<Rightarrow> gotime \<Rightarrow> CheckConfig \<Rightarrow> int list \<Rightarrow> f64 \<Rightarrow> Recommendation" where
  "loosen_rec w now check durations failureRate =
     (let threshold = chk_WarningThresholdMs check; p95 = rec_percentile durations (fl64 (95 / 100));
          suggested = loosen_to durations
      in \<lparr>rec_ID = recID w ''threshold-loosen'' (chk_ID check), rec_Category = ''threshold'', rec_Priority = ''medium'',
          rec_Title = ''Loosen threshold for '' @ go_quote (chk_Name check),
          rec_Description = ''Failure rate is '' @ fmt_f0 (f_mul failureRate 100) @ ''% with p95 at '' @ itoa p95
            @ ''ms (threshold '' @ itoa threshold @ ''ms). Consider raising to '' @ itoa suggested @ ''ms to reduce noise.'',
          rec_CheckID = chk_ID check, rec_Server = chk_Server check,
          rec_Current = [(''warningThresholdMs'', DInt threshold),
            (''failureRate'', DText (fmt_fixed 1 (f_mul failureRate 100) @ ''%'')), (''p95Ms'', DInt p95)],
          rec_Suggested = [(''warningThresholdMs'', DInt suggested)],
          rec_Reason = ''high failure rate suggests threshold is too aggressive'', rec_CreatedAt = now,
          rec_Dismissed = False, rec_DismissedAt = None\<rparr>)"

definition tighten_due :: "int \<Rightarrow> int list \<Rightarrow> f64 \<Rightarrow> bool" where
  "tighten_due threshold durations failureRate \<longleftrightarrow>
     rec_percentile durations (fl64 (95 / 100)) < trunc_f64 (f_mul (f_of_int threshold) TightenRatio) \<and> failureRate < fl64 (5 / 100)"

definition loosen_due :: "int \<Rightarrow> int list \<Rightarrow> f64 \<Rightarrow> bool" where
  "loosen_due threshold durations failureRate \<longleftrightarrow>
     failureRate > LooseFailureRate \<and> rec_percentile durations (fl64 (95 / 100)) > threshold"

definition threshold_recs :: "RecWorld \<Rightarrow> gotime \<Rightarrow> CheckResult list \<Rightarrow> CheckConfig \<Rightarrow> Recommendation list" where
  "threshold_recs w now all check =
     (let results = filter (\<lambda>r. res_CheckID r = chk_ID check) all; durations = latencies results;
          threshold = chk_WarningThresholdMs check; failureRate = failure_rate results
      in if chk_Enabled check = Some False then []
         else if threshold \<le> 0 then []
         else if int (length results) < MinResultsForThreshold then []
         else if durations = [] then []
         else (if tighten_due threshold durations failureRate then [tighten_rec w now check durations] else []) @
              (if loosen_due threshold durations failureRate then [loosen_rec w now check durations failureRate] else []))"

definition thresholdSuggestions :: "RecWorld \<Rightarrow> gotime \<Rightarrow> State \<Rightarrow> Recommendation list" where
  "thresholdSuggestions w now st = concat (map (threshold_recs w now (st_Results st)) (st_Checks st))"

section \<open>Coverage\<close>

text \<open>The map from servers to the types of their enabled checks, in the order of first use.\<close>

definition add_type :: "(string \<times> string list) list \<Rightarrow> CheckConfig \<Rightarrow> (string \<times> string list) list" where
  "add_type m check =
     (if chk_Enabled check = Some False then m
      else if chk_Server check = [] then m
      else AList.update (chk_Server check)
             ((case map_of m (chk_Server check) of None \<Rightarrow> [] | Some types \<Rightarrow> types) @ [chk_Type check]) m)"

definition server_checks :: "CheckConfig list \<Rightarrow> (string \<times> string list) list" where
  "server_checks checks = foldl add_type [] checks"

definition low_coverage :: "RecWorld \<Rightarrow> gotime \<Rightarrow> string \<Rightarrow> string list \<Rightarrow> Recommendation" where
  "low_coverage w now server types =
     \<lparr>rec_ID = recID w ''coverage-low'' server, rec_Category = ''coverage'', rec_Priority = ''medium'',
      rec_Title = ''Low monitoring coverage for '' @ go_quote server,
      rec_Description = ''Server '' @ go_quote server @ '' only has '' @ itoa (int (length types))
        @ '' check(s). Consider adding more check types for comprehensive monitoring.'',
      rec_CheckID = [], rec_Server = server,
      rec_Current = [(''checkCount'', DInt (int (length types))), (''types'', DTexts types)], rec_Suggested = [],
      rec_Reason = ''insufficient check diversity increases blind spots'', rec_CreatedAt = now,
      rec_Dismissed = False, rec_DismissedAt = None\<rparr>"

definition no_log_coverage :: "RecWorld \<Rightarrow> gotime \<Rightarrow> string \<Rightarrow> string list \<Rightarrow> Recommendation" where
  "no_log_coverage w now server types =
     \<lparr>rec_ID = recID w ''coverage-no-log'' server, rec_Category = ''coverage'', rec_Priority = ''low'',
      rec_Title = ''No log monitoring for '' @ go_quote server,
      rec_Description = ''Server '' @ go_quote server @ '' has '' @ itoa (int (length types))
        @ '' checks but no log freshness check. Log monitoring helps detect silent failures.'',
      rec_CheckID = [], rec_Server = server, rec_Current = [], rec_Suggested = [(''addCheckType'', DText ''log'')],
      rec_Reason = ''log checks detect silent failures other check types miss'', rec_CreatedAt = now,
      rec_Dismissed = False, rec_DismissedAt = None\<rparr>"

definition coverage_recs :: "RecWorld \<Rightarrow> gotime \<Rightarrow> string \<times> string list \<Rightarrow> Recommendation list" where
  "coverage_recs w now entry =
     (case entry of (server, types) \<Rightarrow>
        (if int (length types) < MinChecksPerServer then [low_coverage w now server types] else []) @
        (if \<not> list_ex (\<lambda>t. t = ''log'') types \<and> length types \<ge> 2 then [no_log_coverage w now server types] else []))"

definition coverageGaps :: "RecWorld \<Rightarrow> gotime \<Rightarrow> State \<Rightarrow> Recommendation list" where
  "coverageGaps w now st = concat (map (coverage_recs w now) (ranged (rw_servers w) (server_checks (st_Checks st))))"

section \<open>Checks that stopped running\<close>

definition stuck_after :: "CheckConfig \<Rightarrow> duration" where
  "stuck_after check =
     (let expected = dur_mul (chk_IntervalSeconds check) second;
          expected = (if expected \<le> 0 then 60 * second else expected);
          limit = wrap64 (5 * expected)
      in if limit < StuckThreshold then StuckThreshold else limit)"

definition stuck_rec :: "RecWorld \<Rightarrow> gotime \<Rightarrow> CheckConfig \<Rightarrow> CheckResult \<Rightarrow> Recommendation" where
  "stuck_rec w now check latest =
     (let staleness = time_sub now (res_FinishedAt latest)
      in \<lparr>rec_ID = recID w ''stuck'' (chk_ID check), rec_Category = ''stuck'', rec_Priority = ''high'',
          rec_Title = go_quote (chk_Name check) @ '' appears up but stuck'',
          rec_Description = ''Last result was '' @ rec_formatDuration staleness @ '' ago (expected every ''
            @ itoa (chk_IntervalSeconds check)
            @ [CHR ''s''] @ ''). The check reported healthy but hasn'' @ [CHR 0x27] @ ''t run since. Possible scheduler issue or stalled service.'',
          rec_CheckID = chk_ID check, rec_Server = chk_Server check,
          rec_Current = [(''lastResultAge'', DText (duration_string staleness)), (''lastStatus'', DText (res_Status latest)),
            (''expectedInterval'', DText (itoa (chk_IntervalSeconds check) @ ''s''))],
          rec_Suggested = [],
          rec_Reason = ''check is healthy but hasn'' @ [CHR 0x27] @ ''t executed in an unexpectedly long time'', rec_CreatedAt = now,
          rec_Dismissed = False, rec_DismissedAt = None\<rparr>)"

definition stuck_recs ::
  "RecWorld \<Rightarrow> gotime \<Rightarrow> (string \<times> CheckResult) list \<Rightarrow> string list \<Rightarrow> CheckConfig \<Rightarrow> Recommendation list" where
  "stuck_recs w now latestResult openIncidents check =
     (if chk_Enabled check = Some False then []
      else case map_of latestResult (chk_ID check) of
        None \<Rightarrow> []
      | Some latest \<Rightarrow>
          if chk_ID check \<in> set openIncidents then []
          else if res_Healthy latest \<and> time_sub now (res_FinishedAt latest) > stuck_after check
          then [stuck_rec w now check latest] else [])"

definition stuckDetection :: "RecWorld \<Rightarrow> gotime \<Rightarrow> State \<Rightarrow> Incident list \<Rightarrow> Recommendation list" where
  "stuckDetection w now st incidents =
     concat (map (stuck_recs w now (latest_by_check (st_Results st))
       (map inc_CheckID (filter (\<lambda>inc. inc_Status inc = ''open'') incidents))) (st_Checks st))"

section \<open>The engine\<close>

text \<open>\<open>sort.Slice\<close> by descending weight; a choice that is not a sorted permutation stands for the stable one.\<close>

definition by_priority :: "(Recommendation list \<Rightarrow> Recommendation list) \<Rightarrow> Recommendation list \<Rightarrow> Recommendation list" where
  "by_priority ord recs =
     (if mset (ord recs) = mset recs \<and>
         sorted_wrt (\<lambda>x y. \<not> priorityWeight (rec_Priority y) > priorityWeight (rec_Priority x)) (ord recs) then ord recs
      else sort_key (\<lambda>r. - priorityWeight (rec_Priority r)) recs)"

definition Generate :: "RecWorld \<Rightarrow> gotime \<Rightarrow> State \<Rightarrow> Incident list \<Rightarrow> Recommendation list" where
  "Generate w now st incidents =
     by_priority (rw_sort w) (thresholdSuggestions w now st @ coverageGaps w now st @ stuckDetection w now st incidents)"

section \<open>The handler\<close>

text \<open>The cache (\<open>None\<close> for nil: also what an engine without recommendations leaves), and the dismissals.\<close>

record RecHandler =
  rh_cached :: "Recommendation list option"
  rh_cachedAt :: gotime
  rh_dismissed :: "string \<Rightarrow> gotime option"

definition rh_NewHandler :: RecHandler where
  "rh_NewHandler = \<lparr>rh_cached = None, rh_cachedAt = zero_time, rh_dismissed = (\<lambda>_. None)\<rparr>"

definition cacheMaxAge :: duration where "cacheMaxAge = 5 * minute"

definition applyDismissals :: "RecHandler \<Rightarrow> Recommendation list \<Rightarrow> Recommendation list" where
  "applyDismissals h recs = map (\<lambda>r. case rh_dismissed h (rec_ID r) of
       None \<Rightarrow> r | Some t \<Rightarrow> r\<lparr>rec_Dismissed := True, rec_DismissedAt := Some t\<rparr>) recs"

definition cache_recs :: "gotime \<Rightarrow> Recommendation list \<Rightarrow> RecHandler \<Rightarrow> RecHandler" where
  "cache_recs now recs h = h\<lparr>rh_cached := (if recs = [] then None else Some recs), rh_cachedAt := now\<rparr>"

definition cache_fresh :: "gotime \<Rightarrow> RecHandler \<Rightarrow> bool" where
  "cache_fresh now h \<longleftrightarrow> rh_cached h \<noteq> None \<and> time_sub now (rh_cachedAt h) < cacheMaxAge"

definition getCachedOrGenerate ::
  "RecWorld \<Rightarrow> State \<Rightarrow> Incident list \<Rightarrow> gotime \<Rightarrow> RecHandler \<Rightarrow> RecHandler \<times> Recommendation list" where
  "getCachedOrGenerate w st incidents now h =
     (if cache_fresh now h then (h, the (rh_cached h))
      else let recs = applyDismissals h (Generate w now st incidents) in (cache_recs now recs h, recs))"

definition shown_recs :: "string \<Rightarrow> string \<Rightarrow> Recommendation list \<Rightarrow> Recommendation list" where
  "shown_recs category include_dismissed recs =
     (let recs = (if category \<noteq> [] then filter (\<lambda>r. rec_Category r = category) recs else recs)
      in if include_dismissed \<noteq> ''true'' then filter (\<lambda>r. \<not> rec_Dismissed r) recs else recs)"

text \<open>The answer of \<open>handleList\<close>: the recommendations, their number and the time of the cache.\<close>

definition rec_handleList ::
  "RecWorld \<Rightarrow> State \<Rightarrow> Incident list \<Rightarrow> gotime \<Rightarrow> string \<Rightarrow> string \<Rightarrow> RecHandler \<Rightarrow> RecHandler \<times> Recommendation list \<times> int \<times> gotime" where
  "rec_handleList w st incidents now category include_dismissed h =
     (let (h, recs) = getCachedOrGenerate w st incidents now h; recs = shown_recs category include_dismissed recs
      in (h, recs, int (length recs), rh_cachedAt h))"

text \<open>The first cached recommendation with the identifier is marked.\<close>

fun mark_first :: "gotime \<Rightarrow> string \<Rightarrow> Recommendation list \<Rightarrow> Recommendation list" where
  "mark_first now i [] = []"
| "mark_first now i (r # rs) =
     (if rec_ID r = i then r\<lparr>rec_Dismissed := True, rec_DismissedAt := Some now\<rparr> # rs else r # mark_first now i rs)"

definition dismiss :: "gotime \<Rightarrow> string \<Rightarrow> RecHandler \<Rightarrow> RecHandler" where
  "dismiss now i h = h\<lparr>rh_dismissed := (rh_dismissed h)(i \<mapsto> now), rh_cached := map_option (mark_first now i) (rh_cached h)\<rparr>"

definition rec_handleDismiss :: "gotime \<Rightarrow> string \<Rightarrow> RecHandler \<Rightarrow> RecHandler \<times> int" where
  "rec_handleDismiss now i h = (if i = [] then (h, 400) else (dismiss now i h, 200))"

text \<open>The prompt, and the lines of the answer behind the descriptions of the first five.\<close>

definition ai_prompt :: "Recommendation list \<Rightarrow> string" where
  "ai_prompt recs = ''Given these infrastructure monitoring recommendations, provide a brief expert analysis for each:'' @ [CHR 0x0A, CHR 0x0A]
     @ concat (map (\<lambda>(i, r). itoa (int i + 1) @ ''. ['' @ rec_Category r @ ''] '' @ rec_Title r @ '': '' @ rec_Reason r @ [CHR 0x0A])
         (enumerate 0 (take 5 recs)))"

definition strip_number :: "string \<Rightarrow> string" where
  "strip_number s = dropWhile (\<lambda>c. c \<in> set ''0123456789.) '') s"

definition insight :: "string \<Rightarrow> Recommendation \<Rightarrow> Recommendation" where
  "insight line r = r\<lparr>rec_Description := rec_Description r @ [CHR 0x0A, CHR 0x0A] @ ''**AI Insight:** '' @ strip_number line\<rparr>"

fun add_insights :: "string list \<Rightarrow> Recommendation list \<Rightarrow> Recommendation list" where
  "add_insights [] recs = recs"
| "add_insights lines [] = []"
| "add_insights (l # lines) (r # recs) =
     (if trim_space l = [] then add_insights lines (r # recs) else insight (trim_space l) r # add_insights lines recs)"

definition enrichWithAI :: "(string \<Rightarrow> string + string) \<Rightarrow> Recommendation list \<Rightarrow> Recommendation list \<times> bool" where
  "enrichWithAI ai recs =
     (if recs = [] then (recs, False)
      else case ai (ai_prompt recs) of
        Inl err \<Rightarrow> (recs, False)
      | Inr response \<Rightarrow> (add_insights (split_on (CHR 0x0A) response) (take 5 recs) @ drop 5 recs, True))"

text \<open>
  \<open>handleGenerate\<close> takes the mutex twice: it applies the dismissals, calls the model (\<open>None\<close> for no model),
  which may take half a minute, and then replaces the cache; \<open>h'\<close> is the handler as other requests have left it
  by then.
\<close>

definition generate_start ::
  "RecWorld \<Rightarrow> State \<Rightarrow> Incident list \<Rightarrow> gotime \<Rightarrow> bool \<Rightarrow> (string \<Rightarrow> string + string) option \<Rightarrow> RecHandler \<Rightarrow> Recommendation list \<times> bool" where
  "generate_start w st incidents now useAI ai h =
     (let recs = applyDismissals h (Generate w now st incidents)
      in case ai of
           Some call \<Rightarrow> if useAI \<and> recs \<noteq> [] then enrichWithAI call recs else (recs, False)
         | None \<Rightarrow> (recs, False))"

definition rec_handleGenerate ::
  "RecWorld \<Rightarrow> State \<Rightarrow> Incident list \<Rightarrow> gotime \<Rightarrow> gotime \<Rightarrow> bool \<Rightarrow> (string \<Rightarrow> string + string) option \<Rightarrow>
     RecHandler \<Rightarrow> RecHandler \<Rightarrow> RecHandler \<times> Recommendation list \<times> bool" where
  "rec_handleGenerate w st incidents now done useAI ai h h' =
     (let (recs, enriched) = generate_start w st incidents now useAI ai h in (cache_recs done recs h', recs, enriched))"

section \<open>Percentiles\<close>

lemma sorted_count_le:
  assumes "sorted xs" and "i < length xs"
  shows "i + 1 \<le> length (filter (\<lambda>d. d \<le> xs ! i) xs)"
proof -
  have "filter (\<lambda>d. d \<le> xs ! i) (take (i + 1) xs) = take (i + 1) xs"
    using assms by (auto simp: filter_id_conv in_set_conv_nth sorted_iff_nth_mono)
  then have "length (filter (\<lambda>d. d \<le> xs ! i) (take (i + 1) xs)) = i + 1" using assms(2) by simp
  moreover have "length (filter (\<lambda>d. d \<le> xs ! i) (take (i + 1) xs)) \<le> length (filter (\<lambda>d. d \<le> xs ! i) xs)"
    by (metis append_take_drop_id filter_append le_add1 length_append)
  ultimately show ?thesis by simp
qed

text \<open>The rounded 0.95 and the rounded product do not fall below the index they stand for.\<close>

lemma rank95:
  assumes "0 < n" and "n < 2 ^ 40"
  shows "19 * n \<le> 20 * \<lceil>f_mul (fl64 (95 / 100)) (f_of_int n)\<rceil>"
proof -
  have n: "f_of_int n = of_int n" using assms by (simp add: f_of_int_def fl64_of_int_exact)
  let ?c = "fl64 (95 / 100) :: rat"
  have c: "19 / 20 - 1 / 2 ^ 50 \<le> ?c" "?c \<le> 1" "0 \<le> ?c"
    using fl64_near [of "95 / 100" 1 "1 / 2 ^ 50"] fl64_le [of "95 / 100" 1] fl64_nonneg [of "95 / 100"]
    by (simp_all add: fl64_numeral)
  have rn: "0 < (of_int n :: rat)" "(of_int n :: rat) \<le> 2 ^ 40"
    using assms of_int_le_iff [of n "2 ^ 40", where ?'a = rat] by simp_all
  have "(19 / 20 - 1 / 2 ^ 50) * of_int n \<le> ?c * of_int n" using c rn by (intro mult_right_mono) simp_all
  moreover have "(19 / 20 - 1 / 2 ^ 50) * (of_int n :: rat) = 19 / 20 * of_int n - of_int n / 2 ^ 50" by (simp add: left_diff_distrib)
  moreover have "of_int n / 2 ^ 50 \<le> (1 / 1024 :: rat)" using rn by (simp add: divide_le_eq)
  ultimately have lo: "19 / 20 * of_int n - 1 / 1024 \<le> ?c * of_int n" by linarith
  have nn: "0 \<le> ?c * of_int n" using c rn by simp
  have "?c * of_int n \<le> 1 * of_int n" using c rn by (intro mult_right_mono) simp_all
  then have "?c * of_int n \<le> 2 ^ 40" using rn(2) by linarith
  from fl64_near(1) [OF nn this, of "1 / 1024"] have "?c * of_int n - 1 / 1024 \<le> fl64 (?c * of_int n)" by simp
  with lo have lo': "19 / 20 * of_int n - 1 / 512 \<le> f_mul ?c (f_of_int n)" by (simp add: n f_mul_def)
  define k where "k = \<lceil>f_mul ?c (f_of_int n)\<rceil>"
  have "f_mul ?c (f_of_int n) \<le> of_int k" unfolding k_def by (rule le_of_int_ceiling)
  with lo' have "19 / 20 * of_int n - 1 / 512 \<le> (of_int k :: rat)" by (rule order.trans)
  then have "(of_int (19 * n) :: rat) < of_int (20 * k + 1)" by simp
  then have "19 * n < 20 * k + 1" by (simp only: of_int_less_iff)
  then show ?thesis by (simp add: k_def)
qed

lemma rec_percentile_index:
  assumes "xs \<noteq> []"
  obtains i where "i < length xs" and "rec_percentile xs p = xs ! i"
    and "int i = min (int (length xs) - 1) (max 0 (\<lceil>f_mul p (f_of_int (int (length xs)))\<rceil> - 1))"
proof -
  let ?i = "min (int (length xs) - 1) (max 0 (\<lceil>f_mul p (f_of_int (int (length xs)))\<rceil> - 1))"
  from assms have i: "0 \<le> ?i" "?i < int (length xs)" by simp_all
  have "rec_percentile xs p = xs ! nat ?i"
    unfolding rec_percentile_def Let_def using assms by (auto intro!: arg_cong [where f = "\<lambda>i. xs ! nat i"] simp: min_def max_def)
  with i show ?thesis by (intro that [of "nat ?i"]) (simp_all add: nat_less_iff)
qed

lemma rec_percentile_in: "xs \<noteq> [] \<Longrightarrow> rec_percentile xs p \<in> set xs"
  by (metis nth_mem rec_percentile_index)

lemma rec_percentile_mono:
  assumes "sorted xs" and "xs \<noteq> []" and "p \<le> q"
  shows "rec_percentile xs p \<le> rec_percentile xs q"
proof -
  obtain i where i: "i < length xs" "rec_percentile xs p = xs ! i"
    "int i = min (int (length xs) - 1) (max 0 (\<lceil>f_mul p (f_of_int (int (length xs)))\<rceil> - 1))"
    using rec_percentile_index [OF assms(2)] by metis
  obtain j where j: "j < length xs" "rec_percentile xs q = xs ! j"
    "int j = min (int (length xs) - 1) (max 0 (\<lceil>f_mul q (f_of_int (int (length xs)))\<rceil> - 1))"
    using rec_percentile_index [OF assms(2)] by metis
  have "0 \<le> f_of_int (int (length xs))" by (simp add: f_of_int_def fl64_nonneg)
  then have "p * f_of_int (int (length xs)) \<le> q * f_of_int (int (length xs))" using assms(3) by (rule mult_right_mono [rotated])
  then have "f_mul p (f_of_int (int (length xs))) \<le> f_mul q (f_of_int (int (length xs)))"
    unfolding f_mul_def by (rule fl64_mono)
  then have "\<lceil>f_mul p (f_of_int (int (length xs)))\<rceil> \<le> \<lceil>f_mul q (f_of_int (int (length xs)))\<rceil>" by (rule ceiling_mono)
  with i(3) j(3) have "i \<le> j" by linarith
  with assms(1) i j show ?thesis by (simp add: sorted_nth_mono)
qed

text \<open>At least 95 percent of the values do not exceed the 95th percentile.\<close>

lemma rec_percentile_share:
  assumes "sorted xs" and "xs \<noteq> []" and "length xs < 2 ^ 40"
  shows "19 * length xs \<le> 20 * length (filter (\<lambda>d. d \<le> rec_percentile xs (fl64 (95 / 100))) xs)"
proof -
  define k where "k = \<lceil>f_mul (fl64 (95 / 100)) (f_of_int (int (length xs)))\<rceil>"
  obtain i where i: "i < length xs" "rec_percentile xs (fl64 (95 / 100)) = xs ! i"
    "int i = min (int (length xs) - 1) (max 0 (k - 1))"
    unfolding k_def using rec_percentile_index [OF assms(2)] by metis
  have "int (length xs) < 2 ^ 40" using assms(3) by (metis of_nat_less_iff of_nat_numeral of_nat_power)
  then have "19 * int (length xs) \<le> 20 * k" unfolding k_def using assms(2) by (intro rank95) simp_all
  then have "19 * int (length xs) \<le> 20 * (int i + 1)" using i(3) by (simp add: min_def max_def split: if_splits)
  moreover have "i + 1 \<le> length (filter (\<lambda>d. d \<le> xs ! i) xs)" by (rule sorted_count_le [OF assms(1) i(1)])
  then have "20 * (int i + 1) \<le> int (20 * length (filter (\<lambda>d. d \<le> xs ! i) xs))" by simp
  ultimately have "int (19 * length xs) \<le> int (20 * length (filter (\<lambda>d. d \<le> xs ! i) xs))" by simp
  then show ?thesis unfolding i(2) by (simp only: of_nat_le_iff)
qed

lemma latencies_sorted [simp]: "sorted (latencies results)"
  by (simp add: latencies_def)

lemma mset_latencies: "mset (latencies results) = mset (map res_DurationMs (filter (\<lambda>r. res_DurationMs r > 0) results))"
  by (simp add: latencies_def)

lemma filter_latencies:
  "length (filter P (latencies results)) = length (filter (\<lambda>r. res_DurationMs r > 0 \<and> P (res_DurationMs r)) results)"
proof -
  have "length (filter P (latencies results)) = length (filter P (map res_DurationMs (filter (\<lambda>r. res_DurationMs r > 0) results)))"
    using mset_latencies [of results] by (metis mset_filter size_mset)
  then show ?thesis by (simp add: filter_map o_def conj_commute)
qed

lemma latencies_positive: "d \<in> set (latencies results) \<Longrightarrow> 0 < d"
  by (auto simp: latencies_def)

lemma fl64_between:
  assumes "of_int a \<le> x" and "x \<le> of_int b" and "0 \<le> a" and "b < 2 ^ 53"
  shows "of_int a \<le> fl64 x" and "fl64 x \<le> of_int b"
proof -
  from assms(1,2) have "(of_int a :: rat) \<le> of_int b" by (rule order.trans)
  then have "a \<le> b" by (simp only: of_int_le_iff)
  with assms show "of_int a \<le> fl64 x" and "fl64 x \<le> of_int b"
    by (simp_all add: fl64_ge fl64_le fl64_of_int_exact)
qed

lemma ceiling_between:
  assumes "of_int a \<le> x" and "x \<le> of_int b" and "0 \<le> a" and "b < 2 ^ 53"
  shows "a \<le> \<lceil>fl64 x\<rceil>" and "\<lceil>fl64 x\<rceil> \<le> b"
  using fl64_between [OF assms] ceiling_mono [of "of_int a" "fl64 x"] ceiling_mono [of "fl64 x" "of_int b"] by simp_all

lemma tighten_bounds:
  assumes "sorted xs" and "xs \<noteq> []" and pos: "\<And>d. d \<in> set xs \<Longrightarrow> 0 < d \<and> d < 2 ^ 50"
    and due: "tighten_due threshold xs rate" and t: "0 < threshold"
  shows "rec_percentile xs (fl64 (95 / 100)) \<le> tighten_to xs \<and> tighten_to xs < threshold"
proof -
  define p95 where "p95 = rec_percentile xs (fl64 (95 / 100))"
  define p50 where "p50 = rec_percentile xs (1 / 2)"
  from pos [OF rec_percentile_in [OF assms(2)]] have p: "0 < p95" "p95 < 2 ^ 50" "0 < p50" "p50 < 2 ^ 50"
    by (simp_all add: p95_def p50_def)
  have "(1 / 2 :: rat) \<le> fl64 (95 / 100)" using fl64_near(1) [of "95 / 100" 1 "1 / 4"] by simp
  then have le: "p50 \<le> p95" unfolding p50_def p95_def by (rule rec_percentile_mono [OF assms(1,2)])
  have f: "f_of_int p95 = of_int p95" using p by (simp add: f_of_int_def fl64_of_int_exact)
  define s where "s = \<lceil>fl64 (of_int p95 * (3 / 2))\<rceil>"
  have s: "p95 \<le> s" "s \<le> 2 * p95" 
    unfolding s_def using p ceiling_between [of p95 "of_int p95 * (3 / 2)" "2 * p95"] by simp_all
  have "2 * p95 < threshold"
  proof (rule ccontr)
    assume "\<not> 2 * p95 < threshold"
    then have th: "threshold \<le> 2 * p95" by simp
    with p t have "f_of_int threshold = of_int threshold" by (simp add: f_of_int_def fl64_of_int_exact)
    moreover have "(of_int threshold :: rat) / 2 \<le> of_int p95"
    proof -
      from th have "(of_int threshold :: rat) \<le> of_int (2 * p95)" by (simp only: of_int_le_iff)
      then show ?thesis by simp
    qed
    then have "fl64 (of_int threshold / 2) \<le> of_int p95" using p t by (intro fl64_between(2) [of 0]) simp_all
    then have "trunc_f64 (fl64 (of_int threshold / 2)) \<le> p95"
      using t fl64_nonneg [of "of_int threshold / 2"] by (simp add: trunc_f64_def floor_le_iff)
    ultimately show False using due by (simp add: tighten_due_def TightenRatio_def f_mul_def p95_def)
  qed
  moreover have "tighten_to xs = (if s < 2 * p50 then 2 * p50 else s)"
    unfolding tighten_to_def Let_def p95_def [symmetric] p50_def [symmetric] f_mul_def f s_def [symmetric]
    using p wrap64_id [of "p50 * 2"] by simp
  ultimately show ?thesis using s le unfolding p95_def [symmetric] by simp
qed

lemma loosen_bounds:
  assumes "sorted xs" and "xs \<noteq> []" and pos: "\<And>d. d \<in> set xs \<Longrightarrow> 0 < d \<and> d < 2 ^ 50"
    and due: "loosen_due threshold xs rate"
  shows "rec_percentile xs (fl64 (95 / 100)) \<le> loosen_to xs \<and> threshold < loosen_to xs"
proof -
  define p95 where "p95 = rec_percentile xs (fl64 (95 / 100))"
  from pos [OF rec_percentile_in [OF assms(2)]] have p: "0 < p95" "p95 < 2 ^ 50" by (simp_all add: p95_def)
  have f: "f_of_int p95 = of_int p95" using p by (simp add: f_of_int_def fl64_of_int_exact)
  have c: "1 \<le> fl64 (12 / 10)" "fl64 (12 / 10) \<le> 2"
    using fl64_ge [of 1 "12 / 10"] fl64_le [of "12 / 10" 2] fl64_of_int_exact [of 1] by (simp_all add: fl64_numeral)
  have "(of_int p95 :: rat) * 1 \<le> of_int p95 * fl64 (12 / 10)" using p c by (intro mult_left_mono) simp_all
  moreover have "of_int p95 * fl64 (12 / 10) \<le> (of_int p95 :: rat) * 2" using p c by (intro mult_left_mono) simp_all
  ultimately have "p95 \<le> \<lceil>fl64 (of_int p95 * fl64 (12 / 10))\<rceil>" using p by (intro ceiling_between(1) [of _ _ "p95 * 2"]) simp_all
  then have "p95 \<le> loosen_to xs" unfolding loosen_to_def p95_def [symmetric] f_mul_def f .
  moreover from due have "threshold < p95" by (simp add: loosen_due_def p95_def)
  ultimately show ?thesis unfolding p95_def [symmetric] by simp
qed

section \<open>What the engine recommends\<close>

lemma set_by_priority [simp]: "set (by_priority ord recs) = set recs"
proof -
  have "mset (by_priority ord recs) = mset recs" by (simp add: by_priority_def)
  then show ?thesis by (metis set_mset_mset)
qed

lemma category_of_coverage: "r \<in> set (coverageGaps w now st) \<Longrightarrow> rec_Category r = ''coverage''"
  by (auto simp: coverageGaps_def coverage_recs_def low_coverage_def no_log_coverage_def split: if_splits)

lemma category_of_stuck: "r \<in> set (stuckDetection w now st incidents) \<Longrightarrow> rec_Category r = ''stuck''"
  by (auto simp: stuckDetection_def stuck_recs_def stuck_rec_def Let_def split: if_splits option.splits)

lemma threshold_recsD:
  assumes "r \<in> set (threshold_recs w now all check)"
  shows "chk_Enabled check \<noteq> Some False \<and> 0 < chk_WarningThresholdMs check \<and>
    latencies (filter (\<lambda>x. res_CheckID x = chk_ID check) all) \<noteq> [] \<and> rec_CheckID r = chk_ID check \<and>
    (rec_Priority r = ''low'' \<and>
       rec_Suggested r = [(''warningThresholdMs'', DInt (tighten_to (latencies (filter (\<lambda>x. res_CheckID x = chk_ID check) all))))] \<and>
       tighten_due (chk_WarningThresholdMs check) (latencies (filter (\<lambda>x. res_CheckID x = chk_ID check) all))
         (failure_rate (filter (\<lambda>x. res_CheckID x = chk_ID check) all)) \<or>
     rec_Priority r = ''medium'' \<and>
       rec_Suggested r = [(''warningThresholdMs'', DInt (loosen_to (latencies (filter (\<lambda>x. res_CheckID x = chk_ID check) all))))] \<and>
       loosen_due (chk_WarningThresholdMs check) (latencies (filter (\<lambda>x. res_CheckID x = chk_ID check) all))
         (failure_rate (filter (\<lambda>x. res_CheckID x = chk_ID check) all)))"
  using assms unfolding threshold_recs_def Let_def
  by (auto simp: tighten_rec_def loosen_rec_def Let_def split: if_splits)

text \<open>The measured runs of a check, and those within a limit.\<close>

definition measured :: "string \<Rightarrow> CheckResult list \<Rightarrow> CheckResult list" where
  "measured i results = filter (\<lambda>r. res_CheckID r = i \<and> 0 < res_DurationMs r) results"

definition within_limit :: "int \<Rightarrow> CheckResult list \<Rightarrow> nat" where
  "within_limit limit results = length (filter (\<lambda>r. res_DurationMs r \<le> limit) results)"

lemma length_filter_mono: "(\<And>x. P x \<Longrightarrow> Q x) \<Longrightarrow> length (filter P xs) \<le> length (filter Q xs)"
  by (induction xs) auto

lemma share_within:
  assumes xs: "xs = latencies (filter (\<lambda>x. res_CheckID x = i) all)" and ne: "xs \<noteq> []" and l: "length all < 2 ^ 40"
    and s: "rec_percentile xs (fl64 (95 / 100)) \<le> s"
  shows "19 * length (measured i all) \<le> 20 * within_limit s (measured i all)"
proof -
  have n: "length xs = length (measured i all)"
    using filter_latencies [of "\<lambda>_. True"] by (simp add: xs measured_def conj_commute)
  then have "length xs < 2 ^ 40" using l length_filter_le [of _ all] unfolding measured_def by (metis le_less_trans)
  from rec_percentile_share [OF _ ne this] have "19 * length xs \<le> 20 * length (filter (\<lambda>d. d \<le> rec_percentile xs (fl64 (95 / 100))) xs)"
    by (simp add: xs)
  also have "length (filter (\<lambda>d. d \<le> rec_percentile xs (fl64 (95 / 100))) xs) \<le> length (filter (\<lambda>d. d \<le> s) xs)"
    by (rule length_filter_mono) (use s in simp)
  also have "length (filter (\<lambda>d. d \<le> s) xs) = within_limit s (measured i all)"
    by (simp add: xs filter_latencies measured_def within_limit_def conj_commute conj_left_commute)
  finally show ?thesis by (simp add: n)
qed

text \<open>
  C21: every recommendation on a threshold is for an enabled check with a threshold and suggests a number that at
  least 95 percent of the measured runs of the check keep; with low priority it is below the threshold of today and with
  medium priority above it.
\<close>

theorem suggested_threshold_fits:
  assumes "r \<in> set (Generate w now st incidents)" and "rec_Category r = ''threshold''"
    and "length (st_Results st) < 2 ^ 40" and "\<forall>x \<in> set (st_Results st). res_DurationMs x < 2 ^ 50"
  shows "\<exists>check s. check \<in> set (st_Checks st) \<and> rec_CheckID r = chk_ID check \<and>
    check_is_enabled check \<and> 0 < chk_WarningThresholdMs check \<and>
    rec_Suggested r = [(''warningThresholdMs'', DInt s)] \<and>
    19 * length (measured (chk_ID check) (st_Results st)) \<le> 20 * within_limit s (measured (chk_ID check) (st_Results st)) \<and>
    (rec_Priority r = ''low'' \<and> s < chk_WarningThresholdMs check \<or>
     rec_Priority r = ''medium'' \<and> chk_WarningThresholdMs check < s)"
proof -
  from assms(1,2) have "r \<in> set (thresholdSuggestions w now st)"
    by (auto simp: Generate_def dest!: category_of_coverage category_of_stuck)
  then obtain check where c: "check \<in> set (st_Checks st)" "r \<in> set (threshold_recs w now (st_Results st) check)"
    by (auto simp: thresholdSuggestions_def)
  note d = threshold_recsD [OF c(2)]
  define xs where "xs = latencies (filter (\<lambda>x. res_CheckID x = chk_ID check) (st_Results st))"
  have ne: "xs \<noteq> []" using d by (simp add: xs_def)
  have pos: "0 < x \<and> x < 2 ^ 50" if "x \<in> set xs" for x
    using that assms(4) by (auto simp: xs_def latencies_def)
  have srt: "sorted xs" by (simp add: xs_def)
  have en: "check_is_enabled check" using d by (auto simp: check_is_enabled_def split: option.splits)
  have t: "0 < chk_WarningThresholdMs check" using d by blast
  from d consider
    (low) rate where "rec_Priority r = ''low''" "rec_Suggested r = [(''warningThresholdMs'', DInt (tighten_to xs))]"
      "tighten_due (chk_WarningThresholdMs check) xs rate"
  | (medium) rate where "rec_Priority r = ''medium''" "rec_Suggested r = [(''warningThresholdMs'', DInt (loosen_to xs))]"
      "loosen_due (chk_WarningThresholdMs check) xs rate"
    unfolding xs_def by blast
  then show ?thesis
  proof cases
    case low
    from tighten_bounds [OF srt ne pos low(3) t] share_within [OF xs_def ne assms(3)] c(1) d en t low show ?thesis
      by (intro exI [of _ check] exI [of _ "tighten_to xs"]) simp
  next
    case medium
    from loosen_bounds [OF srt ne pos medium(3)] share_within [OF xs_def ne assms(3)] c(1) d en t medium show ?thesis
      by (intro exI [of _ check] exI [of _ "loosen_to xs"]) simp
  qed
qed

definition sample_slow_check :: CheckConfig where
  "sample_slow_check = zero_check\<lparr>chk_ID := ''api'', chk_Name := ''API'', chk_WarningThresholdMs := 100\<rparr>"

definition sample_fast_runs :: State where
  "sample_fast_runs = \<lparr>st_Checks = [sample_slow_check],
     st_Results = replicate 20 (zero_result\<lparr>res_CheckID := ''api'', res_DurationMs := 10, res_Healthy := True\<rparr>),
     st_LastRunAt = 0, st_UpdatedAt = 0\<rparr>"

definition sample_rec_world :: RecWorld where
  "sample_rec_world = \<lparr>rw_digest = id, rw_servers = id, rw_sort = id\<rparr>"

lemma percentile_of_equal [simp]: "n \<noteq> 0 \<Longrightarrow> rec_percentile (replicate n d) p = d"
  using rec_percentile_in [of "replicate n d" p] by simp

lemma sample_numbers:
  "trunc_f64 (f_mul (f_of_int 100) TightenRatio) = 50" "f_mul (f_of_int 10) (3 / 2) = 15"
  "0 < fl64 (5 / 100)" "0 < LooseFailureRate" "f_div (f_of_int 0) (f_of_int 20) = 0"
  by code_simp+

lemma sample_latencies:
  "latencies (filter (\<lambda>r. res_CheckID r = ''api'') (st_Results sample_fast_runs)) = replicate 20 10"
  "failure_rate (filter (\<lambda>r. res_CheckID r = ''api'') (st_Results sample_fast_runs)) = 0"
  using sample_numbers(5) by (simp_all add: latencies_def failure_rate_def sample_fast_runs_def sort_replicate)

lemma sample_threshold_recs:
  "threshold_recs sample_rec_world 0 (st_Results sample_fast_runs) sample_slow_check =
    [tighten_rec sample_rec_world 0 sample_slow_check (replicate 20 10)] \<and>
   rec_Suggested (tighten_rec sample_rec_world 0 sample_slow_check (replicate 20 10)) = [(''warningThresholdMs'', DInt 20)]"
proof -
  have c: "chk_ID sample_slow_check = ''api''" "chk_WarningThresholdMs sample_slow_check = 100" "chk_Enabled sample_slow_check = None"
    by (simp_all add: sample_slow_check_def zero_check_def)
  have "tighten_due 100 (replicate 20 10) 0" "\<not> loosen_due 100 (replicate 20 10) 0"
    using sample_numbers by (simp_all add: tighten_due_def loosen_due_def)
  moreover have "int (length (filter (\<lambda>r. res_CheckID r = ''api'') (st_Results sample_fast_runs))) = 20"
    by (simp add: sample_fast_runs_def)
  moreover have "tighten_to (replicate 20 10) = 20"
    using sample_numbers(2) by (simp add: tighten_to_def Let_def wrap64_def)
  ultimately show ?thesis
    by (simp add: threshold_recs_def c sample_latencies MinResultsForThreshold_def tighten_rec_def Let_def)
qed

theorem suggested_threshold_fits_witness:
  "\<exists>r check s. r \<in> set (Generate sample_rec_world 0 sample_fast_runs []) \<and> check = sample_slow_check \<and>
    rec_Suggested r = [(''warningThresholdMs'', DInt s)] \<and> s < chk_WarningThresholdMs check \<and>
    19 * length (measured (chk_ID check) (st_Results sample_fast_runs)) \<le>
      20 * within_limit s (measured (chk_ID check) (st_Results sample_fast_runs))"
proof -
  let ?r = "tighten_rec sample_rec_world 0 sample_slow_check (replicate 20 10)"
  have r: "?r \<in> set (Generate sample_rec_world 0 sample_fast_runs [])"
    using sample_threshold_recs [THEN conjunct1]
    by (simp add: Generate_def thresholdSuggestions_def sample_fast_runs_def)
  moreover have "rec_Category ?r = ''threshold''" and "rec_Priority ?r = ''low''" by (simp_all add: tighten_rec_def Let_def)
  moreover have "length (st_Results sample_fast_runs) < 2 ^ 40"
    and "\<forall>x \<in> set (st_Results sample_fast_runs). res_DurationMs x < 2 ^ 50" by (simp_all add: sample_fast_runs_def)
  ultimately obtain check s where "check \<in> set (st_Checks sample_fast_runs)" "rec_Suggested ?r = [(''warningThresholdMs'', DInt s)]"
    "19 * length (measured (chk_ID check) (st_Results sample_fast_runs)) \<le>
      20 * within_limit s (measured (chk_ID check) (st_Results sample_fast_runs))" "s < chk_WarningThresholdMs check"
    using suggested_threshold_fits [of ?r sample_rec_world 0 sample_fast_runs "[]"] by auto
  moreover from this(1) have "check = sample_slow_check" by (simp add: sample_fast_runs_def)
  ultimately show ?thesis using r by blast
qed

lemma stuck_recs_iff:
  "r \<in> set (stuck_recs w now m (map inc_CheckID (filter (\<lambda>inc. inc_Status inc = ''open'') incidents)) check) \<longleftrightarrow>
    (\<exists>latest. chk_Enabled check \<noteq> Some False \<and> map_of m (chk_ID check) = Some latest \<and> res_Healthy latest \<and>
      stuck_after check < time_sub now (res_FinishedAt latest) \<and>
      (\<nexists>inc. inc \<in> set incidents \<and> inc_Status inc = ''open'' \<and> inc_CheckID inc = chk_ID check) \<and>
      r = stuck_rec w now check latest)"
  by (cases "map_of m (chk_ID check)") (auto simp: stuck_recs_def image_iff)

text \<open>
  A check counts as stuck exactly if it is enabled, its latest result is healthy and too old, and none of its
  incidents is open; with an interval between 0 and 58000000 years too old is more than five intervals and five minutes.
\<close>

lemma stuck_exactly_when:
  "(r \<in> set (Generate w now st incidents) \<and> rec_Category r = ''stuck'') \<longleftrightarrow>
    (\<exists>check latest. check \<in> set (st_Checks st) \<and> chk_Enabled check \<noteq> Some False \<and>
      map_of (latest_by_check (st_Results st)) (chk_ID check) = Some latest \<and> res_Healthy latest \<and>
      stuck_after check < time_sub now (res_FinishedAt latest) \<and>
      (\<nexists>inc. inc \<in> set incidents \<and> inc_Status inc = ''open'' \<and> inc_CheckID inc = chk_ID check) \<and>
      r = stuck_rec w now check latest)" (is "?l \<longleftrightarrow> ?r")
proof -
  have "rec_Category r = ''threshold''" if "r \<in> set (thresholdSuggestions w now st)"
    using that by (auto simp: thresholdSuggestions_def threshold_recs_def tighten_rec_def loosen_rec_def Let_def split: if_splits)
  then have "?l \<longleftrightarrow> r \<in> set (stuckDetection w now st incidents)"
    by (auto simp: Generate_def dest: category_of_coverage category_of_stuck)
  also have "\<dots> \<longleftrightarrow> (\<exists>check. check \<in> set (st_Checks st) \<and> r \<in> set (stuck_recs w now (latest_by_check (st_Results st))
      (map inc_CheckID (filter (\<lambda>inc. inc_Status inc = ''open'') incidents)) check))"
    by (auto simp: stuckDetection_def)
  also have "\<dots> \<longleftrightarrow> ?r"
    by (intro arg_cong [where f = Ex] ext) (simp add: stuck_recs_iff)
  finally show ?thesis .
qed

lemma stuck_after_value:
  assumes "0 < chk_IntervalSeconds check" and "chk_IntervalSeconds check \<le> 1800000000"
  shows "stuck_after check = max (5 * chk_IntervalSeconds check * second) (5 * minute)"
  using assms by (simp add: stuck_after_def Let_def StuckThreshold_def go_time wrap64_id max_def)

section \<open>Dismissals\<close>

text \<open>Requests to the handler, each handled before the next one, with the state and the incidents that it reads.\<close>

datatype rec_request =
  RList State "Incident list" string string
| RGenerate State "Incident list" gotime bool "(string \<Rightarrow> string + string) option"
| RDismiss string

definition rec_exec :: "RecWorld \<Rightarrow> gotime \<times> rec_request \<Rightarrow> RecHandler \<Rightarrow> RecHandler" where
  "rec_exec w e h =
     (case e of (now, req) \<Rightarrow>
       (case req of
          RList st incidents category include_dismissed \<Rightarrow> fst (rec_handleList w st incidents now category include_dismissed h)
        | RGenerate st incidents done useAI ai \<Rightarrow> fst (rec_handleGenerate w st incidents now done useAI ai h h)
        | RDismiss i \<Rightarrow> fst (rec_handleDismiss now i h)))"

definition rec_history :: "RecWorld \<Rightarrow> (gotime \<times> rec_request) list \<Rightarrow> RecHandler" where
  "rec_history w es = foldl (\<lambda>h e. rec_exec w e h) rh_NewHandler es"

definition asked_to_dismiss :: "(gotime \<times> rec_request) list \<Rightarrow> string set" where
  "asked_to_dismiss es = {i. i \<noteq> [] \<and> (\<exists>now. (now, RDismiss i) \<in> set es)}"

text \<open>No two recommendations that a request generates have one identifier.\<close>

definition distinct_ids :: "RecWorld \<Rightarrow> gotime \<times> rec_request \<Rightarrow> bool" where
  "distinct_ids w e =
     (case e of (now, req) \<Rightarrow>
       (case req of
          RList st incidents _ _ \<Rightarrow> distinct (map rec_ID (Generate w now st incidents))
        | RGenerate st incidents _ _ _ \<Rightarrow> distinct (map rec_ID (Generate w now st incidents))
        | RDismiss _ \<Rightarrow> True))"

text \<open>A list in which the dismissals of a handler are marked.\<close>

definition marked :: "(string \<Rightarrow> gotime option) \<Rightarrow> Recommendation list \<Rightarrow> bool" where
  "marked d recs \<longleftrightarrow> distinct (map rec_ID recs) \<and> (\<forall>r \<in> set recs. rec_ID r \<in> dom d \<longrightarrow> rec_Dismissed r)"

lemma ids_applyDismissals [simp]: "map rec_ID (applyDismissals h recs) = map rec_ID recs"
  by (simp add: applyDismissals_def o_def split: option.split)

lemma marked_apply: "distinct (map rec_ID recs) \<Longrightarrow> marked (rh_dismissed h) (applyDismissals h recs)"
proof -
  assume "distinct (map rec_ID recs)"
  then have "distinct (map rec_ID (applyDismissals h recs))" by simp
  moreover have "\<forall>r \<in> set (applyDismissals h recs). rec_ID r \<in> dom (rh_dismissed h) \<longrightarrow> rec_Dismissed r"
    by (auto simp: applyDismissals_def split: option.splits)
  ultimately show ?thesis by (simp only: marked_def)
qed

lemma ids_mark_first [simp]: "map rec_ID (mark_first now i recs) = map rec_ID recs"
  by (induction recs) simp_all

lemma marked_first: "marked d recs \<Longrightarrow> marked (d(i \<mapsto> now)) (mark_first now i recs)"
proof -
  assume m: "marked d recs"
  have "distinct (map rec_ID recs) \<Longrightarrow> r \<in> set (mark_first now i recs) \<Longrightarrow> rec_ID r = i \<or>
      (rec_ID r \<in> dom d \<and> (\<forall>r \<in> set recs. rec_ID r \<in> dom d \<longrightarrow> rec_Dismissed r)) \<Longrightarrow> rec_Dismissed r" for r
    by (induction recs) (auto split: if_splits simp: image_iff)
  with m show ?thesis by (auto simp: marked_def)
qed

lemma insights_same:
  "map rec_ID (add_insights lines recs) = map rec_ID recs \<and> map rec_Dismissed (add_insights lines recs) = map rec_Dismissed recs"
  by (induction lines recs rule: add_insights.induct) (simp_all add: insight_def)

lemma marked_map:
  "marked d recs \<longleftrightarrow> distinct (map rec_ID recs) \<and>
     (\<forall>(i, b) \<in> set (zip (map rec_ID recs) (map rec_Dismissed recs)). i \<in> dom d \<longrightarrow> b)"
  by (auto simp: marked_def zip_map_map zip_same_conv_map)

lemma marked_enriched: "marked d recs \<Longrightarrow> marked d (fst (enrichWithAI ai recs))"
proof -
  have "map rec_ID (fst (enrichWithAI ai recs)) = map rec_ID recs \<and> map rec_Dismissed (fst (enrichWithAI ai recs)) = map rec_Dismissed recs"
    by (auto simp: enrichWithAI_def insights_same split: sum.split) (metis append_take_drop_id map_append)+
  then show "marked d recs \<Longrightarrow> ?thesis" by (simp add: marked_map)
qed

definition rec_ok :: "RecHandler \<Rightarrow> bool" where
  "rec_ok h \<longleftrightarrow> (case rh_cached h of None \<Rightarrow> True | Some recs \<Rightarrow> marked (rh_dismissed h) recs)"

lemma getCached_ok:
  assumes "rec_ok h" and "distinct (map rec_ID (Generate w now st incidents))"
  shows "rec_ok (fst (getCachedOrGenerate w st incidents now h)) \<and>
    marked (rh_dismissed h) (snd (getCachedOrGenerate w st incidents now h)) \<and>
    rh_dismissed (fst (getCachedOrGenerate w st incidents now h)) = rh_dismissed h"
  using assms marked_apply [OF assms(2), of h]
  by (auto simp: getCachedOrGenerate_def rec_ok_def cache_fresh_def cache_recs_def Let_def)

lemma rec_exec_ok:
  assumes "rec_ok h" and "distinct_ids w e"
  shows "rec_ok (rec_exec w e h) \<and> dom (rh_dismissed (rec_exec w e h)) = dom (rh_dismissed h) \<union> asked_to_dismiss [e]"
proof -
  obtain now req where e: "e = (now, req)" by (cases e)
  show ?thesis
  proof (cases req)
    case (RList st incidents category include_dismissed)
    with assms getCached_ok [OF assms(1), of w now st incidents] show ?thesis
      by (auto simp: e rec_exec_def rec_handleList_def distinct_ids_def asked_to_dismiss_def Let_def split: prod.splits)
  next
    case (RGenerate st incidents finished useAI ai)
    with assms have "marked (rh_dismissed h) (applyDismissals h (Generate w now st incidents))"
      by (intro marked_apply) (simp add: e distinct_ids_def)
    then have "marked (rh_dismissed h) (fst (generate_start w st incidents now useAI ai h))"
      by (auto simp: generate_start_def Let_def marked_enriched split: option.split)
    then show ?thesis
      by (auto simp: e RGenerate rec_exec_def rec_handleGenerate_def cache_recs_def rec_ok_def asked_to_dismiss_def split: prod.splits)
  next
    case (RDismiss i)
    with assms show ?thesis
      by (auto simp: e rec_exec_def rec_handleDismiss_def dismiss_def rec_ok_def marked_first asked_to_dismiss_def split: option.splits)
  qed
qed

lemma rec_history_ok:
  "\<forall>e \<in> set es. distinct_ids w e \<Longrightarrow> rec_ok (rec_history w es) \<and> dom (rh_dismissed (rec_history w es)) = asked_to_dismiss es"
proof (induction es rule: rev_induct)
  case Nil
  then show ?case by (simp add: rec_history_def rh_NewHandler_def rec_ok_def asked_to_dismiss_def)
next
  case (snoc e es)
  then have "rec_ok (rec_history w es)" "dom (rh_dismissed (rec_history w es)) = asked_to_dismiss es" by simp_all
  moreover have "rec_history w (es @ [e]) = rec_exec w e (rec_history w es)" by (simp add: rec_history_def)
  moreover have "asked_to_dismiss (es @ [e]) = asked_to_dismiss es \<union> asked_to_dismiss [e]" by (auto simp: asked_to_dismiss_def)
  ultimately show ?case using rec_exec_ok [of "rec_history w es" w e] snoc.prems by simp
qed

text \<open>
  after any requests, each handled before the next, a recommendation that a request has dismissed is not listed
  again, out of the cache or generated anew, as long as no two recommendations have one identifier.
\<close>

theorem dismissed_stay_hidden:
  assumes "\<forall>e \<in> set es. distinct_ids w e" and "distinct_ids w (now, RList st incidents category include_dismissed)"
    and "include_dismissed \<noteq> ''true''"
  shows "set (map rec_ID (fst (snd (rec_handleList w st incidents now category include_dismissed (rec_history w es))))) \<inter>
    asked_to_dismiss es = {}"
proof -
  let ?h = "rec_history w es"
  from rec_history_ok [OF assms(1)] have ok: "rec_ok ?h" and d: "dom (rh_dismissed ?h) = asked_to_dismiss es" by simp_all
  from assms(2) have "distinct (map rec_ID (Generate w now st incidents))" by (simp add: distinct_ids_def)
  from getCached_ok [OF ok this] have "marked (rh_dismissed ?h) (snd (getCachedOrGenerate w st incidents now ?h))" by simp
  then have "r \<in> set (snd (getCachedOrGenerate w st incidents now ?h)) \<Longrightarrow> rec_ID r \<in> asked_to_dismiss es \<Longrightarrow> rec_Dismissed r" for r
    by (simp add: marked_def d)
  moreover have "fst (snd (rec_handleList w st incidents now category include_dismissed ?h)) =
      shown_recs category include_dismissed (snd (getCachedOrGenerate w st incidents now ?h))"
    by (simp add: rec_handleList_def Let_def split: prod.split)
  ultimately show ?thesis using assms(3) by (auto simp: shown_recs_def Let_def)
qed

definition sample_single :: State where
  "sample_single = \<lparr>st_Checks = [zero_check\<lparr>chk_ID := ''api'', chk_Server := ''web'', chk_Type := ''api''\<rparr>],
     st_Results = [], st_LastRunAt = 0, st_UpdatedAt = 0\<rparr>"

lemma sample_digest: "rw_digest sample_rec_world s = s"
  by (simp add: sample_rec_world_def)

lemma sample_single_generates:
  "Generate sample_rec_world now sample_single [] = [low_coverage sample_rec_world now ''web'' [''api'']]"
proof -
  have "thresholdSuggestions sample_rec_world now sample_single = []"
    and "stuckDetection sample_rec_world now sample_single [] = []"
    by (simp_all add: thresholdSuggestions_def threshold_recs_def stuckDetection_def stuck_recs_def sample_single_def
        MinResultsForThreshold_def zero_check_def)
  moreover have "coverageGaps sample_rec_world now sample_single = [low_coverage sample_rec_world now ''web'' [''api'']]"
    by (simp add: coverageGaps_def server_checks_def add_type_def sample_single_def zero_check_def ranged_def sample_rec_world_def
        coverage_recs_def MinChecksPerServer_def)
  ultimately show ?thesis by (simp add: Generate_def by_priority_def sample_rec_world_def)
qed

theorem dismissed_stay_hidden_witness:
  "''rec_coverage-low_coverage-low:web'' \<in> set (map rec_ID (fst (snd (rec_handleList sample_rec_world sample_single [] 0 [] [] (rec_history sample_rec_world []))))) \<and>
   ''rec_coverage-low_coverage-low:web'' \<notin> set (map rec_ID (fst (snd (rec_handleList sample_rec_world sample_single [] 7 [] []
      (rec_history sample_rec_world [(0, RList sample_single [] [] []), (5, RDismiss ''rec_coverage-low_coverage-low:web'')])))))"
proof
  let ?es = "[(0, RList sample_single [] [] []), (5, RDismiss ''rec_coverage-low_coverage-low:web'')]"
  show "''rec_coverage-low_coverage-low:web'' \<in> set (map rec_ID (fst (snd (rec_handleList sample_rec_world sample_single [] 0 [] [] (rec_history sample_rec_world [])))))"
    by (simp add: rec_handleList_def getCachedOrGenerate_def rec_history_def rh_NewHandler_def cache_fresh_def applyDismissals_def
        sample_single_generates shown_recs_def low_coverage_def recID_def sample_digest Let_def)
  have "\<forall>e \<in> set ?es. distinct_ids sample_rec_world e" and "distinct_ids sample_rec_world (7, RList sample_single [] [] [])"
    by (simp_all add: distinct_ids_def sample_single_generates)
  from dismissed_stay_hidden [OF this]
  show "''rec_coverage-low_coverage-low:web'' \<notin> set (map rec_ID (fst (snd (rec_handleList sample_rec_world sample_single [] 7 [] []
      (rec_history sample_rec_world ?es)))))"
    unfolding asked_to_dismiss_def by auto
qed

end
