(* ===== verification/Evidence.thy ===== *)
theory Evidence
  imports Recommend ServerMetrics AuditTrail Incidents
begin

text \<open>
  The evidence of an incident (\<open>evidence/providers.go\<close>, \<open>provider.go\<close>, \<open>context_builder.go\<close>,
  \<open>confidence.go\<close>, \<open>mysql_incident_evidence.go\<close>): snapshots captured when an incident opens, the providers that turn
  what HealthOps has stored into events, the builder that collects, sorts and limits them, the prompt and the
  confidence. Repositories that a provider asks, JSON, the digits of a SHA-256, the format of a time, the order of
  ranging over a map and of an unstable sort are arguments.
\<close>

section \<open>Snapshots\<close>

record IncidentSnapshot =
  sn_IncidentID :: string
  sn_SnapshotType :: string
  sn_Timestamp :: gotime
  sn_PayloadJSON :: string

text \<open>
  The repository with its JSONL file: what is in memory, and what is on disk. An append succeeds or fails (\<open>Some
  err\<close>), one answer for each snapshot; the rewriting of the file is one answer.
\<close>

record SnapshotRepo =
  sr_data :: "IncidentSnapshot list"
  sr_disk :: "IncidentSnapshot list"

definition NewFileSnapshotRepository :: "string + IncidentSnapshot list \<Rightarrow> string + SnapshotRepo" where
  "NewFileSnapshotRepository loaded =
     (case loaded of Inl err \<Rightarrow> Inl (''load snapshots: '' @ err) | Inr data \<Rightarrow> Inr \<lparr>sr_data = data, sr_disk = data\<rparr>)"

fun SaveSnapshots :: "string \<Rightarrow> (IncidentSnapshot \<times> string option) list \<Rightarrow> SnapshotRepo \<Rightarrow> SnapshotRepo \<times> string option" where
  "SaveSnapshots incidentID [] r = (r, None)"
| "SaveSnapshots incidentID ((snap, answer) # snaps) r =
     (let snap = snap\<lparr>sn_IncidentID := incidentID\<rparr>; r = r\<lparr>sr_data := sr_data r @ [snap]\<rparr>
      in case answer of
           Some err \<Rightarrow> (r, Some (''append snapshot: '' @ err))
         | None \<Rightarrow> SaveSnapshots incidentID snaps (r\<lparr>sr_disk := sr_disk r @ [snap]\<rparr>))"

definition GetSnapshots :: "string \<Rightarrow> SnapshotRepo \<Rightarrow> IncidentSnapshot list" where
  "GetSnapshots incidentID r = filter (\<lambda>s. sn_IncidentID s = incidentID) (sr_data r)"

definition snap_PruneBefore :: "gotime \<Rightarrow> string option \<Rightarrow> SnapshotRepo \<Rightarrow> SnapshotRepo \<times> string option" where
  "snap_PruneBefore cutoff answer r =
     (let pruned = filter (\<lambda>s. \<not> before (sn_Timestamp s) cutoff) (sr_data r); r = r\<lparr>sr_data := pruned\<rparr>
      in (case answer of None \<Rightarrow> r\<lparr>sr_disk := pruned\<rparr> | Some _ \<Rightarrow> r, answer))"

definition makeSnapshot :: "string \<Rightarrow> string \<Rightarrow> gotime \<Rightarrow> string \<Rightarrow> IncidentSnapshot" where
  "makeSnapshot incidentID snapType ts payload =
     \<lparr>sn_IncidentID = incidentID, sn_SnapshotType = snapType, sn_Timestamp = ts, sn_PayloadJSON = payload\<rparr>"

definition makeErrorSnapshot :: "(string \<Rightarrow> string) \<Rightarrow> string \<Rightarrow> string \<Rightarrow> gotime \<Rightarrow> string \<Rightarrow> IncidentSnapshot" where
  "makeErrorSnapshot error_json incidentID snapType ts err = makeSnapshot incidentID snapType ts (error_json err)"

definition captured :: "(string \<Rightarrow> string) \<Rightarrow> string \<Rightarrow> gotime \<Rightarrow> string \<Rightarrow> string + string \<Rightarrow> IncidentSnapshot" where
  "captured error_json incidentID now snapType answer =
     (case answer of
        Inl err \<Rightarrow> makeErrorSnapshot error_json incidentID snapType now err
      | Inr payload \<Rightarrow> makeSnapshot incidentID snapType now payload)"

text \<open>The queries, sent to the database in this order; \<open>queryToJSON\<close> is the argument \<open>query\<close>.\<close>

definition evidence_queries :: "(string \<times> string) list" where
  "evidence_queries = [
     (''processlist'', ''SELECT * FROM information_schema.PROCESSLIST ORDER BY TIME DESC LIMIT 50''),
     (''statement_analysis'', ''SELECT DIGEST_TEXT, COUNT_STAR, SUM_TIMER_WAIT, AVG_TIMER_WAIT FROM performance_schema.events_statements_summary_by_digest ORDER BY SUM_TIMER_WAIT DESC LIMIT 20''),
     (''host_summary'', ''SELECT HOST, CURRENT_CONNECTIONS, TOTAL_CONNECTIONS FROM performance_schema.hosts WHERE HOST IS NOT NULL ORDER BY CURRENT_CONNECTIONS DESC LIMIT 20''),
     (''user_summary'', ''SELECT USER, CURRENT_CONNECTIONS, TOTAL_CONNECTIONS FROM performance_schema.users WHERE USER IS NOT NULL ORDER BY CURRENT_CONNECTIONS DESC LIMIT 20''),
     (''host_cache'', ''SELECT IP, HOST, HOST_VALIDATED, SUM_CONNECT_ERRORS FROM performance_schema.host_cache ORDER BY SUM_CONNECT_ERRORS DESC LIMIT 20'')]"

definition captureDBEvidence ::
  "(string \<Rightarrow> string) \<Rightarrow> string \<Rightarrow> (string \<Rightarrow> string + string) \<Rightarrow> gotime \<Rightarrow> IncidentSnapshot list" where
  "captureDBEvidence error_json incidentID query now =
     map (\<lambda>(snapType, q). captured error_json incidentID now snapType (query q)) evidence_queries"

text \<open>The latest sample and the recent deltas of the check come as JSON or as an error; \<open>db\<close> may be nil.\<close>

definition CaptureEvidence ::
  "(string \<Rightarrow> string) \<Rightarrow> gotime \<Rightarrow> string \<Rightarrow> string + string \<Rightarrow> string + string \<Rightarrow> (string \<Rightarrow> string + string) option \<Rightarrow>
     IncidentSnapshot list" where
  "CaptureEvidence error_json now incidentID sample deltas db =
     [captured error_json incidentID now ''latest_sample'' sample, captured error_json incidentID now ''recent_deltas'' deltas] @
     (case db of None \<Rightarrow> [] | Some query \<Rightarrow> captureDBEvidence error_json incidentID query now)"

section \<open>Events\<close>

record SignalEvent =
  sg_ID :: string
  sg_TenantID :: string
  sg_Type :: string
  sg_Timestamp :: gotime
  sg_Severity :: string
  sg_Service :: string
  sg_Environment :: string
  sg_Host :: string
  sg_Source :: string
  sg_Fingerprint :: string
  sg_TraceID :: string
  sg_SpanID :: string
  sg_DeploymentID :: string
  sg_IncidentID :: string
  sg_Message :: string
  sg_Attributes :: smap
  sg_RedactionStatus :: string

definition zero_signal :: SignalEvent where
  "zero_signal = \<lparr>sg_ID = [], sg_TenantID = [], sg_Type = [], sg_Timestamp = zero_time, sg_Severity = [], sg_Service = [],
     sg_Environment = [], sg_Host = [], sg_Source = [], sg_Fingerprint = [], sg_TraceID = [], sg_SpanID = [],
     sg_DeploymentID = [], sg_IncidentID = [], sg_Message = [], sg_Attributes = [], sg_RedactionStatus = []\<rparr>"

record TimeWindow =
  tw_Start :: gotime
  tw_End :: gotime

definition signalID :: "(string \<Rightarrow> string) \<Rightarrow> string \<Rightarrow> string \<Rightarrow> gotime \<Rightarrow> string" where
  "signalID digest kind key ts = ''sig_'' @ digest (kind @ '':'' @ key @ '':'' @ itoa (unix_nano ts))"

definition truncate_text :: "string \<Rightarrow> nat \<Rightarrow> string" where
  "truncate_text s maxLen = (if length s \<le> maxLen then s else take maxLen s @ ''...'')"

definition em_dash :: string where "em_dash = [CHR 0xE2, CHR 0x80, CHR 0x94]"

section \<open>The providers\<close>

text \<open>Check results: those of all checks that finished in the window.\<close>

definition check_severity :: "string \<Rightarrow> string" where
  "check_severity status =
     (if status = ''critical'' \<or> status = ''error'' then ''critical''
      else if status = ''warning'' then ''warning'' else ''info'')"

definition check_signal :: "(string \<Rightarrow> string) \<Rightarrow> CheckConfig list \<Rightarrow> CheckResult \<Rightarrow> SignalEvent" where
  "check_signal digest checks r =
     (let check = (case find (\<lambda>c. chk_ID c = res_CheckID r) checks of None \<Rightarrow> zero_check | Some c \<Rightarrow> c);
          msg = chk_Type check @ '' check '' @ [CHR 0x27] @ chk_Name check @ [CHR 0x27] @ '': '' @ res_Status r;
          msg = (if res_Message r \<noteq> [] then msg @ '' '' @ em_dash @ '' '' @ res_Message r else msg);
          attrs = [(''checkId'', res_CheckID r), (''checkName'', chk_Name check), (''checkType'', chk_Type check), (''status'', res_Status r)];
          attrs = (if res_DurationMs r > 0 then attrs @ [(''latencyMs'', itoa (res_DurationMs r))] else attrs)
      in zero_signal\<lparr>sg_ID := signalID digest ''check'' (res_CheckID r) (res_FinishedAt r), sg_TenantID := ''default'',
           sg_Type := ''check'', sg_Timestamp := res_FinishedAt r, sg_Severity := check_severity (res_Status r),
           sg_Service := chk_Application check, sg_Host := chk_Server check, sg_Source := ''check_runner'',
           sg_Message := msg, sg_Attributes := attrs, sg_RedactionStatus := ''clean''\<rparr>)"

definition check_evidence :: "(string \<Rightarrow> string) \<Rightarrow> State \<Rightarrow> TimeWindow \<Rightarrow> SignalEvent list" where
  "check_evidence digest st window =
     map (check_signal digest (st_Checks st))
       (filter (\<lambda>r. \<not> (before (res_FinishedAt r) (tw_Start window) \<or> after (res_FinishedAt r) (tw_End window))) (st_Results st))"

text \<open>\<open>MySQLProvider\<close> has no evidence, whatever it is asked.\<close>

definition mysql_evidence :: "string \<Rightarrow> TimeWindow \<Rightarrow> string + SignalEvent list" where
  "mysql_evidence incidentID window = Inr []"

record MySQLSummary =
  my_ThreadsConnected :: int
  my_MaxConnections :: int
  my_ConnectionUtil :: f64
  my_ThreadsRunning :: int
  my_SlowQueries :: int

definition summarizeMySQLSample :: "(string \<Rightarrow> MySQLSummary option) \<Rightarrow> string \<Rightarrow> string" where
  "summarizeMySQLSample parse payloadJSON =
     (case parse payloadJSON of
        None \<Rightarrow> ''MySQL sample (parse error)''
      | Some s \<Rightarrow> ''MySQL: '' @ itoa (my_ThreadsConnected s) @ ''/'' @ itoa (my_MaxConnections s) @ '' connections (''
          @ fmt_fixed 1 (f_mul (my_ConnectionUtil s) 100) @ ''% util), '' @ itoa (my_ThreadsRunning s) @ '' threads running, ''
          @ itoa (my_SlowQueries s) @ '' slow queries'')"

definition payload_summary :: "(string \<Rightarrow> MySQLSummary option) \<Rightarrow> IncidentSnapshot \<Rightarrow> string" where
  "payload_summary parse snap =
     (if sn_SnapshotType snap = ''latest_sample'' then summarizeMySQLSample parse (sn_PayloadJSON snap)
      else if sn_SnapshotType snap = ''recent_deltas'' then ''MySQL rate-of-change metrics''
      else if sn_SnapshotType snap = ''processlist'' then ''Active MySQL processes''
      else if sn_SnapshotType snap = ''statement_analysis'' then ''Top queries by execution time''
      else sn_SnapshotType snap)"

definition snapshot_signal :: "(string \<Rightarrow> string) \<Rightarrow> (string \<Rightarrow> MySQLSummary option) \<Rightarrow> string \<Rightarrow> IncidentSnapshot \<Rightarrow> SignalEvent" where
  "snapshot_signal digest parse incidentID snap =
     zero_signal\<lparr>sg_ID := signalID digest ''mysql_snap'' incidentID (sn_Timestamp snap), sg_TenantID := ''default'',
       sg_Type := ''mysql'', sg_Timestamp := sn_Timestamp snap, sg_Severity := ''info'', sg_Source := ''mysql_collector'',
       sg_Message := payload_summary parse snap, sg_IncidentID := incidentID,
       sg_Attributes := [(''snapshotType'', sn_SnapshotType snap), (''payload'', truncate_text (sn_PayloadJSON snap) 2000)],
       sg_RedactionStatus := ''clean''\<rparr>"

definition snapshot_evidence ::
  "(string \<Rightarrow> string) \<Rightarrow> (string \<Rightarrow> MySQLSummary option) \<Rightarrow> (string \<Rightarrow> string + IncidentSnapshot list) option \<Rightarrow> string \<Rightarrow>
     string + SignalEvent list" where
  "snapshot_evidence digest parse repo incidentID =
     (case repo of
        None \<Rightarrow> Inr []
      | Some get \<Rightarrow>
          (case get incidentID of
             Inl err \<Rightarrow> Inl (''get mysql snapshots: '' @ err)
           | Inr snapshots \<Rightarrow> Inr (map (snapshot_signal digest parse incidentID) snapshots)))"

text \<open>Server metrics of the servers that the checks name; a server whose snapshots cannot be read is left out.\<close>

definition server_severity :: "ServerSnapshot \<Rightarrow> string" where
  "server_severity snap =
     (if ss_CPUUsagePercent snap > 90 \<or> ss_MemoryUsagePercent snap > 90 \<or> ss_DiskUsagePercent snap > 90 then ''warning'' else ''info'')"

definition server_signal :: "(string \<Rightarrow> string) \<Rightarrow> string \<Rightarrow> ServerSnapshot \<Rightarrow> SignalEvent" where
  "server_signal digest serverID snap =
     zero_signal\<lparr>sg_ID := signalID digest ''server'' serverID (ss_Timestamp snap), sg_TenantID := ''default'', sg_Type := ''server'',
       sg_Timestamp := ss_Timestamp snap, sg_Severity := server_severity snap, sg_Host := serverID, sg_Source := ''ssh_collector'',
       sg_Message := ''Server '' @ serverID @ '': CPU '' @ fmt_fixed 1 (ss_CPUUsagePercent snap) @ ''%, Mem ''
         @ fmt_fixed 1 (ss_MemoryUsagePercent snap) @ ''%, Disk '' @ fmt_fixed 1 (ss_DiskUsagePercent snap) @ ''%'',
       sg_Attributes := [(''serverId'', serverID), (''cpuPercent'', fmt_fixed 1 (ss_CPUUsagePercent snap)),
         (''memPercent'', fmt_fixed 1 (ss_MemoryUsagePercent snap)), (''diskPercent'', fmt_fixed 1 (ss_DiskUsagePercent snap)),
         (''loadAvg1'', fmt_fixed 2 (ss_LoadAvg1 snap)), (''loadAvg5'', fmt_fixed 2 (ss_LoadAvg5 snap))],
       sg_RedactionStatus := ''clean''\<rparr>"

definition server_evidence ::
  "(string \<Rightarrow> string) \<Rightarrow> (string list \<Rightarrow> string list) \<Rightarrow> (string \<Rightarrow> gotime \<Rightarrow> gotime \<Rightarrow> string + ServerSnapshot list) option \<Rightarrow>
     State \<Rightarrow> TimeWindow \<Rightarrow> SignalEvent list" where
  "server_evidence digest ord repo st window =
     (case repo of
        None \<Rightarrow> []
      | Some get \<Rightarrow>
          concat (map (\<lambda>serverID. case get serverID (tw_Start window) (tw_End window) of
                         Inl _ \<Rightarrow> []
                       | Inr snapshots \<Rightarrow> map (server_signal digest serverID) snapshots)
            (ranged ord (remdups (filter (\<lambda>s. s \<noteq> []) (map chk_Server (st_Checks st)))))))"

definition audit_signal :: "(string \<Rightarrow> string) \<Rightarrow> ('j option \<Rightarrow> string) \<Rightarrow> 'j AuditEvent \<Rightarrow> SignalEvent" where
  "audit_signal digest json ae =
     zero_signal\<lparr>sg_ID := signalID digest ''audit'' (ev_ID ae) (ev_Timestamp ae), sg_TenantID := ''default'', sg_Type := ''audit'',
       sg_Timestamp := ev_Timestamp ae, sg_Severity := ''info'', sg_Source := ''audit_log'',
       sg_Message := ''['' @ ev_Action ae @ ''] '' @ ev_Action ae @ '' on '' @ ev_Target ae @ ''/'' @ ev_TargetID ae @ '' by '' @ ev_Actor ae,
       sg_Attributes := [(''action'', ev_Action ae), (''actor'', ev_Actor ae), (''target'', ev_Target ae),
         (''targetId'', ev_TargetID ae), (''details'', truncate_text (json (ev_Details ae)) 500)],
       sg_RedactionStatus := ''clean''\<rparr>"

definition audit_evidence ::
  "(string \<Rightarrow> string) \<Rightarrow> ('j option \<Rightarrow> string) \<Rightarrow> (AuditFilter \<Rightarrow> string + 'j AuditEvent list) option \<Rightarrow> TimeWindow \<Rightarrow>
     string + SignalEvent list" where
  "audit_evidence digest json repo window =
     (case repo of
        None \<Rightarrow> Inr []
      | Some list_events \<Rightarrow>
          (case list_events \<lparr>af_Action = [], af_Actor = [], af_Target = [], af_TargetID = [], af_StartTime = tw_Start window,
                             af_EndTime = tw_End window, af_Limit = 50, af_Offset = 0\<rparr> of
             Inl err \<Rightarrow> Inl (''list audit events: '' @ err)
           | Inr es \<Rightarrow> Inr (map (audit_signal digest json) es)))"

text \<open>Earlier incidents: all others that started in the week before the window or in it.\<close>

definition history_signal :: "(string \<Rightarrow> string) \<Rightarrow> Incident \<Rightarrow> SignalEvent" where
  "history_signal digest inc =
     zero_signal\<lparr>sg_ID := signalID digest ''incident'' (inc_ID inc) (inc_StartedAt inc), sg_TenantID := ''default'', sg_Type := ''check'',
       sg_Timestamp := inc_StartedAt inc, sg_Severity := inc_Severity inc, sg_Source := ''incident_manager'',
       sg_Message := ''Previous incident ['' @ inc_Status inc @ ''] on check '' @ [CHR 0x27] @ inc_CheckName inc @ [CHR 0x27] @ '': ''
         @ inc_Severity inc @ '' '' @ em_dash @ '' '' @ inc_Message inc,
       sg_Attributes := [(''incidentId'', inc_ID inc), (''checkId'', inc_CheckID inc), (''checkName'', inc_CheckName inc),
         (''status'', inc_Status inc), (''severity'', inc_Severity inc)] @
         (case inc_ResolvedAt inc of None \<Rightarrow> []
          | Some t \<Rightarrow> [(''durationMin'', fmt_fixed 1 (duration_minutes (time_sub t (inc_StartedAt inc))))]),
       sg_RedactionStatus := ''clean''\<rparr>"

definition history_evidence ::
  "(string \<Rightarrow> string) \<Rightarrow> (Incident list \<times> string option) option \<Rightarrow> string \<Rightarrow> TimeWindow \<Rightarrow> string + SignalEvent list" where
  "history_evidence digest listed incidentID window =
     (case listed of
        None \<Rightarrow> Inr []
      | Some (_, Some err) \<Rightarrow> Inl (''list incidents: '' @ err)
      | Some (incidents, None) \<Rightarrow>
          Inr (map (history_signal digest) (filter (\<lambda>inc. inc_ID inc \<noteq> incidentID \<and>
            \<not> (before (inc_StartedAt inc) (time_add (tw_Start window) (- (7 * 24 * hour))) \<or> after (inc_StartedAt inc) (tw_End window)))
            incidents)))"

section \<open>Collecting\<close>

record Provider =
  pv_Category :: string
  pv_Collect :: "string \<Rightarrow> TimeWindow \<Rightarrow> string + SignalEvent list"

definition NewRegistry :: "Provider list" where "NewRegistry = []"

definition registry_Register :: "Provider \<Rightarrow> Provider list \<Rightarrow> Provider list" where
  "registry_Register p r = r @ [p]"

definition registry_Providers :: "Provider list \<Rightarrow> Provider list" where
  "registry_Providers r = r"

definition registry_Categories :: "Provider list \<Rightarrow> string list" where
  "registry_Categories r = map pv_Category r"

record ContextBuilder =
  cb_registry :: "Provider list"
  cb_evidenceCap :: int

definition DefaultEvidenceCap :: int where "DefaultEvidenceCap = 50"

definition NewContextBuilder :: "Provider list \<Rightarrow> ContextBuilder" where
  "NewContextBuilder r = \<lparr>cb_registry = r, cb_evidenceCap = DefaultEvidenceCap\<rparr>"

definition SetEvidenceCap :: "int \<Rightarrow> ContextBuilder \<Rightarrow> ContextBuilder" where
  "SetEvidenceCap cap b = (if cap > 0 then b\<lparr>cb_evidenceCap := cap\<rparr> else b)"

record CollectedEvidence =
  ce_Events :: "SignalEvent list"
  ce_ByCategory :: "(string \<times> SignalEvent list) list"
  ce_AvailableCategories :: "string list"
  ce_MissingCategories :: "string list"
  ce_WasCapped :: bool
  ce_TotalBeforeCap :: int

definition no_evidence :: CollectedEvidence where
  "no_evidence = \<lparr>ce_Events = [], ce_ByCategory = [], ce_AvailableCategories = [], ce_MissingCategories = [],
     ce_WasCapped = False, ce_TotalBeforeCap = 0\<rparr>"

definition category_events :: "CollectedEvidence \<Rightarrow> string \<Rightarrow> SignalEvent list" where
  "category_events ce cat = (case map_of (ce_ByCategory ce) cat of None \<Rightarrow> [] | Some es \<Rightarrow> es)"

definition important :: "SignalEvent \<Rightarrow> bool" where
  "important e \<longleftrightarrow> sg_Severity e = ''critical'' \<or> sg_Severity e = ''warning''"

text \<open>\<open>sort.Slice\<close> by ascending time, with its choice of an order of equal times.\<close>

definition by_time :: "(SignalEvent list \<Rightarrow> SignalEvent list) \<Rightarrow> SignalEvent list \<Rightarrow> SignalEvent list" where
  "by_time ord es = newest_first (\<lambda>e. - sg_Timestamp e) ord es"

definition capEvents :: "(SignalEvent list \<Rightarrow> SignalEvent list) \<Rightarrow> SignalEvent list \<Rightarrow> int \<Rightarrow> SignalEvent list" where
  "capEvents ord es cap =
     (let imp = filter important es; info = filter (\<lambda>e. \<not> important e) es
      in if int (length imp) \<ge> cap then take (nat cap) imp
         else
           let remaining = cap - int (length imp);
               remaining = (if remaining > int (length info) then int (length info) else remaining);
               recentInfo = drop (length info - nat remaining) info
           in by_time ord (imp @ recentInfo))"

text \<open>\<open>ended k\<close> is the error of the context, if it has ended before the provider \<open>k\<close> is asked.\<close>

fun collect_loop ::
  "(nat \<Rightarrow> string option) \<Rightarrow> nat \<Rightarrow> Provider list \<Rightarrow> string \<Rightarrow> TimeWindow \<Rightarrow> CollectedEvidence \<Rightarrow> string + CollectedEvidence" where
  "collect_loop ended k [] incidentID window result = Inr result"
| "collect_loop ended k (p # ps) incidentID window result =
     (case ended k of
        Some err \<Rightarrow> Inl err
      | None \<Rightarrow>
          (case pv_Collect p incidentID window of
             Inl err \<Rightarrow> collect_loop ended (k + 1) ps incidentID window result
           | Inr es \<Rightarrow>
               if length es > 0 then
                 collect_loop ended (k + 1) ps incidentID window
                   (result\<lparr>ce_ByCategory := AList.update (pv_Category p) es (ce_ByCategory result),
                           ce_Events := ce_Events result @ es,
                           ce_AvailableCategories := ce_AvailableCategories result @ [pv_Category p]\<rparr>)
               else
                 collect_loop ended (k + 1) ps incidentID window
                   (result\<lparr>ce_MissingCategories := ce_MissingCategories result @ [pv_Category p]\<rparr>)))"

definition collect_evidence ::
  "(nat \<Rightarrow> string option) \<Rightarrow> (SignalEvent list \<Rightarrow> SignalEvent list) \<Rightarrow> ContextBuilder \<Rightarrow> string \<Rightarrow> TimeWindow \<Rightarrow>
     string + CollectedEvidence" where
  "collect_evidence ended ord b incidentID window =
     (case collect_loop ended 0 (registry_Providers (cb_registry b)) incidentID window no_evidence of
        Inl err \<Rightarrow> Inl err
      | Inr result \<Rightarrow>
          let es = by_time ord (ce_Events result); total = int (length es);
              result = result\<lparr>ce_Events := es, ce_TotalBeforeCap := total\<rparr>
          in Inr (if total > cb_evidenceCap b
                  then result\<lparr>ce_WasCapped := True, ce_Events := capEvents ord es (cb_evidenceCap b)\<rparr> else result))"

section \<open>The prompt\<close>

text \<open>How times are formatted, and in which order a map is ranged over.\<close>

record PromptWorld =
  po_rfc3339 :: "gotime \<Rightarrow> string"
  po_attrs :: "smap \<Rightarrow> smap"

definition newline :: string where "newline = [CHR 0x0A]"

definition event_line :: "PromptWorld \<Rightarrow> SignalEvent \<Rightarrow> string" where
  "event_line w e = ''['' @ po_rfc3339 w (sg_Timestamp e) @ ''] ['' @ sg_Severity e @ ''] '' @ sg_Message e @ newline"

definition event_attributes :: "PromptWorld \<Rightarrow> SignalEvent \<Rightarrow> string" where
  "event_attributes w e = concat (map (\<lambda>(k, v). if k = ''payload'' then [] else ''  '' @ k @ '': '' @ v @ newline)
     (ranged (po_attrs w) (sg_Attributes e)))"

definition section_head :: "CollectedEvidence \<Rightarrow> string \<Rightarrow> string" where
  "section_head ce cat = ''--- '' @ to_upper cat @ '' ('' @ itoa (int (length (category_events ce cat))) @ '' items) ---'' @ newline"

definition prompt_section :: "PromptWorld \<Rightarrow> CollectedEvidence \<Rightarrow> string \<Rightarrow> string" where
  "prompt_section w ce cat =
     section_head ce cat @ concat (map (\<lambda>e. event_line w e @ event_attributes w e) (category_events ce cat)) @ newline"

definition prompt_head :: "CollectedEvidence \<Rightarrow> string" where
  "prompt_head ce =
     ''=== EVIDENCE START ==='' @ newline @ ''Total evidence items: '' @ itoa (int (length (ce_Events ce)))
     @ (if ce_WasCapped ce then '' (capped from '' @ itoa (ce_TotalBeforeCap ce) @ '')'' else []) @ newline
     @ ''Categories with evidence: '' @ join '', '' (ce_AvailableCategories ce) @ newline
     @ (if ce_MissingCategories ce \<noteq> [] then ''Categories without evidence: '' @ join '', '' (ce_MissingCategories ce) @ newline else [])
     @ newline"

definition FormatForPrompt :: "PromptWorld \<Rightarrow> CollectedEvidence \<Rightarrow> string" where
  "FormatForPrompt w ce =
     (if ce_Events ce = [] then ''No evidence collected.''
      else prompt_head ce @ concat (map (prompt_section w ce) (ce_AvailableCategories ce)) @ ''=== EVIDENCE END ==='' @ newline)"

section \<open>Confidence\<close>

record ConfidenceBreakdown =
  bd_HasDeploymentCorrelation :: bool
  bd_HasMetricAnomaly :: bool
  bd_HasLogFingerprintSpike :: bool
  bd_HasSimilarPastIncident :: bool
  bd_EvidenceCount :: int
  bd_EvidenceCountNormalized :: f64
  bd_AvailableCategories :: int
  bd_TotalPossibleCategories :: int

record ConfidenceScore =
  cs_Score :: f64
  cs_Band :: string
  cs_Breakdown :: ConfidenceBreakdown

definition metric_anomaly :: "SignalEvent \<Rightarrow> bool" where
  "metric_anomaly e \<longleftrightarrow> (sg_Type e = ''server'' \<or> sg_Type e = ''mysql'') \<and> (sg_Severity e = ''warning'' \<or> sg_Severity e = ''critical'')"

definition past_incident :: "SignalEvent \<Rightarrow> bool" where
  "past_incident e \<longleftrightarrow> sg_Type e = ''check'' \<and> sg_Source e = ''incident_manager''"

definition confidence_breakdown :: "CollectedEvidence \<Rightarrow> ConfidenceBreakdown" where
  "confidence_breakdown ce =
     (let ecn = f_div (f_of_int (int (length (ce_Events ce)))) 10
      in \<lparr>bd_HasDeploymentCorrelation = False, bd_HasMetricAnomaly = list_ex metric_anomaly (ce_Events ce),
          bd_HasLogFingerprintSpike = False, bd_HasSimilarPastIncident = list_ex past_incident (ce_Events ce),
          bd_EvidenceCount = int (length (ce_Events ce)), bd_EvidenceCountNormalized = (if ecn > 1 then 1 else ecn),
          bd_AvailableCategories = int (length (ce_AvailableCategories ce)),
          bd_TotalPossibleCategories = int (length (ce_AvailableCategories ce)) + int (length (ce_MissingCategories ce))\<rparr>)"

definition fifth :: f64 where "fifth = fl64 (2 / 10)"

definition confidence_score :: "ConfidenceBreakdown \<Rightarrow> f64" where
  "confidence_score bd =
     (let score = 0;
          score = (if bd_HasDeploymentCorrelation bd then f_add score fifth else score);
          score = (if bd_HasMetricAnomaly bd then f_add score fifth else score);
          score = (if bd_HasLogFingerprintSpike bd then f_add score fifth else score);
          score = (if bd_HasSimilarPastIncident bd then f_add score fifth else score);
          score = f_add score (f_mul fifth (bd_EvidenceCountNormalized bd));
          score = (if score < 0 then 0 else score)
      in if score > 1 then 1 else score)"

definition confidence_band :: "f64 \<Rightarrow> string" where
  "confidence_band score =
     (if score > 3 / 4 then ''high'' else if score \<ge> fl64 (4 / 10) then ''medium'' else ''low'')"

definition ComputeConfidence :: "CollectedEvidence \<Rightarrow> ConfidenceScore" where
  "ComputeConfidence ce =
     (let bd = confidence_breakdown ce; score = confidence_score bd
      in \<lparr>cs_Score = score, cs_Band = confidence_band score, cs_Breakdown = bd\<rparr>)"

section \<open>What is collected\<close>

text \<open>The answers of the providers that did not fail, in the order in which they were asked.\<close>

definition answers :: "Provider list \<Rightarrow> string \<Rightarrow> TimeWindow \<Rightarrow> (string \<times> SignalEvent list) list" where
  "answers ps incidentID window =
     concat (map (\<lambda>p. case pv_Collect p incidentID window of Inl _ \<Rightarrow> [] | Inr es \<Rightarrow> [(pv_Category p, es)]) ps)"

definition all_evidence :: "ContextBuilder \<Rightarrow> string \<Rightarrow> TimeWindow \<Rightarrow> SignalEvent list" where
  "all_evidence b incidentID window = concat (map snd (answers (cb_registry b) incidentID window))"

definition put_category :: "(string \<times> SignalEvent list) list \<Rightarrow> string \<times> SignalEvent list \<Rightarrow> (string \<times> SignalEvent list) list" where
  "put_category m e = AList.update (fst e) (snd e) m"

lemma answers_Cons:
  "answers (p # ps) incidentID window =
     (case pv_Collect p incidentID window of Inl _ \<Rightarrow> [] | Inr es \<Rightarrow> [(pv_Category p, es)]) @ answers ps incidentID window"
  by (simp add: answers_def)

lemma collect_loop_collects:
  "collect_loop ended k ps incidentID window r = Inr r' \<Longrightarrow>
     ce_Events r' = ce_Events r @ concat (map snd (answers ps incidentID window)) \<and>
     ce_AvailableCategories r' = ce_AvailableCategories r @ map fst (filter (\<lambda>e. snd e \<noteq> []) (answers ps incidentID window)) \<and>
     ce_MissingCategories r' = ce_MissingCategories r @ map fst (filter (\<lambda>e. snd e = []) (answers ps incidentID window)) \<and>
     ce_ByCategory r' = foldl put_category (ce_ByCategory r) (filter (\<lambda>e. snd e \<noteq> []) (answers ps incidentID window)) \<and>
     ce_WasCapped r' = ce_WasCapped r"
proof (induction ended k ps incidentID window r rule: collect_loop.induct)
  case (1 ended k incidentID window result)
  then show ?case by (simp add: answers_def)
next
  case (2 ended k p ps incidentID window result)
  from "2.prems" have e: "ended k = None" by (cases "ended k") simp_all
  show ?case
  proof (cases "pv_Collect p incidentID window")
    case (Inl err)
    with 2 e show ?thesis by (simp add: answers_Cons)
  next
    case (Inr es)
    with 2 e show ?thesis by (cases "es = []") (simp_all add: answers_Cons put_category_def)
  qed
qed

lemma mset_by_time [simp]: "mset (by_time ord es) = mset es"
  by (simp add: by_time_def)

lemma length_by_time [simp]: "length (by_time ord es) = length es"
  by (simp add: by_time_def)

lemma sorted_by_time: "sorted_wrt (\<lambda>x y. sg_Timestamp x \<le> sg_Timestamp y) (by_time ord es)"
  using sorted_newest_first [of "\<lambda>e. - sg_Timestamp e" ord es] by (simp add: by_time_def)

lemma count_filter: "size (filter_mset P (mset es)) = length (filter P es)"
  by (metis mset_filter size_mset)

lemma sorted_wrt_parts: "sorted_wrt R (xs @ ys) \<Longrightarrow> x \<in> set xs \<Longrightarrow> y \<in> set ys \<Longrightarrow> R x y"
  by (simp add: sorted_wrt_append)

lemma capEvents_keeps:
  assumes cap: "0 < cap" "cap < int (length es)" and srt: "sorted_wrt (\<lambda>x y. sg_Timestamp x \<le> sg_Timestamp y) es"
  shows "int (length (capEvents ord es cap)) = cap" (is ?n)
    and "mset (capEvents ord es cap) \<subseteq># mset es" (is ?sub)
    and "sorted_wrt (\<lambda>x y. sg_Timestamp x \<le> sg_Timestamp y) (capEvents ord es cap)" (is ?srt)
    and "int (length (filter important (capEvents ord es cap))) = min cap (int (length (filter important es)))" (is ?imp)
    and "d \<in># mset es - mset (capEvents ord es cap) \<Longrightarrow> e \<in> set (capEvents ord es cap) \<Longrightarrow> \<not> important e \<Longrightarrow>
      important d \<or> sg_Timestamp d \<le> sg_Timestamp e" (is "_ \<Longrightarrow> _ \<Longrightarrow> _ \<Longrightarrow> ?new")
proof -
  define imp where "imp = filter important es"
  define info where "info = filter (\<lambda>e. \<not> important e) es"
  have parts: "mset es = mset imp + mset info" by (simp add: imp_def info_def)
  then have len: "length es = length imp + length info" by (metis size_mset size_union)
  have important_imp: "filter important imp = imp" and important_info: "filter important info = []"
    by (simp_all add: imp_def info_def filter_empty_conv)
  have all: "?n \<and> ?sub \<and> ?srt \<and> ?imp \<and>
    (d \<in># mset es - mset (capEvents ord es cap) \<longrightarrow> e \<in> set (capEvents ord es cap) \<longrightarrow> \<not> important e \<longrightarrow> ?new)"
  proof (cases "cap \<le> int (length imp)")
    case True
    then have c: "capEvents ord es cap = take (nat cap) imp" by (simp add: capEvents_def imp_def [symmetric])
    have "sorted_wrt (\<lambda>x y. sg_Timestamp x \<le> sg_Timestamp y) imp" using srt by (simp add: imp_def sorted_wrt_filter)
    then have "sorted_wrt (\<lambda>x y. sg_Timestamp x \<le> sg_Timestamp y) (take (nat cap) imp)" by (rule sorted_wrt_take)
    moreover have "filter important (take (nat cap) imp) = take (nat cap) imp"
      by (auto simp: filter_id_conv imp_def dest: in_set_takeD)
    moreover have "mset (take (nat cap) imp) \<subseteq># mset es"
    proof -
      have "mset imp = mset (take (nat cap) imp) + mset (drop (nat cap) imp)" by (metis append_take_drop_id mset_append)
      then show ?thesis by (simp add: parts add.assoc)
    qed
    moreover have "e \<in> set (take (nat cap) imp) \<Longrightarrow> important e" by (auto simp: imp_def dest: in_set_takeD)
    ultimately show ?thesis using True cap by (auto simp: c imp_def [symmetric])
  next
    case False
    define k where "k = length es - nat cap"
    have k: "k \<le> length info" "length info - nat (cap - int (length imp)) = k" using False cap len by (auto simp: k_def)
    have "\<not> cap - int (length imp) > int (length info)" using cap len by simp
    then have c: "capEvents ord es cap = by_time ord (imp @ drop k info)"
      using False k by (simp add: capEvents_def imp_def [symmetric] info_def [symmetric])
    have n: ?n unfolding c using False cap len by (simp add: k_def)
    have split: "mset info = mset (take k info) + mset (drop k info)" by (metis append_take_drop_id mset_append)
    have sub: ?sub unfolding c mset_by_time mset_append parts split by simp
    have srt': ?srt unfolding c by (rule sorted_by_time)
    have "length (filter important (by_time ord (imp @ drop k info))) = length imp"
    proof -
      have "filter important (drop k info) = []" using important_info by (auto simp: filter_empty_conv dest: in_set_dropD)
      then have "length (filter important (imp @ drop k info)) = length imp" by (simp add: important_imp)
      moreover have "length (filter important (by_time ord (imp @ drop k info))) = length (filter important (imp @ drop k info))"
        by (metis mset_by_time mset_filter size_mset)
      ultimately show ?thesis by simp
    qed
    then have i: ?imp unfolding c imp_def [symmetric] using False by simp
    have new0: "?new" if "d \<in># mset es - mset (by_time ord (imp @ drop k info))" "e \<in> set (by_time ord (imp @ drop k info))" "\<not> important e"
    proof -
      have "mset es - mset (by_time ord (imp @ drop k info)) = mset (take k info)" by (simp add: parts split)
      then have d: "d \<in> set (take k info)" using that(1) by simp
      have "e \<in> set (imp @ drop k info)" using that(2) by (metis mset_by_time set_mset_mset)
      then have e: "e \<in> set (drop k info)" using that(3) by (auto simp: imp_def)
      have "sorted_wrt (\<lambda>x y. sg_Timestamp x \<le> sg_Timestamp y) (take k info @ drop k info)"
        using srt by (simp add: info_def sorted_wrt_filter)
      from sorted_wrt_parts [OF this d e] show ?thesis ..
    qed
    have new: "d \<in># mset es - mset (capEvents ord es cap) \<longrightarrow> e \<in> set (capEvents ord es cap) \<longrightarrow> \<not> important e \<longrightarrow> ?new"
      unfolding c by (intro impI new0)
    show ?thesis by (intro conjI n sub srt' i new)
  qed
  from all show ?n and ?sub and ?srt and ?imp by blast+
  from all show "d \<in># mset es - mset (capEvents ord es cap) \<Longrightarrow> e \<in> set (capEvents ord es cap) \<Longrightarrow> \<not> important e \<Longrightarrow> ?new" by blast
qed

text \<open>
  C16: what is collected of an incident, with a limit above zero: the events of all providers that answered, in order of
  time; with more events than the limit exactly as many as it allows, warnings and critical events first, and of the others the
  latest.
\<close>

theorem evidence_is_limited:
  assumes "collect_evidence ended ord b incidentID window = Inr ce" and "0 < cb_evidenceCap b"
  shows "ce_TotalBeforeCap ce = int (length (all_evidence b incidentID window)) \<and>
    (ce_WasCapped ce \<longleftrightarrow> cb_evidenceCap b < int (length (all_evidence b incidentID window))) \<and>
    int (length (ce_Events ce)) = min (cb_evidenceCap b) (int (length (all_evidence b incidentID window))) \<and>
    mset (ce_Events ce) \<subseteq># mset (all_evidence b incidentID window) \<and>
    sorted_wrt (\<lambda>x y. sg_Timestamp x \<le> sg_Timestamp y) (ce_Events ce) \<and>
    int (length (filter important (ce_Events ce))) = min (cb_evidenceCap b) (int (length (filter important (all_evidence b incidentID window)))) \<and>
    (\<forall>d e. d \<in># mset (all_evidence b incidentID window) - mset (ce_Events ce) \<longrightarrow> e \<in> set (ce_Events ce) \<longrightarrow> \<not> important e \<longrightarrow>
      important d \<or> sg_Timestamp d \<le> sg_Timestamp e)"
proof -
  from assms(1) obtain r where r: "collect_loop ended 0 (cb_registry b) incidentID window no_evidence = Inr r"
    by (auto simp: collect_evidence_def registry_Providers_def split: sum.splits)
  from collect_loop_collects [OF r] have all: "ce_Events r = all_evidence b incidentID window" and nc: "\<not> ce_WasCapped r"
    by (simp_all add: no_evidence_def all_evidence_def)
  define es where "es = by_time ord (ce_Events r)"
  have m: "mset es = mset (all_evidence b incidentID window)" and l: "length es = length (all_evidence b incidentID window)"
    by (simp_all add: es_def all)
  have i: "length (filter important es) = length (filter important (all_evidence b incidentID window))"
    by (metis count_filter m)
  have srt: "sorted_wrt (\<lambda>x y. sg_Timestamp x \<le> sg_Timestamp y) es" unfolding es_def by (rule sorted_by_time)
  show ?thesis
  proof (cases "cb_evidenceCap b < int (length es)")
    case True
    with assms(1) have ce: "ce_Events ce = capEvents ord es (cb_evidenceCap b)" "ce_WasCapped ce" "ce_TotalBeforeCap ce = int (length es)"
      by (auto simp: collect_evidence_def registry_Providers_def r es_def Let_def)
    note k = capEvents_keeps [OF assms(2) True srt]
    show ?thesis
      unfolding ce(1) m [symmetric] l [symmetric] i [symmetric]
      using ce(2,3) True k(1) k(2) k(3) k(4) k(5) by (intro conjI allI impI) simp_all
  next
    case False
    with assms(1) have ce: "ce_Events ce = es" "\<not> ce_WasCapped ce" "ce_TotalBeforeCap ce = int (length es)"
      using nc by (auto simp: collect_evidence_def registry_Providers_def r es_def Let_def)
    have "int (length (filter important es)) \<le> cb_evidenceCap b" using length_filter_le [of important es] False by linarith
    then show ?thesis unfolding ce(1) m [symmetric] l [symmetric] i [symmetric] using ce(2,3) False srt by simp
  qed
qed

definition sample_signal :: "string \<Rightarrow> string \<Rightarrow> gotime \<Rightarrow> SignalEvent" where
  "sample_signal i severity t = zero_signal\<lparr>sg_ID := i, sg_Type := ''server'', sg_Severity := severity, sg_Timestamp := t, sg_Message := i\<rparr>"

definition sample_provider :: Provider where
  "sample_provider = \<lparr>pv_Category = ''server_metrics'', pv_Collect = (\<lambda>_ _. Inr [sample_signal ''c'' ''info'' 3, sample_signal ''a'' ''warning'' 1, sample_signal ''b'' ''info'' 2])\<rparr>"

theorem evidence_is_limited_witness:
  "\<exists>ce. collect_evidence (\<lambda>_. None) id (SetEvidenceCap 2 (NewContextBuilder [sample_provider])) ''inc'' \<lparr>tw_Start = 0, tw_End = 9\<rparr> = Inr ce \<and>
    length (ce_Events ce) = 2 \<and> ce_WasCapped ce \<and> ce_TotalBeforeCap ce = 3"
proof -
  let ?b = "SetEvidenceCap 2 (NewContextBuilder [sample_provider])"
  obtain ce where ce: "collect_evidence (\<lambda>_. None) id ?b ''inc'' \<lparr>tw_Start = 0, tw_End = 9\<rparr> = Inr ce"
    by (simp add: collect_evidence_def registry_Providers_def SetEvidenceCap_def NewContextBuilder_def sample_provider_def Let_def)
  have "cb_evidenceCap ?b = 2" "length (all_evidence ?b ''inc'' \<lparr>tw_Start = 0, tw_End = 9\<rparr>) = 3"
    by (simp_all add: SetEvidenceCap_def NewContextBuilder_def sample_provider_def all_evidence_def answers_def)
  with evidence_is_limited [OF ce] ce show ?thesis by auto
qed

section \<open>The registry of the program\<close>

text \<open>
  The providers in the order of \<open>main.go\<close>: two of them have the category \<open>mysql\<close>, and the second never has evidence,
  so whenever there are snapshots the category is listed as available and as missing. All snapshots that are captured
  together become events with one identifier.
\<close>

definition program_registry :: "(string \<Rightarrow> TimeWindow \<Rightarrow> string + SignalEvent list) \<Rightarrow> (string \<Rightarrow> TimeWindow \<Rightarrow> string + SignalEvent list) \<Rightarrow> bool \<Rightarrow>
    (string \<Rightarrow> TimeWindow \<Rightarrow> string + SignalEvent list) \<Rightarrow> (string \<Rightarrow> TimeWindow \<Rightarrow> string + SignalEvent list) \<Rightarrow>
    (string \<Rightarrow> TimeWindow \<Rightarrow> string + SignalEvent list) \<Rightarrow> Provider list" where
  "program_registry checks snapshots with_mysql servers history audit =
     (let r = registry_Register \<lparr>pv_Category = ''checks'', pv_Collect = checks\<rparr> NewRegistry;
          r = registry_Register \<lparr>pv_Category = ''mysql'', pv_Collect = snapshots\<rparr> r;
          r = (if with_mysql then registry_Register \<lparr>pv_Category = ''mysql'', pv_Collect = mysql_evidence\<rparr> r else r);
          r = registry_Register \<lparr>pv_Category = ''server_metrics'', pv_Collect = servers\<rparr> r;
          r = registry_Register \<lparr>pv_Category = ''incident_history'', pv_Collect = history\<rparr> r
      in registry_Register \<lparr>pv_Category = ''audit'', pv_Collect = audit\<rparr> r)"

section \<open>What the prompt shows\<close>

lemma put_categories:
  "distinct (map fst as) \<Longrightarrow> c \<in> fst ` set as \<Longrightarrow> map_of (foldl put_category m as) c = map_of as c"
proof (induction as rule: rev_induct)
  case (snoc a as)
  then show ?case by (cases "c \<in> fst ` set as") (auto simp: put_category_def update_conv' map_of_eq_None_iff image_iff map_add_def split: option.split)
qed simp

lemma within_concat: "x \<in> set xs \<Longrightarrow> f x = a @ y @ b \<Longrightarrow> \<exists>a b. p @ concat (map f xs) @ q = a @ y @ b"
proof -
  assume x: "x \<in> set xs" and f: "f x = a @ y @ b"
  obtain us vs where "xs = us @ x # vs" using split_list [OF x] by blast
  then have "p @ concat (map f xs) @ q = (p @ concat (map f us) @ a) @ y @ (b @ concat (map f vs) @ q)" by (simp add: f)
  then show ?thesis by blast
qed

lemma collected_some:
  assumes "collect_evidence ended ord b incidentID window = Inr ce" and "0 < cb_evidenceCap b" and "all_evidence b incidentID window \<noteq> []"
  shows "ce_Events ce \<noteq> []"
proof -
  from assms(1) obtain r where r: "collect_loop ended 0 (cb_registry b) incidentID window no_evidence = Inr r"
    by (auto simp: collect_evidence_def registry_Providers_def split: sum.splits)
  define es where "es = by_time ord (ce_Events r)"
  have "mset es = mset (all_evidence b incidentID window)"
    using collect_loop_collects [OF r] by (simp add: es_def no_evidence_def all_evidence_def)
  then have "es \<noteq> []" using assms(3) by auto
  moreover have "capEvents ord es (cb_evidenceCap b) \<noteq> []" if "cb_evidenceCap b < int (length es)"
    using capEvents_keeps(1) [OF assms(2) that, of ord] sorted_by_time [of ord "ce_Events r"] assms(2) by (auto simp: es_def)
  ultimately show ?thesis
    using assms(1) by (auto simp: collect_evidence_def registry_Providers_def r es_def [symmetric] Let_def split: if_splits)
qed

text \<open>Whatever the registry: where no two providers that found something have one category, nothing is left out.\<close>

lemma prompt_shows_answers:
  assumes "collect_evidence ended ord b incidentID window = Inr ce" and "0 < cb_evidenceCap b"
    and d: "distinct (map fst (filter (\<lambda>a. snd a \<noteq> []) (answers (cb_registry b) incidentID window)))"
    and "e \<in> set (all_evidence b incidentID window)"
  shows "\<exists>before_line after_line. FormatForPrompt w ce = before_line @ event_line w e @ after_line"
proof -
  from assms(1) obtain r where r: "collect_loop ended 0 (cb_registry b) incidentID window no_evidence = Inr r"
    by (auto simp: collect_evidence_def registry_Providers_def split: sum.splits)
  define as where "as = filter (\<lambda>a. snd a \<noteq> []) (answers (cb_registry b) incidentID window)"
  from collect_loop_collects [OF r] have r': "ce_AvailableCategories r = map fst as" "ce_ByCategory r = foldl put_category [] as"
    by (simp_all add: no_evidence_def as_def)
  moreover have "ce_AvailableCategories ce = ce_AvailableCategories r \<and> ce_ByCategory ce = ce_ByCategory r"
    using assms(1) by (auto simp: collect_evidence_def registry_Providers_def r Let_def split: if_splits)
  ultimately have ce: "ce_AvailableCategories ce = map fst as" "ce_ByCategory ce = foldl put_category [] as" by simp_all
  from assms(4) obtain c es where a: "(c, es) \<in> set as" "e \<in> set es"
    by (fastforce simp: all_evidence_def as_def)
  then have "map_of (ce_ByCategory ce) c = Some es"
    using put_categories [OF d, of c] d by (force simp: ce as_def)
  then have es: "category_events ce c = es" by (simp add: category_events_def)
  have "event_line w e @ event_attributes w e = [] @ event_line w e @ event_attributes w e" by simp
  from within_concat [OF a(2), of "\<lambda>e. event_line w e @ event_attributes w e", OF this]
  obtain x y where sec: "prompt_section w ce c = x @ event_line w e @ y" unfolding prompt_section_def es by blast
  have "c \<in> set (ce_AvailableCategories ce)" using a(1) by (force simp: ce)
  from within_concat [OF this, of "prompt_section w ce", OF sec] have
    "\<exists>a b. prompt_head ce @ concat (map (prompt_section w ce) (ce_AvailableCategories ce)) @ (''=== EVIDENCE END ==='' @ newline) =
      a @ event_line w e @ b" .
  moreover from assms(4) have "all_evidence b incidentID window \<noteq> []" by (metis list.set_cases neq_Nil_conv)
  then have "ce_Events ce \<noteq> []" by (rule collected_some [OF assms(1,2)])
  ultimately show ?thesis unfolding FormatForPrompt_def by (simp only: if_False)
qed

text \<open>Where two of them have one category, only what the later one found is shown, and that twice.\<close>

lemma later_provider_hides_earlier:
  assumes "cb_registry b = [\<lparr>pv_Category = c, pv_Collect = \<lambda>i t. Inr [e1]\<rparr>, \<lparr>pv_Category = c, pv_Collect = \<lambda>i t. Inr [e2]\<rparr>]"
    and "collect_evidence (\<lambda>_. None) ord b incidentID window = Inr ce"
  shows "category_events ce c = [e2] \<and> ce_AvailableCategories ce = [c, c]"
  using assms(2) by (auto simp: assms(1) collect_evidence_def registry_Providers_def no_evidence_def category_events_def Let_def update_conv')

text \<open>In the registry of the program the second provider of a category never finds anything.\<close>

lemma distinct_answers:
  assumes "distinct (map pv_Category ps)"
  shows "distinct (map fst (filter (\<lambda>a. snd a \<noteq> []) (answers ps incidentID window)))"
proof -
  have "distinct (map fst (answers ps incidentID window)) \<and> fst ` set (answers ps incidentID window) \<subseteq> pv_Category ` set ps"
    using assms by (induction ps) (auto simp: answers_def split: sum.splits)
  then show ?thesis by (simp add: distinct_map_filter)
qed

lemma program_categories:
  "distinct (map fst (filter (\<lambda>a. snd a \<noteq> []) (answers (program_registry checks snapshots m servers history audit) incidentID window)))"
proof -
  let ?rest = "program_registry checks snapshots False servers history audit"
  have "answers (ps @ [\<lparr>pv_Category = ''mysql'', pv_Collect = mysql_evidence\<rparr>] @ qs) incidentID window =
      answers ps incidentID window @ (''mysql'', []) # answers qs incidentID window" for ps qs
    by (simp add: answers_def mysql_evidence_def)
  from this [of "take 2 ?rest" "drop 2 ?rest"] have
    "filter (\<lambda>a. snd a \<noteq> []) (answers (program_registry checks snapshots m servers history audit) incidentID window) =
     filter (\<lambda>a. snd a \<noteq> []) (answers ?rest incidentID window)"
    by (cases m) (simp_all add: program_registry_def registry_Register_def NewRegistry_def answers_def Let_def)
  moreover have "distinct (map pv_Category ?rest)"
    by (simp add: program_registry_def registry_Register_def NewRegistry_def Let_def)
  ultimately show ?thesis using distinct_answers [of ?rest] by simp
qed

text \<open>
  C17: The limit on the evidence does not apply to the prompt: with the providers that \<open>main.go\<close> registers, the second
  of which for the category \<open>mysql\<close> never finds anything, the text for the model has a line for each event that
  any of them found.
\<close>

theorem prompt_shows_all_evidence:
  assumes "cb_registry b = program_registry checks snapshots with_mysql servers history audit"
    and "collect_evidence ended ord b incidentID window = Inr ce" and "0 < cb_evidenceCap b"
    and "e \<in> set (all_evidence b incidentID window)"
  shows "\<exists>before_line after_line. FormatForPrompt w ce = before_line @ event_line w e @ after_line"
  using prompt_shows_answers [OF assms(2,3) _ assms(4)] program_categories assms(1) by metis

definition sample_registry :: "Provider list" where
  "sample_registry = program_registry (pv_Collect sample_provider) (\<lambda>_ _. Inr [sample_signal ''s'' ''critical'' 3]) True
     (\<lambda>_ _. Inl ''down'') (\<lambda>_ _. Inr []) (\<lambda>_ _. Inr [])"

theorem prompt_shows_all_evidence_witness:
  "\<exists>ce x y. collect_evidence (\<lambda>_. None) id (SetEvidenceCap 1 (NewContextBuilder sample_registry)) ''inc'' \<lparr>tw_Start = 0, tw_End = 9\<rparr> = Inr ce \<and>
    FormatForPrompt \<lparr>po_rfc3339 = itoa, po_attrs = id\<rparr> ce = x @ ''[2] [info] b'' @ newline @ y"
proof -
  let ?b = "SetEvidenceCap 1 (NewContextBuilder sample_registry)" and ?w = "\<lparr>po_rfc3339 = itoa, po_attrs = id\<rparr>"
  let ?win = "\<lparr>tw_Start = 0, tw_End = 9\<rparr>" and ?e = "sample_signal ''b'' ''info'' 2"
  note unf = sample_registry_def program_registry_def registry_Register_def NewRegistry_def mysql_evidence_def
    SetEvidenceCap_def NewContextBuilder_def sample_provider_def Let_def
  obtain ce where ce: "collect_evidence (\<lambda>_. None) id ?b ''inc'' ?win = Inr ce"
    by (simp add: collect_evidence_def registry_Providers_def unf)
  have reg: "cb_registry ?b = program_registry (pv_Collect sample_provider) (\<lambda>_ _. Inr [sample_signal ''s'' ''critical'' 3]) True
     (\<lambda>_ _. Inl ''down'') (\<lambda>_ _. Inr []) (\<lambda>_ _. Inr [])"
    by (simp add: SetEvidenceCap_def NewContextBuilder_def sample_registry_def)
  have cap: "cb_evidenceCap ?b = 1" and e: "?e \<in> set (all_evidence ?b ''inc'' ?win)"
    by (simp_all add: unf all_evidence_def answers_def)
  have "itoa 2 = ''2''" by code_simp
  then have "event_line ?w ?e = ''[2] [info] b'' @ newline" by (simp add: event_line_def sample_signal_def zero_signal_def)
  then show ?thesis
    using prompt_shows_all_evidence [OF reg ce _ e, of ?w] cap ce by auto
qed

section \<open>Confidence\<close>

lemma confidence_values:
  "fifth = 3602879701896397 / 18014398509481984" "fl64 (4 / 10) = (3602879701896397 / 9007199254740992 :: rat)"
  by code_simp+

lemma fl64_confidence:
  "fl64 (3602879701896397 / 18014398509481984) = (3602879701896397 / 18014398509481984 :: rat)"
  "fl64 (3602879701896397 / 9007199254740992) = (3602879701896397 / 9007199254740992 :: rat)"
  "f_add (3602879701896397 / 18014398509481984) (f_mul (3602879701896397 / 18014398509481984) (f_div 9 10)) < 3602879701896397 / 9007199254740992"
  by code_simp+

lemma confidence_numbers:
  "f_add 0 fifth = fifth" "f_add fifth fifth = fl64 (4 / 10)" "f_mul fifth 1 = fifth" "0 < fifth"
  "f_add (fl64 (4 / 10)) fifth < 3 / 4" "f_add fifth (f_mul fifth (f_div 9 10)) < fl64 (4 / 10)" "fifth < fl64 (4 / 10)"
  "f_add (fl64 (4 / 10)) 0 = fl64 (4 / 10)" "f_add 0 0 = 0"
proof -
  have "fl64 (5 / 8) = (5 / 8 :: rat)" by code_simp
  then show "f_add (fl64 (4 / 10)) fifth < 3 / 4"
    using fl64_le [of "fl64 (4 / 10) + fifth" "5 / 8"] unfolding f_add_def confidence_values by simp
qed (unfold f_add_def f_mul_def confidence_values, use fl64_confidence [unfolded f_add_def f_mul_def] in simp_all)

lemma fifth_share:
  assumes "0 \<le> q" and "q \<le> 1"
  shows "0 \<le> f_mul fifth q" and "f_mul fifth q \<le> fifth"
proof -
  have "fifth * q \<le> fifth * 1" using assms confidence_numbers(4) by (intro mult_left_mono) simp_all
  then show "f_mul fifth q \<le> fifth" using fl64_mono [of "fifth * q" "fifth * 1"] confidence_numbers(3) by (simp add: f_mul_def)
  show "0 \<le> f_mul fifth q" using assms confidence_numbers(4) by (simp add: f_mul_def fl64_nonneg)
qed

text \<open>
  the confidence lies between 0 and 1 and its band is never high. It is medium exactly if
  there are a server or database warning and an earlier incident, or one of the two and at least ten pieces of evidence.
\<close>

theorem confidence_is_never_high:
  assumes "length (ce_Events ce) < 2 ^ 50"
  shows "0 \<le> cs_Score (ComputeConfidence ce) \<and> cs_Score (ComputeConfidence ce) < 3 / 4 \<and>
    cs_Band (ComputeConfidence ce) =
      (if list_ex metric_anomaly (ce_Events ce) \<and> list_ex past_incident (ce_Events ce) \<or>
          (list_ex metric_anomaly (ce_Events ce) \<or> list_ex past_incident (ce_Events ce)) \<and> 10 \<le> length (ce_Events ce)
       then ''medium'' else ''low'')"
proof -
  define n where "n = int (length (ce_Events ce))"
  define q where "q = (let ecn = f_div (f_of_int n) 10 in if ecn > 1 then 1 else ecn)"
  define s where "s = f_mul fifth q"
  have n: "0 \<le> n" "n < 2 ^ 50" using assms by (auto simp: n_def)
  then have fn: "f_of_int n = of_int n" by (simp add: f_of_int_def fl64_of_int_exact)
  have q0: "0 \<le> q" "q \<le> 1" using n fl64_nonneg [of "of_int n / 10"] by (auto simp: q_def fn f_div_def Let_def)
  note s0 = fifth_share [OF q0, folded s_def]
  have ten: "q = 1" if "10 \<le> n"
  proof -
    have "(1 :: rat) \<le> of_int n / 10" using that by simp
    then have "1 \<le> fl64 (of_int n / 10)" using fl64_ge [of 1 "of_int n / 10"] fl64_of_int_exact [of 1] by simp
    then show ?thesis by (auto simp: q_def fn f_div_def Let_def)
  qed
  have few: "q \<le> f_div 9 10" if "n < 10"
  proof -
    have "(of_int n :: rat) / 10 \<le> 9 / 10" using that by simp
    then have "fl64 (of_int n / 10) \<le> fl64 (9 / 10)" by (rule fl64_mono)
    moreover have "fl64 (9 / 10) \<le> (1 :: rat)" using fl64_le [of "9 / 10" 1] fl64_of_int_exact [of 1] by simp
    ultimately show ?thesis by (auto simp: q_def fn f_div_def Let_def)
  qed
  have add: "f_add a b \<le> f_add a' b'" if "a \<le> a'" "b \<le> b'" for a a' b b'
    using that by (simp add: f_add_def fl64_mono)
  define a where "a = list_ex metric_anomaly (ce_Events ce)"
  define p where "p = list_ex past_incident (ce_Events ce)"
  define t where "t = f_add (if p then f_add (if a then f_add 0 fifth else 0) fifth else if a then f_add 0 fifth else 0) s"
  have "cs_Score (ComputeConfidence ce) = (let score = (if t < 0 then 0 else t) in if score > 1 then 1 else score)"
    unfolding ComputeConfidence_def confidence_score_def confidence_breakdown_def Let_def t_def s_def q_def a_def p_def n_def by simp
  moreover have t0: "0 \<le> t" "t \<le> f_add (fl64 (4 / 10)) fifth" and band: "fl64 (4 / 10) \<le> t \<longleftrightarrow> a \<and> p \<or> (a \<or> p) \<and> 10 \<le> n"
  proof -
    have sq: "s \<le> f_mul fifth (f_div 9 10)" if "n < 10"
    proof -
      have "fifth * q \<le> fifth * f_div 9 10" using few [OF that] confidence_numbers(4) by (intro mult_left_mono) simp_all
      then show ?thesis unfolding s_def f_mul_def by (rule fl64_mono)
    qed
    consider "a" "p" | "a \<noteq> p" | "\<not> a" "\<not> p" by blast
    then have "0 \<le> t \<and> t \<le> f_add (fl64 (4 / 10)) fifth \<and> (fl64 (4 / 10) \<le> t \<longleftrightarrow> a \<and> p \<or> (a \<or> p) \<and> 10 \<le> n)"
    proof cases
      case 1
      then have t: "t = f_add (fl64 (4 / 10)) s" by (simp add: t_def confidence_numbers(1,2))
      have "f_add (fl64 (4 / 10)) 0 \<le> t" unfolding t using s0(1) by (intro add) simp_all
      then have "fl64 (4 / 10) \<le> t" by (simp only: confidence_numbers(8))
      moreover have "t \<le> f_add (fl64 (4 / 10)) fifth" unfolding t using s0(2) by (intro add) simp_all
      ultimately show ?thesis using 1 confidence_numbers(4,7) by simp
    next
      case 2
      then have t: "t = f_add fifth s" by (auto simp: t_def confidence_numbers(1))
      have "f_add 0 0 \<le> t" unfolding t using s0(1) confidence_numbers(4) by (intro add) simp_all
      then have "0 \<le> t" by (simp only: confidence_numbers(9))
      moreover have "t \<le> f_add (fl64 (4 / 10)) fifth" unfolding t using s0(2) confidence_numbers(7) by (intro add) simp_all
      moreover have "fl64 (4 / 10) \<le> t" if "10 \<le> n"
        using ten [OF that] by (simp only: t s_def confidence_numbers(2,3) order.refl)
      moreover have "t < fl64 (4 / 10)" if "n < 10"
      proof -
        have "t \<le> f_add fifth (f_mul fifth (f_div 9 10))" unfolding t using sq [OF that] by (intro add) simp_all
        then show ?thesis using confidence_numbers(6) by (rule le_less_trans)
      qed
      ultimately show ?thesis using 2 by (meson not_le)
    next
      case 3
      then have t: "t = f_add 0 s" by (simp add: t_def)
      have "f_add 0 0 \<le> t" unfolding t using s0(1) by (intro add) simp_all
      then have "0 \<le> t" by (simp only: confidence_numbers(9))
      moreover have "t \<le> fifth" using add [of 0 0 s fifth] s0(2) unfolding t confidence_numbers(1) by simp
      moreover have "fifth \<le> f_add (fl64 (4 / 10)) fifth"
        using add [of 0 "fl64 (4 / 10)" fifth fifth] confidence_numbers(1,4,7) by simp
      ultimately show ?thesis using 3 confidence_numbers(7) by (meson le_less_trans not_le order.trans)
    qed
    then show "0 \<le> t" "t \<le> f_add (fl64 (4 / 10)) fifth" "fl64 (4 / 10) \<le> t \<longleftrightarrow> a \<and> p \<or> (a \<or> p) \<and> 10 \<le> n" by blast+
  qed
  ultimately have sc: "cs_Score (ComputeConfidence ce) = t" using confidence_numbers(5) by (auto simp: Let_def)
  moreover have "cs_Band (ComputeConfidence ce) = confidence_band (cs_Score (ComputeConfidence ce))"
    by (simp add: ComputeConfidence_def Let_def)
  ultimately show ?thesis
    using t0 band confidence_numbers(5) by (simp add: confidence_band_def a_def p_def n_def)
qed

theorem confidence_is_never_high_witness:
  "cs_Band (ComputeConfidence (no_evidence\<lparr>ce_Events := [sample_signal ''a'' ''warning'' 1]\<rparr>)) = ''low'' \<and>
   cs_Band (ComputeConfidence (no_evidence\<lparr>ce_Events := replicate 10 (sample_signal ''a'' ''warning'' 1)\<rparr>)) = ''medium''"
proof -
  have "metric_anomaly (sample_signal ''a'' ''warning'' 1)" "\<not> past_incident (sample_signal ''a'' ''warning'' 1)"
    by (simp_all add: metric_anomaly_def past_incident_def sample_signal_def zero_signal_def)
  then show ?thesis
    using confidence_is_never_high [of "no_evidence\<lparr>ce_Events := [sample_signal ''a'' ''warning'' 1]\<rparr>"]
      confidence_is_never_high [of "no_evidence\<lparr>ce_Events := replicate 10 (sample_signal ''a'' ''warning'' 1)\<rparr>"]
    by (simp add: list_ex_iff)
qed

section \<open>Flaws of the evidence\<close>

lemma mysql_available_and_missing:
  assumes "cb_registry b = program_registry checks snapshots True servers history audit"
    and "snapshots incidentID window = Inr es" and "es \<noteq> []" and "collect_evidence ended ord b incidentID window = Inr ce"
  shows "''mysql'' \<in> set (ce_AvailableCategories ce) \<and> ''mysql'' \<in> set (ce_MissingCategories ce)"
proof -
  from assms(4) obtain r where r: "collect_loop ended 0 (cb_registry b) incidentID window no_evidence = Inr r"
    by (auto simp: collect_evidence_def registry_Providers_def split: sum.splits)
  have "(''mysql'', es) \<in> set (answers (cb_registry b) incidentID window)" "(''mysql'', []) \<in> set (answers (cb_registry b) incidentID window)"
    using assms(2) by (simp_all add: assms(1) program_registry_def registry_Register_def NewRegistry_def answers_def mysql_evidence_def Let_def)
  with assms(3) collect_loop_collects [OF r] have "''mysql'' \<in> set (ce_AvailableCategories r)" "''mysql'' \<in> set (ce_MissingCategories r)"
    by (force simp: no_evidence_def)+
  moreover have "ce_AvailableCategories ce = ce_AvailableCategories r \<and> ce_MissingCategories ce = ce_MissingCategories r"
    using assms(4) by (auto simp: collect_evidence_def registry_Providers_def r Let_def split: if_splits)
  ultimately show ?thesis by simp
qed

lemma captured_snapshots_share_one_ID:
  "\<exists>i. \<forall>e \<in> set (map (snapshot_signal digest parse incidentID) (CaptureEvidence error_json now incidentID sample deltas db)). sg_ID e = i"
  by (intro exI [of _ "signalID digest ''mysql_snap'' incidentID now"])
     (auto simp: CaptureEvidence_def captured_def captureDBEvidence_def makeSnapshot_def makeErrorSnapshot_def snapshot_signal_def
       split: sum.splits option.splits)

end
