(* ===== verification/Brief.thy ===== *)
theory Brief
  imports Evidence Keyed Auth
begin

text \<open>
  The incident brief (\<open>evidence/brief.go\<close>), its repository (\<open>evidence/repositories.go\<close>) and the handlers
  (\<open>evidence/api.go\<close>). The model behind \<open>aiCall\<close>, the JSON in its answer and the formats of times are arguments; the clock is
  read once per brief, and the milliseconds it took are an argument.
\<close>

section \<open>Citations and the timeline\<close>

record EvidenceCitation =
  ct_Category :: string
  ct_Description :: string
  ct_SignalID :: string
  ct_Timestamp :: string

definition findMostSignificant :: "SignalEvent list \<Rightarrow> SignalEvent option" where
  "findMostSignificant es =
     (case find (\<lambda>e. sg_Severity e = ''critical'') es of
        Some e \<Rightarrow> Some e
      | None \<Rightarrow>
          (case find (\<lambda>e. sg_Severity e = ''warning'') es of
             Some e \<Rightarrow> Some e
           | None \<Rightarrow> if length es > 0 then Some (hd es) else None))"

definition count_severity :: "string \<Rightarrow> SignalEvent list \<Rightarrow> int" where
  "count_severity s es = int (length (filter (\<lambda>e. sg_Severity e = s) es))"

definition citation_summary :: "SignalEvent list \<Rightarrow> string" where
  "citation_summary es =
     itoa (int (length es)) @ '' events''
     @ (if count_severity ''critical'' es > 0 then '', '' @ itoa (count_severity ''critical'' es) @ '' critical'' else [])
     @ (if count_severity ''warning'' es > 0 then '', '' @ itoa (count_severity ''warning'' es) @ '' warning'' else [])"

definition category_citations :: "(gotime \<Rightarrow> string) \<Rightarrow> CollectedEvidence \<Rightarrow> string \<Rightarrow> EvidenceCitation list" where
  "category_citations rfc3339 ce cat =
     (let es = category_events ce cat
      in if length es = 0 then []
         else (case findMostSignificant es of
                 None \<Rightarrow> []
               | Some e \<Rightarrow> [\<lparr>ct_Category = cat, ct_Description = sg_Message e, ct_SignalID = sg_ID e, ct_Timestamp = rfc3339 (sg_Timestamp e)\<rparr>]) @
              [\<lparr>ct_Category = cat, ct_Description = citation_summary es, ct_SignalID = [], ct_Timestamp = []\<rparr>])"

definition buildEvidenceCitations :: "(gotime \<Rightarrow> string) \<Rightarrow> CollectedEvidence \<Rightarrow> EvidenceCitation list" where
  "buildEvidenceCitations rfc3339 ce = concat (map (category_citations rfc3339 ce) (ce_AvailableCategories ce))"

record TimelineEntry =
  tl_Time :: string
  tl_Description :: string

definition buildTimeline :: "(gotime \<Rightarrow> string) \<Rightarrow> CollectedEvidence \<Rightarrow> TimelineEntry list" where
  "buildTimeline rfc3339 ce =
     (let entries = map (\<lambda>e. \<lparr>tl_Time = rfc3339 (sg_Timestamp e), tl_Description = sg_Message e\<rparr>)
                      (filter (\<lambda>e. sg_Severity e = ''critical'' \<or> sg_Severity e = ''warning'') (ce_Events ce))
      in if length entries > 20 then take 20 entries else entries)"

section \<open>The ledger\<close>

record EvidenceLedgerItem =
  lg_ID :: string
  lg_Claim :: string
  lg_Status :: string
  lg_Category :: string
  lg_ConfidenceImpact :: string
  lg_EvidenceIDs :: "string list"
  lg_Rationale :: string
  lg_Attributes :: smap

record EvidenceLedgerSummary =
  lsu_Supported :: int
  lsu_Unsupported :: int
  lsu_Contradicted :: int
  lsu_Missing :: int

text \<open>\<open>%x\<close> of a number that is not negative.\<close>

fun go_hex :: "nat \<Rightarrow> string" where
  "go_hex n = (if n < 16 then [hex_digit n] else go_hex (n div 16) @ [hex_digit (n mod 16)])"

definition eventIDs :: "SignalEvent list \<Rightarrow> string list" where
  "eventIDs es = filter (\<lambda>i. i \<noteq> []) (map sg_ID es)"

definition ledgerID :: "string \<Rightarrow> string \<Rightarrow> string list \<Rightarrow> string" where
  "ledgerID category claimType evidenceIDs = ''ledger_'' @ category @ ''_'' @ claimType @ ''_'' @ go_hex (length evidenceIDs)"

definition humanCategory :: "string \<Rightarrow> string" where
  "humanCategory category =
     (if category = ''checks'' then ''Check'' else if category = ''mysql'' then ''MySQL''
      else if category = ''server_metrics'' then ''Server metric'' else if category = ''audit'' then ''Audit''
      else if category = ''incident_history'' then ''Incident history'' else category)"

definition ledger_item :: "string \<Rightarrow> string \<Rightarrow> string list \<Rightarrow> string \<Rightarrow> string \<Rightarrow> string \<Rightarrow> string list \<Rightarrow> string \<Rightarrow> EvidenceLedgerItem" where
  "ledger_item category claimType idsForID claim status impact evidenceIDs rationale =
     \<lparr>lg_ID = ledgerID category claimType idsForID, lg_Claim = claim, lg_Status = status, lg_Category = category,
      lg_ConfidenceImpact = impact, lg_EvidenceIDs = evidenceIDs, lg_Rationale = rationale, lg_Attributes = []\<rparr>"

text \<open>The last branch of the source, for a category without items, cannot be reached: the switch has a default.\<close>

definition buildCategoryLedgerItems :: "string \<Rightarrow> SignalEvent list \<Rightarrow> EvidenceLedgerItem list" where
  "buildCategoryLedgerItems category es =
     (let critical = filter (\<lambda>e. sg_Severity e = ''critical'') es; warning = filter (\<lambda>e. sg_Severity e = ''warning'') es;
          ids = eventIDs es; bad = eventIDs (critical @ warning); n = itoa (int (length critical + length warning));
          m = itoa (int (length es))
      in if category = ''checks'' then
           (if length critical + length warning > 0 then
              [ledger_item category ''failing-check'' ids ''The incident is supported by failing or degraded check results''
                 ''supported'' ''positive'' bad (n @ '' check signal(s) were warning or critical in the incident window.'')]
            else
              [ledger_item category ''no-failing-check'' ids ''No failing check result was found in the collected window''
                 ''contradicted'' ''negative'' ids
                 ''Only healthy or informational check results were collected, which weakens check-based root-cause claims.''])
         else if category = ''server_metrics'' then
           (if length critical + length warning > 0 then
              [ledger_item category ''resource-pressure'' ids ''Server resource pressure may be contributing to the incident''
                 ''supported'' ''positive'' bad (n @ '' server metric signal(s) crossed warning or critical thresholds.'')]
            else
              [ledger_item category ''no-resource-pressure'' ids ''Collected server metrics do not show resource saturation''
                 ''contradicted'' ''negative'' ids ''CPU, memory, and disk evidence was available but did not cross warning thresholds.''])
         else if category = ''mysql'' then
           [ledger_item category ''mysql-evidence'' ids ''Database evidence is available for this incident'' ''supported'' ''positive'' ids
              (m @ '' MySQL evidence snapshot(s) can be inspected for connection, query, lock, or process pressure.'')]
         else if category = ''audit'' then
           [ledger_item category ''audit-evidence'' ids ''Recent operational changes or audit actions exist near the incident''
              ''supported'' ''positive'' ids (m @ '' audit event(s) were found in the incident window.'')]
         else if category = ''incident_history'' then
           [ledger_item category ''incident-history'' ids ''Similar recent incidents exist for comparison'' ''supported'' ''positive'' ids
              (m @ '' historical incident signal(s) were found in the comparison window.'')]
         else
           [ledger_item category ''available'' ids (humanCategory category @ '' evidence is available'') ''supported'' ''positive'' ids
              (m @ '' evidence signal(s) were collected from this category.'')])"

definition ledgerEventsByCategory :: "CollectedEvidence \<Rightarrow> string \<Rightarrow> SignalEvent list" where
  "ledgerEventsByCategory ce cat =
     (if \<not> ce_WasCapped ce then category_events ce cat
      else concat (map (\<lambda>c. if c = cat then filter (\<lambda>e. sg_ID e \<in> set (eventIDs (ce_Events ce))) (category_events ce c) else [])
             (ce_AvailableCategories ce)))"

definition cap_omitted :: "CollectedEvidence \<Rightarrow> string \<Rightarrow> EvidenceLedgerItem" where
  "cap_omitted ce cat =
     (ledger_item cat ''cap-omitted'' [] (humanCategory cat @ '' evidence was collected but omitted by the evidence cap'')
        ''unsupported'' ''neutral'' []
        ''Evidence exists for this category, but it was outside the bounded context sent to the AI brief.'')
     \<lparr>lg_Attributes := [(''originalCount'', itoa (int (length (category_events ce cat)))),
        (''includedCount'', itoa (int (length (ce_Events ce)))), (''totalBeforeCap'', itoa (ce_TotalBeforeCap ce))]\<rparr>"

definition available_items :: "CollectedEvidence \<Rightarrow> string \<Rightarrow> EvidenceLedgerItem list" where
  "available_items ce cat =
     (let es = ledgerEventsByCategory ce cat
      in if length es = 0 then (if ce_WasCapped ce \<and> length (category_events ce cat) > 0 then [cap_omitted ce cat] else [])
         else buildCategoryLedgerItems cat es)"

definition missing_item :: "string \<Rightarrow> EvidenceLedgerItem" where
  "missing_item cat =
     ledger_item cat ''missing'' [] (humanCategory cat @ '' evidence was not available for this incident window'')
       ''missing'' ''neutral'' []
       ''The provider returned no evidence, so the brief cannot use this signal category to support or reject a hypothesis.''"

definition ledger_step :: "EvidenceLedgerSummary \<Rightarrow> EvidenceLedgerItem \<Rightarrow> EvidenceLedgerSummary" where
  "ledger_step s item =
     (if lg_Status item = ''supported'' then s\<lparr>lsu_Supported := lsu_Supported s + 1\<rparr>
      else if lg_Status item = ''unsupported'' then s\<lparr>lsu_Unsupported := lsu_Unsupported s + 1\<rparr>
      else if lg_Status item = ''contradicted'' then s\<lparr>lsu_Contradicted := lsu_Contradicted s + 1\<rparr>
      else if lg_Status item = ''missing'' then s\<lparr>lsu_Missing := lsu_Missing s + 1\<rparr> else s)"

definition summarizeLedger :: "EvidenceLedgerItem list \<Rightarrow> EvidenceLedgerSummary" where
  "summarizeLedger ledger =
     foldl ledger_step \<lparr>lsu_Supported = 0, lsu_Unsupported = 0, lsu_Contradicted = 0, lsu_Missing = 0\<rparr> ledger"

definition buildEvidenceLedger :: "CollectedEvidence \<Rightarrow> EvidenceLedgerItem list \<times> EvidenceLedgerSummary" where
  "buildEvidenceLedger ce =
     (let ledger = concat (map (available_items ce) (ce_AvailableCategories ce)) @ map missing_item (ce_MissingCategories ce)
      in (ledger, summarizeLedger ledger))"

section \<open>The brief\<close>

record BriefMetadata =
  bm_AvailableCategories :: "string list"
  bm_MissingCategories :: "string list"
  bm_EvidenceCount :: int
  bm_EvidenceCap :: int
  bm_WasCapped :: bool
  bm_DurationMs :: int

record IncidentBrief =
  ib_IncidentID :: string
  ib_GeneratedAt :: gotime
  ib_LikelyCause :: string
  ib_Confidence :: ConfidenceScore
  ib_EvidenceSummary :: "EvidenceCitation list"
  ib_EvidenceLedger :: "EvidenceLedgerItem list"
  ib_EvidenceLedgerSummary :: EvidenceLedgerSummary
  ib_NextActions :: "string list"
  ib_ImpactSummary :: string
  ib_Timeline :: "TimelineEntry list"
  ib_Metadata :: BriefMetadata
  ib_RawAIResponse :: string

record ParsedBrief =
  pb_LikelyCause :: string
  pb_ImpactSummary :: string
  pb_NextActions :: "string list"
  pb_EvidenceSummary :: "EvidenceCitation list"

text \<open>The text between code fences; without a closing fence all that follows the opening one.\<close>

definition until_fence :: "string \<Rightarrow> string" where
  "until_fence s = (case str_index s ''```'' of None \<Rightarrow> s | Some end_ \<Rightarrow> take end_ s)"

definition fenced_json :: "string \<Rightarrow> string" where
  "fenced_json response =
     (case str_index response ''```json'' of
        Some idx \<Rightarrow> until_fence (drop (idx + 7) response)
      | None \<Rightarrow> (case str_index response ''```'' of Some idx \<Rightarrow> until_fence (drop (idx + 3) response) | None \<Rightarrow> response))"

text \<open>\<open>json\<close> yields what it could decode, and whether there was an error.\<close>

definition parseAIBriefResponse :: "(string \<Rightarrow> ParsedBrief \<times> bool) \<Rightarrow> string \<Rightarrow> ParsedBrief" where
  "parseAIBriefResponse json response =
     (let (parsed, failed) = json (trim_space (fenced_json response))
      in if failed then parsed\<lparr>pb_LikelyCause := truncate_text response 500, pb_NextActions := [''Review the raw AI response for details'']\<rparr>
         else parsed)"

definition brief_window :: "gotime \<Rightarrow> Incident \<Rightarrow> TimeWindow" where
  "brief_window now inc =
     \<lparr>tw_Start = (if \<not> is_zero (inc_StartedAt inc) then time_add (inc_StartedAt inc) (- 5 * minute) else time_add now (- hour)),
      tw_End = (case inc_ResolvedAt inc of Some t \<Rightarrow> t | None \<Rightarrow> now)\<rparr>"

definition brief_user_prompt :: "PromptWorld \<Rightarrow> gotime \<Rightarrow> Incident \<Rightarrow> CollectedEvidence \<Rightarrow> string" where
  "brief_user_prompt w now inc ce =
     ''=== INCIDENT ==='' @ newline @ ''ID: '' @ inc_ID inc @ newline
     @ ''Check: '' @ inc_CheckName inc @ '' ('' @ inc_CheckID inc @ '')'' @ newline
     @ ''Type: '' @ inc_Type inc @ newline @ ''Severity: '' @ inc_Severity inc @ newline
     @ ''Status: '' @ inc_Status inc @ newline @ ''Message: '' @ inc_Message inc @ newline
     @ (if \<not> is_zero (inc_StartedAt inc)
        then ''Started: '' @ po_rfc3339 w (inc_StartedAt inc) @ newline
          @ ''Duration: '' @ duration_string (let d = time_sub now (inc_StartedAt inc) in d - go_rem d second) @ newline else [])
     @ (if inc_Metadata inc \<noteq> []
        then ''Metadata:'' @ newline @ concat (map (\<lambda>(k, v). ''  '' @ k @ '': '' @ v @ newline) (ranged (po_attrs w) (inc_Metadata inc))) else [])
     @ newline @ FormatForPrompt w ce"

text \<open>The part of the brief that does not depend on the model.\<close>

definition evidence_brief ::
  "(gotime \<Rightarrow> string) \<Rightarrow> int \<Rightarrow> gotime \<Rightarrow> int \<Rightarrow> string \<Rightarrow> CollectedEvidence \<Rightarrow> string \<Rightarrow> string list \<Rightarrow> IncidentBrief" where
  "evidence_brief rfc3339 cap now elapsed incidentID ce cause actions =
     \<lparr>ib_IncidentID = incidentID, ib_GeneratedAt = now, ib_LikelyCause = cause, ib_Confidence = ComputeConfidence ce,
      ib_EvidenceSummary = buildEvidenceCitations rfc3339 ce, ib_EvidenceLedger = fst (buildEvidenceLedger ce),
      ib_EvidenceLedgerSummary = snd (buildEvidenceLedger ce), ib_NextActions = actions, ib_ImpactSummary = [],
      ib_Timeline = buildTimeline rfc3339 ce,
      ib_Metadata = \<lparr>bm_AvailableCategories = ce_AvailableCategories ce, bm_MissingCategories = ce_MissingCategories ce,
        bm_EvidenceCount = int (length (ce_Events ce)), bm_EvidenceCap = cap, bm_WasCapped = ce_WasCapped ce, bm_DurationMs = elapsed\<rparr>,
      ib_RawAIResponse = []\<rparr>"

text \<open>What a generator works with: \<open>bw_ai\<close> is the call of the model with the two messages, or nil.\<close>

record BriefWorld =
  bw_prompt :: PromptWorld
  bw_order :: "SignalEvent list \<Rightarrow> SignalEvent list"
  bw_ended :: "nat \<Rightarrow> string option"
  bw_json :: "string \<Rightarrow> ParsedBrief \<times> bool"
  bw_system :: string
  bw_ai :: "(string \<Rightarrow> string \<Rightarrow> string + string) option"
  bw_now :: gotime
  bw_elapsed :: int

definition GenerateBrief ::
  "BriefWorld \<Rightarrow> ContextBuilder \<Rightarrow> (string \<Rightarrow> Incident \<times> string option) \<Rightarrow> string \<Rightarrow> string + IncidentBrief" where
  "GenerateBrief w b get incidentID =
     (case get incidentID of
        (_, Some err) \<Rightarrow> Inl (''get incident: '' @ err)
      | (incident, None) \<Rightarrow>
          (case collect_evidence (bw_ended w) (bw_order w) b incidentID (brief_window (bw_now w) incident) of
             Inl err \<Rightarrow> Inl (''collect evidence: '' @ err)
           | Inr ce \<Rightarrow>
               let brief = evidence_brief (po_rfc3339 (bw_prompt w)) (cb_evidenceCap b) (bw_now w) (bw_elapsed w) incidentID ce
               in (case bw_ai w of
                     None \<Rightarrow> Inr (brief (''AI provider not configured '' @ em_dash @ '' showing evidence summary only'')
                              [''Configure an AI provider to get AI-powered analysis''])
                   | Some ai \<Rightarrow>
                       (case ai (bw_system w) (brief_user_prompt (bw_prompt w) (bw_now w) incident ce) of
                          Inl err \<Rightarrow> Inr (brief (''AI analysis unavailable '' @ em_dash @ '' showing evidence summary only'')
                                       [''Review evidence manually'', ''Retry AI analysis''])
                        | Inr response \<Rightarrow>
                            let parsed = parseAIBriefResponse (bw_json w) response;
                                brief = brief (pb_LikelyCause parsed) (pb_NextActions parsed)
                            in Inr (brief\<lparr>ib_ImpactSummary := pb_ImpactSummary parsed, ib_RawAIResponse := response,
                                 ib_EvidenceSummary := ib_EvidenceSummary brief @ pb_EvidenceSummary parsed\<rparr>)))))"

section \<open>The repositories\<close>

text \<open>
  Signal events, incident events and briefs are in collections of their own; what is stored of a time is its
  milliseconds. A brief has the key of its incident and its time.
\<close>

definition bson_signal :: "SignalEvent \<Rightarrow> SignalEvent" where
  "bson_signal e = e\<lparr>sg_Timestamp := bson_time (sg_Timestamp e)\<rparr>"

type_synonym 'w signals = "('w, SignalEvent) Collection"

definition sig_Insert :: "'w signals \<Rightarrow> SignalEvent \<Rightarrow> 'w \<Rightarrow> 'w \<times> string option" where
  "sig_Insert C e w =
     (case cl_update C (with_key sg_ID (sg_ID e)) (\<lambda>_. bson_signal e) (Some (bson_signal e)) w of
        (w, Inl err) \<Rightarrow> (w, Some err) | (w, Inr _) \<Rightarrow> (w, None))"

text \<open>The ordered bulk write: the models one after the other, until one fails.\<close>

fun sig_InsertMany :: "'w signals \<Rightarrow> SignalEvent list \<Rightarrow> 'w \<Rightarrow> 'w \<times> string option" where
  "sig_InsertMany C [] w = (w, None)"
| "sig_InsertMany C (e # es) w =
     (case sig_Insert C e w of (w, Some err) \<Rightarrow> (w, Some err) | (w, None) \<Rightarrow> sig_InsertMany C es w)"

definition find_limit :: "int \<Rightarrow> nat option" where
  "find_limit limit = (if limit > 0 then Some (nat limit) else None)"

definition found :: "(find_stage \<times> string \<times> 'd list) + 'd list \<Rightarrow> string + 'd list" where
  "found a = (case a of Inl (QueryStage, err, _) \<Rightarrow> Inl err | Inl (_, err, _) \<Rightarrow> Inl err | Inr ds \<Rightarrow> Inr ds)"

definition sig_FindByIncident :: "'w signals \<Rightarrow> string \<Rightarrow> int \<Rightarrow> 'w \<Rightarrow> string + SignalEvent list" where
  "sig_FindByIncident C incidentID limit w =
     found (cl_find C (\<lambda>e. sg_IncidentID e = incidentID) (oldest sg_Timestamp) 0 (find_limit limit) w)"

definition sig_FindByTimeWindow :: "'w signals \<Rightarrow> gotime \<Rightarrow> gotime \<Rightarrow> int \<Rightarrow> 'w \<Rightarrow> string + SignalEvent list" where
  "sig_FindByTimeWindow C start till limit w =
     found (cl_find C (\<lambda>e. bson_time start \<le> sg_Timestamp e \<and> sg_Timestamp e \<le> bson_time till) (oldest sg_Timestamp) 0 (find_limit limit) w)"

definition sig_PruneBefore :: "'w signals \<Rightarrow> gotime \<Rightarrow> 'w \<Rightarrow> 'w \<times> (string + nat)" where
  "sig_PruneBefore C cutoff w = cl_delete_many C (\<lambda>e. before (sg_Timestamp e) (bson_time cutoff)) w"

record IncidentEvent =
  ie_ID :: string
  ie_IncidentID :: string
  ie_Type :: string
  ie_Timestamp :: gotime
  ie_Source :: string
  ie_Message :: string
  ie_SignalIDs :: "string list"
  ie_Attributes :: smap

definition ie_Insert :: "('w, IncidentEvent) Collection \<Rightarrow> IncidentEvent \<Rightarrow> 'w \<Rightarrow> 'w \<times> string option" where
  "ie_Insert C e w =
     (let d = e\<lparr>ie_Timestamp := bson_time (ie_Timestamp e)\<rparr>
      in case cl_update C (with_key ie_ID (ie_ID e)) (\<lambda>_. d) (Some d) w of
           (w, Inl err) \<Rightarrow> (w, Some err) | (w, Inr _) \<Rightarrow> (w, None))"

definition ie_FindByIncident :: "('w, IncidentEvent) Collection \<Rightarrow> string \<Rightarrow> 'w \<Rightarrow> string + IncidentEvent list" where
  "ie_FindByIncident C incidentID w = found (cl_find C (\<lambda>e. ie_IncidentID e = incidentID) (oldest ie_Timestamp) 0 None w)"

definition ie_PruneBefore :: "('w, IncidentEvent) Collection \<Rightarrow> gotime \<Rightarrow> 'w \<Rightarrow> 'w \<times> (string + nat)" where
  "ie_PruneBefore C cutoff w = cl_delete_many C (\<lambda>e. before (ie_Timestamp e) (bson_time cutoff)) w"

definition unix_milli :: "gotime \<Rightarrow> int" where
  "unix_milli t = (t - 62135596800000000000) div 1000000"

definition brief_id :: "IncidentBrief \<Rightarrow> string" where
  "brief_id b = ''brief_'' @ ib_IncidentID b @ ''_'' @ itoa (unix_milli (ib_GeneratedAt b))"

text \<open>A document is the key with the brief.\<close>

type_synonym 'w briefs = "('w, string \<times> IncidentBrief) Collection"

definition brief_doc :: "IncidentBrief \<Rightarrow> string \<times> IncidentBrief" where
  "brief_doc b = (brief_id b, b\<lparr>ib_GeneratedAt := bson_time (ib_GeneratedAt b)\<rparr>)"

definition brief_Save :: "'w briefs \<Rightarrow> IncidentBrief \<Rightarrow> 'w \<Rightarrow> 'w \<times> string option" where
  "brief_Save C b w =
     (case cl_update C (with_key fst (brief_id b)) (\<lambda>_. brief_doc b) (Some (brief_doc b)) w of
        (w, Inl err) \<Rightarrow> (w, Some err) | (w, Inr _) \<Rightarrow> (w, None))"

definition of_incident :: "string \<Rightarrow> string \<times> IncidentBrief \<Rightarrow> bool" where
  "of_incident incidentID d \<longleftrightarrow> ib_IncidentID (snd d) = incidentID"

definition brief_time :: "string \<times> IncidentBrief \<Rightarrow> gotime" where
  "brief_time d = ib_GeneratedAt (snd d)"

definition brief_GetLatest :: "'w briefs \<Rightarrow> string \<Rightarrow> 'w \<Rightarrow> string + IncidentBrief option" where
  "brief_GetLatest C incidentID w =
     (case cl_find_one C (of_incident incidentID) (newest brief_time) w of
        Inl err \<Rightarrow> Inl err
      | Inr d \<Rightarrow> Inr (map_option snd d))"

definition brief_ListByIncident :: "'w briefs \<Rightarrow> string \<Rightarrow> 'w \<Rightarrow> string + IncidentBrief list" where
  "brief_ListByIncident C incidentID w =
     map_sum id (map snd) (found (cl_find C (of_incident incidentID) (newest brief_time) 0 None w))"

section \<open>The handlers\<close>

datatype evidence_answer =
  EvError int string
| EvTimeline string "IncidentEvent list" int
| EvBrief "IncidentBrief option"
| EvNothing

text \<open>The three parts of the handler; each may be nil.\<close>

record 'w EvidenceAPI =
  ea_generator :: "(BriefWorld \<times> ContextBuilder \<times> (string \<Rightarrow> Incident \<times> string option)) option"
  ea_briefs :: "'w briefs option"
  ea_events :: "('w, IncidentEvent) Collection option"

definition ev_handleTimeline :: "'w EvidenceAPI \<Rightarrow> string \<Rightarrow> 'w \<Rightarrow> evidence_answer" where
  "ev_handleTimeline h incidentID w =
     (case ea_events h of
        None \<Rightarrow> EvError 503 ''incident event repository not available (requires MongoDB)''
      | Some C \<Rightarrow>
          (case ie_FindByIncident C incidentID w of
             Inl err \<Rightarrow> EvError 500 (''fetch timeline: '' @ err)
           | Inr es \<Rightarrow> EvTimeline incidentID es (int (length es))))"

definition ev_handleGetBrief :: "'w EvidenceAPI \<Rightarrow> string \<Rightarrow> 'w \<Rightarrow> evidence_answer" where
  "ev_handleGetBrief h incidentID w =
     (case ea_briefs h of
        None \<Rightarrow> EvError 503 ''brief repository not available (requires MongoDB)''
      | Some C \<Rightarrow>
          (case brief_GetLatest C incidentID w of
             Inl err \<Rightarrow> if str_contains (to_lower err) ''no documents'' then EvBrief None else EvError 500 (''fetch brief: '' @ err)
           | Inr None \<Rightarrow> EvBrief None
           | Inr (Some b) \<Rightarrow> EvBrief (Some b)))"

definition ev_handleGenerateBrief :: "'w EvidenceAPI \<Rightarrow> string \<Rightarrow> 'w \<Rightarrow> 'w \<times> evidence_answer" where
  "ev_handleGenerateBrief h incidentID w =
     (case ea_generator h of
        None \<Rightarrow> (w, EvError 503 ''brief generator not available'')
      | Some (bw, b, get) \<Rightarrow>
          (case GenerateBrief bw b get incidentID of
             Inl err \<Rightarrow> (w, EvError 500 (''generate brief: '' @ err))
           | Inr brief \<Rightarrow>
               ((case ea_briefs h of None \<Rightarrow> w | Some C \<Rightarrow> fst (brief_Save C brief w)), EvBrief (Some brief))))"

definition after_prefix :: "string \<Rightarrow> string \<Rightarrow> string" where
  "after_prefix p s = (if has_prefix s p then drop (length p) s else s)"

text \<open>Routing; a handler that returns without writing answers 200 with an empty body.\<close>

definition evidence_action :: "'w EvidenceAPI \<Rightarrow> string \<Rightarrow> string \<Rightarrow> string \<Rightarrow> 'w \<Rightarrow> 'w \<times> evidence_answer" where
  "evidence_action h incidentID action method w =
     (if action = ''timeline'' then
        (if method \<noteq> ''GET'' then (w, EvError 405 ''method not allowed'') else (w, ev_handleTimeline h incidentID w))
      else if action = ''brief'' then
        (if method = ''GET'' then (w, ev_handleGetBrief h incidentID w)
         else if method = ''POST'' then ev_handleGenerateBrief h incidentID w
         else (w, EvError 405 ''method not allowed''))
      else (w, EvNothing))"

definition handleIncidentEvidence :: "'w EvidenceAPI \<Rightarrow> Request \<Rightarrow> 'w \<Rightarrow> 'w \<times> evidence_answer" where
  "handleIncidentEvidence h r w =
     (case split_n (CHR ''/'') 2 (after_prefix ''/api/v1/evidence/incidents/'' (rq_Path r)) of
        [incidentID, action] \<Rightarrow> evidence_action h incidentID action (rq_Method r) w
      | _ \<Rightarrow> (w, EvNothing))"

definition handleBrief :: "'w EvidenceAPI \<Rightarrow> Request \<Rightarrow> 'w \<Rightarrow> 'w \<times> evidence_answer" where
  "handleBrief h r w =
     (let incidentID = after_prefix ''/api/v1/evidence/brief/'' (rq_Path r)
      in if incidentID = [] then (w, EvError 400 ''incident ID required'')
         else if rq_Method r = ''POST'' then ev_handleGenerateBrief h incidentID w
         else if rq_Method r = ''GET'' then (w, ev_handleGetBrief h incidentID w)
         else (w, EvError 405 ''method not allowed''))"

section \<open>What the ledger says\<close>

definition ledger_statuses :: "string set" where
  "ledger_statuses = {''supported'', ''unsupported'', ''contradicted'', ''missing''}"

definition lsu_total :: "EvidenceLedgerSummary \<Rightarrow> int" where
  "lsu_total s = lsu_Supported s + lsu_Unsupported s + lsu_Contradicted s + lsu_Missing s"

lemma ledger_steps:
  "\<forall>item \<in> set ledger. lg_Status item \<in> ledger_statuses \<Longrightarrow>
    lsu_total (foldl ledger_step s ledger) = lsu_total s + int (length ledger)"
  by (induction ledger arbitrary: s) (auto simp: ledger_statuses_def ledger_step_def lsu_total_def)

lemma category_items:
  assumes "item \<in> set (buildCategoryLedgerItems cat es)"
  shows "lg_Status item \<in> ledger_statuses \<and> lg_Category item = cat \<and> set (lg_EvidenceIDs item) \<subseteq> set (eventIDs es)"
  using assms unfolding buildCategoryLedgerItems_def Let_def
  by (auto simp: ledger_item_def ledger_statuses_def eventIDs_def split: if_splits)

lemma category_items_some: "buildCategoryLedgerItems cat es \<noteq> []"
  by (simp add: buildCategoryLedgerItems_def Let_def)

lemma available_itemsD:
  assumes "item \<in> set (available_items ce cat)"
  shows "lg_Status item \<in> ledger_statuses \<and> lg_Category item = cat \<and>
    set (lg_EvidenceIDs item) \<subseteq> set (eventIDs (ledgerEventsByCategory ce cat))"
  using assms category_items [of item cat "ledgerEventsByCategory ce cat"]
  by (auto simp: available_items_def cap_omitted_def ledger_item_def ledger_statuses_def Let_def split: if_splits)

lemma put_categories_in: "map_of (foldl put_category [] as) c = Some es \<Longrightarrow> (c, es) \<in> set as"
  by (induction as rule: rev_induct) (auto simp: put_category_def update_conv' split: if_splits)

lemma put_categories_all: "c \<in> fst ` set as \<Longrightarrow> map_of (foldl put_category [] as) c \<noteq> None"
  by (induction as rule: rev_induct) (auto simp: put_category_def update_conv')

text \<open>What the builder guarantees of its result for the ledger.\<close>

lemma collected_categories:
  assumes "collect_evidence ended ord b incidentID window = Inr ce"
  shows "cat \<in> set (ce_AvailableCategories ce) \<Longrightarrow> category_events ce cat \<noteq> []"
    and "\<not> ce_WasCapped ce \<Longrightarrow> set (category_events ce cat) \<subseteq> set (ce_Events ce)"
proof -
  from assms obtain r where r: "collect_loop ended 0 (cb_registry b) incidentID window no_evidence = Inr r"
    by (auto simp: collect_evidence_def registry_Providers_def split: sum.splits)
  define as where "as = filter (\<lambda>a. snd a \<noteq> []) (answers (cb_registry b) incidentID window)"
  from collect_loop_collects [OF r] have r': "ce_AvailableCategories r = map fst as" "ce_ByCategory r = foldl put_category [] as"
    "ce_Events r = concat (map snd (answers (cb_registry b) incidentID window))"
    by (simp_all add: no_evidence_def as_def)
  have ce: "ce_AvailableCategories ce = map fst as" "ce_ByCategory ce = foldl put_category [] as"
    "\<not> ce_WasCapped ce \<Longrightarrow> set (ce_Events ce) = set (ce_Events r)"
    using assms r'(1,2) by (auto simp: collect_evidence_def registry_Providers_def r Let_def by_time_def split: if_splits)
  show "category_events ce cat \<noteq> []" if "cat \<in> set (ce_AvailableCategories ce)"
  proof -
    from that have "cat \<in> fst ` set as" by (simp add: ce)
    from put_categories_all [OF this] obtain es where "map_of (foldl put_category [] as) cat = Some es" by blast
    with put_categories_in [OF this] show ?thesis by (auto simp: category_events_def ce as_def)
  qed
  show "set (category_events ce cat) \<subseteq> set (ce_Events ce)" if "\<not> ce_WasCapped ce"
  proof (cases "map_of (foldl put_category [] as) cat")
    case None
    then show ?thesis by (simp add: category_events_def ce(2))
  next
    case (Some es)
    from put_categories_in [OF this] have "(cat, es) \<in> set (answers (cb_registry b) incidentID window)" by (simp add: as_def)
    then have "set es \<subseteq> set (ce_Events r)" by (auto simp: r'(3) intro!: bexI [of _ "(cat, es)"])
    with Some show ?thesis by (simp add: category_events_def ce(2) ce(3) [OF that])
  qed
qed

text \<open>
  C18: the ledger of what was collected has an item for each category of the providers that answered and for no other, its
  four counts add up to its length, and the events that it cites are among those that the limit left.
\<close>

theorem ledger_accounts_for_the_evidence:
  assumes "collect_evidence ended ord b incidentID window = Inr ce"
  shows "lsu_total (snd (buildEvidenceLedger ce)) = int (length (fst (buildEvidenceLedger ce))) \<and>
    lg_Category ` set (fst (buildEvidenceLedger ce)) = set (ce_AvailableCategories ce) \<union> set (ce_MissingCategories ce) \<and>
    (\<Union>item \<in> set (fst (buildEvidenceLedger ce)). set (lg_EvidenceIDs item)) \<subseteq> set (eventIDs (ce_Events ce))"
proof -
  define ledger where "ledger = concat (map (available_items ce) (ce_AvailableCategories ce)) @ map missing_item (ce_MissingCategories ce)"
  have l: "buildEvidenceLedger ce = (ledger, summarizeLedger ledger)" by (simp add: buildEvidenceLedger_def ledger_def Let_def)
  have miss: "lg_Status (missing_item c) \<in> ledger_statuses" "lg_Category (missing_item c) = c" "lg_EvidenceIDs (missing_item c) = []" for c
    by (simp_all add: missing_item_def ledger_item_def ledger_statuses_def)
  have item: "lg_Status i \<in> ledger_statuses" if "i \<in> set ledger" for i
    using that available_itemsD miss(1) by (auto simp: ledger_def)
  have "lsu_total (summarizeLedger ledger) = int (length ledger)"
    using ledger_steps [of ledger] item by (simp add: summarizeLedger_def lsu_total_def)
  moreover have some: "available_items ce c \<noteq> []" if "c \<in> set (ce_AvailableCategories ce)" for c
    using collected_categories(1) [OF assms that] category_items_some
    by (auto simp: available_items_def ledgerEventsByCategory_def Let_def)
  have one: "lg_Category ` set (available_items ce c) = {c}" if "c \<in> set (ce_AvailableCategories ce)" for c
  proof -
    from some [OF that] obtain y where "y \<in> set (available_items ce c)" by (cases "available_items ce c") auto
    moreover have "lg_Category x = c" if "x \<in> set (available_items ce c)" for x using available_itemsD [OF that] by blast
    ultimately show ?thesis by auto
  qed
  have "lg_Category ` set ledger = (\<Union>c \<in> set (ce_AvailableCategories ce). lg_Category ` set (available_items ce c)) \<union> set (ce_MissingCategories ce)"
    by (simp add: ledger_def image_Un image_UN image_image miss(2))
  then have "lg_Category ` set ledger = set (ce_AvailableCategories ce) \<union> set (ce_MissingCategories ce)"
    by (simp add: one)
  moreover have "set (eventIDs (ledgerEventsByCategory ce c)) \<subseteq> set (eventIDs (ce_Events ce))" for c
  proof (cases "ce_WasCapped ce")
    case True
    then show ?thesis by (auto simp: ledgerEventsByCategory_def eventIDs_def split: if_splits)
  next
    case False
    with collected_categories(2) [OF assms, of c] show ?thesis by (auto simp: ledgerEventsByCategory_def eventIDs_def)
  qed
  then have "(\<Union>i \<in> set ledger. set (lg_EvidenceIDs i)) \<subseteq> set (eventIDs (ce_Events ce))"
    using available_itemsD miss(3) by (auto simp: ledger_def) (meson subsetD)
  ultimately show ?thesis by (simp add: l)
qed

theorem ledger_accounts_for_the_evidence_witness:
  "\<exists>ce. collect_evidence (\<lambda>_. None) id (SetEvidenceCap 1 (NewContextBuilder [sample_provider])) ''inc'' \<lparr>tw_Start = 0, tw_End = 9\<rparr> = Inr ce \<and>
    lg_Category ` set (fst (buildEvidenceLedger ce)) = {''server_metrics''}"
proof -
  let ?b = "SetEvidenceCap 1 (NewContextBuilder [sample_provider])"
  obtain ce where ce: "collect_evidence (\<lambda>_. None) id ?b ''inc'' \<lparr>tw_Start = 0, tw_End = 9\<rparr> = Inr ce"
    by (simp add: collect_evidence_def registry_Providers_def SetEvidenceCap_def NewContextBuilder_def sample_provider_def Let_def)
  then have "ce_AvailableCategories ce = [''server_metrics''] \<and> ce_MissingCategories ce = []"
    by (auto simp: collect_evidence_def registry_Providers_def SetEvidenceCap_def NewContextBuilder_def sample_provider_def no_evidence_def Let_def split: if_splits)
  with ledger_accounts_for_the_evidence [OF ce] ce show ?thesis by auto
qed

section \<open>Briefs that were saved\<close>

lemma unix_milli_div: "unix_milli t = t div 1000000 - 62135596800000"
  using div_mult_self1 [of 1000000 t "- 62135596800000"] by (simp add: unix_milli_def)

lemma bson_div: "bson_time t = 1000000 * (t div 1000000)"
  by (simp add: bson_time_def minus_mod_eq_mult_div)

lemma unix_milli_bson [simp]: "unix_milli (bson_time t) = unix_milli t"
  by (simp add: unix_milli_div bson_div)

lemma bson_milli: "bson_time t = bson_time u \<longleftrightarrow> unix_milli t = unix_milli u"
  by (simp add: unix_milli_div bson_div)

lemma brief_id_same:
  "ib_IncidentID a = ib_IncidentID b \<Longrightarrow> bson_time (ib_GeneratedAt a) = bson_time (ib_GeneratedAt b) \<Longrightarrow> brief_id a = brief_id b"
  by (simp add: brief_id_def bson_milli)

text \<open>The briefs of a collection: each under its own key, with its time in milliseconds.\<close>

definition briefs_ok :: "(string \<rightharpoonup> string \<times> IncidentBrief) \<Rightarrow> bool" where
  "briefs_ok m \<longleftrightarrow> (\<forall>i j b. m i = Some (j, b) \<longrightarrow> j = brief_id b \<and> bson_time (ib_GeneratedAt b) = ib_GeneratedAt b)"

lemma brief_id_doc: "fst (brief_doc b) = brief_id b" "brief_id (snd (brief_doc b)) = brief_id b"
  by (simp_all add: brief_doc_def brief_id_def)

lemma brief_Save_saves:
  assumes "coll_ok (same_key fst) docs C" and "holds fst m (docs w)" and "brief_Save C b w = (w', None)"
  shows "holds fst (m(brief_id b \<mapsto> brief_doc b)) (docs w')"
proof -
  obtain n where u: "cl_update C (with_key fst (brief_id b)) (\<lambda>_. brief_doc b) (Some (brief_doc b)) w = (w', Inr n)"
    using assms(3) by (auto simp: brief_Save_def split: prod.splits sum.splits)
  from keyed_update [OF assms(1) u assms(2)] have "holds fst (map_update m (brief_id b) (\<lambda>_. brief_doc b) (Some (brief_doc b))) (docs w')"
    by (simp add: brief_id_doc)
  then show ?thesis by (simp add: map_update_def split: option.splits)
qed

lemma two_parts:
  "(case parts of [a, b] \<Rightarrow> f a b | _ \<Rightarrow> (w, EvNothing)) = (w', EvBrief x) \<Longrightarrow> \<exists>a b. f a b = (w', EvBrief x)"
  by (auto split: list.splits)

lemma post_saves:
  assumes "evidence_action h i action method w = (w', EvBrief (Some b))" and "method = ''POST''" and "ea_briefs h = Some C"
  shows "w' = fst (brief_Save C b w)"
proof -
  have "action = ''brief''"
    using assms(1,2) by (simp add: evidence_action_def split: if_splits)
  then have "ev_handleGenerateBrief h i w = (w', EvBrief (Some b))" using assms(1,2) by (simp add: evidence_action_def)
  then show ?thesis using assms(3) by (auto simp: ev_handleGenerateBrief_def split: option.splits sum.splits)
qed

text \<open>
  C19: if the collection keeps the promises of the driver, a brief that was generated and saved, and that no stored brief of
  the incident is later than, is the one that the next request for the brief of the incident shows, unless that request fails.
\<close>

theorem saved_brief_is_shown:
  assumes "coll_ok (same_key fst) docs C" and "holds fst m (docs w)" and "briefs_ok m"
    and "ea_briefs h = Some C" and "handleIncidentEvidence h r w = (w', EvBrief (Some b))" and "rq_Method r = ''POST''"
    and "snd (brief_Save C b w) = None"
    and "\<forall>i j b'. m i = Some (j, b') \<longrightarrow> ib_IncidentID b' = ib_IncidentID b \<longrightarrow> ib_GeneratedAt b' \<le> bson_time (ib_GeneratedAt b)"
    and "brief_GetLatest C (ib_IncidentID b) w' = Inr found_brief"
  shows "ev_handleGetBrief h (ib_IncidentID b) w' = EvBrief (Some (b\<lparr>ib_GeneratedAt := bson_time (ib_GeneratedAt b)\<rparr>))"
proof -
  from two_parts [OF assms(5) [unfolded handleIncidentEvidence_def]] obtain i action where "evidence_action h i action (rq_Method r) w = (w', EvBrief (Some b))" by blast
  from post_saves [OF this assms(6,4)] have save: "brief_Save C b w = (w', None)" using assms(7) by (metis prod.collapse)
  note H = brief_Save_saves [OF assms(1,2) save]
  have inb: "brief_doc b \<in># docs w'" using holds_in [OF H, of "brief_doc b"] by (simp add: brief_id_doc)
  have Pb: "of_incident (ib_IncidentID b) (brief_doc b)" by (simp add: brief_doc_def of_incident_def)
  obtain d where f: "cl_find_one C (of_incident (ib_IncidentID b)) (newest brief_time) w' = Inr d" and fb: "found_brief = map_option snd d"
    using assms(9) by (auto simp: brief_GetLatest_def split: sum.splits)
  note first = coll_find_one [OF assms(1) preorder_orders(2) f]
  have "d = Some (brief_doc b)"
  proof (cases d)
    case None
    with first have "\<forall>x. x \<in># docs w' \<longrightarrow> \<not> of_incident (ib_IncidentID b) x" by (simp only: option.case)
    with inb Pb show ?thesis by blast
  next
    case (Some x)
    with first have "first_of (of_incident (ib_IncidentID b)) (newest brief_time) (docs w') x" by (simp only: option.case)
    then have xin: "x \<in># docs w'" "of_incident (ib_IncidentID b) x" and late: "brief_time (brief_doc b) \<le> brief_time x"
      using inb Pb unfolding first_of_def newest_def by blast+
    show ?thesis
    proof (cases "fst x = brief_id b")
      case True
      with holds_in [OF H, of x] xin(1) show ?thesis by (simp add: Some)
    next
      case False
      with holds_in [OF H, of x] xin(1) have old: "m (fst x) = Some (fst x, snd x)" by simp
      with assms(8) xin(2) have "ib_GeneratedAt (snd x) \<le> bson_time (ib_GeneratedAt b)" unfolding of_incident_def by blast
      with late have "ib_GeneratedAt (snd x) = bson_time (ib_GeneratedAt b)" by (simp add: brief_doc_def brief_time_def)
      with assms(3) old have "fst x = brief_id (snd x)" "bson_time (ib_GeneratedAt (snd x)) = bson_time (ib_GeneratedAt b)"
        unfolding briefs_ok_def by metis+
      with brief_id_same [of "snd x" b] xin(2) False show ?thesis by (simp add: of_incident_def)
    qed
  qed
  with f show ?thesis by (simp add: ev_handleGetBrief_def assms(4) brief_GetLatest_def brief_doc_def)
qed

definition sample_brief_world :: BriefWorld where
  "sample_brief_world = \<lparr>bw_prompt = \<lparr>po_rfc3339 = itoa, po_attrs = id\<rparr>, bw_order = id, bw_ended = (\<lambda>_. None),
     bw_json = (\<lambda>_. (\<lparr>pb_LikelyCause = [], pb_ImpactSummary = [], pb_NextActions = [], pb_EvidenceSummary = []\<rparr>, True)),
     bw_system = [], bw_ai = None, bw_now = 62135596800005000000, bw_elapsed = 3\<rparr>"

definition sample_evidence_api :: "(string \<times> IncidentBrief) list EvidenceAPI" where
  "sample_evidence_api = \<lparr>ea_generator = Some (sample_brief_world, NewContextBuilder [], \<lambda>i. (zero_incident, None)),
     ea_briefs = Some (list_collection (same_key fst)), ea_events = None\<rparr>"

definition sample_brief :: IncidentBrief where
  "sample_brief = evidence_brief itoa 50 62135596800005000000 3 ''i'' no_evidence
     (''AI provider not configured '' @ em_dash @ '' showing evidence summary only'') [''Configure an AI provider to get AI-powered analysis'']"

theorem saved_brief_is_shown_witness:
  "ev_handleGetBrief sample_evidence_api ''i'' [brief_doc sample_brief] = EvBrief (Some sample_brief)"
proof -
  let ?C = "list_collection (same_key fst)"
  let ?r = "\<lparr>rq_Method = ''POST'', rq_Path = ''/api/v1/evidence/incidents/i/brief'', rq_Authorization = [], rq_Token = []\<rparr>"
  have g: "GenerateBrief sample_brief_world (NewContextBuilder []) (\<lambda>i. (zero_incident, None)) ''i'' = Inr sample_brief"
    by (simp add: GenerateBrief_def sample_brief_world_def sample_brief_def collect_evidence_def registry_Providers_def NewContextBuilder_def
        DefaultEvidenceCap_def no_evidence_def by_time_def newest_first_def Let_def)
  have s: "brief_Save ?C sample_brief [] = ([brief_doc sample_brief], None)"
    by (simp add: brief_Save_def list_collection_def)
  have split: "split_n (CHR ''/'') 2 (after_prefix ''/api/v1/evidence/incidents/'' (rq_Path ?r)) = [''i'', ''brief'']" by code_simp
  have post: "handleIncidentEvidence sample_evidence_api ?r [] = ([brief_doc sample_brief], EvBrief (Some sample_brief))"
    unfolding handleIncidentEvidence_def split
    by (simp add: evidence_action_def ev_handleGenerateBrief_def sample_evidence_api_def g s)
  have i: "ib_IncidentID sample_brief = ''i''" and t: "ib_GeneratedAt sample_brief = 62135596800005000000"
    by (simp_all add: sample_brief_def evidence_brief_def)
  have "brief_GetLatest ?C ''i'' [brief_doc sample_brief] = Inr (map_option snd (best (of_incident ''i'') (newest brief_time) [brief_doc sample_brief]))"
    by (simp add: brief_GetLatest_def list_collection_def)
  with saved_brief_is_shown [OF list_collection_ok _ _ _ post, of Map.empty] i s
  have "ev_handleGetBrief sample_evidence_api ''i'' [brief_doc sample_brief] =
      EvBrief (Some (sample_brief\<lparr>ib_GeneratedAt := bson_time (ib_GeneratedAt sample_brief)\<rparr>))"
    by (simp add: briefs_ok_def sample_evidence_api_def)
  moreover have "sample_brief\<lparr>ib_GeneratedAt := bson_time (ib_GeneratedAt sample_brief)\<rparr> = sample_brief"
    unfolding t by (simp add: bson_time_def sample_brief_def evidence_brief_def)
  ultimately show ?thesis by simp
qed

end
