(* ===== verification/Rca.thy ===== *)
theory Rca
  imports Brief PageText Queues
begin

text \<open>
  Root cause analysis (\<open>rca/\<close>): the signals and the timeline that the collector takes from the stored results,
  the prompt, the answer of the model, the reports and their two repositories, and the handlers. The model,
  the JSON in its answer, the formats of times, the orders of ranging over maps and of unstable sorts are
  arguments; the clock is read once per analysis.
\<close>

section \<open>Data\<close>

record SignalPoint =
  sp_Timestamp :: gotime
  sp_Name :: string
  sp_Value :: f64
  sp_Source :: string
  sp_Server :: string

record SignalSeries =
  ss_Name :: string
  ss_Source :: string
  ss_Server :: string
  ss_Points :: "SignalPoint list"
  ss_Min :: f64
  ss_Max :: f64
  ss_Avg :: f64
  ss_Trend :: string

record ErrorFamilyRef =
  ef_ID :: string
  ef_Pattern :: string
  ef_Category :: string
  ef_OccurrenceCount :: int
  ef_LastSeenAt :: string

record TimelineEvent =
  te_Timestamp :: gotime
  te_Type :: string
  te_Description :: string
  te_Severity :: string
  te_Source :: string

record CorrelationContext =
  cc_IncidentID :: string
  cc_CheckName :: string
  cc_Severity :: string
  cc_Message :: string
  cc_StartedAt :: gotime
  cc_Duration :: string
  cc_WindowStart :: gotime
  cc_WindowEnd :: gotime
  cc_Signals :: "SignalSeries list"
  cc_ErrorFamilies :: "ErrorFamilyRef list"
  cc_RecentEvents :: "TimelineEvent list"

record RCAHypothesis =
  hy_Rank :: int
  hy_Title :: string
  hy_Description :: string
  hy_Confidence :: f64
  hy_Category :: string
  hy_Evidence :: "string list"
  hy_Suggestion :: string

record RCAReport =
  rr_ID :: string
  rr_IncidentID :: string
  rr_CreatedAt :: gotime
  rr_Status :: string
  rr_Hypotheses :: "RCAHypothesis list"
  rr_Summary :: string
  rr_Timeline :: "TimelineEvent list"
  rr_SignalCount :: int
  rr_WindowStart :: gotime
  rr_WindowEnd :: gotime
  rr_ProviderUsed :: string
  rr_Error :: string

record CheckResultRef =
  cr_CheckID :: string
  cr_Name :: string
  cr_Type :: string
  cr_Server :: string
  cr_Status :: string
  cr_DurationMs :: int
  cr_Timestamp :: gotime
  cr_Metrics :: fmap

record IncidentRef =
  ir_ID :: string
  ir_CheckID :: string
  ir_CheckName :: string
  ir_Severity :: string
  ir_Status :: string
  ir_StartedAt :: gotime
  ir_Message :: string

section \<open>The results of the store\<close>

definition result_ref :: "CheckResult \<Rightarrow> CheckResultRef" where
  "result_ref r =
     \<lparr>cr_CheckID = res_CheckID r, cr_Name = res_Name r, cr_Type = res_Type r, cr_Server = res_Server r, cr_Status = res_Status r,
      cr_DurationMs = res_DurationMs r, cr_Timestamp = res_StartedAt r, cr_Metrics = res_Metrics r\<rparr>"

definition RecentResults :: "State \<Rightarrow> string \<Rightarrow> nat \<Rightarrow> CheckResultRef list" where
  "RecentResults st checkID limit =
     map result_ref (take limit (filter (\<lambda>r. res_CheckID r = checkID) (rev (st_Results st))))"

definition AllRecentResults :: "State \<Rightarrow> gotime \<Rightarrow> nat \<Rightarrow> CheckResultRef list" where
  "AllRecentResults st since limit =
     map result_ref (take limit (takeWhile (\<lambda>r. \<not> before (res_StartedAt r) since) (rev (st_Results st))))"

definition IncidentLookup :: "(string \<Rightarrow> Incident \<times> string option) \<Rightarrow> string \<Rightarrow> IncidentRef option" where
  "IncidentLookup get i =
     (case get i of
        (_, Some _) \<Rightarrow> None
      | (inc, None) \<Rightarrow>
          Some \<lparr>ir_ID = inc_ID inc, ir_CheckID = inc_CheckID inc, ir_CheckName = inc_CheckName inc, ir_Severity = inc_Severity inc,
            ir_Status = inc_Status inc, ir_StartedAt = inc_StartedAt inc, ir_Message = inc_Message inc\<rparr>)"

section \<open>Figures of a series\<close>

text \<open>\<open>math.MaxFloat64\<close>.\<close>

definition max_float :: f64 where
  "max_float = 2 ^ 1024 - 2 ^ 971"

definition stats_step :: "f64 \<times> f64 \<times> f64 \<Rightarrow> SignalPoint \<Rightarrow> f64 \<times> f64 \<times> f64" where
  "stats_step s p =
     (case s of (lo, hi, acc) \<Rightarrow>
        (if sp_Value p < lo then sp_Value p else lo, if sp_Value p > hi then sp_Value p else hi, f_add acc (sp_Value p)))"

definition computeStats :: "SignalPoint list \<Rightarrow> f64 \<times> f64 \<times> f64" where
  "computeStats points =
     (if length points = 0 then (0, 0, 0)
      else case foldl stats_step (max_float, - max_float, 0) points of
             (lo, hi, acc) \<Rightarrow> (lo, hi, f_div acc (f_of_int (int (length points)))))"

definition sum_values :: "SignalPoint list \<Rightarrow> f64" where
  "sum_values points = foldl (\<lambda>s p. f_add s (sp_Value p)) 0 points"

definition detectTrend :: "SignalPoint list \<Rightarrow> string" where
  "detectTrend points =
     (if length points < 3 then ''stable''
      else
        let third = length points div 3; third = (if third = 0 then 1 else third);
            firstAvg = f_div (sum_values (take third points)) (f_of_int (int third));
            lastAvg = f_div (sum_values (drop (length points - third) points)) (f_of_int (int third))
        in if firstAvg = 0 then (if lastAvg > 0 then ''spike'' else ''stable'')
           else
             let change = f_div (f_sub lastAvg firstAvg) firstAvg; (_, maxVal, avgVal) = computeStats points
             in if avgVal > 0 \<and> f_div maxVal avgVal > 3 then ''spike''
                else if change > 1 / 2 then ''rising''
                else if change < - fl64 (3 / 10) then ''falling''
                else ''stable'')"

definition trendPriority :: "string \<Rightarrow> int" where
  "trendPriority trend =
     (if trend = ''spike'' then 0 else if trend = ''rising'' then 1 else if trend = ''falling'' then 2 else 3)"

section \<open>The collector\<close>

text \<open>What the collector and the analyzer take from outside.\<close>

type_synonym seriesKey = "string \<times> string \<times> string"

record RcaWorld =
  rk_metrics :: "fmap \<Rightarrow> fmap"
  rk_groups :: "(seriesKey \<times> SignalPoint list) list \<Rightarrow> (seriesKey \<times> SignalPoint list) list"
  rk_points :: "SignalPoint list \<Rightarrow> SignalPoint list"
  rk_series :: "SignalSeries list \<Rightarrow> SignalSeries list"
  rk_events :: "TimelineEvent list \<Rightarrow> TimelineEvent list"
  rk_rfc3339 :: "gotime \<Rightarrow> string"
  rk_clock :: "gotime \<Rightarrow> string"
  rk_json :: "string \<Rightarrow> string + string \<times> RCAHypothesis list"

text \<open>\<open>sort.Slice\<close> by a key; a choice that is not a sorted permutation stands for the stable one.\<close>

definition slice_sort :: "('a list \<Rightarrow> 'a list) \<Rightarrow> ('a \<Rightarrow> int) \<Rightarrow> 'a list \<Rightarrow> 'a list" where
  "slice_sort ord k xs = (let ys = ord xs in if mset ys = mset xs \<and> sorted_wrt (\<le>) (map k ys) then ys else sort_key k xs)"

definition point_key :: "SignalPoint \<Rightarrow> seriesKey" where
  "point_key p = (sp_Name p, sp_Source p, sp_Server p)"

definition add_point :: "(seriesKey \<times> SignalPoint list) list \<Rightarrow> SignalPoint \<Rightarrow> (seriesKey \<times> SignalPoint list) list" where
  "add_point groups p =
     AList.update (point_key p) ((case map_of groups (point_key p) of None \<Rightarrow> [] | Some ps \<Rightarrow> ps) @ [p]) groups"

definition point_of :: "CheckResultRef \<Rightarrow> string \<Rightarrow> f64 \<Rightarrow> SignalPoint" where
  "point_of r name v =
     \<lparr>sp_Timestamp = cr_Timestamp r, sp_Name = name, sp_Value = v, sp_Source = cr_Name r, sp_Server = cr_Server r\<rparr>"

text \<open>The measurements of one result: the latency and the metrics.\<close>

definition result_points :: "RcaWorld \<Rightarrow> gotime \<Rightarrow> gotime \<Rightarrow> CheckResultRef \<Rightarrow> SignalPoint list" where
  "result_points w start till r =
     (if before (cr_Timestamp r) start \<or> after (cr_Timestamp r) till then []
      else (if cr_DurationMs r > 0 then [point_of r ''latencyMs'' (f_of_int (cr_DurationMs r))] else []) @
           map (\<lambda>(name, v). point_of r name v) (ranged (rk_metrics w) (cr_Metrics r)))"

definition add_result :: "RcaWorld \<Rightarrow> gotime \<Rightarrow> gotime \<Rightarrow> (seriesKey \<times> SignalPoint list) list \<Rightarrow> CheckResultRef \<Rightarrow>
    (seriesKey \<times> SignalPoint list) list" where
  "add_result w start till groups r = foldl add_point groups (result_points w start till r)"

definition series_of :: "RcaWorld \<Rightarrow> seriesKey \<times> SignalPoint list \<Rightarrow> SignalSeries list" where
  "series_of w entry =
     (case entry of ((name, source, server), points) \<Rightarrow>
        if length points < 2 then []
        else
          let points = slice_sort (rk_points w) sp_Timestamp points; (lo, hi, avg) = computeStats points
          in [\<lparr>ss_Name = name, ss_Source = source, ss_Server = server, ss_Points = points, ss_Min = lo, ss_Max = hi, ss_Avg = avg,
               ss_Trend = detectTrend points\<rparr>])"

definition series_rank :: "SignalSeries \<Rightarrow> int" where
  "series_rank s = trendPriority (ss_Trend s)"

definition buildSignalSeries ::
  "RcaWorld \<Rightarrow> CheckResultRef list \<Rightarrow> CheckResultRef list \<Rightarrow> gotime \<Rightarrow> gotime \<Rightarrow> SignalSeries list" where
  "buildSignalSeries w primary all start till =
     (let groups = foldl (add_result w start till) (foldl (add_result w start till) [] primary) all;
          series = concat (map (series_of w) (ranged (rk_groups w) groups));
          series = slice_sort (rk_series w) series_rank series
      in if length series > 20 then take 20 series else series)"

definition incident_opening :: "IncidentRef \<Rightarrow> TimelineEvent" where
  "incident_opening inc = \<lparr>te_Timestamp = ir_StartedAt inc, te_Type = ''incident_open'', te_Description = ir_Message inc,
     te_Severity = ir_Severity inc, te_Source = ir_CheckName inc\<rparr>"

fun transitions :: "string \<Rightarrow> CheckResultRef list \<Rightarrow> TimelineEvent list" where
  "transitions prevStatus [] = []"
| "transitions prevStatus (r # rs) =
     (if prevStatus \<noteq> [] \<and> cr_Status r \<noteq> prevStatus
      then [\<lparr>te_Timestamp = cr_Timestamp r, te_Type = (if cr_Status r = ''healthy'' then ''check_recover'' else ''check_fail''),
             te_Description = cr_Name r @ '': '' @ prevStatus @ '' -> '' @ cr_Status r, te_Severity = [], te_Source = cr_Name r\<rparr>]
      else []) @ transitions (cr_Status r) rs"

definition critical_event :: "CheckResultRef \<Rightarrow> TimelineEvent" where
  "critical_event r = \<lparr>te_Timestamp = cr_Timestamp r, te_Type = ''check_fail'',
     te_Description = cr_Name r @ '' critical: '' @ cr_Status r, te_Severity = ''critical'', te_Source = cr_Name r\<rparr>"

definition rca_buildTimeline :: "RcaWorld \<Rightarrow> CheckResultRef list \<Rightarrow> CheckResultRef list \<Rightarrow> IncidentRef \<Rightarrow> TimelineEvent list" where
  "rca_buildTimeline w primary all incident =
     (let events = [incident_opening incident] @ transitions [] primary @ map critical_event (filter (\<lambda>r. cr_Status r = ''critical'') all);
          events = slice_sort (rk_events w) te_Timestamp events
      in if length events > 50 then take 50 events else events)"

text \<open>\<open>Duration.Round\<close>: to the nearest multiple, halves away from zero, within the range of a duration.\<close>

definition dur_round :: "duration \<Rightarrow> duration \<Rightarrow> duration" where
  "dur_round d m =
     (let r = go_rem d m
      in if m \<le> 0 then d
         else if d < 0 then
           (if - r + - r < m then d - r
            else let d1 = wrap64 (d - m - r) in if d1 < d then d1 else - 9223372036854775808)
         else if r + r < m then d - r
         else let d1 = wrap64 (d + m - r) in if d1 > d then d1 else 9223372036854775807)"

definition CollectContext :: "RcaWorld \<Rightarrow> gotime \<Rightarrow> State \<Rightarrow> IncidentRef \<Rightarrow> duration \<Rightarrow> CorrelationContext" where
  "CollectContext w now st incident window =
     (let windowStart = time_add (ir_StartedAt incident) (- window);
          windowEnd = (if before now (time_add (ir_StartedAt incident) window) then time_add (ir_StartedAt incident) window else now);
          checkResults = RecentResults st (ir_ID incident) 100;
          allResults = AllRecentResults st windowStart 500
      in \<lparr>cc_IncidentID = ir_ID incident, cc_CheckName = ir_CheckName incident, cc_Severity = ir_Severity incident,
          cc_Message = ir_Message incident, cc_StartedAt = ir_StartedAt incident,
          cc_Duration = duration_string (dur_round (time_sub now (ir_StartedAt incident)) second),
          cc_WindowStart = windowStart, cc_WindowEnd = windowEnd,
          cc_Signals = buildSignalSeries w checkResults allResults windowStart windowEnd, cc_ErrorFamilies = [],
          cc_RecentEvents = rca_buildTimeline w checkResults allResults incident\<rparr>)"

section \<open>The prompt and the answer\<close>

definition countSignals :: "CorrelationContext \<Rightarrow> int" where
  "countSignals ctx = foldl (\<lambda>count s. count + int (length (ss_Points s))) 0 (cc_Signals ctx)"

definition buildSystemPrompt :: string where
  \<open>buildSystemPrompt = join newline
    [''You are an expert Site Reliability Engineer performing root-cause analysis on a production incident.'', [],
     ''You will receive correlated multi-signal telemetry data from a monitoring system including:'',
     ''- Time-series metrics (latency, error rates, resource utilization)'',
     ''- Timeline of events (check failures, recoveries, status changes)'',
     ''- Related log error families (clustered similar errors)'',
     ''- Incident metadata (severity, duration, affected services)'', [],
     ''Your task is to analyze all signals together and produce a ROOT CAUSE ANALYSIS with:'',
     ''1. Multiple ranked hypotheses (not just one answer)'',
     ''2. Confidence scores (0.0 to 1.0) based on evidence strength'',
     ''3. Supporting evidence for each hypothesis'',
     ''4. Actionable remediation suggestions'', [],
     ''IMPORTANT:'', ''- Rank by confidence, not severity'', ''- Never claim 100% confidence without definitive proof'',
     ''- Identify correlations across different signal types'', ''- Note when signals contradict each other'',
     ''- If evidence is insufficient, say so explicitly'', [],
     ''Respond in JSON format:'', ''{'', ''  "summary": "1-2 sentence overview of the incident",'', ''  "hypotheses": ['', ''    {'',
     ''      "rank": 1,'', ''      "title": "Short hypothesis title",'',
     ''      "description": "Detailed explanation of the hypothesis",'', ''      "confidence": 0.85,'',
     ''      "category": "resource|network|application|database|config",'',
     ''      "evidence": ["signal1 shows X", "signal2 correlates with Y"],'',
     ''      "suggestion": "Specific remediation step"'', ''    }'', ''  ]'', ''}'']\<close>

definition series_text :: "RcaWorld \<Rightarrow> SignalSeries \<Rightarrow> string" where
  "series_text w s =
     newline @ ''### '' @ ss_Name s @ '' (source: '' @ ss_Source s
     @ (if ss_Server s \<noteq> [] then '', server: '' @ ss_Server s else []) @ '')'' @ newline
     @ ''- Trend: '' @ ss_Trend s @ newline
     @ ''- Min: '' @ fmt_fixed 2 (ss_Min s) @ '', Max: '' @ fmt_fixed 2 (ss_Max s) @ '', Avg: '' @ fmt_fixed 2 (ss_Avg s) @ newline
     @ ''- Recent values: ''
     @ join '', '' (map (\<lambda>p. fmt_fixed 1 (sp_Value p) @ ''@'' @ rk_clock w (sp_Timestamp p))
         (if length (ss_Points s) > 10 then drop (length (ss_Points s) - 10) (ss_Points s) else ss_Points s))
     @ newline"

definition family_text :: "ErrorFamilyRef \<Rightarrow> string" where
  "family_text f = ''- ['' @ ef_Category f @ ''] '' @ ef_Pattern f @ '' ('' @ itoa (ef_OccurrenceCount f) @ '' occurrences, last: ''
     @ ef_LastSeenAt f @ '')'' @ newline"

definition event_text :: "RcaWorld \<Rightarrow> TimelineEvent \<Rightarrow> string" where
  "event_text w e = ''- '' @ rk_clock w (te_Timestamp e) @ '' ['' @ te_Type e @ ''] '' @ te_Description e
     @ (if te_Severity e \<noteq> [] then '' (severity: '' @ te_Severity e @ '')'' else []) @ newline"

text \<open>The prompt; the error that the function could return is always nil.\<close>

definition rca_buildUserPrompt :: "RcaWorld \<Rightarrow> CorrelationContext \<Rightarrow> string" where
  "rca_buildUserPrompt w ctx =
     ''## Incident'' @ newline @ ''- Check: '' @ cc_CheckName ctx @ newline @ ''- Severity: '' @ cc_Severity ctx @ newline
     @ ''- Message: '' @ cc_Message ctx @ newline @ ''- Started: '' @ rk_rfc3339 w (cc_StartedAt ctx) @ newline
     @ ''- Duration: '' @ cc_Duration ctx @ newline
     @ ''- Window: '' @ rk_rfc3339 w (cc_WindowStart ctx) @ '' to '' @ rk_rfc3339 w (cc_WindowEnd ctx) @ newline @ newline
     @ ''## Correlated Signals'' @ newline @ concat (map (series_text w) (cc_Signals ctx))
     @ (if length (cc_ErrorFamilies ctx) > 0
        then newline @ ''## Related Error Families'' @ newline @ concat (map family_text (cc_ErrorFamilies ctx)) else [])
     @ (if length (cc_RecentEvents ctx) > 0
        then newline @ ''## Event Timeline'' @ newline @ concat (map (event_text w) (cc_RecentEvents ctx)) else [])"

text \<open>The text between a fence with the mark and the next fence.\<close>

definition fenced_block :: "string \<Rightarrow> string \<Rightarrow> string option" where
  "fenced_block mark s =
     (case str_index s mark of
        None \<Rightarrow> None
      | Some idx \<Rightarrow> (let rest = drop (idx + length mark) s
                     in map_option (\<lambda>e. trim_space (take e rest)) (str_index rest ''```'')))"

definition extractJSON :: "string \<Rightarrow> string" where
  "extractJSON s =
     (case fenced_block ''```json'' s of
        Some b \<Rightarrow> b
      | None \<Rightarrow>
          (case fenced_block ''```'' s of
             Some b \<Rightarrow> b
           | None \<Rightarrow>
               (case str_index s ''{'' of
                  None \<Rightarrow> s
                | Some idx \<Rightarrow> (case str_last_index s ''}'' of
                     None \<Rightarrow> s
                   | Some e \<Rightarrow> if e > idx then take (e + 1 - idx) (drop idx s) else s))))"

fun set_ranks :: "int \<Rightarrow> RCAHypothesis list \<Rightarrow> RCAHypothesis list" where
  "set_ranks i [] = []"
| "set_ranks i (h # hs) = (if hy_Rank h = 0 then h\<lparr>hy_Rank := i + 1\<rparr> else h) # set_ranks (i + 1) hs"

definition parseRCAResponse :: "RcaWorld \<Rightarrow> string \<Rightarrow> string + RCAHypothesis list \<times> string" where
  "parseRCAResponse w raw =
     (case rk_json w (extractJSON raw) of
        Inl err \<Rightarrow> Inl (''parse RCA JSON: '' @ err)
      | Inr (summary, hypotheses) \<Rightarrow> Inr (set_ranks 0 hypotheses, summary))"

section \<open>The repository in MongoDB\<close>

definition bson_event :: "TimelineEvent \<Rightarrow> TimelineEvent" where
  "bson_event e = e\<lparr>te_Timestamp := bson_time (te_Timestamp e)\<rparr>"

definition bson_report :: "RCAReport \<Rightarrow> RCAReport" where
  "bson_report r = r\<lparr>rr_CreatedAt := bson_time (rr_CreatedAt r), rr_Timeline := map bson_event (rr_Timeline r),
     rr_WindowStart := bson_time (rr_WindowStart r), rr_WindowEnd := bson_time (rr_WindowEnd r)\<rparr>"

type_synonym 'w reports = "('w, RCAReport) Collection"

definition report_Save :: "'w reports \<Rightarrow> RCAReport \<Rightarrow> 'w \<Rightarrow> 'w \<times> string option" where
  "report_Save C r w =
     (case cl_update C (with_key rr_ID (rr_ID r)) (\<lambda>_. bson_report r) (Some (bson_report r)) w of
        (w, Inl err) \<Rightarrow> (w, Some (''save rca report: '' @ err)) | (w, Inr _) \<Rightarrow> (w, None))"

definition report_Get :: "'w reports \<Rightarrow> string \<Rightarrow> 'w \<Rightarrow> string + RCAReport option" where
  "report_Get C i w =
     (case cl_find_one C (with_key rr_ID i) any_order w of
        Inl err \<Rightarrow> Inl (''get rca report: '' @ err) | Inr d \<Rightarrow> Inr d)"

definition staged :: "string \<Rightarrow> (find_stage \<times> string \<times> 'd list) + 'd list \<Rightarrow> string + 'd list" where
  "staged what a =
     (case a of
        Inl (QueryStage, err, _) \<Rightarrow> Inl (what @ err)
      | Inl (_, err, _) \<Rightarrow> Inl (''decode rca reports: '' @ err)
      | Inr ds \<Rightarrow> Inr ds)"

definition report_ForIncident :: "'w reports \<Rightarrow> string \<Rightarrow> 'w \<Rightarrow> string + RCAReport list" where
  "report_ForIncident C incidentID w =
     staged ''find rca reports for incident: ''
       (cl_find C (\<lambda>r. rr_IncidentID r = incidentID) (newest rr_CreatedAt) 0 None w)"

definition report_All :: "'w reports \<Rightarrow> int \<Rightarrow> 'w \<Rightarrow> string + RCAReport list" where
  "report_All C limit w =
     staged ''find all rca reports: '' (cl_find C (\<lambda>_. True) (newest rr_CreatedAt) 0 (find_limit limit) w)"

definition report_PruneBefore :: "'w reports \<Rightarrow> gotime \<Rightarrow> 'w \<Rightarrow> 'w \<times> string option" where
  "report_PruneBefore C cutoff w =
     (case cl_delete_many C (\<lambda>r. before (rr_CreatedAt r) (bson_time cutoff)) w of
        (w, Inl err) \<Rightarrow> (w, Some (''prune rca reports: '' @ err)) | (w, Inr _) \<Rightarrow> (w, None))"

section \<open>The repository in a file\<close>

record FileReports =
  fr_reports :: "RCAReport list"
  fr_disk :: "RCAReport list"

definition file_Save :: "string option \<Rightarrow> RCAReport \<Rightarrow> FileReports \<Rightarrow> FileReports \<times> string option" where
  "file_Save werr r s =
     (let reports = (if list_ex (\<lambda>e. rr_ID e = rr_ID r) (fr_reports s)
                     then replace_first (\<lambda>e. rr_ID e = rr_ID r) (\<lambda>_. r) (fr_reports s) else fr_reports s @ [r])
      in (s\<lparr>fr_reports := reports, fr_disk := jsonl_rewrite werr reports (fr_disk s)\<rparr>, werr))"

definition file_GetReport :: "FileReports \<Rightarrow> string \<Rightarrow> RCAReport option" where
  "file_GetReport s i = find (\<lambda>r. rr_ID r = i) (fr_reports s)"

definition file_ReportsForIncident :: "FileReports \<Rightarrow> string \<Rightarrow> RCAReport list" where
  "file_ReportsForIncident s incidentID = filter (\<lambda>r. rr_IncidentID r = incidentID) (fr_reports s)"

definition file_AllReports :: "FileReports \<Rightarrow> int \<Rightarrow> RCAReport list" where
  "file_AllReports s limit =
     (let n = (if limit \<le> 0 \<or> limit > int (length (fr_reports s)) then length (fr_reports s) else nat limit)
      in map (\<lambda>i. fr_reports s ! (length (fr_reports s) - 1 - i)) [0 ..< n])"

definition file_PruneBefore :: "string option \<Rightarrow> gotime \<Rightarrow> FileReports \<Rightarrow> FileReports \<times> string option" where
  "file_PruneBefore werr cutoff s =
     (let kept = filter (\<lambda>r. \<not> before (rr_CreatedAt r) cutoff) (fr_reports s)
      in (s\<lparr>fr_reports := kept, fr_disk := jsonl_rewrite werr kept (fr_disk s)\<rparr>, werr))"

section \<open>The analyzer\<close>

record 'w Analyzer =
  an_repo :: "'w reports"
  an_provider :: "(string \<Rightarrow> string \<Rightarrow> string + string) option"
  an_store :: State

definition pending_report :: "gotime \<Rightarrow> IncidentRef \<Rightarrow> CorrelationContext \<Rightarrow> RCAReport" where
  "pending_report now incident ctx =
     \<lparr>rr_ID = ''rca-'' @ ir_ID incident @ ''-'' @ itoa (unix_milli now), rr_IncidentID = ir_ID incident, rr_CreatedAt = now,
      rr_Status = ''pending'', rr_Hypotheses = [], rr_Summary = [], rr_Timeline = cc_RecentEvents ctx,
      rr_SignalCount = countSignals ctx, rr_WindowStart = cc_WindowStart ctx, rr_WindowEnd = cc_WindowEnd ctx,
      rr_ProviderUsed = [], rr_Error = []\<rparr>"

definition finished_report :: "RcaWorld \<Rightarrow> string \<Rightarrow> RCAReport \<Rightarrow> RCAReport" where
  "finished_report w response report =
     (case parseRCAResponse w response of
        Inl _ \<Rightarrow> report\<lparr>rr_Summary := response, rr_Status := ''complete'', rr_ProviderUsed := ''default''\<rparr>
      | Inr (hypotheses, summary) \<Rightarrow>
          report\<lparr>rr_Hypotheses := hypotheses, rr_Summary := summary, rr_Status := ''complete'', rr_ProviderUsed := ''default''\<rparr>)"

text \<open>An error without a report, or the report and the error, if any.\<close>

definition Analyze :: "RcaWorld \<Rightarrow> gotime \<Rightarrow> 'w Analyzer \<Rightarrow> IncidentRef \<Rightarrow> ErrorFamilyRef list \<Rightarrow> 'w \<Rightarrow>
    'w \<times> (string + RCAReport \<times> string option)" where
  "Analyze k now a incident families w =
     (case an_provider a of
        None \<Rightarrow> (w, Inl ''AI provider not configured'')
      | Some ai \<Rightarrow>
          let ctx = (CollectContext k now (an_store a) incident (15 * minute))\<lparr>cc_ErrorFamilies := families\<rparr>;
              report = pending_report now incident ctx
          in (case ai buildSystemPrompt (rca_buildUserPrompt k ctx) of
                Inl err \<Rightarrow>
                  let report = report\<lparr>rr_Status := ''failed'', rr_Error := ''AI call failed: '' @ err\<rparr>
                  in (fst (report_Save (an_repo a) report w), Inr (report, Some err))
              | Inr response \<Rightarrow>
                  let report = finished_report k response report
                  in (fst (report_Save (an_repo a) report w), Inr (report, None))))"

definition an_GetReport :: "'w Analyzer \<Rightarrow> string \<Rightarrow> 'w \<Rightarrow> RCAReport option" where
  "an_GetReport a i w = (case report_Get (an_repo a) i w of Inl _ \<Rightarrow> None | Inr d \<Rightarrow> d)"

definition an_ReportsForIncident :: "'w Analyzer \<Rightarrow> string \<Rightarrow> 'w \<Rightarrow> RCAReport list" where
  "an_ReportsForIncident a i w = (case report_ForIncident (an_repo a) i w of Inl _ \<Rightarrow> [] | Inr ds \<Rightarrow> ds)"

definition an_AllReports :: "'w Analyzer \<Rightarrow> int \<Rightarrow> 'w \<Rightarrow> RCAReport list" where
  "an_AllReports a limit w = (case report_All (an_repo a) limit w of Inl _ \<Rightarrow> [] | Inr ds \<Rightarrow> ds)"

section \<open>The handlers\<close>

datatype rca_answer =
  RcaError int string
| RcaReport RCAReport
| RcaReports "RCAReport list"
| RcaTimeline "TimelineEvent list" "SignalSeries list"

record 'w RcaAPI =
  ra_analyzer :: "'w Analyzer"
  ra_incident :: "string \<Rightarrow> IncidentRef option"
  ra_families :: "ErrorFamilyRef list option"

text \<open>\<open>json.Number.Int64\<close>, which is \<open>strconv.ParseInt\<close> to base 10.\<close>

definition parse_int64 :: "string \<Rightarrow> int option" where
  "parse_int64 s =
     (let neg = has_prefix s ''-''; ds = (if neg \<or> has_prefix s ''+'' then drop 1 s else s);
          v = (if neg then - int (digits_value ds) else int (digits_value ds))
      in if ds = [] \<or> \<not> list_all is_digit ds \<or> v < - 9223372036854775808 \<or> v > 9223372036854775807 then None else Some v)"

definition handleAnalyze :: "RcaWorld \<Rightarrow> gotime \<Rightarrow> 'w RcaAPI \<Rightarrow> string \<Rightarrow> 'w \<Rightarrow> 'w \<times> rca_answer" where
  "handleAnalyze k now h incidentID w =
     (if incidentID = [] then (w, RcaError 400 ''incidentId required'')
      else case ra_incident h incidentID of
             None \<Rightarrow> (w, RcaError 404 ''incident not found'')
           | Some incident \<Rightarrow>
               let families = (case ra_families h of None \<Rightarrow> [] | Some fs \<Rightarrow> fs)
               in (case Analyze k now (ra_analyzer h) incident families w of
                     (w, Inr (report, _)) \<Rightarrow> (w, RcaReport report)
                   | (w, Inl err) \<Rightarrow> (w, RcaError 500 err)))"

definition handleReportsForIncident :: "'w RcaAPI \<Rightarrow> string \<Rightarrow> 'w \<Rightarrow> rca_answer" where
  "handleReportsForIncident h incidentID w =
     (if incidentID = [] then RcaError 400 ''incidentId required''
      else RcaReports (an_ReportsForIncident (ra_analyzer h) incidentID w))"

definition handleGetReport :: "'w RcaAPI \<Rightarrow> string \<Rightarrow> 'w \<Rightarrow> rca_answer" where
  "handleGetReport h i w =
     (if i = [] then RcaError 400 ''id required''
      else case an_GetReport (ra_analyzer h) i w of
             None \<Rightarrow> RcaError 404 ''report not found''
           | Some report \<Rightarrow> RcaReport report)"

definition rca_handleTimeline :: "RcaWorld \<Rightarrow> gotime \<Rightarrow> 'w RcaAPI \<Rightarrow> string \<Rightarrow> rca_answer" where
  "rca_handleTimeline k now h incidentID =
     (if incidentID = [] then RcaError 400 ''incidentId required''
      else case ra_incident h incidentID of
             None \<Rightarrow> RcaError 404 ''incident not found''
           | Some incident \<Rightarrow>
               let ctx = CollectContext k now (an_store (ra_analyzer h)) incident (15 * minute)
               in RcaTimeline (cc_RecentEvents ctx) (cc_Signals ctx))"

definition handleAllReports :: "'w RcaAPI \<Rightarrow> string \<Rightarrow> 'w \<Rightarrow> rca_answer" where
  "handleAllReports h limitStr w =
     (let limit = (if limitStr \<noteq> [] then (case parse_int64 limitStr of Some n \<Rightarrow> n | None \<Rightarrow> 50) else 50)
      in RcaReports (an_AllReports (ra_analyzer h) limit w))"
section \<open>The series\<close>

lemma mset_slice_sort [simp]: "mset (slice_sort ord k xs) = mset xs"
  by (simp add: slice_sort_def Let_def)

lemma set_slice_sort [simp]: "set (slice_sort ord k xs) = set xs"
  by (metis mset_slice_sort set_mset_mset)

lemma length_slice_sort [simp]: "length (slice_sort ord k xs) = length xs"
  by (metis mset_slice_sort size_mset)

lemma sorted_slice_sort: "sorted_wrt (\<le>) (map k (slice_sort ord k xs))"
  by (simp add: slice_sort_def Let_def)

text \<open>The first elements of a sorted list, and what is left out.\<close>

lemma first_sorted:
  assumes "sorted_wrt (\<le>) (map k xs)" and "length xs > n \<Longrightarrow> ys = take n xs" and "length xs \<le> n \<Longrightarrow> ys = xs"
  shows "sorted_wrt (\<le>) (map k ys)" and "length ys \<le> n" and "set ys \<subseteq> set xs"
    and "x \<in> set xs \<Longrightarrow> x \<notin> set ys \<Longrightarrow> length ys = n \<and> (\<forall>y \<in> set ys. k y \<le> (k x :: int))"
proof -
  have ys: "ys = take n xs" using assms(2,3) by (cases "length xs > n") auto
  have s: "sorted_wrt (\<le>) (map k (take n xs) @ map k (drop n xs))"
    using assms(1) by (metis append_take_drop_id map_append)
  then show "sorted_wrt (\<le>) (map k ys)" unfolding ys by (simp only: sorted_wrt_append)
  show "length ys \<le> n" and "set ys \<subseteq> set xs" unfolding ys by (auto dest: in_set_takeD)
  assume x: "x \<in> set xs" "x \<notin> set ys"
  then have "x \<in> set (drop n xs)" unfolding ys by (metis append_take_drop_id Un_iff set_append)
  moreover from this have "n < length xs" by (cases "n < length xs") auto
  ultimately show "length ys = n \<and> (\<forall>y \<in> set ys. k y \<le> k x)"
    using s unfolding ys by (auto simp: sorted_wrt_append)
qed

lemma sort_take:
  assumes "ys = (if length (slice_sort ord k xs) > n then take n (slice_sort ord k xs) else slice_sort ord k xs)"
  shows "sorted_wrt (\<le>) (map k ys)" and "length ys \<le> n" and "set ys \<subseteq> set xs"
    and "x \<in> set xs \<Longrightarrow> x \<notin> set ys \<Longrightarrow> length ys = n \<and> (\<forall>y \<in> set ys. k y \<le> k x)"
  using first_sorted [OF sorted_slice_sort [of k ord xs], where n = n and ys = ys] assms by auto

definition measured :: "RcaWorld \<Rightarrow> CheckResultRef list \<Rightarrow> gotime \<Rightarrow> gotime \<Rightarrow> seriesKey \<Rightarrow> SignalPoint list" where
  "measured w results start till k = filter (\<lambda>p. point_key p = k) (concat (map (result_points w start till) results))"

lemma add_points: "map_of (foldl add_point [] ps) k =
    (if filter (\<lambda>p. point_key p = k) ps = [] then None else Some (filter (\<lambda>p. point_key p = k) ps))"
proof (induction ps arbitrary: k rule: rev_induct)
  case (snoc p ps)
  have step: "map_of (foldl add_point [] (ps @ [p])) k =
      (if k = point_key p then Some ((case map_of (foldl add_point [] ps) k of None \<Rightarrow> [] | Some qs \<Rightarrow> qs) @ [p])
       else map_of (foldl add_point [] ps) k)"
    by (simp add: add_point_def update_conv')
  show ?case
    unfolding step snoc.IH [of k] by (cases "filter (\<lambda>p. point_key p = k) ps = []") auto
qed simp

lemma add_points_distinct: "distinct (map fst (foldl add_point [] ps))"
  by (induction ps rule: rev_induct) (simp_all add: add_point_def distinct_update)

lemma add_results: "foldl (add_result w start till) g rs = foldl add_point g (concat (map (result_points w start till) rs))"
  by (induction rs arbitrary: g) (simp_all add: add_result_def)

definition series_groups :: "RcaWorld \<Rightarrow> CheckResultRef list \<Rightarrow> gotime \<Rightarrow> gotime \<Rightarrow> (seriesKey \<times> SignalPoint list) list" where
  "series_groups w results start till = foldl add_point [] (concat (map (result_points w start till) results))"

lemma groups_in: "(k, ps) \<in> set (series_groups w results start till) \<longleftrightarrow> ps = measured w results start till k \<and> ps \<noteq> []"
proof -
  have "(k, ps) \<in> set (series_groups w results start till) \<longleftrightarrow> map_of (series_groups w results start till) k = Some ps"
    unfolding series_groups_def using add_points_distinct by (rule map_of_eq_Some_iff [symmetric])
  then show ?thesis by (auto simp: series_groups_def add_points measured_def)
qed

definition series_key :: "SignalSeries \<Rightarrow> seriesKey" where
  "series_key s = (ss_Name s, ss_Source s, ss_Server s)"

text \<open>The series of a list of measurements.\<close>

definition is_series :: "SignalPoint list \<Rightarrow> SignalSeries \<Rightarrow> bool" where
  "is_series ps s \<longleftrightarrow> mset (ss_Points s) = mset ps \<and> sorted_wrt (\<le>) (map sp_Timestamp (ss_Points s)) \<and>
     ss_Trend s = detectTrend (ss_Points s) \<and> (ss_Min s, ss_Max s, ss_Avg s) = computeStats (ss_Points s)"

lemma series_of_is:
  "length ps \<ge> 2 \<Longrightarrow> \<exists>s. series_of w (k, ps) = [s] \<and> series_key s = k \<and> is_series ps s"
  "length ps < 2 \<Longrightarrow> series_of w (k, ps) = []"
  by (cases k, cases "computeStats (slice_sort (rk_points w) sp_Timestamp ps)";
      simp add: series_of_def series_key_def is_series_def sorted_slice_sort Let_def)+

lemma series_distinct:
  assumes "distinct (map fst g)"
  shows "distinct (map series_key (concat (map (series_of w) g)))"
  using assms
proof (induction g)
  case (Cons e g)
  obtain k ps where e: "e = (k, ps)" by fastforce
  have keys: "series_key s \<in> fst ` set g" if "s \<in> set (concat (map (series_of w) g))" for s
  proof -
    from that obtain k' ps' where "(k', ps') \<in> set g" and s: "s \<in> set (series_of w (k', ps'))" by auto
    moreover have "series_key s = k'"
      using s series_of_is [of ps' w k'] by (cases "2 \<le> length ps'") auto
    ultimately show ?thesis by force
  qed
  show ?case
  proof (cases "length ps < 2")
    case True
    then show ?thesis using Cons by (simp add: e series_of_is(2))
  next
    case False
    then obtain s where "series_of w (k, ps) = [s]" "series_key s = k" using series_of_is(1) [of ps w k] by (meson not_less)
    moreover have "k \<notin> series_key ` set (concat (map (series_of w) g))" using keys Cons.prems by (auto simp: e)
    ultimately show ?thesis using Cons by (simp add: e)
  qed
qed simp

text \<open>The order in which trends are of interest, from the comment of the code: spikes, rising, falling, stable.\<close>

definition not_behind :: "SignalSeries \<Rightarrow> SignalSeries \<Rightarrow> bool" where
  "not_behind s t \<longleftrightarrow> ss_Trend s = ''spike'' \<or> (ss_Trend s = ''rising'' \<and> ss_Trend t \<noteq> ''spike'') \<or>
     (ss_Trend s = ''falling'' \<and> ss_Trend t \<noteq> ''spike'' \<and> ss_Trend t \<noteq> ''rising'') \<or> (ss_Trend s = ''stable'' \<and> ss_Trend t = ''stable'')"

lemma if_in: "(P \<Longrightarrow> x \<in> S) \<Longrightarrow> (\<not> P \<Longrightarrow> y \<in> S) \<Longrightarrow> (if P then x else y) \<in> S"
  by simp

lemma trends: "detectTrend ps \<in> {''spike'', ''rising'', ''falling'', ''stable''}"
  unfolding detectTrend_def Let_def case_prod_beta by ((rule if_in)+; simp (no_asm))

lemma series_trend: "is_series ps s \<Longrightarrow> ss_Trend s \<in> {''spike'', ''rising'', ''falling'', ''stable''}"
  using trends [of "ss_Points s"] unfolding is_series_def by metis

lemma rank_not_behind:
  assumes "is_series ps s" and "is_series qs t" and "series_rank s \<le> series_rank t"
  shows "not_behind s t"
proof -
  have "ss_Trend s = ''spike'' \<or> ss_Trend s = ''rising'' \<or> ss_Trend s = ''falling'' \<or> ss_Trend s = ''stable''"
    using series_trend [OF assms(1)] by blast
  moreover have "ss_Trend t = ''spike'' \<or> ss_Trend t = ''rising'' \<or> ss_Trend t = ''falling'' \<or> ss_Trend t = ''stable''"
    using series_trend [OF assms(2)] by blast
  ultimately show ?thesis
    using assms(3) unfolding series_rank_def not_behind_def by (elim disjE; simp add: trendPriority_def)
qed

lemma later_part: "\<exists>x y. r = x @ m @ y \<Longrightarrow> \<exists>x y. a @ r = x @ m @ y"
  by (metis append_assoc)

lemma first_part: "\<exists>x y. m @ r = x @ m @ y"
  by (metis append_Nil)

lemma prompt_has_series:
  assumes "s \<in> set (cc_Signals ctx)"
  shows "\<exists>x y. rca_buildUserPrompt w ctx = x @ series_text w s @ y"
proof -
  obtain us vs where e: "cc_Signals ctx = us @ s # vs" using split_list [OF assms] by blast
  have "\<exists>p q. rca_buildUserPrompt w ctx = p @ concat (map (series_text w) (cc_Signals ctx)) @ q"
    unfolding rca_buildUserPrompt_def by (rule first_part | rule later_part)+
  then obtain p q where "rca_buildUserPrompt w ctx = p @ concat (map (series_text w) (us @ s # vs)) @ q" unfolding e by blast
  then have "rca_buildUserPrompt w ctx = (p @ concat (map (series_text w) us)) @ series_text w s @ (concat (map (series_text w) vs) @ q)"
    by simp
  then show ?thesis by blast
qed


section \<open>The timeline\<close>

text \<open>
  C23: the collector asks for the results of a check with the identifier of the incident. As long as no check has that
  identifier, the timeline has the opening of the incident and critical results of any check in the window, and never a
  change of status or a recovery.
\<close>

theorem own_check_is_not_looked_up:
  assumes "\<forall>r \<in> set (st_Results st). res_CheckID r \<noteq> ir_ID incident"
  shows "RecentResults st (ir_ID incident) 100 = [] \<and>
    (\<forall>e \<in> set (cc_RecentEvents (CollectContext w now st incident window)).
       e = incident_opening incident \<or>
       (\<exists>r \<in> set (AllRecentResults st (ir_StartedAt incident - window) 500). cr_Status r = ''critical'' \<and> e = critical_event r))"
proof -
  have none: "RecentResults st (ir_ID incident) 100 = []"
    using assms by (auto simp: RecentResults_def filter_empty_conv)
  let ?all = "AllRecentResults st (ir_StartedAt incident - window) 500"
  define xs where "xs = incident_opening incident # map critical_event (filter (\<lambda>r. cr_Status r = ''critical'') ?all)"
  have "cc_RecentEvents (CollectContext w now st incident window) = rca_buildTimeline w [] ?all incident"
    by (simp add: CollectContext_def none time_add_def Let_def)
  then have e: "cc_RecentEvents (CollectContext w now st incident window) =
      (if length (slice_sort (rk_events w) te_Timestamp xs) > 50 then take 50 (slice_sort (rk_events w) te_Timestamp xs)
       else slice_sort (rk_events w) te_Timestamp xs)"
    by (simp only: rca_buildTimeline_def xs_def Let_def transitions.simps append_Nil append_Cons)
  from sort_take(3) [OF e] none show ?thesis by (auto simp: xs_def)
qed

lemma early_first:
  fixes t :: int
  assumes "sorted_wrt (\<le>) (map k ys)" and "n \<le> length (filter (\<lambda>x. k x < t) ys)" and "x \<in> set (take n ys)"
  shows "k x < t"
  using assms
proof (induction ys arbitrary: n)
  case (Cons y ys)
  then obtain m where n: "n = Suc m" by (cases n) auto
  have y: "k y < t"
  proof (rule ccontr)
    assume "\<not> k y < t"
    then have "filter (\<lambda>x. k x < t) (y # ys) = []" using Cons.prems(1) by (auto simp: filter_empty_conv)
    with Cons.prems(2) n show False by simp
  qed
  then show ?case using Cons n by auto
qed simp

text \<open>Critical results push the incident off its own timeline: the earliest 50 events are kept.\<close>

lemma timeline_can_lose_the_incident:
  assumes "50 \<le> length (filter (\<lambda>r. cr_Status r = ''critical'' \<and> cr_Timestamp r < ir_StartedAt incident) all)"
  shows "incident_opening incident \<notin> set (rca_buildTimeline w primary all incident)"
proof
  define xs where "xs = [incident_opening incident] @ transitions [] primary @ map critical_event (filter (\<lambda>r. cr_Status r = ''critical'') all)"
  let ?ys = "slice_sort (rk_events w) te_Timestamp xs" and ?early = "\<lambda>e. te_Timestamp e < ir_StartedAt incident"
  have "length (filter ?early (map critical_event (filter (\<lambda>r. cr_Status r = ''critical'') all))) =
      length (filter (\<lambda>r. cr_Status r = ''critical'' \<and> cr_Timestamp r < ir_StartedAt incident) all)"
    by (simp add: filter_map o_def critical_event_def conj_commute)
  then have "50 \<le> length (filter ?early xs)" using assms by (simp add: xs_def)
  also have "length (filter ?early xs) = length (filter ?early ?ys)" by (metis mset_filter mset_slice_sort size_mset)
  finally have n: "50 \<le> length (filter ?early ?ys)" .
  assume "incident_opening incident \<in> set (rca_buildTimeline w primary all incident)"
  moreover have "rca_buildTimeline w primary all incident = take 50 ?ys"
    using order_trans [OF n length_filter_le] by (simp add: rca_buildTimeline_def xs_def Let_def)
  ultimately have "te_Timestamp (incident_opening incident) < ir_StartedAt incident"
    using early_first [OF sorted_slice_sort n] by simp
  then show False by (simp add: incident_opening_def)
qed

section \<open>Reports that were saved\<close>

lemma bson_report_ID [simp]: "rr_ID (bson_report r) = rr_ID r" "rr_Status (bson_report r) = rr_Status r"
  by (simp_all add: bson_report_def)

lemma report_Save_saves:
  assumes "coll_ok (same_key rr_ID) docs C" and "holds rr_ID m (docs w)" and "report_Save C r w = (w', None)"
  shows "holds rr_ID (m(rr_ID r \<mapsto> bson_report r)) (docs w')"
proof -
  obtain w1 a where u1: "cl_update C (with_key rr_ID (rr_ID r)) (\<lambda>_. bson_report r) (Some (bson_report r)) w = (w1, a)"
    by (rule prod.exhaust)
  then obtain n where u: "cl_update C (with_key rr_ID (rr_ID r)) (\<lambda>_. bson_report r) (Some (bson_report r)) w = (w', Inr n)"
    using assms(3) by (cases a) (simp_all add: report_Save_def)
  have ups: "rr_ID d = rr_ID r" if "Some (bson_report r) = Some d" for d using that bson_report_ID(1) [of r] by (simp only: option.inject)
  from keyed_update [OF assms(1) u assms(2) bson_report_ID(1) ups]
  have "holds rr_ID (map_update m (rr_ID r) (\<lambda>_. bson_report r) (Some (bson_report r))) (docs w')" by (simp only: sum.case)
  then show ?thesis by (simp add: map_update_def split: option.splits)
qed

lemma finished_report_same: "rr_ID (finished_report k response r) = rr_ID r" "rr_Status (finished_report k response r) = ''complete''"
  by (simp_all add: finished_report_def split: sum.splits)

lemma handleAnalyze_report:
  assumes "handleAnalyze k now h i w = (w', RcaReport rep)"
  shows "w' = fst (report_Save (an_repo (ra_analyzer h)) rep w) \<and> rr_Status rep \<in> {''complete'', ''failed''} \<and> rr_ID rep \<noteq> []"
proof -
  define families where "families = (case ra_families h of None \<Rightarrow> [] | Some fs \<Rightarrow> fs)"
  have i: "i \<noteq> []" using assms by (cases "i = []") (simp_all add: handleAnalyze_def)
  obtain incident where inc: "ra_incident h i = Some incident"
    using assms i by (cases "ra_incident h i") (simp_all add: handleAnalyze_def)
  obtain w1 res where res: "Analyze k now (ra_analyzer h) incident families w = (w1, res)" by fastforce
  have "(case res of Inr (report, _) \<Rightarrow> (w1, RcaReport report) | Inl err \<Rightarrow> (w1, RcaError 500 err)) = (w', RcaReport rep)"
    using assms i by (simp only: handleAnalyze_def inc option.case Let_def families_def [symmetric] res prod.case if_False)
  then obtain err where a: "Analyze k now (ra_analyzer h) incident families w = (w', Inr (rep, err))"
    using res by (cases res) (auto split: prod.splits)
  then obtain ai where ai: "an_provider (ra_analyzer h) = Some ai" by (cases "an_provider (ra_analyzer h)") (simp_all add: Analyze_def)
  define ctx where "ctx = (CollectContext k now (an_store (ra_analyzer h)) incident (15 * minute))\<lparr>cc_ErrorFamilies := families\<rparr>"
  define r where "r = pending_report now incident ctx"
  have r: "rr_ID r \<noteq> []" by (simp add: r_def pending_report_def)
  have A: "Analyze k now (ra_analyzer h) incident families w =
      (case ai buildSystemPrompt (rca_buildUserPrompt k ctx) of
         Inl err \<Rightarrow> (fst (report_Save (an_repo (ra_analyzer h)) (r\<lparr>rr_Status := ''failed'', rr_Error := ''AI call failed: '' @ err\<rparr>) w),
             Inr (r\<lparr>rr_Status := ''failed'', rr_Error := ''AI call failed: '' @ err\<rparr>, Some err))
       | Inr response \<Rightarrow> (fst (report_Save (an_repo (ra_analyzer h)) (finished_report k response r) w), Inr (finished_report k response r, None)))"
    by (simp only: Analyze_def ai option.case Let_def ctx_def r_def)
  show ?thesis
  proof (cases "ai buildSystemPrompt (rca_buildUserPrompt k ctx)")
    case (Inl e)
    with A a have "rep = r\<lparr>rr_Status := ''failed'', rr_Error := ''AI call failed: '' @ e\<rparr>"
      and "w' = fst (report_Save (an_repo (ra_analyzer h)) (r\<lparr>rr_Status := ''failed'', rr_Error := ''AI call failed: '' @ e\<rparr>) w)"
      by (simp_all only: sum.case prod.inject sum.inject)
    with r show ?thesis by simp
  next
    case (Inr response)
    with A a have "rep = finished_report k response r" "w' = fst (report_Save (an_repo (ra_analyzer h)) (finished_report k response r) w)"
      by (simp_all only: sum.case prod.inject sum.inject)
    with r show ?thesis by (simp add: finished_report_same)
  qed
qed

text \<open>
  if the collection keeps the promises of the driver, an analysis answers a finished or failed report, and if the report could
  be saved, it is what the identifier in it leads to, with times in milliseconds, unless that request fails.
\<close>

theorem report_can_be_read_back:
  assumes "coll_ok (same_key rr_ID) docs (an_repo (ra_analyzer h))" and "holds rr_ID m (docs w)"
    and "handleAnalyze k now h i w = (w', RcaReport rep)" and "snd (report_Save (an_repo (ra_analyzer h)) rep w) = None"
    and "report_Get (an_repo (ra_analyzer h)) (rr_ID rep) w' = Inr d"
  shows "rr_Status rep \<in> {''complete'', ''failed''} \<and> handleGetReport h (rr_ID rep) w' = RcaReport (bson_report rep)"
proof -
  let ?C = "an_repo (ra_analyzer h)"
  have r: "w' = fst (report_Save ?C rep w)" "rr_Status rep \<in> {''complete'', ''failed''}" "rr_ID rep \<noteq> []"
    using handleAnalyze_report [OF assms(3)] by blast+
  have "report_Save ?C rep w = (w', None)" using r(1) assms(4) by (metis prod.collapse)
  note H = report_Save_saves [OF assms(1,2) this]
  have f: "cl_find_one ?C (with_key rr_ID (rr_ID rep)) any_order w' = Inr d"
    using assms(5) by (auto simp: report_Get_def split: sum.splits)
  have "d = Some (bson_report rep)" using keyed_find_one [OF assms(1) f preorder_orders(1) H] by simp
  then show ?thesis using r(2,3) assms(5) by (simp add: handleGetReport_def an_GetReport_def)
qed

section \<open>The properties at work\<close>

definition sample_rca :: RcaWorld where
  "sample_rca = \<lparr>rk_metrics = id, rk_groups = id, rk_points = id, rk_series = id, rk_events = id, rk_rfc3339 = itoa, rk_clock = itoa,
     rk_json = (\<lambda>_. Inl ''bad'')\<rparr>"

definition sample_ref :: "string \<Rightarrow> gotime \<Rightarrow> CheckResultRef" where
  "sample_ref status t = \<lparr>cr_CheckID = ''c'', cr_Name = ''api'', cr_Type = ''api'', cr_Server = [], cr_Status = status,
     cr_DurationMs = 5, cr_Timestamp = t, cr_Metrics = []\<rparr>"

definition sample_result_at :: "string \<Rightarrow> gotime \<Rightarrow> CheckResult" where
  "sample_result_at status t = zero_result\<lparr>res_CheckID := ''c'', res_Name := ''api'', res_Status := status, res_StartedAt := t\<rparr>"

definition sample_incident_ref :: IncidentRef where
  "sample_incident_ref = \<lparr>ir_ID = ''c-7'', ir_CheckID = ''c'', ir_CheckName = ''api'', ir_Severity = ''critical'', ir_Status = ''open'',
     ir_StartedAt = 7, ir_Message = ''down''\<rparr>"

definition sample_state :: "CheckResult list \<Rightarrow> State" where
  "sample_state rs = \<lparr>st_Checks = [], st_Results = rs, st_LastRunAt = 0, st_UpdatedAt = 0\<rparr>"


lemma own_check_is_not_looked_up_witness:
  "RecentResults (sample_state [sample_result_at ''critical'' 6, sample_result_at ''healthy'' 8]) ''c-7'' 100 = [] \<and>
   RecentResults (sample_state [sample_result_at ''critical'' 6, sample_result_at ''healthy'' 8]) ''c'' 100 \<noteq> []"
  using own_check_is_not_looked_up [of "sample_state [sample_result_at ''critical'' 6, sample_result_at ''healthy'' 8]" sample_incident_ref]
  by (simp add: sample_incident_ref_def sample_state_def sample_result_at_def RecentResults_def)

text \<open>Asked with the right identifier, it would tell the changes backwards, because the latest result comes first.\<close>

lemma transitions_run_backwards:
  "map (\<lambda>e. (te_Type e, te_Description e)) (transitions []
     (RecentResults (sample_state [sample_result_at ''critical'' 6, sample_result_at ''healthy'' 8]) ''c'' 100)) =
   [(''check_fail'', ''api: healthy -> critical'')]"
  by (simp add: sample_state_def sample_result_at_def RecentResults_def result_ref_def)

text \<open>And a metric that falls below zero is called rising.\<close>

lemma falling_below_zero_is_rising:
  "detectTrend (map (point_of (sample_ref ''healthy'' 1) ''x'') [- 1, - 1, - 4]) = ''rising''"
proof -
  have "fl64 1 = 1" using fl64_of_int_exact [of 1] by simp
  then show ?thesis
    by (simp add: detectTrend_def sum_values_def computeStats_def stats_step_def point_of_def float_defs fl64_minus fl64_numeral Let_def
        split: prod.splits)
qed

definition sample_rca_api :: "RCAReport list RcaAPI" where
  "sample_rca_api = \<lparr>ra_analyzer = \<lparr>an_repo = list_collection (same_key rr_ID), an_provider = Some (\<lambda>_ _. Inr ''text''),
     an_store = sample_state []\<rparr>, ra_incident = (\<lambda>_. Some sample_incident_ref), ra_families = None\<rparr>"

lemma report_can_be_read_back_witness:
  "\<exists>w' rep. handleAnalyze sample_rca 9 sample_rca_api ''c-7'' [] = (w', RcaReport rep) \<and>
    handleGetReport sample_rca_api (rr_ID rep) w' = RcaReport (bson_report rep)"
proof -
  let ?C = "list_collection (same_key rr_ID)"
  define ctx where "ctx = (CollectContext sample_rca 9 (sample_state []) sample_incident_ref (15 * minute))\<lparr>cc_ErrorFamilies := []\<rparr>"
  define rep where "rep = finished_report sample_rca ''text'' (pending_report 9 sample_incident_ref ctx)"
  have C: "an_repo (ra_analyzer sample_rca_api) = ?C" by (simp add: sample_rca_api_def)
  have s: "report_Save ?C rep [] = ([bson_report rep], None)" by (simp add: report_Save_def list_collection_def)
  have a: "handleAnalyze sample_rca 9 sample_rca_api ''c-7'' [] = ([bson_report rep], RcaReport rep)"
    using s by (simp add: handleAnalyze_def Analyze_def sample_rca_api_def Let_def rep_def ctx_def)
  have g: "report_Get ?C (rr_ID rep) [bson_report rep] = Inr (best (with_key rr_ID (rr_ID rep)) any_order [bson_report rep])"
    by (simp add: report_Get_def list_collection_def)
  from report_can_be_read_back [OF _ _ a, unfolded C, OF list_collection_ok _ _ g, of Map.empty] s a show ?thesis by auto
qed

end
