(* ===== verification/MongoUsers.thy ===== *)
theory MongoUsers
  imports Keyed Auth
begin

text \<open>
  The users in MongoDB (\<open>repositories/mongo_user_repository.go\<close>), the adapter that the program puts in the place of
  the file store (\<open>repositories/user_store_adapter.go\<close>) and the account that \<open>main\<close> makes at the start. The
  collection has a unique index on \<open>usernameKey\<close>; what it keeps of a time is its milliseconds, and what the driver
  says of a duplicate key is an argument. bcrypt is that of \<open>Crypto\<close>.
\<close>

section \<open>The repository\<close>

record DbUser =
  du_Username :: string
  du_UsernameKey :: string
  du_Password :: string
  du_Role :: string
  du_DisplayName :: string
  du_Email :: string
  du_Enabled :: bool
  du_MustChangePassword :: bool
  du_CreatedAt :: gotime
  du_UpdatedAt :: gotime
  du_LastLoginAt :: "gotime option"

definition zero_user :: DbUser where
  "zero_user = \<lparr>du_Username = [], du_UsernameKey = [], du_Password = [], du_Role = [], du_DisplayName = [], du_Email = [],
     du_Enabled = False, du_MustChangePassword = False, du_CreatedAt = zero_time, du_UpdatedAt = zero_time, du_LastLoginAt = None\<rparr>"

definition normalizeUsernameKey :: "string \<Rightarrow> string" where
  "normalizeUsernameKey username = to_lower (trim_space username)"

text \<open>What a repository works with: bcrypt, the collection and the text of the error for a duplicate key.\<close>

record 'w UserDb =
  ud_crypto :: Crypto
  ud_coll :: "('w, DbUser) Collection"
  ud_duplicate :: string

abbreviation named :: "string \<Rightarrow> DbUser \<Rightarrow> bool" where
  "named username \<equiv> with_key du_UsernameKey (normalizeUsernameKey username)"

definition FindByUsername :: "'w UserDb \<Rightarrow> string \<Rightarrow> 'w \<Rightarrow> string + DbUser" where
  "FindByUsername D username w =
     (if username = [] then Inl ''username is required''
      else case cl_find_one (ud_coll D) (named username) any_order w of
             Inl err \<Rightarrow> Inl (''database error: '' @ err)
           | Inr None \<Rightarrow> Inl ''user not found''
           | Inr (Some u) \<Rightarrow> Inr (u\<lparr>du_Password := []\<rparr>))"

definition db_List :: "'w UserDb \<Rightarrow> 'w \<Rightarrow> string + DbUser list" where
  "db_List D w =
     (case cl_find (ud_coll D) (\<lambda>_. True) any_order 0 None w of
        Inl (QueryStage, err, _) \<Rightarrow> Inl (''failed to list users: '' @ err)
      | Inl (_, err, _) \<Rightarrow> Inl (''failed to decode users: '' @ err)
      | Inr us \<Rightarrow> Inr (map (\<lambda>u. u\<lparr>du_Password := []\<rparr>) us))"

definition role_error :: string where
  "role_error = ''role must be '' @ [CHR 0x27] @ ''admin'' @ [CHR 0x27] @ '' or '' @ [CHR 0x27] @ ''ops'' @ [CHR 0x27]"

text \<open>The document that \<open>Create\<close> inserts.\<close>

definition new_user :: "gotime \<Rightarrow> string \<Rightarrow> DbUser \<Rightarrow> DbUser" where
  "new_user now hash user =
     user\<lparr>du_CreatedAt := bson_time now, du_UpdatedAt := bson_time now, du_UsernameKey := normalizeUsernameKey (du_Username user),
          du_Password := hash, du_Enabled := True\<rparr>"

definition db_Create :: "'w UserDb \<Rightarrow> gotime \<Rightarrow> DbUser \<Rightarrow> 'w \<Rightarrow> 'w \<times> string option" where
  "db_Create D now user w =
     (if du_Username user = [] then (w, Some ''username is required'')
      else if du_Password user = [] then (w, Some ''password is required'')
      else if length (du_Password user) < 8 then (w, Some ''password must be at least 8 characters'')
      else if du_Role user \<noteq> ''admin'' \<and> du_Role user \<noteq> ''ops'' then (w, Some role_error)
      else case cr_hash (ud_crypto D) (du_Password user) of
             None \<Rightarrow> (w, Some ''failed to hash password'')
           | Some hash \<Rightarrow>
               (case cl_count (ud_coll D) (named (du_Username user)) w of
                  Inl err \<Rightarrow> (w, Some (''failed to check for existing user: '' @ err))
                | Inr n \<Rightarrow>
                    if n > 0 then (w, Some ''username already exists'')
                    else (case cl_insert (ud_coll D) (new_user now hash user) w of
                            (w, DocInserted) \<Rightarrow> (w, None)
                          | (w, DocDuplicate) \<Rightarrow> (w, Some (''failed to create user: '' @ ud_duplicate D))
                          | (w, DocFailed err) \<Rightarrow> (w, Some (''failed to create user: '' @ err)))))"

text \<open>The update document as a function: only what is not empty is set, and an account is never disabled.\<close>

definition set_user :: "gotime \<Rightarrow> string option \<Rightarrow> DbUser \<Rightarrow> DbUser \<Rightarrow> DbUser" where
  "set_user now hash user u =
     (let u = u\<lparr>du_UpdatedAt := bson_time now\<rparr>;
          u = (if du_Role user \<noteq> [] then u\<lparr>du_Role := du_Role user\<rparr> else u);
          u = (if du_Email user \<noteq> [] then u\<lparr>du_Email := du_Email user\<rparr> else u);
          u = (if du_DisplayName user \<noteq> [] then u\<lparr>du_DisplayName := du_DisplayName user\<rparr> else u);
          u = (case hash of Some h \<Rightarrow> u\<lparr>du_Password := h, du_MustChangePassword := False\<rparr> | None \<Rightarrow> u)
      in if du_Enabled user then u\<lparr>du_Enabled := True\<rparr> else u)"

definition new_hash :: "Crypto \<Rightarrow> string \<Rightarrow> string + string option" where
  "new_hash K password =
     (if password = [] then Inr None
      else if length password < 8 then Inl ''password must be at least 8 characters''
      else case cr_hash K password of None \<Rightarrow> Inl ''failed to hash password'' | Some hash \<Rightarrow> Inr (Some hash))"

definition db_Update :: "'w UserDb \<Rightarrow> gotime \<Rightarrow> string \<Rightarrow> DbUser \<Rightarrow> 'w \<Rightarrow> 'w \<times> string option" where
  "db_Update D now username user w =
     (if username = [] then (w, Some ''username is required'')
      else if du_Role user \<noteq> [] \<and> du_Role user \<noteq> ''admin'' \<and> du_Role user \<noteq> ''ops'' then (w, Some role_error)
      else case cl_count (ud_coll D) (named username) w of
             Inl err \<Rightarrow> (w, Some (''failed to check for existing user: '' @ err))
           | Inr n \<Rightarrow>
               if n = 0 then (w, Some ''user not found'')
               else (case new_hash (ud_crypto D) (du_Password user) of
                       Inl err \<Rightarrow> (w, Some err)
                     | Inr hash \<Rightarrow>
                         (case cl_update (ud_coll D) (named username) (set_user now hash user) None w of
                            (w, Inl err) \<Rightarrow> (w, Some (''failed to update user: '' @ err))
                          | (w, Inr _) \<Rightarrow> (w, None))))"

definition is_admin :: "DbUser \<Rightarrow> bool" where
  "is_admin u \<longleftrightarrow> du_Role u = ''admin''"

definition db_remove :: "'w UserDb \<Rightarrow> string \<Rightarrow> 'w \<Rightarrow> 'w \<times> string option" where
  "db_remove D username w =
     (case cl_delete_one (ud_coll D) (named username) w of
        (w, Inl err) \<Rightarrow> (w, Some (''failed to delete user: '' @ err)) | (w, Inr _) \<Rightarrow> (w, None))"

definition db_Delete :: "'w UserDb \<Rightarrow> string \<Rightarrow> 'w \<Rightarrow> 'w \<times> string option" where
  "db_Delete D username w =
     (if username = [] then (w, Some ''username is required'')
      else case FindByUsername D username w of
             Inl _ \<Rightarrow> (w, Some ''user not found'')
           | Inr user \<Rightarrow>
               if is_admin user then
                 (case cl_count (ud_coll D) is_admin w of
                    Inl err \<Rightarrow> (w, Some (''failed to check admin count: '' @ err))
                  | Inr n \<Rightarrow> if n \<le> 1 then (w, Some ''cannot delete the last admin user'') else db_remove D username w)
               else db_remove D username w)"

text \<open>The answer is whether something was changed.\<close>

definition BootstrapAdmin :: "'w UserDb \<Rightarrow> gotime \<Rightarrow> string \<Rightarrow> string \<Rightarrow> bool \<Rightarrow> 'w \<Rightarrow> 'w \<times> (string + bool)" where
  "BootstrapAdmin D now password email forceReset w =
     (let email = (if email = [] then ''admin@healthops.local'' else email);
          account = zero_user\<lparr>du_Role := ''admin'', du_DisplayName := ''Administrator'', du_Email := email, du_Password := password,
                      du_Enabled := True\<rparr>
      in if password = [] then (w, Inl ''admin bootstrap password is required'')
         else if length password < 8 then (w, Inl ''admin bootstrap password must be at least 8 characters'')
         else case FindByUsername D ''admin'' w of
                Inr _ \<Rightarrow>
                  if \<not> forceReset then (w, Inr False)
                  else (case db_Update D now ''admin'' account w of
                          (w, Some err) \<Rightarrow> (w, Inl (''reset admin user: '' @ err)) | (w, None) \<Rightarrow> (w, Inr True))
              | Inl err \<Rightarrow>
                  if str_contains err ''user not found'' then
                    (case db_Create D now (account\<lparr>du_Username := ''admin''\<rparr>) w of
                       (w, Some err) \<Rightarrow> (w, Inl (''create admin user: '' @ err)) | (w, None) \<Rightarrow> (w, Inr True))
                  else (w, Inl (''lookup admin user: '' @ err)))"

text \<open>The user and whether the error \<open>ErrPasswordChangeRequired\<close> comes with it.\<close>

definition db_Authenticate :: "'w UserDb \<Rightarrow> string \<Rightarrow> string \<Rightarrow> 'w \<Rightarrow> string + DbUser \<times> bool" where
  "db_Authenticate D username password w =
     (if username = [] \<or> password = [] then Inl ''username and password are required''
      else case cl_find_one (ud_coll D) (named username) any_order w of
             Inl err \<Rightarrow> Inl (''database error: '' @ err)
           | Inr None \<Rightarrow> Inl ''invalid credentials''
           | Inr (Some user) \<Rightarrow>
               if \<not> du_Enabled user then Inl ''user account is disabled''
               else if \<not> cr_compare (ud_crypto D) (du_Password user) password then Inl ''invalid credentials''
               else Inr (user\<lparr>du_Password := []\<rparr>, du_MustChangePassword user))"

section \<open>The adapter\<close>

definition mapRoleToRepository :: "string \<Rightarrow> string" where
  "mapRoleToRepository role = (if role = ''viewer'' then ''ops'' else role)"

definition mapRoleToMonitoring :: "string \<Rightarrow> string" where
  "mapRoleToMonitoring role = (if role = ''viewer'' then ''ops'' else role)"

definition convertToMonitoringUser :: "DbUser \<Rightarrow> User" where
  "convertToMonitoringUser u =
     \<lparr>usr_ID = to_lower (du_Username u), usr_Username = du_Username u, usr_PasswordHash = du_Password u,
      usr_Role = mapRoleToMonitoring (du_Role u), usr_DisplayName = du_DisplayName u, usr_Email = du_Email u,
      usr_CreatedAt = du_CreatedAt u, usr_UpdatedAt = du_UpdatedAt u\<rparr>"

definition ad_Authenticate :: "'w UserDb \<Rightarrow> string \<Rightarrow> string \<Rightarrow> 'w \<Rightarrow> string + User" where
  "ad_Authenticate D username password w =
     (case db_Authenticate D username password w of
        Inl err \<Rightarrow> Inl err
      | Inr (_, True) \<Rightarrow> Inl ''password change required''
      | Inr (u, False) \<Rightarrow> Inr (convertToMonitoringUser u))"

definition ad_List :: "'w UserDb \<Rightarrow> 'w \<Rightarrow> User list" where
  "ad_List D w = (case db_List D w of Inl _ \<Rightarrow> [] | Inr us \<Rightarrow> map convertToMonitoringUser us)"

definition ad_Get :: "'w UserDb \<Rightarrow> string \<Rightarrow> 'w \<Rightarrow> User option" where
  "ad_Get D i w =
     (if i = [] then None
      else case FindByUsername D i w of Inl _ \<Rightarrow> None | Inr u \<Rightarrow> Some (convertToMonitoringUser u))"

definition requested_user :: "CreateUserRequest \<Rightarrow> DbUser" where
  "requested_user req = zero_user\<lparr>du_Username := cu_Username req, du_Password := cu_Password req,
     du_Role := mapRoleToRepository (cu_Role req), du_DisplayName := cu_DisplayName req, du_Email := cu_Email req\<rparr>"

definition ad_Create :: "'w UserDb \<Rightarrow> gotime \<Rightarrow> CreateUserRequest \<Rightarrow> 'w \<Rightarrow> 'w \<times> (string + User)" where
  "ad_Create D now req w =
     (case db_Create D now (requested_user req) w of
        (w, Some err) \<Rightarrow> (w, Inl err)
      | (w, None) \<Rightarrow>
          (w, case FindByUsername D (cu_Username req) w of
                Inl err \<Rightarrow> Inl (''user created but failed to retrieve: '' @ err)
              | Inr created \<Rightarrow> Inr (convertToMonitoringUser created)))"

definition text_or_empty :: "string option \<Rightarrow> string" where
  "text_or_empty v = (case v of None \<Rightarrow> [] | Some s \<Rightarrow> s)"

definition requested_change :: "UpdateUserRequest \<Rightarrow> DbUser" where
  "requested_change req = zero_user\<lparr>du_Role := (case uu_Role req of None \<Rightarrow> [] | Some r \<Rightarrow> mapRoleToRepository r),
     du_Email := text_or_empty (uu_Email req), du_DisplayName := text_or_empty (uu_DisplayName req), du_Password := text_or_empty (uu_Password req)\<rparr>"

definition ad_Update :: "'w UserDb \<Rightarrow> gotime \<Rightarrow> string \<Rightarrow> UpdateUserRequest \<Rightarrow> 'w \<Rightarrow> 'w \<times> (string + User)" where
  "ad_Update D now i req w =
     (if i = [] then (w, Inl ''user id required'')
      else case db_Update D now i (requested_change req) w of
             (w, Some err) \<Rightarrow> (w, Inl err)
           | (w, None) \<Rightarrow>
               (w, case FindByUsername D i w of
                     Inl err \<Rightarrow> Inl (''user updated but failed to retrieve: '' @ err)
                   | Inr u \<Rightarrow> Inr (convertToMonitoringUser u)))"

definition ad_Delete :: "'w UserDb \<Rightarrow> string \<Rightarrow> 'w \<Rightarrow> 'w \<times> string option" where
  "ad_Delete D i w = (if i = [] then (w, Some ''user id required'') else db_Delete D i w)"

text \<open>The start of the program: \<open>None\<close> when it ends with \<open>Fatalf\<close>.\<close>

definition start_users :: "'w UserDb \<Rightarrow> gotime \<Rightarrow> string \<Rightarrow> string \<Rightarrow> bool \<Rightarrow> 'w \<Rightarrow> 'w \<times> unit option" where
  "start_users D now bootstrapPassword bootstrapEmail bootstrapReset w =
     (if bootstrapPassword \<noteq> [] then
        (case BootstrapAdmin D now bootstrapPassword bootstrapEmail bootstrapReset w of
           (w, Inl _) \<Rightarrow> (w, None) | (w, Inr _) \<Rightarrow> (w, Some ()))
      else (w, case FindByUsername D ''admin'' w of Inl _ \<Rightarrow> None | Inr _ \<Rightarrow> Some ()))"

section \<open>What is always true of the collection\<close>

definition db_user_ok :: "Crypto \<Rightarrow> DbUser \<Rightarrow> bool" where
  "db_user_ok K u \<longleftrightarrow>
     du_Username u \<noteq> [] \<and> du_UsernameKey u = normalizeUsernameKey (du_Username u) \<and> du_Role u \<in> {''admin'', ''ops''} \<and>
     du_Enabled u \<and> \<not> du_MustChangePassword u \<and> (\<exists>p. 8 \<le> length p \<and> cr_hash K p = Some (du_Password u))"

text \<open>The documents have different keys, and each is well-formed.\<close>

definition users_db_ok :: "Crypto \<Rightarrow> DbUser multiset \<Rightarrow> bool" where
  "users_db_ok K M \<longleftrightarrow> (\<exists>m. holds du_UsernameKey m M) \<and> (\<forall>u. u \<in># M \<longrightarrow> db_user_ok K u)"

datatype account_op =
  MakeUser CreateUserRequest
| ChangeUser string UpdateUserRequest
| DropUser string
| StartUsers string string bool

definition account_step :: "'w UserDb \<Rightarrow> gotime \<times> account_op \<Rightarrow> 'w \<Rightarrow> 'w" where
  "account_step D e w =
     (case e of (now, op) \<Rightarrow>
        (case op of
           MakeUser req \<Rightarrow> fst (ad_Create D now req w)
         | ChangeUser i req \<Rightarrow> fst (ad_Update D now i req w)
         | DropUser i \<Rightarrow> fst (ad_Delete D i w)
         | StartUsers password email reset \<Rightarrow> fst (start_users D now password email reset w)))"

text \<open>The collection that a repository is used with.\<close>

definition user_db_ok :: "('w \<Rightarrow> DbUser multiset) \<Rightarrow> 'w UserDb \<Rightarrow> bool" where
  "user_db_ok docs D \<longleftrightarrow> coll_ok (same_key du_UsernameKey) docs (ud_coll D)"

lemma new_hash_hash: "new_hash K p = Inr (Some h) \<Longrightarrow> 8 \<le> length p \<and> cr_hash K p = Some h"
  by (auto simp: new_hash_def split: if_splits option.splits)

lemma set_user_fields:
  "du_UsernameKey (set_user now hash user u) = du_UsernameKey u" "du_Username (set_user now hash user u) = du_Username u"
  "du_Role (set_user now hash user u) = (if du_Role user \<noteq> [] then du_Role user else du_Role u)"
  "du_Enabled (set_user now hash user u) \<longleftrightarrow> du_Enabled user \<or> du_Enabled u"
  "du_Password (set_user now hash user u) = (case hash of Some h \<Rightarrow> h | None \<Rightarrow> du_Password u)"
  "du_MustChangePassword (set_user now hash user u) \<longleftrightarrow> hash = None \<and> du_MustChangePassword u"
  by (auto simp: set_user_def Let_def split: option.splits)

lemma set_user_ok:
  assumes "db_user_ok K u" and "du_Role user = [] \<or> du_Role user \<in> {''admin'', ''ops''}" and "new_hash K (du_Password user) = Inr hash"
  shows "db_user_ok K (set_user now hash user u)"
  using assms new_hash_hash [of K "du_Password user"] by (auto simp: db_user_ok_def set_user_fields split: option.splits)

text \<open>The four ways in which the collection changes.\<close>

inductive user_change :: "Crypto \<Rightarrow> DbUser multiset \<Rightarrow> DbUser multiset \<Rightarrow> bool" for K where
  same: "user_change K M M"
| added: "db_user_ok K u \<Longrightarrow> \<forall>x. x \<in># M \<longrightarrow> du_UsernameKey x \<noteq> du_UsernameKey u \<Longrightarrow> user_change K M (add_mset u M)"
| changed: "x \<in># M \<Longrightarrow> (db_user_ok K x \<Longrightarrow> db_user_ok K y) \<Longrightarrow> du_UsernameKey y = du_UsernameKey x \<Longrightarrow>
    user_change K M (add_mset y (M - {#x#}))"
| dropped: "x \<in># M \<Longrightarrow> user_change K M (M - {#x#})"

inductive_cases user_changeE: "user_change K M M'"

lemma user_change_ok:
  assumes "user_change K M M'" and "users_db_ok K M"
  shows "users_db_ok K M'"
proof -
  obtain m where m: "holds du_UsernameKey m M" and ok: "u \<in># M \<Longrightarrow> db_user_ok K u" for u
    using assms(2) by (auto simp: users_db_ok_def)
  from assms(1) show ?thesis
  proof cases
    case same
    with assms(2) show ?thesis by simp
  next
    case (added u)
    then have "m (du_UsernameKey u) = None" using holds_None [OF m] by blast
    from holds_add [OF m this] added ok show ?thesis by (auto simp: users_db_ok_def)
  next
    case (changed x y)
    then have "m (du_UsernameKey x) = Some x" using holds_in [OF m] by blast
    from holds_change [OF m this changed(4)] changed ok show ?thesis
      by (auto simp: users_db_ok_def dest: in_diffD)
  next
    case (dropped x)
    then have "m (du_UsernameKey x) = Some x" using holds_in [OF m] by blast
    from holds_remove [OF m this] dropped ok show ?thesis by (auto simp: users_db_ok_def dest: in_diffD)
  qed
qed

lemma db_Create_changes:
  assumes "user_db_ok docs D" and "\<not> du_MustChangePassword user"
  shows "user_change (ud_crypto D) (docs w) (docs (fst (db_Create D now user w)))"
proof (cases "du_Username user = [] \<or> length (du_Password user) < 8 \<or> du_Role user \<notin> {''admin'', ''ops''} \<or>
    cr_hash (ud_crypto D) (du_Password user) = None \<or> (\<nexists>n. cl_count (ud_coll D) (named (du_Username user)) w = Inr n \<and> n = 0)")
  case True
  then show ?thesis by (auto simp: db_Create_def intro: user_change.same split: option.splits sum.splits)
next
  case False
  then obtain hash where h: "cr_hash (ud_crypto D) (du_Password user) = Some hash" by auto
  obtain w' a where i: "cl_insert (ud_coll D) (new_user now hash user) w = (w', a)" by fastforce
  have e: "fst (db_Create D now user w) = w'"
    using False h i by (auto simp: db_Create_def split: insert_answer.splits)
  have ok: "db_user_ok (ud_crypto D) (new_user now hash user)"
    using False h assms(2) by (auto simp: db_user_ok_def new_user_def intro!: exI [of _ "du_Password user"])
  from coll_insert [OF assms(1) [unfolded user_db_ok_def] i]
  have "docs w' = docs w \<or> docs w' = add_mset (new_user now hash user) (docs w) \<and>
      (\<forall>x. x \<in># docs w \<longrightarrow> \<not> same_key du_UsernameKey x (new_user now hash user))"
    by (cases a) auto
  then show ?thesis
    using ok unfolding e by (auto simp: same_key_def intro: user_change.same user_change.added)
qed

lemma db_Update_changes:
  assumes "user_db_ok docs D"
  shows "user_change (ud_crypto D) (docs w) (docs (fst (db_Update D now i user w)))"
proof (cases "i \<noteq> [] \<and> (du_Role user = [] \<or> du_Role user \<in> {''admin'', ''ops''}) \<and>
    (\<exists>n hash. cl_count (ud_coll D) (named i) w = Inr n \<and> n \<noteq> 0 \<and> new_hash (ud_crypto D) (du_Password user) = Inr hash)")
  case False
  then show ?thesis by (auto simp: db_Update_def intro: user_change.same split: sum.splits)
next
  case True
  then obtain n hash where role: "du_Role user = [] \<or> du_Role user \<in> {''admin'', ''ops''}"
    and n: "cl_count (ud_coll D) (named i) w = Inr n" "n \<noteq> 0" and h: "new_hash (ud_crypto D) (du_Password user) = Inr hash"
    by blast
  obtain w' a where u: "cl_update (ud_coll D) (named i) (set_user now hash user) None w = (w', a)" by fastforce
  have e: "fst (db_Update D now i user w) = w'"
    using True n h u by (auto simp: db_Update_def split: sum.splits)
  from coll_update [OF assms [unfolded user_db_ok_def] u]
  have "docs w' = docs w \<or> updated (named i) (set_user now hash user) None (docs w) (docs w')"
    by (cases a) auto
  then show ?thesis
  proof
    assume "docs w' = docs w"
    then show ?thesis unfolding e by (simp add: user_change.same)
  next
    assume "updated (named i) (set_user now hash user) None (docs w) (docs w')"
    then have "docs w' = docs w \<or> (\<exists>x. x \<in># docs w \<and> docs w' = add_mset (set_user now hash user x) (docs w - {#x#}))"
      by (auto simp: updated_def split: if_splits)
    then show ?thesis
      unfolding e
    proof (elim disjE exE conjE)
      fix x
      assume "x \<in># docs w" and y: "docs w' = add_mset (set_user now hash user x) (docs w - {#x#})"
      from user_change.changed [OF this(1) set_user_ok [OF _ role h] set_user_fields(1)]
      show "user_change (ud_crypto D) (docs w) (docs w')" by (simp add: y)
    qed (simp add: user_change.same)
  qed
qed

lemma db_remove_changes:
  assumes "user_db_ok docs D"
  shows "user_change (ud_crypto D) (docs w) (docs (fst (db_remove D i w)))"
proof -
  obtain w' a where d: "cl_delete_one (ud_coll D) (named i) w = (w', a)" by fastforce
  have e: "fst (db_remove D i w) = w'" using d by (auto simp: db_remove_def split: sum.splits)
  from coll_delete_one [OF assms [unfolded user_db_ok_def] d]
  have "docs w' = docs w \<or> removed_one (named i) (docs w) (docs w')" by (cases a) auto
  then show ?thesis
    unfolding e by (auto simp: removed_one_def intro: user_change.same user_change.dropped split: if_splits)
qed

lemma db_Delete_changes:
  assumes "user_db_ok docs D"
  shows "user_change (ud_crypto D) (docs w) (docs (fst (db_Delete D i w)))"
  using db_remove_changes [OF assms] by (auto simp: db_Delete_def intro: user_change.same split: sum.splits)

lemma fst_cases:
  "fst (case x of (w, Some err) \<Rightarrow> (w, f err) | (w, None) \<Rightarrow> (w, g w)) = fst x"
  "fst (case y of (w, Inl err) \<Rightarrow> (w, h err) | (w, Inr b) \<Rightarrow> (w, k b)) = fst y"
  by (simp_all split: prod.splits option.splits sum.splits)

lemma BootstrapAdmin_changes:
  assumes "user_db_ok docs D"
  shows "user_change (ud_crypto D) (docs w) (docs (fst (BootstrapAdmin D now password email reset w)))"
proof (cases "FindByUsername D ''admin'' w")
  case (Inl err)
  then show ?thesis
    using db_Create_changes [OF assms] user_change.same
    by (simp add: BootstrapAdmin_def fst_cases zero_user_def Let_def)
next
  case (Inr u)
  then show ?thesis
    using db_Update_changes [OF assms] user_change.same by (simp add: BootstrapAdmin_def fst_cases Let_def)
qed

lemma account_step_changes:
  assumes "user_db_ok docs D"
  shows "user_change (ud_crypto D) (docs w) (docs (account_step D e w))"
proof -
  obtain now op where e: "e = (now, op)" by fastforce
  show ?thesis
  proof (cases op)
    case (MakeUser req)
    then show ?thesis using db_Create_changes [OF assms, of "requested_user req"]
      by (simp add: e account_step_def ad_Create_def fst_cases requested_user_def zero_user_def)
  next
    case (ChangeUser i req)
    then show ?thesis using db_Update_changes [OF assms] user_change.same
      by (simp add: e account_step_def ad_Update_def fst_cases)
  next
    case (DropUser i)
    then show ?thesis using db_Delete_changes [OF assms] user_change.same
      by (simp add: e account_step_def ad_Delete_def)
  next
    case (StartUsers password email reset)
    then show ?thesis using BootstrapAdmin_changes [OF assms] user_change.same
      by (simp add: e account_step_def start_users_def fst_cases)
  qed
qed

lemma account_step_ok: "user_db_ok docs D \<Longrightarrow> users_db_ok (ud_crypto D) (docs w) \<Longrightarrow> users_db_ok (ud_crypto D) (docs (account_step D e w))"
  using user_change_ok [OF account_step_changes] .

text \<open>
  C33: as long as the collection keeps the promises of the driver, whatever is done with the accounts, and however its calls
  fail: no two accounts have the same name up to case and blanks, every role is admin or ops, every stored password is
  the hash of at least eight characters, and no account is disabled or has to change its password.
\<close>

theorem accounts_stay_valid:
  assumes "user_db_ok docs D" and "users_db_ok (ud_crypto D) (docs w)"
  shows "users_db_ok (ud_crypto D) (docs (fold (account_step D) es w))"
  using assms(2) account_step_ok [OF assms(1)] by (induction es arbitrary: w) auto

section \<open>Accounts that were made\<close>

lemma holds_named: "holds du_UsernameKey m M \<Longrightarrow> user_db_ok docs D \<Longrightarrow> docs w = M \<Longrightarrow>
    cl_find_one (ud_coll D) (named i) any_order w = Inr d \<Longrightarrow> d = m (normalizeUsernameKey i)"
  using keyed_find_one [of "same_key du_UsernameKey" docs "ud_coll D" du_UsernameKey "normalizeUsernameKey i" any_order w d m]
  by (simp add: user_db_ok_def)

lemma db_Create_inserts:
  assumes "db_Create D now user w = (w', None)" and "user_db_ok docs D" and "holds du_UsernameKey m (docs w)"
  shows "\<exists>hash. cr_hash (ud_crypto D) (du_Password user) = Some hash \<and>
    holds du_UsernameKey (m(normalizeUsernameKey (du_Username user) \<mapsto> new_user now hash user)) (docs w')"
proof -
  obtain hash where h: "cr_hash (ud_crypto D) (du_Password user) = Some hash"
    and i: "cl_insert (ud_coll D) (new_user now hash user) w = (w', DocInserted)"
    using assms(1) by (auto simp: db_Create_def split: if_splits option.splits sum.splits prod.splits insert_answer.splits)
  from keyed_insert [OF assms(2) [unfolded user_db_ok_def] i assms(3)] h show ?thesis by (simp add: new_user_def)
qed

text \<open>
  C35: an account that was made with a name and a password can log in with them at once: the answer is the account that was
  answered before, or the database reports an error.
\<close>

theorem created_account_can_log_in:
  assumes "user_db_ok docs D" and "users_db_ok (ud_crypto D) (docs w)" and "crypto_laws (ud_crypto D)"
    and "ad_Create D now req w = (w', Inr u)" and "ad_Authenticate D (cu_Username req) (cu_Password req) w' = answer"
  shows "answer = Inr (u\<lparr>usr_PasswordHash := []\<rparr>) \<or> (\<exists>err. answer = Inl (''database error: '' @ err))"
proof -
  let ?user = "requested_user req"
  obtain m where m: "holds du_UsernameKey m (docs w)" using assms(2) by (auto simp: users_db_ok_def)
  have c: "db_Create D now ?user w = (w', None)" and f: "\<exists>d. FindByUsername D (cu_Username req) w' = Inr d \<and> u = convertToMonitoringUser d"
    using assms(4) by (auto simp: ad_Create_def split: prod.splits option.splits sum.splits)
  obtain hash where h: "cr_hash (ud_crypto D) (cu_Password req) = Some hash"
    and H: "holds du_UsernameKey (m(normalizeUsernameKey (cu_Username req) \<mapsto> new_user now hash ?user)) (docs w')"
    using db_Create_inserts [OF c assms(1) m] by (auto simp: requested_user_def)
  have named: "cu_Username req \<noteq> []" "cu_Password req \<noteq> []"
    using c by (auto simp: db_Create_def requested_user_def split: if_splits)
  have found: "d = Some (new_user now hash ?user)" if "cl_find_one (ud_coll D) (named (cu_Username req)) any_order w' = Inr d" for d
    using holds_named [OF H assms(1) HOL.refl that] by simp
  have u: "u = convertToMonitoringUser (new_user now hash ?user\<lparr>du_Password := []\<rparr>)"
    using f named found by (auto simp: FindByUsername_def split: sum.splits option.splits)
  show ?thesis
  proof (cases "cl_find_one (ud_coll D) (named (cu_Username req)) any_order w'")
    case (Inl err)
    then show ?thesis using assms(5) named by (auto simp: ad_Authenticate_def db_Authenticate_def)
  next
    case (Inr d)
    have "cr_compare (ud_crypto D) hash (cu_Password req)" using assms(3) h by (simp add: crypto_laws_def)
    then show ?thesis
      using assms(5) named Inr found [OF Inr] u
      by (simp add: ad_Authenticate_def db_Authenticate_def new_user_def requested_user_def zero_user_def convertToMonitoringUser_def)
  qed
qed

section \<open>Administrators\<close>

definition admins :: "DbUser multiset \<Rightarrow> nat" where
  "admins M = size (filter_mset is_admin M)"

lemma admins_remove:
  assumes "x \<in># M"
  shows "admins M \<le> admins (M - {#x#}) + 1" and "\<not> is_admin x \<Longrightarrow> admins (M - {#x#}) = admins M"
  using multi_member_split [OF assms] by (auto simp: admins_def)

lemma db_remove_removes:
  assumes "user_db_ok docs D"
  shows "docs (fst (db_remove D i w)) = docs w \<or>
    (\<exists>x. x \<in># docs w \<and> named i x \<and> docs (fst (db_remove D i w)) = docs w - {#x#})"
proof -
  obtain w' a where d: "cl_delete_one (ud_coll D) (named i) w = (w', a)" by fastforce
  have e: "fst (db_remove D i w) = w'" using d by (auto simp: db_remove_def split: sum.splits)
  from coll_delete_one [OF assms [unfolded user_db_ok_def] d] show ?thesis
    unfolding e by (cases a) (auto simp: removed_one_def split: if_splits)
qed

text \<open>
  C36: deleting accounts one after the other never takes away the last administrator: whatever name is given and whatever the
  database answers, an administrator is left if there was one before.
\<close>

theorem deletion_leaves_an_administrator:
  assumes "user_db_ok docs D" and "users_db_ok (ud_crypto D) (docs w)" and "0 < admins (docs w)"
  shows "0 < admins (docs (fst (ad_Delete D i w)))"
proof (cases "i \<noteq> [] \<and> (\<exists>u. FindByUsername D i w = Inr u \<and> (is_admin u \<longrightarrow> (\<exists>n > 1. cl_count (ud_coll D) is_admin w = Inr n)))")
  case False
  then have "fst (ad_Delete D i w) = w" by (auto simp: ad_Delete_def db_Delete_def split: sum.splits)
  with assms(3) show ?thesis by simp
next
  case True
  then obtain u where f: "FindByUsername D i w = Inr u" and n: "is_admin u \<Longrightarrow> \<exists>n > 1. cl_count (ud_coll D) is_admin w = Inr n" by blast
  have e: "fst (ad_Delete D i w) = fst (db_remove D i w)"
    using True f by (auto simp: ad_Delete_def db_Delete_def)
  obtain m where m: "holds du_UsernameKey m (docs w)" using assms(2) by (auto simp: users_db_ok_def)
  obtain d where q: "cl_find_one (ud_coll D) (named i) any_order w = Inr (Some d)" and u: "u = d\<lparr>du_Password := []\<rparr>"
    using f by (auto simp: FindByUsername_def split: if_splits sum.splits option.splits)
  have d: "m (normalizeUsernameKey i) = Some d" using holds_named [OF m assms(1) HOL.refl q] by simp
  from db_remove_removes [OF assms(1), of i w] show ?thesis
    unfolding e
  proof (elim disjE exE conjE)
    fix x
    assume x: "x \<in># docs w" "named i x" and w': "docs (fst (db_remove D i w)) = docs w - {#x#}"
    have "x = d" using x d holds_Some [OF m, of "normalizeUsernameKey i" x] by (simp add: with_key_def)
    show "0 < admins (docs (fst (db_remove D i w)))"
    proof (cases "is_admin x")
      case True
      then obtain n where "n > 1" and c: "cl_count (ud_coll D) is_admin w = Inr n"
        using n u \<open>x = d\<close> by (auto simp: is_admin_def)
      with coll_count [OF assms(1) [unfolded user_db_ok_def] c] admins_remove(1) [OF x(1)] show ?thesis
        unfolding w' admins_def by linarith
    next
      case False
      with admins_remove(2) [OF x(1)] assms(3) show ?thesis by (simp add: w')
    qed
  qed (simp add: assms(3))
qed
section \<open>The properties at work\<close>

definition sample_db :: "DbUser list UserDb" where
  "sample_db = \<lparr>ud_crypto = plain_crypto, ud_coll = list_collection (same_key du_UsernameKey), ud_duplicate = ''E11000''\<rparr>"

definition sample_admin :: DbUser where
  "sample_admin = new_user 0 ''password1'' (zero_user\<lparr>du_Username := ''admin'', du_Role := ''admin''\<rparr>)"

lemma sample_keys: "normalizeUsernameKey ''admin'' = ''admin''" "normalizeUsernameKey ''Kim '' = ''kim''"
  by code_simp+

lemma sample_db_ok: "user_db_ok mset sample_db"
  by (simp add: user_db_ok_def sample_db_def list_collection_ok)

lemma sample_admin_ok: "users_db_ok plain_crypto (mset [sample_admin])"
proof -
  have "holds du_UsernameKey (Map.empty(du_UsernameKey sample_admin \<mapsto> sample_admin)) (add_mset sample_admin {#})"
    by (rule holds_add) simp_all
  then show ?thesis
    by (auto simp: users_db_ok_def db_user_ok_def sample_admin_def new_user_def plain_hash zero_user_def sample_keys intro!: exI)
qed

lemma sample_crypto [simp]: "ud_crypto sample_db = plain_crypto"
  by (simp add: sample_db_def)

lemma accounts_stay_valid_witness:
  "users_db_ok plain_crypto (mset (fold (account_step sample_db)
     [(3, MakeUser (sample_create ''Kim'')), (4, DropUser ''admin''), (5, StartUsers ''password3'' [] True)] [sample_admin]))"
  using accounts_stay_valid [OF sample_db_ok] sample_admin_ok unfolding sample_crypto by blast

lemma sample_creation:
  "\<exists>w' u. ad_Create sample_db 5 (sample_create ''Kim '') [sample_admin] = (w', Inr u) \<and>
    ad_Authenticate sample_db ''Kim '' ''password2'' w' = Inr (u\<lparr>usr_PasswordHash := []\<rparr>)"
  by (simp add: ad_Create_def db_Create_def sample_db_def sample_create_def requested_user_def zero_user_def sample_keys
      mapRoleToRepository_def plain_hash list_collection_def with_key_def sample_admin_def new_user_def same_key_def
      FindByUsername_def best_def sort_by_def ad_Authenticate_def db_Authenticate_def convertToMonitoringUser_def)

lemma created_account_can_log_in_witness:
  "\<exists>w' u. ad_Create sample_db 5 (sample_create ''Kim '') [sample_admin] = (w', Inr u) \<and>
    ad_Authenticate sample_db (cu_Username (sample_create ''Kim '')) (cu_Password (sample_create ''Kim '')) w' \<noteq> Inl ''invalid credentials''"
proof -
  obtain w' u where c: "ad_Create sample_db 5 (sample_create ''Kim '') [sample_admin] = (w', Inr u)" using sample_creation by blast
  from created_account_can_log_in [OF sample_db_ok _ _ c HOL.refl] sample_admin_ok plain_crypto_laws
  have "ad_Authenticate sample_db (cu_Username (sample_create ''Kim '')) (cu_Password (sample_create ''Kim '')) w' \<noteq> Inl ''invalid credentials''"
    by auto
  with c show ?thesis by blast
qed

lemma deletion_leaves_an_administrator_witness:
  "0 < admins (mset (fst (ad_Delete sample_db ''admin'' [sample_admin])))"
  using deletion_leaves_an_administrator [OF sample_db_ok, of "[sample_admin]" "''admin''"] sample_admin_ok
  by (simp add: admins_def is_admin_def sample_admin_def new_user_def)

text \<open>The role of the last administrator can be taken away, though: only deletion is guarded.\<close>

lemma last_administrator_can_be_demoted:
  "admins (mset (account_step sample_db (5, ChangeUser ''admin'' \<lparr>uu_Password = None, uu_Role = Some ''ops'', uu_DisplayName = None,
     uu_Email = None\<rparr>) [sample_admin])) = 0"
  by (simp add: account_step_def ad_Update_def db_Update_def requested_change_def zero_user_def mapRoleToRepository_def text_or_empty_def
      sample_db_def list_collection_def with_key_def sample_admin_def new_user_def sample_keys new_hash_def set_user_def
      fst_cases admins_def is_admin_def)

text \<open>And the program then starts without an administrator, since it only looks for an account of that name.\<close>

lemma program_starts_without_an_administrator:
  "start_users sample_db 5 ''password3'' [] False [sample_admin\<lparr>du_Role := ''ops''\<rparr>] =
     ([sample_admin\<lparr>du_Role := ''ops''\<rparr>], Some ())"
  by (simp add: start_users_def BootstrapAdmin_def FindByUsername_def sample_db_def list_collection_def best_def sort_by_def with_key_def
      sample_admin_def new_user_def sample_keys zero_user_def Let_def)

end
