(* ===== verification/Servers.thy ===== *)
theory Servers
  imports CheckAPI Keyed ServerMetrics
begin

text \<open>
  Remote servers: their repository in MongoDB (\<open>server_repository.go\<close>), and the handlers that list, create, change, delete
  and test them and show their metrics (\<open>server_api.go\<close>). The service keeps the servers it has seen in
  its configuration, and answers from there when the repository fails. The driver of the database keeps the promises
  of \<open>Documents\<close>; an SSH connection, the decoding of a body and the repository of metrics are arguments.
  The stream of live values is left out.
\<close>

section \<open>The repository\<close>

datatype repo_failure = NotConfigured | RepoOffline | ServerNotFound | ServerExists | Plain string

record ServerRepositoryError =
  re_Op :: string
  re_ID :: string
  re_Err :: "repo_failure option"
  re_Cause :: "string option"

fun failure_text :: "repo_failure \<Rightarrow> string" where
  "failure_text NotConfigured = ''server repository is not configured''"
| "failure_text RepoOffline = ''server repository is unavailable''"
| "failure_text ServerNotFound = ''server not found''"
| "failure_text ServerExists = ''server already exists''"
| "failure_text (Plain s) = s"

text \<open>The method \<open>Error\<close>; \<open>%v\<close> of a missing error is \<open><nil>\<close>.\<close>

definition re_text :: "ServerRepositoryError \<Rightarrow> string" where
  "re_text e =
     ''server repository '' @ re_Op e @ (if re_ID e \<noteq> [] then '' '' @ go_quote (re_ID e) else []) @ '': '' @
     (case re_Cause e of Some c \<Rightarrow> c | None \<Rightarrow> (case re_Err e of Some f \<Rightarrow> failure_text f | None \<Rightarrow> ''<nil>''))"

definition repo_error :: "string \<Rightarrow> string \<Rightarrow> repo_failure option \<Rightarrow> string option \<Rightarrow> ServerRepositoryError" where
  "repo_error op i f c = \<lparr>re_Op = op, re_ID = i, re_Err = f, re_Cause = c\<rparr>"

text \<open>\<open>errors.Is\<close> for the sentinels.\<close>

definition is_failure :: "repo_failure \<Rightarrow> ServerRepositoryError \<Rightarrow> bool" where
  "is_failure f e \<longleftrightarrow> re_Err e = Some f"

text \<open>A document has all of a server but the flag for responses.\<close>

definition mongoServerDocumentFromRemoteServer :: "RemoteServer \<Rightarrow> RemoteServer" where
  "mongoServerDocumentFromRemoteServer server = server\<lparr>srv_HasPassword := False\<rparr>"

definition toRemoteServer :: "RemoteServer \<Rightarrow> RemoteServer" where
  "toRemoteServer d = server_applyDefaults (d\<lparr>srv_HasPassword := False\<rparr>)"

definition normalizeRemoteServer :: "RemoteServer \<Rightarrow> string + RemoteServer" where
  "normalizeRemoteServer server =
     (if srv_ID server = [] then Inl ''id is required''
      else let server = server_applyDefaults server
           in case server_validate server of Some err \<Rightarrow> Inl err | None \<Rightarrow> Inr server)"

text \<open>What a repository works with: the collection, or nil, and the text of the error for a duplicate key.\<close>

record 'v ServerRepo =
  svr_coll :: "('v, RemoteServer) Collection option"
  svr_duplicate :: string

text \<open>The order of strings by bytes.\<close>

fun bytes_le :: "string \<Rightarrow> string \<Rightarrow> bool" where
  "bytes_le [] t = True"
| "bytes_le (c # s) [] = False"
| "bytes_le (c # s) (d # t) = ((of_char c :: nat) < of_char d \<or> c = d \<and> bytes_le s t)"

definition by_id :: "RemoteServer \<Rightarrow> RemoteServer \<Rightarrow> bool" where
  "by_id a b \<longleftrightarrow> bytes_le (srv_ID a) (srv_ID b)"

abbreviation server_id :: "string \<Rightarrow> RemoteServer \<Rightarrow> bool" where
  "server_id \<equiv> with_key srv_ID"

definition srepo_List :: "'v ServerRepo \<Rightarrow> 'v \<Rightarrow> ServerRepositoryError + RemoteServer list" where
  "srepo_List R w =
     (case svr_coll R of
        None \<Rightarrow> Inl (repo_error ''list'' [] (Some NotConfigured) None)
      | Some C \<Rightarrow>
          (case cl_find C (\<lambda>_. True) by_id 0 None w of
             Inl (_, err, _) \<Rightarrow> Inl (repo_error ''list'' [] (Some RepoOffline) (Some err))
           | Inr ds \<Rightarrow> Inr (map toRemoteServer ds)))"

definition srepo_Get :: "'v ServerRepo \<Rightarrow> string \<Rightarrow> 'v \<Rightarrow> ServerRepositoryError + RemoteServer" where
  "srepo_Get R i w =
     (case svr_coll R of
        None \<Rightarrow> Inl (repo_error ''get'' i (Some NotConfigured) None)
      | Some C \<Rightarrow>
          if i = [] then Inl (repo_error ''get'' [] (Some (Plain ''id is required'')) None)
          else (case cl_find_one C (server_id i) any_order w of
                  Inl err \<Rightarrow> Inl (repo_error ''get'' i (Some RepoOffline) (Some err))
                | Inr None \<Rightarrow> Inl (repo_error ''get'' i (Some ServerNotFound) None)
                | Inr (Some d) \<Rightarrow> Inr (toRemoteServer d)))"

text \<open>After a failed normalization the server is empty, so that the error names no identifier.\<close>

definition insert_server :: "string \<Rightarrow> 'v ServerRepo \<Rightarrow> ('v, RemoteServer) Collection \<Rightarrow> RemoteServer \<Rightarrow> 'v \<Rightarrow>
    'v \<times> ServerRepositoryError option" where
  "insert_server op R C server w =
     (case cl_insert C (mongoServerDocumentFromRemoteServer server) w of
        (w, DocInserted) \<Rightarrow> (w, None)
      | (w, DocDuplicate) \<Rightarrow> (w, Some (repo_error op (srv_ID server) (Some ServerExists) (Some (svr_duplicate R))))
      | (w, DocFailed err) \<Rightarrow> (w, Some (repo_error op (srv_ID server) (Some RepoOffline) (Some err))))"

definition srepo_Create :: "'v ServerRepo \<Rightarrow> RemoteServer \<Rightarrow> 'v \<Rightarrow> 'v \<times> (ServerRepositoryError + RemoteServer)" where
  "srepo_Create R server w =
     (case svr_coll R of
        None \<Rightarrow> (w, Inl (repo_error ''create'' (srv_ID server) (Some NotConfigured) None))
      | Some C \<Rightarrow>
          (case normalizeRemoteServer server of
             Inl err \<Rightarrow> (w, Inl (repo_error ''create'' [] None (Some err)))
           | Inr server \<Rightarrow>
               (case insert_server ''create'' R C server w of
                  (w, Some err) \<Rightarrow> (w, Inl err) | (w, None) \<Rightarrow> (w, Inr server))))"

definition srepo_Update :: "'v ServerRepo \<Rightarrow> RemoteServer \<Rightarrow> 'v \<Rightarrow> 'v \<times> (ServerRepositoryError + RemoteServer)" where
  "srepo_Update R server w =
     (case svr_coll R of
        None \<Rightarrow> (w, Inl (repo_error ''update'' (srv_ID server) (Some NotConfigured) None))
      | Some C \<Rightarrow>
          (case normalizeRemoteServer server of
             Inl err \<Rightarrow> (w, Inl (repo_error ''update'' [] None (Some err)))
           | Inr server \<Rightarrow>
               (case cl_update C (server_id (srv_ID server)) (\<lambda>_. mongoServerDocumentFromRemoteServer server) None w of
                  (w, Inl err) \<Rightarrow> (w, Inl (repo_error ''update'' (srv_ID server) (Some RepoOffline) (Some err)))
                | (w, Inr n) \<Rightarrow>
                    if n = 0 then (w, Inl (repo_error ''update'' (srv_ID server) (Some ServerNotFound) None)) else (w, Inr server))))"

definition srepo_Delete :: "'v ServerRepo \<Rightarrow> string \<Rightarrow> 'v \<Rightarrow> 'v \<times> ServerRepositoryError option" where
  "srepo_Delete R i w =
     (case svr_coll R of
        None \<Rightarrow> (w, Some (repo_error ''delete'' i (Some NotConfigured) None))
      | Some C \<Rightarrow>
          if i = [] then (w, Some (repo_error ''delete'' [] (Some (Plain ''id is required'')) None))
          else (case cl_delete_one C (server_id i) w of
                  (w, Inl err) \<Rightarrow> (w, Some (repo_error ''delete'' i (Some RepoOffline) (Some err)))
                | (w, Inr n) \<Rightarrow> (w, if n = 0 then Some (repo_error ''delete'' i (Some ServerNotFound) None) else None)))"

fun normalize_seed :: "string list \<Rightarrow> RemoteServer list \<Rightarrow> ServerRepositoryError + RemoteServer list" where
  "normalize_seed seen [] = Inr []"
| "normalize_seed seen (server # servers) =
     (case normalizeRemoteServer server of
        Inl err \<Rightarrow> Inl (repo_error ''seed'' [] None (Some err))
      | Inr server \<Rightarrow>
          if srv_ID server \<in> set seen
          then Inl (repo_error ''seed'' (srv_ID server) None (Some (''duplicate seed server id '' @ go_quote (srv_ID server))))
          else map_sum id ((#) server) (normalize_seed (srv_ID server # seen) servers))"

fun insert_seed :: "'v ServerRepo \<Rightarrow> ('v, RemoteServer) Collection \<Rightarrow> RemoteServer list \<Rightarrow> 'v \<Rightarrow> 'v \<times> ServerRepositoryError option" where
  "insert_seed R C [] w = (w, None)"
| "insert_seed R C (server # servers) w =
     (case insert_server ''seed'' R C server w of
        (w, Some err) \<Rightarrow> (w, Some err) | (w, None) \<Rightarrow> insert_seed R C servers w)"

definition SeedIfEmpty :: "'v ServerRepo \<Rightarrow> RemoteServer list \<Rightarrow> 'v \<Rightarrow> 'v \<times> ServerRepositoryError option" where
  "SeedIfEmpty R servers w =
     (case svr_coll R of
        None \<Rightarrow> (w, Some (repo_error ''seed'' [] (Some NotConfigured) None))
      | Some C \<Rightarrow>
          if servers = [] then (w, None)
          else (case cl_count C (\<lambda>_. True) w of
                  Inl err \<Rightarrow> (w, Some (repo_error ''seed'' [] (Some RepoOffline) (Some err)))
                | Inr n \<Rightarrow>
                    if n > 0 then (w, None)
                    else (case normalize_seed [] servers of
                            Inl err \<Rightarrow> (w, Some err)
                          | Inr normalized \<Rightarrow> insert_seed R C normalized w)))"

text \<open>The start of the program: the servers it goes on with, or none if it stops.\<close>

definition start_servers :: "'v ServerRepo \<Rightarrow> RemoteServer list \<Rightarrow> 'v \<Rightarrow> 'v \<times> RemoteServer list option" where
  "start_servers R configured w =
     (case SeedIfEmpty R configured w of
        (w, Some _) \<Rightarrow> (w, None)
      | (w, None) \<Rightarrow> (w, case srepo_List R w of Inl _ \<Rightarrow> None | Inr servers \<Rightarrow> Some servers))"

section \<open>The service\<close>

definition sanitizeServerForAPI :: "RemoteServer \<Rightarrow> RemoteServer" where
  "sanitizeServerForAPI s =
     (let hasPw = (srv_Password s \<noteq> [] \<or> srv_PasswordEnc s \<noteq> []);
          s = s\<lparr>srv_Password := [], srv_PasswordEnc := [], srv_HasPassword := hasPw\<rparr>
      in if hasPw then s\<lparr>srv_Password := ''********''\<rparr> else s)"

definition sanitizeServersForAPI :: "RemoteServer list \<Rightarrow> RemoteServer list" where
  "sanitizeServersForAPI servers = map sanitizeServerForAPI servers"

record ('w, 'v) ServerService =
  sv_service :: "'w CheckService"
  sv_db :: 'v

text \<open>What a request brings along besides what requests for checks do; the repository and the one of the metrics may be nil.\<close>

record ('w, 'j, 'v) ServerEnv =
  se_check :: "('w, 'j) CheckEnv"
  se_repo :: "'v ServerRepo option"
  se_ssh :: "SSHCheckConfig \<Rightarrow> string + string"
  se_latest :: "(string \<Rightarrow> string + ServerSnapshot option) option"
  se_history :: "(string \<Rightarrow> gotime \<Rightarrow> string + ServerSnapshot list) option"

definition cached :: "('w, 'v) ServerService \<Rightarrow> RemoteServer list" where
  "cached s = cfg_Servers (cs_cfg (sv_service s))"

definition with_cached :: "(RemoteServer list \<Rightarrow> RemoteServer list) \<Rightarrow> ('w, 'v) ServerService \<Rightarrow> ('w, 'v) ServerService" where
  "with_cached f s = s\<lparr>sv_service := (sv_service s)\<lparr>cs_cfg := (cs_cfg (sv_service s))\<lparr>cfg_Servers := f (cached s)\<rparr>\<rparr>\<rparr>"

definition cachedServer :: "string \<Rightarrow> RemoteServer list \<Rightarrow> RemoteServer option" where
  "cachedServer i servers = find (\<lambda>srv. srv_ID srv = i) servers"

definition setCachedServer :: "RemoteServer \<Rightarrow> RemoteServer list \<Rightarrow> RemoteServer list" where
  "setCachedServer srv servers =
     (if list_ex (\<lambda>x. srv_ID x = srv_ID srv) servers then replace_first (\<lambda>x. srv_ID x = srv_ID srv) (\<lambda>_. srv) servers
      else servers @ [srv])"

definition removeCachedServer :: "string \<Rightarrow> RemoteServer list \<Rightarrow> RemoteServer list" where
  "removeCachedServer i servers = filter (\<lambda>srv. srv_ID srv \<noteq> i) servers"

definition listServers :: "('w, 'j, 'v) ServerEnv \<Rightarrow> ('w, 'v) ServerService \<Rightarrow>
    ('w, 'v) ServerService \<times> (ServerRepositoryError + RemoteServer list)" where
  "listServers env s =
     (case se_repo env of
        None \<Rightarrow> (s, Inr (cached s))
      | Some R \<Rightarrow>
          (case srepo_List R (sv_db s) of
             Inl err \<Rightarrow> (s, Inl err)
           | Inr servers \<Rightarrow> (with_cached (\<lambda>_. servers) s, Inr servers)))"

definition getServer :: "('w, 'j, 'v) ServerEnv \<Rightarrow> string \<Rightarrow> ('w, 'v) ServerService \<Rightarrow>
    ('w, 'v) ServerService \<times> (ServerRepositoryError + RemoteServer)" where
  "getServer env i s =
     (case se_repo env of
        None \<Rightarrow>
          (s, case cachedServer i (cached s) of
                Some srv \<Rightarrow> Inr srv | None \<Rightarrow> Inl (repo_error [] [] (Some ServerNotFound) None))
      | Some R \<Rightarrow>
          (case srepo_Get R i (sv_db s) of
             Inl err \<Rightarrow> (s, Inl err)
           | Inr srv \<Rightarrow> (with_cached (setCachedServer srv) s, Inr srv)))"

definition isServerReadFallbackError :: "ServerRepositoryError \<Rightarrow> bool" where
  "isServerReadFallbackError err \<longleftrightarrow> \<not> is_failure ServerNotFound err"

datatype server_body =
  OneServer RemoteServer
| ManyServers "RemoteServer list"
| ServerFailure string
| TestFailed string
| TestOutput string
| Snapshot ServerSnapshot
| Processes "ProcessInfo list"
| Points "(gotime \<times> f64 \<times> f64 \<times> f64 \<times> f64 \<times> f64) list"
| LiveStream
| NoServerBody

definition not_found_text :: "string \<Rightarrow> string" where
  "not_found_text i = ''server '' @ go_quote i @ '' not found''"

text \<open>The answer to a repository error.\<close>

definition offline_error :: "ServerRepositoryError \<Rightarrow> bool" where
  "offline_error err \<longleftrightarrow> is_failure RepoOffline err \<or> is_failure NotConfigured err"

definition error_answer :: "string \<Rightarrow> ServerRepositoryError \<Rightarrow> int \<times> server_body" where
  "error_answer i err =
     (if is_failure ServerNotFound err then (404, ServerFailure (not_found_text i))
      else if offline_error err then (503, ServerFailure (re_text err))
      else (500, ServerFailure (re_text err)))"

definition srv_authorized :: "('w, 'j, 'v) ServerEnv \<Rightarrow> Request \<Rightarrow> ('w, 'v) ServerService \<Rightarrow> bool" where
  "srv_authorized env r s = authorized (se_check env) r (sv_service s)"

definition srv_audited :: "('w, 'j, 'v) ServerEnv \<Rightarrow> Request \<Rightarrow> string \<Rightarrow> string \<Rightarrow> ('w, 'v) ServerService \<Rightarrow> ('w, 'v) ServerService" where
  "srv_audited env r action i s = s\<lparr>sv_service := audited (se_check env) r action i (sv_service s)\<rparr>"

definition buildAutoSSHCheck :: "RemoteServer \<Rightarrow> CheckConfig" where
  "buildAutoSSHCheck srv = zero_check\<lparr>chk_ID := ''ssh-'' @ srv_ID srv, chk_Name := srv_Name srv @ '' System Health'',
     chk_Type := ''ssh'', chk_Server := srv_Name srv, chk_ServerId := srv_ID srv, chk_TimeoutSeconds := 15, chk_Enabled := Some True,
     chk_Tags := srv_Tags srv,
     chk_SSH := Some \<lparr>ssh_Host = srv_Host srv, ssh_Port = srv_Port srv, ssh_User = srv_User srv, ssh_KeyPath = srv_KeyPath srv,
       ssh_KeyEnv = srv_KeyEnv srv, ssh_Password = srv_Password srv, ssh_PasswordEnc = srv_PasswordEnc srv,
       ssh_PasswordEnv = srv_PasswordEnv srv, ssh_HasPassword = False, ssh_HostKeyFingerprint = [], ssh_Metrics = []\<rparr>\<rparr>"

text \<open>The check for a new server; an error of the store is only logged.\<close>

definition add_auto_check :: "('w, 'j, 'v) ServerEnv \<Rightarrow> RemoteServer \<Rightarrow> ('w, 'v) ServerService \<Rightarrow> ('w, 'v) ServerService" where
  "add_auto_check env srv s =
     (let c = sv_service s;
          (check, hb) = check_applyDefaults (ce_token (se_check env)) (buildAutoSSHCheck srv) (cs_heartbeats c);
          c = c\<lparr>cs_heartbeats := hb\<rparr>
      in case ms_UpsertCheck (ce_driver (se_check env)) (ce_now (se_check env)) check (cs_store c) of
           (st, Some _) \<Rightarrow> s\<lparr>sv_service := c\<lparr>cs_store := st\<rparr>\<rparr>
         | (st, None) \<Rightarrow> s\<lparr>sv_service := c\<lparr>cs_store := st, cs_scheduler := UpsertSchedule check (cs_scheduler c)\<rparr>\<rparr>)"

text \<open>Storing a new server: in the repository, which tells of a duplicate, or after a look at the servers known.\<close>

definition store_new :: "('w, 'j, 'v) ServerEnv \<Rightarrow> RemoteServer \<Rightarrow> ('w, 'v) ServerService \<Rightarrow>
    ('w, 'v) ServerService \<times> (int \<times> server_body) option" where
  "store_new env srv s =
     (let exists = ''server '' @ go_quote (srv_ID srv) @ '' already exists''
      in case se_repo env of
           Some R \<Rightarrow>
             (case srepo_Create R srv (sv_db s) of
                (w, Inl err) \<Rightarrow>
                  (s\<lparr>sv_db := w\<rparr>,
                   Some (if is_failure ServerExists err then (409, ServerFailure exists)
                         else if offline_error err then (503, ServerFailure (re_text err))
                         else (500, ServerFailure (re_text err))))
              | (w, Inr _) \<Rightarrow> (s\<lparr>sv_db := w\<rparr>, None))
         | None \<Rightarrow>
             (s, if list_ex (\<lambda>x. srv_ID x = srv_ID srv) (cached s) then Some (409, ServerFailure exists) else None))"

definition handleServers :: "('w, 'j, 'v) ServerEnv \<Rightarrow> Request \<Rightarrow> string + RemoteServer \<Rightarrow> ('w, 'v) ServerService \<Rightarrow>
    ('w, 'v) ServerService \<times> int \<times> server_body" where
  "handleServers env r body s =
     (if rq_Method r = ''GET'' then
        (case listServers env s of
           (s, Inl _) \<Rightarrow> (s, 200, ManyServers (sanitizeServersForAPI (cached s)))
         | (s, Inr servers) \<Rightarrow> (s, 200, ManyServers (sanitizeServersForAPI servers)))
      else if rq_Method r = ''POST'' then
        if \<not> srv_authorized env r s then (s, 401, ServerFailure ''authentication required'')
        else case body of
          Inl err \<Rightarrow> (s, 400, ServerFailure err)
        | Inr srv \<Rightarrow>
            let srv = server_applyDefaults srv
            in if srv_ID srv = [] then (s, 400, ServerFailure ''id is required'')
               else (case prepareServerSecrets (ce_encrypt (se_check env) 0) srv None of
                       (_, Some err) \<Rightarrow> (s, 400, ServerFailure err)
                     | (srv, None) \<Rightarrow>
                         (case server_validate srv of
                            Some err \<Rightarrow> (s, 400, ServerFailure err)
                          | None \<Rightarrow>
                              (case store_new env srv s of
                                 (s, Some answer) \<Rightarrow> (s, answer)
                               | (s, None) \<Rightarrow>
                                   (srv_audited env r ''server.created'' (srv_ID srv)
                                      (add_auto_check env srv (with_cached (setCachedServer srv) s)),
                                    201, OneServer (sanitizeServerForAPI srv)))))
      else (s, 405, NoServerBody))"

definition get_server :: "('w, 'j, 'v) ServerEnv \<Rightarrow> string \<Rightarrow> ('w, 'v) ServerService \<Rightarrow> ('w, 'v) ServerService \<times> int \<times> server_body" where
  "get_server env i s =
     (case getServer env i s of
        (s, Inr srv) \<Rightarrow> (s, 200, OneServer (sanitizeServerForAPI srv))
      | (s, Inl err) \<Rightarrow>
          (case (if isServerReadFallbackError err then cachedServer i (cached s) else None) of
             Some srv \<Rightarrow> (s, 200, OneServer (sanitizeServerForAPI srv))
           | None \<Rightarrow> (s, error_answer i err)))"

definition update_server :: "('w, 'j, 'v) ServerEnv \<Rightarrow> Request \<Rightarrow> string \<Rightarrow> string + RemoteServer \<Rightarrow> ('w, 'v) ServerService \<Rightarrow>
    ('w, 'v) ServerService \<times> int \<times> server_body" where
  "update_server env r i body s =
     (case body of
        Inl err \<Rightarrow> (s, 400, ServerFailure err)
      | Inr srv \<Rightarrow>
          let srv = server_applyDefaults (srv\<lparr>srv_ID := i\<rparr>)
          in (case getServer env i s of
                (s, Inl err) \<Rightarrow> (s, error_answer i err)
              | (s, Inr existing) \<Rightarrow>
                  (case prepareServerSecrets (ce_encrypt (se_check env) 0) srv (Some existing) of
                     (_, Some err) \<Rightarrow> (s, 400, ServerFailure err)
                   | (srv, None) \<Rightarrow>
                       (case server_validate srv of
                          Some err \<Rightarrow> (s, 400, ServerFailure err)
                        | None \<Rightarrow>
                            (case (case se_repo env of
                                     None \<Rightarrow> (s, None)
                                   | Some R \<Rightarrow>
                                       (case srepo_Update R srv (sv_db s) of
                                          (w, Inl err) \<Rightarrow> (s\<lparr>sv_db := w\<rparr>, Some err) | (w, Inr _) \<Rightarrow> (s\<lparr>sv_db := w\<rparr>, None))) of
                               (s, Some err) \<Rightarrow> (s, error_answer i err)
                             | (s, None) \<Rightarrow>
                                 (srv_audited env r ''server.updated'' i (with_cached (setCachedServer srv) s),
                                  200, OneServer (sanitizeServerForAPI srv)))))))"

definition delete_server :: "('w, 'j, 'v) ServerEnv \<Rightarrow> Request \<Rightarrow> string \<Rightarrow> ('w, 'v) ServerService \<Rightarrow>
    ('w, 'v) ServerService \<times> int \<times> server_body" where
  "delete_server env r i s =
     (case find (\<lambda>check. chk_ServerId check = i) (st_Checks (ms_Snapshot (cs_store (sv_service s)))) of
        Some check \<Rightarrow>
          (s, 409, ServerFailure (''cannot delete server '' @ go_quote i @ '': check '' @ go_quote (chk_ID check) @ '' references it''))
      | None \<Rightarrow>
          (case (case se_repo env of
                   None \<Rightarrow> (s, if cachedServer i (cached s) = None then Some (repo_error [] [] (Some ServerNotFound) None) else None)
                 | Some R \<Rightarrow> (case srepo_Delete R i (sv_db s) of (w, err) \<Rightarrow> (s\<lparr>sv_db := w\<rparr>, err))) of
             (s, Some err) \<Rightarrow> (s, error_answer i err)
           | (s, None) \<Rightarrow> (srv_audited env r ''server.deleted'' i (with_cached (removeCachedServer i) s), 204, NoServerBody)))"

section \<open>Tests and metrics\<close>

definition trim_prefix :: "string \<Rightarrow> string \<Rightarrow> string" where
  "trim_prefix p s = (if has_prefix s p then drop (length p) s else s)"

definition trim_suffix :: "string \<Rightarrow> string \<Rightarrow> string" where
  "trim_suffix p s = (if has_suffix s p then take (length s - length p) s else s)"

definition handleServerTest :: "('w, 'j, 'v) ServerEnv \<Rightarrow> Request \<Rightarrow> ('w, 'v) ServerService \<Rightarrow> ('w, 'v) ServerService \<times> int \<times> server_body" where
  "handleServerTest env r s =
     (let i = trim_suffix ''/test'' (trim_prefix ''/api/v1/servers/'' (rq_Path r))
      in if rq_Method r \<noteq> ''POST'' then (s, 405, NoServerBody)
         else if \<not> srv_authorized env r s then (s, 401, ServerFailure ''authentication required'')
         else if i = [] then (s, 400, ServerFailure ''missing server id'')
         else (case getServer env i s of
                 (s, answer) \<Rightarrow>
                   (case (case answer of
                            Inr srv \<Rightarrow> Inr srv
                          | Inl err \<Rightarrow>
                              (case (if isServerReadFallbackError err then cachedServer i (cached s) else None) of
                                 Some srv \<Rightarrow> Inr srv | None \<Rightarrow> Inl err)) of
                      Inl err \<Rightarrow> (s, error_answer i err)
                    | Inr srv \<Rightarrow>
                        if srv_ID srv = [] then (s, 404, ServerFailure (not_found_text i))
                        else (case se_ssh env (ToSSHConfig srv) of
                                Inl err \<Rightarrow> (s, 200, TestFailed err)
                              | Inr out \<Rightarrow> (s, 200, TestOutput (trim_space out))))))"

text \<open>The latest snapshot, for the metrics and for the processes.\<close>

definition latest_snapshot :: "('w, 'j, 'v) ServerEnv \<Rightarrow> Request \<Rightarrow> string \<Rightarrow> string \<Rightarrow> (ServerSnapshot \<Rightarrow> server_body) \<Rightarrow> int \<times> server_body" where
  "latest_snapshot env r suffix what show =
     (let i = trim_suffix suffix (trim_prefix ''/api/v1/servers/'' (rq_Path r))
      in if rq_Method r \<noteq> ''GET'' then (405, NoServerBody)
         else case se_latest env of
           None \<Rightarrow> (503, ServerFailure ''server metrics not available'')
         | Some latest \<Rightarrow>
             (case latest i of
                Inl err \<Rightarrow> (500, ServerFailure err)
              | Inr None \<Rightarrow> (404, ServerFailure (''no '' @ what @ '' available for server '' @ go_quote i))
              | Inr (Some snap) \<Rightarrow> (200, show snap)))"

definition handleServerMetrics :: "('w, 'j, 'v) ServerEnv \<Rightarrow> Request \<Rightarrow> int \<times> server_body" where
  "handleServerMetrics env r = latest_snapshot env r ''/metrics'' ''metrics'' Snapshot"

definition handleServerProcesses :: "('w, 'j, 'v) ServerEnv \<Rightarrow> Request \<Rightarrow> int \<times> server_body" where
  "handleServerProcesses env r = latest_snapshot env r ''/processes'' ''process data'' (\<lambda>snap. Processes (ss_TopProcesses snap))"

definition range_hours :: "string \<Rightarrow> int" where
  "range_hours rangeStr =
     (if rangeStr = ''1h'' then 1 else if rangeStr = ''6h'' then 6 else if rangeStr = ''12h'' then 12 else if rangeStr = ''24h'' then 24
      else if rangeStr = ''7d'' then 7 * 24 else if rangeStr = ''30d'' then 30 * 24 else 24)"

definition metrics_point :: "ServerSnapshot \<Rightarrow> gotime \<times> f64 \<times> f64 \<times> f64 \<times> f64 \<times> f64" where
  "metrics_point m = (ss_Timestamp m, ss_CPUUsagePercent m, ss_MemoryUsagePercent m, ss_MemoryUsedMB m, ss_DiskUsagePercent m, ss_LoadAvg1 m)"

definition handleServerMetricsHistory :: "('w, 'j, 'v) ServerEnv \<Rightarrow> gotime \<Rightarrow> string \<Rightarrow> Request \<Rightarrow> int \<times> server_body" where
  "handleServerMetricsHistory env now rangeStr r =
     (let i = takeWhile (\<lambda>c. c \<noteq> CHR ''/'') (trim_prefix ''/api/v1/servers/'' (rq_Path r))
      in if rq_Method r \<noteq> ''GET'' then (405, NoServerBody)
         else case se_history env of
           None \<Rightarrow> (503, ServerFailure ''server metrics not available'')
         | Some history \<Rightarrow>
             (case history i (time_add now (- (range_hours rangeStr * hour))) of
                Inl err \<Rightarrow> (500, ServerFailure err)
              | Inr snaps \<Rightarrow> (200, Points (map metrics_point snaps))))"

definition handleServerByID :: "('w, 'j, 'v) ServerEnv \<Rightarrow> gotime \<Rightarrow> string \<Rightarrow> Request \<Rightarrow> string + RemoteServer \<Rightarrow> ('w, 'v) ServerService \<Rightarrow>
    ('w, 'v) ServerService \<times> int \<times> server_body" where
  "handleServerByID env now rangeStr r body s =
     (let path = trim_prefix ''/api/v1/servers/'' (rq_Path r)
      in if path = [] then (s, 400, ServerFailure ''missing server id'')
         else if has_suffix path ''/live'' then (s, 200, LiveStream)
         else if has_suffix path ''/test'' then handleServerTest env r s
         else if str_contains path ''/metrics/history'' then (s, handleServerMetricsHistory env now rangeStr r)
         else if has_suffix path ''/metrics'' then (s, handleServerMetrics env r)
         else if has_suffix path ''/processes'' then (s, handleServerProcesses env r)
         else if rq_Method r = ''GET'' then get_server env path s
         else if rq_Method r = ''PUT'' \<or> rq_Method r = ''PATCH'' then
           (if \<not> srv_authorized env r s then (s, 401, ServerFailure ''authentication required'') else update_server env r path body s)
         else if rq_Method r = ''DELETE'' then
           (if \<not> srv_authorized env r s then (s, 401, ServerFailure ''authentication required'') else delete_server env r path s)
         else (s, 405, NoServerBody))"
section \<open>Answers show no secrets\<close>

definition hidden :: "RemoteServer \<Rightarrow> bool" where
  "hidden srv \<longleftrightarrow> srv_PasswordEnc srv = [] \<and> srv_Password srv \<in> {[], SecretMask}"

fun body_servers :: "server_body \<Rightarrow> RemoteServer list" where
  "body_servers (OneServer srv) = [srv]"
| "body_servers (ManyServers servers) = servers"
| "body_servers _ = []"

lemma sanitized_hidden: "hidden (sanitizeServerForAPI srv)"
  by (simp add: hidden_def sanitizeServerForAPI_def SecretMask_def Let_def)

text \<open>The body of an answer, whatever the state.\<close>

definition answers_with :: "(server_body \<Rightarrow> bool) \<Rightarrow> 's \<times> int \<times> server_body \<Rightarrow> bool" where
  "answers_with P a \<longleftrightarrow> P (snd (snd a))"

lemma answers_with_simps [simp]: "answers_with P (s, n, b) \<longleftrightarrow> P b" "answers_with P (s, answer) \<longleftrightarrow> P (snd answer)"
  by (simp_all add: answers_with_def)

definition hides :: "server_body \<Rightarrow> bool" where
  "hides b \<longleftrightarrow> (\<forall>srv \<in> set (body_servers b). hidden srv)"

lemma hides_simps [simp]: "hides (OneServer (sanitizeServerForAPI srv))" "hides (ManyServers (sanitizeServersForAPI servers))"
    "hides (ServerFailure e)" "hides (TestFailed e)" "hides (TestOutput e)" "hides (Snapshot m)" "hides (Processes q)" "hides (Points pts)"
    "hides LiveStream" "hides NoServerBody"
  by (auto simp: hides_def sanitized_hidden sanitizeServersForAPI_def)

lemma hides_error [simp]: "hides (snd (error_answer i err))"
  by (simp add: error_answer_def)

lemma hides_store_new: "store_new env srv s = (s', Some answer) \<Longrightarrow> hides (snd answer)"
  by (auto simp: store_new_def Let_def split: option.splits prod.splits sum.splits if_splits)

lemma hides_handleServers: "answers_with hides (handleServers env r body s)"
proof (cases "rq_Method r = ''GET''")
  case True
  then show ?thesis by (auto simp: handleServers_def split: prod.split sum.split)
next
  case False
  then show ?thesis
    unfolding handleServers_def Let_def
    by (auto split: sum.splits prod.splits option.splits dest: hides_store_new)
qed

lemma hides_get_server: "answers_with hides (get_server env i s)"
  by (auto simp: get_server_def split: prod.split sum.split option.split)

lemma hides_update_server: "answers_with hides (update_server env r i body s)"
  unfolding update_server_def Let_def by (auto split: sum.split prod.split option.split)

lemma hides_delete_server: "answers_with hides (delete_server env r i s)"
  unfolding delete_server_def by (auto split: sum.split prod.split option.split)

lemma hides_handleServerTest: "answers_with hides (handleServerTest env r s)"
  unfolding handleServerTest_def Let_def by (auto split: sum.split prod.split option.split)

lemma hides_metrics: "hides (snd (handleServerMetrics env r))" "hides (snd (handleServerProcesses env r))"
    "hides (snd (handleServerMetricsHistory env now rangeStr r))"
  by (auto simp: handleServerMetrics_def handleServerProcesses_def latest_snapshot_def handleServerMetricsHistory_def Let_def
      split: option.split sum.split)

text \<open>
  C3: no answer of the server API, to whatever request, from the repository or from memory, has the ciphertext of a password, and
  where it has a password it is the mask.
\<close>

theorem server_answers_hide_secrets:
  "hides (snd (snd (handleServers env r body s))) \<and> hides (snd (snd (handleServerByID env now rangeStr r body s)))"
proof -
  have "answers_with hides (handleServerByID env now rangeStr r body s)"
    unfolding handleServerByID_def Let_def
    using hides_get_server [of env _ s] hides_update_server [of env r _ body s] hides_delete_server [of env r _ s]
      hides_handleServerTest [of env r s] hides_metrics [where env = env and r = r]
    by simp
  with hides_handleServers [of env r body s] show ?thesis by (simp add: answers_with_def)
qed

section \<open>Changes that were accepted\<close>

lemma prepared_server:
  assumes "prepareServerSecrets enc srv prev = (srv', None)"
  shows "srv_ID srv' = srv_ID srv" and "srv_Password srv' = []" and "server_defaults_ok srv \<Longrightarrow> server_defaults_ok srv'"
  using assms by (auto simp: prepareServerSecrets_def server_defaults_ok_def Let_def split: if_splits option.splits sum.splits)

lemma normalize_ok:
  "srv_ID srv \<noteq> [] \<Longrightarrow> server_defaults_ok srv \<Longrightarrow> server_validate srv = None \<Longrightarrow> normalizeRemoteServer srv = Inr srv"
  by (simp add: normalizeRemoteServer_def server_defaults_id)

lemma find_replaced:
  "list_ex P xs \<Longrightarrow> P y \<Longrightarrow> find P (replace_first P (\<lambda>_. y) xs) = Some y"
  by (induction xs) auto

lemma cached_set: "cachedServer (srv_ID srv) (setCachedServer srv xs) = Some srv"
proof (cases "list_ex (\<lambda>x. srv_ID x = srv_ID srv) xs")
  case True
  then show ?thesis by (simp add: cachedServer_def setCachedServer_def find_replaced)
next
  case False
  then have "find (\<lambda>x. srv_ID x = srv_ID srv) xs = None" by (simp add: find_None_iff list_ex_iff)
  then show ?thesis using False by (simp add: cachedServer_def setCachedServer_def find_append)
qed
lemma error_answer_code: "fst (error_answer i err) \<noteq> 200"
  by (simp add: error_answer_def)

lemma with_cached_simps [simp]:
  "sv_db (with_cached f s) = sv_db s" "cached (with_cached f s) = f (cached s)"
  "cs_store (sv_service (with_cached f s)) = cs_store (sv_service s)"
  "cs_scheduler (sv_service (with_cached f s)) = cs_scheduler (sv_service s)"
  by (simp_all add: with_cached_def cached_def)

lemma srv_audited_simps [simp]:
  "sv_db (srv_audited env r action i s) = sv_db s" "cached (srv_audited env r action i s) = cached s"
  "cs_store (sv_service (srv_audited env r action i s)) = cs_store (sv_service s)"
  "cs_scheduler (sv_service (srv_audited env r action i s)) = cs_scheduler (sv_service s)"
  by (simp_all add: srv_audited_def audited_def cached_def)

lemma getServer_keeps:
  "getServer env i s = (s', a) \<Longrightarrow> sv_db s' = sv_db s \<and> cs_store (sv_service s') = cs_store (sv_service s) \<and>
     cs_scheduler (sv_service s') = cs_scheduler (sv_service s)"
  by (auto simp: getServer_def split: option.splits sum.splits)

lemma srepo_Update_stores:
  assumes "svr_coll R = Some C" and "coll_ok (same_key srv_ID) docs C" and "holds srv_ID m (docs w)"
    and "normalizeRemoteServer srv = Inr srv" and "srepo_Update R srv w = (w', Inr out)"
  shows "holds srv_ID (m(srv_ID srv \<mapsto> mongoServerDocumentFromRemoteServer srv)) (docs w') \<and> m (srv_ID srv) \<noteq> None"
proof -
  let ?d = "mongoServerDocumentFromRemoteServer srv"
  obtain w1 a where u: "cl_update C (server_id (srv_ID srv)) (\<lambda>_. ?d) None w = (w1, a)" by (rule prod.exhaust)
  obtain n where a: "a = Inr n" "w1 = w'" "n \<noteq> 0"
    using assms(1,4,5) u by (cases a) (auto simp: srepo_Update_def split: if_splits)
  from keyed_update [OF assms(2) u [unfolded a] assms(3)]
  have "holds srv_ID (map_update m (srv_ID srv) (\<lambda>_. ?d) None) (docs w') \<and> n = (if m (srv_ID srv) = None then 0 else 1)"
    by (simp add: mongoServerDocumentFromRemoteServer_def)
  with a(3) show ?thesis by (auto simp: map_update_def split: option.splits if_splits)
qed

lemma update_server_accepted:
  assumes "update_server env r i body s = (s', 200, answer)" and "se_repo env = Some R"
  obtains given s1 existing srv w out where
    "getServer env i s = (s1, Inr existing)"
    "prepareServerSecrets (ce_encrypt (se_check env) 0) (server_applyDefaults (given\<lparr>srv_ID := i\<rparr>)) (Some existing) = (srv, None)"
    "server_validate srv = None" "srepo_Update R srv (sv_db s1) = (w, Inr out)"
    "s' = srv_audited env r ''server.updated'' i (with_cached (setCachedServer srv) (s1\<lparr>sv_db := w\<rparr>))"
    "answer = OneServer (sanitizeServerForAPI srv)"
proof -
  obtain given where b: "body = Inr given" using assms(1) by (cases body) (simp_all add: update_server_def)
  let ?srv = "server_applyDefaults (given\<lparr>srv_ID := i\<rparr>)"
  obtain s1 a where g1: "getServer env i s = (s1, a)" by (rule prod.exhaust)
  obtain existing where g: "getServer env i s = (s1, Inr existing)"
    using assms(1) g1 error_answer_code [of i] by (cases a) (auto simp: update_server_def b Let_def dest: arg_cong [where f = fst])
  obtain srv e where p1: "prepareServerSecrets (ce_encrypt (se_check env) 0) ?srv (Some existing) = (srv, e)" by (rule prod.exhaust)
  have p: "e = None" and v: "server_validate srv = None"
    using assms(1) by (auto simp: update_server_def b Let_def g p1 split: option.splits)
  obtain w o1 where r1: "srepo_Update R srv (sv_db s1) = (w, o1)" by (rule prod.exhaust)
  obtain out where o1: "o1 = Inr out"
    using assms error_answer_code [of i]
    by (cases o1) (auto simp: update_server_def b Let_def g p1 p v r1 dest: arg_cong [where f = fst])
  have "s' = srv_audited env r ''server.updated'' i (with_cached (setCachedServer srv) (s1\<lparr>sv_db := w\<rparr>))"
    and "answer = OneServer (sanitizeServerForAPI srv)"
    using assms by (simp_all add: update_server_def b Let_def g p1 p v r1 o1)
  with that [OF g _ v] p1 p r1 o1 show ?thesis by blast
qed

text \<open>
  C2: an accepted change of a server replaces its document by the one in the answer and no other: the identifier is that of the path,
  the name, host, user and way to log in are valid, the password is stored as ciphertext only, and the service goes
  on with what it has stored. The checks are what they were: the check that was made for the server keeps on using
  the old address and credentials.
\<close>

theorem accepted_server_is_stored:
  assumes "se_repo env = Some R" and "svr_coll R = Some C" and "coll_ok (same_key srv_ID) docs C" and "holds srv_ID m (docs (sv_db s))"
    and "i \<noteq> []" and "update_server env r i body s = (s', 200, answer)"
  shows "\<exists>srv. srv_ID srv = i \<and> srv_Password srv = [] \<and> server_validate srv = None \<and>
    holds srv_ID (m(i \<mapsto> mongoServerDocumentFromRemoteServer srv)) (docs (sv_db s')) \<and> m i \<noteq> None \<and>
    cachedServer i (cached s') = Some srv \<and> answer = OneServer (sanitizeServerForAPI srv) \<and>
    cs_store (sv_service s') = cs_store (sv_service s) \<and> cs_scheduler (sv_service s') = cs_scheduler (sv_service s)"
proof -
  obtain given s1 existing srv w out where u: "getServer env i s = (s1, Inr existing)"
    "prepareServerSecrets (ce_encrypt (se_check env) 0) (server_applyDefaults (given\<lparr>srv_ID := i\<rparr>)) (Some existing) = (srv, None)"
    "server_validate srv = None" "srepo_Update R srv (sv_db s1) = (w, Inr out)"
    "s' = srv_audited env r ''server.updated'' i (with_cached (setCachedServer srv) (s1\<lparr>sv_db := w\<rparr>))"
    "answer = OneServer (sanitizeServerForAPI srv)"
    by (rule update_server_accepted [OF assms(6,1)])
  note p = prepared_server [OF u(2)]
  have i: "srv_ID srv = i" using p(1) by (simp add: server_applyDefaults_def)
  have n: "normalizeRemoteServer srv = Inr srv"
    using i assms(5) p(3) [OF server_defaults] u(3) by (intro normalize_ok) simp_all
  note keeps = getServer_keeps [OF u(1)]
  have H: "holds srv_ID m (docs (sv_db s1))" using assms(4) keeps by simp
  from srepo_Update_stores [OF assms(2,3) H n u(4)] show ?thesis
    using i p(2) u(3,6) keeps cached_set [of srv] by (intro exI [of _ srv]) (simp add: u(5))
qed
section \<open>The properties at work\<close>

definition sample_server :: "string \<Rightarrow> RemoteServer" where
  "sample_server host = \<lparr>srv_ID = ''web'', srv_Name = ''web'', srv_Host = host, srv_Port = 22, srv_User = ''ops'', srv_KeyPath = [],
     srv_KeyEnv = [], srv_Password = ''pw'', srv_PasswordEnc = [], srv_PasswordEnv = [], srv_HasPassword = False, srv_Tags = [],
     srv_Enabled = Some True\<rparr>"

definition sample_repo :: "RemoteServer list ServerRepo" where
  "sample_repo = \<lparr>svr_coll = Some (list_collection (same_key srv_ID)), svr_duplicate = ''E11000''\<rparr>"

definition sample_server_env :: "(CheckConfig list, string \<times> int, RemoteServer list) ServerEnv" where
  "sample_server_env = \<lparr>se_check = sample_env, se_repo = Some sample_repo, se_ssh = (\<lambda>_. Inl ''refused''), se_latest = None, se_history = None\<rparr>"

definition sample_servers :: "(CheckConfig list, RemoteServer list) ServerService" where
  "sample_servers = \<lparr>sv_service = sample_service False, sv_db = [sample_server ''10.0.0.1'']\<rparr>"

definition sample_change :: "(CheckConfig list, RemoteServer list) ServerService \<times> int \<times> server_body" where
  "sample_change = update_server sample_server_env sample_put ''web'' (Inr (sample_server ''10.0.0.2'')) sample_servers"

lemma sample_change_code: "fst (snd sample_change) = 200"
  by code_simp

lemma accepted_server_is_stored_witness:
  "map_option srv_Password (cachedServer ''web'' (cached (fst sample_change))) = Some [] \<and>
   cs_store (sv_service (fst sample_change)) = cs_store (sv_service sample_servers)"
proof -
  obtain s' code answer where c: "sample_change = (s', code, answer)" by (cases sample_change)
  have code: "code = 200" using sample_change_code by (simp add: c)
  have h: "holds srv_ID (Map.empty(srv_ID (sample_server ''10.0.0.1'') \<mapsto> sample_server ''10.0.0.1'')) (mset (sv_db sample_servers))"
    using holds_add [OF holds_empty, of srv_ID "sample_server ''10.0.0.1''"] by (simp add: sample_servers_def)
  show ?thesis
    using accepted_server_is_stored [OF _ _ list_collection_ok h _ c [unfolded sample_change_def code], of sample_repo]
    by (auto simp: c sample_server_env_def sample_repo_def)
qed

text \<open>Servers of the configuration file are stored as they are: a password in clear text stays one.\<close>

lemma seeding_stores_clear_text:
  "map srv_Password (fst (SeedIfEmpty sample_repo [sample_server ''10.0.0.1''] [])) = [''pw'']"
  by code_simp

text \<open>A seed that breaks off is never completed: the next start finds servers and goes on with them.\<close>

lemma broken_seed_stays:
  assumes "svr_coll R = Some C" and "coll_ok conflict docs C" and "docs w \<noteq> {#}"
    and "cl_count C (\<lambda>_. True) w = Inr n"
  shows "SeedIfEmpty R servers w = (w, None)"
proof -
  have "n = size (docs w)" using coll_count [OF assms(2,4)] by simp
  with assms(3) have "n > 0" by (simp add: nonempty_has_size)
  with assms(1,4) show ?thesis by (simp add: SeedIfEmpty_def)
qed

end
