(* ===== verification/Sealed.thy ===== *)
theory Sealed
  imports Secrets AuditTrail
begin

text \<open>
  Encryption at rest: \<open>cryptoutil/cryptoutil.go\<close> for the passwords of checks and servers, and the helpers of
  \<open>ai/config.go\<close> and \<open>ai/repositories/mongo_config_repository.go\<close> for the keys of AI providers. AES-GCM of the standard
  library is the record \<open>Aead\<close>, the random bytes are arguments, and hexadecimal text is written out. A file with a key has
  what was read from it, or cannot be read.
\<close>

section \<open>Hexadecimal text\<close>

definition hex_value :: "char \<Rightarrow> nat option" where
  "hex_value c =
     (let n = of_char c :: nat
      in if 48 \<le> n \<and> n \<le> 57 then Some (n - 48)
         else if 97 \<le> n \<and> n \<le> 102 then Some (n - 87)
         else if 65 \<le> n \<and> n \<le> 70 then Some (n - 55) else None)"

text \<open>\<open>hex.EncodeToString\<close> and \<open>hex.DecodeString\<close>.\<close>

definition hex_encode :: "string \<Rightarrow> string" where
  "hex_encode s = hex_bytes (map of_char s)"

fun hex_decode :: "string \<Rightarrow> string option" where
  "hex_decode [] = Some []"
| "hex_decode [c] = None"
| "hex_decode (c # d # s) =
     (case (hex_value c, hex_value d) of
        (Some a, Some b) \<Rightarrow> map_option ((#) (char_of (16 * a + b))) (hex_decode s)
      | _ \<Rightarrow> None)"

lemma hex_value_digit: "n < 16 \<Longrightarrow> hex_value (hex_digit n) = Some n"
proof -
  have "list_all (\<lambda>n. hex_value (hex_digit n) = Some n) [0 ..< 16]" by code_simp
  then show "n < 16 \<Longrightarrow> hex_value (hex_digit n) = Some n" by (simp add: list_all_iff)
qed

lemma hex_encode_simps: "hex_encode [] = []"
    "hex_encode (c # s) = hex_digit (of_char c div 16) # hex_digit (of_char c mod 16) # hex_encode s"
  by (simp_all add: hex_encode_def hex_bytes_def)

lemma hex_round_trip [simp]: "hex_decode (hex_encode s) = Some s"
proof (induction s)
  case (Cons c s)
  have "(of_char c :: nat) < 256" by simp
  then have "(of_char c :: nat) div 16 < 16" by (simp add: less_mult_imp_div_less)
  then show ?case using Cons by (simp add: hex_encode_simps hex_value_digit)
qed (simp add: hex_encode_simps)

lemma hex_encode_no_space: "trim_space (hex_encode s) = hex_encode s"
proof -
  have "list_all (\<lambda>n. \<not> is_space (hex_digit n)) [0 ..< 16]" by code_simp
  then have d: "n < 16 \<Longrightarrow> \<not> is_space (hex_digit n)" for n by (simp add: list_all_iff)
  have ns: "\<not> is_space c" if "c \<in> set (hex_encode s)" for c
    using that
  proof (induction s)
    case (Cons x s)
    have "(of_char x :: nat) < 256" by simp
    then have "(of_char x :: nat) div 16 < 16" by (simp add: less_mult_imp_div_less)
    then show ?case using Cons d by (auto simp: hex_encode_simps)
  qed (simp add: hex_encode_simps)
  have id: "dropWhile is_space t = t" if "\<And>c. c \<in> set t \<Longrightarrow> \<not> is_space c" for t
    using that by (cases t) auto
  have "dropWhile is_space (hex_encode s) = hex_encode s" "dropWhile is_space (rev (hex_encode s)) = rev (hex_encode s)"
    using ns by (auto intro!: id)
  then show ?thesis by (simp add: trim_space_def)
qed

section \<open>AES-GCM\<close>

text \<open>
  \<open>Seal\<close> and \<open>Open\<close> for a key of 32 bytes and a nonce of 12; the documented promise is that what was sealed opens again
  with the same key and nonce.
\<close>

record Aead =
  ae_seal :: "string \<Rightarrow> string \<Rightarrow> string \<Rightarrow> string"
  ae_open :: "string \<Rightarrow> string \<Rightarrow> string \<Rightarrow> string option"

definition aead_ok :: "Aead \<Rightarrow> bool" where
  "aead_ok A \<longleftrightarrow> (\<forall>k n p. ae_open A k n (ae_seal A k n p) = Some p)"

definition NonceSize :: nat where "NonceSize = 12"

text \<open>\<open>aes.NewCipher\<close> refuses other sizes than those of AES.\<close>

definition key_size_ok :: "string \<Rightarrow> bool" where
  "key_size_ok key \<longleftrightarrow> length key \<in> {16, 24, 32}"

definition key_size_error :: "string \<Rightarrow> string" where
  "key_size_error key = ''crypto/aes: invalid key size '' @ itoa (int (length key))"

text \<open>\<open>random\<close> is what the source of random bytes yields for the nonce.\<close>

definition seal_hex :: "Aead \<Rightarrow> string + string \<Rightarrow> string \<Rightarrow> string \<Rightarrow> string + string" where
  "seal_hex A random key plaintext =
     (if \<not> key_size_ok key then Inl (key_size_error key)
      else case random of Inl err \<Rightarrow> Inl err | Inr nonce \<Rightarrow> Inr (hex_encode (nonce @ ae_seal A key nonce plaintext)))"

definition open_raw :: "Aead \<Rightarrow> string \<Rightarrow> string \<Rightarrow> string \<Rightarrow> string + string" where
  "open_raw A short key raw =
     (if \<not> key_size_ok key then Inl (key_size_error key)
      else if length raw < NonceSize then Inl short
      else case ae_open A key (take NonceSize raw) (drop NonceSize raw) of
             None \<Rightarrow> Inl ''cipher: message authentication failed''
           | Some plaintext \<Rightarrow> Inr plaintext)"

definition hex_error :: string where "hex_error = ''encoding/hex: invalid input''"

text \<open>\<open>io.ReadFull\<close> fills the whole buffer or fails.\<close>

definition fills :: "nat \<Rightarrow> string + string \<Rightarrow> bool" where
  "fills n random \<longleftrightarrow> (case random of Inl _ \<Rightarrow> True | Inr r \<Rightarrow> length r = n)"

section \<open>The package cryptoutil\<close>

definition Encrypt :: "Aead \<Rightarrow> string option \<Rightarrow> string + string \<Rightarrow> string \<Rightarrow> string + string" where
  "Encrypt A key random plaintext =
     (case key of None \<Rightarrow> Inl ''cryptoutil: not initialized'' | Some k \<Rightarrow> seal_hex A random k plaintext)"

definition Decrypt :: "Aead \<Rightarrow> string option \<Rightarrow> string \<Rightarrow> string + string" where
  "Decrypt A key cipherHex =
     (case key of
        None \<Rightarrow> Inl ''cryptoutil: not initialized''
      | Some k \<Rightarrow>
          (case hex_decode cipherHex of
             None \<Rightarrow> Inl hex_error
           | Some raw \<Rightarrow> open_raw A ''cryptoutil: ciphertext too short'' k raw))"

text \<open>
  The file with a key: its content, or none if it cannot be read. \<open>werr\<close> is the error of writing it. The two variants of the
  source differ in the least length of the content and the text of errors.
\<close>

definition key_of :: "string \<Rightarrow> string option" where
  "key_of data = (case hex_decode (trim_space data) of Some k \<Rightarrow> if length k = 32 then Some k else None | None \<Rightarrow> None)"

definition loadOrCreate :: "string + string \<Rightarrow> string option \<Rightarrow> string option \<Rightarrow> string option \<times> (string + string)" where
  "loadOrCreate random werr file =
     (case Option.bind file key_of of
        Some k \<Rightarrow> (file, Inr k)
      | None \<Rightarrow>
          (case random of
             Inl err \<Rightarrow> (file, Inl (''cryptoutil: generate key: '' @ err))
           | Inr k \<Rightarrow>
               (case werr of
                  Some err \<Rightarrow> (file, Inl (''cryptoutil: save key: '' @ err))
                | None \<Rightarrow> (Some (hex_encode k), Inr k))))"

text \<open>\<open>Init\<close>: the key of the package and the file afterwards, and the error; \<open>dir\<close> is the error of making the directory.\<close>

definition Init :: "string + string \<Rightarrow> string option \<Rightarrow> string option \<Rightarrow> string \<Rightarrow> string option \<times> string option \<Rightarrow>
    (string option \<times> string option) \<times> string option" where
  "Init random werr dir dataDir s =
     (case s of (key, file) \<Rightarrow>
        if key \<noteq> None then (s, None)
        else if dataDir = [] then (s, Some ''cryptoutil: dataDir is empty'')
        else case dir of
          Some err \<Rightarrow> (s, Some (''cryptoutil: create data dir: '' @ err))
        | None \<Rightarrow>
            (case loadOrCreate random werr file of
               (file, Inl err) \<Rightarrow> ((None, file), Some err)
             | (file, Inr k) \<Rightarrow> ((Some k, file), None)))"

definition Ready :: "string option \<times> string option \<Rightarrow> bool" where
  "Ready s \<longleftrightarrow> fst s \<noteq> None"

section \<open>Keys of AI providers\<close>

definition ai_encryptString :: "Aead \<Rightarrow> string + string \<Rightarrow> string \<Rightarrow> string \<Rightarrow> string + string" where
  "ai_encryptString A random key plaintext = seal_hex A random key plaintext"

definition ai_decryptString :: "Aead \<Rightarrow> string \<Rightarrow> string \<Rightarrow> string + string" where
  "ai_decryptString A key cipherHex =
     (case hex_decode cipherHex of None \<Rightarrow> Inl hex_error | Some raw \<Rightarrow> open_raw A ''ciphertext too short'' key raw)"

definition loadOrCreateEncKey :: "string + string \<Rightarrow> string option \<Rightarrow> string option \<Rightarrow> string option \<times> (string + string)" where
  "loadOrCreateEncKey random werr file =
     (case Option.bind file (\<lambda>data. if 32 \<le> length data then key_of data else None) of
        Some k \<Rightarrow> (file, Inr k)
      | None \<Rightarrow>
          (case random of
             Inl err \<Rightarrow> (file, Inl (''generate encryption key: '' @ err))
           | Inr k \<Rightarrow>
               (case werr of
                  Some err \<Rightarrow> (file, Inl (''save encryption key: '' @ err))
                | None \<Rightarrow> (Some (hex_encode k), Inr k))))"

text \<open>The repository in MongoDB encrypts and decrypts nothing as nothing, and says in which step it failed.\<close>

definition encryptString :: "Aead \<Rightarrow> string + string \<Rightarrow> string \<Rightarrow> string \<Rightarrow> string + string" where
  "encryptString A random key plaintext =
     (if plaintext = [] then Inr []
      else if \<not> key_size_ok key then Inl (''create cipher: '' @ key_size_error key)
      else case random of
        Inl err \<Rightarrow> Inl (''generate nonce: '' @ err)
      | Inr nonce \<Rightarrow> Inr (hex_encode (nonce @ ae_seal A key nonce plaintext)))"

definition decryptString :: "Aead \<Rightarrow> string \<Rightarrow> string \<Rightarrow> string + string" where
  "decryptString A key cipherHex =
     (if cipherHex = [] then Inr []
      else case hex_decode cipherHex of
        None \<Rightarrow> Inl (''decode hex: '' @ hex_error)
      | Some raw \<Rightarrow>
          if \<not> key_size_ok key then Inl (''create cipher: '' @ key_size_error key)
          else if length raw < NonceSize then Inl ''ciphertext too short''
          else case ae_open A key (take NonceSize raw) (drop NonceSize raw) of
                 None \<Rightarrow> Inl ''decrypt: cipher: message authentication failed''
               | Some plaintext \<Rightarrow> Inr plaintext)"

section \<open>What was encrypted is read back\<close>

lemma open_sealed:
  assumes "aead_ok A" and "fills NonceSize (Inr nonce)" and "seal_hex A (Inr nonce) key p = Inr c"
  shows "\<exists>raw. hex_decode c = Some raw \<and> open_raw A short key raw = Inr p"
  using assms by (intro exI [of _ "nonce @ ae_seal A key nonce p"]) (auto simp: seal_hex_def open_raw_def aead_ok_def fills_def split: if_splits)

lemma decrypt_encrypted:
  assumes "aead_ok A" and "fills NonceSize (Inr nonce)" and "encryptString A (Inr nonce) key p = Inr c"
  shows "decryptString A key c = Inr p"
proof (cases "p = []")
  case False
  with assms(3) have k: "key_size_ok key" and c: "c = hex_encode (nonce @ ae_seal A key nonce p)"
    by (auto simp: encryptString_def split: if_splits)
  have "c \<noteq> []" using assms(2) by (cases nonce) (auto simp: c hex_encode_simps NonceSize_def fills_def)
  then show ?thesis using assms(1,2) k by (simp add: decryptString_def c aead_ok_def fills_def)
qed (use assms(3) in \<open>simp add: encryptString_def decryptString_def\<close>)

text \<open>A key that was created is found again by the next start.\<close>

lemma created_key_is_found:
  assumes "loadOrCreate random werr file = (file', Inr k)" and "fills 32 random"
  shows "loadOrCreate random' werr' file' = (file', Inr k)"
proof (cases "Option.bind file key_of")
  case (Some k')
  with assms(1) show ?thesis by (auto simp: loadOrCreate_def)
next
  case None
  with assms have "file' = Some (hex_encode k)" and "length k = 32"
    by (auto simp: loadOrCreate_def fills_def split: sum.splits option.splits)
  then show ?thesis by (simp add: loadOrCreate_def key_of_def hex_encode_no_space)
qed

text \<open>
  C4: what one run of the program encrypts for a check or a server, another run with the same key file decrypts to the same text: the
  first start makes a key and stores it, every later start finds it. This is what the stored passwords rest on, if
  AES-GCM opens what it has sealed.
\<close>

theorem secrets_survive_restarts:
  assumes "aead_ok A" and "fills NonceSize (Inr nonce)" and "fills 32 random"
    and "Init random werr dir dataDir (None, file) = ((key, file'), None)"
    and "Encrypt A key (Inr nonce) p = Inr c"
    and "Init random' werr' None dataDir (None, file') = ((key', file''), err)"
  shows "err = None \<and> file'' = file' \<and> Decrypt A key' c = Inr p"
proof -
  obtain k where k: "key = Some k" and l: "loadOrCreate random werr file = (file', Inr k)" and d: "dataDir \<noteq> []"
    using assms(4) by (auto simp: Init_def split: if_splits option.splits prod.splits sum.splits)
  have l': "loadOrCreate random' werr' file' = (file', Inr k)" by (rule created_key_is_found [OF l assms(3)])
  then have "key' = Some k" "file'' = file'" "err = None"
    using assms(6) d by (simp_all add: Init_def)
  moreover have "seal_hex A (Inr nonce) k p = Inr c" using assms(5) by (simp add: Encrypt_def k)
  ultimately show ?thesis
    using open_sealed [OF assms(1,2), of k p c "''cryptoutil: ciphertext too short''"] by (auto simp: Decrypt_def)
qed

text \<open>
  But a key file that cannot be read for a moment is taken for none, and is overwritten: then all that was encrypted is lost.
\<close>

lemma unreadable_key_is_replaced:
  "loadOrCreate (Inr r) None None = (Some (hex_encode r), Inr r)"
  by (simp add: loadOrCreate_def)

section \<open>The property at work\<close>

text \<open>A cipher that puts the key in front.\<close>

definition plain_aead :: Aead where
  "plain_aead = \<lparr>ae_seal = (\<lambda>k n p. k @ p), ae_open = (\<lambda>k n c. if has_prefix c k then Some (drop (length k) c) else None)\<rparr>"

lemma plain_aead_ok: "aead_ok plain_aead"
  by (simp add: aead_ok_def plain_aead_def)

lemma secrets_survive_restarts_witness:
  "\<exists>key file c. Init (Inr (replicate 32 CHR ''k'')) None None ''data'' (None, None) = ((key, file), None) \<and>
    Encrypt plain_aead key (Inr (replicate 12 CHR ''n'')) ''secret'' = Inr c \<and>
    Decrypt plain_aead (fst (fst (Init (Inl ''no entropy'') None None ''data'' (None, file)))) c = Inr ''secret''"
proof -
  let ?k = "replicate 32 CHR ''k''" and ?n = "replicate 12 CHR ''n''"
  have i: "Init (Inr ?k) None None ''data'' (None, None) = ((Some ?k, Some (hex_encode ?k)), None)"
    by (simp add: Init_def loadOrCreate_def)
  have e: "Encrypt plain_aead (Some ?k) (Inr ?n) ''secret'' = Inr (hex_encode (?n @ ?k @ ''secret''))"
    by (simp add: Encrypt_def seal_hex_def key_size_ok_def plain_aead_def)
  obtain key' file'' err where j: "Init (Inl ''no entropy'') None None ''data'' (None, Some (hex_encode ?k)) = ((key', file''), err)"
    by (metis prod.exhaust)
  from secrets_survive_restarts [OF plain_aead_ok _ _ i e j]
  have d: "Decrypt plain_aead key' (hex_encode (?n @ ?k @ ''secret'')) = Inr ''secret''" by (simp add: NonceSize_def fills_def)
  show ?thesis by (intro exI conjI, rule i, rule e) (simp only: j fst_conv d)
qed

end
