(* ===== verification/Spec2Isabelle.thy ===== *)
theory Spec2Isabelle
  imports AlertPipeline MySQLRules Queues RateLimit Maintenance Scheduler Runner Remediation Notify Auth
    ServerMetrics Automation CheckAPI PageView Frontend MongoIncidents
    Dashboards Degraded Rca MongoUsers Servers Sealed
begin

text \<open>
  This development models HealthOps, a monitoring service written in Go (\<open>src/backend\<close>), and proves
  what its core promises. HealthOps runs configured checks on a schedule, stores their results,
  evaluates alert rules on them, and keeps incidents, notifications and AI analysis requests for the
  checks that fail.

  \<^bold>\<open>How the parts interact.\<close> The scheduler (\<open>scheduler.go\<close>) runs each check through the runner
  (\<open>runner.go\<close>), which calls the executor that the registry (\<open>check_registry.go\<close>) holds for the check's
  type and writes the result to the store
  (\<open>store.go\<close>, \<open>hybrid_store.go\<close>). Every result goes on to \<open>Service.handleAlertResults\<close>
  (\<open>service.go\<close>), which counts consecutive failures, evaluates the alert rules (\<open>alert_rules.go\<close>),
  holds alerts back during maintenance (\<open>maintenance.go\<close>) and below a check's threshold, and opens,
  updates or resolves incidents (\<open>incident_manager.go\<close>). MySQL checks have rules of their own with
  hysteresis (\<open>mysql_rules.go\<close>). Incidents go to the notification dispatcher (\<open>notify/dispatcher.go\<close>),
  which batches them, picks the channels (\<open>notify/channels.go\<close>) and records what it sends in the outbox
  (\<open>notify/outbox.go\<close>), to the AI queue (\<open>ai/queue.go\<close>), and to the remediation engine
  (\<open>remediation/\<close>), which runs registered commands under its limits. The HTTP API is guarded by the
  authentication middleware (\<open>auth.go\<close>, \<open>users.go\<close>) and a rate limiter (\<open>httpx/ratelimit.go\<close>).

  \<^bold>\<open>Theories.\<close>

  \<^item> \<open>Prelude\<close>: Go's 64-bit integers, \<open>time.Time\<close> and \<open>time.Duration\<close>, strings, and the loop that
    changes the first matching element of a slice, with the lemmas shared by all.
  \<^item> \<open>Float64\<close>: \<open>float64\<close> as rationals rounded to 53 bits; \<open>Duration.Seconds\<close>.
  \<^item> \<open>Calendar\<close>: \<open>time.Date\<close>, the accessors of a time and \<open>AddDate\<close> in a location with a fixed offset;
    civil dates and day numbers are inverse.
  \<^item> \<open>Model\<close>: the structs of \<open>types.go\<close> and \<open>check_plugin_types.go\<close> as records, field by field.
  \<^item> \<open>Summaries\<close>: retention, filters and the dashboard summary of \<open>service.go\<close>; their counts are
    those of a specification by filters.
  \<^item> \<open>Stores\<close>: \<open>FileStore\<close>, \<open>HybridStore\<close> and the database mirror. The locale \<open>store\<close> is their common
    contract, interpreted for both; the database is a parameter.
  \<^item> \<open>AlertRules\<close>: conditions, rules, validation and the engine with its cooldown.
  \<^item> \<open>Incidents\<close>: the repository contract as the locale \<open>incident_repository\<close>, interpreted for the
    in-memory repository, and the incident manager as a step relation with its invariant.
  \<^item> \<open>AlertPipeline\<close>: \<open>handleAlertResults\<close>, from results to incidents, over any such repository.
  \<^item> \<open>MySQLRules\<close>: counter deltas and the rule engine with streaks, as a refinement of independent
    two-state machines.
  \<^item> \<open>Queues\<close>: the outbox and the AI queue over JSON-lines files; the locale \<open>pending_list\<close> holds what
    their listings share, interpreted for both.
  \<^item> \<open>RateLimit\<close>: the counters per address, grouped into windows.
  \<^item> \<open>Maintenance\<close>: windows with recurrence, their store and the handlers that change it.
  \<^item> \<open>Heartbeat\<close>: the ping store, the endpoint and the executor of heartbeat checks.
  \<^item> \<open>Scheduler\<close>: retries, cooldown, timers and loops as a step relation.
  \<^item> \<open>Runner\<close>: executing and recording checks. The locale \<open>check_executor\<close> is the contract of an
    executor, interpreted for heartbeat checks; its lemmas about stores stand in the locale \<open>store\<close>.
  \<^item> \<open>Redact\<close>: the redaction of secrets in command output; its loop edits the string it scans, so it is a
    \<open>partial_function\<close> that is proved to return.
  \<^item> \<open>Remediation\<close>: admission of a command by the switch, the registry and the limits, the runs and
    their records, over any repository that keeps the contract of its locale.
  \<^item> \<open>Channels\<close>: notification channels, their validation, their masked views, the file store and the
    adapter to the production store.
  \<^item> \<open>Notify\<close>: the dispatcher: batching window, filters, cooldowns, duplicate tracking, delivery with its
    record in the outbox, and the texts of a digest.
  \<^item> \<open>Auth\<close>: tokens with base64 written out, the middleware, the file-backed user store with its
    invariant, and the handlers of the user API.
  \<^item> \<open>Config\<close>: the defaults and the validation of every check type, server and setting, and
    \<open>LoadConfig\<close> (\<open>config.go\<close>, \<open>validation.go\<close>, \<open>check_domain.go\<close>): what it accepts is well formed, and loading it
    again changes nothing.
  \<^item> \<open>Checks\<close>: the executors of the checks (\<open>check_*.go\<close>) over a record of what the outside world answers;
    each is an interpretation of the locale \<open>check_executor\<close>.
  \<^item> \<open>ServerMetrics\<close>: the SSH check, the parser of the collector's output (\<open>ssh_collector.go\<close>), the metrics
    snapshots of a server, and the registry of all executors.
  \<^item> \<open>Secrets\<close>: how credentials are encrypted before storing, masked in responses and used.
  \<^item> \<open>MongoStore\<close>: the store of the running service, a cache written through to the database, and its
    start; cache and database agree.
  \<^item> \<open>CheckAPI\<close>: the handlers that create, update and delete checks, with the sharing between the cached
    check and its copies written out.
  \<^item> \<open>Automation\<close>: the engine of suggested actions (\<open>automation/\<close>), from the provider's answer to the
    decision of a person, with histories as a step relation and its invariant.
  \<^item> \<open>FloatOrder\<close>, \<open>Latest\<close>: rounding keeps the order of numbers; the latest result of each check, chosen
    orders of maps and sorting, dates as text.
  \<^item> \<open>PageText\<close>, \<open>StatusPages\<close>, \<open>PageView\<close>: public status pages (\<open>status_page.go\<close>, \<open>status_page_api.go\<close>): the
    titles of incidents, the store and the states of components, and the HTML.
  \<^item> \<open>Analytics\<close>: uptime, response times and failure rates (\<open>analytics.go\<close>), with the rounding of the numbers.
  \<^item> \<open>Documents\<close>: a MongoDB collection as a record of calls, and what its documentation promises of them;
    \<open>AuditTrail\<close>: the audit log in a file and in a collection (\<open>audit.go\<close>, \<open>mongo_audit_repository.go\<close>).
  \<^item> \<open>Keyed\<close>: a collection with keys as a finite map; \<open>MongoIncidents\<close>: the incident repository of the running
    program over it (\<open>mongo_incident_repository.go\<close>).
  \<^item> \<open>Dashboards\<close>: custom dashboards with their access control (\<open>custom_dashboard.go\<close>, \<open>custom_dashboard_api.go\<close>).
  \<^item> \<open>Frontend\<close>: the configuration, the alert rules with their file, incident pages and events
    (\<open>frontend_api.go\<close>).
  \<^item> \<open>Degraded\<close>: the watchdog on the database, its incident and the middleware (\<open>degraded_mode.go\<close>).
  \<^item> \<open>Recommend\<close>: recommendations and their handler (\<open>recommendations/\<close>), with the percentiles behind the thresholds.
  \<^item> \<open>Evidence\<close>, \<open>Brief\<close>: the evidence of an incident, its limit, the prompt and the confidence; the ledger, the
    brief, its repository and handlers (\<open>evidence/\<close>, \<open>mysql_incident_evidence.go\<close>).
  \<^item> \<open>Rca\<close>: root cause analysis (\<open>rca/\<close>): the series and events around an incident, the prompts, the reports in
    memory and in a collection, and the handlers.
  \<^item> \<open>MongoUsers\<close>: the accounts of the running program (\<open>mongo_user_repository.go\<close>, \<open>user_store_adapter.go\<close>) over
    \<open>Keyed\<close>, with the account made at the start.
  \<^item> \<open>Servers\<close>: remote servers, their repository, the copies the service keeps, and the handlers
    (\<open>server_repository.go\<close>, \<open>server_api.go\<close>).
  \<^item> \<open>Sealed\<close>: encryption at rest (\<open>cryptoutil/\<close> and the helpers for the keys of AI providers) over AES-GCM as a
    record of two functions; what one run encrypts the next decrypts.
  \<^item> This theory: properties that span components.

  \<^bold>\<open>Conventions.\<close> A struct is a record under a short prefix, a pointer that may be nil an \<open>option\<close>, a
  map a function to \<open>option\<close> or an association list where its order is visible, an error a value of
  \<open>option\<close> or a sum. The clock, file writes that may fail, random values and the results of calls
  outside the program are arguments. Operations that hold a mutex throughout are atomic; where the
  code takes and releases it, the interleavings are those of a step relation. Where a map is ranged
  over, the order is an argument.

  \<^bold>\<open>Bounds.\<close> Durations and counters are integers with the 64-bit wrap-around written out (\<open>wrap64\<close>)
  wherever the code can reach it; the hypotheses of the properties name the ranges in which it does
  not. No definition needs fuel: a loop is a recursion over a list, over the number of attempts left
  or over the rest of a string (by \<open>function\<close> with its measure where that is not structural), and the
  one loop that is not is proved to return. Strings are byte strings with ASCII case conversion;
  \<open>float64\<close> leaves out NaN, infinities and the sign of zero; daylight saving is not modelled.

  \<^bold>\<open>Not modelled.\<close> Code that performs I/O (the network protocols below the executors, MySQL sampling
  over SQL, SMTP and webhooks, HTTP routing and JSON); the MongoDB repositories other than those of incidents,
  audit events, evidence, briefs, reports, users and servers, which query their collections the same way;
  the configuration of AI providers, their HTTP protocols and the worker that calls them, with the chat
  and the assistant on top; log analysis by regular expressions; exports, metrics and help texts; the
  programs that wire the parts. The text of the brief's system prompt is an argument. The manifest lists
  each part with its reason.
\<close>

section \<open>Retries and the failure threshold\<close>

lemma callback_results:
  "concat (callback_batches attempts) = [r. Inr r \<leftarrow> attempts]"
  by (induction attempts) (auto simp: callback_batches_def split: sum.splits)

text \<open>Attempts that all fail with a result are made to the last.\<close>

lemma failing_attempts:
  assumes "\<forall>k. run_attempt env k = Inr (res k) \<and> \<not> res_Healthy (res k)" and "\<forall>k. \<not> run_done env k"
  shows "run_attempts env a n = (map (\<lambda>k. Inr (res k)) [a ..< a + n], Exhausted)"
  using assms
proof (induction env a n rule: run_attempts.induct)
  case (2 env a n)
  then show ?case by (simp add: upt_rec [of a])
qed simp

text \<open>
  C37: Let every attempt of a scheduled run of a check fail with a result, and let the scheduler hand the
  results to the service as it does, whatever the rules, maintenance windows and stored checks are.
  Then that one run counts as \<open>RetryCount + 1\<close> consecutive failures; with at least
  \<open>FailuresToOpen - 1\<close> retries the first failed run already reaches the threshold.
\<close>

theorem retries_count_as_failures:
  assumes "\<not> sch_cancelled s" and "\<not> in_sch_cooldown (run_now env) (chk_ID c) s" and "0 \<le> chk_RetryCount c"
    and "\<forall>k. run_attempt env k = Inr (res k) \<and> \<not> res_Healthy (res k) \<and> res_CheckID (res k) = chk_ID c"
    and "\<forall>k. \<not> run_done env k"
    and "map (\<lambda>(_, _, _, results). results) batches = callback_batches (snd (runCheck env c s))"
  shows "consecutiveFailures (svc_tracker (run_batches repo batches (NewAlertService rules im))) (chk_ID c) =
      chk_RetryCount c + 1 \<and>
    (chk_FailuresToOpen c \<le> chk_RetryCount c + 1 \<longrightarrow>
      \<not> consecutiveFailures (svc_tracker (run_batches repo batches (NewAlertService rules im))) (chk_ID c) <
        failure_threshold c)"
proof -
  let ?n = "nat (chk_RetryCount c) + 1"
  let ?rs = "map res [0 ..< ?n]"
  have "snd (runCheck env c s) = map (\<lambda>k. Inr (res k)) [0 ..< ?n]"
    using assms(1-3) failing_attempts [of env res 0 ?n] assms(4,5)
    by (simp add: runCheck_def getCheckRetryCount_def Let_def split: prod.splits)
  then have "concat (map (\<lambda>(_, _, _, results). results) batches) = ?rs"
    unfolding assms(6) callback_results by (simp add: concat_map_singleton o_def del: upt_Suc)
  then have "svc_tracker (run_batches repo batches (NewAlertService rules im)) =
      updateConsecutiveTrackers ?rs Map.empty"
    by (simp add: tracker_run_batches NewAlertService_def)
  moreover have "history_of (chk_ID c) ?rs = ?rs"
    using assms(4) by (simp add: history_of_def filter_id_conv)
  moreover have "takeWhile (\<lambda>r. \<not> res_Healthy r) (rev ?rs) = rev ?rs"
    using assms(4) by (simp add: takeWhile_eq_all_conv)
  ultimately have "consecutiveFailures (svc_tracker (run_batches repo batches (NewAlertService rules im))) (chk_ID c) =
      int (length (rev ?rs))"
    using tracker_counts [of ?rs "chk_ID c"] by (simp only: trailing_def)
  then show ?thesis using assms(3) by (simp add: failure_threshold_def)
qed

text \<open>One retry: the run leaves two consecutive failures.\<close>

theorem retries_count_as_failures_witness:
  "consecutiveFailures (svc_tracker (run_batches (memory_repo id)
     (replicate 2 (5, None, empty_state, [zero_result\<lparr>res_CheckID := ''c''\<rparr>])) (NewAlertService [] None))) ''c'' = 2"
proof -
  let ?r = "zero_result\<lparr>res_CheckID := ''c''\<rparr>"
  let ?env = "failing_env\<lparr>run_attempt := (\<lambda>_. Inr ?r)\<rparr>"
  have "\<not> sch_cancelled started" "sch_cooldowns started ''c'' = None" by code_simp+
  moreover have "chk_ID flaky_check = ''c''" "chk_RetryCount flaky_check = 1" by (simp_all add: flaky_check_def)
  moreover have "snd (runCheck ?env flaky_check started) = [Inr ?r, Inr ?r]" by code_simp
  ultimately show ?thesis
    using retries_count_as_failures [where s = started and env = ?env and c = flaky_check and res = "\<lambda>_. ?r"
        and batches = "replicate 2 (5, None, empty_state, [?r])" and repo = "memory_repo id" and rules = "[]" and im = None]
    by (simp add: in_sch_cooldown_def failing_env_def callback_batches_def zero_result_def numeral_2_eq_2)
qed

end
